(* ===== verification/Prelude.thy ===== *)
theory Prelude
  imports Complex_Main "HOL-Library.AList"
begin

text \<open>
  Shared vocabulary of the development: Go's \<open>float64\<close> with its special values,
  \<open>time.Time\<close> and \<open>time.Duration\<close>, Go maps, decoded JSON fields, and the generic
  interface of a machine whose steps keep an invariant.

  \<^item> A \<open>float64\<close> is \<^emph>\<open>f64\<close>: a real number or one of the three special values, with the IEEE
    rules for special values. The one idealisation is that finite arithmetic is exact; rounding
    and overflow to an infinity are not modelled. Code that has no test for special values and
    only computes on values that have passed one is written over \<^typ>\<open>real\<close>.
  \<^item> A \<open>time.Time\<close> is its instant in nanoseconds since the Unix epoch, \<^emph>\<open>zeroTime\<close> is Go's
    zero value (1 January of year 1, UTC). A \<open>time.Duration\<close> is its nanoseconds; \<open>Sub\<close>
    saturates at the ends of the \<open>int64\<close> range as Go's does.
  \<^item> A Go map is an association list. Go iterates a map in an unspecified order: the list order
    is one such order.
\<close>

named_theorems f64_simps \<open>evaluation of float64 operations on finite values\<close>
named_theorems time_simps \<open>unfolding of time and duration constants\<close>
named_theorems gomap_simps \<open>lookup after update or delete in a Go map\<close>

section \<open>float64\<close>

datatype f64 = Fin real | PInf | NInf | NaN

fun f64_add :: "f64 \<Rightarrow> f64 \<Rightarrow> f64" where
  "f64_add (Fin a) (Fin b) = Fin (a + b)"
| "f64_add NaN _ = NaN"
| "f64_add _ NaN = NaN"
| "f64_add PInf NInf = NaN"
| "f64_add NInf PInf = NaN"
| "f64_add PInf _ = PInf"
| "f64_add _ PInf = PInf"
| "f64_add NInf _ = NInf"
| "f64_add _ NInf = NInf"

fun f64_neg :: "f64 \<Rightarrow> f64" where
  "f64_neg (Fin a) = Fin (- a)"
| "f64_neg PInf = NInf"
| "f64_neg NInf = PInf"
| "f64_neg NaN = NaN"

definition f64_inf :: "real \<Rightarrow> f64" where
  "f64_inf s = (if s > 0 then PInf else if s < 0 then NInf else NaN)"

fun f64_mul :: "f64 \<Rightarrow> f64 \<Rightarrow> f64" where
  "f64_mul (Fin a) (Fin b) = Fin (a * b)"
| "f64_mul NaN _ = NaN"
| "f64_mul _ NaN = NaN"
| "f64_mul PInf PInf = PInf"
| "f64_mul NInf NInf = PInf"
| "f64_mul PInf NInf = NInf"
| "f64_mul NInf PInf = NInf"
| "f64_mul PInf (Fin b) = f64_inf b"
| "f64_mul (Fin a) PInf = f64_inf a"
| "f64_mul NInf (Fin b) = f64_inf (- b)"
| "f64_mul (Fin a) NInf = f64_inf (- a)"

text \<open>A quotient by zero takes its sign from the dividend: the model has one zero, so it
  describes division by positive zero.\<close>

fun f64_div :: "f64 \<Rightarrow> f64 \<Rightarrow> f64" where
  "f64_div (Fin a) (Fin b) = (if b = 0 then f64_inf a else Fin (a / b))"
| "f64_div NaN _ = NaN"
| "f64_div _ NaN = NaN"
| "f64_div (Fin a) _ = Fin 0"
| "f64_div PInf (Fin b) = (if b < 0 then NInf else PInf)"
| "f64_div NInf (Fin b) = (if b < 0 then PInf else NInf)"
| "f64_div _ _ = NaN"

text \<open>Comparisons are false as soon as one side is NaN.\<close>

fun f64_lt :: "f64 \<Rightarrow> f64 \<Rightarrow> bool" where
  "f64_lt (Fin a) (Fin b) = (a < b)"
| "f64_lt NaN _ = False"
| "f64_lt _ NaN = False"
| "f64_lt NInf b = (b \<noteq> NInf)"
| "f64_lt _ NInf = False"
| "f64_lt PInf _ = False"
| "f64_lt _ PInf = True"

instantiation f64 :: "{zero, plus, minus, uminus, times, inverse, ord}"
begin

definition zero_f64 :: f64 where "0 = Fin 0"
definition plus_f64 :: "f64 \<Rightarrow> f64 \<Rightarrow> f64" where "a + b = f64_add a b"
definition uminus_f64 :: "f64 \<Rightarrow> f64" where "- a = f64_neg a"
definition minus_f64 :: "f64 \<Rightarrow> f64 \<Rightarrow> f64" where "a - b = f64_add a (f64_neg b)"
definition times_f64 :: "f64 \<Rightarrow> f64 \<Rightarrow> f64" where "a * b = f64_mul a b"
definition inverse_f64 :: "f64 \<Rightarrow> f64" where "inverse a = f64_div (Fin 1) a"
definition divide_f64 :: "f64 \<Rightarrow> f64 \<Rightarrow> f64" where "a div b = f64_div a b"
definition less_f64 :: "f64 \<Rightarrow> f64 \<Rightarrow> bool" where "a < b = f64_lt a b"
definition less_eq_f64 :: "f64 \<Rightarrow> f64 \<Rightarrow> bool" where
  "a \<le> b = (f64_lt a b \<or> (a = b \<and> a \<noteq> NaN))"

instance ..

end

text \<open>\<open>math.IsNaN\<close> and \<open>math.IsInf(v, 0)\<close> together: the code's \<open>finite\<close>.\<close>

fun isFinite :: "f64 \<Rightarrow> bool" where
  "isFinite (Fin _) = True"
| "isFinite _ = False"

text \<open>The number of a finite value. It is applied only behind a test for special values.\<close>

fun fval :: "f64 \<Rightarrow> real" where
  "fval (Fin a) = a"
| "fval _ = 0"

text \<open>\<open>math.Abs\<close>, \<open>math.Min\<close> and \<open>math.Max\<close>: a NaN argument gives NaN, except beside the
  infinity that already decides the result.\<close>

fun f64_abs :: "f64 \<Rightarrow> f64" where
  "f64_abs (Fin a) = Fin \<bar>a\<bar>"
| "f64_abs NaN = NaN"
| "f64_abs _ = PInf"

fun f64_min :: "f64 \<Rightarrow> f64 \<Rightarrow> f64" where
  "f64_min (Fin a) (Fin b) = Fin (min a b)"
| "f64_min NInf _ = NInf"
| "f64_min _ NInf = NInf"
| "f64_min NaN _ = NaN"
| "f64_min _ NaN = NaN"
| "f64_min PInf b = b"
| "f64_min a PInf = a"

fun f64_max :: "f64 \<Rightarrow> f64 \<Rightarrow> f64" where
  "f64_max (Fin a) (Fin b) = Fin (max a b)"
| "f64_max PInf _ = PInf"
| "f64_max _ PInf = PInf"
| "f64_max NaN _ = NaN"
| "f64_max _ NaN = NaN"
| "f64_max NInf b = b"
| "f64_max a NInf = a"

lemma f64_Fin_simps [simp, f64_simps]:
  "Fin a + Fin b = Fin (a + b)" "Fin a - Fin b = Fin (a - b)" "- Fin a = Fin (- a)"
  "Fin a * Fin b = Fin (a * b)" "Fin a < Fin b \<longleftrightarrow> a < b" "Fin a \<le> Fin b \<longleftrightarrow> a \<le> b"
  by (auto simp: plus_f64_def minus_f64_def uminus_f64_def times_f64_def less_f64_def
      less_eq_f64_def)

lemma f64_Fin_div [simp, f64_simps]: "b \<noteq> 0 \<Longrightarrow> Fin a / Fin b = Fin (a / b)"
  by (simp add: divide_f64_def)

lemma f64_NaN_cmp [simp, f64_simps]:
  "\<not> NaN < a" "\<not> a < NaN" "\<not> NaN \<le> a" "\<not> a \<le> NaN"
  by (cases a; simp add: less_f64_def less_eq_f64_def)+

lemma isFinite_iff: "isFinite a \<longleftrightarrow> (\<exists>r. a = Fin r)"
  by (cases a) auto

lemma isFinite_Fin_fval [simp]: "isFinite a \<Longrightarrow> Fin (fval a) = a"
  by (cases a) auto

lemma f64_max_finite:
  "isFinite a \<Longrightarrow> isFinite b \<Longrightarrow> f64_max a b = Fin (max (fval a) (fval b))"
  by (cases a; cases b) auto

lemma f64_min_finite:
  "isFinite a \<Longrightarrow> isFinite b \<Longrightarrow> f64_min a b = Fin (min (fval a) (fval b))"
  by (cases a; cases b) auto

lemma f64_le_finite: "isFinite a \<Longrightarrow> isFinite b \<Longrightarrow> a \<le> b \<longleftrightarrow> fval a \<le> fval b"
  by (cases a; cases b) auto

lemma f64_less_finite: "isFinite a \<Longrightarrow> isFinite b \<Longrightarrow> a < b \<longleftrightarrow> fval a < fval b"
  by (cases a; cases b) auto

lemma isFinite_max [simp]: "isFinite a \<Longrightarrow> isFinite b \<Longrightarrow> isFinite (f64_max a b)"
  by (simp add: f64_max_finite)

lemma isFinite_min [simp]: "isFinite a \<Longrightarrow> isFinite b \<Longrightarrow> isFinite (f64_min a b)"
  by (simp add: f64_min_finite)

lemmas f64_finite_cmp = f64_max_finite f64_min_finite f64_le_finite f64_less_finite

section \<open>Time\<close>

type_synonym time = int
type_synonym duration = int

definition zeroTime :: time where "zeroTime = - 62135596800000000000"

definition isZero :: "time \<Rightarrow> bool" where "isZero t = (t = zeroTime)"

abbreviation (input) ns_per_s :: int where "ns_per_s \<equiv> 1000000000"

definition second :: duration where [time_simps]: "second = 1000000000"
definition minute :: duration where [time_simps]: "minute = 60 * second"
definition hour :: duration where [time_simps]: "hour = 60 * minute"

definition maxDuration :: duration where "maxDuration = 9223372036854775807"
definition minDuration :: duration where "minDuration = - 9223372036854775808"

text \<open>\<open>t.Sub(u)\<close>.\<close>

definition tsub :: "time \<Rightarrow> time \<Rightarrow> duration" where
  "tsub t u = max minDuration (min maxDuration (t - u))"

text \<open>\<open>t.Unix()\<close> and \<open>t.UnixMilli()\<close>: whole seconds and milliseconds, rounded down.\<close>

definition unixSec :: "time \<Rightarrow> int" where "unixSec t = t div 1000000000"
definition unixMilli :: "time \<Rightarrow> int" where "unixMilli t = t div 1000000"
definition fromUnixMilli :: "int \<Rightarrow> time" where "fromUnixMilli ms = ms * 1000000"

definition hours :: "duration \<Rightarrow> real" where "hours d = real_of_int d / 3600000000000"
definition seconds :: "duration \<Rightarrow> real" where "seconds d = real_of_int d / 1000000000"

lemma tsub_exact: "minDuration \<le> t - u \<Longrightarrow> t - u \<le> maxDuration \<Longrightarrow> tsub t u = t - u"
  by (simp add: tsub_def)

lemma tsub_gt_iff: "d < maxDuration \<Longrightarrow> minDuration \<le> d \<Longrightarrow> tsub t u > d \<longleftrightarrow> t - u > d"
  by (auto simp: tsub_def)

lemma tsub_le_iff: "d < maxDuration \<Longrightarrow> minDuration \<le> d \<Longrightarrow> tsub t u \<le> d \<longleftrightarrow> t - u \<le> d"
  by (auto simp: tsub_def)

lemma tsub_ge_iff: "d \<le> maxDuration \<Longrightarrow> minDuration < d \<Longrightarrow> tsub t u \<ge> d \<longleftrightarrow> t - u \<ge> d"
  by (auto simp: tsub_def)

lemma tsub_lt_iff: "d \<le> maxDuration \<Longrightarrow> minDuration < d \<Longrightarrow> tsub t u < d \<longleftrightarrow> t - u < d"
  by (auto simp: tsub_def)

lemma tsub_self [simp]: "tsub t t = 0"
  by (simp add: tsub_def minDuration_def maxDuration_def)

lemma hours_add: "hours (a + b) = hours a + hours b"
  by (simp add: hours_def add_divide_distrib)

lemma hours_mono: "a \<le> b \<Longrightarrow> hours a \<le> hours b"
  by (simp add: hours_def divide_right_mono)

lemmas tsub_cmp = tsub_gt_iff tsub_le_iff tsub_ge_iff tsub_lt_iff

section \<open>Go maps\<close>

type_synonym ('k, 'v) gomap = "('k \<times> 'v) list"

abbreviation mget :: "('k, 'v) gomap \<Rightarrow> 'k \<Rightarrow> 'v option" where "mget m k \<equiv> map_of m k"
abbreviation mset_at :: "'k \<Rightarrow> 'v \<Rightarrow> ('k, 'v) gomap \<Rightarrow> ('k, 'v) gomap" where
  "mset_at \<equiv> AList.update"
abbreviation mdel :: "'k \<Rightarrow> ('k, 'v) gomap \<Rightarrow> ('k, 'v) gomap" where "mdel \<equiv> AList.delete"

definition gomap_ok :: "('k, 'v) gomap \<Rightarrow> bool" where
  "gomap_ok m = distinct (map fst m)"

lemma mget_mset [simp, gomap_simps]: "mget (mset_at k v m) k' = (if k' = k then Some v else mget m k')"
  by (simp add: AList.update_conv')

lemma mget_mdel [simp, gomap_simps]: "mget (mdel k m) k' = (if k' = k then None else mget m k')"
  by (simp add: AList.delete_conv')

lemma gomap_ok_Nil [simp]: "gomap_ok []"
  by (simp add: gomap_ok_def)

lemma gomap_ok_mset [simp]: "gomap_ok m \<Longrightarrow> gomap_ok (mset_at k v m)"
  by (simp add: gomap_ok_def AList.distinct_update)

lemma gomap_ok_mdel [simp]: "gomap_ok m \<Longrightarrow> gomap_ok (mdel k m)"
  by (simp add: gomap_ok_def AList.distinct_delete)

lemma gomap_ok_map_vals [simp]: "gomap_ok (map (\<lambda>(k, v). (k, f k v)) m) = gomap_ok m"
  by (simp add: gomap_ok_def comp_def case_prod_beta)

lemma mget_map_vals [simp]: "mget (map (\<lambda>(k, v). (k, f k v)) m) k = map_option (f k) (mget m k)"
  by (induction m) auto

lemma gomap_ok_filter [simp]: "gomap_ok m \<Longrightarrow> gomap_ok (filter P m)"
  by (auto simp: gomap_ok_def distinct_map intro: inj_on_subset)

lemma mget_in_set: "mget m k = Some v \<Longrightarrow> (k, v) \<in> set m"
  by (rule map_of_SomeD)

lemma mget_iff: "gomap_ok m \<Longrightarrow> mget m k = Some v \<longleftrightarrow> (k, v) \<in> set m"
  by (simp add: gomap_ok_def)

lemma set_mset_at: "set (mset_at k v m) \<subseteq> insert (k, v) (set m)"
  by (induction m) auto

lemma set_mdel: "set (mdel k m) \<subseteq> set m"
  by (induction m) auto

lemma Ball_mset_at: "P (k, v) \<Longrightarrow> (\<forall>p \<in> set m. P p) \<Longrightarrow> \<forall>p \<in> set (mset_at k v m). P p"
  using set_mset_at [of k v m] by blast

lemma Ball_mdel: "(\<forall>p \<in> set m. P p) \<Longrightarrow> \<forall>p \<in> set (mdel k m). P p"
  using set_mdel [of k m] by blast

lemma mget_fold_mdel [simp, gomap_simps]:
  "mget (fold mdel ks m) k = (if k \<in> set ks then None else mget m k)"
  by (induction ks arbitrary: m) auto

lemma gomap_ok_fold_mdel [simp]: "gomap_ok m \<Longrightarrow> gomap_ok (fold mdel ks m)"
  by (induction ks arbitrary: m) auto

lemma mget_map_filter:
  "gomap_ok m \<Longrightarrow>
     mget (List.map_filter (\<lambda>(k, v). map_option (Pair k) (f v)) m) k = Option.bind (mget m k) f"
proof (induction m)
  case Nil
  then show ?case by (simp add: List.map_filter_simps)
next
  case (Cons p m)
  obtain k' v where p: "p = (k', v)" by force
  have "gomap_ok m" and "mget m k' = None"
    using Cons.prems by (auto simp: gomap_ok_def p map_of_eq_None_iff)
  with Cons.IH show ?case
    by (cases "f v") (auto simp: p List.map_filter_simps split: option.splits)
qed

lemma gomap_ok_map_filter [simp]:
  "gomap_ok m \<Longrightarrow> gomap_ok (List.map_filter (\<lambda>(k, v). map_option (Pair k) (f v)) m)"
proof (induction m)
  case (Cons p m)
  obtain k' v where p: "p = (k', v)" by force
  have "fst ` set (List.map_filter (\<lambda>(k, v). map_option (Pair k) (f v)) m) \<subseteq> fst ` set m"
    by (force simp: List.map_filter_def)
  with Cons show ?case
    by (cases "f v") (auto simp: gomap_ok_def p List.map_filter_simps)
qed (simp add: List.map_filter_simps)

section \<open>JSON documents as decoded fields\<close>

text \<open>
  A driver's \<open>json.RawMessage\<close> is modelled by what \<open>encoding/json\<close> makes of each key the code
  asks for: missing, an explicit null, a value of another JSON type (for which
  \<open>json.Unmarshal\<close> returns an error), or a value. The message itself is empty, not a JSON
  object, or an object of fields.
\<close>

datatype 'a jfield = Absent | Null | Bad | Val 'a

fun jptr :: "'a jfield \<Rightarrow> 'a option" where
  "jptr (Val a) = Some a"
| "jptr _ = None"

fun jbad :: "'a jfield \<Rightarrow> bool" where
  "jbad Bad = True"
| "jbad _ = False"

text \<open>Decoding into a field that is not a pointer leaves the zero value unless there is one.\<close>

fun jval :: "'a \<Rightarrow> 'a jfield \<Rightarrow> 'a" where
  "jval _ (Val a) = a"
| "jval z _ = z"

section \<open>Lists\<close>

text \<open>\<open>xs[len(xs)-n:]\<close> when \<open>len(xs) > n\<close>, else \<open>xs\<close>.\<close>

definition lastn :: "nat \<Rightarrow> 'a list \<Rightarrow> 'a list" where
  "lastn n xs = (if length xs > n then drop (length xs - n) xs else xs)"

lemma length_lastn [simp]: "length (lastn n xs) = min n (length xs)"
  by (simp add: lastn_def)

lemma set_lastn: "set (lastn n xs) \<subseteq> set xs"
  by (auto simp: lastn_def dest: in_set_dropD)

lemma last_lastn: "0 < n \<Longrightarrow> xs \<noteq> [] \<Longrightarrow> last (lastn n xs) = last xs"
  by (auto simp: lastn_def)

lemma sorted_wrt_lastn: "sorted_wrt P xs \<Longrightarrow> sorted_wrt P (lastn n xs)"
  by (simp add: lastn_def sorted_wrt_drop)

section \<open>Machines that keep an invariant\<close>

text \<open>
  The interface of a stateful component: a step function over the component's operations and an
  invariant that every operation keeps. What holds of one step then holds of every run.
\<close>

locale invariant_machine =
  fixes step :: "'s \<Rightarrow> 'e \<Rightarrow> 's"
    and inv :: "'s \<Rightarrow> bool"
  assumes inv_step: "inv s \<Longrightarrow> inv (step s e)"
begin

lemma inv_run: "inv s \<Longrightarrow> inv (foldl step s es)"
  by (induction es arbitrary: s) (auto simp: inv_step)

lemma inv_prefix: "inv s \<Longrightarrow> inv (foldl step s (take n es))"
  by (rule inv_run)

end

text \<open>A machine with a measured quantity that no step lowers.\<close>

locale monotone_machine = invariant_machine +
  fixes level :: "'s \<Rightarrow> real"
  assumes level_step: "inv s \<Longrightarrow> level s \<le> level (step s e)"
begin

lemma level_run: "inv s \<Longrightarrow> level s \<le> level (foldl step s es)"
proof (induction es arbitrary: s)
  case Nil
  show ?case by simp
next
  case (Cons e es)
  have "level s \<le> level (step s e)" using Cons.prems by (rule level_step)
  also have "\<dots> \<le> level (foldl step (step s e) es)"
    using Cons.prems by (intro Cons.IH inv_step)
  finally show ?case by simp
qed

end

end
