(* ===== verification/Units.thy ===== *)
theory Units
  imports Prelude
begin

text \<open>
  The physical-unit doors of \<open>go/internal/units\<close>: conversions between vendor units and the
  watts, watt-hours and 0..1 fractions the core stores (\<open>units.go\<close>), and the charge-step limiter
  (\<open>charge_steps.go\<close>). The theorems show that every door yields a value the core accepts and that
  the per-mille door loses at most half a per mille.
\<close>

section \<open>Power and energy\<close>

definition STCIrradianceWm2 :: f64 where "STCIrradianceWm2 = Fin 1000"

definition WattsFromKWp :: "f64 \<Rightarrow> f64" where
  "WattsFromKWp kwp = kwp * Fin 1000"

definition KWpFromWatts :: "f64 \<Rightarrow> f64" where
  "KWpFromWatts w = (if w \<le> Fin 0 then Fin 0 else w / Fin 1000)"

text \<open>\<open>strings.TrimSpace\<close> and \<open>strings.ToLower\<close> on the ASCII unit labels.\<close>

definition is_space :: "char \<Rightarrow> bool" where
  "is_space c = (of_char c \<in> {9, 10, 11, 12, 13, 32 :: nat})"

definition trimSpace :: "string \<Rightarrow> string" where
  "trimSpace s = rev (dropWhile is_space (rev (dropWhile is_space s)))"

definition toLowerChar :: "char \<Rightarrow> char" where
  "toLowerChar c = (let n = (of_char c :: nat) in
     if 65 \<le> n \<and> n \<le> 90 then char_of (n + 32) else c)"

definition toLower :: "string \<Rightarrow> string" where "toLower s = map toLowerChar s"

definition CanonicalPowerEnergy :: "f64 \<Rightarrow> string \<Rightarrow> f64 \<times> string" where
  "CanonicalPowerEnergy value0 unit =
     (let v = (if \<not> isFinite value0 then Fin 0 else value0);
          u = toLower (trimSpace unit)
      in if u = ''kw'' then (v * Fin 1000, ''W'')
         else if u = ''kwh'' then (v * Fin 1000, ''Wh'')
         else (v, unit))"

definition PVFromIrradiance :: "f64 \<Rightarrow> f64 \<Rightarrow> f64" where
  "PVFromIrradiance ratedW irradianceWm2 =
     (if ratedW \<le> Fin 0 \<or> irradianceWm2 \<le> Fin 0 then Fin 0
      else ratedW * (irradianceWm2 / STCIrradianceWm2))"

definition RatedWattsFromLegacyKWp :: "f64 \<Rightarrow> f64" where
  "RatedWattsFromLegacyKWp kwp =
     (if \<not> isFinite kwp \<or> kwp \<le> Fin 0 then Fin 0
      else if Fin 1000 \<le> kwp then kwp
      else WattsFromKWp kwp)"

section \<open>Fractions\<close>

definition FractionFromLegacyPercent :: "f64 \<Rightarrow> f64" where
  "FractionFromLegacyPercent v =
     (if \<not> isFinite v then Fin 0
      else if v < Fin 0 then Fin 0
      else if Fin 1 < v \<and> v < Fin 2 then Fin 1
      else if Fin 1 < v then v / Fin 100
      else v)"

definition DecodeJSONFraction :: "f64 \<Rightarrow> f64 \<Rightarrow> f64" where
  "DecodeJSONFraction canonical legacyPercent =
     (let v = (if canonical = Fin 0 \<and> legacyPercent \<noteq> Fin 0 then legacyPercent else canonical)
      in FractionFromLegacyPercent v)"

definition ValidFraction :: "f64 \<Rightarrow> bool" where
  "ValidFraction f = (isFinite f \<and> Fin 0 \<le> f \<and> f \<le> Fin 1)"

definition ClampFraction :: "f64 \<Rightarrow> f64" where
  "ClampFraction f =
     (if \<not> isFinite f then Fin 0
      else if f < Fin 0 then Fin 0
      else if Fin 1 < f then Fin 1
      else f)"

definition PercentFromFraction :: "f64 \<Rightarrow> f64" where
  "PercentFromFraction f = ClampFraction f * Fin 100"

text \<open>\<open>math.Round\<close>: halves round away from zero.\<close>

definition goRound :: "real \<Rightarrow> int" where
  "goRound x = (if x < 0 then - \<lfloor>- x + 1 / 2\<rfloor> else \<lfloor>x + 1 / 2\<rfloor>)"

definition PermilleFromFraction :: "f64 \<Rightarrow> int" where
  "PermilleFromFraction f = goRound (fval (ClampFraction f * Fin 1000))"

definition FractionFromPermille :: "int \<Rightarrow> f64" where
  "FractionFromPermille p = ClampFraction (Fin (real_of_int p) / Fin 1000)"

section \<open>Charge steps\<close>

text \<open>The loop of \<open>LimitChargeSteps\<close>. A NaN key never compares equal, so a Go map reports it as
  not seen however often it was stored.\<close>

definition limitStep :: "f64 \<Rightarrow> f64 \<Rightarrow> f64 \<times> bool" where
  "limitStep maxW step =
     (if Fin 0 < maxW \<and> isFinite maxW \<and> isFinite step \<and> maxW < step then (maxW, True)
      else (step, False))"

fun limitLoop :: "f64 \<Rightarrow> f64 list \<Rightarrow> f64 list \<Rightarrow> bool \<Rightarrow> f64 list \<times> bool" where
  "limitLoop maxW [] out limited = (out, limited)"
| "limitLoop maxW (s # ss) out limited =
     (let (step, lim) = limitStep maxW s;
          seen = (step \<noteq> NaN \<and> step \<in> set out)
      in limitLoop maxW ss (if seen then out else out @ [step]) (limited \<or> lim))"

definition LimitChargeSteps :: "f64 list \<Rightarrow> f64 \<Rightarrow> f64 list \<times> bool" where
  "LimitChargeSteps steps maxW = limitLoop maxW steps [] False"

section \<open>Lemmas\<close>

lemma ClampFraction_Fin: "ClampFraction (Fin x) = Fin (max 0 (min 1 x))"
  by (auto simp: ClampFraction_def)

lemma ClampFraction_cases: "\<exists>x. ClampFraction f = Fin x \<and> 0 \<le> x \<and> x \<le> 1"
  by (cases f) (auto simp: ClampFraction_def)

lemma ClampFraction_valid: "ValidFraction (ClampFraction f)"
  using ClampFraction_cases [of f] by (auto simp: ValidFraction_def)

lemma ClampFraction_id: "ValidFraction f \<Longrightarrow> ClampFraction f = f"
  by (cases f) (auto simp: ValidFraction_def ClampFraction_def)

lemma goRound_of_int [simp]: "goRound (real_of_int n) = n"
proof -
  have "\<lfloor>real_of_int m + 1 / 2\<rfloor> = m" for m :: int by linarith
  from this [of n] this [of "- n"] show ?thesis by (auto simp: goRound_def)
qed

lemma goRound_error: "0 \<le> x \<Longrightarrow> \<bar>real_of_int (goRound x) - x\<bar> \<le> 1 / 2"
proof -
  assume "0 \<le> x"
  then have "goRound x = \<lfloor>x + 1 / 2\<rfloor>" by (simp add: goRound_def)
  moreover have "real_of_int \<lfloor>x + 1 / 2\<rfloor> \<le> x + 1 / 2" "x + 1 / 2 < real_of_int \<lfloor>x + 1 / 2\<rfloor> + 1"
    by linarith+
  ultimately show ?thesis by (intro abs_leI) linarith+
qed

lemma goRound_mono: "0 \<le> x \<Longrightarrow> x \<le> y \<Longrightarrow> goRound x \<le> goRound y"
  by (simp add: goRound_def floor_mono)

lemma limitStep_le:
  "0 < m \<Longrightarrow> fst (limitStep (Fin m) (Fin s)) = Fin (min m s)"
  by (auto simp: limitStep_def)

lemma limitLoop_props:
  assumes "0 < m" "\<forall>s \<in> set ss. isFinite s" "distinct out" "\<forall>x \<in> set out. \<exists>r \<le> m. x = Fin r"
  shows "distinct (fst (limitLoop (Fin m) ss out lm))
    \<and> set (fst (limitLoop (Fin m) ss out lm)) = set out \<union> (\<lambda>s. Fin (min m (fval s))) ` set ss"
  using assms(2-4)
proof (induction ss arbitrary: out lm)
  case Nil
  then show ?case by simp
next
  case (Cons s ss)
  then obtain r where s: "s = Fin r" by (auto simp: isFinite_iff)
  obtain st l where st: "limitStep (Fin m) s = (st, l)" by force
  have st': "st = Fin (min m r)" using limitStep_le [OF assms(1), of r] st s by simp
  let ?out = "if st \<noteq> NaN \<and> st \<in> set out then out else out @ [st]"
  have "distinct ?out" "\<forall>x \<in> set ?out. \<exists>r \<le> m. x = Fin r"
    using Cons.prems by (auto simp: st')
  note IH = Cons.IH [OF _ this, of "lm \<or> l"]
  have "limitLoop (Fin m) (s # ss) out lm = limitLoop (Fin m) ss ?out (lm \<or> l)"
    by (simp add: st)
  moreover have "set ?out = insert (Fin (min m r)) (set out)" by (auto simp: st')
  ultimately show ?case using IH Cons.prems(1) by (simp add: s)
qed

lemma fraction_doors_range:
  "Fin 0 \<le> PercentFromFraction f \<and> PercentFromFraction f \<le> Fin 100
   \<and> 0 \<le> PermilleFromFraction f \<and> PermilleFromFraction f \<le> 1000"
proof -
  obtain x where x: "ClampFraction f = Fin x" "0 \<le> x" "x \<le> 1"
    using ClampFraction_cases by blast
  have "goRound 0 \<le> goRound (x * 1000)" "goRound (x * 1000) \<le> goRound 1000"
    using x by (auto intro!: goRound_mono)
  moreover have "goRound 0 = 0" "goRound 1000 = 1000"
    using goRound_of_int [of 0] goRound_of_int [of 1000] by simp_all
  ultimately show ?thesis
    using x by (auto simp: PercentFromFraction_def PermilleFromFraction_def)
qed

section \<open>Properties\<close>

text \<open>Every fraction door yields a value the core accepts: whatever the input (NaN and the
  infinities included), the clamped fraction is valid, a valid fraction is left alone, and both
  the per-cent and the per-mille door stay inside their range.\<close>

theorem fraction_doors_valid:
  "ValidFraction (ClampFraction f)
   \<and> (ValidFraction f \<longrightarrow> ClampFraction f = f)
   \<and> Fin 0 \<le> PercentFromFraction f \<and> PercentFromFraction f \<le> Fin 100
   \<and> 0 \<le> PermilleFromFraction f \<and> PermilleFromFraction f \<le> 1000"
  using fraction_doors_range [of f] ClampFraction_valid ClampFraction_id by blast

theorem fraction_doors_valid_witness:
  "ValidFraction (Fin (1/2)) \<and> ClampFraction (Fin (1/2)) = Fin (1/2)
   \<and> ValidFraction (ClampFraction NaN)"
  using fraction_doors_valid [of "Fin (1/2)"] fraction_doors_valid [of NaN]
  by (simp add: ValidFraction_def)

text \<open>C39: The per-mille door of the app protocol is a round trip: a per mille in range survives
  decoding and encoding unchanged, and a valid fraction comes back within half a per mille.\<close>

theorem permille_roundtrip:
  assumes "0 \<le> p" "p \<le> 1000" "0 \<le> x" "x \<le> 1"
  shows "PermilleFromFraction (FractionFromPermille p) = p
    \<and> \<bar>fval (FractionFromPermille (PermilleFromFraction (Fin x))) - x\<bar> \<le> 1 / 2000"
proof -
  have a: "ClampFraction (Fin (real_of_int p / 1000)) = Fin (real_of_int p / 1000)"
    using assms by (simp add: ClampFraction_Fin)
  have d: "PermilleFromFraction (FractionFromPermille p) = p"
    by (simp add: PermilleFromFraction_def FractionFromPermille_def a)
  have b: "0 \<le> PermilleFromFraction (Fin x)" "PermilleFromFraction (Fin x) \<le> 1000"
    using fraction_doors_range [of "Fin x"] by auto
  have c: "PermilleFromFraction (Fin x) = goRound (x * 1000)"
    using assms by (simp add: PermilleFromFraction_def ClampFraction_Fin)
  have "\<bar>real_of_int (goRound (x * 1000)) - x * 1000\<bar> \<le> 1 / 2"
    using assms by (intro goRound_error) simp
  moreover have "FractionFromPermille (PermilleFromFraction (Fin x))
      = Fin (real_of_int (goRound (x * 1000)) / 1000)"
    using b by (simp add: FractionFromPermille_def ClampFraction_Fin c)
  ultimately show ?thesis
    using d by (simp add: abs_le_iff field_simps)
qed

theorem permille_roundtrip_witness:
  "PermilleFromFraction (FractionFromPermille 417) = 417
    \<and> \<bar>fval (FractionFromPermille (PermilleFromFraction (Fin (1/3)))) - 1/3\<bar> \<le> 1 / 2000"
  using permille_roundtrip [of 417 "1/3"] by simp

text \<open>Charge steps are limited as documented: with a positive limit and finite steps the
  result holds exactly the steps capped at the limit, each once.\<close>

theorem LimitChargeSteps_spec:
  assumes "0 < m" "\<forall>s \<in> set steps. isFinite s"
  shows "distinct (fst (LimitChargeSteps steps (Fin m)))
    \<and> set (fst (LimitChargeSteps steps (Fin m))) = (\<lambda>s. Fin (min m (fval s))) ` set steps"
  using limitLoop_props [of m steps "[]" False] assms by (simp add: LimitChargeSteps_def)

theorem LimitChargeSteps_spec_witness:
  "set (fst (LimitChargeSteps [Fin 1000, Fin 3000, Fin 4000] (Fin 2000))) = {Fin 1000, Fin 2000}"
  using LimitChargeSteps_spec [of 2000 "[Fin 1000, Fin 3000, Fin 4000]"] by auto

end
