(* ===== verification/Kalman.thy ===== *)
theory Kalman
  imports Prelude
begin

text \<open>
  The scalar Kalman filter that smooths every power reading (\<open>go/internal/telemetry/kalman.go\<close>).
  The filter is fed only readings that passed validation, so it is written over the reals. The
  theorems show that its gain is a proper weight, so the estimate never leaves the range of the
  measurements it was fed and the uncertainty settles under the measurement noise.
\<close>

record kalman =
  Estimate :: real
  Uncertainty :: real
  ProcessNoise :: real
  MeasurementNoise :: real
  initialized :: bool

definition NewKalman :: "real \<Rightarrow> real \<Rightarrow> kalman" where
  "NewKalman process measurement =
     \<lparr>Estimate = 0, Uncertainty = 1000, ProcessNoise = process,
      MeasurementNoise = measurement, initialized = False\<rparr>"

definition kalman_gain :: "kalman \<Rightarrow> real" where
  "kalman_gain k = (let predUnc = Uncertainty k + ProcessNoise k
                    in predUnc / (predUnc + MeasurementNoise k))"

text \<open>\<open>Update\<close> returns the estimate and changes the filter.\<close>

definition kalman_Update :: "kalman \<Rightarrow> real \<Rightarrow> kalman \<times> real" where
  "kalman_Update k measurement =
     (if \<not> initialized k then
        (k\<lparr>Estimate := measurement, Uncertainty := MeasurementNoise k, initialized := True\<rparr>,
         measurement)
      else
        let predUnc = Uncertainty k + ProcessNoise k;
            gain = predUnc / (predUnc + MeasurementNoise k);
            est = Estimate k + gain * (measurement - Estimate k)
        in (k\<lparr>Estimate := est, Uncertainty := (1 - gain) * predUnc\<rparr>, est))"

definition Initialized :: "kalman \<Rightarrow> bool" where
  "Initialized k = initialized k"

section \<open>The filter's invariant\<close>

text \<open>Noise parameters are positive, the uncertainty is not negative, and once a measurement
  has been seen the uncertainty is at most the measurement noise.\<close>

definition kalman_ok :: "kalman \<Rightarrow> bool" where
  "kalman_ok k \<longleftrightarrow> 0 < ProcessNoise k \<and> 0 < MeasurementNoise k \<and> 0 \<le> Uncertainty k
     \<and> (initialized k \<longrightarrow> Uncertainty k \<le> MeasurementNoise k)"

lemma kalman_ok_New: "0 < q \<Longrightarrow> 0 < r \<Longrightarrow> kalman_ok (NewKalman q r)"
  by (simp add: kalman_ok_def NewKalman_def)

lemma kalman_gain_bounds:
  assumes "kalman_ok k" shows "0 < kalman_gain k" "kalman_gain k < 1"
  using assms by (auto simp: kalman_ok_def kalman_gain_def Let_def)

lemma convex_step:
  fixes e m g :: real
  assumes "0 \<le> g" "g \<le> 1"
  shows "min e m \<le> e + g * (m - e)" "e + g * (m - e) \<le> max e m"
proof -
  have eq: "e + g * (m - e) = (1 - g) * e + g * m" by (simp add: algebra_simps)
  have "(1 - g) * min e m + g * min e m \<le> (1 - g) * e + g * m"
    using assms by (intro add_mono mult_left_mono) auto
  then show "min e m \<le> e + g * (m - e)" unfolding eq by (simp add: algebra_simps)
  have "(1 - g) * e + g * m \<le> (1 - g) * max e m + g * max e m"
    using assms by (intro add_mono mult_left_mono) auto
  then show "e + g * (m - e) \<le> max e m" unfolding eq by (simp add: algebra_simps)
qed

lemma shrunk_uncertainty:
  fixes p r :: real
  assumes "0 < p" "0 < r"
  shows "0 \<le> (1 - p / (p + r)) * p" "(1 - p / (p + r)) * p \<le> r"
proof -
  have eq: "(1 - p / (p + r)) * p = r * (p / (p + r))"
    using assms by (simp add: field_simps)
  have "p / (p + r) \<le> 1" using assms by simp
  then show "(1 - p / (p + r)) * p \<le> r"
    unfolding eq using assms mult_left_le [of "p / (p + r)" r] by simp
  show "0 \<le> (1 - p / (p + r)) * p" unfolding eq using assms by simp
qed

lemma kalman_ok_Update:
  assumes "kalman_ok k" shows "kalman_ok (fst (kalman_Update k m))"
proof (cases "initialized k")
  case False
  with assms show ?thesis by (simp add: kalman_ok_def kalman_Update_def)
next
  case True
  let ?p = "Uncertainty k + ProcessNoise k" and ?r = "MeasurementNoise k"
  have "0 < ?p" "0 < ?r" using assms by (auto simp: kalman_ok_def)
  from shrunk_uncertainty [OF this] True assms show ?thesis
    by (simp add: kalman_ok_def kalman_Update_def Let_def)
qed

lemma kalman_Update_init: "initialized (fst (kalman_Update k m))"
  by (simp add: kalman_Update_def Let_def)

lemma kalman_Update_out: "snd (kalman_Update k m) = Estimate (fst (kalman_Update k m))"
  by (simp add: kalman_Update_def Let_def)

lemma kalman_Update_noise [simp]:
  "ProcessNoise (fst (kalman_Update k m)) = ProcessNoise k"
  "MeasurementNoise (fst (kalman_Update k m)) = MeasurementNoise k"
  by (simp_all add: kalman_Update_def Let_def)

lemma kalman_Update_between:
  assumes "kalman_ok k" "initialized k"
  shows "min (Estimate k) m \<le> snd (kalman_Update k m)" "snd (kalman_Update k m) \<le> max (Estimate k) m"
proof -
  have "snd (kalman_Update k m) = Estimate k + kalman_gain k * (m - Estimate k)"
    using assms by (simp add: kalman_Update_def kalman_gain_def Let_def)
  moreover note convex_step [of "kalman_gain k" "Estimate k" m] kalman_gain_bounds [OF assms(1)]
  ultimately show "min (Estimate k) m \<le> snd (kalman_Update k m)"
    "snd (kalman_Update k m) \<le> max (Estimate k) m" by linarith+
qed

interpretation kalman_machine: invariant_machine "\<lambda>k m. fst (kalman_Update k m)" kalman_ok
  by unfold_locales (rule kalman_ok_Update)

definition kalman_run :: "kalman \<Rightarrow> real list \<Rightarrow> kalman" where
  "kalman_run k ms = foldl (\<lambda>k m. fst (kalman_Update k m)) k ms"

definition in_range :: "real \<Rightarrow> real \<Rightarrow> kalman \<Rightarrow> bool" where
  "in_range lo hi k \<longleftrightarrow> kalman_ok k \<and> (initialized k \<longrightarrow> lo \<le> Estimate k \<and> Estimate k \<le> hi)"

lemma in_range_Update:
  assumes "in_range lo hi k" "lo \<le> m" "m \<le> hi"
  shows "in_range lo hi (fst (kalman_Update k m))"
proof (cases "initialized k")
  case False
  with assms show ?thesis by (simp add: in_range_def kalman_ok_Update) (simp add: kalman_Update_def)
next
  case True
  with assms have "kalman_ok k" "lo \<le> Estimate k" "Estimate k \<le> hi" by (auto simp: in_range_def)
  with kalman_Update_between [OF this(1) True, of m] assms show ?thesis
    by (auto simp: in_range_def kalman_ok_Update kalman_Update_out [symmetric])
qed

lemma in_range_run:
  "in_range lo hi k \<Longrightarrow> \<forall>m \<in> set ms. lo \<le> m \<and> m \<le> hi \<Longrightarrow> in_range lo hi (kalman_run k ms)"
  by (induction ms arbitrary: k) (auto simp: kalman_run_def in_range_Update)

lemma kalman_run_init: "ms \<noteq> [] \<Longrightarrow> initialized (kalman_run k ms)"
  by (cases ms rule: rev_cases) (auto simp: kalman_run_def kalman_Update_init)

section \<open>Properties\<close>

text \<open>Smoothing never invents power: after any non-empty run of measurements that lie between
  two bounds, the filter's estimate lies between the same bounds and its uncertainty is at most
  the measurement noise.\<close>

theorem kalman_stays_in_range:
  assumes "0 < q" "0 < r" "ms \<noteq> []" "\<forall>m \<in> set ms. lo \<le> m \<and> m \<le> hi"
  shows "lo \<le> Estimate (kalman_run (NewKalman q r) ms)
    \<and> Estimate (kalman_run (NewKalman q r) ms) \<le> hi
    \<and> 0 \<le> Uncertainty (kalman_run (NewKalman q r) ms)
    \<and> Uncertainty (kalman_run (NewKalman q r) ms) \<le> MeasurementNoise (kalman_run (NewKalman q r) ms)"
proof -
  have "in_range lo hi (NewKalman q r)"
    using assms(1,2) kalman_ok_New by (simp add: in_range_def NewKalman_def)
  from in_range_run [OF this assms(4)] kalman_run_init [OF assms(3)]
  show ?thesis by (auto simp: in_range_def kalman_ok_def)
qed

theorem kalman_stays_in_range_witness:
  "0 \<le> Estimate (kalman_run (NewKalman 100 50) [0, 3000, 1500])
   \<and> Estimate (kalman_run (NewKalman 100 50) [0, 3000, 1500]) \<le> 3000"
  using kalman_stays_in_range [of 100 50 "[0, 3000, 1500]" 0 3000] by simp

end
