(* ===== verification/Driver_Health.thy ===== *)
theory Driver_Health
  imports Prelude "HOL-Library.Word"
begin

text \<open>
  Per-driver health records and the telemetry watchdog
  (\<open>go/internal/telemetry/store.go\<close>, \<open>DriverHealth\<close> and \<open>WatchdogScan\<close>). A record says whether a
  driver still reports (\<open>Status\<close>) and, apart from that, whether its device can actuate
  (\<open>DeviceFault\<close>, derived from two independent writers). The theorems show that the derived flag
  always agrees with its sources, that only fresh data brings an offline driver back, and that the
  watchdog's verdict after a scan is exactly staleness.
\<close>

datatype DriverStatus = StatusOk | StatusDegraded | StatusOffline

definition statusString :: "DriverStatus \<Rightarrow> string" where
  "statusString s = (case s of StatusOk \<Rightarrow> ''ok'' | StatusDegraded \<Rightarrow> ''degraded''
     | StatusOffline \<Rightarrow> ''offline'')"

record DriverHealth =
  hName :: string
  Status :: DriverStatus
  LastSuccess :: "time option"
  ConsecutiveErrors :: int
  LastError :: string
  TickCount :: "64 word"
  StartedAt :: time
  WatchdogTimeoutOverride :: duration
  DeviceFault :: bool
  DeviceFaultReason :: string
  driverFault :: bool
  driverFaultReason :: string
  commandFault :: bool
  commandFaultReason :: string

text \<open>The record a driver starts with: \<open>&DriverHealth{Name: name, StartedAt: now}\<close>.\<close>

definition newHealth :: "string \<Rightarrow> time \<Rightarrow> DriverHealth" where
  "newHealth name now =
     \<lparr>hName = name, Status = StatusOk, LastSuccess = None, ConsecutiveErrors = 0, LastError = [],
      TickCount = 0, StartedAt = now, WatchdogTimeoutOverride = 0, DeviceFault = False,
      DeviceFaultReason = [], driverFault = False, driverFaultReason = [],
      commandFault = False, commandFaultReason = []\<rparr>"

section \<open>Operations on one record\<close>

definition refreshDeviceFault :: "DriverHealth \<Rightarrow> DriverHealth" where
  "refreshDeviceFault h =
     h\<lparr>DeviceFault := driverFault h \<or> commandFault h,
       DeviceFaultReason := (if driverFault h then driverFaultReason h
                             else if commandFault h then commandFaultReason h else [])\<rparr>"

definition RecordSuccess :: "time \<Rightarrow> DriverHealth \<Rightarrow> DriverHealth" where
  "RecordSuccess now h =
     h\<lparr>LastSuccess := Some now, ConsecutiveErrors := 0, LastError := [], Status := StatusOk,
       TickCount := TickCount h + 1\<rparr>"

definition RecordTick :: "DriverHealth \<Rightarrow> DriverHealth" where
  "RecordTick h = h\<lparr>TickCount := TickCount h + 1\<rparr>"

definition RecordError :: "string \<Rightarrow> DriverHealth \<Rightarrow> DriverHealth" where
  "RecordError err h =
     (let h1 = h\<lparr>ConsecutiveErrors := ConsecutiveErrors h + 1, LastError := err,
                 TickCount := TickCount h + 1\<rparr>
      in if ConsecutiveErrors h1 \<ge> 3 \<and> Status h1 \<noteq> StatusOffline
         then h1\<lparr>Status := StatusDegraded\<rparr> else h1)"

definition SetOffline :: "DriverHealth \<Rightarrow> DriverHealth" where
  "SetOffline h = h\<lparr>Status := StatusOffline\<rparr>"

definition SetDeviceFault :: "bool \<Rightarrow> string \<Rightarrow> DriverHealth \<Rightarrow> DriverHealth" where
  "SetDeviceFault faulted reason h =
     refreshDeviceFault
       (h\<lparr>driverFault := faulted, driverFaultReason := (if faulted then reason else [])\<rparr>)"

definition SetCommandFault :: "bool \<Rightarrow> string \<Rightarrow> DriverHealth \<Rightarrow> DriverHealth" where
  "SetCommandFault faulted reason h =
     refreshDeviceFault
       (h\<lparr>commandFault := faulted, commandFaultReason := (if faulted then reason else [])\<rparr>)"

definition IsOnline :: "DriverHealth \<Rightarrow> bool" where
  "IsOnline h = (Status h \<noteq> StatusOffline \<and> \<not> DeviceFault h)"

text \<open>Methods that accept a nil receiver take an optional record.\<close>

definition TelemetryLive :: "DriverHealth option \<Rightarrow> bool" where
  "TelemetryLive oh = (case oh of None \<Rightarrow> False | Some h \<Rightarrow> Status h \<noteq> StatusOffline)"

definition LastReadFailed :: "DriverHealth option \<Rightarrow> bool" where
  "LastReadFailed oh = (case oh of None \<Rightarrow> False | Some h \<Rightarrow> ConsecutiveErrors h > 0)"

section \<open>The health map\<close>

type_synonym health_map = "(string, DriverHealth) gomap"

text \<open>\<open>driverHealthLocked\<close>: the record of a driver, created when it is missing, then changed in
  place by \<open>f\<close>.\<close>

definition driverHealthLocked :: "string \<Rightarrow> time \<Rightarrow> health_map \<Rightarrow> DriverHealth" where
  "driverHealthLocked name now m =
     (case mget m name of Some h \<Rightarrow> h | None \<Rightarrow> newHealth name now)"

definition EnsureDriverHealth :: "string \<Rightarrow> time \<Rightarrow> health_map \<Rightarrow> health_map" where
  "EnsureDriverHealth name now m = mset_at name (driverHealthLocked name now m) m"

definition RecordDriverSuccess :: "string \<Rightarrow> time \<Rightarrow> health_map \<Rightarrow> health_map" where
  "RecordDriverSuccess name now m =
     mset_at name (RecordSuccess now (driverHealthLocked name now m)) m"

definition RecordDriverTick :: "string \<Rightarrow> time \<Rightarrow> health_map \<Rightarrow> health_map" where
  "RecordDriverTick name now m = mset_at name (RecordTick (driverHealthLocked name now m)) m"

definition RecordDriverError :: "string \<Rightarrow> string \<Rightarrow> time \<Rightarrow> health_map \<Rightarrow> health_map" where
  "RecordDriverError name err now m =
     mset_at name (RecordError err (driverHealthLocked name now m)) m"

definition SetDriverWatchdogTimeout ::
  "string \<Rightarrow> duration \<Rightarrow> time \<Rightarrow> health_map \<Rightarrow> health_map" where
  "SetDriverWatchdogTimeout name d now m =
     mset_at name ((case mget m name of Some h \<Rightarrow> h | None \<Rightarrow> newHealth name now)
                     \<lparr>WatchdogTimeoutOverride := d\<rparr>) m"

definition SetDriverDeviceFault ::
  "string \<Rightarrow> bool \<Rightarrow> string \<Rightarrow> time \<Rightarrow> health_map \<Rightarrow> health_map" where
  "SetDriverDeviceFault name faulted reason now m =
     mset_at name (SetDeviceFault faulted reason
       (case mget m name of Some h \<Rightarrow> h | None \<Rightarrow> newHealth name now)) m"

definition SetDriverCommandFault ::
  "string \<Rightarrow> bool \<Rightarrow> string \<Rightarrow> health_map \<Rightarrow> health_map" where
  "SetDriverCommandFault name faulted reason m =
     (case mget m name of None \<Rightarrow> m
      | Some h \<Rightarrow> mset_at name (SetCommandFault faulted reason h) m)"

section \<open>The watchdog\<close>

record WatchdogTransition =
  wtName :: string
  wtOnline :: bool

definition watchdogStale :: "duration \<Rightarrow> time \<Rightarrow> DriverHealth \<Rightarrow> bool" where
  "watchdogStale timeout now h =
     (let eff = (if WatchdogTimeoutOverride h > 0 then WatchdogTimeoutOverride h else timeout);
          since = (case LastSuccess h of Some t \<Rightarrow> t | None \<Rightarrow> StartedAt h)
      in isZero since \<or> tsub now since > eff)"

definition watchdogStep ::
  "duration \<Rightarrow> time \<Rightarrow> DriverHealth \<Rightarrow> DriverHealth \<times> bool option" where
  "watchdogStep timeout now h =
     (let stale = watchdogStale timeout now h; wasOnline = (Status h \<noteq> StatusOffline)
      in if stale \<and> wasOnline then (SetOffline h, Some False)
         else if \<not> stale \<and> \<not> wasOnline
         then (h\<lparr>Status := StatusOk, ConsecutiveErrors := 0\<rparr>, Some True)
         else (h, None))"

fun WatchdogScan :: "duration \<Rightarrow> time \<Rightarrow> health_map \<Rightarrow> health_map \<times> WatchdogTransition list" where
  "WatchdogScan timeout now [] = ([], [])"
| "WatchdogScan timeout now ((name, h) # m) =
     (let (h', tr) = watchdogStep timeout now h;
          (m', out) = WatchdogScan timeout now m
      in ((name, h') # m',
          (case tr of None \<Rightarrow> out | Some on \<Rightarrow> \<lparr>wtName = name, wtOnline = on\<rparr> # out)))"

section \<open>Invariant of one record\<close>

datatype health_op =
    OpSuccess time
  | OpTick
  | OpError string
  | OpDeviceFault bool string
  | OpCommandFault bool string
  | OpTimeout duration
  | OpWatchdog duration time

fun health_step :: "DriverHealth \<Rightarrow> health_op \<Rightarrow> DriverHealth" where
  "health_step h (OpSuccess now) = RecordSuccess now h"
| "health_step h OpTick = RecordTick h"
| "health_step h (OpError e) = RecordError e h"
| "health_step h (OpDeviceFault b r) = SetDeviceFault b r h"
| "health_step h (OpCommandFault b r) = SetCommandFault b r h"
| "health_step h (OpTimeout d) = h\<lparr>WatchdogTimeoutOverride := d\<rparr>"
| "health_step h (OpWatchdog timeout now) = fst (watchdogStep timeout now h)"

definition health_ok :: "DriverHealth \<Rightarrow> bool" where
  "health_ok h \<longleftrightarrow> DeviceFault h = (driverFault h \<or> commandFault h)
     \<and> (DeviceFault h \<longrightarrow> DeviceFaultReason h =
          (if driverFault h then driverFaultReason h else commandFaultReason h))
     \<and> (\<not> DeviceFault h \<longrightarrow> DeviceFaultReason h = [])
     \<and> 0 \<le> ConsecutiveErrors h"

lemmas health_op_defs = RecordSuccess_def RecordTick_def RecordError_def SetOffline_def
  SetDeviceFault_def SetCommandFault_def refreshDeviceFault_def watchdogStep_def Let_def

lemma health_ok_new [simp]: "health_ok (newHealth name now)"
  by (simp add: health_ok_def newHealth_def)

lemma health_ok_step: "health_ok h \<Longrightarrow> health_ok (health_step h e)"
  by (cases e) (auto simp: health_ok_def health_op_defs)

interpretation health_machine: invariant_machine health_step health_ok
  by unfold_locales (rule health_ok_step)

text \<open>The operations that carry no data from the device.\<close>

fun carries_data :: "health_op \<Rightarrow> bool" where
  "carries_data (OpSuccess _) = True"
| "carries_data _ = False"

lemma watchdogStep_status:
  "Status (fst (watchdogStep timeout now h)) = StatusOffline \<longleftrightarrow> watchdogStale timeout now h"
  by (auto simp: watchdogStep_def SetOffline_def Let_def)

lemma watchdogStep_result:
  "snd (watchdogStep timeout now h) = Some on \<longleftrightarrow>
     (on \<longleftrightarrow> Status (fst (watchdogStep timeout now h)) \<noteq> StatusOffline)
     \<and> (Status h = StatusOffline) \<noteq> (Status (fst (watchdogStep timeout now h)) = StatusOffline)"
  by (auto simp: watchdogStep_def SetOffline_def Let_def)

lemma watchdogStep_keeps [simp]:
  "LastSuccess (fst (watchdogStep timeout now h)) = LastSuccess h"
  "StartedAt (fst (watchdogStep timeout now h)) = StartedAt h"
  "WatchdogTimeoutOverride (fst (watchdogStep timeout now h)) = WatchdogTimeoutOverride h"
  by (simp_all add: watchdogStep_def SetOffline_def Let_def)

lemma watchdogStep_stale [simp]:
  "watchdogStale timeout now (fst (watchdogStep timeout' now' h)) = watchdogStale timeout now h"
  by (cases "LastSuccess h") (simp_all add: watchdogStale_def)

lemma WatchdogScan_map:
  "fst (WatchdogScan timeout now m) = map (\<lambda>(k, h). (k, fst (watchdogStep timeout now h))) m"
  by (induction m) (auto simp: case_prod_beta)

lemma WatchdogScan_transitions:
  "t \<in> set (snd (WatchdogScan timeout now m)) \<longleftrightarrow>
     (\<exists>h. (wtName t, h) \<in> set m \<and> snd (watchdogStep timeout now h) = Some (wtOnline t))"
proof (induction m)
  case Nil
  then show ?case by simp
next
  case (Cons p m)
  obtain name h where p: "p = (name, h)" by force
  obtain h' tr where tr: "watchdogStep timeout now h = (h', tr)" by force
  obtain m' out where out: "WatchdogScan timeout now m = (m', out)" by force
  obtain tn on where t: "t = \<lparr>wtName = tn, wtOnline = on\<rparr>" by (cases t)
  have IH: "t \<in> set out \<longleftrightarrow> (\<exists>h. (tn, h) \<in> set m \<and> snd (watchdogStep timeout now h) = Some on)"
    using Cons.IH by (simp add: out t)
  show ?case
  proof (cases tr)
    case None
    then show ?thesis using IH by (auto simp: p tr out t)
  next
    case (Some b)
    then show ?thesis using IH by (auto simp: p tr out t)
  qed
qed

lemma watchdogStep_fixed:
  "snd (watchdogStep timeout now (fst (watchdogStep timeout now h))) = None"
  by (subst watchdogStep_def) (simp add: Let_def watchdogStep_status)

section \<open>Properties\<close>

text \<open>The device-fault flag every consumer reads is at all times the disjunction of its two
  writers, with the driver's own reason first: whatever sequence of successes, errors, faults and
  watchdog scans a record goes through, a fault one side raised is visible until that side
  clears it.\<close>

theorem device_fault_derived:
  "DeviceFault (foldl health_step (newHealth name t0) ops) =
     (driverFault (foldl health_step (newHealth name t0) ops)
      \<or> commandFault (foldl health_step (newHealth name t0) ops))
   \<and> commandFault (SetDeviceFault False r h) = commandFault h
   \<and> driverFault (SetCommandFault False r h) = driverFault h
   \<and> (commandFault h \<longrightarrow> \<not> IsOnline (SetDeviceFault False r h))
   \<and> (driverFault h \<longrightarrow> \<not> IsOnline (SetCommandFault False r h))"
  using health_machine.inv_run [OF health_ok_new, of name t0 ops]
  by (auto simp: health_ok_def health_op_defs IsOnline_def)

theorem device_fault_derived_witness:
  "\<not> IsOnline (SetDeviceFault False [] (SetCommandFault True ''refused'' (newHealth ''bat'' 5)))"
proof -
  let ?h = "SetCommandFault True ''refused'' (newHealth ''bat'' 5)"
  have "commandFault ?h" by (simp add: SetCommandFault_def refreshDeviceFault_def)
  then show ?thesis using device_fault_derived [of "''bat''" 5 "[]" "[]" ?h] by blast
qed

text \<open>Only fresh data brings an offline driver back: no tick, error, fault or timeout change
  lifts it, and a watchdog scan lifts it only while its last success is within the timeout.\<close>

theorem offline_needs_fresh_data:
  assumes "Status h = StatusOffline" "Status (health_step h e) \<noteq> StatusOffline"
  shows "carries_data e \<or> (\<exists>timeout now. e = OpWatchdog timeout now \<and> \<not> watchdogStale timeout now h)"
  using assms by (cases e) (auto simp: health_op_defs watchdogStale_def split: if_splits)

theorem offline_needs_fresh_data_witness:
  "carries_data (OpSuccess 9)
   \<or> (\<exists>timeout now. OpSuccess 9 = OpWatchdog timeout now
        \<and> \<not> watchdogStale timeout now (SetOffline (newHealth ''m'' 3)))"
  by (rule offline_needs_fresh_data) (simp_all add: SetOffline_def RecordSuccess_def)

text \<open>One watchdog scan decides every driver: afterwards a driver is offline exactly when its
  last success (or its start) is older than its timeout, the reported transitions are exactly the
  drivers whose online state changed, and a second scan at the same time reports nothing.\<close>

theorem WatchdogScan_correct:
  assumes "gomap_ok m"
  shows "(\<forall>name h'. mget (fst (WatchdogScan timeout now m)) name = Some h' \<longrightarrow>
            (Status h' = StatusOffline \<longleftrightarrow> watchdogStale timeout now h'))
    \<and> (\<forall>t. t \<in> set (snd (WatchdogScan timeout now m)) \<longleftrightarrow>
          (\<exists>h h'. mget m (wtName t) = Some h
             \<and> mget (fst (WatchdogScan timeout now m)) (wtName t) = Some h'
             \<and> (Status h = StatusOffline) \<noteq> (Status h' = StatusOffline)
             \<and> wtOnline t = (Status h' \<noteq> StatusOffline)))
    \<and> snd (WatchdogScan timeout now (fst (WatchdogScan timeout now m))) = []"
proof -
  let ?m = "fst (WatchdogScan timeout now m)"
  have 1: "\<forall>name h'. mget ?m name = Some h' \<longrightarrow>
      (Status h' = StatusOffline \<longleftrightarrow> watchdogStale timeout now h')"
    by (auto simp: WatchdogScan_map watchdogStep_status)
  have 2: "t \<in> set (snd (WatchdogScan timeout now m)) \<longleftrightarrow>
      (\<exists>h h'. mget m (wtName t) = Some h \<and> mget ?m (wtName t) = Some h'
         \<and> (Status h = StatusOffline) \<noteq> (Status h' = StatusOffline)
         \<and> wtOnline t = (Status h' \<noteq> StatusOffline))" for t
    by (auto simp: WatchdogScan_transitions mget_iff [OF assms, symmetric] WatchdogScan_map
        watchdogStep_result)
  have "t \<notin> set (snd (WatchdogScan timeout now ?m))" for t
    by (auto simp: WatchdogScan_transitions WatchdogScan_map watchdogStep_fixed)
  then have 3: "snd (WatchdogScan timeout now ?m) = []" by (metis last_in_set)
  from 1 2 3 show ?thesis by blast
qed

theorem WatchdogScan_correct_witness:
  "snd (WatchdogScan (60 * second) (1000 * second)
     (fst (WatchdogScan (60 * second) (1000 * second) [(''m'', newHealth ''m'' 0)]))) = []"
  using WatchdogScan_correct [of "[(''m'', newHealth ''m'' 0)]" "60 * second" "1000 * second"]
  by (simp add: gomap_ok_def)

end
