(* ===== verification/Telemetry_Types.thy ===== *)
theory Telemetry_Types
  imports Prelude Units Kalman Driver_Health
begin

text \<open>
  The data model of \<open>go/internal/telemetry\<close>: DER types and their string forms, readings, the
  decoded driver document, control observations, command evidence and the store record. The
  operations on the store follow in the theories that import this one.
\<close>

section \<open>DER types\<close>

datatype DerType = DerMeter | DerPV | DerBattery | DerEV | DerV2X | DerVehicle

definition AllDerTypes :: "DerType list" where
  "AllDerTypes = [DerMeter, DerPV, DerBattery, DerEV, DerV2X, DerVehicle]"

fun derTypeString :: "DerType \<Rightarrow> string" where
  "derTypeString DerMeter = ''meter''"
| "derTypeString DerPV = ''pv''"
| "derTypeString DerBattery = ''battery''"
| "derTypeString DerEV = ''ev''"
| "derTypeString DerV2X = ''v2x_charger''"
| "derTypeString DerVehicle = ''vehicle''"

definition ParseDerType :: "string \<Rightarrow> string + DerType" where
  "ParseDerType s =
     (if s = ''meter'' then Inr DerMeter
      else if s = ''pv'' then Inr DerPV
      else if s = ''battery'' then Inr DerBattery
      else if s = ''ev'' then Inr DerEV
      else if s = ''v2x_charger'' then Inr DerV2X
      else if s = ''vehicle'' then Inr DerVehicle
      else Inl (''unknown der type '' @ s))"

text \<open>The key of a reading: \<open>driver + ":" + t.String()\<close>.\<close>

definition key :: "string \<Rightarrow> DerType \<Rightarrow> string" where
  "key driver t = driver @ '':'' @ derTypeString t"

section \<open>Driver documents\<close>

text \<open>A time stamp string: empty, not RFC 3339, or the instant it names.\<close>

datatype stamp = NoStamp | BadStamp | Stamp time

record ForecastPowerSample =
  fpVersion :: int
  fpKnown :: bool
  fpWatts :: f64
  fpMeasuredAtMS :: int
  fpReceivedAtMS :: int

record der_doc =
  l1_a :: "f64 jfield"
  l2_a :: "f64 jfield"
  l3_a :: "f64 jfield"
  l1_w :: "f64 jfield"
  l2_w :: "f64 jfield"
  l3_w :: "f64 jfield"
  l1_v :: "f64 jfield"
  l2_v :: "f64 jfield"
  l3_v :: "f64 jfield"
  soc_fresh :: "bool jfield"
  soc_observed_at_ms :: "int jfield"
  setpoint_w :: "f64 jfield"
  control_power_w :: "f64 jfield"
  control_power_available :: "bool jfield"
  control_power_confirmed :: "bool jfield"
  control_power_observed_at :: "stamp jfield"
  power_observed_at :: "stamp jfield"
  forecast_power :: "ForecastPowerSample jfield"
  power_max_age_s :: "f64 jfield"
  discharge_capable :: "bool jfield"
  charge_capable :: "bool jfield"

definition emptyDoc :: der_doc where
  "emptyDoc = \<lparr>l1_a = Absent, l2_a = Absent, l3_a = Absent, l1_w = Absent, l2_w = Absent,
     l3_w = Absent, l1_v = Absent, l2_v = Absent, l3_v = Absent, soc_fresh = Absent,
     soc_observed_at_ms = Absent, setpoint_w = Absent, control_power_w = Absent,
     control_power_available = Absent, control_power_confirmed = Absent,
     control_power_observed_at = Absent, power_observed_at = Absent, forecast_power = Absent,
     power_max_age_s = Absent, discharge_capable = Absent, charge_capable = Absent\<rparr>"

datatype rawmsg = Empty | Malformed | Doc der_doc

section \<open>Readings, observations, evidence\<close>

record DerReading =
  rDriver :: string
  rDerType :: DerType
  RawW :: f64
  SmoothedW :: f64
  SoC :: "f64 option"
  SoCUpdatedAt :: time
  Data :: rawmsg
  UpdatedAt :: time

record ControlObservation =
  oPowerW :: f64
  oAt :: time
  oConfirmedAt :: time

record ControlWindow =
  MeanW :: f64
  MinW :: f64
  MaxW :: f64
  First :: time
  Last :: time
  Count :: int

definition zeroWindow :: ControlWindow where
  "zeroWindow = \<lparr>MeanW = Fin 0, MinW = Fin 0, MaxW = Fin 0, First = zeroTime, Last = zeroTime,
     Count = 0\<rparr>"

record ControlBaseline =
  bDriver :: string
  bKind :: DerType
  Window :: ControlWindow
  Points :: "ControlObservation list"

record CommandPoint =
  pPowerW :: f64
  pAt :: time

text \<open>A nil map and an empty map differ: \<open>None\<close> is the nil map.\<close>

record CommandEvidence =
  cDriver :: string
  cKind :: string
  cAction :: string
  cPowerW :: "f64 option"
  cAt :: time
  cSince :: time
  cResult :: string
  ReadbackMismatchSince :: time
  PowerMismatchSince :: time
  PowerOverSince :: time
  PowerMatchSince :: time
  PowerObservedSince :: time
  LastObservation :: time
  LastMeasuredAt :: time
  NoPowerSince :: time
  NoPowerAt :: time
  LastGapW :: "f64 option"
  cMaxAge :: duration
  Recent :: "CommandPoint list"
  Baseline :: "(string, ControlBaseline) gomap option"
  StepAfter :: "(string, ControlBaseline) gomap option"
  StepAfterAt :: time
  batteryUpperW :: f64
  batteryUpperKnown :: bool
  batteryLowerW :: f64
  batteryLowerSince :: time
  batteryReleased :: bool
  batteryOrderAt :: time
  cleared :: bool

text \<open>\<open>CommandEvidence{}\<close>.\<close>

definition zeroEvidence :: CommandEvidence where
  "zeroEvidence = \<lparr>cDriver = [], cKind = [], cAction = [], cPowerW = None, cAt = zeroTime,
     cSince = zeroTime, cResult = [], ReadbackMismatchSince = zeroTime,
     PowerMismatchSince = zeroTime, PowerOverSince = zeroTime, PowerMatchSince = zeroTime,
     PowerObservedSince = zeroTime, LastObservation = zeroTime, LastMeasuredAt = zeroTime,
     NoPowerSince = zeroTime, NoPowerAt = zeroTime, LastGapW = None, cMaxAge = 0, Recent = [],
     Baseline = None, StepAfter = None, StepAfterAt = zeroTime, batteryUpperW = Fin 0,
     batteryUpperKnown = False, batteryLowerW = Fin 0, batteryLowerSince = zeroTime,
     batteryReleased = False, batteryOrderAt = zeroTime, cleared = False\<rparr>"

section \<open>The store\<close>

record MetricSample =
  msDriver :: string
  msMetric :: string
  msTsMs :: int
  msValue :: f64
  msUnit :: string

record metricSnap =
  snapValue :: f64
  snapUnit :: string
  snapRegister :: string
  snapTitle :: string
  snapUpdatedAt :: time

record pollHour =
  phHour :: int
  phPolls :: "64 word"
  phErrors :: "64 word"

text \<open>The arrival channels hold at most one signal: each is its identity and whether a signal
  waits in it.\<close>

record Store =
  readings :: "(string, DerReading) gomap"
  filters :: "(string, kalman) gomap"
  health :: health_map
  commands :: "(string, CommandEvidence) gomap"
  controlObservations :: "(string, ControlObservation list) gomap"
  processNoise :: real
  measurementNoise :: real
  pending :: "MetricSample list"
  latestMetric :: "(string, metricSnap) gomap"
  arrivals :: "(nat, bool) gomap"
  pollHours :: "pollHour list"
  born :: time

definition NewStore :: "time \<Rightarrow> Store" where
  "NewStore now = \<lparr>readings = [], filters = [], health = [], commands = [],
     controlObservations = [], processNoise = 100, measurementNoise = 50, pending = [],
     latestMetric = [], arrivals = [],
     pollHours = replicate 24 \<lparr>phHour = 0, phPolls = 0, phErrors = 0\<rparr>, born = now\<rparr>"

section \<open>The site-convention door\<close>

definition ValidateReading :: "DerType \<Rightarrow> f64 \<Rightarrow> f64 option \<Rightarrow> string + unit" where
  "ValidateReading t rawW soc =
     (if \<not> isFinite rawW then Inl (derTypeString t @ '' power is non-finite'')
      else if (case soc of None \<Rightarrow> False | Some v \<Rightarrow> \<not> isFinite v)
      then Inl (derTypeString t @ '' soc is non-finite'')
      else if (case soc of None \<Rightarrow> False | Some v \<Rightarrow> \<not> ValidFraction v)
      then Inl (derTypeString t @ '' soc must be a 0..1 fraction'')
      else if t = DerPV \<and> rawW > Fin 0
      then Inl ''pv power must be <= 0 in site convention''
      else if t = DerEV \<and> rawW < Fin 0
      then Inl ''ev power must be >= 0 in site convention''
      else Inr ())"

definition freshSoCObservation :: "DerType \<Rightarrow> f64 option \<Rightarrow> rawmsg \<Rightarrow> bool" where
  "freshSoCObservation t soc data =
     (case soc of None \<Rightarrow> False
      | Some _ \<Rightarrow>
        if t \<noteq> DerVehicle \<or> data = Empty then True
        else (case data of
            Doc d \<Rightarrow> (case soc_fresh d of Absent \<Rightarrow> True | Null \<Rightarrow> False | Bad \<Rightarrow> False | Val b \<Rightarrow> b)
          | _ \<Rightarrow> False))"

definition BatterySoCMaxAge :: duration where "BatterySoCMaxAge = 5 * minute"

section \<open>Lemmas\<close>

lemma derTypeString_inj [simp]: "derTypeString t = derTypeString t' \<longleftrightarrow> t = t'"
  by (cases t; cases t'; simp)

lemma derTypeString_no_colon [simp]: "CHR '':'' \<notin> set (derTypeString t)"
  by (cases t) auto

lemma append_sep_inj:
  assumes "xs @ c # ys = xs' @ c # ys'" "c \<notin> set ys" "c \<notin> set ys'"
  shows "xs = xs' \<and> ys = ys'"
proof -
  have tw: "takeWhile (\<lambda>a. a \<noteq> c) (rev ys @ c # zs) = rev ys" if "c \<notin> set ys" for ys zs
    using that by (subst takeWhile_append2) auto
  from assms(1) have "rev ys @ c # rev xs = rev ys' @ c # rev xs'"
    by (metis append_Cons append_Nil append_assoc rev.simps(2) rev_append)
  then have "rev ys = rev ys'" using tw [OF assms(2)] tw [OF assms(3)] by metis
  with assms(1) show ?thesis by simp
qed

lemma key_inj [simp]: "key d t = key d' t' \<longleftrightarrow> d = d' \<and> t = t'"
  using append_sep_inj [of d "CHR '':''" "derTypeString t" d' "derTypeString t'"]
  by (auto simp: key_def)

lemma ValidateReading_Inr:
  "ValidateReading t rawW soc = Inr () \<longleftrightarrow>
     isFinite rawW \<and> (\<forall>v. soc = Some v \<longrightarrow> ValidFraction v)
     \<and> (t = DerPV \<longrightarrow> fval rawW \<le> 0) \<and> (t = DerEV \<longrightarrow> 0 \<le> fval rawW)"
  by (cases rawW; cases soc)
     (auto simp: ValidateReading_def ValidFraction_def linorder_not_less split: if_splits)

section \<open>Properties\<close>

text \<open>DER type names round trip: parsing the printed form of a type gives the type back, and
  nothing else parses to it.\<close>

theorem ParseDerType_roundtrip:
  "ParseDerType s = Inr t \<longleftrightarrow> s = derTypeString t"
  by (cases t) (auto simp: ParseDerType_def split: if_splits)

end
