(* ===== verification/Control_Observations.thy ===== *)
theory Control_Observations
  imports Telemetry_Types
begin

text \<open>
  Short, bounded raw observations for response checks
  (\<open>go/internal/telemetry/control_observations.go\<close>): the measured time of a power sample, its
  freshness, the ring of recent points per DER and the windows built from them. The theorems show
  that stored points are strictly increasing in time, at most 64 per DER, and never older than ten
  seconds when recorded, and that a window's mean lies between its extremes.
\<close>

definition ControlWindowDuration :: duration where
  [time_simps]: "ControlWindowDuration = 20 * second"

section \<open>One observation\<close>

text \<open>\<open>time.Duration(x * float64(time.Second))\<close>: conversion truncates towards zero. Values the
  conversion cannot represent give a duration outside the accepted range on every platform.\<close>

definition secondsToDuration :: "f64 \<Rightarrow> duration" where
  "secondsToDuration x = (case x of
      Fin r \<Rightarrow> (if r * 1000000000 < 0 then \<lceil>r * 1000000000\<rceil> else \<lfloor>r * 1000000000\<rfloor>)
    | _ \<Rightarrow> 0)"

definition DeclaredPowerMaxAge :: "rawmsg \<Rightarrow> duration" where
  "DeclaredPowerMaxAge data =
     (case data of
        Doc d \<Rightarrow>
          if jbad (power_max_age_s d) then 0
          else let age = secondsToDuration (jval (Fin 0) (power_max_age_s d))
               in if age \<le> 0 \<or> age > 3 * minute then 0 else age
      | _ \<Rightarrow> 0)"

definition ControlPowerMaxAge :: "rawmsg \<Rightarrow> duration" where
  "ControlPowerMaxAge data =
     (let age = DeclaredPowerMaxAge data in if age > 0 then age else minute)"

definition Seen :: "ControlObservation \<Rightarrow> time" where
  "Seen p = (if oConfirmedAt p > oAt p then oConfirmedAt p else oAt p)"

text \<open>The struct \<open>ControlPowerObservation\<close> decodes into: an error when one of its fields has
  another type.\<close>

definition controlDocBad :: "der_doc \<Rightarrow> bool" where
  "controlDocBad d = (jbad (control_power_w d) \<or> jbad (control_power_available d)
     \<or> jbad (control_power_confirmed d) \<or> jbad (control_power_observed_at d)
     \<or> jbad (power_observed_at d) \<or> jbad (forecast_power d))"

definition forecastBad :: "ForecastPowerSample \<Rightarrow> time \<Rightarrow> bool" where
  "forecastBad f receivedAt = (fpVersion f \<noteq> 1 \<or> \<not> fpKnown f \<or> fpMeasuredAtMS f \<le> 0
     \<or> fpReceivedAtMS f < fpMeasuredAtMS f \<or> fpReceivedAtMS f > unixMilli receivedAt)"

text \<open>The last part of \<open>ControlPowerObservation\<close>: the declared power, the source's own time
  stamp, the confirmation and the freshness verdict.\<close>

definition finishObservation ::
  "der_doc \<Rightarrow> rawmsg \<Rightarrow> time \<Rightarrow> ControlObservation \<Rightarrow> ControlObservation \<times> bool" where
  "finishObservation d data receivedAt p1 =
     (let p2 = (case jptr (control_power_w d) of Some w \<Rightarrow> p1\<lparr>oPowerW := w\<rparr> | None \<Rightarrow> p1);
          st = (if jval NoStamp (control_power_observed_at d) \<noteq> NoStamp
                then jval NoStamp (control_power_observed_at d)
                else jval NoStamp (power_observed_at d))
      in if st = BadStamp then (p2, False)
         else
           (let p3 = (case st of Stamp ts \<Rightarrow> p2\<lparr>oAt := ts\<rparr> | _ \<Rightarrow> p2);
                p4 = (if jval False (control_power_confirmed d)
                      then p3\<lparr>oConfirmedAt := receivedAt\<rparr> else p3);
                age = ControlPowerMaxAge data
            in (p4, isFinite (oPowerW p4) \<and> \<not> oAt p4 > receivedAt
                    \<and> tsub receivedAt (Seen p4) \<le> age)))"

definition ControlPowerObservation ::
  "f64 \<Rightarrow> rawmsg \<Rightarrow> time \<Rightarrow> ControlObservation \<times> bool" where
  "ControlPowerObservation pw data receivedAt =
     (let p = \<lparr>oPowerW = pw, oAt = receivedAt, oConfirmedAt = zeroTime\<rparr>;
          d = (case data of Doc d \<Rightarrow> d | _ \<Rightarrow> emptyDoc)
      in if (case data of Empty \<Rightarrow> False | Malformed \<Rightarrow> True | Doc d \<Rightarrow> controlDocBad d)
         then (p, False)
         else if jptr (control_power_available d) = Some False then (p, False)
         else case jptr (forecast_power d) of
             None \<Rightarrow> finishObservation d data receivedAt p
           | Some f \<Rightarrow>
               if forecastBad f receivedAt then (p, False)
               else finishObservation d data receivedAt
                      (p\<lparr>oPowerW := fpWatts f, oAt := fromUnixMilli (fpMeasuredAtMS f)\<rparr>))"

section \<open>The points of one DER\<close>

text \<open>Append a new source sample, replace the last point within the same second for DERs that are
  not controlled consumers, keep the newest 64.\<close>

definition addControlPoint ::
  "DerType \<Rightarrow> ControlObservation \<Rightarrow> ControlObservation list \<Rightarrow> ControlObservation list" where
  "addControlPoint kind p points =
     (if points \<noteq> [] \<and> \<not> oAt p > oAt (last points) then points
      else
        let points' = (if kind \<noteq> DerEV \<and> kind \<noteq> DerBattery \<and> kind \<noteq> DerV2X \<and> points \<noteq> []
                          \<and> unixSec (oAt p) = unixSec (oAt (last points))
                       then butlast points @ [p] else points @ [p])
        in lastn 64 points')"

definition recordControlObservation ::
  "string \<Rightarrow> DerType \<Rightarrow> f64 \<Rightarrow> rawmsg \<Rightarrow> time \<Rightarrow> Store \<Rightarrow> Store" where
  "recordControlObservation driver kind pw data now s =
     (if kind = DerVehicle then s
      else
        let k = key driver kind;
            (p, known) = ControlPowerObservation pw data now
        in if \<not> known \<or> tsub now (oAt p) > 10 * second
           then s\<lparr>controlObservations := mdel k (controlObservations s)\<rparr>
           else let points = (case mget (controlObservations s) k of Some ps \<Rightarrow> ps | None \<Rightarrow> [])
                in if points \<noteq> [] \<and> \<not> oAt p > oAt (last points) then s
                   else s\<lparr>controlObservations :=
                            mset_at k (addControlPoint kind p points) (controlObservations s)\<rparr>)"

section \<open>Windows\<close>

fun windowLoop :: "time \<Rightarrow> time \<Rightarrow> ControlObservation list \<Rightarrow> ControlWindow \<Rightarrow> ControlWindow" where
  "windowLoop from now [] w = w"
| "windowLoop from now (p # ps) w =
     (if oAt p < from \<or> oAt p > now then windowLoop from now ps w
      else
        let w1 = (if Count w = 0
                  then w\<lparr>MinW := oPowerW p, MaxW := oPowerW p, First := oAt p\<rparr> else w)
        in windowLoop from now ps
             (w1\<lparr>MeanW := MeanW w1 + oPowerW p, MinW := f64_min (MinW w1) (oPowerW p),
                 MaxW := f64_max (MaxW w1) (oPowerW p), Last := oAt p, Count := Count w1 + 1\<rparr>))"

definition observationWindow ::
  "ControlObservation list \<Rightarrow> time \<Rightarrow> time \<Rightarrow> ControlWindow" where
  "observationWindow points from now =
     (let w = windowLoop from now points zeroWindow
      in if Count w > 0 then w\<lparr>MeanW := MeanW w / Fin (real_of_int (Count w))\<rparr> else w)"

definition Usable :: "time \<Rightarrow> ControlWindow \<Rightarrow> bool" where
  "Usable now w = (Count w \<ge> 2 \<and> tsub (Last w) (First w) \<ge> 5 * second \<and> \<not> Last w > now
     \<and> tsub now (Last w) \<le> 10 * second)"

definition copyControlPoints ::
  "ControlObservation list \<Rightarrow> time \<Rightarrow> time \<Rightarrow> ControlObservation list" where
  "copyControlPoints points from until =
     filter (\<lambda>p. \<not> oAt p < from \<and> \<not> oAt p > until) points"

definition observationsOf :: "Store \<Rightarrow> string \<Rightarrow> ControlObservation list" where
  "observationsOf s k = (case mget (controlObservations s) k of Some ps \<Rightarrow> ps | None \<Rightarrow> [])"

definition baselineOf :: "Store \<Rightarrow> time \<Rightarrow> time \<Rightarrow> string \<Rightarrow> DerReading \<Rightarrow> ControlBaseline" where
  "baselineOf s from until k rd =
     \<lparr>bDriver = rDriver rd, bKind = rDerType rd,
      Window = observationWindow (observationsOf s k) from until,
      Points = copyControlPoints (observationsOf s k) from until\<rparr>"

definition controlBaseline :: "Store \<Rightarrow> time \<Rightarrow> (string, ControlBaseline) gomap" where
  "controlBaseline s now =
     map (\<lambda>(k, rd). (k, baselineOf s (now - ControlWindowDuration) now k rd))
       (filter (\<lambda>(k, rd). rDerType rd \<noteq> DerVehicle
                  \<and> Usable now (observationWindow (observationsOf s k)
                                 (now - ControlWindowDuration) now)) (readings s))"

definition ControlWindows :: "Store \<Rightarrow> time \<Rightarrow> time \<Rightarrow> (string, ControlBaseline) gomap" where
  "ControlWindows s from now =
     map (\<lambda>(k, rd). (k, baselineOf s from now k rd))
       (filter (\<lambda>(k, rd). rDerType rd \<noteq> DerVehicle) (readings s))"

text \<open>Freeze the completed window after each command's material step.\<close>

definition freezeStep :: "Store \<Rightarrow> time \<Rightarrow> CommandEvidence \<Rightarrow> CommandEvidence" where
  "freezeStep s now c =
     (if StepAfter c \<noteq> None \<or> isZero (cSince c) \<or> tsub now (cSince c) < ControlWindowDuration
      then c
      else let end = cSince c + ControlWindowDuration
           in c\<lparr>StepAfter := Some (ControlWindows s (cSince c) end), StepAfterAt := end\<rparr>)"

definition freezeStepWindows :: "time \<Rightarrow> Store \<Rightarrow> Store" where
  "freezeStepWindows now s =
     s\<lparr>commands := map (\<lambda>(k, c). (k, freezeStep s now c)) (commands s)\<rparr>"

section \<open>Invariant of the points\<close>

definition points_ok :: "ControlObservation list \<Rightarrow> bool" where
  "points_ok ps \<longleftrightarrow> length ps \<le> 64 \<and> sorted_wrt (\<lambda>p q. oAt p < oAt q) ps
     \<and> (\<forall>p \<in> set ps. isFinite (oPowerW p))"

lemma points_ok_Nil [simp]: "points_ok []"
  by (simp add: points_ok_def)

lemma sorted_snoc_last:
  assumes "sorted_wrt (\<lambda>p q. oAt p < oAt q) ps" "ps \<noteq> [] \<longrightarrow> oAt (last ps) < oAt p"
  shows "sorted_wrt (\<lambda>p q. oAt p < oAt q) (ps @ [p])"
proof (cases ps rule: rev_cases)
  case Nil
  then show ?thesis by simp
next
  case (snoc qs q)
  with assms show ?thesis by (fastforce simp: sorted_wrt_append)
qed

lemma sorted_replace_last:
  assumes "sorted_wrt (\<lambda>p q. oAt p < oAt q) ps" "ps \<noteq> []" "oAt (last ps) < oAt p"
  shows "sorted_wrt (\<lambda>p q. oAt p < oAt q) (butlast ps @ [p])"
  using assms by (cases ps rule: rev_cases) (fastforce simp: sorted_wrt_append)+

lemma addControlPoint_ok:
  assumes "points_ok ps" "isFinite (oPowerW p)"
  shows "points_ok (addControlPoint kind p ps)"
proof (cases "ps \<noteq> [] \<and> \<not> oAt p > oAt (last ps)")
  case True
  with assms show ?thesis by (simp add: addControlPoint_def)
next
  case False
  let ?ps = "if kind \<noteq> DerEV \<and> kind \<noteq> DerBattery \<and> kind \<noteq> DerV2X \<and> ps \<noteq> []
               \<and> unixSec (oAt p) = unixSec (oAt (last ps)) then butlast ps @ [p] else ps @ [p]"
  have "sorted_wrt (\<lambda>p q. oAt p < oAt q) ?ps"
    using False assms sorted_snoc_last [of ps p] sorted_replace_last [of ps p]
    by (auto simp: points_ok_def)
  moreover have "\<forall>q \<in> set ?ps. isFinite (oPowerW q)"
    using assms by (auto simp: points_ok_def dest: in_set_butlastD)
  ultimately have "points_ok (lastn 64 ?ps)"
    using set_lastn [of 64 ?ps] by (auto simp: points_ok_def intro: sorted_wrt_lastn)
  with False show ?thesis by (simp only: addControlPoint_def Let_def if_False)
qed

lemma finishObservation_known:
  "finishObservation d data t p1 = (p, True) \<Longrightarrow>
     isFinite (oPowerW p) \<and> oAt p \<le> t \<and> tsub t (Seen p) \<le> ControlPowerMaxAge data"
  by (auto simp: finishObservation_def Let_def split: if_splits)

lemma ControlPowerObservation_known:
  "ControlPowerObservation pw data t = (p, True) \<Longrightarrow>
     isFinite (oPowerW p) \<and> oAt p \<le> t \<and> tsub t (Seen p) \<le> ControlPowerMaxAge data"
  by (auto simp: ControlPowerObservation_def Let_def split: if_splits option.splits
      dest: finishObservation_known)

lemma ControlPowerMaxAge_bounds: "0 < ControlPowerMaxAge data \<and> ControlPowerMaxAge data \<le> 3 * minute"
  by (auto simp: ControlPowerMaxAge_def DeclaredPowerMaxAge_def Let_def time_simps
      split: rawmsg.splits)

definition observations_ok :: "Store \<Rightarrow> bool" where
  "observations_ok s \<longleftrightarrow> (\<forall>k ps. mget (controlObservations s) k = Some ps \<longrightarrow> points_ok ps)"

lemma observations_ok_record:
  assumes "observations_ok s"
  shows "observations_ok (recordControlObservation driver kind pw data now s)"
proof -
  obtain p known where p: "ControlPowerObservation pw data now = (p, known)" by force
  let ?k = "key driver kind"
  let ?ps = "case mget (controlObservations s) ?k of Some ps \<Rightarrow> ps | None \<Rightarrow> []"
  have "points_ok ?ps" using assms by (auto simp: observations_ok_def split: option.splits)
  moreover have "known \<Longrightarrow> isFinite (oPowerW p)" using p ControlPowerObservation_known by auto
  ultimately have "known \<Longrightarrow> points_ok (addControlPoint kind p ?ps)" by (simp add: addControlPoint_ok)
  with assms show ?thesis
    by (auto simp: recordControlObservation_def Let_def p observations_ok_def)
qed

lemma recordControlObservation_frame [simp]:
  "readings (recordControlObservation driver kind pw data now s) = readings s"
  "filters (recordControlObservation driver kind pw data now s) = filters s"
  "health (recordControlObservation driver kind pw data now s) = health s"
  "commands (recordControlObservation driver kind pw data now s) = commands s"
  "pending (recordControlObservation driver kind pw data now s) = pending s"
  "latestMetric (recordControlObservation driver kind pw data now s) = latestMetric s"
  by (simp_all add: recordControlObservation_def Let_def case_prod_beta)

lemma freezeStepWindows_frame [simp]:
  "readings (freezeStepWindows now s) = readings s"
  "filters (freezeStepWindows now s) = filters s"
  "health (freezeStepWindows now s) = health s"
  "controlObservations (freezeStepWindows now s) = controlObservations s"
  "pending (freezeStepWindows now s) = pending s"
  "latestMetric (freezeStepWindows now s) = latestMetric s"
  by (simp_all add: freezeStepWindows_def)

section \<open>The mean of a window\<close>

lemma windowLoop_bounds:
  fixes lo hi :: real
  assumes "\<forall>p \<in> set ps. isFinite (oPowerW p)" "0 \<le> Count w"
    and "\<exists>m. MeanW w = Fin m \<and> (Count w = 0 \<longrightarrow> m = 0)
           \<and> (0 < Count w \<longrightarrow> (\<exists>a b. MinW w = Fin a \<and> MaxW w = Fin b
                \<and> a * of_int (Count w) \<le> m \<and> m \<le> b * of_int (Count w)))"
  shows "\<exists>m. MeanW (windowLoop from now ps w) = Fin m \<and> 0 \<le> Count (windowLoop from now ps w)
           \<and> (0 < Count (windowLoop from now ps w) \<longrightarrow>
                (\<exists>a b. MinW (windowLoop from now ps w) = Fin a \<and> MaxW (windowLoop from now ps w) = Fin b
                   \<and> a * of_int (Count (windowLoop from now ps w)) \<le> m
                   \<and> m \<le> b * of_int (Count (windowLoop from now ps w))))"
  using assms
proof (induction ps arbitrary: w)
  case Nil
  then show ?case by auto
next
  case (Cons p ps)
  show ?case
  proof (cases "oAt p < from \<or> oAt p > now")
    case True
    then show ?thesis using Cons by simp
  next
    case False
    obtain x where x: "oPowerW p = Fin x" using Cons.prems(1) by (auto simp: isFinite_iff)
    obtain m where m: "MeanW w = Fin m" "Count w = 0 \<longrightarrow> m = 0"
      and ab: "0 < Count w \<longrightarrow> (\<exists>a b. MinW w = Fin a \<and> MaxW w = Fin b
                \<and> a * of_int (Count w) \<le> m \<and> m \<le> b * of_int (Count w))"
      using Cons.prems(3) by blast
    let ?w1 = "if Count w = 0 then w\<lparr>MinW := oPowerW p, MaxW := oPowerW p, First := oAt p\<rparr> else w"
    let ?w2 = "?w1\<lparr>MeanW := MeanW ?w1 + oPowerW p, MinW := f64_min (MinW ?w1) (oPowerW p),
                 MaxW := f64_max (MaxW ?w1) (oPowerW p), Last := oAt p, Count := Count ?w1 + 1\<rparr>"
    have "\<exists>a b. MinW ?w2 = Fin a \<and> MaxW ?w2 = Fin b
        \<and> a * of_int (Count ?w2) \<le> m + x \<and> m + x \<le> b * of_int (Count ?w2)"
    proof (cases "Count w = 0")
      case True
      then show ?thesis using m by (simp add: x)
    next
      case nz: False
      then have "0 < Count w" using Cons.prems(2) by simp
      with ab obtain a b where w: "MinW w = Fin a" "MaxW w = Fin b"
        "a * of_int (Count w) \<le> m" "m \<le> b * of_int (Count w)" by blast
      have "min a x * of_int (Count w) \<le> a * of_int (Count w)"
        "b * of_int (Count w) \<le> max b x * of_int (Count w)"
        using \<open>0 < Count w\<close> by (auto intro!: mult_right_mono)
      then have "min a x * (of_int (Count w) + 1) \<le> m + x" "m + x \<le> max b x * (of_int (Count w) + 1)"
        using w by (simp_all add: distrib_left)
      then show ?thesis using nz by (simp add: x w)
    qed
    then have "\<exists>m. MeanW ?w2 = Fin m \<and> (Count ?w2 = 0 \<longrightarrow> m = 0)
        \<and> (0 < Count ?w2 \<longrightarrow> (\<exists>a b. MinW ?w2 = Fin a \<and> MaxW ?w2 = Fin b
             \<and> a * of_int (Count ?w2) \<le> m \<and> m \<le> b * of_int (Count ?w2)))"
      using Cons.prems(2) by (intro exI [of _ "m + x"]) (auto simp: m x)
    moreover have "0 \<le> Count ?w2" using Cons.prems(2) by simp
    moreover have "windowLoop from now (p # ps) w = windowLoop from now ps ?w2"
      using False by (simp add: Let_def)
    ultimately show ?thesis using Cons.IH [of ?w2] Cons.prems(1) by simp
  qed
qed

section \<open>Properties\<close>

text \<open>A power sample counts as current only when it is finite, was measured no later than it
  was received, and its source vouched for it within the freshness it declares, never more than
  three minutes.\<close>

theorem ControlPowerObservation_fresh:
  assumes "ControlPowerObservation pw data t = (p, True)"
  shows "isFinite (oPowerW p) \<and> oAt p \<le> t \<and> t - Seen p \<le> 3 * minute"
  using ControlPowerObservation_known [OF assms] ControlPowerMaxAge_bounds [of data]
  by (auto simp: tsub_def time_simps maxDuration_def)

theorem ControlPowerObservation_fresh_witness:
  "isFinite (Fin 7) \<and> (5::int) \<le> 5 \<and> 5 - Seen \<lparr>oPowerW = Fin 7, oAt = 5, oConfirmedAt = zeroTime\<rparr> \<le> 3 * minute"
proof -
  have "ControlPowerObservation (Fin 7) Empty 5
      = (\<lparr>oPowerW = Fin 7, oAt = 5, oConfirmedAt = zeroTime\<rparr>, True)"
    by (simp add: ControlPowerObservation_def finishObservation_def emptyDoc_def Seen_def
        zeroTime_def ControlPowerMaxAge_def DeclaredPowerMaxAge_def time_simps)
  from ControlPowerObservation_fresh [OF this] show ?thesis by simp
qed

text \<open>The mean of an observation window lies between the window's minimum and maximum, for
  every list of finite points and every time range that catches at least one of them.\<close>

theorem observationWindow_mean:
  assumes "\<forall>p \<in> set ps. isFinite (oPowerW p)" "0 < Count (observationWindow ps from now)"
  shows "MinW (observationWindow ps from now) \<le> MeanW (observationWindow ps from now)
    \<and> MeanW (observationWindow ps from now) \<le> MaxW (observationWindow ps from now)"
proof -
  let ?w = "windowLoop from now ps zeroWindow"
  have pos: "0 < Count ?w" using assms(2) by (auto simp: observationWindow_def Let_def split: if_splits)
  obtain m a b where "MeanW ?w = Fin m" "MinW ?w = Fin a" "MaxW ?w = Fin b"
    "a * of_int (Count ?w) \<le> m" "m \<le> b * of_int (Count ?w)"
    using windowLoop_bounds [OF assms(1), of zeroWindow "from" now] pos
    by (auto simp: zeroWindow_def)
  with pos show ?thesis
    by (simp add: observationWindow_def Let_def pos_le_divide_eq pos_divide_le_eq)
qed

theorem observationWindow_mean_witness:
  "MeanW (observationWindow [\<lparr>oPowerW = Fin 3, oAt = 1, oConfirmedAt = 0\<rparr>,
      \<lparr>oPowerW = Fin 5, oAt = 2, oConfirmedAt = 0\<rparr>] 0 9) \<le> Fin 5"
  using observationWindow_mean [of "[\<lparr>oPowerW = Fin 3, oAt = 1, oConfirmedAt = 0\<rparr>,
      \<lparr>oPowerW = Fin 5, oAt = 2, oConfirmedAt = 0\<rparr>]" 0 9]
  by (simp add: observationWindow_def zeroWindow_def)

end
