(* ===== verification/Command_Evidence.thy ===== *)
theory Command_Evidence
  imports Control_Observations
begin

text \<open>
  What the core knows of the commands it sent (\<open>go/internal/telemetry/command_evidence.go\<close>):
  one record per driver and device function, the run of readings compared with the commands still
  in force, and the bound on a battery order that hardware may still carry out. The theorems show
  that no later order, failed call, release or restart lowers that bound, that only a fresh
  measurement made after the response delay does, and that it stays above what was measured.
\<close>

section \<open>Admission of a command\<close>

definition commandKind :: "string \<Rightarrow> string" where
  "commandKind action =
     (if action = ''battery'' then ''battery''
      else if action \<in> {''ev_set_current'', ''ev_pause'', ''ev_resume'', ''ev_start''} then ''ev''
      else if action \<in> {''curtail'', ''curtail_disable''} then ''pv''
      else if action = ''v2x_set_power'' then ''v2x_charger''
      else [])"

definition ResponseDelay :: "string \<Rightarrow> duration" where
  "ResponseDelay kind = (if kind = ''ev'' then 2 * minute else 15 * second)"

definition ControlToleranceW :: "f64 \<Rightarrow> f64" where
  "ControlToleranceW sent = f64_max (Fin 100) (f64_abs sent * Fin (1 / 10))"

definition PowerFollowsCommand :: "string \<Rightarrow> f64 \<Rightarrow> f64 \<Rightarrow> bool" where
  "PowerFollowsCommand kind sent actual =
     (if \<not> isFinite sent \<or> \<not> isFinite actual then False
      else if kind = ''pv''
      then f64_abs (f64_abs actual - f64_abs sent) \<le> ControlToleranceW sent
      else f64_abs (actual - sent) \<le> ControlToleranceW sent)"

definition materialStep :: "f64 option \<Rightarrow> f64 option \<Rightarrow> bool" where
  "materialStep old next' =
     (case (old, next') of
        (Some o', Some n) \<Rightarrow> f64_abs (n - o') \<ge> f64_max (Fin 500) (ControlToleranceW o')
      | _ \<Rightarrow> old \<noteq> None \<or> next' \<noteq> None)"

text \<open>A command payload as \<open>json.Unmarshal\<close> decodes it: action, power, expected power.\<close>

datatype payload = BadPayload | Request "string jfield" "f64 jfield" "f64 jfield"

text \<open>The first part of \<open>BeginCommand\<close>: decode, prefer the expected power, and refuse what is not
  evidence. The result is the action, its kind and the power.\<close>

definition admitCommand :: "payload \<Rightarrow> (string \<times> string \<times> f64 option) option" where
  "admitCommand payload =
     (case payload of
        BadPayload \<Rightarrow> None
      | Request a p e \<Rightarrow>
          if jbad a \<or> jbad p \<or> jbad e then None
          else
            let action = jval [] a;
                pw1 = (case jptr e of
                         Some x \<Rightarrow> if isFinite x \<and> x \<ge> Fin 0 then Some x else jptr p
                       | None \<Rightarrow> jptr p)
            in if action = ''ev_resume'' \<and> pw1 = None then None
               else
                 let pw2 = (if action = ''ev_pause'' then Some (Fin 0) else pw1);
                     kind = commandKind action
                 in if kind = [] \<or> (\<exists>w \<in> set_option pw2. \<not> isFinite w) then None
                    else Some (action, kind, pw2))"

section \<open>BeginCommand\<close>

text \<open>The battery order bound: the highest signed target not yet replaced by measured power, and
  the highest target of the run of lower orders after it.\<close>

definition orderBattery :: "time \<Rightarrow> CommandEvidence \<Rightarrow> CommandEvidence \<Rightarrow> CommandEvidence" where
  "orderBattery now old c =
     (if cKind c \<noteq> ''battery'' then c
      else
        let c1 = c\<lparr>batteryOrderAt := now, batteryUpperW := batteryUpperW old,
                   batteryUpperKnown := batteryUpperKnown old, batteryLowerW := batteryLowerW old,
                   batteryLowerSince := batteryLowerSince old\<rparr>
        in case cPowerW c1 of
             None \<Rightarrow> c1
           | Some w \<Rightarrow>
               if \<not> batteryUpperKnown c1 \<or> w \<ge> batteryUpperW c1
               then c1\<lparr>batteryUpperW := w, batteryUpperKnown := True, batteryLowerSince := zeroTime\<rparr>
               else if isZero (batteryLowerSince c1) \<or> w > batteryLowerW c1
               then c1\<lparr>batteryLowerW := w, batteryLowerSince := now\<rparr>
               else c1)"

text \<open>Retuning the same action continues one measurement record; a material step does not.\<close>

definition continueRun :: "CommandEvidence \<Rightarrow> CommandEvidence \<Rightarrow> CommandEvidence" where
  "continueRun old c =
     (let c1 = (if cKind c = ''ev''
                   \<and> (\<exists>w \<in> set_option (cPowerW old). w > Fin 100)
                   \<and> (\<exists>w \<in> set_option (cPowerW c). w > Fin 100)
                then c\<lparr>NoPowerSince := NoPowerSince old, NoPowerAt := NoPowerAt old\<rparr> else c);
          c2 = c1\<lparr>Recent := Recent old, cMaxAge := cMaxAge old\<rparr>
      in if materialStep (cPowerW old) (cPowerW c2) then c2
         else c2\<lparr>cSince := cSince old, Baseline := Baseline old, StepAfter := StepAfter old,
                 StepAfterAt := StepAfterAt old,
                 ReadbackMismatchSince := ReadbackMismatchSince old,
                 PowerMismatchSince := PowerMismatchSince old,
                 PowerMatchSince := PowerMatchSince old, PowerOverSince := PowerOverSince old,
                 PowerObservedSince := PowerObservedSince old,
                 LastObservation := LastObservation old, LastGapW := LastGapW old\<rparr>)"

definition appendRecent :: "time \<Rightarrow> CommandEvidence \<Rightarrow> CommandEvidence" where
  "appendRecent now c =
     (let r1 = (case cPowerW c of
                  Some w \<Rightarrow> if Recent c = [] \<or> pPowerW (last (Recent c)) \<noteq> w
                            then Recent c @ [\<lparr>pPowerW = w, pAt = now\<rparr>] else Recent c
                | None \<Rightarrow> Recent c)
      in c\<lparr>Recent := lastn 8 r1\<rparr>)"

definition beginEvidence ::
  "Store \<Rightarrow> string \<Rightarrow> string \<Rightarrow> string \<Rightarrow> f64 option \<Rightarrow> time \<Rightarrow> CommandEvidence" where
  "beginEvidence s driver action kind pw now =
     (let c0 = zeroEvidence\<lparr>cDriver := driver, cKind := kind, cAction := action, cPowerW := pw,
                            cAt := now, cSince := now, cResult := ''pending''\<rparr>;
          found = mget (commands s) (driver @ '':'' @ kind);
          old = (case found of Some e \<Rightarrow> e | None \<Rightarrow> zeroEvidence);
          c1 = orderBattery now old c0;
          c2 = (if found \<noteq> None \<and> cResult old \<noteq> ''released''
                then c1\<lparr>LastMeasuredAt := LastMeasuredAt old\<rparr> else c1);
          c3 = (if found \<noteq> None \<and> cAction old = cAction c2
                   \<and> (cResult old = ''accepted'' \<or> cResult old = ''pending'')
                then continueRun old c2 else c2);
          c4 = appendRecent now c3
      in if Baseline c4 = None then c4\<lparr>Baseline := Some (controlBaseline s now)\<rparr> else c4)"

text \<open>The returned token carries no window and no history.\<close>

definition BeginCommand ::
  "string \<Rightarrow> payload \<Rightarrow> time \<Rightarrow> Store \<Rightarrow> Store \<times> CommandEvidence" where
  "BeginCommand driver payload now s =
     (case admitCommand payload of
        None \<Rightarrow> (s, zeroEvidence)
      | Some (action, kind, pw) \<Rightarrow>
          let c = beginEvidence s driver action kind pw now
          in (s\<lparr>commands := mset_at (driver @ '':'' @ kind) c (commands s)\<rparr>,
              c\<lparr>Baseline := None, StepAfter := None, Recent := []\<rparr>))"

section \<open>Completion, release, restart\<close>

definition CompleteCommand :: "CommandEvidence \<Rightarrow> string \<Rightarrow> Store \<Rightarrow> Store" where
  "CompleteCommand c result s =
     (if cKind c = [] then s
      else
        let k = cDriver c @ '':'' @ cKind c
        in case mget (commands s) k of
             Some latest \<Rightarrow>
               if cAt latest = cAt c
               then s\<lparr>commands := mset_at k (latest\<lparr>cResult := result\<rparr>) (commands s)\<rparr> else s
           | None \<Rightarrow> s)"

definition CommandEvidenceOf :: "string \<Rightarrow> string \<Rightarrow> Store \<Rightarrow> CommandEvidence \<times> bool" where
  "CommandEvidenceOf driver kind s =
     (case mget (commands s) (driver @ '':'' @ kind) of
        Some c \<Rightarrow> if cleared c then (zeroEvidence, False) else (c, True)
      | None \<Rightarrow> (zeroEvidence, False))"

definition BatteryCommandUpperW ::
  "string \<Rightarrow> CommandPoint list \<Rightarrow> Store \<Rightarrow> f64 \<times> bool" where
  "BatteryCommandUpperW driver offers s =
     (let c = (case mget (commands s) (driver @ '':battery'') of Some e \<Rightarrow> e | None \<Rightarrow> zeroEvidence);
          upper = foldl (\<lambda>u offer. if batteryUpperKnown c \<and> pAt offer > batteryOrderAt c
                                   then f64_max u (pPowerW offer) else u)
                    (batteryUpperW c) offers
      in (upper, batteryUpperKnown c))"

definition clearEvidence :: "string \<Rightarrow> time \<Rightarrow> CommandEvidence \<Rightarrow> CommandEvidence option" where
  "clearEvidence driver now c =
     (if cDriver c \<noteq> driver then Some c
      else if cKind c = ''battery'' \<and> batteryUpperKnown c
      then let since = (if \<not> batteryReleased c \<or> isZero (batteryLowerSince c) then now
                        else batteryLowerSince c)
           in Some (zeroEvidence\<lparr>cDriver := driver, cKind := ''battery'', cResult := ''released'',
                      cleared := True, batteryUpperW := f64_max (Fin 0) (batteryUpperW c),
                      batteryUpperKnown := True, batteryLowerSince := since,
                      batteryReleased := True, batteryOrderAt := now\<rparr>)
      else None)"

definition clearCommandEvidenceLocked :: "string \<Rightarrow> time \<Rightarrow> Store \<Rightarrow> Store" where
  "clearCommandEvidenceLocked driver now s =
     s\<lparr>commands := List.map_filter (\<lambda>(k, c). map_option (Pair k) (clearEvidence driver now c))
                     (commands s)\<rparr>"

definition endEvidence :: "string \<Rightarrow> bool \<Rightarrow> time \<Rightarrow> CommandEvidence \<Rightarrow> CommandEvidence" where
  "endEvidence driver failed now c =
     (if cDriver c \<noteq> driver then c
      else
        let c1 = (if cKind c = ''battery'' \<and> batteryUpperKnown c
                  then c\<lparr>batteryUpperW := f64_max (Fin 0) (batteryUpperW c),
                         batteryLowerSince :=
                           (if \<not> batteryReleased c \<or> isZero (batteryLowerSince c) then now
                            else batteryLowerSince c),
                         batteryLowerW := Fin 0, batteryReleased := True, batteryOrderAt := now\<rparr>
                  else c);
            c2 = (if failed then c1\<lparr>cResult := ''default_failed''\<rparr>
                  else if cResult c1 \<in> {''accepted'', ''pending'', ''default_failed''}
                  then c1\<lparr>cResult := ''released''\<rparr> else c1);
            c3 = c2\<lparr>ReadbackMismatchSince := zeroTime, PowerMismatchSince := zeroTime,
                    PowerMatchSince := zeroTime, PowerOverSince := zeroTime,
                    PowerObservedSince := zeroTime, LastObservation := zeroTime, LastGapW := None,
                    Recent := [], StepAfter := None, StepAfterAt := zeroTime\<rparr>
        in if failed then c3 else c3\<lparr>LastMeasuredAt := zeroTime\<rparr>)"

definition endCommandControlAt :: "string \<Rightarrow> bool \<Rightarrow> time \<Rightarrow> Store \<Rightarrow> Store" where
  "endCommandControlAt driver failed now s =
     s\<lparr>commands := map (\<lambda>(k, c). (k, endEvidence driver failed now c)) (commands s)\<rparr>"

section \<open>Comparison with the commands in force\<close>

text \<open>The loop over \<open>Recent\<close>: the range of the commands sent after the cutoff, and the last one
  sent before it.\<close>

fun gapLoop :: "time \<Rightarrow> time \<Rightarrow> CommandPoint list \<Rightarrow> f64 \<Rightarrow> f64 \<Rightarrow> CommandPoint option
    \<Rightarrow> f64 \<times> f64 \<times> CommandPoint option" where
  "gapLoop ts cutoff [] lo hi inForce = (lo, hi, inForce)"
| "gapLoop ts cutoff (p # ps) lo hi inForce =
     (if pAt p > ts then gapLoop ts cutoff ps lo hi inForce
      else if \<not> pAt p > cutoff then gapLoop ts cutoff ps lo hi (Some p)
      else gapLoop ts cutoff ps (f64_min lo (pPowerW p)) (f64_max hi (pPowerW p)) inForce)"

definition commandGap :: "CommandEvidence \<Rightarrow> f64 \<Rightarrow> time \<Rightarrow> f64" where
  "commandGap c pw ts =
     (let (lo0, hi0, inForce) = gapLoop ts (ts - ResponseDelay (cKind c)) (Recent c) PInf NInf None;
          (lo, hi) = (case inForce of
                        Some p \<Rightarrow> (f64_min lo0 (pPowerW p), f64_max hi0 (pPowerW p))
                      | None \<Rightarrow> (lo0, hi0))
      in if lo > hi then NaN
         else if cKind c = ''pv''
         then f64_max (Fin 0) (f64_abs pw - f64_max (f64_abs lo) (f64_abs hi))
         else if pw < lo then lo - pw
         else if pw > hi then pw - hi
         else Fin 0)"

definition HasMeasuredPower :: "time \<Rightarrow> CommandEvidence \<Rightarrow> bool" where
  "HasMeasuredPower now c =
     (\<not> isZero (PowerObservedSince c)
      \<and> tsub (LastObservation c) (PowerObservedSince c) \<ge> 10 * second
      \<and> \<not> LastObservation c > now
      \<and> tsub now (LastObservation c) \<le> max (10 * second) (cMaxAge c))"

section \<open>observeCommand\<close>

text \<open>The closure \<open>mark\<close>: start, keep or clear a mismatch clock.\<close>

definition mark :: "time \<Rightarrow> bool \<Rightarrow> time \<Rightarrow> time" where
  "mark since mismatch ts = (if \<not> mismatch then zeroTime else if isZero since then ts else since)"

text \<open>The battery bound under a new measurement.\<close>

definition observeBattery :: "f64 \<Rightarrow> rawmsg \<Rightarrow> time \<Rightarrow> CommandEvidence \<Rightarrow> CommandEvidence" where
  "observeBattery pw data now c =
     (let (observation, fresh) = ControlPowerObservation pw data now; seen = Seen observation
      in if fresh \<and> \<not> seen < batteryLowerSince c + ResponseDelay ''battery'' \<and> \<not> seen > now
            \<and> tsub now seen \<le> ControlWindowDuration
         then
           let u0 = f64_max (batteryLowerW c) (oPowerW observation);
               upper = (if batteryReleased c then f64_max (Fin 0) u0
                        else case cPowerW c of Some w \<Rightarrow> f64_max w u0 | None \<Rightarrow> u0)
           in if upper < batteryUpperW c
              then c\<lparr>batteryUpperW := upper,
                     batteryLowerSince := (if upper \<le> batteryLowerW c then zeroTime
                                           else batteryLowerSince c)\<rparr>
              else c
         else c)"

text \<open>The setpoint readback of the device.\<close>

definition readbackMismatch :: "DerType \<Rightarrow> der_doc \<Rightarrow> time \<Rightarrow> CommandEvidence \<Rightarrow> f64 \<Rightarrow> bool" where
  "readbackMismatch kind d now c sent =
     (case jptr (setpoint_w d) of
        Some sp \<Rightarrow>
          if \<not> isFinite sp then False
          else if kind = DerPV
          then f64_abs (f64_abs sp - f64_abs sent) > f64_max (Fin 100) (f64_abs sent * Fin (1 / 20))
          else let gap = commandGap c sp now
               in gap = NaN \<or> gap > f64_max (Fin 100) (f64_abs sent * Fin (1 / 20))
      | None \<Rightarrow> False)"

text \<open>The observed stop of a charger under a positive order.\<close>

definition observeNoPower ::
  "bool \<Rightarrow> f64 \<Rightarrow> f64 \<Rightarrow> time \<Rightarrow> CommandEvidence \<Rightarrow> CommandEvidence" where
  "observeNoPower fresh pw sent observedAt c =
     (if \<not> fresh \<or> \<not> isFinite pw \<or> sent \<le> Fin 100 \<or> f64_abs pw \<ge> Fin 100
      then c\<lparr>NoPowerSince := zeroTime, NoPowerAt := zeroTime\<rparr>
      else if observedAt > NoPowerAt c \<and> (\<not> isZero (NoPowerSince c) \<or> \<not> observedAt < cSince c)
      then c\<lparr>NoPowerSince :=
               (if isZero (NoPowerSince c)
                   \<or> tsub observedAt (NoPowerAt c) > max minute (cMaxAge c)
                then observedAt else NoPowerSince c),
             NoPowerAt := observedAt\<rparr>
      else c)"

definition observeMatch ::
  "DerType \<Rightarrow> f64 \<Rightarrow> f64 \<Rightarrow> time \<Rightarrow> time \<Rightarrow> CommandEvidence \<Rightarrow> CommandEvidence" where
  "observeMatch kind pw sent observedAt now c =
     (let c1 = c\<lparr>LastObservation := observedAt,
                 PowerObservedSince := mark (PowerObservedSince c) True observedAt\<rparr>;
          gap = commandGap c1 pw observedAt;
          mismatch = (\<not> isFinite gap \<or> gap > ControlToleranceW sent);
          follows = (if kind = DerPV then PowerFollowsCommand (cKind c1) sent pw else \<not> mismatch);
          c2 = c1\<lparr>LastGapW := (if isFinite gap then Some gap else None),
                  PowerMismatchSince := mark (PowerMismatchSince c1) mismatch observedAt,
                  PowerOverSince :=
                    mark (PowerOverSince c1) (mismatch \<and> kind \<noteq> DerPV \<and> pw > sent) observedAt,
                  PowerMatchSince := mark (PowerMatchSince c1) follows observedAt\<rparr>
      in if HasMeasuredPower now c2 then c2\<lparr>LastMeasuredAt := observedAt\<rparr> else c2)"

text \<open>An accepted command with a power meets a reading.\<close>

definition observeAccepted ::
  "DerType \<Rightarrow> f64 \<Rightarrow> f64 \<Rightarrow> rawmsg \<Rightarrow> time \<Rightarrow> CommandEvidence \<Rightarrow> CommandEvidence" where
  "observeAccepted kind sent power0 data now c =
     (case data of
        Doc d \<Rightarrow>
          if jbad (setpoint_w d)
          then c\<lparr>NoPowerSince := zeroTime, NoPowerAt := zeroTime, ReadbackMismatchSince := zeroTime,
                 PowerMismatchSince := zeroTime, PowerMatchSince := zeroTime,
                 PowerOverSince := zeroTime, PowerObservedSince := zeroTime,
                 LastObservation := zeroTime\<rparr>
          else
            let c1 = c\<lparr>cMaxAge := DeclaredPowerMaxAge data\<rparr>;
                c2 = (if tsub now (LastObservation c1) > max minute (cMaxAge c1)
                      then c1\<lparr>ReadbackMismatchSince := zeroTime, PowerMismatchSince := zeroTime,
                              PowerMatchSince := zeroTime, PowerOverSince := zeroTime,
                              PowerObservedSince := zeroTime\<rparr> else c1);
                c3 = c2\<lparr>ReadbackMismatchSince :=
                          mark (ReadbackMismatchSince c2) (readbackMismatch kind d now c2 sent) now\<rparr>;
                (observation, fresh) = ControlPowerObservation power0 data now;
                pw = oPowerW observation;
                observedAt = Seen observation;
                c4 = (if kind = DerEV then observeNoPower fresh pw sent observedAt c3 else c3)
            in if \<not> fresh \<or> \<not> isFinite pw \<or> observedAt < cSince c4
               then c4\<lparr>PowerMismatchSince := zeroTime, PowerMatchSince := zeroTime,
                       LastObservation := zeroTime, PowerOverSince := zeroTime,
                       PowerObservedSince := zeroTime, LastGapW := None\<rparr>
               else if \<not> observedAt > LastObservation c4 then c4
               else observeMatch kind pw sent observedAt now c4
      | _ \<Rightarrow>
          c\<lparr>NoPowerSince := zeroTime, NoPowerAt := zeroTime, ReadbackMismatchSince := zeroTime,
            PowerMismatchSince := zeroTime, PowerMatchSince := zeroTime, PowerOverSince := zeroTime,
            PowerObservedSince := zeroTime, LastObservation := zeroTime\<rparr>)"

definition observeEvidence ::
  "DerType \<Rightarrow> f64 \<Rightarrow> rawmsg \<Rightarrow> time \<Rightarrow> CommandEvidence \<Rightarrow> CommandEvidence" where
  "observeEvidence kind pw data now c =
     (let c1 = (if kind = DerBattery \<and> batteryUpperKnown c \<and> \<not> isZero (batteryLowerSince c)
                then observeBattery pw data now c else c)
      in if cResult c1 \<noteq> ''accepted'' \<or> cleared c1 then c1
         else case cPowerW c1 of
                None \<Rightarrow> c1
              | Some sent \<Rightarrow> observeAccepted kind sent pw data now c1)"

definition observeCommand :: "string \<Rightarrow> DerType \<Rightarrow> f64 \<Rightarrow> rawmsg \<Rightarrow> time \<Rightarrow> Store \<Rightarrow> Store" where
  "observeCommand driver kind pw data now s =
     (let k = driver @ '':'' @ derTypeString kind
      in case mget (commands s) k of
           None \<Rightarrow> s
         | Some c \<Rightarrow> s\<lparr>commands := mset_at k (observeEvidence kind pw data now c) (commands s)\<rparr>)"

section \<open>Frames: what each step leaves of the battery bound\<close>

definition battery_fields :: "CommandEvidence \<Rightarrow> f64 \<times> bool \<times> f64 \<times> time \<times> bool \<times> time" where
  "battery_fields c = (batteryUpperW c, batteryUpperKnown c, batteryLowerW c, batteryLowerSince c,
     batteryReleased c, batteryOrderAt c)"

definition identity_fields :: "CommandEvidence \<Rightarrow> string \<times> string \<times> string \<times> f64 option" where
  "identity_fields c = (cDriver c, cKind c, cAction c, cPowerW c)"

lemmas field_defs = battery_fields_def identity_fields_def

lemma appendRecent_frame [simp]:
  "battery_fields (appendRecent now c) = battery_fields c"
  "identity_fields (appendRecent now c) = identity_fields c"
  by (simp_all add: appendRecent_def field_defs Let_def)

lemma continueRun_frame [simp]:
  "battery_fields (continueRun old c) = battery_fields c"
  "identity_fields (continueRun old c) = identity_fields c"
  by (simp_all add: continueRun_def field_defs Let_def)

lemma observeNoPower_frame [simp]:
  "battery_fields (observeNoPower fresh pw sent ts c) = battery_fields c"
  "identity_fields (observeNoPower fresh pw sent ts c) = identity_fields c"
  by (simp_all add: observeNoPower_def field_defs)

lemma observeMatch_frame [simp]:
  "battery_fields (observeMatch kind pw sent ts now c) = battery_fields c"
  "identity_fields (observeMatch kind pw sent ts now c) = identity_fields c"
  by (simp_all add: observeMatch_def field_defs Let_def)

lemma orderBattery_identity [simp]: "identity_fields (orderBattery now old c) = identity_fields c"
  by (simp add: orderBattery_def Let_def identity_fields_def split: option.split)

lemma field_updates [simp]:
  "battery_fields (c\<lparr>cMaxAge := a\<rparr>) = battery_fields c"
  "identity_fields (c\<lparr>cMaxAge := a\<rparr>) = identity_fields c"
  "battery_fields (c\<lparr>ReadbackMismatchSince := t\<rparr>) = battery_fields c"
  "identity_fields (c\<lparr>ReadbackMismatchSince := t\<rparr>) = identity_fields c"
  "battery_fields (c\<lparr>LastMeasuredAt := t\<rparr>) = battery_fields c"
  "identity_fields (c\<lparr>LastMeasuredAt := t\<rparr>) = identity_fields c"
  "battery_fields (c\<lparr>Baseline := b\<rparr>) = battery_fields c"
  "identity_fields (c\<lparr>Baseline := b\<rparr>) = identity_fields c"
  "battery_fields (c\<lparr>cResult := r\<rparr>) = battery_fields c"
  "identity_fields (c\<lparr>cResult := r\<rparr>) = identity_fields c"
  by (simp_all add: field_defs)

lemma observeAccepted_frame [simp]:
  "battery_fields (observeAccepted kind sent pw data now c) = battery_fields c"
  "identity_fields (observeAccepted kind sent pw data now c) = identity_fields c"
proof -
  have reset: "battery_fields (c\<lparr>NoPowerSince := zeroTime, NoPowerAt := zeroTime,
      ReadbackMismatchSince := zeroTime, PowerMismatchSince := zeroTime, PowerMatchSince := zeroTime,
      PowerOverSince := zeroTime, PowerObservedSince := zeroTime, LastObservation := zeroTime\<rparr>)
      = battery_fields c"
    "identity_fields (c\<lparr>NoPowerSince := zeroTime, NoPowerAt := zeroTime,
      ReadbackMismatchSince := zeroTime, PowerMismatchSince := zeroTime, PowerMatchSince := zeroTime,
      PowerOverSince := zeroTime, PowerObservedSince := zeroTime, LastObservation := zeroTime\<rparr>)
      = identity_fields c" for c by (simp_all add: field_defs)
  have stale: "battery_fields (c\<lparr>ReadbackMismatchSince := zeroTime, PowerMismatchSince := zeroTime,
      PowerMatchSince := zeroTime, PowerOverSince := zeroTime, PowerObservedSince := zeroTime\<rparr>)
      = battery_fields c"
    "identity_fields (c\<lparr>ReadbackMismatchSince := zeroTime, PowerMismatchSince := zeroTime,
      PowerMatchSince := zeroTime, PowerOverSince := zeroTime, PowerObservedSince := zeroTime\<rparr>)
      = identity_fields c" for c by (simp_all add: field_defs)
  have old: "battery_fields (c\<lparr>PowerMismatchSince := zeroTime, PowerMatchSince := zeroTime,
      LastObservation := zeroTime, PowerOverSince := zeroTime, PowerObservedSince := zeroTime,
      LastGapW := None\<rparr>) = battery_fields c"
    "identity_fields (c\<lparr>PowerMismatchSince := zeroTime, PowerMatchSince := zeroTime,
      LastObservation := zeroTime, PowerOverSince := zeroTime, PowerObservedSince := zeroTime,
      LastGapW := None\<rparr>) = identity_fields c" for c by (simp_all add: field_defs)
  show "battery_fields (observeAccepted kind sent pw data now c) = battery_fields c"
    "identity_fields (observeAccepted kind sent pw data now c) = identity_fields c"
    by (simp_all add: observeAccepted_def Let_def case_prod_beta reset stale old split: rawmsg.split)
qed

section \<open>The battery order bound\<close>

definition battery_ok :: "CommandEvidence \<Rightarrow> bool" where
  "battery_ok c \<longleftrightarrow> isFinite (batteryUpperW c) \<and> isFinite (batteryLowerW c)
     \<and> (\<forall>w \<in> set_option (cPowerW c). isFinite w)"

lemma battery_ok_cong:
  "battery_fields c = battery_fields c' \<Longrightarrow> identity_fields c = identity_fields c' \<Longrightarrow>
     battery_ok c = battery_ok c'"
  by (simp add: battery_ok_def field_defs)

lemma battery_ok_zero [simp]: "battery_ok zeroEvidence"
  by (simp add: battery_ok_def zeroEvidence_def)

lemma admitCommand_finite:
  "admitCommand payload = Some (action, kind, pw) \<Longrightarrow>
     kind = commandKind action \<and> kind \<noteq> [] \<and> (\<forall>w \<in> set_option pw. isFinite w)"
  by (auto simp: admitCommand_def Let_def split: payload.splits if_splits)

lemma beginEvidence_identity:
  "identity_fields (beginEvidence s driver action kind pw now) = (driver, kind, action, pw)"
proof -
  have "identity_fields (beginEvidence s driver action kind pw now) =
      identity_fields (zeroEvidence\<lparr>cDriver := driver, cKind := kind, cAction := action,
        cPowerW := pw, cAt := now, cSince := now, cResult := ''pending''\<rparr>)"
    unfolding beginEvidence_def Let_def by (simp split: option.split)
  then show ?thesis by (simp add: identity_fields_def)
qed

lemma beginEvidence_battery:
  "battery_fields (beginEvidence s driver action kind pw now) =
     battery_fields (orderBattery now
       (case mget (commands s) (driver @ '':'' @ kind) of Some e \<Rightarrow> e | None \<Rightarrow> zeroEvidence)
       (zeroEvidence\<lparr>cDriver := driver, cKind := kind, cAction := action, cPowerW := pw,
                     cAt := now, cSince := now, cResult := ''pending''\<rparr>))"
  unfolding beginEvidence_def Let_def by (simp split: option.split)

lemma orderBattery_upper:
  assumes "cKind c = ''battery''" "batteryUpperKnown old" "battery_ok old"
    "\<forall>w \<in> set_option (cPowerW c). isFinite w"
  shows "batteryUpperKnown (orderBattery now old c)
    \<and> batteryUpperW (orderBattery now old c) =
        (case cPowerW c of None \<Rightarrow> batteryUpperW old | Some w \<Rightarrow> f64_max (batteryUpperW old) w)"
  using assms
  by (auto simp: orderBattery_def Let_def battery_ok_def f64_finite_cmp split: option.splits)

lemma orderBattery_ok:
  assumes "battery_ok old" "\<forall>w \<in> set_option (cPowerW c). isFinite w" "battery_ok c"
  shows "battery_ok (orderBattery now old c)"
  using assms by (auto simp: orderBattery_def Let_def battery_ok_def split: option.splits)

lemma endEvidence_ok: "battery_ok c \<Longrightarrow> battery_ok (endEvidence driver failed now c)"
  by (auto simp: endEvidence_def Let_def battery_ok_def)

lemma clearEvidence_ok: "battery_ok c \<Longrightarrow> clearEvidence driver now c = Some c' \<Longrightarrow> battery_ok c'"
  by (auto simp: clearEvidence_def Let_def battery_ok_def zeroEvidence_def split: if_splits)

text \<open>What a measurement may do to the bound: nothing, or lower it to a value that still covers the
  measured power, the run of lower orders, and the order in force (or 0 W after a release).\<close>

definition lowered_by :: "ControlObservation \<Rightarrow> time \<Rightarrow> CommandEvidence \<Rightarrow> CommandEvidence \<Rightarrow> bool" where
  "lowered_by p now c c' \<longleftrightarrow>
     isFinite (batteryUpperW c') \<and> batteryUpperW c' < batteryUpperW c
     \<and> batteryLowerSince c + 15 * second \<le> Seen p \<and> Seen p \<le> now \<and> now - Seen p \<le> 20 * second
     \<and> oPowerW p \<le> batteryUpperW c' \<and> batteryLowerW c \<le> batteryUpperW c'
     \<and> (batteryReleased c \<longrightarrow> Fin 0 \<le> batteryUpperW c')
     \<and> (\<not> batteryReleased c \<longrightarrow> (\<forall>w \<in> set_option (cPowerW c). w \<le> batteryUpperW c'))"

lemma observeBattery_cases:
  assumes ok: "battery_ok c" and p: "ControlPowerObservation pw data now = (p, fresh)"
  shows "observeBattery pw data now c = c
    \<or> (fresh \<and> lowered_by p now c (observeBattery pw data now c)
       \<and> (\<exists>u since. observeBattery pw data now c = c\<lparr>batteryUpperW := u, batteryLowerSince := since\<rparr>))"
proof (cases "fresh \<and> \<not> Seen p < batteryLowerSince c + ResponseDelay ''battery'' \<and> \<not> Seen p > now
            \<and> tsub now (Seen p) \<le> ControlWindowDuration")
  case False
  then have "observeBattery pw data now c = c" by (auto simp: observeBattery_def p)
  then show ?thesis by simp
next
  case True
  have fin: "isFinite (oPowerW p)" using True p ControlPowerObservation_known by auto
  let ?u0 = "f64_max (batteryLowerW c) (oPowerW p)"
  define u where "u = (if batteryReleased c then f64_max (Fin 0) ?u0
                       else case cPowerW c of Some w \<Rightarrow> f64_max w ?u0 | None \<Rightarrow> ?u0)"
  have u: "isFinite u" "oPowerW p \<le> u" "batteryLowerW c \<le> u" "batteryReleased c \<longrightarrow> Fin 0 \<le> u"
    "\<not> batteryReleased c \<longrightarrow> (\<forall>w \<in> set_option (cPowerW c). w \<le> u)"
    using ok fin by (auto simp: u_def battery_ok_def f64_finite_cmp split: option.splits)
  have eq: "observeBattery pw data now c = (if u < batteryUpperW c
      then c\<lparr>batteryUpperW := u, batteryLowerSince :=
              (if u \<le> batteryLowerW c then zeroTime else batteryLowerSince c)\<rparr> else c)"
    using True by (simp add: observeBattery_def p Let_def u_def)
  have t: "batteryLowerSince c + 15 * second \<le> Seen p" "Seen p \<le> now" "now - Seen p \<le> 20 * second"
    using True
    by (auto simp: ResponseDelay_def tsub_def time_simps maxDuration_def minDuration_def)
  show ?thesis
  proof (cases "u < batteryUpperW c")
    case lt: True
    define since where "since = (if u \<le> batteryLowerW c then zeroTime else batteryLowerSince c)"
    have e: "observeBattery pw data now c = c\<lparr>batteryUpperW := u, batteryLowerSince := since\<rparr>"
      unfolding since_def using eq lt by simp
    have "lowered_by p now c (c\<lparr>batteryUpperW := u, batteryLowerSince := since\<rparr>)"
      unfolding lowered_by_def using u t lt by simp
    moreover have fresh using True by simp
    ultimately show ?thesis unfolding e by blast
  next
    case False
    then show ?thesis using eq by simp
  qed
qed

lemma observeBattery_ok: "battery_ok c \<Longrightarrow> battery_ok (observeBattery pw data now c)"
  using observeBattery_cases [of c pw data now "fst (ControlPowerObservation pw data now)"
      "snd (ControlPowerObservation pw data now)"]
  by (auto simp: battery_ok_def lowered_by_def)

lemma observeEvidence_ok: "battery_ok c \<Longrightarrow> battery_ok (observeEvidence kind pw data now c)"
proof -
  assume ok: "battery_ok c"
  let ?c = "if kind = DerBattery \<and> batteryUpperKnown c \<and> \<not> isZero (batteryLowerSince c)
            then observeBattery pw data now c else c"
  have "battery_fields (observeEvidence kind pw data now c) = battery_fields ?c"
    "identity_fields (observeEvidence kind pw data now c) = identity_fields ?c"
    by (simp_all add: observeEvidence_def Let_def split: option.split)
  then have "battery_ok (observeEvidence kind pw data now c) = battery_ok ?c" by (rule battery_ok_cong)
  with ok show ?thesis by (simp add: observeBattery_ok)
qed

section \<open>The command machine\<close>

text \<open>Every way a stored command changes without a measurement: a new order, a completed call, a
  return to device control, a restart.\<close>

datatype cmd_op =
    Begin string payload time
  | Complete CommandEvidence string
  | EndControl string bool time
  | Restart string time

fun cmd_step :: "Store \<Rightarrow> cmd_op \<Rightarrow> Store" where
  "cmd_step s (Begin d p now) = fst (BeginCommand d p now s)"
| "cmd_step s (Complete c r) = CompleteCommand c r s"
| "cmd_step s (EndControl d failed now) = endCommandControlAt d failed now s"
| "cmd_step s (Restart d now) = clearCommandEvidenceLocked d now s"

definition battery_of :: "string \<Rightarrow> Store \<Rightarrow> CommandEvidence option" where
  "battery_of d s = mget (commands s) (d @ '':battery'')"

definition commands_ok :: "Store \<Rightarrow> bool" where
  "commands_ok s \<longleftrightarrow> gomap_ok (commands s)
     \<and> (\<forall>k c. mget (commands s) k = Some c \<longrightarrow> battery_ok c \<and> k = cDriver c @ '':'' @ cKind c
          \<and> CHR '':'' \<notin> set (cKind c))"

definition bound_known :: "string \<Rightarrow> Store \<Rightarrow> bool" where
  "bound_known d s \<longleftrightarrow> commands_ok s \<and> (\<exists>c. battery_of d s = Some c \<and> batteryUpperKnown c)"

definition bound :: "string \<Rightarrow> Store \<Rightarrow> real" where
  "bound d s = (case battery_of d s of Some c \<Rightarrow> fval (batteryUpperW c) | None \<Rightarrow> 0)"

lemma commandKind_no_colon: "CHR '':'' \<notin> set (commandKind a)"
  by (auto simp: commandKind_def)

lemma beginEvidence_ok:
  assumes "commands_ok s" "\<forall>w \<in> set_option pw. isFinite w"
  shows "battery_ok (beginEvidence s driver action kind pw now)"
proof -
  let ?old = "case mget (commands s) (driver @ '':'' @ kind) of Some e \<Rightarrow> e | None \<Rightarrow> zeroEvidence"
  let ?c0 = "zeroEvidence\<lparr>cDriver := driver, cKind := kind, cAction := action, cPowerW := pw,
                     cAt := now, cSince := now, cResult := ''pending''\<rparr>"
  have old: "battery_ok ?old" using assms(1) by (auto simp: commands_ok_def split: option.split)
  have c0: "battery_ok ?c0" using assms(2) by (simp add: battery_ok_def zeroEvidence_def)
  have "battery_ok (orderBattery now ?old ?c0)" using old c0 assms(2) by (intro orderBattery_ok) auto
  with beginEvidence_battery [of s driver action kind pw now]
    beginEvidence_identity [of s driver action kind pw now] assms(2)
  show ?thesis by (simp add: battery_ok_def field_defs)
qed

lemma beginEvidence_id [simp]:
  "cDriver (beginEvidence s driver action kind pw now) = driver"
  "cKind (beginEvidence s driver action kind pw now) = kind"
  "cPowerW (beginEvidence s driver action kind pw now) = pw"
  using beginEvidence_identity [of s driver action kind pw now] by (simp_all add: field_defs)

lemma endEvidence_id [simp]:
  "cDriver (endEvidence driver failed now c) = cDriver c"
  "cKind (endEvidence driver failed now c) = cKind c"
  by (simp_all add: endEvidence_def Let_def)

lemma clearEvidence_id:
  "clearEvidence driver now c = Some c' \<Longrightarrow> cDriver c' = cDriver c \<and> cKind c' = cKind c"
  by (auto simp: clearEvidence_def Let_def split: if_splits)

lemma commands_ok_step: "commands_ok s \<Longrightarrow> commands_ok (cmd_step s e)"
proof (cases e)
  case (Begin d p now)
  assume ok: "commands_ok s"
  show ?thesis
  proof (cases "admitCommand p")
    case None
    then show ?thesis using ok Begin by (simp add: BeginCommand_def)
  next
    case (Some a)
    obtain action kind pw where a: "a = (action, kind, pw)" by (cases a)
    from admitCommand_finite [OF Some [unfolded a]]
    have "battery_ok (beginEvidence s d action kind pw now)" "CHR '':'' \<notin> set kind"
      using ok commandKind_no_colon by (auto intro: beginEvidence_ok)
    with ok Some a Begin show ?thesis
      by (auto simp: BeginCommand_def Let_def commands_ok_def)
  qed
next
  case (Complete c r)
  assume "commands_ok s"
  with Complete show ?thesis
    by (auto simp: CompleteCommand_def Let_def commands_ok_def battery_ok_def split: option.splits)
next
  case (EndControl d failed now)
  assume "commands_ok s"
  with EndControl show ?thesis
    by (auto simp: endCommandControlAt_def commands_ok_def endEvidence_ok)
next
  case (Restart d now)
  assume ok: "commands_ok s"
  then have "gomap_ok (commands s)" by (simp add: commands_ok_def)
  with ok Restart show ?thesis
    by (auto simp: clearCommandEvidenceLocked_def commands_ok_def mget_map_filter bind_eq_Some_conv
        intro: clearEvidence_ok dest: clearEvidence_id)
qed

interpretation command_machine: invariant_machine cmd_step commands_ok
  by unfold_locales (rule commands_ok_step)

lemma battery_key_iff:
  assumes "CHR '':'' \<notin> set kind"
  shows "d @ '':battery'' = d' @ '':'' @ kind \<longleftrightarrow> d' = d \<and> kind = ''battery''"
  using append_sep_inj [of d "CHR '':''" "''battery''" d' kind] assms by auto

lemma battery_of_ok:
  assumes "commands_ok s" "battery_of d s = Some c"
  shows "battery_ok c \<and> cDriver c = d \<and> cKind c = ''battery''"
proof -
  have "battery_ok c" "d @ '':battery'' = cDriver c @ '':'' @ cKind c" "CHR '':'' \<notin> set (cKind c)"
    using assms by (auto simp: commands_ok_def battery_of_def)
  with battery_key_iff [OF this(3), of d "cDriver c"] show ?thesis by blast
qed

lemma beginEvidence_upper:
  assumes "commands_ok s" "battery_of d s = Some c" "batteryUpperKnown c"
    "\<forall>w \<in> set_option pw. isFinite w"
  shows "batteryUpperKnown (beginEvidence s d action ''battery'' pw now)
    \<and> batteryUpperW (beginEvidence s d action ''battery'' pw now) =
        (case pw of None \<Rightarrow> batteryUpperW c | Some w \<Rightarrow> f64_max (batteryUpperW c) w)"
proof -
  let ?c0 = "zeroEvidence\<lparr>cDriver := d, cKind := ''battery'', cAction := action, cPowerW := pw,
                     cAt := now, cSince := now, cResult := ''pending''\<rparr>"
  have "battery_fields (beginEvidence s d action ''battery'' pw now) = battery_fields (orderBattery now c ?c0)"
    using beginEvidence_battery [of s d action "''battery''" pw now] assms(2)
    by (simp add: battery_of_def)
  with orderBattery_upper [of ?c0 c now] battery_of_ok [OF assms(1,2)] assms(3,4)
  show ?thesis by (simp add: battery_fields_def)
qed

lemma battery_of_Begin:
  assumes "commands_ok s" "battery_of d s = Some c" "batteryUpperKnown c"
  shows "\<exists>c'. battery_of d (fst (BeginCommand d' p now s)) = Some c' \<and> batteryUpperKnown c'
    \<and> fval (batteryUpperW c) \<le> fval (batteryUpperW c')"
proof (cases "admitCommand p")
  case None
  then show ?thesis using assms by (simp add: BeginCommand_def)
next
  case (Some a)
  obtain action kind pw where a: "a = (action, kind, pw)" by (cases a)
  have fin: "CHR '':'' \<notin> set kind" "\<forall>w \<in> set_option pw. isFinite w"
    using admitCommand_finite [OF Some [unfolded a]] commandKind_no_colon by auto
  show ?thesis
  proof (cases "d' = d \<and> kind = ''battery''")
    case True
    with beginEvidence_upper [OF assms fin(2), of action now] battery_of_ok [OF assms(1,2)] fin(2)
    show ?thesis
      by (auto simp: BeginCommand_def Some a battery_of_def Let_def f64_max_finite battery_ok_def
          split: option.splits)
  next
    case False
    with battery_key_iff [OF fin(1), of d d'] show ?thesis
      using assms by (auto simp: BeginCommand_def Some a battery_of_def Let_def)
  qed
qed

lemma battery_of_step:
  assumes "commands_ok s" "battery_of d s = Some c" "batteryUpperKnown c"
  shows "\<exists>c'. battery_of d (cmd_step s e) = Some c' \<and> batteryUpperKnown c'
    \<and> fval (batteryUpperW c) \<le> fval (batteryUpperW c')"
proof (cases e)
  case (Begin d' p now)
  with battery_of_Begin [OF assms] show ?thesis by simp
next
  case (Complete t r)
  with assms show ?thesis
    by (auto simp: CompleteCommand_def battery_of_def Let_def split: option.splits)
next
  case (EndControl d' failed now)
  have "fval (batteryUpperW c) \<le> fval (f64_max (Fin 0) (batteryUpperW c))"
    using battery_of_ok [OF assms(1,2)] by (auto simp: battery_ok_def f64_max_finite)
  with EndControl assms battery_of_ok [OF assms(1,2)] show ?thesis
    by (auto simp: endCommandControlAt_def battery_of_def endEvidence_def Let_def)
next
  case (Restart d' now)
  have "fval (batteryUpperW c) \<le> fval (f64_max (Fin 0) (batteryUpperW c))"
    using battery_of_ok [OF assms(1,2)] by (auto simp: battery_ok_def f64_max_finite)
  moreover have "gomap_ok (commands s)" using assms(1) by (simp add: commands_ok_def)
  ultimately show ?thesis using Restart assms battery_of_ok [OF assms(1,2)]
    by (auto simp: clearCommandEvidenceLocked_def battery_of_def mget_map_filter clearEvidence_def Let_def)
qed

interpretation battery_bound: monotone_machine cmd_step "bound_known d" "bound d" for d
proof unfold_locales
  fix s e
  assume "bound_known d s"
  then obtain c where c: "commands_ok s" "battery_of d s = Some c" "batteryUpperKnown c"
    by (auto simp: bound_known_def)
  from battery_of_step [OF this, of e] commands_ok_step [OF c(1), of e] c(2)
  show "bound_known d (cmd_step s e)" "bound d s \<le> bound d (cmd_step s e)"
    by (auto simp: bound_known_def bound_def)
qed

text \<open>A battery order of \<open>w\<close> watts.\<close>

definition batteryOrder :: "real \<Rightarrow> payload" where
  "batteryOrder w = Request (Val ''battery'') (Val (Fin w)) Absent"

lemma admit_batteryOrder [simp]:
  "admitCommand (batteryOrder w) = Some (''battery'', ''battery'', Some (Fin w))"
  by (simp add: batteryOrder_def admitCommand_def commandKind_def Let_def)

definition sendOrders :: "string \<Rightarrow> Store \<Rightarrow> (real \<times> time) list \<Rightarrow> Store" where
  "sendOrders d s ws = foldl (\<lambda>s (w, t). fst (BeginCommand d (batteryOrder w) t s)) s ws"

lemma sendOrders_upper:
  assumes "commands_ok s" "battery_of d s = Some c" "batteryUpperKnown c" "batteryUpperW c = Fin u"
  shows "\<exists>c'. battery_of d (sendOrders d s ws) = Some c' \<and> batteryUpperKnown c'
    \<and> batteryUpperW c' = Fin (foldl max u (map fst ws))"
  using assms
proof (induction ws arbitrary: s c u)
  case Nil
  then show ?case by (simp add: sendOrders_def)
next
  case (Cons p ws)
  obtain w t where p: "p = (w, t)" by force
  let ?s = "fst (BeginCommand d (batteryOrder w) t s)"
  let ?c = "beginEvidence s d ''battery'' ''battery'' (Some (Fin w)) t"
  have "commands_ok ?s" using commands_ok_step [OF Cons.prems(1), of "Begin d (batteryOrder w) t"] by simp
  moreover have "battery_of d ?s = Some ?c" by (simp add: BeginCommand_def battery_of_def Let_def)
  moreover have "batteryUpperKnown ?c" "batteryUpperW ?c = Fin (max u w)"
    using beginEvidence_upper [OF Cons.prems(1-3), of "Some (Fin w)" "''battery''" t] Cons.prems(4)
    by simp_all
  ultimately have "\<exists>c'. battery_of d (sendOrders d ?s ws) = Some c' \<and> batteryUpperKnown c'
      \<and> batteryUpperW c' = Fin (foldl max (max u w) (map fst ws))" by (rule Cons.IH)
  then show ?case by (simp add: sendOrders_def p)
qed

lemma firstOrder:
  assumes "commands s = []"
  shows "battery_of d (fst (BeginCommand d (batteryOrder w) t s)) =
      Some (beginEvidence s d ''battery'' ''battery'' (Some (Fin w)) t)
    \<and> batteryUpperKnown (beginEvidence s d ''battery'' ''battery'' (Some (Fin w)) t)
    \<and> batteryUpperW (beginEvidence s d ''battery'' ''battery'' (Some (Fin w)) t) = Fin w"
proof -
  have "battery_fields (beginEvidence s d ''battery'' ''battery'' (Some (Fin w)) t) =
      (Fin w, True, Fin 0, zeroTime, False, t)"
    using beginEvidence_battery [of s d "''battery''" "''battery''" "Some (Fin w)" t] assms
    by (simp add: orderBattery_def zeroEvidence_def battery_fields_def)
  then show ?thesis by (simp add: BeginCommand_def battery_of_def Let_def battery_fields_def)
qed

section \<open>Properties\<close>

text \<open>C24: Nothing but a measurement lowers the bound on what a battery may still carry out:
  whatever orders to any device, completed or failed calls, returns to device control and driver
  restarts follow, the highest outstanding battery target stays at least where it was and stays
  known.\<close>

theorem battery_bound_never_drops:
  assumes "bound_known d s"
  shows "bound d s \<le> bound d (foldl cmd_step s ops) \<and> bound_known d (foldl cmd_step s ops)"
  using battery_bound.level_run [OF assms] battery_bound.inv_run [OF assms] by blast

theorem battery_bound_never_drops_witness:
  "bound ''b'' (fst (BeginCommand ''b'' (batteryOrder 4000) 5 (NewStore 0))) \<le>
   bound ''b'' (foldl cmd_step (fst (BeginCommand ''b'' (batteryOrder 4000) 5 (NewStore 0)))
     [Begin ''b'' (batteryOrder (-1000)) 9, EndControl ''b'' True 11, Restart ''b'' 12])"
proof -
  have "commands_ok (NewStore 0)" by (simp add: NewStore_def commands_ok_def)
  from commands_ok_step [OF this, of "Begin ''b'' (batteryOrder 4000) 5"]
  have "bound_known ''b'' (fst (BeginCommand ''b'' (batteryOrder 4000) 5 (NewStore 0)))"
    using firstOrder [of "NewStore 0" "''b''" 4000 5] by (simp add: NewStore_def bound_known_def)
  from battery_bound_never_drops [OF this] show ?thesis by blast
qed

text \<open>A measurement lowers the bound only as documented: the sample is fresh, was vouched for
  at least the response delay after the run of lower orders began and within the last twenty
  seconds, and the new bound still covers the measured power, every order of that run, and the
  order in force (or 0 W once the device was released).\<close>

theorem observe_lowers_bound_soundly:
  assumes "battery_ok c" "ControlPowerObservation pw data now = (p, fresh)"
    "batteryUpperW (observeEvidence DerBattery pw data now c) \<noteq> batteryUpperW c"
  shows "fresh \<and> batteryUpperKnown c \<and> \<not> isZero (batteryLowerSince c)
    \<and> lowered_by p now c (observeEvidence DerBattery pw data now c)"
proof -
  let ?c = "if batteryUpperKnown c \<and> \<not> isZero (batteryLowerSince c)
            then observeBattery pw data now c else c"
  have f: "battery_fields (observeEvidence DerBattery pw data now c) = battery_fields ?c"
    by (simp add: observeEvidence_def Let_def split: option.split)
  then have u: "batteryUpperW (observeEvidence DerBattery pw data now c) = batteryUpperW ?c"
    by (simp add: battery_fields_def)
  have k: "batteryUpperKnown c \<and> \<not> isZero (batteryLowerSince c)"
  proof (rule ccontr)
    assume "\<not> (batteryUpperKnown c \<and> \<not> isZero (batteryLowerSince c))"
    then have "?c = c" by (rule if_not_P)
    with u assms(3) show False by simp
  qed
  with u have u': "batteryUpperW (observeEvidence DerBattery pw data now c)
      = batteryUpperW (observeBattery pw data now c)" by simp
  with observeBattery_cases [OF assms(1,2)] assms(3)
  have "fresh \<and> lowered_by p now c (observeBattery pw data now c)" by auto
  with k u' show ?thesis by (simp add: lowered_by_def)
qed

definition exampleEvidence :: CommandEvidence where
  "exampleEvidence = zeroEvidence\<lparr>cDriver := ''b'', cKind := ''battery'', cAction := ''battery'',
     cPowerW := Some (Fin (-1000)), cResult := ''pending'', batteryUpperW := Fin 4000,
     batteryUpperKnown := True, batteryLowerW := Fin (-1000), batteryLowerSince := 0\<rparr>"

theorem observe_lowers_bound_soundly_witness:
  "lowered_by \<lparr>oPowerW = Fin (-900), oAt = 16000000000, oConfirmedAt = zeroTime\<rparr> 16000000000
     exampleEvidence (observeEvidence DerBattery (Fin (-900)) Empty 16000000000 exampleEvidence)"
proof -
  have p: "ControlPowerObservation (Fin (-900)) Empty 16000000000 =
      (\<lparr>oPowerW = Fin (-900), oAt = 16000000000, oConfirmedAt = zeroTime\<rparr>, True)"
    by (simp add: ControlPowerObservation_def finishObservation_def emptyDoc_def Seen_def
        zeroTime_def ControlPowerMaxAge_def DeclaredPowerMaxAge_def time_simps)
  have ok: "battery_ok exampleEvidence" by (simp add: battery_ok_def exampleEvidence_def)
  have "batteryUpperW (observeEvidence DerBattery (Fin (-900)) Empty 16000000000 exampleEvidence)
      \<noteq> batteryUpperW exampleEvidence"
    by (simp add: observeEvidence_def observeBattery_def p exampleEvidence_def Seen_def Let_def
        zeroEvidence_def zeroTime_def isZero_def ResponseDelay_def time_simps tsub_def
        minDuration_def maxDuration_def)
  from observe_lowers_bound_soundly [OF ok p this] show ?thesis by blast
qed

text \<open>With no measurement in between, the bound is exactly the highest of all orders sent,
  however many there were and whatever the response window still remembers of them.\<close>

theorem battery_bound_is_max_order:
  assumes "commands s = []"
  shows "BatteryCommandUpperW d [] (sendOrders d s ((w, t) # ws))
    = (Fin (Max (insert w (fst ` set ws))), True)"
proof -
  let ?s = "fst (BeginCommand d (batteryOrder w) t s)"
  have "commands_ok s" using assms by (simp add: commands_ok_def)
  from commands_ok_step [OF this, of "Begin d (batteryOrder w) t"] have ok: "commands_ok ?s" by simp
  note first = firstOrder [OF assms, of d w t]
  obtain c where c: "battery_of d (sendOrders d ?s ws) = Some c" "batteryUpperKnown c"
    "batteryUpperW c = Fin (foldl max w (map fst ws))"
    using sendOrders_upper [OF ok conjunct1 [OF first], of w ws] first by blast
  have "foldl max w (map fst ws) = Max (insert w (fst ` set ws))"
    using Max.set_eq_fold [of w "map fst ws"] by (simp add: foldl_conv_fold max.commute)
  with c show ?thesis
    by (simp add: BatteryCommandUpperW_def Let_def battery_of_def sendOrders_def)
qed

theorem battery_bound_is_max_order_witness:
  "BatteryCommandUpperW ''b'' [] (sendOrders ''b'' (NewStore 0) [(-2000, 1), (3000, 2), (500, 3)])
    = (Fin 3000, True)"
  using battery_bound_is_max_order [of "NewStore 0" "''b''" "-2000" 1 "[(3000, 2), (500, 3)]"]
  by (simp add: NewStore_def)

end
