(* ===== verification/Telemetry_Store.thy ===== *)
theory Telemetry_Store
  imports Command_Evidence
begin

text \<open>
  The telemetry store (\<open>go/internal/telemetry/store.go\<close>, \<open>offline.go\<close>, \<open>arrivals.go\<close>): the sink
  drivers emit into and the control loop reads from. Every method holds the store's lock, so each is
  one step; \<open>time.Now()\<close> is an argument. The theorems show that nothing outside the site
  convention is ever stored, that an update is visible to its own key and to no other, that a
  battery's carried state of charge is never older than five minutes, and that removing a driver
  forgets it without losing the bound on its outstanding battery order.
\<close>

section \<open>Update\<close>

text \<open>When the state of charge in an emit was observed, and whether it counts as fresh. A vehicle
  may name its own observation time.\<close>

definition socObservation ::
  "DerType \<Rightarrow> f64 option \<Rightarrow> rawmsg \<Rightarrow> DerReading option \<Rightarrow> time \<Rightarrow> bool \<times> time" where
  "socObservation t soc data previous now =
     (if \<not> freshSoCObservation t soc data then (False, zeroTime)
      else if t \<noteq> DerVehicle then (True, now)
      else case (case data of Doc d \<Rightarrow> soc_observed_at_ms d | _ \<Rightarrow> Absent) of
          Absent \<Rightarrow> (True, now)
        | Null \<Rightarrow> (False, now)
        | Bad \<Rightarrow> (False, now)
        | Val ms \<Rightarrow>
            if ms \<le> 0 \<or> ms > unixMilli now then (False, now)
            else (case previous of
                Some r \<Rightarrow> (fromUnixMilli ms > SoCUpdatedAt r, fromUnixMilli ms)
              | None \<Rightarrow> (True, fromUnixMilli ms)))"

text \<open>The state of charge to store: the fresh one, or the last known one while it may be carried.\<close>

definition carrySoC ::
  "DerType \<Rightarrow> f64 option \<Rightarrow> bool \<times> time \<Rightarrow> DerReading option \<Rightarrow> time \<Rightarrow> f64 option \<times> time" where
  "carrySoC t soc obs prev now =
     (if fst obs then (soc, snd obs)
      else case prev of
          None \<Rightarrow> (None, zeroTime)
        | Some r \<Rightarrow>
            if SoC r = None then (None, zeroTime)
            else if t = DerBattery \<and> tsub now (SoCUpdatedAt r) > BatterySoCMaxAge
            then (None, zeroTime)
            else (SoC r, SoCUpdatedAt r))"

definition Update ::
  "string \<Rightarrow> DerType \<Rightarrow> f64 \<Rightarrow> f64 option \<Rightarrow> rawmsg \<Rightarrow> time \<Rightarrow> Store \<Rightarrow> Store" where
  "Update driver t rawW soc data now s =
     (case ValidateReading t rawW soc of
        Inl _ \<Rightarrow> s
      | Inr _ \<Rightarrow>
        let k = key driver t;
            f = (case mget (filters s) k of Some f \<Rightarrow> f
                 | None \<Rightarrow> NewKalman (processNoise s) (measurementNoise s));
            (f', smoothed) = kalman_Update f (fval rawW);
            prev = mget (readings s) k;
            obs = socObservation t soc data prev now;
            (soc', socUpdatedAt) = carrySoC t soc obs prev now;
            r = \<lparr>rDriver = driver, rDerType = t, RawW = rawW, SmoothedW = Fin smoothed, SoC = soc',
                 SoCUpdatedAt = socUpdatedAt, Data = data, UpdatedAt = now\<rparr>;
            s1 = s\<lparr>filters := mset_at k f' (filters s), readings := mset_at k r (readings s)\<rparr>;
            s2 = observeCommand driver t rawW data now s1;
            s3 = recordControlObservation driver t rawW data now s2;
            s4 = freezeStepWindows now s3;
            m1 = \<lparr>msDriver = driver, msMetric = derTypeString t @ ''_w'', msTsMs = unixMilli now,
                  msValue = rawW, msUnit = []\<rparr>;
            m2 = (if fst obs then (case soc' of
                      Some v \<Rightarrow> [\<lparr>msDriver = driver, msMetric = derTypeString t @ ''_soc'',
                                  msTsMs = unixMilli socUpdatedAt, msValue = v, msUnit = []\<rparr>]
                    | None \<Rightarrow> []) else [])
        in s4\<lparr>pending := pending s4 @ [m1] @ m2\<rparr>)"

section \<open>Scalar metrics\<close>

definition EmitMetric ::
  "string \<Rightarrow> string \<Rightarrow> f64 \<Rightarrow> string \<Rightarrow> string \<Rightarrow> string \<Rightarrow> time \<Rightarrow> Store \<Rightarrow> Store" where
  "EmitMetric driver name val0 unit register title now s =
     (if \<not> isFinite val0 then s
      else s\<lparr>pending := pending s @ [\<lparr>msDriver = driver, msMetric = name, msTsMs = unixMilli now,
                                      msValue = val0, msUnit = unit\<rparr>],
             latestMetric := mset_at (driver @ '':'' @ name)
               \<lparr>snapValue = val0, snapUnit = unit, snapRegister = register, snapTitle = title,
                snapUpdatedAt = now\<rparr> (latestMetric s)\<rparr>)"

definition hasPrefix :: "string \<Rightarrow> string \<Rightarrow> bool" where
  "hasPrefix p k = (take (length p) k = p)"

definition LatestMetricsByDriver :: "string \<Rightarrow> Store \<Rightarrow> (string \<times> metricSnap) list" where
  "LatestMetricsByDriver driver s =
     (let prefix' = driver @ '':''
      in map (\<lambda>(k, v). (drop (length prefix') k, v))
           (filter (\<lambda>(k, v). length k > length prefix' \<and> hasPrefix prefix' k) (latestMetric s)))"

definition LatestMetric :: "string \<Rightarrow> string \<Rightarrow> Store \<Rightarrow> f64 \<times> time \<times> bool" where
  "LatestMetric driver name s =
     (case mget (latestMetric s) (driver @ '':'' @ name) of
        Some snap \<Rightarrow> (snapValue snap, snapUpdatedAt snap, True)
      | None \<Rightarrow> (Fin 0, zeroTime, False))"

definition FlushSamples :: "Store \<Rightarrow> Store \<times> MetricSample list" where
  "FlushSamples s = (if pending s = [] then (s, []) else (s\<lparr>pending := []\<rparr>, pending s))"

section \<open>Reads\<close>

definition Get :: "string \<Rightarrow> DerType \<Rightarrow> Store \<Rightarrow> DerReading option" where
  "Get driver t s = mget (readings s) (key driver t)"

definition ReadingsByType :: "DerType \<Rightarrow> Store \<Rightarrow> DerReading list" where
  "ReadingsByType t s = filter (\<lambda>r. rDerType r = t) (map snd (readings s))"

definition ReadingsByDriver :: "string \<Rightarrow> Store \<Rightarrow> DerReading list" where
  "ReadingsByDriver driver s = filter (\<lambda>r. rDriver r = driver) (map snd (readings s))"

definition DriverHealthOf :: "string \<Rightarrow> Store \<Rightarrow> DriverHealth option" where
  "DriverHealthOf name s = mget (health s) name"

text \<open>The readings whose driver still reports.\<close>

definition live :: "Store \<Rightarrow> DerReading \<Rightarrow> bool" where
  "live s r = TelemetryLive (mget (health s) (rDriver r))"

definition sumSmoothed :: "DerType \<Rightarrow> Store \<Rightarrow> f64" where
  "sumSmoothed t s =
     foldl (\<lambda>acc r. if rDerType r = t \<and> live s r then acc + SmoothedW r else acc) (Fin 0)
       (map snd (readings s))"

definition SumOnlineEVW :: "Store \<Rightarrow> f64" where
  "SumOnlineEVW s =
     (let total = sumSmoothed DerEV s in if f64_abs total < Fin 1 then Fin 0 else total)"

definition SumOnlineV2XW :: "Store \<Rightarrow> f64" where
  "SumOnlineV2XW s =
     (let total = sumSmoothed DerV2X s in if f64_abs total < Fin 1 then Fin 0 else total)"

definition OnlineLowerW :: "string \<Rightarrow> DerType \<Rightarrow> Store \<Rightarrow> f64 \<times> bool" where
  "OnlineLowerW driver t s =
     (case (mget (readings s) (key driver t), mget (health s) driver) of
        (Some r, Some h) \<Rightarrow>
          if \<not> TelemetryLive (Some h) \<or> LastReadFailed (Some h) then (Fin 0, False)
          else let w = f64_min (RawW r) (SmoothedW r) in (w, isFinite w)
      | _ \<Rightarrow> (Fin 0, False))"

definition SumOnlineHigherW :: "DerType list \<Rightarrow> Store \<Rightarrow> f64" where
  "SumOnlineHigherW types s =
     foldl (\<lambda>acc r. if live s r \<and> rDerType r \<in> set types
                    then acc + f64_max (RawW r) (SmoothedW r) else acc) (Fin 0)
       (map snd (readings s))"

definition OnlineRawW :: "string \<Rightarrow> DerType \<Rightarrow> Store \<Rightarrow> f64 \<times> time \<times> bool" where
  "OnlineRawW driver t s =
     (case mget (readings s) (key driver t) of
        None \<Rightarrow> (Fin 0, zeroTime, False)
      | Some r \<Rightarrow>
          if \<not> isFinite (RawW r) then (Fin 0, zeroTime, False)
          else if \<not> TelemetryLive (mget (health s) driver) then (Fin 0, zeroTime, False)
          else (RawW r, UpdatedAt r, True))"

definition OnlineMeterW :: "string \<Rightarrow> Store \<Rightarrow> f64 \<times> time \<times> bool" where
  "OnlineMeterW driver s = OnlineRawW driver DerMeter s"

definition OnlineMeterSample :: "string \<Rightarrow> Store \<Rightarrow> (f64 \<times> rawmsg \<times> time) option" where
  "OnlineMeterSample driver s =
     (case mget (readings s) (key driver DerMeter) of
        None \<Rightarrow> None
      | Some r \<Rightarrow>
          if \<not> isFinite (RawW r) then None
          else if \<not> TelemetryLive (mget (health s) driver) then None
          else Some (RawW r, Data r, UpdatedAt r))"

definition OnlineRawWByType :: "DerType \<Rightarrow> Store \<Rightarrow> (string, f64) gomap" where
  "OnlineRawWByType t s =
     foldl (\<lambda>out r. if rDerType r = t \<and> isFinite (RawW r) \<and> live s r
                    then mset_at (rDriver r) (RawW r) out else out) [] (map snd (readings s))"

definition IsStale :: "string \<Rightarrow> DerType \<Rightarrow> duration \<Rightarrow> time \<Rightarrow> Store \<Rightarrow> bool" where
  "IsStale driver t timeout now s =
     (case Get driver t s of None \<Rightarrow> True | Some r \<Rightarrow> tsub now (UpdatedAt r) > timeout)"

text \<open>\<open>sort.Strings\<close>: byte order.\<close>

definition char_key :: "string \<Rightarrow> nat list" where "char_key s = map of_char s"

fun lex_le :: "nat list \<Rightarrow> nat list \<Rightarrow> bool" where
  "lex_le [] _ = True"
| "lex_le (_ # _) [] = False"
| "lex_le (a # as) (b # bs) = (a < b \<or> (a = b \<and> lex_le as bs))"

fun insert_string :: "string \<Rightarrow> string list \<Rightarrow> string list" where
  "insert_string x [] = [x]"
| "insert_string x (y # ys) =
     (if lex_le (char_key x) (char_key y) then x # y # ys else y # insert_string x ys)"

definition sort_strings :: "string list \<Rightarrow> string list" where
  "sort_strings xs = foldr insert_string xs []"

definition OfflineDrivers :: "DerType \<Rightarrow> Store \<Rightarrow> string list" where
  "OfflineDrivers kind s =
     sort_strings (map rDriver (filter (\<lambda>r. rDerType r = kind \<and> \<not> live s r) (map snd (readings s))))"

section \<open>Poll counters\<close>

text \<open>Clock hours are counted from the epoch; the core's clock is later than that.\<close>

definition countPollLocked :: "time \<Rightarrow> bool \<Rightarrow> Store \<Rightarrow> Store" where
  "countPollLocked now failed s =
     (let hr = unixSec now div 3600;
          i = nat (hr mod 24);
          slot0 = pollHours s ! i;
          slot1 = (if phHour slot0 \<noteq> hr then \<lparr>phHour = hr, phPolls = 0, phErrors = 0\<rparr> else slot0);
          slot2 = slot1\<lparr>phPolls := phPolls slot1 + 1\<rparr>;
          slot3 = (if failed then slot2\<lparr>phErrors := phErrors slot2 + 1\<rparr> else slot2)
      in s\<lparr>pollHours := (pollHours s)[i := slot3]\<rparr>)"

definition PollsLastDay :: "time \<Rightarrow> Store \<Rightarrow> 64 word \<times> 64 word \<times> duration" where
  "PollsLastDay now s =
     (let hr = unixSec now div 3600;
          slots = filter (\<lambda>p. phHour p > hr - 24 \<and> phHour p \<le> hr) (pollHours s)
      in (sum_list (map phPolls slots), sum_list (map phErrors slots),
          min (24 * hour) (max 0 (tsub now (born s)))))"

section \<open>Remove, watchdog, arrivals\<close>

definition Remove :: "string \<Rightarrow> time \<Rightarrow> Store \<Rightarrow> Store" where
  "Remove driver now s =
     (let ks = map (key driver) AllDerTypes;
          s1 = s\<lparr>readings := fold mdel ks (readings s), filters := fold mdel ks (filters s),
                 health := mdel driver (health s),
                 controlObservations := fold mdel ks (controlObservations s),
                 commands := map (\<lambda>(k, c). (k, c\<lparr>Baseline := None, StepAfter := None\<rparr>)) (commands s)\<rparr>;
          s2 = clearCommandEvidenceLocked driver now s1
      in s2\<lparr>latestMetric := filter (\<lambda>(k, v). \<not> hasPrefix (driver @ '':'') k) (latestMetric s2)\<rparr>)"

definition watchdogStore :: "duration \<Rightarrow> time \<Rightarrow> Store \<Rightarrow> Store \<times> WatchdogTransition list" where
  "watchdogStore timeout now s =
     (let (h, out) = WatchdogScan timeout now (health s) in (s\<lparr>health := h\<rparr>, out))"

definition Arrived :: "Store \<Rightarrow> Store" where
  "Arrived s = s\<lparr>arrivals := map (\<lambda>(ch, waiting). (ch, True)) (arrivals s)\<rparr>"

definition Arrivals :: "nat \<Rightarrow> Store \<Rightarrow> Store" where
  "Arrivals ch s = s\<lparr>arrivals := mset_at ch False (arrivals s)\<rparr>"

definition stopArrivals :: "nat \<Rightarrow> Store \<Rightarrow> Store" where
  "stopArrivals ch s = s\<lparr>arrivals := mdel ch (arrivals s)\<rparr>"

section \<open>The store's invariant\<close>

definition filter_ok :: "DerType \<Rightarrow> kalman \<Rightarrow> bool" where
  "filter_ok t f \<longleftrightarrow> kalman_ok f \<and> (initialized f \<longrightarrow>
     (t = DerPV \<longrightarrow> Estimate f \<le> 0) \<and> (t = DerEV \<longrightarrow> 0 \<le> Estimate f))"

definition reading_ok :: "DerReading \<Rightarrow> bool" where
  "reading_ok r \<longleftrightarrow> isFinite (RawW r) \<and> isFinite (SmoothedW r)
     \<and> (rDerType r = DerPV \<longrightarrow> fval (RawW r) \<le> 0 \<and> fval (SmoothedW r) \<le> 0)
     \<and> (rDerType r = DerEV \<longrightarrow> 0 \<le> fval (RawW r) \<and> 0 \<le> fval (SmoothedW r))
     \<and> (\<forall>v. SoC r = Some v \<longrightarrow> ValidFraction v)"

definition readings_ok :: "Store \<Rightarrow> bool" where
  "readings_ok s \<longleftrightarrow> gomap_ok (readings s)
     \<and> (\<forall>k r. mget (readings s) k = Some r \<longrightarrow> reading_ok r \<and> k = key (rDriver r) (rDerType r))"

definition filters_ok :: "Store \<Rightarrow> bool" where
  "filters_ok s \<longleftrightarrow> 0 < processNoise s \<and> 0 < measurementNoise s
     \<and> (\<forall>d t f. mget (filters s) (key d t) = Some f \<longrightarrow> filter_ok t f)"

definition store_ok :: "Store \<Rightarrow> bool" where
  "store_ok s \<longleftrightarrow> readings_ok s \<and> filters_ok s \<and> observations_ok s \<and> commands_ok s"

lemma filter_ok_Update:
  assumes "filter_ok t f" "t = DerPV \<longrightarrow> m \<le> 0" "t = DerEV \<longrightarrow> 0 \<le> m"
  shows "filter_ok t (fst (kalman_Update f m))"
    "(t = DerPV \<longrightarrow> snd (kalman_Update f m) \<le> 0) \<and> (t = DerEV \<longrightarrow> 0 \<le> snd (kalman_Update f m))"
proof -
  have ok: "kalman_ok f" using assms by (simp add: filter_ok_def)
  have out: "(t = DerPV \<longrightarrow> snd (kalman_Update f m) \<le> 0) \<and> (t = DerEV \<longrightarrow> 0 \<le> snd (kalman_Update f m))"
  proof (cases "initialized f")
    case False
    with assms show ?thesis by (simp add: kalman_Update_def)
  next
    case True
    with assms kalman_Update_between [OF ok True, of m] show ?thesis by (auto simp: filter_ok_def)
  qed
  then show "(t = DerPV \<longrightarrow> snd (kalman_Update f m) \<le> 0) \<and> (t = DerEV \<longrightarrow> 0 \<le> snd (kalman_Update f m))" .
  from out show "filter_ok t (fst (kalman_Update f m))"
    using kalman_ok_Update [OF ok] by (simp add: filter_ok_def kalman_Update_out)
qed

lemma observeCommand_frame [simp]:
  "readings (observeCommand d t w data now s) = readings s"
  "filters (observeCommand d t w data now s) = filters s"
  "health (observeCommand d t w data now s) = health s"
  "controlObservations (observeCommand d t w data now s) = controlObservations s"
  "processNoise (observeCommand d t w data now s) = processNoise s"
  "measurementNoise (observeCommand d t w data now s) = measurementNoise s"
  by (simp_all add: observeCommand_def Let_def split: option.split)

lemma noise_frame [simp]:
  "processNoise (recordControlObservation d t w data now s) = processNoise s"
  "measurementNoise (recordControlObservation d t w data now s) = measurementNoise s"
  "processNoise (freezeStepWindows now s) = processNoise s"
  "measurementNoise (freezeStepWindows now s) = measurementNoise s"
  by (simp_all add: recordControlObservation_def freezeStepWindows_def Let_def case_prod_beta)

text \<open>The reading and the filter an accepted update stores.\<close>

definition storedReading ::
  "string \<Rightarrow> DerType \<Rightarrow> f64 \<Rightarrow> f64 option \<Rightarrow> rawmsg \<Rightarrow> time \<Rightarrow> Store \<Rightarrow> DerReading" where
  "storedReading d t rawW soc data now s =
     (let prev = mget (readings s) (key d t);
          f = (case mget (filters s) (key d t) of Some f \<Rightarrow> f
               | None \<Rightarrow> NewKalman (processNoise s) (measurementNoise s));
          carried = carrySoC t soc (socObservation t soc data prev now) prev now
      in \<lparr>rDriver = d, rDerType = t, RawW = rawW, SmoothedW = Fin (snd (kalman_Update f (fval rawW))),
          SoC = fst carried, SoCUpdatedAt = snd carried, Data = data, UpdatedAt = now\<rparr>)"

definition storedFilter :: "string \<Rightarrow> DerType \<Rightarrow> f64 \<Rightarrow> Store \<Rightarrow> kalman" where
  "storedFilter d t rawW s =
     fst (kalman_Update (case mget (filters s) (key d t) of Some f \<Rightarrow> f
            | None \<Rightarrow> NewKalman (processNoise s) (measurementNoise s)) (fval rawW))"

lemma Update_invalid: "ValidateReading t rawW soc = Inl e \<Longrightarrow> Update d t rawW soc data now s = s"
  by (simp add: Update_def)

lemma Update_readings:
  assumes "ValidateReading t rawW soc = Inr ()"
  shows "readings (Update d t rawW soc data now s)
      = mset_at (key d t) (storedReading d t rawW soc data now s) (readings s)"
    "filters (Update d t rawW soc data now s)
      = mset_at (key d t) (storedFilter d t rawW s) (filters s)"
    "health (Update d t rawW soc data now s) = health s"
    "processNoise (Update d t rawW soc data now s) = processNoise s"
    "measurementNoise (Update d t rawW soc data now s) = measurementNoise s"
  using assms
  by (simp_all add: Update_def storedReading_def storedFilter_def Let_def case_prod_beta)

lemma Update_rest:
  assumes "ValidateReading t rawW soc = Inr ()"
  shows "\<exists>s1. commands s1 = commands s \<and> controlObservations s1 = controlObservations s
    \<and> commands (Update d t rawW soc data now s) = commands (freezeStepWindows now
        (recordControlObservation d t rawW data now (observeCommand d t rawW data now s1)))
    \<and> controlObservations (Update d t rawW soc data now s) = controlObservations
        (recordControlObservation d t rawW data now (observeCommand d t rawW data now s1))"
  using assms
  by (intro exI [of _ "s\<lparr>filters := mset_at (key d t) (storedFilter d t rawW s) (filters s),
        readings := mset_at (key d t) (storedReading d t rawW soc data now s) (readings s)\<rparr>"])
     (simp add: Update_def storedReading_def storedFilter_def Let_def case_prod_beta)

lemma reading_ok_stored:
  assumes ok: "readings_ok s" "filters_ok s" and v: "ValidateReading t rawW soc = Inr ()"
  shows "reading_ok (storedReading d t rawW soc data now s)" "filter_ok t (storedFilter d t rawW s)"
proof -
  let ?f = "case mget (filters s) (key d t) of Some f \<Rightarrow> f
              | None \<Rightarrow> NewKalman (processNoise s) (measurementNoise s)"
  have "filter_ok t ?f"
    using ok(2) by (auto simp: filters_ok_def filter_ok_def NewKalman_def kalman_ok_def
        split: option.splits)
  note f = filter_ok_Update [OF this, of "fval rawW"]
  have raw: "isFinite rawW" "t = DerPV \<longrightarrow> fval rawW \<le> 0" "t = DerEV \<longrightarrow> 0 \<le> fval rawW"
    "\<forall>x. soc = Some x \<longrightarrow> ValidFraction x" using v by (auto simp: ValidateReading_Inr)
  show "filter_ok t (storedFilter d t rawW s)" unfolding storedFilter_def using f(1) raw by blast
  have "\<forall>x. fst (carrySoC t soc obs (mget (readings s) (key d t)) now) = Some x \<longrightarrow> ValidFraction x" for obs
    using raw(4) ok(1) by (auto simp: carrySoC_def readings_ok_def reading_ok_def split: option.splits)
  then show "reading_ok (storedReading d t rawW soc data now s)"
    using f(2) raw(1-3) by (simp add: storedReading_def Let_def reading_ok_def)
qed

lemma readings_ok_Update:
  assumes "readings_ok s" "filters_ok s"
  shows "readings_ok (Update d t rawW soc data now s) \<and> filters_ok (Update d t rawW soc data now s)"
proof (cases "ValidateReading t rawW soc")
  case (Inl e)
  with assms show ?thesis by (simp add: Update_invalid)
next
  case (Inr u)
  then have v: "ValidateReading t rawW soc = Inr ()" by simp
  have "rDriver (storedReading d t rawW soc data now s) = d"
    "rDerType (storedReading d t rawW soc data now s) = t"
    by (simp_all add: storedReading_def Let_def)
  with assms reading_ok_stored [OF assms v] show ?thesis
    by (auto simp: readings_ok_def filters_ok_def Update_readings [OF v])
qed

lemma observations_ok_cong:
  "controlObservations s = controlObservations s' \<Longrightarrow> observations_ok s = observations_ok s'"
  by (simp add: observations_ok_def)

lemma commands_ok_cong: "commands s = commands s' \<Longrightarrow> commands_ok s = commands_ok s'"
  by (simp add: commands_ok_def)

lemma observeEvidence_id [simp]:
  "cDriver (observeEvidence kind pw data now c) = cDriver c"
  "cKind (observeEvidence kind pw data now c) = cKind c"
proof -
  have "identity_fields (observeBattery pw data now c) = identity_fields c"
    by (simp add: observeBattery_def Let_def case_prod_beta identity_fields_def)
  then have "identity_fields (observeEvidence kind pw data now c) = identity_fields c"
    by (simp add: observeEvidence_def Let_def split: option.split)
  then show "cDriver (observeEvidence kind pw data now c) = cDriver c"
    "cKind (observeEvidence kind pw data now c) = cKind c" by (simp_all add: identity_fields_def)
qed

lemma commands_ok_observe: "commands_ok s \<Longrightarrow> commands_ok (observeCommand d t w data now s)"
  by (auto simp: observeCommand_def Let_def commands_ok_def observeEvidence_ok split: option.splits)

lemma freezeStep_keeps [simp]:
  "battery_ok (freezeStep s now c) = battery_ok c"
  "cDriver (freezeStep s now c) = cDriver c" "cKind (freezeStep s now c) = cKind c"
  by (simp_all add: freezeStep_def battery_ok_def Let_def)

lemma commands_ok_freeze: "commands_ok s \<Longrightarrow> commands_ok (freezeStepWindows now s)"
  by (auto simp: freezeStepWindows_def commands_ok_def)

lemma rest_ok_Update:
  assumes "observations_ok s" "commands_ok s"
  shows "observations_ok (Update d t rawW soc data now s) \<and> commands_ok (Update d t rawW soc data now s)"
proof (cases "ValidateReading t rawW soc")
  case (Inl e)
  with assms show ?thesis by (simp add: Update_invalid)
next
  case (Inr u)
  then obtain s1 where s1: "commands s1 = commands s" "controlObservations s1 = controlObservations s"
    "commands (Update d t rawW soc data now s) = commands (freezeStepWindows now
        (recordControlObservation d t rawW data now (observeCommand d t rawW data now s1)))"
    "controlObservations (Update d t rawW soc data now s) = controlObservations
        (recordControlObservation d t rawW data now (observeCommand d t rawW data now s1))"
    using Update_rest [of t rawW soc s d data now] by auto
  have "commands_ok s1" "observations_ok s1"
    using assms s1 commands_ok_cong observations_ok_cong by metis+
  then have "commands_ok (freezeStepWindows now
      (recordControlObservation d t rawW data now (observeCommand d t rawW data now s1)))"
    by (intro commands_ok_freeze) (simp add: commands_ok_observe
        commands_ok_cong [of "recordControlObservation d t rawW data now _"])
  moreover have "observations_ok
      (recordControlObservation d t rawW data now (observeCommand d t rawW data now s1))"
    using \<open>observations_ok s1\<close>
    by (intro observations_ok_record) (simp add: observations_ok_cong [of "observeCommand d t rawW data now s1" s1])
  ultimately show ?thesis using s1 commands_ok_cong observations_ok_cong by metis
qed

lemma store_ok_Update: "store_ok s \<Longrightarrow> store_ok (Update d t rawW soc data now s)"
  using readings_ok_Update rest_ok_Update by (auto simp: store_ok_def)

lemma AllDerTypes_all [simp]: "t \<in> set AllDerTypes"
  by (cases t) (simp_all add: AllDerTypes_def)

lemma Remove_fields [simp]:
  "readings (Remove d now s) = fold mdel (map (key d) AllDerTypes) (readings s)"
  "filters (Remove d now s) = fold mdel (map (key d) AllDerTypes) (filters s)"
  "health (Remove d now s) = mdel d (health s)"
  "controlObservations (Remove d now s) = fold mdel (map (key d) AllDerTypes) (controlObservations s)"
  "processNoise (Remove d now s) = processNoise s"
  "measurementNoise (Remove d now s) = measurementNoise s"
  "latestMetric (Remove d now s) = filter (\<lambda>(k, v). \<not> hasPrefix (d @ '':'') k) (latestMetric s)"
  by (simp_all add: Remove_def clearCommandEvidenceLocked_def Let_def)

definition dropWindows :: "Store \<Rightarrow> Store" where
  "dropWindows s = s\<lparr>commands := map (\<lambda>(k, c). (k, c\<lparr>Baseline := None, StepAfter := None\<rparr>)) (commands s)\<rparr>"

lemma Remove_commands: "commands (Remove d now s) = commands (cmd_step (dropWindows s) (Restart d now))"
  by (simp add: Remove_def dropWindows_def clearCommandEvidenceLocked_def Let_def)

lemma commands_ok_dropWindows: "commands_ok s \<Longrightarrow> commands_ok (dropWindows s)"
  by (auto simp: commands_ok_def dropWindows_def battery_ok_def)

lemma store_ok_Remove:
  assumes "store_ok s" shows "store_ok (Remove d now s)"
proof -
  have "commands_ok (cmd_step (dropWindows s) (Restart d now))"
    using assms by (intro commands_ok_step commands_ok_dropWindows) (simp add: store_ok_def)
  then have "commands_ok (Remove d now s)" using Remove_commands commands_ok_cong by metis
  with assms show ?thesis
    by (auto simp: store_ok_def readings_ok_def filters_ok_def observations_ok_def)
qed

section \<open>The store machine\<close>

datatype store_op =
    StUpdate string DerType f64 "f64 option" rawmsg time
  | StEmit string string f64 string string string time
  | StFlush
  | StRemove string time
  | StCommand cmd_op
  | StSuccess string time
  | StTick string time
  | StError string string time
  | StTimeout string duration time
  | StDeviceFault string bool string time
  | StCommandFault string bool string
  | StWatchdog duration time
  | StPoll time bool
  | StArrived

fun store_step :: "Store \<Rightarrow> store_op \<Rightarrow> Store" where
  "store_step s (StUpdate d t w soc data now) = Update d t w soc data now s"
| "store_step s (StEmit d n v u r ti now) = EmitMetric d n v u r ti now s"
| "store_step s StFlush = fst (FlushSamples s)"
| "store_step s (StRemove d now) = Remove d now s"
| "store_step s (StCommand e) = cmd_step s e"
| "store_step s (StSuccess d now) = s\<lparr>health := RecordDriverSuccess d now (health s)\<rparr>"
| "store_step s (StTick d now) = s\<lparr>health := RecordDriverTick d now (health s)\<rparr>"
| "store_step s (StError d e now) = s\<lparr>health := RecordDriverError d e now (health s)\<rparr>"
| "store_step s (StTimeout d x now) = s\<lparr>health := SetDriverWatchdogTimeout d x now (health s)\<rparr>"
| "store_step s (StDeviceFault d b r now) = s\<lparr>health := SetDriverDeviceFault d b r now (health s)\<rparr>"
| "store_step s (StCommandFault d b r) = s\<lparr>health := SetDriverCommandFault d b r (health s)\<rparr>"
| "store_step s (StWatchdog x now) = fst (watchdogStore x now s)"
| "store_step s (StPoll now b) = countPollLocked now b s"
| "store_step s StArrived = Arrived s"

lemma store_ok_cong:
  "readings s = readings s' \<Longrightarrow> filters s = filters s' \<Longrightarrow> commands s = commands s' \<Longrightarrow>
   controlObservations s = controlObservations s' \<Longrightarrow> processNoise s = processNoise s' \<Longrightarrow>
   measurementNoise s = measurementNoise s' \<Longrightarrow> store_ok s = store_ok s'"
  by (simp add: store_ok_def readings_ok_def filters_ok_def observations_ok_def commands_ok_def)

lemma store_ok_cmd: "store_ok s \<Longrightarrow> store_ok (cmd_step s e)"
proof -
  assume ok: "store_ok s"
  have "readings (cmd_step s e) = readings s \<and> filters (cmd_step s e) = filters s
    \<and> controlObservations (cmd_step s e) = controlObservations s
    \<and> processNoise (cmd_step s e) = processNoise s \<and> measurementNoise (cmd_step s e) = measurementNoise s"
    by (cases e) (auto simp: BeginCommand_def CompleteCommand_def endCommandControlAt_def
        clearCommandEvidenceLocked_def Let_def split: option.split)
  with ok commands_ok_step [of s e] show ?thesis
    by (simp add: store_ok_def readings_ok_def filters_ok_def observations_ok_def)
qed

lemma store_ok_step: "store_ok s \<Longrightarrow> store_ok (store_step s e)"
proof (cases e)
  case (StEmit d n v u r ti now)
  then show "store_ok s \<Longrightarrow> ?thesis"
    by (simp add: EmitMetric_def store_ok_cong [of "s\<lparr>pending := _, latestMetric := _\<rparr>" s])
next
  case StFlush
  then show "store_ok s \<Longrightarrow> ?thesis"
    by (simp add: FlushSamples_def store_ok_cong [of "s\<lparr>pending := []\<rparr>" s])
next
  case (StWatchdog x now)
  then show "store_ok s \<Longrightarrow> ?thesis"
    by (simp add: watchdogStore_def case_prod_beta store_ok_cong [of "s\<lparr>health := _\<rparr>" s])
next
  case (StPoll now b)
  then show "store_ok s \<Longrightarrow> ?thesis"
    by (simp add: countPollLocked_def Let_def store_ok_cong [of "s\<lparr>pollHours := _\<rparr>" s])
next
  case StArrived
  then show "store_ok s \<Longrightarrow> ?thesis"
    by (simp add: Arrived_def store_ok_cong [of "s\<lparr>arrivals := _\<rparr>" s])
qed (simp_all add: store_ok_Update store_ok_Remove store_ok_cmd
      store_ok_cong [of "s\<lparr>health := _\<rparr>" s])

interpretation store_machine: invariant_machine store_step store_ok
  by unfold_locales (rule store_ok_step)

lemma store_ok_New [simp]: "store_ok (NewStore now)"
  by (simp add: store_ok_def readings_ok_def filters_ok_def observations_ok_def commands_ok_def
      NewStore_def)

section \<open>The key interface\<close>

text \<open>What a client of a keyed store relies on: a write is visible under its own key and under no
  other.\<close>

locale keyed_readings =
  fixes put :: "'k \<Rightarrow> 'v \<Rightarrow> 's \<Rightarrow> 's" and lookup :: "'k \<Rightarrow> 's \<Rightarrow> 'r option"
    and accepts :: "'k \<Rightarrow> 'v \<Rightarrow> bool" and result :: "'k \<Rightarrow> 'v \<Rightarrow> 's \<Rightarrow> 'r"
  assumes lookup_same: "accepts k v \<Longrightarrow> lookup k (put k v s) = Some (result k v s)"
    and lookup_other: "k' \<noteq> k \<Longrightarrow> lookup k' (put k v s) = lookup k' s"
    and lookup_refused: "\<not> accepts k v \<Longrightarrow> put k v s = s"
begin

lemma lookup_write:
  "lookup k' (put k v s) =
     (if k' = k \<and> accepts k v then Some (result k v s) else lookup k' s)"
  using lookup_same lookup_other lookup_refused by metis

lemma lookup_last_write:
  assumes "accepts k v" "\<forall>(k', v') \<in> set ws. k' \<noteq> k"
  shows "lookup k (foldl (\<lambda>s (k', v'). put k' v' s) (put k v s) ws) = Some (result k v s)"
proof -
  have "lookup k (foldl (\<lambda>s (k', v'). put k' v' s) s' ws) = lookup k s'" for s'
    using assms(2) by (induction ws arbitrary: s') (auto simp: lookup_other)
  then show ?thesis using lookup_same assms(1) by simp
qed

end

interpretation update: keyed_readings
  "\<lambda>(d, t) (rawW, soc, data, now) s. Update d t rawW soc data now s"
  "\<lambda>(d, t) s. Get d t s"
  "\<lambda>(d, t) (rawW, soc, data, now). ValidateReading t rawW soc = Inr ()"
  "\<lambda>(d, t) (rawW, soc, data, now) s. storedReading d t rawW soc data now s"
proof (unfold_locales, goal_cases)
  case (1 k v s)
  then show ?case by (cases k; cases v) (simp add: Get_def Update_readings)
next
  case (2 k' k v s)
  obtain d t rawW soc data now where kv: "k = (d, t)" "v = (rawW, soc, data, now)"
    by (cases k; cases v) auto
  from 2 kv show ?case
    by (cases k'; cases "ValidateReading t rawW soc") (auto simp: Get_def Update_readings Update_invalid)
next
  case (3 k v s)
  then show ?case
    by (cases k; cases v) (auto simp: Update_def split: sum.split)
qed

section \<open>Sums over live readings\<close>

lemma sumSmoothed_EV_nonneg:
  assumes "\<forall>r \<in> set rs. reading_ok r" "isFinite acc" "0 \<le> fval acc"
  shows "isFinite (foldl (\<lambda>acc r. if rDerType r = DerEV \<and> live s r then acc + SmoothedW r else acc) acc rs)
    \<and> 0 \<le> fval (foldl (\<lambda>acc r. if rDerType r = DerEV \<and> live s r then acc + SmoothedW r else acc) acc rs)"
  using assms
proof (induction rs arbitrary: acc)
  case (Cons r rs)
  obtain a where a: "acc = Fin a" using Cons.prems(2) by (auto simp: isFinite_iff)
  obtain x where x: "SmoothedW r = Fin x" using Cons.prems(1) by (auto simp: reading_ok_def isFinite_iff)
  have "rDerType r = DerEV \<Longrightarrow> 0 \<le> x" using Cons.prems(1) x by (auto simp: reading_ok_def)
  then show ?case using Cons by (simp add: a x)
qed simp

lemma readings_ok_set: "readings_ok s \<Longrightarrow> \<forall>r \<in> set (map snd (readings s)). reading_ok r"
  by (auto simp: readings_ok_def gomap_ok_def)

section \<open>Properties\<close>

text \<open>C23: The site convention holds at all times: from an empty store, whatever updates (valid or
  not), removals, commands, health reports, watchdog scans and flushes follow in any order, every
  stored reading is finite, PV is never positive, EV power is never negative, raw and smoothed
  alike, and every state of charge is a 0..1 fraction.\<close>

theorem store_keeps_site_convention:
  "Get d t (foldl store_step (NewStore t0) ops) = Some r \<longrightarrow>
     isFinite (RawW r) \<and> isFinite (SmoothedW r) \<and> rDriver r = d \<and> rDerType r = t
     \<and> (t = DerPV \<longrightarrow> fval (RawW r) \<le> 0 \<and> fval (SmoothedW r) \<le> 0)
     \<and> (t = DerEV \<longrightarrow> 0 \<le> fval (RawW r) \<and> 0 \<le> fval (SmoothedW r))
     \<and> (\<forall>v. SoC r = Some v \<longrightarrow> ValidFraction v)"
proof
  assume r: "Get d t (foldl store_step (NewStore t0) ops) = Some r"
  have "readings_ok (foldl store_step (NewStore t0) ops)"
    using store_machine.inv_run [OF store_ok_New] by (simp add: store_ok_def)
  with r have "reading_ok r" "key d t = key (rDriver r) (rDerType r)"
    by (auto simp: readings_ok_def Get_def)
  then show "isFinite (RawW r) \<and> isFinite (SmoothedW r) \<and> rDriver r = d \<and> rDerType r = t
     \<and> (t = DerPV \<longrightarrow> fval (RawW r) \<le> 0 \<and> fval (SmoothedW r) \<le> 0)
     \<and> (t = DerEV \<longrightarrow> 0 \<le> fval (RawW r) \<and> 0 \<le> fval (SmoothedW r))
     \<and> (\<forall>v. SoC r = Some v \<longrightarrow> ValidFraction v)"
    unfolding key_inj by (auto simp: reading_ok_def)
qed

theorem store_keeps_site_convention_witness:
  "0 \<le> fval (SmoothedW (storedReading ''ev'' DerEV (Fin 3000) None Empty 5 (NewStore 0)))"
proof -
  have "ValidateReading DerEV (Fin 3000) None = Inr ()" by (simp add: ValidateReading_Inr)
  then have "Get ''ev'' DerEV (foldl store_step (NewStore 0) [StUpdate ''ev'' DerEV (Fin 3000) None Empty 5])
      = Some (storedReading ''ev'' DerEV (Fin 3000) None Empty 5 (NewStore 0))"
    by (simp add: Get_def Update_readings)
  with store_keeps_site_convention show ?thesis by blast
qed

text \<open>An update is visible to its own driver and type and to nothing else, and a reading the
  door refuses changes nothing: lookups after an update are decided by key and validity alone, for
  any driver names, also ones that contain the separator.\<close>

theorem Update_visible:
  "Get d' t' (Update d t rawW soc data now s) =
     (if d' = d \<and> t' = t \<and> ValidateReading t rawW soc = Inr ()
      then Some (storedReading d t rawW soc data now s) else Get d' t' s)
   \<and> (ValidateReading t rawW soc \<noteq> Inr () \<longrightarrow> Update d t rawW soc data now s = s)
   \<and> RawW (storedReading d t rawW soc data now s) = rawW
   \<and> UpdatedAt (storedReading d t rawW soc data now s) = now"
  using update.lookup_write [of "(d', t')" "(d, t)" "(rawW, soc, data, now)" s]
    update.lookup_refused [of "(d, t)" "(rawW, soc, data, now)" s]
  by (auto simp: storedReading_def Let_def)

theorem Update_visible_witness:
  "Update ''pv'' DerPV (Fin 500) None Empty 7 (NewStore 0) = NewStore 0"
proof -
  have "ValidateReading DerPV (Fin 500) None \<noteq> Inr ()" by (simp add: ValidateReading_Inr)
  then show ?thesis using Update_visible [of "''pv''" DerPV "''pv''" DerPV "Fin 500" None Empty 7 "NewStore 0"]
    by blast
qed

text \<open>A battery's state of charge is never carried past its age limit: right after any update
  of a battery, a state of charge that is still known was observed at most five minutes ago, and
  one that came with the update is the one stored.\<close>

theorem battery_soc_bounded_age:
  assumes "ValidateReading DerBattery rawW soc = Inr ()"
    "r = storedReading d DerBattery rawW soc data now s" "SoC r \<noteq> None"
  shows "now - SoCUpdatedAt r \<le> 5 * minute
    \<and> (soc \<noteq> None \<longrightarrow> SoC r = soc \<and> SoCUpdatedAt r = now)"
  using assms
  by (auto simp: storedReading_def Let_def carrySoC_def socObservation_def freshSoCObservation_def
      BatterySoCMaxAge_def tsub_def time_simps maxDuration_def split: option.splits if_splits)

theorem battery_soc_bounded_age_witness:
  "SoC (storedReading ''b'' DerBattery (Fin 900) (Some (Fin (1/2))) Empty 7 (NewStore 0)) = Some (Fin (1/2))"
proof -
  have v: "ValidateReading DerBattery (Fin 900) (Some (Fin (1/2))) = Inr ()"
    by (simp add: ValidateReading_Inr ValidFraction_def)
  have "SoC (storedReading ''b'' DerBattery (Fin 900) (Some (Fin (1/2))) Empty 7 (NewStore 0)) \<noteq> None"
    by (simp add: storedReading_def Let_def carrySoC_def socObservation_def freshSoCObservation_def)
  from battery_soc_bounded_age [OF v refl this] show ?thesis by simp
qed

text \<open>Removing a driver forgets it and only it: none of its readings, its health record or its
  metrics remain, other drivers' readings and health are as before, and a known bound on its
  outstanding battery order survives.\<close>

theorem Remove_forgets:
  assumes "store_ok s"
  shows "Get d t (Remove d now s) = None
    \<and> DriverHealthOf d (Remove d now s) = None
    \<and> LatestMetricsByDriver d (Remove d now s) = []
    \<and> (d' \<noteq> d \<longrightarrow> Get d' t (Remove d now s) = Get d' t s
         \<and> DriverHealthOf d' (Remove d now s) = DriverHealthOf d' s)
    \<and> (bound_known d s \<longrightarrow> bound_known d (Remove d now s) \<and> bound d s \<le> bound d (Remove d now s))"
proof -
  have key_in: "key d' t \<in> key d ` set AllDerTypes \<longleftrightarrow> d' = d" for d' t by auto
  have c: "bound_known d (Remove d now s) = bound_known d (cmd_step (dropWindows s) (Restart d now))"
    "bound d (Remove d now s) = bound d (cmd_step (dropWindows s) (Restart d now))"
    by (simp_all only: bound_known_def bound_def battery_of_def commands_ok_def Remove_commands)
  have w: "bound d (dropWindows s) = bound d s" "bound_known d s \<Longrightarrow> bound_known d (dropWindows s)"
    using commands_ok_dropWindows
    by (auto simp: bound_def battery_of_def dropWindows_def bound_known_def split: option.splits)
  have "bound_known d s \<longrightarrow> bound_known d (Remove d now s) \<and> bound d s \<le> bound d (Remove d now s)"
    using battery_bound.inv_step [of d "dropWindows s" "Restart d now"]
      battery_bound.level_step [of d "dropWindows s" "Restart d now"] w unfolding c by auto
  moreover have "LatestMetricsByDriver d (Remove d now s) = []"
    by (auto simp: LatestMetricsByDriver_def Let_def filter_empty_conv)
  ultimately show ?thesis by (auto simp: Get_def DriverHealthOf_def key_in)
qed

theorem Remove_forgets_witness:
  "Get ''b'' DerBattery (Remove ''b'' 9 (NewStore 0)) = None"
  using Remove_forgets [OF store_ok_New [of 0], of "''b''" DerBattery 9 "''c''"] by blast

text \<open>The live EV total every consumer reads is never negative and never a residue: it is 0 W
  or at least 1 W, and a device fault does not hide a charger that still draws.\<close>

theorem SumOnlineEVW_sound:
  assumes "store_ok s"
  shows "(\<exists>x. SumOnlineEVW s = Fin x \<and> (x = 0 \<or> 1 \<le> x))
    \<and> SumOnlineEVW (s\<lparr>health := SetDriverCommandFault d b reason (health s)\<rparr>) = SumOnlineEVW s"
proof -
  have "isFinite (sumSmoothed DerEV s) \<and> 0 \<le> fval (sumSmoothed DerEV s)"
    using sumSmoothed_EV_nonneg [OF readings_ok_set, of s "Fin 0"] assms
    by (simp add: sumSmoothed_def store_ok_def)
  then obtain x where x: "sumSmoothed DerEV s = Fin x" "0 \<le> x" by (auto simp: isFinite_iff)
  moreover have "live (s\<lparr>health := SetDriverCommandFault d b reason (health s)\<rparr>) = live s"
    by (auto simp: fun_eq_iff live_def TelemetryLive_def SetDriverCommandFault_def SetCommandFault_def
        refreshDeviceFault_def split: option.split)
  ultimately show ?thesis by (auto simp: SumOnlineEVW_def sumSmoothed_def)
qed

theorem SumOnlineEVW_sound_witness: "\<exists>x. SumOnlineEVW (NewStore 0) = Fin x \<and> (x = 0 \<or> 1 \<le> x)"
  using SumOnlineEVW_sound [OF store_ok_New [of 0]] by blast

end
