(* ===== verification/PI_Controller.thy ===== *)
theory PI_Controller
  imports Prelude
begin

text \<open>
  The grid controller of \<open>go/internal/control/pi.go\<close>: a proportional-integral controller with a
  clamped integral and a clamped output. The controller only computes on meter values that the
  store has admitted, so its numbers are finite.
\<close>

record PIController =
  Setpoint :: real
  Kp :: real
  Ki :: real
  IntegralLimit :: real
  OutputLimit :: real
  integral :: real

record PIOutput =
  outP :: real
  outI :: real
  Output :: real
  Error :: real

definition NewPI :: "real \<Rightarrow> real \<Rightarrow> real \<Rightarrow> real \<Rightarrow> PIController" where
  "NewPI kp ki iLimit outputLimit = \<lparr>Setpoint = 0, Kp = kp, Ki = ki, IntegralLimit = iLimit,
     OutputLimit = outputLimit, integral = 0\<rparr>"

text \<open>The two clamps of \<open>Update\<close>.\<close>

definition clampSym :: "real \<Rightarrow> real \<Rightarrow> real" where
  "clampSym limW x = (if x > limW then limW else if x < - limW then - limW else x)"

definition PIUpdate :: "real \<Rightarrow> PIController \<Rightarrow> PIOutput \<times> PIController" where
  "PIUpdate measurement p =
     (let err = Setpoint p - measurement;
          pTerm = Kp p * err;
          i = clampSym (IntegralLimit p) (integral p + Ki p * err);
          out = clampSym (OutputLimit p) (pTerm + i)
      in (\<lparr>outP = pTerm, outI = i, Output = out, Error = err\<rparr>, p\<lparr>integral := i\<rparr>))"

definition Reset :: "PIController \<Rightarrow> PIController" where
  "Reset p = p\<lparr>integral := 0\<rparr>"

definition DecayIntegral :: "real \<Rightarrow> PIController \<Rightarrow> PIController" where
  "DecayIntegral factor p =
     (let factor = (if factor < 0 then 0 else factor);
          factor = (if factor > 1 then 1 else factor)
      in p\<lparr>integral := integral p * factor\<rparr>)"

definition Integral :: "PIController \<Rightarrow> real" where
  "Integral p = integral p"

section \<open>The controller as a machine\<close>

datatype pi_op = PIMeasure real | PIReset | PIDecay real | PISetpoint real

fun pi_step :: "PIController \<Rightarrow> pi_op \<Rightarrow> PIController" where
  "pi_step p (PIMeasure m) = snd (PIUpdate m p)"
| "pi_step p PIReset = Reset p"
| "pi_step p (PIDecay f) = DecayIntegral f p"
| "pi_step p (PISetpoint w) = p\<lparr>Setpoint := w\<rparr>"

text \<open>Anti-windup: the integral stays inside its limit.\<close>

definition pi_ok :: "PIController \<Rightarrow> bool" where
  "pi_ok p = (0 \<le> IntegralLimit p \<and> 0 \<le> OutputLimit p \<and> \<bar>integral p\<bar> \<le> IntegralLimit p)"

lemma clampSym_abs: "0 \<le> limW \<Longrightarrow> \<bar>clampSym limW x\<bar> \<le> limW"
  by (auto simp: clampSym_def)

lemma clampSym_id: "\<bar>x\<bar> \<le> limW \<Longrightarrow> clampSym limW x = x"
  by (auto simp: clampSym_def)

lemma clampSym_mono: "0 \<le> limW \<Longrightarrow> x \<le> y \<Longrightarrow> clampSym limW x \<le> clampSym limW y"
  by (auto simp: clampSym_def)

lemma abs_mult_fraction: "0 \<le> f \<Longrightarrow> f \<le> 1 \<Longrightarrow> \<bar>x * f\<bar> \<le> \<bar>x :: real\<bar>"
  by (simp add: abs_mult mult_left_le)

lemma DecayIntegral_shrinks: "\<bar>integral (DecayIntegral f p)\<bar> \<le> \<bar>integral p\<bar>"
  using abs_mult_fraction [of f "integral p"] by (auto simp: DecayIntegral_def)

lemma DecayIntegral_limits [simp]:
  "IntegralLimit (DecayIntegral f p) = IntegralLimit p"
  "OutputLimit (DecayIntegral f p) = OutputLimit p"
  by (simp_all add: DecayIntegral_def Let_def)

lemma pi_ok_New: "0 \<le> il \<Longrightarrow> 0 \<le> ol \<Longrightarrow> pi_ok (NewPI kp ki il ol)"
  by (simp add: NewPI_def pi_ok_def)

lemma pi_ok_step: "pi_ok p \<Longrightarrow> pi_ok (pi_step p e)"
  using DecayIntegral_shrinks
  by (cases e) (auto simp: pi_ok_def PIUpdate_def Reset_def Let_def clampSym_abs intro: order_trans)

lemma pi_limits_step:
  "IntegralLimit (pi_step p e) = IntegralLimit p" "OutputLimit (pi_step p e) = OutputLimit p"
  by (cases e; simp add: PIUpdate_def Reset_def Let_def)+

lemma pi_limits_run:
  "IntegralLimit (foldl pi_step p es) = IntegralLimit p"
  "OutputLimit (foldl pi_step p es) = OutputLimit p"
  by (induction es arbitrary: p) (simp_all add: pi_limits_step)

interpretation pi_machine: invariant_machine pi_step pi_ok
  by unfold_locales (rule pi_ok_step)

text \<open>With the measurement held, the integral moves towards the error's side only.\<close>

lemma PIUpdate_integral_mono:
  assumes "pi_ok p" "0 \<le> Ki p" "0 \<le> Setpoint p - m"
  shows "integral p \<le> integral (snd (PIUpdate m p))"
proof -
  have "0 \<le> Ki p * (Setpoint p - m)" using assms by simp
  with assms(1) show ?thesis by (auto simp: PIUpdate_def Let_def clampSym_def pi_ok_def abs_le_iff)
qed

text \<open>Whatever measurements, resets, integral decays and setpoint changes the grid controller
  has been through, its next correction never exceeds the output limit, its integral term never
  exceeds the anti-windup limit, and an unsaturated correction is exactly \<open>Kp e + I + Ki e\<close>.\<close>

theorem PI_output_bounded:
  assumes "0 \<le> il" "0 \<le> ol" "p = foldl pi_step (NewPI kp ki il ol) es"
  shows "\<bar>Output (fst (PIUpdate m p))\<bar> \<le> ol \<and> \<bar>outI (fst (PIUpdate m p))\<bar> \<le> il
    \<and> (\<bar>integral p + Ki p * (Setpoint p - m)\<bar> \<le> il
       \<and> \<bar>Kp p * (Setpoint p - m) + (integral p + Ki p * (Setpoint p - m))\<bar> \<le> ol
       \<longrightarrow> Output (fst (PIUpdate m p)) = Kp p * (Setpoint p - m) + integral p + Ki p * (Setpoint p - m))"
proof -
  have "IntegralLimit p = il" "OutputLimit p = ol"
    using pi_limits_run [of "NewPI kp ki il ol" es] by (simp_all add: assms(3) NewPI_def)
  with assms(1,2) show ?thesis by (auto simp: PIUpdate_def Let_def clampSym_abs clampSym_id)
qed

theorem PI_output_bounded_witness:
  "\<bar>Output (fst (PIUpdate 4000 (foldl pi_step (NewPI (1/2) (1/10) 3000 10000)
      [PIMeasure 90000, PIDecay (1/2), PISetpoint 100])))\<bar> \<le> 10000"
  using PI_output_bounded [of 3000 10000 _ "1/2" "1/10" "[PIMeasure 90000, PIDecay (1/2), PISetpoint 100]" 4000]
  by simp

end
