(* ===== verification/Modes.thy ===== *)
theory Modes
  imports Prelude
begin

text \<open>
  The operating modes of the control loop (\<open>dispatch.go\<close>) and the dashboard's catalogue of them
  (\<open>modes_catalog.go\<close>). A mode is a string, as in the source: the API, Home Assistant and the
  stored state all hand over arbitrary strings, and \<^emph>\<open>IsValidMode\<close> is the door.
\<close>

type_synonym Mode = string

definition ModeIdle :: Mode where "ModeIdle = ''idle''"
definition ModeSelfConsumption :: Mode where "ModeSelfConsumption = ''self_consumption''"
definition ModePeakShaving :: Mode where "ModePeakShaving = ''peak_shaving''"
definition ModeCharge :: Mode where "ModeCharge = ''charge''"
definition ModePlannerSelf :: Mode where "ModePlannerSelf = ''planner_self''"
definition ModePlannerCheap :: Mode where "ModePlannerCheap = ''planner_cheap''"
definition ModePlannerPassiveArbitrage :: Mode where
  "ModePlannerPassiveArbitrage = ''planner_passive_arbitrage''"
definition ModePlannerArbitrage :: Mode where "ModePlannerArbitrage = ''planner_arbitrage''"

lemmas mode_defs = ModeIdle_def ModeSelfConsumption_def ModePeakShaving_def ModeCharge_def
  ModePlannerSelf_def ModePlannerCheap_def ModePlannerPassiveArbitrage_def ModePlannerArbitrage_def

definition AllModes :: "Mode list" where
  "AllModes = [ModeIdle, ModeSelfConsumption, ModePeakShaving, ModeCharge, ModePlannerSelf,
     ModePlannerCheap, ModePlannerPassiveArbitrage, ModePlannerArbitrage]"

definition IsValidMode :: "Mode \<Rightarrow> bool" where
  "IsValidMode m = list_ex (\<lambda>valid. m = valid) AllModes"

text \<open>The strategies of the planner package, as \<open>mpc.Mode\<close> values.\<close>

datatype mpc_mode = MpcSelfConsumption | MpcCheapCharge | MpcPassiveArbitrage | MpcArbitrage

definition PlannerMPCMode :: "Mode \<Rightarrow> mpc_mode option" where
  "PlannerMPCMode m =
     (if m = ModePlannerSelf then Some MpcSelfConsumption
      else if m = ModePlannerCheap then Some MpcCheapCharge
      else if m = ModePlannerPassiveArbitrage then Some MpcPassiveArbitrage
      else if m = ModePlannerArbitrage then Some MpcArbitrage
      else None)"

definition IsPlannerMode :: "Mode \<Rightarrow> bool" where
  "IsPlannerMode m = (m = ModePlannerSelf \<or> m = ModePlannerCheap
     \<or> m = ModePlannerPassiveArbitrage \<or> m = ModePlannerArbitrage)"

definition batteryMayNotExport :: "Mode \<Rightarrow> bool" where
  "batteryMayNotExport m = (m = ModePlannerSelf \<or> m = ModePlannerCheap
     \<or> m = ModePlannerPassiveArbitrage)"

datatype ModeTier = TierPrimary | TierAdvanced | TierHidden

text \<open>An entry of the catalogue. The tooltip, a sentence for the dashboard, is left out.\<close>

record ModeInfo =
  miKey :: Mode
  miLabel :: string
  miTier :: ModeTier

definition ModeCatalog :: "ModeInfo list" where
  "ModeCatalog =
     [\<lparr>miKey = ModePlannerPassiveArbitrage, miLabel = ''Passive arbitrage'', miTier = TierPrimary\<rparr>,
      \<lparr>miKey = ModePlannerArbitrage, miLabel = ''Active arbitrage'', miTier = TierPrimary\<rparr>,
      \<lparr>miKey = ModeIdle, miLabel = ''Stop batteries'', miTier = TierAdvanced\<rparr>,
      \<lparr>miKey = ModeSelfConsumption, miLabel = ''Self (manual)'', miTier = TierAdvanced\<rparr>,
      \<lparr>miKey = ModePeakShaving, miLabel = ''Peak'', miTier = TierAdvanced\<rparr>,
      \<lparr>miKey = ModeCharge, miLabel = ''Charge'', miTier = TierAdvanced\<rparr>,
      \<lparr>miKey = ModePlannerSelf, miLabel = ''Planner (self)'', miTier = TierHidden\<rparr>,
      \<lparr>miKey = ModePlannerCheap, miLabel = ''Planner (cheap)'', miTier = TierHidden\<rparr>]"

section \<open>Agreement of the mode tables\<close>

lemma IsValidMode_iff: "IsValidMode m \<longleftrightarrow> m \<in> set AllModes"
  by (auto simp: IsValidMode_def list_ex_iff)

lemma AllModes_distinct: "distinct AllModes"
  by (simp add: AllModes_def mode_defs)

lemma PlannerMPCMode_iff: "PlannerMPCMode m \<noteq> None \<longleftrightarrow> IsPlannerMode m"
  by (simp add: PlannerMPCMode_def IsPlannerMode_def)


end
