(* ===== verification/Slot_Directive.thy ===== *)
theory Slot_Directive
  imports Units
begin

text \<open>
  The planner's instruction for one slot (\<open>SlotDirective\<close> in \<open>dispatch.go\<close>) and what the control
  loop reads off it: \<open>execution_time.go\<close>, \<open>slot_directive.go\<close> and the plan predicates of
  \<open>dispatch.go\<close>.

  A plan may be replaced inside a price interval. The new directive then starts when it is executed
  and \<^emph>\<open>PriceSlotStart\<close> keeps the start of the price interval, so the energy intent of the whole
  interval (\<^emph>\<open>intentEnergyWh\<close>) can be told from the energy left to deliver.
\<close>

text \<open>\<open>mpc.PVCurtailment\<close>.\<close>

record PVCurtailment =
  pcDriver :: string
  pcProof :: string
  pcMinW :: f64
  pcMaxW :: f64

definition noPVCurtailment :: PVCurtailment where
  "noPVCurtailment = \<lparr>pcDriver = [], pcProof = [], pcMinW = Fin 0, pcMaxW = Fin 0\<rparr>"

record SlotDirective =
  PriceSlotStart :: time
  DecisionID :: string
  SlotStart :: time
  SlotEnd :: time
  BatteryEnergyWh :: real
  StorageEnergyWh :: "(string, real) gomap"
  SoCTarget :: real
  Strategy :: string
  PVLimitW :: f64
  PVCurtailActive :: bool
  PVCurtailmentOf :: PVCurtailment
  PlannedGridW :: real
  HasPlannedGridW :: bool
  LivePVSurplusSoCCap :: f64
  LoadpointEnergyWh :: "(string, f64) gomap"
  LoadpointMaxPowerW :: "(string, f64) gomap"
  EVOnly :: bool

text \<open>\<open>SlotDirective{}\<close>.\<close>

definition noDirective :: SlotDirective where
  "noDirective = \<lparr>PriceSlotStart = zeroTime, DecisionID = [], SlotStart = zeroTime, SlotEnd = zeroTime,
     BatteryEnergyWh = 0, StorageEnergyWh = [], SoCTarget = 0, Strategy = [], PVLimitW = Fin 0,
     PVCurtailActive = False, PVCurtailmentOf = noPVCurtailment, PlannedGridW = 0,
     HasPlannedGridW = False, LivePVSurplusSoCCap = Fin 0, LoadpointEnergyWh = [],
     LoadpointMaxPowerW = [], EVOnly = False\<rparr>"

text \<open>\<open>mpc.IdleGateThresholdW\<close>.\<close>

definition IdleGateThresholdW :: real where "IdleGateThresholdW = 100"

section \<open>Execution time\<close>

definition priceSlotStart :: "SlotDirective \<Rightarrow> time" where
  "priceSlotStart d = (if \<not> isZero (PriceSlotStart d) then PriceSlotStart d else SlotStart d)"

definition averageBatteryW :: "SlotDirective \<Rightarrow> real" where
  "averageBatteryW d =
     (let h = hours (tsub (SlotEnd d) (SlotStart d)) in if h \<le> 0 then 0 else BatteryEnergyWh d / h)"

definition intentEnergyWh :: "SlotDirective \<Rightarrow> real" where
  "intentEnergyWh d =
     (if isZero (PriceSlotStart d) then BatteryEnergyWh d
      else averageBatteryW d * hours (tsub (SlotEnd d) (priceSlotStart d)))"

definition elapsedDirectiveEnergy :: "SlotDirective \<Rightarrow> time \<Rightarrow> real" where
  "elapsedDirectiveEnergy d now =
     (if isZero (PriceSlotStart d) \<or> \<not> SlotStart d > PriceSlotStart d then 0
      else let elapsed = tsub now (SlotStart d)
           in if elapsed \<le> 0 then 0
              else if now > SlotEnd d then BatteryEnergyWh d
              else averageBatteryW d * hours elapsed)"

section \<open>Plan predicates\<close>

definition plannerSelfDirectiveIsIdle :: "SlotDirective \<Rightarrow> bool" where
  "plannerSelfDirectiveIsIdle d =
     (let slotH = hours (tsub (SlotEnd d) (SlotStart d))
      in if slotH \<le> 0 then False
         else if HasPlannedGridW d
         then \<bar>PlannedGridW d - BatteryEnergyWh d / slotH\<bar> < IdleGateThresholdW
         else \<bar>BatteryEnergyWh d\<bar> / slotH < IdleGateThresholdW)"

definition plannerSelfDirectiveExportsSurplus :: "SlotDirective \<Rightarrow> bool" where
  "plannerSelfDirectiveExportsSurplus d =
     (let slotH = hours (tsub (SlotEnd d) (SlotStart d))
      in if slotH \<le> 0 \<or> \<not> HasPlannedGridW d then False
         else let battW = BatteryEnergyWh d / slotH
              in if battW > IdleGateThresholdW then False
                 else PlannedGridW d - battW < - IdleGateThresholdW)"

definition unexpectedExportBeyondPlanW :: "real \<Rightarrow> SlotDirective \<Rightarrow> real" where
  "unexpectedExportBeyondPlanW projectedGridW d =
     (let plannedExportW = (if HasPlannedGridW d \<and> PlannedGridW d < 0 then - PlannedGridW d else 0);
          unexpectedW = - projectedGridW - plannedExportW
      in if unexpectedW < 0 then 0 else unexpectedW)"

section \<open>Lemmas\<close>

lemma hours_pos_iff [simp]: "0 < hours d \<longleftrightarrow> 0 < d" "hours d \<le> 0 \<longleftrightarrow> d \<le> 0" "0 \<le> hours d \<longleftrightarrow> 0 \<le> d"
  by (auto simp: hours_def zero_less_divide_iff divide_le_0_iff zero_le_divide_iff)

lemma hours_zero_iff [simp]: "hours d = 0 \<longleftrightarrow> d = 0"
  by (simp add: hours_def)

lemma averageBatteryW_energy:
  "0 < tsub (SlotEnd d) (SlotStart d) \<Longrightarrow>
     averageBatteryW d * hours (tsub (SlotEnd d) (SlotStart d)) = BatteryEnergyWh d"
  by (simp add: averageBatteryW_def Let_def)

end
