(* ===== verification/Control_State.thy ===== *)
theory Control_State
  imports Telemetry_Store Modes PI_Controller Slot_Directive
begin

text \<open>
  The state of the control loop (\<open>State\<close> in \<open>dispatch.go\<close>) with the records it embeds, and the
  operations that only read or set it: mode changes, manual holds, limits and ceilings.

  \<^item> The record \<^emph>\<open>State\<close> has the fields the modelled operations read or write; the flag that only
    chooses a log level (\<open>meterClampLogged\<close>) is left out.
  \<^item> The plan callbacks \<^emph>\<open>PlanTarget\<close> and \<^emph>\<open>SlotDirectiveFunc\<close> are functions of the instant, \<open>None\<close>
    where the code holds nil: the planner behind them is a parameter of the model.
  \<^item> \<^emph>\<open>clock\<close> is what \<open>s.now()\<close> returns in the step at hand. \<^emph>\<open>importHourZone\<close> is a
    \<open>time.Location\<close>: the offset from UTC, in seconds, it has at an instant.
  \<^item> Settings and orders are finite numbers, so they are \<^typ>\<open>real\<close>; the code's tests for special
    values stay where a value can come from outside (\<^typ>\<open>f64\<close>).
  \<^item> A missing key of a Go map reads as the zero value: \<^emph>\<open>mgetD\<close>.
\<close>

definition mgetD :: "'v \<Rightarrow> ('k, 'v) gomap \<Rightarrow> 'k \<Rightarrow> 'v" where
  "mgetD d m k = (case mget m k of None \<Rightarrow> d | Some v \<Rightarrow> v)"

lemma mgetD_mset [simp, gomap_simps]:
  "mgetD d (mset_at k v m) k' = (if k' = k then v else mgetD d m k')"
  by (simp add: mgetD_def)

lemma mgetD_mdel [simp, gomap_simps]: "mgetD d (mdel k m) k' = (if k' = k then d else mgetD d m k')"
  by (simp add: mgetD_def)

lemma mgetD_Nil [simp]: "mgetD d [] k = d"
  by (simp add: mgetD_def)

section \<open>Power limits and dispatch targets\<close>

definition MaxCommandW :: real where "MaxCommandW = 5000"
definition dischargeFloorSoC :: real where "dischargeFloorSoC = 5 / 100"

record PowerLimits =
  MaxChargeW :: real
  MaxDischargeW :: real
  MaxChargeWSet :: bool
  MaxDischargeWSet :: bool
  SoCMax :: real
  SoCMaxSet :: bool
  SoCMin :: real

definition noLimits :: PowerLimits where
  "noLimits = \<lparr>MaxChargeW = 0, MaxDischargeW = 0, MaxChargeWSet = False, MaxDischargeWSet = False,
     SoCMax = 0, SoCMaxSet = False, SoCMin = 0\<rparr>"

definition socFloor :: "PowerLimits \<Rightarrow> real" where
  "socFloor l = (if SoCMin l > dischargeFloorSoC \<and> SoCMin l \<le> 1 then SoCMin l
     else dischargeFloorSoC)"

definition socCeiling :: "PowerLimits \<Rightarrow> real" where
  "socCeiling l = (if (SoCMaxSet l \<or> SoCMax l > 0) \<and> SoCMax l \<ge> 0 \<and> SoCMax l \<le> 1 then SoCMax l
     else 1)"

definition effectivePowerLimit :: "real \<Rightarrow> bool \<Rightarrow> real" where
  "effectivePowerLimit v isSet =
     (if isSet \<and> v \<ge> 0 then v else if v > 0 then v else MaxCommandW)"

definition chargeCap :: "PowerLimits \<Rightarrow> real" where
  "chargeCap l = effectivePowerLimit (MaxChargeW l) (MaxChargeWSet l)"

definition dischargeCap :: "PowerLimits \<Rightarrow> real" where
  "dischargeCap l = effectivePowerLimit (MaxDischargeW l) (MaxDischargeWSet l)"

record DispatchTarget =
  Driver :: string
  TargetW :: real
  Clamped :: bool

definition batteryDirectionBlocks :: "rawmsg \<Rightarrow> bool \<times> bool" where
  "batteryDirectionBlocks data =
     (case data of
        Empty \<Rightarrow> (False, False)
      | Malformed \<Rightarrow> (False, False)
      | Doc d \<Rightarrow>
          if jbad (discharge_capable d) \<or> jbad (charge_capable d) then (False, False)
          else (jptr (discharge_capable d) = Some False, jptr (charge_capable d) = Some False))"

section \<open>Records embedded in the state\<close>

record BatteryManualHold =
  bhDriver :: string
  bhDeviceID :: string
  bhPowerW :: real
  bhExpiresAt :: time

definition noBatteryHold :: BatteryManualHold where
  "noBatteryHold = \<lparr>bhDriver = [], bhDeviceID = [], bhPowerW = 0, bhExpiresAt = zeroTime\<rparr>"

record PVManualHold =
  phDriver :: string
  phLimitW :: real
  phExpiresAt :: time

definition noPVHold :: PVManualHold where
  "noPVHold = \<lparr>phDriver = [], phLimitW = 0, phExpiresAt = zeroTime\<rparr>"

text \<open>\<open>hourImport\<close>; its \<open>lastW\<close> is NaN when only the record is known.\<close>

record hourImport =
  hStart :: time
  importedWh :: real
  unknown :: duration
  lastAt :: time
  lastW :: f64
  hCeilingW :: real
  limitW :: real
  riseW :: real
  changedAt :: time
  cutAt :: time
  seen :: bool
  seenCeiling :: real

text \<open>\<open>hourImport{start: start, lastAt: .., lastW: ..}\<close>: every other field is zero.\<close>

definition newHour :: "time \<Rightarrow> time \<Rightarrow> f64 \<Rightarrow> hourImport" where
  "newHour start lastAt0 lastW0 = \<lparr>hStart = start, importedWh = 0, unknown = 0, lastAt = lastAt0,
     lastW = lastW0, hCeilingW = 0, limitW = 0, riseW = 0, changedAt = zeroTime, cutAt = zeroTime,
     seen = False, seenCeiling = 0\<rparr>"

text \<open>\<open>fuseHeat\<close>; the arrays of length three are lists of length three.\<close>

record fuseHeat =
  heatSet :: bool
  heatAt :: time
  heatAmps :: "real list"
  heatSq :: "real list"

definition coldFuse :: fuseHeat where
  "coldFuse = \<lparr>heatSet = False, heatAt = zeroTime, heatAmps = [0, 0, 0], heatSq = [0, 0, 0]\<rparr>"

text \<open>\<open>meterSample\<close>: the total and the nine phase values, \<open>None\<close> where the meter reports none.
  In the code an absent value is a zero in \<open>vals\<close> with a false in \<open>has\<close>.\<close>

type_synonym meterSample = "f64 option list"

record ownDevice =
  orderW :: real
  readW :: real

type_synonym ownDevices = "(DerType \<times> string, ownDevice) gomap"

record meterFreeze =
  mfDriver :: string
  mfAt :: time
  mfSample :: meterSample
  mfDevices :: ownDevices
  movedAt :: time
  repeats :: nat
  repeatAfterMove :: bool
  frozen :: bool

definition newFreeze :: "string \<Rightarrow> meterFreeze" where
  "newFreeze d = \<lparr>mfDriver = d, mfAt = zeroTime, mfSample = [], mfDevices = [], movedAt = zeroTime,
     repeats = 0, repeatAfterMove = False, frozen = False\<rparr>"

record sentCommand =
  scAt :: time
  scW :: real
  scA :: real
  scN :: int

type_synonym commandLog = "sentCommand list"

text \<open>\<open>phaseResponse\<close>; a nil slice or map is the empty list.\<close>

record phaseResponse =
  refAmps :: "real list"
  refChanged :: "real list"
  refRawW :: "(string, real) gomap"
  refChangedRawW :: "(string, real) gomap"
  offPhase :: bool
  offPhaseAt :: nat

definition noPhaseResponse :: phaseResponse where
  "noPhaseResponse = \<lparr>refAmps = [], refChanged = [], refRawW = [], refChangedRawW = [],
     offPhase = False, offPhaseAt = 0\<rparr>"

text \<open>\<open>evDraw\<close>: one sample of a charger's own power.\<close>

record evDraw =
  drAt :: time
  drGot :: time
  drSeen :: time
  drConfirmed :: bool
  drW :: real

definition noCommand :: sentCommand where
  "noCommand = \<lparr>scAt = zeroTime, scW = 0, scA = 0, scN = 0\<rparr>"

text \<open>\<open>chargerOffers\<close>; the arrays of length three are lists of length three.\<close>

record chargerOffers =
  coLog :: commandLog
  coSettle :: duration
  coDeclared :: bool
  coFound :: sentCommand
  coDriver :: string
  coMaxW :: f64
  coDraws :: "evDraw list"
  coWatchFrom :: time
  coCarPhases :: int
  coCarPhase :: int
  coShownA :: "real list"
  coUnsure :: bool
  coRiseBaseA :: "real list"
  coRiseFromA :: real
  coRiseSet :: bool

definition noOffers :: chargerOffers where
  "noOffers = \<lparr>coLog = [], coSettle = 0, coDeclared = False, coFound = noCommand, coDriver = [],
     coMaxW = Fin 0, coDraws = [], coWatchFrom = zeroTime, coCarPhases = 0, coCarPhase = 0,
     coShownA = [0, 0, 0], coUnsure = False, coRiseBaseA = [0, 0, 0], coRiseFromA = 0,
     coRiseSet = False\<rparr>"

record evBatteryYield =
  yTried :: bool
  yUntil :: time
  yActive :: bool
  yMaxChargeW :: real

definition noYield :: evBatteryYield where
  "noYield = \<lparr>yTried = False, yUntil = zeroTime, yActive = False, yMaxChargeW = 0\<rparr>"

record evMeterLimit =
  elSet :: bool
  elCapW :: real
  elCutAt :: time
  elReadingAt :: time
  elRoomSince :: time
  elOffers :: "(string, chargerOffers) gomap"
  elPhaseRoomA :: real
  elPhaseRoomKnown :: bool
  elPhasesA :: "real list"
  elPhasesSeen :: bool
  elCutForA :: "real list"
  elCutForSet :: bool
  overSince :: time
  elFuseOverAt :: time
  elFuseCutAt :: time
  elFuseUnderAt :: time
  overOffers :: "(string, real) gomap"
  elIdleWh :: real
  elByImport :: bool
  elBatteryYield :: evBatteryYield

definition noEVLimit :: evMeterLimit where
  "noEVLimit = \<lparr>elSet = False, elCapW = 0, elCutAt = zeroTime, elReadingAt = zeroTime,
     elRoomSince = zeroTime, elOffers = [], elPhaseRoomA = 0, elPhaseRoomKnown = False,
     elPhasesA = [0, 0, 0], elPhasesSeen = False, elCutForA = [0, 0, 0], elCutForSet = False,
     overSince = zeroTime, elFuseOverAt = zeroTime, elFuseCutAt = zeroTime, elFuseUnderAt = zeroTime,
     overOffers = [], elIdleWh = 0, elByImport = False, elBatteryYield = noYield\<rparr>"

record evFuseDemand =
  fdDriver :: string
  fdPowerW :: real
  fdPhaseMode :: string

text \<open>\<open>controlPlanSnapshot\<close>: what one control tick has read of the plan.\<close>

datatype controlPlanSource = controlPlanNone | controlPlanDirective | controlPlanLegacyTarget

record controlPlanSnapshot =
  snapActive :: bool
  snapSource :: controlPlanSource
  snapTickAt :: time
  directiveCaptured :: bool
  directiveOK :: bool
  directive :: SlotDirective
  legacyCaptured :: bool
  legacyOK :: bool
  legacyMode :: string
  legacyGridW :: real
  legacyID :: string

definition noSnapshot :: controlPlanSnapshot where
  "noSnapshot = \<lparr>snapActive = False, snapSource = controlPlanNone, snapTickAt = zeroTime,
     directiveCaptured = False, directiveOK = False, directive = noDirective, legacyCaptured = False,
     legacyOK = False, legacyMode = [], legacyGridW = 0, legacyID = []\<rparr>"

record storageSlotDelivery =
  sdStart :: time
  sdEnd :: time
  sdTick :: time
  sdDecision :: string
  sdBudget :: "(string, real) gomap"
  sdDelivered :: "(string, real) gomap"

definition noDelivery :: storageSlotDelivery where
  "noDelivery = \<lparr>sdStart = zeroTime, sdEnd = zeroTime, sdTick = zeroTime, sdDecision = [],
     sdBudget = [], sdDelivered = []\<rparr>"

record SlotDeliveryStats =
  OverDeliveryCount :: nat
  UnderDeliveryCount :: nat
  SignMismatchCount :: nat

section \<open>The state\<close>

record State =
  Mode :: Mode
  GridTargetW :: real
  GridToleranceW :: real
  SiteMeterDriver :: string
  SiteFuseAmps :: real
  SiteFuseVoltage :: real
  SiteFusePhases :: int
  SiteFuseSafetyA :: real
  PeakLimitW :: real
  PeakImportCeilingW :: real
  importHour :: hourImport
  importHourZone :: "time \<Rightarrow> int"
  MaxExportW :: real
  EVChargingW :: real
  ManualEVChargingW :: real
  liveEVChargingW :: real
  EVSurplusOnlyReserveW :: real
  EVSurplusOnlyChargingW :: real
  EVCurtailHeadroomW :: real
  BatteryCoversEV :: bool
  BatteryBoostEVChargingW :: real
  BatteryBoostReserveSoC :: real
  EVCommandedW :: f64
  evCommanded :: "(string, real) gomap"
  evFuseDemands :: "evFuseDemand list"
  evFuseDemandsSet :: bool
  evLimit :: evMeterLimit
  fuseHeat :: fuseHeat
  batteryCommands :: "(string, commandLog) gomap"
  batteryReadings :: "(string, commandLog) gomap"
  batteryFuseRelief :: "(string, real) gomap"
  batteriesOfflineSince :: "(string, time) gomap"
  phaseResponse :: phaseResponse
  PI :: "PIController option"
  dispatchMeterAt :: time
  meterFreeze :: meterFreeze
  SlewRateW :: real
  SlewEnabled :: bool
  MinDispatchIntervalS :: int
  ControlIntervalS :: int
  LastDispatch :: "time option"
  PrevTargets :: "(string, real) gomap"
  batteryChargeFull :: "(string, bool) gomap"
  clock :: time
  LastTargets :: "DispatchTarget list"
  PlanTarget :: "(time \<Rightarrow> string \<times> real \<times> string \<times> bool) option"
  SlotDirectiveFunc :: "(time \<Rightarrow> SlotDirective \<times> bool) option"
  UseEnergyDispatch :: bool
  PVSurplusAbsorbSoCCap :: real
  PVSurplusAbsorbThresholdW :: real
  currentDirective :: SlotDirective
  storageDelivery :: storageSlotDelivery
  slotDelivered :: real
  lastTickTs :: time
  controlSlotDecisionID :: string
  controlPlanSnapshot :: controlPlanSnapshot
  slotActualReplans :: nat
  slotActualDirective :: SlotDirective
  slotPlannedPastWh :: real
  slotActualWh :: real
  slotActualLastTs :: time
  slotActualSlotStart :: time
  slotActualPlannedWh :: real
  SlotDeliveryStats :: SlotDeliveryStats
  PlanStale :: bool
  InverterGroups :: "(string, string) gomap"
  SupportsPVCurtail :: "(string, bool) gomap"
  PVGenerationLimit :: "(string \<Rightarrow> PVCurtailment) option"
  SolarFeedDrivers :: "(string, bool) gomap"
  DCLinkProtectionEnabled :: bool
  DCLinkProtectionSoCThreshold :: real
  DCLinkProtectionMarginW :: real
  LastCurtailedDrivers :: "(string, bool) gomap"
  PVExportGuardActive :: bool
  PVExportResidualW :: real
  FuseEVMaxW :: real
  FuseSaturated :: bool
  FuseSaturatedByImport :: bool
  DriverLimits :: "(string, PowerLimits) gomap"
  FuseHoldMaxDischargeW :: real
  FuseHoldMaxChargeW :: real
  FuseHoldUntil :: time
  ManualHold :: BatteryManualHold
  BatteryHoldTargetValid :: "(string \<Rightarrow> string \<Rightarrow> bool) option"
  ManualPVHold :: PVManualHold

definition NewState :: "real \<Rightarrow> real \<Rightarrow> string \<Rightarrow> (time \<Rightarrow> int) \<Rightarrow> time \<Rightarrow> State" where
  "NewState gridTargetW gridToleranceW siteMeter zone now = \<lparr>
     Mode = ModeSelfConsumption, GridTargetW = gridTargetW, GridToleranceW = gridToleranceW,
     SiteMeterDriver = siteMeter, SiteFuseAmps = 0, SiteFuseVoltage = 0, SiteFusePhases = 0,
     SiteFuseSafetyA = 0, PeakLimitW = 5000, PeakImportCeilingW = 0,
     importHour = newHour zeroTime zeroTime (Fin 0), importHourZone = zone, MaxExportW = 0,
     EVChargingW = 0, ManualEVChargingW = 0, liveEVChargingW = 0, EVSurplusOnlyReserveW = 0,
     EVSurplusOnlyChargingW = 0, EVCurtailHeadroomW = 0, BatteryCoversEV = False, BatteryBoostEVChargingW = 0,
     BatteryBoostReserveSoC = 0, EVCommandedW = Fin 0, evCommanded = [],
     evFuseDemands = [], evFuseDemandsSet = False, evLimit = noEVLimit, fuseHeat = coldFuse, batteryCommands = [],
     batteryReadings = [],
     batteryFuseRelief = [], batteriesOfflineSince = [], phaseResponse = noPhaseResponse,
     PI = Some (NewPI (1 / 2) (1 / 10) 3000 10000\<lparr>Setpoint := gridTargetW\<rparr>),
     dispatchMeterAt = zeroTime, meterFreeze = newFreeze [], SlewRateW = 500, SlewEnabled = True,
     MinDispatchIntervalS = 5, ControlIntervalS = 0, LastDispatch = None, PrevTargets = [], batteryChargeFull = [],
     clock = now, LastTargets = [], PlanTarget = None, SlotDirectiveFunc = None,
     UseEnergyDispatch = False, PVSurplusAbsorbSoCCap = 0, PVSurplusAbsorbThresholdW = 0,
     currentDirective = noDirective, storageDelivery = noDelivery, slotDelivered = 0,
     lastTickTs = zeroTime, controlSlotDecisionID = [], controlPlanSnapshot = noSnapshot,
     slotActualReplans = 0, slotActualDirective = noDirective, slotPlannedPastWh = 0, slotActualWh = 0,
     slotActualLastTs = zeroTime, slotActualSlotStart = zeroTime, slotActualPlannedWh = 0,
     SlotDeliveryStats = \<lparr>OverDeliveryCount = 0, UnderDeliveryCount = 0, SignMismatchCount = 0\<rparr>,
     PlanStale = False, InverterGroups = [],
     SupportsPVCurtail = [], PVGenerationLimit = None, SolarFeedDrivers = [], DCLinkProtectionEnabled = False,
     DCLinkProtectionSoCThreshold = 0, DCLinkProtectionMarginW = 0, LastCurtailedDrivers = [],
     PVExportGuardActive = False, PVExportResidualW = 0,
     FuseEVMaxW = 0, FuseSaturated = False, FuseSaturatedByImport = False, DriverLimits = [],
     FuseHoldMaxDischargeW = 0, FuseHoldMaxChargeW = 0, FuseHoldUntil = zeroTime,
     ManualHold = noBatteryHold, BatteryHoldTargetValid = None, ManualPVHold = noPVHold\<rparr>"

definition limitsOf :: "State \<Rightarrow> string \<Rightarrow> PowerLimits" where
  "limitsOf s d = mgetD noLimits (DriverLimits s) d"

end
