(* ===== verification/Control_Settings.thy ===== *)
theory Control_Settings
  imports Control_State
begin

text \<open>
  The operator's doors into the control state: mode changes (\<open>mode_apply.go\<close>), the two manual
  holds with their lazy expiry, the grid target, the manual EV load and the peak limit, with the
  fuse arithmetic they rest on (all \<open>dispatch.go\<close>). The holds share one contract, the locale
  \<^emph>\<open>timed_hold\<close>, interpreted once per hold.
\<close>

section \<open>Modes and setpoints\<close>

definition SetGridTarget :: "real \<Rightarrow> State \<Rightarrow> State" where
  "SetGridTarget w s = s\<lparr>GridTargetW := w, PI := map_option (\<lambda>p. p\<lparr>Setpoint := w\<rparr>) (PI s)\<rparr>"

definition SetManualEVCharging :: "real \<Rightarrow> bool \<Rightarrow> State \<Rightarrow> State" where
  "SetManualEVCharging w active s =
     (let m = (if active \<and> w > 0 then w else 0)
      in s\<lparr>ManualEVChargingW := m, EVChargingW := m + liveEVChargingW s\<rparr>)"

definition ClearBatteryManualHold :: "State \<Rightarrow> State" where
  "ClearBatteryManualHold s = s\<lparr>ManualHold := noBatteryHold\<rparr>"

definition SetBatteryManualHold :: "BatteryManualHold \<Rightarrow> State \<Rightarrow> State" where
  "SetBatteryManualHold h s =
     (if isZero (bhExpiresAt h) then s\<lparr>ManualHold := noBatteryHold\<rparr> else s\<lparr>ManualHold := h\<rparr>)"

definition GetBatteryManualHold :: "time \<Rightarrow> State \<Rightarrow> (BatteryManualHold \<times> bool) \<times> State" where
  "GetBatteryManualHold now s =
     (if isZero (bhExpiresAt (ManualHold s)) then ((noBatteryHold, False), s)
      else if \<not> now < bhExpiresAt (ManualHold s)
      then ((noBatteryHold, False), s\<lparr>ManualHold := noBatteryHold\<rparr>)
      else ((ManualHold s, True), s))"

definition ClearPVManualHold :: "State \<Rightarrow> State" where
  "ClearPVManualHold s = s\<lparr>ManualPVHold := noPVHold\<rparr>"

definition SetPVManualHold :: "PVManualHold \<Rightarrow> State \<Rightarrow> State" where
  "SetPVManualHold h s =
     (if isZero (phExpiresAt h) then s\<lparr>ManualPVHold := noPVHold\<rparr> else s\<lparr>ManualPVHold := h\<rparr>)"

definition GetPVManualHold :: "time \<Rightarrow> State \<Rightarrow> (PVManualHold \<times> bool) \<times> State" where
  "GetPVManualHold now s =
     (if isZero (phExpiresAt (ManualPVHold s)) then ((noPVHold, False), s)
      else if \<not> now < phExpiresAt (ManualPVHold s)
      then ((noPVHold, False), s\<lparr>ManualPVHold := noPVHold\<rparr>)
      else ((ManualPVHold s, True), s))"

text \<open>\<open>ApplyMode\<close> returns an error and leaves the state alone for an unknown mode.\<close>

definition ApplyMode :: "Mode \<Rightarrow> State \<Rightarrow> string + State" where
  "ApplyMode m s =
     (if \<not> IsValidMode m then Inl (''control: unknown mode '' @ m)
      else let s = ClearBatteryManualHold (s\<lparr>Mode := m\<rparr>)
           in Inr (s\<lparr>PI := map_option Reset (PI s)\<rparr>))"

section \<open>Fuse arithmetic and the peak limit\<close>

definition siteFuseMaxW :: "State \<Rightarrow> real" where
  "siteFuseMaxW s =
     (if SiteFuseAmps s \<le> 0 \<or> SiteFuseVoltage s \<le> 0 \<or> SiteFusePhases s \<le> 0 then 0
      else SiteFuseAmps s * SiteFuseVoltage s * of_int (SiteFusePhases s))"

definition fuseSafetyMarginW :: "State \<Rightarrow> real" where
  "fuseSafetyMarginW s =
     (if SiteFuseSafetyA s \<le> 0 \<or> SiteFuseVoltage s \<le> 0 \<or> SiteFusePhases s \<le> 0 then 0
      else SiteFuseSafetyA s * SiteFuseVoltage s * of_int (SiteFusePhases s))"

definition fuseLineA :: "State \<Rightarrow> real" where
  "fuseLineA s = max 0 (SiteFuseAmps s - max 0 (SiteFuseSafetyA s))"

definition peakLimitCeilingW :: "State \<Rightarrow> real" where
  "peakLimitCeilingW s =
     (let fuseW = siteFuseMaxW s
      in if fuseW \<le> 0 then 0
         else let ceilingW = fuseW - fuseSafetyMarginW s in if ceilingW < 0 then 0 else ceilingW)"

datatype peak_limit_error = NotFinite | NegativeLimit | AboveImportCeiling real

definition SetPeakLimit :: "f64 \<Rightarrow> State \<Rightarrow> peak_limit_error + State" where
  "SetPeakLimit w s =
     (if \<not> isFinite w then Inl NotFinite
      else if w < Fin 0 then Inl NegativeLimit
      else let ceilingW = peakLimitCeilingW s
           in if ceilingW > 0 \<and> w > Fin ceilingW then Inl (AboveImportCeiling ceilingW)
              else Inr (s\<lparr>PeakLimitW := fval w\<rparr>))"

definition PeakLimitIsDead :: "State \<Rightarrow> real \<times> bool" where
  "PeakLimitIsDead s =
     (let ceilingW = peakLimitCeilingW s in (ceilingW, ceilingW > 0 \<and> PeakLimitW s > ceilingW))"

section \<open>The contract of a manual hold\<close>

locale timed_hold =
  fixes install :: "'h \<Rightarrow> 's \<Rightarrow> 's"
    and clear :: "'s \<Rightarrow> 's"
    and get :: "time \<Rightarrow> 's \<Rightarrow> ('h \<times> bool) \<times> 's"
    and expires :: "'h \<Rightarrow> time"
    and none :: 'h
  assumes get_install: "\<not> isZero (expires h) \<Longrightarrow> t < expires h \<Longrightarrow>
        get t (install h s) = ((h, True), install h s)"
    and get_expired: "\<not> isZero (expires h) \<Longrightarrow> expires h \<le> t \<Longrightarrow>
        get t (install h s) = ((none, False), clear s)"
    and install_zero: "isZero (expires h) \<Longrightarrow> install h s = clear s"
    and get_clear: "get t (clear s) = ((none, False), clear s)"
begin

lemma answer:
  "fst (get t (install h s)) =
     (if isZero (expires h) \<or> expires h \<le> t then (none, False) else (h, True))"
  by (cases "isZero (expires h)") (auto simp: get_install get_expired install_zero get_clear)

text \<open>An expiry that has been seen is final, whatever the clock does next.\<close>

lemma expiry_is_final:
  "expires h \<le> t \<Longrightarrow> fst (get t' (snd (get t (install h s)))) = (none, False)"
  by (cases "isZero (expires h)") (auto simp: get_expired install_zero get_clear)

lemma reading_is_stable:
  "\<not> isZero (expires h) \<Longrightarrow> t < expires h \<Longrightarrow>
     fst (get t' (snd (get t (install h s)))) = fst (get t' (install h s))"
  by (simp add: get_install)

end

lemma hold_state_simps [simp]:
  "s\<lparr>ManualHold := a, ManualHold := b\<rparr> = s\<lparr>ManualHold := b\<rparr>"
  "s\<lparr>ManualPVHold := c, ManualPVHold := d\<rparr> = s\<lparr>ManualPVHold := d\<rparr>"
  by simp_all

interpretation battery_hold: timed_hold SetBatteryManualHold ClearBatteryManualHold
  GetBatteryManualHold bhExpiresAt noBatteryHold
  by unfold_locales (simp_all add: SetBatteryManualHold_def ClearBatteryManualHold_def
      GetBatteryManualHold_def noBatteryHold_def isZero_def)

interpretation pv_hold: timed_hold SetPVManualHold ClearPVManualHold GetPVManualHold phExpiresAt
  noPVHold
  by unfold_locales (simp_all add: SetPVManualHold_def ClearPVManualHold_def
      GetPVManualHold_def noPVHold_def isZero_def)

section \<open>Properties\<close>

lemma siteFuseMaxW_nonneg [simp]: "0 \<le> siteFuseMaxW s"
  by (simp add: siteFuseMaxW_def)

lemma fuseSafetyMarginW_nonneg [simp]: "0 \<le> fuseSafetyMarginW s"
  by (simp add: fuseSafetyMarginW_def)

text \<open>The aggregate ceiling is the working line of each phase, times voltage and phases.\<close>

lemma peakLimitCeilingW_line:
  assumes "siteFuseMaxW s > 0"
  shows "peakLimitCeilingW s = fuseLineA s * SiteFuseVoltage s * of_int (SiteFusePhases s)"
proof -
  have pos: "0 < SiteFuseAmps s" "0 < SiteFuseVoltage s" "0 < SiteFusePhases s"
    using assms by (auto simp: siteFuseMaxW_def split: if_splits)
  let ?k = "SiteFuseVoltage s * of_int (SiteFusePhases s)"
  have k: "0 < ?k" using pos by simp
  have "siteFuseMaxW s - fuseSafetyMarginW s = (SiteFuseAmps s - max 0 (SiteFuseSafetyA s)) * ?k"
    using pos by (simp add: siteFuseMaxW_def fuseSafetyMarginW_def max_def algebra_simps)
  then have "peakLimitCeilingW s = max 0 ((SiteFuseAmps s - max 0 (SiteFuseSafetyA s)) * ?k)"
    using assms by (simp add: peakLimitCeilingW_def Let_def)
  also have "\<dots> = fuseLineA s * ?k"
  proof (cases "0 \<le> SiteFuseAmps s - max 0 (SiteFuseSafetyA s)")
    case True
    then show ?thesis using k by (simp add: fuseLineA_def)
  next
    case False
    then have "(SiteFuseAmps s - max 0 (SiteFuseSafetyA s)) * ?k \<le> 0"
      using k by (intro mult_nonpos_nonneg) linarith+
    moreover have "fuseLineA s = 0" using False unfolding fuseLineA_def by linarith
    ultimately show ?thesis by (simp add: max_def)
  qed
  finally show ?thesis by (simp add: mult.assoc)
qed

text \<open>A manual hold (battery or PV) is in force exactly until its expiry, a hold without an
  expiry is no hold, and once an expiry has been noticed the hold stays gone even if the clock
  steps back.\<close>

theorem manual_holds_expire:
  "fst (GetBatteryManualHold t (SetBatteryManualHold b s)) =
     (if isZero (bhExpiresAt b) \<or> bhExpiresAt b \<le> t then (noBatteryHold, False) else (b, True))
   \<and> (bhExpiresAt b \<le> t \<longrightarrow>
        fst (GetBatteryManualHold t' (snd (GetBatteryManualHold t (SetBatteryManualHold b s))))
          = (noBatteryHold, False))
   \<and> fst (GetPVManualHold t (SetPVManualHold p s)) =
     (if isZero (phExpiresAt p) \<or> phExpiresAt p \<le> t then (noPVHold, False) else (p, True))
   \<and> (phExpiresAt p \<le> t \<longrightarrow>
        fst (GetPVManualHold t' (snd (GetPVManualHold t (SetPVManualHold p s)))) = (noPVHold, False))"
  using battery_hold.answer battery_hold.expiry_is_final pv_hold.answer pv_hold.expiry_is_final
  by blast

theorem manual_holds_expire_witness:
  "fst (GetBatteryManualHold 3 (snd (GetBatteryManualHold 9 (SetBatteryManualHold
      \<lparr>bhDriver = [], bhDeviceID = [], bhPowerW = 2000, bhExpiresAt = 9\<rparr>
      (NewState 0 50 ''m'' (\<lambda>_. 0) 0))))) = (noBatteryHold, False)"
  using manual_holds_expire [of 9 "\<lparr>bhDriver = [], bhDeviceID = [], bhPowerW = 2000, bhExpiresAt = 9\<rparr>"
      "NewState 0 50 ''m'' (\<lambda>_. 0) 0" 3]
  by simp

text \<open>A mode change is all or nothing: an unknown mode changes nothing and is an error; a known
  one takes effect, leaves no manual hold in force at any time, keeps the grid controller within
  its gains and setpoint, and makes its first correction independent of what it had accumulated
  before: it is that of the same controller with an empty integral.\<close>

theorem ApplyMode_complete:
  "case ApplyMode m s of
     Inl e \<Rightarrow> \<not> IsValidMode m
   | Inr s' \<Rightarrow> IsValidMode m \<and> Mode s' = m
       \<and> (\<forall>t. fst (GetBatteryManualHold t s') = (noBatteryHold, False))
       \<and> (case (PI s, PI s') of
            (Some p, Some p') \<Rightarrow>
              (\<forall>w. fst (PIUpdate w p') = fst (PIUpdate w (p\<lparr>integral := 0\<rparr>)))
          | (None, None) \<Rightarrow> True | _ \<Rightarrow> False)
       \<and> PrevTargets s' = PrevTargets s \<and> GridTargetW s' = GridTargetW s
       \<and> ManualPVHold s' = ManualPVHold s"
proof (cases "IsValidMode m")
  case True
  then obtain s' where s': "ApplyMode m s = Inr s'" by (simp add: ApplyMode_def Let_def)
  then have f: "Mode s' = m" "ManualHold s' = noBatteryHold" "PI s' = map_option Reset (PI s)"
    "PrevTargets s' = PrevTargets s" "GridTargetW s' = GridTargetW s" "ManualPVHold s' = ManualPVHold s"
    using True by (auto simp: ApplyMode_def ClearBatteryManualHold_def)
  have g: "fst (GetBatteryManualHold t s') = (noBatteryHold, False)" for t
    by (simp add: GetBatteryManualHold_def f noBatteryHold_def isZero_def)
  show ?thesis using True g by (cases "PI s") (simp_all add: s' f Reset_def)
qed (simp add: ApplyMode_def)

text \<open>A peak limit is accepted exactly when it is a finite, non-negative number that the site's
  fuse can still bind; what is accepted is never dead, and a refused limit (NaN and the infinities
  included) changes nothing. A fuse that is not described checks the sign only.\<close>

theorem SetPeakLimit_never_dead:
  "case SetPeakLimit w s of
     Inl e \<Rightarrow> \<not> isFinite w \<or> fval w < 0 \<or> (0 < siteFuseMaxW s \<and> peakLimitCeilingW s < fval w)
   | Inr s' \<Rightarrow> isFinite w \<and> PeakLimitW s' = fval w \<and> 0 \<le> PeakLimitW s' \<and> \<not> snd (PeakLimitIsDead s')
       \<and> (0 < peakLimitCeilingW s \<longrightarrow>
            PeakLimitW s' \<le> fuseLineA s * SiteFuseVoltage s * of_int (SiteFusePhases s))"
proof (cases w)
  case (Fin x)
  have c: "0 < peakLimitCeilingW s \<Longrightarrow> 0 < siteFuseMaxW s"
    by (auto simp: peakLimitCeilingW_def Let_def split: if_splits)
  have k: "peakLimitCeilingW (s\<lparr>PeakLimitW := v\<rparr>) = peakLimitCeilingW s" for v
    by (simp add: peakLimitCeilingW_def siteFuseMaxW_def fuseSafetyMarginW_def Let_def)
  show ?thesis
    using c peakLimitCeilingW_line [of s] k
    by (auto simp: Fin SetPeakLimit_def Let_def PeakLimitIsDead_def)
qed (simp_all add: SetPeakLimit_def)

theorem SetPeakLimit_never_dead_witness:
  "case SetPeakLimit (Fin 4000) (NewState 0 50 ''m'' (\<lambda>_. 0) 0) of Inl _ \<Rightarrow> False | Inr s' \<Rightarrow> PeakLimitW s' = 4000"
  using SetPeakLimit_never_dead [of "Fin 4000" "NewState 0 50 ''m'' (\<lambda>_. 0) 0"]
  by (simp add: SetPeakLimit_def Let_def NewState_def siteFuseMaxW_def peakLimitCeilingW_def)

end
