(* ===== verification/Import_Hour.thy ===== *)
theory Import_Hour
  imports Control_Settings
begin

text \<open>
  The clock hour's import budget (\<open>import_hour.go\<close>) and the two site ceilings that rest on it
  (\<open>dispatch.go\<close>). The tariff bills the mean import over each local clock hour, so the code
  counts what the site meter imported this hour and derives the mean the rest of the hour may
  hold (\<^emph>\<open>limitW\<close>) and the level an increase may reach (\<^emph>\<open>riseW\<close>).

  Meter values come from \<^emph>\<open>OnlineMeterW\<close>, which the store only fills with finite readings, so
  their arithmetic is over \<^typ>\<open>real\<close>. Log lines are left out.
\<close>

definition importHourChangeEvery :: duration where "importHourChangeEvery = minute"
definition importHourRiseGap :: duration where "importHourRiseGap = 5 * minute"
definition importHourRiseMinLeft :: duration where "importHourRiseMinLeft = 15 * minute"
definition evSettle :: duration where "evSettle = 20 * second"
definition evStepA :: real where "evStepA = 1"

lemmas hour_consts = importHourChangeEvery_def importHourRiseGap_def importHourRiseMinLeft_def
  evSettle_def evStepA_def

text \<open>The local clock hour that holds \<open>t\<close>: \<open>t\<close> less the local minute, second and nanosecond.\<close>

definition importHourStart :: "(time \<Rightarrow> int) \<Rightarrow> time \<Rightarrow> time" where
  "importHourStart zone t = t - (t + zone t * second) mod hour"

lemma hour_pos [simp]: "0 < hour"
  by (simp add: time_simps)

lemma importHourStart_le: "importHourStart zone t \<le> t"
  by (simp add: importHourStart_def)

lemma importHourStart_gt: "t < importHourStart zone t + hour"
  by (simp add: importHourStart_def)

definition SeedHourImport :: "time \<Rightarrow> f64 \<Rightarrow> duration \<Rightarrow> State \<Rightarrow> State" where
  "SeedHourImport t importWh covered s =
     (if \<not> isFinite importWh \<or> importWh < Fin 0 then s
      else let start = importHourStart (importHourZone s) t;
               unk = max 0 (tsub t start - covered)
           in s\<lparr>importHour := (newHour start t NaN)\<lparr>importedWh := fval importWh, unknown := unk\<rparr>\<rparr>)"

text \<open>\<open>hourRateW\<close> on the hour and the ceiling.\<close>

definition hourRate :: "real \<Rightarrow> hourImport \<Rightarrow> time \<Rightarrow> real" where
  "hourRate ceilingW h t =
     (if \<not> ceilingW > 0 then 0
      else let leftWh = ceilingW * (1 - hours (unknown h)) - importedWh h;
               left = max second (tsub (hStart h + hour) t)
           in max 0 (leftWh / hours left))"

definition hourRateW :: "time \<Rightarrow> State \<Rightarrow> real" where
  "hourRateW t s = hourRate (PeakImportCeilingW s) (importHour s) t"

text \<open>One pass of the loop in \<open>addHourImport\<close>: roll to the clock hour of \<open>from\<close>, count up to the
  end of that hour or to \<open>to\<close>.\<close>

definition rollHour :: "time \<Rightarrow> hourImport \<Rightarrow> hourImport" where
  "rollHour start h = (if start \<noteq> hStart h then newHour start (lastAt h) (lastW h) else h)"

definition gapRate :: "real \<Rightarrow> real \<Rightarrow> real \<Rightarrow> bool \<Rightarrow> hourImport \<Rightarrow> time \<Rightarrow> real" where
  "gapRate ceilingW prevW w gap h t =
     (if gap then max (max prevW w) (hourRate ceilingW h t) else (prevW + w) / 2)"

definition countHour :: "real \<Rightarrow> real \<Rightarrow> real \<Rightarrow> bool \<Rightarrow> time \<Rightarrow> time \<Rightarrow> hourImport \<Rightarrow> hourImport" where
  "countHour ceilingW prevW w gap t e h =
     h\<lparr>importedWh := importedWh h + gapRate ceilingW prevW w gap h t * hours (tsub e t)\<rparr>"

function hourLoop ::
  "(time \<Rightarrow> int) \<Rightarrow> real \<Rightarrow> real \<Rightarrow> real \<Rightarrow> bool \<Rightarrow> time \<Rightarrow> time \<Rightarrow> hourImport \<Rightarrow> hourImport" where
  "hourLoop zone ceilingW prevW w gap t to h =
     (if t < to then
        let h = rollHour (importHourStart zone t) h;
            e = hStart h + hour;
            e = (if to < e then to else e)
        in hourLoop zone ceilingW prevW w gap e to (countHour ceilingW prevW w gap t e h)
      else h)"
  by pat_completeness auto

lemma hStart_rollHour [simp]: "hStart (rollHour start h) = start"
  by (simp add: rollHour_def newHour_def)

termination hourLoop
proof (relation "measure (\<lambda>(zone, c, p, w, g, t, to, h). nat (to - t))", goal_cases)
  case (2 zone c p w g t to h h' e e')
  then show ?case using importHourStart_gt [of t zone] by auto
qed simp

declare hourLoop.simps [simp del]

definition addHourImport :: "time \<Rightarrow> time \<Rightarrow> real \<Rightarrow> bool \<Rightarrow> State \<Rightarrow> State" where
  "addHourImport t to w gap s =
     (let h = importHour s;
          prevW = (if lastW h = NaN then w else fval (lastW h));
          h = hourLoop (importHourZone s) (PeakImportCeilingW s) prevW w gap t to h
      in s\<lparr>importHour := rollHour (importHourStart (importHourZone s) to) h\<rparr>)"

text \<open>\<open>stepHourImportLimits\<close>, in the order of the code: a ceiling set during the hour, no ceiling,
  a new hour or a new ceiling, the once-a-minute guard, the cut, and the rise in whole steps.\<close>

definition noticeCeiling :: "real \<Rightarrow> time \<Rightarrow> hourImport \<Rightarrow> hourImport" where
  "noticeCeiling ceilingW t h =
     (let h = (if seen h \<and> ceilingW \<noteq> seenCeiling h \<and> ceilingW > 0
               then h\<lparr>importedWh := 0, unknown := tsub t (hStart h)\<rparr> else h)
      in h\<lparr>seen := True, seenCeiling := ceilingW\<rparr>)"

definition followRate :: "real \<Rightarrow> time \<Rightarrow> hourImport \<Rightarrow> hourImport" where
  "followRate rateW t h =
     (let h = (if rateW < limitW h - 1 then h\<lparr>cutAt := t\<rparr> else h)
      in h\<lparr>limitW := rateW, riseW := min (riseW h) rateW, changedAt := t\<rparr>)"

definition riseSteps :: "real \<Rightarrow> real \<Rightarrow> bool \<Rightarrow> time \<Rightarrow> hourImport \<Rightarrow> hourImport" where
  "riseSteps step rateW gap t h =
     (let left = tsub (hStart h + hour) t
      in if gap \<or> \<not> step > 0 \<or> tsub t (cutAt h) < importHourRiseGap \<or> left < importHourRiseMinLeft
            \<or> rateW < riseW h + 2 * step
         then h
         else h\<lparr>riseW := riseW h + step * (of_int \<lfloor>(rateW - riseW h) / step\<rfloor> - 1)\<rparr>)"

definition stepLimits :: "real \<Rightarrow> real \<Rightarrow> time \<Rightarrow> bool \<Rightarrow> hourImport \<Rightarrow> hourImport" where
  "stepLimits ceilingW step t gap h =
     (let ceilingW = (if \<not> ceilingW > 0 then 0 else ceilingW);
          h = noticeCeiling ceilingW t h
      in if ceilingW = 0 then h\<lparr>hCeilingW := 0\<rparr>
         else let rateW = hourRate ceilingW h t
              in if hCeilingW h \<noteq> ceilingW
                 then h\<lparr>hCeilingW := ceilingW, limitW := rateW, riseW := min ceilingW rateW,
                        changedAt := t, cutAt := zeroTime\<rparr>
                 else if tsub t (changedAt h) < importHourChangeEvery \<or> (gap \<and> rateW \<ge> limitW h)
                 then h
                 else riseSteps step rateW gap t (followRate rateW t h))"

definition importStepW :: "State \<Rightarrow> real" where
  "importStepW s = evStepA * SiteFuseVoltage s * of_int (SiteFusePhases s)"

definition stepHourImportLimits :: "time \<Rightarrow> bool \<Rightarrow> State \<Rightarrow> State" where
  "stepHourImportLimits t gap s =
     s\<lparr>importHour := stepLimits (PeakImportCeilingW s) (importStepW s) t gap (importHour s)\<rparr>"

definition ObserveSiteImport :: "Store \<Rightarrow> State \<Rightarrow> State" where
  "ObserveSiteImport store s =
     (let (gridW, t, ok) = OnlineMeterW (SiteMeterDriver s) store; h = importHour s
      in if \<not> ok \<or> isZero t \<or> \<not> t > lastAt h \<or> t > clock s then s
         else
           let w = max 0 (fval gridW);
               start = importHourStart (importHourZone s) t;
               gap = (\<not> isZero (lastAt h) \<and> tsub t (lastAt h) > evSettle);
               s = (if isZero (lastAt h)
                    then s\<lparr>importHour := (newHour start zeroTime (Fin 0))\<lparr>unknown := tsub t start\<rparr>\<rparr>
                    else addHourImport (if tsub t (lastAt h) > hour then start else lastAt h) t w gap s);
               s = s\<lparr>importHour := (importHour s)\<lparr>lastAt := t, lastW := Fin w\<rparr>\<rparr>
           in stepHourImportLimits t gap s)"

section \<open>What the limits say\<close>

definition importHourMeasured :: "State \<Rightarrow> bool" where
  "importHourMeasured s =
     (PeakImportCeilingW s > 0 \<and> hCeilingW (importHour s) = PeakImportCeilingW s
      \<and> importHourStart (importHourZone s) (clock s) = hStart (importHour s))"

definition importHourLimitsW :: "State \<Rightarrow> (real \<times> real) option" where
  "importHourLimitsW s =
     (if \<not> PeakImportCeilingW s > 0 then None
      else if \<not> importHourMeasured s then Some (PeakImportCeilingW s, PeakImportCeilingW s)
      else Some (limitW (importHour s), riseW (importHour s)))"

definition importLimitSets :: "real \<Rightarrow> State \<Rightarrow> bool" where
  "importLimitSets ceilingW s =
     (case importHourLimitsW s of None \<Rightarrow> False | Some (l, _) \<Rightarrow> l \<le> ceilingW)"

definition effectiveImportCeilingW :: "real \<Rightarrow> State \<Rightarrow> real" where
  "effectiveImportCeilingW fuseMaxW s =
     (let eff = fuseMaxW - fuseSafetyMarginW s; eff = (if eff < 0 then 0 else eff)
      in case importHourLimitsW s of
           None \<Rightarrow> eff
         | Some (l, _) \<Rightarrow> if l < eff then l else eff)"

definition effectiveExportCeilingW :: "real \<Rightarrow> State \<Rightarrow> real" where
  "effectiveExportCeilingW fuseMaxW s =
     (let eff = fuseMaxW - fuseSafetyMarginW s; eff = (if eff < 0 then 0 else eff)
      in if MaxExportW s > 0 \<and> MaxExportW s < eff then MaxExportW s else eff)"

definition importRiseCeilingW :: "real \<Rightarrow> State \<Rightarrow> real" where
  "importRiseCeilingW fuseMaxW s =
     (let eff = effectiveImportCeilingW fuseMaxW s
      in case importHourLimitsW s of
           None \<Rightarrow> eff
         | Some (_, r) \<Rightarrow> if r < eff then r else eff)"

record ImportCeiling =
  icW :: real
  icMeanW :: real
  icHourStart :: time
  icElapsedWh :: real

definition PlanningImportCeiling :: "State \<Rightarrow> ImportCeiling" where
  "PlanningImportCeiling s =
     (if \<not> PeakImportCeilingW s > 0
      then \<lparr>icW = 0, icMeanW = 0, icHourStart = zeroTime, icElapsedWh = 0\<rparr>
      else let ceilingW = PeakImportCeilingW s;
               start = importHourStart (importHourZone s) (clock s);
               elapsedWh = (if importHourMeasured s
                            then importedWh (importHour s) + ceilingW * hours (unknown (importHour s))
                            else ceilingW * hours (tsub (clock s) start))
           in \<lparr>icW = ceilingW, icMeanW = max 0 (ceilingW - importStepW s / 2), icHourStart = start,
               icElapsedWh = elapsedWh\<rparr>)"

record HourImport =
  hiStart :: time
  hiImportedWh :: real
  hiCovered :: duration

definition MeasuredHourImport :: "State \<Rightarrow> HourImport" where
  "MeasuredHourImport s =
     (let h = importHour s
      in if isZero (lastAt h) \<or> importHourStart (importHourZone s) (clock s) \<noteq> hStart h
         then \<lparr>hiStart = zeroTime, hiImportedWh = 0, hiCovered = 0\<rparr>
         else \<lparr>hiStart = hStart h, hiImportedWh = importedWh h,
               hiCovered = max 0 (tsub (lastAt h) (hStart h) - unknown h)\<rparr>)"

definition ImportHourStatus :: "real \<Rightarrow> State \<Rightarrow> (real \<times> real) option" where
  "ImportHourStatus fuseMaxW s =
     (case importHourLimitsW s of
        None \<Rightarrow> None
      | Some (l, _) \<Rightarrow>
          let h = importHour s;
              leftWh = (if importHourStart (importHourZone s) (clock s) = hStart h
                        then PeakImportCeilingW s * (1 - hours (unknown h)) - importedWh h
                        else PeakImportCeilingW s)
          in Some (leftWh, if fuseMaxW > 0 then effectiveImportCeilingW fuseMaxW s else l))"

section \<open>Lemmas\<close>

lemma hours_nonneg [simp]: "0 \<le> a \<Longrightarrow> 0 \<le> hours a"
  by (simp add: hours_def)

lemma hours_pos [simp]: "0 < a \<Longrightarrow> 0 < hours a"
  by (simp add: hours_def)

lemma hours_zero [simp]: "hours 0 = 0"
  by (simp add: hours_def)

lemma second_pos [simp]: "0 < second"
  by (simp add: time_simps)

lemma tsub_within_hour: "u \<le> t \<Longrightarrow> t \<le> u + hour \<Longrightarrow> tsub t u = t - u"
  by (rule tsub_exact) (simp_all add: time_simps minDuration_def maxDuration_def)

lemma hourRate_nonneg [simp]: "0 \<le> hourRate ceilingW h t"
  by (simp add: hourRate_def Let_def)

lemma newHour_simps [simp]:
  "hStart (newHour a b c) = a" "importedWh (newHour a b c) = 0" "unknown (newHour a b c) = 0"
  "lastAt (newHour a b c) = b" "lastW (newHour a b c) = c" "limitW (newHour a b c) = 0"
  "riseW (newHour a b c) = 0" "hCeilingW (newHour a b c) = 0" "seen (newHour a b c) = False"
  by (simp_all add: newHour_def)

lemma countHour_frame [simp]:
  "hStart (countHour c p w g t e h) = hStart h" "unknown (countHour c p w g t e h) = unknown h"
  "lastAt (countHour c p w g t e h) = lastAt h" "lastW (countHour c p w g t e h) = lastW h"
  "limitW (countHour c p w g t e h) = limitW h" "riseW (countHour c p w g t e h) = riseW h"
  "hCeilingW (countHour c p w g t e h) = hCeilingW h" "seen (countHour c p w g t e h) = seen h"
  "seenCeiling (countHour c p w g t e h) = seenCeiling h"
  "changedAt (countHour c p w g t e h) = changedAt h" "cutAt (countHour c p w g t e h) = cutAt h"
  by (simp_all add: countHour_def)

lemma noticeCeiling_frame [simp]:
  "hStart (noticeCeiling c t h) = hStart h" "limitW (noticeCeiling c t h) = limitW h"
  "riseW (noticeCeiling c t h) = riseW h" "lastW (noticeCeiling c t h) = lastW h"
  "lastAt (noticeCeiling c t h) = lastAt h" "hCeilingW (noticeCeiling c t h) = hCeilingW h"
  "changedAt (noticeCeiling c t h) = changedAt h" "cutAt (noticeCeiling c t h) = cutAt h"
  by (simp_all add: noticeCeiling_def Let_def)

lemma rollHour_same [simp]: "rollHour (hStart h) h = h"
  by (simp add: rollHour_def)

text \<open>The loop runs once while the interval stays inside the hour.\<close>

lemma hourLoop_done [simp]: "hourLoop zone c p w g t t h = h"
  by (simp add: hourLoop.simps)

lemma hourLoop_one_hour:
  assumes "t < to" "hStart h = importHourStart zone t" "to \<le> hStart h + hour"
  shows "hourLoop zone c p w g t to h = countHour c p w g t to h"
proof -
  have "(if to < hStart h + hour then to else hStart h + hour) = to" using assms(3) by simp
  then show ?thesis
    using assms(1) rollHour_same [of h]
    by (subst hourLoop.simps) (simp add: Let_def assms(2))
qed

subsection \<open>The budget\<close>

lemma hourRate_pos:
  "0 < c \<Longrightarrow> hourRate c h t =
     max 0 ((c * (1 - hours (unknown h)) - importedWh h) / hours (max second (tsub (hStart h + hour) t)))"
  by (simp add: hourRate_def)

lemma gap_lowers_rate:
  assumes "t < to" "hStart h \<le> t" "to \<le> hStart h + hour"
  shows "hourRate c (countHour c p w True t to h) to \<le> hourRate c h t"
proof (cases "0 < c")
  case True
  let ?e = "hStart h + hour" and ?R = "hourRate c h t" and ?h' = "countHour c p w True t to h"
  let ?L = "c * (1 - hours (unknown h)) - importedWh h"
  let ?left = "max second (?e - t)" and ?left' = "max second (?e - to)"
  have ex: "tsub ?e t = ?e - t" "tsub ?e to = ?e - to" "tsub to t = to - t"
    using assms by (simp_all add: tsub_within_hour)
  have "?R = max 0 (?L / hours ?left)" using True by (simp add: hourRate_pos ex)
  then have "?L / hours ?left \<le> ?R" by simp
  moreover have pos: "0 < hours (max second x)" for x
    by (rule hours_pos) (simp add: less_max_iff_disj)
  ultimately have L: "?L \<le> ?R * hours ?left" using pos_divide_le_eq by blast
  have g: "?R \<le> gapRate c p w True h t" by (simp add: gapRate_def)
  have d: "0 \<le> hours (to - t)" using assms(1) by simp
  have "c * (1 - hours (unknown ?h')) - importedWh ?h' = ?L - gapRate c p w True h t * hours (to - t)"
    by (simp add: countHour_def ex)
  also have "\<dots> \<le> ?R * hours ?left - ?R * hours (to - t)"
    using L mult_right_mono [OF g d] by linarith
  also have "\<dots> = ?R * hours (?left - (to - t))"
    using hours_add [of "?left - (to - t)" "to - t"] by (simp add: algebra_simps)
  also have "\<dots> \<le> ?R * hours ?left'"
    using assms(1) by (intro mult_left_mono hours_mono) auto
  finally have "(c * (1 - hours (unknown ?h')) - importedWh ?h') / hours ?left' \<le> ?R"
    using pos pos_divide_le_eq by blast
  then show ?thesis using True by (simp add: hourRate_pos ex)
qed (simp add: hourRate_def)

lemma hours_hour [simp]: "hours hour = 1"
  by (simp add: hours_def time_simps)

lemma budget_spent:
  assumes "0 < c" "hStart h \<le> t" "t + second \<le> hStart h + hour"
  shows "importedWh h + c * hours (unknown h) + hourRate c h t * hours (hStart h + hour - t)
    = max c (importedWh h + c * hours (unknown h))"
proof -
  let ?d = "hStart h + hour - t"
  have "second \<le> ?d" using assms(3) by simp
  then have "max second ?d = ?d" and d: "0 < hours ?d"
    using second_pos by (simp_all only: hours_pos_iff max_absorb2)
  moreover have "tsub (hStart h + hour) t = ?d"
    using assms second_pos by (intro tsub_within_hour) linarith+
  ultimately have "hourRate c h t = max 0 ((c * (1 - hours (unknown h)) - importedWh h) / hours ?d)"
    using assms(1) by (simp add: hourRate_pos)
  then have "hourRate c h t * hours ?d = max 0 (c * (1 - hours (unknown h)) - importedWh h)"
    using d by (simp add: max_def divide_le_0_iff zero_le_divide_iff)
  then show ?thesis by (simp add: max_def algebra_simps)
qed

subsection \<open>Limits\<close>

lemma floor_steps:
  assumes "0 < step" "r + 2 * step \<le> (R :: real)"
  shows "r + step * (of_int \<lfloor>(R - r) / step\<rfloor> - 1) + step \<le> R"
    "r + step \<le> r + step * (of_int \<lfloor>(R - r) / step\<rfloor> - 1)"
proof -
  let ?q = "of_int \<lfloor>(R - r) / step\<rfloor> :: real"
  have "step * ?q \<le> step * ((R - r) / step)" using assms(1) by (intro mult_left_mono) auto
  also have "step * ((R - r) / step) = R - r" using assms(1) by simp
  finally show "r + step * (?q - 1) + step \<le> R" by (simp add: right_diff_distrib)
  have "2 \<le> (R - r) / step" using assms by (simp add: le_divide_eq)
  then have "(2::int) \<le> \<lfloor>(R - r) / step\<rfloor>" by (simp add: le_floor_iff)
  then have "(2::real) \<le> ?q" by linarith
  then have "step * 1 \<le> step * (?q - 1)" using assms(1) by (intro mult_left_mono) auto
  then show "r + step \<le> r + step * (?q - 1)" by simp
qed

lemma riseSteps_frame [simp]:
  "limitW (riseSteps st R g t h) = limitW h" "importedWh (riseSteps st R g t h) = importedWh h"
  "unknown (riseSteps st R g t h) = unknown h" "lastW (riseSteps st R g t h) = lastW h"
  "hStart (riseSteps st R g t h) = hStart h" "lastAt (riseSteps st R g t h) = lastAt h"
  by (simp_all add: riseSteps_def Let_def)

lemma riseSteps_rise:
  assumes "riseW (riseSteps st R g t h) \<noteq> riseW h"
  shows "riseW (riseSteps st R g t h) + st \<le> R" "riseW h < riseW (riseSteps st R g t h)"
    "\<not> g" "importHourRiseGap \<le> tsub t (cutAt h)" "importHourRiseMinLeft \<le> tsub (hStart h + hour) t"
    "0 < st"
proof -
  have c: "\<not> (g \<or> \<not> st > 0 \<or> tsub t (cutAt h) < importHourRiseGap
      \<or> tsub (hStart h + hour) t < importHourRiseMinLeft \<or> R < riseW h + 2 * st)"
    (is "\<not> ?C")
  proof
    assume ?C
    then have "riseSteps st R g t h = h" unfolding riseSteps_def Let_def by (rule if_P)
    with assms show False by simp
  qed
  then show "\<not> g" "importHourRiseGap \<le> tsub t (cutAt h)"
    "importHourRiseMinLeft \<le> tsub (hStart h + hour) t" "0 < st" by auto
  have "0 < st" "riseW h + 2 * st \<le> R" using c by auto
  with floor_steps [OF this] c show "riseW (riseSteps st R g t h) + st \<le> R"
    "riseW h < riseW (riseSteps st R g t h)"
    by (simp_all add: riseSteps_def Let_def)
qed

lemma followRate_simps [simp]:
  "limitW (followRate R t h) = R" "riseW (followRate R t h) = min (riseW h) R"
  "importedWh (followRate R t h) = importedWh h" "unknown (followRate R t h) = unknown h"
  "lastW (followRate R t h) = lastW h" "hStart (followRate R t h) = hStart h"
  "lastAt (followRate R t h) = lastAt h"
  "cutAt (followRate R t h) = (if R < limitW h - 1 then t else cutAt h)"
  by (simp_all add: followRate_def Let_def)

subsection \<open>The invariant\<close>

definition hour_ok :: "hourImport \<Rightarrow> bool" where
  "hour_ok h = (0 \<le> importedWh h \<and> 0 \<le> unknown h \<and> 0 \<le> riseW h \<and> riseW h \<le> limitW h
     \<and> (\<forall>x. lastW h = Fin x \<longrightarrow> 0 \<le> x))"

lemma hour_ok_newHour [simp]: "hour_ok (newHour a b c) \<longleftrightarrow> (\<forall>x. c = Fin x \<longrightarrow> 0 \<le> x)"
  by (simp add: hour_ok_def)

lemma hour_ok_rollHour [simp]: "hour_ok h \<Longrightarrow> hour_ok (rollHour start h)"
  by (auto simp: rollHour_def hour_ok_def)

lemma rollHour_last [simp]:
  "lastAt (rollHour start h) = lastAt h" "lastW (rollHour start h) = lastW h"
  by (simp_all add: rollHour_def)

lemma countHour_ok:
  assumes "hour_ok h" "0 \<le> p" "0 \<le> w" "t \<le> e" "e \<le> t + hour"
  shows "hour_ok (countHour c p w g t e h)"
proof -
  have "0 \<le> gapRate c p w g h t" using assms(2,3) by (simp add: gapRate_def le_max_iff_disj)
  moreover have "0 \<le> hours (tsub e t)" using assms(4,5) by (simp add: tsub_within_hour)
  ultimately show ?thesis using assms(1) by (simp add: hour_ok_def countHour_def)
qed

lemma hourLoop_ok:
  "hour_ok h \<Longrightarrow> 0 \<le> p \<Longrightarrow> 0 \<le> w \<Longrightarrow> hour_ok (hourLoop zone c p w g t to h)"
proof (induction zone c p w g t to h rule: hourLoop.induct)
  case (1 zone c p w g t to h)
  show ?case
  proof (cases "t < to")
    case True
    let ?h = "rollHour (importHourStart zone t) h"
    let ?e = "if to < hStart ?h + hour then to else hStart ?h + hour"
    have e: "t \<le> ?e" "?e \<le> t + hour"
      using True importHourStart_gt [of t zone] importHourStart_le [of zone t] by auto
    have "hour_ok (countHour c p w g t ?e ?h)"
      using 1 e by (intro countHour_ok) simp_all
    from "1.IH" [OF True refl refl refl this] 1 show ?thesis
      using True by (subst hourLoop.simps) (simp add: Let_def)
  next
    case False
    then show ?thesis using 1 by (subst hourLoop.simps) simp
  qed
qed

lemma hourRate_max: "hourRate (if \<not> 0 < c then 0 else c) h t = hourRate c h t"
  by (simp add: hourRate_def)

lemma noticeCeiling_ok: "hour_ok h \<Longrightarrow> hStart h \<le> t \<Longrightarrow> hour_ok (noticeCeiling c t h)"
  by (auto simp: hour_ok_def noticeCeiling_def Let_def tsub_def minDuration_def maxDuration_def)

lemma riseSteps_ok:
  assumes "hour_ok h" "limitW h = R"
  shows "hour_ok (riseSteps st R g t h)"
proof (cases "riseW (riseSteps st R g t h) = riseW h")
  case True
  then show ?thesis using assms by (simp add: hour_ok_def)
next
  case False
  from riseSteps_rise [OF False] assms show ?thesis by (simp add: hour_ok_def)
qed

lemma followRate_ok: "hour_ok h \<Longrightarrow> 0 \<le> R \<Longrightarrow> hour_ok (followRate R t h)"
  by (simp add: hour_ok_def)

lemma stepLimits_ok:
  assumes "hour_ok h" "hStart h \<le> t"
  shows "hour_ok (stepLimits c st t g h)"
proof -
  let ?c = "if \<not> 0 < c then 0 else c" and ?h = "noticeCeiling (if \<not> 0 < c then 0 else c) t h"
  have ok: "hour_ok ?h" by (rule noticeCeiling_ok [OF assms])
  have 1: "hour_ok (?h\<lparr>hCeilingW := 0\<rparr>)" using ok by (simp add: hour_ok_def)
  have 2: "hour_ok (?h\<lparr>hCeilingW := ?c, limitW := R, riseW := min ?c R, changedAt := t, cutAt := zeroTime\<rparr>)"
    if "0 \<le> R" for R using ok that by (simp add: hour_ok_def)
  have 3: "hour_ok (riseSteps st R g t (followRate R t ?h))" if "0 \<le> R" for R
    using ok that by (intro riseSteps_ok followRate_ok) simp_all
  show ?thesis
    unfolding stepLimits_def Let_def using ok 1 2 [OF hourRate_nonneg] 3 [OF hourRate_nonneg]
    by (simp only: if_split) blast
qed

lemma addHourImport_ok:
  assumes "hour_ok (importHour s)" "0 \<le> w"
  shows "hour_ok (importHour (addHourImport t to w g s))"
    "hStart (importHour (addHourImport t to w g s)) = importHourStart (importHourZone s) to"
proof -
  let ?p = "if lastW (importHour s) = NaN then w else fval (lastW (importHour s))"
  have "0 \<le> ?p" using assms by (cases "lastW (importHour s)") (auto simp: hour_ok_def)
  with assms show "hour_ok (importHour (addHourImport t to w g s))"
    by (simp add: addHourImport_def Let_def hourLoop_ok)
  show "hStart (importHour (addHourImport t to w g s)) = importHourStart (importHourZone s) to"
    by (simp add: addHourImport_def Let_def)
qed

lemma addHourImport_frame [simp]:
  "importHourZone (addHourImport t to w g s) = importHourZone s"
  "PeakImportCeilingW (addHourImport t to w g s) = PeakImportCeilingW s"
  "SiteFuseVoltage (addHourImport t to w g s) = SiteFuseVoltage s"
  "SiteFusePhases (addHourImport t to w g s) = SiteFusePhases s"
  by (simp_all add: addHourImport_def Let_def)

lemma ObserveSiteImport_ok:
  assumes "hour_ok (importHour s)"
  shows "hour_ok (importHour (ObserveSiteImport store s))"
proof -
  obtain gridW t ok where m: "OnlineMeterW (SiteMeterDriver s) store = (gridW, t, ok)"
    by (cases "OnlineMeterW (SiteMeterDriver s) store") auto
  let ?w = "max 0 (fval gridW)" and ?start = "importHourStart (importHourZone s) t"
  let ?last = "\<lambda>h. h\<lparr>lastAt := t, lastW := Fin ?w\<rparr>"
  have last: "hour_ok (?last h)" "hStart (?last h) = hStart h" if "hour_ok h" for h
    using that by (simp_all add: hour_ok_def)
  have first: "hour_ok ((newHour ?start zeroTime (Fin 0))\<lparr>unknown := tsub t ?start\<rparr>)"
    using importHourStart_le [of "importHourZone s" t]
    by (simp add: hour_ok_def tsub_def minDuration_def maxDuration_def)
  have add: "hour_ok (importHour (addHourImport u t ?w g s))"
    "hStart (importHour (addHourImport u t ?w g s)) = ?start" for u g
    using addHourImport_ok [OF assms] by simp_all
  show ?thesis
    using assms importHourStart_le [of "importHourZone s" t] first add last
    by (auto simp: ObserveSiteImport_def m Let_def stepHourImportLimits_def intro!: stepLimits_ok)
qed

lemma SeedHourImport_ok: "hour_ok (importHour s) \<Longrightarrow> hour_ok (importHour (SeedHourImport t wh c s))"
  by (cases wh) (auto simp: SeedHourImport_def Let_def hour_ok_def)

text \<open>The hour as a machine: readings at moving clocks, a boot seed, a changed ceiling.\<close>

datatype hour_op = HObserve Store time | HSeed time f64 duration | HCeiling real

fun hour_step :: "State \<Rightarrow> hour_op \<Rightarrow> State" where
  "hour_step s (HObserve store now) = ObserveSiteImport store (s\<lparr>clock := now\<rparr>)"
| "hour_step s (HSeed t wh covered) = SeedHourImport t wh covered s"
| "hour_step s (HCeiling w) = s\<lparr>PeakImportCeilingW := w\<rparr>"

interpretation hour_machine: invariant_machine hour_step "\<lambda>s. hour_ok (importHour s)"
proof
  fix s :: State and e
  assume "hour_ok (importHour s)"
  then show "hour_ok (importHour (hour_step s e))"
    by (cases e) (simp_all add: ObserveSiteImport_ok SeedHourImport_ok)
qed

subsection \<open>Counting without a gap\<close>

text \<open>The reference for a zone whose offset does not change: only the part of the interval that
  lies in the clock hour of its end counts, on top of what that hour held before.\<close>

definition countedWh :: "int \<Rightarrow> real \<Rightarrow> time \<Rightarrow> time \<Rightarrow> hourImport \<Rightarrow> real" where
  "countedWh off meanW t to h =
     (let start = importHourStart (\<lambda>_. off)
      in if start to = start t then importedWh (rollHour (start t) h) + meanW * hours (to - t)
         else meanW * hours (to - start to))"

lemma hour_boundary: "importHourStart (\<lambda>_. off) (importHourStart (\<lambda>_. off) t + hour)
    = importHourStart (\<lambda>_. off) t + hour"
proof -
  let ?x = "t + off * second"
  have "(importHourStart (\<lambda>_. off) t + hour + off * second) = ?x - ?x mod hour + hour"
    by (simp add: importHourStart_def)
  also have "\<dots> mod hour = 0" by (simp add: minus_mod_eq_mult_div)
  finally show ?thesis by (simp add: importHourStart_def [of _ "importHourStart _ t + hour"])
qed

lemma importHourStart_in:
  assumes "importHourStart (\<lambda>_. off) t \<le> u" "u < importHourStart (\<lambda>_. off) t + hour"
  shows "importHourStart (\<lambda>_. off) u = importHourStart (\<lambda>_. off) t"
proof -
  let ?s = "importHourStart (\<lambda>_. off) t"
  have "(?s + off * second) mod hour = 0"
    by (simp add: importHourStart_def minus_mod_eq_mult_div algebra_simps)
  moreover have "u + off * second = (?s + off * second) + (u - ?s)" by simp
  moreover have "(u - ?s) mod hour = u - ?s" using assms by simp
  ultimately have "(u + off * second) mod hour = u - ?s"
    by (metis add.left_neutral mod_add_left_eq)
  then show ?thesis by (simp add: importHourStart_def [of _ u])
qed

lemma hourLoop_counts:
  "t \<le> to \<Longrightarrow> importedWh (rollHour (importHourStart (\<lambda>_. off) to)
       (hourLoop (\<lambda>_. off) c p w False t to h)) = countedWh off ((p + w) / 2) t to h"
proof (induction "\<lambda>_ :: time. off" c p w "False" t to h rule: hourLoop.induct)
  case (1 c p w t to h)
  let ?S = "importHourStart (\<lambda>_. off)"
  let ?h = "rollHour (?S t) h"
  show ?case
  proof (cases "t < to")
    case True
    show ?thesis
    proof (cases "to < ?S t + hour")
      case in_hour: True
      have same: "?S to = ?S t"
        using True in_hour importHourStart_le [of "\<lambda>_. off" t] by (intro importHourStart_in) linarith+
      have "hourLoop (\<lambda>_. off) c p w False t to h = countHour c p w False t to ?h"
        using True in_hour by (subst hourLoop.simps) (simp add: Let_def)
      moreover have "rollHour (?S t) (countHour c p w False t to ?h) = countHour c p w False t to ?h"
        by (simp add: rollHour_def countHour_def)
      moreover have "tsub to t = to - t"
        using True in_hour importHourStart_le [of "\<lambda>_. off" t] by (intro tsub_within_hour) linarith+
      ultimately show ?thesis
        by (simp add: same countedWh_def countHour_def gapRate_def)
    next
      case past: False
      let ?e = "?S t + hour"
      let ?k = "countHour c p w False t ?e ?h"
      have "?S to > to - hour" using importHourStart_gt [of to "\<lambda>_. off"] by simp
      then have ne: "?S to \<noteq> ?S t" using past by simp
      have "?S ?e \<noteq> hStart ?k" using hour_pos by (simp add: hour_boundary del: hour_pos)
      then have zero: "importedWh (rollHour (?S ?e) ?k) = 0" by (simp add: rollHour_def)
      have "importedWh (rollHour (?S to) (hourLoop (\<lambda>_. off) c p w False ?e to ?k))
          = countedWh off ((p + w) / 2) ?e to ?k"
        using "1.hyps" [OF True refl refl refl] past by (simp add: Let_def)
      also have "\<dots> = (p + w) / 2 * hours (to - ?S to)"
        using zero by (simp add: countedWh_def Let_def hour_boundary)
      also have "hourLoop (\<lambda>_. off) c p w False ?e to ?k = hourLoop (\<lambda>_. off) c p w False t to h"
        using True past by (subst (2) hourLoop.simps) (simp add: Let_def)
      finally show ?thesis using ne by (simp add: countedWh_def)
    qed
  next
    case False
    with 1 have "t = to" by simp
    then show ?thesis by (simp add: countedWh_def)
  qed
qed

lemma stepLimits_gap:
  assumes "0 < c" "hCeilingW h = c" "seenCeiling h = c"
  shows "limitW (stepLimits c st t True h) \<le> limitW h" "riseW (stepLimits c st t True h) \<le> riseW h"
    "hourRate c (stepLimits c st t True h) u = hourRate c h u"
proof -
  let ?n = "noticeCeiling c t h"
  have n: "?n = h\<lparr>seen := True, seenCeiling := c\<rparr>" by (simp add: noticeCeiling_def assms)
  have no_rise: "riseSteps st q True t x = x" for q x by (simp add: riseSteps_def Let_def)
  have eq: "stepLimits c st t True h =
      (if tsub t (changedAt h) < importHourChangeEvery \<or> hourRate c ?n t \<ge> limitW h then ?n
       else followRate (hourRate c ?n t) t ?n)"
    using assms by (simp add: stepLimits_def Let_def no_rise)
  show "limitW (stepLimits c st t True h) \<le> limitW h" "riseW (stepLimits c st t True h) \<le> riseW h"
    by (simp_all add: eq)
  show "hourRate c (stepLimits c st t True h) u = hourRate c h u"
    by (simp add: eq) (simp add: hourRate_def followRate_def n Let_def)
qed

section \<open>Properties\<close>

text \<open>C29: A gap in the meter's readings can never make room: when the site meter comes back after a
  gap inside the clock hour, with the ceiling unchanged, neither the import limit nor the level an
  increase may reach has risen, and the mean the rest of the hour may hold is no higher than when
  the gap began.\<close>

theorem gap_never_makes_room:
  assumes "OnlineMeterW (SiteMeterDriver s) store = (gridW, t, True)"
    "\<not> isZero (lastAt (importHour s))" "\<not> isZero t" "lastAt (importHour s) < t" "t \<le> clock s"
    "tsub t (lastAt (importHour s)) > evSettle"
    "importHourStart (importHourZone s) (lastAt (importHour s)) = hStart (importHour s)"
    "importHourStart (importHourZone s) t = hStart (importHour s)"
    "0 < PeakImportCeilingW s" "hCeilingW (importHour s) = PeakImportCeilingW s"
    "seenCeiling (importHour s) = PeakImportCeilingW s"
    "s' = ObserveSiteImport store s"
  shows "limitW (importHour s') \<le> limitW (importHour s) \<and> riseW (importHour s') \<le> riseW (importHour s)
    \<and> hourRateW t s' \<le> hourRateW (lastAt (importHour s)) s"
proof -
  let ?h = "importHour s" and ?c = "PeakImportCeilingW s" and ?w = "max 0 (fval gridW)"
  let ?p = "if lastW ?h = NaN then ?w else fval (lastW ?h)"
  let ?k = "countHour ?c ?p ?w True (lastAt ?h) t ?h"
  let ?l = "?k\<lparr>lastAt := t, lastW := Fin ?w\<rparr>"
  have e: "hStart ?h \<le> lastAt ?h" "t < hStart ?h + hour"
    using importHourStart_le [of "importHourZone s" "lastAt ?h"] importHourStart_gt [of t "importHourZone s"]
      assms(7,8) by simp_all
  then have "tsub t (lastAt ?h) = t - lastAt ?h" using assms(4) by (intro tsub_within_hour) linarith+
  then have not_long: "\<not> tsub t (lastAt ?h) > hour" using e by simp
  have loop: "hourLoop (importHourZone s) ?c ?p ?w True (lastAt ?h) t ?h = ?k"
    using assms(4,7) e by (intro hourLoop_one_hour) simp_all
  have roll: "rollHour (importHourStart (importHourZone s) t) ?k = ?k"
    using rollHour_same [of ?k] by (simp add: assms(8))
  have s': "importHour s' = stepLimits ?c (importStepW s) t True ?l"
    using assms(1-6) not_long loop roll
    by (simp add: assms(12) ObserveSiteImport_def stepHourImportLimits_def addHourImport_def Let_def
        importStepW_def)
  have peak: "PeakImportCeilingW s' = ?c"
    by (simp add: assms(12) ObserveSiteImport_def stepHourImportLimits_def addHourImport_def Let_def
        case_prod_beta)
  have l: "hCeilingW ?l = ?c" "seenCeiling ?l = ?c" "limitW ?l = limitW ?h" "riseW ?l = riseW ?h"
    using assms(10,11) by simp_all
  have "hourRate ?c ?l t = hourRate ?c ?k t" by (simp add: hourRate_def)
  also have "\<dots> \<le> hourRate ?c ?h (lastAt ?h)"
    using e by (intro gap_lowers_rate [OF assms(4)]) simp_all
  finally show ?thesis
    using stepLimits_gap(1,2) [OF assms(9) l(1,2), where st = "importStepW s" and t = t]
      stepLimits_gap(3) [OF assms(9) l(1,2), where st = "importStepW s" and t = t and u = t]
    by (simp only: hourRateW_def peak s' l)
qed


text \<open>A site meter at 1 kW, last read at 12:10:00 UTC and again at 12:12:00, under a ceiling of 4 kW.\<close>

definition gapMeter :: "real \<Rightarrow> time \<Rightarrow> Store" where
  "gapMeter w t = (NewStore 0)\<lparr>
     readings := [(key ''m'' DerMeter, \<lparr>rDriver = ''m'', rDerType = DerMeter, RawW = Fin w,
        SmoothedW = Fin w, SoC = None, SoCUpdatedAt = zeroTime, Data = Empty, UpdatedAt = t\<rparr>)],
     health := [(''m'', RecordSuccess t (newHealth ''m'' 0))]\<rparr>"

definition gapState :: State where
  "gapState = (NewState 0 50 ''m'' (\<lambda>_. 0) (720 * second))\<lparr>PeakImportCeilingW := 4000,
     importHour := (newHour 0 (600 * second) (Fin 1000))\<lparr>importedWh := 500, hCeilingW := 4000,
        limitW := 4100, riseW := 4000, changedAt := 600 * second, seen := True, seenCeiling := 4000\<rparr>\<rparr>"

lemma gapMeter_online: "OnlineMeterW ''m'' (gapMeter w t) = (Fin w, t, True)"
  by (simp add: OnlineMeterW_def OnlineRawW_def gapMeter_def RecordSuccess_def newHealth_def
      TelemetryLive_def key_def)

theorem gap_never_makes_room_witness:
  "limitW (importHour (ObserveSiteImport (gapMeter 1000 (720 * second)) gapState)) \<le> 4100"
proof -
  have h: "SiteMeterDriver gapState = ''m''" "importHourZone gapState = (\<lambda>_. 0)"
    "lastAt (importHour gapState) = 600 * second" "hStart (importHour gapState) = 0"
    "clock gapState = 720 * second" "PeakImportCeilingW gapState = 4000"
    "hCeilingW (importHour gapState) = 4000" "seenCeiling (importHour gapState) = 4000"
    "limitW (importHour gapState) = 4100"
    by (simp_all add: gapState_def NewState_def)
  have "OnlineMeterW (SiteMeterDriver gapState) (gapMeter 1000 (720 * second))
      = (Fin 1000, 720 * second, True)" by (simp add: h gapMeter_online)
  from gap_never_makes_room [OF this _ _ _ _ _ _ _ _ _ _ refl] show ?thesis
    by (simp add: h isZero_def zeroTime_def importHourStart_def evSettle_def time_simps tsub_def
        minDuration_def maxDuration_def)
qed

text \<open>The import limit is the hour's budget, no more and no less: whatever the hour has imported
  so far, holding the mean \<open>hourRateW\<close> for the rest of the hour (with at least a second to go) makes
  the hour end exactly at the ceiling, time without a record counted at the ceiling; an hour that
  has already overrun may import nothing more.\<close>

theorem hour_rate_spends_budget:
  assumes "0 < PeakImportCeilingW s" "hStart (importHour s) \<le> t"
    "t + second \<le> hStart (importHour s) + hour"
  shows "importedWh (importHour s) + PeakImportCeilingW s * hours (unknown (importHour s))
      + hourRateW t s * hours (hStart (importHour s) + hour - t)
    = max (PeakImportCeilingW s)
        (importedWh (importHour s) + PeakImportCeilingW s * hours (unknown (importHour s)))"
  using budget_spent [OF assms] by (simp add: hourRateW_def)

theorem hour_rate_spends_budget_witness:
  "importedWh (importHour gapState) + 4000 * hours (unknown (importHour gapState))
     + hourRateW (1800 * second) gapState * hours (3600 * second - 1800 * second) = 4000"
  using hour_rate_spends_budget [of gapState "1800 * second"]
  by (simp add: gapState_def NewState_def time_simps)

text \<open>An increase keeps a step in hand: when the level an increase may reach rises inside an
  hour, it stays at least one charger step under the import limit, no gap was just bridged, the
  last cut is at least five minutes old and at least a quarter of an hour is left.\<close>

theorem rise_keeps_step_in_hand:
  assumes "0 < PeakImportCeilingW s" "hCeilingW (importHour s) = PeakImportCeilingW s"
    "riseW (importHour s) < riseW (importHour (stepHourImportLimits t gap s))"
  shows "riseW (importHour (stepHourImportLimits t gap s)) + importStepW s
       \<le> limitW (importHour (stepHourImportLimits t gap s))
    \<and> \<not> gap \<and> 5 * minute \<le> tsub t (cutAt (importHour s))
    \<and> 15 * minute \<le> tsub (hStart (importHour s) + hour) t"
proof -
  let ?c = "PeakImportCeilingW s" and ?n = "noticeCeiling (PeakImportCeilingW s) t (importHour s)"
  let ?R = "hourRate ?c ?n t"
  let ?f = "followRate ?R t ?n"
  let ?r = "riseSteps (importStepW s) ?R gap t ?f"
  have "importHour (stepHourImportLimits t gap s) = ?n \<or> importHour (stepHourImportLimits t gap s) = ?r"
    using assms(1,2) by (simp add: stepHourImportLimits_def stepLimits_def Let_def)
  moreover have "riseW ?n = riseW (importHour s)" by simp
  ultimately have r: "importHour (stepHourImportLimits t gap s) = ?r" using assms(3) by auto
  have "riseW ?r \<noteq> riseW ?f" using assms(3) by (auto simp: r min_def split: if_splits)
  note rs = riseSteps_rise [OF this]
  have cut: "\<not> ?R < limitW (importHour s) - 1"
    using rs(4) by (auto simp: importHourRiseGap_def time_simps)
  show ?thesis
    unfolding r using rs cut by (simp add: importHourRiseGap_def importHourRiseMinLeft_def)
qed

text \<open>The state of the witness: 25 A, three phases, a limit that has just grown by 3 kW.\<close>

definition riseState :: State where
  "riseState = gapState\<lparr>SiteFuseVoltage := 230, SiteFusePhases := 3,
     importHour := (importHour gapState)\<lparr>importedWh := 0, limitW := 1000, riseW := 1000,
       cutAt := zeroTime\<rparr>\<rparr>"

theorem rise_keeps_step_in_hand_witness:
  "riseW (importHour (stepHourImportLimits (1800 * second) False riseState)) + 690
     \<le> limitW (importHour (stepHourImportLimits (1800 * second) False riseState))"
proof -
  let ?s = "stepHourImportLimits (1800 * second) False riseState"
  have f: "\<lfloor>(7000 :: real) / 690\<rfloor> = 10" by (simp add: floor_eq_iff)
  have rate: "hourRate 4000 (noticeCeiling 4000 (1800 * second) (importHour riseState)) (1800 * second) = 8000"
    by (simp add: hourRate_def noticeCeiling_def Let_def riseState_def gapState_def NewState_def
        newHour_def tsub_def minDuration_def maxDuration_def hours_def time_simps)
  have "riseW (importHour ?s) = 1000 + 690 * 9"
    using rate f
    by (simp add: stepHourImportLimits_def stepLimits_def Let_def riseSteps_def hour_consts
        importStepW_def)
       (simp add: riseState_def gapState_def NewState_def newHour_def tsub_def minDuration_def
        maxDuration_def zeroTime_def noticeCeiling_def followRate_def Let_def time_simps)
  then show ?thesis
    using rise_keeps_step_in_hand [of riseState "1800 * second" False]
    by (simp add: riseState_def gapState_def NewState_def importStepW_def evStepA_def)
qed


text \<open>Between two readings without a gap the hour is charged exactly the mean of the two powers
  for the time that falls in it: the reading may stay in the hour or cross into a later one, in
  which case the new hour starts from nothing and gets its own part only.\<close>

theorem import_counted_exactly:
  assumes "importHourZone s = (\<lambda>_. off)" "t \<le> to" "lastW (importHour s) = Fin v"
    "hStart (importHour s) = importHourStart (\<lambda>_. off) t"
  shows "hStart (importHour (addHourImport t to w False s)) = importHourStart (\<lambda>_. off) to
    \<and> importedWh (importHour (addHourImport t to w False s)) =
     (if importHourStart (\<lambda>_. off) to = hStart (importHour s)
      then importedWh (importHour s) + (v + w) / 2 * hours (to - t)
      else (v + w) / 2 * hours (to - importHourStart (\<lambda>_. off) to))"
proof -
  have "rollHour (importHourStart (\<lambda>_. off) t) (importHour s) = importHour s"
    using rollHour_same [of "importHour s"] by (simp add: assms(4))
  with hourLoop_counts [OF assms(2), where off = off and h = "importHour s" and p = v and w = w]
  show ?thesis by (simp add: addHourImport_def assms countedWh_def)
qed

theorem import_counted_exactly_witness:
  "importedWh (importHour (addHourImport (600 * second) (3900 * second) 3000 False gapState))
    = 2000 * hours (300 * second)"
  using import_counted_exactly [of gapState 0 "600 * second" "3900 * second" 1000 3000]
  by (simp add: gapState_def NewState_def importHourStart_def time_simps)

text \<open>The ceilings stay in order whatever the meter, a boot seed or a changed setting do to the
  hour: an increase may never reach above the import limit in force, the import limit never exceeds
  the fuse less its margin, and neither is negative.\<close>

theorem import_ceilings_ordered:
  assumes "s = foldl hour_step (NewState g tol m zone now) ops"
  shows "0 \<le> importRiseCeilingW fuseMaxW s
    \<and> importRiseCeilingW fuseMaxW s \<le> effectiveImportCeilingW fuseMaxW s
    \<and> effectiveImportCeilingW fuseMaxW s \<le> max 0 (fuseMaxW - fuseSafetyMarginW s)"
proof -
  have "hour_ok (importHour (NewState g tol m zone now))" by (simp add: NewState_def)
  from hour_machine.inv_run [OF this, of ops] have "hour_ok (importHour s)" by (simp only: assms)
  then show ?thesis
    by (auto simp: importRiseCeilingW_def effectiveImportCeilingW_def importHourLimitsW_def hour_ok_def
        Let_def split: option.split)
qed

theorem import_ceilings_ordered_witness:
  "importRiseCeilingW 17250 (foldl hour_step (NewState 0 50 ''m'' (\<lambda>_. 0) 0) [HCeiling 4000, HSeed 9 (Fin 100) 3])
    \<le> effectiveImportCeilingW 17250
        (foldl hour_step (NewState 0 50 ''m'' (\<lambda>_. 0) 0) [HCeiling 4000, HSeed 9 (Fin 100) 3])"
  using import_ceilings_ordered [OF refl] by blast

end
