(* ===== verification/Fuse_Heat.thy ===== *)
theory Fuse_Heat
  imports Import_Hour
begin

text \<open>
  The main fuse, phase by phase: reading signed phase currents from the site meter and the heat
  model of the fuse (\<open>fuse_heat.go\<close>), and the import ceiling that keeps the worst phase inside
  its working line (\<open>fuse_phase.go\<close>).

  The heat model is a first-order low-pass on the squared current of each phase. Its three-element
  arrays are lists of length three. A meter value that has passed \<open>finiteFuseValue\<close> is a real
  number; \<open>fval\<close> is applied behind that test only.
\<close>

section \<open>The heat model\<close>

definition fuseHeatTau :: duration where "fuseHeatTau = 60 * second"
definition fuseInstantFactor :: real where "fuseInstantFactor = 12 / 10"

text \<open>\<open>[3]float64{}\<close> overwritten by \<open>copy\<close>.\<close>

definition pad3 :: "real list \<Rightarrow> real list" where
  "pad3 xs = take 3 (xs @ [0, 0, 0])"

definition heatGain :: "duration \<Rightarrow> real" where
  "heatGain dt = 1 - exp (- seconds dt / seconds fuseHeatTau)"

definition heatStep :: "time \<Rightarrow> real list \<Rightarrow> fuseHeat \<Rightarrow> fuseHeat" where
  "heatStep t amps h =
     (if \<not> heatSet h
      then \<lparr>heatSet = True, heatAt = t, heatAmps = pad3 amps,
            heatSq = take 3 (map (\<lambda>a. a * a) amps @ drop (length amps) (heatSq h))\<rparr>
      else let dt = tsub t (heatAt h)
           in if dt \<le> 0 then h
              else \<lparr>heatSet = True, heatAt = t, heatAmps = pad3 amps,
                    heatSq = map2 (\<lambda>a sq. sq + (a * a - sq) * heatGain dt) (heatAmps h) (heatSq h)\<rparr>)"

definition heatStart :: "time \<Rightarrow> real list \<Rightarrow> real \<Rightarrow> fuseHeat \<Rightarrow> fuseHeat" where
  "heatStart t amps lineA h =
     (let h = heatStep t amps h in h\<lparr>heatSq := map (\<lambda>sq. min sq (lineA * lineA)) (heatSq h)\<rparr>)"

fun overPhase :: "real \<Rightarrow> real \<Rightarrow> real \<Rightarrow> real \<times> real \<Rightarrow> real" where
  "overPhase limitA instantA over (a, sq) =
     (if sq > limitA * limitA \<or> a > instantA then max over (a - limitA) else over)"

definition overA :: "real list \<Rightarrow> real \<Rightarrow> real \<Rightarrow> fuseHeat \<Rightarrow> real" where
  "overA amps limitA instantA h = foldl (overPhase limitA instantA) 0 (zip amps (heatSq h))"

definition levelA :: "real list \<Rightarrow> real list \<Rightarrow> fuseHeat \<Rightarrow> f64" where
  "levelA amps pendingA h =
     foldl (\<lambda>level (a, sq, p).
         let a = (if a \<ge> 0 then max a (sqrt sq) else a) in f64_max level (Fin (a + p)))
       NInf (zip amps (zip (heatSq h) pendingA))"

definition startLevelA :: "real list \<Rightarrow> real list \<Rightarrow> real \<Rightarrow> fuseHeat \<Rightarrow> f64" where
  "startLevelA amps pendingA limitA h =
     foldl (\<lambda>level (a, sq, p).
         let a = (if a \<ge> 0 \<and> sq > limitA * limitA then max a (sqrt sq) else a)
         in f64_max level (Fin (a + p)))
       NInf (zip amps (zip (heatSq h) pendingA))"

definition worstA :: "fuseHeat \<Rightarrow> real" where
  "worstA h = sqrt (max (max (heatSq h ! 0) (heatSq h ! 1)) (heatSq h ! 2))"

section \<open>Phase currents\<close>

definition finiteFuseValue :: "f64 \<Rightarrow> bool" where
  "finiteFuseValue w = isFinite w"

definition exportSignMinW :: real where "exportSignMinW = 25"

text \<open>The loop of \<open>phasePowersAddUp\<close> returns the two sums, or nothing when a power is missing.\<close>

fun phaseSums :: "f64 option list \<Rightarrow> real \<Rightarrow> real \<Rightarrow> (real \<times> real) option" where
  "phaseSums [] tot mag = Some (tot, mag)"
| "phaseSums (w # ws) tot mag =
     (case w of
        None \<Rightarrow> None
      | Some v \<Rightarrow> if \<not> finiteFuseValue v then None
                  else phaseSums ws (tot + fval v) (mag + \<bar>fval v\<bar>))"

definition phasePowersAddUp :: "f64 option list \<Rightarrow> f64 \<Rightarrow> bool" where
  "phasePowersAddUp powers totalW =
     (case phaseSums powers 0 0 of
        None \<Rightarrow> False
      | Some (tot, mag) \<Rightarrow> finiteFuseValue totalW \<and> \<bar>tot - fval totalW\<bar> \<le> max 250 (mag / 10))"

text \<open>The loop of \<open>phaseCurrentsA\<close> over current and power of each phase.\<close>

fun signPhases :: "real \<Rightarrow> bool \<Rightarrow> (f64 option \<times> f64 option) list \<Rightarrow> real list option" where
  "signPhases volt signs [] = Some []"
| "signPhases volt signs ((a, w) # ps) =
     (case a of
        None \<Rightarrow> None
      | Some v \<Rightarrow>
          if \<not> finiteFuseValue v then None
          else let mag = \<bar>fval v\<bar>;
                   signed = (if signs \<and> (case w of None \<Rightarrow> False
                               | Some x \<Rightarrow> x < Fin (- max exportSignMinW (mag * volt / 4)))
                             then - mag else mag)
               in map_option (Cons signed) (signPhases volt signs ps))"

definition phaseDocBad :: "der_doc \<Rightarrow> bool" where
  "phaseDocBad d = (jbad (l1_a d) \<or> jbad (l2_a d) \<or> jbad (l3_a d)
     \<or> jbad (l1_w d) \<or> jbad (l2_w d) \<or> jbad (l3_w d))"

definition docAmps :: "der_doc \<Rightarrow> f64 option list" where
  "docAmps d = [jptr (l1_a d), jptr (l2_a d), jptr (l3_a d)]"

definition docPowers :: "der_doc \<Rightarrow> f64 option list" where
  "docPowers d = [jptr (l1_w d), jptr (l2_w d), jptr (l3_w d)]"

definition phaseCurrentsA :: "DerReading \<Rightarrow> State \<Rightarrow> f64 \<Rightarrow> real list \<times> bool \<times> bool" where
  "phaseCurrentsA meter state totalW =
     (case Data meter of
        Doc d \<Rightarrow>
          if phaseDocBad d \<or> list_all (\<lambda>p. p = None) (docAmps d) then ([], False, False)
          else if \<not> finiteFuseValue (Fin (SiteFuseAmps state))
               \<or> \<not> finiteFuseValue (Fin (SiteFuseVoltage state))
               \<or> SiteFuseAmps state \<le> 0 \<or> SiteFuseVoltage state \<le> 0
               \<or> SiteFusePhases state < 1 \<or> SiteFusePhases state > 3
          then ([], True, False)
          else let n = nat (SiteFusePhases state);
                   powers = take n (docPowers d);
                   signs = phasePowersAddUp powers totalW
               in case signPhases (SiteFuseVoltage state) signs (zip (take n (docAmps d)) powers) of
                    None \<Rightarrow> ([], True, False)
                  | Some amps \<Rightarrow> (amps, True, True)
      | _ \<Rightarrow> ([], False, False))"

definition stepFuseHeat :: "DerReading \<Rightarrow> f64 \<Rightarrow> State \<Rightarrow> State" where
  "stepFuseHeat meter totalW s =
     (if heatSet (fuseHeat s) \<and> \<not> UpdatedAt meter > heatAt (fuseHeat s) then s
      else case phaseCurrentsA meter s totalW of (amps, _, valid) \<Rightarrow>
        if \<not> valid then s
        else if \<not> heatSet (fuseHeat s)
        then s\<lparr>fuseHeat := heatStart (UpdatedAt meter) amps (fuseLineA s) (fuseHeat s)\<rparr>
        else s\<lparr>fuseHeat := heatStep (UpdatedAt meter) amps (fuseHeat s)\<rparr>)"

definition SitePhases :: "Store \<Rightarrow> State \<Rightarrow> (real list \<times> time) option" where
  "SitePhases store state =
     (if SiteFusePhases state \<noteq> 3 then None
      else let meter = Get (SiteMeterDriver state) DerMeter store;
               (totalW, t, online) = OnlineMeterW (SiteMeterDriver state) store
           in case meter of
                None \<Rightarrow> None
              | Some r \<Rightarrow>
                  if \<not> online \<or> t \<noteq> UpdatedAt r then None
                  else case phaseCurrentsA r state totalW of (amps, _, valid) \<Rightarrow>
                    if \<not> valid \<or> length amps \<noteq> 3 then None else Some (amps, UpdatedAt r))"

section \<open>Imbalance and the phase ceiling\<close>

fun worstPhase :: "f64 option list \<Rightarrow> real \<Rightarrow> real option" where
  "worstPhase [] worst = Some worst"
| "worstPhase (p # ps) worst =
     (case p of
        None \<Rightarrow> None
      | Some v \<Rightarrow> if \<not> isFinite v then None else worstPhase ps (max worst \<bar>fval v\<bar>))"

definition phaseImbalanceA :: "DerReading option \<Rightarrow> State \<Rightarrow> real option" where
  "phaseImbalanceA r state =
     (if SiteFuseAmps state \<le> 0 \<or> SiteFuseVoltage state \<le> 0 \<or> SiteFusePhases state \<le> 1 then None
      else case r of
        None \<Rightarrow> None
      | Some m \<Rightarrow>
          (case Data m of
             Doc d \<Rightarrow>
               if jbad (l1_a d) \<or> jbad (l2_a d) \<or> jbad (l3_a d) then None
               else let phases = min (SiteFusePhases state) 3
                    in case worstPhase (take (nat phases) (docAmps d)) 0 of
                         None \<Rightarrow> None
                       | Some worst \<Rightarrow>
                           if \<not> isFinite (RawW m) then None
                           else let mean = \<bar>fval (RawW m)\<bar> / (SiteFuseVoltage state * of_int phases)
                                in Some (max 0 (worst - mean))
           | _ \<Rightarrow> None))"

definition phaseImportCeilingW :: "real \<Rightarrow> DerReading option \<Rightarrow> State \<Rightarrow> real" where
  "phaseImportCeilingW fuseMaxW meter s =
     (let ceilingW = effectiveImportCeilingW fuseMaxW s
      in case phaseImbalanceA meter s of
           None \<Rightarrow> ceilingW
         | Some imbalanceA \<Rightarrow>
             if imbalanceA \<le> 0 then ceilingW
             else let phaseBudget = fuseMaxW - fuseSafetyMarginW s
                        - imbalanceA * SiteFuseVoltage s * of_int (SiteFusePhases s)
                  in max 0 (min ceilingW phaseBudget))"

definition PhaseImbalanceW :: "Store \<Rightarrow> State \<Rightarrow> duration \<Rightarrow> time \<Rightarrow> real" where
  "PhaseImbalanceW store state maxAge now =
     (if SiteMeterDriver state = [] then 0
      else case Get (SiteMeterDriver state) DerMeter store of
        None \<Rightarrow> 0
      | Some r \<Rightarrow>
          if tsub now (UpdatedAt r) > maxAge then 0
          else case phaseImbalanceA (Some r) state of
                 None \<Rightarrow> 0
               | Some a \<Rightarrow> a * SiteFuseVoltage state * of_int (SiteFusePhases state))"

section \<open>Lemmas\<close>

lemma length_pad3 [simp]: "length (pad3 xs) = 3"
  by (simp add: pad3_def)

lemma set_pad3: "set (pad3 xs) \<subseteq> insert 0 (set xs)"
  by (auto simp: pad3_def dest: in_set_takeD)

lemma seconds_pos [simp]: "0 < d \<Longrightarrow> 0 < seconds d"
  by (simp add: seconds_def)

lemma heatGain_bounds: "0 < dt \<Longrightarrow> 0 < heatGain dt" "heatGain dt < 1"
  by (simp_all add: heatGain_def fuseHeatTau_def time_simps seconds_def)

text \<open>Two intervals at one current are one interval.\<close>

lemma heatGain_compose: "1 - heatGain (a + b) = (1 - heatGain a) * (1 - heatGain b)"
proof -
  have "- seconds (a + b) / seconds fuseHeatTau
      = - seconds a / seconds fuseHeatTau + - seconds b / seconds fuseHeatTau"
    by (simp add: seconds_def add_divide_distrib diff_divide_distrib)
  then show ?thesis by (simp only: heatGain_def exp_add) simp
qed

lemma heat_mix:
  "sq + (c - sq) * heatGain (a + b) = (sq + (c - sq) * heatGain a) + (c - (sq + (c - sq) * heatGain a)) * heatGain b"
proof -
  have "heatGain (a + b) = heatGain a + heatGain b - heatGain a * heatGain b"
    using heatGain_compose [of a b] by (simp add: algebra_simps)
  then show ?thesis by (simp only:) (simp add: algebra_simps)
qed

lemma heat_between:
  assumes "0 \<le> k" "k \<le> 1" "lo \<le> x" "x \<le> hi" "lo \<le> y" "y \<le> hi"
  shows "lo \<le> x + (y - x) * k" "x + (y - x) * k \<le> (hi :: real)"
proof -
  have eq: "x + (y - x) * k = (1 - k) * x + k * y" by (simp add: algebra_simps)
  have "(1 - k) * lo + k * lo \<le> (1 - k) * x + k * y"
    using assms by (intro add_mono mult_left_mono) simp_all
  then show "lo \<le> x + (y - x) * k" by (simp add: eq algebra_simps)
  have "(1 - k) * x + k * y \<le> (1 - k) * hi + k * hi"
    using assms by (intro add_mono mult_left_mono) simp_all
  then show "x + (y - x) * k \<le> hi" by (simp add: eq algebra_simps)
qed

text \<open>The range of the model: three phases, filtered squares within those of the currents seen.\<close>

definition heat_ok :: "real \<Rightarrow> fuseHeat \<Rightarrow> bool" where
  "heat_ok M h = (length (heatAmps h) = 3 \<and> length (heatSq h) = 3
     \<and> (\<forall>a \<in> set (heatAmps h). \<bar>a\<bar> \<le> M) \<and> (\<forall>sq \<in> set (heatSq h). 0 \<le> sq \<and> sq \<le> M * M))"

lemma sq_le: "\<bar>a\<bar> \<le> M \<Longrightarrow> a * a \<le> M * (M :: real)"
  using abs_le_square_iff [of a M] by (auto simp: power2_eq_square)

lemma pad3_le: "0 \<le> M \<Longrightarrow> \<forall>a \<in> set amps. \<bar>a\<bar> \<le> M \<Longrightarrow> \<forall>a \<in> set (pad3 amps). \<bar>a\<bar> \<le> M"
  using set_pad3 [of amps] by fastforce

lemma heatStep_ok:
  assumes "heat_ok M h" "0 \<le> M" "\<forall>a \<in> set amps. \<bar>a\<bar> \<le> M"
  shows "heat_ok M (heatStep t amps h)"
proof (cases "heatSet h")
  case True
  let ?dt = "tsub t (heatAt h)"
  have "0 \<le> sq + (a * a - sq) * heatGain ?dt \<and> sq + (a * a - sq) * heatGain ?dt \<le> M * M"
    if "0 < ?dt" "(a, sq) \<in> set (zip (heatAmps h) (heatSq h))" for a sq
  proof -
    have "\<bar>a\<bar> \<le> M" "0 \<le> sq" "sq \<le> M * M"
      using assms(1) set_zip_leftD [OF that(2)] set_zip_rightD [OF that(2)] by (auto simp: heat_ok_def)
    with heat_between [of "heatGain ?dt" 0 sq "M * M" "a * a"] heatGain_bounds(1) [OF that(1)]
      heatGain_bounds(2) [of ?dt] sq_le [of a M]
    show ?thesis by simp
  qed
  then show ?thesis
    using True assms pad3_le [OF assms(2,3)] by (auto simp: heatStep_def heat_ok_def Let_def)
next
  case False
  have "\<forall>sq \<in> set (map (\<lambda>a. a * a) amps @ drop (length amps) (heatSq h)). 0 \<le> sq \<and> sq \<le> M * M"
    using assms by (auto simp: heat_ok_def sq_le dest: in_set_dropD)
  then have "\<forall>sq \<in> set (take 3 (map (\<lambda>a. a * a) amps @ drop (length amps) (heatSq h))). 0 \<le> sq \<and> sq \<le> M * M"
    by (auto dest: in_set_takeD)
  then show ?thesis
    using False assms pad3_le [OF assms(2,3)] by (simp add: heatStep_def heat_ok_def)
qed

lemma heatStart_ok:
  "heat_ok M h \<Longrightarrow> 0 \<le> M \<Longrightarrow> \<forall>a \<in> set amps. \<bar>a\<bar> \<le> M \<Longrightarrow> heat_ok M (heatStart t amps lineA h)"
  using heatStep_ok [of M h amps t] by (auto simp: heatStart_def heat_ok_def Let_def min.coboundedI1)

text \<open>A run of the model over the meter's readings, as \<open>stepFuseHeat\<close> drives it.\<close>

fun heatRead :: "real \<Rightarrow> fuseHeat \<Rightarrow> time \<times> real list \<Rightarrow> fuseHeat" where
  "heatRead lineA h (t, amps) = (if heatSet h then heatStep t amps h else heatStart t amps lineA h)"

lemma heat_ok_cold: "0 \<le> M \<Longrightarrow> heat_ok M coldFuse"
  by (simp add: heat_ok_def coldFuse_def)

lemma heat_ok_run:
  assumes "0 \<le> M" "\<forall>(t, amps) \<in> set rs. \<forall>a \<in> set amps. \<bar>a\<bar> \<le> M" "heat_ok M h"
  shows "heat_ok M (foldl (heatRead lineA) h rs)"
  using assms(2,3)
proof (induction rs arbitrary: h)
  case (Cons r rs)
  obtain t amps where r: "r = (t, amps)" by force
  have "heat_ok M (heatRead lineA h r)"
    using Cons.prems assms(1) by (simp add: r heatStep_ok heatStart_ok)
  then show ?case using Cons by simp
qed simp

lemma overA_fold_ge: "over \<le> foldl (overPhase l I) over ps"
proof (induction ps arbitrary: over)
  case (Cons p ps)
  show ?case using Cons.IH [of "max over (fst p - l)"] Cons.IH [of over] by (cases p) auto
qed simp

lemma overA_fold_mem:
  assumes "(a, sq) \<in> set ps" "sq > l * l \<or> a > I"
  shows "a - l \<le> foldl (overPhase l I) over ps"
  using assms
proof (induction ps arbitrary: over)
  case (Cons p ps)
  show ?case
  proof (cases "p = (a, sq)")
    case True
    then show ?thesis
      using Cons.prems(2) overA_fold_ge [of "max over (a - l)" l I ps] by auto
  next
    case False
    then show ?thesis using Cons by auto
  qed
qed simp

lemma overA_fold_zero:
  "\<forall>(a, sq) \<in> set ps. a \<le> l \<or> (sq \<le> l * l \<and> a \<le> I) \<Longrightarrow> foldl (overPhase l I) 0 ps = 0"
proof (induction ps)
  case (Cons p ps)
  obtain a sq where p: "p = (a, sq)" by force
  have "overPhase l I 0 p = 0" using Cons.prems by (auto simp: p max_def)
  then show ?case using Cons by simp
qed simp

lemma heatStep_sq_of_held: "heatSet h \<Longrightarrow> heatSq (heatStep t amps h) = heatSq (heatStep t [] h)"
  by (simp add: heatStep_def Let_def)

lemma heatStart_sq: "\<forall>sq \<in> set (heatSq (heatStart t amps lineA h)). sq \<le> lineA * lineA"
  by (auto simp: heatStart_def Let_def)

lemma heatRead_sq_le:
  assumes "heat_ok lineA h" "0 \<le> lineA"
  shows "\<forall>sq \<in> set (heatSq (heatRead lineA h (t, amps))). sq \<le> lineA * lineA"
proof (cases "heatSet h")
  case True
  have "heat_ok lineA (heatStep t [] h)" using assms by (intro heatStep_ok) simp_all
  then show ?thesis using True heatStep_sq_of_held [OF True, of t amps] by (simp add: heat_ok_def)
qed (simp add: heatStart_sq)

lemma signPhases_spec:
  "signPhases volt signs ps = Some amps \<Longrightarrow>
     length amps = length ps \<and> (\<forall>i < length ps. \<exists>v. fst (ps ! i) = Some (Fin v) \<and> \<bar>amps ! i\<bar> = \<bar>v\<bar>
       \<and> (amps ! i < 0 \<longrightarrow> signs \<and> (\<exists>x. snd (ps ! i) = Some x
            \<and> x < Fin (- max exportSignMinW (\<bar>v\<bar> * volt / 4)))))"
proof (induction volt signs ps arbitrary: amps rule: signPhases.induct)
  case (2 volt signs a w ps)
  then obtain v where v: "a = Some (Fin v)"
    by (cases a) (auto simp: finiteFuseValue_def isFinite_iff split: if_splits)
  let ?neg = "signs \<and> (case w of None \<Rightarrow> False
      | Some x \<Rightarrow> x < Fin (- max exportSignMinW (\<bar>v\<bar> * volt / 4)))"
  obtain bs where bs: "signPhases volt signs ps = Some bs"
    "amps = (if ?neg then - \<bar>v\<bar> else \<bar>v\<bar>) # bs"
    using 2(2) by (auto simp: v finiteFuseValue_def Let_def simp del: f64_Fin_simps)
  have IH: "length bs = length ps \<and> (\<forall>i < length ps. \<exists>v. fst (ps ! i) = Some (Fin v)
      \<and> \<bar>bs ! i\<bar> = \<bar>v\<bar> \<and> (bs ! i < 0 \<longrightarrow> signs \<and> (\<exists>x. snd (ps ! i) = Some x
          \<and> x < Fin (- max exportSignMinW (\<bar>v\<bar> * volt / 4)))))"
    using 2(1) [OF v] bs(1) by (simp add: finiteFuseValue_def)
  show ?case
    using IH by (auto simp: bs(2) v nth_Cons' split: option.splits if_splits simp del: f64_Fin_simps)
qed simp

section \<open>Properties\<close>

text \<open>No nuisance cut: a first reading above the working line, after a history in which every
  phase stayed within it, spends heat budget and cuts nothing, unless a phase is above the instant
  limit. The history may be empty: the same holds for the first reading after a restart.\<close>

theorem no_cut_on_first_overage:
  assumes "0 \<le> lineA" "\<forall>(t, a) \<in> set rs. \<forall>x \<in> set a. \<bar>x\<bar> \<le> lineA" "\<forall>x \<in> set amps. x \<le> instantA"
  shows "overA amps lineA instantA (foldl (heatRead lineA) coldFuse (rs @ [(t, amps)])) = 0"
proof -
  let ?h = "foldl (heatRead lineA) coldFuse rs"
  have "heat_ok lineA ?h" by (rule heat_ok_run [OF assms(1,2) heat_ok_cold [OF assms(1)]])
  from heatRead_sq_le [OF this assms(1), of t amps]
  have "\<forall>(a, sq) \<in> set (zip amps (heatSq (heatRead lineA ?h (t, amps)))).
      a \<le> lineA \<or> (sq \<le> lineA * lineA \<and> a \<le> instantA)"
    using assms(3) by (auto dest: set_zip_leftD set_zip_rightD)
  then show ?thesis by (simp add: overA_def overA_fold_zero)
qed

theorem no_cut_on_first_overage_witness:
  "overA [23, 5, 6] 20 24 (foldl (heatRead 20) coldFuse ([(0, [10, 5, 6])] @ [(9, [23, 5, 6])])) = 0"
  by (rule no_cut_on_first_overage) simp_all

text \<open>A restart grants no fresh budget to an overload under way: when the first two readings
  after Core starts both show a phase above the working line, the second one is cut by at least
  the phase's whole excess.\<close>

theorem sustained_overload_cut_on_second_reading:
  assumes "0 \<le> lineA" "tsub t1 t0 > 0" "length amps0 \<le> 3" "i < length amps0" "i < length amps1"
    "lineA < amps0 ! i" "lineA < amps1 ! i"
  shows "amps1 ! i - lineA
    \<le> overA amps1 lineA instantA (foldl (heatRead lineA) coldFuse [(t0, amps0), (t1, amps1)])"
proof -
  let ?h = "heatStart t0 amps0 lineA coldFuse"
  let ?g = "heatStep t1 amps1 ?h" and ?k = "heatGain (tsub t1 t0)"
  have i: "i < 3" using assms(3,4) by simp
  have set: "heatSet ?h" "heatAt ?h = t0"
    by (simp_all add: heatStart_def heatStep_def coldFuse_def Let_def)
  have held: "heatAmps ?h ! i = amps0 ! i" "length (heatAmps ?h) = 3"
    using i assms(4) by (simp_all add: heatStart_def heatStep_def coldFuse_def Let_def pad3_def nth_append)
  have "lineA * lineA < amps0 ! i * amps0 ! i" using assms(1,6) by (intro mult_strict_mono) simp_all
  then have sq: "heatSq ?h ! i = lineA * lineA" "length (heatSq ?h) = 3"
    using i assms(3,4)
    by (auto simp: heatStart_def heatStep_def coldFuse_def Let_def nth_append min_def)
  have "heatSq ?g ! i = lineA * lineA + (amps0 ! i * amps0 ! i - lineA * lineA) * ?k" "length (heatSq ?g) = 3"
    using i sq held assms(2) by (simp_all add: heatStep_def [of t1] set)
  moreover have "0 < (amps0 ! i * amps0 ! i - lineA * lineA) * ?k"
    using heatGain_bounds(1) [OF assms(2)] \<open>lineA * lineA < _\<close> by simp
  ultimately have "lineA * lineA < heatSq ?g ! i" and "(amps1 ! i, heatSq ?g ! i) \<in> set (zip amps1 (heatSq ?g))"
    using i assms(5) by (auto simp: set_zip)
  from overA_fold_mem [OF this(2), of lineA instantA 0] this(1) show ?thesis
    by (simp add: overA_def set) (simp add: coldFuse_def)
qed

theorem sustained_overload_cut_on_second_reading_witness:
  "3 \<le> overA [23, 5, 6] 20 24 (foldl (heatRead 20) coldFuse [(0, [22, 5, 6]), (9, [23, 5, 6])])"
  using sustained_overload_cut_on_second_reading [of 20 9 0 "[22, 5, 6]" 0 "[23, 5, 6]" 24]
  by (simp add: tsub_def minDuration_def maxDuration_def)

text \<open>The heat of the fuse does not depend on how often the meter reports a current that does
  not change: a reading stands for the time until the next one, so a repeated reading in between
  leaves the filtered squares as they would be without it.\<close>

theorem heat_independent_of_sampling:
  assumes "heatSet h" "length (heatAmps h) = 3" "length (heatSq h) = 3"
    "heatAt h < t1" "t1 < t2" "t2 - heatAt h \<le> maxDuration"
  shows "heatSq (heatStep t2 b (heatStep t1 (heatAmps h) h)) = heatSq (heatStep t2 b h)"
proof -
  let ?a = "t1 - heatAt h" and ?b = "t2 - t1"
  have d: "tsub t1 (heatAt h) = ?a" "tsub t2 t1 = ?b" "tsub t2 (heatAt h) = ?a + ?b"
    using assms(4-6) by (simp_all add: tsub_def minDuration_def)
  have pad: "pad3 (heatAmps h) = heatAmps h" using assms(2) by (simp add: pad3_def)
  let ?f = "\<lambda>k c sq. sq + (c * c - sq) * k"
  have one: "heatStep t1 (heatAmps h) h = \<lparr>heatSet = True, heatAt = t1, heatAmps = heatAmps h,
      heatSq = map2 (?f (heatGain ?a)) (heatAmps h) (heatSq h)\<rparr>"
    using assms(1,4) d(1) pad by (simp add: heatStep_def)
  have "heatSq (heatStep t2 b (heatStep t1 (heatAmps h) h))
      = map2 (?f (heatGain ?b)) (heatAmps h) (map2 (?f (heatGain ?a)) (heatAmps h) (heatSq h))"
    unfolding one using assms(5) by (simp add: heatStep_def [of t2] d)
  also have "\<dots> = map2 (?f (heatGain (?a + ?b))) (heatAmps h) (heatSq h)"
  proof (rule nth_equalityI)
    fix i
    assume "i < length (map2 (?f (heatGain ?b)) (heatAmps h) (map2 (?f (heatGain ?a)) (heatAmps h) (heatSq h)))"
    then have "i < 3" using assms(2,3) by simp
    then show "map2 (?f (heatGain ?b)) (heatAmps h) (map2 (?f (heatGain ?a)) (heatAmps h) (heatSq h)) ! i
        = map2 (?f (heatGain (?a + ?b))) (heatAmps h) (heatSq h) ! i"
      using assms(2,3) heat_mix [of "heatSq h ! i" "heatAmps h ! i * heatAmps h ! i" ?a ?b]
      by (simp only: nth_map nth_zip length_zip length_map min.idem case_prod_conv)
  qed (use assms(2,3) in simp)
  also have "\<dots> = heatSq (heatStep t2 b h)"
    using assms(1,4,5) by (simp add: heatStep_def d)
  finally show ?thesis .
qed

theorem heat_independent_of_sampling_witness:
  "heatSq (heatStep 900 [1, 1, 1] (heatStep 400 [9, 8, 7] (heatStart 3 [9, 8, 7] 20 coldFuse)))
    = heatSq (heatStep 900 [1, 1, 1] (heatStart 3 [9, 8, 7] 20 coldFuse))"
  using heat_independent_of_sampling [of "heatStart 3 [9, 8, 7] 20 coldFuse" 400 900 "[1, 1, 1]"]
  by (simp add: heatStart_def heatStep_def coldFuse_def pad3_def maxDuration_def)


text \<open>A phase counts as exporting only on clear evidence: every usable phase current has the
  magnitude the meter reports, and it is negative only when all phase powers are present, add up to
  the reading's total, and that phase's own power is export beyond 25 W and a quarter of what its
  current could carry.\<close>

theorem phase_direction_conservative:
  assumes "Data meter = Doc d" "phaseCurrentsA meter s totalW = (amps, present, True)"
    "i < nat (SiteFusePhases s)"
  shows "length amps = nat (SiteFusePhases s) \<and>
    (\<exists>v. docAmps d ! i = Some (Fin v) \<and> \<bar>amps ! i\<bar> = \<bar>v\<bar>
       \<and> (amps ! i < 0 \<longrightarrow> phasePowersAddUp (take (nat (SiteFusePhases s)) (docPowers d)) totalW
            \<and> (\<exists>x. docPowers d ! i = Some x
                 \<and> x < Fin (- max exportSignMinW (\<bar>v\<bar> * SiteFuseVoltage s / 4)))))"
proof -
  let ?n = "nat (SiteFusePhases s)"
  let ?ps = "zip (take ?n (docAmps d)) (take ?n (docPowers d))"
  have n: "?n \<le> 3" and sp: "signPhases (SiteFuseVoltage s)
      (phasePowersAddUp (take ?n (docPowers d)) totalW) ?ps = Some amps"
    using assms(1,2) by (auto simp: phaseCurrentsA_def Let_def split: if_splits option.splits)
  have "length ?ps = ?n" using n by (simp add: docAmps_def docPowers_def)
  moreover have "?ps ! i = (docAmps d ! i, docPowers d ! i)"
    using assms(3) n by (simp add: docAmps_def docPowers_def)
  ultimately show ?thesis using signPhases_spec [OF sp] assms(3) by (auto simp del: f64_Fin_simps)
qed

definition phaseReading :: "real list \<Rightarrow> real list \<Rightarrow> DerReading" where
  "phaseReading a w = \<lparr>rDriver = ''m'', rDerType = DerMeter, RawW = Fin (sum_list w),
     SmoothedW = Fin (sum_list w), SoC = None, SoCUpdatedAt = zeroTime,
     Data = Doc (emptyDoc\<lparr>l1_a := Val (Fin (a ! 0)), l2_a := Val (Fin (a ! 1)), l3_a := Val (Fin (a ! 2)),
        l1_w := Val (Fin (w ! 0)), l2_w := Val (Fin (w ! 1)), l3_w := Val (Fin (w ! 2))\<rparr>),
     UpdatedAt = 0\<rparr>"

definition phaseState :: State where
  "phaseState = (NewState 0 50 ''m'' (\<lambda>_. 0) 0)\<lparr>SiteFuseAmps := 25, SiteFuseVoltage := 230,
     SiteFusePhases := 3, SiteFuseSafetyA := 1\<rparr>"

lemma phaseState_simps [simp]:
  "SiteFuseAmps phaseState = 25" "SiteFuseVoltage phaseState = 230" "SiteFusePhases phaseState = 3"
  "SiteFuseSafetyA phaseState = 1" "PeakImportCeilingW phaseState = 0"
  by (simp_all add: phaseState_def NewState_def)

theorem phase_direction_conservative_witness:
  "phasePowersAddUp [Some (Fin (- 2000)), Some (Fin 500), Some (Fin 300)] (Fin (- 1200))"
proof -
  let ?m = "phaseReading [9, 3, 2] [- 2000, 500, 300]"
  have "phaseCurrentsA ?m phaseState (Fin (- 1200)) = ([- 9, 3, 2], True, True)"
    by (simp add: phaseCurrentsA_def phaseReading_def phaseDocBad_def emptyDoc_def docAmps_def
        docPowers_def finiteFuseValue_def phasePowersAddUp_def exportSignMinW_def Let_def
        eval_nat_numeral)
  from phase_direction_conservative [OF _ this, of _ 0] show ?thesis
    by (auto simp: phaseReading_def docPowers_def emptyDoc_def)
qed

text \<open>The phase ceiling protects the worst phase: as long as the site's import stays at or under
  the ceiling and the phases keep the imbalance the ceiling was computed for, the worst phase stays
  at or under the fuse rating less its margin; and the ceiling never exceeds the aggregate one.\<close>

theorem phase_ceiling_protects_worst_phase:
  assumes "phaseImbalanceA meter s = Some imbalanceA" "0 < imbalanceA"
    "c = phaseImportCeilingW (siteFuseMaxW s) meter s"
    "0 < importW" "importW \<le> c"
  shows "importW / (SiteFuseVoltage s * of_int (SiteFusePhases s)) + imbalanceA \<le> fuseLineA s
    \<and> c \<le> effectiveImportCeilingW (siteFuseMaxW s) s"
proof -
  have pos: "0 < SiteFuseAmps s" "0 < SiteFuseVoltage s" "0 < SiteFusePhases s"
    using assms(1) by (auto simp: phaseImbalanceA_def split: if_splits)
  let ?k = "SiteFuseVoltage s * of_int (SiteFusePhases s)"
  have k: "0 < ?k" using pos by simp
  have margin: "fuseSafetyMarginW s = max 0 (SiteFuseSafetyA s) * ?k"
    using pos by (simp add: fuseSafetyMarginW_def max_def algebra_simps)
  have "c = max 0 (min (effectiveImportCeilingW (siteFuseMaxW s) s)
      (SiteFuseAmps s * ?k - fuseSafetyMarginW s - imbalanceA * ?k))"
    using assms(1,2) pos by (simp add: assms(3) phaseImportCeilingW_def siteFuseMaxW_def mult.assoc)
  moreover have "0 < c" using assms(4,5) by simp
  ultimately have c: "c \<le> effectiveImportCeilingW (siteFuseMaxW s) s"
    "c \<le> SiteFuseAmps s * ?k - fuseSafetyMarginW s - imbalanceA * ?k" by linarith+
  have "importW \<le> (SiteFuseAmps s - max 0 (SiteFuseSafetyA s) - imbalanceA) * ?k"
    using c(2) assms(5) by (simp add: margin algebra_simps)
  then have "importW / ?k \<le> SiteFuseAmps s - max 0 (SiteFuseSafetyA s) - imbalanceA"
    using k by (simp add: pos_divide_le_eq)
  with c(1) show ?thesis by (simp add: fuseLineA_def)
qed

theorem phase_ceiling_protects_worst_phase_witness:
  "9000 / (230 * 3) + 8 \<le> fuseLineA phaseState"
proof -
  let ?m = "phaseReading [18, 6, 6] [4140, 1380, 1380]"
  have im: "phaseImbalanceA (Some ?m) phaseState = Some 8"
    by (simp add: phaseImbalanceA_def phaseReading_def emptyDoc_def docAmps_def eval_nat_numeral Let_def)
  have "phaseImportCeilingW (siteFuseMaxW phaseState) (Some ?m) phaseState = 11040"
    by (simp add: phaseImportCeilingW_def im siteFuseMaxW_def fuseSafetyMarginW_def
        effectiveImportCeilingW_def importHourLimitsW_def)
  from phase_ceiling_protects_worst_phase [OF im _ this [symmetric], of 9000] show ?thesis by simp
qed

end
