(* ===== verification/Meter_Freeze.thy ===== *)
theory Meter_Freeze
  imports Control_State
begin

text \<open>
  The frozen-meter detector (\<open>meter_freeze.go\<close>). A meter can answer every poll with the same
  numbers; when FTW's own devices have moved by more than half a kilowatt and the meter still
  repeats its values, it is frozen. The model follows \<open>ObserveSiteMeterFreeze\<close> branch by branch.
  Samples are compared as lists of optional values; two floats that pass the store are finite, so
  Go's \<open>!=\<close> on them is disequality. Log lines are left out.
\<close>

definition meterFreezeMoveW :: real where "meterFreezeMoveW = 500"
definition meterFreezeAfter :: duration where "meterFreezeAfter = 30 * second"
definition meterFreezeSamples :: nat where "meterFreezeSamples = 3"

definition readMeterSample :: "f64 \<Rightarrow> rawmsg \<Rightarrow> meterSample" where
  "readMeterSample w data =
     (let d = (case data of Doc d \<Rightarrow> d | _ \<Rightarrow> emptyDoc)
      in [Some w, jptr (l1_a d), jptr (l2_a d), jptr (l3_a d), jptr (l1_w d), jptr (l2_w d),
          jptr (l3_w d), jptr (l1_v d), jptr (l2_v d), jptr (l3_v d)])"

text \<open>The battery loop and then the charger loop of \<open>ownDevices\<close>. The map keys of the two loops are
  distinct, and each loop runs over a map, so the result lists every reporting device once.\<close>

definition ownDevicesOf :: "Store \<Rightarrow> State \<Rightarrow> ownDevices" where
  "ownDevicesOf store s =
     map (\<lambda>(d, w). ((DerBattery, d), \<lparr>orderW = mgetD 0 (PrevTargets s) d, readW = fval w\<rparr>))
       (OnlineRawWByType DerBattery store)
     @ map (\<lambda>(d, w). ((DerEV, d), \<lparr>orderW = mgetD 0 (evCommanded s) d, readW = fval w\<rparr>))
       (OnlineRawWByType DerEV store)"

text \<open>One device's share: the smaller of the order's and the reading's move, in the reading's
  direction, when both go the same way.\<close>

definition followedMove :: "ownDevice \<Rightarrow> ownDevice \<Rightarrow> real" where
  "followedMove old new =
     (let order = orderW new - orderW old; read = readW new - readW old
      in if order * read \<le> 0 then 0
         else if read < 0 then - min \<bar>order\<bar> \<bar>read\<bar> else min \<bar>order\<bar> \<bar>read\<bar>)"

definition devicesMovedW :: "ownDevices \<Rightarrow> ownDevices \<Rightarrow> real" where
  "devicesMovedW a b =
     foldl (\<lambda>moved (k, new). case mget a k of None \<Rightarrow> moved | Some old \<Rightarrow> moved + followedMove old new) 0 b"

text \<open>The part of \<open>ObserveSiteMeterFreeze\<close> after a new, identical sample of a meter not yet frozen.\<close>

definition judgeRepeat :: "real \<Rightarrow> time \<Rightarrow> meterFreeze \<Rightarrow> meterFreeze" where
  "judgeRepeat moved now f =
     (if \<bar>moved\<bar> \<le> meterFreezeMoveW
      then f\<lparr>movedAt := zeroTime, repeats := 0, repeatAfterMove := False\<rparr>
      else let f = f\<lparr>repeatAfterMove := True\<rparr>
           in if isZero (movedAt f) then f\<lparr>movedAt := now\<rparr>
              else let f = f\<lparr>repeats := repeats f + 1\<rparr>
                   in if repeats f \<ge> meterFreezeSamples \<and> tsub now (movedAt f) \<ge> meterFreezeAfter
                      then f\<lparr>frozen := True\<rparr> else f)"

definition observeFreeze :: "f64 \<Rightarrow> rawmsg \<Rightarrow> time \<Rightarrow> ownDevices \<Rightarrow> time \<Rightarrow> meterFreeze \<Rightarrow> meterFreeze" where
  "observeFreeze w data t devices now f =
     (if \<not> t > mfAt f then f
      else let sample = readMeterSample w data
           in if isZero (mfAt f) \<or> sample \<noteq> mfSample f
              then (newFreeze (mfDriver f))\<lparr>mfAt := t, mfSample := sample, mfDevices := devices\<rparr>
              else let f = f\<lparr>mfAt := t\<rparr>
                   in if frozen f then f
                      else judgeRepeat (devicesMovedW (mfDevices f) devices) now f)"

definition ObserveSiteMeterFreeze :: "Store \<Rightarrow> time \<Rightarrow> State \<Rightarrow> State" where
  "ObserveSiteMeterFreeze store now s =
     (let f = meterFreeze s
      in case OnlineMeterSample (SiteMeterDriver s) store of
           None \<Rightarrow> s\<lparr>meterFreeze := newFreeze (SiteMeterDriver s)\<rparr>
         | Some (w, data, t) \<Rightarrow>
             let f = (if mfDriver f \<noteq> SiteMeterDriver s then newFreeze (SiteMeterDriver s) else f)
             in s\<lparr>meterFreeze := observeFreeze w data t (ownDevicesOf store s) now f\<rparr>)"

definition SiteMeterFrozen :: "State \<Rightarrow> bool" where
  "SiteMeterFrozen s = frozen (meterFreeze s)"

definition siteMeterRepeatsAfterMove :: "DerReading option \<Rightarrow> State \<Rightarrow> bool" where
  "siteMeterRepeatsAfterMove meter s =
     (case meter of
        None \<Rightarrow> False
      | Some m \<Rightarrow> mfDriver (meterFreeze s) = SiteMeterDriver s \<and> repeatAfterMove (meterFreeze s)
          \<and> UpdatedAt m = mfAt (meterFreeze s))"

section \<open>Device moves\<close>

lemma followedMove_bounds:
  "\<bar>followedMove a b\<bar> \<le> \<bar>orderW b - orderW a\<bar>" "\<bar>followedMove a b\<bar> \<le> \<bar>readW b - readW a\<bar>"
  by (auto simp: followedMove_def Let_def)

text \<open>The sum as a sum over the devices that were there before.\<close>

lemma devicesMovedW_fold:
  "foldl (\<lambda>moved (k, new). case mget a k of None \<Rightarrow> moved | Some old \<Rightarrow> moved + followedMove old new) x b
    = x + sum_list (map (\<lambda>(k, new). case mget a k of None \<Rightarrow> 0 | Some old \<Rightarrow> followedMove old new) b)"
  by (induction b arbitrary: x) (auto split: option.split)

lemma devicesMovedW_sum:
  "devicesMovedW a b
    = sum_list (map (\<lambda>(k, new). case mget a k of None \<Rightarrow> 0 | Some old \<Rightarrow> followedMove old new) b)"
  by (simp add: devicesMovedW_def devicesMovedW_fold)

lemma devicesMovedW_unordered:
  assumes "\<forall>(k, new) \<in> set b. \<forall>old. mget a k = Some old \<longrightarrow> orderW new = orderW old \<or> readW new = readW old"
  shows "devicesMovedW a b = 0"
proof -
  have "(case mget a k of None \<Rightarrow> 0 | Some old \<Rightarrow> followedMove old new) = 0" if "(k, new) \<in> set b" for k new
  proof (cases "mget a k")
    case (Some old)
    with assms that have "orderW new = orderW old \<or> readW new = readW old" by blast
    then show ?thesis using Some by (auto simp: followedMove_def Let_def)
  qed simp
  then have "\<forall>x \<in> set (map (\<lambda>(k, new). case mget a k of None \<Rightarrow> 0 | Some old \<Rightarrow> followedMove old new) b). x = 0"
    by auto
  then show ?thesis unfolding devicesMovedW_sum
    by (metis (mono_tags, lifting) sum_list_eq_0_iff sum_list_0 map_idI map_eq_conv)
qed

section \<open>The machine\<close>

text \<open>What the detector sees: the meter gone, or a sample with the devices at that moment.\<close>

datatype freeze_op = MeterGone | MeterSample f64 rawmsg time ownDevices time

fun freeze_step :: "meterFreeze \<Rightarrow> freeze_op \<Rightarrow> meterFreeze" where
  "freeze_step f MeterGone = newFreeze (mfDriver f)"
| "freeze_step f (MeterSample w data t devices now) = observeFreeze w data t devices now f"

text \<open>The evidence behind a verdict. The clock ticks are positive instants.\<close>

definition freeze_ok :: "meterFreeze \<Rightarrow> bool" where
  "freeze_ok f = ((frozen f \<longrightarrow> meterFreezeSamples \<le> repeats f \<and> \<not> isZero (movedAt f))
     \<and> (0 < repeats f \<longrightarrow> repeatAfterMove f) \<and> (\<not> isZero (movedAt f) \<longrightarrow> repeatAfterMove f)
     \<and> (repeatAfterMove f \<longrightarrow> \<not> isZero (mfAt f)))"

lemma newFreeze_simps [simp]:
  "mfDriver (newFreeze d) = d" "mfAt (newFreeze d) = zeroTime" "frozen (newFreeze d) = False"
  "repeats (newFreeze d) = 0" "movedAt (newFreeze d) = zeroTime"
  "repeatAfterMove (newFreeze d) = False"
  by (simp_all add: newFreeze_def)

lemma freeze_ok_new [simp]: "freeze_ok (newFreeze d)"
  by (simp add: freeze_ok_def isZero_def)

lemma judgeRepeat_frame [simp]:
  "mfAt (judgeRepeat m now f) = mfAt f" "mfSample (judgeRepeat m now f) = mfSample f"
  "mfDevices (judgeRepeat m now f) = mfDevices f" "mfDriver (judgeRepeat m now f) = mfDriver f"
  by (simp_all add: judgeRepeat_def Let_def)

lemma judgeRepeat_ok: "freeze_ok f \<Longrightarrow> \<not> frozen f \<Longrightarrow> \<not> isZero (mfAt f) \<Longrightarrow> freeze_ok (judgeRepeat m now f)"
  by (auto simp: freeze_ok_def judgeRepeat_def Let_def isZero_def)

lemma observeFreeze_ok:
  assumes "freeze_ok f" "zeroTime \<le> mfAt f"
  shows "freeze_ok (observeFreeze w data t devices now f)"
    "zeroTime \<le> mfAt (observeFreeze w data t devices now f)"
proof -
  have at: "freeze_ok (f\<lparr>mfAt := t\<rparr>)" "\<not> isZero t" if "mfAt f < t"
    using assms that by (auto simp: freeze_ok_def isZero_def)
  have new: "freeze_ok ((newFreeze d)\<lparr>mfAt := t, mfSample := x, mfDevices := y\<rparr>)" for d x y
    by (simp add: freeze_ok_def isZero_def)
  show "freeze_ok (observeFreeze w data t devices now f)"
    using at new assms(1) by (simp add: observeFreeze_def Let_def judgeRepeat_ok)
  show "zeroTime \<le> mfAt (observeFreeze w data t devices now f)"
    using assms(2) by (simp add: observeFreeze_def Let_def)
qed

interpretation freeze_machine: invariant_machine freeze_step
  "\<lambda>f. freeze_ok f \<and> zeroTime \<le> mfAt f"
proof
  fix f e
  assume "freeze_ok f \<and> zeroTime \<le> mfAt f"
  then show "freeze_ok (freeze_step f e) \<and> zeroTime \<le> mfAt (freeze_step f e)"
    using observeFreeze_ok by (cases e) (simp_all)
qed

text \<open>One identical, newer sample.\<close>

lemma observeFreeze_repeat:
  assumes "mfAt f < t" "\<not> isZero (mfAt f)" "readMeterSample w data = mfSample f"
  shows "observeFreeze w data t devices now f =
    (if frozen f then f\<lparr>mfAt := t\<rparr>
     else judgeRepeat (devicesMovedW (mfDevices f) devices) now (f\<lparr>mfAt := t\<rparr>))"
  using assms by (simp add: observeFreeze_def Let_def)

lemma judgeRepeat_moved:
  "meterFreezeMoveW < \<bar>m\<bar> \<Longrightarrow> \<not> isZero (movedAt f) \<Longrightarrow> \<not> frozen f \<Longrightarrow>
     movedAt (judgeRepeat m now f) = movedAt f \<and> repeats (judgeRepeat m now f) = repeats f + 1
     \<and> frozen (judgeRepeat m now f)
        = (meterFreezeSamples \<le> repeats f + 1 \<and> meterFreezeAfter \<le> tsub now (movedAt f))"
  by (simp add: judgeRepeat_def Let_def)

text \<open>A run of identical samples at rising times.\<close>

definition repeatOps :: "f64 \<Rightarrow> rawmsg \<Rightarrow> (time \<times> ownDevices \<times> time) list \<Rightarrow> freeze_op list" where
  "repeatOps w data xs = map (\<lambda>(t, devices, now). MeterSample w data t devices now) xs"

lemma frozen_stays:
  "frozen f \<Longrightarrow> zeroTime < mfAt f \<Longrightarrow> readMeterSample w data = mfSample f \<Longrightarrow>
     sorted_wrt (<) (mfAt f # map fst xs) \<Longrightarrow> frozen (foldl freeze_step f (repeatOps w data xs))"
proof (induction xs arbitrary: f)
  case (Cons x xs)
  obtain t d now where x: "x = (t, d, now)" by (cases x) auto
  have "mfAt f < t" using Cons.prems(4) by (simp add: x)
  then have "freeze_step f (MeterSample w data t d now) = f\<lparr>mfAt := t\<rparr>"
    using Cons.prems by (simp add: observeFreeze_repeat isZero_def)
  moreover have "frozen (foldl freeze_step (f\<lparr>mfAt := t\<rparr>) (repeatOps w data xs))"
    using Cons.prems \<open>mfAt f < t\<close> by (intro Cons.IH) (auto simp: x)
  ultimately show ?case by (simp add: repeatOps_def x)
qed (simp add: repeatOps_def)

lemma frozen_reached:
  assumes "xs \<noteq> []" "\<not> isZero (movedAt f)" "zeroTime < mfAt f" "readMeterSample w data = mfSample f"
    "sorted_wrt (<) (mfAt f # map fst xs)" "meterFreezeSamples \<le> repeats f + length xs"
    "\<forall>(t, d, now) \<in> set xs. meterFreezeMoveW < \<bar>devicesMovedW (mfDevices f) d\<bar>"
    "meterFreezeAfter \<le> tsub (snd (snd (last xs))) (movedAt f)"
  shows "frozen (foldl freeze_step f (repeatOps w data xs))"
  using assms
proof (induction xs arbitrary: f)
  case (Cons x xs)
  obtain t d now where x: "x = (t, d, now)" by (cases x) auto
  define g where "g = freeze_step f (MeterSample w data t d now)"
  have t: "mfAt f < t" "\<not> isZero (mfAt f)" using Cons.prems(3,5) by (simp_all add: x isZero_def)
  have run: "foldl freeze_step f (repeatOps w data (x # xs)) = foldl freeze_step g (repeatOps w data xs)"
    by (simp add: repeatOps_def x g_def)
  have g: "g = (if frozen f then f\<lparr>mfAt := t\<rparr>
      else judgeRepeat (devicesMovedW (mfDevices f) d) now (f\<lparr>mfAt := t\<rparr>))"
    using Cons.prems(4) t by (simp add: g_def observeFreeze_repeat)
  then have fr: "mfAt g = t" "mfSample g = mfSample f" "mfDevices g = mfDevices f" by simp_all
  have sorted: "sorted_wrt (<) (mfAt g # map fst xs)" using Cons.prems(5) by (simp add: x fr)
  show ?case
  proof (cases "frozen g")
    case True
    with t Cons.prems(3,4) sorted show ?thesis unfolding run by (intro frozen_stays) (simp_all add: fr)
  next
    case False
    then have nf: "\<not> frozen f" by (auto simp: g)
    have "meterFreezeMoveW < \<bar>devicesMovedW (mfDevices f) d\<bar>" using Cons.prems(7) by (simp add: x)
    from judgeRepeat_moved [OF this, of "f\<lparr>mfAt := t\<rparr>" now] nf Cons.prems(2)
    have j: "movedAt g = movedAt f" "repeats g = repeats f + 1"
      "frozen g = (meterFreezeSamples \<le> repeats f + 1 \<and> meterFreezeAfter \<le> tsub now (movedAt f))"
      by (simp_all add: g)
    show ?thesis
    proof (cases "xs = []")
      case True
      then show ?thesis using Cons.prems(6,8) False j(3) by (simp add: x)
    next
      case ne: False
      have "frozen (foldl freeze_step g (repeatOps w data xs))"
        using Cons.prems t sorted ne by (intro Cons.IH) (auto simp: x fr j)
      then show ?thesis unfolding run .
    qed
  qed
qed simp


text \<open>A site on which no order changes: a device's last order is a function of the device.\<close>

definition orders_at :: "(DerType \<times> string \<Rightarrow> real) \<Rightarrow> ownDevices \<Rightarrow> bool" where
  "orders_at ord devices = (\<forall>(k, d) \<in> set devices. orderW d = ord k)"

fun quiet_op :: "(DerType \<times> string \<Rightarrow> real) \<Rightarrow> freeze_op \<Rightarrow> bool" where
  "quiet_op ord MeterGone = True"
| "quiet_op ord (MeterSample w data t devices now) = orders_at ord devices"

lemma orders_at_moved: "orders_at ord a \<Longrightarrow> orders_at ord b \<Longrightarrow> devicesMovedW a b = 0"
  by (rule devicesMovedW_unordered) (fastforce simp: orders_at_def dest!: mget_in_set)

lemma quiet_step:
  assumes "quiet_op ord e" "orders_at ord (mfDevices f)" "\<not> frozen f"
  shows "orders_at ord (mfDevices (freeze_step f e)) \<and> \<not> frozen (freeze_step f e)"
proof (cases e)
  case MeterGone
  then show ?thesis by (simp add: orders_at_def newFreeze_def)
next
  case (MeterSample w data t devices now)
  have "judgeRepeat (devicesMovedW (mfDevices f) devices) now (f\<lparr>mfAt := t\<rparr>)
      = f\<lparr>mfAt := t, movedAt := zeroTime, repeats := 0, repeatAfterMove := False\<rparr>"
    using assms MeterSample orders_at_moved [of ord "mfDevices f" devices]
    by (simp add: judgeRepeat_def meterFreezeMoveW_def)
  then show ?thesis using assms MeterSample by (simp add: observeFreeze_def Let_def)
qed

section \<open>Properties\<close>

text \<open>A quiet site is never frozen: as long as no order to any battery or charger changes, no
  sequence of meter samples and outages, however long the meter repeats itself, makes the detector
  call the meter frozen.\<close>

theorem quiet_site_never_frozen:
  assumes "list_all (quiet_op ord) ops"
  shows "\<not> frozen (foldl freeze_step (newFreeze d) ops)"
proof -
  have "orders_at ord (mfDevices f) \<Longrightarrow> \<not> frozen f \<Longrightarrow> \<not> frozen (foldl freeze_step f ops)" for f
    using assms
  proof (induction ops arbitrary: f)
    case (Cons e ops)
    then show ?case using quiet_step [of ord e f] by simp
  qed simp
  then show ?thesis by (simp add: orders_at_def newFreeze_def)
qed

theorem quiet_site_never_frozen_witness:
  "\<not> frozen (foldl freeze_step (newFreeze ''m'')
     (repeatOps (Fin 200) Empty (map (\<lambda>i. (int i * second, [((DerBattery, ''b''), \<lparr>orderW = 0, readW = real i\<rparr>)],
        int i * second)) [0..<50])))"
  by (rule quiet_site_never_frozen [of "\<lambda>_. 0"])
     (auto simp: repeatOps_def orders_at_def list_all_iff)

text \<open>C34: A frozen meter is found: when the devices have moved by more than 500 W since the meter's
  values last changed and the meter keeps repeating them, the verdict comes at the latest with the
  fourth sample, once 30 s have passed since the first.\<close>

theorem frozen_meter_is_found:
  assumes "\<not> frozen f" "isZero (movedAt f)" "zeroTime < mfAt f" "readMeterSample w data = mfSample f"
    "sorted_wrt (<) (mfAt f # map fst xs)" "4 \<le> length xs" "\<not> isZero (snd (snd (hd xs)))"
    "\<forall>(t, d, now) \<in> set xs. 500 < \<bar>devicesMovedW (mfDevices f) d\<bar>"
    "30 * second \<le> tsub (snd (snd (last xs))) (snd (snd (hd xs)))" "repeats f = 0"
  shows "frozen (foldl freeze_step f (repeatOps w data xs))"
proof -
  obtain t d now ys where xs: "xs = (t, d, now) # ys" "3 \<le> length ys" "ys \<noteq> []"
    using assms(6) by (cases xs) fastforce+
  have t: "mfAt f < t" "\<not> isZero (mfAt f)" using assms(3,5) by (simp_all add: xs isZero_def)
  define g where "g = freeze_step f (MeterSample w data t d now)"
  have "g = judgeRepeat (devicesMovedW (mfDevices f) d) now (f\<lparr>mfAt := t\<rparr>)"
    using assms(1,4) t by (simp add: g_def observeFreeze_repeat)
  moreover have "meterFreezeMoveW < \<bar>devicesMovedW (mfDevices f) d\<bar>"
    using assms(8) by (simp add: xs meterFreezeMoveW_def)
  ultimately have g: "g = f\<lparr>mfAt := t, repeatAfterMove := True, movedAt := now\<rparr>"
    using assms(2) by (simp add: judgeRepeat_def Let_def)
  have "frozen (foldl freeze_step g (repeatOps w data ys))"
    using assms(3-5,7-10) xs t
    by (intro frozen_reached)
       (auto split: if_splits simp: g meterFreezeSamples_def meterFreezeAfter_def meterFreezeMoveW_def)
  then show ?thesis by (simp add: repeatOps_def xs g_def)
qed

definition frozenStart :: meterFreeze where
  "frozenStart = observeFreeze (Fin 200) Empty second [((DerBattery, ''b''), \<lparr>orderW = 0, readW = 0\<rparr>)] second
     (newFreeze ''m'')"

theorem frozen_meter_is_found_witness:
  "frozen (foldl freeze_step frozenStart (repeatOps (Fin 200) Empty
     (map (\<lambda>i. (int i * second, [((DerBattery, ''b''), \<lparr>orderW = -4000, readW = -3900\<rparr>)], int i * second))
        [2, 12, 22, 32])))"
proof (rule frozen_meter_is_found)
  have f: "frozenStart = (newFreeze ''m'')\<lparr>mfAt := second, mfSample := readMeterSample (Fin 200) Empty,
      mfDevices := [((DerBattery, ''b''), \<lparr>orderW = 0, readW = 0\<rparr>)]\<rparr>"
    by (simp add: frozenStart_def observeFreeze_def isZero_def zeroTime_def time_simps)
  show "\<not> frozen frozenStart" "isZero (movedAt frozenStart)" "zeroTime < mfAt frozenStart"
    "readMeterSample (Fin 200) Empty = mfSample frozenStart" "repeats frozenStart = 0"
    by (simp_all add: f isZero_def zeroTime_def time_simps)
  show "\<forall>(t, d, now) \<in> set (map (\<lambda>i. (int i * second,
        [((DerBattery, ''b''), \<lparr>orderW = -4000, readW = -3900\<rparr>)], int i * second)) [2, 12, 22, 32]).
      500 < \<bar>devicesMovedW (mfDevices frozenStart) d\<bar>"
    by (simp add: f devicesMovedW_def followedMove_def)
qed (simp_all add: frozenStart_def observeFreeze_def isZero_def zeroTime_def time_simps tsub_def
    minDuration_def maxDuration_def)

text \<open>A verdict has evidence and any change in the meter's values clears it: the state turns
  frozen only on a newer sample that repeats the old values while the devices' followed moves sum
  to more than 500 W, with three repeats at least 30 s after the move was first seen; a newer
  sample with other values always leaves the meter live.\<close>

theorem freeze_verdict_sound:
  assumes "f' = observeFreeze w data t devices now f"
  shows "(frozen f' \<and> \<not> frozen f \<longrightarrow> mfAt f < t \<and> readMeterSample w data = mfSample f
      \<and> 500 < \<bar>devicesMovedW (mfDevices f) devices\<bar> \<and> 3 \<le> repeats f' \<and> 30 * second \<le> tsub now (movedAt f'))
    \<and> (mfAt f < t \<and> readMeterSample w data \<noteq> mfSample f \<longrightarrow>
        \<not> frozen f' \<and> mfSample f' = readMeterSample w data)"
  by (auto simp: assms observeFreeze_def judgeRepeat_def Let_def meterFreezeMoveW_def
      meterFreezeSamples_def meterFreezeAfter_def split: if_splits)

theorem freeze_verdict_sound_witness:
  "\<not> frozen (observeFreeze (Fin 201) Empty (40 * second) [] (40 * second) (frozenStart\<lparr>frozen := True\<rparr>))"
  using freeze_verdict_sound [OF refl, of "Fin 201" Empty "40 * second" "[]" "40 * second" "frozenStart\<lparr>frozen := True\<rparr>"]
  by (simp add: frozenStart_def observeFreeze_def isZero_def zeroTime_def time_simps readMeterSample_def)

end
