(* ===== verification/Dispatch_Passes.thy ===== *)
theory Dispatch_Passes
  imports Control_Settings
begin

text \<open>
  The last-mile passes over a command slice in \<open>dispatch.go\<close>: floors, clamps and holds that run
  after the dispatcher has chosen targets. In the source each pass mutates the slice index by
  index; here each is a map over the list. All of them promise one thing, the locale
  \<^emph>\<open>toward_zero_pass\<close>: the same batteries in the same order, every target moved towards 0 W at
  most and never across it. What a pass closes, no later pass can therefore reopen.
\<close>

section \<open>The passes\<close>

definition closeTarget :: "DispatchTarget \<Rightarrow> DispatchTarget" where
  "closeTarget t = t\<lparr>TargetW := 0, Clamped := True\<rparr>"

definition floorNegativeTargets :: "DispatchTarget list \<Rightarrow> DispatchTarget list" where
  "floorNegativeTargets ts = map (\<lambda>t. if TargetW t < 0 then closeTarget t else t) ts"

definition floorBlockedCharge ::
  "bool \<Rightarrow> (string, bool) gomap \<Rightarrow> DispatchTarget list \<Rightarrow> DispatchTarget list" where
  "floorBlockedCharge noSelfCharge chargeBlocked ts =
     (if \<not> noSelfCharge \<and> chargeBlocked = [] then ts
      else map (\<lambda>t. if TargetW t \<le> 0 then t
                    else if noSelfCharge \<or> mgetD False chargeBlocked (Driver t) then closeTarget t
                    else t) ts)"

definition floorBelowOwnerFloorDischarge ::
  "(string, bool) gomap \<Rightarrow> DispatchTarget list \<Rightarrow> DispatchTarget list" where
  "floorBelowOwnerFloorDischarge blocked ts =
     (if blocked = [] then ts
      else map (\<lambda>t. if TargetW t < 0 \<and> mgetD False blocked (Driver t) then closeTarget t else t) ts)"

definition floorMissingSoCDischarge :: "Store \<Rightarrow> DispatchTarget list \<Rightarrow> DispatchTarget list" where
  "floorMissingSoCDischarge store ts =
     map (\<lambda>t. if TargetW t \<ge> 0 then t
              else case Get (Driver t) DerBattery store of
                     None \<Rightarrow> closeTarget t
                   | Some r \<Rightarrow> if SoC r \<noteq> None then t else closeTarget t) ts"

definition clampTargetsToPowerLimits ::
  "(string, PowerLimits) gomap \<Rightarrow> DispatchTarget list \<Rightarrow> DispatchTarget list" where
  "clampTargetsToPowerLimits limits ts =
     map (\<lambda>t. let l = mgetD noLimits limits (Driver t); maxC = chargeCap l; maxD = dischargeCap l
              in if TargetW t > maxC then t\<lparr>TargetW := maxC, Clamped := True\<rparr>
                 else if TargetW t < - maxD then t\<lparr>TargetW := - maxD, Clamped := True\<rparr>
                 else t) ts"

definition holdTowardZero :: "(string, real) gomap \<Rightarrow> DispatchTarget list \<Rightarrow> DispatchTarget list" where
  "holdTowardZero prev ts =
     map (\<lambda>t. let p = mgetD 0 prev (Driver t);
                  w = max (min (TargetW t) (max p 0)) (min p 0)
              in if w \<noteq> TargetW t then t\<lparr>TargetW := w, Clamped := True\<rparr> else t) ts"

text \<open>The discharge that empties the headroom above the reserve in one control interval, at 90 %
  efficiency. The reserve bound is minus infinity without a reserve.\<close>

definition reserveDischargeW :: "f64 \<Rightarrow> real \<Rightarrow> real \<Rightarrow> int \<Rightarrow> f64" where
  "reserveDischargeW soc reserve capacityWh intervalS =
     (let dtS = (if intervalS \<le> 0 then 5 else real_of_int intervalS);
          headroomWh = (soc - Fin reserve) * Fin capacityWh
      in - headroomWh * Fin (9 / 10) * Fin 3600 / Fin dtS)"

definition boostReserveLowerW :: "DerReading option \<Rightarrow> real \<Rightarrow> State \<Rightarrow> f64" where
  "boostReserveLowerW r capacityWh state =
     (if BatteryBoostReserveSoC state \<le> 0 then NInf
      else case r of
        None \<Rightarrow> Fin 0
      | Some m \<Rightarrow>
          (case SoC m of
             None \<Rightarrow> Fin 0
           | Some soc \<Rightarrow>
               if capacityWh \<le> 0 \<or> soc \<le> Fin (BatteryBoostReserveSoC state) then Fin 0
               else reserveDischargeW soc (BatteryBoostReserveSoC state) capacityWh
                      (MinDispatchIntervalS state)))"

definition applyBatteryBoostReserve ::
  "Store \<Rightarrow> State \<Rightarrow> (string, real) gomap \<Rightarrow> DispatchTarget list \<Rightarrow> DispatchTarget list" where
  "applyBatteryBoostReserve store state driverCapacities ts =
     (if BatteryBoostReserveSoC state \<le> 0 then ts
      else map (\<lambda>t. if TargetW t \<ge> 0 then t
             else let lower = boostReserveLowerW (Get (Driver t) DerBattery store)
                                (mgetD 0 driverCapacities (Driver t)) state
                  in if Fin (TargetW t) < lower then t\<lparr>TargetW := fval lower, Clamped := True\<rparr> else t) ts)"

section \<open>The contract of a pass\<close>

definition towardZero :: "DispatchTarget \<Rightarrow> DispatchTarget \<Rightarrow> bool" where
  "towardZero t t' = (Driver t' = Driver t
     \<and> (0 \<le> TargetW t' \<and> TargetW t' \<le> TargetW t \<or> TargetW t \<le> TargetW t' \<and> TargetW t' \<le> 0)
     \<and> (Clamped t \<or> TargetW t' \<noteq> TargetW t \<longrightarrow> Clamped t'))"

lemma towardZero_refl [simp]: "towardZero t t"
  by (auto simp: towardZero_def)

lemma towardZero_trans: "towardZero a b \<Longrightarrow> towardZero b c \<Longrightarrow> towardZero a c"
  by (auto simp: towardZero_def)

lemma towardZero_close [simp]: "towardZero t (closeTarget t)"
  by (auto simp: towardZero_def closeTarget_def)

lemma towardZero_set:
  "0 \<le> w \<and> w \<le> TargetW t \<or> TargetW t \<le> w \<and> w \<le> 0 \<Longrightarrow> towardZero t (t\<lparr>TargetW := w, Clamped := True\<rparr>)"
  by (auto simp: towardZero_def)

locale toward_zero_pass =
  fixes pass :: "DispatchTarget list \<Rightarrow> DispatchTarget list"
  assumes pass_toward_zero: "list_all2 towardZero ts (pass ts)"
begin

lemma pass_length: "length (pass ts) = length ts"
  using pass_toward_zero [of ts] by (simp add: list_all2_lengthD)

lemma pass_nth: "i < length ts \<Longrightarrow> towardZero (ts ! i) (pass ts ! i)"
  using pass_toward_zero [of ts] by (simp add: list_all2_nthD)

lemma pass_drivers: "map Driver (pass ts) = map Driver ts"
  by (rule nth_equalityI) (use pass_nth in \<open>auto simp: pass_length towardZero_def\<close>)

lemma pass_keeps_bounds:
  assumes "\<forall>t \<in> set ts. - lo (Driver t) \<le> TargetW t \<and> TargetW t \<le> hi (Driver t)"
    "\<And>d. 0 \<le> lo d" "\<And>d. 0 \<le> hi d" "t \<in> set (pass ts)"
  shows "- lo (Driver t) \<le> TargetW t \<and> TargetW t \<le> hi (Driver t)"
proof -
  from assms(4) obtain i where i: "i < length ts" "t = pass ts ! i"
    by (auto simp: in_set_conv_nth pass_length)
  have "- lo (Driver (ts ! i)) \<le> TargetW (ts ! i) \<and> TargetW (ts ! i) \<le> hi (Driver (ts ! i))"
    using assms(1) i by simp
  with pass_nth [OF i(1)] assms(2,3) show ?thesis
    unfolding i(2) towardZero_def by (smt (verit, best))
qed

text \<open>A closed direction stays closed.\<close>

lemma pass_keeps_closed:
  "i < length ts \<Longrightarrow> 0 \<le> TargetW (ts ! i) \<Longrightarrow> 0 \<le> TargetW (pass ts ! i)"
  "i < length ts \<Longrightarrow> TargetW (ts ! i) \<le> 0 \<Longrightarrow> TargetW (pass ts ! i) \<le> 0"
  using pass_nth [of i ts] by (auto simp: towardZero_def)

end

lemma map_pass: "(\<And>t. towardZero t (f t)) \<Longrightarrow> toward_zero_pass (map f)"
  by unfold_locales (simp add: list_all2_conv_all_nth)

lemma pass_if: "toward_zero_pass f \<Longrightarrow> toward_zero_pass (\<lambda>ts. if c then ts else f ts)"
  by (auto simp: toward_zero_pass_def list_all2_refl)

lemma pass_compose:
  assumes "toward_zero_pass f" "toward_zero_pass g"
  shows "toward_zero_pass (\<lambda>ts. g (f ts))"
proof
  fix ts
  have "list_all2 towardZero ts (f ts)" "list_all2 towardZero (f ts) (g (f ts))"
    using assms by (simp_all add: toward_zero_pass_def)
  then show "list_all2 towardZero ts (g (f ts))"
    unfolding list_all2_conv_all_nth using towardZero_trans by metis
qed

lemma effectivePowerLimit_nonneg [simp]: "0 \<le> effectivePowerLimit v b"
  by (simp add: effectivePowerLimit_def MaxCommandW_def)

lemma caps_nonneg [simp]: "0 \<le> chargeCap l" "0 \<le> dischargeCap l"
  by (simp_all add: chargeCap_def dischargeCap_def)

interpretation floor_negative: toward_zero_pass floorNegativeTargets
  unfolding floorNegativeTargets_def [abs_def] by (rule map_pass) simp

interpretation floor_charge: toward_zero_pass "floorBlockedCharge n m" for n m
  unfolding floorBlockedCharge_def [abs_def] by (intro pass_if map_pass) simp

interpretation floor_owner: toward_zero_pass "floorBelowOwnerFloorDischarge m" for m
  unfolding floorBelowOwnerFloorDischarge_def [abs_def] by (intro pass_if map_pass) simp

interpretation floor_missing_soc: toward_zero_pass "floorMissingSoCDischarge store" for store
  unfolding floorMissingSoCDischarge_def [abs_def] by (rule map_pass) (simp split: option.split)

interpretation clamp_limits: toward_zero_pass "clampTargetsToPowerLimits limits" for limits
proof -
  have "towardZero t (let l = mgetD noLimits limits (Driver t); maxC = chargeCap l; maxD = dischargeCap l
     in if TargetW t > maxC then t\<lparr>TargetW := maxC, Clamped := True\<rparr>
        else if TargetW t < - maxD then t\<lparr>TargetW := - maxD, Clamped := True\<rparr> else t)" for t
    by (simp add: Let_def towardZero_set)
  then show "toward_zero_pass (clampTargetsToPowerLimits limits)"
    unfolding clampTargetsToPowerLimits_def [abs_def] by (rule map_pass)
qed

interpretation hold: toward_zero_pass "holdTowardZero prev" for prev
proof -
  have "towardZero t (let p = mgetD 0 prev (Driver t); w = max (min (TargetW t) (max p 0)) (min p 0)
     in if w \<noteq> TargetW t then t\<lparr>TargetW := w, Clamped := True\<rparr> else t)" for t
    unfolding Let_def by (auto intro!: towardZero_set)
  then show "toward_zero_pass (holdTowardZero prev)"
    unfolding holdTowardZero_def [abs_def] by (rule map_pass)
qed

lemma reserveDischargeW_nonpos:
  assumes "\<not> c \<le> 0" "\<not> soc \<le> Fin r" "Fin w < reserveDischargeW soc r c n"
  shows "\<exists>x \<le> 0. reserveDischargeW soc r c n = Fin x"
proof (cases soc)
  case (Fin x)
  have "0 < (if n \<le> 0 then 5 else real_of_int n)" by simp
  then show ?thesis using assms(1,2) Fin
    by (simp add: reserveDischargeW_def Let_def divide_nonpos_pos)
next
  case PInf
  then have "reserveDischargeW soc r c n = NInf"
    using assms(1) by (simp add: reserveDischargeW_def Let_def minus_f64_def times_f64_def
        uminus_f64_def divide_f64_def f64_inf_def)
  then show ?thesis using assms(3) by (simp add: less_f64_def)
next
  case NInf
  then show ?thesis using assms(2) by (simp add: less_eq_f64_def)
next
  case NaN
  then have "reserveDischargeW soc r c n = NaN"
    by (simp add: reserveDischargeW_def Let_def minus_f64_def times_f64_def uminus_f64_def divide_f64_def)
  then show ?thesis using assms(3) by simp
qed

lemma boostReserveLowerW_nonpos:
  assumes "Fin w < boostReserveLowerW r c s"
  shows "\<exists>x \<le> 0. boostReserveLowerW r c s = Fin x"
  using assms reserveDischargeW_nonpos [of c _ "BatteryBoostReserveSoC s" w]
  by (auto simp: boostReserveLowerW_def less_f64_def split: option.splits if_splits)

interpretation boost_reserve: toward_zero_pass "applyBatteryBoostReserve store state caps"
  for store state caps
proof -
  have "towardZero t (if TargetW t \<ge> 0 then t
      else let lower = boostReserveLowerW (Get (Driver t) DerBattery store) (mgetD 0 caps (Driver t)) state
           in if Fin (TargetW t) < lower then t\<lparr>TargetW := fval lower, Clamped := True\<rparr> else t)" for t
  proof (cases "Fin (TargetW t) < boostReserveLowerW (Get (Driver t) DerBattery store)
      (mgetD 0 caps (Driver t)) state")
    case True
    from boostReserveLowerW_nonpos [OF True] True show ?thesis
      by (auto intro!: towardZero_set)
  qed (simp add: Let_def)
  then show "toward_zero_pass (applyBatteryBoostReserve store state caps)"
    unfolding applyBatteryBoostReserve_def [abs_def] by (intro pass_if map_pass)
qed

section \<open>What each pass establishes\<close>

lemma held_bounds:
  assumes "min p 0 \<le> w" "w \<le> max p 0" "0 \<le> w \<and> w \<le> x \<or> x \<le> w \<and> w \<le> (0 :: real)"
  shows "\<bar>w\<bar> \<le> \<bar>p\<bar>" "\<bar>w\<bar> \<le> \<bar>x\<bar>" "0 \<le> w * x"
proof -
  show "\<bar>w\<bar> \<le> \<bar>p\<bar>" "\<bar>w\<bar> \<le> \<bar>x\<bar>" using assms by linarith+
  show "0 \<le> w * x" using assms(3) by (auto intro: mult_nonneg_nonneg mult_nonpos_nonpos)
qed

lemma floorMissingSoC_no_discharge:
  assumes "t \<in> set (floorMissingSoCDischarge store ts)" "TargetW t < 0"
  shows "\<exists>r. Get (Driver t) DerBattery store = Some r \<and> SoC r \<noteq> None"
  using assms by (auto simp: floorMissingSoCDischarge_def closeTarget_def split: if_splits option.splits)

lemma floorBlockedCharge_closed:
  assumes "t \<in> set (floorBlockedCharge n m ts)" "0 < TargetW t"
  shows "\<not> n \<and> \<not> mgetD False m (Driver t)"
  using assms by (auto simp: floorBlockedCharge_def closeTarget_def split: if_splits)

lemma floorOwner_closed:
  assumes "t \<in> set (floorBelowOwnerFloorDischarge m ts)" "TargetW t < 0"
  shows "\<not> mgetD False m (Driver t)"
  using assms by (auto simp: floorBelowOwnerFloorDischarge_def closeTarget_def split: if_splits)

lemma clamp_limits_bounds:
  assumes "t \<in> set (clampTargetsToPowerLimits limits ts)"
  shows "- dischargeCap (mgetD noLimits limits (Driver t)) \<le> TargetW t
    \<and> TargetW t \<le> chargeCap (mgetD noLimits limits (Driver t))"
proof -
  have neg: "- dischargeCap l \<le> chargeCap l" for l using caps_nonneg [of l] by linarith
  show ?thesis using assms neg by (auto simp: clampTargetsToPowerLimits_def Let_def)
qed

lemma hold_bounds:
  assumes "t \<in> set (holdTowardZero prev ts)"
  shows "min (mgetD 0 prev (Driver t)) 0 \<le> TargetW t \<and> TargetW t \<le> max (mgetD 0 prev (Driver t)) 0"
  using assms by (auto simp: holdTowardZero_def Let_def)

text \<open>Without a new meter sample dispatch may stop or reduce a battery but never raise one:
  every held target lies between 0 W and the last command sent to that battery, a battery without
  an earlier command gets 0 W, the hold itself never crosses a target over zero, and holding
  twice changes nothing.\<close>

theorem holdTowardZero_never_raises:
  "map Driver (holdTowardZero prev ts) = map Driver ts
   \<and> (\<forall>i < length ts. let w = TargetW (holdTowardZero prev ts ! i); p = mgetD 0 prev (Driver (ts ! i))
        in min p 0 \<le> w \<and> w \<le> max p 0 \<and> \<bar>w\<bar> \<le> \<bar>p\<bar> \<and> \<bar>w\<bar> \<le> \<bar>TargetW (ts ! i)\<bar> \<and> 0 \<le> w * TargetW (ts ! i))
   \<and> holdTowardZero prev (holdTowardZero prev ts) = holdTowardZero prev ts"
proof (intro conjI)
  show "map Driver (holdTowardZero prev ts) = map Driver ts" by (rule hold.pass_drivers)
  show "\<forall>i < length ts. let w = TargetW (holdTowardZero prev ts ! i); p = mgetD 0 prev (Driver (ts ! i))
      in min p 0 \<le> w \<and> w \<le> max p 0 \<and> \<bar>w\<bar> \<le> \<bar>p\<bar> \<and> \<bar>w\<bar> \<le> \<bar>TargetW (ts ! i)\<bar> \<and> 0 \<le> w * TargetW (ts ! i)"
  proof (intro allI impI)
    fix i
    assume i: "i < length ts"
    let ?t = "holdTowardZero prev ts ! i"
    have "?t \<in> set (holdTowardZero prev ts)" using i by (simp add: hold.pass_length)
    from hold_bounds [OF this] have b: "min (mgetD 0 prev (Driver (ts ! i))) 0 \<le> TargetW ?t"
      "TargetW ?t \<le> max (mgetD 0 prev (Driver (ts ! i))) 0"
      using hold.pass_nth [OF i, of prev] by (simp_all add: towardZero_def)
    have "0 \<le> TargetW ?t \<and> TargetW ?t \<le> TargetW (ts ! i) \<or> TargetW (ts ! i) \<le> TargetW ?t \<and> TargetW ?t \<le> 0"
      using hold.pass_nth [OF i, of prev] by (simp add: towardZero_def)
    from b held_bounds [OF b this]
    show "let w = TargetW ?t; p = mgetD 0 prev (Driver (ts ! i))
      in min p 0 \<le> w \<and> w \<le> max p 0 \<and> \<bar>w\<bar> \<le> \<bar>p\<bar> \<and> \<bar>w\<bar> \<le> \<bar>TargetW (ts ! i)\<bar> \<and> 0 \<le> w * TargetW (ts ! i)"
      unfolding Let_def by blast
  qed
  have "holdTowardZero prev (us :: DispatchTarget list) = us"
    if "\<forall>t \<in> set us. min (mgetD 0 prev (Driver t)) 0 \<le> TargetW t \<and> TargetW t \<le> max (mgetD 0 prev (Driver t)) 0" for us
    unfolding holdTowardZero_def using that by (intro map_idI) (simp add: Let_def min_absorb1 max_absorb1)
  then show "holdTowardZero prev (holdTowardZero prev ts) = holdTowardZero prev ts"
    using hold_bounds by blast
qed

theorem holdTowardZero_never_raises_witness:
  "\<bar>TargetW (holdTowardZero [(''b'', -1000)] [\<lparr>Driver = ''b'', TargetW = -4000, Clamped = False\<rparr>] ! 0)\<bar> \<le> 1000"
  using holdTowardZero_never_raises [of "[(''b'', -1000)]" "[\<lparr>Driver = ''b'', TargetW = -4000, Clamped = False\<rparr>]"]
  by (simp add: mgetD_def Let_def)

end
