(* ===== verification/Battery_Full.thy ===== *)
theory Battery_Full
  imports Dispatch_Passes
begin

text \<open>
  The full-battery stop (\<open>battery_full.go\<close>): a battery at its charge ceiling is paused and stays
  paused until its state of charge is one percentage point lower; a pause closes the charge
  direction of every command, also on ticks that would otherwise send none.
\<close>

definition batteryChargeHysteresisSoC :: real where "batteryChargeHysteresisSoC = 1 / 100"

definition BatteryChargeResumeSoC :: "string \<Rightarrow> State \<Rightarrow> real" where
  "BatteryChargeResumeSoC driver s = max 0 (socCeiling (limitsOf s driver) - batteryChargeHysteresisSoC)"

definition BatteryChargePaused :: "string \<Rightarrow> State \<Rightarrow> bool" where
  "BatteryChargePaused driver s = mgetD False (batteryChargeFull s) driver"

text \<open>The state of charge the update acts on: present, of an online driver, fresh and a fraction.\<close>

definition usableSoC :: "Store \<Rightarrow> State \<Rightarrow> string \<Rightarrow> real option" where
  "usableSoC store s name =
     (case (Get name DerBattery store, DriverHealthOf name store) of
        (Some r, Some h) \<Rightarrow>
          (case SoC r of
             None \<Rightarrow> None
           | Some soc \<Rightarrow>
               let age = tsub (clock s) (SoCUpdatedAt r)
               in if \<not> IsOnline h \<or> age < 0 \<or> age > BatterySoCMaxAge \<or> \<not> isFinite soc
                     \<or> soc < Fin 0 \<or> soc > Fin 1
                  then None else Some (fval soc))
      | _ \<Rightarrow> None)"

definition chargeFullStep :: "Store \<Rightarrow> State \<Rightarrow> (string, bool) gomap \<Rightarrow> string \<Rightarrow> (string, bool) gomap" where
  "chargeFullStep store s full name =
     (case usableSoC store s name of
        None \<Rightarrow> full
      | Some soc \<Rightarrow>
          if soc \<ge> socCeiling (limitsOf s name) then mset_at name True full
          else if soc \<le> BatteryChargeResumeSoC name s then mdel name full
          else full)"

definition updateBatteryChargeFull :: "Store \<Rightarrow> (string, real) gomap \<Rightarrow> State \<Rightarrow> State" where
  "updateBatteryChargeFull store capacities s =
     (let full = filter (\<lambda>(name, _). mget capacities name \<noteq> None) (batteryChargeFull s)
      in s\<lparr>batteryChargeFull := foldl (chargeFullStep store s) full (map fst capacities)\<rparr>)"

definition floorFullBatteryCharge :: "State \<Rightarrow> DispatchTarget list \<Rightarrow> DispatchTarget list" where
  "floorFullBatteryCharge s ts =
     map (\<lambda>t. if TargetW t > 0 \<and> BatteryChargePaused (Driver t) s then closeTarget t else t) ts"

text \<open>One pass of the loop in \<open>stopFullBatteries\<close>: the stop it appends for a battery, if any.\<close>

definition needsStop :: "Store \<Rightarrow> (string \<Rightarrow> bool) \<Rightarrow> State \<Rightarrow> string \<Rightarrow> bool" where
  "needsStop store isSeen s name =
     (if isSeen name \<or> \<not> BatteryChargePaused name s then False
      else case (Get name DerBattery store, DriverHealthOf name store) of
        (Some r, Some h) \<Rightarrow> IsOnline h \<and> \<not> (mgetD 0 (PrevTargets s) name \<le> 0 \<and> RawW r \<le> Fin 100)
      | _ \<Rightarrow> False)"

fun stopLoop :: "Store \<Rightarrow> (string \<Rightarrow> bool) \<Rightarrow> string list \<Rightarrow> DispatchTarget list \<times> State \<Rightarrow> DispatchTarget list \<times> State" where
  "stopLoop store isSeen [] (ts, s) = (ts, s)"
| "stopLoop store isSeen (name # names) (ts, s) =
     (if needsStop store isSeen s name
      then stopLoop store isSeen names
             (ts @ [\<lparr>Driver = name, TargetW = 0, Clamped = True\<rparr>], s\<lparr>PrevTargets := mset_at name 0 (PrevTargets s)\<rparr>)
      else stopLoop store isSeen names (ts, s))"

definition stopFullBatteries ::
  "Store \<Rightarrow> (string, real) gomap \<Rightarrow> DispatchTarget list \<Rightarrow> State \<Rightarrow> DispatchTarget list \<times> State" where
  "stopFullBatteries store capacities ts s =
     (let isSeen = (\<lambda>name. list_ex (\<lambda>t. Driver t = name) ts);
          (ts, s) = stopLoop store isSeen (map fst capacities) (ts, s)
      in (floorFullBatteryCharge s ts, s))"

section \<open>Lemmas\<close>

interpretation floor_full: toward_zero_pass "floorFullBatteryCharge s" for s
  unfolding floorFullBatteryCharge_def [abs_def] by (rule map_pass) simp

lemma floorFull_closed:
  "t \<in> set (floorFullBatteryCharge s ts) \<Longrightarrow> 0 < TargetW t \<Longrightarrow> \<not> BatteryChargePaused (Driver t) s"
  by (auto simp: floorFullBatteryCharge_def closeTarget_def split: if_splits)

lemma chargeFullStep_other: "n \<noteq> name \<Longrightarrow> mget (chargeFullStep store s full n) name = mget full name"
  by (auto simp: chargeFullStep_def split: option.splits)

lemma chargeFull_fold_other:
  "name \<notin> set ns \<Longrightarrow> mget (foldl (chargeFullStep store s) full ns) name = mget full name"
  by (induction ns arbitrary: full) (auto simp: chargeFullStep_other)

lemma chargeFull_fold:
  "distinct ns \<Longrightarrow> mget (foldl (chargeFullStep store s) full ns) name =
     (if name \<in> set ns then mget (chargeFullStep store s full name) name else mget full name)"
proof (induction ns arbitrary: full)
  case (Cons n ns)
  have "mget (chargeFullStep store s (chargeFullStep store s full n) name) name
      = mget (chargeFullStep store s full name) name" if "n \<noteq> name"
    using that chargeFullStep_other [OF that, of store s full]
    by (auto simp: chargeFullStep_def [of store s _ name] split: option.splits)
  then show ?case using Cons by (auto simp: chargeFullStep_other chargeFull_fold_other)
qed simp

lemma map_of_filter_key: "mget (filter (\<lambda>(k, _). P k) m) k = (if P k then mget m k else None)"
  by (induction m) auto

lemma paused_after_update:
  assumes "gomap_ok capacities"
  shows "BatteryChargePaused name (updateBatteryChargeFull store capacities s) =
    (if mget capacities name = None then False
     else case usableSoC store s name of
       None \<Rightarrow> BatteryChargePaused name s
     | Some soc \<Rightarrow>
         if soc \<ge> socCeiling (limitsOf s name) then True
         else if soc \<le> BatteryChargeResumeSoC name s then False
         else BatteryChargePaused name s)"
proof -
  have d: "distinct (map fst capacities)" using assms by (simp add: gomap_ok_def)
  have m: "name \<in> set (map fst capacities) \<longleftrightarrow> mget capacities name \<noteq> None"
    by (simp add: map_of_eq_None_iff)
  show ?thesis
    unfolding updateBatteryChargeFull_def BatteryChargePaused_def mgetD_def
    using m by (simp add: Let_def chargeFull_fold [OF d] chargeFullStep_def map_of_filter_key
        split: option.splits)
qed

lemma stopLoop_paused [simp]:
  "BatteryChargePaused d (snd (stopLoop store isSeen ns (ts, s))) = BatteryChargePaused d s"
proof (induction ns arbitrary: ts s)
  case (Cons n ns)
  have "BatteryChargePaused d (s\<lparr>PrevTargets := x\<rparr>) = BatteryChargePaused d s" for x
    by (simp add: BatteryChargePaused_def)
  then show ?case using Cons by simp
qed simp

text \<open>What the loop appends and what it leaves in front.\<close>

lemma stopLoop_appends:
  "\<exists>us. fst (stopLoop store isSeen ns (ts, s)) = ts @ us \<and> (\<forall>u \<in> set us. TargetW u = 0)"
proof (induction ns arbitrary: ts s)
  case (Cons n ns)
  show ?case
  proof (cases "needsStop store isSeen s n")
    case True
    then show ?thesis
      using Cons.IH [of "ts @ [\<lparr>Driver = n, TargetW = 0, Clamped = True\<rparr>]"
          "s\<lparr>PrevTargets := mset_at n 0 (PrevTargets s)\<rparr>"] by auto
  next
    case False
    then show ?thesis using Cons.IH by simp
  qed
qed simp

lemma needsStop_frame:
  "n \<noteq> name \<Longrightarrow> needsStop store isSeen (s\<lparr>PrevTargets := mset_at n 0 (PrevTargets s)\<rparr>) name
     = needsStop store isSeen s name"
  by (simp add: needsStop_def BatteryChargePaused_def split: option.split)

lemma stopLoop_stops:
  assumes "name \<in> set ns" "distinct ns" "needsStop store isSeen s name"
  shows "\<lparr>Driver = name, TargetW = 0, Clamped = True\<rparr> \<in> set (fst (stopLoop store isSeen ns (ts, s)))"
  using assms
proof (induction ns arbitrary: ts s)
  case (Cons n ns)
  show ?case
  proof (cases "n = name")
    case True
    then show ?thesis
      using Cons.prems stopLoop_appends [of store isSeen ns
          "ts @ [\<lparr>Driver = name, TargetW = 0, Clamped = True\<rparr>]" "s\<lparr>PrevTargets := mset_at name 0 (PrevTargets s)\<rparr>"]
      by auto
  next
    case False
    then show ?thesis using Cons by (auto simp: needsStop_frame)
  qed
qed simp

section \<open>Properties\<close>

text \<open>The charge pause has hysteresis and rests on evidence: it changes only on a fresh state of
  charge (a fraction, at most five minutes old) of an online battery; it starts only at or above
  the battery's ceiling and ends only a percentage point below it or when the battery is no longer
  configured; between the two it does not move.\<close>

theorem charge_pause_hysteresis:
  assumes "gomap_ok capacities"
    "BatteryChargePaused name (updateBatteryChargeFull store capacities s) \<noteq> BatteryChargePaused name s"
  shows "mget capacities name = None \<and> BatteryChargePaused name s
    \<or> (\<exists>soc. usableSoC store s name = Some soc \<and> 0 \<le> soc \<and> soc \<le> 1
        \<and> (if BatteryChargePaused name s then soc \<le> max 0 (socCeiling (limitsOf s name) - 1 / 100)
           else socCeiling (limitsOf s name) \<le> soc))"
proof (cases "mget capacities name")
  case None
  then show ?thesis using assms by (simp add: paused_after_update)
next
  case (Some c)
  with assms obtain soc where soc: "usableSoC store s name = Some soc"
    by (auto simp: paused_after_update split: option.splits)
  have "0 \<le> soc \<and> soc \<le> 1"
    using soc by (auto simp: usableSoC_def Let_def isFinite_iff split: option.splits if_splits)
  then show ?thesis
    using assms Some soc
    by (auto simp: paused_after_update BatteryChargeResumeSoC_def batteryChargeHysteresisSoC_def
        split: if_splits)
qed

definition fullBattery :: "real \<Rightarrow> Store" where
  "fullBattery soc = (NewStore 0)\<lparr>
     readings := [(key ''b'' DerBattery, \<lparr>rDriver = ''b'', rDerType = DerBattery, RawW = Fin 3000,
        SmoothedW = Fin 3000, SoC = Some (Fin soc), SoCUpdatedAt = 0, Data = Empty, UpdatedAt = 0\<rparr>)],
     health := [(''b'', RecordSuccess 0 (newHealth ''b'' 0))]\<rparr>"

lemma fullBattery_simps:
  "Get ''b'' DerBattery (fullBattery soc) = Some \<lparr>rDriver = ''b'', rDerType = DerBattery,
     RawW = Fin 3000, SmoothedW = Fin 3000, SoC = Some (Fin soc), SoCUpdatedAt = 0, Data = Empty, UpdatedAt = 0\<rparr>"
  "DriverHealthOf ''b'' (fullBattery soc) = Some (RecordSuccess 0 (newHealth ''b'' 0))"
  by (simp_all add: fullBattery_def Get_def DriverHealthOf_def)

theorem charge_pause_hysteresis_witness:
  "\<exists>soc. usableSoC (fullBattery 1) (NewState 0 50 ''m'' (\<lambda>_. 0) 0) ''b'' = Some soc \<and> 1 \<le> soc"
proof -
  let ?s = "NewState 0 50 ''m'' (\<lambda>_. 0) 0"
  have u: "usableSoC (fullBattery 1) ?s ''b'' = Some 1"
    by (simp add: usableSoC_def fullBattery_simps NewState_def RecordSuccess_def newHealth_def
        IsOnline_def BatterySoCMaxAge_def time_simps)
  have c: "socCeiling (limitsOf ?s ''b'') = 1"
    by (simp add: limitsOf_def NewState_def noLimits_def socCeiling_def)
  have p: "\<not> BatteryChargePaused ''b'' ?s" by (simp add: BatteryChargePaused_def NewState_def)
  have ok: "gomap_ok [(''b'', 10000 :: real)]" by (simp add: gomap_ok_def)
  have "BatteryChargePaused ''b'' (updateBatteryChargeFull (fullBattery 1) [(''b'', 10000)] ?s)"
    by (simp add: paused_after_update [OF ok] u c)
  with charge_pause_hysteresis [OF ok, of "''b''" "fullBattery 1" ?s] p c show ?thesis by auto
qed

text \<open>A full battery is stopped on every tick: afterwards no target charges a paused battery,
  every command that was already there keeps its place and only charge to a paused battery is
  withdrawn from it (fuse-relief discharge survives), and a paused online battery whose last order
  or measured power still charges gets a 0 W command even on a tick that sent none.\<close>

theorem full_batteries_are_stopped:
  assumes "gomap_ok capacities" "(out, s') = stopFullBatteries store capacities ts s"
  shows "(\<forall>t \<in> set out. 0 < TargetW t \<longrightarrow> \<not> BatteryChargePaused (Driver t) s)
    \<and> list_all2 (\<lambda>t t'. t' = (if 0 < TargetW t \<and> BatteryChargePaused (Driver t) s then closeTarget t else t))
        ts (take (length ts) out)
    \<and> (\<forall>name r h. mget capacities name \<noteq> None \<and> BatteryChargePaused name s
         \<and> Get name DerBattery store = Some r \<and> DriverHealthOf name store = Some h \<and> IsOnline h
         \<and> (0 < mgetD 0 (PrevTargets s) name \<or> RawW r > Fin 100) \<longrightarrow>
         (\<exists>t \<in> set out. Driver t = name \<and> TargetW t \<le> 0))"
proof -
  let ?isSeen = "\<lambda>name. list_ex (\<lambda>t. Driver t = name) ts"
  let ?loop = "stopLoop store ?isSeen (map fst capacities) (ts, s)"
  let ?close = "\<lambda>t. if 0 < TargetW t \<and> BatteryChargePaused (Driver t) s then closeTarget t else t"
  obtain us where us: "fst ?loop = ts @ us" using stopLoop_appends by blast
  have floor: "floorFullBatteryCharge (snd ?loop) xs = map ?close xs" for xs
    by (simp add: floorFullBatteryCharge_def)
  have out: "out = map ?close (fst ?loop)"
    using assms(2) floor by (simp add: stopFullBatteries_def case_prod_beta Let_def)
  have closed: "Driver (?close t) = Driver t \<and> (BatteryChargePaused (Driver t) s \<longrightarrow> TargetW (?close t) \<le> 0)" for t
    by (simp add: closeTarget_def)
  have stopped: "\<exists>t \<in> set out. Driver t = name \<and> TargetW t \<le> 0"
    if name: "mget capacities name \<noteq> None" "BatteryChargePaused name s" "Get name DerBattery store = Some r"
      "DriverHealthOf name store = Some h" "IsOnline h" "0 < mgetD 0 (PrevTargets s) name \<or> RawW r > Fin 100"
    for name r h
  proof (cases "?isSeen name")
    case True
    then obtain t where "t \<in> set ts" "Driver t = name" by (auto simp: list_ex_iff)
    then have "t \<in> set (fst ?loop)" by (simp only: us) simp
    then show ?thesis using closed [of t] name(2) \<open>Driver t = name\<close> unfolding out by force
  next
    case False
    have "\<not> (mgetD 0 (PrevTargets s) name \<le> 0 \<and> RawW r \<le> Fin 100)"
      using name(6) by (cases "RawW r") (auto simp: less_f64_def less_eq_f64_def)
    then have "needsStop store ?isSeen s name" using name False by (simp add: needsStop_def)
    moreover have "name \<in> set (map fst capacities)" using name(1) by (simp add: map_of_eq_None_iff)
    ultimately have "\<lparr>Driver = name, TargetW = 0, Clamped = True\<rparr> \<in> set (fst ?loop)"
      using assms(1) by (intro stopLoop_stops) (simp_all add: gomap_ok_def)
    then show ?thesis by (force simp: out)
  qed
  have "take (length ts) out = map ?close ts" by (simp add: out us)
  then have "list_all2 (\<lambda>t t'. t' = ?close t) ts (take (length ts) out)"
    by (simp add: list_all2_conv_all_nth)
  moreover have "\<forall>t \<in> set out. 0 < TargetW t \<longrightarrow> \<not> BatteryChargePaused (Driver t) s"
    by (auto simp: out closeTarget_def split: if_splits)
  ultimately show ?thesis using stopped by blast
qed

theorem full_batteries_are_stopped_witness:
  "\<exists>t \<in> set (fst (stopFullBatteries (fullBattery 1) [(''b'', 10000)] []
      ((NewState 0 50 ''m'' (\<lambda>_. 0) 0)\<lparr>batteryChargeFull := [(''b'', True)]\<rparr>))). Driver t = ''b'' \<and> TargetW t \<le> 0"
proof -
  let ?s = "(NewState 0 50 ''m'' (\<lambda>_. 0) 0)\<lparr>batteryChargeFull := [(''b'', True)]\<rparr>"
  have "gomap_ok [(''b'', 10000 :: real)]" by (simp add: gomap_ok_def)
  from full_batteries_are_stopped [OF this surjective_pairing [symmetric], of "fullBattery 1" "[]" ?s]
  show ?thesis
    by (simp add: fullBattery_simps BatteryChargePaused_def mgetD_def RecordSuccess_def newHealth_def
        IsOnline_def)
qed

end
