(* ===== verification/Dispatch_Split.thy ===== *)
theory Dispatch_Split
  imports Dispatch_Passes "HOL-Library.Multiset"
begin

text \<open>
  How the dispatcher splits a fleet power over the batteries (\<open>dispatch.go\<close>): the per-battery
  clamp, the capacity-proportional split, the split that prefers batteries on an inverter with
  live PV, the exclusion of batteries that cannot move in the demanded direction, and the scoped
  manual hold. Targets and readings here have passed the store and are finite.
\<close>

record batteryInfo =
  driver :: string
  capacityWh :: real
  currentW :: real
  soc :: real
  online :: bool
  group :: string
  maxChargeW :: real
  maxDischargeW :: real
  maxChargeWSet :: bool
  maxDischargeWSet :: bool
  dischargeBlocked :: bool
  chargeBlocked :: bool
  socMissing :: bool
  belowOwnerFloor :: bool

definition batChargeCap :: "batteryInfo \<Rightarrow> real" where
  "batChargeCap b = effectivePowerLimit (maxChargeW b) (maxChargeWSet b)"

definition batDischargeCap :: "batteryInfo \<Rightarrow> real" where
  "batDischargeCap b = effectivePowerLimit (maxDischargeW b) (maxDischargeWSet b)"

definition clampWithSoC :: "real \<Rightarrow> batteryInfo \<Rightarrow> real \<times> bool" where
  "clampWithSoC targetW b =
     (let (clamped, was) = (if soc b \<le> dischargeFloorSoC \<and> targetW < 0 then (0, True) else (targetW, False))
      in if clamped > batChargeCap b then (batChargeCap b, True)
         else if clamped < - batDischargeCap b then (- batDischargeCap b, True)
         else (clamped, was))"

definition clampedTarget :: "real \<Rightarrow> batteryInfo \<Rightarrow> DispatchTarget" where
  "clampedTarget targetW b =
     (let (clamped, was) = clampWithSoC targetW b
      in \<lparr>Driver = driver b, TargetW = clamped, Clamped = was\<rparr>)"

definition distributeScopedManualHold :: "batteryInfo list \<Rightarrow> string \<Rightarrow> real \<Rightarrow> DispatchTarget list" where
  "distributeScopedManualHold bats d powerW =
     map (\<lambda>b. clampedTarget (if driver b = d then powerW else 0) b) bats"

definition distributeByCapacity :: "batteryInfo list \<Rightarrow> real \<Rightarrow> real \<Rightarrow> DispatchTarget list" where
  "distributeByCapacity bats desiredTotal totalCap =
     map (\<lambda>b. clampedTarget (desiredTotal * (capacityWh b / totalCap)) b) bats"

text \<open>The loop that fills \<open>totalCap\<close> and \<open>capByGroup\<close>.\<close>

definition totalCapOf :: "batteryInfo list \<Rightarrow> real" where
  "totalCapOf bats = foldl (\<lambda>c b. c + capacityWh b) 0 bats"

definition capByGroup :: "batteryInfo list \<Rightarrow> (string, real) gomap" where
  "capByGroup bats = foldl (\<lambda>m b. mset_at (group b) (mgetD 0 m (group b) + capacityWh b) m) [] bats"

definition totalPVOf :: "(string, real) gomap \<Rightarrow> (string, real) gomap \<Rightarrow> real" where
  "totalPVOf caps groupPV = foldl (\<lambda>t (g, w). if mgetD 0 caps g > 0 then t + w else t) 0 groupPV"

definition pvShare ::
  "(string, real) gomap \<Rightarrow> (string, real) gomap \<Rightarrow> real \<Rightarrow> real \<Rightarrow> batteryInfo \<Rightarrow> real" where
  "pvShare caps groupPV totalPV localCap b =
     (let capG = mgetD 0 caps (group b); pv = mgetD 0 groupPV (group b)
      in if capG > 0 \<and> pv > 0 then pv / totalPV * localCap * (capacityWh b / capG) else 0)"

definition splitByCapacityAndPV :: "batteryInfo list \<Rightarrow> real \<Rightarrow> (string, real) gomap \<Rightarrow> DispatchTarget list" where
  "splitByCapacityAndPV bats desiredTotal groupPV =
     (let totalCap = totalCapOf bats; caps = capByGroup bats
      in if totalCap \<le> 0 then []
         else let totalPV = totalPVOf caps groupPV
              in if desiredTotal \<le> 0 \<or> totalPV \<le> 0 then distributeByCapacity bats desiredTotal totalCap
                 else let localCap = min desiredTotal totalPV; overflow = desiredTotal - localCap
                      in map (\<lambda>b. clampedTarget (pvShare caps groupPV totalPV localCap b
                                + overflow * (capacityWh b / totalCap)) b) bats)"

definition blockedFor :: "real \<Rightarrow> batteryInfo \<Rightarrow> bool" where
  "blockedFor desiredTotal b = (if desiredTotal > 0 then chargeBlocked b else dischargeBlocked b)"

definition distributeProportional ::
  "batteryInfo list \<Rightarrow> real \<Rightarrow> (string, real) gomap \<Rightarrow> DispatchTarget list" where
  "distributeProportional bats totalCorrection groupPV =
     (let currentTotal = foldl (\<lambda>c b. c + currentW b) 0 bats;
          desiredTotal = currentTotal + totalCorrection;
          capable = filter (\<lambda>b. \<not> blockedFor desiredTotal b) bats;
          parked = map (\<lambda>b. \<lparr>Driver = driver b, TargetW = 0, Clamped = True\<rparr>)
                     (filter (blockedFor desiredTotal) bats)
      in if desiredTotal \<noteq> 0 \<and> parked \<noteq> []
         then splitByCapacityAndPV capable desiredTotal groupPV @ parked
         else splitByCapacityAndPV bats desiredTotal groupPV)"

section \<open>Predicates over the fleet\<close>

definition floorStandbyW :: real where "floorStandbyW = 50"

definition setOf :: "(batteryInfo \<Rightarrow> bool) \<Rightarrow> batteryInfo list \<Rightarrow> (string, bool) gomap" where
  "setOf P bats = foldl (\<lambda>m b. if \<not> P b then m else mset_at (driver b) True m) [] bats"

definition chargeBlockedDrivers :: "batteryInfo list \<Rightarrow> (string, bool) gomap" where
  "chargeBlockedDrivers bats = setOf chargeBlocked bats"

definition belowOwnerFloorDrivers :: "batteryInfo list \<Rightarrow> (string, bool) gomap" where
  "belowOwnerFloorDrivers bats = setOf belowOwnerFloor bats"

definition dischargingAtFloor :: "batteryInfo \<Rightarrow> (string, real) gomap \<Rightarrow> bool" where
  "dischargingAtFloor b prev =
     (currentW b < - floorStandbyW \<or> currentW b < -1 \<and> mgetD 0 prev (driver b) < 0)"

definition anyBelowOwnerFloorDischarging :: "batteryInfo list \<Rightarrow> (string, real) gomap \<Rightarrow> bool" where
  "anyBelowOwnerFloorDischarging bats prev =
     list_ex (\<lambda>b. belowOwnerFloor b \<and> dischargingAtFloor b prev) bats"

definition anyAtHardFloorDischarging :: "batteryInfo list \<Rightarrow> (string, real) gomap \<Rightarrow> bool" where
  "anyAtHardFloorDischarging bats prev =
     list_ex (\<lambda>b. \<not> socMissing b \<and> soc b \<le> dischargeFloorSoC \<and> dischargingAtFloor b prev) bats"

definition anyBatteryDischarging :: "batteryInfo list \<Rightarrow> bool" where
  "anyBatteryDischarging bats = list_ex (\<lambda>b. currentW b < -1) bats"

definition anyExplicitZeroDischargeViolation :: "batteryInfo list \<Rightarrow> bool" where
  "anyExplicitZeroDischargeViolation bats =
     list_ex (\<lambda>b. maxDischargeWSet b \<and> maxDischargeW b = 0 \<and> currentW b < -1) bats"

definition anyBlockedBatteryCharging :: "batteryInfo list \<Rightarrow> bool \<Rightarrow> bool" where
  "anyBlockedBatteryCharging bats noSelfCharge =
     list_ex (\<lambda>b. \<not> currentW b \<le> 1 \<and> (noSelfCharge \<or> chargeBlocked b)) bats"

section \<open>The clamp\<close>

lemma bat_caps_nonneg [simp]: "0 \<le> batChargeCap b" "0 \<le> batDischargeCap b"
  by (simp_all add: batChargeCap_def batDischargeCap_def)

lemma clampedTarget_driver [simp]: "Driver (clampedTarget w b) = driver b"
  by (simp add: clampedTarget_def case_prod_beta)

lemma clampedTarget_bounds:
  "- batDischargeCap b \<le> TargetW (clampedTarget w b)" "TargetW (clampedTarget w b) \<le> batChargeCap b"
  using bat_caps_nonneg [of b]
  by (simp_all add: clampedTarget_def clampWithSoC_def del: bat_caps_nonneg)

lemma clampedTarget_toward_zero:
  "0 \<le> w \<Longrightarrow> 0 \<le> TargetW (clampedTarget w b) \<and> TargetW (clampedTarget w b) \<le> w"
  "w \<le> 0 \<Longrightarrow> w \<le> TargetW (clampedTarget w b) \<and> TargetW (clampedTarget w b) \<le> 0"
  using bat_caps_nonneg [of b]
  by (simp_all add: clampedTarget_def clampWithSoC_def del: bat_caps_nonneg)

lemma clampedTarget_empty:
  "soc b \<le> dischargeFloorSoC \<Longrightarrow> 0 \<le> TargetW (clampedTarget w b)"
  using bat_caps_nonneg [of b]
  by (simp add: clampedTarget_def clampWithSoC_def del: bat_caps_nonneg)

lemma clampedTarget_unclamped: "\<not> Clamped (clampedTarget w b) \<Longrightarrow> TargetW (clampedTarget w b) = w"
  by (auto simp: clampedTarget_def clampWithSoC_def split: if_splits)

lemma clampedTarget_clamped: "Clamped (clampedTarget w b) \<longleftrightarrow> TargetW (clampedTarget w b) \<noteq> w"
  using bat_caps_nonneg [of b]
  by (auto simp: clampedTarget_def clampWithSoC_def simp del: bat_caps_nonneg)

section \<open>Sums\<close>

lemma foldl_sum: "foldl (\<lambda>c b. c + f b) x bs = x + sum_list (map f bs)" for f :: "'a \<Rightarrow> real"
  by (induction bs arbitrary: x) auto

lemma totalCapOf_sum: "totalCapOf bats = sum_list (map capacityWh bats)"
  by (simp add: totalCapOf_def foldl_sum)

lemma capByGroup_fold:
  "mgetD 0 (foldl (\<lambda>m b. mset_at (group b) (mgetD 0 m (group b) + capacityWh b) m) m bats) g
    = mgetD 0 m g + sum_list (map capacityWh (filter (\<lambda>b. group b = g) bats))"
  by (induction bats arbitrary: m) auto

lemma capByGroup_sum: "mgetD 0 (capByGroup bats) g = sum_list (map capacityWh (filter (\<lambda>b. group b = g) bats))"
  by (simp add: capByGroup_def capByGroup_fold)

lemma totalPVOf_sum:
  "totalPVOf caps groupPV = sum_list (map (\<lambda>(g, w). if mgetD 0 caps g > 0 then w else 0) groupPV)"
proof -
  have "foldl (\<lambda>t (g, w). if mgetD 0 caps g > 0 then t + w else t) x groupPV
      = x + sum_list (map (\<lambda>(g, w). if mgetD 0 caps g > 0 then w else 0) groupPV)" for x
    by (induction groupPV arbitrary: x) auto
  then show ?thesis by (simp add: totalPVOf_def)
qed

text \<open>The PV shares of all batteries add up to the PV that has a battery to go to.\<close>

lemma pv_shares_sum:
  assumes "gomap_ok groupPV" "\<forall>(g, w) \<in> set groupPV. 0 \<le> w"
  shows "sum_list (map (\<lambda>b. if C (group b) > 0 \<and> mgetD 0 groupPV (group b) > 0
        then mgetD 0 groupPV (group b) * capacityWh b / C (group b) else 0) bats)
    = sum_list (map (\<lambda>(g, w). if C g > 0 then w * sum_list (map capacityWh (filter (\<lambda>b. group b = g) bats)) / C g else 0) groupPV)"
  using assms
proof (induction groupPV)
  case Nil
  show ?case by (simp add: sum_list_0 flip: map_replicate_const)
next
  case (Cons p m)
  obtain g w where p: "p = (g, w)" by force
  have fresh: "mget m g = None" and ok: "gomap_ok m" and w: "0 \<le> w"
    using Cons.prems by (auto simp: gomap_ok_def p map_of_eq_None_iff)
  let ?f = "\<lambda>m b. if C (group b) > 0 \<and> mgetD 0 m (group b) > 0
      then mgetD 0 m (group b) * capacityWh b / C (group b) else 0"
  let ?h = "\<lambda>b. if group b = g \<and> C g > 0 then w * capacityWh b / C g else 0"
  have split: "?f (p # m) b = ?h b + ?f m b" for b
    using fresh w by (auto simp: p mgetD_def)
  have "sum_list (map ?h bats) = (if C g > 0 then w * sum_list (map capacityWh (filter (\<lambda>b. group b = g) bats)) / C g else 0)"
    by (induction bats) (auto simp: algebra_simps add_divide_distrib)
  moreover have "sum_list (map (?f (p # m)) bats) = sum_list (map ?h bats) + sum_list (map (?f m) bats)"
    by (simp only: split sum_list_addf)
  moreover have "sum_list (map (?f m) bats) = sum_list (map (\<lambda>(g, w). if C g > 0
      then w * sum_list (map capacityWh (filter (\<lambda>b. group b = g) bats)) / C g else 0) m)"
    using Cons.IH ok Cons.prems(2) by simp
  ultimately show ?case by (simp only: list.map sum_list.Cons p case_prod_conv)
qed

section \<open>Shares before the clamp\<close>

definition fleetShare :: "batteryInfo list \<Rightarrow> real \<Rightarrow> (string, real) gomap \<Rightarrow> batteryInfo \<Rightarrow> real" where
  "fleetShare bats D groupPV b =
     (let totalCap = totalCapOf bats; caps = capByGroup bats; totalPV = totalPVOf caps groupPV;
          localCap = min D totalPV
      in if D \<le> 0 \<or> totalPV \<le> 0 then D * (capacityWh b / totalCap)
         else pvShare caps groupPV totalPV localCap b + (D - localCap) * (capacityWh b / totalCap))"

lemma split_as_shares:
  "0 < totalCapOf bats \<Longrightarrow>
     splitByCapacityAndPV bats D groupPV = map (\<lambda>b. clampedTarget (fleetShare bats D groupPV b) b) bats"
  by (auto simp: splitByCapacityAndPV_def fleetShare_def distributeByCapacity_def Let_def)

lemma capacity_shares_sum:
  assumes "0 < totalCapOf bats"
  shows "sum_list (map (\<lambda>b. D * (capacityWh b / totalCapOf bats)) bats) = D"
proof -
  have "sum_list (map (\<lambda>b. D * (capacityWh b / totalCapOf bats)) bats)
      = D * sum_list (map capacityWh bats) / totalCapOf bats"
    by (simp add: sum_list_const_mult sum_list_mult_const divide_inverse mult.assoc)
  then show ?thesis using assms by (simp add: totalCapOf_sum)
qed

lemma pvShare_sum:
  assumes "gomap_ok groupPV" "\<forall>(g, w) \<in> set groupPV. 0 \<le> w"
    "0 < totalPVOf (capByGroup bats) groupPV"
  shows "sum_list (map (pvShare (capByGroup bats) groupPV (totalPVOf (capByGroup bats) groupPV) L) bats) = L"
proof -
  let ?caps = "capByGroup bats" and ?T = "totalPVOf (capByGroup bats) groupPV"
  let ?C = "mgetD 0 ?caps"
  let ?f = "\<lambda>b. if ?C (group b) > 0 \<and> mgetD 0 groupPV (group b) > 0
      then mgetD 0 groupPV (group b) * capacityWh b / ?C (group b) else 0"
  have eq: "pvShare ?caps groupPV ?T L = (\<lambda>b. L / ?T * ?f b)"
    by (rule ext) (simp add: pvShare_def Let_def mult.commute mult.left_commute)
  have "sum_list (map (pvShare ?caps groupPV ?T L) bats) = L / ?T * sum_list (map ?f bats)"
    unfolding eq by (rule sum_list_const_mult)
  also have "sum_list (map ?f bats) = ?T"
    unfolding pv_shares_sum [OF assms(1,2), where C = ?C] totalPVOf_sum
    by (intro arg_cong [where f = sum_list] map_cong) (auto simp: capByGroup_sum)
  finally show ?thesis using assms(3) by simp
qed

lemma fleetShare_sum:
  assumes "gomap_ok groupPV" "\<forall>(g, w) \<in> set groupPV. 0 \<le> w" "0 < totalCapOf bats"
  shows "sum_list (map (fleetShare bats D groupPV) bats) = D"
proof (cases "D \<le> 0 \<or> totalPVOf (capByGroup bats) groupPV \<le> 0")
  case True
  then show ?thesis using capacity_shares_sum [OF assms(3), of D]
    by (simp add: fleetShare_def [abs_def])
next
  case False
  let ?T = "totalPVOf (capByGroup bats) groupPV"
  let ?L = "min D ?T"
  have "sum_list (map (fleetShare bats D groupPV) bats)
      = sum_list (map (pvShare (capByGroup bats) groupPV ?T ?L) bats)
        + sum_list (map (\<lambda>b. (D - ?L) * (capacityWh b / totalCapOf bats)) bats)"
    using False by (simp add: fleetShare_def [abs_def] Let_def flip: sum_list_addf)
  then show ?thesis
    using pvShare_sum [OF assms(1,2)] capacity_shares_sum [OF assms(3)] False by simp
qed

lemma fleetShare_sign:
  assumes "\<forall>b \<in> set bats. 0 \<le> capacityWh b" "0 < totalCapOf bats" "b \<in> set bats"
  shows "0 \<le> D \<Longrightarrow> 0 \<le> fleetShare bats D groupPV b" "D \<le> 0 \<Longrightarrow> fleetShare bats D groupPV b \<le> 0"
proof -
  have c: "0 \<le> capacityWh b / totalCapOf bats" using assms by simp
  show "0 \<le> fleetShare bats D groupPV b" if "0 \<le> D"
    using that c assms by (auto simp: fleetShare_def pvShare_def Let_def intro!: add_nonneg_nonneg mult_nonneg_nonneg)
  show "fleetShare bats D groupPV b \<le> 0" if "D \<le> 0"
    using that mult_nonpos_nonneg [OF that c] by (simp add: fleetShare_def)
qed

text \<open>Clamped shares add up to no more than the shares.\<close>

lemma clamped_sum_bounds:
  "(\<And>b. b \<in> set bs \<Longrightarrow> 0 \<le> f b) \<Longrightarrow>
     0 \<le> sum_list (map (\<lambda>b. TargetW (clampedTarget (f b) b)) bs)
     \<and> sum_list (map (\<lambda>b. TargetW (clampedTarget (f b) b)) bs) \<le> sum_list (map f bs)"
  "(\<And>b. b \<in> set bs \<Longrightarrow> f b \<le> 0) \<Longrightarrow>
     sum_list (map f bs) \<le> sum_list (map (\<lambda>b. TargetW (clampedTarget (f b) b)) bs)
     \<and> sum_list (map (\<lambda>b. TargetW (clampedTarget (f b) b)) bs) \<le> 0"
  using clampedTarget_toward_zero by (induction bs) (simp_all, smt+)

lemma unclamped_sum:
  "\<forall>b \<in> set bs. \<not> Clamped (clampedTarget (f b) b) \<Longrightarrow>
     sum_list (map (\<lambda>b. TargetW (clampedTarget (f b) b)) bs) = sum_list (map f bs)"
  by (intro arg_cong [where f = sum_list] map_cong) (simp_all add: clampedTarget_unclamped)

lemmas split_facts = split_as_shares fleetShare_sum fleetShare_sign clamped_sum_bounds unclamped_sum

section \<open>Properties\<close>

text \<open>C31: Splitting a fleet power is safe and complete: every battery gets exactly one target, inside
  its own charge and discharge caps; a battery at or under 5 % is never asked to discharge; no
  battery works against the fleet's direction; the targets never add up to more than was asked;
  and when no target had to be clamped they add up to exactly what was asked, with or without PV
  on the inverters.\<close>

theorem split_shares_fleet_power:
  assumes "gomap_ok groupPV" "\<forall>(g, w) \<in> set groupPV. 0 \<le> w" "\<forall>b \<in> set bats. 0 \<le> capacityWh b"
    "0 < totalCapOf bats" "out = splitByCapacityAndPV bats D groupPV"
  shows "map Driver out = map driver bats
    \<and> list_all2 (\<lambda>b t. - batDischargeCap b \<le> TargetW t \<and> TargetW t \<le> batChargeCap b
        \<and> (soc b \<le> dischargeFloorSoC \<longrightarrow> 0 \<le> TargetW t)
        \<and> (0 \<le> D \<longrightarrow> 0 \<le> TargetW t) \<and> (D \<le> 0 \<longrightarrow> TargetW t \<le> 0)) bats out
    \<and> \<bar>sum_list (map TargetW out)\<bar> \<le> \<bar>D\<bar>
    \<and> ((\<forall>t \<in> set out. \<not> Clamped t) \<longrightarrow> sum_list (map TargetW out) = D)"
proof -
  let ?f = "fleetShare bats D groupPV"
  have out: "out = map (\<lambda>b. clampedTarget (?f b) b) bats" by (simp add: assms(5) split_as_shares [OF assms(4)])
  have sum: "sum_list (map ?f bats) = D" by (rule fleetShare_sum [OF assms(1,2,4)])
  have tgt: "map TargetW out = map (\<lambda>b. TargetW (clampedTarget (?f b) b)) bats" by (simp add: out)
  note sgn = fleetShare_sign [OF assms(3,4), of _ D groupPV]
  have "map Driver out = map driver bats" by (simp add: out)
  moreover have "list_all2 (\<lambda>b t. - batDischargeCap b \<le> TargetW t \<and> TargetW t \<le> batChargeCap b
      \<and> (soc b \<le> dischargeFloorSoC \<longrightarrow> 0 \<le> TargetW t)
      \<and> (0 \<le> D \<longrightarrow> 0 \<le> TargetW t) \<and> (D \<le> 0 \<longrightarrow> TargetW t \<le> 0)) bats out"
    using clampedTarget_bounds clampedTarget_empty clampedTarget_toward_zero sgn
    by (simp add: out list_all2_conv_all_nth)
  moreover have "\<bar>sum_list (map TargetW out)\<bar> \<le> \<bar>D\<bar>"
  proof (cases "0 \<le> D")
    case True
    then have "0 \<le> sum_list (map TargetW out) \<and> sum_list (map TargetW out) \<le> sum_list (map ?f bats)"
      unfolding tgt using sgn(1) by (intro clamped_sum_bounds)
    then show ?thesis by (simp add: sum)
  next
    case False
    then have "sum_list (map ?f bats) \<le> sum_list (map TargetW out) \<and> sum_list (map TargetW out) \<le> 0"
      unfolding tgt using sgn(2) by (intro clamped_sum_bounds) simp
    then show ?thesis by (simp add: sum)
  qed
  moreover have "(\<forall>t \<in> set out. \<not> Clamped t) \<longrightarrow> sum_list (map TargetW out) = D"
    using unclamped_sum [of bats ?f] by (simp add: tgt sum) (simp add: out)
  ultimately show ?thesis by blast
qed

definition testBattery :: "string \<Rightarrow> real \<Rightarrow> string \<Rightarrow> batteryInfo" where
  "testBattery d c g = \<lparr>driver = d, capacityWh = c, currentW = 0, soc = 1 / 2, online = True, group = g,
     maxChargeW = 0, maxDischargeW = 0, maxChargeWSet = False, maxDischargeWSet = False,
     dischargeBlocked = False, chargeBlocked = False, socMissing = False, belowOwnerFloor = False\<rparr>"

theorem split_shares_fleet_power_witness:
  "sum_list (map TargetW (splitByCapacityAndPV [testBattery ''a'' 10000 ''x'', testBattery ''b'' 5000 ''y'']
     3000 [(''x'', 2000)])) = 3000"
proof -
  let ?bats = "[testBattery ''a'' 10000 ''x'', testBattery ''b'' 5000 ''y'']"
  let ?out = "splitByCapacityAndPV ?bats 3000 [(''x'', 2000)]"
  have "\<forall>t \<in> set ?out. \<not> Clamped t"
    by (simp add: splitByCapacityAndPV_def testBattery_def totalCapOf_def capByGroup_def totalPVOf_def
        pvShare_def clampedTarget_def clampWithSoC_def batChargeCap_def batDischargeCap_def
        effectivePowerLimit_def MaxCommandW_def dischargeFloorSoC_def mgetD_def Let_def)
  then show ?thesis
    using split_shares_fleet_power [of "[(''x'', 2000)]" ?bats ?out 3000]
    by (simp add: gomap_ok_def testBattery_def totalCapOf_def)
qed

text \<open>A battery that cannot move in the demanded direction is parked at 0 W and its share goes to
  the capable ones: every battery gets exactly one target, the parked ones 0 W, and when no capable
  battery had to be clamped the fleet total is still exactly current power plus correction.\<close>

theorem blocked_share_is_reallocated:
  assumes "gomap_ok groupPV" "\<forall>(g, w) \<in> set groupPV. 0 \<le> w" "\<forall>b \<in> set bats. 0 \<le> capacityWh b"
    "D = sum_list (map currentW bats) + corr" "D \<noteq> 0"
    "0 < totalCapOf (filter (\<lambda>b. \<not> blockedFor D b) bats)"
    "out = distributeProportional bats corr groupPV"
  shows "mset (map Driver out) = mset (map driver bats)
    \<and> (\<forall>b \<in> set bats. blockedFor D b \<longrightarrow> \<lparr>Driver = driver b, TargetW = 0, Clamped = True\<rparr> \<in> set out)
    \<and> ((\<forall>b \<in> set bats. \<forall>t \<in> set out. \<not> blockedFor D b \<and> Driver t = driver b \<longrightarrow> \<not> Clamped t)
        \<longrightarrow> sum_list (map TargetW out) = D)"
proof -
  let ?cap = "filter (\<lambda>b. \<not> blockedFor D b) bats" and ?blk = "filter (blockedFor D) bats"
  let ?park = "map (\<lambda>b. \<lparr>Driver = driver b, TargetW = 0, Clamped = True\<rparr>) ?blk"
  let ?f = "fleetShare ?cap D groupPV"
  have D: "foldl (\<lambda>c b. c + currentW b) 0 bats + corr = D" by (simp add: assms(4) foldl_sum)
  have "out = splitByCapacityAndPV ?cap D groupPV @ ?park"
    using assms(5) D by (auto simp: assms(7) distributeProportional_def Let_def filter_empty_conv filter_True)
  then have out: "out = map (\<lambda>b. clampedTarget (?f b) b) ?cap @ ?park"
    by (simp only: split_as_shares [OF assms(6)])
  have "mset (map driver ?cap) + mset (map driver ?blk) = mset (map driver bats)"
    by (induction bats) auto
  then have "mset (map Driver out) = mset (map driver bats)" by (simp add: out comp_def)
  moreover have "sum_list (map TargetW out) = D"
    if un: "\<forall>b \<in> set bats. \<forall>t \<in> set out. \<not> blockedFor D b \<and> Driver t = driver b \<longrightarrow> \<not> Clamped t"
  proof -
    have "\<not> Clamped (clampedTarget (?f b) b)" if b: "b \<in> set ?cap" for b
    proof -
      have "clampedTarget (?f b) b \<in> set out" using b unfolding out by simp
      moreover have "b \<in> set bats" "\<not> blockedFor D b" using b by simp_all
      ultimately show ?thesis using un clampedTarget_driver by blast
    qed
    then have "sum_list (map (\<lambda>b. TargetW (clampedTarget (?f b) b)) ?cap) = sum_list (map ?f ?cap)"
      by (intro unclamped_sum) blast
    also have "\<dots> = D" by (rule fleetShare_sum [OF assms(1,2,6)])
    finally show ?thesis by (simp add: out comp_def map_replicate_const sum_list_replicate)
  qed
  ultimately show ?thesis by (auto simp: out)
qed

theorem blocked_share_is_reallocated_witness:
  "sum_list (map TargetW (distributeProportional
     [testBattery ''a'' 10000 ''x'', (testBattery ''b'' 5000 ''y'')\<lparr>dischargeBlocked := True\<rparr>] (-3000) [])) = -3000"
proof -
  let ?bats = "[testBattery ''a'' 10000 ''x'', (testBattery ''b'' 5000 ''y'')\<lparr>dischargeBlocked := True\<rparr>]"
  let ?out = "distributeProportional ?bats (-3000) []"
  have out: "?out = [\<lparr>Driver = ''a'', TargetW = -3000, Clamped = False\<rparr>, \<lparr>Driver = ''b'', TargetW = 0, Clamped = True\<rparr>]"
    by (simp add: distributeProportional_def splitByCapacityAndPV_def testBattery_def totalCapOf_def
        capByGroup_def totalPVOf_def distributeByCapacity_def clampedTarget_def clampWithSoC_def
        batChargeCap_def batDischargeCap_def effectivePowerLimit_def MaxCommandW_def
        dischargeFloorSoC_def blockedFor_def Let_def)
  have "\<forall>b \<in> set ?bats. \<forall>t \<in> set ?out. \<not> blockedFor (-3000) b \<and> Driver t = driver b \<longrightarrow> \<not> Clamped t"
    unfolding out by (simp add: testBattery_def blockedFor_def)
  moreover have "\<forall>b \<in> set ?bats. 0 \<le> capacityWh b" "-3000 = sum_list (map currentW ?bats) + -3000"
    "0 < totalCapOf (filter (\<lambda>b. \<not> blockedFor (-3000) b) ?bats)"
    by (simp_all add: testBattery_def totalCapOf_def blockedFor_def)
  ultimately show ?thesis using blocked_share_is_reallocated [of "[]" ?bats "-3000" "-3000" ?out] by simp
qed

end
