(* ===== verification/Command_Log.thy ===== *)
theory Command_Log
  imports Import_Hour "HOL-Library.Sublist"
begin

text \<open>
  The log of a device's own orders (\<open>commandLog\<close> in \<open>ev_fuse_budget.go\<close>) and its two writers in
  \<open>dispatch.go\<close>. The log keeps the orders of the last settle window and the one in force when that
  window opened; \<^emph>\<open>logSpan\<close> is what the meter may show of them.
\<close>

definition sent :: "time \<Rightarrow> real \<Rightarrow> sentCommand" where
  "sent t w = \<lparr>scAt = t, scW = w, scA = 0, scN = 0\<rparr>"

text \<open>The loop that finds the first command to keep.\<close>

fun dropReplaced :: "time \<Rightarrow> commandLog \<Rightarrow> commandLog" where
  "dropReplaced t (c # d # l) = (if \<not> scAt d > t then dropReplaced t (d # l) else c # d # l)"
| "dropReplaced t l = l"

definition keep :: "sentCommand \<Rightarrow> time \<Rightarrow> commandLog \<Rightarrow> commandLog" where
  "keep c t l = dropReplaced t (l @ [c])"

definition logAdd :: "time \<Rightarrow> real \<Rightarrow> commandLog \<Rightarrow> commandLog" where
  "logAdd now w l = keep (sent now w) (now - evSettle) l"

fun spanLoop :: "time \<Rightarrow> commandLog \<Rightarrow> (real \<times> real \<times> real) option \<Rightarrow> (real \<times> real \<times> real) option" where
  "spanLoop now [] acc = acc"
| "spanLoop now (c # l) acc =
     (if l \<noteq> [] \<and> tsub now (scAt (hd l)) \<ge> evSettle then spanLoop now l acc
      else spanLoop now l (Some (case acc of
             None \<Rightarrow> (scW c, scW c, scW c)
           | Some (low, high, _) \<Rightarrow>
               (if scW c < low then scW c else low, if scW c > high then scW c else high, scW c))))"

definition logSpan :: "time \<Rightarrow> commandLog \<Rightarrow> (real \<times> real \<times> real) option" where
  "logSpan now l =
     (case spanLoop now l None of
        None \<Rightarrow> None
      | Some (low, high, latest) \<Rightarrow>
          if tsub now (scAt (hd l)) < evSettle then Some (min low 0, max high 0, latest)
          else Some (low, high, latest))"

definition lastDispatchedW :: "string \<Rightarrow> State \<Rightarrow> real option" where
  "lastDispatchedW d s =
     (let l = mgetD [] (batteryCommands s) d
      in if l = [] then None
         else case LastDispatch s of
           None \<Rightarrow> None
         | Some t \<Rightarrow> if scAt (last l) \<noteq> t then None else Some (scW (last l)))"

definition recordDispatchTargets :: "DispatchTarget list \<Rightarrow> bool \<Rightarrow> bool \<Rightarrow> State \<Rightarrow> State" where
  "recordDispatchTargets targets updatePrevTargets recordDispatch s =
     (let s = (if recordDispatch
               then s\<lparr>LastDispatch := Some (clock s),
                      batteryCommands := foldl (\<lambda>m t. mset_at (Driver t)
                          (logAdd (clock s) (TargetW t) (mgetD [] m (Driver t))) m)
                        (batteryCommands s) targets\<rparr>
               else s);
          s = (if updatePrevTargets
               then s\<lparr>PrevTargets := foldl (\<lambda>m t. mset_at (Driver t) (TargetW t) m) (PrevTargets s) targets\<rparr>
               else s)
      in s\<lparr>LastTargets := targets\<rparr>)"

definition recordBatteryReadings :: "DispatchTarget list \<Rightarrow> Store \<Rightarrow> State \<Rightarrow> State" where
  "recordBatteryReadings targets store s =
     s\<lparr>batteryReadings := foldl (\<lambda>m t.
         case OnlineRawW (Driver t) DerBattery store of (w, _, ok) \<Rightarrow>
           if \<not> ok then m
           else mset_at (Driver t) (logAdd (clock s) (fval w) (mgetD [] m (Driver t))) m)
       (batteryReadings s) targets\<rparr>"

definition unshownBatteryW :: "time \<Rightarrow> Store \<Rightarrow> State \<Rightarrow> real" where
  "unshownBatteryW now store s =
     foldl (\<lambda>unshown (d, l).
         case logSpan now l of
           None \<Rightarrow> unshown
         | Some (low, _, latest) \<Rightarrow>
             let low = (case logSpan now (mgetD [] (batteryReadings s) d) of
                          None \<Rightarrow> low | Some (read, _, _) \<Rightarrow> min low read);
                 low = (case OnlineRawW d DerBattery store of (w, _, ok) \<Rightarrow> if ok then min low (fval w) else low)
             in unshown + max 0 (latest - low))
       0 (batteryCommands s)"

text \<open>\<open>pendingEVCutW\<close>: the EV reduction sent during the current run over the hour's limit.\<close>

definition pendingEVCutW :: "State \<Rightarrow> real" where
  "pendingEVCutW s =
     (if isZero (overSince (evLimit s)) \<or> tsub (clock s) (overSince (evLimit s)) \<ge> evSettle then 0
      else foldl (\<lambda>cutW (d, startW).
             case mget (evCommanded s) d of
               None \<Rightarrow> cutW
             | Some nowW \<Rightarrow> cutW + max 0 (startW - max 0 nowW)) 0 (overOffers (evLimit s)))"

section \<open>Lemmas\<close>

lemma dropReplaced_nonempty [simp]: "dropReplaced t l = [] \<longleftrightarrow> l = []"
  by (induction t l rule: dropReplaced.induct) auto

lemma dropReplaced_suffix: "suffix (dropReplaced t l) l"
  by (induction t l rule: dropReplaced.induct) (auto simp: suffix_Cons)

text \<open>Whatever is dropped had been replaced by the cut-off.\<close>

lemma dropReplaced_cut: "dropReplaced t l \<noteq> l \<Longrightarrow> scAt (hd (dropReplaced t l)) \<le> t"
proof (induction t l rule: dropReplaced.induct)
  case (1 t c d l)
  then show ?case by (cases "dropReplaced t (d # l) = d # l") (auto split: if_splits)
qed simp_all

definition log_sorted :: "commandLog \<Rightarrow> bool" where
  "log_sorted l = sorted (map scAt l)"

lemma spanLoop_skip_prefix:
  assumes "l \<noteq> []" "log_sorted (p @ l)" "tsub now (scAt (hd l)) \<ge> evSettle"
  shows "spanLoop now (p @ l) acc = spanLoop now l acc"
  using assms
proof (induction p)
  case (Cons c p)
  have hd: "scAt (hd (p @ l)) \<le> scAt (hd l)"
    using Cons.prems(1,2) by (cases p) (auto simp: log_sorted_def neq_Nil_conv)
  then have "tsub now (scAt (hd l)) \<le> tsub now (scAt (hd (p @ l)))" by (auto simp: tsub_def)
  then have "tsub now (scAt (hd (p @ l))) \<ge> evSettle" using Cons.prems(3) by linarith
  moreover have "log_sorted (p @ l)" using Cons.prems(2) by (simp add: log_sorted_def)
  ultimately show ?case using Cons by simp
qed simp

lemma logSpan_suffix:
  assumes "l \<noteq> []" "log_sorted (p @ l)" "scAt (hd l) \<le> now - evSettle"
  shows "logSpan now (p @ l) = logSpan now l"
proof -
  have old: "tsub now (scAt (hd l)) \<ge> evSettle"
    using assms(3) by (simp add: tsub_def evSettle_def time_simps maxDuration_def)
  have "scAt (hd (p @ l)) \<le> scAt (hd l)"
    using assms(1,2) by (cases p) (auto simp: log_sorted_def neq_Nil_conv)
  then have "tsub now (scAt (hd (p @ l))) \<ge> evSettle" using old by (auto simp: tsub_def)
  then show ?thesis
    using old spanLoop_skip_prefix [OF assms(1,2) old, of None] by (simp add: logSpan_def split: option.split)
qed

text \<open>A run of orders with the pruned log beside the full history.\<close>

fun logRun :: "(time \<times> real) list \<Rightarrow> commandLog \<Rightarrow> commandLog" where
  "logRun [] l = l"
| "logRun ((t, w) # ws) l = logRun ws (logAdd t w l)"

lemma logRun_history:
  assumes "sorted (map scAt h @ map fst ws)" "suffix l h" "h = [] \<longleftrightarrow> l = []"
    "l = h \<or> scAt (hd l) \<le> t0 - evSettle" "\<forall>(t, w) \<in> set ws. t0 \<le> t"
    "\<forall>(t, w) \<in> set ws. t \<le> now" "t0 \<le> now"
  shows "logSpan now (logRun ws l) = logSpan now (h @ map (\<lambda>(t, w). sent t w) ws)"
  using assms
proof (induction ws arbitrary: l h t0)
  case Nil
  obtain p where p: "h = p @ l" using Nil.prems(2) by (auto simp: suffix_def)
  show ?case
  proof (cases "l = h")
    case False
    then have "l \<noteq> []" "scAt (hd l) \<le> now - evSettle" using Nil.prems by auto
    moreover have "log_sorted (p @ l)" using Nil.prems(1) by (simp add: log_sorted_def p)
    ultimately show ?thesis using logSpan_suffix by (simp add: p)
  qed simp
next
  case (Cons x ws)
  obtain t w where x: "x = (t, w)" by force
  let ?l = "logAdd t w l" and ?h = "h @ [sent t w]"
  have keep: "?l = dropReplaced (t - evSettle) (l @ [sent t w])" by (simp add: logAdd_def keep_def)
  have "suffix (l @ [sent t w]) ?h" using Cons.prems(2) by (auto simp: suffix_def)
  then have suf: "suffix ?l ?h" using dropReplaced_suffix suffix_order.order_trans unfolding keep by blast
  have t0: "t0 \<le> t" using Cons.prems(5) by (simp add: x)
  have cut: "?l = ?h \<or> scAt (hd ?l) \<le> t - evSettle"
  proof (cases "?l = l @ [sent t w]")
    case True
    then show ?thesis using Cons.prems(3,4) t0 by (cases "l = []") auto
  next
    case False
    then show ?thesis using dropReplaced_cut unfolding keep by blast
  qed
  have "logSpan now (logRun ws ?l) = logSpan now (?h @ map (\<lambda>(t, w). sent t w) ws)"
  proof (rule Cons.IH)
    show "sorted (map scAt ?h @ map fst ws)" using Cons.prems(1) by (simp add: x sent_def)
    show "\<forall>(t', w) \<in> set ws. t \<le> t'" using Cons.prems(1) by (auto simp: x sorted_append)
    show "suffix ?l ?h" by (rule suf)
    show "?l = ?h \<or> scAt (hd ?l) \<le> t - evSettle" by (rule cut)
  qed (use Cons.prems in \<open>auto simp: x keep\<close>)
  then show ?case by (simp add: x)
qed

section \<open>Properties\<close>

text \<open>C36: Pruning the order log loses nothing: however many orders have been sent, the lowest, highest
  and latest order the meter may show are those of the complete history, at every instant from the
  last order on.\<close>

theorem command_log_lossless:
  assumes "sorted (map fst ws)" "\<forall>(t, w) \<in> set ws. t \<le> now"
  shows "logSpan now (logRun ws []) = logSpan now (map (\<lambda>(t, w). sent t w) ws)"
proof (cases ws)
  case (Cons x xs)
  have "\<forall>(t, w) \<in> set ws. fst x \<le> t" using assms(1) by (auto simp: Cons)
  then show ?thesis
    using assms logRun_history [of "[]" ws "[]" "fst x" now] by (auto simp: Cons)
qed simp

theorem command_log_lossless_witness:
  "logSpan (70 * second) (logRun [(0, 500), (30 * second, 4000), (60 * second, 1000)] []) = Some (1000, 4000, 1000)"
proof -
  have "logSpan (70 * second) (map (\<lambda>(t, w). sent t w) [(0, 500), (30 * second, 4000), (60 * second, 1000)])
      = Some (1000, 4000, 1000)"
    by (simp add: logSpan_def sent_def evSettle_def time_simps tsub_def minDuration_def maxDuration_def)
  then show ?thesis
    using command_log_lossless [of "[(0, 500), (30 * second, 4000), (60 * second, 1000)]" "70 * second"]
    by (simp only:) (simp add: time_simps)
qed

end
