(* ===== verification/Phase_Relief.thy ===== *)
theory Phase_Relief
  imports Fuse_Heat Command_Log
begin

text \<open>
  Per-phase relief (\<open>dispatch.go\<close>): one meter reading's signed phase currents, the batteries' move
  against that reading, the detector for a meter that does not show the batteries, and the
  aggregate power that brings every phase inside its working line.

  Battery and meter watts come from readings the store has admitted and are finite; \<open>fval\<close> reads
  them. A Go map of readings that may hold nil is a map of optional readings.
\<close>

type_synonym battery_readings = "(string, DerReading option) gomap"

record phaseSample =
  psMeter :: "DerReading option"
  psTotalW :: f64
  psStore :: "Store option"

definition noPhases :: phaseSample where
  "noPhases = \<lparr>psMeter = None, psTotalW = Fin 0, psStore = None\<rparr>"

definition livePhaseSample :: "Store \<Rightarrow> string \<Rightarrow> DerReading option \<Rightarrow> phaseSample" where
  "livePhaseSample store d meter =
     (case meter of
        None \<Rightarrow> noPhases
      | Some m \<Rightarrow>
          case OnlineMeterW d store of (totalW, t, ok) \<Rightarrow>
            if \<not> ok \<or> t \<noteq> UpdatedAt m then noPhases
            else \<lparr>psMeter = Some m, psTotalW = totalW, psStore = Some store\<rparr>)"

text \<open>The phases that must be exporting when the total exports and no phase shows a direction.\<close>

definition forceExportSigns :: "real \<Rightarrow> real \<Rightarrow> real list \<Rightarrow> real list" where
  "forceExportSigns volt totalW amps =
     (let sumW = sum_list (map (\<lambda>a. a * volt) amps); tolW = max 250 (sumW / 10)
      in map (\<lambda>a. if sumW - a * volt < - totalW - tolW then - a else a) amps)"

definition signedPhasesA :: "phaseSample \<Rightarrow> State \<Rightarrow> real list option" where
  "signedPhasesA p s =
     (case psMeter p of
        None \<Rightarrow> None
      | Some m \<Rightarrow>
          case phaseCurrentsA m s (psTotalW p) of (amps, _, valid) \<Rightarrow>
            if \<not> valid \<or> amps = [] then None
            else if \<not> (fval (psTotalW p) < 0 \<and> list_all (\<lambda>a. a \<ge> 0) amps) then Some amps
            else Some (forceExportSigns (SiteFuseVoltage s) (fval (psTotalW p)) amps))"

definition perPhaseW :: "State \<Rightarrow> real" where
  "perPhaseW s = SiteFuseVoltage s * of_int (SiteFusePhases s)"

text \<open>The loop of \<open>moveW\<close>: the move from the readings, the move from the last commands, and each
  battery's raw power. It gives up on a battery whose power in the phases is unknown.\<close>

fun moveLoop :: "Store \<Rightarrow> State \<Rightarrow> battery_readings \<Rightarrow> DispatchTarget list \<Rightarrow>
    real \<times> real \<times> (string, real) gomap \<Rightarrow> (real \<times> real \<times> (string, real) gomap) option" where
  "moveLoop store s bats [] acc = Some acc"
| "moveLoop store s bats (t # ts) (mv, sentW, rawW) =
     (let mv = mv + TargetW t; sentW = sentW + TargetW t
      in if mget rawW (Driver t) \<noteq> None then moveLoop store s bats ts (mv, sentW, rawW)
         else case mgetD None bats (Driver t) of
           None \<Rightarrow> None
         | Some r \<Rightarrow>
             case OnlineRawW (Driver t) DerBattery store of (w, at1, ok) \<Rightarrow>
               if \<not> ok \<or> at1 \<noteq> UpdatedAt r then None
               else moveLoop store s bats ts
                 (mv - fval w,
                  sentW - (case lastDispatchedW (Driver t) s of Some l \<Rightarrow> l | None \<Rightarrow> fval w),
                  mset_at (Driver t) (fval w) rawW))"

definition moveW :: "phaseSample \<Rightarrow> State \<Rightarrow> battery_readings \<Rightarrow> DispatchTarget list \<Rightarrow>
    (real \<times> real \<times> (string, real) gomap) option" where
  "moveW p s bats ts =
     (case psStore p of None \<Rightarrow> None | Some store \<Rightarrow> moveLoop store s bats ts (0, 0, []))"

definition targetsMoveFromW ::
  "DispatchTarget list \<Rightarrow> (string, real) gomap \<Rightarrow> (string, real) gomap \<Rightarrow> real" where
  "targetsMoveFromW ts base rawW =
     fst (foldl (\<lambda>(mv, done) t.
            let mv = mv + TargetW t
            in if Driver t \<in> set done then (mv, done)
               else (mv - (case mget base (Driver t) of Some w \<Rightarrow> w | None \<Rightarrow> mgetD 0 rawW (Driver t)),
                     Driver t # done)) (0, []) ts)"

section \<open>A meter that does not show the batteries\<close>

definition phaseResponseA :: real where "phaseResponseA = 1"

definition batteriesMovedW :: "(string, real) gomap \<Rightarrow> (string, real) gomap \<Rightarrow> real \<times> (string, real) gomap" where
  "batteriesMovedW ref rawW =
     foldl (\<lambda>(moved, ref) (d, w).
         case mget ref d of
           None \<Rightarrow> (moved, mset_at d w ref)
         | Some was \<Rightarrow> (moved + (w - was), ref)) (0, ref) rawW"

definition worstIndex :: "real list \<Rightarrow> nat" where
  "worstIndex amps = foldl (\<lambda>w i. if \<bar>amps ! i\<bar> > \<bar>amps ! w\<bar> then i else w) 0 [0..<length amps]"

text \<open>The body of \<open>phaseUnresponsive\<close> on the reference readings it keeps.\<close>

definition judgeResponse :: "real \<Rightarrow> real \<Rightarrow> real list \<Rightarrow> real \<Rightarrow> (string, real) gomap \<Rightarrow> phaseResponse \<Rightarrow>
    (real \<times> bool \<times> (string, real) gomap option) \<times> phaseResponse" where
  "judgeResponse perA lineA amps totalW rawW ref =
     (let worst = worstIndex amps; a = amps ! worst;
          changed = amps @ [totalW];
          ref = (if changed \<noteq> refChanged ref
                 then ref\<lparr>refChanged := changed, refChangedRawW := rawW\<rparr> else ref);
          (m1, chRaw) = batteriesMovedW (refChangedRawW ref) rawW;
          ref = ref\<lparr>refChangedRawW := chRaw\<rparr>
      in if \<bar>m1\<bar> \<ge> phaseResponseA * perA then ((a, True, None), ref)
         else if length (refAmps ref) \<noteq> length amps \<or> \<bar>a - refAmps ref ! worst\<bar> \<ge> phaseResponseA / 2
              \<or> \<bar>a\<bar> \<le> lineA \<or> (offPhase ref \<and> worst \<noteq> offPhaseAt ref)
         then ((a, False, None), ref\<lparr>refAmps := amps, refRawW := rawW, offPhase := False\<rparr>)
         else let (m2, raw2) = batteriesMovedW (refRawW ref) rawW; ref = ref\<lparr>refRawW := raw2\<rparr>
              in if offPhase ref then ((a, True, Some raw2), ref)
                 else if \<bar>m2\<bar> < phaseResponseA * perA then ((a, False, None), ref)
                 else if list_ex (\<lambda>i. i \<noteq> worst \<and> (amps ! i - refAmps ref ! i) / (m2 / perA) \<ge> 2)
                           [0..<length amps]
                 then ((a, True, Some raw2), ref\<lparr>offPhase := True, offPhaseAt := worst\<rparr>)
                 else ((a, False, None), ref))"

definition phaseUnresponsive :: "real list \<Rightarrow> real \<Rightarrow> (string, real) gomap \<Rightarrow> State \<Rightarrow>
    (real \<times> bool \<times> (string, real) gomap option) \<times> State" where
  "phaseUnresponsive amps totalW rawW s =
     (if amps = [] then ((0, False, None), s)
      else let (v, ref) = judgeResponse (perPhaseW s) (fuseLineA s) amps totalW rawW (phaseResponse s)
           in (v, s\<lparr>phaseResponse := ref\<rparr>))"

section \<open>Relief\<close>

text \<open>Largest and smallest of a non-empty list; \<open>signedPhasesA\<close> yields no empty one.\<close>

definition hiA :: "real list \<Rightarrow> real" where "hiA xs = foldl max (hd xs) (tl xs)"
definition loA :: "real list \<Rightarrow> real" where "loA xs = foldl min (hd xs) (tl xs)"

text \<open>The shift, in amperes on every phase, that brings all phases inside the line.\<close>

definition shiftA :: "real \<Rightarrow> real list \<Rightarrow> real" where
  "shiftA limitA amps =
     (let hi = hiA amps; lo = loA amps
      in if - limitA - lo > limitA - hi then - (hi + lo) / 2
         else max (- limitA - lo) (min 0 (limitA - hi)))"

definition belowWatt :: "real \<Rightarrow> real" where
  "belowWatt w = (if w < 1 then 0 else w)"

definition phaseFuseReliefW :: "phaseSample \<Rightarrow> State \<Rightarrow> real \<Rightarrow> real \<times> real" where
  "phaseFuseReliefW p s mv =
     (case signedPhasesA p s of
        None \<Rightarrow> (0, 0)
      | Some amps \<Rightarrow>
          let perA = perPhaseW s; sh = shiftA (fuseLineA s) (map (\<lambda>a. a + mv / perA) amps)
          in (belowWatt (max 0 (- sh) * perA), belowWatt (max 0 sh * perA)))"

definition phaseSentReliefW :: "phaseSample \<Rightarrow> State \<Rightarrow> real \<Rightarrow> real \<times> real" where
  "phaseSentReliefW p s sentW =
     (case signedPhasesA p s of
        None \<Rightarrow> (0, 0)
      | Some amps \<Rightarrow>
          let perA = perPhaseW s; limitA = fuseLineA s;
              overImport = list_ex (\<lambda>a. a > limitA) amps; overExport = list_ex (\<lambda>a. a < - limitA) amps;
              held = map (\<lambda>a. max (- limitA) (min limitA a) + sentW / perA) amps;
              importW = max 0 (hiA held - limitA) * perA;
              exportW = max 0 (- limitA - loA held) * perA
          in (if importW < 1 \<or> overExport then 0 else importW,
              if exportW < 1 \<or> overImport then 0 else exportW))"

definition phaseReliefForTargets ::
  "phaseSample \<Rightarrow> battery_readings \<Rightarrow> DispatchTarget list \<Rightarrow> State \<Rightarrow> (real \<times> real) \<times> State" where
  "phaseReliefForTargets p bats ts s =
     (case moveW p s bats ts of
        None \<Rightarrow> ((0, 0), s)
      | Some (mv, sentW, rawW) \<Rightarrow>
          let (importW, exportW) = phaseFuseReliefW p s mv;
              (sentImportW, sentExportW) = phaseSentReliefW p s sentW;
              importW = max importW sentImportW; exportW = max exportW sentExportW
          in case signedPhasesA p s of
               None \<Rightarrow> ((importW, exportW), s)
             | Some amps \<Rightarrow>
                 (case phaseUnresponsive amps (fval (psTotalW p)) rawW s of ((worst, stuck, backTo), s) \<Rightarrow>
                    if \<not> stuck then ((importW, exportW), s)
                    else let capW = (case backTo of None \<Rightarrow> sentW | Some b \<Rightarrow> targetsMoveFromW ts b rawW)
                         in if worst > 0 then ((min importW (max 0 capW), exportW), s)
                            else ((importW, min exportW (max 0 (- capW))), s)))"

section \<open>Lemmas\<close>

lemma hiA_ge: "a \<in> set xs \<Longrightarrow> a \<le> hiA xs"
proof -
  have "\<forall>a \<in> insert x (set xs). a \<le> foldl max x xs" for x and xs :: "real list"
    by (induction xs arbitrary: x) (auto simp: max_def, force+)
  then show "a \<in> set xs \<Longrightarrow> a \<le> hiA xs" by (cases xs) (auto simp: hiA_def)
qed

lemma hiA_in: "xs \<noteq> [] \<Longrightarrow> hiA xs \<in> set xs"
proof -
  have "foldl max x xs \<in> insert x (set xs)" for x and xs :: "real list"
  proof (induction xs arbitrary: x)
    case (Cons a xs)
    show ?case using Cons.IH [of "max x a"] by (auto simp: max_def split: if_splits)
  qed simp
  then show "xs \<noteq> [] \<Longrightarrow> hiA xs \<in> set xs" by (cases xs) (auto simp: hiA_def)
qed

lemma loA_le: "a \<in> set xs \<Longrightarrow> loA xs \<le> a"
proof -
  have "\<forall>a \<in> insert x (set xs). foldl min x xs \<le> a" for x and xs :: "real list"
    by (induction xs arbitrary: x) (auto simp: min_def, force+)
  then show "a \<in> set xs \<Longrightarrow> loA xs \<le> a" by (cases xs) (auto simp: loA_def)
qed

lemma loA_in: "xs \<noteq> [] \<Longrightarrow> loA xs \<in> set xs"
proof -
  have "foldl min x xs \<in> insert x (set xs)" for x and xs :: "real list"
  proof (induction xs arbitrary: x)
    case (Cons a xs)
    show ?case using Cons.IH [of "min x a"] by (auto simp: min_def split: if_splits)
  qed simp
  then show "xs \<noteq> [] \<Longrightarrow> loA xs \<in> set xs" by (cases xs) (auto simp: loA_def)
qed

text \<open>The shift puts every phase inside the line when one shift can, and is otherwise the one that
  leaves the worst phase least over.\<close>

lemma shiftA_inside:
  assumes "hiA xs - loA xs \<le> 2 * L" "a \<in> set xs"
  shows "\<bar>a + shiftA L xs\<bar> \<le> L"
  using assms hiA_ge [OF assms(2)] loA_le [OF assms(2)]
  by (auto simp: shiftA_def Let_def abs_le_iff)

lemma shiftA_least:
  assumes "2 * L < hiA xs - loA xs" "xs \<noteq> []"
  shows "Max ((\<lambda>a. \<bar>a + shiftA L xs\<bar>) ` set xs) \<le> Max ((\<lambda>a. \<bar>a + t\<bar>) ` set xs)"
proof -
  have sh: "shiftA L xs = - (hiA xs + loA xs) / 2" using assms(1) by (simp add: shiftA_def Let_def)
  have "\<bar>a + shiftA L xs\<bar> \<le> (hiA xs - loA xs) / 2" if "a \<in> set xs" for a
    using hiA_ge [OF that] loA_le [OF that] unfolding sh by (simp add: abs_le_iff field_simps)
  then have "Max ((\<lambda>a. \<bar>a + shiftA L xs\<bar>) ` set xs) \<le> (hiA xs - loA xs) / 2"
    using assms(2) by (intro Max.boundedI) auto
  also have "\<dots> \<le> max \<bar>hiA xs + t\<bar> \<bar>loA xs + t\<bar>" by (simp add: max_def abs_if field_simps)
  also have "\<dots> \<le> Max ((\<lambda>a. \<bar>a + t\<bar>) ` set xs)"
    using hiA_in [OF assms(2)] loA_in [OF assms(2)] by (intro max.boundedI Max_ge) auto
  finally show ?thesis .
qed

lemma shiftA_zero:
  assumes "\<forall>a \<in> set xs. \<bar>a\<bar> \<le> L" "xs \<noteq> []"
  shows "shiftA L xs = 0"
proof -
  have "\<bar>hiA xs\<bar> \<le> L" "\<bar>loA xs\<bar> \<le> L" using assms hiA_in loA_in by blast+
  then show ?thesis by (simp add: shiftA_def Let_def abs_le_iff)
qed

lemma belowWatt_close: "0 \<le> w \<Longrightarrow> 0 \<le> belowWatt w \<and> belowWatt w \<le> w \<and> w - belowWatt w < 1"
  by (simp add: belowWatt_def)

lemma signedPhasesA_nonempty: "signedPhasesA p s = Some amps \<Longrightarrow> amps \<noteq> []"
  by (auto simp: signedPhasesA_def forceExportSigns_def Let_def split: option.splits prod.splits if_splits)

lemma signedPhasesA_config:
  assumes "signedPhasesA p s = Some amps"
  shows "0 < SiteFuseVoltage s" "0 < SiteFusePhases s"
proof -
  obtain m amps0 pr where "phaseCurrentsA m s (psTotalW p) = (amps0, pr, True)"
    using assms by (auto simp: signedPhasesA_def split: option.splits prod.splits if_splits)
  then show "0 < SiteFuseVoltage s" "0 < SiteFusePhases s"
    by (auto simp: phaseCurrentsA_def Let_def split: rawmsg.splits if_splits option.splits)
qed

section \<open>Properties\<close>

text \<open>Phase relief lands every phase on the safe side of its line: after the batteries' move and
  the relief, every phase current is within the working line up to the one-watt dead band when one
  common shift can do that at all; otherwise no other shift leaves the worst phase less over; a
  reading that is inside after the move asks for no relief; and relief is never asked for in both
  directions.\<close>

theorem phase_relief_lands_inside:
  assumes "signedPhasesA p s = Some amps" "phaseFuseReliefW p s mv = (importW, exportW)"
    "moved = map (\<lambda>a. a + mv / perPhaseW s) amps"
    "sh = (exportW - importW) / perPhaseW s"
  shows "0 \<le> importW \<and> 0 \<le> exportW \<and> (importW = 0 \<or> exportW = 0)
    \<and> (hiA moved - loA moved \<le> 2 * fuseLineA s \<longrightarrow>
        (\<forall>a \<in> set moved. \<bar>a + sh\<bar> < fuseLineA s + 1 / perPhaseW s))
    \<and> (2 * fuseLineA s < hiA moved - loA moved \<longrightarrow>
        (\<forall>t. Max ((\<lambda>a. \<bar>a + sh\<bar>) ` set moved) < Max ((\<lambda>a. \<bar>a + t\<bar>) ` set moved) + 1 / perPhaseW s))
    \<and> ((\<forall>a \<in> set moved. \<bar>a\<bar> \<le> fuseLineA s) \<longrightarrow> importW = 0 \<and> exportW = 0)"
proof -
  let ?k = "perPhaseW s" and ?x = "shiftA (fuseLineA s) moved"
  have k: "0 < ?k" using signedPhasesA_config [OF assms(1)] by (simp add: perPhaseW_def)
  have ne: "moved \<noteq> []" using signedPhasesA_nonempty [OF assms(1)] by (simp add: assms(3))
  have r: "importW = belowWatt (max 0 (- ?x) * ?k)" "exportW = belowWatt (max 0 ?x * ?k)"
    using assms(2) by (auto simp: phaseFuseReliefW_def assms(1,3) Let_def)
  have z: "0 \<le> max 0 y * ?k" for y using k by simp
  note b = belowWatt_close [OF z, of "- ?x"] belowWatt_close [OF z, of ?x]
  have near: "\<bar>sh - ?x\<bar> < 1 / ?k"
  proof -
    have "?x * ?k = max 0 ?x * ?k - max 0 (- ?x) * ?k"
      by (cases "0 \<le> ?x") (simp_all add: max_def)
    moreover have "max 0 ?x * ?k = 0 \<or> max 0 (- ?x) * ?k = 0" by (simp add: max_def)
    ultimately have "\<bar>(exportW - importW) - ?x * ?k\<bar> < 1"
      using b unfolding r by (auto simp: abs_less_iff)
    moreover have "sh - ?x = ((exportW - importW) - ?x * ?k) / ?k" using k by (simp add: assms(4) diff_divide_distrib)
    ultimately show ?thesis using k by (simp add: abs_divide divide_strict_right_mono)
  qed
  have one: "importW = 0 \<or> exportW = 0" unfolding r by (cases "0 \<le> ?x") (simp_all add: belowWatt_def max_def)
  have inside: "\<bar>a + sh\<bar> < fuseLineA s + 1 / ?k"
    if "hiA moved - loA moved \<le> 2 * fuseLineA s" "a \<in> set moved" for a
    using shiftA_inside [OF that] near by (simp add: abs_if split: if_splits)
  have least: "Max ((\<lambda>a. \<bar>a + sh\<bar>) ` set moved) < Max ((\<lambda>a. \<bar>a + t\<bar>) ` set moved) + 1 / ?k"
    if "2 * fuseLineA s < hiA moved - loA moved" for t
  proof -
    have le: "\<bar>a + ?x\<bar> \<le> Max ((\<lambda>a. \<bar>a + t\<bar>) ` set moved)" if "a \<in> set moved" for a
      using shiftA_least [OF \<open>2 * fuseLineA s < _\<close> ne, of t] ne that by simp
    have "\<bar>a + sh\<bar> < Max ((\<lambda>a. \<bar>a + t\<bar>) ` set moved) + 1 / ?k" if "a \<in> set moved" for a
      using le [OF that] near by linarith
    then show ?thesis using ne by simp
  qed
  have "importW = 0 \<and> exportW = 0" if "\<forall>a \<in> set moved. \<bar>a\<bar> \<le> fuseLineA s"
    unfolding r shiftA_zero [OF that ne] by (simp add: belowWatt_def)
  then show ?thesis using b one inside least unfolding r by blast
qed

theorem phase_relief_lands_inside_witness:
  "\<exists>importW exportW. phaseFuseReliefW \<lparr>psMeter = Some (phaseReading [30, 5, 4] [6900, 1150, 920]),
       psTotalW = Fin 8970, psStore = None\<rparr> phaseState 0 = (importW, exportW) \<and> 0 \<le> importW
     \<and> (importW = 0 \<or> exportW = 0)"
proof -
  let ?p = "\<lparr>psMeter = Some (phaseReading [30, 5, 4] [6900, 1150, 920]), psTotalW = Fin 8970, psStore = None\<rparr>"
  have a: "signedPhasesA ?p phaseState = Some [30, 5, 4]"
    by (simp add: signedPhasesA_def phaseCurrentsA_def phaseReading_def phaseDocBad_def emptyDoc_def
        docAmps_def docPowers_def finiteFuseValue_def phasePowersAddUp_def exportSignMinW_def Let_def
        eval_nat_numeral)
  obtain i e where r: "phaseFuseReliefW ?p phaseState 0 = (i, e)" by force
  from phase_relief_lands_inside [OF a r refl refl] r show ?thesis by blast
qed

end
