(* ===== verification/Fuse_Guard.thy ===== *)
theory Fuse_Guard
  imports Phase_Relief Dispatch_Passes
begin

text \<open>
  The fuse in the command path (\<open>dispatch.go\<close>). \<^emph>\<open>applyFuseGuard\<close> scales charge or discharge back
  to the binding ceiling and latches the cap for 30 s; \<^emph>\<open>forceFuseDischarge\<close> discharges batteries
  when predicted import still exceeds the fuse; \<^emph>\<open>floorBlockedDischarge\<close> parks batteries that may
  not discharge, as far as the fuse allows. Operations that consult the phase detector change the
  state's \<open>phaseResponse\<close> and return it.
\<close>

section \<open>Totals and prediction\<close>

definition totalCharge :: "DispatchTarget list \<Rightarrow> real" where
  "totalCharge ts = foldl (\<lambda>c t. if TargetW t > 0 then c + TargetW t else c) 0 ts"

definition totalDischarge :: "DispatchTarget list \<Rightarrow> real" where
  "totalDischarge ts = foldl (\<lambda>c t. if TargetW t < 0 then c + - TargetW t else c) 0 ts"

definition scaleCharge :: "real \<Rightarrow> DispatchTarget list \<Rightarrow> DispatchTarget list" where
  "scaleCharge k ts =
     map (\<lambda>t. if TargetW t > 0 then t\<lparr>TargetW := TargetW t * k, Clamped := True\<rparr> else t) ts"

definition scaleDischarge :: "real \<Rightarrow> DispatchTarget list \<Rightarrow> DispatchTarget list" where
  "scaleDischarge k ts =
     map (\<lambda>t. if TargetW t < 0 then t\<lparr>TargetW := TargetW t * k, Clamped := True\<rparr> else t) ts"

definition smoothedW :: "DerReading option \<Rightarrow> real" where
  "smoothedW r = (case r of None \<Rightarrow> 0 | Some m \<Rightarrow> fval (SmoothedW m))"

text \<open>Live power of the targeted batteries, each driver once.\<close>

definition currentBatW :: "battery_readings \<Rightarrow> DispatchTarget list \<Rightarrow> real" where
  "currentBatW bats ts = sum_list (map (\<lambda>d. smoothedW (mgetD None bats d)) (remdups (map Driver ts)))"

definition sumTargetW :: "DispatchTarget list \<Rightarrow> real" where
  "sumTargetW ts = foldl (\<lambda>c t. c + TargetW t) 0 ts"

definition predictedGridFromSnapshot ::
  "battery_readings \<Rightarrow> DerReading option \<Rightarrow> DispatchTarget list \<Rightarrow> real" where
  "predictedGridFromSnapshot bats meter ts = smoothedW meter - currentBatW bats ts + sumTargetW ts"

definition readingsFor :: "Store \<Rightarrow> DispatchTarget list \<Rightarrow> battery_readings" where
  "readingsFor store ts = map (\<lambda>d. (d, Get d DerBattery store)) (remdups (map Driver ts))"

section \<open>The guard\<close>

text \<open>The hold window: a recent clamp's cap is applied again, an expired one is forgotten.\<close>

definition applyFuseHold :: "time \<Rightarrow> DispatchTarget list \<times> State \<Rightarrow> DispatchTarget list \<times> State" where
  "applyFuseHold now = (\<lambda>(out, s).
     if FuseHoldUntil s > now then
       let out = (if FuseHoldMaxDischargeW s > 0 \<and> totalDischarge out > FuseHoldMaxDischargeW s
                  then scaleDischarge (FuseHoldMaxDischargeW s / totalDischarge out) out else out);
           out = (if FuseHoldMaxChargeW s > 0 \<and> totalCharge out > FuseHoldMaxChargeW s
                  then scaleCharge (FuseHoldMaxChargeW s / totalCharge out) out else out)
       in (out, s)
     else if \<not> isZero (FuseHoldUntil s)
     then (out, s\<lparr>FuseHoldMaxDischargeW := 0, FuseHoldMaxChargeW := 0, FuseHoldUntil := zeroTime\<rparr>)
     else (out, s))"

text \<open>The cut: charge by the import overage, else discharge by the export overage.\<close>

definition cutToCeilings ::
  "time \<Rightarrow> real \<Rightarrow> real \<Rightarrow> DispatchTarget list \<Rightarrow> State \<Rightarrow> DispatchTarget list \<times> State" where
  "cutToCeilings now importOverage exportOverage out s =
     (if importOverage \<le> 0 \<and> exportOverage \<le> 0 then (out, s)
      else if importOverage > 0 then
        (if totalCharge out \<le> 0 then (out, s)
         else let newTotal = totalCharge out - importOverage; newTotal = (if newTotal < 0 then 0 else newTotal)
              in (scaleCharge (newTotal / totalCharge out) out,
                  s\<lparr>FuseHoldMaxChargeW := newTotal, FuseHoldUntil := now + 30 * second\<rparr>))
      else
        (if totalDischarge out \<le> 0 then (out, s)
         else let newTotal = totalDischarge out - exportOverage; newTotal = (if newTotal < 0 then 0 else newTotal)
              in (scaleDischarge (newTotal / totalDischarge out) out,
                  s\<lparr>FuseHoldMaxDischargeW := newTotal, FuseHoldUntil := now + 30 * second\<rparr>)))"

text \<open>Both overages of the held targets: the aggregate one against its ceiling, or the phases' own.\<close>

definition siteMeterReading :: "Store \<Rightarrow> State \<Rightarrow> DerReading option" where
  "siteMeterReading store s =
     (if SiteMeterDriver s = [] then None else Get (SiteMeterDriver s) DerMeter store)"

definition fuseOverages :: "Store \<Rightarrow> real \<Rightarrow> battery_readings \<Rightarrow> real \<Rightarrow> DispatchTarget list \<Rightarrow> State \<Rightarrow>
    (real \<times> real) \<times> State" where
  "fuseOverages store fuseMaxW bats baseW out s =
     (let meter = siteMeterReading store s;
          phases = livePhaseSample store (SiteMeterDriver s) meter;
          predicted = baseW + sumTargetW out;
          ((phaseImportW, phaseExportW), s) = phaseReliefForTargets phases bats out s
      in ((max (predicted - effectiveImportCeilingW fuseMaxW s) phaseImportW,
           max (- effectiveExportCeilingW fuseMaxW s - predicted) phaseExportW), s))"

definition applyFuseGuard ::
  "Store \<Rightarrow> real \<Rightarrow> DispatchTarget list \<Rightarrow> State \<Rightarrow> DispatchTarget list \<times> State" where
  "applyFuseGuard store fuseMaxW ts s =
     (if fuseMaxW \<le> 0 then (ts, s)
      else
        let bats = readingsFor store ts;
            baseW = smoothedW (siteMeterReading store s) - currentBatW bats ts;
            now = clock s;
            (out, s) = applyFuseHold now (ts, s);
            ((importOverage, exportOverage), s) = fuseOverages store fuseMaxW bats baseW out s
        in cutToCeilings now importOverage exportOverage out s)"

section \<open>Relief\<close>

definition fuseTargetBounds :: "DerReading \<Rightarrow> PowerLimits \<Rightarrow> real \<times> real" where
  "fuseTargetBounds r l =
     (let (dBlocked, cBlocked) = batteryDirectionBlocks (Data r);
          lower = (if (case SoC r of None \<Rightarrow> True | Some v \<Rightarrow> v \<le> Fin (socFloor l)) \<or> dBlocked then 0
                   else - dischargeCap l);
          upper = (if cBlocked \<or> (case SoC r of None \<Rightarrow> False | Some v \<Rightarrow> v \<ge> Fin (socCeiling l)) then 0
                   else chargeCap l)
      in (lower, upper))"

text \<open>A lower bound of plus infinity, or one that is no number, leaves no room: \<open>None\<close>.\<close>

definition roomW :: "DispatchTarget \<Rightarrow> real option \<Rightarrow> real" where
  "roomW t lower = (case lower of None \<Rightarrow> 0 | Some l \<Rightarrow> max 0 (TargetW t - l))"

definition allocateFuseRelief :: "DispatchTarget list \<Rightarrow> real \<Rightarrow> real option list \<Rightarrow> DispatchTarget list" where
  "allocateFuseRelief ts reliefW lowers =
     (if reliefW \<le> 0 then ts
      else let totalHeadroom = sum_list (map2 roomW ts lowers)
           in if totalHeadroom \<le> 0 then ts
              else let allocate = min reliefW totalHeadroom
                   in map2 (\<lambda>t l. if roomW t l \<le> 0 then t
                                  else t\<lparr>TargetW := TargetW t - allocate * (roomW t l / totalHeadroom),
                                         Clamped := True\<rparr>) ts lowers)"

definition fuseReliefPartsFromSnapshot :: "battery_readings \<Rightarrow> DerReading option \<Rightarrow> phaseSample \<Rightarrow> real \<Rightarrow>
    DispatchTarget list \<Rightarrow> State \<Rightarrow> (real \<times> real) \<times> State" where
  "fuseReliefPartsFromSnapshot bats meter phases fuseMaxW ts s =
     (if fuseMaxW \<le> 0 \<or> ts = [] then ((0, 0), s)
      else
        let predicted = predictedGridFromSnapshot bats meter ts;
            fuseW = max 0 (fuseMaxW - fuseSafetyMarginW s);
            overage = predicted - fuseW;
            ceilingW = effectiveImportCeilingW fuseMaxW s;
            limitOverage = (if ceilingW < fuseW then Some (predicted - ceilingW - pendingEVCutW s) else None);
            ((phaseW, _), s) = phaseReliefForTargets phases bats ts s;
            overage = (if phaseW > overage then phaseW else overage)
        in case limitOverage of
             Some l \<Rightarrow> if l > overage then ((l, max 0 (l - max 0 overage)), s) else ((overage, 0), s)
           | None \<Rightarrow> ((overage, 0), s))"

definition reliefLowers :: "battery_readings \<Rightarrow> (string, real) gomap \<Rightarrow> State \<Rightarrow> DispatchTarget \<Rightarrow>
    real option \<times> real option" where
  "reliefLowers bats caps s t =
     (case mget caps (Driver t) of
        None \<Rightarrow> (None, None)
      | Some c \<Rightarrow>
          if c \<le> 0 then (None, None)
          else case mgetD None bats (Driver t) of
            None \<Rightarrow> (None, None)
          | Some r \<Rightarrow>
              let lower = fst (fuseTargetBounds r (limitsOf s (Driver t)))
              in (Some lower,
                  case f64_max (Fin lower) (boostReserveLowerW (Some r) c s) of Fin x \<Rightarrow> Some x | _ \<Rightarrow> None))"

definition forceFuseDischargeWithSnapshot :: "battery_readings \<Rightarrow> DerReading option \<Rightarrow> phaseSample \<Rightarrow>
    (string, real) gomap \<Rightarrow> real \<Rightarrow> DispatchTarget list \<Rightarrow> State \<Rightarrow> DispatchTarget list \<times> State" where
  "forceFuseDischargeWithSnapshot bats meter phases caps fuseMaxW ts s =
     (if fuseMaxW \<le> 0 \<or> ts = [] then (ts, s)
      else
        let ((overage, limitOnlyW), s) = fuseReliefPartsFromSnapshot bats meter phases fuseMaxW ts s
        in if overage \<le> 0 then (ts, s)
           else
             let exportRoom = predictedGridFromSnapshot bats meter ts + effectiveExportCeilingW fuseMaxW s
             in if exportRoom \<le> 0 then (ts, s)
                else
                  let overage = (if overage > exportRoom then exportRoom else overage);
                      lowers = map (fst \<circ> reliefLowers bats caps s) ts;
                      limitLowers = map (snd \<circ> reliefLowers bats caps s) ts;
                      fusePartW = max 0 (overage - limitOnlyW);
                      out = allocateFuseRelief ts (overage - fusePartW) limitLowers
                  in (allocateFuseRelief out fusePartW lowers, s))"

definition forceFuseDischarge :: "Store \<Rightarrow> (string, real) gomap \<Rightarrow> real \<Rightarrow> DispatchTarget list \<Rightarrow> State \<Rightarrow>
    DispatchTarget list \<times> State" where
  "forceFuseDischarge store caps fuseMaxW ts s =
     (let meter = Get (SiteMeterDriver s) DerMeter store
      in forceFuseDischargeWithSnapshot (readingsFor store ts) meter
           (livePhaseSample store (SiteMeterDriver s) meter) caps fuseMaxW ts s)"

section \<open>Blocked discharge\<close>

definition dischargeParked :: "DerReading \<Rightarrow> PowerLimits \<Rightarrow> bool" where
  "dischargeParked r l =
     ((case SoC r of None \<Rightarrow> True | Some v \<Rightarrow> v \<le> Fin dischargeFloorSoC)
      \<or> fst (batteryDirectionBlocks (Data r)) \<or> dischargeCap l = 0)"

definition isParked :: "Store \<Rightarrow> State \<Rightarrow> DispatchTarget \<Rightarrow> bool" where
  "isParked store s t =
     (TargetW t < 0 \<and> (case Get (Driver t) DerBattery store of
                          None \<Rightarrow> False
                        | Some r \<Rightarrow> dischargeParked r (limitsOf s (Driver t))))"

definition blockedDischargeKeepW :: "Store \<Rightarrow> (string, real) gomap \<Rightarrow> real \<Rightarrow> bool list \<Rightarrow>
    DispatchTarget list \<Rightarrow> State \<Rightarrow> real \<times> State" where
  "blockedDischargeKeepW store caps fuseMaxW blocked out s =
     (let bats = readingsFor store out;
          meter = Get (SiteMeterDriver s) DerMeter store;
          ((relief, _), s) = fuseReliefPartsFromSnapshot bats meter
             (livePhaseSample store (SiteMeterDriver s) meter) fuseMaxW out s;
          reliefW = max 0 relief;
          room = sum_list (map2 (\<lambda>b t.
              case mgetD None bats (Driver t) of
                None \<Rightarrow> 0
              | Some r \<Rightarrow> if b \<or> mgetD 0 caps (Driver t) \<le> 0 then 0
                          else max 0 (TargetW t - fst (fuseTargetBounds r (limitsOf s (Driver t))))) blocked out);
          room = min room (max 0 (predictedGridFromSnapshot bats meter out + effectiveExportCeilingW fuseMaxW s))
      in (reliefW - room, s))"

definition floorBlockedDischarge :: "Store \<Rightarrow> (string, real) gomap \<Rightarrow> real \<Rightarrow> DispatchTarget list \<Rightarrow> State \<Rightarrow>
    DispatchTarget list \<times> State" where
  "floorBlockedDischarge store caps fuseMaxW ts s =
     (let blocked = map (isParked store s) ts
      in if \<not> list_ex id blocked then (ts, s)
         else
           let out = map (\<lambda>t. if isParked store s t then closeTarget t else t) ts;
               rampW = sum_list (map (\<lambda>t. if isParked store s t then - TargetW t else 0) ts)
           in if fuseMaxW \<le> 0 then (out, s)
              else
                let (keepW, s') = blockedDischargeKeepW store caps fuseMaxW blocked out s
                in if keepW \<le> 0 then (out, s')
                   else if keepW \<ge> rampW then (ts, s')
                   else (map (\<lambda>t. if isParked store s t
                                  then (closeTarget t)\<lparr>TargetW := TargetW t * keepW / rampW\<rparr> else t) ts, s'))"

section \<open>Bookkeeping and fixed fleets\<close>

definition sumByDriver :: "DispatchTarget list \<Rightarrow> (string, real) gomap" where
  "sumByDriver ts = foldl (\<lambda>m t. mset_at (Driver t) (mgetD 0 m (Driver t) + TargetW t) m) [] ts"

definition recordFuseRelief :: "DispatchTarget list \<Rightarrow> DispatchTarget list \<Rightarrow> State \<Rightarrow> State" where
  "recordFuseRelief before after s =
     (let pre = sumByDriver before; post = sumByDriver after;
          relief = foldl (\<lambda>m (d, w). let r = min (mgetD 0 pre d - w) (- w) in if r > 0 then mset_at d r m else m)
                     [] post;
          relief = foldl (\<lambda>m (d, _). if mget post d = None \<and> mgetD 0 (batteryFuseRelief s) d > 0
                                      then mset_at d (mgetD 0 (batteryFuseRelief s) d) m else m)
                     relief (batteriesOfflineSince s)
      in s\<lparr>batteryFuseRelief := relief\<rparr>)"

definition siteMeterHeld :: "DerReading option \<Rightarrow> State \<Rightarrow> bool \<times> State" where
  "siteMeterHeld meter s =
     (case meter of
        None \<Rightarrow> (False, s)
      | Some m \<Rightarrow> if \<not> UpdatedAt m > dispatchMeterAt s then (True, s)
                  else (False, s\<lparr>dispatchMeterAt := UpdatedAt m\<rparr>))"

definition onlineBattery :: "Store \<Rightarrow> string \<Rightarrow> bool" where
  "onlineBattery store name =
     (case DriverHealthOf name store of None \<Rightarrow> False | Some h \<Rightarrow> IsOnline h)"

definition chargeAll :: "Store \<Rightarrow> (string, real) gomap \<Rightarrow> (string, PowerLimits) gomap \<Rightarrow> DispatchTarget list" where
  "chargeAll store capacities limits =
     map (\<lambda>(name, _). \<lparr>Driver = name, TargetW = chargeCap (mgetD noLimits limits name), Clamped = False\<rparr>)
       (filter (\<lambda>(name, _). onlineBattery store name) capacities)"

definition holdFleetAtZero :: "Store \<Rightarrow> (string, real) gomap \<Rightarrow> DispatchTarget list" where
  "holdFleetAtZero store capacities =
     map (\<lambda>(name, _). \<lparr>Driver = name, TargetW = 0, Clamped = False\<rparr>)
       (filter (\<lambda>(name, _). onlineBattery store name \<and> Get name DerBattery store \<noteq> None) capacities)"

text \<open>\<open>fleetAtLivePower\<close>: the raw snapshot, the command-safe baseline and the readings.\<close>

definition liveReadings :: "Store \<Rightarrow> (string, real) gomap \<Rightarrow> (string \<times> DerReading) list" where
  "liveReadings store capacities =
     List.map_filter (\<lambda>(name, _).
       if \<not> onlineBattery store name then None
       else map_option (Pair name) (Get name DerBattery store)) capacities"

definition fleetAtLivePower :: "Store \<Rightarrow> (string, real) gomap \<Rightarrow> (string, PowerLimits) gomap \<Rightarrow>
    DispatchTarget list \<times> DispatchTarget list \<times> battery_readings" where
  "fleetAtLivePower store capacities limits =
     (let live = liveReadings store capacities;
          rawT = (\<lambda>(name, r). \<lparr>Driver = name, TargetW = fval (SmoothedW r), Clamped = False\<rparr>);
          safeT = (\<lambda>(name, r).
             let (lower, upper) = fuseTargetBounds r (mgetD noLimits limits name); w = fval (SmoothedW r)
             in if w < lower then None
                else if w > upper then Some \<lparr>Driver = name, TargetW = upper, Clamped = True\<rparr>
                else Some \<lparr>Driver = name, TargetW = w, Clamped = False\<rparr>)
      in (map rawT live, List.map_filter safeT live, map (\<lambda>(name, r). (name, Some r)) live))"

definition fuseSnapshotStillCurrent ::
  "Store \<Rightarrow> State \<Rightarrow> time \<Rightarrow> battery_readings \<Rightarrow> DispatchTarget list \<Rightarrow> bool" where
  "fuseSnapshotStillCurrent store s meterUpdatedAt bats ts =
     (if isZero meterUpdatedAt then False
      else case Get (SiteMeterDriver s) DerMeter store of
        None \<Rightarrow> False
      | Some meter \<Rightarrow>
          if UpdatedAt meter \<noteq> meterUpdatedAt then False
          else if \<not> list_all (\<lambda>(d, captured).
                 case (captured, Get d DerBattery store) of
                   (Some c, Some r) \<Rightarrow> onlineBattery store d \<and> UpdatedAt r = UpdatedAt c
                 | _ \<Rightarrow> False) bats then False
          else list_all (\<lambda>t.
                 case mget bats (Driver t) of
                   None \<Rightarrow> False
                 | Some _ \<Rightarrow>
                     (case Get (Driver t) DerBattery store of
                        None \<Rightarrow> False
                      | Some r \<Rightarrow>
                          let (lower, upper) = fuseTargetBounds r (limitsOf s (Driver t))
                          in \<not> (TargetW t < lower \<or> TargetW t > upper))) ts)"

section \<open>Lemmas on totals and scaling\<close>

lemma totalCharge_sum: "totalCharge ts = sum_list (map (\<lambda>t. max 0 (TargetW t)) ts)"
proof -
  have "foldl (\<lambda>c t. if TargetW t > 0 then c + TargetW t else c) x ts
      = x + sum_list (map (\<lambda>t. max 0 (TargetW t)) ts)" for x
    by (induction ts arbitrary: x) (auto simp: max_def)
  then show ?thesis by (simp add: totalCharge_def)
qed

lemma totalDischarge_sum: "totalDischarge ts = sum_list (map (\<lambda>t. max 0 (- TargetW t)) ts)"
proof -
  have "foldl (\<lambda>c t. if TargetW t < 0 then c + - TargetW t else c) x ts
      = x + sum_list (map (\<lambda>t. max 0 (- TargetW t)) ts)" for x
    by (induction ts arbitrary: x) (auto simp: max_def)
  then show ?thesis by (simp add: totalDischarge_def)
qed

lemma sumTargetW_sum: "sumTargetW ts = sum_list (map TargetW ts)"
proof -
  have "foldl (\<lambda>c t. c + TargetW t) x ts = x + sum_list (map TargetW ts)" for x
    by (induction ts arbitrary: x) auto
  then show ?thesis by (simp add: sumTargetW_def)
qed

lemma sumTargetW_split: "sumTargetW ts = totalCharge ts - totalDischarge ts"
  unfolding sumTargetW_sum totalCharge_sum totalDischarge_sum by (induction ts) (auto simp: max_def)

lemma totals_nonneg [simp]: "0 \<le> totalCharge ts" "0 \<le> totalDischarge ts"
  unfolding totalCharge_sum totalDischarge_sum by (auto intro!: sum_list_nonneg)

lemma scaleCharge_totals:
  assumes "0 \<le> k"
  shows "totalCharge (scaleCharge k ts) = k * totalCharge ts"
    "totalDischarge (scaleCharge k ts) = totalDischarge ts"
proof -
  let ?f = "\<lambda>t. if TargetW t > 0 then t\<lparr>TargetW := TargetW t * k, Clamped := True\<rparr> else t"
  have c: "max 0 (TargetW (?f t)) = k * max 0 (TargetW t)" for t
    using assms by (simp add: max_def mult.commute)
  have d: "max 0 (- TargetW (?f t)) = max 0 (- TargetW t)" for t
    using assms by (simp add: max_def mult_le_0_iff)
  show "totalCharge (scaleCharge k ts) = k * totalCharge ts"
    by (simp only: totalCharge_sum scaleCharge_def map_map comp_def c sum_list_const_mult)
  show "totalDischarge (scaleCharge k ts) = totalDischarge ts"
    by (simp only: totalDischarge_sum scaleCharge_def map_map comp_def d)
qed

lemma scaleDischarge_totals:
  assumes "0 \<le> k"
  shows "totalDischarge (scaleDischarge k ts) = k * totalDischarge ts"
    "totalCharge (scaleDischarge k ts) = totalCharge ts"
proof -
  let ?f = "\<lambda>t. if TargetW t < 0 then t\<lparr>TargetW := TargetW t * k, Clamped := True\<rparr> else t"
  have d: "max 0 (- TargetW (?f t)) = k * max 0 (- TargetW t)" for t
    using assms by (simp add: max_def mult.commute mult_le_0_iff)
  have c: "max 0 (TargetW (?f t)) = max 0 (TargetW t)" for t
    using assms by (simp add: max_def zero_le_mult_iff)
  show "totalDischarge (scaleDischarge k ts) = k * totalDischarge ts"
    by (simp only: totalDischarge_sum scaleDischarge_def map_map comp_def d sum_list_const_mult)
  show "totalCharge (scaleDischarge k ts) = totalCharge ts"
    by (simp only: totalCharge_sum scaleDischarge_def map_map comp_def c)
qed

lemma mult_fraction_pos: "0 < x \<Longrightarrow> 0 \<le> k \<Longrightarrow> k \<le> 1 \<Longrightarrow> 0 \<le> x * k \<and> x * k \<le> (x :: real)"
  by (simp add: mult_left_le)

lemma mult_fraction_neg: "x < 0 \<Longrightarrow> 0 \<le> k \<Longrightarrow> k \<le> 1 \<Longrightarrow> x \<le> x * k \<and> x * k \<le> (0 :: real)"
  using mult_fraction_pos [of "- x" k] by simp

lemma scale_toward_zero:
  assumes "0 \<le> k" "k \<le> 1"
  shows "list_all2 towardZero ts (scaleCharge k ts)" "list_all2 towardZero ts (scaleDischarge k ts)"
  using mult_fraction_pos [OF _ assms] mult_fraction_neg [OF _ assms]
  by (auto simp: scaleCharge_def scaleDischarge_def list_all2_conv_all_nth intro!: towardZero_set)

lemma list_towardZero_trans:
  "list_all2 towardZero a b \<Longrightarrow> list_all2 towardZero b c \<Longrightarrow> list_all2 towardZero a c"
  unfolding list_all2_conv_all_nth using towardZero_trans by metis

lemma list_towardZero_refl [simp]: "list_all2 towardZero ts ts"
  by (simp add: list_all2_conv_all_nth)

subsection \<open>The hold\<close>

lemma ratio_fraction: "0 < m \<Longrightarrow> m < t \<Longrightarrow> 0 \<le> m / t \<and> m / t \<le> (1 :: real)"
  by simp

definition heldDischarge :: "State \<Rightarrow> DispatchTarget list \<Rightarrow> DispatchTarget list" where
  "heldDischarge s out = (if FuseHoldMaxDischargeW s > 0 \<and> totalDischarge out > FuseHoldMaxDischargeW s
     then scaleDischarge (FuseHoldMaxDischargeW s / totalDischarge out) out else out)"

definition heldCharge :: "State \<Rightarrow> DispatchTarget list \<Rightarrow> DispatchTarget list" where
  "heldCharge s out = (if FuseHoldMaxChargeW s > 0 \<and> totalCharge out > FuseHoldMaxChargeW s
     then scaleCharge (FuseHoldMaxChargeW s / totalCharge out) out else out)"

lemma held_toward_zero:
  "list_all2 towardZero ts (heldDischarge s ts)" "list_all2 towardZero ts (heldCharge s ts)"
  using ratio_fraction [of "FuseHoldMaxDischargeW s" "totalDischarge ts"]
    ratio_fraction [of "FuseHoldMaxChargeW s" "totalCharge ts"]
  by (simp_all add: heldDischarge_def heldCharge_def scale_toward_zero)

lemma heldDischarge_charge [simp]: "totalCharge (heldDischarge s ts) = totalCharge ts"
  using ratio_fraction [of "FuseHoldMaxDischargeW s" "totalDischarge ts"]
  by (auto simp: heldDischarge_def scaleDischarge_totals)

lemma heldCharge_caps: "0 < FuseHoldMaxChargeW s \<Longrightarrow> totalCharge (heldCharge s ts) \<le> FuseHoldMaxChargeW s"
  by (auto simp: heldCharge_def scaleCharge_totals)

lemma applyFuseHold_eq:
  "applyFuseHold now (ts, s) =
     (if FuseHoldUntil s > now then (heldCharge s (heldDischarge s ts), s)
      else if \<not> isZero (FuseHoldUntil s)
      then (ts, s\<lparr>FuseHoldMaxDischargeW := 0, FuseHoldMaxChargeW := 0, FuseHoldUntil := zeroTime\<rparr>)
      else (ts, s))"
  by (simp add: applyFuseHold_def heldDischarge_def heldCharge_def Let_def)

lemma applyFuseHold_toward_zero: "list_all2 towardZero ts (fst (applyFuseHold now (ts, s)))"
  using list_towardZero_trans [OF held_toward_zero(1) held_toward_zero(2)] by (simp add: applyFuseHold_eq)

subsection \<open>The cut\<close>

lemma cut_fraction:
  assumes "0 < tc" "0 < ov"
  shows "0 \<le> (if tc - ov < 0 then 0 else tc - ov) / tc" "(if tc - ov < 0 then 0 else tc - ov) / tc \<le> (1 :: real)"
  using assms by simp_all

lemma cutToCeilings_toward_zero: "list_all2 towardZero ts (fst (cutToCeilings now imp ex ts s))"
  using cut_fraction [of "totalCharge ts" imp] cut_fraction [of "totalDischarge ts" ex]
  by (simp add: cutToCeilings_def Let_def scale_toward_zero)

lemma cutToCeilings_import:
  assumes "(out, s') = cutToCeilings now imp ex ts s" "0 < imp"
  shows "sumTargetW out = sumTargetW ts - min imp (totalCharge ts) \<and> totalCharge out = max 0 (totalCharge ts - imp)
    \<and> totalDischarge out = totalDischarge ts"
proof (cases "totalCharge ts \<le> 0")
  case True
  then have z: "totalCharge ts = 0" using totals_nonneg(1) [of ts] by linarith
  with assms show ?thesis by (simp add: cutToCeilings_def)
next
  case False
  let ?k = "(if totalCharge ts - imp < 0 then 0 else totalCharge ts - imp) / totalCharge ts"
  have out: "out = scaleCharge ?k ts" using assms False by (simp add: cutToCeilings_def Let_def)
  have k: "0 \<le> ?k" using False assms(2) by simp
  have "totalCharge out = max 0 (totalCharge ts - imp)" "totalDischarge out = totalDischarge ts"
    unfolding out using False by (simp_all only: scaleCharge_totals [OF k]) (simp add: max_def)
  then show ?thesis by (simp add: sumTargetW_split min_def max_def)
qed

lemma cutToCeilings_latch:
  assumes "(out, s') = cutToCeilings now imp ex ts s" "0 < imp" "0 < totalCharge ts"
  shows "FuseHoldMaxChargeW s' = totalCharge out" "FuseHoldUntil s' = now + 30 * second"
proof -
  have "FuseHoldMaxChargeW s' = max 0 (totalCharge ts - imp)" "FuseHoldUntil s' = now + 30 * second"
    using assms by (simp_all add: cutToCeilings_def Let_def max_def)
  then show "FuseHoldMaxChargeW s' = totalCharge out" "FuseHoldUntil s' = now + 30 * second"
    using cutToCeilings_import [OF assms(1,2)] by simp_all
qed

lemma no_charge_left: "totalCharge ts = 0 \<Longrightarrow> t \<in> set ts \<Longrightarrow> TargetW t \<le> 0"
  unfolding totalCharge_sum by (subst (asm) sum_list_nonneg_eq_0_iff) auto

subsection \<open>The ceilings do not move during the guard\<close>

lemma phaseUnresponsive_frame:
  "(snd (phaseUnresponsive amps w raw s))\<lparr>phaseResponse := z\<rparr> = s\<lparr>phaseResponse := z\<rparr>"
  by (simp add: phaseUnresponsive_def Let_def case_prod_beta)

lemma phaseReliefForTargets_frame_upd:
  "(snd (phaseReliefForTargets p bats ts s))\<lparr>phaseResponse := z\<rparr> = s\<lparr>phaseResponse := z\<rparr>"
  by (simp add: phaseReliefForTargets_def Let_def case_prod_beta phaseUnresponsive_frame split: option.split)

lemma phaseReliefForTargets_frame: "\<exists>r. snd (phaseReliefForTargets p bats ts s) = s\<lparr>phaseResponse := r\<rparr>"
proof -
  let ?x = "snd (phaseReliefForTargets p bats ts s)"
  have "?x = ?x\<lparr>phaseResponse := phaseResponse ?x\<rparr>" by simp
  also have "\<dots> = s\<lparr>phaseResponse := phaseResponse ?x\<rparr>" by (rule phaseReliefForTargets_frame_upd)
  finally show ?thesis by blast
qed

lemma ceilings_frame [simp]:
  "effectiveImportCeilingW f (s\<lparr>phaseResponse := r\<rparr>) = effectiveImportCeilingW f s"
  "effectiveExportCeilingW f (s\<lparr>phaseResponse := r\<rparr>) = effectiveExportCeilingW f s"
  "effectiveImportCeilingW f (s\<lparr>FuseHoldMaxDischargeW := a, FuseHoldMaxChargeW := b, FuseHoldUntil := c\<rparr>)
     = effectiveImportCeilingW f s"
  "effectiveExportCeilingW f (s\<lparr>FuseHoldMaxDischargeW := a, FuseHoldMaxChargeW := b, FuseHoldUntil := c\<rparr>)
     = effectiveExportCeilingW f s"
  by (simp_all add: effectiveImportCeilingW_def effectiveExportCeilingW_def importHourLimitsW_def
      importHourMeasured_def fuseSafetyMarginW_def Let_def)

lemma applyFuseHold_ceilings:
  "effectiveImportCeilingW f (snd (applyFuseHold now (ts, s))) = effectiveImportCeilingW f s"
  "effectiveExportCeilingW f (snd (applyFuseHold now (ts, s))) = effectiveExportCeilingW f s"
  by (simp_all add: applyFuseHold_eq)

lemma fuseOverages_bounds:
  assumes "((imp, ex), s') = fuseOverages store fuseMaxW bats baseW out s"
  shows "baseW + sumTargetW out - effectiveImportCeilingW fuseMaxW s \<le> imp"
    "- effectiveExportCeilingW fuseMaxW s - (baseW + sumTargetW out) \<le> ex"
    "\<exists>r. s' = s\<lparr>phaseResponse := r\<rparr>"
proof -
  let ?r = "phaseReliefForTargets (livePhaseSample store (SiteMeterDriver s) (siteMeterReading store s)) bats out s"
  obtain r where r: "snd ?r = s\<lparr>phaseResponse := r\<rparr>" using phaseReliefForTargets_frame by blast
  have "imp = max (baseW + sumTargetW out - effectiveImportCeilingW fuseMaxW (snd ?r)) (fst (fst ?r))"
    "ex = max (- effectiveExportCeilingW fuseMaxW (snd ?r) - (baseW + sumTargetW out)) (snd (fst ?r))"
    "s' = snd ?r"
    using assms by (simp_all add: fuseOverages_def Let_def case_prod_beta)
  then show "baseW + sumTargetW out - effectiveImportCeilingW fuseMaxW s \<le> imp"
    "- effectiveExportCeilingW fuseMaxW s - (baseW + sumTargetW out) \<le> ex"
    "\<exists>r. s' = s\<lparr>phaseResponse := r\<rparr>"
    by (auto simp: r)
qed

text \<open>The guard as hold, prediction and cut.\<close>

lemma applyFuseGuard_parts:
  assumes "0 < fuseMaxW" "(out, s') = applyFuseGuard store fuseMaxW ts s"
    "baseW = smoothedW (siteMeterReading store s) - currentBatW (readingsFor store ts) ts"
  obtains held s1 imp ex s2 where "(held, s1) = applyFuseHold (clock s) (ts, s)"
    "((imp, ex), s2) = fuseOverages store fuseMaxW (readingsFor store ts) baseW held s1"
    "(out, s') = cutToCeilings (clock s) imp ex held s2"
proof -
  obtain held s1 where h: "applyFuseHold (clock s) (ts, s) = (held, s1)" by force
  obtain imp ex s2 where o: "fuseOverages store fuseMaxW (readingsFor store ts) baseW held s1 = ((imp, ex), s2)"
    by (metis surj_pair)
  have "(out, s') = cutToCeilings (clock s) imp ex held s2"
    using assms(1,2) h o by (simp add: applyFuseGuard_def Let_def assms(3))
  then show thesis using that [of held s1 imp ex s2] h o by simp
qed

lemma applyFuseGuard_toward_zero: "list_all2 towardZero ts (fst (applyFuseGuard store fuseMaxW ts s))"
proof (cases "0 < fuseMaxW")
  case True
  obtain out s' where g: "(out, s') = applyFuseGuard store fuseMaxW ts s" by (metis surj_pair)
  obtain held s1 imp ex s2 where "(held, s1) = applyFuseHold (clock s) (ts, s)"
    "(out, s') = cutToCeilings (clock s) imp ex held s2"
    using applyFuseGuard_parts [OF True g refl] by metis
  then have "held = fst (applyFuseHold (clock s) (ts, s))" "out = fst (cutToCeilings (clock s) imp ex held s2)"
    by (metis fst_conv)+
  then have "list_all2 towardZero ts held" "list_all2 towardZero held out"
    using applyFuseHold_toward_zero cutToCeilings_toward_zero by simp_all
  then show ?thesis using list_towardZero_trans by (metis g fst_conv)
qed (simp add: applyFuseGuard_def)

interpretation fuse_guard: toward_zero_pass "\<lambda>ts. fst (applyFuseGuard store fuseMaxW ts s)"
  for store fuseMaxW s
  by unfold_locales (rule applyFuseGuard_toward_zero)

lemma cutToCeilings_export:
  assumes "(out, s') = cutToCeilings now imp ex ts s" "imp \<le> 0" "0 < ex"
  shows "sumTargetW out = sumTargetW ts + min ex (totalDischarge ts)
    \<and> totalDischarge out = max 0 (totalDischarge ts - ex) \<and> totalCharge out = totalCharge ts"
proof (cases "totalDischarge ts \<le> 0")
  case True
  then have z: "totalDischarge ts = 0" using totals_nonneg(2) [of ts] by linarith
  with assms show ?thesis by (simp add: cutToCeilings_def)
next
  case False
  let ?k = "(if totalDischarge ts - ex < 0 then 0 else totalDischarge ts - ex) / totalDischarge ts"
  have out: "out = scaleDischarge ?k ts" using assms False by (simp add: cutToCeilings_def Let_def)
  have k: "0 \<le> ?k" using False assms(2) by simp
  have "totalDischarge out = max 0 (totalDischarge ts - ex)" "totalCharge out = totalCharge ts"
    unfolding out using False by (simp_all only: scaleDischarge_totals [OF k]) (simp add: max_def)
  then show ?thesis by (simp add: sumTargetW_split min_def max_def)
qed

lemma no_discharge_left: "totalDischarge ts = 0 \<Longrightarrow> t \<in> set ts \<Longrightarrow> 0 \<le> TargetW t"
  unfolding totalDischarge_sum by (subst (asm) sum_list_nonneg_eq_0_iff) auto

lemma totals_mono:
  assumes "list_all2 towardZero a b"
  shows "totalCharge b \<le> totalCharge a"
  using assms unfolding totalCharge_sum
  by (induction rule: list_all2_induct) (auto simp: towardZero_def)

text \<open>The cut leaves the site inside both ceilings, or nothing to cut.\<close>

lemma cut_inside:
  assumes "(out, s') = cutToCeilings now imp ex held s2"
    "imp = base + sumTargetW held - I" "ex = - E - (base + sumTargetW held)" "0 \<le> I" "0 \<le> E"
  shows "(base + sumTargetW out \<le> I \<or> totalCharge out = 0)
    \<and> (- E \<le> base + sumTargetW out \<or> totalDischarge out = 0)"
proof -
  consider "0 < imp" | "imp \<le> 0" "0 < ex" | "imp \<le> 0" "ex \<le> 0" by linarith
  then show ?thesis
  proof cases
    case 1
    from cutToCeilings_import [OF assms(1) 1] assms(2,4,5) 1 show ?thesis
      by (auto simp: min_def max_def)
  next
    case 2
    from cutToCeilings_export [OF assms(1) 2] assms(3,4,5) 2 show ?thesis
      by (auto simp: min_def max_def)
  next
    case 3
    then have "out = held" using assms(1) by (simp add: cutToCeilings_def)
    with 3 assms(2,3) show ?thesis by simp
  qed
qed

lemma total_only_no_phases:
  assumes "\<forall>m. meter = Some m \<longrightarrow> Data m = Empty"
  shows "signedPhasesA (livePhaseSample store d meter) s = None"
  using assms by (auto simp: livePhaseSample_def signedPhasesA_def noPhases_def phaseCurrentsA_def
      split: option.split prod.split)

lemma phaseRelief_without_phases:
  "signedPhasesA p s = None \<Longrightarrow> phaseReliefForTargets p bats ts s = ((0, 0), s)"
  by (simp add: phaseReliefForTargets_def phaseFuseReliefW_def phaseSentReliefW_def case_prod_beta
      split: option.split)

lemma effectiveImportCeilingW_nonneg: "hour_ok (importHour s) \<Longrightarrow> 0 \<le> effectiveImportCeilingW f s"
  by (auto simp: effectiveImportCeilingW_def importHourLimitsW_def hour_ok_def Let_def split: option.split)

lemma effectiveExportCeilingW_nonneg: "0 \<le> effectiveExportCeilingW f s"
  by (simp add: effectiveExportCeilingW_def Let_def)

lemma applyFuseHold_meter:
  "siteMeterReading store (snd (applyFuseHold now (ts, s))) = siteMeterReading store s"
  "SiteMeterDriver (snd (applyFuseHold now (ts, s))) = SiteMeterDriver s"
  by (simp_all add: applyFuseHold_eq siteMeterReading_def)

section \<open>Properties of the guard\<close>


definition guardState :: State where
  "guardState = phaseState\<lparr>SiteMeterDriver := ''m''\<rparr>"


text \<open>The guard's cap holds: while the hold window is open the total charge stays at or under the
  latched cap, whatever the planner asks; and when the guard cuts it latches exactly the total it
  leaves, for 30 seconds.\<close>

theorem fuse_hold_caps_charge:
  assumes "0 < fuseMaxW" "(out, s') = applyFuseGuard store fuseMaxW ts s"
  shows "(clock s < FuseHoldUntil s \<and> 0 < FuseHoldMaxChargeW s \<longrightarrow> totalCharge out \<le> FuseHoldMaxChargeW s)
    \<and> (FuseHoldUntil s' \<noteq> FuseHoldUntil s \<and> \<not> isZero (FuseHoldUntil s') \<longrightarrow>
        FuseHoldUntil s' = clock s + 30 * second
        \<and> (FuseHoldMaxChargeW s' = totalCharge out \<or> FuseHoldMaxDischargeW s' = totalDischarge out))"
proof -
  let ?base = "smoothedW (siteMeterReading store s) - currentBatW (readingsFor store ts) ts"
  obtain held s1 imp ex s2 where p: "(held, s1) = applyFuseHold (clock s) (ts, s)"
    "((imp, ex), s2) = fuseOverages store fuseMaxW (readingsFor store ts) ?base held s1"
    "(out, s') = cutToCeilings (clock s) imp ex held s2"
    using applyFuseGuard_parts [OF assms refl] by metis
  have "list_all2 towardZero held out" using cutToCeilings_toward_zero p(3) by (metis fst_conv)
  then have le: "totalCharge out \<le> totalCharge held" by (rule totals_mono)
  have cap: "totalCharge out \<le> FuseHoldMaxChargeW s" if "clock s < FuseHoldUntil s" "0 < FuseHoldMaxChargeW s"
  proof -
    have "held = heldCharge s (heldDischarge s ts)" using p(1) that by (simp add: applyFuseHold_eq)
    then show ?thesis using heldCharge_caps [OF that(2), of "heldDischarge s ts"] le by simp
  qed
  obtain r where s2: "s2 = s1\<lparr>phaseResponse := r\<rparr>" using fuseOverages_bounds(3) [OF p(2)] by blast
  have until: "FuseHoldUntil s1 = FuseHoldUntil s \<or> FuseHoldUntil s1 = zeroTime"
    using p(1) by (auto simp: applyFuseHold_eq split: if_splits)
  consider "0 < imp" "0 < totalCharge held" | "imp \<le> 0" "0 < ex" "0 < totalDischarge held" | "s' = s2"
    using p(3) by (auto simp: cutToCeilings_def Let_def split: if_splits)
  then show ?thesis
  proof cases
    case 1
    from cutToCeilings_latch [OF p(3) 1] cap show ?thesis by blast
  next
    case 2
    have "FuseHoldMaxDischargeW s' = max 0 (totalDischarge held - ex)" "FuseHoldUntil s' = clock s + 30 * second"
      using p(3) 2 by (simp_all add: cutToCeilings_def Let_def max_def)
    then show ?thesis using cutToCeilings_export [OF p(3) 2(1,2)] cap by simp
  next
    case 3
    then show ?thesis using cap until by (auto simp: s2 isZero_def)
  qed
qed

theorem fuse_hold_caps_charge_witness:
  "totalCharge (fst (applyFuseGuard (gapMeter 0 0) 17250 [\<lparr>Driver = ''b'', TargetW = 5000, Clamped = False\<rparr>]
     (guardState\<lparr>FuseHoldUntil := 9, FuseHoldMaxChargeW := 2000\<rparr>))) \<le> 2000"
  using fuse_hold_caps_charge [OF _ surjective_pairing [symmetric], where fuseMaxW = 17250
      and store = "gapMeter 0 0" and ts = "[\<lparr>Driver = ''b'', TargetW = 5000, Clamped = False\<rparr>]"
      and s = "guardState\<lparr>FuseHoldUntil := 9, FuseHoldMaxChargeW := 2000\<rparr>"]
  by (simp add: guardState_def phaseState_def NewState_def)

section \<open>Allocating relief\<close>

lemma roomW_nonneg [simp]: "0 \<le> roomW t l"
  by (simp add: roomW_def split: option.split)

definition headroomW :: "DispatchTarget list \<Rightarrow> real option list \<Rightarrow> real" where
  "headroomW ts lowers = sum_list (map2 roomW ts lowers)"

lemma headroomW_nonneg [simp]: "0 \<le> headroomW ts lowers"
  unfolding headroomW_def by (rule sum_list_nonneg) auto

text \<open>One target's part, also when there is nothing to allocate.\<close>

definition reliefShare :: "DispatchTarget list \<Rightarrow> real \<Rightarrow> real option list \<Rightarrow> DispatchTarget \<Rightarrow> real option \<Rightarrow> real" where
  "reliefShare ts reliefW lowers t l =
     (if reliefW \<le> 0 \<or> headroomW ts lowers \<le> 0 then 0
      else min reliefW (headroomW ts lowers) * (roomW t l / headroomW ts lowers))"

lemma reliefShare_bounds: "0 \<le> reliefShare ts w ls t l" "reliefShare ts w ls t l \<le> roomW t l"
proof -
  show "0 \<le> reliefShare ts w ls t l" by (simp add: reliefShare_def)
  have "min w (headroomW ts ls) * (roomW t l / headroomW ts ls) \<le> headroomW ts ls * (roomW t l / headroomW ts ls)"
    if "0 < headroomW ts ls" using that by (intro mult_right_mono) simp_all
  then show "reliefShare ts w ls t l \<le> roomW t l" by (simp add: reliefShare_def)
qed

lemma allocate_nth:
  assumes "length lowers = length ts"
  shows "length (allocateFuseRelief ts w lowers) = length ts"
    "i < length ts \<Longrightarrow> Driver (allocateFuseRelief ts w lowers ! i) = Driver (ts ! i)
       \<and> TargetW (allocateFuseRelief ts w lowers ! i) = TargetW (ts ! i) - reliefShare ts w lowers (ts ! i) (lowers ! i)"
proof -
  show "length (allocateFuseRelief ts w lowers) = length ts"
    using assms by (simp add: allocateFuseRelief_def Let_def)
  have z: "roomW t l = 0" if "roomW t l \<le> 0" for t l using that roomW_nonneg [of t l] by linarith
  show "Driver (allocateFuseRelief ts w lowers ! i) = Driver (ts ! i)
       \<and> TargetW (allocateFuseRelief ts w lowers ! i) = TargetW (ts ! i) - reliefShare ts w lowers (ts ! i) (lowers ! i)"
    if "i < length ts"
    using that assms z [of "ts ! i" "lowers ! i"]
    by (auto simp: allocateFuseRelief_def reliefShare_def headroomW_def Let_def)
qed

lemma sum_list_nth: "sum_list (map f xs) = (\<Sum>i < length xs. f (xs ! i))" for f :: "'a \<Rightarrow> real"
  by (simp add: sum_list_sum_nth atLeast0LessThan)

lemma headroomW_nth:
  "length lowers = length ts \<Longrightarrow> headroomW ts lowers = (\<Sum>i < length ts. roomW (ts ! i) (lowers ! i))"
  by (simp add: headroomW_def sum_list_sum_nth atLeast0LessThan)

lemma reliefShare_sum:
  assumes "length lowers = length ts"
  shows "(\<Sum>i < length ts. reliefShare ts w lowers (ts ! i) (lowers ! i)) = max 0 (min w (headroomW ts lowers))"
proof (cases "w \<le> 0 \<or> headroomW ts lowers \<le> 0")
  case True
  have "max 0 (min w (headroomW ts lowers)) = 0" using True headroomW_nonneg [of ts lowers] by auto
  then show ?thesis using True by (simp add: reliefShare_def)
next
  case False
  let ?H = "headroomW ts lowers"
  have "(\<Sum>i < length ts. reliefShare ts w lowers (ts ! i) (lowers ! i))
      = (\<Sum>i < length ts. min w ?H * (roomW (ts ! i) (lowers ! i) / ?H))"
    using False by (simp add: reliefShare_def)
  also have "\<dots> = min w ?H * ((\<Sum>i < length ts. roomW (ts ! i) (lowers ! i)) / ?H)"
    by (simp add: sum_distrib_left sum_divide_distrib)
  finally show ?thesis using False headroomW_nth [OF assms] by simp
qed

lemma allocate_sum:
  assumes "length lowers = length ts"
  shows "sumTargetW (allocateFuseRelief ts w lowers) = sumTargetW ts - max 0 (min w (headroomW ts lowers))"
  using allocate_nth [OF assms] reliefShare_sum [OF assms, of w]
  by (simp add: sumTargetW_sum sum_list_nth sum_subtractf)

text \<open>An allocation down to higher bounds uses up that much of the room down to lower ones.\<close>

definition lower_than :: "real option \<Rightarrow> real option \<Rightarrow> bool" where
  "lower_than l k = (case k of None \<Rightarrow> True | Some x \<Rightarrow> (case l of None \<Rightarrow> False | Some y \<Rightarrow> y \<le> x))"

lemma roomW_mono: "lower_than l k \<Longrightarrow> roomW t k \<le> roomW t l"
  by (auto simp: lower_than_def roomW_def split: option.splits)

lemma room_after:
  assumes "lower_than l k" "0 \<le> x" "x \<le> roomW t k" "TargetW t' = TargetW t - x"
  shows "roomW t' l = roomW t l - x"
  using assms by (auto simp: lower_than_def roomW_def max_def split: option.splits if_splits)

lemma headroom_after:
  assumes "length lowers = length ts" "length limits = length ts"
    "\<forall>i < length ts. lower_than (lowers ! i) (limits ! i)"
  shows "headroomW (allocateFuseRelief ts w limits) lowers
    = headroomW ts lowers - max 0 (min w (headroomW ts limits))"
proof -
  let ?out = "allocateFuseRelief ts w limits"
  have "roomW (?out ! i) (lowers ! i) = roomW (ts ! i) (lowers ! i) - reliefShare ts w limits (ts ! i) (limits ! i)"
    if "i < length ts" for i
    using that assms(3) allocate_nth [OF assms(2)] reliefShare_bounds
    by (intro room_after [of _ "limits ! i"]) simp_all
  then show ?thesis
    using allocate_nth(1) [OF assms(2)] reliefShare_sum [OF assms(2), of w] assms(1)
    by (simp add: headroomW_nth sum_subtractf)
qed

text \<open>Fuse relief is exact and stays inside the batteries' bounds: the targets together drop by
  exactly the relief asked for or by all the room there is, whichever is less; no target is raised,
  none crosses its lower bound, and a battery without room keeps its target.\<close>

theorem fuse_relief_exact:
  assumes "length lowers = length ts" "out = allocateFuseRelief ts reliefW lowers"
  shows "sumTargetW ts - sumTargetW out = max 0 (min reliefW (headroomW ts lowers))
    \<and> map Driver out = map Driver ts
    \<and> (\<forall>i < length ts. TargetW (out ! i) \<le> TargetW (ts ! i)
        \<and> (case lowers ! i of None \<Rightarrow> TargetW (out ! i) = TargetW (ts ! i)
           | Some l \<Rightarrow> min l (TargetW (ts ! i)) \<le> TargetW (out ! i)))"
proof -
  have "map Driver out = map Driver ts"
    using allocate_nth [OF assms(1)] by (intro nth_equalityI) (simp_all add: assms(2))
  moreover have "TargetW (out ! i) \<le> TargetW (ts ! i)
      \<and> (case lowers ! i of None \<Rightarrow> TargetW (out ! i) = TargetW (ts ! i)
         | Some l \<Rightarrow> min l (TargetW (ts ! i)) \<le> TargetW (out ! i))" if "i < length ts" for i
    using allocate_nth(2) [OF assms(1) that, of reliefW]
      reliefShare_bounds [of ts reliefW lowers "ts ! i" "lowers ! i"]
    by (auto simp: assms(2) roomW_def split: option.splits)
  ultimately show ?thesis using allocate_sum [OF assms(1), of reliefW] by (simp add: assms(2))
qed

theorem fuse_relief_exact_witness:
  "sumTargetW (allocateFuseRelief [\<lparr>Driver = ''a'', TargetW = 1000, Clamped = False\<rparr>,
       \<lparr>Driver = ''b'', TargetW = 0, Clamped = False\<rparr>] 1500 [Some 0, Some (-5000)]) = - 500"
  using fuse_relief_exact [of "[Some 0, Some (-5000)]" "[\<lparr>Driver = ''a'', TargetW = 1000, Clamped = False\<rparr>,
       \<lparr>Driver = ''b'', TargetW = 0, Clamped = False\<rparr>]" _ 1500, OF _ refl]
  by (simp add: headroomW_def roomW_def sumTargetW_def)

end
