(* ===== verification/Plan_Intent.thy ===== *)
theory Plan_Intent
  imports Dispatch_Passes Command_Log
begin

text \<open>
  The plan as the control loop reads it (\<open>dispatch.go\<close>, \<open>ev_plan_priority.go\<close>): one snapshot per
  tick, the intent the safety rails compare against, the EV power the plan reserves, and the slot
  accounting that scores delivered against planned energy.
\<close>

section \<open>One plan per tick\<close>

definition resetEnergyDispatchBookkeeping :: "State \<Rightarrow> State" where
  "resetEnergyDispatchBookkeeping s =
     s\<lparr>currentDirective := noDirective, slotDelivered := 0, lastTickTs := zeroTime\<rparr>"

definition callDirective :: "State \<Rightarrow> time \<Rightarrow> SlotDirective \<times> bool" where
  "callDirective s t = (case SlotDirectiveFunc s of None \<Rightarrow> (noDirective, False) | Some f \<Rightarrow> f t)"

definition plannerSelfDirectiveAt :: "time \<Rightarrow> State \<Rightarrow> (SlotDirective \<times> bool) \<times> State" where
  "plannerSelfDirectiveAt now s =
     (let snap = controlPlanSnapshot s
      in if snapActive snap then
           let snap = (if directiveCaptured snap then snap
                       else let snap = snap\<lparr>directiveCaptured := True\<rparr>
                            in case SlotDirectiveFunc s of
                                 None \<Rightarrow> snap
                               | Some f \<Rightarrow> snap\<lparr>directive := fst (f (snapTickAt snap)),
                                                directiveOK := snd (f (snapTickAt snap))\<rparr>)
           in ((directive snap, directiveOK snap), s\<lparr>controlPlanSnapshot := snap\<rparr>)
         else (callDirective s now, s))"

definition planTargetAt :: "time \<Rightarrow> State \<Rightarrow> (string \<times> real \<times> string \<times> bool) \<times> State" where
  "planTargetAt now s =
     (let snap = controlPlanSnapshot s
      in if snapActive snap then
           let snap = (if legacyCaptured snap then snap
                       else let snap = snap\<lparr>legacyCaptured := True\<rparr>
                            in case PlanTarget s of
                                 None \<Rightarrow> snap
                               | Some f \<Rightarrow>
                                   (case f (snapTickAt snap) of (m, g, i, ok) \<Rightarrow>
                                      snap\<lparr>legacyMode := m, legacyGridW := g, legacyID := i, legacyOK := ok\<rparr>))
           in ((legacyMode snap, legacyGridW snap, legacyID snap, legacyOK snap),
               s\<lparr>controlPlanSnapshot := snap\<rparr>)
         else case PlanTarget s of None \<Rightarrow> (([], 0, [], False), s) | Some f \<Rightarrow> (f now, s))"

text \<open>Outside a tick the two intent readers call the plan without keeping a snapshot, so they
  never change the state.\<close>

definition planDirectiveForIntent :: "State \<Rightarrow> SlotDirective \<times> bool" where
  "planDirectiveForIntent s =
     (let snap = controlPlanSnapshot s
      in if snapActive snap then
           (case snapSource snap of
              controlPlanDirective \<Rightarrow> (directive snap, directiveOK snap)
            | controlPlanLegacyTarget \<Rightarrow>
                if directiveOK snap \<and> DecisionID (directive snap) = legacyID snap
                then (directive snap, True) else (noDirective, False)
            | controlPlanNone \<Rightarrow> (noDirective, False))
         else fst (plannerSelfDirectiveAt (clock s) s))"

definition planTargetForIntent :: "State \<Rightarrow> string \<times> real \<times> bool" where
  "planTargetForIntent s =
     (let snap = controlPlanSnapshot s
      in if snapActive snap then
           (if snapSource snap \<noteq> controlPlanLegacyTarget then ([], 0, False)
            else (legacyMode snap, legacyGridW snap, legacyOK snap))
         else (case fst (planTargetAt (clock s) s) of (m, g, _, ok) \<Rightarrow> (m, g, ok)))"

section \<open>planner self\<close>

record plannerSelfDecision =
  idleGate :: bool
  exportSurplusGate :: bool
  noChargeOnStalePlan :: bool

definition preparePlannerSelf :: "time \<Rightarrow> State \<Rightarrow> plannerSelfDecision \<times> State" where
  "preparePlannerSelf now s =
     (let s = SetGridTarget 0 s;
          s = resetEnergyDispatchBookkeeping s;
          ((dir, planFresh), s) = plannerSelfDirectiveAt now s;
          planFresh = (planFresh \<and> \<not> EVOnly dir)
      in if \<not> planFresh
         then (\<lparr>idleGate = False, exportSurplusGate = False, noChargeOnStalePlan = True\<rparr>,
               s\<lparr>PlanStale := True\<rparr>)
         else (\<lparr>idleGate = plannerSelfDirectiveIsIdle dir,
                exportSurplusGate = plannerSelfDirectiveExportsSurplus dir, noChargeOnStalePlan = False\<rparr>,
               s\<lparr>controlSlotDecisionID := DecisionID dir,
                 controlPlanSnapshot := (controlPlanSnapshot s)\<lparr>snapSource := controlPlanDirective\<rparr>,
                 PlanStale := False\<rparr>))"

section \<open>The EV's share\<close>

definition evActiveThresholdW :: real where "evActiveThresholdW = 100"

definition coveredEVChargingW :: "State \<Rightarrow> real" where
  "coveredEVChargingW s =
     (if BatteryCoversEV s then EVChargingW s
      else let w = BatteryBoostEVChargingW s
           in if w < 0 then 0 else if w > EVChargingW s then EVChargingW s else w)"

definition uncoveredEVChargingW :: "State \<Rightarrow> real" where
  "uncoveredEVChargingW s =
     (if BatteryCoversEV s then 0
      else let w = EVChargingW s - coveredEVChargingW s in if w < 0 then 0 else w)"

definition batteryMayCoverEV :: "State \<Rightarrow> bool" where
  "batteryMayCoverEV s = (BatteryCoversEV s \<or> BatteryBoostEVChargingW s > evActiveThresholdW)"

text \<open>\<open>loadpoint.FuseDemand\<close>, as \<open>SetEVFuseDemands\<close> reads it.\<close>

record FuseDemand =
  dmDriverName :: string
  dmPowerW :: f64
  dmPhaseMode :: string

definition demandPhase :: "string \<Rightarrow> string" where
  "demandPhase m = (if m \<noteq> ''1p'' \<and> m \<noteq> ''3p'' then ''auto'' else m)"

text \<open>\<open>byDriver\<close> maps a driver to its index in the list built so far; the list has one entry per
  driver, so the entry is found by its driver.\<close>

definition addDemand :: "evFuseDemand list \<Rightarrow> FuseDemand \<Rightarrow> evFuseDemand list" where
  "addDemand ds d =
     (if dmDriverName d = [] \<or> \<not> isFinite (dmPowerW d) \<or> dmPowerW d \<le> Fin 0 then ds
      else let phase = demandPhase (dmPhaseMode d)
           in if dmDriverName d \<in> set (map fdDriver ds)
              then map (\<lambda>e. if fdDriver e = dmDriverName d
                            then e\<lparr>fdPowerW := max (fdPowerW e) (fval (dmPowerW d)),
                                   fdPhaseMode := (if fdPhaseMode e \<noteq> phase then ''auto'' else fdPhaseMode e)\<rparr>
                            else e) ds
              else ds @ [\<lparr>fdDriver = dmDriverName d, fdPowerW = fval (dmPowerW d), fdPhaseMode = phase\<rparr>])"

definition SetEVFuseDemands :: "FuseDemand list \<Rightarrow> State \<Rightarrow> State" where
  "SetEVFuseDemands demands s =
     s\<lparr>evFuseDemandsSet := True, evFuseDemands := foldl addDemand [] demands\<rparr>"

text \<open>The reservation loop; \<open>None\<close> is its early return on a value that is no usable number.\<close>

fun reservedLoop :: "real \<Rightarrow> (string, f64) gomap \<Rightarrow> real \<Rightarrow> (string, f64) gomap \<Rightarrow> real option" where
  "reservedLoop h peaks acc [] = Some acc"
| "reservedLoop h peaks acc ((i, wh) # rest) =
     (if \<not> isFinite wh \<or> wh < Fin 0 then None
      else if wh \<le> Fin 0 then reservedLoop h peaks acc rest
      else case mget peaks i of
             None \<Rightarrow> reservedLoop h peaks (acc + fval wh / h) rest
           | Some peak \<Rightarrow>
               if \<not> isFinite peak \<or> peak < Fin 0 then None
               else if peak > Fin 0 then reservedLoop h peaks (acc + fval peak) rest
               else reservedLoop h peaks (acc + fval wh / h) rest)"

definition commandedDemandW :: "State \<Rightarrow> real" where
  "commandedDemandW s =
     max (if \<not> isFinite (EVCommandedW s) \<or> EVCommandedW s < Fin 0 then 0 else fval (EVCommandedW s))
         (sum_list (map fdPowerW (evFuseDemands s)))"

definition scheduledEVPowerW :: "State \<Rightarrow> real" where
  "scheduledEVPowerW s =
     (let commanded = commandedDemandW s
      in if evFuseDemandsSet s then commanded
         else if \<not> IsPlannerMode (Mode s) then commanded
         else let (dir, ok) = planDirectiveForIntent s; snap = controlPlanSnapshot s;
                  (dir, ok) = (if \<not> ok \<and> directiveOK snap \<and> EVOnly (directive snap)
                               then (directive snap, True) else (dir, ok))
              in if \<not> ok \<or> clock s < SlotStart dir \<or> \<not> clock s < SlotEnd dir then commanded
                 else let h = hours (tsub (SlotEnd dir) (SlotStart dir))
                      in if h \<le> 0 then commanded
                         else case reservedLoop h (LoadpointMaxPowerW dir) 0 (LoadpointEnergyWh dir) of
                                None \<Rightarrow> commanded
                              | Some reserved \<Rightarrow> max commanded reserved)"

section \<open>Intent\<close>

definition coverLoadChargeSlot :: "State \<Rightarrow> SlotDirective \<Rightarrow> bool" where
  "coverLoadChargeSlot s dir =
     (if \<not> HasPlannedGridW dir \<or> intentEnergyWh dir \<le> 50 \<or> PlannedGridW dir \<ge> 100 then False
      else if Mode s = ModePlannerArbitrage then True
      else Mode s = ModePlannerPassiveArbitrage \<and> batteryMayCoverEV s \<and> EVChargingW s > evActiveThresholdW)"

definition legacyNonDischarge :: "State \<Rightarrow> bool" where
  "legacyNonDischarge s =
     (if PlanTarget s = None then False
      else case planTargetForIntent s of (m, gridW, ok) \<Rightarrow>
        if \<not> ok then False
        else if m = ModeCharge then True
        else if m = ModeSelfConsumption
        then (if Mode s = ModePlannerPassiveArbitrage then gridW > 100 else gridW \<ge> - 100)
        else False)"

definition planHasNonDischargeIntent :: "State \<Rightarrow> bool" where
  "planHasNonDischargeIntent s =
     (if \<not> IsPlannerMode (Mode s) then False
      else if Mode s = ModePlannerSelf then False
      else let (dir, ok) = planDirectiveForIntent s
           in if SlotDirectiveFunc s \<noteq> None \<and> ok then
                (if (Mode s = ModePlannerPassiveArbitrage \<or> Mode s = ModePlannerArbitrage)
                    \<and> coverLoadChargeSlot s dir then False
                 else intentEnergyWh dir \<ge> - 50)
              else legacyNonDischarge s)"

definition legacySignIntent :: "State \<Rightarrow> int" where
  "legacySignIntent s =
     (if PlanTarget s = None then 0
      else case planTargetForIntent s of (m, gridW, ok) \<Rightarrow>
        if \<not> ok then 0
        else if m = ModeCharge then 1
        else if m = ModeSelfConsumption then (if gridW < - 100 then - 1 else 0)
        else 0)"

definition planSignIntent :: "State \<Rightarrow> int" where
  "planSignIntent s =
     (let (dir, ok) = planDirectiveForIntent s
      in if SlotDirectiveFunc s \<noteq> None \<and> ok then
           (if intentEnergyWh dir > 50 then (if coverLoadChargeSlot s dir then 0 else 1)
            else if intentEnergyWh dir < - 50 then - 1
            else 0)
         else legacySignIntent s)"

definition execSign :: "real \<Rightarrow> int" where
  "execSign w = (if w > 100 then 1 else if w < - 100 then - 1 else 0)"

definition applyPlanSignFloor :: "State \<Rightarrow> DispatchTarget list \<Rightarrow> DispatchTarget list" where
  "applyPlanSignFloor s ts =
     (if ts = [] \<or> \<not> IsPlannerMode (Mode s) \<or> Mode s = ModePlannerSelf then ts
      else let intent = planSignIntent s
           in if intent = 0 then ts
              else let total = sum_list (map TargetW ts)
                   in if \<bar>total\<bar> < 100 then ts
                      else if execSign total = 0 \<or> execSign total = intent then ts
                      else map (\<lambda>t. \<lparr>Driver = Driver t, TargetW = 0, Clamped = True\<rparr>) ts)"

section \<open>Lemmas\<close>

lemma sign_floor_toward_zero: "list_all2 towardZero ts (applyPlanSignFloor s ts)"
  by (auto simp: applyPlanSignFloor_def Let_def list_all2_conv_all_nth towardZero_def)

interpretation sign_floor: toward_zero_pass "applyPlanSignFloor s" for s
  by unfold_locales (rule sign_floor_toward_zero)

lemma sum_zero_targets: "sum_list (map TargetW (map (\<lambda>t. \<lparr>Driver = Driver t, TargetW = 0, Clamped = True\<rparr>) ts)) = 0"
  by (induction ts) auto

lemma execSign_agrees: "execSign w = 0 \<or> execSign w = i \<Longrightarrow> i = 1 \<or> i = - 1 \<Longrightarrow> - 100 \<le> real_of_int i * w"
  by (auto simp: execSign_def split: if_splits)

section \<open>Properties\<close>

text \<open>The plan's sign is a rail: in the planner modes that follow a plan, and whenever the plan
  charges or discharges, the fleet total a dispatch sends is never more than 100 W against the plan;
  a total on the wrong side is replaced by 0 W for every battery, any other total passes
  unchanged.\<close>

theorem plan_sign_rail:
  assumes "IsPlannerMode (Mode s)" "Mode s \<noteq> ModePlannerSelf" "planSignIntent s = i" "i \<noteq> 0"
    "out = applyPlanSignFloor s ts"
  shows "- 100 \<le> real_of_int i * sum_list (map TargetW out)
    \<and> (out = ts \<or> out = map (\<lambda>t. \<lparr>Driver = Driver t, TargetW = 0, Clamped = True\<rparr>) ts)
    \<and> (0 \<le> real_of_int i * sum_list (map TargetW ts) \<longrightarrow> out = ts)"
proof -
  have i: "i = 1 \<or> i = - 1"
    using assms(3,4) by (auto simp: planSignIntent_def legacySignIntent_def Let_def split: if_splits prod.splits)
  let ?w = "sum_list (map TargetW ts)"
  show ?thesis
  proof (cases "\<bar>?w\<bar> < 100 \<or> execSign ?w = 0 \<or> execSign ?w = i")
    case True
    then have out: "out = ts" using assms by (auto simp: applyPlanSignFloor_def Let_def)
    have "- 100 \<le> real_of_int i * ?w"
      using True execSign_agrees [OF _ i, of ?w] i by (elim disjE) auto
    with out show ?thesis by simp
  next
    case False
    then have ne: "ts \<noteq> []" by auto
    with False assms have out: "out = map (\<lambda>t. \<lparr>Driver = Driver t, TargetW = 0, Clamped = True\<rparr>) ts"
      by (auto simp: applyPlanSignFloor_def Let_def)
    have "real_of_int i * ?w < 0" using False i by (auto simp: execSign_def split: if_splits)
    then show ?thesis unfolding out sum_zero_targets by simp
  qed
qed

definition planState :: "real \<Rightarrow> State" where
  "planState wh = (NewState 0 50 ''meter'' (\<lambda>_. 0) 0)\<lparr>Mode := ModePlannerArbitrage,
     SlotDirectiveFunc := Some (\<lambda>t. (noDirective\<lparr>SlotStart := 0, SlotEnd := hour, BatteryEnergyWh := wh\<rparr>, True))\<rparr>"

theorem plan_sign_rail_witness:
  "map TargetW (applyPlanSignFloor (planState (- 600)) [\<lparr>Driver = ''b'', TargetW = 1640, Clamped = False\<rparr>]) = [0]"
proof -
  let ?s = "planState (- 600)" and ?ts = "[\<lparr>Driver = ''b'', TargetW = 1640, Clamped = False\<rparr>]"
  have i: "planSignIntent ?s = - 1"
    by (simp add: planSignIntent_def planDirectiveForIntent_def plannerSelfDirectiveAt_def callDirective_def
        planState_def NewState_def noSnapshot_def noDirective_def intentEnergyWh_def isZero_def Let_def)
  have "IsPlannerMode (Mode ?s)" "Mode ?s \<noteq> ModePlannerSelf"
    by (simp_all add: planState_def IsPlannerMode_def ModePlannerArbitrage_def ModePlannerSelf_def)
  from plan_sign_rail [OF this i _ refl, of ?ts] show ?thesis by auto
qed

text \<open>Every plan-dependent decision of one control tick reads the same plan: once the tick has
  asked the planner for its directive, further questions in the tick get the same answer, even if
  the planner has been replaced or would answer differently by now.\<close>

theorem tick_reads_one_plan:
  assumes "snapActive (controlPlanSnapshot s)" "plannerSelfDirectiveAt now s = (r, s1)"
  shows "fst (plannerSelfDirectiveAt now' (s1\<lparr>SlotDirectiveFunc := f, clock := t\<rparr>)) = r"
proof -
  have "directiveCaptured (controlPlanSnapshot s1)" "snapActive (controlPlanSnapshot s1)"
    "r = (directive (controlPlanSnapshot s1), directiveOK (controlPlanSnapshot s1))"
    using assms by (auto simp: plannerSelfDirectiveAt_def Let_def split: option.splits if_splits)
  then show ?thesis by (simp add: plannerSelfDirectiveAt_def Let_def)
qed

theorem tick_reads_one_plan_witness:
  "fst (plannerSelfDirectiveAt 9 ((snd (plannerSelfDirectiveAt 5
      ((planState 600)\<lparr>controlPlanSnapshot := noSnapshot\<lparr>snapActive := True\<rparr>\<rparr>)))\<lparr>SlotDirectiveFunc := None, clock := 7\<rparr>))
   = (noDirective\<lparr>SlotStart := 0, SlotEnd := hour, BatteryEnergyWh := 600\<rparr>, True)"
proof -
  let ?s = "(planState 600)\<lparr>controlPlanSnapshot := noSnapshot\<lparr>snapActive := True\<rparr>\<rparr>"
  have "fst (plannerSelfDirectiveAt 5 ?s) = (noDirective\<lparr>SlotStart := 0, SlotEnd := hour, BatteryEnergyWh := 600\<rparr>, True)"
    by (simp add: plannerSelfDirectiveAt_def planState_def noSnapshot_def Let_def)
  with tick_reads_one_plan [of ?s 5 _ "snd (plannerSelfDirectiveAt 5 ?s)", OF _ surjective_pairing]
  show ?thesis by simp
qed

end
