(* ===== verification/Slot_Accounting.thy ===== *)
theory Slot_Accounting
  imports Plan_Intent
begin

text \<open>
  Delivered against planned energy (\<open>dispatch.go\<close>): \<open>updateSlotDeliveryMetrics\<close> integrates the
  measured fleet power and the accepted directive over the same observed time,
  \<open>scoreSlotDeliveryMetrics\<close> scores a price interval when it ends, and \<open>SlotEnergy\<close> reports the
  accounting. The uint64 counters are natural numbers; a wrap-around needs 2^64 price intervals.
\<close>

definition slotDeliveryOverThreshold :: real where "slotDeliveryOverThreshold = 3 / 2"
definition slotDeliveryUnderThreshold :: real where "slotDeliveryUnderThreshold = 1 / 2"
definition slotDeliveryIdleWhCutoff :: real where "slotDeliveryIdleWhCutoff = 50"
definition slotDeliveryMaxTickDtS :: real where "slotDeliveryMaxTickDtS = 300"

definition scoreSlotDeliveryMetrics :: "State \<Rightarrow> State" where
  "scoreSlotDeliveryMetrics s =
     (let plannedWh = slotActualPlannedWh s; actualWh = slotActualWh s; st = SlotDeliveryStats s
      in if \<bar>plannedWh\<bar> > slotDeliveryIdleWhCutoff then
           (if plannedWh * actualWh < 0 \<and> \<bar>actualWh\<bar> > slotDeliveryIdleWhCutoff
            then s\<lparr>SlotDeliveryStats := st\<lparr>SignMismatchCount := SignMismatchCount st + 1\<rparr>\<rparr>
            else let ratio = \<bar>actualWh\<bar> / max \<bar>plannedWh\<bar> 1
                 in if ratio > slotDeliveryOverThreshold
                    then s\<lparr>SlotDeliveryStats := st\<lparr>OverDeliveryCount := OverDeliveryCount st + 1\<rparr>\<rparr>
                    else if ratio < slotDeliveryUnderThreshold
                    then s\<lparr>SlotDeliveryStats := st\<lparr>UnderDeliveryCount := UnderDeliveryCount st + 1\<rparr>\<rparr>
                    else s)
         else s)"

text \<open>The part of the time since the last tick that the previous directive covers.\<close>

definition countInterval :: "real \<Rightarrow> time \<Rightarrow> State \<Rightarrow> State" where
  "countInterval currentTotalW now s =
     (let previous = slotActualDirective s; dt = seconds (tsub now (slotActualLastTs s))
      in if dt > 0 \<and> dt < slotDeliveryMaxTickDtS \<and> \<not> isZero (SlotStart previous) then
           let start = (if slotActualLastTs s < SlotStart previous then SlotStart previous else slotActualLastTs s);
               stop = (if now > SlotEnd previous then SlotEnd previous else now)
           in if stop > start
              then let h = hours (tsub stop start)
                   in s\<lparr>slotActualWh := slotActualWh s + currentTotalW * h,
                        slotPlannedPastWh := slotPlannedPastWh s + averageBatteryW previous * h\<rparr>
              else s
         else s)"

definition rollSlot :: "SlotDirective \<Rightarrow> State \<Rightarrow> State" where
  "rollSlot dir s =
     (let previous = slotActualDirective s
      in if priceSlotStart dir \<noteq> slotActualSlotStart s then
           (scoreSlotDeliveryMetrics (s\<lparr>slotActualPlannedWh := slotPlannedPastWh s\<rparr>))
             \<lparr>slotActualWh := 0, slotPlannedPastWh := 0, slotActualReplans := 0\<rparr>
         else if \<not> isZero (SlotStart previous)
              \<and> (DecisionID previous \<noteq> DecisionID dir \<or> SlotStart previous \<noteq> SlotStart dir
                 \<or> BatteryEnergyWh previous \<noteq> BatteryEnergyWh dir)
         then s\<lparr>slotActualReplans := slotActualReplans s + 1\<rparr>
         else s)"

definition updateSlotDeliveryMetrics :: "real \<Rightarrow> time \<Rightarrow> State \<Rightarrow> State" where
  "updateSlotDeliveryMetrics currentTotalW now s =
     (if SlotDirectiveFunc s = None then s
      else case plannerSelfDirectiveAt now s of ((dir, ok), s) \<Rightarrow>
        if \<not> ok then s\<lparr>slotActualLastTs := now, slotActualDirective := noDirective\<rparr>
        else
          let s = (if \<not> isZero (slotActualSlotStart s) then rollSlot dir (countInterval currentTotalW now s) else s);
              s = s\<lparr>slotActualSlotStart := priceSlotStart dir, slotActualLastTs := now,
                    slotActualDirective := dir\<rparr>;
              remaining = max 0 (hours (tsub (SlotEnd dir) now))
          in s\<lparr>slotActualPlannedWh := slotPlannedPastWh s + averageBatteryW dir * remaining\<rparr>)"

record SlotEnergySnapshot =
  seHasSlot :: bool
  seDecisionID :: string
  sePlannedWh :: real
  sePlannedSoFarWh :: real
  seActualWh :: real
  seEnergyPathWh :: real
  seSlotStart :: time
  seSlotEnd :: time

definition SlotEnergy :: "State \<Rightarrow> SlotEnergySnapshot" where
  "SlotEnergy s =
     \<lparr>seHasSlot = \<not> isZero (slotActualSlotStart s), seDecisionID = controlSlotDecisionID s,
      sePlannedWh = slotActualPlannedWh s, sePlannedSoFarWh = slotPlannedPastWh s,
      seActualWh = slotActualWh s, seEnergyPathWh = slotDelivered s,
      seSlotStart = slotActualSlotStart s,
      seSlotEnd = (if isZero (SlotEnd (slotActualDirective s)) \<and> \<not> isZero (SlotStart (currentDirective s))
                   then SlotStart (currentDirective s) else SlotEnd (slotActualDirective s))\<rparr>"

section \<open>Lemmas\<close>

definition books_agree :: "State \<Rightarrow> bool" where
  "books_agree s = (slotActualWh s = slotPlannedPastWh s)"

lemma directiveAt_frame:
  "slotActualWh (snd (plannerSelfDirectiveAt now s)) = slotActualWh s"
  "slotPlannedPastWh (snd (plannerSelfDirectiveAt now s)) = slotPlannedPastWh s"
  "SlotDeliveryStats (snd (plannerSelfDirectiveAt now s)) = SlotDeliveryStats s"
  "slotActualDirective (snd (plannerSelfDirectiveAt now s)) = slotActualDirective s"
  by (simp_all add: plannerSelfDirectiveAt_def Let_def)

lemma countInterval_agree:
  "books_agree s \<Longrightarrow> w = averageBatteryW (slotActualDirective s) \<Longrightarrow> books_agree (countInterval w now s)"
  by (simp add: books_agree_def countInterval_def Let_def)

lemma countInterval_stats [simp]: "SlotDeliveryStats (countInterval w now s) = SlotDeliveryStats s"
  by (simp add: countInterval_def Let_def)

lemma exact_score: "slotActualPlannedWh s = slotActualWh s \<Longrightarrow> scoreSlotDeliveryMetrics s = s"
  by (auto simp: scoreSlotDeliveryMetrics_def Let_def slotDeliveryIdleWhCutoff_def
      slotDeliveryOverThreshold_def slotDeliveryUnderThreshold_def max_def not_less)

lemma rollSlot_agree: "books_agree s \<Longrightarrow> books_agree (rollSlot dir s)"
  by (simp add: books_agree_def rollSlot_def Let_def)

lemma rollSlot_stats: "books_agree s \<Longrightarrow> SlotDeliveryStats (rollSlot dir s) = SlotDeliveryStats s"
  by (simp add: books_agree_def rollSlot_def Let_def exact_score)

lemma followed_tick:
  assumes "books_agree s" "w = averageBatteryW (slotActualDirective s)"
  shows "books_agree (updateSlotDeliveryMetrics w now s)
    \<and> SlotDeliveryStats (updateSlotDeliveryMetrics w now s) = SlotDeliveryStats s"
proof -
  obtain dir ok s1 where p: "plannerSelfDirectiveAt now s = ((dir, ok), s1)" by (metis surj_pair)
  have s1: "books_agree s1" "w = averageBatteryW (slotActualDirective s1)"
    "SlotDeliveryStats s1 = SlotDeliveryStats s"
    using assms directiveAt_frame [of now s] by (simp_all add: p books_agree_def)
  note roll = rollSlot_agree [OF countInterval_agree [OF s1(1,2)], of dir now]
    rollSlot_stats [OF countInterval_agree [OF s1(1,2)], of dir now]
  show ?thesis
    using assms(1) s1 roll by (simp add: updateSlotDeliveryMetrics_def p Let_def books_agree_def)
qed

text \<open>One control tick of the accounting, as \<open>ComputeDispatch\<close> runs it: the planner may have been
  replaced, the tick opens a fresh snapshot, and the fleet has delivered what the directive in force
  since the last tick asked for.\<close>

definition followedTick :: "State \<Rightarrow> time \<times> (time \<Rightarrow> SlotDirective \<times> bool) option \<Rightarrow> State" where
  "followedTick s p = (case p of (now, f) \<Rightarrow>
     updateSlotDeliveryMetrics (averageBatteryW (slotActualDirective s)) now
       (s\<lparr>SlotDirectiveFunc := f, controlPlanSnapshot := noSnapshot\<lparr>snapActive := True, snapTickAt := now\<rparr>\<rparr>))"

interpretation followed_machine: invariant_machine followedTick
  "\<lambda>s. books_agree s \<and> SlotDeliveryStats s = st" for st
proof
  fix s p assume "books_agree s \<and> SlotDeliveryStats s = st"
  then show "books_agree (followedTick s p) \<and> SlotDeliveryStats (followedTick s p) = st"
    using followed_tick [of "s\<lparr>SlotDirectiveFunc := snd p, controlPlanSnapshot := noSnapshot\<lparr>snapActive := True, snapTickAt := fst p\<rparr>\<rparr>"]
    by (simp add: followedTick_def case_prod_beta books_agree_def)
qed

section \<open>Properties\<close>

text \<open>A fleet that delivers what the plan asks is never scored as a miss: whatever ticks, gaps,
  missing plans, replans inside a price interval and price boundaries follow, as long as the fleet's
  power is at every tick that of the directive in force, the delivered and the planned energy of the
  observed time stay equal and no over-delivery, under-delivery or sign mismatch is counted.\<close>

theorem followed_plan_scores_nothing:
  "slotActualWh (foldl followedTick (NewState g tol m z t0) ticks)
     = slotPlannedPastWh (foldl followedTick (NewState g tol m z t0) ticks)
   \<and> SlotDeliveryStats (foldl followedTick (NewState g tol m z t0) ticks)
     = \<lparr>OverDeliveryCount = 0, UnderDeliveryCount = 0, SignMismatchCount = 0\<rparr>"
proof -
  have "books_agree (NewState g tol m z t0) \<and> SlotDeliveryStats (NewState g tol m z t0)
      = \<lparr>OverDeliveryCount = 0, UnderDeliveryCount = 0, SignMismatchCount = 0\<rparr>"
    by (simp add: books_agree_def NewState_def)
  from followed_machine.inv_run [OF this, of ticks] show ?thesis by (simp add: books_agree_def)
qed

text \<open>A missed sign is counted: when a price interval ends in which the fleet moved more than
  50 Wh against a plan of more than 50 Wh, exactly the sign-mismatch counter goes up, whatever the
  ratio of the two amounts is, and the next interval starts from empty sums.\<close>

theorem sign_mismatch_is_counted:
  assumes "plannedWh = slotPlannedPastWh s" "50 < \<bar>plannedWh\<bar>" "50 < \<bar>slotActualWh s\<bar>"
    "plannedWh * slotActualWh s < 0" "priceSlotStart dir \<noteq> slotActualSlotStart s"
  shows "SignMismatchCount (SlotDeliveryStats (rollSlot dir s)) = SignMismatchCount (SlotDeliveryStats s) + 1
    \<and> OverDeliveryCount (SlotDeliveryStats (rollSlot dir s)) = OverDeliveryCount (SlotDeliveryStats s)
    \<and> UnderDeliveryCount (SlotDeliveryStats (rollSlot dir s)) = UnderDeliveryCount (SlotDeliveryStats s)
    \<and> slotActualWh (rollSlot dir s) = 0 \<and> slotPlannedPastWh (rollSlot dir s) = 0"
  using assms
  by (simp add: rollSlot_def scoreSlotDeliveryMetrics_def slotDeliveryIdleWhCutoff_def Let_def)

theorem sign_mismatch_is_counted_witness:
  "SignMismatchCount (SlotDeliveryStats (rollSlot (noDirective\<lparr>SlotStart := hour\<rparr>)
     ((NewState 0 50 ''m'' (\<lambda>_. 0) 0)\<lparr>slotActualSlotStart := 0, slotPlannedPastWh := - 425, slotActualWh := 425\<rparr>))) = 1"
  using sign_mismatch_is_counted [where dir = "noDirective\<lparr>SlotStart := hour\<rparr>" and plannedWh = "- 425"
      and s = "(NewState 0 50 ''m'' (\<lambda>_. 0) 0)\<lparr>slotActualSlotStart := 0, slotPlannedPastWh := - 425, slotActualWh := 425\<rparr>"]
  by (simp add: NewState_def priceSlotStart_def noDirective_def isZero_def zeroTime_def time_simps)

text \<open>What \<open>SlotEnergy\<close> reports as the end of the slot when the plan has gone missing but the energy
  path still holds a directive: that directive's start.\<close>

theorem SlotEnergy_end_is_a_start:
  assumes "SlotDirectiveFunc s = Some f" "\<not> snd (f now)" "\<not> snapActive (controlPlanSnapshot s)"
    "\<not> isZero (SlotStart (currentDirective s))"
  shows "seSlotEnd (SlotEnergy (updateSlotDeliveryMetrics w now s)) = SlotStart (currentDirective s)"
  using assms
  by (cases "f now") (simp add: updateSlotDeliveryMetrics_def SlotEnergy_def plannerSelfDirectiveAt_def
      callDirective_def noDirective_def isZero_def Let_def)

end
