(* ===== verification/Ev_Offers.thy ===== *)
theory Ev_Offers
  imports Phase_Relief Slot_Accounting
begin

text \<open>
  The chargers' offers (\<open>ev_fuse_budget.go\<close>): what Core has ordered, what a site reading may show of
  it, and what it may not show yet. A rise counts an offer until its charger can have applied it; a
  cut counts only what the meter has still to show. The battery side reads the same log
  (\<open>evShownW\<close>) and, right after a restart, the draw of a car it has not ordered itself
  (\<open>evFoundDrawW\<close>).

  \<open>loadpoint.State\<close> and \<open>loadpoint.Config\<close> are records of the loadpoint package; the fields read
  here are those of \<^emph>\<open>lpState\<close>.
\<close>

definition evUnknownSettle :: duration where "evUnknownSettle = 3 * minute"
definition evMoveA :: real where "evMoveA = evStepA / 2"
definition evMeterDelay :: duration where "evMeterDelay = second"

definition evHeadroomW :: "f64 \<Rightarrow> f64 \<Rightarrow> f64 \<Rightarrow> real" where
  "evHeadroomW ceilW gridW poolW =
     (if \<not> finiteFuseValue ceilW \<or> \<not> finiteFuseValue gridW \<or> \<not> finiteFuseValue poolW
         \<or> ceilW \<le> Fin 0 \<or> poolW < Fin 0 then 0
      else max 0 (fval ceilW - fval gridW + fval poolW))"

section \<open>What a reading may not show yet\<close>

text \<open>The loop of \<open>unshown\<close>. Plus and minus infinity, the start values of the lowest and the
  highest offer, are \<open>None\<close>.\<close>

record unshownAcc =
  uSettled :: "real \<times> real"
  uLow :: "(real \<times> real) option"
  uHigh :: "(real \<times> real) option"

definition unshownStep :: "time \<Rightarrow> time \<Rightarrow> unshownAcc \<Rightarrow> sentCommand \<Rightarrow> unshownAcc" where
  "unshownStep start t acc c =
     (if \<not> scAt c > start then acc\<lparr>uSettled := (scW c, scA c)\<rparr>
      else
        let high = (case uHigh acc of None \<Rightarrow> (scW c, scA c)
                    | Some (hw, ha) \<Rightarrow>
                        let hw = (if scW c < hw then scW c else hw); ha = (if scA c < ha then scA c else ha)
                        in (max hw (scW c), max ha (scA c)));
            low = (if \<not> scAt c > t
                   then Some (case uLow acc of None \<Rightarrow> (scW c, scA c)
                              | Some (lw, la) \<Rightarrow> (min lw (scW c), min la (scA c)))
                   else uLow acc)
        in acc\<lparr>uHigh := Some high, uLow := low\<rparr>)"

definition unshown :: "time \<Rightarrow> duration \<Rightarrow> commandLog \<Rightarrow> real \<times> real" where
  "unshown t settle l =
     (let acc = foldl (unshownStep (t - settle) t) \<lparr>uSettled = (0, 0), uLow = None, uHigh = None\<rparr> l;
          (sw, sa) = uSettled acc;
          (lw, la) = (case uLow acc of None \<Rightarrow> (sw, sa) | Some (lw, la) \<Rightarrow> (min lw sw, min la sa))
      in case uHigh acc of None \<Rightarrow> (0, 0)
         | Some (hw, ha) \<Rightarrow> (max 0 (hw - lw), max 0 (ha - la)))"

record toComeAcc =
  tcLow :: sentCommand
  tcPrev :: sentCommand
  tcCutW :: bool
  tcCutA :: bool
  tcOther :: bool

definition toComeStep :: "time \<Rightarrow> time \<Rightarrow> sentCommand \<Rightarrow> toComeAcc \<Rightarrow> sentCommand \<Rightarrow> toComeAcc" where
  "toComeStep start t latest acc c =
     (if \<not> scAt c > start \<or> scAt c > t then acc
      else
        let cutW = (tcCutW acc \<or> scW c < scW (tcPrev acc)); cutA = (tcCutA acc \<or> scA c < scA (tcPrev acc));
            low = tcLow acc;
            low = (if \<not> cutW then low\<lparr>scW := min (scW low) (scW c)\<rparr> else low);
            low = (if \<not> cutA then low\<lparr>scA := min (scA low) (scA c)\<rparr> else low)
        in \<lparr>tcLow = low, tcPrev = c, tcCutW = cutW, tcCutA = cutA,
            tcOther = (tcOther acc \<or> scA c > 0 \<and> scN c \<noteq> scN latest)\<rparr>)"

definition toCome :: "time \<Rightarrow> time \<Rightarrow> sentCommand \<Rightarrow> commandLog \<Rightarrow> real \<times> real" where
  "toCome start t before l =
     (let latest = (if l = [] then before else last l);
          settled = foldl (\<lambda>acc c. if \<not> scAt c > start then c else acc) before l;
          acc = foldl (toComeStep start t latest)
                  \<lparr>tcLow = settled, tcPrev = settled, tcCutW = False, tcCutA = False,
                   tcOther = (scA settled > 0 \<and> scN settled \<noteq> scN latest)\<rparr> l;
          low = (if tcOther acc then (tcLow acc)\<lparr>scA := 0\<rparr> else tcLow acc)
      in (scW latest - scW low, scA latest - scA low))"

definition readable :: "chargerOffers \<Rightarrow> bool" where
  "readable c = (list_all (\<lambda>p. scN p = scN (hd (coLog c))) (coLog c) \<and> coLog c \<noteq> [])"

definition offerRangeA :: "chargerOffers \<Rightarrow> time \<Rightarrow> real \<times> real" where
  "offerRangeA c t =
     (let start = t - coSettle c
      in foldl (\<lambda>(low, high) p.
             if scAt p > t then (low, high)
             else if \<not> scAt p > start then (scA p, scA p)
             else (min low (scA p), max high (scA p)))
           (scA (coFound c), scA (coFound c)) (coLog c))"

definition batterySettle :: "chargerOffers \<Rightarrow> duration" where
  "batterySettle c = (if coDeclared c then coSettle c else evSettle)"

definition evShownW :: "time \<Rightarrow> State \<Rightarrow> real" where
  "evShownW t s =
     foldl (\<lambda>w (_, c). if coLog c = [] then w
               else w + max 0 (scW (last (coLog c)) - fst (unshown t (batterySettle c) (coLog c))))
       0 (elOffers (evLimit s))"

definition evInMeterW :: "State \<Rightarrow> real" where
  "evInMeterW s = ManualEVChargingW s + evShownW (clock s) s"

text \<open>\<open>pendingLoad\<close>, the type and the method.\<close>

record pendingLoad =
  plW :: real
  plPhaseA :: "real list"

definition noPending :: pendingLoad where "noPending = \<lparr>plW = 0, plPhaseA = [0, 0, 0]\<rparr>"

definition pendingLoadAt :: "time \<Rightarrow> State \<Rightarrow> pendingLoad" where
  "pendingLoadAt t s =
     foldl (\<lambda>p (_, c). case unshown t (coSettle c) (coLog c) of (w, a) \<Rightarrow>
               \<lparr>plW = plW p + w, plPhaseA = map (\<lambda>x. x + a) (plPhaseA p)\<rparr>)
       noPending (elOffers (evLimit s))"

definition EVFusePhaseRoomA :: "State \<Rightarrow> real option" where
  "EVFusePhaseRoomA s =
     (if \<not> elSet (evLimit s) \<or> \<not> elPhaseRoomKnown (evLimit s) then None
      else Some (elPhaseRoomA (evLimit s) - hiA (plPhaseA (pendingLoadAt (elReadingAt (evLimit s)) s))))"

definition withBatteryOrders :: "pendingLoad \<Rightarrow> real \<Rightarrow> State \<Rightarrow> pendingLoad" where
  "withBatteryOrders p w s =
     \<lparr>plW = plW p + w,
      plPhaseA = (if SiteFuseVoltage s > 0 \<and> SiteFusePhases s > 0
                  then map (\<lambda>x. x + w / (SiteFuseVoltage s * real_of_int (SiteFusePhases s))) (plPhaseA p)
                  else plPhaseA p)\<rparr>"

definition pendingBatteryCommandsW :: "time \<Rightarrow> State \<Rightarrow> real" where
  "pendingBatteryCommandsW now s =
     foldl (\<lambda>pending (_, l). case logSpan now l of None \<Rightarrow> pending
               | Some (low, _, latest) \<Rightarrow> pending + max 0 (latest - low)) 0 (batteryCommands s)"

definition batteryOrderMoves :: "State \<Rightarrow> bool" where
  "batteryOrderMoves s =
     list_ex (\<lambda>(_, l). case logSpan (clock s) l of None \<Rightarrow> False
         | Some (low, high, _) \<Rightarrow> high - low \<ge> evMoveA * SiteFuseVoltage s * real_of_int (SiteFusePhases s))
       (batteryCommands s)"

section \<open>What the meter shows of a charger\<close>

text \<open>\<open>chargerMoveA\<close> returns the move of all phases alike, or the move of one phase alone and its
  number from 1. The caller passes two or three phases.\<close>

definition chargerMoveA :: "real list \<Rightarrow> real list \<Rightarrow> real \<times> real \<times> int" where
  "chargerMoveA prev now =
     (let ds = map2 (\<lambda>a b. a - b) now prev;
          big = filter (\<lambda>i. \<bar>ds ! i\<bar> \<ge> 2 * evMoveA) [0..<length ds];
          held = length (filter (\<lambda>d. \<bar>d\<bar> < evMoveA) ds);
          mean = sum_list ds / real (length ds)
      in if hiA ds - loA ds \<le> 2 * evMoveA
            \<and> (loA ds > 0 \<and> mean \<ge> evMoveA \<or> hiA ds < 0 \<and> mean \<le> - evMoveA)
         then (mean, 0, 0)
         else if length big = 1 \<and> held + 1 = length ds
         then (0, ds ! hd big, int (hd big) + 1)
         else (0, 0, 0))"

definition riseAheadA :: "State \<Rightarrow> chargerOffers \<Rightarrow> real list" where
  "riseAheadA s c =
     (let lim = evLimit s; n = min (SiteFusePhases s) 3
      in if \<not> coRiseSet c \<or> \<not> elPhasesSeen lim \<or> n < 2 \<or> coLog c = [] then [0, 0, 0]
         else
           let latest = last (coLog c);
               rises = map2 (\<lambda>a b. a - b) (take (nat n) (elPhasesA lim)) (coRiseBaseA c);
               own = coCarPhase c > 0 \<and> coCarPhase c \<le> n;
               riseA = (if own then rises ! nat (coCarPhase c - 1)
                        else if coCarPhases c \<noteq> 3 \<or> scN latest = 1 then hiA rises else loA rises);
               (low, high) = offerRangeA c (elReadingAt lim);
               toComeA = max 0 (scA latest - min high (max low (coRiseFromA c + riseA)))
           in map (\<lambda>i. if (if own then int i = coCarPhase c - 1 else int i < n) then toComeA else 0) [0, 1, 2])"

text \<open>The current of one phase moves toward the latest offer, never past it.\<close>

definition moveShown :: "real \<Rightarrow> real \<Rightarrow> real \<Rightarrow> real" where
  "moveShown latestA m x =
     (if m < 0 \<and> x > latestA then max latestA (x + m)
      else if m > 0 \<and> x < latestA then min latestA (x + m)
      else x)"

definition moveOffer :: "bool \<Rightarrow> real \<Rightarrow> real \<Rightarrow> int \<Rightarrow> chargerOffers \<Rightarrow> chargerOffers" where
  "moveOffer read alikeA oneA phase c =
     (if read \<and> readable c then
        c\<lparr>coShownA := map (moveShown (scA (last (coLog c)))
            (if coCarPhase c > 0 \<or> scN (hd (coLog c)) = 1
             then min 0 alikeA + (if coCarPhase c = phase then oneA else 0) else alikeA)) (coShownA c)\<rparr>
      else c\<lparr>coUnsure := True\<rparr>)"

definition seeOffer :: "bool \<Rightarrow> real \<Rightarrow> real \<Rightarrow> int \<Rightarrow> State \<Rightarrow> chargerOffers \<Rightarrow> chargerOffers" where
  "seeOffer read alikeA oneA phase s c =
     (let c = moveOffer read alikeA oneA phase c;
          (low, high) = offerRangeA c (elReadingAt (evLimit s));
          c = c\<lparr>coShownA := map (\<lambda>x. min high (max low x)) (coShownA c), coUnsure := coUnsure c \<and> low < high\<rparr>
      in if low \<ge> high \<or> riseAheadA s c = [0, 0, 0] then c\<lparr>coRiseSet := False\<rparr> else c)"

definition seeOffers :: "DerReading \<Rightarrow> f64 \<Rightarrow> State \<Rightarrow> State" where
  "seeOffers meter gridW s =
     (let lim = evLimit s;
          (amps, _, valid) = phaseCurrentsA meter s gridW;
          now = pad3 amps; prev = elPhasesA lim;
          read = (valid \<and> elPhasesSeen lim \<and> length (elOffers lim) = 1 \<and> length amps \<ge> 2 \<and> \<not> batteryOrderMoves s);
          (alikeA, oneA, phase) = (if read then chargerMoveA (take (length amps) prev) (take (length amps) now)
                                   else (0, 0, 0));
          s = s\<lparr>evLimit := lim\<lparr>elPhasesA := now, elPhasesSeen := valid\<rparr>\<rparr>
      in s\<lparr>evLimit := (evLimit s)\<lparr>elOffers := map (\<lambda>(k, c). (k, seeOffer read alikeA oneA phase s c)) (elOffers lim)\<rparr>\<rparr>)"

section \<open>Orders a cut counts\<close>

record unshownResult =
  urRise :: pendingLoad
  urCover :: pendingLoad
  urAheadA :: "real list"
  urLatestW :: real

definition unshownOffer :: "time \<Rightarrow> bool \<Rightarrow> State \<Rightarrow> unshownResult \<Rightarrow> chargerOffers \<Rightarrow> unshownResult" where
  "unshownOffer t perPhase s acc c =
     (let lim = evLimit s;
          (w, a) = toCome (t - coSettle c) t (coFound c) (coLog c);
          coverFor = (if \<not> perPhase \<or> \<not> isZero (elFuseCutAt lim) \<and> tsub t (elFuseCutAt lim) > coSettle c
                      then evSettle else coSettle c);
          start = (if elFuseOverAt lim > t - coverFor then elFuseOverAt lim else t - coverFor);
          (runW, runA) = toCome start t (coFound c) (coLog c);
          latest = (if coLog c = [] then noCommand else last (coLog c));
          coverA = (if scN latest = 1 \<and> length (elOffers lim) > 1 then 0 else max 0 (min (- a) (- runA)));
          riseA = max 0 a;
          shown = (perPhase \<and> elPhasesSeen lim \<and> length (elOffers lim) = 1 \<and> SiteFusePhases s \<ge> 2
                   \<and> readable c \<and> \<not> coUnsure c);
          ahead = (if shown then riseAheadA s c else [0, 0, 0]);
          (low, high) = offerRangeA c t;
          seen = (\<lambda>i. shown \<and> int i < min (SiteFusePhases s) 3);
          coverOf = (\<lambda>i. if seen i
                         then min coverA (max 0 (- (scA latest - min high (max low (coShownA c ! i)))))
                         else coverA);
          riseOf = (\<lambda>i. if seen i then max riseA (ahead ! i) else riseA)
      in \<lparr>urRise = \<lparr>plW = plW (urRise acc) + max 0 w,
                     plPhaseA = map (\<lambda>i. plPhaseA (urRise acc) ! i + riseOf i) [0, 1, 2]\<rparr>,
          urCover = \<lparr>plW = plW (urCover acc) + max 0 (min (- w) (- runW)),
                      plPhaseA = map (\<lambda>i. plPhaseA (urCover acc) ! i + coverOf i) [0, 1, 2]\<rparr>,
          urAheadA = map (\<lambda>i. urAheadA acc ! i + ahead ! i) [0, 1, 2],
          urLatestW = urLatestW acc + scW latest\<rparr>)"

definition unshownOrders :: "time \<Rightarrow> bool \<Rightarrow> State \<Rightarrow> unshownResult" where
  "unshownOrders t perPhase s =
     foldl (\<lambda>acc (_, c). unshownOffer t perPhase s acc c)
       \<lparr>urRise = noPending, urCover = noPending, urAheadA = [0, 0, 0], urLatestW = 0\<rparr>
       (elOffers (evLimit s))"

section \<open>A car found after a restart\<close>

definition qualifiedFuseObservation :: "DerReading option \<Rightarrow> time \<Rightarrow> ControlObservation option" where
  "qualifiedFuseObservation r now =
     (case r of None \<Rightarrow> None
      | Some r \<Rightarrow>
          if \<not> finiteFuseValue (RawW r) \<or> UpdatedAt r > now
             \<or> tsub now (UpdatedAt r) > ControlPowerMaxAge (Data r) then None
          else case ControlPowerObservation (RawW r) (Data r) (UpdatedAt r) of (p, ok) \<Rightarrow>
            if ok \<and> \<not> Seen p > now \<and> tsub now (Seen p) \<le> ControlWindowDuration then Some p else None)"

definition readEVDraw :: "Store \<Rightarrow> string \<Rightarrow> time \<Rightarrow> evDraw option" where
  "readEVDraw store driver t =
     (case OnlineLowerW driver DerEV store of (lowerW, isLive) \<Rightarrow>
        if \<not> isLive then None
        else case (Get driver DerEV store, qualifiedFuseObservation (Get driver DerEV store) t) of
               (Some r, Some p) \<Rightarrow>
                 let w = f64_min (oPowerW p) lowerW
                 in if finiteFuseValue w
                    then Some \<lparr>drAt = oAt p, drGot = UpdatedAt r, drSeen = UpdatedAt r,
                               drConfirmed = (\<not> isZero (oConfirmedAt p)), drW = fval w\<rparr>
                    else None
             | _ \<Rightarrow> None)"

definition mergeDraw :: "evDraw \<Rightarrow> evDraw \<Rightarrow> evDraw" where
  "mergeDraw d e =
     (let e = e\<lparr>drW := min (drW e) (drW d)\<rparr>;
          e = (if drGot d < drGot e then e\<lparr>drGot := drGot d\<rparr> else e)
      in if drConfirmed d \<and> drSeen d > drSeen e then e\<lparr>drSeen := drSeen d, drConfirmed := True\<rparr> else e)"

definition arrivedBy :: "chargerOffers \<Rightarrow> evDraw \<Rightarrow> time \<Rightarrow> bool" where
  "arrivedBy c d edge = (\<not> isZero (coWatchFrom c) \<and> drGot d > coWatchFrom c \<and> \<not> drGot d > edge)"

definition foundOpen :: "chargerOffers \<Rightarrow> time \<Rightarrow> bool" where
  "foundOpen c t = (\<not> isZero (scAt (coFound c)) \<and> tsub t (scAt (coFound c)) < coSettle c)"

definition noteDraw :: "Store \<Rightarrow> time \<Rightarrow> chargerOffers \<Rightarrow> chargerOffers" where
  "noteDraw store t c =
     (if \<not> foundOpen c t \<or> coDriver c = [] then c\<lparr>coDraws := [], coWatchFrom := zeroTime\<rparr>
      else case readEVDraw store (coDriver c) t of
             None \<Rightarrow> c
           | Some d \<Rightarrow>
               let c = (if isZero (coWatchFrom c) then c\<lparr>coWatchFrom := drGot d\<rparr> else c)
               in if coDraws c \<noteq> [] \<and> \<not> drAt d > drAt (last (coDraws c)) then
                    (if drAt d = drAt (last (coDraws c))
                     then c\<lparr>coDraws := butlast (coDraws c) @ [mergeDraw d (last (coDraws c))]\<rparr> else c)
                  else c\<lparr>coDraws := filter (\<lambda>e. \<not> tsub t (drSeen e) > ControlWindowDuration) (coDraws c) @ [d]\<rparr>)"

definition siteConsumptionW :: "Store \<Rightarrow> f64 \<Rightarrow> f64" where
  "siteConsumptionW store gridW = gridW - SumOnlineHigherW [DerBattery, DerPV, DerV2X] store"

text \<open>What one charger adds; 0 where the loop continues.\<close>

definition foundDrawOf :: "Store \<Rightarrow> time \<Rightarrow> time \<Rightarrow> time \<Rightarrow> State \<Rightarrow> chargerOffers \<Rightarrow> real" where
  "foundDrawOf store edge start t s c =
     (if coLog c = [] \<or> \<not> foundOpen c t \<or> coDriver c = [] \<or> \<not> coMaxW c > Fin 0 \<or> \<not> finiteFuseValue (coMaxW c)
      then 0
      else case readEVDraw store (coDriver c) t of
             None \<Rightarrow> 0
           | Some d0 \<Rightarrow>
               let now = foldl (\<lambda>now d. if drAt d = drAt now then mergeDraw now d else now) d0 (coDraws c)
               in if drSeen now < start then 0
                  else
                    let recent = filter (\<lambda>d. \<not> drSeen d < start) (coDraws c);
                        drawW = foldl (\<lambda>w d. min w (drW d)) (drW now) recent;
                        before = (arrivedBy c now edge \<or> list_ex (\<lambda>d. arrivedBy c d edge) recent)
                    in if \<not> before then 0
                       else
                         let uns = fst (unshown t (batterySettle c) (coLog c));
                             latest = scW (last (coLog c));
                             capW = max (fval (coMaxW c)) (siteFuseMaxW s);
                             inLatestW = min latest (drawW - max 0 (capW - latest))
                         in max 0 (inLatestW - max 0 (latest - uns)))"

definition evFoundDrawW :: "Store \<Rightarrow> f64 \<Rightarrow> time \<Rightarrow> time \<Rightarrow> real \<Rightarrow> State \<Rightarrow> real" where
  "evFoundDrawW store gridW meterAt t shownW s =
     (let consumptionW = siteConsumptionW store gridW
      in if \<not> finiteFuseValue consumptionW then 0
         else
           let skew = (if ControlIntervalS s * second \<le> 0 then 2 * second else ControlIntervalS s * second);
               edge = meterAt - evMeterDelay;
               w = foldl (\<lambda>w (_, c). w + foundDrawOf store edge (edge - skew) t s c) 0 (elOffers (evLimit s))
           in max 0 (min w (fval consumptionW - shownW)))"

section \<open>Recording offers\<close>

record lpState =
  lpID :: string
  lpDriverName :: string
  lpPluggedIn :: bool
  lpCurrentPowerW :: real
  lpVehicleSoC :: real
  lpVehicleChargeLimit :: real
  lpCommandedKnown :: bool
  lpCommandedW :: f64
  lpCommandedPhases :: int
  lpCarPhases :: int
  lpCarPhase :: int
  lpMinChargeW :: real
  lpMaxChargeW :: f64
  lpSurplusOnly :: bool
  lpManualActive :: bool

definition offerPhaseA :: "real \<Rightarrow> int \<Rightarrow> State \<Rightarrow> real \<times> int" where
  "offerPhaseA w phases s =
     (let n = (if phases = 3 \<and> SiteFusePhases s > 1 then SiteFusePhases s else 1)
      in if SiteFuseVoltage s \<le> 0 then (0, n) else (w / (SiteFuseVoltage s * real_of_int n), n))"

definition recordOffer :: "Store \<Rightarrow> time \<Rightarrow> State \<Rightarrow> lpState \<Rightarrow> chargerOffers" where
  "recordOffer store readAt s point =
     (let lim = evLimit s; now = clock s;
          c = mgetD noOffers (elOffers lim) (lpID point);
          c = c\<lparr>coSettle := evUnknownSettle, coDeclared := False, coCarPhases := lpCarPhases point,
                coCarPhase := lpCarPhase point, coDriver := lpDriverName point, coMaxW := lpMaxChargeW point\<rparr>;
          declared = (case Get (lpDriverName point) DerEV store of None \<Rightarrow> 0 | Some r \<Rightarrow> DeclaredPowerMaxAge (Data r));
          c = (if declared > 0 then c\<lparr>coSettle := max evSettle declared, coDeclared := True\<rparr> else c);
          w = max 0 (fval (lpCommandedW point));
          (a, n) = offerPhaseA w (lpCommandedPhases point) s;
          o1 = \<lparr>scAt = now, scW = w, scA = a, scN = n\<rparr>;
          c = (if coLog c = [] \<or> scW (last (coLog c)) \<noteq> w \<or> scA (last (coLog c)) \<noteq> a \<or> scN (last (coLog c)) \<noteq> n
               then
                 let high = snd (offerRangeA c now);
                     c = (if coLog c = [] \<and> \<not> elSet lim then c\<lparr>coFound := o1, coShownA := [a, a, a]\<rparr>
                          else if a > high \<and> \<not> coRiseSet c \<and> elPhasesSeen lim
                          then c\<lparr>coRiseBaseA := elPhasesA lim, coRiseFromA := high, coRiseSet := True\<rparr>
                          else c)
                 in c\<lparr>coLog := keep o1 (readAt - coSettle c) (coLog c)\<rparr>
               else c)
      in noteDraw store now c)"

definition recordEVOffers :: "Store \<Rightarrow> lpState list \<Rightarrow> State \<Rightarrow> State" where
  "recordEVOffers store points s =
     (let readAt = (if \<not> isZero (elReadingAt (evLimit s)) \<and> elReadingAt (evLimit s) < clock s
                    then elReadingAt (evLimit s) else clock s)
      in s\<lparr>evLimit := (evLimit s)\<lparr>elOffers := foldl (\<lambda>m point.
             if \<not> lpPluggedIn point \<or> \<not> lpCommandedKnown point \<or> \<not> finiteFuseValue (lpCommandedW point) then m
             else mset_at (lpID point) (recordOffer store readAt s point) m) [] points\<rparr>\<rparr>)"

text \<open>\<open>loadpoint.CommandedEVPowerByDriver\<close> and \<open>loadpoint.CommandedEVPowerW\<close>.\<close>

definition CommandedEVPowerByDriver :: "lpState list \<Rightarrow> (string, real) gomap" where
  "CommandedEVPowerByDriver states =
     foldl (\<lambda>m st. if \<not> lpPluggedIn st \<or> \<not> lpCommandedKnown st \<or> \<not> isFinite (lpCommandedW st) then m
                   else case mget m (lpDriverName st) of
                          None \<Rightarrow> mset_at (lpDriverName st) (fval (lpCommandedW st)) m
                        | Some w \<Rightarrow> if fval (lpCommandedW st) > w
                                    then mset_at (lpDriverName st) (fval (lpCommandedW st)) m else m) [] states"

definition CommandedEVPowerW :: "lpState list \<Rightarrow> real" where
  "CommandedEVPowerW states = sum_list (map (\<lambda>(_, w). max 0 w) (CommandedEVPowerByDriver states))"

definition SetEVCommanded :: "lpState list \<Rightarrow> State \<Rightarrow> State" where
  "SetEVCommanded points s =
     s\<lparr>EVCommandedW := Fin (CommandedEVPowerW points), evCommanded := CommandedEVPowerByDriver points\<rparr>"

section \<open>Battery relief the car must not build on\<close>

definition evFuseReliefW :: "Store \<Rightarrow> State \<Rightarrow> real" where
  "evFuseReliefW store s =
     foldl (\<lambda>w (d, relief). case OnlineRawW d DerBattery store of (raw, _, ok) \<Rightarrow>
               w + (if ok then min relief (max 0 (- fval raw)) else relief)) 0 (batteryFuseRelief s)"

definition reliefOffline :: "State \<Rightarrow> string \<Rightarrow> time" where
  "reliefOffline s d = (case mget (batteriesOfflineSince s) d of None \<Rightarrow> clock s | Some t \<Rightarrow> t)"

definition expireOfflineFuseRelief :: "string list \<Rightarrow> State \<Rightarrow> State" where
  "expireOfflineFuseRelief onlineDrivers s =
     (let kept = filter (\<lambda>(d, _). d \<in> set onlineDrivers \<or> tsub (clock s) (reliefOffline s d) < evSettle)
                   (batteryFuseRelief s)
      in s\<lparr>batteryFuseRelief := kept,
           batteriesOfflineSince :=
             map (\<lambda>(d, _). (d, reliefOffline s d)) (filter (\<lambda>(d, _). d \<notin> set onlineDrivers) kept)\<rparr>)"

definition worstPhaseA :: "DerReading \<Rightarrow> State \<Rightarrow> f64 \<Rightarrow> real \<times> bool \<times> bool" where
  "worstPhaseA meter s totalW =
     (case phaseCurrentsA meter s totalW of (amps, present, valid) \<Rightarrow> (foldl max 0 amps, present, valid))"

section \<open>Lemmas\<close>

text \<open>The offers a reading taken at an instant may show: the one in force when the settle window
  opened, and each one sent since.\<close>

definition settledOffer :: "time \<Rightarrow> commandLog \<Rightarrow> sentCommand" where
  "settledOffer start l =
     (let cs = filter (\<lambda>c. scAt c \<le> start) l in if cs = [] then noCommand else last cs)"

definition mayShow :: "time \<Rightarrow> duration \<Rightarrow> commandLog \<Rightarrow> sentCommand list" where
  "mayShow t settle l =
     settledOffer (t - settle) l # filter (\<lambda>c. t - settle < scAt c \<and> scAt c \<le> t) l"

abbreviation unshownFold :: "time \<Rightarrow> time \<Rightarrow> commandLog \<Rightarrow> unshownAcc" where
  "unshownFold start t \<equiv> foldl (unshownStep start t) \<lparr>uSettled = (0, 0), uLow = None, uHigh = None\<rparr>"

lemma unshown_settled:
  "uSettled (unshownFold start t l) = (scW (settledOffer start l), scA (settledOffer start l))"
proof (induction l rule: rev_induct)
  case (snoc c l)
  then show ?case by (simp add: unshownStep_def settledOffer_def Let_def not_less)
qed (simp add: settledOffer_def noCommand_def)

lemma unshown_high:
  "uHigh (unshownFold start t l)
   = (let cs = filter (\<lambda>c. scAt c > start) l in if cs = [] then None else Some (scW (last cs), scA (last cs)))"
proof (induction l rule: rev_induct)
  case (snoc c l)
  have "max (if x < y then x else y) x = x" for x y :: real by simp
  with snoc show ?case by (simp add: unshownStep_def Let_def split: option.split)
qed simp

text \<open>The lowest offer sent inside the window, watts and amperes each on their own.\<close>

definition lowest_in :: "time \<Rightarrow> time \<Rightarrow> commandLog \<Rightarrow> (real \<times> real) option \<Rightarrow> bool" where
  "lowest_in start t l v = (let cs = filter (\<lambda>c. start < scAt c \<and> scAt c \<le> t) l in case v of
      None \<Rightarrow> cs = []
    | Some (w, a) \<Rightarrow> cs \<noteq> [] \<and> (\<forall>c \<in> set cs. w \<le> scW c \<and> a \<le> scA c)
        \<and> (\<exists>c \<in> set cs. w = scW c) \<and> (\<exists>c \<in> set cs. a = scA c))"

lemma lowest_in_snoc:
  assumes "lowest_in start t l v" "start < scAt c" "scAt c \<le> t"
  shows "lowest_in start t (l @ [c]) (Some (case v of None \<Rightarrow> (scW c, scA c)
           | Some (w, a) \<Rightarrow> (min w (scW c), min a (scA c))))"
proof (cases v)
  case (Some p)
  obtain w a where p: "p = (w, a)" by force
  have "w = scW c \<or> w \<noteq> scW c" by blast
  then show ?thesis using assms unfolding Some p lowest_in_def Let_def
    by (auto simp: min_def)
qed (use assms in \<open>auto simp: lowest_in_def Let_def\<close>)

lemma unshown_low: "lowest_in start t l (uLow (unshownFold start t l))"
proof (induction l rule: rev_induct)
  case Nil
  show ?case by (simp add: lowest_in_def)
next
  case (snoc c l)
  show ?case
  proof (cases "start < scAt c \<and> scAt c \<le> t")
    case True
    then show ?thesis using lowest_in_snoc [OF snoc] by (simp add: unshownStep_def Let_def not_less)
  next
    case False
    then have "uLow (unshownFold start t (l @ [c])) = uLow (unshownFold start t l)"
      by (auto simp: unshownStep_def Let_def)
    moreover have "lowest_in start t (l @ [c]) v = lowest_in start t l v" for v
      using False by (auto simp: lowest_in_def)
    ultimately show ?thesis using snoc by simp
  qed
qed

lemma log_sorted_last: "log_sorted l \<Longrightarrow> c \<in> set l \<Longrightarrow> scAt c \<le> scAt (last l)"
  by (cases l rule: rev_cases) (auto simp: log_sorted_def sorted_append)

lemma settled_is_last:
  "l \<noteq> [] \<Longrightarrow> filter (\<lambda>c. scAt c > start) l = [] \<Longrightarrow> settledOffer start l = last l"
  by (simp add: settledOffer_def Let_def filter_empty_conv not_less)

lemma unsettled_is_last:
  assumes "log_sorted l" "filter (\<lambda>c. scAt c > start) l \<noteq> []"
  shows "last (filter (\<lambda>c. scAt c > start) l) = last l"
proof -
  obtain c where "c \<in> set l" "scAt c > start" using assms(2) by (auto simp: filter_empty_conv)
  then have "l \<noteq> []" "scAt (last l) > start" using log_sorted_last [OF assms(1)] by fastforce+
  then show ?thesis by (cases l rule: rev_cases) simp_all
qed

lemma unshown_cases:
  assumes "log_sorted l" "l \<noteq> []"
  obtains "mayShow t settle l = [last l]" "unshown t settle l = (0, 0)" "0 \<le> settle"
  | lw la where "unshown t settle l = (max 0 (scW (last l) - lw), max 0 (scA (last l) - la))"
      "\<forall>c \<in> set (mayShow t settle l). lw \<le> scW c \<and> la \<le> scA c"
      "lw \<in> scW ` set (mayShow t settle l)" "la \<in> scA ` set (mayShow t settle l)"
  | "settle < 0"
proof (cases "filter (\<lambda>c. scAt c > t - settle) l = []")
  case True
  then have "filter (\<lambda>c. t - settle < scAt c \<and> scAt c \<le> t) l = []" by (auto simp: filter_empty_conv)
  then have "mayShow t settle l = [last l]" "unshown t settle l = (0, 0)"
    using settled_is_last [OF assms(2) True] True
    by (simp_all add: mayShow_def unshown_def unshown_high Let_def case_prod_beta)
  then show thesis using that by force
next
  case False
  let ?start = "t - settle" and ?s = "settledOffer (t - settle) l"
  let ?w = "filter (\<lambda>c. ?start < scAt c \<and> scAt c \<le> t) l"
  have h: "uHigh (unshownFold ?start t l) = Some (scW (last l), scA (last l))"
    using False unsettled_is_last [OF assms(1) False] by (simp add: unshown_high Let_def)
  have low: "lowest_in ?start t l (uLow (unshownFold ?start t l))" by (rule unshown_low)
  show thesis
  proof (cases "uLow (unshownFold ?start t l)")
    case None
    then have "?w = []" using low by (simp add: lowest_in_def)
    then show thesis
      using that(2) [of "scW ?s" "scA ?s"] h None
      by (simp add: mayShow_def unshown_def unshown_settled Let_def)
  next
    case (Some p)
    obtain lw la where p: "p = (lw, la)" by force
    have l: "\<forall>c \<in> set ?w. lw \<le> scW c \<and> la \<le> scA c" "\<exists>c \<in> set ?w. lw = scW c" "\<exists>c \<in> set ?w. la = scA c"
      using low by (simp_all add: lowest_in_def Some p Let_def)
    have "unshown t settle l = (max 0 (scW (last l) - min lw (scW ?s)), max 0 (scA (last l) - min la (scA ?s)))"
      using h Some p by (simp add: unshown_def unshown_settled Let_def)
    moreover have "min lw (scW ?s) \<in> scW ` set (mayShow t settle l)" "min la (scA ?s) \<in> scA ` set (mayShow t settle l)"
      using l(2,3) by (auto simp: mayShow_def min_def)
    ultimately show thesis
      using that(2) l(1) by (fastforce simp: mayShow_def)
  qed
qed

lemma expire_step:
  assumes "gomap_ok (batteryFuseRelief s)"
  shows "mget (batteryFuseRelief (expireOfflineFuseRelief on s)) d
      = (if d \<in> set on \<or> tsub (clock s) (reliefOffline s d) < evSettle then mget (batteryFuseRelief s) d else None)"
    "gomap_ok (batteryFuseRelief (expireOfflineFuseRelief on s))"
    "mget (batteriesOfflineSince (expireOfflineFuseRelief on s)) d
      = (if d \<notin> set on \<and> mget (batteryFuseRelief (expireOfflineFuseRelief on s)) d \<noteq> None
         then Some (reliefOffline s d) else None)"
proof -
  have f: "mget (filter (\<lambda>(d, _). P d) m) d = (if P d then mget m d else None)"
    for P and m :: "(string, real) gomap"
    by (induction m) auto
  show "mget (batteryFuseRelief (expireOfflineFuseRelief on s)) d
      = (if d \<in> set on \<or> tsub (clock s) (reliefOffline s d) < evSettle then mget (batteryFuseRelief s) d else None)"
    by (simp add: expireOfflineFuseRelief_def Let_def f)
  show "gomap_ok (batteryFuseRelief (expireOfflineFuseRelief on s))"
    using assms by (simp add: expireOfflineFuseRelief_def Let_def)
  have g: "mget (map (\<lambda>(d, _). (d, h d)) m) d = (if mget m d = None then None else Some (h d))"
    for h and m :: "(string, real) gomap"
    by (induction m) auto
  show "mget (batteriesOfflineSince (expireOfflineFuseRelief on s)) d
      = (if d \<notin> set on \<and> mget (batteryFuseRelief (expireOfflineFuseRelief on s)) d \<noteq> None
         then Some (reliefOffline s d) else None)"
    by (simp add: expireOfflineFuseRelief_def Let_def g f del: filter_filter)
qed

text \<open>One dispatch tick of the relief clock: the time and the batteries online then.\<close>

definition reliefTick :: "State \<Rightarrow> time \<times> string list \<Rightarrow> State" where
  "reliefTick s p = expireOfflineFuseRelief (snd p) (s\<lparr>clock := fst p\<rparr>)"

lemma reliefOffline_upd [simp]:
  "reliefOffline (s\<lparr>clock := t\<rparr>) d = (case mget (batteriesOfflineSince s) d of None \<Rightarrow> t | Some u \<Rightarrow> u)"
  by (simp add: reliefOffline_def split: option.split)

lemma settled_diff: "tsub now t < evSettle \<longleftrightarrow> now - t < evSettle"
  by (rule tsub_lt_iff) (simp_all add: evSettle_def time_simps maxDuration_def minDuration_def)

lemma expired_stays: "gomap_ok (batteryFuseRelief s) \<Longrightarrow> mget (batteryFuseRelief s) d = None \<Longrightarrow>
    mget (batteryFuseRelief (foldl reliefTick s ps)) d = None"
proof (induction ps arbitrary: s)
  case (Cons p ps)
  then show ?case using expire_step [of "s\<lparr>clock := fst p\<rparr>" "snd p"] by (simp add: reliefTick_def)
qed simp

lemma offline_run:
  assumes "gomap_ok (batteryFuseRelief s)" "mget (batteryFuseRelief s) d = Some w"
    "mget (batteriesOfflineSince s) d = Some t0" "\<forall>(t, on) \<in> set ps. d \<notin> set on"
    "sorted (map fst ps)" "ps \<noteq> []"
  shows "mget (batteryFuseRelief (foldl reliefTick s ps)) d = (if fst (last ps) - t0 < evSettle then Some w else None)"
  using assms
proof (induction ps arbitrary: s)
  case (Cons p ps)
  let ?s = "reliefTick s p"
  have st: "mget (batteryFuseRelief ?s) d = (if fst p - t0 < evSettle then Some w else None)"
    "gomap_ok (batteryFuseRelief ?s)"
    "mget (batteriesOfflineSince ?s) d = (if fst p - t0 < evSettle then Some t0 else None)"
    using Cons.prems expire_step [of "s\<lparr>clock := fst p\<rparr>" "snd p"]
    by (auto simp: reliefTick_def case_prod_beta settled_diff)
  show ?case
  proof (cases "ps = []")
    case True
    then show ?thesis using st by simp
  next
    case False
    have le: "fst p \<le> fst (last ps)" using Cons.prems(5) False by simp
    show ?thesis
    proof (cases "fst p - t0 < evSettle")
      case True
      then show ?thesis using Cons.IH [of ?s] Cons.prems st False by simp
    next
      case late: False
      then have "mget (batteryFuseRelief (foldl reliefTick ?s ps)) d = None"
        using st by (intro expired_stays) simp_all
      then show ?thesis using late le False by simp
    qed
  qed
qed simp

lemma offerRangeA_ordered: "fst (offerRangeA c t) \<le> snd (offerRangeA c t)"
proof -
  have *: "fst (foldl (\<lambda>(low, high) p.
         if scAt p > t then (low, high)
         else if \<not> scAt p > t - coSettle c then (scA p, scA p)
         else (min low (scA p), max high (scA p))) (lo, hi) l) \<le> snd (foldl (\<lambda>(low, high) p.
         if scAt p > t then (low, high)
         else if \<not> scAt p > t - coSettle c then (scA p, scA p)
         else (min low (scA p), max high (scA p))) (lo, hi) l)" if "lo \<le> hi" for lo hi l
    using that by (induction l arbitrary: lo hi) (simp_all add: min_def max_def)
  show ?thesis unfolding offerRangeA_def Let_def by (rule *) simp
qed

lemma offerRangeA_cong:
  "coLog c = coLog d \<Longrightarrow> coSettle c = coSettle d \<Longrightarrow> coFound c = coFound d \<Longrightarrow> offerRangeA c t = offerRangeA d t"
  by (simp add: offerRangeA_def)

lemma moveOffer_frame [simp]:
  "coLog (moveOffer read x y ph c) = coLog c" "coSettle (moveOffer read x y ph c) = coSettle c"
  "coFound (moveOffer read x y ph c) = coFound c"
  by (simp_all add: moveOffer_def)

lemma seeOffer_frame:
  "coLog (seeOffer read x y ph s c) = coLog c" "coSettle (seeOffer read x y ph s c) = coSettle c"
  "coFound (seeOffer read x y ph s c) = coFound c"
  by (simp_all add: seeOffer_def Let_def case_prod_beta)

lemma seeOffer_shown:
  "coShownA (seeOffer read x y ph s c) = map (\<lambda>v. min (snd (offerRangeA c (elReadingAt (evLimit s))))
     (max (fst (offerRangeA c (elReadingAt (evLimit s)))) v)) (coShownA (moveOffer read x y ph c))"
  using offerRangeA_cong [of "moveOffer read x y ph c" c]
  by (simp add: seeOffer_def Let_def case_prod_beta)

lemma seeOffers_form:
  "\<exists>read alikeA oneA phase s1. seeOffers meter gridW s = s1\<lparr>evLimit := (evLimit s1)\<lparr>elOffers :=
        map (\<lambda>(k, c). (k, seeOffer read alikeA oneA phase s1 c)) (elOffers (evLimit s))\<rparr>\<rparr>
     \<and> elReadingAt (evLimit s1) = elReadingAt (evLimit s)"
  unfolding seeOffers_def Let_def case_prod_beta by (intro exI, rule conjI, rule refl, simp)

section \<open>Properties\<close>

text \<open>No charger is counted twice and no raise is forgotten: whichever of the offers a reading
  may show it really shows (the one in force when the settle window opened, or any sent since), that
  offer plus the unshown part covers the latest offer, in watts and in current per phase; the unshown
  part is exactly what the lowest of them leaves to the latest offer, and nothing once the latest
  offer has settled.\<close>

theorem unshown_covers_raise:
  assumes "log_sorted l" "l \<noteq> []" "0 \<le> settle" "unshown t settle l = (w, a)"
  shows "(\<forall>c \<in> set (mayShow t settle l). scW (last l) \<le> scW c + w \<and> scA (last l) \<le> scA c + a)
    \<and> 0 \<le> w \<and> 0 \<le> a
    \<and> (w = 0 \<or> scW (last l) - w \<in> scW ` set (mayShow t settle l))
    \<and> (a = 0 \<or> scA (last l) - a \<in> scA ` set (mayShow t settle l))
    \<and> (scAt (last l) \<le> t - settle \<longrightarrow> w = 0 \<and> a = 0)"
proof -
  have settled: "w = 0 \<and> a = 0" if "scAt (last l) \<le> t - settle"
  proof -
    have "filter (\<lambda>c. scAt c > t - settle) l = []"
      using that log_sorted_last [OF assms(1)] by (fastforce simp: filter_empty_conv)
    then show ?thesis using assms(4) by (simp add: unshown_def unshown_high Let_def case_prod_beta)
  qed
  show ?thesis
  proof (rule unshown_cases [OF assms(1,2), of t settle])
    assume "mayShow t settle l = [last l]" "unshown t settle l = (0, 0)"
    then show ?thesis using assms(4) by simp
  next
    fix lw la
    assume u: "unshown t settle l = (max 0 (scW (last l) - lw), max 0 (scA (last l) - la))"
      and l: "\<forall>c \<in> set (mayShow t settle l). lw \<le> scW c \<and> la \<le> scA c"
      "lw \<in> scW ` set (mayShow t settle l)" "la \<in> scA ` set (mayShow t settle l)"
    have w: "w = max 0 (scW (last l) - lw)" "a = max 0 (scA (last l) - la)" using u assms(4) by simp_all
    have "\<forall>c \<in> set (mayShow t settle l). scW (last l) \<le> scW c + w \<and> scA (last l) \<le> scA c + a"
      using l(1) unfolding w by fastforce
    moreover have "w = 0 \<or> scW (last l) - w = lw" "a = 0 \<or> scA (last l) - a = la" unfolding w by auto
    ultimately show ?thesis using l(2,3) settled w by auto
  next
    assume "settle < 0"
    with assms(3) show ?thesis by simp
  qed
qed

theorem unshown_covers_raise_witness:
  "fst (unshown (40 * second) (20 * second)
     [\<lparr>scAt = 0, scW = 4000, scA = 6, scN = 3\<rparr>, \<lparr>scAt = 30 * second, scW = 7000, scA = 10, scN = 3\<rparr>]) \<ge> 3000"
proof -
  let ?l = "[\<lparr>scAt = 0, scW = 4000, scA = 6, scN = 3\<rparr>, \<lparr>scAt = 30 * second, scW = 7000, scA = 10, scN = 3\<rparr>]"
  have "log_sorted ?l" "(0 :: duration) \<le> 20 * second" by (simp_all add: log_sorted_def time_simps)
  moreover have "\<lparr>scAt = 0, scW = 4000, scA = 6, scN = 3\<rparr> \<in> set (mayShow (40 * second) (20 * second) ?l)"
    by (simp add: mayShow_def settledOffer_def time_simps)
  ultimately show ?thesis
    using unshown_covers_raise [of ?l "20 * second" "40 * second", OF _ _ _ surjective_pairing] by fastforce
qed

text \<open>The car may build on a battery's fuse relief only while it can still stand: from the tick
  that first finds the battery offline, its recorded relief counts in full for less than the settle
  time of 20 s and is gone from then on, on every sequence of later dispatch ticks at which the
  battery stays offline.\<close>

theorem offline_relief_expires:
  assumes "gomap_ok (batteryFuseRelief s)" "mget (batteryFuseRelief s) d = Some w"
    "mget (batteriesOfflineSince s) d = None" "ps = (t0, on) # rest"
    "\<forall>(t, on) \<in> set ps. d \<notin> set on" "sorted (map fst ps)"
  shows "mget (batteryFuseRelief (foldl reliefTick s ps)) d
    = (if fst (last ps) - t0 < evSettle then Some w else None)"
proof -
  let ?s = "reliefTick s (t0, on)"
  have st: "gomap_ok (batteryFuseRelief ?s)" "mget (batteryFuseRelief ?s) d = Some w"
    "mget (batteriesOfflineSince ?s) d = Some t0"
    using assms expire_step [of "s\<lparr>clock := t0\<rparr>" on]
    by (auto simp: reliefTick_def settled_diff evSettle_def time_simps)
  show ?thesis
  proof (cases "rest = []")
    case True
    then show ?thesis using st by (simp add: assms(4) evSettle_def time_simps)
  next
    case False
    then show ?thesis using offline_run [OF st, of rest] assms(4-6) by auto
  qed
qed

theorem offline_relief_expires_witness:
  "mget (batteryFuseRelief (foldl reliefTick
     ((NewState 0 50 ''m'' (\<lambda>_. 0) 0)\<lparr>batteryFuseRelief := [(''b'', 900)]\<rparr>)
     [(0, []), (15 * second, []), (21 * second, [])])) ''b'' = None"
  using offline_relief_expires [of "(NewState 0 50 ''m'' (\<lambda>_. 0) 0)\<lparr>batteryFuseRelief := [(''b'', 900)]\<rparr>" "''b''" 900
      "[(0, []), (15 * second, []), (21 * second, [])]" 0 "[]" "[(15 * second, []), (21 * second, [])]"]
  by (simp add: NewState_def gomap_ok_def evSettle_def time_simps)

text \<open>Reading the meter never invents an offer: after a site reading, the current it is taken to
  show of a charger lies on every phase within the offers that reading may show, the offers
  themselves are unchanged, and no charger is added or lost.\<close>

theorem shown_current_within_offers:
  assumes "s' = seeOffers meter gridW s" "mget (elOffers (evLimit s')) k = Some c"
  shows "(\<forall>x \<in> set (coShownA c). fst (offerRangeA c (elReadingAt (evLimit s'))) \<le> x
            \<and> x \<le> snd (offerRangeA c (elReadingAt (evLimit s'))))
    \<and> map_option coLog (mget (elOffers (evLimit s)) k) = Some (coLog c)
    \<and> map fst (elOffers (evLimit s')) = map fst (elOffers (evLimit s))"
proof -
  obtain read alikeA oneA phase s1 where s1: "elReadingAt (evLimit s1) = elReadingAt (evLimit s)"
    and eq: "s' = s1\<lparr>evLimit := (evLimit s1)\<lparr>elOffers :=
        map (\<lambda>(k, c). (k, seeOffer read alikeA oneA phase s1 c)) (elOffers (evLimit s))\<rparr>\<rparr>"
    using seeOffers_form [of meter gridW s] assms(1) by blast
  obtain c0 where c0: "mget (elOffers (evLimit s)) k = Some c0" and c: "c = seeOffer read alikeA oneA phase s1 c0"
    using assms(2) unfolding eq by auto
  have log: "coLog c = coLog c0" "offerRangeA c t = offerRangeA c0 t" for t
    unfolding c by (simp only: seeOffer_frame) (rule offerRangeA_cong; simp only: seeOffer_frame)
  let ?lo = "fst (offerRangeA c0 (elReadingAt (evLimit s)))" and ?hi = "snd (offerRangeA c0 (elReadingAt (evLimit s)))"
  have "?lo \<le> ?hi" by (rule offerRangeA_ordered)
  then have "\<forall>x \<in> set (coShownA c). ?lo \<le> x \<and> x \<le> ?hi" unfolding c seeOffer_shown s1 by auto
  moreover have "elReadingAt (evLimit s') = elReadingAt (evLimit s)"
    "map fst (elOffers (evLimit s')) = map fst (elOffers (evLimit s))"
    unfolding eq by (simp_all add: s1 case_prod_beta comp_def)
  ultimately show ?thesis using c0 log by simp
qed

definition offerState :: State where
  "offerState = (NewState 0 50 ''m'' (\<lambda>_. 0) (100 * second))\<lparr>evLimit := noEVLimit\<lparr>elReadingAt := 100 * second,
     elOffers := [(''lp'', noOffers\<lparr>coLog := [\<lparr>scAt = 0, scW = 4140, scA = 6, scN = 3\<rparr>], coSettle := 20 * second,
       coShownA := [0, 9, 6]\<rparr>)]\<rparr>\<rparr>"

theorem shown_current_within_offers_witness:
  "\<exists>c. mget (elOffers (evLimit (seeOffers (storedReading ''m'' DerMeter (Fin 0) None Empty 0 (NewStore 0)) (Fin 0) offerState))) ''lp'' = Some c \<and> list_all (\<lambda>x. x = 6) (coShownA c)"
proof -
  let ?m = "storedReading ''m'' DerMeter (Fin 0) None Empty 0 (NewStore 0)"
  obtain read x y ph s1 where f: "seeOffers ?m (Fin 0) offerState = s1\<lparr>evLimit := (evLimit s1)\<lparr>elOffers :=
        map (\<lambda>(k, c). (k, seeOffer read x y ph s1 c)) (elOffers (evLimit offerState))\<rparr>\<rparr>"
    "elReadingAt (evLimit s1) = elReadingAt (evLimit offerState)"
    using seeOffers_form [of ?m "Fin 0" offerState] by blast
  let ?old = "noOffers\<lparr>coLog := [\<lparr>scAt = 0, scW = 4140, scA = 6, scN = 3\<rparr>], coSettle := 20 * second, coShownA := [0, 9, 6]\<rparr>"
  let ?c = "seeOffer read x y ph s1 ?old"
  have c: "mget (elOffers (evLimit (seeOffers ?m (Fin 0) offerState))) ''lp'' = Some ?c"
    unfolding f(1) by (simp add: offerState_def)
  have "offerRangeA ?old (100 * second) = (6, 6)" by (simp add: offerRangeA_def time_simps)
  then have r: "offerRangeA ?c (100 * second) = (6, 6)"
    using offerRangeA_cong [OF seeOffer_frame, of read x y ph s1 ?old "100 * second"] by metis
  have t: "elReadingAt (evLimit (seeOffers ?m (Fin 0) offerState)) = 100 * second"
    unfolding f(1) using f(2) by (simp add: offerState_def)
  have "\<forall>v \<in> set (coShownA ?c). v = 6"
    using shown_current_within_offers [OF refl c] unfolding t r by force
  then show ?thesis using c by (auto simp: list_all_iff)
qed

end
