(* ===== verification/Ev_Battery.thy ===== *)
theory Ev_Battery
  imports Ev_Offers Fuse_Guard Battery_Full
begin

text \<open>
  Battery charge beside a car: \<open>ev_battery_headroom.go\<close>, the command side of
  \<open>ev_battery_priority.go\<close>, and \<open>fitBatteryRisesToFuse\<close> of \<open>dispatch.go\<close>. Battery charge is optional
  where a car still needs room; the passes here give it up, but never raise a command, and when they
  keep a discharge that was about to end they stay within the order the battery already has and within
  its own bounds.
\<close>

section \<open>Fitting rises to the busiest phase\<close>

text \<open>The power a rise is counted from: the latest order, else the battery's reading, else 0.\<close>

definition riseBaseW :: "Store \<Rightarrow> State \<Rightarrow> string \<Rightarrow> real" where
  "riseBaseW store s d =
     (case logSpan (clock s) (mgetD [] (batteryCommands s) d) of
        Some (_, _, latest) \<Rightarrow> latest
      | None \<Rightarrow> (case OnlineRawW d DerBattery store of (w, _, ok) \<Rightarrow> if ok then fval w else 0))"

definition riseHoldW :: "Store \<Rightarrow> State \<Rightarrow> DispatchTarget \<Rightarrow> real" where
  "riseHoldW store s t = min (TargetW t) (max 0 (riseBaseW store s (Driver t)))"

text \<open>The room on the busiest phase: the line, less its reading, less our own rises the reading may not
  show yet, less the discharge these targets end.\<close>

definition unshownRiseA :: "Store \<Rightarrow> State \<Rightarrow> real" where
  "unshownRiseA store s =
     foldl (\<lambda>u (_, c). u + snd (unshown (clock s) (batterySettle c) (coLog c)))
       (unshownBatteryW (clock s) store s / perPhaseW s) (elOffers (evLimit s))"

definition endedDischargeW :: "Store \<Rightarrow> State \<Rightarrow> DispatchTarget list \<Rightarrow> real" where
  "endedDischargeW store s ts =
     sum_list (map (\<lambda>t. max 0 (min 0 (TargetW t) - min 0 (riseBaseW store s (Driver t)))) ts)"

definition fuseRiseRoomW :: "Store \<Rightarrow> real list \<Rightarrow> DispatchTarget list \<Rightarrow> State \<Rightarrow> real" where
  "fuseRiseRoomW store amps ts s =
     (fuseLineA s - hiA amps - unshownRiseA store s) * perPhaseW s - endedDischargeW store s ts"

definition fitTarget :: "Store \<Rightarrow> State \<Rightarrow> real \<Rightarrow> DispatchTarget \<Rightarrow> DispatchTarget" where
  "fitTarget store s k t =
     (let h = riseHoldW store s t
      in if TargetW t > h then t\<lparr>TargetW := h + (TargetW t - h) * k, Clamped := True\<rparr> else t)"

definition fitToRoom :: "Store \<Rightarrow> State \<Rightarrow> real \<Rightarrow> DispatchTarget list \<Rightarrow> DispatchTarget list" where
  "fitToRoom store s spareW ts =
     (let riseW = sum_list (map (\<lambda>t. TargetW t - riseHoldW store s t) ts)
      in if riseW \<le> 0 \<or> spareW \<ge> riseW then ts
         else map (fitTarget store s (max 0 spareW / riseW)) ts)"

definition fitBatteryRisesToFuse :: "Store \<Rightarrow> DispatchTarget list \<Rightarrow> State \<Rightarrow> DispatchTarget list" where
  "fitBatteryRisesToFuse store ts s =
     (if ts = [] \<or> SiteFuseVoltage s \<le> 0 \<or> SiteFusePhases s \<le> 0 then ts
      else case Get (SiteMeterDriver s) DerMeter store of
        None \<Rightarrow> ts
      | Some meter \<Rightarrow>
          (case signedPhasesA (livePhaseSample store (SiteMeterDriver s) (Some meter)) s of
             None \<Rightarrow> ts
           | Some amps \<Rightarrow> fitToRoom store s (fuseRiseRoomW store amps ts s) ts))"

section \<open>Headroom an EV still needs\<close>

definition floorPositiveEVBatteryTargets :: "DispatchTarget list \<Rightarrow> DispatchTarget list" where
  "floorPositiveEVBatteryTargets ts = map (\<lambda>t. if TargetW t > 0 then closeTarget t else t) ts"

definition keepableW :: "(string, real) gomap \<Rightarrow> (string, real) gomap \<Rightarrow> DispatchTarget \<Rightarrow> real" where
  "keepableW latest lowest t =
     (let lst = mgetD 0 latest (Driver t)
      in if lst < 0 then max 0 (min 0 (TargetW t) - max lst (mgetD 0 lowest (Driver t))) else 0)"

definition keepEndingDischarge :: "(string, real) gomap \<Rightarrow> (string, real) gomap \<Rightarrow> f64 \<Rightarrow>
    DispatchTarget list \<Rightarrow> DispatchTarget list" where
  "keepEndingDischarge latest lowest shortW out =
     (let keepW = sum_list (map (keepableW latest lowest) out)
      in if \<not> shortW > Fin 0 \<or> keepW \<le> 0 then out
         else let share = fval (f64_min (Fin 1) (shortW / Fin keepW))
              in map (\<lambda>t. if keepableW latest lowest t > 0
                          then t\<lparr>TargetW := min 0 (TargetW t) - keepableW latest lowest t * share, Clamped := True\<rparr>
                          else t) out)"

text \<open>The parts of \<open>capBatteryCharge\<close>: the discharge a target ends, the charge it holds of the latest
  order, and the charge it adds.\<close>

definition lostDischargeW :: "(string, real) gomap \<Rightarrow> DispatchTarget \<Rightarrow> real" where
  "lostDischargeW latest t = max 0 (min 0 (TargetW t) - min 0 (mgetD 0 latest (Driver t)))"

definition heldChargeW :: "(string, real) gomap \<Rightarrow> DispatchTarget \<Rightarrow> real" where
  "heldChargeW latest t = (if TargetW t > 0 then min (TargetW t) (max 0 (mgetD 0 latest (Driver t))) else 0)"

definition addedChargeW :: "(string, real) gomap \<Rightarrow> DispatchTarget \<Rightarrow> real" where
  "addedChargeW latest t = (if TargetW t > 0 then TargetW t - heldChargeW latest t else 0)"

definition capCharge :: "(string, real) gomap \<Rightarrow> real \<Rightarrow> real \<Rightarrow> DispatchTarget \<Rightarrow> DispatchTarget" where
  "capCharge latest holdScale increaseScale t =
     (if TargetW t \<le> 0 then t
      else let capped = heldChargeW latest t * holdScale + (TargetW t - heldChargeW latest t) * increaseScale
           in if capped < TargetW t then t\<lparr>TargetW := capped, Clamped := True\<rparr> else t)"

definition capBatteryCharge :: "(string, real) gomap \<Rightarrow> (string, real) gomap \<Rightarrow> real \<Rightarrow> f64 \<Rightarrow> f64 \<Rightarrow>
    DispatchTarget list \<Rightarrow> DispatchTarget list" where
  "capBatteryCharge latest lowest pendingW spare releaseSpare ts =
     (if \<not> finiteFuseValue spare then floorPositiveEVBatteryTargets ts
      else
        let lostW = sum_list (map (lostDischargeW latest) ts);
            spareW = fval spare - lostW;
            holdW = sum_list (map (heldChargeW latest) ts);
            increaseW = sum_list (map (addedChargeW latest) ts);
            holdScale = (if spareW < 0 \<and> holdW > 0 then max 0 (1 + spareW / holdW) else 1);
            room = spareW - pendingW;
            increaseScale = (if room > 0 \<and> increaseW > 0 then min 1 (room / increaseW) else 0)
        in keepEndingDischarge latest lowest
             (Fin (lostW + pendingW) - releaseSpare - Fin (holdW * (1 - holdScale)))
             (map (capCharge latest holdScale increaseScale) ts))"

definition evBatteryPhaseSpareW :: "DerReading \<Rightarrow> State \<Rightarrow> f64 \<Rightarrow> f64 \<Rightarrow> f64 option" where
  "evBatteryPhaseSpareW meter s gridW evIncreaseA =
     (case worstPhaseA meter s gridW of (worst, present, valid) \<Rightarrow>
        if \<not> present then None
        else if \<not> valid then Some NInf
        else Some ((Fin (fuseLineA s - worst) - evIncreaseA) * Fin (SiteFuseVoltage s) * Fin (real_of_int (SiteFusePhases s))))"

text \<open>The order each targeted battery has, or minus its discharge cap when it has none; and the lowest
  order its bounds allow, kept only for a battery with an order and a reading.\<close>

definition latestOrder :: "State \<Rightarrow> string \<Rightarrow> real" where
  "latestOrder s d =
     (case logSpan (clock s) (mgetD [] (batteryCommands s) d) of
        Some (_, _, latest) \<Rightarrow> latest
      | None \<Rightarrow> - dischargeCap (limitsOf s d))"

definition lowestOrder :: "Store \<Rightarrow> State \<Rightarrow> string \<Rightarrow> real option" where
  "lowestOrder store s d =
     (if logSpan (clock s) (mgetD [] (batteryCommands s) d) = None then None
      else map_option (\<lambda>r. fst (fuseTargetBounds r (limitsOf s d))) (Get d DerBattery store))"

definition latestOrders :: "State \<Rightarrow> DispatchTarget list \<Rightarrow> (string, real) gomap" where
  "latestOrders s ts = map (\<lambda>t. (Driver t, latestOrder s (Driver t))) ts"

definition lowestOrders :: "Store \<Rightarrow> State \<Rightarrow> DispatchTarget list \<Rightarrow> (string, real) gomap" where
  "lowestOrders store s ts =
     List.map_filter (\<lambda>t. map_option (Pair (Driver t)) (lowestOrder store s (Driver t))) ts"

definition demandPhases :: "State \<Rightarrow> real" where
  "demandPhases s = (if list_all (\<lambda>d. fdPhaseMode d = ''3p'') (evFuseDemands s) then 3 else 1)"

text \<open>Charge that brings measured export inside its ceiling is given back.\<close>

definition keepExportFloor :: "real \<Rightarrow> DispatchTarget list \<Rightarrow> DispatchTarget list \<Rightarrow> DispatchTarget list" where
  "keepExportFloor overW ts out =
     (let offeredCharge = sum_list (map (\<lambda>t. max 0 (TargetW t)) ts);
          finalCharge = sum_list (map (\<lambda>t. max 0 (TargetW t)) out);
          exportFloor = min offeredCharge (max 0 overW)
      in if exportFloor > finalCharge \<and> offeredCharge > finalCharge
         then let k = (exportFloor - finalCharge) / (offeredCharge - finalCharge)
              in map2 (\<lambda>t u. if TargetW t > TargetW u \<and> TargetW t > 0
                             then u\<lparr>TargetW := TargetW u + (TargetW t - TargetW u) * k\<rparr> else u) ts out
         else out)"

definition minKnown :: "f64 \<Rightarrow> f64 option \<Rightarrow> f64" where
  "minKnown a b = (case b of None \<Rightarrow> a | Some v \<Rightarrow> f64_min a v)"

definition clampEVBatteryHeadroom :: "Store \<Rightarrow> real \<Rightarrow> DispatchTarget list \<Rightarrow> State \<Rightarrow> DispatchTarget list" where
  "clampEVBatteryHeadroom store fuseMaxW ts s =
     (if ts = [] \<or> fuseMaxW \<le> 0 \<or> evFuseDemands s = [] then ts
      else case Get (SiteMeterDriver s) DerMeter store of
        None \<Rightarrow> floorPositiveEVBatteryTargets ts
      | Some meter \<Rightarrow>
          if \<not> finiteFuseValue (RawW meter) \<or> \<not> distinct (map Driver ts) then floorPositiveEVBatteryTargets ts
          else
            let now = clock s;
                gridW = RawW meter;
                demandW = sum_list (map fdPowerW (evFuseDemands s));
                shownW = evShownW now s;
                offeredW = shownW + evFoundDrawW store gridW (UpdatedAt meter) now shownW s;
                needW = max 0 (demandW - offeredW);
                riseW = f64_max (Fin 0) (EVCommandedW s - Fin offeredW);
                ceilingW = importRiseCeilingW fuseMaxW s - fval gridW;
                spare = Fin (ceilingW - needW);
                releaseSpare = Fin ceilingW - riseW;
                perA = SiteFuseVoltage s * demandPhases s;
                phaseChecked = (fval gridW \<ge> - effectiveExportCeilingW fuseMaxW s \<and> SiteFuseVoltage s > 0);
                spare = (if phaseChecked
                         then minKnown spare (evBatteryPhaseSpareW meter s gridW (Fin (needW / perA))) else spare);
                releaseSpare = (if phaseChecked
                         then minKnown releaseSpare (evBatteryPhaseSpareW meter s gridW (riseW / Fin perA))
                         else releaseSpare);
                out = capBatteryCharge (latestOrders s ts) (lowestOrders store s ts)
                        (pendingBatteryCommandsW now s) spare releaseSpare ts
            in keepExportFloor (- fval gridW - effectiveExportCeilingW fuseMaxW s) ts out)"

section \<open>Yielding to the car\<close>

definition applyEVBatteryYield :: "State \<Rightarrow> DispatchTarget list \<Rightarrow> DispatchTarget list" where
  "applyEVBatteryYield s ts =
     (let y = elBatteryYield (evLimit s)
      in if \<not> yActive y \<or> \<not> clock s < yUntil y then ts
         else
           let chargeW = sum_list (map (\<lambda>t. max 0 (TargetW t)) ts); capW = yMaxChargeW y
           in if chargeW \<le> capW \<or> chargeW \<le> 0 then ts
              else map (\<lambda>t. if TargetW t > 0 then t\<lparr>TargetW := TargetW t * (capW / chargeW), Clamped := True\<rparr>
                            else t) ts)"

definition hasBatteryCharge :: "State \<Rightarrow> bool" where
  "hasBatteryCharge s =
     list_ex (\<lambda>(_, l). case logSpan (clock s) l of None \<Rightarrow> False | Some (_, _, latest) \<Rightarrow> latest > 0)
       (batteryCommands s)"

section \<open>EV budgets published with a dispatch\<close>

definition republishFuseEVCapAfterFuseDischarge :: "Store \<Rightarrow> real \<Rightarrow> DispatchTarget list \<Rightarrow> State \<Rightarrow> State" where
  "republishFuseEVCapAfterFuseDischarge store fuseMaxW ts s =
     (if \<not> FuseSaturated s \<or> EVChargingW s \<le> 0 \<or> fuseMaxW \<le> 0
         \<or> effectiveImportCeilingW fuseMaxW s < fuseMaxW - fuseSafetyMarginW s then s
      else
        let postBat = snd (foldl (\<lambda>(got, w) t. if Driver t \<in> set got then (got, w)
                                                else (Driver t # got, w + TargetW t)) ([], 0) ts);
            currentBat = currentBatW (readingsFor store ts) ts;
            siteMeter = Get (SiteMeterDriver s) DerMeter store;
            ceilingW = phaseImportCeilingW fuseMaxW siteMeter s;
            H = smoothedW siteMeter - currentBat - EVChargingW s;
            headroom = max 0 (ceilingW - H - postBat);
            demand = max (EVChargingW s) (scheduledEVPowerW s)
        in s\<lparr>FuseEVMaxW := (if headroom > demand then demand else headroom)\<rparr>)"

definition publishBatterylessEVFuseBudget :: "Store \<Rightarrow> real \<Rightarrow> State \<Rightarrow> State" where
  "publishBatterylessEVFuseBudget store fuseMaxW s =
     (let s1 = s\<lparr>FuseEVMaxW := 0, FuseSaturated := False, FuseSaturatedByImport := False\<rparr>;
          inMeterW = evInMeterW s1;
          demand = max inMeterW (scheduledEVPowerW s1)
      in case Get (SiteMeterDriver s) DerMeter store of
           None \<Rightarrow> s1
         | Some meter \<Rightarrow>
             if demand \<le> 0 then s1
             else
               let ceilingW = phaseImportCeilingW fuseMaxW (Some meter) s1;
                   capW = evHeadroomW (Fin ceilingW) (f64_max (RawW meter) (SmoothedW meter)) (Fin inMeterW)
               in s1\<lparr>FuseEVMaxW := min demand capW, FuseSaturated := (demand > capW),
                     FuseSaturatedByImport := (demand > capW \<and> importLimitSets ceilingW s1)\<rparr>)"

section \<open>Lemmas\<close>

lemma sum_scaled: "sum_list (map (\<lambda>x. f x * k) xs) = sum_list (map f xs) * k" for f :: "'a \<Rightarrow> real"
  by (simp add: sum_list_mult_const)

subsection \<open>Rises\<close>

lemma riseHoldW_le [simp]: "riseHoldW store s t \<le> TargetW t"
  by (simp add: riseHoldW_def)

lemma riseHoldW_nonneg: "riseHoldW store s t < TargetW t \<Longrightarrow> 0 \<le> riseHoldW store s t"
  by (auto simp: riseHoldW_def min_def split: if_splits)

lemma rise_share:
  fixes h w k :: real
  assumes "h < w" "0 \<le> k" "k < 1"
  shows "h \<le> h + (w - h) * k" "h + (w - h) * k \<le> w"
proof -
  show "h \<le> h + (w - h) * k" using assms by simp
  have "(w - h) * k \<le> (w - h) * 1" using assms by (intro mult_left_mono) simp_all
  then show "h + (w - h) * k \<le> w" by simp
qed

lemma fitTarget_keeps:
  assumes "0 \<le> k" "k < 1"
  shows "towardZero t (fitTarget store s k t)" "riseHoldW store s t \<le> TargetW (fitTarget store s k t)"
proof -
  have "riseHoldW store s t < TargetW t \<Longrightarrow> towardZero t
      (t\<lparr>TargetW := riseHoldW store s t + (TargetW t - riseHoldW store s t) * k, Clamped := True\<rparr>)"
    using rise_share [of "riseHoldW store s t" "TargetW t" k] riseHoldW_nonneg [of store s t] assms
    by (intro towardZero_set) simp
  then show "towardZero t (fitTarget store s k t)" by (simp add: fitTarget_def Let_def)
  show "riseHoldW store s t \<le> TargetW (fitTarget store s k t)"
    using rise_share(1) [of "riseHoldW store s t" "TargetW t" k] assms by (simp add: fitTarget_def Let_def)
qed

lemma fitTarget_rise: "TargetW (fitTarget store s k t) - riseHoldW store s t = (TargetW t - riseHoldW store s t) * k"
proof (cases "TargetW t > riseHoldW store s t")
  case False
  then have "TargetW t = riseHoldW store s t" using riseHoldW_le [of store s t] by linarith
  then show ?thesis by (simp add: fitTarget_def)
qed (simp add: fitTarget_def Let_def)

lemma fit_cases:
  obtains "fitToRoom store s room ts = ts" "sum_list (map (\<lambda>t. TargetW t - riseHoldW store s t) ts) \<le> max 0 room"
  | k where "0 \<le> k" "k < 1" "fitToRoom store s room ts = map (fitTarget store s k) ts"
      "sum_list (map (\<lambda>t. TargetW t - riseHoldW store s t) ts) * k = max 0 room"
proof (cases "sum_list (map (\<lambda>t. TargetW t - riseHoldW store s t) ts) \<le> max 0 room")
  case True
  moreover have "0 \<le> sum_list (map (\<lambda>t. TargetW t - riseHoldW store s t) ts)"
    by (rule sum_list_nonneg) auto
  ultimately have "fitToRoom store s room ts = ts"
    by (cases "room \<ge> 0") (simp_all add: fitToRoom_def Let_def)
  from that(1) [OF this True] show ?thesis .
next
  case False
  let ?rise = "sum_list (map (\<lambda>t. TargetW t - riseHoldW store s t) ts)"
  from False have r: "0 < ?rise" "room < ?rise" by simp_all
  show ?thesis
  proof (rule that(2) [of "max 0 room / ?rise"])
    show "0 \<le> max 0 room / ?rise" "max 0 room / ?rise < 1" using r by simp_all
    show "fitToRoom store s room ts = map (fitTarget store s (max 0 room / ?rise)) ts"
      using r by (simp add: fitToRoom_def Let_def)
    show "?rise * (max 0 room / ?rise) = max 0 room" using r by simp
  qed
qed

lemma map2_same: "map2 f xs xs = map (\<lambda>x. f x x) xs" "map2 f xs (map g xs) = map (\<lambda>x. f x (g x)) xs"
  by (induction xs) auto

lemma fitToRoom_spec:
  shows "list_all2 towardZero ts (fitToRoom store s room ts)"
    and "sum_list (map2 (\<lambda>t u. TargetW u - riseHoldW store s t) ts (fitToRoom store s room ts)) \<le> max 0 room"
    and "i < length ts \<Longrightarrow> riseHoldW store s (ts ! i) \<le> TargetW (fitToRoom store s room ts ! i)"
  by (cases rule: fit_cases [of store s room ts];
      simp add: list_all2_refl list_all2_conv_all_nth fitTarget_keeps fitTarget_rise map2_same sum_scaled)+

lemma fitBatteryRisesToFuse_toward_zero: "list_all2 towardZero ts (fitBatteryRisesToFuse store ts s)"
  by (auto simp: fitBatteryRisesToFuse_def fitToRoom_spec(1) list_all2_refl split: option.split)

interpretation fit_rises: toward_zero_pass "\<lambda>ts. fitBatteryRisesToFuse store ts s" for store s
  by unfold_locales (rule fitBatteryRisesToFuse_toward_zero)

subsection \<open>Headroom\<close>

lemma floorPositive_le: "list_all2 (\<lambda>t u. Driver u = Driver t \<and> TargetW u = min 0 (TargetW t)) ts (floorPositiveEVBatteryTargets ts)"
  by (auto simp: floorPositiveEVBatteryTargets_def closeTarget_def list_all2_conv_all_nth)

lemma held_added:
  "0 \<le> heldChargeW latest t" "0 \<le> addedChargeW latest t" "0 \<le> lostDischargeW latest t"
  "heldChargeW latest t + addedChargeW latest t = max 0 (TargetW t)"
  by (auto simp: heldChargeW_def addedChargeW_def lostDischargeW_def)

lemma capCharge_charge:
  assumes "0 \<le> k" "k \<le> 1" "0 \<le> q" "q \<le> 1"
  shows "max 0 (TargetW (capCharge latest k q t)) = heldChargeW latest t * k + addedChargeW latest t * q"
    and "TargetW (capCharge latest k q t) \<le> TargetW t" "min 0 (TargetW t) \<le> TargetW (capCharge latest k q t)"
    and "Driver (capCharge latest k q t) = Driver t"
proof -
  let ?c = "heldChargeW latest t * k + addedChargeW latest t * q"
  have "heldChargeW latest t * k \<le> heldChargeW latest t * 1" "addedChargeW latest t * q \<le> addedChargeW latest t * 1"
    by (rule mult_left_mono [OF assms(2) held_added(1)], rule mult_left_mono [OF assms(4) held_added(2)])
  then have c: "0 \<le> ?c" "?c \<le> max 0 (TargetW t)"
    using assms held_added [of latest t] by (auto simp: mult_nonneg_nonneg)
  have "TargetW (capCharge latest k q t) = (if TargetW t \<le> 0 then TargetW t else ?c)"
    using c(2) by (auto simp: capCharge_def Let_def addedChargeW_def)
  moreover have "TargetW t \<le> 0 \<Longrightarrow> ?c = 0" using c by simp
  ultimately show "max 0 (TargetW (capCharge latest k q t)) = ?c"
    and "TargetW (capCharge latest k q t) \<le> TargetW t" "min 0 (TargetW t) \<le> TargetW (capCharge latest k q t)"
    using c by (auto simp: max_def min_def)
  show "Driver (capCharge latest k q t) = Driver t" by (simp add: capCharge_def Let_def)
qed

lemma keepableW_nonneg [simp]: "0 \<le> keepableW latest lowest t"
  by (simp add: keepableW_def Let_def)

lemma keepableW_pos:
  "0 < keepableW latest lowest t \<Longrightarrow> mgetD 0 latest (Driver t) < 0
     \<and> keepableW latest lowest t = min 0 (TargetW t) - max (mgetD 0 latest (Driver t)) (mgetD 0 lowest (Driver t))"
  by (auto simp: keepableW_def Let_def max_def split: if_splits)

text \<open>The share kept is a proper share, also when the shortfall is infinite.\<close>

lemma keep_share:
  assumes "shortW > Fin 0" "0 < keepW"
  shows "0 \<le> fval (f64_min (Fin 1) (shortW / Fin keepW))" "fval (f64_min (Fin 1) (shortW / Fin keepW)) \<le> 1"
  using assms by (cases shortW; simp add: divide_f64_def less_f64_def)+

definition keptW :: "(string, real) gomap \<Rightarrow> (string, real) gomap \<Rightarrow> DispatchTarget \<Rightarrow> DispatchTarget \<Rightarrow> bool" where
  "keptW latest lowest t u = (Driver u = Driver t \<and> TargetW u \<le> TargetW t
     \<and> (TargetW u < min 0 (TargetW t) \<longrightarrow>
          max (mgetD 0 latest (Driver t)) (mgetD 0 lowest (Driver t)) \<le> TargetW u \<and> mgetD 0 latest (Driver t) < 0))"

lemma keepEndingDischarge_kept: "list_all2 (keptW latest lowest) ts (keepEndingDischarge latest lowest shortW ts)"
proof -
  let ?K = "sum_list (map (keepableW latest lowest) ts)"
  have refl: "keptW latest lowest t t" for t by (simp add: keptW_def)
  show ?thesis
  proof (cases "\<not> shortW > Fin 0 \<or> ?K \<le> 0")
    case True
    then show ?thesis by (simp add: keepEndingDischarge_def Let_def list_all2_refl refl)
  next
    case False
    define share where "share = fval (f64_min (Fin 1) (shortW / Fin ?K))"
    have sh: "0 \<le> share" "share \<le> 1" using keep_share [of shortW ?K] False by (simp_all add: share_def)
    have "keptW latest lowest t (t\<lparr>TargetW := min 0 (TargetW t) - keepableW latest lowest t * share, Clamped := True\<rparr>)"
      if "0 < keepableW latest lowest t" for t
    proof -
      define x where "x = keepableW latest lowest t * share"
      have "x \<le> keepableW latest lowest t" "0 \<le> x"
        using mult_left_mono [OF sh(2), of "keepableW latest lowest t"] sh(1) by (simp_all add: x_def)
      with keepableW_pos [OF that] show ?thesis unfolding keptW_def x_def [symmetric] by auto
    qed
    then show ?thesis
      using False refl by (simp add: keepEndingDischarge_def Let_def list_all2_conv_all_nth share_def)
  qed
qed

lemma keptW_after:
  "Driver t' = Driver t \<Longrightarrow> TargetW t' \<le> TargetW t \<Longrightarrow> min 0 (TargetW t) \<le> TargetW t' \<Longrightarrow> keptW latest lowest t' u
   \<Longrightarrow> keptW latest lowest t u"
  by (auto simp: keptW_def)

text \<open>The scales of \<open>capBatteryCharge\<close>.\<close>

lemma charge_scales:
  fixes spareW holdW room increaseW :: real
  shows "0 \<le> (if spareW < 0 \<and> holdW > 0 then max 0 (1 + spareW / holdW) else 1)"
    "(if spareW < 0 \<and> holdW > 0 then max 0 (1 + spareW / holdW) else 1) \<le> 1"
    "0 \<le> (if room > 0 \<and> increaseW > 0 then min 1 (room / increaseW) else 0)"
    "(if room > 0 \<and> increaseW > 0 then min 1 (room / increaseW) else 0) \<le> 1"
  by (auto simp: divide_nonpos_pos)

lemma capBatteryCharge_scales:
  assumes "finiteFuseValue sp" "holdW = sum_list (map (heldChargeW latest) ts)"
    "increaseW = sum_list (map (addedChargeW latest) ts)"
    "spareW = fval sp - sum_list (map (lostDischargeW latest) ts)"
  obtains short k q where "capBatteryCharge latest lowest p sp r ts
      = keepEndingDischarge latest lowest short (map (capCharge latest k q) ts)"
    "k = (if spareW < 0 \<and> holdW > 0 then max 0 (1 + spareW / holdW) else 1)"
    "q = (if spareW - p > 0 \<and> increaseW > 0 then min 1 ((spareW - p) / increaseW) else 0)"
    "0 \<le> k" "k \<le> 1" "0 \<le> q" "q \<le> 1"
proof (rule that [OF _ refl refl charge_scales])
  show "capBatteryCharge latest lowest p sp r ts = keepEndingDischarge latest lowest
      (Fin (sum_list (map (lostDischargeW latest) ts) + p) - r
       - Fin (holdW * (1 - (if spareW < 0 \<and> holdW > 0 then max 0 (1 + spareW / holdW) else 1))))
      (map (capCharge latest (if spareW < 0 \<and> holdW > 0 then max 0 (1 + spareW / holdW) else 1)
        (if spareW - p > 0 \<and> increaseW > 0 then min 1 ((spareW - p) / increaseW) else 0)) ts)"
    using assms by (simp add: capBatteryCharge_def Let_def)
qed

lemma capBatteryCharge_kept: "list_all2 (keptW latest lowest) ts (capBatteryCharge latest lowest p sp r ts)"
proof (cases "finiteFuseValue sp")
  case False
  then show ?thesis using floorPositive_le [of ts]
    by (auto simp: capBatteryCharge_def keptW_def list_all2_conv_all_nth)
next
  case True
  obtain short k q where eq: "capBatteryCharge latest lowest p sp r ts
      = keepEndingDischarge latest lowest short (map (capCharge latest k q) ts)" and kq: "0 \<le> k" "k \<le> 1" "0 \<le> q" "q \<le> 1"
    using capBatteryCharge_scales [OF True refl refl refl] by metis
  have "list_all2 (keptW latest lowest) (map (capCharge latest k q) ts) (capBatteryCharge latest lowest p sp r ts)"
    unfolding eq by (rule keepEndingDischarge_kept)
  then show ?thesis
    unfolding list_all2_map1 by (rule list_all2_mono) (rule keptW_after [OF capCharge_charge(4,2,3) [OF kq]])
qed

lemma keepExportFloor_kept:
  assumes "list_all2 (keptW latest lowest) ts out"
  shows "list_all2 (keptW latest lowest) ts (keepExportFloor w ts out)"
proof -
  have step: "keptW latest lowest t (u\<lparr>TargetW := TargetW u + (TargetW t - TargetW u) * k\<rparr>)"
    if "keptW latest lowest t u" "0 \<le> k" "k \<le> 1" "TargetW u < TargetW t" for t u k
  proof -
    have "(TargetW t - TargetW u) * k \<le> (TargetW t - TargetW u) * 1" "0 \<le> (TargetW t - TargetW u) * k"
      using that by (auto intro!: mult_left_mono simp del: mult_1_right)
    with that(1) show ?thesis by (auto simp: keptW_def)
  qed
  define fin where "fin = sum_list (map (\<lambda>t. max 0 (TargetW t)) out)"
  define off where "off = sum_list (map (\<lambda>t. max 0 (TargetW t)) ts)"
  show ?thesis
  proof (cases "min off (max 0 w) > fin \<and> off > fin")
    case True
    have k: "0 \<le> (min off (max 0 w) - fin) / (off - fin)" "(min off (max 0 w) - fin) / (off - fin) \<le> 1"
      using True by simp_all
    show ?thesis
      using assms step [OF _ k] True
      by (auto simp: keepExportFloor_def Let_def list_all2_conv_all_nth simp flip: fin_def off_def)
  next
    case False
    then show ?thesis using assms by (auto simp: keepExportFloor_def Let_def simp flip: fin_def off_def)
  qed
qed

lemma clampEVBatteryHeadroom_kept:
  "list_all2 (keptW (latestOrders s ts) (lowestOrders store s ts)) ts (clampEVBatteryHeadroom store fuseMaxW ts s)"
proof -
  have refl: "keptW l k t t" for l k t by (simp add: keptW_def)
  have floor: "list_all2 (keptW l k) ts (floorPositiveEVBatteryTargets ts)" for l k
    using floorPositive_le [of ts] by (auto simp: keptW_def list_all2_conv_all_nth)
  show ?thesis
    by (simp add: clampEVBatteryHeadroom_def Let_def list_all2_refl refl floor keepExportFloor_kept
        capBatteryCharge_kept split: option.split)
qed

lemma mget_latestOrders: "t \<in> set ts \<Longrightarrow> mgetD 0 (latestOrders s ts) (Driver t) = latestOrder s (Driver t)"
  by (induction ts) (auto simp: latestOrders_def mgetD_def)

lemma mget_lowestOrders:
  "mget (lowestOrders store s ts) d = (if d \<in> Driver ` set ts then lowestOrder store s d else None)"
  by (induction ts) (auto simp: lowestOrders_def List.map_filter_simps split: option.splits)

text \<open>A battery discharges more than its target asks only down to an order it already has, and only
  where a reading shows it may.\<close>

lemma kept_discharge:
  assumes "keptW (latestOrders s ts) (lowestOrders store s ts) t u" "t \<in> set ts" "TargetW u < min 0 (TargetW t)"
  obtains low high latest r where "logSpan (clock s) (mgetD [] (batteryCommands s) (Driver t)) = Some (low, high, latest)"
    "Get (Driver t) DerBattery store = Some r" "latest \<le> TargetW u"
    "fst (fuseTargetBounds r (limitsOf s (Driver t))) \<le> TargetW u"
proof -
  have le: "max (latestOrder s (Driver t)) (case lowestOrder store s (Driver t) of None \<Rightarrow> 0 | Some v \<Rightarrow> v) \<le> TargetW u"
    using assms mget_latestOrders [OF assms(2), of s] by (simp add: keptW_def mgetD_def mget_lowestOrders)
  moreover have "TargetW u < 0" using assms(3) by simp
  ultimately obtain l where l: "lowestOrder store s (Driver t) = Some l" "l \<le> TargetW u"
    by (cases "lowestOrder store s (Driver t)") auto
  then obtain low high latest r where "logSpan (clock s) (mgetD [] (batteryCommands s) (Driver t)) = Some (low, high, latest)"
      "Get (Driver t) DerBattery store = Some r" "l = fst (fuseTargetBounds r (limitsOf s (Driver t)))"
    by (auto simp: lowestOrder_def split: if_splits)
  with that le l(2) show ?thesis by (simp add: latestOrder_def)
qed

lemma charge_mono:
  "list_all2 (\<lambda>t u. TargetW u \<le> TargetW t) ts out \<Longrightarrow>
   sum_list (map (\<lambda>t. max 0 (TargetW t)) out) \<le> sum_list (map (\<lambda>t. max 0 (TargetW t)) ts)"
  by (induction ts out rule: list_all2_induct) auto

text \<open>The two scales spend exactly the room: a shortfall comes off the held charge, and new charge takes
  at most the room past the orders on their way.\<close>

lemma scaled_charge:
  fixes holdW increaseW spareW p :: real
  assumes "0 \<le> holdW" "0 \<le> increaseW" "0 \<le> p"
    "k = (if spareW < 0 \<and> holdW > 0 then max 0 (1 + spareW / holdW) else 1)"
    "q = (if spareW - p > 0 \<and> increaseW > 0 then min 1 ((spareW - p) / increaseW) else 0)"
  shows "holdW * k + increaseW * q \<le> max 0 (holdW + min 0 spareW) + max 0 (spareW - p)"
proof -
  have "holdW * k = (if spareW < 0 then max 0 (holdW + spareW) else holdW)"
    using assms(1,4) by (auto simp: max_def field_simps)
  moreover have "increaseW * q \<le> max 0 (spareW - p)"
    using assms(2,5) by (auto simp: min_def field_simps)
  ultimately show ?thesis using assms(1) by (auto simp: max_def min_def)
qed

section \<open>Properties\<close>

text \<open>A battery charge rise fits the busiest phase: the phase's reading, our own rises that reading
  may not show yet, the discharge these targets end and the new charge together stay at or under the
  fuse's working line, or nothing is added beyond what was there already. A battery keeps at least
  the charge it holds of its latest order, and no target grows or changes sign.\<close>

theorem battery_rises_fit_phase:
  assumes "ts \<noteq> []" "SiteFuseVoltage s > 0" "SiteFusePhases s > 0"
    "signedPhasesA (livePhaseSample store (SiteMeterDriver s) (Get (SiteMeterDriver s) DerMeter store)) s = Some amps"
    "out = fitBatteryRisesToFuse store ts s"
    "before = hiA amps + unshownRiseA store s + endedDischargeW store s ts / perPhaseW s"
  shows "before + sum_list (map2 (\<lambda>t u. TargetW u - riseHoldW store s t) ts out) / perPhaseW s
      \<le> max (fuseLineA s) before
    \<and> list_all2 towardZero ts out
    \<and> (\<forall>i < length ts. riseHoldW store s (ts ! i) \<le> TargetW (out ! i))"
proof -
  have per: "0 < perPhaseW s" using assms(2,3) by (simp add: perPhaseW_def)
  obtain m where m: "Get (SiteMeterDriver s) DerMeter store = Some m"
    using assms(4) by (cases "Get (SiteMeterDriver s) DerMeter store")
      (auto simp: livePhaseSample_def signedPhasesA_def noPhases_def)
  have out: "out = fitToRoom store s (fuseRiseRoomW store amps ts s) ts"
    using assms(1-5) m by (simp add: fitBatteryRisesToFuse_def)
  let ?rise = "sum_list (map2 (\<lambda>t u. TargetW u - riseHoldW store s t) ts out)"
  have "?rise \<le> max 0 ((fuseLineA s - before) * perPhaseW s)"
    using fitToRoom_spec(2) [of store s ts "fuseRiseRoomW store amps ts s"] per
    by (simp add: out assms(6) fuseRiseRoomW_def algebra_simps)
  then have "?rise / perPhaseW s \<le> max 0 (fuseLineA s - before)"
    using per by (simp add: divide_le_eq max_mult_distrib_right)
  then have "before + ?rise / perPhaseW s \<le> max (fuseLineA s) before" by linarith
  then show ?thesis using fitToRoom_spec(1,3) by (simp add: out)
qed

definition phaseStore :: Store where
  "phaseStore = (NewStore 0)\<lparr>readings := [(key ''m'' DerMeter, phaseReading [20, 5, 4] [4600, 1150, 920])],
     health := [(''m'', RecordSuccess 0 (newHealth ''m'' 0))]\<rparr>"

theorem battery_rises_fit_phase_witness:
  "TargetW (hd (fitBatteryRisesToFuse phaseStore [\<lparr>Driver = ''b'', TargetW = 6000, Clamped = False\<rparr>] phaseState)) \<le> 2760"
proof -
  let ?ts = "[\<lparr>Driver = ''b'', TargetW = 6000, Clamped = False\<rparr>]"
  let ?out = "fitBatteryRisesToFuse phaseStore ?ts phaseState"
  have a: "signedPhasesA (livePhaseSample phaseStore (SiteMeterDriver phaseState)
      (Get (SiteMeterDriver phaseState) DerMeter phaseStore)) phaseState = Some [20, 5, 4]"
    by (simp add: phaseStore_def phaseState_def NewState_def Get_def livePhaseSample_def OnlineMeterW_def OnlineRawW_def
        TelemetryLive_def newHealth_def RecordSuccess_def key_def
        signedPhasesA_def phaseCurrentsA_def phaseReading_def phaseDocBad_def emptyDoc_def
        docAmps_def docPowers_def finiteFuseValue_def phasePowersAddUp_def exportSignMinW_def Let_def
        eval_nat_numeral)
  have st: "batteryCommands phaseState = []" "elOffers (evLimit phaseState) = []" "fuseLineA phaseState = 24"
    by (simp_all add: phaseState_def NewState_def noEVLimit_def fuseLineA_def)
  have b: "riseBaseW phaseStore phaseState ''b'' = 0"
    by (simp add: riseBaseW_def st logSpan_def OnlineRawW_def phaseStore_def key_def)
  have "length ?out = 1" using fit_rises.pass_length [where ts = ?ts and store = phaseStore and s = phaseState] by simp
  then obtain u where u: "?out = [u]" by (cases ?out) auto
  have "20 + TargetW u / 690 \<le> 24"
    using battery_rises_fit_phase [OF _ _ _ a u [symmetric] refl]
    by (simp add: hiA_def unshownRiseA_def endedDischargeW_def perPhaseW_def b riseHoldW_def unshownBatteryW_def st)
  then show ?thesis by (simp add: u)
qed

text \<open>Making room for a car never raises a battery's command, and it discharges a battery below both
  its target and 0 W only when FTW had ordered that discharge, never deeper than that order, and
  never below what the battery's reading allows: no discharge without a charge level, at or under the
  floor, or where the driver blocks it.\<close>

theorem ev_headroom_never_raises:
  assumes "out = clampEVBatteryHeadroom store fuseMaxW ts s" "i < length ts"
  shows "Driver (out ! i) = Driver (ts ! i) \<and> TargetW (out ! i) \<le> TargetW (ts ! i)
    \<and> (TargetW (out ! i) < min 0 (TargetW (ts ! i)) \<longrightarrow>
        (\<exists>low high latest r. logSpan (clock s) (mgetD [] (batteryCommands s) (Driver (ts ! i))) = Some (low, high, latest)
          \<and> Get (Driver (ts ! i)) DerBattery store = Some r \<and> latest \<le> TargetW (out ! i)
          \<and> fst (fuseTargetBounds r (limitsOf s (Driver (ts ! i)))) \<le> TargetW (out ! i)))"
proof -
  have k: "keptW (latestOrders s ts) (lowestOrders store s ts) (ts ! i) (out ! i)"
    using clampEVBatteryHeadroom_kept [of s ts store fuseMaxW] assms by (simp add: list_all2_nthD)
  then have "TargetW (out ! i) < min 0 (TargetW (ts ! i)) \<longrightarrow>
        (\<exists>low high latest r. logSpan (clock s) (mgetD [] (batteryCommands s) (Driver (ts ! i))) = Some (low, high, latest)
          \<and> Get (Driver (ts ! i)) DerBattery store = Some r \<and> latest \<le> TargetW (out ! i)
          \<and> fst (fuseTargetBounds r (limitsOf s (Driver (ts ! i)))) \<le> TargetW (out ! i))"
    using assms(2) by (metis kept_discharge nth_mem)
  with k show ?thesis by (simp add: keptW_def)
qed

theorem ev_headroom_never_raises_witness:
  "TargetW (hd (clampEVBatteryHeadroom phaseStore 17250 [\<lparr>Driver = ''b'', TargetW = 6000, Clamped = False\<rparr>]
     (phaseState\<lparr>evFuseDemands := [\<lparr>fdDriver = ''ev'', fdPowerW = 7000, fdPhaseMode = ''3p''\<rparr>]\<rparr>))) \<le> 6000"
proof -
  let ?ts = "[\<lparr>Driver = ''b'', TargetW = 6000, Clamped = False\<rparr>]"
    and ?s = "phaseState\<lparr>evFuseDemands := [\<lparr>fdDriver = ''ev'', fdPowerW = 7000, fdPhaseMode = ''3p''\<rparr>]\<rparr>"
  have "length (clampEVBatteryHeadroom phaseStore 17250 ?ts ?s) = 1"
    using list_all2_lengthD [OF clampEVBatteryHeadroom_kept [of ?s ?ts phaseStore 17250]] by simp
  moreover have "TargetW (clampEVBatteryHeadroom phaseStore 17250 ?ts ?s ! 0) \<le> 6000"
    using ev_headroom_never_raises [OF refl, where i = 0 and ts = ?ts and store = phaseStore and fuseMaxW = 17250 and s = ?s] by simp
  ultimately show ?thesis by (simp add: hd_conv_nth flip: length_greater_0_conv)
qed

text \<open>Battery charge fits the measured room: after the cap the fleet charges no more than the charge
  it holds of its latest orders, cut by any shortfall of room, plus what room is left after FTW's own
  battery orders that the meter may not show yet; without a usable room nothing charges.\<close>

theorem battery_charge_fits_room:
  assumes "0 \<le> pendingW" "out = capBatteryCharge latest lowest pendingW spare releaseSpare ts"
    "holdW = sum_list (map (heldChargeW latest) ts)"
    "spareW = fval spare - sum_list (map (lostDischargeW latest) ts)"
  shows "if isFinite spare
    then sum_list (map (\<lambda>t. max 0 (TargetW t)) out) \<le> max 0 (holdW + min 0 spareW) + max 0 (spareW - pendingW)
    else sum_list (map (\<lambda>t. max 0 (TargetW t)) out) = 0"
proof (cases "isFinite spare")
  case False
  have "max 0 (TargetW u) = 0" if "u \<in> set out" for u
    using that False by (auto simp: assms(2) capBatteryCharge_def finiteFuseValue_def
        floorPositiveEVBatteryTargets_def closeTarget_def split: if_splits)
  then show ?thesis using False by (simp cong: map_cong)
next
  case True
  then have f: "finiteFuseValue spare" by (simp add: finiteFuseValue_def)
  obtain short k q where out: "out = keepEndingDischarge latest lowest short (map (capCharge latest k q) ts)"
    and kq: "0 \<le> k" "k \<le> 1" "0 \<le> q" "q \<le> 1"
    and k: "k = (if spareW < 0 \<and> holdW > 0 then max 0 (1 + spareW / holdW) else 1)"
      "q = (if spareW - pendingW > 0 \<and> sum_list (map (addedChargeW latest) ts) > 0
            then min 1 ((spareW - pendingW) / sum_list (map (addedChargeW latest) ts)) else 0)"
    using capBatteryCharge_scales [OF f assms(3) refl assms(4)] assms(2) by metis
  have nn: "0 \<le> holdW" "0 \<le> sum_list (map (addedChargeW latest) ts)"
    by (auto simp: assms(3) held_added intro!: sum_list_nonneg)
  have "list_all2 (\<lambda>t u. TargetW u \<le> TargetW t) (map (capCharge latest k q) ts) out"
    unfolding out by (rule list_all2_mono [OF keepEndingDischarge_kept]) (simp add: keptW_def)
  then have "sum_list (map (\<lambda>t. max 0 (TargetW t)) out)
      \<le> sum_list (map (\<lambda>t. max 0 (TargetW (capCharge latest k q t))) ts)"
    using charge_mono [of "map (capCharge latest k q) ts" out] by (simp add: comp_def)
  also have "\<dots> = holdW * k + sum_list (map (addedChargeW latest) ts) * q"
    by (simp add: capCharge_charge(1) [OF kq] sum_list_addf sum_scaled assms(3))
  also have "\<dots> \<le> max 0 (holdW + min 0 spareW) + max 0 (spareW - pendingW)"
    by (rule scaled_charge [OF nn assms(1) k])
  finally show ?thesis using True by simp
qed

theorem battery_charge_fits_room_witness:
  "sum_list (map (\<lambda>t. max 0 (TargetW t)) (capBatteryCharge [(''b'', 1000)] [] 200 (Fin 1500) (Fin 0)
     [\<lparr>Driver = ''b'', TargetW = 6000, Clamped = False\<rparr>])) \<le> 2300"
  using battery_charge_fits_room [OF _ refl refl refl, where pendingW = 200 and latest = "[(''b'', 1000)]" and lowest = "[]"
      and spare = "Fin 1500" and releaseSpare = "Fin 0" and ts = "[\<lparr>Driver = ''b'', TargetW = 6000, Clamped = False\<rparr>]"]
  by (simp add: heldChargeW_def lostDischargeW_def mgetD_def)

end
