(* ===== verification/Safety_Pipeline.thy ===== *)
theory Safety_Pipeline
  imports Ev_Battery Plan_Intent
begin

text \<open>
  The last stages every battery command passes (\<open>dispatch.go\<close>,
  \<^emph>\<open>applyDispatchSafetyPipeline\<close>): the fuse guard, the rails that stop a direction, the fuse's own
  discharge, and the final checks. The pipeline returns the commands and the state it leaves. What a
  battery is finally told stays inside its hardware limits, never discharges a battery whose charge
  level is unknown, never charges a paused one, and is what the command log records.
\<close>

record dispatchSafetyOptions =
  optManualHoldActive :: bool
  optNoSelfDischarge :: bool
  optNoSelfCharge :: bool
  optChargeBlocked :: "(string, bool) gomap"
  optFloorBlocked :: "(string, bool) gomap"
  optUpdatePrevTargets :: bool
  optRecordDispatch :: bool

text \<open>The rails between the fuse guard and the fuse's own discharge.\<close>

definition policyRails :: "Store \<Rightarrow> (string, real) gomap \<Rightarrow> real \<Rightarrow> dispatchSafetyOptions \<Rightarrow> DispatchTarget list \<Rightarrow>
    State \<Rightarrow> DispatchTarget list \<times> State" where
  "policyRails store caps fuseMaxW opts ts s =
     (let ts = (if \<not> optManualHoldActive opts then applyPlanSignFloor s ts else ts);
          ts = (if optNoSelfDischarge opts then floorNegativeTargets ts else ts);
          ts = floorBlockedCharge (optNoSelfCharge opts) (optChargeBlocked opts) ts;
          ts = floorBelowOwnerFloorDischarge (optFloorBlocked opts) ts;
          (ts, s) = floorBlockedDischarge store caps fuseMaxW ts s
      in (applyBatteryBoostReserve store s caps ts, s))"

text \<open>The checks after the fuse's own discharge.\<close>

definition finalChecks :: "Store \<Rightarrow> real \<Rightarrow> State \<Rightarrow> DispatchTarget list \<Rightarrow> DispatchTarget list" where
  "finalChecks store fuseMaxW s ts =
     (let ts = clampTargetsToPowerLimits (DriverLimits s) ts;
          ts = floorMissingSoCDischarge store ts;
          ts = clampEVBatteryHeadroom store fuseMaxW ts s;
          ts = applyEVBatteryYield s ts
      in floorFullBatteryCharge s ts)"

definition applyDispatchSafetyPipeline :: "Store \<Rightarrow> (string, real) gomap \<Rightarrow> real \<Rightarrow> dispatchSafetyOptions \<Rightarrow>
    DispatchTarget list \<Rightarrow> State \<Rightarrow> DispatchTarget list \<times> State" where
  "applyDispatchSafetyPipeline store caps fuseMaxW opts ts s =
     (let s = updateBatteryChargeFull store caps s;
          (ts, s) = applyFuseGuard store fuseMaxW ts s;
          ts = fitBatteryRisesToFuse store ts s;
          (beforeRelief, s) = policyRails store caps fuseMaxW opts ts s;
          (ts, s) = forceFuseDischarge store caps fuseMaxW beforeRelief s;
          ts = finalChecks store fuseMaxW s ts;
          s = republishFuseEVCapAfterFuseDischarge store fuseMaxW ts s;
          s = recordDispatchTargets ts (optUpdatePrevTargets opts) (optRecordDispatch opts) s;
          s = (if optRecordDispatch opts then recordBatteryReadings ts store (recordFuseRelief beforeRelief ts s) else s)
      in (ts, s))"

section \<open>What the stages change of the state\<close>

text \<open>The guards change only the guard's hold and the phase detector's memory.\<close>

definition guardFrame :: "State \<Rightarrow> State \<Rightarrow> bool" where
  "guardFrame s s' = (\<exists>a b c r. s' = s\<lparr>FuseHoldMaxDischargeW := a, FuseHoldMaxChargeW := b,
     FuseHoldUntil := c, phaseResponse := r\<rparr>)"

lemma guardFrame_refl [simp]: "guardFrame s s"
  unfolding guardFrame_def
  by (rule exI [of _ "FuseHoldMaxDischargeW s"], rule exI [of _ "FuseHoldMaxChargeW s"],
      rule exI [of _ "FuseHoldUntil s"], rule exI [of _ "phaseResponse s"]) simp

lemma guardFrame_trans: "guardFrame s s1 \<Longrightarrow> guardFrame s1 s2 \<Longrightarrow> guardFrame s s2"
  unfolding guardFrame_def by (elim exE) (simp, blast)

lemma guardFrame_phase: "guardFrame s (s\<lparr>phaseResponse := r\<rparr>)"
  unfolding guardFrame_def
  by (rule exI [of _ "FuseHoldMaxDischargeW s"], rule exI [of _ "FuseHoldMaxChargeW s"],
      rule exI [of _ "FuseHoldUntil s"], rule exI [of _ r]) simp

lemma guardFrame_keeps:
  assumes "guardFrame s s'"
  shows "DriverLimits s' = DriverLimits s" "evLimit s' = evLimit s" "batteryCommands s' = batteryCommands s"
    "clock s' = clock s" "batteryChargeFull s' = batteryChargeFull s" "LastDispatch s' = LastDispatch s"
  using assms by (auto simp: guardFrame_def)

lemma applyFuseHold_frame: "guardFrame s (snd (applyFuseHold now (ts, s)))"
proof -
  have "guardFrame s (s\<lparr>FuseHoldMaxDischargeW := a, FuseHoldMaxChargeW := b, FuseHoldUntil := c\<rparr>)" for a b c
    unfolding guardFrame_def
    by (rule exI [of _ a], rule exI [of _ b], rule exI [of _ c], rule exI [of _ "phaseResponse s"]) simp
  then show ?thesis by (simp add: applyFuseHold_eq)
qed

lemma cutToCeilings_frame: "guardFrame s (snd (cutToCeilings now imp ex ts s))"
proof -
  have "guardFrame s (s\<lparr>FuseHoldMaxChargeW := b, FuseHoldUntil := c\<rparr>)"
    "guardFrame s (s\<lparr>FuseHoldMaxDischargeW := b, FuseHoldUntil := c\<rparr>)" for b c
    unfolding guardFrame_def
    by (rule exI [of _ "FuseHoldMaxDischargeW s"], rule exI [of _ b], rule exI [of _ c], rule exI [of _ "phaseResponse s"], simp)
       (rule exI [of _ b], rule exI [of _ "FuseHoldMaxChargeW s"], rule exI [of _ c], rule exI [of _ "phaseResponse s"], simp)
  then show ?thesis by (simp add: cutToCeilings_def Let_def)
qed

lemma phaseRelief_guardFrame: "guardFrame s (snd (phaseReliefForTargets p bats ts s))"
  using phaseReliefForTargets_frame [of p bats ts s] guardFrame_phase by metis

lemma fuseOverages_frame: "guardFrame s (snd (fuseOverages store f bats b out s))"
  by (simp add: fuseOverages_def Let_def case_prod_beta phaseRelief_guardFrame)

lemma applyFuseGuard_frame: "guardFrame s (snd (applyFuseGuard store f ts s))"
  by (auto simp: applyFuseGuard_def Let_def case_prod_beta
      intro: guardFrame_trans [OF guardFrame_trans [OF applyFuseHold_frame fuseOverages_frame] cutToCeilings_frame])

lemma reliefParts_frame: "guardFrame s (snd (fuseReliefPartsFromSnapshot bats meter phases f ts s))"
  by (simp add: fuseReliefPartsFromSnapshot_def Let_def case_prod_beta phaseRelief_guardFrame split: option.split)

lemma forceFuseDischarge_frame: "guardFrame s (snd (forceFuseDischarge store caps f ts s))"
  by (simp add: forceFuseDischarge_def forceFuseDischargeWithSnapshot_def Let_def case_prod_beta reliefParts_frame)

lemma floorBlockedDischarge_frame: "guardFrame s (snd (floorBlockedDischarge store caps f ts s))"
  by (simp add: floorBlockedDischarge_def blockedDischargeKeepW_def Let_def case_prod_beta reliefParts_frame)

lemma policyRails_frame: "guardFrame s (snd (policyRails store caps f opts ts s))"
  by (simp add: policyRails_def Let_def case_prod_beta floorBlockedDischarge_frame)

section \<open>Who is commanded\<close>

lemma allocate_drivers: "length lowers = length ts \<Longrightarrow> map Driver (allocateFuseRelief ts w lowers) = map Driver ts"
  by (intro nth_equalityI) (simp_all add: allocate_nth)

lemma forceFuseDischarge_drivers: "map Driver (fst (forceFuseDischarge store caps f ts s)) = map Driver ts"
  by (simp add: forceFuseDischarge_def forceFuseDischargeWithSnapshot_def Let_def case_prod_beta
      allocate_drivers allocate_nth(1))

lemma floorBlockedDischarge_drivers: "map Driver (fst (floorBlockedDischarge store caps f ts s)) = map Driver ts"
  by (simp add: floorBlockedDischarge_def Let_def case_prod_beta closeTarget_def comp_def if_distrib [of Driver])

lemma policyRails_drivers: "map Driver (fst (policyRails store caps f opts ts s)) = map Driver ts"
  by (simp add: policyRails_def Let_def case_prod_beta boost_reserve.pass_drivers floorBlockedDischarge_drivers
      floor_owner.pass_drivers floor_charge.pass_drivers floor_negative.pass_drivers sign_floor.pass_drivers)

section \<open>Safe commands\<close>

text \<open>A command inside the battery's power limits that discharges only a battery with a known charge
  level.\<close>

definition safeCommand :: "Store \<Rightarrow> State \<Rightarrow> DispatchTarget \<Rightarrow> bool" where
  "safeCommand store s t =
     (- dischargeCap (limitsOf s (Driver t)) \<le> TargetW t \<and> TargetW t \<le> chargeCap (limitsOf s (Driver t))
      \<and> (TargetW t < 0 \<longrightarrow> (\<exists>r. Get (Driver t) DerBattery store = Some r \<and> SoC r \<noteq> None)))"

lemma safeCommand_towardZero:
  assumes "towardZero t u" "safeCommand store s t" shows "safeCommand store s u"
  using assms caps_nonneg(1) [of "limitsOf s (Driver t)"] caps_nonneg(2) [of "limitsOf s (Driver t)"]
  by (auto simp: towardZero_def safeCommand_def simp del: caps_nonneg)

lemma safe_pass:
  assumes "list_all2 towardZero ts out" "list_all (safeCommand store s) ts"
  shows "list_all (safeCommand store s) out"
  using assms by (induction rule: list_all2_induct) (auto intro: safeCommand_towardZero)

lemma limits_then_soc_safe:
  "list_all (safeCommand store s) (floorMissingSoCDischarge store (clampTargetsToPowerLimits (DriverLimits s) ts))"
proof -
  have w: "- dischargeCap (limitsOf s (Driver t)) \<le> TargetW t \<and> TargetW t \<le> chargeCap (limitsOf s (Driver t))"
    if t: "t \<in> set (clampTargetsToPowerLimits (DriverLimits s) ts)" for t
  proof -
    obtain t' where "t = (let l = limitsOf s (Driver t') in if TargetW t' > chargeCap l then t'\<lparr>TargetW := chargeCap l, Clamped := True\<rparr>
        else if TargetW t' < - dischargeCap l then t'\<lparr>TargetW := - dischargeCap l, Clamped := True\<rparr> else t')"
      using t unfolding clampTargetsToPowerLimits_def limitsOf_def Let_def set_map by blast
    then show ?thesis
      using caps_nonneg(1) [of "limitsOf s (Driver t')"] caps_nonneg(2) [of "limitsOf s (Driver t')"]
      by (auto simp: Let_def simp del: caps_nonneg)
  qed
  show ?thesis unfolding list_all_iff
  proof
    fix u assume "u \<in> set (floorMissingSoCDischarge store (clampTargetsToPowerLimits (DriverLimits s) ts))"
    then obtain t where "t \<in> set (clampTargetsToPowerLimits (DriverLimits s) ts)"
      and u: "u = (if TargetW t \<ge> 0 then t else case Get (Driver t) DerBattery store of None \<Rightarrow> closeTarget t
          | Some r \<Rightarrow> if SoC r \<noteq> None then t else closeTarget t)"
      by (auto simp: floorMissingSoCDischarge_def)
    from w [OF this(1)] show "safeCommand store s u"
      by (auto simp: u safeCommand_def closeTarget_def split: option.split)
  qed
qed

lemma bounds_discharge:
  "fst (fuseTargetBounds r l) < 0 \<Longrightarrow> SoC r \<noteq> None \<and> fst (fuseTargetBounds r l) = - dischargeCap l"
  by (auto simp: fuseTargetBounds_def Let_def case_prod_beta split: if_splits option.splits)

lemma kept_safe:
  assumes "keptW (latestOrders s ts) (lowestOrders store s ts) t u" "t \<in> set ts" "safeCommand store s t"
  shows "safeCommand store s u"
proof -
  have d: "Driver u = Driver t" "TargetW u \<le> TargetW t" using assms(1) by (simp_all add: keptW_def)
  show ?thesis
  proof (cases "TargetW u < min 0 (TargetW t)")
    case False
    with d assms(3) caps_nonneg(2) [of "limitsOf s (Driver t)"] show ?thesis
      by (auto simp: safeCommand_def simp del: caps_nonneg)
  next
    case True
    obtain r where r: "Get (Driver t) DerBattery store = Some r"
      "fst (fuseTargetBounds r (limitsOf s (Driver t))) \<le> TargetW u"
      by (rule kept_discharge [OF assms(1,2) True])
    moreover have "fst (fuseTargetBounds r (limitsOf s (Driver t))) < 0" using r(2) True by simp
    note bounds_discharge [OF this]
    ultimately show ?thesis using d assms(3) by (auto simp: safeCommand_def)
  qed
qed

lemma headroom_safe:
  assumes "list_all (safeCommand store s) ts"
  shows "list_all (safeCommand store s) (clampEVBatteryHeadroom store f ts s)"
proof -
  note k = clampEVBatteryHeadroom_kept [of s ts store f]
  have "safeCommand store s (clampEVBatteryHeadroom store f ts s ! i)" if "i < length ts" for i
    using kept_safe [OF list_all2_nthD [OF k that]] that assms by (simp add: list_all_length)
  then show ?thesis using list_all2_lengthD [OF k] by (simp add: list_all_length)
qed

lemma yield_toward_zero:
  assumes "0 \<le> yMaxChargeW (elBatteryYield (evLimit s))"
  shows "list_all2 towardZero ts (applyEVBatteryYield s ts)"
proof -
  let ?c = "yMaxChargeW (elBatteryYield (evLimit s))" and ?w = "sum_list (map (\<lambda>t. max 0 (TargetW t)) ts)"
  have "towardZero t (t\<lparr>TargetW := TargetW t * (?c / ?w), Clamped := True\<rparr>)" if "0 < TargetW t" "?c < ?w" for t
  proof -
    have "0 \<le> ?c / ?w" "?c / ?w \<le> 1" using assms that(2) by simp_all
    then have "0 \<le> TargetW t * (?c / ?w)" "TargetW t * (?c / ?w) \<le> TargetW t * 1"
      using that(1) by (simp_all only: mult_nonneg_nonneg less_imp_le mult_left_mono)
    then show ?thesis by (intro towardZero_set) simp
  qed
  then show ?thesis by (simp add: applyEVBatteryYield_def Let_def list_all2_refl list_all2_conv_all_nth)
qed

lemma finalChecks_safe:
  assumes "0 \<le> yMaxChargeW (elBatteryYield (evLimit s))"
  shows "list_all (safeCommand store s) (finalChecks store f s ts)"
    "t \<in> set (finalChecks store f s ts) \<Longrightarrow> BatteryChargePaused (Driver t) s \<Longrightarrow> TargetW t \<le> 0"
proof -
  show "list_all (safeCommand store s) (finalChecks store f s ts)"
    unfolding finalChecks_def Let_def
    by (intro safe_pass [OF floor_full.pass_toward_zero] safe_pass [OF yield_toward_zero [OF assms]]
        headroom_safe limits_then_soc_safe)
  show "TargetW t \<le> 0" if "t \<in> set (finalChecks store f s ts)" "BatteryChargePaused (Driver t) s"
    using that by (auto simp: finalChecks_def Let_def floorFullBatteryCharge_def closeTarget_def split: if_splits)
qed

lemma finalChecks_drivers:
  assumes "0 \<le> yMaxChargeW (elBatteryYield (evLimit s))"
  shows "map Driver (finalChecks store f s ts) = map Driver ts"
proof -
  have tz: "list_all2 towardZero us vs \<Longrightarrow> map Driver vs = map Driver us" for us vs
    by (induction rule: list_all2_induct) (auto simp: towardZero_def)
  have kept: "list_all2 (keptW a b) us vs \<Longrightarrow> map Driver vs = map Driver us" for us vs a b
    by (induction rule: list_all2_induct) (auto simp: keptW_def)
  show ?thesis
    by (simp add: finalChecks_def Let_def floor_full.pass_drivers tz [OF yield_toward_zero [OF assms]]
        kept [OF clampEVBatteryHeadroom_kept] floor_missing_soc.pass_drivers clamp_limits.pass_drivers)
qed

section \<open>The stages in order\<close>

text \<open>The run of the pipeline: the state before the final checks, and what the recording adds.\<close>

lemma pipeline_stages:
  assumes "(out, s') = applyDispatchSafetyPipeline store caps f opts ts s"
  obtains s4 relieved before where "guardFrame (updateBatteryChargeFull store caps s) s4"
    "out = finalChecks store f s4 relieved" "map Driver relieved = map Driver ts"
    "s' = (let s5 = recordDispatchTargets out (optUpdatePrevTargets opts) (optRecordDispatch opts)
                      (republishFuseEVCapAfterFuseDischarge store f out s4)
           in if optRecordDispatch opts then recordBatteryReadings out store (recordFuseRelief before out s5) else s5)"
proof -
  let ?full = "updateBatteryChargeFull store caps s"
  obtain g s1 where g: "applyFuseGuard store f ts ?full = (g, s1)" by force
  let ?fit = "fitBatteryRisesToFuse store g s1"
  obtain before s2 where p: "policyRails store caps f opts ?fit s1 = (before, s2)" by force
  obtain relieved s4 where r: "forceFuseDischarge store caps f before s2 = (relieved, s4)" by force
  have frame: "guardFrame ?full s4"
    using guardFrame_trans [OF guardFrame_trans [OF applyFuseGuard_frame policyRails_frame] forceFuseDischarge_frame]
      g p r by (metis snd_conv)
  have "map Driver g = map Driver ts" using fuse_guard.pass_drivers [where store = store and fuseMaxW = f and s = ?full and ts = ts] by (simp add: g)
  then have "map Driver ?fit = map Driver ts" using fit_rises.pass_drivers by metis
  moreover have "map Driver before = map Driver ?fit"
    using policyRails_drivers [of store caps f opts ?fit s1] by (simp add: p)
  moreover have "map Driver relieved = map Driver before"
    using forceFuseDischarge_drivers [of store caps f before s2] by (simp add: r)
  ultimately show ?thesis
    using assms by (intro that [OF frame, of relieved before]) (simp_all add: applyDispatchSafetyPipeline_def Let_def g p r)
qed

lemma pipeline_drivers:
  assumes "0 \<le> yMaxChargeW (elBatteryYield (evLimit s))"
    "(out, s') = applyDispatchSafetyPipeline store caps f opts ts s"
  shows "map Driver out = map Driver ts"
proof -
  obtain s4 relieved where st: "guardFrame (updateBatteryChargeFull store caps s) s4"
    "out = finalChecks store f s4 relieved" "map Driver relieved = map Driver ts"
    by (rule pipeline_stages [OF assms(2)])
  have "0 \<le> yMaxChargeW (elBatteryYield (evLimit s4))"
    using assms(1) guardFrame_keeps(2) [OF st(1)] by (simp add: updateBatteryChargeFull_def Let_def)
  then show ?thesis by (simp add: st finalChecks_drivers)
qed

text \<open>The recording keeps the limits, the pauses and the clock, and logs each command.\<close>

lemma republish_keeps:
  "batteryChargeFull (republishFuseEVCapAfterFuseDischarge store f ts s) = batteryChargeFull s"
  "batteryCommands (republishFuseEVCapAfterFuseDischarge store f ts s) = batteryCommands s"
  "clock (republishFuseEVCapAfterFuseDischarge store f ts s) = clock s"
  by (simp_all add: republishFuseEVCapAfterFuseDischarge_def Let_def)

lemma pipeline_safe:
  assumes "0 \<le> yMaxChargeW (elBatteryYield (evLimit s))"
    "(out, s') = applyDispatchSafetyPipeline store caps fuseMaxW opts ts s"
  shows "list_all (safeCommand store s) out"
    "t \<in> set out \<Longrightarrow> BatteryChargePaused (Driver t) s' \<Longrightarrow> TargetW t \<le> 0"
proof -
  obtain s4 relieved before where st: "guardFrame (updateBatteryChargeFull store caps s) s4"
    "out = finalChecks store fuseMaxW s4 relieved" "map Driver relieved = map Driver ts"
    "s' = (let s5 = recordDispatchTargets out (optUpdatePrevTargets opts) (optRecordDispatch opts)
                      (republishFuseEVCapAfterFuseDischarge store fuseMaxW out s4)
           in if optRecordDispatch opts then recordBatteryReadings out store (recordFuseRelief before out s5) else s5)"
    by (rule pipeline_stages [OF assms(2)])
  note k = guardFrame_keeps [OF st(1)]
  have y: "0 \<le> yMaxChargeW (elBatteryYield (evLimit s4))" using assms(1) k(2) by (simp add: updateBatteryChargeFull_def Let_def)
  have "limitsOf s4 = limitsOf s" using k(1) by (auto simp: limitsOf_def updateBatteryChargeFull_def Let_def)
  then have "safeCommand store s4 = safeCommand store s" by (auto simp: safeCommand_def)
  then show "list_all (safeCommand store s) out" using finalChecks_safe(1) [OF y, of store fuseMaxW relieved] st(2) by simp
  have "batteryChargeFull s' = batteryChargeFull s4"
    by (simp add: st(4) Let_def recordDispatchTargets_def recordBatteryReadings_def recordFuseRelief_def republish_keeps)
  then show "TargetW t \<le> 0" if "t \<in> set out" "BatteryChargePaused (Driver t) s'"
    using finalChecks_safe(2) [OF y, of t store fuseMaxW relieved] that st(2) by (simp add: BatteryChargePaused_def)
qed

lemma last_logAdd: "logAdd now w l \<noteq> []" "last (logAdd now w l) = sent now w"
  using suffix_order.trans dropReplaced_suffix [of "now - evSettle" "l @ [sent now w]"]
  by (auto simp: logAdd_def keep_def suffix_def) (metis dropReplaced_nonempty last_appendR last_snoc snoc_eq_iff_butlast)

lemma logged_commands:
  assumes "distinct (map Driver ts)" "t \<in> set ts"
  shows "mget (foldl (\<lambda>m t. mset_at (Driver t) (logAdd now (TargetW t) (mgetD [] m (Driver t))) m) m ts) (Driver t)
    = Some (logAdd now (TargetW t) (mgetD [] m (Driver t)))"
  using assms
proof (induction ts arbitrary: m)
  case (Cons u ts)
  have keep: "d \<notin> Driver ` set us \<Longrightarrow>
      mget (foldl (\<lambda>m t. mset_at (Driver t) (logAdd now (TargetW t) (mgetD [] m (Driver t))) m) m us) d = mget m d" for d us m
    by (induction us arbitrary: m) auto
  show ?case
  proof (cases "t = u")
    case True
    with Cons.prems(1) show ?thesis by (simp add: keep)
  next
    case False
    then have "t \<in> set ts" "Driver t \<noteq> Driver u" using Cons.prems by (auto simp: rev_image_eqI)
    with Cons show ?thesis by simp
  qed
qed simp

section \<open>Properties\<close>

text \<open>What a battery is finally told is safe, whatever the earlier stages asked: every battery of the
  dispatch gets one command and no other battery gets one; the command is inside the driver's charge
  and discharge limits; only a battery with a known charge level is discharged, also for the fuse;
  and a battery whose charging is paused is not charged.\<close>

theorem pipeline_commands_safe:
  assumes "0 \<le> yMaxChargeW (elBatteryYield (evLimit s))"
    "(out, s') = applyDispatchSafetyPipeline store caps fuseMaxW opts ts s" "t \<in> set out"
  shows "map Driver out = map Driver ts
    \<and> - dischargeCap (limitsOf s (Driver t)) \<le> TargetW t \<and> TargetW t \<le> chargeCap (limitsOf s (Driver t))
    \<and> (TargetW t < 0 \<longrightarrow> (\<exists>r. Get (Driver t) DerBattery store = Some r \<and> SoC r \<noteq> None))
    \<and> (BatteryChargePaused (Driver t) s' \<longrightarrow> TargetW t \<le> 0)"
  using pipeline_safe [OF assms(1,2)] pipeline_drivers [OF assms(1,2)] assms(3) by (auto simp: list_all_iff safeCommand_def)

definition pipelineOptions :: dispatchSafetyOptions where
  "pipelineOptions = \<lparr>optManualHoldActive = False, optNoSelfDischarge = False, optNoSelfCharge = False, optChargeBlocked = [],
     optFloorBlocked = [], optUpdatePrevTargets = True, optRecordDispatch = True\<rparr>"

definition chargeRun :: "DispatchTarget list \<times> State" where
  "chargeRun = applyDispatchSafetyPipeline phaseStore [(''b'', 10000)] 17250 pipelineOptions
     [\<lparr>Driver = ''b'', TargetW = 60000, Clamped = False\<rparr>] phaseState"

lemma chargeRun_eq:
  "0 \<le> yMaxChargeW (elBatteryYield (evLimit phaseState))"
  "(fst chargeRun, snd chargeRun) = applyDispatchSafetyPipeline phaseStore [(''b'', 10000)] 17250 pipelineOptions
     [\<lparr>Driver = ''b'', TargetW = 60000, Clamped = False\<rparr>] phaseState"
  by (simp_all add: chargeRun_def phaseState_def NewState_def noEVLimit_def noYield_def)

lemma chargeRun_target: "\<exists>t. fst chargeRun = [t] \<and> Driver t = ''b''"
  using pipeline_drivers [OF chargeRun_eq] by (cases "fst chargeRun") auto

theorem pipeline_commands_safe_witness:
  "\<exists>t. fst chargeRun = [t] \<and> 0 \<le> TargetW t \<and> TargetW t \<le> 5000"
proof -
  obtain t where t: "fst chargeRun = [t]" "Driver t = ''b''" using chargeRun_target by blast
  have "Get ''b'' DerBattery phaseStore = None" by (simp add: phaseStore_def Get_def key_def)
  moreover have "chargeCap (limitsOf phaseState ''b'') = 5000"
    by (simp add: limitsOf_def phaseState_def NewState_def chargeCap_def effectivePowerLimit_def noLimits_def MaxCommandW_def)
  moreover note pipeline_commands_safe [OF chargeRun_eq, of t]
  ultimately show ?thesis using t by (cases "TargetW t < 0") simp_all
qed

text \<open>The command log tells the truth: after a recorded dispatch the log's latest order for each
  battery, what the next tick's fuse and EV checks read, is the command just sent.\<close>

theorem pipeline_logs_commands:
  assumes "optRecordDispatch opts" "distinct (map Driver ts)" "0 \<le> yMaxChargeW (elBatteryYield (evLimit s))"
    "(out, s') = applyDispatchSafetyPipeline store caps fuseMaxW opts ts s" "t \<in> set out"
  shows "lastDispatchedW (Driver t) s' = Some (TargetW t) \<and> LastTargets s' = out \<and> LastDispatch s' = Some (clock s)"
proof -
  obtain s4 relieved before where st: "guardFrame (updateBatteryChargeFull store caps s) s4"
    "out = finalChecks store fuseMaxW s4 relieved" "map Driver relieved = map Driver ts"
    "s' = (let s5 = recordDispatchTargets out (optUpdatePrevTargets opts) (optRecordDispatch opts)
                      (republishFuseEVCapAfterFuseDischarge store fuseMaxW out s4)
           in if optRecordDispatch opts then recordBatteryReadings out store (recordFuseRelief before out s5) else s5)"
    by (rule pipeline_stages [OF assms(4)])
  note k = guardFrame_keeps [OF st(1)]
  have c: "clock s4 = clock s" using k(4) by (simp add: updateBatteryChargeFull_def Let_def)
  have d: "distinct (map Driver out)" using pipeline_drivers [OF assms(3,4)] assms(2) by simp
  have s': "LastTargets s' = out" "LastDispatch s' = Some (clock s)"
    "batteryCommands s' = foldl (\<lambda>m t. mset_at (Driver t) (logAdd (clock s) (TargetW t) (mgetD [] m (Driver t))) m)
       (batteryCommands s4) out"
    using assms(1) by (simp_all add: st(4) Let_def recordDispatchTargets_def recordBatteryReadings_def
        recordFuseRelief_def republish_keeps c)
  have "mget (batteryCommands s') (Driver t) = Some (logAdd (clock s) (TargetW t) (mgetD [] (batteryCommands s4) (Driver t)))"
    unfolding s'(3) by (rule logged_commands [OF d assms(5)])
  then have "lastDispatchedW (Driver t) s' = Some (TargetW t)"
    by (simp add: lastDispatchedW_def Let_def mgetD_def last_logAdd s'(2) sent_def)
  with s' show ?thesis by simp
qed

theorem pipeline_logs_commands_witness:
  "\<exists>t. fst chargeRun = [t] \<and> lastDispatchedW ''b'' (snd chargeRun) = Some (TargetW t)"
proof -
  obtain t where t: "fst chargeRun = [t]" "Driver t = ''b''" using chargeRun_target by blast
  from pipeline_logs_commands [OF _ _ chargeRun_eq, of t] t show ?thesis by (simp add: pipelineOptions_def)
qed

end
