(* ===== verification/Fuse_Saver.thy ===== *)
theory Fuse_Saver
  imports Safety_Pipeline
begin

text \<open>
  The fuse saver (\<open>dispatch.go\<close>): on a tick that sends no ordinary command, the batteries' own live power
  is checked against the fuse, and the commands that relieve it are sent. A battery whose live power
  is above its safe target can only be commanded down to that target, which is itself relief;
  \<^emph>\<open>fuseSafeBaselineForRelief\<close> picks the batteries to command so that the relief is enough, no more
  than the export ceiling leaves room for, and as little as possible. Up to twelve candidates all
  subsets are tried; for more a bounded frontier is kept. Indexing an empty frontier panics, and a
  panic is \<open>None\<close> here.
\<close>

section \<open>Sorting\<close>

text \<open>\<open>sort.Slice\<close> on keys without duplicates, and \<open>sort.SliceStable\<close>: \<open>lt\<close> is the less function.\<close>

fun insertBy :: "('a \<Rightarrow> 'a \<Rightarrow> bool) \<Rightarrow> 'a \<Rightarrow> 'a list \<Rightarrow> 'a list" where
  "insertBy lt x [] = [x]"
| "insertBy lt x (y # ys) = (if lt y x then y # insertBy lt x ys else x # y # ys)"

definition sortBy :: "('a \<Rightarrow> 'a \<Rightarrow> bool) \<Rightarrow> 'a list \<Rightarrow> 'a list" where
  "sortBy lt xs = foldr (insertBy lt) xs []"

definition string_lt :: "string \<Rightarrow> string \<Rightarrow> bool" where
  "string_lt a b = (lex_le (char_key a) (char_key b) \<and> a \<noteq> b)"

definition driver_lt :: "DispatchTarget \<Rightarrow> DispatchTarget \<Rightarrow> bool" where
  "driver_lt a b = string_lt (Driver a) (Driver b)"

section \<open>Candidates\<close>

record candidate =
  cTarget :: DispatchTarget
  cRelief :: real
  cHeadroom :: real

definition candidate_lt :: "candidate \<Rightarrow> candidate \<Rightarrow> bool" where
  "candidate_lt a b =
     (if cRelief a = cRelief b then driver_lt (cTarget a) (cTarget b) else cRelief a < cRelief b)"

definition commandHeadroomW :: "battery_readings \<Rightarrow> State \<Rightarrow> (string, real) gomap \<Rightarrow> DispatchTarget \<Rightarrow> real" where
  "commandHeadroomW bats s caps t =
     (if mgetD 0 caps (Driver t) > 0
      then case mgetD None bats (Driver t) of
             None \<Rightarrow> 0
           | Some r \<Rightarrow> max 0 (TargetW t - fst (fuseTargetBounds r (limitsOf s (Driver t))))
      else 0)"

text \<open>A safe target with the relief that sending it already gives; \<open>None\<close> without a live one.\<close>

definition asCandidate :: "DispatchTarget list \<Rightarrow> battery_readings \<Rightarrow> State \<Rightarrow> (string, real) gomap \<Rightarrow> DispatchTarget \<Rightarrow>
    candidate option" where
  "asCandidate raw bats s caps t =
     map_option (\<lambda>r. \<lparr>cTarget = t, cRelief = TargetW r - TargetW t, cHeadroom = commandHeadroomW bats s caps t\<rparr>)
       (find (\<lambda>r. Driver r = Driver t) raw)"

section \<open>All subsets\<close>

definition maxExactCandidates :: nat where "maxExactCandidates = 12"
definition selectEpsilon :: real where "selectEpsilon = 1 / 1000000000"
definition maxFrontierStates :: nat where "maxFrontierStates = 512"

definition chosen :: "nat \<Rightarrow> candidate list \<Rightarrow> candidate list" where
  "chosen sub cs = map snd (filter (\<lambda>(i, _). odd (sub div 2 ^ i)) (zip [0..<length cs] cs))"

definition maskRelief :: "nat \<Rightarrow> candidate list \<Rightarrow> real" where
  "maskRelief sub cs = sum_list (map cRelief (chosen sub cs))"

definition maskDelivered :: "real \<Rightarrow> real \<Rightarrow> nat \<Rightarrow> candidate list \<Rightarrow> real" where
  "maskDelivered baselineHeadroom maxRelief sub cs =
     (let delivered = maskRelief sub cs + baselineHeadroom + sum_list (map cHeadroom (chosen sub cs))
      in if delivered > maxRelief then maxRelief else delivered)"

text \<open>The best covering subset so far, none at infinite relief, and the best partial one.\<close>

record exactSearch =
  bestCover :: "(real \<times> nat) option"
  bestPartialDelivered :: real
  bestPartialRelief :: "real option"
  bestPartial :: nat

definition exactStep :: "real \<Rightarrow> real \<Rightarrow> real \<Rightarrow> candidate list \<Rightarrow> exactSearch \<Rightarrow> nat \<Rightarrow> exactSearch" where
  "exactStep baselineHeadroom maxRelief goal cs st sub =
     (let relief = maskRelief sub cs; delivered = maskDelivered baselineHeadroom maxRelief sub cs
      in if relief > maxRelief + selectEpsilon then st
         else if delivered + selectEpsilon \<ge> goal then
           (case bestCover st of
              None \<Rightarrow> st\<lparr>bestCover := Some (relief, sub)\<rparr>
            | Some (r, m) \<Rightarrow>
                if relief < r - selectEpsilon \<or> (\<bar>relief - r\<bar> \<le> selectEpsilon \<and> sub < m)
                then st\<lparr>bestCover := Some (relief, sub)\<rparr> else st)
         else if delivered > bestPartialDelivered st + selectEpsilon
              \<or> (\<bar>delivered - bestPartialDelivered st\<bar> \<le> selectEpsilon
                 \<and> (case bestPartialRelief st of
                      None \<Rightarrow> True
                    | Some r \<Rightarrow> relief < r - selectEpsilon \<or> (\<bar>relief - r\<bar> \<le> selectEpsilon \<and> sub < bestPartial st)))
         then st\<lparr>bestPartialDelivered := delivered, bestPartialRelief := Some relief, bestPartial := sub\<rparr>
         else st)"

definition exactSelect :: "real \<Rightarrow> real \<Rightarrow> real \<Rightarrow> candidate list \<Rightarrow> nat" where
  "exactSelect baselineHeadroom maxRelief goal cs =
     (let st = foldl (exactStep baselineHeadroom maxRelief goal cs)
                 \<lparr>bestCover = None, bestPartialDelivered = - 1, bestPartialRelief = None, bestPartial = 0\<rparr>
                 [0..<2 ^ length cs]
      in case bestCover st of Some (_, m) \<Rightarrow> m | None \<Rightarrow> bestPartial st)"

section \<open>The frontier\<close>

record selectionState =
  ssRelief :: real
  ssDelivered :: real
  ssSelected :: "candidate list"

definition selection_lt :: "selectionState \<Rightarrow> selectionState \<Rightarrow> bool" where
  "selection_lt a b = (if ssRelief a = ssRelief b then ssDelivered a > ssDelivered b else ssRelief a < ssRelief b)"

definition extendState :: "real \<Rightarrow> candidate \<Rightarrow> selectionState \<Rightarrow> selectionState option" where
  "extendState maxRelief c st =
     (let relief = ssRelief st + cRelief c; delivered = ssDelivered st + cRelief c + cHeadroom c
      in if relief > maxRelief + selectEpsilon then None
         else Some \<lparr>ssRelief = relief, ssDelivered = (if delivered > maxRelief then maxRelief else delivered),
                    ssSelected = c # ssSelected st\<rparr>)"

fun pruneLoop :: "real \<Rightarrow> selectionState list \<Rightarrow> selectionState list" where
  "pruneLoop best [] = []"
| "pruneLoop best (st # sts) =
     (if ssDelivered st \<le> best + selectEpsilon then pruneLoop best sts
      else st # pruneLoop (ssDelivered st) sts)"

definition boundFrontier :: "selectionState list \<Rightarrow> selectionState list" where
  "boundFrontier pruned =
     (if length pruned > maxFrontierStates
      then map (\<lambda>j. pruned ! (j * (length pruned - 1) div (maxFrontierStates - 1))) [0..<maxFrontierStates]
      else pruned)"

definition frontierStep :: "real \<Rightarrow> selectionState list \<Rightarrow> candidate \<Rightarrow> selectionState list" where
  "frontierStep maxRelief frontier c =
     boundFrontier (pruneLoop (- 1) (sortBy selection_lt (frontier @ List.map_filter (extendState maxRelief c) frontier)))"

definition frontierSelect :: "real \<Rightarrow> real \<Rightarrow> real \<Rightarrow> candidate list \<Rightarrow> candidate list option" where
  "frontierSelect baselineHeadroom maxRelief goal cs =
     (let frontier = foldl (frontierStep maxRelief)
                       [\<lparr>ssRelief = 0, ssDelivered = min baselineHeadroom maxRelief, ssSelected = []\<rparr>] cs
      in if frontier = [] then None
         else Some (ssSelected (case find (\<lambda>st. ssDelivered st + selectEpsilon \<ge> goal) frontier of
                                  Some st \<Rightarrow> st | None \<Rightarrow> last frontier)))"

section \<open>The baseline\<close>

definition fuseSafeBaselineForRelief :: "DispatchTarget list \<Rightarrow> DispatchTarget list \<Rightarrow> battery_readings \<Rightarrow> State \<Rightarrow>
    (string, real) gomap \<Rightarrow> real \<Rightarrow> real \<Rightarrow> DispatchTarget list option" where
  "fuseSafeBaselineForRelief raw safe bats s caps requiredRelief maxRelief =
     (let all = List.map_filter (asCandidate raw bats s caps) safe;
          kept = filter (\<lambda>c. cRelief c \<le> 0) all;
          candidates = sortBy candidate_lt (filter (\<lambda>c. \<not> cRelief c \<le> 0) all);
          baselineHeadroom = sum_list (map cHeadroom kept);
          goal = min requiredRelief maxRelief;
          baseline = sortBy driver_lt (map cTarget kept);
          picked = (if length candidates \<le> maxExactCandidates
                    then Some (chosen (exactSelect baselineHeadroom maxRelief goal candidates) candidates)
                    else frontierSelect baselineHeadroom maxRelief goal candidates)
      in map_option (\<lambda>cs. sortBy driver_lt (baseline @ map cTarget cs)) picked)"

section \<open>The fuse saver\<close>

definition fuseReliefFromSnapshot :: "battery_readings \<Rightarrow> DerReading option \<Rightarrow> phaseSample \<Rightarrow> real \<Rightarrow>
    DispatchTarget list \<Rightarrow> State \<Rightarrow> real \<times> State" where
  "fuseReliefFromSnapshot bats meter phases fuseMaxW ts s =
     (case fuseReliefPartsFromSnapshot bats meter phases fuseMaxW ts s of ((overage, _), s) \<Rightarrow> (overage, s))"

definition differs :: "DispatchTarget list \<Rightarrow> DispatchTarget \<Rightarrow> bool" where
  "differs raw t =
     (case find (\<lambda>r. Driver r = Driver t) raw of
        None \<Rightarrow> True
      | Some r \<Rightarrow> TargetW t \<noteq> TargetW r \<or> Clamped t \<noteq> Clamped r)"

definition fuseSaverAtLivePower :: "Store \<Rightarrow> (string, real) gomap \<Rightarrow> real \<Rightarrow> State \<Rightarrow>
    ((DispatchTarget list \<times> DispatchTarget list) \<times> State) option" where
  "fuseSaverAtLivePower store caps fuseMaxW s =
     (if fuseMaxW \<le> 0 \<or> caps = [] then Some (([], []), s)
      else case Get (SiteMeterDriver s) DerMeter store of
        None \<Rightarrow> Some (([], []), s)
      | Some meter \<Rightarrow>
          let (rawLive, safeBaseline, bats) = fleetAtLivePower store caps (DriverLimits s)
          in if rawLive = [] then Some (([], []), s)
             else
               let phases = livePhaseSample store (SiteMeterDriver s) (Some meter);
                   (requiredRelief, s) = fuseReliefFromSnapshot bats (Some meter) phases fuseMaxW rawLive s
               in if requiredRelief \<le> 0 then Some (([], []), s)
                  else
                    let maxRelief = predictedGridFromSnapshot bats (Some meter) rawLive + effectiveExportCeilingW fuseMaxW s
                    in case fuseSafeBaselineForRelief rawLive safeBaseline bats s caps requiredRelief maxRelief of
                         None \<Rightarrow> None
                       | Some baseline \<Rightarrow>
                           if baseline = [] then Some (([], []), s)
                           else
                             let (out, s) = forceFuseDischargeWithSnapshot bats (Some meter) phases caps fuseMaxW baseline s
                             in if list_ex (differs rawLive) out \<and> fuseSnapshotStillCurrent store s (UpdatedAt meter) bats out
                                then Some ((out, rawLive), s) else Some (([], []), s))"

definition fuseSaverFromLivePower :: "Store \<Rightarrow> (string, real) gomap \<Rightarrow> real \<Rightarrow> State \<Rightarrow> (DispatchTarget list \<times> State) option" where
  "fuseSaverFromLivePower store caps fuseMaxW s =
     map_option (\<lambda>((out, _), s). (out, s)) (fuseSaverAtLivePower store caps fuseMaxW s)"

text \<open>No commands and a nil slice are both \<open>[]\<close>: the saver never returns an empty slice that is not nil.\<close>

definition fuseSaverEarlyExit :: "Store \<Rightarrow> (string, real) gomap \<Rightarrow> real \<Rightarrow> State \<Rightarrow> (DispatchTarget list \<times> State) option" where
  "fuseSaverEarlyExit store caps fuseMaxW s =
     (case fuseSaverAtLivePower store caps fuseMaxW s of
        None \<Rightarrow> None
      | Some ((out, liveTs), s) \<Rightarrow>
          let (out, s) = stopFullBatteries store caps out s
          in if out = [] then Some ([], s)
             else let s = recordFuseRelief liveTs out s
                  in Some (out, s\<lparr>LastTargets := out, LastDispatch := Some (clock s)\<rparr>))"

section \<open>Lemmas\<close>

lemma set_insertBy [simp]: "set (insertBy lt x xs) = insert x (set xs)"
  by (induction xs) auto

lemma set_sortBy [simp]: "set (sortBy lt xs) = set xs"
  by (induction xs) (auto simp: sortBy_def)

lemma length_insertBy [simp]: "length (insertBy lt x xs) = Suc (length xs)"
  by (induction xs) auto

lemma length_sortBy [simp]: "length (sortBy lt xs) = length xs"
  by (induction xs) (auto simp: sortBy_def)

lemma length_map_filter: "length (List.map_filter f xs) \<le> length xs"
  by (induction xs) (auto simp: List.map_filter_simps split: option.split)

subsection \<open>The search\<close>

definition covers :: "real \<Rightarrow> real \<Rightarrow> real \<Rightarrow> candidate list \<Rightarrow> nat \<Rightarrow> bool" where
  "covers baselineHeadroom maxRelief goal cs sub =
     (maskRelief sub cs \<le> maxRelief + selectEpsilon
      \<and> goal \<le> maskDelivered baselineHeadroom maxRelief sub cs + selectEpsilon)"

definition search_ok :: "real \<Rightarrow> real \<Rightarrow> real \<Rightarrow> candidate list \<Rightarrow> nat \<Rightarrow> exactSearch \<Rightarrow> bool" where
  "search_ok bh mr goal cs k st =
     (case bestCover st of
        None \<Rightarrow> \<forall>sub < k. \<not> covers bh mr goal cs sub
      | Some (r, m) \<Rightarrow> m < k \<and> covers bh mr goal cs m \<and> r = maskRelief m cs
          \<and> (\<forall>sub < k. covers bh mr goal cs sub \<longrightarrow> r \<le> maskRelief sub cs + selectEpsilon))"

lemma selectEpsilon_pos [simp]: "0 < selectEpsilon"
  by (simp add: selectEpsilon_def)

lemma exactStep_cover:
  "bestCover (exactStep bh mr goal cs st k) =
     (if \<not> covers bh mr goal cs k then bestCover st
      else case bestCover st of
             None \<Rightarrow> Some (maskRelief k cs, k)
           | Some (r, m) \<Rightarrow> if maskRelief k cs < r - selectEpsilon \<or> (\<bar>maskRelief k cs - r\<bar> \<le> selectEpsilon \<and> k < m)
                            then Some (maskRelief k cs, k) else Some (r, m))"
  by (auto simp: exactStep_def covers_def Let_def split: option.split)

lemma search_step:
  assumes "search_ok bh mr goal cs k st"
  shows "search_ok bh mr goal cs (Suc k) (exactStep bh mr goal cs st k)"
proof (cases "covers bh mr goal cs k")
  case False
  then show ?thesis using assms by (auto simp: search_ok_def exactStep_cover less_Suc_eq split: option.splits)
next
  case True
  show ?thesis
  proof (cases "bestCover st")
    case None
    then show ?thesis using assms True less_imp_le [OF selectEpsilon_pos]
      by (auto simp: search_ok_def exactStep_cover less_Suc_eq simp del: selectEpsilon_pos)
  next
    case (Some p)
    obtain r m where p: "p = (r, m)" by force
    then show ?thesis using assms True Some selectEpsilon_pos
      by (auto simp: search_ok_def exactStep_cover less_Suc_eq simp del: selectEpsilon_pos split: if_splits)
  qed
qed

lemma search_run:
  "search_ok bh mr goal cs n (foldl (exactStep bh mr goal cs)
     \<lparr>bestCover = None, bestPartialDelivered = - 1, bestPartialRelief = None, bestPartial = 0\<rparr> [0..<n])"
proof (induction n)
  case (Suc n)
  from search_step [OF Suc] show ?case by simp
qed (simp add: search_ok_def)

subsection \<open>The frontier\<close>

lemma frontier_empties:
  assumes "maxRelief \<le> - 1" "0 < cRelief c"
    "\<forall>st \<in> set frontier. 0 \<le> ssRelief st \<and> ssDelivered st \<le> maxRelief"
  shows "frontierStep maxRelief frontier c = []"
proof -
  have "extendState maxRelief c st = None" if "st \<in> set frontier" for st
    using assms that by (auto simp: extendState_def Let_def selectEpsilon_def)
  then have "List.map_filter (extendState maxRelief c) frontier = []"
    by (induction frontier) (auto simp: List.map_filter_simps)
  moreover have "\<forall>st \<in> set sts. ssDelivered st \<le> - 1 \<Longrightarrow> pruneLoop (- 1) sts = []" for sts
    using less_imp_le [OF selectEpsilon_pos] by (induction sts) auto
  moreover have "\<forall>st \<in> set (sortBy selection_lt frontier). ssDelivered st \<le> - 1" using assms(1,3) by fastforce
  ultimately have "pruneLoop (- 1) (sortBy selection_lt (frontier @ List.map_filter (extendState maxRelief c) frontier)) = []"
    by simp
  then show ?thesis by (simp add: frontierStep_def boundFrontier_def)
qed

lemma frontier_nil: "foldl (frontierStep m) [] cs = []"
  by (induction cs) (simp_all add: frontierStep_def boundFrontier_def sortBy_def List.map_filter_simps)

subsection \<open>Commands of the saver\<close>

lemma map_filter_in: "t \<in> set (List.map_filter f xs) \<Longrightarrow> \<exists>x \<in> set xs. f x = Some t"
  by (induction xs) (auto simp: List.map_filter_simps split: option.splits)

lemma bounds_within: "- dischargeCap l \<le> fst (fuseTargetBounds r l)" "snd (fuseTargetBounds r l) \<le> chargeCap l"
  by (auto simp: fuseTargetBounds_def Let_def case_prod_beta)

lemma current_safe:
  assumes "fuseSnapshotStillCurrent store s t0 bats ts"
  shows "list_all (safeCommand store s) ts"
proof -
  have all: "list_all (\<lambda>t. case mget bats (Driver t) of None \<Rightarrow> False | Some _ \<Rightarrow>
      (case Get (Driver t) DerBattery store of None \<Rightarrow> False
       | Some r \<Rightarrow> let (lower, upper) = fuseTargetBounds r (limitsOf s (Driver t))
                 in \<not> (TargetW t < lower \<or> TargetW t > upper))) ts"
    using assms unfolding fuseSnapshotStillCurrent_def
    by (cases "Get (SiteMeterDriver s) DerMeter store") (simp_all split: if_splits)
  have "\<exists>r. Get (Driver t) DerBattery store = Some r \<and> fst (fuseTargetBounds r (limitsOf s (Driver t))) \<le> TargetW t
      \<and> TargetW t \<le> snd (fuseTargetBounds r (limitsOf s (Driver t)))" if "t \<in> set ts" for t
    using all that
    by (cases "mget bats (Driver t)"; cases "Get (Driver t) DerBattery store")
       (auto simp: list_all_iff case_prod_beta not_less dest!: bspec)
  then show ?thesis unfolding list_all_iff safeCommand_def
    using bounds_within bounds_discharge by (meson le_less_trans order_trans)
qed

lemma force_frame: "guardFrame s (snd (forceFuseDischargeWithSnapshot bats meter phases caps f ts s))"
  by (simp add: forceFuseDischargeWithSnapshot_def Let_def case_prod_beta reliefParts_frame)

lemma saver_result:
  assumes "fuseSaverAtLivePower store caps f s = Some ((out, liveTs), s')"
  shows "guardFrame s s' \<and> list_all (safeCommand store s') out"
  using assms
  by (auto simp: fuseSaverAtLivePower_def fuseReliefFromSnapshot_def Let_def case_prod_beta current_safe
      intro: guardFrame_trans [OF reliefParts_frame force_frame] reliefParts_frame split: option.splits if_splits)

lemma stop_safe:
  assumes "list_all (safeCommand store s) ts" "(out, s') = stopFullBatteries store caps ts s"
  shows "list_all (safeCommand store s) out"
    "t \<in> set out \<Longrightarrow> BatteryChargePaused (Driver t) s' \<Longrightarrow> TargetW t \<le> 0"
    "DriverLimits s' = DriverLimits s" "batteryChargeFull s' = batteryChargeFull s"
proof -
  let ?isSeen = "\<lambda>name. list_ex (\<lambda>t. Driver t = name) ts"
  have stop: "safeCommand store s \<lparr>Driver = d, TargetW = 0, Clamped = True\<rparr>" for d
    using caps_nonneg(1) [of "limitsOf s d"] caps_nonneg(2) [of "limitsOf s d"] by (simp add: safeCommand_def)
  have loop: "list_all (safeCommand store s) us \<Longrightarrow> list_all (safeCommand store s) (fst (stopLoop store isSeen names (us, st)))
      \<and> DriverLimits (snd (stopLoop store isSeen names (us, st))) = DriverLimits st
      \<and> batteryChargeFull (snd (stopLoop store isSeen names (us, st))) = batteryChargeFull st" for isSeen names us st
    by (induction names arbitrary: us st) (auto simp: stop)
  note l = loop [OF assms(1), of ?isSeen "map fst caps" s]
  have eq: "out = floorFullBatteryCharge s' (fst (stopLoop store ?isSeen (map fst caps) (ts, s)))"
    "s' = snd (stopLoop store ?isSeen (map fst caps) (ts, s))"
    using assms(2) by (simp_all add: stopFullBatteries_def Let_def case_prod_beta)
  show "list_all (safeCommand store s) out" unfolding eq(1)
    by (rule safe_pass [OF floor_full.pass_toward_zero]) (use l in simp)
  show "t \<in> set out \<Longrightarrow> BatteryChargePaused (Driver t) s' \<Longrightarrow> TargetW t \<le> 0"
    using floorFull_closed [of t s'] unfolding eq(1) by force
  show "DriverLimits s' = DriverLimits s" "batteryChargeFull s' = batteryChargeFull s"
    using l by (simp_all add: eq(2))
qed

lemma early_exit_safe:
  assumes "fuseSaverEarlyExit store caps f s = Some (out, s')"
  shows "list_all (safeCommand store s) out"
    "t \<in> set out \<Longrightarrow> BatteryChargePaused (Driver t) s' \<Longrightarrow> TargetW t \<le> 0"
proof -
  obtain o1 l1 s1 where o1: "fuseSaverAtLivePower store caps f s = Some ((o1, l1), s1)"
    using assms by (auto simp: fuseSaverEarlyExit_def split: option.splits)
  obtain o2 s2 where o2: "(o2, s2) = stopFullBatteries store caps o1 s1" by (metis surj_pair)
  have r: "guardFrame s s1" "list_all (safeCommand store s1) o1" using saver_result [OF o1] by simp_all
  have lim: "limitsOf s1 = limitsOf s" using guardFrame_keeps(1) [OF r(1)] by (auto simp: limitsOf_def)
  have out: "out = o2" "batteryChargeFull s' = batteryChargeFull s2"
    using assms o1 by (auto simp: fuseSaverEarlyExit_def o2 [symmetric] Let_def recordFuseRelief_def split: if_splits)
  note st = stop_safe [OF r(2) o2]
  have "safeCommand store s1 = safeCommand store s" by (auto simp: safeCommand_def lim)
  then show "list_all (safeCommand store s) out" using st(1) out(1) by simp
  show "t \<in> set out \<Longrightarrow> BatteryChargePaused (Driver t) s' \<Longrightarrow> TargetW t \<le> 0"
    using st(2) [of t] out by (simp add: BatteryChargePaused_def)
qed

lemma baseline_returns:
  assumes "length caps \<le> maxExactCandidates"
  shows "(fuseSafeBaselineForRelief raw (fst (snd (fleetAtLivePower store caps lims))) bats st caps a b = None) = False"
proof -
  let ?safe = "fst (snd (fleetAtLivePower store caps lims))"
  let ?all = "List.map_filter (asCandidate raw bats st caps) ?safe"
  have "length ?safe \<le> length (liveReadings store caps)"
    by (simp add: fleetAtLivePower_def Let_def length_map_filter)
  moreover have "length (liveReadings store caps) \<le> length caps"
    unfolding liveReadings_def by (rule length_map_filter)
  ultimately have "length ?all \<le> maxExactCandidates"
    using length_map_filter [of "asCandidate raw bats st caps" ?safe] assms by linarith
  then have "length (filter (\<lambda>c. \<not> cRelief c \<le> 0) ?all) \<le> maxExactCandidates"
    using length_filter_le order_trans by blast
  then show ?thesis by (simp add: fuseSafeBaselineForRelief_def Let_def)
qed

lemma early_exit_returns:
  assumes "length caps \<le> maxExactCandidates"
  shows "\<exists>out s'. fuseSaverEarlyExit store caps fuseMaxW s = Some (out, s')"
proof -
  have "(fuseSaverAtLivePower store caps fuseMaxW s = None) = False"
    by (simp add: fuseSaverAtLivePower_def Let_def case_prod_beta baseline_returns [OF assms] split: option.split)
  then obtain r where "fuseSaverAtLivePower store caps fuseMaxW s = Some r" by auto
  then show ?thesis by (cases r) (simp add: fuseSaverEarlyExit_def Let_def case_prod_beta)
qed

section \<open>Properties\<close>

text \<open>C26: Up to twelve candidates the saver's choice is the least that does the job: when some choice of
  batteries covers the relief asked for without exporting past the ceiling, the chosen one does too,
  and no covering choice gives less relief by more than a nanowatt; the choice is a choice of
  candidates.\<close>

theorem exact_relief_minimal:
  assumes "m = exactSelect baselineHeadroom maxRelief goal cs" "sub < 2 ^ length cs"
    "covers baselineHeadroom maxRelief goal cs sub"
  shows "covers baselineHeadroom maxRelief goal cs m \<and> maskRelief m cs \<le> maskRelief sub cs + selectEpsilon
    \<and> m < 2 ^ length cs"
  using search_run [of baselineHeadroom maxRelief goal cs "2 ^ length cs"] assms
  by (auto simp: search_ok_def exactSelect_def Let_def split: option.splits)

definition twoCandidates :: "candidate list" where
  "twoCandidates = [\<lparr>cTarget = \<lparr>Driver = ''a'', TargetW = 0, Clamped = True\<rparr>, cRelief = 1000, cHeadroom = 0\<rparr>,
     \<lparr>cTarget = \<lparr>Driver = ''b'', TargetW = 0, Clamped = True\<rparr>, cRelief = 3000, cHeadroom = 0\<rparr>]"

theorem exact_relief_minimal_witness:
  "covers 0 9000 2000 twoCandidates (exactSelect 0 9000 2000 twoCandidates)
   \<and> maskRelief (exactSelect 0 9000 2000 twoCandidates) twoCandidates \<le> 3000 + selectEpsilon"
proof -
  have "maskRelief 2 twoCandidates = 3000" "covers 0 9000 2000 twoCandidates 2"
    by (simp_all add: covers_def maskDelivered_def maskRelief_def chosen_def twoCandidates_def selectEpsilon_def)
  with exact_relief_minimal [OF refl, of 2 twoCandidates 0 9000 2000] show ?thesis by (simp add: twoCandidates_def)
qed

text \<open>The saver is as safe as an ordinary dispatch: a command it sends is inside the driver's limits and
  inside what the battery's current reading allows, discharges only a battery with a known charge
  level, and never charges a paused one.\<close>

theorem fuse_saver_commands_safe:
  assumes "fuseSaverEarlyExit store caps fuseMaxW s = Some (out, s')" "t \<in> set out"
  shows "- dischargeCap (limitsOf s (Driver t)) \<le> TargetW t \<and> TargetW t \<le> chargeCap (limitsOf s (Driver t))
    \<and> (TargetW t < 0 \<longrightarrow> (\<exists>r. Get (Driver t) DerBattery store = Some r \<and> SoC r \<noteq> None))
    \<and> (BatteryChargePaused (Driver t) s' \<longrightarrow> TargetW t \<le> 0)"
  using early_exit_safe [OF assms(1)] assms(2) by (auto simp: list_all_iff safeCommand_def)

theorem fuse_saver_commands_safe_witness:
  "\<exists>t out s'. fuseSaverEarlyExit (fullBattery 1) [(''b'', 10000)] 17250
      ((NewState 0 50 ''m'' (\<lambda>_. 0) 0)\<lparr>batteryChargeFull := [(''b'', True)]\<rparr>) = Some (out, s')
    \<and> t \<in> set out \<and> TargetW t \<le> 5000"
proof -
  let ?s = "(NewState 0 50 ''m'' (\<lambda>_. 0) 0)\<lparr>batteryChargeFull := [(''b'', True)]\<rparr>"
  let ?t = "\<lparr>Driver = ''b'', TargetW = 0, Clamped = True\<rparr>"
  have "fuseSaverAtLivePower (fullBattery 1) [(''b'', 10000)] 17250 ?s = Some (([], []), ?s)"
    by (simp add: fuseSaverAtLivePower_def Get_def fullBattery_def NewState_def key_def)
  moreover have "needsStop (fullBattery 1) isSeen ?s ''b'' = (\<not> isSeen ''b'')" for isSeen
    by (simp add: needsStop_def BatteryChargePaused_def fullBattery_simps mgetD_def RecordSuccess_def newHealth_def IsOnline_def)
  ultimately obtain s' where e: "fuseSaverEarlyExit (fullBattery 1) [(''b'', 10000)] 17250 ?s = Some ([?t], s')"
    by (simp add: fuseSaverEarlyExit_def stopFullBatteries_def floorFullBatteryCharge_def Let_def)
  have "chargeCap (limitsOf ?s ''b'') = 5000"
    by (simp add: limitsOf_def NewState_def chargeCap_def effectivePowerLimit_def noLimits_def MaxCommandW_def)
  with fuse_saver_commands_safe [OF e, of ?t] e show ?thesis by auto
qed

text \<open>The saver always returns on a site with at most twelve batteries.\<close>

theorem fuse_saver_returns:
  assumes "length caps \<le> maxExactCandidates"
  shows "\<exists>out s'. fuseSaverEarlyExit store caps fuseMaxW s = Some (out, s')"
  by (rule early_exit_returns [OF assms])

theorem fuse_saver_returns_witness:
  "\<exists>out s'. fuseSaverEarlyExit (fullBattery 1) [(''b'', 10000)] 17250 (NewState 0 50 ''m'' (\<lambda>_. 0) 0) = Some (out, s')"
  by (rule fuse_saver_returns) (simp add: maxExactCandidates_def)

text \<open>C37: With more than twelve batteries to cap and an export already past its ceiling by a watt or more, the
  frontier empties and the selection indexes it: the code panics.\<close>

theorem frontier_panics:
  assumes "maxRelief \<le> - 1"
    "maxExactCandidates < length (filter (\<lambda>c. \<not> cRelief c \<le> 0) (List.map_filter (asCandidate raw bats s caps) safe))"
  shows "fuseSafeBaselineForRelief raw safe bats s caps requiredRelief maxRelief = None"
proof -
  let ?cs = "sortBy candidate_lt (filter (\<lambda>c. \<not> cRelief c \<le> 0) (List.map_filter (asCandidate raw bats s caps) safe))"
  have pos: "\<forall>c \<in> set ?cs. 0 < cRelief c" by auto
  obtain c cs where cs: "?cs = c # cs" using assms(2) by (metis length_sortBy length_0_conv neq_Nil_conv not_less_zero)
  have "frontierStep maxRelief [\<lparr>ssRelief = 0, ssDelivered = min w maxRelief, ssSelected = []\<rparr>] c = []" for w
    by (rule frontier_empties [OF assms(1)]) (use pos cs in auto)
  then have "frontierSelect w maxRelief goal ?cs = None" for w goal
    by (simp add: frontierSelect_def cs frontier_nil)
  then show ?thesis using assms(2) by (simp add: fuseSafeBaselineForRelief_def Let_def)
qed

definition thirteen :: "real \<Rightarrow> DispatchTarget list" where
  "thirteen w = map (\<lambda>n. \<lparr>Driver = replicate n (CHR ''b''), TargetW = w, Clamped = False\<rparr>) [1..<14]"

lemma thirteen_find: "n \<in> {1..<14} \<Longrightarrow> find (\<lambda>r. Driver r = replicate n (CHR ''b'')) (thirteen w)
    = Some \<lparr>Driver = replicate n (CHR ''b''), TargetW = w, Clamped = False\<rparr>"
proof -
  assume n: "n \<in> {1..<14}"
  have "thirteen w ! j = \<lparr>Driver = replicate (Suc j) (CHR ''b''), TargetW = w, Clamped = False\<rparr>" if "j < 13" for j
    using that by (simp add: thirteen_def)
  moreover obtain m where "n = Suc m" "m < 13" using n by (cases n) auto
  moreover have "length (thirteen w) = 13" by (simp add: thirteen_def)
  ultimately show ?thesis by (auto simp: find_Some_iff intro!: exI [of _ m])
qed

theorem frontier_panics_witness:
  "fuseSafeBaselineForRelief (thirteen 4000) (thirteen 3000) [] (NewState 0 50 ''m'' (\<lambda>_. 0) 0) [] 500 (- 2) = None"
proof (rule frontier_panics)
  let ?s = "NewState 0 50 ''m'' (\<lambda>_. 0) 0"
  have "asCandidate (thirteen 4000) [] ?s [] t = Some \<lparr>cTarget = t, cRelief = 1000, cHeadroom = 0\<rparr>"
    if t: "t \<in> set (thirteen 3000)" for t
  proof -
    obtain n where "n \<in> {1..<14}" "t = \<lparr>Driver = replicate n (CHR ''b''), TargetW = 3000, Clamped = False\<rparr>"
      using t by (auto simp: thirteen_def)
    then show ?thesis by (simp add: asCandidate_def thirteen_find commandHeadroomW_def mgetD_def)
  qed
  then have "List.map_filter (asCandidate (thirteen 4000) [] ?s []) (thirteen 3000)
      = map (\<lambda>t. \<lparr>cTarget = t, cRelief = 1000, cHeadroom = 0\<rparr>) (thirteen 3000)"
    by (simp add: List.map_filter_def cong: map_cong filter_cong)
  then show "maxExactCandidates < length (filter (\<lambda>c. \<not> cRelief c \<le> 0)
      (List.map_filter (asCandidate (thirteen 4000) [] ?s []) (thirteen 3000)))"
    by (simp add: thirteen_def maxExactCandidates_def comp_def)
qed simp

end
