(* ===== verification/Surplus.thy ===== *)
theory Surplus
  imports Plan_Intent Dispatch_Split
begin

text \<open>
  The surplus arithmetic of a control tick (\<open>dispatch.go\<close>): the live vehicle flow, the part of the
  surplus a surplus-only car still has a claim on, and the room below the charge level up to which
  a battery may take live PV. Powers are site-signed, import positive; the readings have passed the
  store and are finite.
\<close>

section \<open>Vehicles\<close>

record vehiclePowerFlow =
  vfLive :: bool
  EVChargeW :: real
  V2XSignedW :: real
  V2XChargeW :: real
  V2XDischargeW :: real

definition noFlow :: vehiclePowerFlow where
  "noFlow = \<lparr>vfLive = False, EVChargeW = 0, V2XSignedW = 0, V2XChargeW = 0, V2XDischargeW = 0\<rparr>"

text \<open>Flows under a watt count as none.\<close>

definition underWatt :: "real \<Rightarrow> real" where "underWatt w = (if \<bar>w\<bar> < 1 then 0 else w)"

definition liveReadingsW :: "DerType \<Rightarrow> Store \<Rightarrow> real list" where
  "liveReadingsW t store =
     map (\<lambda>r. fval (SmoothedW r))
       (filter (\<lambda>r. TelemetryLive (DriverHealthOf (rDriver r) store)) (ReadingsByType t store))"

definition onlineVehiclePowerFlow :: "Store \<Rightarrow> vehiclePowerFlow" where
  "onlineVehiclePowerFlow store =
     (let ev = liveReadingsW DerEV store; v2x = liveReadingsW DerV2X store
      in \<lparr>vfLive = (ev \<noteq> [] \<or> v2x \<noteq> []),
          EVChargeW = underWatt (sum_list (map (\<lambda>w. if w > 0 then w else 0) ev)),
          V2XSignedW = underWatt (sum_list v2x),
          V2XChargeW = underWatt (sum_list (map (\<lambda>w. if w > 0 then w else 0) v2x)),
          V2XDischargeW = underWatt (sum_list (map (\<lambda>w. if w < 0 then w else 0) v2x))\<rparr>)"

section \<open>The car's claim on the surplus\<close>

record surplusAccounting =
  saRawGridW :: real
  saEffectiveGridW :: real
  saCurrentBatteryW :: real
  saReserveRemainingW :: real
  saEVActive :: bool

definition evReserveRemainingW :: "State \<Rightarrow> real" where
  "evReserveRemainingW s =
     (if EVSurplusOnlyReserveW s \<le> 0 then 0
      else let remaining = EVSurplusOnlyReserveW s - EVSurplusOnlyChargingW s
           in if remaining < 0 then 0 else remaining)"

definition newSurplusAccounting :: "real \<Rightarrow> real \<Rightarrow> real \<Rightarrow> State \<Rightarrow> surplusAccounting" where
  "newSurplusAccounting rawW effectiveW batteryW s =
     \<lparr>saRawGridW = rawW, saEffectiveGridW = effectiveW, saCurrentBatteryW = batteryW,
      saReserveRemainingW = evReserveRemainingW s, saEVActive = (EVSurplusOnlyChargingW s > evActiveThresholdW)\<rparr>"

definition rawMeterWWithoutBattery :: "surplusAccounting \<Rightarrow> real" where
  "rawMeterWWithoutBattery a = saRawGridW a - saCurrentBatteryW a"

definition trueMeterExportWithoutBatteryW :: "surplusAccounting \<Rightarrow> real" where
  "trueMeterExportWithoutBatteryW a =
     (let exportW = - rawMeterWWithoutBattery a in if exportW < 0 then 0 else exportW)"

definition idleChargeOnlySurplusW :: "surplusAccounting \<Rightarrow> real \<Rightarrow> real" where
  "idleChargeOnlySurplusW a thresholdW =
     (let chargeW = trueMeterExportWithoutBatteryW a - saReserveRemainingW a
      in if chargeW \<le> thresholdW then 0 else chargeW)"

definition effectiveChargeSurplusW :: "surplusAccounting \<Rightarrow> real" where
  "effectiveChargeSurplusW a =
     (let surplusW = - saEffectiveGridW a + saCurrentBatteryW a in if surplusW < 0 then 0 else surplusW)"

definition evCanUseReserve :: "surplusAccounting \<Rightarrow> bool" where
  "evCanUseReserve a =
     (if saReserveRemainingW a \<le> 0 then False
      else saEVActive a \<or> effectiveChargeSurplusW a \<ge> saReserveRemainingW a)"

definition chargeCeilingAfterEVReserveW :: "surplusAccounting \<Rightarrow> real" where
  "chargeCeilingAfterEVReserveW a =
     (let surplus = effectiveChargeSurplusW a
      in if \<not> evCanUseReserve a then surplus
         else let c = surplus - saReserveRemainingW a in if c < 0 then 0 else c)"

definition plannerSelfIdleDesiredTotal :: "surplusAccounting \<Rightarrow> State \<Rightarrow> real" where
  "plannerSelfIdleDesiredTotal a s =
     idleChargeOnlySurplusW a (if PVSurplusAbsorbThresholdW s > 0 then PVSurplusAbsorbThresholdW s else IdleGateThresholdW)"

definition unexpectedIdleExportBeyondPlanW :: "surplusAccounting \<Rightarrow> SlotDirective \<Rightarrow> real \<Rightarrow> real" where
  "unexpectedIdleExportBeyondPlanW a dir thresholdW =
     (let unexpectedW = unexpectedExportBeyondPlanW (- trueMeterExportWithoutBatteryW a) dir - saReserveRemainingW a
      in if unexpectedW \<le> thresholdW then 0 else unexpectedW)"

section \<open>Room for live PV\<close>

definition pvSurplusAbsorbCap :: "State \<Rightarrow> SlotDirective \<Rightarrow> real" where
  "pvSurplusAbsorbCap s dir =
     (let operatorCap = fval (ClampFraction (Fin (PVSurplusAbsorbSoCCap s)));
          plannerCap = fval (ClampFraction (LivePVSurplusSoCCap dir))
      in if operatorCap > 0 then operatorCap else if plannerCap > 0 then plannerCap else 0)"

definition pvSurplusAbsorbHeadroomW :: "batteryInfo list \<Rightarrow> real \<Rightarrow> real \<Rightarrow> real" where
  "pvSurplusAbsorbHeadroomW bats capPct remainingS =
     (if capPct \<le> 0 then 0
      else
        let storedWh = sum_list (map (\<lambda>b. soc b * capacityWh b) bats);
            totalCapWh = sum_list (map capacityWh bats)
        in if totalCapWh \<le> 0 then 0
           else
             let headroomWh = capPct * totalCapWh - storedWh
             in if headroomWh \<le> 0 then 0
                else headroomWh * 3600 / (if remainingS < 60 then 60 else remainingS))"

section \<open>Lemmas\<close>

lemma surplus_nonneg [simp]:
  "0 \<le> evReserveRemainingW s" "0 \<le> trueMeterExportWithoutBatteryW a" "0 \<le> effectiveChargeSurplusW a"
  "0 \<le> chargeCeilingAfterEVReserveW a"
  by (simp_all add: evReserveRemainingW_def trueMeterExportWithoutBatteryW_def effectiveChargeSurplusW_def
      chargeCeilingAfterEVReserveW_def Let_def)

lemma pvSurplusAbsorbCap_fraction: "0 \<le> pvSurplusAbsorbCap s dir" "pvSurplusAbsorbCap s dir \<le> 1"
proof -
  obtain x y where "ClampFraction (Fin (PVSurplusAbsorbSoCCap s)) = Fin x" "0 \<le> x" "x \<le> 1"
    "ClampFraction (LivePVSurplusSoCCap dir) = Fin y" "0 \<le> y" "y \<le> 1"
    using ClampFraction_cases by metis
  then show "0 \<le> pvSurplusAbsorbCap s dir" "pvSurplusAbsorbCap s dir \<le> 1"
    by (simp_all add: pvSurplusAbsorbCap_def Let_def)
qed

section \<open>Properties\<close>

text \<open>A car that charges on surplus only keeps its claim: the battery's charge ceiling and the part of
  the reserve the car has still to take never add up to more than the surplus the site has, unless the
  battery's ceiling is 0; a reserve no car can use is given to the battery in full; and the ceiling is
  never above the surplus, so charging to it never imports.\<close>

theorem ev_reserve_kept:
  assumes "a = newSurplusAccounting rawW gridW batteryW s" "c = chargeCeilingAfterEVReserveW a"
  shows "gridW + (c - batteryW) \<le> max 0 (gridW - batteryW)
    \<and> (evCanUseReserve a \<longrightarrow> c = 0 \<or> c + evReserveRemainingW s = batteryW - gridW)
    \<and> (\<not> evCanUseReserve a \<longrightarrow> c = max 0 (batteryW - gridW))"
  using assms(2) surplus_nonneg(1) [of s]
  by (auto simp: assms(1) newSurplusAccounting_def chargeCeilingAfterEVReserveW_def evCanUseReserve_def
      effectiveChargeSurplusW_def Let_def max_def simp del: surplus_nonneg split: if_splits)

theorem ev_reserve_kept_witness:
  "chargeCeilingAfterEVReserveW (newSurplusAccounting 0 (- 5000) 0
     ((NewState 0 50 ''m'' (\<lambda>_. 0) 0)\<lparr>EVSurplusOnlyReserveW := 4000\<rparr>)) = 1000"
  using ev_reserve_kept [OF refl refl, of 0 "- 5000" 0 "(NewState 0 50 ''m'' (\<lambda>_. 0) 0)\<lparr>EVSurplusOnlyReserveW := 4000\<rparr>"]
  by (simp add: evCanUseReserve_def newSurplusAccounting_def evReserveRemainingW_def NewState_def
      effectiveChargeSurplusW_def chargeCeilingAfterEVReserveW_def Let_def)

end
