(* ===== verification/Storage_Plan.thy ===== *)
theory Storage_Plan
  imports Plan_Intent Dispatch_Split
begin

text \<open>
  \<open>storage_plan.go\<close>: a plan with energy per battery. Interchangeable batteries share the live fleet
  power by the energy each can still give or take; other fleets follow each battery's own budget in
  the direction the live tot has. The loop of \<^emph>\<open>shareByAvailableEnergy\<close> pins batteries at their power
  limit until the rest fits; each round pins at least one, so it ends.
\<close>

section \<open>Interchangeable batteries\<close>

definition interchangeablePowerSpread :: real where "interchangeablePowerSpread = 5 / 100"

definition within_spread :: "real list \<Rightarrow> bool" where
  "within_spread xs = (foldl max (hd xs) (tl xs) - foldl min (hd xs) (tl xs) \<le> interchangeablePowerSpread * foldl max (hd xs) (tl xs))"

definition interchangeableStorages :: "batteryInfo list \<Rightarrow> bool" where
  "interchangeableStorages bats =
     (bats \<noteq> [] \<and> list_all (\<lambda>b. capacityWh b > 0) bats
      \<and> within_spread (map (\<lambda>b. batChargeCap b / capacityWh b) bats)
      \<and> within_spread (map (\<lambda>b. batDischargeCap b / capacityWh b) bats))"

text \<open>The energy a battery can still give or take, in the direction of \<open>desired\<close>.\<close>

definition energyRoom :: "real \<Rightarrow> batteryInfo \<Rightarrow> real" where
  "energyRoom desired b =
     (if desired < 0 \<and> \<not> dischargeBlocked b then capacityWh b * max 0 (soc b - dischargeFloorSoC)
      else if desired > 0 \<and> \<not> chargeBlocked b then capacityWh b * max 0 (1 - soc b)
      else 0)"

definition directionCap :: "real \<Rightarrow> batteryInfo \<Rightarrow> real" where
  "directionCap desired b = (if desired < 0 then batDischargeCap b else batChargeCap b)"

text \<open>One battery in the loop: its cap, the room it still has, and the power it got.\<close>

record shareSlot =
  slotCap :: real
  slotRoom :: real
  slotW :: real
  slotClamped :: bool

definition mustPin :: "real \<Rightarrow> real \<Rightarrow> shareSlot \<Rightarrow> bool" where
  "mustPin left tot x = (slotRoom x > 0 \<and> left * slotRoom x / tot > slotCap x)"

definition pinSlot :: "real \<Rightarrow> real \<Rightarrow> shareSlot \<Rightarrow> shareSlot" where
  "pinSlot left tot x =
     (if mustPin left tot x then x\<lparr>slotW := slotCap x, slotClamped := True, slotRoom := 0\<rparr> else x)"

definition fillSlot :: "real \<Rightarrow> real \<Rightarrow> shareSlot \<Rightarrow> shareSlot" where
  "fillSlot left tot x = (if slotRoom x > 0 then x\<lparr>slotW := left * slotRoom x / tot\<rparr> else x)"

lemma filter_length_lt:
  "x \<in> set xs \<Longrightarrow> P x \<Longrightarrow> Q x \<Longrightarrow> length (filter (\<lambda>x. P x \<and> \<not> Q x) xs) < length (filter P xs)"
proof (induction xs)
  case (Cons y ys)
  have "length (filter (\<lambda>x. P x \<and> \<not> Q x) ys) \<le> length (filter P ys)" by (induction ys) auto
  with Cons show ?case by auto
qed simp

function shareLoop :: "real \<Rightarrow> shareSlot list \<Rightarrow> shareSlot list" where
  "shareLoop left xs =
     (let tot = sum_list (map slotRoom xs)
      in if \<not> left > 0 \<or> tot \<le> 0 then xs
         else if \<not> list_ex (mustPin left tot) xs then map (fillSlot left tot) xs
         else shareLoop (left - sum_list (map slotCap (filter (mustPin left tot) xs))) (map (pinSlot left tot) xs))"
  by pat_completeness auto
termination
proof (relation "measure (\<lambda>(_, xs). length (filter (\<lambda>x. slotRoom x > 0) xs))")
  fix left :: real and xs and tot assume "\<not> \<not> list_ex (mustPin left tot) xs"
  then obtain x where x: "x \<in> set xs" "mustPin left tot x" by (auto simp: list_ex_iff)
  have "filter (\<lambda>x. slotRoom x > 0) (map (pinSlot left tot) xs)
      = map (pinSlot left tot) (filter (\<lambda>x. slotRoom x > 0 \<and> \<not> mustPin left tot x) xs)"
    by (induction xs) (auto simp: pinSlot_def)
  moreover have "length (filter (\<lambda>x. slotRoom x > 0 \<and> \<not> mustPin left tot x) xs) < length (filter (\<lambda>x. slotRoom x > 0) xs)"
    using x filter_length_lt [of x xs "\<lambda>x. slotRoom x > 0" "mustPin left tot"] by (simp add: mustPin_def)
  ultimately show "((left - sum_list (map slotCap (filter (mustPin left tot) xs)), map (pinSlot left tot) xs), left, xs)
      \<in> measure (\<lambda>(_, xs). length (filter (\<lambda>x. slotRoom x > 0) xs))" by simp
qed simp

declare shareLoop.simps [simp del]

definition startSlot :: "real \<Rightarrow> batteryInfo \<Rightarrow> shareSlot" where
  "startSlot desired b = \<lparr>slotCap = directionCap desired b, slotRoom = energyRoom desired b, slotW = 0,
     slotClamped = (desired \<noteq> 0 \<and> energyRoom desired b \<le> 0)\<rparr>"

lemma startSlot_simps [simp]:
  "slotCap (startSlot desired b) = directionCap desired b" "slotRoom (startSlot desired b) = energyRoom desired b"
  "slotW (startSlot desired b) = 0"
  by (simp_all add: startSlot_def)

definition shareByAvailableEnergy :: "batteryInfo list \<Rightarrow> real \<Rightarrow> DispatchTarget list" where
  "shareByAvailableEnergy bats desired =
     map2 (\<lambda>b x. let (w, clamped) = clampWithSoC (if desired < 0 then - slotW x else slotW x) b
                 in \<lparr>Driver = driver b, TargetW = w, Clamped = (slotClamped x \<or> clamped)\<rparr>)
       bats (shareLoop \<bar>desired\<bar> (map (startSlot desired) bats))"

section \<open>Budgets per battery\<close>

text \<open>\<open>maps.Equal\<close>.\<close>

definition mapsEqual :: "(string, real) gomap \<Rightarrow> (string, real) gomap \<Rightarrow> bool" where
  "mapsEqual m1 m2 = (length m1 = length m2 \<and> list_all (\<lambda>(k, v). mget m2 k = Some v) m1)"

definition slotElapsed :: "SlotDirective \<Rightarrow> time \<Rightarrow> real" where
  "slotElapsed dir now =
     max 0 (min 1 (seconds (tsub now (SlotStart dir)) / seconds (tsub (SlotEnd dir) (SlotStart dir))))"

definition measuredDelivery :: "batteryInfo list \<Rightarrow> time \<Rightarrow> storageSlotDelivery \<Rightarrow> (string, real) gomap" where
  "measuredDelivery bats now d =
     (let dt = hours (tsub now (sdTick d))
      in if dt > 0
         then foldl (\<lambda>m b. if mget (sdBudget d) (driver b) = None then m
                           else mset_at (driver b) (mgetD 0 m (driver b) + currentW b * dt) m) (sdDelivered d) bats
         else sdDelivered d)"

text \<open>A replan inside the slot credits each battery at least its share of the time already spent.\<close>

definition creditedWh :: "(string, real) gomap \<Rightarrow> real \<Rightarrow> string \<Rightarrow> real \<Rightarrow> real \<Rightarrow> real" where
  "creditedWh budget elapsed ident wh actual =
     (if mget budget ident = None \<or> wh * mgetD 0 budget ident < 0 then wh * elapsed
      else if wh > 0 then max actual (wh * elapsed)
      else if wh < 0 then min actual (wh * elapsed)
      else actual)"

definition stepDelivery :: "SlotDirective \<Rightarrow> time \<Rightarrow> batteryInfo list \<Rightarrow> storageSlotDelivery \<Rightarrow> storageSlotDelivery" where
  "stepDelivery dir now bats d =
     (let elapsed = slotElapsed dir now;
          plan = StorageEnergyWh dir;
          reset = (sdStart d \<noteq> SlotStart dir \<or> isZero (sdTick d) \<or> tsub now (sdTick d) \<ge> 5 * minute);
          delivered =
            (if reset then map (\<lambda>(ident, wh). (ident, wh * elapsed)) plan
             else
               let m = measuredDelivery bats now d
               in if sdDecision d \<noteq> DecisionID dir \<or> \<not> mapsEqual (sdBudget d) plan \<or> sdEnd d \<noteq> SlotEnd dir
                  then foldl (\<lambda>m (ident, wh). mset_at ident (creditedWh (sdBudget d) elapsed ident wh (mgetD 0 m ident)) m) m plan
                  else m)
      in \<lparr>sdStart = SlotStart dir, sdEnd = SlotEnd dir, sdTick = now, sdDecision = DecisionID dir,
          sdBudget = plan, sdDelivered = delivered\<rparr>)"

text \<open>What a battery's own budget asks of it now, in the direction of the live total only.\<close>

definition budgetW :: "storageSlotDelivery \<Rightarrow> real \<Rightarrow> real \<Rightarrow> batteryInfo \<Rightarrow> real" where
  "budgetW d remainingS desired b =
     (let wh = mgetD 0 (sdBudget d) (driver b);
          rest = wh - mgetD 0 (sdDelivered d) (driver b);
          remaining = (if wh > 0 then max 0 rest else if wh < 0 then min 0 rest else 0);
          w = (if remainingS > 1 / 2 then remaining * 3600 / remainingS else 0);
          w = (if w * desired \<le> 0 \<or> (w > 0 \<and> chargeBlocked b) \<or> (w < 0 \<and> dischargeBlocked b) then 0 else w)
      in fst (clampWithSoC w b))"

definition budgetTargets :: "storageSlotDelivery \<Rightarrow> real \<Rightarrow> batteryInfo list \<Rightarrow> real \<Rightarrow> DispatchTarget list" where
  "budgetTargets d remainingS bats desired =
     (let tot = sum_list (map (budgetW d remainingS desired) bats);
          k = (if tot * desired > 0 then min 1 \<bar>desired / tot\<bar> else 0)
      in map (\<lambda>b. \<lparr>Driver = driver b, TargetW = budgetW d remainingS desired b * k, Clamped = True\<rparr>) bats)"

definition distributePlannedStorages :: "batteryInfo list \<Rightarrow> real \<Rightarrow> bool \<Rightarrow> State \<Rightarrow> DispatchTarget list option \<times> State" where
  "distributePlannedStorages bats desired manual s =
     (if manual \<or> \<not> IsPlannerMode (Mode s) \<or> PlanStale s \<or> length bats < 2
      then (None, s\<lparr>storageDelivery := noDelivery\<rparr>)
      else
        let now = clock s; ((dir, ok), s) = plannerSelfDirectiveAt now s
        in if \<not> ok \<or> length (StorageEnergyWh dir) < 2 \<or> list_all (\<lambda>(_, wh). \<bar>wh\<bar> < 1 / 1000000) (StorageEnergyWh dir)
           then (None, s\<lparr>storageDelivery := noDelivery\<rparr>)
           else if interchangeableStorages bats
           then (if list_ex socMissing bats then None else Some (shareByAvailableEnergy bats desired),
                 s\<lparr>storageDelivery := noDelivery\<rparr>)
           else if seconds (tsub (SlotEnd dir) (SlotStart dir)) \<le> 0 \<or> now < SlotStart dir \<or> \<not> now < SlotEnd dir
           then (None, s)
           else
             let d = stepDelivery dir now bats (storageDelivery s)
             in (Some (budgetTargets d (seconds (tsub (SlotEnd dir) now)) bats desired), s\<lparr>storageDelivery := d\<rparr>))"

section \<open>The loop shares exactly\<close>

definition slots_ok :: "shareSlot list \<Rightarrow> bool" where
  "slots_ok xs = list_all (\<lambda>x. 0 \<le> slotCap x \<and> 0 \<le> slotRoom x \<and> 0 \<le> slotW x \<and> (slotRoom x > 0 \<longrightarrow> slotW x = 0)) xs"

definition openCap :: "shareSlot list \<Rightarrow> real" where
  "openCap xs = sum_list (map (\<lambda>x. if slotRoom x > 0 then slotCap x else 0) xs)"

lemma slots_ok_pin: "slots_ok xs \<Longrightarrow> slots_ok (map (pinSlot left tot) xs)"
  by (auto simp: slots_ok_def list_all_iff pinSlot_def)

lemma room_sum_zero: "slots_ok xs \<Longrightarrow> sum_list (map slotRoom xs) \<le> 0 \<Longrightarrow> openCap xs = 0"
proof -
  assume ok: "slots_ok xs" and "sum_list (map slotRoom xs) \<le> 0"
  moreover have "0 \<le> sum_list (map slotRoom xs)"
    using ok by (intro sum_list_nonneg) (auto simp: slots_ok_def list_all_iff)
  ultimately have "sum_list (map slotRoom xs) = 0" by simp
  then have "\<forall>x \<in> set xs. slotRoom x = 0"
    using ok sum_list_nonneg_eq_0_iff [of "map slotRoom xs"] by (auto simp: slots_ok_def list_all_iff)
  then show "openCap xs = 0" unfolding openCap_def by (simp cong: map_cong)
qed

lemma shares_sum: "sum_list (map (\<lambda>x. left * slotRoom x / tot) xs) = left * sum_list (map slotRoom xs) / tot"
  by (induction xs) (simp_all add: distrib_left add_divide_distrib)

text \<open>The pinned caps leave something to share.\<close>

lemma pinned_fits:
  assumes "slots_ok xs" "0 < left" "tot = sum_list (map slotRoom xs)" "0 < tot"
  shows "sum_list (map slotCap (filter (mustPin left tot) xs)) \<le> left"
proof -
  have "sum_list (map slotCap (filter (mustPin left tot) xs)) \<le> sum_list (map (\<lambda>x. left * slotRoom x / tot) xs)"
    using assms(1,2,4) by (induction xs) (auto simp: slots_ok_def mustPin_def intro: add_mono add_increasing)
  also have "\<dots> = left * sum_list (map slotRoom xs) / tot" by (rule shares_sum)
  finally show ?thesis using assms(3,4) by simp
qed

lemma pin_sums:
  "slots_ok xs \<Longrightarrow> sum_list (map slotW (map (pinSlot left tot) xs))
     = sum_list (map slotW xs) + sum_list (map slotCap (filter (mustPin left tot) xs))"
  "openCap (map (pinSlot left tot) xs) + sum_list (map slotCap (filter (mustPin left tot) xs)) = openCap xs"
  by (induction xs) (auto simp: slots_ok_def openCap_def pinSlot_def mustPin_def)

lemma fill_sum:
  assumes "slots_ok xs" "0 < left" "tot = sum_list (map slotRoom xs)" "0 < tot" "\<not> list_ex (mustPin left tot) xs"
  shows "sum_list (map slotW (map (fillSlot left tot) xs)) = sum_list (map slotW xs) + left" "left \<le> openCap xs"
proof -
  have "sum_list (map slotW (map (fillSlot left tot) xs)) = sum_list (map slotW xs) + sum_list (map (\<lambda>x. left * slotRoom x / tot) xs)"
    using assms(1) by (induction xs) (auto simp: slots_ok_def fillSlot_def)
  then show "sum_list (map slotW (map (fillSlot left tot) xs)) = sum_list (map slotW xs) + left"
    using assms(3,4) by (simp add: shares_sum)
  have "sum_list (map (\<lambda>x. left * slotRoom x / tot) xs) \<le> openCap xs"
    unfolding openCap_def using assms(1,5)
    by (intro sum_list_mono) (force simp: slots_ok_def mustPin_def list_all_iff list_ex_iff not_less)
  then show "left \<le> openCap xs" using assms(3,4) by (simp add: shares_sum)
qed

lemma shareLoop_sum:
  "slots_ok xs \<Longrightarrow> 0 \<le> left \<Longrightarrow> sum_list (map slotW (shareLoop left xs)) = sum_list (map slotW xs) + min left (openCap xs)"
proof (induction left xs rule: shareLoop.induct)
  case (1 left xs)
  let ?tot = "sum_list (map slotRoom xs)"
  have cap: "0 \<le> openCap xs"
    using "1.prems"(1) unfolding openCap_def by (intro sum_list_nonneg) (auto simp: slots_ok_def list_all_iff)
  consider "left = 0" | "0 < left" "?tot \<le> 0" | "0 < left" "0 < ?tot" "\<not> list_ex (mustPin left ?tot) xs"
    | "0 < left" "0 < ?tot" "list_ex (mustPin left ?tot) xs" using "1.prems"(2) by linarith
  then show ?case
  proof cases
    case 1
    then show ?thesis using cap by (simp add: shareLoop.simps)
  next
    case 2
    then show ?thesis using room_sum_zero [OF "1.prems"(1)] by (simp add: shareLoop.simps)
  next
    case 3
    then show ?thesis using fill_sum [OF "1.prems"(1) _ refl] by (simp add: shareLoop.simps [of left])
  next
    case 4
    let ?P = "sum_list (map slotCap (filter (mustPin left ?tot) xs))"
    have "sum_list (map slotW (shareLoop (left - ?P) (map (pinSlot left ?tot) xs)))
        = sum_list (map slotW (map (pinSlot left ?tot) xs)) + min (left - ?P) (openCap (map (pinSlot left ?tot) xs))"
      using 4 pinned_fits [OF "1.prems"(1) 4(1) refl 4(2)] slots_ok_pin [OF "1.prems"(1)] by (intro "1.IH" [OF refl]) simp_all
    moreover have "shareLoop left xs = shareLoop (left - ?P) (map (pinSlot left ?tot) xs)"
      using 4 by (subst shareLoop.simps) (simp add: Let_def)
    ultimately show ?thesis
      using pin_sums(1) [OF "1.prems"(1), of left ?tot] pin_sums(2) [of left ?tot xs] by (simp add: min_def)
  qed
qed

text \<open>Every battery stays inside its cap, and one without room gets nothing more.\<close>

definition slotKeeps :: "shareSlot \<Rightarrow> shareSlot \<Rightarrow> bool" where
  "slotKeeps x y = (slotW y = slotW x \<or> slotRoom x > 0 \<and> 0 \<le> slotW y \<and> slotW y \<le> slotCap x)"

lemma shareLoop_keeps:
  "slots_ok xs \<Longrightarrow> 0 \<le> left \<Longrightarrow> list_all2 slotKeeps xs (shareLoop left xs)"
proof (induction left xs rule: shareLoop.induct)
  case (1 left xs)
  let ?tot = "sum_list (map slotRoom xs)"
  have same: "list_all2 slotKeeps xs xs" by (simp add: list_all2_refl slotKeeps_def)
  consider "\<not> 0 < left \<or> ?tot \<le> 0" | "0 < left" "0 < ?tot" "\<not> list_ex (mustPin left ?tot) xs"
    | "0 < left" "0 < ?tot" "list_ex (mustPin left ?tot) xs" by linarith
  then show ?case
  proof cases
    case 1
    then show ?thesis using same by (simp add: shareLoop.simps)
  next
    case 2
    then have "slotKeeps x (fillSlot left ?tot x)" if "x \<in> set xs" for x
      using that "1.prems"(1) by (auto simp: slotKeeps_def fillSlot_def mustPin_def list_ex_iff not_less)
    then have "list_all2 slotKeeps xs (map (fillSlot left ?tot) xs)" by (simp add: list_all2_conv_all_nth)
    then show ?thesis using 2 by (simp add: shareLoop.simps [of left])
  next
    case 3
    have "list_all2 slotKeeps (map (pinSlot left ?tot) xs)
        (shareLoop (left - sum_list (map slotCap (filter (mustPin left ?tot) xs))) (map (pinSlot left ?tot) xs))"
      using 3 pinned_fits [OF "1.prems"(1) 3(1) refl 3(2)] slots_ok_pin [OF "1.prems"(1)] by (intro "1.IH" [OF refl]) simp_all
    moreover have "slotKeeps x y" if "slotKeeps (pinSlot left ?tot x) y" "x \<in> set xs" for x y
      using that "1.prems"(1) by (auto simp: slotKeeps_def pinSlot_def mustPin_def slots_ok_def list_all_iff split: if_splits)
    ultimately have "list_all2 slotKeeps xs
        (shareLoop (left - sum_list (map slotCap (filter (mustPin left ?tot) xs))) (map (pinSlot left ?tot) xs))"
      by (auto simp: list_all2_conv_all_nth)
    then show ?thesis using 3 by (subst shareLoop.simps) (simp add: Let_def)
  qed
qed

section \<open>From shares to commands\<close>

lemma energyRoom_nonneg: "0 \<le> capacityWh b \<Longrightarrow> 0 \<le> energyRoom desired b"
  by (simp add: energyRoom_def)

lemma directionCap_nonneg [simp]: "0 \<le> directionCap desired b"
  by (simp add: directionCap_def)

lemma clampWithSoC_zero [simp]: "fst (clampWithSoC 0 b) = 0"
  using bat_caps_nonneg(1) [of b] bat_caps_nonneg(2) [of b] by (simp add: clampWithSoC_def not_less)

text \<open>A share needs no further clamp: it is inside the cap, and only a battery above the floor has one.\<close>

lemma share_unclamped:
  assumes "0 \<le> w" "w \<le> directionCap desired b" "w = 0 \<or> 0 < energyRoom desired b"
  shows "fst (clampWithSoC (if desired < 0 then - w else w) b) = (if desired < 0 then - w else w)"
proof (cases "w = 0")
  case False
  then have r: "0 < energyRoom desired b" using assms(3) by simp
  show ?thesis
  proof (cases "desired < 0")
    case True
    have "dischargeFloorSoC < soc b"
      using r True by (cases "soc b = dischargeFloorSoC") (auto simp: energyRoom_def max_def split: if_splits)
    then show ?thesis using True assms(1,2) bat_caps_nonneg(1) [of b]
      by (simp add: clampWithSoC_def directionCap_def del: bat_caps_nonneg)
  next
    case False
    then show ?thesis using assms(1,2) bat_caps_nonneg(2) [of b]
      by (simp add: clampWithSoC_def directionCap_def del: bat_caps_nonneg)
  qed
qed simp

lemma share_targets:
  assumes "list_all (\<lambda>b. 0 \<le> capacityWh b) bats" "out = shareByAvailableEnergy bats desired"
    "xs = shareLoop \<bar>desired\<bar> (map (startSlot desired) bats)"
  shows "length xs = length bats" "length out = length bats"
    and "\<And>i. i < length bats \<Longrightarrow> Driver (out ! i) = driver (bats ! i)
      \<and> TargetW (out ! i) = (if desired < 0 then - slotW (xs ! i) else slotW (xs ! i))
      \<and> 0 \<le> slotW (xs ! i) \<and> slotW (xs ! i) \<le> directionCap desired (bats ! i)
      \<and> (energyRoom desired (bats ! i) \<le> 0 \<longrightarrow> slotW (xs ! i) = 0)"
proof -
  have ok: "slots_ok (map (startSlot desired) bats)"
    using assms(1) by (auto simp: slots_ok_def list_all_iff energyRoom_nonneg)
  note k = shareLoop_keeps [OF ok abs_ge_zero, of desired, folded assms(3)]
  show len: "length xs = length bats" using list_all2_lengthD [OF k] by simp
  then show "length out = length bats" by (simp add: assms(2) shareByAvailableEnergy_def flip: assms(3))
  fix i assume i: "i < length bats"
  have b: "0 \<le> slotW (xs ! i) \<and> slotW (xs ! i) \<le> directionCap desired (bats ! i)
      \<and> (energyRoom desired (bats ! i) \<le> 0 \<longrightarrow> slotW (xs ! i) = 0)"
    using list_all2_nthD [OF k, of i] i by (auto simp: slotKeeps_def)
  then have "fst (clampWithSoC (if desired < 0 then - slotW (xs ! i) else slotW (xs ! i)) (bats ! i))
      = (if desired < 0 then - slotW (xs ! i) else slotW (xs ! i))"
    by (intro share_unclamped) auto
  with b show "Driver (out ! i) = driver (bats ! i)
      \<and> TargetW (out ! i) = (if desired < 0 then - slotW (xs ! i) else slotW (xs ! i))
      \<and> 0 \<le> slotW (xs ! i) \<and> slotW (xs ! i) \<le> directionCap desired (bats ! i)
      \<and> (energyRoom desired (bats ! i) \<le> 0 \<longrightarrow> slotW (xs ! i) = 0)"
    using i len by (simp add: assms(2) shareByAvailableEnergy_def case_prod_beta flip: assms(3))
qed

lemma clampWithSoC_toward: "0 \<le> w \<Longrightarrow> 0 \<le> fst (clampWithSoC w b) \<and> fst (clampWithSoC w b) \<le> w"
  "w \<le> 0 \<Longrightarrow> w \<le> fst (clampWithSoC w b) \<and> fst (clampWithSoC w b) \<le> 0"
  using bat_caps_nonneg(1) [of b] bat_caps_nonneg(2) [of b]
  by (auto simp: clampWithSoC_def Let_def simp del: bat_caps_nonneg)

lemma budgetW_sign:
  "0 \<le> budgetW d remainingS desired b * desired"
  "0 \<le> budgetW d remainingS desired b * mgetD 0 (sdBudget d) (driver b)"
  "mgetD 0 (sdBudget d) (driver b) = 0 \<or> blockedFor desired b \<Longrightarrow> budgetW d remainingS desired b = 0"
proof -
  define wh where "wh = mgetD 0 (sdBudget d) (driver b)"
  define rest where "rest = wh - mgetD 0 (sdDelivered d) (driver b)"
  define w where "w = (if remainingS > 1 / 2
    then (if wh > 0 then max 0 rest else if wh < 0 then min 0 rest else 0) * 3600 / remainingS else 0)"
  define v where "v = (if w * desired \<le> 0 \<or> (w > 0 \<and> chargeBlocked b) \<or> (w < 0 \<and> dischargeBlocked b) then 0 else w)"
  have eq: "budgetW d remainingS desired b = fst (clampWithSoC v b)"
    by (simp add: budgetW_def v_def w_def rest_def wh_def Let_def)
  have w: "0 \<le> w * wh" "wh = 0 \<Longrightarrow> w = 0"
    by (auto simp: w_def max_def min_def zero_le_mult_iff zero_le_divide_iff divide_le_0_iff mult_le_0_iff)
  have v: "v = 0 \<or> v = w" "0 \<le> v * desired" "blockedFor desired b \<Longrightarrow> v = 0"
    by (auto simp: v_def blockedFor_def not_le zero_less_mult_iff zero_le_mult_iff split: if_splits)
  have c: "fst (clampWithSoC v b) * x \<ge> 0" if "0 \<le> v * x" for x
    using that clampWithSoC_toward [of v b] by (cases "v = 0") (auto simp: zero_le_mult_iff)
  show "0 \<le> budgetW d remainingS desired b * desired" unfolding eq by (rule c [OF v(2)])
  show "0 \<le> budgetW d remainingS desired b * mgetD 0 (sdBudget d) (driver b)"
    unfolding eq wh_def [symmetric] using v(1) w(1) by (intro c) auto
  show "budgetW d remainingS desired b = 0" if "mgetD 0 (sdBudget d) (driver b) = 0 \<or> blockedFor desired b"
    unfolding eq using that v w(2) by (auto simp: wh_def)
qed

definition usableCap :: "batteryInfo list \<Rightarrow> real \<Rightarrow> real" where
  "usableCap bats desired = sum_list (map (\<lambda>b. if energyRoom desired b > 0 then directionCap desired b else 0) bats)"

section \<open>Properties\<close>

text \<open>Interchangeable batteries share the live fleet power exactly: the targets add up to what is
  asked, or to all the power of the batteries that can still take part when that is less. No battery
  exceeds its power limit or moves against the fleet, and a blocked, empty or full one stays at 0.\<close>

theorem shared_power_exact:
  assumes "list_all (\<lambda>b. 0 \<le> capacityWh b) bats" "out = shareByAvailableEnergy bats desired"
  shows "\<bar>sum_list (map TargetW out)\<bar> = min \<bar>desired\<bar> (usableCap bats desired)
    \<and> (\<forall>i < length bats. Driver (out ! i) = driver (bats ! i) \<and> 0 \<le> TargetW (out ! i) * desired
        \<and> \<bar>TargetW (out ! i)\<bar> \<le> directionCap desired (bats ! i)
        \<and> (energyRoom desired (bats ! i) \<le> 0 \<longrightarrow> TargetW (out ! i) = 0))"
proof -
  define xs where "xs = shareLoop \<bar>desired\<bar> (map (startSlot desired) bats)"
  note t = share_targets [OF assms xs_def]
  have ok: "slots_ok (map (startSlot desired) bats)"
    using assms(1) by (auto simp: slots_ok_def list_all_iff energyRoom_nonneg)
  have "sum_list (map slotW xs) = min \<bar>desired\<bar> (usableCap bats desired)"
    using shareLoop_sum [OF ok abs_ge_zero, of desired]
    by (simp add: xs_def openCap_def usableCap_def comp_def cong: if_cong)
  moreover have "map TargetW out = map (\<lambda>x. if desired < 0 then - slotW x else slotW x) xs"
    using t by (intro nth_equalityI) auto
  then have "sum_list (map TargetW out) = (if desired < 0 then - sum_list (map slotW xs) else sum_list (map slotW xs))"
    by (simp add: uminus_sum_list_map comp_def)
  moreover have "0 \<le> sum_list (map slotW xs)"
    using t(1,3) by (intro sum_list_nonneg) (auto simp: in_set_conv_nth)
  ultimately have "\<bar>sum_list (map TargetW out)\<bar> = min \<bar>desired\<bar> (usableCap bats desired)" by simp
  moreover have "Driver (out ! i) = driver (bats ! i) \<and> 0 \<le> TargetW (out ! i) * desired
        \<and> \<bar>TargetW (out ! i)\<bar> \<le> directionCap desired (bats ! i)
        \<and> (energyRoom desired (bats ! i) \<le> 0 \<longrightarrow> TargetW (out ! i) = 0)" if "i < length bats" for i
    using t(3) [OF that] by (auto simp: mult_nonneg_nonneg mult_nonneg_nonpos2 mult_nonneg_nonpos)
  ultimately show ?thesis by blast
qed

theorem shared_power_exact_witness:
  "\<bar>sum_list (map TargetW (shareByAvailableEnergy [testBattery ''a'' 10000 [], testBattery ''b'' 5000 []] 3000))\<bar> = 3000"
  using shared_power_exact [OF _ refl, where bats = "[testBattery ''a'' 10000 [], testBattery ''b'' 5000 []]" and desired = 3000]
  by (simp add: usableCap_def energyRoom_def directionCap_def testBattery_def batChargeCap_def effectivePowerLimit_def MaxCommandW_def)

text \<open>A fleet that follows a budget per battery never works against the plan or past the live total:
  each target has the sign of its battery's own budget and of the live fleet power, or is 0; a battery
  without a budget or blocked in that direction stays at 0; and the targets together never exceed what
  the fleet is asked.\<close>

theorem budgets_follow_plan:
  assumes "out = budgetTargets d remainingS bats desired"
  shows "\<bar>sum_list (map TargetW out)\<bar> \<le> \<bar>desired\<bar>
    \<and> (\<forall>i < length bats. Driver (out ! i) = driver (bats ! i) \<and> 0 \<le> TargetW (out ! i) * desired
        \<and> 0 \<le> TargetW (out ! i) * mgetD 0 (sdBudget d) (driver (bats ! i))
        \<and> (mgetD 0 (sdBudget d) (driver (bats ! i)) = 0 \<or> blockedFor desired (bats ! i) \<longrightarrow> TargetW (out ! i) = 0))"
proof -
  let ?w = "budgetW d remainingS desired" and ?tot = "sum_list (map (budgetW d remainingS desired) bats)"
  define k where "k = (if ?tot * desired > 0 then min 1 \<bar>desired / ?tot\<bar> else 0)"
  have out: "out = map (\<lambda>b. \<lparr>Driver = driver b, TargetW = ?w b * k, Clamped = True\<rparr>) bats"
    by (simp add: assms budgetTargets_def k_def Let_def)
  have k: "0 \<le> k" "\<bar>?tot * k\<bar> \<le> \<bar>desired\<bar>" by (auto simp: k_def abs_mult min_def field_simps)
  moreover have "sum_list (map TargetW out) = ?tot * k" by (simp add: out comp_def sum_list_mult_const)
  moreover have "0 \<le> ?w b * k * desired" "0 \<le> ?w b * k * mgetD 0 (sdBudget d) (driver b)"
    "mgetD 0 (sdBudget d) (driver b) = 0 \<or> blockedFor desired b \<longrightarrow> ?w b * k = 0" for b
    using budgetW_sign [where d = d and remainingS = remainingS and desired = desired and b = b] k(1) by (auto simp: mult.assoc mult.left_commute)
  ultimately show ?thesis by (simp add: out)
qed

theorem budgets_follow_plan_witness:
  "TargetW (budgetTargets (noDelivery\<lparr>sdBudget := [(''b'', 1000)]\<rparr>) 900
     [testBattery ''a'' 10000 [], testBattery ''b'' 5000 []] 3000 ! 0) = 0"
  using budgets_follow_plan [OF refl, where d = "noDelivery\<lparr>sdBudget := [(''b'', 1000)]\<rparr>" and remainingS = 900
      and bats = "[testBattery ''a'' 10000 [], testBattery ''b'' 5000 []]" and desired = 3000]
  by (auto simp: testBattery_def mgetD_def)

end
