(* ===== verification/Slew.thy ===== *)
theory Slew
  imports Dispatch_Split
begin

text \<open>
  The slew limit of \<open>ComputeDispatch\<close> and \<open>projectSlewToFleetClamp\<close> (\<open>dispatch.go\<close>): a target moves
  at most \<open>SlewRateW\<close> from the battery's live power per tick, except where the meter asked for the whole
  move, and a fleet whose slewed targets together left the range the meter allowed is moved back to
  its edge. A point belongs to the target at the same position.
\<close>

record slewFleetPoint =
  liveW :: real
  preSlewW :: real
  ordinaryW :: real

text \<open>The power the slew starts from: the reading, else the last target.\<close>

definition slewAnchor :: "Store \<Rightarrow> State \<Rightarrow> string \<Rightarrow> real option" where
  "slewAnchor store s d =
     (case Get d DerBattery store of Some r \<Rightarrow> Some (fval (SmoothedW r)) | None \<Rightarrow> mget (PrevTargets s) d)"

definition slewedW :: "real \<Rightarrow> real \<Rightarrow> real \<Rightarrow> real" where
  "slewedW rate anchor w = anchor + (if w - anchor < 0 then - 1 else 1) * rate"

text \<open>The meter's own move is not held back by the slew in its direction.\<close>

definition meterMoveW :: "real \<Rightarrow> real \<Rightarrow> real \<Rightarrow> real" where
  "meterMoveW meterClampMoveW w slewed =
     (if meterClampMoveW < 0 \<and> slewed > w then w
      else if meterClampMoveW > 0 \<and> slewed < w then w
      else slewed)"

definition slewTarget :: "Store \<Rightarrow> State \<Rightarrow> (string \<Rightarrow> bool) \<Rightarrow> real \<Rightarrow> DispatchTarget \<Rightarrow> DispatchTarget \<times> slewFleetPoint" where
  "slewTarget store s quick meterClampMoveW t =
     (let w = TargetW t
      in case slewAnchor store s (Driver t) of
           None \<Rightarrow> (t, \<lparr>liveW = w, preSlewW = w, ordinaryW = w\<rparr>)
         | Some anchor \<Rightarrow>
             if quick (Driver t) \<and> \<bar>w\<bar> < 1
             then (t\<lparr>TargetW := 0\<rparr>, \<lparr>liveW = anchor, preSlewW = w, ordinaryW = 0\<rparr>)
             else if \<not> SlewEnabled s \<or> SlewRateW s \<le> 0 \<or> \<not> \<bar>w - anchor\<bar> > SlewRateW s
             then (t, \<lparr>liveW = anchor, preSlewW = w, ordinaryW = w\<rparr>)
             else let slewed = slewedW (SlewRateW s) anchor w
                  in (t\<lparr>TargetW := meterMoveW meterClampMoveW w slewed, Clamped := True\<rparr>,
                      \<lparr>liveW = anchor, preSlewW = w, ordinaryW = slewed\<rparr>))"

definition slewEpsilonW :: real where "slewEpsilonW = 1 / 1000000"

text \<open>Where a target is moved back to, and how far.\<close>

definition projectFraction :: "real \<Rightarrow> real \<Rightarrow> real \<Rightarrow> real option" where
  "projectFraction boundaryW targetTotalW ordinaryTotalW =
     (let denominatorW = ordinaryTotalW - targetTotalW
      in if \<bar>denominatorW\<bar> \<le> slewEpsilonW then None
         else let fraction = (boundaryW - targetTotalW) / denominatorW
              in if fraction < 0 \<or> fraction > 1 then None else Some fraction)"

definition restoreTarget :: "real option \<Rightarrow> bool \<Rightarrow> DispatchTarget \<Rightarrow> slewFleetPoint \<Rightarrow> DispatchTarget" where
  "restoreTarget fraction atLive t p =
     (let k = (case fraction of Some f \<Rightarrow> f | None \<Rightarrow> 1);
          restoreW = (if fraction \<noteq> None then ordinaryW p else if atLive then liveW p else preSlewW p)
      in t\<lparr>TargetW := TargetW t + k * (restoreW - TargetW t), Clamped := True\<rparr>)"

definition projectSlewToFleetClamp :: "DispatchTarget list \<Rightarrow> slewFleetPoint list \<Rightarrow> DispatchTarget list" where
  "projectSlewToFleetClamp ts ps =
     (if ts = [] \<or> ps = [] then ts
      else
        let liveTotalW = sum_list (map liveW ps); preSlewTotalW = sum_list (map preSlewW ps);
            targetTotalW = sum_list (map TargetW ts);
            lowerW = min liveTotalW preSlewTotalW; upperW = max liveTotalW preSlewTotalW
        in if targetTotalW \<ge> lowerW - slewEpsilonW \<and> targetTotalW \<le> upperW + slewEpsilonW then ts
           else
             let boundaryW = (if targetTotalW > upperW then upperW else lowerW);
                 fraction = projectFraction boundaryW targetTotalW (sum_list (map ordinaryW ps))
             in map2 (restoreTarget fraction (\<bar>boundaryW - liveTotalW\<bar> \<le> slewEpsilonW)) ts ps)"

section \<open>Lemmas\<close>

lemma meterMoveW_cases: "meterMoveW m w x = w \<or> meterMoveW m w x = x"
  by (simp add: meterMoveW_def)

lemma slewedW_between:
  assumes "0 < rate" "\<bar>w - anchor\<bar> > rate"
  shows "min anchor w \<le> slewedW rate anchor w" "slewedW rate anchor w \<le> max anchor w"
    "\<bar>slewedW rate anchor w - anchor\<bar> = rate"
  using assms by (auto simp: slewedW_def)

lemma restored_total:
  assumes "length ts = length ps"
  shows "sum_list (map TargetW (map2 (restoreTarget (Some f) b) ts ps))
      = sum_list (map TargetW ts) + f * (sum_list (map ordinaryW ps) - sum_list (map TargetW ts))"
    "sum_list (map TargetW (map2 (restoreTarget None b) ts ps))
      = (if b then sum_list (map liveW ps) else sum_list (map preSlewW ps))"
  using assms by (induction ts ps rule: list_induct2) (simp_all add: restoreTarget_def algebra_simps)

section \<open>Properties\<close>

text \<open>A slewed target lies between the battery's live power and the target asked for, and it moves no
  further than the slew rate in one tick unless it moves all the way because the meter asked for that
  move.\<close>

theorem slew_limits_move:
  assumes "0 < SlewRateW s" "SlewEnabled s" "slewAnchor store s (Driver t) = Some anchor" "\<not> quick (Driver t)"
    "(u, p) = slewTarget store s quick meterClampMoveW t"
  shows "Driver u = Driver t \<and> min anchor (TargetW t) \<le> TargetW u \<and> TargetW u \<le> max anchor (TargetW t)
    \<and> (\<bar>TargetW u - anchor\<bar> \<le> SlewRateW s \<or> meterClampMoveW \<noteq> 0 \<and> TargetW u = TargetW t)"
proof (cases "\<bar>TargetW t - anchor\<bar> > SlewRateW s")
  case True
  let ?v = "slewedW (SlewRateW s) anchor (TargetW t)"
  have u: "u = t\<lparr>TargetW := meterMoveW meterClampMoveW (TargetW t) ?v, Clamped := True\<rparr>"
    using assms True by (simp add: slewTarget_def Let_def)
  have "meterClampMoveW = 0 \<Longrightarrow> meterMoveW meterClampMoveW (TargetW t) ?v = ?v" by (simp add: meterMoveW_def)
  with slewedW_between [OF assms(1) True] meterMoveW_cases [of meterClampMoveW "TargetW t" ?v] show ?thesis
    by (auto simp: u)
next
  case False
  then have "u = t" using assms by (simp add: slewTarget_def Let_def)
  with False show ?thesis by auto
qed

definition slewState :: State where
  "slewState = (NewState 0 50 ''m'' (\<lambda>_. 0) 0)\<lparr>PrevTargets := [(''b'', 1000)]\<rparr>"

theorem slew_limits_move_witness:
  "TargetW (fst (slewTarget (NewStore 0) slewState (\<lambda>_. False) 0 \<lparr>Driver = ''b'', TargetW = 5000, Clamped = False\<rparr>)) \<le> 1500"
proof -
  let ?t = "\<lparr>Driver = ''b'', TargetW = 5000, Clamped = False\<rparr>"
  have st: "SlewRateW slewState = 500" "SlewEnabled slewState" "slewAnchor (NewStore 0) slewState ''b'' = Some 1000"
    by (simp_all add: slewState_def NewState_def slewAnchor_def Get_def NewStore_def)
  have "\<bar>TargetW (fst (slewTarget (NewStore 0) slewState (\<lambda>_. False) 0 ?t)) - 1000\<bar> \<le> 500"
    using slew_limits_move [where s = slewState and store = "NewStore 0" and t = ?t and anchor = 1000
        and quick = "\<lambda>_. False" and meterClampMoveW = 0, OF _ _ _ _ prod.collapse] st by auto
  then show ?thesis by linarith
qed

text \<open>After a meter clamp the fleet stays where the meter allowed: whatever slew did to the single
  batteries, their total ends between the live total and the clamped total, to a microwatt; a fleet
  already there is not touched.\<close>

theorem fleet_stays_in_meter_range:
  assumes "length ts = length ps" "ts \<noteq> []" "out = projectSlewToFleetClamp ts ps"
    "liveT = sum_list (map liveW ps)" "pre = sum_list (map preSlewW ps)"
  shows "min liveT pre - slewEpsilonW \<le> sum_list (map TargetW out)
    \<and> sum_list (map TargetW out) \<le> max liveT pre + slewEpsilonW \<and> map Driver out = map Driver ts"
proof (cases "sum_list (map TargetW ts) \<ge> min liveT pre - slewEpsilonW \<and> sum_list (map TargetW ts) \<le> max liveT pre + slewEpsilonW")
  case True
  then have "out = ts" using assms by (simp add: projectSlewToFleetClamp_def Let_def)
  with True show ?thesis by simp
next
  case False
  let ?T = "sum_list (map TargetW ts)" and ?O = "sum_list (map ordinaryW ps)"
  define b where "b = (if ?T > max liveT pre then max liveT pre else min liveT pre)"
  define f where "f = projectFraction b ?T ?O"
  have ps: "ps \<noteq> []" using assms(1,2) by auto
  have out: "out = map2 (restoreTarget f (\<bar>b - liveT\<bar> \<le> slewEpsilonW)) ts ps"
    unfolding assms(3) projectSlewToFleetClamp_def Let_def
    using False ps assms(2) by (simp only: f_def b_def assms(4,5) if_False simp_thms)
  have drv: "map Driver out = map Driver ts"
    unfolding out using assms(1) by (induction ts ps rule: list_induct2) (simp_all add: restoreTarget_def)
  have e: "0 \<le> slewEpsilonW" by (simp add: slewEpsilonW_def)
  have "min liveT pre \<le> sum_list (map TargetW out) \<and> sum_list (map TargetW out) \<le> max liveT pre"
  proof (cases f)
    case None
    then show ?thesis unfolding out None restored_total(2) [OF assms(1)] assms(4,5) by simp
  next
    case (Some k)
    then have "?T + k * (?O - ?T) = b"
      by (auto simp: f_def projectFraction_def Let_def slewEpsilonW_def split: if_splits)
    moreover have "min liveT pre \<le> b \<and> b \<le> max liveT pre" by (auto simp: b_def)
    ultimately show ?thesis unfolding out Some restored_total(1) [OF assms(1)] by simp
  qed
  with drv e show ?thesis by linarith
qed

theorem fleet_stays_in_meter_range_witness:
  "sum_list (map TargetW (projectSlewToFleetClamp
      [\<lparr>Driver = ''a'', TargetW = 500, Clamped = True\<rparr>, \<lparr>Driver = ''b'', TargetW = 2500, Clamped = True\<rparr>]
      [\<lparr>liveW = 0, preSlewW = 1000, ordinaryW = 500\<rparr>, \<lparr>liveW = 0, preSlewW = 1000, ordinaryW = 500\<rparr>])) \<le> 2001"
  using fleet_stays_in_meter_range [OF _ _ refl refl refl, where
      ts = "[\<lparr>Driver = ''a'', TargetW = 500, Clamped = True\<rparr>, \<lparr>Driver = ''b'', TargetW = 2500, Clamped = True\<rparr>]" and
      ps = "[\<lparr>liveW = 0, preSlewW = 1000, ordinaryW = 500\<rparr>, \<lparr>liveW = 0, preSlewW = 1000, ordinaryW = 500\<rparr>]"]
  by (simp add: slewEpsilonW_def)

end
