(* ===== verification/Compute_Dispatch.thy ===== *)
theory Compute_Dispatch
  imports Fuse_Saver Surplus Storage_Plan Slew Slot_Accounting Meter_Freeze Control_Settings
begin

text \<open>
  One battery control tick, \<^emph>\<open>ComputeDispatch\<close> of \<open>dispatch.go\<close>, as a function from the store and the
  state to the commands and the new state: which mode and plan decide (\<^emph>\<open>resolveMode\<close>), what the site
  measures (\<^emph>\<open>readSite\<close>), the fleet power a manual hold, a plan's energy or the meter asks for
  (\<^emph>\<open>energyTotalW\<close>, \<^emph>\<open>reactiveStep\<close>), the joint share of battery and car under the fuse
  (\<^emph>\<open>jointAllocate\<close>), the split over the batteries with its slew limit, and the safety pipeline. The
  tick reads one instant of the clock. A tick that sends nothing new leaves through the fuse saver;
  its panic is \<open>None\<close>.
\<close>

section \<open>Mode and plan\<close>

record tickMode =
  tmMode :: Mode
  tmEnergyPath :: bool
  tmIdleGate :: bool
  tmExportGate :: bool
  tmNoChargeStale :: bool
  tmIdleSlot :: bool
  tmCoverSlot :: bool
  tmDirective :: SlotDirective
  tmHold :: BatteryManualHold
  tmHoldActive :: bool

definition resetPI :: "State \<Rightarrow> State" where
  "resetPI s = s\<lparr>PI := map_option Reset (PI s)\<rparr>"

text \<open>A hold on one battery counts only while that battery is still the one it was set for.\<close>

definition resolveHold :: "State \<Rightarrow> (BatteryManualHold \<times> bool) \<times> State" where
  "resolveHold s =
     (let ((h, active), s) = GetBatteryManualHold (clock s) s;
          valid = (bhDeviceID h \<noteq> [] \<and> (case BatteryHoldTargetValid s of None \<Rightarrow> False | Some f \<Rightarrow> f (bhDriver h) (bhDeviceID h)))
      in if active \<and> bhDriver h \<noteq> [] \<and> \<not> valid then ((noBatteryHold, False), ClearBatteryManualHold s)
         else if active
         then ((h, True), SetGridTarget 0 ((resetEnergyDispatchBookkeeping (resetPI s))\<lparr>PlanStale := False\<rparr>))
         else ((h, False), s))"

text \<open>The slot of an arbitrage mode that holds energy, and the one that only covers the load.\<close>

definition arbitrageMode :: "State \<Rightarrow> bool" where
  "arbitrageMode s = (Mode s = ModePlannerPassiveArbitrage \<or> Mode s = ModePlannerArbitrage)"

definition idleSlot :: "State \<Rightarrow> SlotDirective \<Rightarrow> bool" where
  "idleSlot s dir = (arbitrageMode s \<and> \<bar>intentEnergyWh dir\<bar> \<le> 50)"

definition coverLoadDischargeSlot :: "State \<Rightarrow> SlotDirective \<Rightarrow> bool" where
  "coverLoadDischargeSlot s dir =
     (arbitrageMode s \<and> HasPlannedGridW dir \<and> intentEnergyWh dir < - 50 \<and> PlannedGridW dir > - 100)"

definition followDirective :: "SlotDirective \<Rightarrow> tickMode \<Rightarrow> State \<Rightarrow> tickMode \<times> State" where
  "followDirective dir tm s =
     (let idle = idleSlot s dir; cover = coverLoadDischargeSlot s dir;
          s = s\<lparr>controlSlotDecisionID := DecisionID dir,
                controlPlanSnapshot := (controlPlanSnapshot s)\<lparr>snapSource := controlPlanDirective\<rparr>, PlanStale := False\<rparr>;
          s = (if idle \<or> cover then resetEnergyDispatchBookkeeping (SetGridTarget 0 s) else s)
      in (tm\<lparr>tmMode := ModeSelfConsumption, tmDirective := dir, tmIdleSlot := idle, tmCoverSlot := cover,
             tmEnergyPath := (\<not> idle \<and> \<not> cover)\<rparr>, s))"

definition followTarget :: "tickMode \<Rightarrow> State \<Rightarrow> tickMode \<times> State" where
  "followTarget tm s =
     (case (if PlanTarget s = None then (([], 0, [], False), s) else planTargetAt (clock s) s) of ((m, g, i, ok), s) \<Rightarrow>
        if ok
        then (tm\<lparr>tmMode := m\<rparr>,
              (SetGridTarget g (s\<lparr>controlSlotDecisionID := i,
                 controlPlanSnapshot := (controlPlanSnapshot s)\<lparr>snapSource := controlPlanLegacyTarget\<rparr>\<rparr>))\<lparr>PlanStale := False\<rparr>)
        else (tm\<lparr>tmMode := ModeSelfConsumption\<rparr>, (SetGridTarget 0 s)\<lparr>PlanStale := True\<rparr>))"

definition resolvePlan :: "tickMode \<Rightarrow> State \<Rightarrow> tickMode \<times> State" where
  "resolvePlan tm s =
     (let (tm, s) =
        (if UseEnergyDispatch s \<and> SlotDirectiveFunc s \<noteq> None
         then case plannerSelfDirectiveAt (clock s) s of ((dir, ok), s) \<Rightarrow>
                if ok \<and> \<not> EVOnly dir then followDirective dir tm s else (tm, s)
         else (tm, s))
      in if tmEnergyPath tm \<or> tmIdleSlot tm \<or> tmCoverSlot tm then (tm, s) else followTarget tm s)"

definition resolveMode :: "State \<Rightarrow> tickMode \<times> State" where
  "resolveMode s =
     (let ((h, active), s) = resolveHold s;
          tm = \<lparr>tmMode = (if active then ModeSelfConsumption else Mode s), tmEnergyPath = False, tmIdleGate = False,
                tmExportGate = False, tmNoChargeStale = False, tmIdleSlot = False, tmCoverSlot = False,
                tmDirective = noDirective, tmHold = h, tmHoldActive = active\<rparr>
      in if active then (tm, s)
         else if Mode s = ModePlannerSelf
         then let (d, s) = preparePlannerSelf (clock s) s
              in (tm\<lparr>tmMode := ModeSelfConsumption, tmIdleGate := idleGate d, tmExportGate := exportSurplusGate d,
                     tmNoChargeStale := noChargeOnStalePlan d\<rparr>, s)
         else if IsPlannerMode (Mode s) then resolvePlan tm s
         else (tm, s))"

section \<open>What the site measures\<close>

text \<open>The fleet's live power of the delivery metrics: online batteries with a reading.\<close>

definition liveBatTotalW :: "Store \<Rightarrow> (string, real) gomap \<Rightarrow> real" where
  "liveBatTotalW store caps = sum_list (map (\<lambda>(_, r). fval (SmoothedW r)) (liveReadings store caps))"

definition trackVehicles :: "vehiclePowerFlow \<Rightarrow> State \<Rightarrow> State" where
  "trackVehicles flow s =
     (let s = (if ManualEVChargingW s = 0 \<and> liveEVChargingW s = 0 \<and> EVChargingW s > 0
               then s\<lparr>ManualEVChargingW := EVChargingW s\<rparr> else s);
          s = s\<lparr>liveEVChargingW := (if vfLive flow then EVChargeW flow + V2XChargeW flow else 0)\<rparr>
      in s\<lparr>EVChargingW := ManualEVChargingW s + liveEVChargingW s\<rparr>)"

definition readBattery :: "Store \<Rightarrow> State \<Rightarrow> bool \<Rightarrow> string \<times> real \<Rightarrow> batteryInfo option" where
  "readBattery store s ownerFloor = (\<lambda>(name, capWh).
     case (Get name DerBattery store, DriverHealthOf name store) of
       (Some r, Some h) \<Rightarrow>
         let l = limitsOf s name;
             (dBlocked, cBlocked) = batteryDirectionBlocks (Data r);
             missing = (SoC r = None);
             level = (case SoC r of None \<Rightarrow> 0 | Some v \<Rightarrow> fval v);
             below = (ownerFloor \<and> level \<le> socFloor l)
         in Some \<lparr>driver = name, capacityWh = capWh, currentW = fval (SmoothedW r), soc = level, online = IsOnline h,
                  group = mgetD [] (InverterGroups s) name, maxChargeW = MaxChargeW l, maxDischargeW = MaxDischargeW l,
                  maxChargeWSet = MaxChargeWSet l, maxDischargeWSet = MaxDischargeWSet l,
                  dischargeBlocked = (dBlocked \<or> missing \<or> dischargeCap l = 0 \<or> below),
                  chargeBlocked = (cBlocked \<or> chargeCap l = 0 \<or> BatteryChargePaused name s),
                  socMissing = missing, belowOwnerFloor = below\<rparr>
     | _ \<Rightarrow> None)"

definition onlineBatteries :: "Store \<Rightarrow> State \<Rightarrow> bool \<Rightarrow> (string, real) gomap \<Rightarrow> batteryInfo list" where
  "onlineBatteries store s ownerFloor caps = filter online (List.map_filter (readBattery store s ownerFloor) caps)"

record tickSite =
  tsRawGridW :: real
  tsGridW :: real
  tsChargeGridW :: real
  tsNoCarGridW :: real
  tsCurrentTotal :: real
  tsV2XDischargeW :: real
  tsMeter :: "DerReading option"
  tsMeterHeld :: bool
  tsBats :: "batteryInfo list"

text \<open>A car the battery may not feed is left out of the grid power the battery acts on, except for what
  it takes of charge the battery already draws.\<close>

definition readSite :: "Store \<Rightarrow> (string, real) gomap \<Rightarrow> bool \<Rightarrow> State \<Rightarrow> tickSite \<times> State" where
  "readSite store caps holdActive s =
     (let meter = Get (SiteMeterDriver s) DerMeter store;
          rawW = smoothedW meter;
          (held, s) = siteMeterHeld meter s;
          held = (held \<or> siteMeterRepeatsAfterMove meter s);
          flow = onlineVehiclePowerFlow store;
          s = trackVehicles flow s;
          chargeGridW = (if BatteryCoversEV s then rawW else rawW - V2XDischargeW flow);
          noCarW = (if Mode s \<noteq> ModeSelfConsumption \<and> \<not> BatteryCoversEV s
                    then chargeGridW - uncoveredEVChargingW s else chargeGridW);
          bats = onlineBatteries store s (\<not> holdActive \<and> IsPlannerMode (Mode s)) caps;
          current = sum_list (map currentW bats);
          gridW = (if noCarW < chargeGridW then max noCarW (min chargeGridW current) else noCarW)
      in (\<lparr>tsRawGridW = rawW, tsGridW = gridW, tsChargeGridW = chargeGridW, tsNoCarGridW = noCarW,
           tsCurrentTotal = current, tsV2XDischargeW = V2XDischargeW flow, tsMeter = meter, tsMeterHeld = held,
           tsBats = bats\<rparr>, s))"

section \<open>Following a plan's energy\<close>

text \<open>The energy the slot has delivered, credited with at least the part its elapsed time should have.\<close>

definition creditDelivered :: "SlotDirective \<Rightarrow> time \<Rightarrow> real \<Rightarrow> real" where
  "creditDelivered dir now del =
     (let e = BatteryEnergyWh dir;
          del = (if e < 0 \<and> del < e then e else del);
          del = (if e > 0 \<and> del > e then e else del);
          slotH = seconds (tsub (SlotEnd dir) (SlotStart dir)) / 3600;
          elapsedH = seconds (tsub now (SlotStart dir)) / 3600
      in if slotH > 0 \<and> elapsedH > 0 \<and> elapsedH < slotH
         then let expected = elapsedH / slotH * e
              in if e < 0 \<and> del > expected then expected
                 else if e > 0 \<and> del < expected then expected
                 else del
         else del)"

definition advanceDelivered :: "SlotDirective \<Rightarrow> real \<Rightarrow> State \<Rightarrow> State" where
  "advanceDelivered dir currentTotal s =
     (let now = clock s
      in if SlotStart dir \<noteq> SlotStart (currentDirective s)
         then s\<lparr>currentDirective := dir, slotDelivered := elapsedDirectiveEnergy dir now, lastTickTs := now\<rparr>
         else
           let dt = seconds (tsub now (lastTickTs s));
               del = (if dt > 0 \<and> dt < 300 then slotDelivered s + currentTotal * dt / 3600 else slotDelivered s)
           in s\<lparr>slotDelivered := creditDelivered dir now del, lastTickTs := now,
                currentDirective := (currentDirective s)\<lparr>BatteryEnergyWh := BatteryEnergyWh dir, SlotEnd := SlotEnd dir\<rparr>\<rparr>)"

definition plannedLoadpointEnergyWh :: "SlotDirective \<Rightarrow> f64" where
  "plannedLoadpointEnergyWh dir =
     foldl (\<lambda>a (_, wh). if wh > Fin 0 then a + wh else a) (Fin 0) (LoadpointEnergyWh dir)"

text \<open>The steps that turn the remaining energy into a fleet power.\<close>

definition protectCar :: "SlotDirective \<Rightarrow> tickSite \<Rightarrow> State \<Rightarrow> real \<Rightarrow> real" where
  "protectCar dir site s w =
     (let surplusOnly = (EVSurplusOnlyReserveW s > 0 \<and> plannedLoadpointEnergyWh dir > Fin 0);
          uncovered = uncoveredEVChargingW s
      in if (\<not> BatteryCoversEV s \<and> uncovered > evActiveThresholdW \<or> surplusOnly) \<and> w < 0
         then let reactiveTotal = tsCurrentTotal site - (tsRawGridW site - uncovered - tsV2XDischargeW site)
              in if w < reactiveTotal then reactiveTotal else w
         else w)"

definition absorbThresholdW :: "State \<Rightarrow> real" where
  "absorbThresholdW s = (if PVSurplusAbsorbThresholdW s \<le> 0 then 100 else PVSurplusAbsorbThresholdW s)"

definition absorbSurplus :: "SlotDirective \<Rightarrow> tickSite \<Rightarrow> real \<Rightarrow> State \<Rightarrow> real \<Rightarrow> real" where
  "absorbSurplus dir site remainingS s w =
     (let capPct = pvSurplusAbsorbCap s dir
      in if capPct > 0 \<and> w \<ge> 0
         then let headroomW = pvSurplusAbsorbHeadroomW (tsBats site) capPct remainingS;
                  extraW = unexpectedExportBeyondPlanW (tsGridW site + (w - tsCurrentTotal site)) dir
              in if headroomW > 0 \<and> extraW > absorbThresholdW s
                 then w + (if extraW > headroomW then headroomW else extraW) else w
         else w)"

definition deliberateGridCharge :: "SlotDirective \<Rightarrow> bool" where
  "deliberateGridCharge dir = (HasPlannedGridW dir \<and> PlannedGridW dir \<ge> 100)"

definition leaveReserve :: "SlotDirective \<Rightarrow> tickSite \<Rightarrow> surplusAccounting \<Rightarrow> State \<Rightarrow> real \<Rightarrow> real" where
  "leaveReserve dir site surplus s w =
     (let w = (if EVSurplusOnlyReserveW s > 0 \<and> w > 0 \<and> \<not> deliberateGridCharge dir
               then (if w > chargeCeilingAfterEVReserveW surplus then chargeCeilingAfterEVReserveW surplus else w) else w)
      in if w > 0 \<and> HasPlannedGridW dir \<and> \<not> deliberateGridCharge dir \<and> tsGridW site > tsNoCarGridW site
         then min w (tsCurrentTotal site - tsGridW site) else w)"

definition followPlannedGrid :: "SlotDirective \<Rightarrow> tickSite \<Rightarrow> State \<Rightarrow> real \<Rightarrow> real" where
  "followPlannedGrid dir site s w =
     (if HasPlannedGridW dir \<and> w > 0
      then let gridErr = tsNoCarGridW site + (w - tsCurrentTotal site) - PlannedGridW dir
           in if gridErr > 100
              then let adjusted = w - gridErr
                   in if adjusted < 0 \<and> \<not> coverLoadChargeSlot s dir then 0 else adjusted
              else w
      else w)"

definition energyTotalW :: "SlotDirective \<Rightarrow> tickSite \<Rightarrow> surplusAccounting \<Rightarrow> State \<Rightarrow> real \<times> State" where
  "energyTotalW dir site surplus s =
     (let s = advanceDelivered dir (tsCurrentTotal site) s;
          remainingWh = BatteryEnergyWh dir - slotDelivered s;
          remainingS = seconds (tsub (SlotEnd dir) (clock s));
          w = (if remainingS > 1 / 2 then remainingWh * 3600 / remainingS else 0);
          s = resetPI (SetGridTarget 0 s);
          w = protectCar dir site s w;
          w = absorbSurplus dir site remainingS s w;
          w = leaveReserve dir site surplus s w
      in (followPlannedGrid dir site s w, s))"

section \<open>Following the meter\<close>

definition biasedGridW :: "Mode \<Rightarrow> real \<Rightarrow> surplusAccounting \<Rightarrow> State \<Rightarrow> real" where
  "biasedGridW m gridW surplus s =
     (if EVSurplusOnlyReserveW s > 0 \<and> m = ModeSelfConsumption \<and> evCanUseReserve surplus
      then let reserve = saReserveRemainingW surplus
           in if gridW < - reserve then gridW + reserve else if gridW < 0 then 0 else gridW
      else gridW)"

definition activeGridTargetW :: "real \<Rightarrow> real \<Rightarrow> State \<Rightarrow> real" where
  "activeGridTargetW biasedW currentTotal s =
     (if batteryMayNotExport (Mode s) \<and> currentTotal - (biasedW - GridTargetW s) < - GridToleranceW s
      then max (GridTargetW s) (GridToleranceW s) else GridTargetW s)"

definition meterErrW :: "Mode \<Rightarrow> tickSite \<Rightarrow> real \<Rightarrow> real \<Rightarrow> State \<Rightarrow> real" where
  "meterErrW m site biasedW activeW s =
     (if m = ModePeakShaving
      then (if tsGridW site > PeakLimitW s then tsGridW site - PeakLimitW s
            else if tsGridW site < 0 then tsGridW site
            else if tsChargeGridW site > 0 \<and> tsCurrentTotal site > 0 \<and> EVChargingW s > evActiveThresholdW
            then min (tsChargeGridW site) (tsCurrentTotal site)
            else 0)
      else biasedW - activeW)"

text \<open>The meter clamp: the controller's total, held to the side and the size the meter's error has. The flag
  says that the controller moved the wrong way.\<close>

definition meterClamp :: "real \<Rightarrow> real \<Rightarrow> real \<Rightarrow> real \<times> bool" where
  "meterClamp errW currentTotal targetTotal =
     (let ideal = currentTotal - errW; dirW = targetTotal - currentTotal
      in if errW > 0 \<and> dirW > 1 then (currentTotal, True)
         else if errW < 0 \<and> dirW < - 1 then (currentTotal, True)
         else if errW > 0 \<and> targetTotal < ideal then (ideal, False)
         else if errW < 0 \<and> targetTotal > ideal then (ideal, False)
         else (targetTotal, False))"

text \<open>What a surplus-only car leaves of the total.\<close>

definition surplusLimit :: "tickSite \<Rightarrow> surplusAccounting \<Rightarrow> State \<Rightarrow> real \<Rightarrow> real" where
  "surplusLimit site surplus s totalW =
     (if totalW > 0
      then (if totalW > chargeCeilingAfterEVReserveW surplus then chargeCeilingAfterEVReserveW surplus else totalW)
      else if totalW < 0 \<and> Mode s = ModeSelfConsumption
      then let floorW = min 0 (tsCurrentTotal site - (tsGridW site - EVSurplusOnlyChargingW s))
           in if totalW < floorW then floorW else totalW
      else if totalW < 0 \<and> tsGridW site \<le> 0 then 0
      else totalW)"

definition idleAbsorbCeilingW :: "tickMode \<Rightarrow> real \<Rightarrow> tickSite \<Rightarrow> surplusAccounting \<Rightarrow> State \<Rightarrow> real" where
  "idleAbsorbCeilingW tm capPct site surplus s =
     (let ceilW = unexpectedIdleExportBeyondPlanW surplus (tmDirective tm) (absorbThresholdW s);
          headroomW = pvSurplusAbsorbHeadroomW (tsBats site) capPct (seconds (tsub (SlotEnd (tmDirective tm)) (clock s)))
      in if ceilW > headroomW then headroomW else ceilW)"

definition planGates :: "tickMode \<Rightarrow> real \<Rightarrow> bool \<Rightarrow> bool \<Rightarrow> tickSite \<Rightarrow> surplusAccounting \<Rightarrow> State \<Rightarrow> real \<Rightarrow> real" where
  "planGates tm capPct noSelfDischarge noSelfCharge site surplus s totalW =
     (let w = (if noSelfDischarge \<and> totalW < 0 then 0 else totalW);
          w = (if noSelfCharge \<and> w > 0 then 0 else w);
          w = (if tmIdleGate tm \<and> w > plannerSelfIdleDesiredTotal surplus s then plannerSelfIdleDesiredTotal surplus s else w)
      in if tmIdleSlot tm \<and> capPct > 0 \<and> w > idleAbsorbCeilingW tm capPct site surplus s
         then idleAbsorbCeilingW tm capPct site surplus s else w)"

text \<open>The reactive tick: \<open>None\<close> leaves without a new command; otherwise the fleet total asked for, the
  meter clamp's move (0 without one) and the controller.\<close>

definition batteryBreaksLimit :: "bool \<Rightarrow> bool \<Rightarrow> tickSite \<Rightarrow> State \<Rightarrow> bool" where
  "batteryBreaksLimit noSelfDischarge noSelfCharge site s =
     (noSelfDischarge \<and> anyBatteryDischarging (tsBats site) \<or> anyExplicitZeroDischargeViolation (tsBats site)
      \<or> anyBelowOwnerFloorDischarging (tsBats site) (PrevTargets s)
      \<or> anyAtHardFloorDischarging (tsBats site) (PrevTargets s)
      \<or> anyBlockedBatteryCharging (tsBats site) noSelfCharge)"

text \<open>The controller's step: its output, and the controller with its own setpoint put back. Every state has a
  controller from \<open>NewState\<close> on.\<close>

definition controllerStep :: "Mode \<Rightarrow> real \<Rightarrow> real \<Rightarrow> real \<Rightarrow> State \<Rightarrow> real \<times> PIController option" where
  "controllerStep m errW biasedW activeW s =
     (case PI s of
        None \<Rightarrow> (0, None)
      | Some p \<Rightarrow>
          let measured = (if m = ModePeakShaving then GridTargetW s + errW else biasedW);
              (out, p') = PIUpdate measured (if m = ModePeakShaving then p else p\<lparr>Setpoint := activeW\<rparr>)
          in (Output out, Some (p'\<lparr>Setpoint := Setpoint p\<rparr>)))"

definition reactiveStep :: "tickMode \<Rightarrow> real \<Rightarrow> bool \<Rightarrow> bool \<Rightarrow> tickSite \<Rightarrow> surplusAccounting \<Rightarrow> State \<Rightarrow>
    (real \<times> real option \<times> State) option" where
  "reactiveStep tm capPct noSelfDischarge noSelfCharge site surplus s =
     (let breaks = batteryBreaksLimit noSelfDischarge noSelfCharge site s; current = tsCurrentTotal site
      in if tsMeterHeld site then (if \<not> breaks then None else Some (current, None, s))
         else
           let biasedW = biasedGridW (tmMode tm) (tsGridW site) surplus s;
               activeW = activeGridTargetW biasedW current s;
               errW = meterErrW (tmMode tm) site biasedW activeW s;
               surplusActive = (EVSurplusOnlyReserveW s > 0 \<and> tmMode tm = ModeSelfConsumption)
           in if \<not> surplusActive \<and> \<bar>errW\<bar> < GridToleranceW s \<and> \<not> breaks then None
              else
                let (outW, p) = controllerStep (tmMode tm) errW biasedW activeW s;
                    (allowed, wrong) = meterClamp errW current (current + outW);
                    s = s\<lparr>PI := (if wrong then map_option (DecayIntegral (1 / 2)) p else p)\<rparr>;
                    clampMove = (if allowed \<noteq> current + outW then Some (allowed - current) else None);
                    w = (if tsGridW site > tsNoCarGridW site \<and> allowed < 0 then 0 else allowed);
                    w = (if surplusActive then surplusLimit site surplus s w else w)
                in Some (planGates tm capPct noSelfDischarge noSelfCharge site surplus s w, clampMove, s))"

section \<open>Battery and car under the fuse\<close>

text \<open>The share of a total under the import ceiling: the battery's total and the car's cap. A planned car goes
  first; an unplanned one shares with the battery in proportion.\<close>

definition shareCeiling :: "real \<Rightarrow> real \<Rightarrow> real \<Rightarrow> real \<Rightarrow> real \<Rightarrow> real \<Rightarrow> real \<times> real" where
  "shareCeiling ceilW rawW currentTotal inMeterW plannedEVW totalW =
     (let B = max 0 totalW; Bn = min 0 totalW; E = max inMeterW plannedEVW; H = rawW - currentTotal - inMeterW
      in if plannedEVW > 0
         then let available = evHeadroomW (Fin ceilW) (Fin (rawW - currentTotal + Bn)) (Fin inMeterW);
                  evW = min E available
              in (Bn + min B (max 0 (available - evW)), evW)
         else let k = max 0 (min 1 ((ceilW - H - Bn) / (B + E)))
              in (Bn + B * k, E * k))"

definition jointAllocate :: "real \<Rightarrow> tickSite \<Rightarrow> real \<Rightarrow> State \<Rightarrow> real \<times> State" where
  "jointAllocate fuseMaxW site totalW s =
     (let s = s\<lparr>FuseEVMaxW := 0, FuseSaturated := False, FuseSaturatedByImport := False\<rparr>;
          plannedEVW = scheduledEVPowerW s;
          inMeterW = evInMeterW s;
          E = max inMeterW plannedEVW
      in if fuseMaxW > 0 \<and> E > 0
         then let ceilW = phaseImportCeilingW fuseMaxW (tsMeter site) s;
                  H = tsRawGridW site - tsCurrentTotal site - inMeterW
              in if H + totalW + E > ceilW \<and> max 0 totalW + E > 0
                 then case shareCeiling ceilW (tsRawGridW site) (tsCurrentTotal site) inMeterW plannedEVW totalW of
                        (batW, evW) \<Rightarrow>
                          (batW, s\<lparr>FuseEVMaxW := evW, FuseSaturated := True, FuseSaturatedByImport := importLimitSets ceilW s\<rparr>)
                 else (totalW, s)
         else (totalW, s))"

section \<open>Splitting and slewing\<close>

definition groupPVOf :: "Store \<Rightarrow> State \<Rightarrow> (string, real) gomap" where
  "groupPVOf store s =
     (if InverterGroups s = [] then []
      else foldl (\<lambda>m r.
             let g = mgetD [] (InverterGroups s) (rDriver r); w = fval (SmoothedW r)
             in if \<not> onlineBattery store (rDriver r) \<or> g = [] \<or> w \<ge> 0 then m
                else mset_at g (mgetD 0 m g + - w) m) [] (ReadingsByType DerPV store))"

definition splitTotal :: "Store \<Rightarrow> tickMode \<Rightarrow> tickSite \<Rightarrow> real \<Rightarrow> State \<Rightarrow> DispatchTarget list \<times> State" where
  "splitTotal store tm site totalW s =
     (if tmHoldActive tm \<and> bhDriver (tmHold tm) \<noteq> []
      then (distributeScopedManualHold (tsBats site) (bhDriver (tmHold tm)) totalW, s)
      else case distributePlannedStorages (tsBats site) totalW (tmHoldActive tm) s of
             (Some ts, s) \<Rightarrow> (ts, s)
           | (None, s) \<Rightarrow>
               (if tmMode tm = ModeSelfConsumption \<or> tmMode tm = ModePeakShaving
                then distributeProportional (tsBats site) (totalW - tsCurrentTotal site) (groupPVOf store s)
                else [], s))"

definition quickStop :: "tickMode \<Rightarrow> string \<Rightarrow> bool" where
  "quickStop tm d =
     (tmExportGate tm \<or> (tmHoldActive tm \<and> bhDriver (tmHold tm) \<noteq> [] \<and> d \<noteq> bhDriver (tmHold tm))
      \<or> (tmHoldActive tm \<and> \<bar>bhPowerW (tmHold tm)\<bar> < 1))"

definition slewFleet :: "Store \<Rightarrow> tickMode \<Rightarrow> tickSite \<Rightarrow> real option \<Rightarrow> State \<Rightarrow> DispatchTarget list \<Rightarrow> DispatchTarget list" where
  "slewFleet store tm site clampMove s ts =
     (let moveW = (case clampMove of None \<Rightarrow> 0 | Some w \<Rightarrow> w);
          slewed = map (slewTarget store s (quickStop tm) moveW) ts;
          ts = map fst slewed;
          ts = (if clampMove \<noteq> None then projectSlewToFleetClamp ts (map snd slewed) else ts);
          ts = clampTargetsToPowerLimits (DriverLimits s) ts
      in if tsMeterHeld site then holdTowardZero (PrevTargets s) ts else ts)"

section \<open>The tick\<close>

definition holdoffToleranceS :: real where "holdoffToleranceS = 1 / 4"

definition inHoldoff :: "State \<Rightarrow> bool" where
  "inHoldoff s =
     (case LastDispatch s of
        None \<Rightarrow> False
      | Some t \<Rightarrow> MinDispatchIntervalS s > ControlIntervalS s
          \<and> seconds (tsub (clock s) t) < real_of_int (MinDispatchIntervalS s) - holdoffToleranceS)"

definition startTick :: "Store \<Rightarrow> (string, real) gomap \<Rightarrow> State \<Rightarrow> State" where
  "startTick store caps s =
     (let s = updateBatteryChargeFull store caps (s\<lparr>controlSlotDecisionID := []\<rparr>);
          s = s\<lparr>controlPlanSnapshot := noSnapshot\<lparr>snapActive := True, snapTickAt := clock s\<rparr>\<rparr>
      in updateSlotDeliveryMetrics (liveBatTotalW store caps) (clock s) s)"

definition plainOptions :: dispatchSafetyOptions where
  "plainOptions = \<lparr>optManualHoldActive = False, optNoSelfDischarge = False, optNoSelfCharge = False, optChargeBlocked = [],
     optFloorBlocked = [], optUpdatePrevTargets = True, optRecordDispatch = True\<rparr>"

text \<open>The tick after mode and site are known and a battery is online.\<close>

definition idleAbsorbCap :: "tickMode \<Rightarrow> State \<Rightarrow> real" where
  "idleAbsorbCap tm s = (if tmIdleSlot tm then pvSurplusAbsorbCap s (tmDirective tm) else 0)"

definition mayNotCharge :: "tickMode \<Rightarrow> tickSite \<Rightarrow> State \<Rightarrow> bool" where
  "mayNotCharge tm site s =
     (let exporting = ((tmIdleSlot tm \<or> tmCoverSlot tm) \<and> tsGridW site - tsCurrentTotal site < - IdleGateThresholdW
                       \<and> idleAbsorbCap tm s \<le> 0)
      in \<not> tmHoldActive tm \<and> (tmExportGate tm \<or> tmNoChargeStale tm \<or> exporting))"

definition fleetTotalW :: "tickMode \<Rightarrow> bool \<Rightarrow> bool \<Rightarrow> tickSite \<Rightarrow> State \<Rightarrow> (real \<times> real option \<times> State) option" where
  "fleetTotalW tm noSelfDischarge noSelfCharge site s =
     (let surplus = newSurplusAccounting (tsRawGridW site) (tsGridW site) (tsCurrentTotal site) s
      in if tmHoldActive tm then Some (bhPowerW (tmHold tm), None, s)
         else if tmEnergyPath tm
         then (case energyTotalW (tmDirective tm) site surplus s of (w, s) \<Rightarrow> Some (w, None, s))
         else reactiveStep tm (idleAbsorbCap tm s) noSelfDischarge noSelfCharge site surplus s)"

definition dispatchFleet :: "Store \<Rightarrow> (string, real) gomap \<Rightarrow> real \<Rightarrow> tickMode \<Rightarrow> tickSite \<Rightarrow> State \<Rightarrow>
    (DispatchTarget list \<times> State) option" where
  "dispatchFleet store caps fuseMaxW tm site s =
     (let noSelfDischarge = (\<not> tmHoldActive tm \<and> planHasNonDischargeIntent s);
          noSelfCharge = mayNotCharge tm site s
      in case fleetTotalW tm noSelfDischarge noSelfCharge site s of
           None \<Rightarrow> fuseSaverEarlyExit store caps fuseMaxW s
         | Some (totalW, clampMove, s) \<Rightarrow>
             let (totalW, s) = jointAllocate fuseMaxW site totalW s;
                 (ts, s) = splitTotal store tm site totalW s;
                 ts = slewFleet store tm site clampMove s ts
             in Some (applyDispatchSafetyPipeline store caps fuseMaxW
                  \<lparr>optManualHoldActive = tmHoldActive tm, optNoSelfDischarge = noSelfDischarge,
                   optNoSelfCharge = noSelfCharge, optChargeBlocked = chargeBlockedDrivers (tsBats site),
                   optFloorBlocked = belowOwnerFloorDrivers (tsBats site), optUpdatePrevTargets = True,
                   optRecordDispatch = True\<rparr> ts s))"

definition runTick :: "Store \<Rightarrow> (string, real) gomap \<Rightarrow> real \<Rightarrow> tickMode \<Rightarrow> State \<Rightarrow> (DispatchTarget list \<times> State) option" where
  "runTick store caps fuseMaxW tm s =
     (if tmMode tm = ModeIdle
      then Some (applyDispatchSafetyPipeline store caps fuseMaxW plainOptions (holdFleetAtZero store caps) s)
      else if tmMode tm = ModeCharge
      then Some (applyDispatchSafetyPipeline store caps fuseMaxW plainOptions (chargeAll store caps (DriverLimits s)) s)
      else if \<not> tmHoldActive tm \<and> inHoldoff s then fuseSaverEarlyExit store caps fuseMaxW s
      else
        let (site, s) = readSite store caps (tmHoldActive tm) s;
            s = expireOfflineFuseRelief (map driver (tsBats site)) s
        in if tsBats site = []
           then Some ([], (publishBatterylessEVFuseBudget store fuseMaxW s)\<lparr>LastTargets := []\<rparr>)
           else dispatchFleet store caps fuseMaxW tm site s)"

definition ComputeDispatch :: "Store \<Rightarrow> (string, real) gomap \<Rightarrow> real \<Rightarrow> State \<Rightarrow> (DispatchTarget list \<times> State) option" where
  "ComputeDispatch store caps fuseMaxW s =
     (case resolveMode (startTick store caps s) of (tm, s) \<Rightarrow>
        map_option (\<lambda>(ts, s). (ts, s\<lparr>controlPlanSnapshot := noSnapshot\<rparr>)) (runTick store caps fuseMaxW tm s))"

section \<open>What a tick keeps of the settings\<close>

text \<open>The battery limits and the car's meter limit are inputs of the tick.\<close>

definition keepsLimits :: "State \<Rightarrow> State \<Rightarrow> bool" where
  "keepsLimits s s' = (DriverLimits s' = DriverLimits s \<and> evLimit s' = evLimit s)"

named_theorems keeps \<open>operations that keep the limits\<close>

lemma keeps_refl [simp]: "keepsLimits s s"
  by (simp add: keepsLimits_def)

lemma keeps_trans: "keepsLimits s s1 \<Longrightarrow> keepsLimits s1 s2 \<Longrightarrow> keepsLimits s s2"
  by (simp add: keepsLimits_def)

lemma keeps_basic [keeps]:
  "keepsLimits s (SetGridTarget w s)" "keepsLimits s (resetPI s)" "keepsLimits s (resetEnergyDispatchBookkeeping s)"
  "keepsLimits s (ClearBatteryManualHold s)" "keepsLimits s (updateBatteryChargeFull store caps s)"
  "keepsLimits s (snd (GetBatteryManualHold t s))" "keepsLimits s (snd (siteMeterHeld meter s))"
  "keepsLimits s (trackVehicles flow s)" "keepsLimits s (expireOfflineFuseRelief ds s)"
  "keepsLimits s (advanceDelivered dir w s)"
  by (simp_all add: keepsLimits_def SetGridTarget_def resetPI_def resetEnergyDispatchBookkeeping_def
      ClearBatteryManualHold_def updateBatteryChargeFull_def GetBatteryManualHold_def siteMeterHeld_def
      trackVehicles_def expireOfflineFuseRelief_def advanceDelivered_def Let_def split: option.split)

lemma keeps_plan [keeps]:
  "keepsLimits s (snd (plannerSelfDirectiveAt t s))" "keepsLimits s (snd (planTargetAt t s))"
  by (simp_all add: keepsLimits_def plannerSelfDirectiveAt_def planTargetAt_def Let_def split: option.split)

lemma keeps_metrics [keeps]: "keepsLimits s (updateSlotDeliveryMetrics w t s)"
proof -
  have "keepsLimits s (scoreSlotDeliveryMetrics s)" "keepsLimits s (countInterval w t s)" for s
    by (simp_all add: keepsLimits_def scoreSlotDeliveryMetrics_def countInterval_def Let_def)
  then have "keepsLimits s (rollSlot dir (countInterval w t s))" for s dir
    by (simp add: keepsLimits_def rollSlot_def Let_def)
  then show ?thesis using keeps_plan(1) [of s t]
    by (simp add: keepsLimits_def updateSlotDeliveryMetrics_def Let_def case_prod_beta)
qed

lemma keeps_hold [keeps]: "keepsLimits s (snd (resolveHold s))"
  using keeps_basic [of s] by (simp add: resolveHold_def Let_def case_prod_beta keepsLimits_def SetGridTarget_def resetPI_def
      resetEnergyDispatchBookkeeping_def ClearBatteryManualHold_def)

lemma keeps_follow [keeps]:
  "keepsLimits s (snd (followDirective dir tm s))" "keepsLimits s (snd (followTarget tm s))"
  using keeps_plan(2) [of s "clock s"]
  by (simp_all add: followDirective_def followTarget_def Let_def case_prod_beta keepsLimits_def SetGridTarget_def
      resetEnergyDispatchBookkeeping_def)

lemma keeps_prepare [keeps]: "keepsLimits s (snd (preparePlannerSelf t s))"
  using keeps_plan(1) [of "resetEnergyDispatchBookkeeping (SetGridTarget 0 s)" t]
  by (simp add: preparePlannerSelf_def Let_def case_prod_beta keepsLimits_def SetGridTarget_def
      resetEnergyDispatchBookkeeping_def)

lemma keeps_resolvePlan [keeps]: "keepsLimits s (snd (resolvePlan tm s))"
  by (auto simp: resolvePlan_def Let_def case_prod_beta intro: keeps keeps_trans [OF keeps_plan(1) keeps_follow(1)]
      keeps_trans [OF keeps_plan(1) keeps_follow(2)] keeps_trans [OF keeps_trans [OF keeps_plan(1) keeps_follow(1)] keeps_follow(2)])

lemma keeps_resolveMode [keeps]: "keepsLimits s (snd (resolveMode s))"
  by (auto simp: resolveMode_def Let_def case_prod_beta intro: keeps keeps_trans [OF keeps_hold keeps_prepare]
      keeps_trans [OF keeps_hold keeps_resolvePlan])

lemma keeps_startTick [keeps]: "keepsLimits s (startTick store caps s)"
  using keeps_metrics by (simp add: startTick_def Let_def keepsLimits_def updateBatteryChargeFull_def)

lemma keeps_readSite [keeps]: "keepsLimits s (snd (readSite store caps b s))"
  using keeps_basic by (simp add: readSite_def Let_def case_prod_beta keepsLimits_def)

lemma keeps_total [keeps]:
  assumes "fleetTotalW tm a b site s = Some (w, m, s')"
  shows "keepsLimits s s'"
proof -
  have e: "keepsLimits s (snd (energyTotalW dir site surplus s))" for dir surplus
    using keeps_basic by (simp add: energyTotalW_def Let_def keepsLimits_def)
  show ?thesis using assms e
    by (auto simp: fleetTotalW_def reactiveStep_def Let_def case_prod_beta keepsLimits_def split: if_splits)
qed

lemma keeps_joint [keeps]: "keepsLimits s (snd (jointAllocate f site w s))"
  by (simp add: jointAllocate_def Let_def case_prod_beta keepsLimits_def)

lemma keeps_split [keeps]: "keepsLimits s (snd (splitTotal store tm site w s))"
proof -
  have "keepsLimits s (snd (distributePlannedStorages bats d m s))" for bats d m
    using keeps_plan(1) [of s "clock s"]
    by (simp add: distributePlannedStorages_def Let_def case_prod_beta keepsLimits_def)
  then show ?thesis by (simp add: splitTotal_def case_prod_beta split: option.split)
qed

section \<open>A tick is safe and returns\<close>

text \<open>What either way out of a tick promises of its commands.\<close>

definition safeTick :: "Store \<Rightarrow> State \<Rightarrow> DispatchTarget list \<Rightarrow> State \<Rightarrow> bool" where
  "safeTick store s out s' =
     (list_all (safeCommand store s) out \<and> list_all (\<lambda>t. BatteryChargePaused (Driver t) s' \<longrightarrow> TargetW t \<le> 0) out)"

lemma safeCommand_keeps: "keepsLimits s s1 \<Longrightarrow> safeCommand store s1 = safeCommand store s"
  by (auto simp: keepsLimits_def safeCommand_def limitsOf_def)

lemma safeTick_keeps: "keepsLimits s s1 \<Longrightarrow> safeTick store s1 out s' \<Longrightarrow> safeTick store s out s'"
  by (simp add: safeTick_def safeCommand_keeps)

lemma safeTick_pipeline:
  assumes "0 \<le> yMaxChargeW (elBatteryYield (evLimit s))"
    "Some (applyDispatchSafetyPipeline store caps f opts ts s) = Some (out, s')"
  shows "safeTick store s out s'"
  using pipeline_safe [OF assms(1), of out s' store caps f opts ts] assms(2)
  by (auto simp: safeTick_def list_all_iff)

lemma safeTick_early: "fuseSaverEarlyExit store caps f s = Some (out, s') \<Longrightarrow> safeTick store s out s'"
  using early_exit_safe [of store caps f s out s'] by (auto simp: safeTick_def list_all_iff)

lemma safeTick_nil [simp]: "safeTick store s [] s'"
  by (simp add: safeTick_def)

lemma dispatchFleet_safe:
  assumes "0 \<le> yMaxChargeW (elBatteryYield (evLimit s))" "dispatchFleet store caps f tm site s = Some (out, s')"
  shows "safeTick store s out s'"
proof (cases "fleetTotalW tm (\<not> tmHoldActive tm \<and> planHasNonDischargeIntent s) (mayNotCharge tm site s) site s")
  case None
  with assms(2) show ?thesis by (simp add: dispatchFleet_def safeTick_early)
next
  case (Some r)
  obtain w mv s1 where r: "r = (w, mv, s1)" by (cases r)
  obtain w2 s2 where j: "jointAllocate f site w s1 = (w2, s2)" by force
  obtain ts s3 where p: "splitTotal store tm site w2 s2 = (ts, s3)" by force
  have k: "keepsLimits s s3"
    using keeps_trans [OF keeps_trans [OF keeps_total [OF Some [unfolded r]] keeps_joint] keeps_split] j p by (metis snd_conv)
  then have "0 \<le> yMaxChargeW (elBatteryYield (evLimit s3))" using assms(1) by (simp add: keepsLimits_def)
  from safeTick_pipeline [OF this] assms(2) have "safeTick store s3 out s'"
    by (auto simp: dispatchFleet_def Some r j p Let_def)
  with k show ?thesis by (rule safeTick_keeps)
qed

lemma runTick_safe:
  assumes "0 \<le> yMaxChargeW (elBatteryYield (evLimit s))" "runTick store caps f tm s = Some (out, s')"
  shows "safeTick store s out s'"
proof -
  let ?b = "tmHoldActive tm"
  let ?site = "fst (readSite store caps ?b s)"
  let ?s2 = "expireOfflineFuseRelief (map driver (tsBats ?site)) (snd (readSite store caps ?b s))"
  have k: "keepsLimits s ?s2" by (rule keeps_trans [OF keeps_readSite keeps_basic(9)])
  then have y: "0 \<le> yMaxChargeW (elBatteryYield (evLimit ?s2))" using assms(1) by (simp add: keepsLimits_def)
  show ?thesis
    using assms(2) safeTick_pipeline [OF assms(1), of store caps f plainOptions _ out s'] safeTick_early [of store caps f s out s']
      safeTick_keeps [OF k dispatchFleet_safe [OF y, of store caps f tm ?site out s']]
    by (auto simp: runTick_def Let_def case_prod_beta split: if_splits)
qed

lemma tick_returns:
  assumes "length caps \<le> maxExactCandidates"
  shows "\<exists>out s'. runTick store caps f tm s = Some (out, s')"
proof -
  have early: "\<exists>out s'. fuseSaverEarlyExit store caps f s = Some (out, s')" for s
    by (rule early_exit_returns [OF assms])
  have fleet: "\<exists>out s'. dispatchFleet store caps f tm site s = Some (out, s')" for site s
    using early by (simp add: dispatchFleet_def Let_def case_prod_beta split: option.split)
  show ?thesis
    using early fleet by (auto simp: runTick_def Let_def case_prod_beta)
qed

section \<open>Shares and slots\<close>

lemma evHeadroomW_bounds:
  "0 \<le> evHeadroomW c g p" "evHeadroomW (Fin ceilW) (Fin gridW) (Fin poolW) \<le> max 0 (ceilW - gridW + poolW)"
  by (auto simp: evHeadroomW_def)

text \<open>Both shares together stay under the ceiling, or the fixed load is above it and nothing is added.\<close>

lemma proportional_fits:
  fixes totalW roomLeft :: real
  assumes "0 < totalW"
  defines "k \<equiv> max 0 (min 1 (roomLeft / totalW))"
  shows "0 \<le> k" "k \<le> 1" "totalW * k \<le> max 0 roomLeft"
proof -
  show "0 \<le> k" "k \<le> 1" by (simp_all add: k_def)
  have "totalW * k = max 0 (min totalW roomLeft)"
    using assms(1) by (auto simp: k_def max_def min_def divide_le_eq le_divide_eq zero_le_divide_iff)
  then show "totalW * k \<le> max 0 roomLeft" by simp
qed

lemma shareCeiling_fits:
  assumes "shareCeiling ceilW rawW currentTotal inMeterW plannedEVW totalW = (batW, evW)"
    "0 < max inMeterW plannedEVW"
  shows "rawW - currentTotal - inMeterW + batW + evW \<le> max ceilW (rawW - currentTotal - inMeterW + min 0 totalW)"
    "0 \<le> evW" "evW \<le> max inMeterW plannedEVW" "min 0 totalW \<le> batW" "batW \<le> totalW"
    "0 < plannedEVW \<Longrightarrow> min 0 totalW < batW \<Longrightarrow> evW = max inMeterW plannedEVW"
proof -
  define B Bn E H where "B = max 0 totalW" and "Bn = min 0 totalW" and "E = max inMeterW plannedEVW"
    and "H = rawW - currentTotal - inMeterW"
  define a k where "a = evHeadroomW (Fin ceilW) (Fin (rawW - currentTotal + Bn)) (Fin inMeterW)"
    and "k = max 0 (min 1 ((ceilW - H - Bn) / (B + E)))"
  have sides: "0 \<le> B" "Bn \<le> 0" "Bn + B = totalW" "0 < E" using assms(2) by (auto simp: B_def Bn_def E_def)
  have a: "0 \<le> a" "a \<le> max 0 (ceilW - H - Bn)"
    using evHeadroomW_bounds(1) evHeadroomW_bounds(2) [of ceilW "rawW - currentTotal + Bn" inMeterW]
    by (simp_all add: a_def H_def algebra_simps)
  have k: "0 \<le> k" "k \<le> 1" "(B + E) * k \<le> max 0 (ceilW - H - Bn)"
    using proportional_fits [of "B + E" "ceilW - H - Bn"] sides by (simp_all add: k_def)
  have part: "0 \<le> E * k" "E * k \<le> E" "0 \<le> B * k" "B * k \<le> B" "B * k + E * k \<le> max 0 (ceilW - H - Bn)"
    using k sides by (simp_all add: mult_left_le distrib_right)
  have planned: "batW = Bn + min B (max 0 (a - evW)) \<and> evW = min E a" if "0 < plannedEVW"
    using assms(1) that by (auto simp: shareCeiling_def Let_def a_def B_def Bn_def E_def)
  have shared: "batW = Bn + B * k \<and> evW = E * k" if "\<not> 0 < plannedEVW"
    using assms(1) that by (auto simp: shareCeiling_def Let_def k_def B_def Bn_def E_def H_def)
  have "H + batW + evW \<le> max ceilW (H + Bn) \<and> 0 \<le> evW \<and> evW \<le> E \<and> Bn \<le> batW \<and> batW \<le> totalW
      \<and> (0 < plannedEVW \<longrightarrow> Bn < batW \<longrightarrow> evW = E)"
  proof (cases "0 < plannedEVW")
    case True
    note p = planned [OF True]
    then show ?thesis using a sides by (auto simp: min_def max_def split: if_splits)
  next
    case False
    then show ?thesis using shared [OF False] part sides by (auto simp: max_def split: if_splits)
  qed
  then show "rawW - currentTotal - inMeterW + batW + evW \<le> max ceilW (rawW - currentTotal - inMeterW + min 0 totalW)"
    "0 \<le> evW" "evW \<le> max inMeterW plannedEVW" "min 0 totalW \<le> batW" "batW \<le> totalW"
    "0 < plannedEVW \<Longrightarrow> min 0 totalW < batW \<Longrightarrow> evW = max inMeterW plannedEVW"
    by (simp_all add: B_def Bn_def E_def H_def)
qed

lemma reset_margins:
  "fuseSafetyMarginW (s\<lparr>FuseEVMaxW := a, FuseSaturated := b, FuseSaturatedByImport := c\<rparr>) = fuseSafetyMarginW s"
  "importHourMeasured (s\<lparr>FuseEVMaxW := a, FuseSaturated := b, FuseSaturatedByImport := c\<rparr>) = importHourMeasured s"
  "phaseImbalanceA m (s\<lparr>FuseEVMaxW := a, FuseSaturated := b, FuseSaturatedByImport := c\<rparr>) = phaseImbalanceA m s"
  "planDirectiveForIntent (s\<lparr>FuseEVMaxW := a, FuseSaturated := b, FuseSaturatedByImport := c\<rparr>) = planDirectiveForIntent s"
  by (simp_all add: fuseSafetyMarginW_def importHourMeasured_def phaseImbalanceA_def planDirectiveForIntent_def
      plannerSelfDirectiveAt_def callDirective_def Let_def cong: if_cong option.case_cong rawmsg.case_cong)

lemma reset_ceiling:
  "importHourLimitsW (s\<lparr>FuseEVMaxW := a, FuseSaturated := b, FuseSaturatedByImport := c\<rparr>) = importHourLimitsW s"
  "effectiveImportCeilingW f (s\<lparr>FuseEVMaxW := a, FuseSaturated := b, FuseSaturatedByImport := c\<rparr>) = effectiveImportCeilingW f s"
  by (simp_all add: importHourLimitsW_def effectiveImportCeilingW_def reset_margins cong: if_cong)

lemma joint_reset:
  "phaseImportCeilingW f m (s\<lparr>FuseEVMaxW := a, FuseSaturated := b, FuseSaturatedByImport := c\<rparr>) = phaseImportCeilingW f m s"
  "scheduledEVPowerW (s\<lparr>FuseEVMaxW := a, FuseSaturated := b, FuseSaturatedByImport := c\<rparr>) = scheduledEVPowerW s"
  "evInMeterW (s\<lparr>FuseEVMaxW := a, FuseSaturated := b, FuseSaturatedByImport := c\<rparr>) = evInMeterW s"
  by (simp_all add: phaseImportCeilingW_def scheduledEVPowerW_def evInMeterW_def commandedDemandW_def evShownW_def
      reset_margins reset_ceiling Let_def cong: if_cong option.case_cong)

text \<open>The part of a slot that has passed is credited in full, so what is left never needs more than the
  slot's average power.\<close>

lemma creditDelivered_between:
  assumes "SlotStart dir < now" "now < SlotEnd dir" "SlotEnd dir - SlotStart dir \<le> maxDuration"
  defines "e \<equiv> BatteryEnergyWh dir"
  defines "p \<equiv> real_of_int (now - SlotStart dir) / real_of_int (SlotEnd dir - SlotStart dir)"
  shows "0 < e \<Longrightarrow> p * e \<le> creditDelivered dir now del \<and> creditDelivered dir now del \<le> e"
    "e < 0 \<Longrightarrow> e \<le> creditDelivered dir now del \<and> creditDelivered dir now del \<le> p * e"
proof -
  let ?len = "SlotEnd dir - SlotStart dir" and ?gone = "now - SlotStart dir"
  have t: "tsub (SlotEnd dir) (SlotStart dir) = ?len" "tsub now (SlotStart dir) = ?gone"
    using assms(1-3) by (auto intro!: tsub_exact simp: minDuration_def)
  have ratio: "seconds a * e / seconds b = real_of_int a / real_of_int b * e" for a b
    by (simp add: seconds_def)
  have "real_of_int ?gone < real_of_int ?len" "0 < real_of_int ?len" using assms(1,2) by simp_all
  then have p: "p < 1" "seconds ?gone * e / seconds ?len = p * e"
    by (simp_all only: p_def ratio divide_less_eq_1_pos)
  have in_slot: "0 < seconds ?len" "0 < seconds ?gone" "seconds ?gone < seconds ?len"
    using assms(1,2) by (simp_all add: seconds_def)
  have pe: "0 < e \<Longrightarrow> p * e < e" "e < 0 \<Longrightarrow> e < p * e"
    using mult_strict_right_mono [OF p(1), of e] mult_strict_right_mono_neg [OF p(1), of e] by simp_all
  show "p * e \<le> creditDelivered dir now del \<and> creditDelivered dir now del \<le> e" if "0 < e"
    using that pe in_slot by (simp add: creditDelivered_def Let_def t p(2) flip: e_def)
  show "e \<le> creditDelivered dir now del \<and> creditDelivered dir now del \<le> p * e" if "e < 0"
    using that pe in_slot by (simp add: creditDelivered_def Let_def t p(2) flip: e_def)
qed

section \<open>Properties\<close>

text \<open>Every command a tick sends is safe, whichever mode, plan, hold or early exit it came by: inside the
  driver's charge and discharge limits, a discharge only of a battery whose charge level is known, and
  never a charge of a battery whose charging is paused.\<close>

theorem compute_dispatch_safe:
  assumes "0 \<le> yMaxChargeW (elBatteryYield (evLimit s))" "ComputeDispatch store caps fuseMaxW s = Some (out, s')" "t \<in> set out"
  shows "- dischargeCap (limitsOf s (Driver t)) \<le> TargetW t \<and> TargetW t \<le> chargeCap (limitsOf s (Driver t))
    \<and> (TargetW t < 0 \<longrightarrow> (\<exists>r. Get (Driver t) DerBattery store = Some r \<and> SoC r \<noteq> None))
    \<and> (BatteryChargePaused (Driver t) s' \<longrightarrow> TargetW t \<le> 0)"
proof -
  obtain tm s1 where m: "resolveMode (startTick store caps s) = (tm, s1)" by force
  have k: "keepsLimits s s1" using keeps_trans [OF keeps_startTick keeps_resolveMode] m by (metis snd_conv)
  then have y: "0 \<le> yMaxChargeW (elBatteryYield (evLimit s1))" using assms(1) by (simp add: keepsLimits_def)
  obtain s2 where r: "runTick store caps fuseMaxW tm s1 = Some (out, s2)" "s' = s2\<lparr>controlPlanSnapshot := noSnapshot\<rparr>"
    using assms(2) by (auto simp: ComputeDispatch_def m)
  from safeTick_keeps [OF k runTick_safe [OF y r(1)]] assms(3) show ?thesis
    by (auto simp: safeTick_def safeCommand_def list_all_iff r(2) BatteryChargePaused_def)
qed

definition chargeTick :: State where
  "chargeTick = (NewState 0 50 ''m'' (\<lambda>_. 0) 0)\<lparr>Mode := ModeCharge\<rparr>"

lemma chargeTick_out:
  "\<exists>t s'. ComputeDispatch (fullBattery (1 / 2)) [(''b'', 10000)] 17250 chargeTick = Some ([t], s') \<and> Driver t = ''b''"
proof -
  let ?st = "fullBattery (1 / 2)" and ?c = "[(''b'', 10000 :: real)]"
  obtain tm s1 where m: "resolveMode (startTick ?st ?c chargeTick) = (tm, s1)" by force
  have tm: "tmMode tm = ModeCharge" "Mode s1 = ModeCharge"
    using m by (auto simp: resolveMode_def resolveHold_def startTick_def updateSlotDeliveryMetrics_def chargeTick_def NewState_def
        updateBatteryChargeFull_def GetBatteryManualHold_def mode_defs IsPlannerMode_def noBatteryHold_def isZero_def Let_def)
  let ?ts = "chargeAll ?st ?c (DriverLimits s1)"
  have ts: "map Driver ?ts = [''b'']"
    by (simp add: chargeAll_def onlineBattery_def fullBattery_simps RecordSuccess_def newHealth_def IsOnline_def)
  obtain out s2 where p: "(out, s2) = applyDispatchSafetyPipeline ?st ?c 17250 plainOptions ?ts s1" by (metis surj_pair)
  have "keepsLimits chargeTick s1" using keeps_trans [OF keeps_startTick keeps_resolveMode] m by (metis snd_conv)
  then have "0 \<le> yMaxChargeW (elBatteryYield (evLimit s1))"
    by (simp add: keepsLimits_def chargeTick_def NewState_def noEVLimit_def noYield_def)
  from pipeline_drivers [OF this p] ts obtain t where "out = [t]" "Driver t = ''b''" by (cases out) auto
  then show ?thesis using tm by (simp add: ComputeDispatch_def m runTick_def mode_defs p [symmetric])
qed

theorem compute_dispatch_safe_witness:
  "\<exists>t out s'. ComputeDispatch (fullBattery (1 / 2)) [(''b'', 10000)] 17250 chargeTick = Some (out, s')
    \<and> t \<in> set out \<and> - 5000 \<le> TargetW t \<and> TargetW t \<le> 5000"
proof -
  obtain t s' where t: "ComputeDispatch (fullBattery (1 / 2)) [(''b'', 10000)] 17250 chargeTick = Some ([t], s')" "Driver t = ''b''"
    using chargeTick_out by blast
  have "chargeCap (limitsOf chargeTick ''b'') = 5000" "dischargeCap (limitsOf chargeTick ''b'') = 5000"
    by (simp_all add: limitsOf_def chargeTick_def NewState_def chargeCap_def dischargeCap_def effectivePowerLimit_def
        noLimits_def MaxCommandW_def)
  moreover have "0 \<le> yMaxChargeW (elBatteryYield (evLimit chargeTick))"
    by (simp add: chargeTick_def NewState_def noEVLimit_def noYield_def)
  note compute_dispatch_safe [OF this t(1), of t]
  ultimately show ?thesis using t by auto
qed



text \<open>The meter clamp never overshoots: against an import the fleet moves down by at most the error (and up
  by at most the watt the controller may jitter), against an export up by at most the error, and never further
  than the controller asked; a total that already fits is left alone.\<close>

theorem meter_clamp_never_overshoots:
  assumes "(allowed, wrong) = meterClamp errW currentTotal targetTotal"
  shows "(errW > 0 \<longrightarrow> currentTotal - errW \<le> allowed \<and> allowed \<le> currentTotal + 1)
    \<and> (errW < 0 \<longrightarrow> currentTotal - 1 \<le> allowed \<and> allowed \<le> currentTotal - errW)
    \<and> \<bar>allowed - currentTotal\<bar> \<le> \<bar>targetTotal - currentTotal\<bar>
    \<and> (wrong \<longrightarrow> allowed = currentTotal)
    \<and> (errW > 0 \<and> currentTotal - errW \<le> targetTotal \<and> targetTotal \<le> currentTotal + 1 \<longrightarrow> allowed = targetTotal)"
  using assms by (auto simp: meterClamp_def Let_def split: if_splits)

theorem meter_clamp_never_overshoots_witness: "fst (meterClamp 500 0 (- 3000)) = - 500"
  using meter_clamp_never_overshoots [of "fst (meterClamp 500 0 (- 3000))" "snd (meterClamp 500 0 (- 3000))" 500 0 "- 3000"]
  by (simp add: meterClamp_def)

text \<open>C25: A fleet and a car that do not both fit under the fuse share it: house, battery and car together stay
  under the import ceiling (or nothing is added to a house already above it), the car is offered at most what it
  asked, the battery is only ever moved down and never into a discharge nobody asked for, and a planned car
  comes first: the battery charges only when the car has its full demand.\<close>

theorem joint_share_fits_ceiling:
  assumes "(batW, s') = jointAllocate fuseMaxW site totalW s" "FuseSaturated s'"
  defines "ceilW \<equiv> phaseImportCeilingW fuseMaxW (tsMeter site) s"
    and "H \<equiv> tsRawGridW site - tsCurrentTotal site - evInMeterW s"
    and "E \<equiv> max (evInMeterW s) (scheduledEVPowerW s)"
  shows "H + batW + FuseEVMaxW s' \<le> max ceilW (H + min 0 totalW)
    \<and> 0 \<le> FuseEVMaxW s' \<and> FuseEVMaxW s' \<le> E \<and> min 0 totalW \<le> batW \<and> batW \<le> totalW
    \<and> (0 < scheduledEVPowerW s \<and> min 0 totalW < batW \<longrightarrow> FuseEVMaxW s' = E)"
proof -
  obtain b ev where e: "shareCeiling ceilW (tsRawGridW site) (tsCurrentTotal site) (evInMeterW s) (scheduledEVPowerW s) totalW = (b, ev)"
    by force
  have "0 < E" "batW = b" "FuseEVMaxW s' = ev"
    using assms(1,2) e by (auto simp: jointAllocate_def Let_def joint_reset E_def ceilW_def split: if_splits)
  then show ?thesis using shareCeiling_fits [OF e] by (simp add: E_def H_def)
qed

definition sharedSite :: tickSite where
  "sharedSite = \<lparr>tsRawGridW = 9000, tsGridW = 9000, tsChargeGridW = 9000, tsNoCarGridW = 9000, tsCurrentTotal = 0,
     tsV2XDischargeW = 0, tsMeter = None, tsMeterHeld = False, tsBats = []\<rparr>"

definition sharedTick :: State where
  "sharedTick = (NewState 0 50 ''m'' (\<lambda>_. 0) 0)\<lparr>ManualEVChargingW := 7000\<rparr>"

lemma sharedTick_simps:
  "evInMeterW sharedTick = 7000" "scheduledEVPowerW sharedTick = 0" "phaseImportCeilingW 11000 None sharedTick = 11000"
  "FuseSaturated (snd (jointAllocate 11000 sharedSite 4000 sharedTick))"
proof -
  show e: "evInMeterW sharedTick = 7000" "scheduledEVPowerW sharedTick = 0" "phaseImportCeilingW 11000 None sharedTick = 11000"
    by (simp_all add: sharedTick_def NewState_def evInMeterW_def evShownW_def noEVLimit_def scheduledEVPowerW_def
        commandedDemandW_def IsPlannerMode_def mode_defs phaseImportCeilingW_def effectiveImportCeilingW_def
        importHourLimitsW_def fuseSafetyMarginW_def phaseImbalanceA_def)
  then show "FuseSaturated (snd (jointAllocate 11000 sharedSite 4000 sharedTick))"
    by (simp add: jointAllocate_def joint_reset sharedSite_def Let_def case_prod_beta)
qed

theorem joint_share_fits_ceiling_witness:
  "\<exists>batW s'. (batW, s') = jointAllocate 11000 sharedSite 4000 sharedTick \<and> 2000 + batW + FuseEVMaxW s' \<le> 11000"
  using joint_share_fits_ceiling [of _ "snd (jointAllocate 11000 sharedSite 4000 sharedTick)", OF surjective_pairing [symmetric] sharedTick_simps(4)]
  by (auto simp: sharedTick_simps(1-3) sharedSite_def intro!: exI surjective_pairing [symmetric])



end
