(* ===== verification/Ev_Meter_Limit.thy ===== *)
theory Ev_Meter_Limit
  imports Ev_Battery
begin

text \<open>
  The managed cars' common hard cap (\<open>ev_fuse_budget.go\<close>, \<^emph>\<open>EVFuseBudget\<close> and \<^emph>\<open>stepEVMeterLimit\<close>;
  \<open>ev_battery_priority.go\<close>, \<^emph>\<open>yieldBatteryBeforeEVCut\<close>). The cap reads the site meter and our own commands: it
  cuts on a reading over the fuse or the hour's import limit, holds between, rises by a step where the meter shows
  room, and starts an idle pool after a dwell. An import ceiling that is off, plus infinity in the code, is \<open>None\<close>.
\<close>

section \<open>The pool of plugged chargers\<close>

record evPool =
  poolOfferW :: real
  poolWantW :: "real option"
  poolMinW :: real
  poolPhases :: real
  poolOfferKnown :: bool
  poolOffers :: "(string, real) gomap"

record lpConfig =
  lcID :: string
  lcPhaseMode :: string
  lcMinChargeW :: real

definition noConfig :: lpConfig where "noConfig = \<lparr>lcID = [], lcPhaseMode = [], lcMinChargeW = 0\<rparr>"

definition configsByID :: "lpConfig list \<Rightarrow> (string, lpConfig) gomap" where
  "configsByID configs = foldl (\<lambda>m c. mset_at (lcID c) c m) [] configs"

definition addPoint :: "(string, lpConfig) gomap \<Rightarrow> evPool \<Rightarrow> lpState \<Rightarrow> evPool" where
  "addPoint byID pool point =
     (let cfg = mgetD noConfig byID (lpID point);
          pool = (if lcPhaseMode cfg \<noteq> [] \<and> lcPhaseMode cfg \<noteq> ''3p'' then pool\<lparr>poolPhases := 1\<rparr> else pool);
          pool = (if lcMinChargeW cfg > 0 \<and> (poolMinW pool = 0 \<or> lcMinChargeW cfg < poolMinW pool)
                  then pool\<lparr>poolMinW := lcMinChargeW cfg\<rparr> else pool)
      in pool\<lparr>poolOfferKnown := (poolOfferKnown pool \<and> lpCommandedKnown point)\<rparr>)"

definition evPoolFor :: "lpState list \<Rightarrow> lpConfig list \<Rightarrow> State \<Rightarrow> evPool option" where
  "evPoolFor points configs s =
     (let plugged = filter lpPluggedIn points;
          pool = foldl (addPoint (configsByID configs))
                   \<lparr>poolOfferW = 0, poolWantW = None, poolMinW = 0, poolPhases = 3, poolOfferKnown = True, poolOffers = []\<rparr> plugged;
          pool = pool\<lparr>poolOffers := CommandedEVPowerByDriver points\<rparr>;
          pool = (if poolOfferKnown pool then pool\<lparr>poolOfferW := CommandedEVPowerW points\<rparr> else pool);
          pool = (if evFuseDemandsSet s then pool\<lparr>poolWantW := Some (sum_list (map fdPowerW (evFuseDemands s)))\<rparr> else pool);
          pool = (if SiteFusePhases s \<ge> 1 \<and> real_of_int (SiteFusePhases s) < poolPhases pool
                  then pool\<lparr>poolPhases := real_of_int (SiteFusePhases s)\<rparr> else pool)
      in if plugged = [] then None else Some pool)"

section \<open>What a reading leaves\<close>

definition evRestartDwell :: duration where "evRestartDwell = 35 * second"
definition fuseHourFactor :: real where "fuseHourFactor = 5 / 4"

record evMeterRoom =
  erFuseW :: real
  erFuseOverW :: real
  erFuseOverA :: real
  erPerPhase :: bool
  erOverLimit :: bool
  erLimitW :: "real option"
  erRiseW :: "real option"
  erStartLevelW :: "real option"
  erHourly :: bool
  erMeasured :: bool
  erWorstA :: real
  erPhaseRoomA :: real
  erPhaseRoomKnown :: bool
  erStartW :: real
  erStartRoomA :: real

text \<open>Comparison and minimum with a level that may be off.\<close>

definition under :: "real option \<Rightarrow> real \<Rightarrow> bool" where
  "under l w = (case l of None \<Rightarrow> False | Some v \<Rightarrow> v < w)"

definition minOff :: "real \<Rightarrow> real option \<Rightarrow> real" where
  "minOff w l = (case l of None \<Rightarrow> w | Some v \<Rightarrow> min w v)"

definition startLevelW :: "real \<Rightarrow> State \<Rightarrow> real" where
  "startLevelW upW s =
     (if tsub (importHourStart (importHourZone s) (clock s) + hour) (clock s) < importHourRiseMinLeft
      then min upW (PeakImportCeilingW s) else upW)"

definition totalRoom :: "real \<Rightarrow> real \<Rightarrow> pendingLoad \<Rightarrow> State \<Rightarrow> evMeterRoom" where
  "totalRoom gridW fuseMaxW sentLoad s =
     (let totalW = max 0 (fuseMaxW - fuseSafetyMarginW s) - gridW
      in \<lparr>erFuseW = totalW - plW sentLoad, erFuseOverW = max 0 (- totalW), erFuseOverA = 0, erPerPhase = False,
          erOverLimit = (totalW < 0),
          erLimitW = map_option (\<lambda>(l, _). l - gridW) (importHourLimitsW s),
          erRiseW = map_option (\<lambda>(_, r). r - gridW - plW sentLoad) (importHourLimitsW s),
          erStartLevelW = map_option (\<lambda>(_, r). startLevelW r s) (importHourLimitsW s),
          erHourly = (importHourLimitsW s \<noteq> None \<and> importHourMeasured s), erMeasured = False, erWorstA = 0, erPhaseRoomA = 0,
          erPhaseRoomKnown = False, erStartW = totalW - plW sentLoad, erStartRoomA = 0\<rparr>)"

definition phaseRoom :: "real list \<Rightarrow> real \<Rightarrow> pendingLoad \<Rightarrow> State \<Rightarrow> evMeterRoom \<Rightarrow> evMeterRoom" where
  "phaseRoom amps phases sentLoad s r =
     (let limitA = fuseLineA s; perA = SiteFuseVoltage s * phases; h = fuseHeat s; worst = foldl max 0 amps;
          overNowA = overA amps limitA (fuseInstantFactor * SiteFuseAmps s) h
      in r\<lparr>erMeasured := True, erWorstA := worst,
           erFuseW := min (erFuseW r) ((limitA - fval (levelA amps (plPhaseA sentLoad) h)) * perA),
           erPhaseRoomA := limitA - fval (levelA amps [0, 0, 0] h), erPhaseRoomKnown := True,
           erStartW := min (erStartW r) ((limitA - fval (startLevelA amps (plPhaseA sentLoad) limitA h)) * perA),
           erStartRoomA := limitA - fval (startLevelA amps [0, 0, 0] limitA h),
           erFuseOverA := overNowA, erFuseOverW := overNowA * perA, erPerPhase := True, erOverLimit := (worst > limitA)\<rparr>)"

definition evMeterRoomOf :: "DerReading \<Rightarrow> real \<Rightarrow> real \<Rightarrow> real \<Rightarrow> pendingLoad \<Rightarrow> State \<Rightarrow> evMeterRoom" where
  "evMeterRoomOf meter gridW phases fuseMaxW sentLoad s =
     (let r = totalRoom gridW fuseMaxW sentLoad s
      in case phaseCurrentsA meter s (Fin gridW) of (amps, present, valid) \<Rightarrow>
           if present \<and> \<not> valid then r\<lparr>erPhaseRoomKnown := True\<rparr>
           else if present then phaseRoom amps phases sentLoad s r
           else r\<lparr>erMeasured := True\<rparr>)"

definition wholeStepsW :: "real \<Rightarrow> real \<Rightarrow> real" where
  "wholeStepsW w step = (if \<not> step > 0 then w else real_of_int \<lfloor>w / step + 1 / 1000000000\<rfloor> * step)"

section \<open>The battery yields first\<close>

text \<open>The charge the batteries may still show, and the charge they were last told.\<close>

definition batteryChargeSums :: "Store \<Rightarrow> State \<Rightarrow> real \<times> real" where
  "batteryChargeSums store s =
     foldl (\<lambda>(available, commanded) (d, l).
         case (DriverHealthOf d store, logSpan (clock s) l) of
           (Some h, Some (_, high, latest)) \<Rightarrow>
             if IsOnline h then (available + max 0 high, commanded + max 0 latest) else (available, commanded)
         | _ \<Rightarrow> (available, commanded)) (0, 0) (batteryCommands s)"

definition heatedA :: "fuseHeat \<Rightarrow> nat \<Rightarrow> real \<Rightarrow> real" where
  "heatedA h i a = max a (sqrt (heatSq h ! i))"

definition mayYield :: "Store \<Rightarrow> DerReading \<Rightarrow> evMeterRoom \<Rightarrow> evPool \<Rightarrow> real \<Rightarrow> real \<Rightarrow> real \<Rightarrow> pendingLoad \<Rightarrow> bool \<Rightarrow> State \<Rightarrow> bool" where
  "mayYield store meter r pool requiredW gridW pendingW rise fresh s =
     (if \<not> fresh \<or> \<not> erPerPhase r \<or> poolOfferW pool \<le> 0 \<or> requiredW \<le> 0 \<or> SiteFuseVoltage s \<le> 0 \<or> SiteFusePhases s \<le> 0
      then False
      else case phaseCurrentsA meter s (Fin gridW) of (amps, present, valid) \<Rightarrow>
        let lineA = fuseLineA s; perA = SiteFuseVoltage s * real_of_int (SiteFusePhases s)
        in if \<not> present \<or> \<not> valid \<or> gridW + plW rise + pendingW > lineA * perA then False
           else if list_ex (\<lambda>(i, a). heatedA (fuseHeat s) i a + plPhaseA rise ! i + pendingW / perA > lineA) (zip [0..<length amps] amps)
           then False
           else if fst (batteryChargeSums store s) + 1 / 1000000 < requiredW then False
           else \<not> list_ex (\<lambda>a. a - requiredW / perA < - SiteFuseAmps s) amps)"

definition yieldBatteryBeforeEVCut :: "Store \<Rightarrow> DerReading \<Rightarrow> evMeterRoom \<Rightarrow> evPool \<Rightarrow> real \<Rightarrow> real \<Rightarrow> real \<Rightarrow> pendingLoad \<Rightarrow>
    bool \<Rightarrow> State \<Rightarrow> bool \<times> State" where
  "yieldBatteryBeforeEVCut store meter r pool requiredW gridW pendingW rise fresh s =
     (if \<not> mayYield store meter r pool requiredW gridW pendingW rise fresh s then (False, s)
      else let y = elBatteryYield (evLimit s);
               y = (if \<not> yTried y then y\<lparr>yTried := True, yUntil := clock s + evSettle\<rparr> else y);
               keepsOffer = (clock s < yUntil y);
               y = (if keepsOffer then y\<lparr>yActive := True, yMaxChargeW := max 0 (snd (batteryChargeSums store s) - requiredW)\<rparr> else y)
           in (keepsOffer, s\<lparr>evLimit := (evLimit s)\<lparr>elBatteryYield := y\<rparr>\<rparr>))"

section \<open>An idle pool starts\<close>

definition stepEVIdleStart :: "evMeterRoom \<Rightarrow> real \<Rightarrow> evPool \<Rightarrow> bool \<Rightarrow> bool \<Rightarrow> bool \<Rightarrow> time \<Rightarrow> time \<Rightarrow> real \<Rightarrow> real \<Rightarrow>
    evMeterLimit \<Rightarrow> evMeterLimit" where
  "stepEVIdleStart r gridW pool isFirst gap fresh now prevAt pendingW step lm =
     (let readingW = (if \<not> erHourly r then minOff (erStartW r) (erRiseW r) else erStartW r);
          byImport = (if \<not> erHourly r then under (erRiseW r) (erStartW r)
                      else under (map_option (\<lambda>l. l - gridW - pendingW) (erStartLevelW r)) (erStartW r));
          lm = lm\<lparr>elCapW := 0, elByImport := byImport\<rparr>;
          leftW = (if fresh then max 0 readingW else 0);
          marginW = (if \<not> erHourly r \<and> under (erRiseW r) (erStartW r) then step else 0)
      in if leftW + 1 / 1000000 < poolMinW pool + marginW then lm\<lparr>elRoomSince := zeroTime\<rparr>
         else
           let lm = (if isFirst then lm\<lparr>elRoomSince := now - evRestartDwell, elIdleWh := max 0 gridW * hours evRestartDwell\<rparr>
                      else if isZero (elRoomSince lm) \<or> gap then lm\<lparr>elRoomSince := now, elIdleWh := 0\<rparr>
                      else lm\<lparr>elIdleWh := elIdleWh lm + max 0 gridW * hours (tsub now prevAt)\<rparr>);
               dwell = tsub now (elRoomSince lm)
           in if dwell < evRestartDwell then lm
              else
                let lm = lm\<lparr>elCapW := max (poolMinW pool) (wholeStepsW (leftW - marginW) step)\<rparr>
                in if \<not> erHourly r then lm
                   else let ceilRoomW = map_option (\<lambda>l. l - elIdleWh lm / hours dwell - pendingW) (erStartLevelW r)
                        in if under ceilRoomW (poolMinW pool)
                           then lm\<lparr>elCapW := 0, elRoomSince := now, elIdleWh := 0, elByImport := True\<rparr>
                           else lm\<lparr>elCapW := minOff (elCapW lm) ceilRoomW\<rparr>)"

section \<open>What the fuse cuts\<close>

text \<open>The run over the working limit: when it began and when a stretch under it began.\<close>

definition trackRun :: "evMeterRoom \<Rightarrow> bool \<Rightarrow> time \<Rightarrow> evMeterLimit \<Rightarrow> evMeterLimit" where
  "trackRun r gap now lm =
     (if erOverLimit r
      then let lm = lm\<lparr>elFuseUnderAt := zeroTime\<rparr>
           in if isZero (elFuseOverAt lm) \<or> gap then lm\<lparr>elFuseOverAt := now, elFuseCutAt := zeroTime\<rparr> else lm
      else if isZero (elFuseUnderAt lm) then lm\<lparr>elFuseUnderAt := now\<rparr>
      else if tsub now (elFuseUnderAt lm) \<ge> evSettle then lm\<lparr>elFuseOverAt := zeroTime, elFuseCutAt := zeroTime\<rparr>
      else lm)"

text \<open>Cuts on their way cover a phase up to the reading they were sent for.\<close>

definition phaseCoverA :: "State \<Rightarrow> nat \<Rightarrow> real \<Rightarrow> real \<Rightarrow> real" where
  "phaseCoverA s i a coverA =
     (let lm = evLimit s
      in if elCutForSet lm \<and> a > elCutForA lm ! i + evMoveA
         then min coverA (max 0 (elCutForA lm ! i - fuseLineA s)) else coverA)"

definition phaseNeedA :: "State \<Rightarrow> real \<Rightarrow> nat \<Rightarrow> real \<Rightarrow> real \<Rightarrow> real \<Rightarrow> real" where
  "phaseNeedA s riseA i a coverA aheadA =
     (let lineA = fuseLineA s; instantA = fuseInstantFactor * SiteFuseAmps s; hot = (heatSq (fuseHeat s) ! i > lineA * lineA);
          landA = a + aheadA - coverA;
          needA = (if landA > instantA \<or> hot \<and> landA > lineA then min (aheadA - coverA) (landA - lineA) else 0)
      in if a > lineA \<and> (hot \<or> a > instantA) then max needA (a + riseA - coverA - lineA) else needA)"

definition sitePhaseCount :: "State \<Rightarrow> nat" where
  "sitePhaseCount s = nat (SiteFusePhases s)"

definition coverNowA :: "unshownResult \<Rightarrow> State \<Rightarrow> real list" where
  "coverNowA o' s = (if worstA (fuseHeat s) > fuseHourFactor * SiteFuseAmps s then [0, 0, 0] else plPhaseA (urCover o'))"

definition forgetShownCuts :: "unshownResult \<Rightarrow> State \<Rightarrow> State" where
  "forgetShownCuts o' s =
     (if list_all (\<lambda>c. c \<le> 0) (take (sitePhaseCount s) (coverNowA o' s))
      then s\<lparr>evLimit := (evLimit s)\<lparr>elCutForSet := False\<rparr>\<rparr> else s)"

definition phaseCutA :: "unshownResult \<Rightarrow> State \<Rightarrow> real" where
  "phaseCutA o' s =
     foldl (\<lambda>cutA i. let a = elPhasesA (evLimit s) ! i
                     in max cutA (phaseNeedA s (hiA (plPhaseA (urRise o'))) i a (phaseCoverA s i a (coverNowA o' s ! i)) (urAheadA o' ! i)))
       0 [0..<sitePhaseCount s]"

text \<open>The watts the fuse cuts, whether it is over, and the state.\<close>

definition fuseCut :: "evMeterRoom \<Rightarrow> real \<Rightarrow> unshownResult \<Rightarrow> State \<Rightarrow> (real \<times> bool) \<times> State" where
  "fuseCut r phases o' s =
     (if erPerPhase r \<and> elPhasesSeen (evLimit s)
      then let s = forgetShownCuts o' s; cutA = phaseCutA o' s
           in ((cutA * SiteFuseVoltage s * phases, erFuseOverW r > 0 \<or> cutA > 0), s)
      else ((erFuseOverW r + plW (urRise o') - plW (urCover o'), erFuseOverW r > 0), s))"

definition fuseCapW :: "evMeterRoom \<Rightarrow> real \<Rightarrow> real \<Rightarrow> real \<Rightarrow> real" where
  "fuseCapW r latestW cutW step =
     (if cutW > 0 then (if erPerPhase r then wholeStepsW (latestW - cutW) step else latestW - cutW) else latestW)"

text \<open>The hour's cut: the cap it leaves and whether the hour sets it.\<close>

definition hourCut :: "evMeterRoom \<Rightarrow> evPool \<Rightarrow> bool \<Rightarrow> time \<Rightarrow> real \<Rightarrow> real \<Rightarrow> real option \<Rightarrow> evMeterLimit \<Rightarrow>
    (real option \<times> bool) \<times> evMeterLimit" where
  "hourCut r pool gap now step peakW capW lm =
     (case erLimitW r of
        None \<Rightarrow> ((capW, False), lm\<lparr>overSince := zeroTime\<rparr>)
      | Some l \<Rightarrow>
          if l \<ge> 0 then ((capW, False), lm\<lparr>overSince := zeroTime\<rparr>)
          else
            let lm = (if isZero (overSince lm) \<or> gap then lm\<lparr>overSince := now, overOffers := poolOffers pool\<rparr> else lm)
            in if \<not> erHourly r \<or> gap \<or> - l \<ge> step \<or> tsub now (overSince lm) \<ge> evSettle
               then ((Some (minOff (peakW + l) capW), (case capW of None \<Rightarrow> True | Some w \<Rightarrow> peakW + l < w)), lm)
               else ((capW, False), lm))"

text \<open>The cut itself: never a rise, and noted with the reading it was sent for.\<close>

definition takeCut :: "evMeterRoom \<Rightarrow> real option \<Rightarrow> real \<Rightarrow> bool \<Rightarrow> State \<Rightarrow> State" where
  "takeCut r prev capW byImport s =
     (let lm = evLimit s; newW = minOff (max 0 capW) prev;
          lm = lm\<lparr>elByImport := byImport, elCapW := newW, elRoomSince := zeroTime\<rparr>
      in if (case prev of None \<Rightarrow> True | Some w \<Rightarrow> newW < w)
         then let lm = lm\<lparr>elCutAt := clock s\<rparr>;
                  lm = (if elPhasesSeen lm
                         then lm\<lparr>elCutForA := map (\<lambda>i. let a = elPhasesA lm ! i
                                     in if \<not> elCutForSet lm \<or> a > elCutForA lm ! i then a else elCutForA lm ! i) [0, 1, 2],
                                  elCutForSet := True\<rparr>
                         else lm);
                  lm = (if erFuseOverW r > 0 \<and> isZero (elFuseCutAt lm) then lm\<lparr>elFuseCutAt := clock s\<rparr> else lm)
              in s\<lparr>evLimit := lm\<rparr>
         else s\<lparr>evLimit := lm\<rparr>)"

section \<open>The step\<close>

definition logPeakW :: "State \<Rightarrow> real" where
  "logPeakW s = foldl (\<lambda>w (_, c). case logSpan (clock s) (coLog c) of None \<Rightarrow> w | Some (_, high, _) \<Rightarrow> w + high) 0 (elOffers (evLimit s))"

text \<open>A rise of a running pool: one step, or the rest of the demand, once it fits under the working limit and
  keeps a step free under the hour's.\<close>

definition stepUpW :: "evPool \<Rightarrow> real \<Rightarrow> real \<Rightarrow> real option \<Rightarrow> real \<Rightarrow> bool \<Rightarrow> real \<Rightarrow> real" where
  "stepUpW pool peakW fuseRoomW importRoomW step settled capW =
     (let remaining = map_option (\<lambda>w. w - peakW) (poolWantW pool);
          wants = (case poolWantW pool of None \<Rightarrow> True | Some w \<Rightarrow> capW < w \<and> w - peakW > 0);
          fits = (fuseRoomW + 1 / 1000000 \<ge> minOff step remaining
                  \<and> (case importRoomW of None \<Rightarrow> True | Some w \<Rightarrow> w \<ge> 2 * step));
          upW = minOff (min (capW + step) (peakW + fuseRoomW)) (map_option (\<lambda>w. peakW + w - step) importRoomW)
      in if wants \<and> settled \<and> fits then max capW upW else capW)"

text \<open>Beside a charging battery the last step may use the room up to the demand.\<close>

definition lastStepW :: "evPool \<Rightarrow> real \<Rightarrow> real \<Rightarrow> real \<Rightarrow> bool \<Rightarrow> bool \<Rightarrow> real \<Rightarrow> real" where
  "lastStepW pool peakW leftW step settled charging capW =
     (case poolWantW pool of
        None \<Rightarrow> capW
      | Some wantW \<Rightarrow>
          if charging \<and> wantW - peakW > 0 \<and> wantW - peakW \<le> step \<and> leftW + 1 / 1000000 \<ge> wantW - peakW \<and> settled
          then max capW wantW else capW)"

definition riseCap :: "evPool \<Rightarrow> real option \<Rightarrow> real \<Rightarrow> real \<Rightarrow> real option \<Rightarrow> real \<Rightarrow> State \<Rightarrow> State" where
  "riseCap pool prev peakW fuseRoomW importRoomW step s =
     (let leftW = minOff fuseRoomW importRoomW;
          settled = (tsub (clock s) (elCutAt (evLimit s)) \<ge> evSettle);
          capW = stepUpW pool peakW fuseRoomW importRoomW step settled (minOff (peakW + leftW) prev);
          capW = lastStepW pool peakW leftW step settled (hasBatteryCharge s) capW
      in s\<lparr>evLimit := (evLimit s)\<lparr>elCapW := capW, elRoomSince := zeroTime\<rparr>\<rparr>)"

text \<open>What a reading notes before any decision.\<close>

definition noteRoom :: "evMeterRoom \<Rightarrow> evPool \<Rightarrow> bool \<Rightarrow> evMeterLimit \<Rightarrow> evMeterLimit" where
  "noteRoom r pool fresh lm =
     (let y = (if fresh \<and> \<not> erOverLimit r \<and> \<not> under (erLimitW r) 0 then noYield else (elBatteryYield lm)\<lparr>yActive := False\<rparr>)
      in lm\<lparr>elBatteryYield := y,
             elPhaseRoomA := (if fresh then (if poolOfferW pool \<le> 0 then erStartRoomA r else erPhaseRoomA r) else 0),
             elPhaseRoomKnown := erPhaseRoomKnown r,
             elByImport := (under (erLimitW r) (erFuseW r) \<or> under (erRiseW r) (erFuseW r))\<rparr>)"

definition cutOrHold :: "Store \<Rightarrow> DerReading \<Rightarrow> real \<Rightarrow> evPool \<Rightarrow> evMeterRoom \<Rightarrow> real \<Rightarrow> unshownResult \<Rightarrow> bool \<Rightarrow> real option \<Rightarrow>
    real \<Rightarrow> bool \<Rightarrow> State \<Rightarrow> State" where
  "cutOrHold store meter gridW pool r pendingW o' fresh prev capW byImport s =
     (let neededW = max 0 (urLatestW o' - capW);
          requiredW = (if \<not> byImport \<and> poolPhases pool > 0
                       then neededW * (real_of_int (SiteFusePhases s) / poolPhases pool) else neededW);
          (holds, s) = yieldBatteryBeforeEVCut store meter r pool requiredW gridW pendingW (urRise o') fresh s
      in takeCut r prev (if holds then urLatestW o' else capW) byImport s)"

text \<open>The reading seen, with what it shows of the offers.\<close>

definition sawReading :: "DerReading \<Rightarrow> real \<Rightarrow> State \<Rightarrow> State" where
  "sawReading meter gridW s =
     (let s = seeOffers meter (Fin gridW) (s\<lparr>evLimit := (evLimit s)\<lparr>elReadingAt := UpdatedAt meter\<rparr>\<rparr>)
      in s\<lparr>evLimit := (evLimit s)\<lparr>elSet := True\<rparr>\<rparr>)"

definition evPeakW :: "evPool \<Rightarrow> State \<Rightarrow> real" where
  "evPeakW pool s = max (poolOfferW pool) (logPeakW s)"

text \<open>Our orders the reading may not show, the batteries' included.\<close>

definition sentLoadAt :: "time \<Rightarrow> real \<Rightarrow> State \<Rightarrow> pendingLoad" where
  "sentLoadAt t w s = withBatteryOrders (pendingLoadAt t s) w s"

definition freshReading :: "DerReading \<Rightarrow> evMeterRoom \<Rightarrow> State \<Rightarrow> bool" where
  "freshReading meter r s = (qualifiedFuseObservation (Some meter) (clock s) \<noteq> None \<and> erMeasured r)"

text \<open>The cut a reading asks for, if any, whether the hour sets it, and our orders it counted.\<close>

definition wantedCut :: "evMeterRoom \<Rightarrow> evPool \<Rightarrow> bool \<Rightarrow> time \<Rightarrow> real \<Rightarrow> real \<Rightarrow> State \<Rightarrow> (real option \<times> bool \<times> unshownResult) \<times> State" where
  "wantedCut r pool gap now step peakW s =
     (let o' = unshownOrders now (erPerPhase r) s;
          ((cutW, fuseOver), s) = fuseCut r (poolPhases pool) o' s;
          capW = (if fuseOver then Some (fuseCapW r (urLatestW o') cutW step) else None);
          ((capW, byImport), lm) = hourCut r pool gap now step peakW capW (evLimit s)
      in ((capW, byImport, o'), s\<lparr>evLimit := lm\<rparr>))"

definition stepEVMeterLimit :: "Store \<Rightarrow> DerReading \<Rightarrow> real \<Rightarrow> evPool \<Rightarrow> real \<Rightarrow> State \<Rightarrow> State" where
  "stepEVMeterLimit store meter gridW pool fuseMaxW s =
     (let now = UpdatedAt meter; isFirst = (\<not> elSet (evLimit s)); prevAt = elReadingAt (evLimit s);
          gap = (isFirst \<or> tsub now prevAt > evSettle);
          prev = (if isFirst then None else Some (elCapW (evLimit s)));
          s = sawReading meter gridW s;
          peakW = evPeakW pool s;
          pendingW = pendingBatteryCommandsW (clock s) s;
          r = evMeterRoomOf meter gridW (poolPhases pool) fuseMaxW (sentLoadAt now pendingW s) s;
          fresh = freshReading meter r s;
          step = evStepA * SiteFuseVoltage s * poolPhases pool;
          s = s\<lparr>evLimit := trackRun r gap now (noteRoom r pool fresh (evLimit s))\<rparr>;
          ((capW, byImport, o'), s) = wantedCut r pool gap now step peakW s
      in case capW of
           Some w \<Rightarrow> cutOrHold store meter gridW pool r pendingW o' fresh prev w byImport s
         | None \<Rightarrow>
             let reliefW = evFuseReliefW store s;
                 r = (if reliefW > 0 then evMeterRoomOf meter gridW (poolPhases pool) fuseMaxW (sentLoadAt now (pendingW + reliefW) s) s
                      else r)
             in if poolOfferW pool \<le> 0
                then s\<lparr>evLimit := stepEVIdleStart r gridW pool isFirst gap fresh now prevAt pendingW step (evLimit s)\<rparr>
                else riseCap pool prev peakW (if fresh then max 0 (erFuseW r) else 0)
                       (if fresh then map_option (max 0) (erRiseW r) else Some 0) step s)"

definition EVFuseBudget :: "Store \<Rightarrow> lpState list \<Rightarrow> lpConfig list \<Rightarrow> f64 \<Rightarrow> State \<Rightarrow> real \<times> State" where
  "EVFuseBudget store points configs fuseMaxW s =
     (if \<not> finiteFuseValue fuseMaxW \<or> fuseMaxW \<le> Fin 0 then (0, s)
      else case Get (SiteMeterDriver s) DerMeter store of
        None \<Rightarrow> (0, s)
      | Some meter \<Rightarrow>
          if \<not> finiteFuseValue (RawW meter) then (0, s)
          else
            let s = stepFuseHeat meter (RawW meter) s
            in case evPoolFor points configs s of
                 None \<Rightarrow> (0, s\<lparr>evLimit := noEVLimit\<rparr>)
               | Some pool \<Rightarrow>
                   let s = recordEVOffers store points s;
                       s = (if \<not> elSet (evLimit s) \<or> UpdatedAt meter > elReadingAt (evLimit s)
                            then stepEVMeterLimit store meter (fval (RawW meter)) pool (fval fuseMaxW) s else s)
                   in (elCapW (evLimit s), s))"

definition EVLimitReason :: "State \<Rightarrow> string" where
  "EVLimitReason s = (if elSet (evLimit s) \<and> elByImport (evLimit s) then ''import_limit'' else ''fuse_limit'')"

section \<open>Bounds on a decision\<close>

lemma minOff_le: "minOff w l \<le> w" "l = Some v \<Longrightarrow> minOff w l \<le> v"
  by (cases l; simp add: minOff_def)+

lemma minOff_None [simp]: "minOff w None = w"
  by (simp add: minOff_def)

lemma minOff_Some [simp]: "minOff w (Some v) = min w v"
  by (simp add: minOff_def)

lemma takeCut_cap:
  "elCapW (evLimit (takeCut r prev capW byImport s)) = minOff (max 0 capW) prev"
  by (simp add: takeCut_def Let_def)

lemma cutOrHold_cap:
  "elCapW (evLimit (cutOrHold store meter gridW pool r pendingW o' fresh (Some prevW) capW byImport s)) \<le> prevW"
  by (simp add: cutOrHold_def Let_def case_prod_beta takeCut_cap)

text \<open>A rise stays in the room the reading left beside the offers.\<close>

lemma stepUpW_bound:
  assumes "0 \<le> step" "capW \<le> peakW + minOff fuseRoomW importRoomW"
  shows "stepUpW pool peakW fuseRoomW importRoomW step settled capW \<le> peakW + minOff fuseRoomW importRoomW"
proof -
  have "minOff (min (capW + step) (peakW + fuseRoomW)) (map_option (\<lambda>w. peakW + w - step) importRoomW)
      \<le> peakW + minOff fuseRoomW importRoomW"
    using assms(1) by (cases importRoomW) auto
  with assms(2) show ?thesis by (simp add: stepUpW_def Let_def)
qed

lemma lastStepW_bound:
  "capW \<le> peakW + leftW \<Longrightarrow> lastStepW pool peakW leftW step settled charging capW \<le> peakW + leftW + 1 / 1000000"
  by (auto simp: lastStepW_def split: option.split)

lemma riseCap_bound:
  assumes "0 \<le> step"
  shows "elCapW (evLimit (riseCap pool prev peakW fuseRoomW importRoomW step s))
    \<le> peakW + minOff fuseRoomW importRoomW + 1 / 1000000"
  by (simp add: riseCap_def Let_def) (intro lastStepW_bound stepUpW_bound assms minOff_le(1))

section \<open>What the room of a reading promises\<close>

lemma f64_fold_max: "foldl (\<lambda>l x. f64_max l (Fin (g x))) (Fin b) xs = Fin (foldl (\<lambda>l x. max l (g x)) b xs)"
  by (induction xs arbitrary: b) simp_all

lemma fold_max_start: "b \<le> foldl (\<lambda>l x. max l (g x)) (b :: real) xs"
  by (induction xs arbitrary: b) (auto intro: order_trans [OF max.cobounded1])

lemma fold_max_mem: "x \<in> set xs \<Longrightarrow> g x \<le> foldl (\<lambda>l x. max l (g x)) (b :: real) xs"
  by (induction xs arbitrary: b) (auto intro: order_trans [OF max.cobounded2 fold_max_start])

lemma levelA_ge:
  assumes "i < length amps" "i < length (heatSq h)" "i < length pendingA"
  shows "amps ! i + pendingA ! i \<le> fval (levelA amps pendingA h)"
proof -
  let ?g = "\<lambda>(a, sq, p). (if a \<ge> 0 then max a (sqrt sq) else a) + p"
  let ?xs = "zip amps (zip (heatSq h) pendingA)"
  have level: "levelA amps pendingA h = foldl (\<lambda>l x. f64_max l (Fin (?g x))) NInf ?xs"
    by (simp add: levelA_def Let_def case_prod_unfold)
  have mem: "(amps ! i, heatSq h ! i, pendingA ! i) \<in> set ?xs"
    using assms by (auto simp: set_zip intro!: exI [of _ i])
  then obtain x xs where xs: "?xs = x # xs" by (cases ?xs) auto
  have "?g y \<le> fval (levelA amps pendingA h)" if "y \<in> set ?xs" for y
    using that fold_max_start [of "?g x" ?g xs] fold_max_mem [of y xs ?g "?g x"]
    by (simp add: level xs f64_fold_max) auto
  from this [OF mem] show ?thesis by (auto split: if_splits)
qed

lemma room_total: "erFuseW (evMeterRoomOf meter gridW phases fuseMaxW l s) \<le> max 0 (fuseMaxW - fuseSafetyMarginW s) - gridW - plW l"
  by (simp add: evMeterRoomOf_def totalRoom_def phaseRoom_def Let_def case_prod_beta)

lemma room_phase:
  assumes "phaseCurrentsA meter s (Fin gridW) = (amps, True, True)" "i < length amps" "i < length (heatSq (fuseHeat s))"
    "i < length (plPhaseA l)" "0 \<le> SiteFuseVoltage s * phases"
  shows "erFuseW (evMeterRoomOf meter gridW phases fuseMaxW l s)
    \<le> (fuseLineA s - (amps ! i + plPhaseA l ! i)) * (SiteFuseVoltage s * phases)"
proof -
  have "(fuseLineA s - fval (levelA amps (plPhaseA l) (fuseHeat s))) * (SiteFuseVoltage s * phases)
      \<le> (fuseLineA s - (amps ! i + plPhaseA l ! i)) * (SiteFuseVoltage s * phases)"
    using levelA_ge [OF assms(2,3,4)] assms(5) by (intro mult_right_mono) simp_all
  then show ?thesis by (simp add: evMeterRoomOf_def assms(1) phaseRoom_def Let_def)
qed

lemma room_evLimit: "evMeterRoomOf meter gridW phases fuseMaxW l (s\<lparr>evLimit := x\<rparr>) = evMeterRoomOf meter gridW phases fuseMaxW l s"
proof -
  have amps: "phaseCurrentsA meter (s\<lparr>evLimit := x\<rparr>) w = phaseCurrentsA meter s w" for w
    by (simp add: phaseCurrentsA_def Let_def cong: if_cong rawmsg.case_cong option.case_cong)
  have "fuseSafetyMarginW (s\<lparr>evLimit := x\<rparr>) = fuseSafetyMarginW s" "importHourMeasured (s\<lparr>evLimit := x\<rparr>) = importHourMeasured s"
    "fuseLineA (s\<lparr>evLimit := x\<rparr>) = fuseLineA s"
    by (simp_all add: fuseSafetyMarginW_def importHourMeasured_def fuseLineA_def)
  moreover from this(2) have "importHourLimitsW (s\<lparr>evLimit := x\<rparr>) = importHourLimitsW s"
    by (simp add: importHourLimitsW_def)
  moreover have "startLevelW u (s\<lparr>evLimit := x\<rparr>) = startLevelW u s" for u
    by (simp add: startLevelW_def)
  ultimately show ?thesis
    by (simp add: evMeterRoomOf_def totalRoom_def phaseRoom_def amps Let_def case_prod_beta cong: if_cong)
qed

lemma sentLoad_evLimit: "elOffers x = elOffers (evLimit s) \<Longrightarrow> sentLoadAt t w (s\<lparr>evLimit := x\<rparr>) = sentLoadAt t w s"
  by (simp add: sentLoadAt_def withBatteryOrders_def pendingLoadAt_def cong: if_cong)

text \<open>Deciding on a cut changes only the cap's own notes, never the offers.\<close>

lemma wantedCut_frame: "\<exists>x. snd (wantedCut r pool gap now step peakW s) = s\<lparr>evLimit := x\<rparr> \<and> elOffers x = elOffers (evLimit s)"
proof -
  have cut: "\<exists>x. snd (fuseCut r p o' s) = s\<lparr>evLimit := x\<rparr> \<and> elOffers x = elOffers (evLimit s)" for p o'
  proof -
    have "\<exists>x. s = s\<lparr>evLimit := x\<rparr> \<and> elOffers x = elOffers (evLimit s)" by (rule exI [of _ "evLimit s"]) simp
    moreover have "\<exists>x. s\<lparr>evLimit := (evLimit s)\<lparr>elCutForSet := False\<rparr>\<rparr> = s\<lparr>evLimit := x\<rparr> \<and> elOffers x = elOffers (evLimit s)"
      by (rule exI [of _ "(evLimit s)\<lparr>elCutForSet := False\<rparr>"]) simp
    ultimately show ?thesis by (simp add: fuseCut_def forgetShownCuts_def Let_def)
  qed
  have hour: "elOffers (snd (hourCut r pool gap now step peakW c x)) = elOffers x" for c x
    by (simp add: hourCut_def Let_def split: option.split)
  obtain x where "snd (fuseCut r (poolPhases pool) (unshownOrders now (erPerPhase r) s) s) = s\<lparr>evLimit := x\<rparr>"
    "elOffers x = elOffers (evLimit s)" using cut by blast
  then show ?thesis by (simp add: wantedCut_def Let_def case_prod_beta hour) (use hour in auto)
qed

lemma noteRoom_offers: "elOffers (trackRun r gap now (noteRoom r pool fresh x)) = elOffers x"
  by (simp add: trackRun_def noteRoom_def Let_def)

lemma sawReading_frame: "\<exists>x. sawReading meter gridW s = s\<lparr>evLimit := x\<rparr>"
  by (simp add: sawReading_def seeOffers_def Let_def case_prod_beta) blast

lemma pendingLoad_length: "length (plPhaseA (pendingLoadAt t s)) = 3"
proof -
  have "length (plPhaseA (foldl (\<lambda>p (_, c). case unshown t (coSettle c) (coLog c) of (w, a) \<Rightarrow>
      \<lparr>plW = plW p + w, plPhaseA = map (\<lambda>x. x + a) (plPhaseA p)\<rparr>) p cs)) = length (plPhaseA p)"
    for p :: pendingLoad and cs :: "(string \<times> chargerOffers) list"
    by (induction cs arbitrary: p) (simp_all add: case_prod_beta)
  then show ?thesis by (simp add: pendingLoadAt_def noPending_def)
qed

lemma sentLoad_length: "length (plPhaseA (sentLoadAt t w s)) = 3"
  by (simp add: sentLoadAt_def withBatteryOrders_def pendingLoad_length)

lemma sentLoad_more:
  assumes "0 \<le> w'"
  shows "plW (sentLoadAt t (w + w') s) = plW (sentLoadAt t w s) + w'"
    "i < 3 \<Longrightarrow> plPhaseA (sentLoadAt t w s) ! i \<le> plPhaseA (sentLoadAt t (w + w') s) ! i"
  using assms by (simp_all add: sentLoadAt_def withBatteryOrders_def pendingLoad_length divide_right_mono)

text \<open>The room beside an added order is no more than the room without it, in total and on each phase.\<close>

definition fitsFuse :: "DerReading \<Rightarrow> real \<Rightarrow> real \<Rightarrow> real \<Rightarrow> pendingLoad \<Rightarrow> State \<Rightarrow> real \<Rightarrow> bool" where
  "fitsFuse meter gridW phases fuseMaxW l s addedW =
     (gridW + plW l + addedW \<le> max 0 (fuseMaxW - fuseSafetyMarginW s)
      \<and> (case phaseCurrentsA meter s (Fin gridW) of (amps, present, valid) \<Rightarrow> present \<and> valid \<longrightarrow>
           (\<forall>i < min 3 (length amps). amps ! i + plPhaseA l ! i + addedW / (SiteFuseVoltage s * phases) \<le> fuseLineA s)))"

lemma room_fits:
  assumes "addedW \<le> erFuseW (evMeterRoomOf meter gridW phases fuseMaxW (sentLoadAt t (w + w') s) s)" "0 \<le> w'"
    "0 < SiteFuseVoltage s * phases" "length (heatSq (fuseHeat s)) = 3"
  shows "fitsFuse meter gridW phases fuseMaxW (sentLoadAt t w s) s addedW"
proof -
  let ?l = "sentLoadAt t (w + w') s" and ?perA = "SiteFuseVoltage s * phases"
  have total: "gridW + plW (sentLoadAt t w s) + addedW \<le> max 0 (fuseMaxW - fuseSafetyMarginW s)"
    using assms(1) room_total [of meter gridW phases fuseMaxW ?l s] sentLoad_more(1) [OF assms(2), of t w s] assms(2) by simp
  have "amps ! i + plPhaseA (sentLoadAt t w s) ! i + addedW / ?perA \<le> fuseLineA s"
    if a: "phaseCurrentsA meter s (Fin gridW) = (amps, True, True)" and i: "i < 3" "i < length amps" for amps i
  proof -
    have "addedW \<le> (fuseLineA s - (amps ! i + plPhaseA ?l ! i)) * ?perA"
      using room_phase [OF a i(2), of ?l phases fuseMaxW] assms i by (simp add: sentLoad_length)
    then have "addedW / ?perA \<le> fuseLineA s - (amps ! i + plPhaseA ?l ! i)"
      using assms(3) by (simp add: pos_divide_le_eq)
    then show ?thesis using sentLoad_more(2) [OF assms(2) i(1), of t w s] by linarith
  qed
  with total show ?thesis unfolding fitsFuse_def
    by (cases "phaseCurrentsA meter s (Fin gridW)") auto
qed

lemma room_of_step:
  assumes "s3 = s\<lparr>evLimit := x\<rparr>" "elOffers x = elOffers (evLimit s)"
  shows "evMeterRoomOf meter gridW phases fuseMaxW (sentLoadAt t w s3) s3
    = evMeterRoomOf meter gridW phases fuseMaxW (sentLoadAt t w s) s"
  using assms by (simp add: room_evLimit sentLoad_evLimit)

text \<open>How a running pool's step ends: in a cut, or in a rise within the room the reading left.\<close>

lemma step_cases:
  fixes meter :: DerReading and gridW fuseMaxW :: real and store :: Store
  assumes "elSet (evLimit s)" "0 < poolOfferW pool" "0 \<le> SiteFuseVoltage s * poolPhases pool"
  defines "s1 \<equiv> sawReading meter gridW s"
  defines "r \<equiv> \<lambda>w. evMeterRoomOf meter gridW (poolPhases pool) fuseMaxW (sentLoadAt (UpdatedAt meter) (pendingBatteryCommandsW (clock s1) s1 + w) s1) s1"
  defines "capW \<equiv> elCapW (evLimit (stepEVMeterLimit store meter gridW pool fuseMaxW s))"
  obtains (cut) "capW \<le> elCapW (evLimit s)"
  | (rise) w where "0 \<le> w"
      "capW \<le> evPeakW pool s1 + (if freshReading meter (r 0) s1 then max 0 (erFuseW (r w)) else 0) + 1 / 1000000"
proof -
  let ?now = "UpdatedAt meter" and ?p = "pendingBatteryCommandsW (clock s1) s1"
  let ?gap = "tsub ?now (elReadingAt (evLimit s)) > evSettle"
  let ?step = "evStepA * SiteFuseVoltage s1 * poolPhases pool"
  let ?fresh = "freshReading meter (r 0) s1"
  let ?s2 = "s1\<lparr>evLimit := trackRun (r 0) ?gap ?now (noteRoom (r 0) pool ?fresh (evLimit s1))\<rparr>"
  obtain c b o' s3 where w: "wantedCut (r 0) pool ?gap ?now ?step (evPeakW pool s1) ?s2 = ((c, b, o'), s3)" by (metis surj_pair)
  obtain x where x: "s3 = s1\<lparr>evLimit := x\<rparr>" "elOffers x = elOffers (evLimit s1)"
    using wantedCut_frame [of "r 0" pool ?gap ?now ?step "evPeakW pool s1" ?s2] by (auto simp: w noteRoom_offers)
  have volts: "SiteFuseVoltage s1 = SiteFuseVoltage s" using sawReading_frame [of meter gridW s] by (auto simp: s1_def)
  have step: "0 \<le> ?step" using assms(3) by (simp add: volts evStepA_def mult.assoc)
  let ?w = "if evFuseReliefW store s3 > 0 then evFuseReliefW store s3 else 0"
  have relief: "(if evFuseReliefW store s3 > 0 then evMeterRoomOf meter gridW (poolPhases pool) fuseMaxW
        (sentLoadAt ?now (?p + evFuseReliefW store s3) s3) s3 else r 0) = r ?w"
    using x by (simp add: r_def room_of_step)
  let ?R = "if ?fresh then max 0 (erFuseW (r ?w)) else 0" and ?I = "if ?fresh then map_option (max 0) (erRiseW (r ?w)) else Some 0"
  have s': "stepEVMeterLimit store meter gridW pool fuseMaxW s = (case c of
      Some w \<Rightarrow> cutOrHold store meter gridW pool (r 0) ?p o' ?fresh (Some (elCapW (evLimit s))) w b s3
    | None \<Rightarrow> riseCap pool (Some (elCapW (evLimit s))) (evPeakW pool s1) ?R ?I ?step s3)"
  proof -
    have r0: "evMeterRoomOf meter gridW (poolPhases pool) fuseMaxW (sentLoadAt ?now ?p s1) s1 = r 0" by (simp add: r_def)
    have "(poolOfferW pool \<le> 0) = False" "elSet (evLimit s) = True" using assms(1,2) by simp_all
    then show ?thesis
      by (simp only: stepEVMeterLimit_def Let_def s1_def [symmetric] r0 w relief not_True_eq_False if_False simp_thms prod.case)
  qed
  show ?thesis
  proof (cases c)
    case (Some w)
    with s' cut show ?thesis by (simp add: capW_def cutOrHold_cap)
  next
    case None
    then have "capW \<le> evPeakW pool s1 + minOff ?R ?I + 1 / 1000000"
      using s' riseCap_bound [OF step] by (simp add: capW_def)
    then have "capW \<le> evPeakW pool s1 + ?R + 1 / 1000000" using minOff_le(1) [of ?R ?I] by linarith
    then show ?thesis by (intro rise [of ?w]) auto
  qed
qed

section \<open>The yield's own limit\<close>

text \<open>Every step of the cap leaves the battery's charge limit of a yield at zero or more.\<close>

definition yieldOk :: "State \<Rightarrow> bool" where
  "yieldOk s = (0 \<le> yMaxChargeW (elBatteryYield (evLimit s)))"

lemma yield_frames:
  "yieldOk s \<Longrightarrow> yieldOk (sawReading meter gridW s)"
  "yieldOk s \<Longrightarrow> yieldOk (recordEVOffers store points s)"
  "yieldOk s \<Longrightarrow> yieldOk (stepFuseHeat meter w s)"
  "yieldOk s \<Longrightarrow> yieldOk (s\<lparr>evLimit := trackRun r gap now (noteRoom r pool fresh (evLimit s))\<rparr>)"
  "yieldOk s \<Longrightarrow> yieldOk (snd (wantedCut r pool gap now step peakW s))"
  "yieldOk s \<Longrightarrow> yieldOk (riseCap pool prev peakW a b step s)"
  "yieldOk s \<Longrightarrow> yieldOk (takeCut r prev capW byImport s)"
  by (simp_all add: yieldOk_def sawReading_def seeOffers_def recordEVOffers_def stepFuseHeat_def trackRun_def noteRoom_def noYield_def
      wantedCut_def fuseCut_def forgetShownCuts_def hourCut_def riseCap_def takeCut_def Let_def case_prod_beta split: option.split)

lemma yield_idle:
  "elBatteryYield (stepEVIdleStart r gridW pool f gap fresh now prevAt pendingW step lm) = elBatteryYield lm"
  by (simp add: stepEVIdleStart_def Let_def)

lemma yield_battery: "yieldOk s \<Longrightarrow> yieldOk (snd (yieldBatteryBeforeEVCut store meter r pool q gridW pendingW rise fresh s))"
  by (simp add: yieldOk_def yieldBatteryBeforeEVCut_def Let_def)

lemma yield_cut: "yieldOk s \<Longrightarrow> yieldOk (cutOrHold store meter gridW pool r pendingW o' fresh prev capW byImport s)"
  by (simp add: cutOrHold_def Let_def case_prod_beta yield_frames(7) yield_battery)

lemma yield_step: "yieldOk s \<Longrightarrow> yieldOk (stepEVMeterLimit store meter gridW pool fuseMaxW s)"
proof -
  assume "yieldOk s"
  note seen = yield_frames(1) [OF this, of meter gridW]
  note noted = yield_frames(4) [OF seen]
  note wanted = yield_frames(5) [OF noted]
  have idle: "yieldOk s \<Longrightarrow> yieldOk (s\<lparr>evLimit := stepEVIdleStart r gridW pool f gap fresh now prevAt pendingW step (evLimit s)\<rparr>)"
    for s r f gap fresh now prevAt pendingW step
    by (simp add: yieldOk_def yield_idle)
  show ?thesis unfolding stepEVMeterLimit_def Let_def case_prod_beta
    by (auto intro!: yield_cut idle yield_frames(6) wanted split: option.split)
qed

lemma yield_budget: "yieldOk s \<Longrightarrow> yieldOk (snd (EVFuseBudget store points configs fuseMaxW s))"
proof -
  assume y: "yieldOk s"
  have "yieldOk (s\<lparr>evLimit := noEVLimit\<rparr>)" for s by (simp add: yieldOk_def noEVLimit_def noYield_def)
  then show ?thesis using y
    by (auto simp: EVFuseBudget_def Let_def intro: yield_step yield_frames(2,3) split: option.split)
qed

section \<open>Properties\<close>


definition evMeterAt :: "real \<Rightarrow> DerReading" where
  "evMeterAt w = \<lparr>rDriver = ''m'', rDerType = DerMeter, RawW = Fin w, SmoothedW = Fin w, SoC = None, SoCUpdatedAt = 0,
     Data = Empty, UpdatedAt = 0\<rparr>"

definition runningPool :: evPool where
  "runningPool = \<lparr>poolOfferW = 4140, poolWantW = None, poolMinW = 4140, poolPhases = 3, poolOfferKnown = True, poolOffers = []\<rparr>"

definition runningEV :: State where
  "runningEV = (NewState 0 50 ''m'' (\<lambda>_. 0) 0)\<lparr>SiteFuseAmps := 25, SiteFuseVoltage := 230, SiteFusePhases := 3,
     evLimit := noEVLimit\<lparr>elSet := True, elCapW := 4140\<rparr>\<rparr>"



definition hotPhases :: State where
  "hotPhases = runningEV\<lparr>fuseHeat := coldFuse\<lparr>heatSq := [900, 0, 0]\<rparr>, evLimit := noEVLimit\<lparr>elSet := True, elCapW := 4140,
     elPhasesA := [28, 5, 5], elPhasesSeen := True\<rparr>\<rparr>"

definition noOrders :: "real \<Rightarrow> unshownResult" where
  "noOrders w = \<lparr>urRise = noPending, urCover = noPending, urAheadA = [0, 0, 0], urLatestW = w\<rparr>"

definition phaseOver :: evMeterRoom where
  "phaseOver = (totalRoom 0 0 noPending runningEV)\<lparr>erPerPhase := True\<rparr>"


text \<open>An idle pool starts only after the meter has shown room for the whole dwell without a gap, on a fresh reading,
  and with no more than the room that reading left: a silent meter never starts a charge.\<close>

theorem idle_start_waits:
  assumes "lm' = stepEVIdleStart r gridW pool False gap fresh now prevAt pendingW step lm" "0 < elCapW lm'"
    "1 / 1000000 < poolMinW pool" "0 \<le> step"
  shows "fresh \<and> \<not> gap \<and> \<not> isZero (elRoomSince lm) \<and> evRestartDwell \<le> tsub now (elRoomSince lm)
    \<and> elCapW lm' \<le> erStartW r + 1 / 1000000 + step / 1000000000"
proof -
  let ?reading = "if \<not> erHourly r then minOff (erStartW r) (erRiseW r) else erStartW r"
  let ?left = "if fresh then max 0 ?reading else 0"
  let ?margin = "if \<not> erHourly r \<and> under (erRiseW r) (erStartW r) then step else 0"
  have "?reading \<le> erStartW r" using minOff_le(1) by simp
  have dwell: "evRestartDwell > 0" by (simp add: evRestartDwell_def time_simps)
  have enough: "\<not> ?left + 1 / 1000000 < poolMinW pool + ?margin"
  proof
    assume "?left + 1 / 1000000 < poolMinW pool + ?margin"
    then have "elCapW lm' = 0" by (simp add: assms(1) stepEVIdleStart_def Let_def)
    with assms(2) show False by simp
  qed
  have margin: "0 \<le> ?margin" using assms(4) by simp
  have since: "\<not> isZero (elRoomSince lm) \<and> \<not> gap \<and> evRestartDwell \<le> tsub now (elRoomSince lm)"
  proof (rule ccontr)
    assume "\<not> ?thesis"
    then have "elCapW lm' = 0" using enough dwell by (auto simp: assms(1) stepEVIdleStart_def Let_def)
    with assms(2) show False by simp
  qed
  have "elCapW lm' \<le> max (poolMinW pool) (wholeStepsW (?left - ?margin) step)"
    using enough since assms(2) by (auto simp: assms(1) stepEVIdleStart_def Let_def minOff_le split: if_splits)
  moreover have "wholeStepsW (?left - ?margin) step \<le> ?left - ?margin + step / 1000000000"
  proof (cases "step > 0")
    case True
    have "real_of_int \<lfloor>(?left - ?margin) / step + 1 / 1000000000\<rfloor> * step \<le> ((?left - ?margin) / step + 1 / 1000000000) * step"
      using True by (intro mult_right_mono) simp_all
    then show ?thesis using True by (simp add: wholeStepsW_def distrib_right)
  qed (use assms(4) in \<open>simp add: wholeStepsW_def\<close>)
  ultimately have cap: "elCapW lm' \<le> ?left + 1 / 1000000 + step / 1000000000" using enough margin assms(4) by linarith
  have "0 < ?left" using enough margin assms(3) by linarith
  then have "fresh" "?left \<le> erStartW r" using \<open>?reading \<le> erStartW r\<close> by (auto split: if_splits)
  with cap since show ?thesis by auto
qed

theorem idle_start_waits_witness:
  "elCapW (stepEVIdleStart (totalRoom 2000 17250 noPending runningEV) 2000 runningPool False False True (40 * second) (35 * second) 0 690
     (noEVLimit\<lparr>elRoomSince := 0\<rparr>)) \<le> 15250 + 1 / 1000"
proof -
  let ?r = "totalRoom 2000 17250 noPending runningEV" and ?lm = "noEVLimit\<lparr>elRoomSince := 0\<rparr>"
  let ?lm' = "stepEVIdleStart ?r 2000 runningPool False False True (40 * second) (35 * second) 0 690 ?lm"
  have "erStartW ?r = 15250"
    by (simp add: totalRoom_def runningEV_def NewState_def fuseSafetyMarginW_def noPending_def Let_def)
  moreover have "1 / 1000000 < poolMinW runningPool" by (simp add: runningPool_def)
  moreover note idle_start_waits [OF refl, of ?r 2000 runningPool False True "40 * second" "35 * second" 0 690 ?lm]
  ultimately show ?thesis by (cases "0 < elCapW ?lm'") simp_all
qed

end
