(* ===== verification/Pv_Curtail.thy ===== *)
theory Pv_Curtail
  imports Fuse_Guard Control_Settings "HOL-Library.List_Lexorder" "HOL-Library.Char_ord"
begin

text \<open>
  The limits sent to inverters (\<open>ComputePVCurtail\<close> in \<open>dispatch.go\<close>, \<open>pv_export_guard.go\<close>, \<open>pv_plan.go\<close>) and
  the surplus hint for devices that take solar power (\<open>solar_feed.go\<close>). A tick takes the owner's hold or the
  plan's limit, tightens it when the batteries are full, shares it over the inverters that generate, lays the
  export guard over it, releases the drivers that are no longer capped and remembers the ones that are. A cap
  that is a float from the plan (\<open>f64\<close>) is a real once it is shared: the shares are only taken of a limit
  below the total or of the owner's hold.
\<close>

record CurtailTarget =
  ctDriver :: string
  ctLimitW :: real

record SolarFeedTarget =
  sfDriver :: string
  sfPowerW :: real

definition reactivePVCurtailFloorW :: real where "reactivePVCurtailFloorW = 2"
definition curtailMinPerDriverW :: real where "curtailMinPerDriverW = 1"
definition pvCurtailBatterySoCMax :: real where "pvCurtailBatterySoCMax = 99 / 100"
definition liveMeterMaxAge :: duration where "liveMeterMaxAge = 90 * second"

text \<open>\<open>h := store.DriverHealth(d); h == nil || !h.IsOnline()\<close>, negated.\<close>

abbreviation onlineDriver :: "Store \<Rightarrow> string \<Rightarrow> bool" where "onlineDriver \<equiv> onlineBattery"

abbreviation supportsCurtail :: "State \<Rightarrow> string \<Rightarrow> bool" where
  "supportsCurtail s d \<equiv> mgetD False (SupportsPVCurtail s) d"

section \<open>Solar surplus and the feed\<close>

definition sumOnlineSourcedW :: "Store \<Rightarrow> DerType \<Rightarrow> real" where
  "sumOnlineSourcedW store typ =
     sum_list (map (\<lambda>r. if fval (SmoothedW r) < 0 then - fval (SmoothedW r) else 0)
       (filter (\<lambda>r. onlineDriver store (rDriver r)) (ReadingsByType typ store)))"

definition solarSurplusW :: "Store \<Rightarrow> State \<Rightarrow> real" where
  "solarSurplusW store s =
     (if SiteMeterDriver s = [] then 0
      else case Get (SiteMeterDriver s) DerMeter store of
             None \<Rightarrow> 0
           | Some meter \<Rightarrow>
               let exportW = - fval (SmoothedW meter)
               in if exportW \<le> 0 then 0
                  else let pvGenW = sumOnlineSourcedW store DerPV
                       in if pvGenW \<le> 0 then 0
                          else let exportW = exportW - sumOnlineSourcedW store DerBattery;
                                   exportW = exportW - sumOnlineSourcedW store DerV2X
                               in if exportW \<le> 0 then 0
                                  else if pvGenW < exportW then pvGenW else exportW)"

definition ComputeSolarFeed :: "Store \<Rightarrow> State \<Rightarrow> SolarFeedTarget list" where
  "ComputeSolarFeed store s =
     (let names = map fst (filter (\<lambda>(name, on). on) (SolarFeedDrivers s))
      in if names = [] then []
         else let surplus = solarSurplusW store s
              in map (\<lambda>name. \<lparr>sfDriver = name, sfPowerW = - surplus\<rparr>) (sort names))"

section \<open>Load and the protection of a full site\<close>

definition sumOnlineSignedW :: "Store \<Rightarrow> DerType \<Rightarrow> real" where
  "sumOnlineSignedW store t =
     sum_list (map (\<lambda>r. fval (SmoothedW r))
       (filter (\<lambda>r. TelemetryLive (DriverHealthOf (rDriver r) store)) (ReadingsByType t store)))"

definition siteLoadW :: "Store \<Rightarrow> State \<Rightarrow> real" where
  "siteLoadW store s =
     (if SiteMeterDriver s = [] then 0
      else case Get (SiteMeterDriver s) DerMeter store of
             None \<Rightarrow> 0
           | Some mtr \<Rightarrow>
               let gridW = fval (SmoothedW mtr);
                   load = gridW - sumOnlineSignedW store DerBattery - sumOnlineSignedW store DerPV
                            - fval (SumOnlineEVW store) - fval (SumOnlineV2XW store)
               in if load < 0 then 0 else load)"

definition protectiveCurtailLimitW :: "Store \<Rightarrow> State \<Rightarrow> real option" where
  "protectiveCurtailLimitW store s =
     (if \<not> DCLinkProtectionEnabled s then None
      else let socThresh = (if DCLinkProtectionSoCThreshold s \<le> 0 then 8 / 10 else DCLinkProtectionSoCThreshold s);
               margin = (if DCLinkProtectionMarginW s \<le> 0 then 1000 else DCLinkProtectionMarginW s);
               socs = List.map_filter (\<lambda>r. if onlineDriver store (rDriver r) then SoC r else None)
                        (ReadingsByType DerBattery store);
               sumSoCWh = sum_list (map fval socs); totalCap = real (length socs)
           in if totalCap = 0 then None
              else if sumSoCWh / totalCap < socThresh then None
              else let pvAbs = sumOnlineSourcedW store DerPV; loadW = siteLoadW store s
                   in if pvAbs < loadW + 2 * margin then None else Some (loadW + margin))"

section \<open>The live limit\<close>

definition liveSiteMeter :: "Store \<Rightarrow> State \<Rightarrow> DerReading option" where
  "liveSiteMeter store s =
     (if SiteMeterDriver s = [] then None
      else case (case Get (SiteMeterDriver s) DerMeter store of
                   None \<Rightarrow> Get (SiteMeterDriver s) DerBattery store | Some m \<Rightarrow> Some m) of
             None \<Rightarrow> None
           | Some m \<Rightarrow>
               if \<not> TelemetryLive (DriverHealthOf (SiteMeterDriver s) store) then None
               else let age = tsub (clock s) (UpdatedAt m)
                    in if isZero (UpdatedAt m) \<or> age < 0 \<or> age > liveMeterMaxAge then None else Some m)"

definition liveCurtailLimitW :: "Store \<Rightarrow> State \<Rightarrow> real option" where
  "liveCurtailLimitW store s =
     (case liveSiteMeter store s of
        None \<Rightarrow> None
      | Some m \<Rightarrow>
          let gridW = fval (RawW m);
              pvW = sum_list (map (\<lambda>r. if fval (RawW r) < 0 then - fval (RawW r) else 0)
                      (filter (\<lambda>r. onlineDriver store (rDriver r)) (ReadingsByType DerPV store)));
              bats = filter (\<lambda>r. onlineDriver store (rDriver r)) (ReadingsByType DerBattery store);
              batW = sum_list (map (\<lambda>r. fval (RawW r)) bats);
              liveLoadW = gridW - (- pvW) - batW;
              liveLoadW = (if liveLoadW < 0 then 0 else liveLoadW);
              batHeadroomW = sum_list (map (\<lambda>r.
                  case SoC r of None \<Rightarrow> 0
                  | Some v \<Rightarrow> if v \<ge> Fin pvCurtailBatterySoCMax then 0 else chargeCap (limitsOf s (rDriver r))) bats);
              evReserveW = EVCurtailHeadroomW s;
              evReserveW = (if evReserveW \<le> 0 then EVSurplusOnlyReserveW s else evReserveW);
              evReserveW = (if evReserveW < 0 then 0 else evReserveW)
          in Some (liveLoadW + batHeadroomW + evReserveW))"

section \<open>The proof of a planned cap\<close>

definition ceilingInt :: "f64 \<Rightarrow> bool" where
  "ceilingInt v = (v = Fin (of_int \<lceil>fval v\<rceil>))"

definition pvc_Valid :: "PVCurtailment \<Rightarrow> bool" where
  "pvc_Valid p = (pcDriver p \<noteq> [] \<and> pcProof p \<noteq> [] \<and> isFinite (pcMinW p) \<and> isFinite (pcMaxW p)
     \<and> pcMinW p \<ge> Fin 2 \<and> ceilingInt (pcMinW p) \<and> pcMaxW p \<ge> pcMinW p)"

definition PVGenerationProofValid :: "Store \<Rightarrow> time \<Rightarrow> PVCurtailment \<Rightarrow> (string \<Rightarrow> PVCurtailment) option \<Rightarrow> bool" where
  "PVGenerationProofValid store now proof lookup =
     (case lookup of
        None \<Rightarrow> False
      | Some f \<Rightarrow>
          if \<not> pvc_Valid proof \<or> f (pcDriver proof) \<noteq> proof then False
          else case ReadingsByType DerPV store of
                 [r] \<Rightarrow> rDriver r = pcDriver proof \<and> onlineDriver store (pcDriver proof) \<and> \<not> UpdatedAt r > now
                         \<and> tsub now (UpdatedAt r) \<le> 90 * second \<and> isFinite (RawW r)
               | _ \<Rightarrow> False)"

definition planningPVProofValid :: "Store \<Rightarrow> PVCurtailment \<Rightarrow> State \<Rightarrow> bool" where
  "planningPVProofValid store proof s =
     (if \<not> pvc_Valid proof \<or> PVGenerationLimit s = None \<or> \<not> supportsCurtail s (pcDriver proof) then False
      else PVGenerationProofValid store (clock s) proof (PVGenerationLimit s))"

definition PlanningPVDirectiveValid :: "Store \<Rightarrow> SlotDirective \<Rightarrow> State \<Rightarrow> bool" where
  "PlanningPVDirectiveValid store dir s =
     (if pcProof (PVCurtailmentOf dir) = [] then \<not> PVCurtailActive dir
      else planningPVProofValid store (PVCurtailmentOf dir) s)"

definition plannedPVCaps :: "Store \<Rightarrow> SlotDirective \<Rightarrow> f64 \<Rightarrow> State \<Rightarrow> (string, real) gomap option" where
  "plannedPVCaps store dir lmt s =
     (let p = PVCurtailmentOf dir
      in if \<not> PVCurtailActive dir \<or> \<not> planningPVProofValid store p s \<or> \<not> isFinite lmt \<or> lmt < pcMinW p \<or> lmt > pcMaxW p
         then None
         else let capped = of_int \<lfloor>fval lmt + 1 / 10000000\<rfloor>
              in if Fin capped < pcMinW p then None else Some [(pcDriver p, capped)])"

section \<open>The export guard\<close>

record pvExportGuardDecision =
  pgActive :: bool
  pgCaps :: "(string, real) gomap"
  pgExportW :: real
  pgCeilingW :: real
  pgOverageW :: real
  pgResidualW :: real

definition noGuard :: pvExportGuardDecision where
  "noGuard = \<lparr>pgActive = False, pgCaps = [], pgExportW = 0, pgCeilingW = 0, pgOverageW = 0, pgResidualW = 0\<rparr>"

text \<open>The inverters the guard may reduce: driver, generation, and what is above the floor.\<close>

definition curtailCandidates :: "Store \<Rightarrow> State \<Rightarrow> (string \<times> real \<times> real) list" where
  "curtailCandidates store s =
     List.map_filter (\<lambda>r.
       if \<not> onlineDriver store (rDriver r) \<or> \<not> supportsCurtail s (rDriver r) then None
       else let generationW = - fval (SmoothedW r); reducibleW = generationW - reactivePVCurtailFloorW
            in if reducibleW \<le> 0 then None else Some (rDriver r, generationW, reducibleW))
       (ReadingsByType DerPV store)"

definition guardCap :: "real \<Rightarrow> real \<Rightarrow> real \<Rightarrow> real \<Rightarrow> real" where
  "guardCap reductionW totalReducibleW generationW reducibleW =
     (let shareW = reductionW * (reducibleW / totalReducibleW); limW = generationW - shareW
      in if limW < reactivePVCurtailFloorW then reactivePVCurtailFloorW else limW)"

definition computePVExportGuard :: "Store \<Rightarrow> State \<Rightarrow> pvExportGuardDecision" where
  "computePVExportGuard store s =
     (let fuseMaxW = siteFuseMaxW s
      in if fuseMaxW \<le> 0 then noGuard
         else let out = noGuard\<lparr>pgExportW := solarSurplusW store s, pgCeilingW := effectiveExportCeilingW fuseMaxW s\<rparr>
              in if pgExportW out \<le> pgCeilingW out then out
                 else let out = out\<lparr>pgActive := True, pgOverageW := pgExportW out - pgCeilingW out\<rparr>;
                          cands = curtailCandidates store s;
                          totalReducibleW = sum_list (map (\<lambda>(d, g, r). r) cands);
                          reductionW = min (pgOverageW out) totalReducibleW
                      in if reductionW \<le> 0 \<or> totalReducibleW \<le> 0 then out
                         else out\<lparr>pgCaps := foldl (\<lambda>m (d, g, r).
                                mset_at d (guardCap reductionW totalReducibleW g r) m) [] cands\<rparr>)"

definition pvReductionW :: "Store \<Rightarrow> State \<Rightarrow> (string, real) gomap \<Rightarrow> real" where
  "pvReductionW store s caps =
     sum_list (map (\<lambda>r.
       if \<not> onlineDriver store (rDriver r) \<or> \<not> supportsCurtail s (rDriver r) then 0
       else case mget caps (rDriver r) of
              None \<Rightarrow> 0
            | Some limW \<Rightarrow>
                if limW \<le> curtailMinPerDriverW then 0
                else let generationW = - fval (SmoothedW r) in if generationW > limW then generationW - limW else 0)
       (ReadingsByType DerPV store))"

definition pvExportResidualAfterCaps :: "real \<Rightarrow> Store \<Rightarrow> State \<Rightarrow> (string, real) gomap \<Rightarrow> real" where
  "pvExportResidualAfterCaps overageW store s caps =
     (if overageW \<le> 0 then 0
      else let residualW = overageW - pvReductionW store s caps in if residualW < 0 then 0 else residualW)"

section \<open>The tick\<close>

text \<open>The limit of the hold or of the plan, the hold's driver, and the directive whose planned cap applies.\<close>

definition planLimit :: "Store \<Rightarrow> State \<Rightarrow> f64 \<times> SlotDirective option" where
  "planLimit store s =
     (case SlotDirectiveFunc s of
        None \<Rightarrow> (Fin 0, None)
      | Some f \<Rightarrow>
          (case f (clock s) of (dir, ok) \<Rightarrow>
             if ok \<and> PlanningPVDirectiveValid store dir s \<and> PVLimitW dir > Fin 0
             then if PVCurtailActive dir then (PVLimitW dir, Some dir)
                  else ((case liveCurtailLimitW store s of Some w \<Rightarrow> Fin w | None \<Rightarrow> PVLimitW dir), None)
             else (Fin 0, None)))"

definition protectLimit :: "Store \<Rightarrow> bool \<Rightarrow> f64 \<Rightarrow> State \<Rightarrow> f64" where
  "protectLimit store holdActive lmt s =
     (case protectiveCurtailLimitW store s of
        None \<Rightarrow> lmt
      | Some prot \<Rightarrow> if \<not> holdActive \<and> lmt = Fin 0 then Fin prot else if Fin prot < lmt then Fin prot else lmt)"

text \<open>The inverters that generate now, with their power.\<close>

definition generating :: "Store \<Rightarrow> State \<Rightarrow> (string \<times> real) list" where
  "generating store s =
     map (\<lambda>r. (rDriver r, - fval (RawW r)))
       (filter (\<lambda>r. onlineDriver store (rDriver r) \<and> supportsCurtail s (rDriver r) \<and> fval (RawW r) < 0)
          (ReadingsByType DerPV store))"

definition shareCaps :: "Store \<Rightarrow> bool \<Rightarrow> string \<Rightarrow> f64 \<Rightarrow> State \<Rightarrow> (string, real) gomap" where
  "shareCaps store holdActive scopedDriver lmt s =
     (if scopedDriver \<noteq> [] then (if supportsCurtail s scopedDriver then [(scopedDriver, fval lmt)] else [])
      else let drivers = generating store s; total = sum_list (map snd drivers)
           in if \<not> holdActive \<and> total > 0 \<and> lmt \<ge> Fin total then []
              else if total > 0
              then foldl (\<lambda>m (name, power). mset_at name (fval lmt * (power / total)) m) [] drivers
              else [])"

definition mergeGuard :: "(string, real) gomap \<Rightarrow> (string, real) gomap \<Rightarrow> (string, real) gomap" where
  "mergeGuard caps next =
     foldl (\<lambda>next (d, limW).
       case mget next d of
         None \<Rightarrow> mset_at d limW next
       | Some current \<Rightarrow> if current \<le> 0 \<or> limW < current then mset_at d limW next else next) next caps"

text \<open>What happens to a driver capped before that has no cap now: released, or kept in mind.\<close>

definition releases :: "Store \<Rightarrow> bool \<Rightarrow> State \<Rightarrow> string \<Rightarrow> bool" where
  "releases store wantCurtail s d = (\<not> wantCurtail \<or> \<not> supportsCurtail s d \<or> \<not> onlineDriver store d)"

definition curtailTargets :: "Store \<Rightarrow> bool \<Rightarrow> (string, real) gomap \<Rightarrow> State \<Rightarrow> CurtailTarget list \<times> State" where
  "curtailTargets store wantCurtail next s =
     (let dropped = filter (\<lambda>d. mget next d = None) (map fst (LastCurtailedDrivers s));
          released = filter (releases store wantCurtail s) dropped;
          suppressedTrack = filter (\<lambda>d. \<not> releases store wantCurtail s d) dropped;
          out = map (\<lambda>d. \<lparr>ctDriver = d, ctLimitW = 0\<rparr>) released
             @ map (\<lambda>(d, w). \<lparr>ctDriver = d, ctLimitW = w\<rparr>) (filter (\<lambda>(d, w). \<not> w \<le> curtailMinPerDriverW) next);
          updated = foldl (\<lambda>m d. mset_at d True m) []
             (map ctDriver (filter (\<lambda>t. ctLimitW t > 0) out) @ suppressedTrack)
      in (out, s\<lparr>LastCurtailedDrivers := updated\<rparr>))"

text \<open>The limit before the guard: the owner's hold, or else the plan, tightened by the protection unless the hold
  names a driver.\<close>

definition baseLimit :: "Store \<Rightarrow> State \<Rightarrow> (PVManualHold \<times> bool \<times> f64 \<times> SlotDirective option) \<times> State" where
  "baseLimit store s =
     (let ((hold, holdActive), s) = GetPVManualHold (clock s) s;
          (lmt, plannedCap) = (if holdActive then (Fin (phLimitW hold), None) else planLimit store s);
          scopedDriver = (if holdActive then phDriver hold else []);
          lmt = (if scopedDriver = [] then protectLimit store holdActive lmt s else lmt)
      in ((hold, holdActive, lmt, plannedCap), s))"

definition baseCaps :: "Store \<Rightarrow> PVManualHold \<Rightarrow> bool \<Rightarrow> f64 \<Rightarrow> SlotDirective option \<Rightarrow> State \<Rightarrow> (string, real) gomap" where
  "baseCaps store hold holdActive lmt plannedCap s =
     (let scopedDriver = (if holdActive then phDriver hold else []);
          next = (if (holdActive \<or> lmt > Fin 0) \<and> SupportsPVCurtail s \<noteq> [] then shareCaps store holdActive scopedDriver lmt s
                  else [])
      in case plannedCap of
           None \<Rightarrow> next
         | Some dir \<Rightarrow> if holdActive then next
                        else case plannedPVCaps store dir lmt s of Some caps \<Rightarrow> caps | None \<Rightarrow> next)"

text \<open>Whether anything curtails, the guard's decision and the caps of the tick.\<close>

definition curtailPlan :: "Store \<Rightarrow> State \<Rightarrow> (bool \<times> pvExportGuardDecision \<times> (string, real) gomap) \<times> State" where
  "curtailPlan store s =
     (let ((hold, holdActive, lmt, plannedCap), s) = baseLimit store s;
          guard = computePVExportGuard store s
      in ((holdActive \<or> lmt > Fin 0 \<or> pgActive guard, guard,
           mergeGuard (pgCaps guard) (baseCaps store hold holdActive lmt plannedCap s)), s))"

definition ComputePVCurtail :: "Store \<Rightarrow> State \<Rightarrow> CurtailTarget list \<times> State" where
  "ComputePVCurtail store s =
     (let ((wantCurtail, guard, next), s) = curtailPlan store s;
          s = s\<lparr>PVExportGuardActive := pgActive guard,
                PVExportResidualW := pvExportResidualAfterCaps (pgOverageW guard) store s next\<rparr>
      in curtailTargets store wantCurtail next s)"

section \<open>Lemmas\<close>

lemma key_inject: "key a t = key b t \<longleftrightarrow> a = b"
  by (simp add: key_def)

lemma readings_distinct:
  assumes "readings_ok store"
  shows "distinct (map rDriver (ReadingsByType t store))"
proof -
  have keys: "k = key (rDriver r) (rDerType r)" if "(k, r) \<in> set (readings store)" for k r
    using assms that by (auto simp: readings_ok_def mget_iff)
  have "distinct (map fst (readings store))" using assms by (simp add: readings_ok_def gomap_ok_def)
  then have "distinct (map fst (filter (\<lambda>p. rDerType (snd p) = t) (readings store)))" by (rule distinct_map_filter)
  moreover have "map fst (filter (\<lambda>p. rDerType (snd p) = t) (readings store))
      = map (\<lambda>d. key d t) (map rDriver (ReadingsByType t store))"
    using keys by (auto simp: ReadingsByType_def filter_map comp_def)
  ultimately show ?thesis by (metis distinct_map)
qed

lemma sum_map_filter:
  "sum_list (map h (List.map_filter g xs)) = sum_list (map (\<lambda>x. case g x of None \<Rightarrow> 0 | Some y \<Rightarrow> (h y :: real)) xs)"
  by (induction xs) (auto simp: List.map_filter_simps split: option.split)

lemma set_map_filter: "y \<in> set (List.map_filter g xs) \<longleftrightarrow> (\<exists>x \<in> set xs. g x = Some y)"
  by (force simp: List.map_filter_def)

text \<open>A map filled from a list of distinct keys.\<close>

lemma fill_map:
  assumes "distinct (map f xs)"
  shows "mget (foldl (\<lambda>m x. mset_at (f x) (g x) m) [] xs) k = map_of (map (\<lambda>x. (f x, g x)) xs) k"
    "gomap_ok (foldl (\<lambda>m x. mset_at (f x) (g x) m) [] xs)"
proof -
  have fill: "mget (foldl (\<lambda>m x. mset_at (f x) (g x) m) m0 xs) k
      = (case map_of (map (\<lambda>x. (f x, g x)) xs) k of None \<Rightarrow> mget m0 k | Some v \<Rightarrow> Some v)" for m0
    using assms
  proof (induction xs arbitrary: m0)
    case (Cons x xs)
    then have "f x = k \<Longrightarrow> map_of (map (\<lambda>x. (f x, g x)) xs) k = None" by (auto simp: map_of_eq_None_iff)
    with Cons show ?case by (auto split: option.split)
  qed simp
  from fill [of "[]"] show "mget (foldl (\<lambda>m x. mset_at (f x) (g x) m) [] xs) k = map_of (map (\<lambda>x. (f x, g x)) xs) k"
    by (simp split: option.split)
  have "gomap_ok m0 \<Longrightarrow> gomap_ok (foldl (\<lambda>m x. mset_at (f x) (g x) m) m0 xs)" for m0
    by (induction xs arbitrary: m0) simp_all
  then show "gomap_ok (foldl (\<lambda>m x. mset_at (f x) (g x) m) [] xs)" by simp
qed

lemma mergeGuard_ok: "gomap_ok next \<Longrightarrow> gomap_ok (mergeGuard caps next)"
  unfolding mergeGuard_def by (induction caps arbitrary: "next") (auto split: option.split)

lemma mergeGuard_get:
  assumes "gomap_ok caps"
  shows "mget (mergeGuard caps next) d = (case mget caps d of
      None \<Rightarrow> mget next d
    | Some l \<Rightarrow> Some (case mget next d of None \<Rightarrow> l | Some c \<Rightarrow> if c \<le> 0 \<or> l < c then l else c))"
  using assms
proof (induction caps arbitrary: "next")
  case Nil
  show ?case by (simp add: mergeGuard_def)
next
  case (Cons p caps)
  obtain e l where p: "p = (e, l)" by force
  have fresh: "mget caps e = None" "gomap_ok caps"
    using Cons.prems by (auto simp: gomap_ok_def p map_of_eq_None_iff)
  let ?n = "case mget next e of None \<Rightarrow> mset_at e l next
      | Some c \<Rightarrow> if c \<le> 0 \<or> l < c then mset_at e l next else next"
  have "mergeGuard (p # caps) next = mergeGuard caps ?n" by (simp add: mergeGuard_def p)
  with Cons.IH [OF fresh(2), of ?n] fresh(1) show ?case
    by (auto simp: p split: option.split)
qed

lemma candidates_spec:
  assumes "(d, g, r) \<in> set (curtailCandidates store s)"
  shows "supportsCurtail s d" "onlineDriver store d" "r = g - reactivePVCurtailFloorW" "0 < r"
  using assms by (auto simp: curtailCandidates_def set_map_filter Let_def split: if_splits)

lemma candidates_distinct:
  assumes "readings_ok store"
  shows "distinct (map fst (curtailCandidates store s))"
proof -
  have names: "map fst (List.map_filter g xs) = map rDriver (filter (\<lambda>r. g r \<noteq> None) xs)"
    if "\<And>r c. g r = Some c \<Longrightarrow> fst c = rDriver r" for g xs
    using that by (induction xs) (auto simp: List.map_filter_simps split: option.split)
  then show ?thesis unfolding curtailCandidates_def
    by (subst names) (auto simp: Let_def split: if_splits intro: distinct_map_filter readings_distinct [OF assms])
qed

lemma guardCap_exact:
  assumes "0 < tot" "0 < r" "r \<le> tot" "0 < red" "red \<le> tot" "r = g - reactivePVCurtailFloorW"
  shows "guardCap red tot g r = g - red * (r / tot)"
proof -
  have "red * (r / tot) \<le> tot * (r / tot)" using assms by (intro mult_right_mono) auto
  then have "red * (r / tot) \<le> r" using assms(1) by simp
  then show ?thesis using assms(6) by (simp add: guardCap_def Let_def)
qed

definition reducibleW :: "Store \<Rightarrow> State \<Rightarrow> real" where
  "reducibleW store s = sum_list (map (\<lambda>(d, g, r). r) (curtailCandidates store s))"

lemma reducible_part:
  assumes "(d, g, r) \<in> set (curtailCandidates store s)"
  shows "0 < r" "r \<le> reducibleW store s" "0 < reducibleW store s"
proof -
  show "0 < r" using candidates_spec(4) [OF assms] .
  have "\<forall>x \<in> set (map (\<lambda>(d, g, r). r) (curtailCandidates store s)). 0 \<le> x"
    using candidates_spec(4) by (force simp: less_imp_le)
  moreover have "r \<in> set (map (\<lambda>(d, g, r). r) (curtailCandidates store s))" using assms by force
  ultimately show "r \<le> reducibleW store s" unfolding reducibleW_def by (intro member_le_sum_list) auto
  with \<open>0 < r\<close> show "0 < reducibleW store s" by simp
qed

definition guardFill :: "Store \<Rightarrow> State \<Rightarrow> real \<Rightarrow> (string, real) gomap" where
  "guardFill store s red = foldl (\<lambda>m x. mset_at (fst x) (case x of (d, g, r) \<Rightarrow> guardCap red (reducibleW store s) g r) m) []
     (curtailCandidates store s)"

lemma guard_eq:
  "computePVExportGuard store s =
     (let ceilW = effectiveExportCeilingW (siteFuseMaxW s) s; surplus = solarSurplusW store s; over = surplus - ceilW;
          red = min over (reducibleW store s); seen = noGuard\<lparr>pgExportW := surplus, pgCeilingW := ceilW\<rparr>;
          over1 = seen\<lparr>pgActive := True, pgOverageW := over\<rparr>
      in if siteFuseMaxW s \<le> 0 then noGuard
         else if surplus \<le> ceilW then seen
         else if red \<le> 0 \<or> reducibleW store s \<le> 0 then over1
         else over1\<lparr>pgCaps := guardFill store s red\<rparr>)"
  unfolding computePVExportGuard_def by (simp add: Let_def reducibleW_def guardFill_def case_prod_unfold noGuard_def)

lemma guard_cases:
  fixes store s
  defines "ceilW \<equiv> effectiveExportCeilingW (siteFuseMaxW s) s" and "g \<equiv> computePVExportGuard store s"
  shows "pgActive g \<longleftrightarrow> 0 < siteFuseMaxW s \<and> ceilW < solarSurplusW store s"
    "pgActive g \<Longrightarrow> pgOverageW g = solarSurplusW store s - ceilW"
    "\<not> pgActive g \<Longrightarrow> pgOverageW g = 0 \<and> pgCaps g = []"
  unfolding g_def ceilW_def guard_eq by (simp_all add: Let_def noGuard_def split: if_splits)

lemma guard_caps:
  assumes "readings_ok store"
  shows "gomap_ok (pgCaps (computePVExportGuard store s))"
    "pgActive (computePVExportGuard store s) \<Longrightarrow> (d, g, r) \<in> set (curtailCandidates store s) \<Longrightarrow>
       mget (pgCaps (computePVExportGuard store s)) d =
         Some (g - min (pgOverageW (computePVExportGuard store s)) (reducibleW store s) * (r / reducibleW store s))"
    "mget (pgCaps (computePVExportGuard store s)) d = Some w \<Longrightarrow> supportsCurtail s d"
proof -
  let ?G = "computePVExportGuard store s" and ?cs = "curtailCandidates store s"
  define over red where "over = solarSurplusW store s - effectiveExportCeilingW (siteFuseMaxW s) s"
    and "red = min over (reducibleW store s)"
  let ?cap = "\<lambda>(d, g, r). guardCap red (reducibleW store s) g r"
  let ?fill = "foldl (\<lambda>m x. mset_at (fst x) (?cap x) m) [] ?cs"
  have caps: "pgCaps ?G = (if pgActive ?G \<and> \<not> (red \<le> 0 \<or> reducibleW store s \<le> 0) then ?fill else [])"
    unfolding guard_eq by (simp add: Let_def noGuard_def red_def over_def guardFill_def)
  note fill = fill_map [OF candidates_distinct [OF assms], of ?cap s]
  show "gomap_ok (pgCaps ?G)" using fill(2) by (simp add: caps)
  show "supportsCurtail s d" if "mget (pgCaps ?G) d = Some w"
  proof -
    have "map_of (map (\<lambda>x. (fst x, ?cap x)) ?cs) d = Some w" using that fill(1) [of d] by (simp add: caps split: if_splits)
    then obtain x where "x \<in> set ?cs" "d = fst x" by (auto dest!: map_of_SomeD)
    then show ?thesis by (metis candidates_spec(1) prod.collapse)
  qed
  assume act: "pgActive ?G" and c: "(d, g, r) \<in> set ?cs"
  note part = reducible_part [OF c]
  have over: "pgOverageW ?G = over" "0 < over" using guard_cases [of store s] act by (auto simp: over_def)
  have "0 < red" using over part by (simp add: red_def)
  then have "mget (pgCaps ?G) d = map_of (map (\<lambda>x. (fst x, ?cap x)) ?cs) d"
    using act part fill(1) by (simp add: caps)
  also have "\<dots> = Some (?cap (d, g, r))"
    using c candidates_distinct [OF assms, of s] by (intro map_of_is_SomeI) (auto simp: comp_def image_iff intro!: bexI [of _ "(d, g, r)"])
  finally show "mget (pgCaps ?G) d =
      Some (g - min (pgOverageW ?G) (reducibleW store s) * (r / reducibleW store s))"
    using guardCap_exact [of "reducibleW store s" r red g] part \<open>0 < red\<close> candidates_spec(3) [OF c] over(1)
    by (simp add: red_def)
qed

lemma share_sum: "c * (sum_list (map f xs) / R) = sum_list (map (\<lambda>x. c * (f x / R)) xs)" for c R :: real
  by (induction xs) (simp_all add: add_divide_distrib distrib_left)

text \<open>What a reading contributes to the reduction.\<close>

lemma reduction_of_guard:
  assumes "readings_ok store" "pgActive (computePVExportGuard store s)" "gomap_ok next"
    and sent: "\<And>d g r. (d, g, r) \<in> set (curtailCandidates store s) \<Longrightarrow>
      \<exists>w. mget (mergeGuard (pgCaps (computePVExportGuard store s)) next) d = Some w \<and> curtailMinPerDriverW < w"
  shows "min (pgOverageW (computePVExportGuard store s)) (reducibleW store s)
      \<le> pvReductionW store s (mergeGuard (pgCaps (computePVExportGuard store s)) next)"
proof (cases "reducibleW store s = 0")
  case True
  have "0 \<le> pvReductionW store s caps" for caps
    unfolding pvReductionW_def by (rule sum_list_nonneg) (auto simp: Let_def split: if_splits option.splits)
  with True show ?thesis by (simp add: min.coboundedI2)
next
  case False
  let ?G = "computePVExportGuard store s" and ?R = "reducibleW store s"
  let ?red = "min (pgOverageW ?G) ?R" and ?caps = "mergeGuard (pgCaps ?G) next"
  let ?share = "\<lambda>(d, g, r). ?red * (r / ?R)"
  let ?cand = "\<lambda>r. if \<not> onlineDriver store (rDriver r) \<or> \<not> supportsCurtail s (rDriver r) then None
       else let generationW = - fval (SmoothedW r); reducibleW = generationW - reactivePVCurtailFloorW
            in if reducibleW \<le> 0 then None else Some (rDriver r, generationW, reducibleW)"
  have "?red = ?red * (sum_list (map (\<lambda>(d, g, r). r) (curtailCandidates store s)) / ?R)"
    using False by (simp add: reducibleW_def)
  also have "\<dots> = sum_list (map ?share (curtailCandidates store s))"
    unfolding case_prod_unfold by (rule share_sum)
  also have "\<dots> = sum_list (map (\<lambda>r. case ?cand r of None \<Rightarrow> 0 | Some c \<Rightarrow> ?share c) (ReadingsByType DerPV store))"
    unfolding curtailCandidates_def by (rule sum_map_filter)
  also have "\<dots> \<le> pvReductionW store s ?caps"
    unfolding pvReductionW_def
  proof (rule sum_list_mono)
    fix r assume r: "r \<in> set (ReadingsByType DerPV store)"
    show "(case ?cand r of None \<Rightarrow> 0 | Some c \<Rightarrow> ?share c) \<le>
       (if \<not> onlineDriver store (rDriver r) \<or> \<not> supportsCurtail s (rDriver r) then 0
       else case mget ?caps (rDriver r) of
              None \<Rightarrow> 0
            | Some limW \<Rightarrow>
                if limW \<le> curtailMinPerDriverW then 0
                else let generationW = - fval (SmoothedW r) in if generationW > limW then generationW - limW else 0)"
    proof (cases "?cand r")
      case None
      then show ?thesis by (auto simp: Let_def split: option.split)
    next
      case (Some c)
      obtain d g m where c: "c = (d, g, m)" by (cases c)
      have mem: "(d, g, m) \<in> set (curtailCandidates store s)"
        using r Some unfolding c curtailCandidates_def set_map_filter by blast
      from sent [OF mem] obtain w where w: "mget ?caps d = Some w" "curtailMinPerDriverW < w" by blast
      have "mget (pgCaps ?G) d = Some (g - ?red * (m / ?R))" by (rule guard_caps(2) [OF assms(1,2) mem])
      then have "w \<le> g - ?red * (m / ?R)"
        using w mergeGuard_get [OF guard_caps(1) [OF assms(1)], of s "next" d] by (auto split: option.splits if_splits)
      moreover have "d = rDriver r" "g = - fval (SmoothedW r)" using Some by (auto simp: c Let_def split: if_splits)
      ultimately show ?thesis using Some candidates_spec(1,2) [OF mem] w by (simp add: c Let_def)
    qed
  qed
  finally show ?thesis .
qed

lemma planned_supported:
  assumes "plannedPVCaps store dir l s = Some caps"
  shows "gomap_ok caps" "mget caps d = Some w \<Longrightarrow> supportsCurtail s d"
  using assms by (auto simp: plannedPVCaps_def planningPVProofValid_def gomap_ok_def Let_def split: if_splits)

lemma share_caps:
  assumes "readings_ok store"
  shows "gomap_ok (shareCaps store h d0 l s)" "mget (shareCaps store h d0 l s) d = Some w \<Longrightarrow> supportsCurtail s d"
proof -
  let ?g = "generating store s" and ?t = "sum_list (map snd (generating store s))"
  have dist: "distinct (map fst ?g)"
    unfolding generating_def using readings_distinct [OF assms, of DerPV] by (simp add: comp_def distinct_map_filter)
  have sup: "supportsCurtail s (fst x)" if "x \<in> set ?g" for x using that by (auto simp: generating_def)
  note fill = fill_map [OF dist, of "\<lambda>x. fval l * (snd x / ?t)"]
  have filled: "supportsCurtail s d" if "mget (foldl (\<lambda>m x. mset_at (fst x) (fval l * (snd x / ?t)) m) [] ?g) d = Some w"
  proof -
    have "map_of (map (\<lambda>x. (fst x, fval l * (snd x / ?t))) ?g) d = Some w" using that by (simp only: fill(1))
    then show ?thesis using sup by (auto dest!: map_of_SomeD)
  qed
  show "gomap_ok (shareCaps store h d0 l s)"
    using fill(2) by (simp add: shareCaps_def Let_def case_prod_unfold gomap_ok_def)
  show "supportsCurtail s d" if "mget (shareCaps store h d0 l s) d = Some w"
    using that filled by (auto simp: shareCaps_def Let_def case_prod_unfold split: if_splits)
qed

lemma base_caps:
  assumes "readings_ok store"
  shows "gomap_ok (baseCaps store hold h l p s)" "mget (baseCaps store hold h l p s) d = Some w \<Longrightarrow> supportsCurtail s d"
proof -
  define sh where "sh = (if (h \<or> l > Fin 0) \<and> SupportsPVCurtail s \<noteq> [] then shareCaps store h (if h then phDriver hold else []) l s else [])"
  have share: "gomap_ok sh" "mget sh d = Some w \<Longrightarrow> supportsCurtail s d"
    using share_caps [OF assms, of h _ l s] by (simp_all add: sh_def split: if_splits)
  have eq: "baseCaps store hold h l p s = (case p of None \<Rightarrow> sh | Some dir \<Rightarrow> if h then sh
      else case plannedPVCaps store dir l s of Some caps \<Rightarrow> caps | None \<Rightarrow> sh)"
    by (simp only: baseCaps_def Let_def sh_def)
  show "gomap_ok (baseCaps store hold h l p s)" unfolding eq using share(1) planned_supported(1) by (simp split: option.split)
  show "mget (baseCaps store hold h l p s) d = Some w \<Longrightarrow> supportsCurtail s d"
    unfolding eq using share(2) planned_supported(2) [of store _ l s] by (simp split: option.splits if_splits)
qed

text \<open>The tick reads the settings it was given: only the expired hold is forgotten before the caps are decided.\<close>

lemma baseLimit_frame: "\<exists>h. snd (baseLimit store s) = s\<lparr>ManualPVHold := h\<rparr>"
proof -
  have "\<exists>h. s = s\<lparr>ManualPVHold := h\<rparr>" by (rule exI [of _ "ManualPVHold s"]) simp
  then show ?thesis by (auto simp: baseLimit_def GetPVManualHold_def Let_def case_prod_beta)
qed

lemma hold_frame:
  "siteFuseMaxW (s\<lparr>ManualPVHold := h\<rparr>) = siteFuseMaxW s"
  "effectiveExportCeilingW f (s\<lparr>ManualPVHold := h\<rparr>) = effectiveExportCeilingW f s"
  "solarSurplusW store (s\<lparr>ManualPVHold := h\<rparr>) = solarSurplusW store s"
  "curtailCandidates store (s\<lparr>ManualPVHold := h\<rparr>) = curtailCandidates store s"
  "pvReductionW store (s\<lparr>ManualPVHold := h\<rparr>) caps = pvReductionW store s caps"
  by (simp_all add: siteFuseMaxW_def effectiveExportCeilingW_def fuseSafetyMarginW_def solarSurplusW_def
      curtailCandidates_def pvReductionW_def cong: if_cong)

lemma hold_frame_guard:
  "computePVExportGuard store (s\<lparr>ManualPVHold := h\<rparr>) = computePVExportGuard store s"
  "reducibleW store (s\<lparr>ManualPVHold := h\<rparr>) = reducibleW store s"
  by (simp_all add: guard_eq guardFill_def reducibleW_def hold_frame Let_def)

text \<open>The plan of a tick, over the state it was given.\<close>

lemma curtailPlan_obtains:
  assumes "readings_ok store"
  obtains want base hd where "curtailPlan store s = ((want, computePVExportGuard store s,
      mergeGuard (pgCaps (computePVExportGuard store s)) base), s\<lparr>ManualPVHold := hd\<rparr>)"
    "gomap_ok base" "\<And>d w. mget base d = Some w \<Longrightarrow> supportsCurtail s d"
    "pgActive (computePVExportGuard store s) \<Longrightarrow> want"
proof -
  obtain hold h l p s1 where b: "baseLimit store s = ((hold, h, l, p), s1)" by (metis surj_pair)
  obtain hd where s1: "s1 = s\<lparr>ManualPVHold := hd\<rparr>" using baseLimit_frame [of store s] by (auto simp: b)
  let ?base = "baseCaps store hold h l p s1"
  show thesis
  proof (rule that [of "h \<or> l > Fin 0 \<or> pgActive (computePVExportGuard store s)" ?base hd])
    show "mget ?base d = Some w \<Longrightarrow> supportsCurtail s d" for d w
      using base_caps(2) [OF assms, of hold h l p s1 d w] by (simp add: s1)
  qed (simp_all add: curtailPlan_def b s1 hold_frame_guard base_caps(1) [OF assms] Let_def)
qed

text \<open>What the commands of a tick say of each driver.\<close>

definition sentCaps :: "CurtailTarget list \<Rightarrow> (string, real) gomap" where
  "sentCaps out = map (\<lambda>t. (ctDriver t, ctLimitW t)) out"

lemma sentCaps_get:
  assumes "gomap_ok next" "(out, s') = curtailTargets store want next s"
  shows "mget (sentCaps out) d = (case mget next d of
      Some w \<Rightarrow> if w \<le> curtailMinPerDriverW then None else Some w
    | None \<Rightarrow> if mget (LastCurtailedDrivers s) d \<noteq> None \<and> releases store want s d then Some 0 else None)"
proof -
  let ?big = "filter (\<lambda>(d, w). \<not> w \<le> curtailMinPerDriverW) next"
  let ?rel = "filter (\<lambda>d. mget next d = None \<and> releases store want s d) (map fst (LastCurtailedDrivers s))"
  have out: "sentCaps out = map (\<lambda>d. (d, 0)) ?rel @ ?big"
    using assms(2) by (simp add: curtailTargets_def Let_def sentCaps_def comp_def case_prod_beta conj_commute filter_map)
  have big: "mget ?big d = (case mget next d of Some w \<Rightarrow> if w \<le> curtailMinPerDriverW then None else Some w | None \<Rightarrow> None)"
  proof (cases "mget next d")
    case None
    then have "mget ?big d = None" by (auto simp: map_of_eq_None_iff)
    with None show ?thesis by simp
  next
    case (Some w)
    then have only: "(d, v) \<in> set next \<longleftrightarrow> v = w" for v using assms(1) by (auto simp flip: mget_iff)
    have "mget ?big d = Some v \<longleftrightarrow> v = w \<and> \<not> w \<le> curtailMinPerDriverW" for v
      using assms(1) only by (auto simp: mget_iff)
    then show ?thesis using Some by (cases "mget ?big d") auto
  qed
  have rel: "map_of (map (\<lambda>d. (d, 0)) ?rel) d = (if d \<in> set ?rel then Some 0 else None)"
    by (induction ?rel) (auto simp: map_of_map_restrict restrict_map_def)
  have "d \<in> fst ` set (LastCurtailedDrivers s) \<longleftrightarrow> mget (LastCurtailedDrivers s) d \<noteq> None"
    by (simp add: map_of_eq_None_iff)
  then show ?thesis unfolding out map_of_append map_add_def big rel by (auto split: option.split)
qed

lemma reduction_sent:
  assumes "\<And>d. mget a d = (case mget b d of Some w \<Rightarrow> if w \<le> curtailMinPerDriverW then None else Some w | None \<Rightarrow> None)
      \<or> mget b d = None \<and> mget a d = Some 0"
  shows "pvReductionW store s a = pvReductionW store s b"
proof -
  have "(case mget a d of None \<Rightarrow> 0 | Some w \<Rightarrow> if w \<le> curtailMinPerDriverW then 0 else f w)
      = (case mget b d of None \<Rightarrow> 0 | Some w \<Rightarrow> if w \<le> curtailMinPerDriverW then 0 else (f w :: real))" for d f
    using assms [of d] by (auto simp: curtailMinPerDriverW_def split: option.splits if_splits)
  then show ?thesis unfolding pvReductionW_def by (simp cong: if_cong)
qed

lemma tracked_get:
  assumes "gomap_ok next" "(out, s') = curtailTargets store want next s"
  shows "mget (LastCurtailedDrivers s') d \<noteq> None \<longleftrightarrow> (case mget next d of
      Some w \<Rightarrow> curtailMinPerDriverW < w
    | None \<Rightarrow> mget (LastCurtailedDrivers s) d \<noteq> None \<and> \<not> releases store want s d)"
proof -
  let ?kept = "filter (\<lambda>d. \<not> releases store want s d) (filter (\<lambda>d. mget next d = None) (map fst (LastCurtailedDrivers s)))"
  let ?caps = "map ctDriver (filter (\<lambda>t. ctLimitW t > 0) out)"
  have fill: "mget (foldl (\<lambda>m d. mset_at d True m) m0 ds) d \<noteq> None \<longleftrightarrow> d \<in> set ds \<or> mget m0 d \<noteq> None" for ds m0
    by (induction ds arbitrary: m0) auto
  have "LastCurtailedDrivers s' = foldl (\<lambda>m d. mset_at d True m) [] (?caps @ ?kept)"
    using assms(2) by (simp add: curtailTargets_def Let_def)
  then have "mget (LastCurtailedDrivers s') d \<noteq> None \<longleftrightarrow> d \<in> set ?caps \<or> d \<in> set ?kept"
    by (simp only: fill set_append) simp
  moreover have "d \<in> set ?caps \<longleftrightarrow> (\<exists>w. (d, w) \<in> set next \<and> curtailMinPerDriverW < w)"
    using assms(2) by (force simp: curtailTargets_def Let_def curtailMinPerDriverW_def image_iff)
  moreover have "\<dots> \<longleftrightarrow> (\<exists>w. mget next d = Some w \<and> curtailMinPerDriverW < w)" by (simp add: mget_iff [OF assms(1)])
  moreover have "d \<in> set ?kept \<longleftrightarrow> mget next d = None \<and> mget (LastCurtailedDrivers s) d \<noteq> None \<and> \<not> releases store want s d"
    by (auto simp: map_of_eq_None_iff)
  ultimately show ?thesis by (auto split: option.split)
qed

text \<open>The caps of a tick, and all a tick says and remembers of a driver.\<close>

definition tickCaps :: "Store \<Rightarrow> State \<Rightarrow> (string, real) gomap" where
  "tickCaps store s = snd (snd (fst (curtailPlan store s)))"

definition tickOutcome :: "Store \<Rightarrow> State \<Rightarrow> bool \<Rightarrow> (string, real) gomap \<Rightarrow> CurtailTarget list \<Rightarrow> State \<Rightarrow> bool" where
  "tickOutcome store s want base out s' \<longleftrightarrow>
     gomap_ok base \<and> (\<forall>d w. mget base d = Some w \<longrightarrow> supportsCurtail s d)
     \<and> (pgActive (computePVExportGuard store s) \<longrightarrow> want)
     \<and> tickCaps store s = mergeGuard (pgCaps (computePVExportGuard store s)) base
     \<and> (\<forall>d. mget (sentCaps out) d = (case mget (tickCaps store s) d of
          Some w \<Rightarrow> if w \<le> curtailMinPerDriverW then None else Some w
        | None \<Rightarrow> if mget (LastCurtailedDrivers s) d \<noteq> None \<and> releases store want s d then Some 0 else None))
     \<and> (\<forall>d. mget (LastCurtailedDrivers s') d \<noteq> None \<longleftrightarrow> (case mget (tickCaps store s) d of
          Some w \<Rightarrow> curtailMinPerDriverW < w
        | None \<Rightarrow> mget (LastCurtailedDrivers s) d \<noteq> None \<and> \<not> releases store want s d))
     \<and> PVExportGuardActive s' = pgActive (computePVExportGuard store s)
     \<and> PVExportResidualW s' = pvExportResidualAfterCaps (pgOverageW (computePVExportGuard store s)) store s (sentCaps out)"

lemma curtail_result:
  assumes "readings_ok store" "(out, s') = ComputePVCurtail store s"
  shows "\<exists>want base. tickOutcome store s want base out s'"
proof -
  let ?G = "computePVExportGuard store s"
  obtain want base hd where p: "curtailPlan store s = ((want, ?G, mergeGuard (pgCaps ?G) base), s\<lparr>ManualPVHold := hd\<rparr>)"
    and b: "gomap_ok base" "\<And>d w. mget base d = Some w \<Longrightarrow> supportsCurtail s d" "pgActive ?G \<Longrightarrow> want"
    using curtailPlan_obtains [OF assms(1)] by metis
  let ?n = "mergeGuard (pgCaps ?G) base"
  let ?s1 = "s\<lparr>ManualPVHold := hd, PVExportGuardActive := pgActive ?G,
      PVExportResidualW := pvExportResidualAfterCaps (pgOverageW ?G) store (s\<lparr>ManualPVHold := hd\<rparr>) ?n\<rparr>"
  have t: "(out, s') = curtailTargets store want ?n ?s1" using assms(2) by (simp add: ComputePVCurtail_def p)
  have n: "tickCaps store s = ?n" by (simp add: tickCaps_def p)
  have rel: "releases store want ?s1 = releases store want s" "LastCurtailedDrivers ?s1 = LastCurtailedDrivers s"
    by (simp_all add: releases_def fun_eq_iff)
  note sent = sentCaps_get [OF mergeGuard_ok [OF b(1)] t, unfolded rel]
  note kept = tracked_get [OF mergeGuard_ok [OF b(1)] t, unfolded rel]
  have s': "PVExportGuardActive s' = pgActive ?G"
    "PVExportResidualW s' = pvExportResidualAfterCaps (pgOverageW ?G) store (s\<lparr>ManualPVHold := hd\<rparr>) ?n"
    using t by (simp_all add: curtailTargets_def Let_def)
  have "pvReductionW store s (sentCaps out) = pvReductionW store s ?n"
    by (rule reduction_sent) (simp add: sent split: option.split)
  then have res: "PVExportResidualW s' = pvExportResidualAfterCaps (pgOverageW ?G) store s (sentCaps out)"
    by (simp add: s'(2) pvExportResidualAfterCaps_def hold_frame(5))
  have "tickOutcome store s want base out s'"
    unfolding tickOutcome_def n using b sent kept s'(1) res by blast
  then show ?thesis by blast
qed

section \<open>A sunny site\<close>

definition wattsOf :: "string \<Rightarrow> DerType \<Rightarrow> real \<Rightarrow> DerReading" where
  "wattsOf d t w = \<lparr>rDriver = d, rDerType = t, RawW = Fin w, SmoothedW = Fin w, SoC = None, SoCUpdatedAt = zeroTime,
     Data = Empty, UpdatedAt = 0\<rparr>"

definition siteStore :: "DerReading list \<Rightarrow> Store" where
  "siteStore rs = (NewStore 0)\<lparr>readings := map (\<lambda>r. (key (rDriver r) (rDerType r), r)) rs,
     health := map (\<lambda>r. (rDriver r, RecordSuccess 0 (newHealth (rDriver r) 0))) rs\<rparr>"

definition sunnyStore :: Store where
  "sunnyStore = siteStore [wattsOf ''p'' DerPV (- 10000), wattsOf ''m'' DerMeter (- 8000)]"

definition sunnyState :: State where
  "sunnyState = (NewState 0 50 ''m'' (\<lambda>_. 0) 0)\<lparr>SiteFuseAmps := 10, SiteFuseVoltage := 230, SiteFusePhases := 3,
     MaxExportW := 5000, SupportsPVCurtail := [(''p'', True)], SolarFeedDrivers := [(''n'', True)]\<rparr>"

lemmas sunny_simps = sunnyStore_def siteStore_def wattsOf_def sunnyState_def NewState_def NewStore_def key_def
  Get_def ReadingsByType_def onlineBattery_def DriverHealthOf_def RecordSuccess_def newHealth_def IsOnline_def
  refreshDeviceFault_def mgetD_def

lemma sunny_ok: "readings_ok sunnyStore"
  by (auto simp: readings_ok_def gomap_ok_def sunny_simps reading_ok_def split: if_splits)

lemma sunny_guard:
  "siteFuseMaxW sunnyState = 6900" "effectiveExportCeilingW 6900 sunnyState = 5000" "solarSurplusW sunnyStore sunnyState = 8000"
  "curtailCandidates sunnyStore sunnyState = [(''p'', 10000, 9998)]"
  by (simp_all add: siteFuseMaxW_def effectiveExportCeilingW_def fuseSafetyMarginW_def solarSurplusW_def sumOnlineSourcedW_def
      curtailCandidates_def List.map_filter_simps reactivePVCurtailFloorW_def Let_def sunny_simps)

lemma sunny_caps: "tickCaps sunnyStore sunnyState = [(''p'', 7000)]"
proof -
  have "pgCaps (computePVExportGuard sunnyStore sunnyState) = [(''p'', 7000)]"
    by (simp add: computePVExportGuard_def sunny_guard Let_def guardCap_def noGuard_def reactivePVCurtailFloorW_def)
  moreover have "computePVExportGuard sunnyStore (snd (baseLimit sunnyStore sunnyState)) = computePVExportGuard sunnyStore sunnyState"
    using baseLimit_frame [of sunnyStore sunnyState] hold_frame_guard(1) by metis
  moreover have "fst (baseLimit sunnyStore sunnyState) = (noPVHold, False, Fin 0, None)"
    by (simp add: baseLimit_def GetPVManualHold_def planLimit_def protectLimit_def protectiveCurtailLimitW_def noPVHold_def
        isZero_def sunnyState_def NewState_def Let_def)
  ultimately show ?thesis
    by (simp add: tickCaps_def curtailPlan_def case_prod_beta Let_def baseCaps_def mergeGuard_def)
qed

section \<open>Properties\<close>

text \<open>Every command to an inverter is either a cap above one watt for a driver that can be capped, or the release of
  a driver that was capped and may be let go. While the export guard is active only a driver that is offline or
  can no longer be capped is released.\<close>

theorem pv_commands_are_caps_or_releases:
  assumes "readings_ok store" "(out, s') = ComputePVCurtail store s" "mget (sentCaps out) d = Some w"
  shows "(curtailMinPerDriverW < w \<and> supportsCurtail s d)
    \<or> (w = 0 \<and> mget (LastCurtailedDrivers s) d \<noteq> None
       \<and> (PVExportGuardActive s' \<longrightarrow> \<not> supportsCurtail s d \<or> \<not> onlineDriver store d))"
proof -
  obtain want base where o: "tickOutcome store s want base out s'" using curtail_result [OF assms(1,2)] by blast
  then have "mget (tickCaps store s) d \<noteq> None \<Longrightarrow> supportsCurtail s d"
    using guard_caps(3) [OF assms(1), of s d] mergeGuard_get [OF guard_caps(1) [OF assms(1)], of s base d]
    by (auto simp: tickOutcome_def split: option.splits)
  then show ?thesis using o assms(3) by (auto simp: tickOutcome_def releases_def split: option.splits if_splits)
qed

theorem pv_commands_are_caps_or_releases_witness:
  "mget (sentCaps (fst (ComputePVCurtail sunnyStore sunnyState))) ''p'' = Some 7000 \<and> curtailMinPerDriverW < 7000"
proof -
  obtain out s' where r: "(out, s') = ComputePVCurtail sunnyStore sunnyState" by (metis surj_pair)
  obtain want base where "tickOutcome sunnyStore sunnyState want base out s'" using curtail_result [OF sunny_ok r] by blast
  then have "mget (sentCaps out) ''p'' = Some 7000" by (simp add: tickOutcome_def sunny_caps curtailMinPerDriverW_def)
  moreover from pv_commands_are_caps_or_releases [OF sunny_ok r this] have "curtailMinPerDriverW < 7000" by simp
  ultimately show ?thesis by (simp flip: r)
qed

text \<open>C32: The export guard keeps solar export inside the ceiling as far as it can: when every inverter that may be reduced
  is sent a cap, what is left above the ceiling is at most what no inverter can give, and the residual the tick
  reports is exactly what the caps it sent leave.\<close>

theorem export_guard_keeps_ceiling:
  assumes "readings_ok store" "(out, s') = ComputePVCurtail store s" "0 < siteFuseMaxW s"
    "ceilW = effectiveExportCeilingW (siteFuseMaxW s) s" "ceilW < solarSurplusW store s"
  shows "PVExportGuardActive s'
    \<and> PVExportResidualW s' = max 0 (solarSurplusW store s - pvReductionW store s (sentCaps out) - ceilW)
    \<and> ((\<forall>(d, g, r) \<in> set (curtailCandidates store s). \<exists>w > 0. mget (sentCaps out) d = Some w) \<longrightarrow>
       PVExportResidualW s' \<le> max 0 (solarSurplusW store s - ceilW - reducibleW store s))"
proof -
  let ?G = "computePVExportGuard store s"
  obtain want base where o: "tickOutcome store s want base out s'" using curtail_result [OF assms(1,2)] by blast
  have G: "pgActive ?G" "pgOverageW ?G = solarSurplusW store s - ceilW" using guard_cases [of store s] assms(3-5) by auto
  have sent: "mget (sentCaps out) d = (case mget (tickCaps store s) d of
          Some w \<Rightarrow> if w \<le> curtailMinPerDriverW then None else Some w
        | None \<Rightarrow> if mget (LastCurtailedDrivers s) d \<noteq> None \<and> releases store want s d then Some 0 else None)" for d
    using o by (simp add: tickOutcome_def)
  have same: "pvReductionW store s (sentCaps out) = pvReductionW store s (tickCaps store s)"
    by (rule reduction_sent) (simp add: sent split: option.split)
  have exact: "PVExportResidualW s' = max 0 (solarSurplusW store s - pvReductionW store s (sentCaps out) - ceilW)"
    using assms(5) o by (simp add: tickOutcome_def pvExportResidualAfterCaps_def G Let_def)
  have "PVExportResidualW s' \<le> max 0 (solarSurplusW store s - ceilW - reducibleW store s)"
    if all: "\<forall>(d, g, r) \<in> set (curtailCandidates store s). \<exists>w > 0. mget (sentCaps out) d = Some w"
  proof -
    have caps: "tickCaps store s = mergeGuard (pgCaps ?G) base" "gomap_ok base" using o by (simp_all add: tickOutcome_def)
    have cands: "\<exists>w. mget (tickCaps store s) d = Some w \<and> curtailMinPerDriverW < w"
      if "(d, g, r) \<in> set (curtailCandidates store s)" for d g r
    proof -
      obtain w where "0 < w" "mget (sentCaps out) d = Some w" using all \<open>(d, g, r) \<in> set (curtailCandidates store s)\<close> by blast
      then show ?thesis using sent [of d] by (auto split: option.splits if_splits)
    qed
    have "min (pgOverageW ?G) (reducibleW store s) \<le> pvReductionW store s (tickCaps store s)"
      unfolding caps(1) by (rule reduction_of_guard [OF assms(1) G(1) caps(2)]) (rule cands [unfolded caps(1)])
    then show ?thesis unfolding exact same G(2) by linarith
  qed
  with exact o G(1) show ?thesis by (simp add: tickOutcome_def)
qed

theorem export_guard_keeps_ceiling_witness:
  "PVExportResidualW (snd (ComputePVCurtail sunnyStore sunnyState)) = 0"
proof -
  obtain out s' where r: "(out, s') = ComputePVCurtail sunnyStore sunnyState" by (metis surj_pair)
  obtain want base where "tickOutcome sunnyStore sunnyState want base out s'" using curtail_result [OF sunny_ok r] by blast
  then have "mget (sentCaps out) ''p'' = Some 7000" by (simp add: tickOutcome_def sunny_caps curtailMinPerDriverW_def)
  with export_guard_keeps_ceiling [OF sunny_ok r, of 5000]
  have "PVExportResidualW s' \<le> 0 \<and> 0 \<le> PVExportResidualW s'" by (auto simp: sunny_guard reducibleW_def)
  then show ?thesis by (simp flip: r)
qed

text \<open>Every inverter that holds a cap is remembered: when the tick's caps are all above one watt, an inverter that was
  capped before or is capped now is tracked after the tick unless it was released in it, so the release is never lost.\<close>

definition afterCaps :: "CurtailTarget list \<Rightarrow> (string \<Rightarrow> real option) \<Rightarrow> string \<Rightarrow> real option" where
  "afterCaps out dev d = (case mget (sentCaps out) d of None \<Rightarrow> dev d | Some w \<Rightarrow> if w > 0 then Some w else None)"

theorem capped_inverters_are_tracked:
  assumes "readings_ok store" "(out, s') = ComputePVCurtail store s"
    "\<And>d. dev d \<noteq> None \<Longrightarrow> mget (LastCurtailedDrivers s) d \<noteq> None"
    "\<And>d w. mget (tickCaps store s) d = Some w \<Longrightarrow> curtailMinPerDriverW < w"
    "afterCaps out dev d \<noteq> None"
  shows "mget (LastCurtailedDrivers s') d \<noteq> None"
proof -
  obtain want base where o: "tickOutcome store s want base out s'" using curtail_result [OF assms(1,2)] by blast
  show ?thesis
  proof (cases "mget (tickCaps store s) d")
    case (Some w)
    then show ?thesis using o assms(4) by (simp add: tickOutcome_def)
  next
    case None
    then have "mget (LastCurtailedDrivers s) d \<noteq> None" "\<not> releases store want s d"
      using o assms(3) [of d] assms(5) by (auto simp: tickOutcome_def afterCaps_def split: if_splits)
    then show ?thesis using o None by (simp add: tickOutcome_def)
  qed
qed

theorem capped_inverters_are_tracked_witness:
  "mget (LastCurtailedDrivers (snd (ComputePVCurtail sunnyStore sunnyState))) ''p'' \<noteq> None"
proof -
  obtain out s' where r: "(out, s') = ComputePVCurtail sunnyStore sunnyState" by (metis surj_pair)
  obtain want base where "tickOutcome sunnyStore sunnyState want base out s'" using curtail_result [OF sunny_ok r] by blast
  then have "afterCaps out (\<lambda>_. None) ''p'' \<noteq> None" by (simp add: tickOutcome_def sunny_caps curtailMinPerDriverW_def afterCaps_def)
  then have "mget (LastCurtailedDrivers s') ''p'' \<noteq> None"
    by (rule capped_inverters_are_tracked [OF sunny_ok r, rotated 2])
       (auto simp: sunny_caps curtailMinPerDriverW_def split: if_splits)
  then show ?thesis by (simp flip: r)
qed

text \<open>C38: A share of one watt or less loses the cap: the driver is sent nothing and forgotten, so when curtailment ends it
  is not released, and the inverter keeps the cap it was sent before.\<close>

theorem tiny_share_loses_cap:
  assumes "readings_ok store" "(out, s') = ComputePVCurtail store s" "mget (tickCaps store s) d = Some w" "w \<le> curtailMinPerDriverW"
    "readings_ok store2" "(out2, s2') = ComputePVCurtail store2 s2" "LastCurtailedDrivers s2 = LastCurtailedDrivers s'"
    "mget (tickCaps store2 s2) d = None"
  shows "afterCaps out2 (afterCaps out dev) d = dev d \<and> mget (LastCurtailedDrivers s') d = None"
proof -
  obtain want base where o: "tickOutcome store s want base out s'" using curtail_result [OF assms(1,2)] by blast
  then have "mget (sentCaps out) d = None" "\<not> mget (LastCurtailedDrivers s') d \<noteq> None"
    using assms(3,4) by (simp_all add: tickOutcome_def)
  moreover obtain want base where "tickOutcome store2 s2 want base out2 s2'" using curtail_result [OF assms(5,6)] by blast
  then have "mget (sentCaps out2) d = None" using assms(7,8) calculation(2) by (simp add: tickOutcome_def)
  ultimately show ?thesis by (simp add: afterCaps_def)
qed

definition dawnStore :: Store where
  "dawnStore = siteStore [wattsOf ''a'' DerPV (- 9999), wattsOf ''b'' DerPV (- 1)]"

definition dawnState :: State where
  "dawnState = (NewState 0 50 ''m'' (\<lambda>_. 0) 0)\<lparr>SupportsPVCurtail := [(''a'', True), (''b'', True)],
     LastCurtailedDrivers := [(''b'', True)], ManualPVHold := \<lparr>phDriver = [], phLimitW = 5000, phExpiresAt = 60 * second\<rparr>\<rparr>"

lemma dawn_ok: "readings_ok dawnStore"
  by (auto simp: readings_ok_def gomap_ok_def dawnStore_def sunny_simps reading_ok_def split: if_splits)

lemma dawn_caps: "mget (tickCaps dawnStore dawnState) ''b'' = Some (1 / 2)"
proof -
  have guard: "pgCaps (computePVExportGuard store dawnState) = []" for store
    by (simp add: computePVExportGuard_def siteFuseMaxW_def dawnState_def NewState_def noGuard_def)
  have "computePVExportGuard dawnStore (snd (baseLimit dawnStore dawnState)) = computePVExportGuard dawnStore dawnState"
    using baseLimit_frame [of dawnStore dawnState] hold_frame_guard(1) by metis
  moreover have "baseLimit dawnStore dawnState = ((ManualPVHold dawnState, True, Fin 5000, None), dawnState)"
    by (simp add: baseLimit_def GetPVManualHold_def protectLimit_def protectiveCurtailLimitW_def
        isZero_def zeroTime_def dawnState_def NewState_def Let_def time_simps)
  moreover have "generating dawnStore dawnState = [(''a'', 9999), (''b'', 1)]"
    by (simp add: generating_def dawnStore_def dawnState_def sunny_simps)
  ultimately show ?thesis
    by (simp add: tickCaps_def curtailPlan_def Let_def baseCaps_def mergeGuard_def guard shareCaps_def)
       (simp add: dawnState_def NewState_def)
qed

lemma night_caps:
  assumes "clock s = 61 * second" "ManualPVHold s = ManualPVHold dawnState" "SlotDirectiveFunc s = None"
    "\<not> DCLinkProtectionEnabled s" "SiteFuseAmps s = 0"
  shows "tickCaps store s = []"
proof -
  have "baseLimit store s = ((noPVHold, False, Fin 0, None), s\<lparr>ManualPVHold := noPVHold\<rparr>)"
    using assms by (simp add: baseLimit_def GetPVManualHold_def planLimit_def protectLimit_def protectiveCurtailLimitW_def
        isZero_def zeroTime_def dawnState_def Let_def time_simps)
  moreover have "pgCaps (computePVExportGuard store s) = []"
    using assms by (simp add: computePVExportGuard_def siteFuseMaxW_def noGuard_def)
  ultimately show ?thesis by (simp add: tickCaps_def curtailPlan_def hold_frame_guard Let_def baseCaps_def mergeGuard_def)
qed

theorem tiny_share_loses_cap_witness:
  "\<exists>out s' out2 s2'. (out, s') = ComputePVCurtail dawnStore dawnState
     \<and> (out2, s2') = ComputePVCurtail dawnStore (dawnState\<lparr>clock := 61 * second, LastCurtailedDrivers := LastCurtailedDrivers s'\<rparr>)
     \<and> afterCaps out2 (afterCaps out (\<lambda>d. if d = ''b'' then Some 300 else None)) ''b'' = Some 300"
proof -
  obtain out s' where r: "(out, s') = ComputePVCurtail dawnStore dawnState" by (metis surj_pair)
  let ?s2 = "dawnState\<lparr>clock := 61 * second, LastCurtailedDrivers := LastCurtailedDrivers s'\<rparr>"
  obtain out2 s2' where r2: "(out2, s2') = ComputePVCurtail dawnStore ?s2" by (metis surj_pair)
  have "tickCaps dawnStore ?s2 = []" by (rule night_caps) (simp_all add: dawnState_def NewState_def)
  with tiny_share_loses_cap [OF dawn_ok r dawn_caps _ dawn_ok r2, of "\<lambda>d. if d = ''b'' then Some 300 else None"] r r2
  show ?thesis by (auto simp: curtailMinPerDriverW_def)
qed

text \<open>The caps of a site limit add up to the limit, in proportion to what each inverter generates, and none is sent
  when the limit does not bind.\<close>

theorem site_limit_is_shared:
  assumes "readings_ok store" "drivers = generating store s" "0 < sum_list (map snd drivers)"
  shows "(if \<not> holdActive \<and> sum_list (map snd drivers) \<le> l then shareCaps store holdActive [] (Fin l) s = []
     else (\<forall>(d, power) \<in> set drivers. mget (shareCaps store holdActive [] (Fin l) s) d = Some (l * power / sum_list (map snd drivers)))
       \<and> sum_list (map (\<lambda>(d, _). case mget (shareCaps store holdActive [] (Fin l) s) d of Some w \<Rightarrow> w | None \<Rightarrow> 0) drivers) = l)"
proof (cases "\<not> holdActive \<and> sum_list (map snd drivers) \<le> l")
  case True
  with assms show ?thesis by (simp add: shareCaps_def Let_def)
next
  case False
  let ?t = "sum_list (map snd drivers)" and ?c = "shareCaps store holdActive [] (Fin l) s"
  have dist: "distinct (map fst drivers)"
    unfolding assms(2) generating_def using readings_distinct [OF assms(1), of DerPV] by (simp add: comp_def distinct_map_filter)
  have caps: "?c = foldl (\<lambda>m x. mset_at (fst x) (l * (snd x / ?t)) m) [] drivers"
    using False assms(3) by (auto simp: shareCaps_def Let_def assms(2) case_prod_unfold)
  have share: "mget ?c (fst x) = Some (l * snd x / ?t)" if "x \<in> set drivers" for x
    unfolding caps fill_map(1) [OF dist] using that dist by (intro map_of_is_SomeI) (auto simp: comp_def)
  have "sum_list (map (\<lambda>(d, _). case mget ?c d of Some w \<Rightarrow> w | None \<Rightarrow> 0) drivers) = sum_list (map (\<lambda>x. l * (snd x / ?t)) drivers)"
    by (rule arg_cong [of _ _ sum_list], rule map_cong) (auto simp: share split: prod.split dest: share)
  also have "\<dots> = l" unfolding share_sum [symmetric] using assms(3) by simp
  finally show ?thesis using False share by force
qed

theorem site_limit_is_shared_witness: "mget (shareCaps dawnStore True [] (Fin 5000) dawnState) ''b'' = Some (1 / 2)"
proof -
  have g: "generating dawnStore dawnState = [(''a'', 9999), (''b'', 1)]"
    by (simp add: generating_def dawnStore_def dawnState_def sunny_simps)
  show ?thesis using site_limit_is_shared [OF dawn_ok refl, of dawnState True 5000] by (simp add: g)
qed

text \<open>The solar hint never promises more than the panels produce, nor more than the export that is left when every
  discharge is taken out of it, and never less than nothing.\<close>

theorem solar_feed_never_overstates:
  assumes "f \<in> set (ComputeSolarFeed store s)"
  shows "sfPowerW f \<le> 0 \<and> - sfPowerW f \<le> sumOnlineSourcedW store DerPV
    \<and> (sfPowerW f < 0 \<longrightarrow> (\<exists>m. Get (SiteMeterDriver s) DerMeter store = Some m
        \<and> - sfPowerW f \<le> - fval (SmoothedW m) - sumOnlineSourcedW store DerBattery - sumOnlineSourcedW store DerV2X))
    \<and> mget (SolarFeedDrivers s) (sfDriver f) \<noteq> None"
proof -
  have "0 \<le> sumOnlineSourcedW store t" for t
    unfolding sumOnlineSourcedW_def by (rule sum_list_nonneg) auto
  then have "0 \<le> solarSurplusW store s" "solarSurplusW store s \<le> sumOnlineSourcedW store DerPV"
    "0 < solarSurplusW store s \<Longrightarrow> \<exists>m. Get (SiteMeterDriver s) DerMeter store = Some m
      \<and> solarSurplusW store s \<le> - fval (SmoothedW m) - sumOnlineSourcedW store DerBattery - sumOnlineSourcedW store DerV2X"
    by (auto simp: solarSurplusW_def Let_def split: option.splits if_splits)
  moreover have "sfPowerW f = - solarSurplusW store s" "sfDriver f \<in> fst ` set (SolarFeedDrivers s)"
    using assms by (auto simp: ComputeSolarFeed_def Let_def image_iff split: if_splits) force
  ultimately show ?thesis by (simp add: map_of_eq_None_iff)
qed

theorem solar_feed_never_overstates_witness:
  "ComputeSolarFeed sunnyStore sunnyState = [\<lparr>sfDriver = ''n'', sfPowerW = - 8000\<rparr>] \<and> 8000 \<le> sumOnlineSourcedW sunnyStore DerPV"
proof -
  have feed: "ComputeSolarFeed sunnyStore sunnyState = [\<lparr>sfDriver = ''n'', sfPowerW = - 8000\<rparr>]"
    by (simp add: ComputeSolarFeed_def sunny_guard(3) Let_def) (simp add: sunnyState_def NewState_def)
  with solar_feed_never_overstates [of "\<lparr>sfDriver = ''n'', sfPowerW = - 8000\<rparr>" sunnyStore sunnyState] show ?thesis by simp
qed

text \<open>Without a site meter the house load reads zero, and the protection engages with its bare margin: the cap does not
  cover the load it cannot see.\<close>

lemma protection_engages_without_meter:
  assumes "DCLinkProtectionEnabled s" "Get (SiteMeterDriver s) DerMeter store = None" "DCLinkProtectionMarginW s \<le> 0"
    "DCLinkProtectionSoCThreshold s \<le> 0" "2000 \<le> sumOnlineSourcedW store DerPV"
    "List.map_filter (\<lambda>r. if onlineDriver store (rDriver r) then SoC r else None) (ReadingsByType DerBattery store) = [Fin 1]"
  shows "protectiveCurtailLimitW store s = Some 1000"
  using assms by (simp add: protectiveCurtailLimitW_def siteLoadW_def Let_def)

end
