(* ===== verification/Site_Gate.thy ===== *)
theory Site_Gate
  imports Meter_Freeze
begin

text \<open>
  The gate before every command (\<open>cmd/ftw/site_dispatch_safety.go\<close>): a verdict on the site meter, taken once per
  tick, that lets commands through only when the meter and its phase currents are fresh and the meter does not
  repeat itself, and the tracker that sends every driver to its own default once when the gate closes. A Go set of
  names is a list of distinct names.
\<close>

section \<open>The verdict\<close>

definition siteDispatchReady :: string where "siteDispatchReady = []"
definition siteDispatchMeterStale :: string where "siteDispatchMeterStale = ''site_meter_stale''"
definition siteDispatchPhaseCurrentsStale :: string where "siteDispatchPhaseCurrentsStale = ''site_phase_currents_stale''"

record siteDispatchDecision =
  Reason :: string

definition Allowed :: "siteDispatchDecision \<Rightarrow> bool" where
  "Allowed d = (Reason d = siteDispatchReady)"

definition frozenMeter :: "bool \<Rightarrow> siteDispatchDecision \<Rightarrow> siteDispatchDecision" where
  "frozenMeter isFrozen d = (if isFrozen \<and> Allowed d then d\<lparr>Reason := siteDispatchMeterStale\<rparr> else d)"

definition phaseMetricNames :: "string list" where
  "phaseMetricNames = [''meter_l1_a'', ''meter_l2_a'', ''meter_l3_a'']"

text \<open>One turn of the loop over the phases.\<close>

definition phaseStep ::
  "(string, metricSnap) gomap \<Rightarrow> duration \<Rightarrow> time \<Rightarrow> f64 list \<times> bool \<times> bool \<Rightarrow> nat \<Rightarrow> f64 list \<times> bool \<times> bool" where
  "phaseStep byName timeout now acc i =
     (case acc of (amps, available, fresh) \<Rightarrow>
        case mget byName (phaseMetricNames ! i) of
          None \<Rightarrow> (amps, available, False)
        | Some metric \<Rightarrow> (amps[i := snapValue metric], True,
            if tsub now (snapUpdatedAt metric) > timeout then False else fresh))"

definition phaseCurrentsFromSnapshots ::
  "(string \<times> metricSnap) list \<Rightarrow> int \<Rightarrow> duration \<Rightarrow> time \<Rightarrow> f64 list \<times> bool \<times> bool" where
  "phaseCurrentsFromSnapshots metrics phaseCount timeout now =
     (let phaseCount = (if phaseCount \<le> 0 then 3 else phaseCount); phaseCount = (if phaseCount > 3 then 3 else phaseCount);
          byName = foldl (\<lambda>m (name, metric). mset_at name metric m) [] metrics;
          (amps, available, fresh) = foldl (phaseStep byName timeout now) ([Fin 0, Fin 0, Fin 0], False, True) [0..<nat phaseCount]
      in if \<not> available then (amps, False, False) else (amps, True, fresh))"

definition sitePhaseCurrentsAt :: "Store \<Rightarrow> string \<Rightarrow> int \<Rightarrow> duration \<Rightarrow> time \<Rightarrow> f64 list \<times> bool \<times> bool" where
  "sitePhaseCurrentsAt tel siteMeter phaseCount timeout now =
     (if siteMeter = [] then ([Fin 0, Fin 0, Fin 0], False, False)
      else phaseCurrentsFromSnapshots (LatestMetricsByDriver siteMeter tel) phaseCount timeout now)"

definition evaluateSiteDispatchFreshnessAt ::
  "Store \<Rightarrow> string \<Rightarrow> real \<Rightarrow> int \<Rightarrow> duration \<Rightarrow> time \<Rightarrow> siteDispatchDecision" where
  "evaluateSiteDispatchFreshnessAt tel siteMeter fuseAmps phaseCount timeout now =
     (if siteMeter = [] then \<lparr>Reason = siteDispatchReady\<rparr>
      else case Get siteMeter DerMeter tel of
             None \<Rightarrow> \<lparr>Reason = siteDispatchMeterStale\<rparr>
           | Some meter \<Rightarrow>
               if tsub now (UpdatedAt meter) > timeout then \<lparr>Reason = siteDispatchMeterStale\<rparr>
               else if fuseAmps \<le> 0 then \<lparr>Reason = siteDispatchReady\<rparr>
               else case sitePhaseCurrentsAt tel siteMeter phaseCount timeout now of (amps, available, fresh) \<Rightarrow>
                      if available \<and> \<not> fresh then \<lparr>Reason = siteDispatchPhaseCurrentsStale\<rparr>
                      else \<lparr>Reason = siteDispatchReady\<rparr>)"

definition siteMeterGateLocked ::
  "Store \<Rightarrow> string \<Rightarrow> real \<Rightarrow> int \<Rightarrow> duration \<Rightarrow> time \<Rightarrow> State \<Rightarrow> siteDispatchDecision \<times> State" where
  "siteMeterGateLocked tel meter fuseAmps phases timeout now s =
     (let s = ObserveSiteMeterFreeze tel now s;
          isFrozen = (meter = SiteMeterDriver s \<and> SiteMeterFrozen s)
      in (frozenMeter isFrozen (evaluateSiteDispatchFreshnessAt tel meter fuseAmps phases timeout now), s))"

definition siteDispatchGateLocked :: "Store \<Rightarrow> duration \<Rightarrow> time \<Rightarrow> State \<Rightarrow> siteDispatchDecision \<times> State" where
  "siteDispatchGateLocked tel timeout now s =
     siteMeterGateLocked tel (SiteMeterDriver s) (SiteFuseAmps s) (SiteFusePhases s) timeout now s"

section \<open>Defaults when the gate closes\<close>

record staleSiteDefaultTracker =
  stBlocked :: bool
  stSiteMeter :: string
  stDefaulted :: "string list"

definition newStaleTracker :: staleSiteDefaultTracker where
  "newStaleTracker = \<lparr>stBlocked = False, stSiteMeter = [], stDefaulted = []\<rparr>"

fun defaultEach :: "string list \<Rightarrow> string list \<Rightarrow> string list \<Rightarrow> string list \<times> string list" where
  "defaultEach [] defaulted pend = (defaulted, pend)"
| "defaultEach (name # names) defaulted pend =
     (if name \<in> set defaulted then defaultEach names defaulted pend
      else defaultEach names (defaulted @ [name]) (pend @ [name]))"

definition stale_update ::
  "bool \<Rightarrow> string \<Rightarrow> string list \<Rightarrow> staleSiteDefaultTracker \<Rightarrow> (string list \<times> bool \<times> bool) \<times> staleSiteDefaultTracker" where
  "stale_update blocked siteMeter names t =
     (if \<not> blocked then (([], False, stBlocked t), \<lparr>stBlocked = False, stSiteMeter = siteMeter, stDefaulted = []\<rparr>)
      else let entered = (\<not> stBlocked t \<or> stSiteMeter t \<noteq> siteMeter);
               defaulted = (if entered then [] else stDefaulted t);
               (defaulted, pend) = defaultEach names defaulted []
           in ((pend, entered, False), \<lparr>stBlocked = True, stSiteMeter = siteMeter, stDefaulted = defaulted\<rparr>))"

section \<open>Lemmas\<close>

lemma phaseStep_flags:
  "foldl (phaseStep m timeout now) (amps0, a0, f0) is = (amps, available, fresh) \<Longrightarrow>
     (available \<longleftrightarrow> a0 \<or> (\<exists>i \<in> set is. mget m (phaseMetricNames ! i) \<noteq> None))
     \<and> (fresh \<longleftrightarrow> f0 \<and> (\<forall>i \<in> set is. \<exists>metric. mget m (phaseMetricNames ! i) = Some metric \<and> tsub now (snapUpdatedAt metric) \<le> timeout))"
proof (induction "is" arbitrary: amps0 a0 f0)
  case Nil
  then show ?case by simp
next
  case (Cons i "is")
  show ?case
  proof (cases "mget m (phaseMetricNames ! i)")
    case None
    then have "phaseStep m timeout now (amps0, a0, f0) i = (amps0, a0, False)" by (simp add: phaseStep_def)
    then have "foldl (phaseStep m timeout now) (amps0, a0, False) is = (amps, available, fresh)" using Cons.prems by simp
    from Cons.IH [OF this] show ?thesis using None by auto
  next
    case (Some metric)
    then have "phaseStep m timeout now (amps0, a0, f0) i =
        (amps0[i := snapValue metric], True, if tsub now (snapUpdatedAt metric) > timeout then False else f0)"
      by (simp add: phaseStep_def)
    then have "foldl (phaseStep m timeout now) (amps0[i := snapValue metric], True,
        if tsub now (snapUpdatedAt metric) > timeout then False else f0) is = (amps, available, fresh)"
      using Cons.prems by simp
    from Cons.IH [OF this] show ?thesis using Some by (auto split: if_splits)
  qed
qed

lemma freeze_frame: "SiteMeterDriver (ObserveSiteMeterFreeze tel now s) = SiteMeterDriver s"
  "evLimit (ObserveSiteMeterFreeze tel now s) = evLimit s" "DriverLimits (ObserveSiteMeterFreeze tel now s) = DriverLimits s"
  by (auto simp: ObserveSiteMeterFreeze_def Let_def split: option.split)

lemma defaultEach_result:
  assumes "defaultEach names d p = (d', p')"
  shows "set d' = set d \<union> set names" "\<exists>q. p' = p @ q \<and> d' = d @ q \<and> distinct q \<and> set q = set names - set d"
proof -
  have "\<exists>q. p' = p @ q \<and> d' = d @ q \<and> distinct q \<and> set q = set names - set d"
    using assms
  proof (induction names d p rule: defaultEach.induct)
    case (2 name names d p)
    show ?case
    proof (cases "name \<in> set d")
      case True
      then have "defaultEach names d p = (d', p')" using "2.prems" by simp
      from "2.IH"(1) [OF True this] True show ?thesis by (simp add: insert_Diff_if)
    next
      case False
      then have "defaultEach names (d @ [name]) (p @ [name]) = (d', p')" using "2.prems" by simp
      from "2.IH"(2) [OF False this] obtain q where "p' = (p @ [name]) @ q" "d' = (d @ [name]) @ q" "distinct q"
        "set q = set names - set (d @ [name])" by blast
      then show ?thesis using False by (intro exI [of _ "name # q"]) auto
    qed
  qed simp
  then show "\<exists>q. p' = p @ q \<and> d' = d @ q \<and> distinct q \<and> set q = set names - set d" .
  then obtain q where "d' = d @ q" "set q = set names - set d" by blast
  then show "set d' = set d \<union> set names" by simp
qed

text \<open>An update of the tracker: the driver names it was given, and the site meter.\<close>

type_synonym staleEvent = "bool \<times> string \<times> string list"

definition staleStep :: "staleSiteDefaultTracker \<Rightarrow> staleEvent \<Rightarrow> staleSiteDefaultTracker" where
  "staleStep t e = (case e of (blocked, meter, names) \<Rightarrow> snd (stale_update blocked meter names t))"

definition stale_ok :: "staleSiteDefaultTracker \<Rightarrow> bool" where
  "stale_ok t = (distinct (stDefaulted t) \<and> (\<not> stBlocked t \<longrightarrow> stDefaulted t = []))"

interpretation stale: invariant_machine staleStep stale_ok
proof
  fix t :: staleSiteDefaultTracker and e :: staleEvent assume t: "stale_ok t"
  obtain blocked meter names where e: "e = (blocked, meter, names)" by (cases e)
  let ?d = "if \<not> stBlocked t \<or> stSiteMeter t \<noteq> meter then [] else stDefaulted t"
  obtain d' p' where r: "defaultEach names ?d [] = (d', p')" by force
  from defaultEach_result(2) [OF r] t have "distinct d'" by (auto simp: stale_ok_def)
  with r show "stale_ok (staleStep t e)"
    by (simp add: stale_ok_def staleStep_def e stale_update_def Let_def)
qed

text \<open>What an episode has sent: the pending names of every update while the gate stays closed on one meter.\<close>

fun episode :: "string \<Rightarrow> string list list \<Rightarrow> staleSiteDefaultTracker \<Rightarrow> string list" where
  "episode meter [] t = []"
| "episode meter (names # rest) t =
     (case stale_update True meter names t of ((pend, _), t) \<Rightarrow> pend @ episode meter rest t)"

lemma episode_from:
  assumes "stBlocked t" "stSiteMeter t = meter"
  shows "set (episode meter ns t) = \<Union> (set (map set ns)) - set (stDefaulted t) \<and> distinct (episode meter ns t)"
  using assms
proof (induction ns arbitrary: t)
  case Nil
  show ?case by simp
next
  case (Cons names ns)
  obtain d' p' where r: "defaultEach names (stDefaulted t) [] = (d', p')" by force
  obtain q where q: "p' = q" "d' = stDefaulted t @ q" "distinct q" "set q = set names - set (stDefaulted t)"
    using defaultEach_result(2) [OF r] by auto
  let ?t = "\<lparr>stBlocked = True, stSiteMeter = meter, stDefaulted = d'\<rparr>"
  have "episode meter (names # ns) t = q @ episode meter ns ?t"
    using Cons.prems by (simp add: stale_update_def r q(1) Let_def)
  moreover have "set (episode meter ns ?t) = \<Union> (set (map set ns)) - set d' \<and> distinct (episode meter ns ?t)"
    using Cons.IH [of ?t] by simp
  ultimately show ?case using q by auto
qed

section \<open>Properties\<close>

text \<open>The gate opens only on evidence: with a site meter configured, commands may be sent exactly when the meter has a
  reading no older than the timeout, the meter is not frozen, and, on a site with a fuse, every phase current is
  there and fresh as soon as the meter has ever reported one.\<close>

theorem gate_opens_on_fresh_meter:
  assumes "SiteMeterDriver s \<noteq> []" "(d, s') = siteDispatchGateLocked tel timeout now s"
    "byName = foldl (\<lambda>m (name, metric). mset_at name metric m) [] (LatestMetricsByDriver (SiteMeterDriver s) tel)"
    "n = nat (if SiteFusePhases s \<le> 0 \<or> SiteFusePhases s > 3 then 3 else SiteFusePhases s)"
  shows "Allowed d \<longleftrightarrow>
     (\<exists>m. Get (SiteMeterDriver s) DerMeter tel = Some m \<and> tsub now (UpdatedAt m) \<le> timeout) \<and> \<not> SiteMeterFrozen s'
     \<and> (SiteFuseAmps s > 0 \<and> (\<exists>i < n. mget byName (phaseMetricNames ! i) \<noteq> None) \<longrightarrow>
         (\<forall>i < n. \<exists>metric. mget byName (phaseMetricNames ! i) = Some metric \<and> tsub now (snapUpdatedAt metric) \<le> timeout))"
proof -
  obtain amps av fr where f: "foldl (phaseStep byName timeout now) ([Fin 0, Fin 0, Fin 0], False, True) [0..<n] = (amps, av, fr)"
    by (metis surj_pair)
  have flags: "av \<longleftrightarrow> (\<exists>i < n. mget byName (phaseMetricNames ! i) \<noteq> None)"
    "fr \<longleftrightarrow> (\<forall>i < n. \<exists>metric. mget byName (phaseMetricNames ! i) = Some metric \<and> tsub now (snapUpdatedAt metric) \<le> timeout)"
    using phaseStep_flags [OF f] by auto
  have n: "nat (let c = (if SiteFusePhases s \<le> 0 then 3 else SiteFusePhases s) in if c > 3 then 3 else c) = n"
    by (simp add: assms(4) Let_def)
  have "\<exists>a. sitePhaseCurrentsAt tel (SiteMeterDriver s) (SiteFusePhases s) timeout now = (a, av, av \<and> fr)"
    using assms(1) f n by (simp add: sitePhaseCurrentsAt_def phaseCurrentsFromSnapshots_def assms(3) Let_def)
  then obtain a where "sitePhaseCurrentsAt tel (SiteMeterDriver s) (SiteFusePhases s) timeout now = (a, av, av \<and> fr)" ..
  moreover have "s' = ObserveSiteMeterFreeze tel now s" "d = frozenMeter (SiteMeterFrozen s')
      (evaluateSiteDispatchFreshnessAt tel (SiteMeterDriver s) (SiteFuseAmps s) (SiteFusePhases s) timeout now)"
    using assms(2) by (simp_all add: siteDispatchGateLocked_def siteMeterGateLocked_def freeze_frame Let_def)
  ultimately show ?thesis using assms(1) flags
    by (auto simp: evaluateSiteDispatchFreshnessAt_def frozenMeter_def Allowed_def siteDispatchReady_def
        siteDispatchMeterStale_def siteDispatchPhaseCurrentsStale_def split: option.splits)
qed

text \<open>While the gate stays closed every driver that is seen is sent to its default exactly once: on entry all the known
  ones, later each new one when it appears, and after a recovery all of them again.\<close>

theorem stale_defaults_sent_once:
  assumes "\<not> stBlocked t \<or> stSiteMeter t \<noteq> meter"
  shows "set (episode meter ns t) = \<Union> (set (map set ns)) \<and> distinct (episode meter ns t)"
proof (cases ns)
  case (Cons names rest)
  obtain d' p' where r: "defaultEach names [] [] = (d', p')" by force
  obtain q where q: "p' = q" "d' = q" "distinct q" "set q = set names" using defaultEach_result(2) [OF r] by auto
  let ?t = "\<lparr>stBlocked = True, stSiteMeter = meter, stDefaulted = d'\<rparr>"
  have "episode meter ns t = q @ episode meter rest ?t"
    using assms by (simp add: Cons stale_update_def r q(1) Let_def)
  with episode_from [of ?t meter rest] q show ?thesis by (auto simp: Cons)
qed simp

theorem stale_defaults_sent_once_witness:
  "set (episode ''m'' [[''a''], [''a'', ''b'']] newStaleTracker) = {''a'', ''b''}"
  using stale_defaults_sent_once [of newStaleTracker "''m''" "[[''a''], [''a'', ''b'']]"]
  by (simp add: newStaleTracker_def insert_commute)

theorem gate_opens_on_fresh_meter_witness:
  "\<not> Allowed (fst (siteDispatchGateLocked (NewStore 0) (60 * second) 0 (NewState 0 50 ''m'' (\<lambda>_. 0) 0)))"
proof -
  let ?s = "NewState 0 50 ''m'' (\<lambda>_. 0) 0"
  obtain d s' where r: "(d, s') = siteDispatchGateLocked (NewStore 0) (60 * second) 0 ?s" by (metis surj_pair)
  have "SiteMeterDriver ?s \<noteq> []" by (simp add: NewState_def)
  from gate_opens_on_fresh_meter [OF this r refl refl] have "\<not> Allowed d"
    by (simp add: Get_def NewStore_def)
  then show ?thesis by (simp flip: r)
qed

end
