(* ===== verification/Actuation.thy ===== *)
theory Actuation
  imports Control_State "HOL-Library.List_Lexorder" "HOL-Library.Char_ord"
begin

text \<open>
  The tracker of drivers that answer and cannot act (\<open>cmd/ftw/driver_failure_default.go\<close>). Three refused commands of
  one action in a row take a driver out of dispatch by a command fault in its health record; after five minutes, or
  at once when a device that was out of reach reads again, one command is let through as a trial. A driver that
  cannot act is sent to its own default once per fault. The tracker holds the telemetry store; of it only the health
  map is read and written here, so the operations take and return that map. An error is its text and what
  \<open>errors.Is\<close> finds in its chain.
\<close>

datatype errKind = ErrControlBlocked | ErrObserveOnly | ErrCommandIneligible | ErrCommandSuperseded
  | DeadlineExceeded | Canceled

record cmdError =
  errText :: string
  errIs :: "errKind list"

record refusalState =
  consecutive :: "(string, int) gomap"
  rsReason :: string
  excludedAction :: string
  excludedAt :: time
  outage :: bool
  readAtExclusion :: time
  retriedAt :: time

record driverActuationTracker =
  refusals :: "(string, refusalState) gomap"
  defaulted :: "string list"

definition driverRefusalLimit :: int where "driverRefusalLimit = 3"
definition driverRefusalRetryInterval :: duration where "driverRefusalRetryInterval = 5 * minute"

definition newDriverActuationTracker :: driverActuationTracker where
  "newDriverActuationTracker = \<lparr>refusals = [], defaulted = []\<rparr>"

definition noRefusals :: refusalState where
  "noRefusals = \<lparr>consecutive = [], rsReason = [], excludedAction = [], excludedAt = zeroTime, outage = False,
     readAtExclusion = zeroTime, retriedAt = zeroTime\<rparr>"

section \<open>Outcomes of commands\<close>

definition isCommandRefusal :: "cmdError option \<Rightarrow> bool" where
  "isCommandRefusal err =
     (case err of None \<Rightarrow> False
      | Some e \<Rightarrow> \<not> (\<exists>k \<in> {ErrObserveOnly, ErrControlBlocked, ErrCommandIneligible, ErrCommandSuperseded, DeadlineExceeded, Canceled}.
          k \<in> set (errIs e)))"

definition unreachable :: "string \<Rightarrow> health_map \<Rightarrow> bool" where
  "unreachable name hm =
     (case mget hm name of None \<Rightarrow> False | Some h \<Rightarrow> Status h = StatusOffline \<or> LastReadFailed (Some h))"

definition lastRead :: "string \<Rightarrow> health_map \<Rightarrow> time" where
  "lastRead name hm =
     (case mget hm name of None \<Rightarrow> zeroTime | Some h \<Rightarrow> (case LastSuccess h of None \<Rightarrow> zeroTime | Some t \<Rightarrow> t))"

definition refusalOf :: "string \<Rightarrow> driverActuationTracker \<Rightarrow> refusalState" where
  "refusalOf name t = (case mget (refusals t) name of Some st \<Rightarrow> st | None \<Rightarrow> noRefusals)"

definition excludeNow :: "string \<Rightarrow> time \<Rightarrow> health_map \<Rightarrow> refusalState \<Rightarrow> refusalState" where
  "excludeNow name now hm st = st\<lparr>excludedAt := now, outage := unreachable name hm, readAtExclusion := lastRead name hm\<rparr>"

text \<open>The three ways an outcome is filed: accepted, control blocked, refused.\<close>

definition fileAccepted :: "string \<Rightarrow> string \<Rightarrow> health_map \<times> driverActuationTracker \<Rightarrow> health_map \<times> driverActuationTracker" where
  "fileAccepted name action ht =
     (case ht of (hm, t) \<Rightarrow>
        case mget (refusals t) name of
          None \<Rightarrow> (hm, t)
        | Some st \<Rightarrow>
            let st = (if isZero (excludedAt st) \<or> action \<noteq> excludedAction st
                      then st\<lparr>consecutive := mdel action (consecutive st)\<rparr> else st);
                st = (if isZero (excludedAt st) \<and> action = excludedAction st then st\<lparr>retriedAt := zeroTime\<rparr> else st);
                t = (if consecutive st = [] then t\<lparr>refusals := mdel name (refusals t)\<rparr>
                     else t\<lparr>refusals := mset_at name st (refusals t)\<rparr>);
                hm = (if isZero (excludedAt st) \<and> consecutive st = [] then SetDriverCommandFault name False [] hm else hm)
            in (hm, t))"

definition fileBlocked ::
  "string \<Rightarrow> string \<Rightarrow> string \<Rightarrow> time \<Rightarrow> health_map \<times> driverActuationTracker \<Rightarrow> health_map \<times> driverActuationTracker" where
  "fileBlocked name action text now ht =
     (case ht of (hm, t) \<Rightarrow>
        let st = refusalOf name t;
            st = st\<lparr>consecutive := mset_at action driverRefusalLimit (consecutive st), rsReason := text, excludedAction := action\<rparr>;
            st = (if isZero (excludedAt st) then excludeNow name now hm st else st)
        in (SetDriverCommandFault name True (rsReason st) hm, t\<lparr>refusals := mset_at name st (refusals t)\<rparr>))"

definition fileRefused ::
  "string \<Rightarrow> string \<Rightarrow> string \<Rightarrow> time \<Rightarrow> health_map \<times> driverActuationTracker \<Rightarrow> health_map \<times> driverActuationTracker" where
  "fileRefused name action text now ht =
     (case ht of (hm, t) \<Rightarrow>
        let st = refusalOf name t; n = mgetD 0 (consecutive st) action + 1;
            st = st\<lparr>consecutive := mset_at action n (consecutive st), rsReason := text\<rparr>
        in if n \<ge> driverRefusalLimit \<and> isZero (excludedAt st)
           then let st = excludeNow name now hm (st\<lparr>excludedAction := action\<rparr>)
                in (SetDriverCommandFault name True (rsReason st) hm, t\<lparr>refusals := mset_at name st (refusals t)\<rparr>)
           else (hm, t\<lparr>refusals := mset_at name st (refusals t)\<rparr>))"

definition recordCommandOutcomeFor ::
  "string \<Rightarrow> string \<Rightarrow> cmdError option \<Rightarrow> time \<Rightarrow> health_map \<times> driverActuationTracker \<Rightarrow> health_map \<times> driverActuationTracker" where
  "recordCommandOutcomeFor name action err now ht =
     (let action = (if action = [] then ''dispatch'' else action)
      in case err of
           None \<Rightarrow> fileAccepted name action ht
         | Some e \<Rightarrow>
             if ErrControlBlocked \<in> set (errIs e) then fileBlocked name action (errText e) now ht
             else if \<not> isCommandRefusal err then ht
             else fileRefused name action (errText e) now ht)"

section \<open>The update of a tick\<close>

text \<open>What the update does with one record: the driver is gone, the record stays, or one command is let through, which
  says whether the device is back from an outage.\<close>

datatype retryVerdict = RGone | RKeep refusalState | RRetry refusalState bool

definition sawOutage :: "time \<Rightarrow> DriverHealth \<Rightarrow> refusalState \<Rightarrow> refusalState" where
  "sawOutage now h st =
     (let noReadSince = (case LastSuccess h of None \<Rightarrow> True | Some t \<Rightarrow> \<not> t > readAtExclusion st);
          recentTrial = (\<not> isZero (retriedAt st) \<and> tsub now (retriedAt st) < driverRefusalRetryInterval)
      in if \<not> outage st \<and> (Status h = StatusOffline \<or> (\<not> recentTrial \<and> LastReadFailed (Some h) \<and> noReadSince))
         then st\<lparr>outage := True\<rparr> else st)"

definition backFromOutage :: "DriverHealth \<Rightarrow> refusalState \<Rightarrow> bool" where
  "backFromOutage h st = (outage st \<and> Status h \<noteq> StatusOffline \<and> \<not> LastReadFailed (Some h))"

definition retryOne :: "time \<Rightarrow> health_map \<Rightarrow> string \<Rightarrow> refusalState \<Rightarrow> retryVerdict" where
  "retryOne now hm name st =
     (case mget hm name of
        None \<Rightarrow> RGone
      | Some h \<Rightarrow>
          if isZero (excludedAt st) then RKeep st
          else let st = sawOutage now h st; back = backFromOutage h st
               in if \<not> back \<and> tsub now (excludedAt st) < driverRefusalRetryInterval then RKeep st
                  else RRetry (st\<lparr>consecutive := mset_at (excludedAction st) (driverRefusalLimit - 1) (consecutive st),
                         excludedAt := zeroTime, outage := False, retriedAt := now\<rparr>) back)"

fun keptRefusal :: "retryVerdict \<Rightarrow> refusalState option" where
  "keptRefusal RGone = None"
| "keptRefusal (RKeep st) = Some st"
| "keptRefusal (RRetry st _) = Some st"

fun isRetry :: "retryVerdict \<Rightarrow> bool" where
  "isRetry (RRetry _ _) = True"
| "isRetry _ = False"

definition faultedLive :: "(string, bool) gomap \<Rightarrow> string \<times> DriverHealth \<Rightarrow> bool" where
  "faultedLive observeOnly p =
     (case p of (name, h) \<Rightarrow> DeviceFault h \<and> \<not> mgetD False observeOnly name \<and> Status h \<noteq> StatusOffline)"

definition actuation_update ::
  "time \<Rightarrow> (string, bool) gomap \<Rightarrow> health_map \<times> driverActuationTracker \<Rightarrow> string list \<times> health_map \<times> driverActuationTracker" where
  "actuation_update now observeOnly ht =
     (case ht of (hm, t) \<Rightarrow>
        let verdicts = map (\<lambda>(name, st). (name, retryOne now hm name st)) (refusals t);
            refs = List.map_filter (\<lambda>(name, v). map_option (Pair name) (keptRefusal v)) verdicts;
            gone = map fst (filter (\<lambda>(name, v). v = RGone) verdicts);
            returned = map fst (filter (\<lambda>(name, v). case v of RRetry _ back \<Rightarrow> back | _ \<Rightarrow> False) verdicts);
            hm = foldl (\<lambda>m name. SetDriverCommandFault name False [] m) hm (map fst (filter (\<lambda>(name, v). isRetry v) verdicts));
            done0 = filter (\<lambda>name. name \<notin> set gone \<and> name \<notin> set returned) (defaulted t);
            pend = filter (\<lambda>name. name \<notin> set done0) (map fst (filter (faultedLive observeOnly) hm));
            done1 = filter (\<lambda>name. case mget hm name of None \<Rightarrow> False | Some h \<Rightarrow> DeviceFault h) (done0 @ pend);
            pend1 = pend @ filter (\<lambda>name. \<not> mgetD False observeOnly name \<and> name \<notin> set pend) returned
        in (sort pend1, hm, \<lparr>refusals = refs, defaulted = done1\<rparr>))"

section \<open>Lemmas\<close>

lemma commandFault_set:
  "mget (SetDriverCommandFault name b r hm) n = map_option (\<lambda>h. if n = name then SetCommandFault b r h else h) (mget hm n)"
  by (cases "mget hm n") (auto simp: SetDriverCommandFault_def split: option.split)

lemma fault_fields:
  "commandFault (SetCommandFault b r h) = b" "driverFault (SetCommandFault b r h) = driverFault h"
  "DeviceFault (SetCommandFault b r h) = (driverFault h \<or> b)" "Status (SetCommandFault b r h) = Status h"
  by (simp_all add: SetCommandFault_def refreshDeviceFault_def)

lemma mget_retried:
  "mget (foldl (\<lambda>m name. SetDriverCommandFault name False [] m) hm names) n =
     map_option (\<lambda>h. if n \<in> set names then SetCommandFault False [] h else h) (mget hm n)"
proof (induction names arbitrary: hm)
  case Nil
  show ?case by (cases "mget hm n") simp_all
next
  case (Cons name names)
  have "SetCommandFault False [] (SetCommandFault False [] h) = SetCommandFault False [] h" for h
    by (simp add: SetCommandFault_def refreshDeviceFault_def)
  with Cons show ?case by (cases "mget hm n") (simp_all add: commandFault_set)
qed

lemma excludeNow_fields:
  "excludedAt (excludeNow name now hm st) = now" "consecutive (excludeNow name now hm st) = consecutive st"
  "excludedAction (excludeNow name now hm st) = excludedAction st" "rsReason (excludeNow name now hm st) = rsReason st"
  by (simp_all add: excludeNow_def)

text \<open>A driver is out of dispatch for its refusals exactly while a record of it holds an exclusion, and such a record
  always counts the action that tripped it.\<close>

definition excludedBy :: "driverActuationTracker \<Rightarrow> string \<Rightarrow> bool" where
  "excludedBy t name = (case mget (refusals t) name of None \<Rightarrow> False | Some st \<Rightarrow> \<not> isZero (excludedAt st))"

definition record_ok :: "refusalState \<Rightarrow> bool" where
  "record_ok st = (\<not> isZero (excludedAt st) \<longrightarrow> mget (consecutive st) (excludedAction st) \<noteq> None)"

definition act_ok :: "health_map \<times> driverActuationTracker \<Rightarrow> bool" where
  "act_ok ht = (case ht of (hm, t) \<Rightarrow> gomap_ok (refusals t)
     \<and> (\<forall>name st. mget (refusals t) name = Some st \<longrightarrow> record_ok st)
     \<and> (\<forall>name h. mget hm name = Some h \<longrightarrow> commandFault h = excludedBy t name))"

lemma mdel_empty: "mdel k m = [] \<Longrightarrow> mget m k' \<noteq> None \<Longrightarrow> k' = k"
  by (metis map_of.simps(1) mget_mdel)

lemma accepted_ok: "act_ok ht \<Longrightarrow> act_ok (fileAccepted name action ht)"
proof -
  assume ok: "act_ok ht"
  obtain hm t where ht: "ht = (hm, t)" by force
  show ?thesis
  proof (cases "mget (refusals t) name")
    case None
    with ok show ?thesis by (simp add: fileAccepted_def ht)
  next
    case (Some st)
    have st: "record_ok st" using ok Some by (auto simp: act_ok_def ht)
    let ?st1 = "if isZero (excludedAt st) \<or> action \<noteq> excludedAction st
        then st\<lparr>consecutive := mdel action (consecutive st)\<rparr> else st"
    let ?st2 = "if isZero (excludedAt ?st1) \<and> action = excludedAction ?st1 then ?st1\<lparr>retriedAt := zeroTime\<rparr> else ?st1"
    have f: "excludedAt ?st2 = excludedAt st" "excludedAction ?st2 = excludedAction st"
      "consecutive ?st2 = consecutive ?st1" by simp_all
    have keep: "record_ok ?st2" "\<not> isZero (excludedAt st) \<Longrightarrow> consecutive ?st2 \<noteq> []"
      using st unfolding record_ok_def f by (auto split: if_splits dest: mdel_empty)
    have "fileAccepted name action ht =
      (if isZero (excludedAt ?st2) \<and> consecutive ?st2 = [] then SetDriverCommandFault name False [] hm else hm,
       if consecutive ?st2 = [] then t\<lparr>refusals := mdel name (refusals t)\<rparr> else t\<lparr>refusals := mset_at name ?st2 (refusals t)\<rparr>)"
      by (simp add: fileAccepted_def ht Some Let_def)
    moreover define S where "S = ?st2"
    ultimately have eq: "fileAccepted name action ht =
      (if isZero (excludedAt S) \<and> consecutive S = [] then SetDriverCommandFault name False [] hm else hm,
       if consecutive S = [] then t\<lparr>refusals := mdel name (refusals t)\<rparr> else t\<lparr>refusals := mset_at name S (refusals t)\<rparr>)"
      by (simp only:)
    have S: "excludedAt S = excludedAt st" "record_ok S" "\<not> isZero (excludedAt st) \<Longrightarrow> consecutive S \<noteq> []"
      unfolding S_def using keep f(1) by (simp_all only: not_False_eq_True)
    show ?thesis using ok S Some unfolding eq
      by (auto simp: act_ok_def ht excludedBy_def commandFault_set fault_fields split: option.splits if_splits)
  qed
qed

lemma setRecord_ok:
  assumes "act_ok (hm, t)" "record_ok st"
    "\<And>h. mget hm name = Some h \<Longrightarrow> \<not> isZero (excludedAt st) \<Longrightarrow> hm' = SetDriverCommandFault name True r hm \<or> (hm' = hm \<and> commandFault h)"
    "isZero (excludedAt st) \<Longrightarrow> hm' = hm \<and> \<not> excludedBy t name"
    "mget hm name = None \<Longrightarrow> hm' = hm"
  shows "act_ok (hm', t\<lparr>refusals := mset_at name st (refusals t)\<rparr>)"
proof -
  have parts: "gomap_ok (refusals t)" "\<And>n st. mget (refusals t) n = Some st \<Longrightarrow> record_ok st"
    "\<And>n h. mget hm n = Some h \<Longrightarrow> commandFault h = excludedBy t n" using assms(1) by (auto simp: act_ok_def)
  have ex: "excludedBy (t\<lparr>refusals := mset_at name st (refusals t)\<rparr>) n = (if n = name then \<not> isZero (excludedAt st) else excludedBy t n)" for n
    by (simp add: excludedBy_def)
  have "commandFault h = excludedBy (t\<lparr>refusals := mset_at name st (refusals t)\<rparr>) n" if "mget hm' n = Some h" for n h
  proof (cases "isZero (excludedAt st) \<or> mget hm name = None")
    case True
    then have "hm' = hm" "isZero (excludedAt st) \<Longrightarrow> \<not> excludedBy t name" using assms(4,5) by auto
    with True that parts(3) show ?thesis by (auto simp: ex)
  next
    case False
    then obtain h0 where h0: "mget hm name = Some h0" by auto
    from assms(3) [OF h0] False consider "hm' = SetDriverCommandFault name True r hm" | "hm' = hm" "commandFault h0" by auto
    then show ?thesis
    proof cases
      case 1
      then have "n = name \<Longrightarrow> h = SetCommandFault True r h0" "n \<noteq> name \<Longrightarrow> mget hm n = Some h"
        using that h0 by (auto simp: commandFault_set)
      then show ?thesis using False parts(3) by (cases "n = name") (simp_all add: ex fault_fields)
    qed (use that parts(3) False h0 in \<open>auto simp: ex\<close>)
  qed
  then show ?thesis using parts assms(2) by (auto simp: act_ok_def split: if_splits)
qed

lemma refusal_ok: "act_ok (hm, t) \<Longrightarrow> record_ok (refusalOf name t)"
  by (auto simp: act_ok_def refusalOf_def record_ok_def noRefusals_def isZero_def split: option.split)

lemma excluded_refusal: "\<not> isZero (excludedAt (refusalOf name t)) \<longleftrightarrow> excludedBy t name"
  by (auto simp: refusalOf_def excludedBy_def noRefusals_def isZero_def split: option.split)

lemma unknown_fault: "mget hm name = None \<Longrightarrow> SetDriverCommandFault name b r hm = hm"
  by (simp add: SetDriverCommandFault_def)

lemma blocked_ok: "act_ok ht \<Longrightarrow> \<not> isZero now \<Longrightarrow> act_ok (fileBlocked name action why now ht)"
proof -
  assume ok: "act_ok ht" and now: "\<not> isZero now"
  obtain hm t where ht: "ht = (hm, t)" by force
  let ?st = "(refusalOf name t)\<lparr>consecutive := mset_at action driverRefusalLimit (consecutive (refusalOf name t)),
      rsReason := why, excludedAction := action\<rparr>"
  let ?st2 = "if isZero (excludedAt ?st) then excludeNow name now hm ?st else ?st"
  have "fileBlocked name action why now ht =
      (SetDriverCommandFault name True (rsReason ?st2) hm, t\<lparr>refusals := mset_at name ?st2 (refusals t)\<rparr>)"
    by (simp add: fileBlocked_def ht Let_def)
  moreover have "act_ok (SetDriverCommandFault name True (rsReason ?st2) hm, t\<lparr>refusals := mset_at name ?st2 (refusals t)\<rparr>)"
  proof (rule setRecord_ok [of hm t, where r = "rsReason ?st2"])
    show "record_ok ?st2" by (simp add: record_ok_def excludeNow_fields)
    show "isZero (excludedAt ?st2) \<Longrightarrow> SetDriverCommandFault name True (rsReason ?st2) hm = hm \<and> \<not> excludedBy t name"
      using now by (simp add: excludeNow_fields split: if_splits)
  qed (use ok in \<open>simp_all add: ht unknown_fault\<close>)
  ultimately show ?thesis by simp
qed

lemma refused_ok: "act_ok ht \<Longrightarrow> \<not> isZero now \<Longrightarrow> act_ok (fileRefused name action why now ht)"
proof -
  assume ok: "act_ok ht" and now: "\<not> isZero now"
  obtain hm t where ht: "ht = (hm, t)" by force
  let ?r = "refusalOf name t" and ?n = "mgetD 0 (consecutive (refusalOf name t)) action + 1"
  let ?st = "?r\<lparr>consecutive := mset_at action ?n (consecutive ?r), rsReason := why\<rparr>"
  let ?x = "excludeNow name now hm (?st\<lparr>excludedAction := action\<rparr>)"
  have eq: "fileRefused name action why now ht = (if ?n \<ge> driverRefusalLimit \<and> isZero (excludedAt ?r)
      then (SetDriverCommandFault name True (rsReason ?x) hm, t\<lparr>refusals := mset_at name ?x (refusals t)\<rparr>)
      else (hm, t\<lparr>refusals := mset_at name ?st (refusals t)\<rparr>))"
    by (simp add: fileRefused_def ht Let_def)
  have st: "record_ok ?st" using refusal_ok [of hm t name] ok by (auto simp: ht record_ok_def)
  have "act_ok (hm, t\<lparr>refusals := mset_at name ?st (refusals t)\<rparr>)"
  proof (rule setRecord_ok [of hm t])
    fix h assume "mget hm name = Some h" "\<not> isZero (excludedAt ?st)"
    then have "commandFault h" using ok excluded_refusal [of name t] by (auto simp: act_ok_def ht)
    then show "hm = SetDriverCommandFault name True [] hm \<or> (hm = hm \<and> commandFault h)" by simp
  qed (use ok st excluded_refusal [of name t] in \<open>simp_all add: ht\<close>)
  moreover have "act_ok (SetDriverCommandFault name True (rsReason ?x) hm, t\<lparr>refusals := mset_at name ?x (refusals t)\<rparr>)"
    by (rule setRecord_ok [of hm t, where r = "rsReason ?x"]) (use ok now in \<open>simp_all add: ht unknown_fault record_ok_def excludeNow_fields\<close>)
  ultimately show ?thesis unfolding eq by simp
qed

lemma outcome_ok: "act_ok ht \<Longrightarrow> \<not> isZero now \<Longrightarrow> act_ok (recordCommandOutcomeFor name action err now ht)"
  by (simp add: recordCommandOutcomeFor_def Let_def accepted_ok blocked_ok refused_ok split: option.split)

lemma sawOutage_fields:
  "consecutive (sawOutage now h st) = consecutive st" "excludedAt (sawOutage now h st) = excludedAt st"
  "excludedAction (sawOutage now h st) = excludedAction st"
  by (simp_all add: sawOutage_def Let_def)

text \<open>When one command is let through: the record holds an exclusion and its window is over or the device is back.\<close>

definition letThrough :: "time \<Rightarrow> DriverHealth \<Rightarrow> refusalState \<Rightarrow> bool" where
  "letThrough now h st = (\<not> isZero (excludedAt st)
     \<and> (backFromOutage h (sawOutage now h st) \<or> driverRefusalRetryInterval \<le> tsub now (excludedAt st)))"

lemma retryOne_cases:
  assumes "mget hm name = Some h"
  shows "isRetry (retryOne now hm name st) = letThrough now h st"
    "\<exists>st'. keptRefusal (retryOne now hm name st) = Some st' \<and> (record_ok st \<longrightarrow> record_ok st')
       \<and> isZero (excludedAt st') = (isZero (excludedAt st) \<or> letThrough now h st)
       \<and> (letThrough now h st \<longrightarrow> mget (consecutive st') (excludedAction st) = Some (driverRefusalLimit - 1) \<and> excludedAction st' = excludedAction st)"
    "retryOne now hm name st \<noteq> RGone"
  using assms by (auto simp: retryOne_def letThrough_def Let_def sawOutage_fields record_ok_def isZero_def)

lemma keys_of_verdicts:
  "map fst (filter P (map (\<lambda>(name, st). (name, f name st)) m)) = map fst (filter (\<lambda>(name, st). P (name, f name st)) m)"
  by (induction m) auto

lemma in_keys_iff:
  assumes "gomap_ok m"
  shows "name \<in> set (map fst (filter (\<lambda>(n, st). P n st) m)) \<longleftrightarrow> (\<exists>st. mget m name = Some st \<and> P name st)"
  using assms by (auto simp: mget_iff) force

lemma update_parts:
  assumes "gomap_ok (refusals t)" "actuation_update now observeOnly (hm, t) = (pend, hm', t')"
  shows "mget (refusals t') name = Option.bind (mget (refusals t) name) (\<lambda>st. keptRefusal (retryOne now hm name st))"
    "gomap_ok (refusals t')"
    "mget hm' name = map_option (\<lambda>h. if \<exists>st. mget (refusals t) name = Some st \<and> letThrough now h st
        then SetCommandFault False [] h else h) (mget hm name)"
proof -
  let ?v = "map (\<lambda>(name, st). (name, retryOne now hm name st)) (refusals t)"
  have refs: "refusals t' = List.map_filter (\<lambda>(name, v). map_option (Pair name) (keptRefusal v)) ?v"
    "hm' = foldl (\<lambda>m name. SetDriverCommandFault name False [] m) hm (map fst (filter (\<lambda>(name, v). isRetry v) ?v))"
    using assms(2) by (auto simp: actuation_update_def Let_def)
  have v: "gomap_ok ?v" using assms(1) by simp
  show "mget (refusals t') name = Option.bind (mget (refusals t) name) (\<lambda>st. keptRefusal (retryOne now hm name st))"
    unfolding refs(1) mget_map_filter [OF v] by (cases "mget (refusals t) name") simp_all
  show "gomap_ok (refusals t')" unfolding refs(1) using v by simp
  have mem: "name \<in> set (map fst (filter (\<lambda>(name, v). isRetry v) ?v)) \<longleftrightarrow>
      (\<exists>st. mget (refusals t) name = Some st \<and> isRetry (retryOne now hm name st))"
    unfolding keys_of_verdicts by (simp only: prod.case) (rule in_keys_iff [OF assms(1)])
  show "mget hm' name = map_option (\<lambda>h. if \<exists>st. mget (refusals t) name = Some st \<and> letThrough now h st
        then SetCommandFault False [] h else h) (mget hm name)"
    unfolding refs(2) mget_retried mem using retryOne_cases(1) by (cases "mget hm name") simp_all
qed

lemma update_ok:
  assumes "act_ok ht" "actuation_update now observeOnly ht = (pend, ht')"
  shows "act_ok ht'"
proof -
  obtain hm t where ht: "ht = (hm, t)" by force
  obtain hm' t' where ht': "ht' = (hm', t')" by force
  have ok: "gomap_ok (refusals t)" "\<And>n st. mget (refusals t) n = Some st \<Longrightarrow> record_ok st"
    "\<And>n h. mget hm n = Some h \<Longrightarrow> commandFault h = excludedBy t n" using assms(1) by (auto simp: act_ok_def ht)
  note u = update_parts [OF ok(1) assms(2) [unfolded ht ht']]
  have "record_ok st'" if "mget (refusals t') n = Some st'" for n st'
  proof -
    from that u(1) [of n] obtain st where st: "mget (refusals t) n = Some st" "keptRefusal (retryOne now hm n st) = Some st'"
      by (auto simp: bind_eq_Some_conv)
    obtain h where "mget hm n = Some h" using st(2) by (cases "mget hm n") (simp_all add: retryOne_def)
    from retryOne_cases(2) [OF this, of now st] st ok(2) show ?thesis by auto
  qed
  moreover have "commandFault h' = excludedBy t' n" if h': "mget hm' n = Some h'" for n h'
  proof -
    obtain h where h: "mget hm n = Some h" using h' u(3) [of n] by (cases "mget hm n") simp_all
    show ?thesis
    proof (cases "mget (refusals t) n")
      case None
      then show ?thesis using that h u(1,3) [of n] ok(3) [OF h] by (simp add: excludedBy_def)
    next
      case (Some st)
      obtain st' where st': "mget (refusals t') n = Some st'" "isZero (excludedAt st') = (isZero (excludedAt st) \<or> letThrough now h st)"
        using retryOne_cases(2) [OF h, of now st] u(1) [of n] Some by auto
      have "h' = (if letThrough now h st then SetCommandFault False [] h else h)" using that h u(3) [of n] Some by simp
      then show ?thesis using st' ok(3) [OF h] Some by (simp add: excludedBy_def fault_fields)
    qed
  qed
  ultimately show ?thesis using u(2) by (simp add: act_ok_def ht')
qed

section \<open>Three in a row\<close>

text \<open>The reference for the counting: outcomes of one driver, the latest first. A streak of an action is the number of
  refusals since it was last accepted; outcomes that are neither count for nothing.\<close>

fun streak :: "string \<Rightarrow> (string \<times> cmdError option) list \<Rightarrow> int" where
  "streak a [] = 0"
| "streak a ((b, err) # older) =
     (if b \<noteq> a then streak a older
      else if err = None then 0
      else if isCommandRefusal err then streak a older + 1 else streak a older)"

fun tripped :: "(string \<times> cmdError option) list \<Rightarrow> bool" where
  "tripped [] = False"
| "tripped (e # older) = (tripped older \<or> streak (fst e) (e # older) \<ge> driverRefusalLimit)"

fun fileAll :: "string \<Rightarrow> time \<Rightarrow> (string \<times> cmdError option) list \<Rightarrow> health_map \<times> driverActuationTracker \<Rightarrow>
    health_map \<times> driverActuationTracker" where
  "fileAll name now [] ht = ht"
| "fileAll name now ((a, err) # older) ht = recordCommandOutcomeFor name a err now (fileAll name now older ht)"

definition plainOutcomes :: "(string \<times> cmdError option) list \<Rightarrow> bool" where
  "plainOutcomes es = list_all (\<lambda>(a, err). a \<noteq> [] \<and> (case err of None \<Rightarrow> True | Some e \<Rightarrow> ErrControlBlocked \<notin> set (errIs e))) es"

lemma streak_stays:
  assumes "\<not> tripped ((a, err) # older)" "\<not> excludedBy t name" "err = None \<or> isCommandRefusal err"
    "\<And>b. mgetD 0 (consecutive (refusalOf name t)) b = streak b older"
    "(hm', t') = (if err = None then fileAccepted name a (hm, t) else fileRefused name a why now (hm, t))"
  shows "\<not> excludedBy t' name" "mgetD 0 (consecutive (refusalOf name t')) b = streak b ((a, err) # older)"
proof -
  have zero: "isZero (excludedAt (refusalOf name t))" using assms(2) excluded_refusal by blast
  have "\<not> excludedBy t' name \<and> mgetD 0 (consecutive (refusalOf name t')) b = streak b ((a, err) # older)"
  proof (cases "err = None")
    case True
    show ?thesis
    proof (cases "mget (refusals t) name")
      case None
      then have "t' = t" "consecutive (refusalOf name t) = []" using assms(5) True by (simp_all add: fileAccepted_def refusalOf_def noRefusals_def)
      then show ?thesis using assms(2) assms(4) [of b] True by (simp add: mgetD_def)
    next
      case (Some st)
      then have st: "isZero (excludedAt st)" "refusalOf name t = st" using zero by (simp_all add: refusalOf_def)
      define S where "S = (if a = excludedAction st then st\<lparr>consecutive := mdel a (consecutive st), retriedAt := zeroTime\<rparr>
          else st\<lparr>consecutive := mdel a (consecutive st)\<rparr>)"
      have S: "isZero (excludedAt S)" "consecutive S = mdel a (consecutive st)" using st by (simp_all add: S_def)
      have t': "t' = (if consecutive S = [] then t\<lparr>refusals := mdel name (refusals t)\<rparr> else t\<lparr>refusals := mset_at name S (refusals t)\<rparr>)"
        using assms(5) True Some st by (simp add: fileAccepted_def S_def Let_def split: if_splits)
      have "consecutive (refusalOf name t') = mdel a (consecutive st)" "\<not> excludedBy t' name"
        using S by (auto simp: t' refusalOf_def noRefusals_def excludedBy_def)
      then show ?thesis using assms(4) [of b] st True by (simp add: mgetD_def)
    qed
  next
    case False
    then have ref: "isCommandRefusal err" using assms(3) by blast
    then have lim: "\<not> driverRefusalLimit \<le> streak a older + 1" using assms(1) False by simp
    let ?st = "(refusalOf name t)\<lparr>consecutive := mset_at a (streak a older + 1) (consecutive (refusalOf name t)), rsReason := why\<rparr>"
    have "t' = t\<lparr>refusals := mset_at name ?st (refusals t)\<rparr>"
      using assms(5) False lim by (simp add: fileRefused_def assms(4) Let_def)
    moreover obtain e where "err = Some e" using False by blast
    ultimately show ?thesis using zero assms(4) [of b] ref by (simp add: excludedBy_def refusalOf_def mgetD_def)
  qed
  then show "\<not> excludedBy t' name" "mgetD 0 (consecutive (refusalOf name t')) b = streak b ((a, err) # older)" by simp_all
qed

lemma excluded_stays:
  assumes "act_ok (hm, t)" "excludedBy t name" "\<not> isZero now" "(hm', t') = recordCommandOutcomeFor name a err now (hm, t)"
  shows "excludedBy t' name"
proof -
  obtain st where st: "mget (refusals t) name = Some st" "\<not> isZero (excludedAt st)"
    using assms(2) by (auto simp: excludedBy_def split: option.splits)
  then have ok: "mget (consecutive st) (excludedAction st) \<noteq> None" using assms(1) by (auto simp: act_ok_def record_ok_def)
  have acc: "excludedBy (snd (fileAccepted name b (hm, t))) name" for b
  proof -
    have "mdel b (consecutive st) \<noteq> []" if "b \<noteq> excludedAction st" using that ok mdel_empty by metis
    moreover have "consecutive st \<noteq> []" using ok by auto
    ultimately show ?thesis using st by (auto simp: fileAccepted_def excludedBy_def Let_def)
  qed
  have "excludedBy (snd (fileBlocked name b why now (hm, t))) name" "excludedBy (snd (fileRefused name b why now (hm, t))) name" for b why
    using st by (simp_all add: fileBlocked_def fileRefused_def excludedBy_def refusalOf_def Let_def)
  with acc assms(2,4) show ?thesis
    by (auto simp: recordCommandOutcomeFor_def Let_def split: option.splits if_splits) (metis snd_conv)+
qed

lemma streak_small: "\<not> tripped es \<Longrightarrow> streak a es < driverRefusalLimit"
  by (induction es) (auto simp: driverRefusalLimit_def)

lemma outcome_trips:
  assumes "act_ok (hm, t)" "\<not> isZero now" "excludedBy t name = tripped older" "plainOutcomes [(a, err)]"
    "\<not> tripped older \<Longrightarrow> \<forall>b. mgetD 0 (consecutive (refusalOf name t)) b = streak b older"
    "(hm', t') = recordCommandOutcomeFor name a err now (hm, t)"
  shows "excludedBy t' name = tripped ((a, err) # older)"
    "\<not> tripped ((a, err) # older) \<Longrightarrow> \<forall>b. mgetD 0 (consecutive (refusalOf name t')) b = streak b ((a, err) # older)"
proof -
  have "excludedBy t' name = tripped ((a, err) # older) \<and> (\<not> tripped ((a, err) # older) \<longrightarrow>
      (\<forall>b. mgetD 0 (consecutive (refusalOf name t')) b = streak b ((a, err) # older)))"
  proof (cases "tripped older")
    case True
    then show ?thesis using excluded_stays [OF assms(1) _ assms(2,6)] assms(3) by simp
  next
    case False
    have count: "mgetD 0 (consecutive (refusalOf name t)) b = streak b older" for b using assms(5) [OF False] by blast
    show ?thesis
    proof (cases "err = None \<or> isCommandRefusal err")
      case noted: True
      let ?why = "case err of None \<Rightarrow> [] | Some e \<Rightarrow> errText e"
      have step: "(hm', t') = (if err = None then fileAccepted name a (hm, t) else fileRefused name a ?why now (hm, t))"
        using assms(4,6) noted by (auto simp: recordCommandOutcomeFor_def plainOutcomes_def Let_def split: option.splits)
      show ?thesis
      proof (cases "tripped ((a, err) # older)")
        case True
        with False have "err \<noteq> None" "driverRefusalLimit \<le> streak a older + 1"
          using streak_small [OF False, of a] by (auto simp: driverRefusalLimit_def split: if_splits)
        moreover have "isZero (excludedAt (refusalOf name t))" using False assms(3) excluded_refusal by blast
        moreover obtain e where "err = Some e" using calculation(1) by blast
        ultimately have "excludedBy t' name"
          using step assms(2) by (simp add: fileRefused_def count Let_def excludedBy_def excludeNow_fields)
        with True show ?thesis by simp
      next
        case fine: False
        from streak_stays [OF fine _ noted count step] False assms(3) fine show ?thesis by blast
      qed
    next
      case ignored: False
      then obtain e where e: "err = Some e" by auto
      then have "t' = t" using assms(4,6) ignored by (simp add: recordCommandOutcomeFor_def plainOutcomes_def Let_def)
      moreover have "streak b ((a, err) # older) = streak b older" for b using ignored e by simp
      moreover from this [of a] have "\<not> tripped ((a, err) # older)" using False streak_small [OF False, of a] by simp
      ultimately show ?thesis using False assms(3) count by (simp only: not_False_eq_True) simp
    qed
  qed
  then show "excludedBy t' name = tripped ((a, err) # older)"
    "\<not> tripped ((a, err) # older) \<Longrightarrow> \<forall>b. mgetD 0 (consecutive (refusalOf name t')) b = streak b ((a, err) # older)" by blast+
qed

lemma outcome_known: "mget (fst (recordCommandOutcomeFor name a err now (hm, t))) n = None \<longleftrightarrow> mget hm n = None"
proof -
  have set: "mget (SetDriverCommandFault name b r hm) n = None \<longleftrightarrow> mget hm n = None" for b r by (simp add: commandFault_set)
  have "mget (fst (fileAccepted name x (hm, t))) n = None \<longleftrightarrow> mget hm n = None"
    "mget (fst (fileBlocked name x why now (hm, t))) n = None \<longleftrightarrow> mget hm n = None"
    "mget (fst (fileRefused name x why now (hm, t))) n = None \<longleftrightarrow> mget hm n = None" for x why
    by (simp_all add: fileAccepted_def fileBlocked_def fileRefused_def set Let_def split: option.split)
  then show ?thesis by (simp add: recordCommandOutcomeFor_def Let_def split: option.split)
qed

lemma fileAll_result:
  assumes "act_ok (hm, newDriverActuationTracker)" "\<not> isZero now" "plainOutcomes es"
    "(hm', t') = fileAll name now es (hm, newDriverActuationTracker)"
  shows "act_ok (hm', t') \<and> excludedBy t' name = tripped es \<and> (mget hm' name \<noteq> None \<longleftrightarrow> mget hm name \<noteq> None)
    \<and> (\<not> tripped es \<longrightarrow> (\<forall>b. mgetD 0 (consecutive (refusalOf name t')) b = streak b es))"
  using assms(3,4)
proof (induction es arbitrary: hm' t')
  case Nil
  then show ?case using assms(1) by (simp add: excludedBy_def refusalOf_def noRefusals_def mgetD_def newDriverActuationTracker_def)
next
  case (Cons p es)
  obtain a err where p: "p = (a, err)" by force
  obtain hm1 t1 where r: "(hm1, t1) = fileAll name now es (hm, newDriverActuationTracker)" by (metis surj_pair)
  have plain: "plainOutcomes es" "plainOutcomes [(a, err)]" using Cons.prems(1) by (auto simp: plainOutcomes_def p)
  note IH = Cons.IH [OF plain(1) r]
  have step: "(hm', t') = recordCommandOutcomeFor name a err now (hm1, t1)" using Cons.prems(2) by (simp add: p flip: r)
  have ok1: "act_ok (hm1, t1)" and ex1: "excludedBy t1 name = tripped es"
    and c1: "\<not> tripped es \<Longrightarrow> \<forall>b. mgetD 0 (consecutive (refusalOf name t1)) b = streak b es" using IH by blast+
  note trips = outcome_trips [OF ok1 assms(2) ex1 plain(2) c1 step]
  moreover have "act_ok (hm', t')" using outcome_ok [OF ok1 assms(2), of name a err] by (simp flip: step)
  moreover have "mget hm' name \<noteq> None \<longleftrightarrow> mget hm name \<noteq> None"
    using outcome_known [of name a err now hm1 t1 name] IH by (simp flip: step)
  ultimately show ?case unfolding p by blast
qed

section \<open>Runs\<close>

text \<open>Everything that happens to the tracker and the health records: outcomes, ticks, removals, and the health events
  that are no command fault. Times are after the epoch.\<close>

datatype actEvent =
    ActOutcome string string "cmdError option" nat
  | ActUpdate nat "(string, bool) gomap"
  | ActHealth string "DriverHealth \<Rightarrow> DriverHealth"
  | ActRemove string

definition healthOnly :: "(DriverHealth \<Rightarrow> DriverHealth) \<Rightarrow> DriverHealth \<Rightarrow> DriverHealth" where
  "healthOnly f h = (f h)\<lparr>commandFault := commandFault h, commandFaultReason := commandFaultReason h\<rparr>"

fun actStep :: "health_map \<times> driverActuationTracker \<Rightarrow> actEvent \<Rightarrow> health_map \<times> driverActuationTracker" where
  "actStep ht (ActOutcome name action err now) = recordCommandOutcomeFor name action err (int now) ht"
| "actStep ht (ActUpdate now observeOnly) = snd (actuation_update (int now) observeOnly ht)"
| "actStep ht (ActHealth name f) =
     (case ht of (hm, t) \<Rightarrow> (map (\<lambda>(n, h). (n, if n = name then healthOnly f h else h)) hm, t))"
| "actStep ht (ActRemove name) = (case ht of (hm, t) \<Rightarrow> (mdel name hm, t))"

interpretation act: invariant_machine actStep act_ok
proof
  fix ht e assume ok: "act_ok ht"
  have now: "\<not> isZero (int n)" for n by (simp add: isZero_def zeroTime_def)
  show "act_ok (actStep ht e)"
  proof (cases e)
    case (ActOutcome name action err n)
    with outcome_ok [OF ok now] show ?thesis by simp
  next
    case (ActUpdate n ob)
    with update_ok [OF ok, of "int n" ob] show ?thesis by (metis actStep.simps(2) prod.collapse)
  next
    case (ActHealth name f)
    obtain hm t where ht: "ht = (hm, t)" by force
    have "commandFault h = excludedBy t n"
      if m: "map_option (\<lambda>h. if n = name then healthOnly f h else h) (mget hm n) = Some h" for n h
    proof -
      obtain h0 where "mget hm n = Some h0" "h = (if n = name then healthOnly f h0 else h0)" using m by (cases "mget hm n") auto
      then have "mget hm n = Some h0" "commandFault h = commandFault h0" by (simp_all add: healthOnly_def)
      then show ?thesis using ok by (simp add: act_ok_def ht)
    qed
    then show ?thesis using ok by (simp add: act_ok_def ActHealth ht)
  next
    case (ActRemove name)
    with ok show ?thesis by (auto simp: act_ok_def split: prod.splits if_splits)
  qed
qed

section \<open>Properties\<close>

text \<open>Whatever commands were answered, however health and outages went, a driver is out of dispatch for its refusals
  exactly while the tracker holds an exclusion of it, which is what its retry window is counted from: no driver is
  left out without one.\<close>

theorem exclusion_matches_fault:
  assumes "\<And>h. h \<in> snd ` set hm \<Longrightarrow> \<not> commandFault h" "(hm', t') = foldl actStep (hm, newDriverActuationTracker) es"
    "mget hm' name = Some h"
  shows "commandFault h \<longleftrightarrow> (\<exists>st. mget (refusals t') name = Some st \<and> \<not> isZero (excludedAt st))"
proof -
  have "act_ok (hm, newDriverActuationTracker)"
    using assms(1) by (force simp: act_ok_def newDriverActuationTracker_def excludedBy_def dest: mget_in_set)
  from act.inv_run [OF this, of es] assms(2,3) show ?thesis
    by (auto simp: act_ok_def excludedBy_def split: prod.splits option.splits)
qed



text \<open>An exclusion always ends: five minutes after it, or at once when a device that was out of reach reads again, the
  driver is let back in with one trial, and not before. One refusal of the same action in the trial puts it straight
  out again.\<close>

theorem exclusion_ends_with_a_trial:
  assumes "gomap_ok (refusals t)" "actuation_update now observeOnly (hm, t) = (pend, hm', t')"
    "mget hm name = Some h" "mget (refusals t) name = Some st" "\<not> isZero (excludedAt st)"
  shows "(if driverRefusalRetryInterval \<le> tsub now (excludedAt st) \<or> backFromOutage h (sawOutage now h st)
     then mget hm' name = Some (SetCommandFault False [] h) \<and> \<not> excludedBy t' name
       \<and> (later > zeroTime \<longrightarrow> excludedBy (snd (fileRefused name (excludedAction st) why later (hm', t'))) name)
     else mget hm' name = Some h \<and> excludedBy t' name)"
proof -
  note u1 = update_parts(1) [OF assms(1,2), of name] and u3 = update_parts(3) [OF assms(1,2), of name]
  obtain st' where st': "keptRefusal (retryOne now hm name st) = Some st'" "isZero (excludedAt st') = letThrough now h st"
    "letThrough now h st \<Longrightarrow> mget (consecutive st') (excludedAction st) = Some (driverRefusalLimit - 1)"
    using retryOne_cases(2) [OF assms(3), of now st] assms(5) by auto
  have t': "mget (refusals t') name = Some st'" using u1 assms(4) st'(1) by simp
  have "letThrough now h st \<longleftrightarrow> driverRefusalRetryInterval \<le> tsub now (excludedAt st) \<or> backFromOutage h (sawOutage now h st)"
    using assms(5) by (auto simp: letThrough_def)
  moreover have "mget hm' name = Some (if letThrough now h st then SetCommandFault False [] h else h)"
    using u3 assms(3,4) by simp
  moreover have "excludedBy t' name = (\<not> letThrough now h st)" using t' st'(2) by (simp add: excludedBy_def)
  moreover have "excludedBy (snd (fileRefused name (excludedAction st) why later (hm', t'))) name"
    if "letThrough now h st" "later > zeroTime"
    using that t' st'(2,3) by (simp add: fileRefused_def refusalOf_def mgetD_def excludedBy_def excludeNow_fields isZero_def Let_def)
  ultimately show ?thesis by simp
qed

definition tired :: "health_map \<times> driverActuationTracker" where
  "tired = foldl actStep ([(''b'', newHealth ''b'' 0)], newDriverActuationTracker)
     (map (ActOutcome ''b'' ''battery'' (Some \<lparr>errText = ''no'', errIs = []\<rparr>)) [5, 6, 7])"

lemma tired_eq: "tired = ([(''b'', SetCommandFault True ''no'' (newHealth ''b'' 0))], \<lparr>refusals = [(''b'', \<lparr>consecutive = [(''battery'', 3)],
    rsReason = ''no'', excludedAction = ''battery'', excludedAt = 7, outage = False, readAtExclusion = zeroTime, retriedAt = zeroTime\<rparr>)],
    defaulted = []\<rparr>)"
  by (simp add: tired_def recordCommandOutcomeFor_def isCommandRefusal_def fileRefused_def refusalOf_def noRefusals_def mgetD_def
      newDriverActuationTracker_def driverRefusalLimit_def isZero_def zeroTime_def excludeNow_def unreachable_def lastRead_def
      newHealth_def LastReadFailed_def SetDriverCommandFault_def Let_def)

theorem exclusion_matches_fault_witness: "commandFault (SetCommandFault True ''no'' (newHealth ''b'' 0)) \<and> excludedBy (snd tired) ''b''"
proof -
  let ?hm = "[(''b'', newHealth ''b'' 0)]" and ?es = "map (ActOutcome ''b'' ''battery'' (Some \<lparr>errText = ''no'', errIs = []\<rparr>)) [5, 6, 7]"
  have "\<not> commandFault h" if "h \<in> snd ` set ?hm" for h using that by (simp add: newHealth_def)
  moreover have "(fst tired, snd tired) = foldl actStep (?hm, newDriverActuationTracker) ?es" by (simp only: tired_def prod.collapse)
  moreover have "mget (fst tired) ''b'' = Some (SetCommandFault True ''no'' (newHealth ''b'' 0))" by (simp add: tired_eq)
  ultimately have "commandFault (SetCommandFault True ''no'' (newHealth ''b'' 0))
      \<longleftrightarrow> (\<exists>st. mget (refusals (snd tired)) ''b'' = Some st \<and> \<not> isZero (excludedAt st))"
    by (rule exclusion_matches_fault)
  then show ?thesis by (auto simp: fault_fields excludedBy_def)
qed

theorem exclusion_ends_with_a_trial_witness:
  "\<not> excludedBy (snd (snd (actuation_update (7 + 5 * minute) [] tired))) ''b''"
proof -
  obtain pend hm' t' where r: "actuation_update (7 + 5 * minute) [] (fst tired, snd tired) = (pend, hm', t')" by (metis surj_pair)
  have f: "gomap_ok (refusals (snd tired))" "mget (fst tired) ''b'' = Some (SetCommandFault True ''no'' (newHealth ''b'' 0))"
    by (simp_all add: tired_eq gomap_ok_def)
  have st: "\<exists>st. mget (refusals (snd tired)) ''b'' = Some st \<and> excludedAt st = 7" by (simp add: tired_eq)
  then obtain st where st: "mget (refusals (snd tired)) ''b'' = Some st" "excludedAt st = 7" by blast
  have "\<not> isZero (excludedAt st)" "driverRefusalRetryInterval \<le> tsub (7 + 5 * minute) (excludedAt st)"
    by (simp_all add: st isZero_def zeroTime_def driverRefusalRetryInterval_def tsub_def minDuration_def maxDuration_def time_simps)
  with exclusion_ends_with_a_trial [OF f(1) r f(2) st(1)] have "\<not> excludedBy t' ''b''" by simp
  then show ?thesis using r by simp
qed

text \<open>A driver that cannot act is sent its default exactly when it is not telemetry-only and either its fault is new (it
  was not sent since the fault began) or it has just come back from an outage in which the default could not land;
  after the tick every faulted driver that reports has been sent one.\<close>

theorem defaults_sent_once_per_fault:
  assumes "gomap_ok (refusals t)" "actuation_update now observeOnly (hm, t) = (pend, hm', t')"
    "returned \<longleftrightarrow> (\<exists>st h. mget (refusals t) name = Some st \<and> mget hm name = Some h \<and> \<not> isZero (excludedAt st)
        \<and> backFromOutage h (sawOutage now h st))"
    "faulted \<longleftrightarrow> (\<exists>h. (name, h) \<in> set hm' \<and> DeviceFault h \<and> Status h \<noteq> StatusOffline)"
    "known \<longleftrightarrow> mget hm name \<noteq> None \<or> mget (refusals t) name = None"
  shows "(name \<in> set pend \<longleftrightarrow> \<not> mgetD False observeOnly name \<and> (returned \<or> faulted \<and> (name \<notin> set (defaulted t) \<or> \<not> known)))
    \<and> (faulted \<and> mget hm' name = Some h \<and> DeviceFault h \<and> \<not> mgetD False observeOnly name \<longrightarrow> name \<in> set (defaulted t'))"
proof -
  let ?v = "map (\<lambda>(name, st). (name, retryOne now hm name st)) (refusals t)"
  define gone ret where "gone = map fst (filter (\<lambda>(name, v). v = RGone) ?v)"
    and "ret = map fst (filter (\<lambda>(name, v). case v of RRetry _ b \<Rightarrow> b | _ \<Rightarrow> False) ?v)"
  define done0 where "done0 = filter (\<lambda>name. name \<notin> set gone \<and> name \<notin> set ret) (defaulted t)"
  define new where "new = filter (\<lambda>name. name \<notin> set done0) (map fst (filter (faultedLive observeOnly) hm'))"
  have out: "pend = sort (new @ filter (\<lambda>name. \<not> mgetD False observeOnly name \<and> name \<notin> set new) ret)"
    "defaulted t' = filter (\<lambda>name. case mget hm' name of None \<Rightarrow> False | Some h \<Rightarrow> DeviceFault h) (done0 @ new)"
    using assms(2) by (auto simp: actuation_update_def Let_def gone_def ret_def done0_def new_def)
  have gone: "name \<in> set gone \<longleftrightarrow> \<not> known"
    unfolding gone_def keys_of_verdicts using in_keys_iff [OF assms(1), of name "\<lambda>n st. retryOne now hm n st = RGone"] assms(5)
    by (auto simp: retryOne_def Let_def split: option.splits)
  have ret: "name \<in> set ret \<longleftrightarrow> returned"
    unfolding ret_def keys_of_verdicts assms(3)
    using in_keys_iff [OF assms(1), of name "\<lambda>n st. case retryOne now hm n st of RRetry _ b \<Rightarrow> b | _ \<Rightarrow> False"]
    by (auto simp: retryOne_def Let_def split: option.splits if_splits retryVerdict.splits)
  have new: "name \<in> set new \<longleftrightarrow> faulted \<and> \<not> mgetD False observeOnly name \<and> (name \<notin> set (defaulted t) \<or> \<not> known \<or> returned)"
    unfolding new_def done0_def using gone ret assms(4) by (auto simp: faultedLive_def image_iff)
  have "name \<in> set pend \<longleftrightarrow> name \<in> set new \<or> (\<not> mgetD False observeOnly name \<and> name \<in> set ret)" by (auto simp: out(1))
  moreover have "name \<in> set (defaulted t')" if "faulted" "mget hm' name = Some h" "DeviceFault h" "\<not> mgetD False observeOnly name"
    using that new gone ret by (auto simp: out(2) done0_def)
  ultimately show ?thesis using new ret by blast
qed

theorem defaults_sent_once_per_fault_witness:
  "\<exists>pend hm' t'. actuation_update 8 [] tired = (pend, hm', t') \<and> ''b'' \<in> set pend"
proof -
  obtain pend hm' t' where r: "actuation_update 8 [] (fst tired, snd tired) = (pend, hm', t')" by (metis surj_pair)
  have ok: "gomap_ok (refusals (snd tired))" by (simp add: tired_eq gomap_ok_def)
  have f: "\<exists>h. (''b'', h) \<in> set hm' \<and> DeviceFault h \<and> Status h \<noteq> StatusOffline"
    using r by (auto simp: actuation_update_def tired_eq retryOne_def isZero_def zeroTime_def sawOutage_def backFromOutage_def
        newHealth_def SetCommandFault_def refreshDeviceFault_def LastReadFailed_def tsub_def minDuration_def maxDuration_def
        driverRefusalRetryInterval_def time_simps Let_def)
  have "''b'' \<in> set pend"
    using defaults_sent_once_per_fault [OF ok r refl refl refl, of "''b''"] f by (auto simp: tired_eq mgetD_def)
  with r show ?thesis by auto
qed

end
