(* ===== verification/Loadpoint_Surplus.thy ===== *)
theory Loadpoint_Surplus
  imports Ev_Offers
begin

text \<open>
  What chargers on solar surplus ask the dispatcher to leave for them (\<open>loadpoint/surplus_reserve.go\<close>): the reserve
  of the battery dispatch, the draw of the protected cars, the more permissive reserve of the curtailment, and what a
  car may take of the house's leftover.
\<close>

definition EVRampHeadroomW :: real where "EVRampHeadroomW = 2000"
definition GridChargeImportW :: real where "GridChargeImportW = 100"

definition surplusOnlyProtected :: "lpState \<Rightarrow> bool" where
  "surplusOnlyProtected st = (lpSurplusOnly st \<and> lpPluggedIn st \<and> \<not> lpManualActive st)"

definition knownFull :: "lpState \<Rightarrow> bool" where
  "knownFull st = (lpVehicleSoC st > 0 \<and> lpVehicleChargeLimit st > 0 \<and> lpVehicleSoC st \<ge> lpVehicleChargeLimit st)"

text \<open>The reserve of one charger.\<close>

definition pointReserveW :: "bool \<Rightarrow> lpState \<Rightarrow> real" where
  "pointReserveW kick st =
     (if \<not> surplusOnlyProtected st then 0
      else let maxW = fval (lpMaxChargeW st)
           in if kick
              then let base = (if lpMinChargeW st \<le> 0 then EVRampHeadroomW else lpMinChargeW st);
                       base = (if lpCurrentPowerW st > base then lpCurrentPowerW st else base);
                       top = base + EVRampHeadroomW
                   in if top > maxW then maxW else top
              else if lpCurrentPowerW st < 50
              then if knownFull st then 0
                   else let base = (if lpMinChargeW st \<le> 0 then EVRampHeadroomW else lpMinChargeW st)
                        in if base > maxW \<and> maxW > 0 then maxW else base
              else let top = lpCurrentPowerW st + EVRampHeadroomW; top = (if top > maxW then maxW else top)
                   in if top < 0 then 0 else top)"

definition SurplusReserveW :: "lpState list \<Rightarrow> (string, bool) gomap \<Rightarrow> real" where
  "SurplusReserveW states wakeKickActiveIDs =
     sum_list (map (\<lambda>st. pointReserveW (mgetD False wakeKickActiveIDs (lpID st)) st) states)"

definition SurplusChargingW :: "lpState list \<Rightarrow> real" where
  "SurplusChargingW states =
     sum_list (map (\<lambda>st. if \<not> surplusOnlyProtected st \<or> lpCurrentPowerW st \<le> 0 then 0 else lpCurrentPowerW st) states)"

definition SurplusPotentialW :: "lpState list \<Rightarrow> real" where
  "SurplusPotentialW states =
     sum_list (map (\<lambda>st.
       if \<not> lpSurplusOnly st \<or> \<not> lpPluggedIn st then 0
       else if knownFull st then 0
       else let head = fval (lpMaxChargeW st);
                head = (if head \<le> 0 then lpMinChargeW st else head)
            in if head \<le> 0 then EVRampHeadroomW else head) states)"

definition PlannedPVSoakW :: "real \<Rightarrow> real \<Rightarrow> real" where
  "PlannedPVSoakW batteryW gridW = (if batteryW \<le> 0 \<or> gridW > GridChargeImportW then 0 else batteryW)"

definition SurplusAvailableForEVW :: "real \<Rightarrow> real \<Rightarrow> real \<Rightarrow> bool \<Rightarrow> real" where
  "SurplusAvailableForEVW gridW batW evW surplusOnlyActive =
     (let leftover = - gridW + batW + evW;
          leftover = (if surplusOnlyActive then leftover - PlannedPVSoakW batW (gridW - evW) else leftover)
      in if leftover < 0 then 0 else leftover)"

section \<open>Properties\<close>

text \<open>A charger whose limits are in order: the least charge is not above the most, and its draw is within it.\<close>

definition point_ok :: "lpState \<Rightarrow> bool" where
  "point_ok st = (0 < fval (lpMaxChargeW st) \<and> lpMinChargeW st \<le> fval (lpMaxChargeW st)
     \<and> lpCurrentPowerW st \<le> fval (lpMaxChargeW st))"

lemma pointReserve_bounds:
  assumes "point_ok st"
  shows "0 \<le> pointReserveW kick st" "pointReserveW kick st \<le> (if surplusOnlyProtected st then fval (lpMaxChargeW st) else 0)"
    "\<not> knownFull st \<or> 50 \<le> lpCurrentPowerW st \<Longrightarrow>
      (if \<not> surplusOnlyProtected st \<or> lpCurrentPowerW st \<le> 0 then 0 else lpCurrentPowerW st) \<le> pointReserveW kick st + 50"
  using assms by (auto simp: point_ok_def pointReserveW_def EVRampHeadroomW_def Let_def)

text \<open>The reserve never exceeds what the protected cars may take, and, full cars apart, covers what they draw but for the
  standby draw of each; the curtailment's reserve is at least the dispatcher's for every car that is not full.\<close>

theorem surplus_reserve_bounds:
  assumes "list_all point_ok states" "list_all (\<lambda>st. \<not> knownFull st) states"
  shows "SurplusReserveW states kicks \<le> sum_list (map (\<lambda>st. if surplusOnlyProtected st then fval (lpMaxChargeW st) else 0) states)
    \<and> SurplusChargingW states \<le> SurplusReserveW states kicks + 50 * real (length states)
    \<and> SurplusReserveW states kicks \<le> SurplusPotentialW states"
  using assms
proof (induction states)
  case Nil
  show ?case by (simp add: SurplusReserveW_def SurplusChargingW_def SurplusPotentialW_def)
next
  case (Cons st states)
  let ?k = "mgetD False kicks (lpID st)"
  have ok: "point_ok st" "\<not> knownFull st" using Cons.prems by simp_all
  note b = pointReserve_bounds [OF ok(1), of ?k]
  have "pointReserveW ?k st \<le> SurplusPotentialW [st]"
    using b(2) ok by (auto simp: SurplusPotentialW_def surplusOnlyProtected_def point_ok_def Let_def split: if_splits)
  moreover have "SurplusPotentialW (st # states) = SurplusPotentialW [st] + SurplusPotentialW states"
    by (simp add: SurplusPotentialW_def)
  moreover have "SurplusReserveW (st # states) kicks = pointReserveW ?k st + SurplusReserveW states kicks"
    "SurplusChargingW (st # states) = (if \<not> surplusOnlyProtected st \<or> lpCurrentPowerW st \<le> 0 then 0 else lpCurrentPowerW st)
      + SurplusChargingW states"
    by (simp_all add: SurplusReserveW_def SurplusChargingW_def)
  ultimately show ?case using b(2,3) ok(2) Cons by (simp del: if_split)
qed

definition solarCar :: lpState where
  "solarCar = \<lparr>lpID = ''g'', lpDriverName = ''c'', lpPluggedIn = True, lpCurrentPowerW = 3000, lpVehicleSoC = 0, lpVehicleChargeLimit = 0,
     lpCommandedKnown = False, lpCommandedW = Fin 0, lpCommandedPhases = 0, lpCarPhases = 0, lpCarPhase = 0, lpMinChargeW = 1400,
     lpMaxChargeW = Fin 11000, lpSurplusOnly = True, lpManualActive = False\<rparr>"

theorem surplus_reserve_bounds_witness: "SurplusReserveW [solarCar] [] = 5000 \<and> 5000 \<le> SurplusPotentialW [solarCar]"
proof -
  have r: "SurplusReserveW [solarCar] [] = 5000"
    by (simp add: SurplusReserveW_def pointReserveW_def surplusOnlyProtected_def solarCar_def mgetD_def EVRampHeadroomW_def)
  have "list_all point_ok [solarCar]" "list_all (\<lambda>st. \<not> knownFull st) [solarCar]"
    by (simp_all add: point_ok_def knownFull_def solarCar_def)
  from surplus_reserve_bounds [OF this, of "[]"] r show ?thesis by simp
qed

end
