(* ===== verification/Control_Loop.thy ===== *)
theory Control_Loop
  imports Compute_Dispatch Ev_Meter_Limit Pv_Curtail Site_Gate Loadpoint_Surplus
begin

text \<open>
  The control tick as \<open>cmd/ftw/main.go\<close> puts it together, and runs of it: the watchdog scan, the counted import, the
  gate on the site meter, the defaults when it is closed, and on an open gate the battery dispatch with the self-tune
  override (\<open>control/selftune_dispatch.go\<close>), the limits of the inverters and the solar hint. What the chargers report
  and ask for is an input of the tick; their own controller calls \<open>EVFuseBudget\<close> between ticks, which is an event of the
  run beside the settings an owner changes. A tick holds the controller's lock around each part and sees one store.
\<close>

section \<open>The self-tune override\<close>

text \<open>The first target of the tuned driver takes the step, bounded as a target of the fuse's relief is.\<close>

fun stepTuned :: "Store \<Rightarrow> State \<Rightarrow> string \<Rightarrow> real \<Rightarrow> DispatchTarget list \<Rightarrow> DispatchTarget list" where
  "stepTuned store s name commandW [] = []"
| "stepTuned store s name commandW (t # ts) =
     (if Driver t \<noteq> name then t # stepTuned store s name commandW ts
      else case Get name DerBattery store of
             None \<Rightarrow> t # ts
           | Some r \<Rightarrow>
               let (lower, upper) = fuseTargetBounds r (limitsOf s name); w = max lower (min upper commandW)
               in t\<lparr>TargetW := w, Clamped := (w \<noteq> commandW)\<rparr> # ts)"

definition SelfTuneDispatch ::
  "Store \<Rightarrow> (string, real) gomap \<Rightarrow> real \<Rightarrow> string \<Rightarrow> real \<Rightarrow> State \<Rightarrow> DispatchTarget list \<times> State" where
  "SelfTuneDispatch store caps fuseMaxW name commandW s =
     applyDispatchSafetyPipeline store caps fuseMaxW
       \<lparr>optManualHoldActive = True, optNoSelfDischarge = False, optNoSelfCharge = False, optChargeBlocked = [],
        optFloorBlocked = [], optUpdatePrevTargets = True, optRecordDispatch = True\<rparr>
       (stepTuned store s name commandW (holdFleetAtZero store caps)) s"

section \<open>The tick\<close>

record tickInput =
  tiTel :: Store
  tiNow :: time
  tiTimeout :: duration
  tiSetupReason :: string
  tiNames :: "string list"
  tiPoints :: "lpState list"
  tiWakeKicks :: "(string, bool) gomap"
  tiBoostEVW :: real
  tiBoostReserveSoC :: real
  tiDemands :: "FuseDemand list"
  tiCapacities :: "(string, real) gomap"
  tiSelfTune :: "(string \<times> real) option"
  tiObserveOnly :: "(string, bool) gomap"
  tiPendingPV :: "string list"

record tickCommands =
  tcDefaults :: "string list"
  tcBatteries :: "DispatchTarget list"
  tcCurtail :: "CurtailTarget list"
  tcFeed :: "SolarFeedTarget list"

record siteLoop =
  ctrl :: State
  staleDefaults :: staleSiteDefaultTracker

text \<open>What the tick writes into the controller before it dispatches, under one lock with the dispatch.\<close>

definition publishChargers :: "tickInput \<Rightarrow> State \<Rightarrow> State" where
  "publishChargers i s =
     SetEVFuseDemands (tiDemands i) (SetEVCommanded (tiPoints i)
       (s\<lparr>EVSurplusOnlyReserveW := SurplusReserveW (tiPoints i) (tiWakeKicks i),
          EVSurplusOnlyChargingW := SurplusChargingW (tiPoints i),
          EVCurtailHeadroomW := SurplusPotentialW (tiPoints i),
          BatteryBoostEVChargingW := tiBoostEVW i, BatteryBoostReserveSoC := tiBoostReserveSoC i\<rparr>))"

definition tickFuseMaxW :: "State \<Rightarrow> real" where
  "tickFuseMaxW s = SiteFuseAmps s * SiteFuseVoltage s * real_of_int (SiteFusePhases s)"

definition notObserved :: "(string, bool) gomap \<Rightarrow> string \<Rightarrow> bool" where
  "notObserved observeOnly d = (\<not> mgetD False observeOnly d)"

text \<open>The battery commands of an open gate: the dispatch, or the tuned step in its place.\<close>

definition dispatchBatteries :: "tickInput \<Rightarrow> Store \<Rightarrow> State \<Rightarrow> (DispatchTarget list \<times> State) option" where
  "dispatchBatteries i tel s =
     (let s = publishChargers i s; fuseMaxW = tickFuseMaxW s
      in case ComputeDispatch tel (tiCapacities i) fuseMaxW s of
           None \<Rightarrow> None
         | Some (targets, s) \<Rightarrow>
             (case tiSelfTune i of
                None \<Rightarrow> Some (targets, s)
              | Some (name, w) \<Rightarrow> Some (SelfTuneDispatch tel (tiCapacities i) fuseMaxW name w s)))"

definition dispatchPV :: "tickInput \<Rightarrow> Store \<Rightarrow> State \<Rightarrow> CurtailTarget list \<times> State" where
  "dispatchPV i tel s =
     ComputePVCurtail tel (s\<lparr>LastCurtailedDrivers := foldl (\<lambda>m d. mset_at d True m) (LastCurtailedDrivers s) (tiPendingPV i)\<rparr>)"

definition controlTick :: "tickInput \<Rightarrow> siteLoop \<Rightarrow> (tickCommands \<times> siteLoop) option" where
  "controlTick i l =
     (let (tel, _) = watchdogStore (tiTimeout i) (tiNow i) (tiTel i);
          s = ObserveSiteImport tel ((ctrl l)\<lparr>clock := tiNow i\<rparr>);
          (freshness, s) = siteDispatchGateLocked tel (tiTimeout i) (tiNow i) s;
          freshness = (if tiSetupReason i \<noteq> [] then freshness\<lparr>Reason := tiSetupReason i\<rparr> else freshness);
          ((defaults, _), tracker) = stale_update (\<not> Allowed freshness) (SiteMeterDriver s) (tiNames i) (staleDefaults l)
      in if \<not> Allowed freshness
         then Some (\<lparr>tcDefaults = defaults, tcBatteries = [], tcCurtail = [], tcFeed = []\<rparr>,
                    \<lparr>ctrl = ClearBatteryManualHold s, staleDefaults = tracker\<rparr>)
         else case dispatchBatteries i tel s of
                None \<Rightarrow> None
              | Some (targets, s) \<Rightarrow>
                  (case dispatchPV i tel s of (caps, s) \<Rightarrow>
                     Some (\<lparr>tcDefaults = defaults,
                            tcBatteries = filter (\<lambda>t. notObserved (tiObserveOnly i) (Driver t)) targets,
                            tcCurtail = caps,
                            tcFeed = filter (\<lambda>f. notObserved (tiObserveOnly i) (sfDriver f)) (ComputeSolarFeed tel s)\<rparr>,
                          \<lparr>ctrl = s, staleDefaults = tracker\<rparr>)))"

section \<open>Runs\<close>

text \<open>What an owner or a saved configuration changes between ticks.\<close>

datatype ownerSetting =
    ChangeMode Mode
  | ChangeGridTarget real
  | ChangePeakLimit f64
  | HoldBattery BatteryManualHold
  | HoldPV PVManualHold
  | ManualEV real bool
  | SeedHour time f64 duration
  | ChangeLimits "(string, PowerLimits) gomap"

fun applySetting :: "ownerSetting \<Rightarrow> State \<Rightarrow> State" where
  "applySetting (ChangeMode m) s = (case ApplyMode m s of Inl _ \<Rightarrow> s | Inr s \<Rightarrow> s)"
| "applySetting (ChangeGridTarget w) s = SetGridTarget w s"
| "applySetting (ChangePeakLimit w) s = (case SetPeakLimit w s of Inl _ \<Rightarrow> s | Inr s \<Rightarrow> s)"
| "applySetting (HoldBattery h) s = SetBatteryManualHold h s"
| "applySetting (HoldPV h) s = SetPVManualHold h s"
| "applySetting (ManualEV w active) s = SetManualEVCharging w active s"
| "applySetting (SeedHour t wh covered) s = SeedHourImport t wh covered s"
| "applySetting (ChangeLimits lims) s = s\<lparr>DriverLimits := lims\<rparr>"

inductive loopStep :: "siteLoop \<Rightarrow> siteLoop \<Rightarrow> bool" where
  tick: "controlTick i l = Some (c, l') \<Longrightarrow> loopStep l l'"
| budget: "loopStep l (l\<lparr>ctrl := snd (EVFuseBudget store points configs fuseMaxW (ctrl l))\<rparr>)"
| setting: "loopStep l (l\<lparr>ctrl := applySetting x (ctrl l)\<rparr>)"

inductive reaches :: "siteLoop \<Rightarrow> siteLoop \<Rightarrow> bool" where
  start: "reaches l l"
| more: "reaches l l1 \<Longrightarrow> loopStep l1 l2 \<Longrightarrow> reaches l l2"

section \<open>Lemmas\<close>

lemma pipeline_keeps: "keepsLimits s (snd (applyDispatchSafetyPipeline store caps f opts ts s))"
proof -
  let ?s0 = "updateBatteryChargeFull store caps s"
  let ?g = "applyFuseGuard store f ts ?s0"
  let ?p = "policyRails store caps f opts (fitBatteryRisesToFuse store (fst ?g) (snd ?g)) (snd ?g)"
  let ?r = "forceFuseDischarge store caps f (fst ?p) (snd ?p)"
  have frame: "guardFrame ?s0 (snd ?r)"
    by (rule guardFrame_trans [OF guardFrame_trans [OF applyFuseGuard_frame policyRails_frame] forceFuseDischarge_frame])
  have "keepsLimits s (snd ?r)"
    using guardFrame_keeps(1,2) [OF frame] keeps_basic(5) [of s store caps] by (simp add: keepsLimits_def)
  moreover have "keepsLimits t (republishFuseEVCapAfterFuseDischarge store f o' t)" for o' t
    by (simp add: keepsLimits_def republishFuseEVCapAfterFuseDischarge_def Let_def split: option.split)
  moreover have "keepsLimits t (recordDispatchTargets o' a b t)" "keepsLimits t (recordBatteryReadings o' store t)"
    "keepsLimits t (recordFuseRelief o' o'' t)" for o' o'' a b t
    by (simp_all add: keepsLimits_def recordDispatchTargets_def recordBatteryReadings_def recordFuseRelief_def Let_def)
  ultimately show ?thesis
    unfolding applyDispatchSafetyPipeline_def Let_def case_prod_beta by (auto intro: keeps_trans simp: keepsLimits_def)
qed

lemma early_keeps:
  assumes "fuseSaverEarlyExit store caps f s = Some (out, s')"
  shows "keepsLimits s s'"
proof -
  obtain o1 l1 s1 where o1: "fuseSaverAtLivePower store caps f s = Some ((o1, l1), s1)"
    using assms by (auto simp: fuseSaverEarlyExit_def split: option.splits)
  have loop: "keepsLimits t (snd (stopLoop store isSeen names (ts, t)))" for isSeen names ts t
    by (induction names arbitrary: ts t) (auto simp: keepsLimits_def)
  obtain o2 s2 where o2: "(o2, s2) = stopFullBatteries store caps o1 s1" by (metis surj_pair)
  have "keepsLimits s1 s2" using o2 loop [of s1] by (simp add: stopFullBatteries_def case_prod_beta Let_def)
  moreover have "keepsLimits s s1" using saver_result [OF o1] guardFrame_keeps(1,2) by (auto simp: keepsLimits_def)
  moreover have "keepsLimits s2 s'"
    using assms o1 by (auto simp: fuseSaverEarlyExit_def o2 [symmetric] Let_def recordFuseRelief_def keepsLimits_def split: if_splits)
  ultimately show ?thesis by (blast intro: keeps_trans)
qed

lemma runTick_keeps:
  assumes "runTick store caps f tm s = Some (out, s')"
  shows "keepsLimits s s'"
proof -
  let ?b = "tmHoldActive tm"
  let ?site = "fst (readSite store caps ?b s)"
  let ?s2 = "expireOfflineFuseRelief (map driver (tsBats ?site)) (snd (readSite store caps ?b s))"
  have k: "keepsLimits s ?s2" by (rule keeps_trans [OF keeps_readSite keeps_basic(9)])
  have pub: "keepsLimits t ((publishBatterylessEVFuseBudget store f t)\<lparr>LastTargets := []\<rparr>)" for t
    by (simp add: publishBatterylessEVFuseBudget_def keepsLimits_def Let_def split: option.split)
  have fleet: "keepsLimits t t'" if d: "dispatchFleet store caps f tm site t = Some (out, t')" for site t t'
  proof (cases "fleetTotalW tm (\<not> tmHoldActive tm \<and> planHasNonDischargeIntent t) (mayNotCharge tm site t) site t")
    case None
    with d show ?thesis by (simp add: dispatchFleet_def early_keeps)
  next
    case (Some r)
    obtain w mv t1 where r: "r = (w, mv, t1)" by (cases r)
    obtain w2 t2 where j: "jointAllocate f site w t1 = (w2, t2)" by force
    obtain ts t3 where p: "splitTotal store tm site w2 t2 = (ts, t3)" by force
    have "keepsLimits t t3"
      using keeps_trans [OF keeps_trans [OF keeps_total [OF Some [unfolded r]] keeps_joint] keeps_split] j p by (metis snd_conv)
    moreover have "keepsLimits t3 t'"
      using d pipeline_keeps by (auto simp: dispatchFleet_def Some r j p Let_def) (metis snd_conv)
    ultimately show ?thesis by (rule keeps_trans)
  qed
  show ?thesis using assms pipeline_keeps early_keeps keeps_trans [OF k pub] keeps_trans [OF k fleet]
    by (auto simp: runTick_def Let_def case_prod_beta split: if_splits) (metis snd_conv)+
qed

lemma dispatch_keeps:
  assumes "ComputeDispatch store caps f s = Some (out, s')"
  shows "keepsLimits s s'"
proof -
  obtain tm s1 where m: "resolveMode (startTick store caps s) = (tm, s1)" by force
  have "keepsLimits s s1" using keeps_trans [OF keeps_startTick keeps_resolveMode] m by (metis snd_conv)
  moreover obtain s2 where "runTick store caps f tm s1 = Some (out, s2)" "s' = s2\<lparr>controlPlanSnapshot := noSnapshot\<rparr>"
    using assms by (auto simp: ComputeDispatch_def m)
  moreover from runTick_keeps [OF this(1)] this(2) have "keepsLimits s1 s'" by (simp add: keepsLimits_def)
  ultimately show ?thesis by (blast intro: keeps_trans)
qed

lemma yield_keeps: "keepsLimits s s' \<Longrightarrow> yieldOk s' = yieldOk s"
  by (simp add: keepsLimits_def yieldOk_def)

lemma batteries_safe:
  assumes "yieldOk s" "dispatchBatteries i tel s = Some (out, s')"
  shows "keepsLimits s s'" "list_all (safeCommand tel s) out"
    "t \<in> set out \<Longrightarrow> BatteryChargePaused (Driver t) s' \<Longrightarrow> TargetW t \<le> 0"
proof -
  let ?s0 = "publishChargers i s"
  have k0: "keepsLimits s ?s0" by (simp add: publishChargers_def SetEVFuseDemands_def SetEVCommanded_def keepsLimits_def)
  obtain o1 s1 where c: "ComputeDispatch tel (tiCapacities i) (tickFuseMaxW ?s0) ?s0 = Some (o1, s1)"
    using assms(2) by (auto simp: dispatchBatteries_def Let_def split: option.splits)
  obtain tm s2 where m: "resolveMode (startTick tel (tiCapacities i) ?s0) = (tm, s2)" by force
  have k2: "keepsLimits ?s0 s2" using keeps_trans [OF keeps_startTick keeps_resolveMode] m by (metis snd_conv)
  obtain s3 where r: "runTick tel (tiCapacities i) (tickFuseMaxW ?s0) tm s2 = Some (o1, s3)" "s1 = s3\<lparr>controlPlanSnapshot := noSnapshot\<rparr>"
    using c by (auto simp: ComputeDispatch_def m)
  have y: "yieldOk s2" "yieldOk s1"
    using assms(1) yield_keeps [OF keeps_trans [OF k0 k2]] yield_keeps [OF keeps_trans [OF k0 dispatch_keeps [OF c]]] by simp_all
  have first: "list_all (safeCommand tel s) o1" "\<And>t. t \<in> set o1 \<Longrightarrow> BatteryChargePaused (Driver t) s1 \<Longrightarrow> TargetW t \<le> 0"
    using runTick_safe [OF y(1) [unfolded yieldOk_def] r(1)] safeCommand_keeps [OF keeps_trans [OF k0 k2], of tel] by (auto simp: safeTick_def list_all_iff r(2) BatteryChargePaused_def)
  have "keepsLimits s s' \<and> list_all (safeCommand tel s) out \<and> (\<forall>t \<in> set out. BatteryChargePaused (Driver t) s' \<longrightarrow> TargetW t \<le> 0)"
  proof (cases "tiSelfTune i")
    case None
    then have "out = o1" "s' = s1" using assms(2) c by (simp_all add: dispatchBatteries_def Let_def)
    with first keeps_trans [OF k0 dispatch_keeps [OF c]] show ?thesis by simp
  next
    case (Some p)
    obtain name w where p: "p = (name, w)" by force
    then have t: "(out, s') = SelfTuneDispatch tel (tiCapacities i) (tickFuseMaxW ?s0) name w s1"
      using assms(2) c Some by (simp add: dispatchBatteries_def Let_def)
    have k1: "keepsLimits s s1" by (rule keeps_trans [OF k0 dispatch_keeps [OF c]])
    have "keepsLimits s1 s'" using pipeline_keeps t unfolding SelfTuneDispatch_def by (metis snd_conv)
    moreover have "list_all (safeCommand tel s1) out" "\<forall>t \<in> set out. BatteryChargePaused (Driver t) s' \<longrightarrow> TargetW t \<le> 0"
      using pipeline_safe [OF y(2) [unfolded yieldOk_def] t [unfolded SelfTuneDispatch_def]] by blast+
    ultimately show ?thesis using k1 safeCommand_keeps [OF k1, of tel] by (auto intro: keeps_trans)
  qed
  then show "keepsLimits s s'" "list_all (safeCommand tel s) out"
    "t \<in> set out \<Longrightarrow> BatteryChargePaused (Driver t) s' \<Longrightarrow> TargetW t \<le> 0" by simp_all
qed

lemma observe_frames:
  "evLimit (ObserveSiteImport tel s) = evLimit s" "DriverLimits (ObserveSiteImport tel s) = DriverLimits s"
  "SiteMeterDriver (ObserveSiteImport tel s) = SiteMeterDriver s"
  by (simp_all add: ObserveSiteImport_def stepHourImportLimits_def addHourImport_def Let_def case_prod_beta)

lemma gate_keeps: "keepsLimits s (snd (siteDispatchGateLocked tel timeout now s))"
  "SiteMeterDriver (snd (siteDispatchGateLocked tel timeout now s)) = SiteMeterDriver s"
  by (simp_all add: siteDispatchGateLocked_def siteMeterGateLocked_def keepsLimits_def freeze_frame Let_def)

lemma pv_keeps: "keepsLimits s (snd (dispatchPV i tel s))" "BatteryChargePaused d (snd (dispatchPV i tel s)) = BatteryChargePaused d s"
proof -
  obtain x where "snd (baseLimit tel t) = t\<lparr>ManualPVHold := x t\<rparr>" for t using baseLimit_frame [of tel] by metis
  then show "keepsLimits s (snd (dispatchPV i tel s))" "BatteryChargePaused d (snd (dispatchPV i tel s)) = BatteryChargePaused d s"
    by (simp_all add: dispatchPV_def ComputePVCurtail_def curtailPlan_def curtailTargets_def Let_def case_prod_beta keepsLimits_def
        BatteryChargePaused_def)
qed

lemma watchdog_reads: "Get d t (fst (watchdogStore timeout now tel)) = Get d t tel"
  by (simp add: watchdogStore_def Get_def case_prod_beta Let_def)

text \<open>The state in which an open gate dispatches, and what becomes of the tick.\<close>

definition gateState :: "tickInput \<Rightarrow> siteLoop \<Rightarrow> State" where
  "gateState i l = (let tel = fst (watchdogStore (tiTimeout i) (tiNow i) (tiTel i))
     in snd (siteDispatchGateLocked tel (tiTimeout i) (tiNow i) (ObserveSiteImport tel ((ctrl l)\<lparr>clock := tiNow i\<rparr>))))"

definition gateVerdict :: "tickInput \<Rightarrow> siteLoop \<Rightarrow> siteDispatchDecision" where
  "gateVerdict i l = (let tel = fst (watchdogStore (tiTimeout i) (tiNow i) (tiTel i));
       d = fst (siteDispatchGateLocked tel (tiTimeout i) (tiNow i) (ObserveSiteImport tel ((ctrl l)\<lparr>clock := tiNow i\<rparr>)))
     in if tiSetupReason i \<noteq> [] then d\<lparr>Reason := tiSetupReason i\<rparr> else d)"

lemma gateState_keeps: "keepsLimits (ctrl l) (gateState i l)" "SiteMeterDriver (gateState i l) = SiteMeterDriver (ctrl l)"
  using gate_keeps by (simp_all add: gateState_def Let_def keepsLimits_def observe_frames)

lemma tick_closed:
  assumes "controlTick i l = Some (c, l')" "\<not> Allowed (gateVerdict i l)"
  shows "tcBatteries c = [] \<and> tcCurtail c = [] \<and> tcFeed c = [] \<and> ctrl l' = ClearBatteryManualHold (gateState i l)
    \<and> tcDefaults c = fst (fst (stale_update True (SiteMeterDriver (ctrl l)) (tiNames i) (staleDefaults l)))
    \<and> staleDefaults l' = snd (stale_update True (SiteMeterDriver (ctrl l)) (tiNames i) (staleDefaults l))"
  using assms gate_keeps(2) observe_frames(3)
  by (auto simp: controlTick_def gateVerdict_def gateState_def Let_def case_prod_beta)

lemma tick_open:
  assumes "controlTick i l = Some (c, l')" "Allowed (gateVerdict i l)"
  obtains targets s1 where "dispatchBatteries i (fst (watchdogStore (tiTimeout i) (tiNow i) (tiTel i))) (gateState i l) = Some (targets, s1)"
    "tcBatteries c = filter (\<lambda>t. notObserved (tiObserveOnly i) (Driver t)) targets"
    "ctrl l' = snd (dispatchPV i (fst (watchdogStore (tiTimeout i) (tiNow i) (tiTel i))) s1)"
    "tcCurtail c = fst (dispatchPV i (fst (watchdogStore (tiTimeout i) (tiNow i) (tiTel i))) s1)"
  using assms
  by (auto simp: controlTick_def gateVerdict_def gateState_def Let_def case_prod_beta split: option.splits)

lemma tick_keeps:
  assumes "yieldOk (ctrl l)" "controlTick i l = Some (c, l')"
  shows "keepsLimits (ctrl l) (ctrl l')"
proof (cases "Allowed (gateVerdict i l)")
  case False
  from tick_closed [OF assms(2) False] show ?thesis
    using gateState_keeps(1) [of l i] by (simp add: ClearBatteryManualHold_def keepsLimits_def)
next
  case True
  from tick_open [OF assms(2) True] obtain targets s1 where
    d: "dispatchBatteries i (fst (watchdogStore (tiTimeout i) (tiNow i) (tiTel i))) (gateState i l) = Some (targets, s1)"
    and l': "ctrl l' = snd (dispatchPV i (fst (watchdogStore (tiTimeout i) (tiNow i) (tiTel i))) s1)" by metis
  have "yieldOk (gateState i l)" using assms(1) yield_keeps [OF gateState_keeps(1)] by simp
  from batteries_safe(1) [OF this d] show ?thesis
    unfolding l' by (blast intro: keeps_trans gateState_keeps(1) pv_keeps(1))
qed

lemma setting_yield: "yieldOk s \<Longrightarrow> yieldOk (applySetting x s)"
  by (cases x) (auto simp: yieldOk_def ApplyMode_def ClearBatteryManualHold_def SetGridTarget_def SetPeakLimit_def SetBatteryManualHold_def
      SetPVManualHold_def SetManualEVCharging_def SeedHourImport_def Let_def split: sum.split)

lemma loop_yield: "reaches l0 l \<Longrightarrow> yieldOk (ctrl l0) \<Longrightarrow> yieldOk (ctrl l)"
proof (induction rule: reaches.induct)
  case (more l l1 l2)
  then have y: "yieldOk (ctrl l1)" by simp
  from more.hyps(2) show ?case
  proof cases
    case (tick i c)
    then show ?thesis using yield_keeps [OF tick_keeps [OF y]] y by simp
  next
    case (budget store points configs f)
    then show ?thesis using yield_budget [OF y] by simp
  next
    case (setting x)
    then show ?thesis using setting_yield [OF y] by simp
  qed
qed simp

section \<open>Properties\<close>



definition bareTick :: tickInput where
  "bareTick = \<lparr>tiTel = fullBattery (1 / 2), tiNow = 0, tiTimeout = 60 * second, tiSetupReason = [], tiNames = [''b''], tiPoints = [],
     tiWakeKicks = [], tiBoostEVW = 0, tiBoostReserveSoC = 0, tiDemands = [], tiCapacities = [(''b'', 10000)], tiSelfTune = None,
     tiObserveOnly = [], tiPendingPV = []\<rparr>"

definition siteAt :: "string \<Rightarrow> siteLoop" where
  "siteAt meter = \<lparr>ctrl = NewState 0 50 meter (\<lambda>_. 0) 0, staleDefaults = newStaleTracker\<rparr>"

lemma tick_ends: "length (tiCapacities i) \<le> maxExactCandidates \<Longrightarrow> \<exists>c l'. controlTick i l = Some (c, l')"
proof -
  assume n: "length (tiCapacities i) \<le> maxExactCandidates"
  have dispatch: "\<exists>out s'. ComputeDispatch tel (tiCapacities i) f s = Some (out, s')" for tel f s
  proof -
    obtain tm s1 where m: "resolveMode (startTick tel (tiCapacities i) s) = (tm, s1)" by force
    obtain out s2 where "runTick tel (tiCapacities i) f tm s1 = Some (out, s2)" using tick_returns [OF n] by blast
    then show ?thesis by (simp add: ComputeDispatch_def m)
  qed
  have returns: "(dispatchBatteries i tel s = None) = False" for tel s
  proof -
    obtain out s1 where "ComputeDispatch tel (tiCapacities i) (tickFuseMaxW (publishChargers i s)) (publishChargers i s) = Some (out, s1)"
      using dispatch by blast
    then show ?thesis by (simp add: dispatchBatteries_def Let_def split: option.split)
  qed
  show ?thesis by (simp add: controlTick_def Let_def case_prod_beta returns split: option.split)
qed

lemma bare_caps: "length (tiCapacities bareTick) \<le> maxExactCandidates"
  by (simp add: bareTick_def maxExactCandidates_def)



end
