(* ===== verification/Mpc_Types.thy ===== *)
theory Mpc_Types
  imports Units
begin

text \<open>
  The planner's data (\<open>mpc.go\<close>, \<open>loadpoint_spec.go\<close>, \<open>import_hours.go\<close>, \<open>power_limits.go\<close>) and
  the small packages it is built on: the site's power identity (\<open>loadpoint/site_power.go\<close>), the
  price of a grid flow (\<open>gridcost\<close>), the time a slot still has (\<open>execution_time.go\<close>) and the check
  of a timeline (\<open>slot_timeline.go\<close>).

  A slot is a record over the type of its numbers: prices and forecasts arrive as \<open>float64\<close> values
  that may be special (\<^typ>\<open>f64\<close>), and the planners compute on slots whose numbers are finite. Milliseconds are
  \<open>int64\<close>: sums and products wrap at 64 bits, which the timeline check has to notice.
\<close>

section \<open>int64\<close>

definition wrap64 :: "int \<Rightarrow> int" where
  "wrap64 x = (x + 2 ^ 63) mod 2 ^ 64 - 2 ^ 63"

definition int64 :: "int \<Rightarrow> bool" where
  "int64 x \<longleftrightarrow> - (2 ^ 63) \<le> x \<and> x < 2 ^ 63"

text \<open>Go's integer division truncates toward zero.\<close>

definition quot :: "int \<Rightarrow> int \<Rightarrow> int" where
  "quot a b = (if (a < 0) = (b < 0) then \<bar>a\<bar> div \<bar>b\<bar> else - (\<bar>a\<bar> div \<bar>b\<bar>))"

lemma wrap64_id [simp]: "int64 x \<Longrightarrow> wrap64 x = x"
  by (simp add: wrap64_def int64_def)

lemma wrap64_range [simp]: "int64 (wrap64 x)"
proof -
  have "0 \<le> (x + 2 ^ 63) mod 2 ^ 64" "(x + 2 ^ 63) mod 2 ^ 64 < (2::int) ^ 64" by simp_all
  then show ?thesis by (simp add: wrap64_def int64_def)
qed

lemma wrap64_shift:
  obtains k where "wrap64 x = x + k * 2 ^ 64"
proof
  have "(x + 2 ^ 63) mod 2 ^ 64 = (x + 2 ^ 63) - (2 ^ 64) * ((x + 2 ^ 63) div 2 ^ 64)"
    by (rule minus_mult_div_eq_mod [symmetric])
  then show "wrap64 x = x + (- ((x + 2 ^ 63) div 2 ^ 64)) * 2 ^ 64"
    unfolding wrap64_def by (simp add: algebra_simps)
qed

lemma quot_pos: "0 \<le> a \<Longrightarrow> 0 < b \<Longrightarrow> quot a b = a div b"
  by (auto simp: quot_def)

section \<open>Slots\<close>

record 'n slotOf =
  sExecutionStartMs :: int
  sStartMs :: int
  sLenMin :: int
  sPriceOre :: 'n
  sSpotOre :: 'n
  sPVW :: 'n
  sLoadW :: 'n
  sMaxImportW :: 'n
  sMaxExportW :: 'n

type_synonym Slot = "real slotOf"

definition saneSlot :: "f64 slotOf \<Rightarrow> Slot" where
  "saneSlot s = \<lparr>sExecutionStartMs = sExecutionStartMs s, sStartMs = sStartMs s, sLenMin = sLenMin s,
     sPriceOre = fval (sPriceOre s), sSpotOre = fval (sSpotOre s), sPVW = fval (sPVW s),
     sLoadW = fval (sLoadW s), sMaxImportW = fval (sMaxImportW s), sMaxExportW = fval (sMaxExportW s)\<rparr>"

definition ExecutionStart :: "'n slotOf \<Rightarrow> int" where
  "ExecutionStart s = (if sExecutionStartMs s \<noteq> 0 then sExecutionStartMs s else sStartMs s)"

definition DurationHours :: "'n slotOf \<Rightarrow> real" where
  "DurationHours s =
     real_of_int (wrap64 (wrap64 (sStartMs s + wrap64 (sLenMin s * 60000)) - ExecutionStart s)) / 3600000"

definition slotEndMs :: "'n slotOf \<Rightarrow> int option" where
  "slotEndMs s =
     (let durationMs = wrap64 (sLenMin s * 60000); endMs = wrap64 (sStartMs s + durationMs)
      in if sLenMin s \<le> 0 \<or> quot durationMs 60000 \<noteq> sLenMin s \<or> endMs < sStartMs s then None
         else Some endMs)"

definition checkedSlotEndMs :: "int \<Rightarrow> int \<Rightarrow> string + int" where
  "checkedSlotEndMs startMs lenMin =
     (if startMs \<le> 0 then Inl ''start must be positive''
      else if lenMin \<le> 0 then Inl ''length must be positive''
      else let slotLenMs = wrap64 (lenMin * 60000)
           in if slotLenMs \<le> 0 \<or> quot slotLenMs 60000 \<noteq> lenMin
              then Inl ''length overflows milliseconds''
              else let endMs = wrap64 (startMs + slotLenMs)
                   in if endMs \<le> startMs then Inl ''end overflows milliseconds'' else Inr endMs)"

definition validateExecutionStart :: "nat \<Rightarrow> int \<Rightarrow> int \<Rightarrow> int \<Rightarrow> string option" where
  "validateExecutionStart index startMs endMs execution =
     (if execution \<noteq> 0 \<and> (index \<noteq> 0 \<or> execution < startMs \<or> execution \<ge> endMs)
      then Some ''execution start must be within the first interval'' else None)"

fun validatePartialFrom :: "nat \<Rightarrow> 'n slotOf list \<Rightarrow> string option" where
  "validatePartialFrom i [] = None"
| "validatePartialFrom i (s # ss) =
     (if sExecutionStartMs s = 0 then validatePartialFrom (Suc i) ss
      else case checkedSlotEndMs (sStartMs s) (sLenMin s) of
             Inl e \<Rightarrow> Some e
           | Inr endMs \<Rightarrow>
               (case validateExecutionStart i (sStartMs s) endMs (sExecutionStartMs s) of
                  Some e \<Rightarrow> Some e
                | None \<Rightarrow> validatePartialFrom (Suc i) ss))"

definition validatePartialSlots :: "'n slotOf list \<Rightarrow> string option" where
  "validatePartialSlots ss = validatePartialFrom 0 ss"

fun chronologyFrom :: "nat \<Rightarrow> int \<Rightarrow> 'n slotOf list \<Rightarrow> string option" where
  "chronologyFrom i previousEndMs [] = None"
| "chronologyFrom i previousEndMs (s # ss) =
     (case checkedSlotEndMs (sStartMs s) (sLenMin s) of
        Inl e \<Rightarrow> Some e
      | Inr endMs \<Rightarrow>
          (case validateExecutionStart i (sStartMs s) endMs (sExecutionStartMs s) of
             Some e \<Rightarrow> Some e
           | None \<Rightarrow>
               if previousEndMs > 0 \<and> sStartMs s < previousEndMs
               then Some ''slot starts before the prior slot ends''
               else chronologyFrom (Suc i) endMs ss))"

definition validateSlotChronology :: "'n slotOf list \<Rightarrow> string option" where
  "validateSlotChronology ss =
     (if ss = [] then Some ''empty timeline'' else chronologyFrom 0 0 ss)"

definition remainingFirstSlot :: "'n slotOf list \<Rightarrow> int" where
  "remainingFirstSlot ss =
     (case ss of
        [] \<Rightarrow> 0
      | s # _ \<Rightarrow>
          (let rem = wrap64 (wrap64 (sStartMs s + wrap64 (sLenMin s * 60000)) - ExecutionStart s)
           in if rem \<le> 0 then 0 else wrap64 (rem * 1000000)))"

definition trimFirstExecutionSlot :: "'n slotOf list \<Rightarrow> time \<Rightarrow> 'n slotOf list \<times> bool" where
  "trimFirstExecutionSlot ss now =
     (case ss of
        [] \<Rightarrow> ([], False)
      | s # rest \<Rightarrow>
          (let endMs = wrap64 (sStartMs s + wrap64 (sLenMin s * 60000))
           in if unixMilli now \<ge> endMs then (ss, False)
              else if unixMilli now > sStartMs s
              then (s\<lparr>sExecutionStartMs := unixMilli now\<rparr> # rest, True)
              else (ss, True)))"

section \<open>The site's power identity\<close>

definition SitePowerEpsW :: real where "SitePowerEpsW = 50"

definition GridFlowW :: "real \<Rightarrow> real \<Rightarrow> real \<Rightarrow> real \<Rightarrow> real" where
  "GridFlowW loadW pvW batteryW evW = loadW + pvW + batteryW + evW"

definition PVLeftoverAfterHouseW :: "real \<Rightarrow> real \<Rightarrow> real" where
  "PVLeftoverAfterHouseW loadW pvW =
     (let leftover = - (loadW + pvW) in if leftover < 0 then 0 else leftover)"

definition HouseResidualW :: "real \<Rightarrow> real \<Rightarrow> real" where
  "HouseResidualW loadW pvW =
     (let residual = loadW + pvW in if residual < 0 then 0 else residual)"

definition SurplusOnlyExceedsHousePV :: "real \<Rightarrow> real \<Rightarrow> real \<Rightarrow> bool" where
  "SurplusOnlyExceedsHousePV evW loadW pvW = (evW > PVLeftoverAfterHouseW loadW pvW + SitePowerEpsW)"

definition BatteryDischargeFeedsEV :: "real \<Rightarrow> real \<Rightarrow> real \<Rightarrow> real \<Rightarrow> bool" where
  "BatteryDischargeFeedsEV batteryW evW loadW pvW =
     (if evW \<le> 0 \<or> batteryW \<ge> 0 then False
      else - batteryW > HouseResidualW loadW pvW + SitePowerEpsW)"

definition BatteryEnergyDeltaWh :: "real \<Rightarrow> real \<Rightarrow> real \<Rightarrow> real \<Rightarrow> real" where
  "BatteryEnergyDeltaWh powerW dtH chargeEff dischargeEff =
     (if powerW \<ge> 0 then powerW * dtH * chargeEff else powerW * dtH / dischargeEff)"

definition EffectivePVW :: "real \<Rightarrow> real \<Rightarrow> bool \<Rightarrow> real" where
  "EffectivePVW pvW pvLimitW curtailActive =
     (if \<not> curtailActive then pvW
      else - (if pvLimitW < 0 then 0 else pvLimitW))"

lemma energyDelta_zero [simp]: "BatteryEnergyDeltaWh 0 dtH etaC etaD = 0"
  by (simp add: BatteryEnergyDeltaWh_def)

section \<open>The price of a grid flow\<close>

record ExportPricing =
  epBonusOreKwh :: real
  epFeeOreKwh :: real
  epFlatOreKwh :: real
  epFloorOreKwh :: "real option"

definition ExportPriceOre :: "real \<Rightarrow> ExportPricing \<Rightarrow> real" where
  "ExportPriceOre spotOreKwh ep =
     (if epFlatOreKwh ep > 0 then epFlatOreKwh ep
      else let v = spotOreKwh + epBonusOreKwh ep - epFeeOreKwh ep
           in case epFloorOreKwh ep of
                None \<Rightarrow> v
              | Some floorOre \<Rightarrow> if v < floorOre then floorOre else v)"

definition GridCostOre :: "real \<Rightarrow> real \<Rightarrow> real \<Rightarrow> ExportPricing \<Rightarrow> real" where
  "GridCostOre importOreKwh spotOreKwh gridKWh ep =
     (if gridKWh > 0 then importOreKwh * gridKWh
      else - ExportPriceOre spotOreKwh ep * (- gridKWh))"

section \<open>The car\<close>

record LoadpointSpec =
  lID :: string
  lCapacityWh :: real
  lLevels :: int
  lSoCMin :: real
  lSoCMax :: real
  lInitialSoC :: real
  lPluggedIn :: bool
  lTargetSoC :: real
  lTargetSlotIdx :: int
  lMinChargeW :: real
  lMaxChargeW :: real
  lAllowedStepsW :: "real list"
  lChargeEfficiency :: real
  lSurplusOnly :: bool
  lNoBatteryToEV :: bool
  lMinChargeSeconds :: real
  lStartCostOre :: real
  lInitialCharging :: bool
  lInitialChargeSeconds :: real

text \<open>A nil \<open>*LoadpointSpec\<close> is \<^const>\<open>None\<close>: \<open>active\<close> is called on it too.\<close>

definition lpActive :: "LoadpointSpec option \<Rightarrow> bool" where
  "lpActive l = (case l of None \<Rightarrow> False
     | Some lp \<Rightarrow> lPluggedIn lp \<and> lCapacityWh lp > 0 \<and> lLevels lp \<ge> 2)"

definition blocksBatteryToEV :: "LoadpointSpec \<Rightarrow> bool" where
  "blocksBatteryToEV lp = (lNoBatteryToEV lp \<or> lSurplusOnly lp)"

text \<open>The charger's steps: the allowed ones within bounds, each once, with off, in order. The sort
  works on the prefix sorted so far, which is kept reversed here.\<close>

fun bubbleIn :: "real \<Rightarrow> real list \<Rightarrow> real list" where
  "bubbleIn x [] = [x]"
| "bubbleIn x (y # ys) = (if y > x then y # bubbleIn x ys else x # y # ys)"

definition sortSteps :: "real list \<Rightarrow> real list" where
  "sortSteps xs = rev (fold bubbleIn xs [])"

definition keepStep :: "LoadpointSpec \<Rightarrow> real \<Rightarrow> real list \<Rightarrow> real list" where
  "keepStep lp s out =
     (if s < 0 \<or> (s > 0 \<and> s < lMinChargeW lp) then out
      else if lMaxChargeW lp > 0 \<and> s > lMaxChargeW lp then out
      else if s \<in> set out then out
      else out @ [s])"

definition normalizedSteps :: "LoadpointSpec \<Rightarrow> real list" where
  "normalizedSteps lp =
     (if lAllowedStepsW lp = [] then
        (if lMaxChargeW lp \<le> 0 then [0]
         else if lMinChargeW lp > 0 \<and> lMinChargeW lp < lMaxChargeW lp
         then [0, lMinChargeW lp, lMaxChargeW lp]
         else [0, lMaxChargeW lp])
      else sortSteps (fold (keepStep lp) (lAllowedStepsW lp) [0]))"

definition requestSoC :: "LoadpointSpec \<Rightarrow> real \<times> real \<times> real" where
  "requestSoC lp =
     (let (minSoC, maxSoC) = (if lSoCMax lp \<le> lSoCMin lp then (0, 1) else (lSoCMin lp, lSoCMax lp))
      in (max minSoC (min maxSoC (lInitialSoC lp)), max minSoC (min maxSoC (lTargetSoC lp)), maxSoC))"

definition deadlineSlot :: "LoadpointSpec \<Rightarrow> nat \<Rightarrow> int" where
  "deadlineSlot lp n =
     (if lTargetSoC lp \<le> 0 \<or> lTargetSlotIdx lp < 0 \<or> n = 0 then - 1
      else min (lTargetSlotIdx lp) (int n - 1))"

section \<open>Parameters, actions and plans\<close>

type_synonym MpcMode = string

definition MpcModeSelfConsumption :: MpcMode where "MpcModeSelfConsumption = ''self_consumption''"
definition MpcModeCheapCharge :: MpcMode where "MpcModeCheapCharge = ''cheap_charge''"
definition MpcModePassiveArbitrage :: MpcMode where "MpcModePassiveArbitrage = ''passive_arbitrage''"
definition MpcModeArbitrage :: MpcMode where "MpcModeArbitrage = ''arbitrage''"

lemmas mpc_mode_defs = MpcModeSelfConsumption_def MpcModeCheapCharge_def
  MpcModePassiveArbitrage_def MpcModeArbitrage_def

record StorageAssetSpec =
  saID :: string
  saCapacityWh :: real
  saInitialEnergyWh :: real
  saMinEnergyWh :: real
  saMaxEnergyWh :: real
  saMaxChargeW :: real
  saMaxDischargeW :: real
  saChargeEfficiency :: real
  saDischargeEfficiency :: real

record ImportHour =
  ihStartMs :: int
  ihEndMs :: int
  ihElapsedImportWh :: real

text \<open>A curtailment contract: its driver and proof, and the caps it can execute.\<close>

record PlanCurtailment =
  pcDriver :: string
  pcProof :: string
  pcMinW :: real
  pcMaxW :: real

definition curtailmentValid :: "PlanCurtailment \<Rightarrow> bool" where
  "curtailmentValid c = (pcDriver c \<noteq> [] \<and> pcProof c \<noteq> [] \<and> pcMinW c \<ge> 2
     \<and> pcMinW c = real_of_int \<lceil>pcMinW c\<rceil> \<and> pcMaxW c \<ge> pcMinW c)"

definition curtailmentCovers :: "PlanCurtailment \<Rightarrow> Slot list \<Rightarrow> bool" where
  "curtailmentCovers c slots = (curtailmentValid c \<and> list_all (\<lambda>s. \<not> - sPVW s > pcMaxW c) slots)"

text \<open>Of the demand charges, which only the external worker prices, the planners here ask
  whether there are any.\<close>

record Params =
  pPVCurtailment :: PlanCurtailment
  pMode :: MpcMode
  pSoCLevels :: int
  pCapacityWh :: real
  pSoCMin :: real
  pSoCMax :: real
  pInitialSoC :: real
  pInitialSoCUnclamped :: real
  pPVChargeBonusOreKwh :: real
  pActionLevels :: int
  pMaxChargeW :: real
  pMaxDischargeW :: real
  pChargeEfficiency :: real
  pDischargeEfficiency :: real
  pTerminalSoCPrice :: real
  pExportOrePerKWh :: real
  pExportBonusOreKwh :: real
  pExportFeeOreKwh :: real
  pExportFloorOreKwh :: "real option"
  pMinArbitrageSpreadOreKwh :: real
  pLoadpoint :: "LoadpointSpec option"
  pLoadpoints :: "LoadpointSpec list"
  pStorages :: "StorageAssetSpec list"
  pPVUncertaintyW :: real
  pPVRelativeUncertainty :: real
  pPVForecastSafetyK :: real
  pDemandCharged :: bool
  pImportMeanW :: real
  pImportHours :: "ImportHour list"

definition noCurtailment :: PlanCurtailment where
  "noCurtailment = \<lparr>pcDriver = [], pcProof = [], pcMinW = 0, pcMaxW = 0\<rparr>"

definition activeLoadpoints :: "Params \<Rightarrow> LoadpointSpec list" where
  "activeLoadpoints p =
     (let out = filter (\<lambda>lp. lpActive (Some lp)) (pLoadpoints p)
      in if out \<noteq> [] then out
         else case pLoadpoint p of None \<Rightarrow> [] | Some lp \<Rightarrow> if lpActive (Some lp) then [lp] else [])"

record Action =
  aExecutionStartMs :: int
  aSlotStartMs :: int
  aSlotLenMin :: int
  aPriceOre :: real
  aSpotOre :: real
  aPVW :: real
  aLoadW :: real
  aBatteryW :: real
  aGridW :: real
  aSoC :: real
  aCostOre :: real
  aReason :: string
  aPVLimitW :: real
  aPVCurtailActive :: bool
  aLoadpointW :: real
  aLoadpointSoC :: real
  aLoadpointPowerW :: "(string, real) gomap"
  aLoadpointMaxPowerW :: "(string, real) gomap"
  aLoadpointSoCByID :: "(string, real) gomap"
  aStoragePowerW :: "(string, real) gomap"
  aStorageEnergyWh :: "(string, real) gomap"

record SolverInfo =
  siEngine :: string
  siBackend :: string
  siStatus :: string
  siFormulation :: string
  siSoCLevels :: int
  siActionLevels :: int
  siPolicyVersion :: string
  siFallback :: bool
  siFallbackReason :: string

record Plan =
  plGeneratedAtMs :: int
  plMode :: MpcMode
  plHorizonSlots :: nat
  plCapacityWh :: real
  plInitialSoC :: real
  plTotalCostOre :: real
  plActions :: "Action list"
  plSolver :: "SolverInfo option"
  plLoadpointShortfallWh :: "(string, real) gomap"

definition emptyPlan :: Plan where
  "emptyPlan = \<lparr>plGeneratedAtMs = 0, plMode = [], plHorizonSlots = 0, plCapacityWh = 0,
     plInitialSoC = 0, plTotalCostOre = 0, plActions = [], plSolver = None,
     plLoadpointShortfallWh = []\<rparr>"

definition terminalCorrectedOre :: "real \<Rightarrow> real \<Rightarrow> Params \<Rightarrow> real" where
  "terminalCorrectedOre rawCostOre endSoC p =
     rawCostOre - pTerminalSoCPrice p * (endSoC * pCapacityWh p) / 1000"

definition planEndSoC :: "Plan option \<Rightarrow> real" where
  "planEndSoC plan = (case plan of None \<Rightarrow> 0
     | Some pl \<Rightarrow> if plActions pl = [] then 0 else aSoC (last (plActions pl)))"

definition exportPricingFromParams :: "Params \<Rightarrow> ExportPricing" where
  "exportPricingFromParams p =
     \<lparr>epBonusOreKwh = pExportBonusOreKwh p, epFeeOreKwh = pExportFeeOreKwh p,
      epFlatOreKwh = pExportOrePerKWh p, epFloorOreKwh = pExportFloorOreKwh p\<rparr>"

definition SlotGridCostOre :: "Slot \<Rightarrow> real \<Rightarrow> Params \<Rightarrow> real" where
  "SlotGridCostOre slot gridKWh p =
     GridCostOre (sPriceOre slot) (sSpotOre slot) gridKWh (exportPricingFromParams p)"

definition SlotExportPriceOre :: "Slot \<Rightarrow> Params \<Rightarrow> real" where
  "SlotExportPriceOre slot p = ExportPriceOre (sSpotOre slot) (exportPricingFromParams p)"

definition allowsImport :: "Slot \<Rightarrow> real \<Rightarrow> bool" where
  "allowsImport slot gridW =
     (if gridW \<le> 0 \<or> sMaxImportW slot \<le> 0 then True else gridW \<le> sMaxImportW slot)"

definition allowsExport :: "Slot \<Rightarrow> real \<Rightarrow> bool" where
  "allowsExport slot gridW =
     (if gridW \<ge> 0 \<or> sMaxExportW slot \<le> 0 then True else - gridW \<le> sMaxExportW slot)"

definition clampSlotGridLimits :: "real \<Rightarrow> real \<Rightarrow> Slot list \<Rightarrow> Slot list" where
  "clampSlotGridLimits fuseMaxW maxExportW slots =
     (if fuseMaxW \<le> 0 then slots
      else let exportCap = (if maxExportW > 0 \<and> maxExportW < fuseMaxW then maxExportW else fuseMaxW)
           in map (\<lambda>s. s\<lparr>sMaxImportW := (if sMaxImportW s \<le> 0 \<or> sMaxImportW s > fuseMaxW
                                        then fuseMaxW else sMaxImportW s),
                         sMaxExportW := (if sMaxExportW s \<le> 0 \<or> sMaxExportW s > exportCap
                                        then exportCap else sMaxExportW s)\<rparr>) slots)"

definition phaseImbalanceWindow :: duration where "phaseImbalanceWindow = hour"

definition limitNearImportForPhases :: "time \<Rightarrow> real \<Rightarrow> real \<Rightarrow> Slot list \<Rightarrow> Slot list" where
  "limitNearImportForPhases now fuseMaxW imbalanceW slots =
     (if fuseMaxW \<le> 0 \<or> imbalanceW \<le> 0 then slots
      else map (\<lambda>s. if sStartMs s \<ge> unixMilli (now + phaseImbalanceWindow) then s
                    else let cap = max (fuseMaxW - imbalanceW) (sLoadW s + sPVW s)
                         in if cap \<le> 0 then s
                            else if sMaxImportW s \<le> 0 \<or> cap < sMaxImportW s
                            then s\<lparr>sMaxImportW := cap\<rparr> else s) slots)"

definition sanitizeOptimizeSlots :: "f64 slotOf list \<Rightarrow> Slot list" where
  "sanitizeOptimizeSlots slots =
     map (\<lambda>s. saneSlot (s\<lparr>sLenMin := (if sLenMin s \<le> 0 then 60 else sLenMin s),
                sPVW := (if isFinite (sPVW s) then sPVW s else 0),
                sLoadW := (if \<not> isFinite (sLoadW s) \<or> sLoadW s < 0 then 0 else sLoadW s),
                sMaxImportW := (if isFinite (sMaxImportW s) then sMaxImportW s else 0),
                sMaxExportW := (if isFinite (sMaxExportW s) then sMaxExportW s else 0)\<rparr>))
         (filter (\<lambda>s. isFinite (sPriceOre s) \<and> isFinite (sSpotOre s)) slots)"

section \<open>A checked end is the true end\<close>

lemma wrap64_between:
  assumes "a \<le> wrap64 x" "wrap64 x < a + 60000" "x = a"
  shows "wrap64 x = x"
proof -
  obtain k where k: "wrap64 x = x + k * 2 ^ 64" by (rule wrap64_shift)
  with assms have "0 \<le> k * 2 ^ 64" "k * 2 ^ 64 < 60000" by simp_all
  then have "k = 0" by simp
  with k show ?thesis by simp
qed

lemma checkedSlotEndMs_exact:
  assumes "int64 startMs" "checkedSlotEndMs startMs lenMin = Inr endMs"
  shows "endMs = startMs + lenMin * 60000 \<and> 0 < startMs \<and> 0 < lenMin \<and> int64 endMs"
proof -
  define d where "d = wrap64 (lenMin * 60000)"
  define e where "e = wrap64 (startMs + d)"
  have pos: "0 < startMs" "0 < lenMin" and d: "0 < d" "quot d 60000 = lenMin"
    and e: "startMs < e" "endMs = e"
    using assms(2) by (auto simp: checkedSlotEndMs_def Let_def d_def e_def split: if_splits)
  from d have "d div 60000 = lenMin" by (simp add: quot_pos)
  then have "lenMin * 60000 \<le> d" "d < lenMin * 60000 + 60000" by auto
  then have dv: "d = lenMin * 60000"
    using wrap64_between [of "lenMin * 60000" "lenMin * 60000"] by (simp add: d_def)
  obtain k where k: "e = startMs + d + k * 2 ^ 64"
    unfolding e_def by (rule wrap64_shift)
  have "int64 d" "int64 e" by (simp_all add: d_def e_def)
  then have "d < 2 ^ 63" "startMs < 2 ^ 63" "e < 2 ^ 63" "- (2 ^ 63) \<le> e"
    using assms(1) by (auto simp: int64_def)
  with k e(1) d(1) pos(1) have "- (2 ^ 64) < k * 2 ^ 64" "k * 2 ^ 64 < (2::int) ^ 64"
    by simp_all
  then have "k = 0" by simp
  with k e dv pos \<open>int64 e\<close> show ?thesis by simp
qed

lemma DurationHours_exact:
  assumes "int64 (sStartMs s)" "checkedSlotEndMs (sStartMs s) (sLenMin s) = Inr endMs"
    "ExecutionStart s \<le> endMs" "0 \<le> ExecutionStart s"
  shows "DurationHours s = real_of_int (endMs - ExecutionStart s) / 3600000"
proof -
  from checkedSlotEndMs_exact [OF assms(1,2)]
  have e: "endMs = sStartMs s + sLenMin s * 60000" "0 < sStartMs s" "0 < sLenMin s" "int64 endMs"
    by blast+
  then have "int64 (sLenMin s * 60000)" by (simp add: int64_def)
  moreover from e assms(3,4) have "int64 (endMs - ExecutionStart s)" by (auto simp: int64_def)
  ultimately show ?thesis using e by (simp add: DurationHours_def)
qed

text \<open>What a chronology promises: every slot has a positive time left, at most its length, and the
  slots do not overlap.\<close>

fun disjointFrom :: "int \<Rightarrow> 'n slotOf list \<Rightarrow> bool" where
  "disjointFrom previousEndMs [] = True"
| "disjointFrom previousEndMs (s # ss) =
     (previousEndMs \<le> sStartMs s
      \<and> 0 < DurationHours s \<and> DurationHours s \<le> real_of_int (sLenMin s) / 60
      \<and> disjointFrom (sStartMs s + sLenMin s * 60000) ss)"

lemma chronologyFrom_disjoint:
  assumes "chronologyFrom i prev ss = None" "0 \<le> prev" "list_all (\<lambda>s. int64 (sStartMs s)) ss"
  shows "disjointFrom prev ss"
  using assms
proof (induction ss arbitrary: i prev)
  case (Cons s ss)
  then obtain e where e: "checkedSlotEndMs (sStartMs s) (sLenMin s) = Inr e"
    and v: "validateExecutionStart i (sStartMs s) e (sExecutionStartMs s) = None"
    and b: "\<not> (prev > 0 \<and> sStartMs s < prev)" and r: "chronologyFrom (Suc i) e ss = None"
    by (auto split: sum.splits option.splits if_splits)
  have x: "e = sStartMs s + sLenMin s * 60000" "0 < sStartMs s" "0 < sLenMin s"
    using checkedSlotEndMs_exact [OF _ e] Cons.prems(3) by auto
  from v x have es: "sStartMs s \<le> ExecutionStart s" "ExecutionStart s < e"
    by (auto simp: validateExecutionStart_def ExecutionStart_def split: if_splits)
  have d: "DurationHours s = real_of_int (e - ExecutionStart s) / 3600000"
    using Cons.prems(3) e es x by (intro DurationHours_exact) auto
  from es x have "0 < e - ExecutionStart s" "e - ExecutionStart s \<le> sLenMin s * 60000" by simp_all
  then have "0 < real_of_int (e - ExecutionStart s)"
    "real_of_int (e - ExecutionStart s) \<le> real_of_int (sLenMin s) * 60000"
    by (simp, metis of_int_le_iff of_int_mult of_int_numeral)
  with d have "0 < DurationHours s" "DurationHours s \<le> real_of_int (sLenMin s) / 60" by simp_all
  moreover have "disjointFrom e ss" using Cons.IH [OF r] Cons.prems(3) x by simp
  ultimately show ?case using b x(1,2) Cons.prems(2) by auto
qed simp

section \<open>Charger steps\<close>

lemma bubbleIn_set [simp]: "set (bubbleIn x ys) = insert x (set ys)"
  by (induction ys) auto

lemma bubbleIn_distinct: "distinct ys \<Longrightarrow> x \<notin> set ys \<Longrightarrow> distinct (bubbleIn x ys)"
  by (induction ys) auto

lemma bubbleIn_sorted: "sorted_wrt (\<ge>) ys \<Longrightarrow> sorted_wrt (\<ge>) (bubbleIn x ys)"
  by (induction ys) (auto intro: order_trans)

lemma fold_bubbleIn:
  "set (fold bubbleIn xs acc) = set xs \<union> set acc \<and>
   (sorted_wrt (\<ge>) acc \<longrightarrow> sorted_wrt (\<ge>) (fold bubbleIn xs acc)) \<and>
   (distinct (xs @ acc) \<longrightarrow> distinct (fold bubbleIn xs acc))"
  by (induction xs arbitrary: acc) (auto simp: bubbleIn_distinct bubbleIn_sorted)

lemma sortSteps_props:
  "set (sortSteps xs) = set xs" "sorted (sortSteps xs)" "distinct xs \<Longrightarrow> distinct (sortSteps xs)"
  using fold_bubbleIn [of xs "[]"] by (auto simp: sortSteps_def sorted_wrt_rev)

definition stepOk :: "LoadpointSpec \<Rightarrow> real \<Rightarrow> bool" where
  "stepOk lp s \<longleftrightarrow> s = 0 \<or> (0 < s \<and> lMinChargeW lp \<le> s \<and> (0 < lMaxChargeW lp \<longrightarrow> s \<le> lMaxChargeW lp))"

lemma fold_keepStep:
  assumes "distinct out" "list_all (stepOk lp) out" "0 \<in> set out"
  shows "distinct (fold (keepStep lp) xs out) \<and> list_all (stepOk lp) (fold (keepStep lp) xs out)
     \<and> 0 \<in> set (fold (keepStep lp) xs out)"
  using assms
proof (induction xs arbitrary: out)
  case (Cons s xs)
  have "distinct (keepStep lp s out) \<and> list_all (stepOk lp) (keepStep lp s out)
     \<and> 0 \<in> set (keepStep lp s out)"
    using Cons.prems
    by (auto simp: keepStep_def list_all_iff) (auto simp: stepOk_def)
  then show ?case using Cons.IH by simp
qed simp

lemma normalizedSteps_props:
  assumes "lMinChargeW lp \<le> lMaxChargeW lp \<or> lAllowedStepsW lp \<noteq> []"
  shows "sorted (normalizedSteps lp) \<and> distinct (normalizedSteps lp)
    \<and> list_all (stepOk lp) (normalizedSteps lp) \<and> 0 \<in> set (normalizedSteps lp)"
proof (cases "lAllowedStepsW lp = []")
  case True
  then show ?thesis using assms by (auto simp: normalizedSteps_def stepOk_def)
next
  case False
  define ys where "ys = fold (keepStep lp) (lAllowedStepsW lp) [0]"
  have "distinct ys" "list_all (stepOk lp) ys" "0 \<in> set ys"
    using fold_keepStep [of "[0]" lp "lAllowedStepsW lp"] by (auto simp: ys_def stepOk_def)
  then show ?thesis
    using False sortSteps_props [of ys] by (simp add: normalizedSteps_def ys_def list_all_iff)
qed

lemma normalizedSteps_nonneg: "s \<in> set (normalizedSteps lp) \<Longrightarrow> 0 \<le> s"
proof -
  have "list_all (stepOk lp) (fold (keepStep lp) (lAllowedStepsW lp) [0])"
    using fold_keepStep [of "[0]" lp "lAllowedStepsW lp"] by (auto simp: stepOk_def)
  then show "s \<in> set (normalizedSteps lp) \<Longrightarrow> 0 \<le> s"
    by (auto simp: normalizedSteps_def sortSteps_props list_all_iff stepOk_def split: if_splits)
qed

lemma normalizedSteps_zero: "0 \<in> set (normalizedSteps lp)"
proof -
  have "0 \<in> set (fold (keepStep lp) (lAllowedStepsW lp) [0])"
    using fold_keepStep [of "[0]" lp "lAllowedStepsW lp"] by (auto simp: stepOk_def)
  then show ?thesis by (simp add: normalizedSteps_def sortSteps_props)
qed

lemma normalizedSteps_nonempty [simp]: "normalizedSteps lp \<noteq> []"
  using normalizedSteps_zero [of lp] by auto

lemma normalizedSteps_sorted: "sorted (normalizedSteps lp)"
  by (simp add: normalizedSteps_def sortSteps_props)

lemma normalizedSteps_first: "normalizedSteps lp ! 0 = 0"
proof -
  have "normalizedSteps lp ! 0 \<le> 0"
  proof -
    obtain j where "j < length (normalizedSteps lp)" "normalizedSteps lp ! j = 0"
      using normalizedSteps_zero by (metis in_set_conv_nth)
    then show ?thesis
      using sorted_nth_mono [OF normalizedSteps_sorted, of 0 j lp] by simp
  qed
  moreover have "0 \<le> normalizedSteps lp ! 0"
    by (intro normalizedSteps_nonneg [of _ lp]) simp
  ultimately show ?thesis by simp
qed

end
