(* ===== verification/Mpc_Import_Hours.thy ===== *)
theory Mpc_Import_Hours
  imports Mpc_Types
begin

text \<open>
  The owner's ceiling on each clock hour's mean import, as the planner holds it
  (\<open>import_hours.go\<close>): the hours a plan spans, what each has left, and the cap every slot gets so
  that an hour planned within the caps stays within what it has left.
\<close>

record ImportCeiling =
  icW :: f64
  icMeanW :: f64
  icHourStart :: time
  icElapsedWh :: f64

definition hourMs :: int where "hourMs = 3600000"

function importHoursFrom :: "int \<Rightarrow> int \<Rightarrow> int \<Rightarrow> real \<Rightarrow> int \<Rightarrow> ImportHour list" where
  "importHoursFrom startMs endMs fromMs elapsedWh firstMs =
     (if startMs < endMs then
        (let rest = importHoursFrom (startMs + hourMs) endMs fromMs elapsedWh firstMs
         in if startMs + hourMs \<le> fromMs then rest
            else \<lparr>ihStartMs = startMs, ihEndMs = startMs + hourMs,
                  ihElapsedImportWh = (if startMs = firstMs then elapsedWh else 0)\<rparr> # rest)
      else [])"
  by pat_completeness auto
termination
  by (relation "measure (\<lambda>(startMs, endMs, _). nat (endMs - startMs))") (auto simp: hourMs_def)

declare importHoursFrom.simps [simp del]

definition importHours :: "'n slotOf list \<Rightarrow> ImportCeiling \<Rightarrow> ImportHour list" where
  "importHours slots c =
     (if \<not> icW c > 0 \<or> \<not> isFinite (icMeanW c) \<or> icMeanW c < 0 \<or> \<not> isFinite (icElapsedWh c)
         \<or> isZero (icHourStart c) \<or> slots = [] then []
      else case slotEndMs (last slots) of
             None \<Rightarrow> []
           | Some endMs \<Rightarrow>
               importHoursFrom (unixMilli (icHourStart c)) endMs (ExecutionStart (hd slots))
                 (fval (icElapsedWh c)) (unixMilli (icHourStart c)))"

definition importLeftWh :: "ImportHour \<Rightarrow> real \<Rightarrow> real" where
  "importLeftWh h meanW =
     meanW * real_of_int (ihEndMs h - ihStartMs h) / real_of_int hourMs - ihElapsedImportWh h"

definition importHourOverlapH :: "'n slotOf \<Rightarrow> ImportHour \<Rightarrow> real" where
  "importHourOverlapH s h =
     (case slotEndMs s of
        None \<Rightarrow> 0
      | Some endMs \<Rightarrow>
          real_of_int (max 0 (min endMs (ihEndMs h) - max (ExecutionStart s) (ihStartMs h)))
            / real_of_int hourMs)"

definition importHourPlannedH :: "'n slotOf list \<Rightarrow> ImportHour \<Rightarrow> real" where
  "importHourPlannedH slots h = sum_list (map (\<lambda>s. importHourOverlapH s h) slots)"

text \<open>The house's own import in the part of the hour the slots plan.\<close>

definition houseImportWh :: "Slot list \<Rightarrow> ImportHour \<Rightarrow> real" where
  "houseImportWh slots h =
     sum_list (map (\<lambda>s. if importHourOverlapH s h > 0
                       then max 0 (sLoadW s + sPVW s) * importHourOverlapH s h else 0) slots)"

definition capSlot :: "ImportHour \<Rightarrow> real \<Rightarrow> real \<Rightarrow> Slot \<Rightarrow> f64 \<Rightarrow> f64" where
  "capSlot h meanW spareW s c =
     (if importHourOverlapH s h > 0 then
        let house = max 0 (sLoadW s + sPVW s)
        in f64_min c (Fin (max house (min (house + max 0 spareW) meanW)))
      else c)"

definition carCapSlot :: "ImportHour \<Rightarrow> real \<Rightarrow> real \<Rightarrow> Slot \<Rightarrow> f64 \<Rightarrow> f64" where
  "carCapSlot h meanW spareW s c =
     (if importHourOverlapH s h > 0 then
        let house = max 0 (sLoadW s + sPVW s)
        in if spareW < 0 then NInf else f64_min c (Fin (min (house + spareW) meanW))
      else c)"

definition capHour :: "Slot list \<Rightarrow> Params \<Rightarrow> ImportHour \<Rightarrow> f64 list \<times> f64 list \<Rightarrow> f64 list \<times> f64 list" where
  "capHour slots p h cs =
     (let spanH = importHourPlannedH slots h
      in if spanH \<le> 0 then cs
         else let leftWh = max 0 (importLeftWh h (pImportMeanW p));
                  meanW = leftWh / spanH;
                  spareW = (leftWh - houseImportWh slots h) / spanH
              in (map2 (capSlot h meanW spareW) slots (fst cs),
                  map2 (carCapSlot h meanW spareW) slots (snd cs)))"

definition importHourCapsW :: "Slot list \<Rightarrow> Params \<Rightarrow> (f64 list \<times> f64 list) option" where
  "importHourCapsW slots p =
     (if pImportHours p = [] then None
      else Some (fold (capHour slots p) (pImportHours p)
                   (replicate (length slots) PInf, replicate (length slots) PInf)))"

definition evAverageRoomW :: "f64 \<Rightarrow> real \<Rightarrow> real \<Rightarrow> real" where
  "evAverageRoomW capW baseW peakW =
     (if capW < 0 then 0
      else let offW = max 0 baseW; onW = max 0 (baseW + peakW)
           in if onW \<le> offW then peakW
              else fval (f64_max 0 (f64_min (Fin peakW)
                           ((capW - Fin offW) * Fin peakW / Fin (onW - offW)))))"

section \<open>Overlaps\<close>

lemma overlap_nonneg [simp]: "0 \<le> importHourOverlapH s h"
  by (auto simp: importHourOverlapH_def hourMs_def split: option.split)

lemma planned_nonneg [simp]: "0 \<le> importHourPlannedH slots h"
  unfolding importHourPlannedH_def by (rule sum_list_nonneg) auto

lemma house_nonneg [simp]: "0 \<le> houseImportWh slots h"
  unfolding houseImportWh_def by (rule sum_list_nonneg) auto

text \<open>The house's import and the planned time as sums without the test for an empty overlap, which
  adds nothing.\<close>

lemma houseImportWh_sum:
  "houseImportWh slots h = sum_list (map (\<lambda>s. max 0 (sLoadW s + sPVW s) * importHourOverlapH s h) slots)"
  unfolding houseImportWh_def
  by (rule arg_cong [where f = sum_list], rule map_cong [OF refl])
    (metis less_eq_real_def mult_zero_right overlap_nonneg)

section \<open>The spread\<close>

lemma f64_min_le: "a \<le> f64_min c (Fin b) \<longleftrightarrow> a \<le> c \<and> a \<le> Fin b" if "c \<noteq> NaN" "a \<noteq> NaN"
  using that by (cases a; cases c) (auto simp: less_eq_f64_def)

lemma f64_min_not_NaN [simp]: "c \<noteq> NaN \<Longrightarrow> f64_min c (Fin b) \<noteq> NaN"
  by (cases c) auto

definition proper :: "f64 list \<Rightarrow> bool" where "proper cs \<longleftrightarrow> list_all (\<lambda>c. c \<noteq> NaN) cs"

lemma proper_nth: "proper cs \<Longrightarrow> i < length cs \<Longrightarrow> cs ! i \<noteq> NaN"
  by (simp add: proper_def list_all_length)

lemma capHour_shape:
  assumes "length (fst cs) = length slots" "length (snd cs) = length slots"
    "proper (fst cs)" "proper (snd cs)"
  shows "length (fst (capHour slots p h cs)) = length slots"
    "length (snd (capHour slots p h cs)) = length slots"
    "proper (fst (capHour slots p h cs))" "proper (snd (capHour slots p h cs))"
  using assms
  by (auto simp: capHour_def Let_def proper_def list_all_length capSlot_def carCapSlot_def)

definition shaped :: "Slot list \<Rightarrow> f64 list \<times> f64 list \<Rightarrow> bool" where
  "shaped slots cs \<longleftrightarrow> length (fst cs) = length slots \<and> length (snd cs) = length slots
     \<and> proper (fst cs) \<and> proper (snd cs)"

lemma capHour_shaped: "shaped slots cs \<Longrightarrow> shaped slots (capHour slots p h cs)"
  using capHour_shape [of cs slots p h] by (simp add: shaped_def)

lemma fold_capHour_shaped: "shaped slots cs \<Longrightarrow> shaped slots (fold (capHour slots p) hs cs)"
  by (induction hs arbitrary: cs) (auto simp: capHour_shaped)

lemma shaped_start: "shaped slots (replicate (length slots) PInf, replicate (length slots) PInf)"
  by (simp add: shaped_def proper_def list_all_length)

text \<open>Under a cap of the list means under the cap of each hour, and the hours only lower it.\<close>

definition hourMeanW :: "Slot list \<Rightarrow> Params \<Rightarrow> ImportHour \<Rightarrow> real" where
  "hourMeanW slots p h = max 0 (importLeftWh h (pImportMeanW p)) / importHourPlannedH slots h"

definition hourSpareW :: "Slot list \<Rightarrow> Params \<Rightarrow> ImportHour \<Rightarrow> real" where
  "hourSpareW slots p h =
     (max 0 (importLeftWh h (pImportMeanW p)) - houseImportWh slots h) / importHourPlannedH slots h"

lemma capHour_alt:
  "capHour slots p h cs =
     (if importHourPlannedH slots h \<le> 0 then cs
      else (map2 (capSlot h (hourMeanW slots p h) (hourSpareW slots p h)) slots (fst cs),
            map2 (carCapSlot h (hourMeanW slots p h) (hourSpareW slots p h)) slots (snd cs)))"
  by (simp add: capHour_def Let_def hourMeanW_def hourSpareW_def)

lemma planned_pos: "i < length slots \<Longrightarrow> 0 < importHourOverlapH (slots ! i) h \<Longrightarrow> 0 < importHourPlannedH slots h"
proof -
  assume i: "i < length slots" "0 < importHourOverlapH (slots ! i) h"
  have "importHourOverlapH (slots ! i) h \<le> sum_list (map (\<lambda>s. importHourOverlapH s h) slots)"
    using i(1) by (intro member_le_sum_list) (auto intro!: nth_mem simp: in_set_conv_nth)
  with i show ?thesis by (simp add: importHourPlannedH_def)
qed

lemma fold_capHour_le:
  assumes "shaped slots cs" "i < length slots" "Fin g \<le> fst (fold (capHour slots p) hs cs) ! i"
  shows "Fin g \<le> fst cs ! i \<and> (\<forall>h\<in>set hs. 0 < importHourOverlapH (slots ! i) h \<longrightarrow>
     Fin g \<le> capSlot h (hourMeanW slots p h) (hourSpareW slots p h) (slots ! i) PInf)"
  using assms
proof (induction hs arbitrary: cs)
  case (Cons h hs)
  from Cons.IH [OF capHour_shaped [OF Cons.prems(1)] Cons.prems(2)] Cons.prems(3)
  have ih: "Fin g \<le> fst (capHour slots p h cs) ! i"
    "\<forall>h\<in>set hs. 0 < importHourOverlapH (slots ! i) h \<longrightarrow>
       Fin g \<le> capSlot h (hourMeanW slots p h) (hourSpareW slots p h) (slots ! i) PInf" by auto
  have len: "length (fst cs) = length slots" and nn: "fst cs ! i \<noteq> NaN"
    using Cons.prems(1,2) by (auto simp: shaped_def proper_nth)
  show ?case
  proof (cases "0 < importHourOverlapH (slots ! i) h")
    case True
    from ih(1) planned_pos [OF Cons.prems(2) True] len Cons.prems(2)
    have "Fin g \<le> capSlot h (hourMeanW slots p h) (hourSpareW slots p h) (slots ! i) (fst cs ! i)"
      by (simp add: capHour_alt)
    with True nn ih(2) show ?thesis
      by (auto simp: capSlot_def Let_def f64_min_le)
  next
    case False
    with ih len Cons.prems(2) show ?thesis
      by (auto simp: capHour_alt capSlot_def split: if_splits)
  qed
qed simp

lemma capSlot_le:
  assumes "0 < importHourOverlapH s h" "Fin g \<le> capSlot h meanW spareW s PInf"
  shows "max 0 g \<le> max 0 (sLoadW s + sPVW s) + max 0 spareW"
proof -
  have "g \<le> max (max 0 (sLoadW s + sPVW s)) (min (max 0 (sLoadW s + sPVW s) + max 0 spareW) meanW)"
    using assms by (simp add: capSlot_def Let_def)
  then show ?thesis by (auto simp: max_def min_def split: if_splits)
qed

text \<open>What a list of grid flows imports in an hour.\<close>

definition flowImportWh :: "Slot list \<Rightarrow> ImportHour \<Rightarrow> real list \<Rightarrow> real" where
  "flowImportWh slots h gs =
     sum_list (map2 (\<lambda>s g. max 0 g * importHourOverlapH s h) slots gs)"

lemma flowImportWh_bound:
  assumes "length gs = length slots"
    and "\<And>i. i < length slots \<Longrightarrow> 0 < importHourOverlapH (slots ! i) h \<Longrightarrow>
           max 0 (gs ! i) \<le> max 0 (sLoadW (slots ! i) + sPVW (slots ! i)) + k"
  shows "flowImportWh slots h gs \<le> houseImportWh slots h + k * importHourPlannedH slots h"
  using assms
proof (induction gs slots rule: list_induct2)
  case (Cons g gs s ss)
  have "max 0 g * importHourOverlapH s h
      \<le> (max 0 (sLoadW s + sPVW s) + k) * importHourOverlapH s h"
  proof (cases "0 < importHourOverlapH s h")
    case True
    then show ?thesis using Cons.prems [of 0] by (intro mult_right_mono) auto
  next
    case False
    then have "importHourOverlapH s h = 0" using overlap_nonneg [of s h] by linarith
    then show ?thesis by simp
  qed
  moreover have "flowImportWh ss h gs \<le> houseImportWh ss h + k * importHourPlannedH ss h"
  proof (rule Cons.IH)
    fix i assume "i < length ss" "0 < importHourOverlapH (ss ! i) h"
    then show "max 0 (gs ! i) \<le> max 0 (sLoadW (ss ! i) + sPVW (ss ! i)) + k"
      using Cons.prems [of "Suc i"] by simp
  qed
  ultimately show ?case
    by (simp add: flowImportWh_def houseImportWh_sum importHourPlannedH_def algebra_simps)
qed (simp add: flowImportWh_def houseImportWh_def importHourPlannedH_def)

lemma caps_bound_flow:
  assumes caps: "importHourCapsW slots p = Some (caps, carCaps)"
    and h: "h \<in> set (pImportHours p)" and len: "length gs = length slots"
    and g: "\<And>i. i < length slots \<Longrightarrow> Fin (gs ! i) \<le> caps ! i"
    and pos: "0 < importHourPlannedH slots h"
  shows "flowImportWh slots h gs
    \<le> max (max 0 (importLeftWh h (pImportMeanW p))) (houseImportWh slots h)"
proof -
  let ?L = "max 0 (importLeftWh h (pImportMeanW p))"
  have c: "caps = fst (fold (capHour slots p) (pImportHours p)
       (replicate (length slots) PInf, replicate (length slots) PInf))"
    using caps by (auto simp: importHourCapsW_def split: if_splits)
  have "max 0 (gs ! i) \<le> max 0 (sLoadW (slots ! i) + sPVW (slots ! i)) + max 0 (hourSpareW slots p h)"
    if i: "i < length slots" "0 < importHourOverlapH (slots ! i) h" for i
    using fold_capHour_le [OF shaped_start i(1), of "gs ! i" p "pImportHours p"] g [OF i(1)] c h i(2)
    by (intro capSlot_le) auto
  from flowImportWh_bound [OF len this]
  have "flowImportWh slots h gs
      \<le> houseImportWh slots h + max 0 (hourSpareW slots p h) * importHourPlannedH slots h" by simp
  also have "\<dots> = max ?L (houseImportWh slots h)"
    using pos by (auto simp: hourSpareW_def max_def field_simps split: if_splits)
  finally show ?thesis .
qed

text \<open>Doing nothing stays feasible: the house's own import is under every cap.\<close>

lemma fold_capHour_house:
  assumes "shaped slots cs" "i < length slots"
    and "Fin (sLoadW (slots ! i) + sPVW (slots ! i)) \<le> fst cs ! i"
  shows "Fin (sLoadW (slots ! i) + sPVW (slots ! i)) \<le> fst (fold (capHour slots p) hs cs) ! i"
  using assms
proof (induction hs arbitrary: cs)
  case (Cons h hs)
  have "Fin (sLoadW (slots ! i) + sPVW (slots ! i)) \<le> fst (capHour slots p h cs) ! i"
    using Cons.prems
    by (auto simp: capHour_alt capSlot_def Let_def f64_min_le shaped_def proper_nth)
  then show ?case using Cons.IH [OF capHour_shaped [OF Cons.prems(1)] Cons.prems(2)] by simp
qed simp

lemma caps_admit_house:
  assumes "importHourCapsW slots p = Some (caps, carCaps)" "i < length slots"
  shows "Fin (sLoadW (slots ! i) + sPVW (slots ! i)) \<le> caps ! i"
  using assms fold_capHour_house [OF shaped_start assms(2), of p "pImportHours p"]
  by (auto simp: importHourCapsW_def less_eq_f64_def split: if_splits)

lemma caps_shape:
  assumes "importHourCapsW slots p = Some (caps, carCaps)"
  shows "length caps = length slots" "length carCaps = length slots" "proper caps" "proper carCaps"
  using assms fold_capHour_shaped [OF shaped_start, of slots p "pImportHours p"]
  by (auto simp: importHourCapsW_def shaped_def split: if_splits)

lemma fold_carCap_spare:
  assumes "shaped slots cs" "i < length slots" "snd cs ! i = NInf \<or> h \<in> set hs"
    and "0 < importHourOverlapH (slots ! i) h" "hourSpareW slots p h < 0"
  shows "snd (fold (capHour slots p) hs cs) ! i = NInf"
  using assms
proof (induction hs arbitrary: cs)
  case (Cons k hs)
  have len: "length (snd cs) = length slots" using Cons.prems(1) by (simp add: shaped_def)
  have "snd (capHour slots p k cs) ! i = NInf \<or> h \<in> set hs"
    using Cons.prems(2-5) planned_pos [OF Cons.prems(2,4)] len
    by (auto simp: capHour_alt carCapSlot_def Let_def)
  with Cons.IH [OF capHour_shaped [OF Cons.prems(1)] Cons.prems(2) _ Cons.prems(4,5)]
  show ?case by simp
qed simp

lemma car_needs_spare:
  assumes caps: "importHourCapsW slots p = Some (caps, carCaps)" and h: "h \<in> set (pImportHours p)"
    and i: "i < length slots" "0 < importHourOverlapH (slots ! i) h" "Fin g \<le> carCaps ! i"
  shows "houseImportWh slots h \<le> max 0 (importLeftWh h (pImportMeanW p))"
proof (rule ccontr)
  assume "\<not> ?thesis"
  then have "hourSpareW slots p h < 0"
    unfolding hourSpareW_def using planned_pos [OF i(1,2)] by (intro divide_neg_pos) linarith+
  then have "carCaps ! i = NInf"
    using fold_carCap_spare [OF shaped_start i(1) _ i(2), of "pImportHours p" p] caps h
    by (auto simp: importHourCapsW_def split: if_splits)
  with i(3) show False by (simp add: less_eq_f64_def)
qed

text \<open>C20: Take the caps Core spreads over a plan's slots for the owner's ceiling on each clock hour,
  and any list of grid flows that stays under its slot's cap. Then in every clock hour the plan
  reaches, the flows import no more than the hour has left, or, where the house alone already
  exceeds that, than the house itself; the house's own flow is under every cap, so doing nothing is
  always a plan the caps allow; and as soon as one slot of the hour is under the cap for a charging
  car, the flows of the whole hour stay within what it has left.\<close>

theorem import_caps_keep_every_hour:
  assumes "importHourCapsW slots p = Some (caps, carCaps)"
    and "h \<in> set (pImportHours p)" "0 < importHourPlannedH slots h"
    and "length gs = length slots" "list_all2 (\<lambda>g c. Fin g \<le> c) gs caps"
  shows "flowImportWh slots h gs
      \<le> max (max 0 (importLeftWh h (pImportMeanW p))) (houseImportWh slots h)
    \<and> list_all2 (\<lambda>s c. Fin (sLoadW s + sPVW s) \<le> c) slots caps
    \<and> (\<forall>i < length slots. 0 < importHourOverlapH (slots ! i) h \<and> Fin (gs ! i) \<le> carCaps ! i \<longrightarrow>
         flowImportWh slots h gs \<le> max 0 (importLeftWh h (pImportMeanW p)))"
proof -
  have flow: "flowImportWh slots h gs
      \<le> max (max 0 (importLeftWh h (pImportMeanW p))) (houseImportWh slots h)"
    using assms caps_shape(1) [OF assms(1)]
    by (intro caps_bound_flow [OF assms(1)]) (auto simp: list_all2_conv_all_nth)
  moreover have "list_all2 (\<lambda>s c. Fin (sLoadW s + sPVW s) \<le> c) slots caps"
    using caps_shape(1) [OF assms(1)] caps_admit_house [OF assms(1)]
    by (simp add: list_all2_conv_all_nth)
  moreover have "flowImportWh slots h gs \<le> max 0 (importLeftWh h (pImportMeanW p))"
    if "i < length slots" "0 < importHourOverlapH (slots ! i) h" "Fin (gs ! i) \<le> carCaps ! i" for i
    using flow car_needs_spare [OF assms(1,2) that] by linarith
  ultimately show ?thesis by blast
qed

text \<open>One hour that had used 500 of its 2000 Wh, with a house of 1 kW.\<close>

definition exampleHour :: ImportHour where
  "exampleHour = \<lparr>ihStartMs = 3600000, ihEndMs = 7200000, ihElapsedImportWh = 500\<rparr>"

definition exampleHourSlots :: "Slot list" where
  "exampleHourSlots = [\<lparr>sExecutionStartMs = 0, sStartMs = 3600000, sLenMin = 60, sPriceOre = 100,
     sSpotOre = 50, sPVW = 0, sLoadW = 1000, sMaxImportW = 0, sMaxExportW = 0\<rparr>]"

definition exampleHourParams :: Params where
  "exampleHourParams = \<lparr>pPVCurtailment = noCurtailment, pMode = MpcModeArbitrage, pSoCLevels = 3, pCapacityWh = 1000, pSoCMin = 0,
     pSoCMax = 1, pInitialSoC = 0, pInitialSoCUnclamped = 0, pPVChargeBonusOreKwh = 0,
     pActionLevels = 3, pMaxChargeW = 500, pMaxDischargeW = 500, pChargeEfficiency = 1,
     pDischargeEfficiency = 1, pTerminalSoCPrice = 0, pExportOrePerKWh = 0, pExportBonusOreKwh = 0,
     pExportFeeOreKwh = 0, pExportFloorOreKwh = None, pMinArbitrageSpreadOreKwh = 0,
     pLoadpoint = None, pLoadpoints = [], pStorages = [],
     pPVUncertaintyW = 0, pPVRelativeUncertainty = 0, pPVForecastSafetyK = 0, pDemandCharged = False,
     pImportMeanW = 2000, pImportHours = [exampleHour]\<rparr>"

theorem import_caps_keep_every_hour_witness:
  "importHourCapsW exampleHourSlots exampleHourParams = Some ([Fin 1500], [Fin 1500])
   \<and> flowImportWh exampleHourSlots exampleHour [1500] \<le> 1500"
proof -
  have c: "importHourCapsW exampleHourSlots exampleHourParams = Some ([Fin 1500], [Fin 1500])"
    by code_simp
  have h: "exampleHour \<in> set (pImportHours exampleHourParams)" by (simp add: exampleHourParams_def)
  have o: "0 < importHourPlannedH exampleHourSlots exampleHour" by code_simp
  have l: "length [1500 :: real] = length exampleHourSlots" by (simp add: exampleHourSlots_def)
  have "list_all2 (\<lambda>g c. Fin g \<le> c) [1500] [Fin 1500]" by simp
  from import_caps_keep_every_hour [OF c h o l this]
  have "flowImportWh exampleHourSlots exampleHour [1500]
      \<le> max (max 0 (importLeftWh exampleHour (pImportMeanW exampleHourParams)))
          (houseImportWh exampleHourSlots exampleHour)" by blast
  also have "\<dots> = 1500" by code_simp
  finally show ?thesis using c by blast
qed

end
