(* ===== verification/Mpc_Dp.thy ===== *)
theory Mpc_Dp
  imports Mpc_Import_Hours
begin

text \<open>
  Core's own planner, the dynamic programme of \<open>mpc.go\<close> (\<open>OptimizeContext\<close>): the grids of battery and
  car states and of actions, the rules that admit an action in a slot, the cost the planner decides
  with, and the backward induction that fills the value and policy tables.

  The grids, prices and caps that \<open>OptimizeContext\<close> keeps in local variables are the fields of one
  record. The tables hold \<open>float64\<close> values: a state with no admitted action is worth \<open>+Inf\<close>, and the
  interpolation between grid points multiplies by it.
\<close>

section \<open>Grids\<close>

record dpGrid =
  gP :: Params
  gLp :: "LoadpointSpec option"
  gN :: nat
  gS :: nat
  gSocStep :: real
  gActions :: "real list"
  gIdle :: nat
  gEL :: nat
  gEvSteps :: "real list"
  gEvSocStep :: real
  gEvEff :: real
  gDeadline :: int
  gMeanPrice :: real
  gCaps :: "(f64 list \<times> f64 list) option"

definition levelW :: "nat \<Rightarrow> Params \<Rightarrow> nat \<Rightarrow> real" where
  "levelW n p j = - pMaxDischargeW p + real j / real (n - 1) * (pMaxChargeW p + pMaxDischargeW p)"

definition actionGrid :: "nat \<Rightarrow> Params \<Rightarrow> real list" where
  "actionGrid n p =
     (let ws = map (\<lambda>j. if \<bar>levelW n p j\<bar> < 1 / 10 ^ 9 then 0 else levelW n p j) [0..<n]
      in sort (if 0 \<in> set ws then ws else ws @ [0]))"

text \<open>The index of the action closest to idle, the first of equals.\<close>

fun idleFrom :: "nat \<Rightarrow> real list \<Rightarrow> f64 \<Rightarrow> nat \<Rightarrow> nat" where
  "idleFrom i [] idleAbs idx = idx"
| "idleFrom i (w # ws) idleAbs idx =
     (if Fin \<bar>w\<bar> < idleAbs then idleFrom (Suc i) ws (Fin \<bar>w\<bar>) i else idleFrom (Suc i) ws idleAbs idx)"

definition idleActionIdx :: "real list \<Rightarrow> nat" where
  "idleActionIdx ws = idleFrom 0 ws PInf 0"

definition horizonMeanPrice :: "Slot list \<Rightarrow> real" where
  "horizonMeanPrice slots =
     (if slots = [] then 0
      else let sumPrice = sum_list (map (\<lambda>s. sPriceOre s * (DurationHours s * 60)) slots);
               sumLenMin = sum_list (map (\<lambda>s. DurationHours s * 60) slots)
           in if sumLenMin \<le> 0 then sum_list (map sPriceOre slots) / real (length slots)
              else sumPrice / sumLenMin)"

text \<open>The car's bounds are repaired in place when they are empty.\<close>

definition repairBounds :: "LoadpointSpec \<Rightarrow> LoadpointSpec" where
  "repairBounds lp = (if lSoCMax lp \<le> lSoCMin lp then lp\<lparr>lSoCMax := 1, lSoCMin := 0\<rparr> else lp)"

definition withDefaults :: "Params \<Rightarrow> Params" where
  "withDefaults p =
     p\<lparr>pMode := (if pMode p = [] then MpcModeSelfConsumption else pMode p),
       pChargeEfficiency := (if pChargeEfficiency p \<le> 0 then 95 / 100 else pChargeEfficiency p),
       pDischargeEfficiency := (if pDischargeEfficiency p \<le> 0 then 95 / 100 else pDischargeEfficiency p)\<rparr>"

definition socLevels :: "Params \<Rightarrow> nat" where
  "socLevels p = nat (if pSoCLevels p < 3 then 3 else pSoCLevels p)"

definition actionLevels :: "Params \<Rightarrow> nat" where
  "actionLevels p = nat (if pActionLevels p < 3 then 3 else pActionLevels p)"

definition dpGrids :: "Params \<Rightarrow> Slot list \<Rightarrow> dpGrid" where
  "dpGrids p slots =
     (let S = socLevels p;
          acts = actionGrid (actionLevels p) p;
          lp = (if lpActive (pLoadpoint p) then map_option repairBounds (pLoadpoint p) else None)
      in \<lparr>gP = p, gLp = lp, gN = length slots, gS = S,
          gSocStep = (pSoCMax p - pSoCMin p) / real (S - 1),
          gActions = acts, gIdle = idleActionIdx acts,
          gEL = (case lp of None \<Rightarrow> 1 | Some l \<Rightarrow> nat (lLevels l)),
          gEvSteps = (case lp of None \<Rightarrow> [] | Some l \<Rightarrow> normalizedSteps l),
          gEvSocStep = (case lp of None \<Rightarrow> 0
             | Some l \<Rightarrow> (lSoCMax l - lSoCMin l) / real_of_int (lLevels l - 1)),
          gEvEff = (case lp of None \<Rightarrow> 9 / 10
             | Some l \<Rightarrow> if lChargeEfficiency l > 0 then lChargeEfficiency l else 9 / 10),
          gDeadline = (case lp of None \<Rightarrow> - 1 | Some l \<Rightarrow> deadlineSlot l (length slots)),
          gMeanPrice = horizonMeanPrice slots,
          gCaps = importHourCapsW slots p\<rparr>)"

definition gEA :: "dpGrid \<Rightarrow> nat" where
  "gEA g = (case gLp g of None \<Rightarrow> 1 | Some _ \<Rightarrow> length (gEvSteps g))"

definition socAt :: "dpGrid \<Rightarrow> nat \<Rightarrow> real" where
  "socAt g i = pSoCMin (gP g) + real i * gSocStep g"

definition evSocAt :: "dpGrid \<Rightarrow> nat \<Rightarrow> real" where
  "evSocAt g e = (case gLp g of None \<Rightarrow> 0 | Some lp \<Rightarrow> lSoCMin lp + real e * gEvSocStep g)"

definition evActionW :: "dpGrid \<Rightarrow> nat \<Rightarrow> real" where
  "evActionW g ea = (case gLp g of None \<Rightarrow> 0 | Some lp \<Rightarrow> gEvSteps g ! ea)"

section \<open>Which actions a slot admits\<close>

definition modeAllows :: "MpcMode \<Rightarrow> real \<Rightarrow> real \<Rightarrow> real \<Rightarrow> bool" where
  "modeAllows m baselineGridW gridW actW =
     (if m = MpcModeSelfConsumption then
        (if baselineGridW > 1 / 10 ^ 6 then gridW \<ge> - 50 \<and> gridW \<le> baselineGridW + 50
         else if baselineGridW < - (1 / 10 ^ 6) then gridW \<le> 50 \<and> gridW \<ge> baselineGridW - 50
         else \<bar>actW\<bar> < 50)
      else if m = MpcModeCheapCharge \<or> m = MpcModePassiveArbitrage then
        (let minGrid = (if baselineGridW < 0 then baselineGridW else 0) in gridW \<ge> minGrid - 1 / 10)
      else True)"

definition battSocAfter :: "dpGrid \<Rightarrow> Slot \<Rightarrow> real \<Rightarrow> real \<Rightarrow> real" where
  "battSocAfter g slot soc battW =
     soc + BatteryEnergyDeltaWh battW (DurationHours slot) (pChargeEfficiency (gP g))
             (pDischargeEfficiency (gP g)) / pCapacityWh (gP g)"

definition evSocAfter :: "dpGrid \<Rightarrow> Slot \<Rightarrow> real \<Rightarrow> real \<Rightarrow> real" where
  "evSocAfter g slot evSoc evW =
     (case gLp g of
        None \<Rightarrow> 0
      | Some lp \<Rightarrow> evSoc + evW * DurationHours slot * gEvEff g / lCapacityWh lp)"

text \<open>The rules of a car: no overshoot, surplus only, no export from the battery beside a charging
  car, no battery energy into a protected car.\<close>

definition evAdmits :: "LoadpointSpec \<Rightarrow> Slot \<Rightarrow> real \<Rightarrow> real \<Rightarrow> real \<Rightarrow> bool" where
  "evAdmits lp slot battW evW evSocNext =
     (let gridW = GridFlowW (sLoadW slot) (sPVW slot) battW evW
      in \<not> evSocNext > lSoCMax lp + 1 / 10 ^ 9
       \<and> \<not> (lSurplusOnly lp \<and> SurplusOnlyExceedsHousePV evW (sLoadW slot) (sPVW slot))
       \<and> \<not> (evW > 0 \<and> battW < 0 \<and> gridW < - 50)
       \<and> \<not> (blocksBatteryToEV lp \<and> BatteryDischargeFeedsEV battW evW (sLoadW slot) (sPVW slot)))"

definition capsAdmit :: "dpGrid \<Rightarrow> nat \<Rightarrow> real \<Rightarrow> real \<Rightarrow> bool" where
  "capsAdmit g t gridW evW =
     (case gCaps g of
        None \<Rightarrow> True
      | Some (caps, carCaps) \<Rightarrow> \<not> (Fin gridW > caps ! t \<or> (evW > 0 \<and> Fin gridW > carCaps ! t)))"

definition admits :: "dpGrid \<Rightarrow> nat \<Rightarrow> Slot \<Rightarrow> real \<Rightarrow> real \<Rightarrow> real \<Rightarrow> real \<Rightarrow> bool" where
  "admits g t slot soc evSoc battW evW =
     (let p = gP g; socNext = battSocAfter g slot soc battW;
          gridW = GridFlowW (sLoadW slot) (sPVW slot) battW evW
      in \<not> (socNext < pSoCMin p - 1 / 10 ^ 9 \<or> socNext > pSoCMax p + 1 / 10 ^ 9)
       \<and> (case gLp g of None \<Rightarrow> True
          | Some lp \<Rightarrow> evAdmits lp slot battW evW (evSocAfter g slot evSoc evW))
       \<and> modeAllows (pMode p) (GridFlowW (sLoadW slot) (sPVW slot) 0 evW) gridW battW
       \<and> allowsImport slot gridW \<and> allowsExport slot gridW
       \<and> capsAdmit g t gridW evW)"

section \<open>The cost the planner decides with\<close>

definition strictSCBiasOre :: "real \<Rightarrow> real \<Rightarrow> real" where
  "strictSCBiasOre effPriceOre houseImportKWh =
     2 * (if effPriceOre < 0 then 0 else effPriceOre) * houseImportKWh"

definition gridCost :: "dpGrid \<Rightarrow> Slot \<Rightarrow> real \<Rightarrow> real" where
  "gridCost g slot gridW =
     (let gridKWh = gridW * DurationHours slot / 1000
      in if gridKWh > 0 then sPriceOre slot * gridKWh
         else - SlotExportPriceOre slot (gP g) * (- gridKWh))"

definition houseBias :: "dpGrid \<Rightarrow> Slot \<Rightarrow> real \<Rightarrow> real" where
  "houseBias g slot battW =
     (let houseGridW = sLoadW slot + sPVW slot + battW
      in if (pMode (gP g) = MpcModeSelfConsumption \<or> pMode (gP g) = MpcModePassiveArbitrage)
            \<and> houseGridW > 0
         then strictSCBiasOre (sPriceOre slot) (houseGridW * DurationHours slot / 1000) else 0)"

definition pvBonus :: "dpGrid \<Rightarrow> Slot \<Rightarrow> real \<Rightarrow> real" where
  "pvBonus g slot battW =
     (let pvSurplusW = - sPVW slot - sLoadW slot
      in if pPVChargeBonusOreKwh (gP g) > 0 \<and> battW > 0 \<and> pvSurplusW > 0
         then pPVChargeBonusOreKwh (gP g)
                * ((if battW > pvSurplusW then pvSurplusW else battW) * DurationHours slot / 1000)
         else 0)"

definition spreadCost :: "dpGrid \<Rightarrow> Slot \<Rightarrow> real \<Rightarrow> real" where
  "spreadCost g slot battW =
     (if pMinArbitrageSpreadOreKwh (gP g) > 0 \<and> battW < 0
         \<and> (pMode (gP g) = MpcModeArbitrage \<or> pMode (gP g) = MpcModePassiveArbitrage)
      then pMinArbitrageSpreadOreKwh (gP g) * (- battW * DurationHours slot / 1000) else 0)"

definition deadlineCost :: "dpGrid \<Rightarrow> nat \<Rightarrow> real \<Rightarrow> real" where
  "deadlineCost g t evSocNext =
     (case gLp g of
        None \<Rightarrow> 0
      | Some lp \<Rightarrow>
          if gDeadline g = int t \<and> lTargetSoC lp - evSocNext > 0
          then lCapacityWh lp * (lTargetSoC lp - evSocNext) / 1000 * gMeanPrice g * 4 else 0)"

definition stageCost :: "dpGrid \<Rightarrow> nat \<Rightarrow> Slot \<Rightarrow> real \<Rightarrow> real \<Rightarrow> real \<Rightarrow> real" where
  "stageCost g t slot evSoc battW evW =
     gridCost g slot (GridFlowW (sLoadW slot) (sPVW slot) battW evW)
     + houseBias g slot battW - pvBonus g slot battW + spreadCost g slot battW
     + deadlineCost g t (evSocAfter g slot evSoc evW)"

section \<open>Interpolation\<close>

definition interpIdx :: "nat \<Rightarrow> real \<Rightarrow> nat \<times> nat \<times> real" where
  "interpIdx n f =
     (let lo = \<lfloor>f\<rfloor>; hi = lo + 1;
          (lo, hi) = (if lo < 0 then (0, 0) else (lo, hi));
          (lo, hi) = (if hi \<ge> int n then (int n - 1, int n - 1) else (lo, hi))
      in (nat lo, nat hi, f - real_of_int lo))"

definition battIdx :: "dpGrid \<Rightarrow> real \<Rightarrow> nat \<times> nat \<times> real" where
  "battIdx g soc = interpIdx (gS g) ((soc - pSoCMin (gP g)) / gSocStep g)"

definition evIdx :: "dpGrid \<Rightarrow> real \<Rightarrow> nat \<times> nat \<times> real" where
  "evIdx g evSoc =
     (case gLp g of
        None \<Rightarrow> (0, 0, 0)
      | Some lp \<Rightarrow> interpIdx (gEL g) ((evSoc - lSoCMin lp) / gEvSocStep g))"

type_synonym valueTable = "f64 list list"

definition vNext :: "dpGrid \<Rightarrow> valueTable \<Rightarrow> real \<Rightarrow> real \<Rightarrow> f64" where
  "vNext g V soc evSoc =
     (let (lo, hi, w) = battIdx g soc; (eLo, eHi, x) = evIdx g evSoc
      in Fin ((1 - w) * (1 - x)) * (V ! lo ! eLo) + Fin ((1 - w) * x) * (V ! lo ! eHi)
         + Fin (w * (1 - x)) * (V ! hi ! eLo) + Fin (w * x) * (V ! hi ! eHi))"

section \<open>Backward induction\<close>

definition actionValue :: "dpGrid \<Rightarrow> nat \<Rightarrow> Slot \<Rightarrow> valueTable \<Rightarrow> real \<Rightarrow> real \<Rightarrow> real \<Rightarrow> real \<Rightarrow> f64" where
  "actionValue g t slot V soc evSoc battW evW =
     Fin (stageCost g t slot evSoc battW evW)
       + vNext g V (battSocAfter g slot soc battW) (evSocAfter g slot evSoc evW)"

definition tryAction :: "dpGrid \<Rightarrow> nat \<Rightarrow> Slot \<Rightarrow> valueTable \<Rightarrow> real \<Rightarrow> real \<Rightarrow> nat \<times> nat \<Rightarrow> f64 \<times> nat \<Rightarrow> f64 \<times> nat" where
  "tryAction g t slot V soc evSoc ax best =
     (let battW = gActions g ! fst ax; evW = evActionW g (snd ax)
      in if admits g t slot soc evSoc battW evW
            \<and> actionValue g t slot V soc evSoc battW evW < fst best
         then (actionValue g t slot V soc evSoc battW evW, fst ax * gEA g + snd ax)
         else best)"

definition gridActions :: "dpGrid \<Rightarrow> (nat \<times> nat) list" where
  "gridActions g = List.product [0..<length (gActions g)] [0..<gEA g]"

definition bestAction :: "dpGrid \<Rightarrow> nat \<Rightarrow> Slot \<Rightarrow> valueTable \<Rightarrow> nat \<Rightarrow> nat \<Rightarrow> f64 \<times> nat" where
  "bestAction g t slot V si ei =
     (let best = fold (tryAction g t slot V (socAt g si) (evSocAt g ei)) (gridActions g) (PInf, 0)
      in if fst best = PInf then (PInf, gIdle g * gEA g) else best)"

definition slotTable :: "dpGrid \<Rightarrow> nat \<Rightarrow> Slot \<Rightarrow> valueTable \<Rightarrow> (f64 \<times> nat) list list" where
  "slotTable g t slot V = map (\<lambda>si. map (\<lambda>ei. bestAction g t slot V si ei) [0..<gEL g]) [0..<gS g]"

definition terminalValues :: "dpGrid \<Rightarrow> valueTable" where
  "terminalValues g =
     map (\<lambda>si. replicate (gEL g) (Fin (- pTerminalSoCPrice (gP g) * (pCapacityWh (gP g) * socAt g si / 1000))))
       [0..<gS g]"

type_synonym policy = "nat list list"

text \<open>The values from slot \<open>t\<close> on and the policies of slots \<open>t\<close> to the last. The context is asked
  before each slot, from the last one down; its errors are a function of the slot.\<close>

fun backward :: "dpGrid \<Rightarrow> (nat \<Rightarrow> string option) \<Rightarrow> nat \<Rightarrow> Slot list \<Rightarrow> string + valueTable \<times> policy list" where
  "backward g ctxErr t [] = Inr (terminalValues g, [])"
| "backward g ctxErr t (slot # slots) =
     (case backward g ctxErr (Suc t) slots of
        Inl e \<Rightarrow> Inl e
      | Inr (V, pols) \<Rightarrow>
          (case ctxErr t of
             Some e \<Rightarrow> Inl e
           | None \<Rightarrow>
               let tab = slotTable g t slot V
               in Inr (map (map fst) tab, map (map snd) tab # pols)))"

end
