(* ===== verification/Mpc_Optimal.thy ===== *)
theory Mpc_Optimal
  imports Mpc_Dp
begin

text \<open>
  The tables of the dynamic programme against a reference: the value of an arbitrary policy on the
  grid, computed slot by slot from the same admission rules, costs and interpolation. The value table
  is a lower bound of every policy's value, and the policy table attains it.
\<close>

section \<open>Proper values\<close>

text \<open>A table entry is a cost or \<open>+Inf\<close>.\<close>

fun properV :: "f64 \<Rightarrow> bool" where
  "properV (Fin _) = True"
| "properV PInf = True"
| "properV _ = False"

lemma properV_cases: "properV v \<longleftrightarrow> (\<exists>r. v = Fin r) \<or> v = PInf"
  by (cases v) auto

lemma f64_mul_PInf [simp]: "Fin w * PInf = f64_inf w"
  by (simp add: times_f64_def)

lemma f64_inf_not_Fin [simp]: "f64_inf w \<noteq> Fin r"
  by (simp add: f64_inf_def)

lemma f64_add_Fin: "a + b = Fin r \<longleftrightarrow> (\<exists>x y. a = Fin x \<and> b = Fin y \<and> r = x + y)"
  by (cases a; cases b) (auto simp: plus_f64_def)

lemma f64_add_NInf: "a + b = NInf \<Longrightarrow> a = NInf \<or> b = NInf"
  by (cases a; cases b) (auto simp: plus_f64_def)

lemma f64_NInf_add: "NInf + b = NInf \<longleftrightarrow> isFinite b \<or> b = NInf" "b + NInf = NInf \<longleftrightarrow> isFinite b \<or> b = NInf"
  by (cases b; simp add: plus_f64_def)+

text \<open>A weighted sum is a number only when every value in it is one, whatever the weights: even a
  zero weight makes an infinite value a NaN.\<close>

lemma weighted_Fin:
  assumes "properV v" "Fin w * v = Fin r"
  shows "\<exists>x. v = Fin x \<and> r = w * x"
  using assms by (cases v) auto

lemma weighted_NInf: "properV v \<Longrightarrow> Fin w * v = NInf \<longleftrightarrow> v = PInf \<and> w < 0"
  by (cases v) (auto simp: f64_inf_def)

lemma f64_sum_NInf:
  assumes "a + b = NInf"
  shows "(a = NInf \<and> (b = NInf \<or> isFinite b)) \<or> (b = NInf \<and> isFinite a)"
  using assms by (cases a; cases b) (auto simp: plus_f64_def)

lemma weighted_sum_NInf:
  assumes "properV a" "properV b" "properV c" "properV d"
    and "Fin wa * a + Fin wb * b + Fin wc * c + Fin wd * d = NInf"
  shows "(a = PInf \<longrightarrow> wa < 0) \<and> (b = PInf \<longrightarrow> wb < 0) \<and> (c = PInf \<longrightarrow> wc < 0) \<and> (d = PInf \<longrightarrow> wd < 0)
     \<and> (a = PInf \<or> b = PInf \<or> c = PInf \<or> d = PInf)"
proof -
  have one: "v = PInf \<longrightarrow> w < 0" if "properV v" "Fin w * v = NInf \<or> isFinite (Fin w * v)" for v w
    using that by (cases v) (auto simp: f64_inf_def split: if_splits)
  have fin: "isFinite x \<and> isFinite y" if "isFinite (x + y)" for x y
    using that by (cases x; cases y) (auto simp: plus_f64_def)
  let ?s = "Fin wa * a + Fin wb * b" and ?u = "Fin wa * a + Fin wb * b + Fin wc * c"
  have u: "?u = NInf \<or> isFinite ?u" "Fin wd * d = NInf \<or> isFinite (Fin wd * d)"
    using f64_sum_NInf [OF assms(5)] by auto
  then have s: "?s = NInf \<or> isFinite ?s" "Fin wc * c = NInf \<or> isFinite (Fin wc * c)"
    using f64_sum_NInf [of ?s "Fin wc * c"] fin [of ?s "Fin wc * c"] by auto
  then have "Fin wa * a = NInf \<or> isFinite (Fin wa * a)" "Fin wb * b = NInf \<or> isFinite (Fin wb * b)"
    using f64_sum_NInf [of "Fin wa * a" "Fin wb * b"] fin [of "Fin wa * a" "Fin wb * b"] by auto
  moreover have "a = PInf \<or> b = PInf \<or> c = PInf \<or> d = PInf"
  proof (rule ccontr)
    assume "\<not> ?thesis"
    then obtain ra rb rc rd where "a = Fin ra" "b = Fin rb" "c = Fin rc" "d = Fin rd"
      using assms(1-4) by (auto simp: properV_cases)
    with assms(5) show False by simp
  qed
  ultimately show ?thesis using s u one assms(1-4) by blast
qed

section \<open>Interpolation indices\<close>

lemma interpIdx_bounds:
  assumes "interpIdx n f = (lo, hi, w)" "0 < n"
  shows "lo < n" "hi < n" "lo = hi \<or> (0 \<le> w \<and> w < 1)"
proof -
  have r: "0 \<le> f - real_of_int \<lfloor>f\<rfloor>" "f - real_of_int \<lfloor>f\<rfloor> < 1" by linarith+
  show "lo < n" "hi < n" using assms by (auto simp: interpIdx_def Let_def split: if_splits)
  show "lo = hi \<or> (0 \<le> w \<and> w < 1)"
    using assms r by (auto simp: interpIdx_def Let_def split: if_splits)
qed

definition wellSized :: "dpGrid \<Rightarrow> valueTable \<Rightarrow> bool" where
  "wellSized g V \<longleftrightarrow> length V = gS g \<and> (\<forall>row\<in>set V. length row = gEL g)"

definition properTable :: "dpGrid \<Rightarrow> valueTable \<Rightarrow> bool" where
  "properTable g V \<longleftrightarrow> wellSized g V \<and> (\<forall>row\<in>set V. \<forall>v\<in>set row. properV v)"

definition gridSane :: "dpGrid \<Rightarrow> bool" where
  "gridSane g \<longleftrightarrow> 0 < gS g \<and> 0 < gEL g \<and> 0 < gEA g \<and> gActions g \<noteq> []
     \<and> (gLp g = None \<longrightarrow> gEL g = 1) \<and> gIdle g < length (gActions g)"

lemma properTable_nth:
  "properTable g V \<Longrightarrow> si < gS g \<Longrightarrow> ei < gEL g \<Longrightarrow> properV (V ! si ! ei)"
  unfolding properTable_def wellSized_def by (metis nth_mem)

lemma battIdx_bounds:
  assumes "gridSane g" "battIdx g soc = (lo, hi, w)"
  shows "lo < gS g" "hi < gS g" "lo = hi \<or> (0 \<le> w \<and> w < 1)"
  using assms interpIdx_bounds [of "gS g"] by (auto simp: battIdx_def gridSane_def)

lemma evIdx_bounds:
  assumes "gridSane g" "evIdx g evSoc = (lo, hi, x)"
  shows "lo < gEL g" "hi < gEL g" "lo = hi \<or> (0 \<le> x \<and> x < 1)"
  using assms interpIdx_bounds [of "gEL g"]
  by (auto simp: evIdx_def gridSane_def split: option.splits)

text \<open>The four corners of an interpolation.\<close>

lemma vNext_proper:
  assumes "gridSane g" "properTable g V"
  shows "vNext g V soc evSoc \<noteq> NInf"
proof
  assume neg: "vNext g V soc evSoc = NInf"
  obtain lo hi w where b: "battIdx g soc = (lo, hi, w)" by (cases "battIdx g soc") auto
  obtain eLo eHi x where e: "evIdx g evSoc = (eLo, eHi, x)" by (cases "evIdx g evSoc") auto
  note bb = battIdx_bounds [OF assms(1) b] and eb = evIdx_bounds [OF assms(1) e]
  let ?a = "V ! lo ! eLo" and ?b = "V ! lo ! eHi" and ?c = "V ! hi ! eLo" and ?d = "V ! hi ! eHi"
  have pr: "properV ?a" "properV ?b" "properV ?c" "properV ?d"
    using assms(2) bb eb by (auto intro: properTable_nth)
  from neg have "Fin ((1 - w) * (1 - x)) * ?a + Fin ((1 - w) * x) * ?b + Fin (w * (1 - x)) * ?c
      + Fin (w * x) * ?d = NInf" by (simp add: vNext_def b e)
  from weighted_sum_NInf [OF pr this]
  have s: "(?a = PInf \<longrightarrow> (1 - w) * (1 - x) < 0) \<and> (?b = PInf \<longrightarrow> (1 - w) * x < 0)
      \<and> (?c = PInf \<longrightarrow> w * (1 - x) < 0) \<and> (?d = PInf \<longrightarrow> w * x < 0)
      \<and> (?a = PInf \<or> ?b = PInf \<or> ?c = PInf \<or> ?d = PInf)" .
  consider "0 \<le> w" "w < 1" "0 \<le> x" "x < 1" | "lo = hi" "0 \<le> x" "x < 1"
    | "eLo = eHi" "0 \<le> w" "w < 1" | "lo = hi" "eLo = eHi"
    using bb(3) eb(3) by blast
  then show False
  proof cases
    case 1
    then have "0 \<le> (1 - w) * (1 - x)" "0 \<le> (1 - w) * x" "0 \<le> w * (1 - x)" "0 \<le> w * x" by simp_all
    with s show False by linarith
  next
    case 2
    have "(1 - w) * (1 - x) + w * (1 - x) = 1 - x" "(1 - w) * x + w * x = x"
      by (simp_all add: algebra_simps)
    with s 2 show False by fastforce
  next
    case 3
    have "(1 - w) * (1 - x) + (1 - w) * x = 1 - w" "w * (1 - x) + w * x = w"
      by (simp_all add: algebra_simps)
    with s 3 show False by fastforce
  next
    case 4
    have "(1 - w) * (1 - x) + (1 - w) * x + w * (1 - x) + w * x = 1" by (simp add: algebra_simps)
    with s 4 show False by fastforce
  qed
qed

lemma vNext_Fin:
  assumes "vNext g V soc evSoc = Fin r" "battIdx g soc = (lo, hi, w)" "evIdx g evSoc = (eLo, eHi, x)"
    and "properV (V ! lo ! eLo)" "properV (V ! lo ! eHi)" "properV (V ! hi ! eLo)" "properV (V ! hi ! eHi)"
  shows "\<exists>a b c d. V ! lo ! eLo = Fin a \<and> V ! lo ! eHi = Fin b \<and> V ! hi ! eLo = Fin c \<and> V ! hi ! eHi = Fin d
     \<and> r = (1 - w) * (1 - x) * a + (1 - w) * x * b + w * (1 - x) * c + w * x * d"
proof -
  from assms(1-3) obtain ra rb rc rd where
    "Fin ((1 - w) * (1 - x)) * (V ! lo ! eLo) = Fin ra" "Fin ((1 - w) * x) * (V ! lo ! eHi) = Fin rb"
    "Fin (w * (1 - x)) * (V ! hi ! eLo) = Fin rc" "Fin (w * x) * (V ! hi ! eHi) = Fin rd"
    "r = ra + rb + rc + rd"
    by (auto simp: vNext_def Let_def f64_add_Fin)
  with weighted_Fin [OF assms(4)] weighted_Fin [OF assms(5)] weighted_Fin [OF assms(6)]
    weighted_Fin [OF assms(7)] show ?thesis by fastforce
qed

text \<open>Lower values at the next slot give a lower interpolated value: the weights of two different
  grid points are never negative, and a point met twice has the two weights together.\<close>

lemma interp_mono:
  fixes a b c d a' b' c' d' :: real
  assumes "a \<le> a'" "b \<le> b'" "c \<le> c'" "d \<le> d'"
    and w: "(a = c \<and> b = d \<and> a' = c' \<and> b' = d') \<or> (0 \<le> w \<and> w < 1)"
    and x: "(a = b \<and> c = d \<and> a' = b' \<and> c' = d') \<or> (0 \<le> x \<and> x < 1)"
  shows "(1 - w) * (1 - x) * a + (1 - w) * x * b + w * (1 - x) * c + w * x * d
     \<le> (1 - w) * (1 - x) * a' + (1 - w) * x * b' + w * (1 - x) * c' + w * x * d'"
proof -
  have one: "(1 - y) * u + y * v \<le> (1 - y) * u' + y * v'"
    if "u \<le> u'" "v \<le> v'" "(u = v \<and> u' = v') \<or> (0 \<le> y \<and> y < 1)" for u v u' v' y :: real
  proof (cases "u = v \<and> u' = v'")
    case True
    then have "(1 - y) * u + y * v = u" "(1 - y) * u' + y * v' = u'" by (auto simp: algebra_simps)
    with that show ?thesis by simp
  next
    case False
    with that show ?thesis by (intro add_mono mult_left_mono) auto
  qed
  have "(1 - x) * a + x * b \<le> (1 - x) * a' + x * b'" "(1 - x) * c + x * d \<le> (1 - x) * c' + x * d'"
    using assms(1-4) x by (intro one; auto)+
  then have "(1 - w) * ((1 - x) * a + x * b) + w * ((1 - x) * c + x * d)
      \<le> (1 - w) * ((1 - x) * a' + x * b') + w * ((1 - x) * c' + x * d')"
    using w by - (rule one, auto)
  then show ?thesis by (simp add: algebra_simps)
qed

section \<open>The search over actions\<close>

definition candidate :: "dpGrid \<Rightarrow> nat \<Rightarrow> Slot \<Rightarrow> valueTable \<Rightarrow> real \<Rightarrow> real \<Rightarrow> nat \<times> nat \<Rightarrow> f64 option" where
  "candidate g t slot V soc evSoc ax =
     (let battW = gActions g ! fst ax; evW = evActionW g (snd ax)
      in if admits g t slot soc evSoc battW evW
         then Some (actionValue g t slot V soc evSoc battW evW) else None)"

definition takeBetter :: "('a \<Rightarrow> f64 option) \<Rightarrow> ('a \<Rightarrow> nat) \<Rightarrow> 'a \<Rightarrow> f64 \<times> nat \<Rightarrow> f64 \<times> nat" where
  "takeBetter val enc a best =
     (case val a of None \<Rightarrow> best | Some v \<Rightarrow> if v < fst best then (v, enc a) else best)"

lemma tryAction_takeBetter:
  "tryAction g t slot V soc evSoc =
     takeBetter (candidate g t slot V soc evSoc) (\<lambda>ax. fst ax * gEA g + snd ax)"
  by (intro ext) (simp add: tryAction_def takeBetter_def candidate_def Let_def)

lemma properV_less: "properV b \<Longrightarrow> v < b \<Longrightarrow> v \<noteq> NInf \<Longrightarrow> \<exists>r. v = Fin r"
  by (cases v; cases b) (auto simp: less_f64_def)

lemma Fin_less_proper: "properV b \<Longrightarrow> \<not> Fin x < b \<Longrightarrow> \<exists>m. b = Fin m \<and> m \<le> x"
  by (cases b) (auto simp: less_f64_def)

text \<open>One pass of the search keeps the least value seen so far and the action it belongs to.\<close>

lemma takeBetter_step:
  assumes "properV (fst best)" "val a \<noteq> Some NInf"
  shows "properV (fst (takeBetter val enc a best))"
    "fst best = Fin b \<Longrightarrow> \<exists>m. fst (takeBetter val enc a best) = Fin m \<and> m \<le> b"
    "val a = Some (Fin x) \<Longrightarrow> \<exists>m. fst (takeBetter val enc a best) = Fin m \<and> m \<le> x"
    "takeBetter val enc a best = best
       \<or> (\<exists>m. val a = Some (Fin m) \<and> takeBetter val enc a best = (Fin m, enc a))"
  using assms properV_less [OF assms(1)] Fin_less_proper [OF assms(1)]
  by (fastforce simp: takeBetter_def split: option.splits)+

lemma search_min:
  assumes "properV (fst best)" "\<forall>a\<in>set xs. val a \<noteq> Some NInf"
  shows "properV (fst (fold (takeBetter val enc) xs best))
    \<and> (\<forall>b. fst best = Fin b \<longrightarrow> (\<exists>m. fst (fold (takeBetter val enc) xs best) = Fin m \<and> m \<le> b))
    \<and> (\<forall>a\<in>set xs. \<forall>x. val a = Some (Fin x) \<longrightarrow>
         (\<exists>m. fst (fold (takeBetter val enc) xs best) = Fin m \<and> m \<le> x))
    \<and> (fold (takeBetter val enc) xs best = best
       \<or> (\<exists>a\<in>set xs. \<exists>m. val a = Some (Fin m) \<and> fold (takeBetter val enc) xs best = (Fin m, enc a)))"
  using assms
proof (induction xs arbitrary: best)
  case (Cons y ys)
  let ?b = "takeBetter val enc y best"
  have y: "val y \<noteq> Some NInf" using Cons.prems(2) by simp
  note st = takeBetter_step [where val = val and a = y and best = best and enc = enc, OF Cons.prems(1) y]
  have "properV (fst ?b)" by (rule st(1))
  note ih = Cons.IH [OF this]
  have ys: "\<forall>a\<in>set ys. val a \<noteq> Some NInf" using Cons.prems(2) by simp
  have low: "\<exists>m. fst (fold (takeBetter val enc) ys ?b) = Fin m \<and> m \<le> x" if "\<exists>k. fst ?b = Fin k \<and> k \<le> x" for x
    using ih [OF ys] that by (meson order_trans)
  let ?F = "fold (takeBetter val enc) ys ?b"
  have F: "properV (fst ?F)" "\<forall>a\<in>set ys. \<forall>x. val a = Some (Fin x) \<longrightarrow> (\<exists>m. fst ?F = Fin m \<and> m \<le> x)"
    "?F = ?b \<or> (\<exists>a\<in>set ys. \<exists>m. val a = Some (Fin m) \<and> ?F = (Fin m, enc a))"
    using ih [OF ys] by simp_all
  have "\<exists>m. fst ?F = Fin m \<and> m \<le> b" if "fst best = Fin b" for b using low [OF st(2) [OF that]] .
  moreover have "\<exists>m. fst ?F = Fin m \<and> m \<le> x" if "val y = Some (Fin x)" for x using low [OF st(3) [OF that]] .
  moreover have "?F = best \<or> (\<exists>a\<in>insert y (set ys). \<exists>m. val a = Some (Fin m) \<and> ?F = (Fin m, enc a))"
    using F(3) st(4) by (metis insert_iff)
  ultimately show ?case using F(1,2) by simp
qed auto

section \<open>The tables are optimal\<close>

type_synonym gridPolicy = "nat \<Rightarrow> nat \<Rightarrow> nat \<Rightarrow> nat \<times> nat"

text \<open>The reference: the value of a policy that names an action for every slot and state.\<close>

fun policyValue :: "dpGrid \<Rightarrow> gridPolicy \<Rightarrow> nat \<Rightarrow> Slot list \<Rightarrow> valueTable" where
  "policyValue g \<pi> t [] = terminalValues g"
| "policyValue g \<pi> t (slot # slots) =
     (let W = policyValue g \<pi> (Suc t) slots
      in map (\<lambda>si. map (\<lambda>ei.
           if \<pi> t si ei \<in> set (gridActions g) then
             (case candidate g t slot W (socAt g si) (evSocAt g ei) (\<pi> t si ei) of
                None \<Rightarrow> PInf | Some v \<Rightarrow> if v = NInf \<or> v = NaN then PInf else v)
           else PInf) [0..<gEL g]) [0..<gS g])"

lemma policyValue_proper: "properTable g (policyValue g \<pi> t slots)"
proof (cases slots)
  case Nil
  then show ?thesis by (auto simp: properTable_def wellSized_def terminalValues_def)
next
  case (Cons slot ss)
  have "properV (case c of None \<Rightarrow> PInf | Some v \<Rightarrow> if v = NInf \<or> v = NaN then PInf else v)" for c
    by (cases c) (auto simp: properV_cases split: option.splits, metis f64.exhaust)
  with Cons show ?thesis by (auto simp: properTable_def wellSized_def Let_def)
qed

lemma bestAction_cases:
  fixes t si ei :: nat and slot :: Slot
  assumes "gridSane g" "properTable g V"
  defines "cand \<equiv> candidate g t slot V (socAt g si) (evSocAt g ei)"
  shows "properV (fst (bestAction g t slot V si ei))"
    "ax \<in> set (gridActions g) \<Longrightarrow> cand ax = Some (Fin x) \<Longrightarrow>
       \<exists>m. fst (bestAction g t slot V si ei) = Fin m \<and> m \<le> x"
    "fst (bestAction g t slot V si ei) = Fin m \<Longrightarrow>
       \<exists>ax \<in> set (gridActions g). cand ax = Some (Fin m)
         \<and> snd (bestAction g t slot V si ei) = fst ax * gEA g + snd ax"
    "fst (bestAction g t slot V si ei) = PInf \<Longrightarrow> snd (bestAction g t slot V si ei) = gIdle g * gEA g"
proof -
  have nn: "\<forall>a\<in>set (gridActions g). cand a \<noteq> Some NInf"
    using vNext_proper [OF assms(1,2)]
    by (auto simp: cand_def candidate_def Let_def actionValue_def dest!: f64_add_NInf split: if_splits)
  have b: "bestAction g t slot V si ei =
     (let best = fold (takeBetter cand (\<lambda>ax. fst ax * gEA g + snd ax)) (gridActions g) (PInf, 0)
      in if fst best = PInf then (PInf, gIdle g * gEA g) else best)"
    by (simp add: bestAction_def tryAction_takeBetter cand_def)
  note s = search_min [OF _ nn, of "(PInf, 0)" "\<lambda>ax. fst ax * gEA g + snd ax"]
  show "properV (fst (bestAction g t slot V si ei))" using s by (simp add: b Let_def)
  show "ax \<in> set (gridActions g) \<Longrightarrow> cand ax = Some (Fin x) \<Longrightarrow>
       \<exists>m. fst (bestAction g t slot V si ei) = Fin m \<and> m \<le> x"
    using s by (fastforce simp: b Let_def)
  show "fst (bestAction g t slot V si ei) = Fin m \<Longrightarrow>
       \<exists>ax \<in> set (gridActions g). cand ax = Some (Fin m)
         \<and> snd (bestAction g t slot V si ei) = fst ax * gEA g + snd ax"
    using s by (fastforce simp: b Let_def split: if_splits)
  show "fst (bestAction g t slot V si ei) = PInf \<Longrightarrow> snd (bestAction g t slot V si ei) = gIdle g * gEA g"
    by (simp add: b Let_def split: if_splits)
qed

lemma slotTable_nth:
  "si < gS g \<Longrightarrow> ei < gEL g \<Longrightarrow> slotTable g t slot V ! si ! ei = bestAction g t slot V si ei"
  by (simp add: slotTable_def)

lemma slotTable_proper:
  assumes "gridSane g" "properTable g V"
  shows "properTable g (map (map fst) (slotTable g t slot V))"
  using bestAction_cases(1) [OF assms] by (auto simp: properTable_def wellSized_def slotTable_def)

lemma backward_proper:
  assumes "gridSane g" "backward g ctxErr t slots = Inr (V, pols)"
  shows "properTable g V"
  using assms
proof (induction slots arbitrary: t V pols)
  case Nil
  then show ?case by (auto simp: properTable_def wellSized_def terminalValues_def)
next
  case (Cons slot slots)
  then show ?case
    by (auto simp: Let_def slotTable_proper split: sum.splits option.splits)
qed

text \<open>Two tables compared where the first is finite: an action's value carries the comparison over.\<close>

definition finiteRel :: "dpGrid \<Rightarrow> (real \<Rightarrow> real \<Rightarrow> bool) \<Rightarrow> valueTable \<Rightarrow> valueTable \<Rightarrow> bool" where
  "finiteRel g R V W \<longleftrightarrow>
     (\<forall>si < gS g. \<forall>ei < gEL g. \<forall>r. V ! si ! ei = Fin r \<longrightarrow> (\<exists>q. W ! si ! ei = Fin q \<and> R q r))"

lemma finiteRelD:
  "finiteRel g R V W \<Longrightarrow> si < gS g \<Longrightarrow> ei < gEL g \<Longrightarrow> V ! si ! ei = Fin r \<Longrightarrow> \<exists>q. W ! si ! ei = Fin q \<and> R q r"
  by (simp add: finiteRel_def)

lemma vNext_Fin_corners:
  assumes "V ! lo ! eLo = Fin a" "V ! lo ! eHi = Fin b" "V ! hi ! eLo = Fin c" "V ! hi ! eHi = Fin d"
    "battIdx g soc = (lo, hi, w)" "evIdx g evSoc = (eLo, eHi, x)"
  shows "vNext g V soc evSoc = Fin ((1 - w) * (1 - x) * a + (1 - w) * x * b + w * (1 - x) * c + w * x * d)"
  using assms by (simp add: vNext_def)

lemma vNext_rel:
  assumes "gridSane g" "properTable g V" "finiteRel g R V W" "R = (\<le>) \<or> R = (=)"
    and "vNext g V soc evSoc = Fin r"
  shows "\<exists>q. vNext g W soc evSoc = Fin q \<and> R q r"
proof -
  obtain lo hi w where b: "battIdx g soc = (lo, hi, w)" by (cases "battIdx g soc") auto
  obtain eLo eHi x where e: "evIdx g evSoc = (eLo, eHi, x)" by (cases "evIdx g evSoc") auto
  note bb = battIdx_bounds [OF assms(1) b] and eb = evIdx_bounds [OF assms(1) e]
  obtain ra rb rc rd where v: "V ! lo ! eLo = Fin ra" "V ! lo ! eHi = Fin rb" "V ! hi ! eLo = Fin rc" "V ! hi ! eHi = Fin rd"
    and r: "r = (1 - w) * (1 - x) * ra + (1 - w) * x * rb + w * (1 - x) * rc + w * x * rd"
    using vNext_Fin [OF assms(5) b e] properTable_nth [OF assms(2)] bb(1,2) eb(1,2) by meson
  obtain qa qb qc qd where q: "W ! lo ! eLo = Fin qa" "W ! lo ! eHi = Fin qb" "W ! hi ! eLo = Fin qc" "W ! hi ! eHi = Fin qd"
    and rel: "R qa ra" "R qb rb" "R qc rc" "R qd rd"
    using finiteRelD [OF assms(3)] bb(1,2) eb(1,2) v by meson
  note vq = vNext_Fin_corners [OF q b e]
  from assms(4) show ?thesis
  proof
    assume R: "R = (=)"
    with vq rel r show ?thesis by simp
  next
    assume R: "R = (\<le>)"
    have "(1 - w) * (1 - x) * qa + (1 - w) * x * qb + w * (1 - x) * qc + w * x * qd \<le> r"
      unfolding r using rel R bb(3) eb(3) v q by (intro interp_mono) auto
    with vq R show ?thesis by simp
  qed
qed

lemma candidate_rel:
  assumes "gridSane g" "properTable g V" "finiteRel g R V W" "R = (\<le>) \<or> R = (=)"
    and "candidate g t slot V soc evSoc ax = Some (Fin r)"
  shows "\<exists>q. candidate g t slot W soc evSoc ax = Some (Fin q) \<and> R q r"
proof -
  let ?bw = "gActions g ! fst ax" and ?ew = "evActionW g (snd ax)"
  let ?n = "\<lambda>T. vNext g T (battSocAfter g slot soc ?bw) (evSocAfter g slot evSoc ?ew)"
  from assms(5) obtain y where ad: "admits g t slot soc evSoc ?bw ?ew"
    and y: "?n V = Fin y" "r = stageCost g t slot evSoc ?bw ?ew + y"
    by (auto simp: candidate_def Let_def actionValue_def f64_add_Fin split: if_splits)
  obtain q where "?n W = Fin q" "R q y" using vNext_rel [OF assms(1-4) y(1)] by blast
  with ad y assms(4) show ?thesis
    by (auto simp: candidate_def Let_def actionValue_def)
qed

lemma backward_Cons:
  assumes "backward g ctxErr t (slot # slots) = Inr (V, pols)"
  obtains V' pols' where "backward g ctxErr (Suc t) slots = Inr (V', pols')"
    "V = map (map fst) (slotTable g t slot V')" "pols = map (map snd) (slotTable g t slot V') # pols'"
  using assms by (auto simp: Let_def split: sum.splits option.splits)

lemma slotTable_entry:
  assumes "si < gS g" "ei < gEL g"
  shows "map (map fst) (slotTable g t slot V) ! si ! ei = fst (bestAction g t slot V si ei)"
    "map (map snd) (slotTable g t slot V) ! si ! ei = snd (bestAction g t slot V si ei)"
  using assms by (simp_all add: slotTable_def)

lemma backward_below_policy:
  assumes "gridSane g" "backward g ctxErr t slots = Inr (V, pols)"
  shows "finiteRel g (\<le>) (policyValue g \<pi> t slots) V"
  using assms
proof (induction slots arbitrary: t V pols)
  case Nil
  then show ?case by (auto simp: finiteRel_def)
next
  case (Cons slot slots)
  obtain V' pols' where B: "backward g ctxErr (Suc t) slots = Inr (V', pols')"
    and V: "V = map (map fst) (slotTable g t slot V')"
    using backward_Cons [OF Cons.prems(2)] by blast
  let ?W = "policyValue g \<pi> (Suc t) slots"
  have ih: "finiteRel g (\<le>) ?W V'" by (rule Cons.IH [OF Cons.prems(1) B])
  have pr: "properTable g V'" by (rule backward_proper [OF Cons.prems(1) B])
  show ?case unfolding finiteRel_def
  proof (intro allI impI)
    fix si ei r
    assume i: "si < gS g" "ei < gEL g" and r: "policyValue g \<pi> t (slot # slots) ! si ! ei = Fin r"
    from i r have ax: "\<pi> t si ei \<in> set (gridActions g)"
      "candidate g t slot ?W (socAt g si) (evSocAt g ei) (\<pi> t si ei) = Some (Fin r)"
      by (auto simp: Let_def split: if_splits option.splits)
    obtain q where "candidate g t slot V' (socAt g si) (evSocAt g ei) (\<pi> t si ei) = Some (Fin q)" "q \<le> r"
      using candidate_rel [OF Cons.prems(1) policyValue_proper ih _ ax(2)] by auto
    then show "\<exists>q. V ! si ! ei = Fin q \<and> q \<le> r"
      using bestAction_cases(2) [OF Cons.prems(1) pr ax(1)] i
      by (metis V order_trans slotTable_entry(1))
  qed
qed

text \<open>The policy the table stores, read back the way the forward simulation decodes it.\<close>

definition storedPolicy :: "dpGrid \<Rightarrow> policy list \<Rightarrow> nat \<Rightarrow> gridPolicy" where
  "storedPolicy g pols t0 t si ei =
     (let k = pols ! (t - t0) ! si ! ei in (k div gEA g, k mod gEA g))"

lemma decode_action:
  "ax \<in> set (gridActions g) \<Longrightarrow>
     ((fst ax * gEA g + snd ax) div gEA g, (fst ax * gEA g + snd ax) mod gEA g) = ax"
  by (auto simp: gridActions_def)

lemma policyValue_cong:
  "(\<And>t'. t \<le> t' \<Longrightarrow> \<pi> t' = \<rho> t') \<Longrightarrow> policyValue g \<pi> t slots = policyValue g \<rho> t slots"
proof (induction slots arbitrary: t)
  case (Cons slot slots)
  have "policyValue g \<pi> (Suc t) slots = policyValue g \<rho> (Suc t) slots"
    by (rule Cons.IH) (simp add: Cons.prems)
  with Cons.prems [of t] show ?case by simp
qed simp

lemma stored_attains:
  assumes "gridSane g" "backward g ctxErr t slots = Inr (V, pols)"
  shows "finiteRel g (=) V (policyValue g (storedPolicy g pols t) t slots)"
  using assms
proof (induction slots arbitrary: t V pols)
  case Nil
  then show ?case by (auto simp: finiteRel_def)
next
  case (Cons slot slots)
  obtain V' pols' where B: "backward g ctxErr (Suc t) slots = Inr (V', pols')"
    and V: "V = map (map fst) (slotTable g t slot V')"
    and P: "pols = map (map snd) (slotTable g t slot V') # pols'"
    using backward_Cons [OF Cons.prems(2)] by blast
  let ?pi = "storedPolicy g pols t"
  let ?W = "policyValue g ?pi (Suc t) slots"
  have "?pi t' = storedPolicy g pols' (Suc t) t'" if "Suc t \<le> t'" for t'
    using that by (intro ext) (simp add: storedPolicy_def P Let_def Suc_diff_le nth_Cons')
  then have "?W = policyValue g (storedPolicy g pols' (Suc t)) (Suc t) slots"
    by (intro policyValue_cong) simp
  then have ih: "finiteRel g (=) V' ?W" using Cons.IH [OF Cons.prems(1) B] by simp
  have pr: "properTable g V'" by (rule backward_proper [OF Cons.prems(1) B])
  show ?case unfolding finiteRel_def
  proof (intro allI impI)
    fix si ei r
    assume i: "si < gS g" "ei < gEL g" and r: "V ! si ! ei = Fin r"
    from r V slotTable_entry(1) [OF i] have "fst (bestAction g t slot V' si ei) = Fin r" by simp
    from bestAction_cases(3) [OF Cons.prems(1) pr this]
    obtain ax where ax: "ax \<in> set (gridActions g)"
      "candidate g t slot V' (socAt g si) (evSocAt g ei) ax = Some (Fin r)"
      "snd (bestAction g t slot V' si ei) = fst ax * gEA g + snd ax" by blast
    then have "?pi t si ei = ax"
      using decode_action [OF ax(1)] by (simp add: storedPolicy_def P slotTable_entry(2) [OF i])
    moreover have "candidate g t slot ?W (socAt g si) (evSocAt g ei) ax = Some (Fin r)"
      using candidate_rel [OF Cons.prems(1) pr ih _ ax(2)] by auto
    ultimately show "\<exists>q. policyValue g ?pi t (slot # slots) ! si ! ei = Fin q \<and> q = r"
      using ax(1) i by simp
  qed
qed

section \<open>The grids are sane\<close>

lemma idleFrom_min:
  "(idleFrom i ws (Fin a) idx = idx \<and> (\<forall>w\<in>set ws. a \<le> \<bar>w\<bar>))
   \<or> (\<exists>j < length ws. idleFrom i ws (Fin a) idx = i + j \<and> (\<forall>w\<in>set ws. \<bar>ws ! j\<bar> \<le> \<bar>w\<bar>) \<and> \<bar>ws ! j\<bar> < a)"
proof (induction ws arbitrary: i a idx)
  case (Cons w ws)
  consider (less) "\<bar>w\<bar> < a" | (ge) "a \<le> \<bar>w\<bar>" by linarith
  then show ?case
  proof cases
    case less
    from Cons.IH [of "Suc i" "\<bar>w\<bar>" i] show ?thesis
    proof (elim disjE exE conjE)
      assume "idleFrom (Suc i) ws (Fin \<bar>w\<bar>) i = i" "\<forall>v\<in>set ws. \<bar>w\<bar> \<le> \<bar>v\<bar>"
      then show ?thesis using less by (auto intro!: exI [of _ 0])
    next
      fix j assume "j < length ws" "idleFrom (Suc i) ws (Fin \<bar>w\<bar>) i = Suc i + j"
        "\<forall>v\<in>set ws. \<bar>ws ! j\<bar> \<le> \<bar>v\<bar>" "\<bar>ws ! j\<bar> < \<bar>w\<bar>"
      then show ?thesis using less by (auto intro!: exI [of _ "Suc j"])
    qed
  next
    case ge
    from Cons.IH [of "Suc i" a idx] show ?thesis
    proof (elim disjE exE conjE)
      assume "idleFrom (Suc i) ws (Fin a) idx = idx" "\<forall>v\<in>set ws. a \<le> \<bar>v\<bar>"
      then show ?thesis using ge by auto
    next
      fix j assume "j < length ws" "idleFrom (Suc i) ws (Fin a) idx = Suc i + j"
        "\<forall>v\<in>set ws. \<bar>ws ! j\<bar> \<le> \<bar>v\<bar>" "\<bar>ws ! j\<bar> < a"
      then show ?thesis using ge by (auto intro!: exI [of _ "Suc j"])
    qed
  qed
qed simp

lemma idleActionIdx_zero:
  assumes "0 \<in> set ws"
  shows "idleActionIdx ws < length ws \<and> ws ! idleActionIdx ws = 0"
proof (cases ws)
  case (Cons w rest)
  have "idleActionIdx ws = idleFrom 1 rest (Fin \<bar>w\<bar>) 0"
    by (simp add: idleActionIdx_def Cons less_f64_def)
  with idleFrom_min [of 1 rest "\<bar>w\<bar>" 0] show ?thesis
    using assms by (fastforce simp: Cons)
qed (use assms in simp)

lemma actionGrid_zero: "0 \<in> set (actionGrid n p)"
  by (simp add: actionGrid_def Let_def)

lemma actionGrid_range:
  assumes "w \<in> set (actionGrid n p)" "2 \<le> n" "0 \<le> pMaxChargeW p" "0 \<le> pMaxDischargeW p"
  shows "- pMaxDischargeW p \<le> w \<and> w \<le> pMaxChargeW p"
proof -
  have "- pMaxDischargeW p \<le> - pMaxDischargeW p + x * (pMaxChargeW p + pMaxDischargeW p)
      \<and> - pMaxDischargeW p + x * (pMaxChargeW p + pMaxDischargeW p) \<le> pMaxChargeW p"
    if "0 \<le> x" "x \<le> 1" for x
    using that mult_left_le_one_le [of "pMaxChargeW p + pMaxDischargeW p" x] assms(3,4) by simp
  moreover have "real j / real (n - 1) \<le> 1" if "j < n" for j
    using that assms(2) by (simp add: divide_le_eq)
  moreover have "0 \<le> real j / real (n - 1)" for j by simp
  moreover have "w = 0 \<or> (\<exists>j < n. w = levelW n p j)"
    using assms(1) by (auto simp: actionGrid_def Let_def split: if_splits)
  ultimately show ?thesis using assms(3,4) unfolding levelW_def by (metis neg_le_0_iff_le)
qed

lemma dpGrids_sane: "gridSane (dpGrids p slots)"
proof -
  have "idleActionIdx (actionGrid n p) < length (actionGrid n p)" for n
    using idleActionIdx_zero [OF actionGrid_zero] by blast
  moreover have "actionGrid n p \<noteq> []" for n using actionGrid_zero [of n p] by auto
  ultimately show ?thesis
    by (auto simp: gridSane_def dpGrids_def Let_def gEA_def socLevels_def lpActive_def repairBounds_def
        split: option.splits if_splits)
qed

section \<open>The tables of the planner\<close>

text \<open>C4: Run the dynamic programme's backward pass for any parameters and slots. Then at every
  battery and car state of its grid: no policy on the grid, evaluated with the same admission rules,
  costs and interpolation, has a finite value below the one in the table; where the table's value is
  finite, the policy the table stores attains exactly that value; and the value is a number or
  \<open>+Inf\<close>, never NaN. The planner's tables are an exact optimum over the grid.\<close>

theorem dp_table_is_optimal:
  assumes "backward (dpGrids p slots) ctxErr 0 slots = Inr (V, pols)"
    and "si < gS (dpGrids p slots)" "ei < gEL (dpGrids p slots)"
  shows "(\<forall>\<pi> r. policyValue (dpGrids p slots) \<pi> 0 slots ! si ! ei = Fin r
            \<longrightarrow> (\<exists>v. V ! si ! ei = Fin v \<and> v \<le> r))
    \<and> (\<forall>v. V ! si ! ei = Fin v
            \<longrightarrow> policyValue (dpGrids p slots) (storedPolicy (dpGrids p slots) pols 0) 0 slots ! si ! ei = Fin v)
    \<and> (V ! si ! ei = PInf \<or> isFinite (V ! si ! ei))"
proof -
  note sane = dpGrids_sane [of p slots]
  have "\<exists>v. V ! si ! ei = Fin v \<and> v \<le> r"
    if "policyValue (dpGrids p slots) \<pi> 0 slots ! si ! ei = Fin r" for \<pi> r
    using finiteRelD [OF backward_below_policy [OF sane assms(1)] assms(2,3) that] .
  moreover have "policyValue (dpGrids p slots) (storedPolicy (dpGrids p slots) pols 0) 0 slots ! si ! ei = Fin v"
    if "V ! si ! ei = Fin v" for v
    using finiteRelD [OF stored_attains [OF sane assms(1)] assms(2,3) that] by simp
  moreover have "V ! si ! ei = PInf \<or> isFinite (V ! si ! ei)"
    using properTable_nth [OF backward_proper [OF sane assms(1)] assms(2,3)] by (auto simp: properV_cases)
  ultimately show ?thesis by blast
qed

section \<open>An infeasible neighbour\<close>

lemma f64_mul_zero_PInf: "Fin 0 * PInf = NaN"
  by (simp add: f64_inf_def)

lemma f64_add_NaN: "a + NaN = NaN" "NaN + a = NaN"
  by (cases a; simp add: plus_f64_def)+

lemma interpIdx_exact: "Suc k < n \<Longrightarrow> interpIdx n (real k) = (k, Suc k, 0)"
  by (simp add: interpIdx_def Let_def)


section \<open>A site with an export limit\<close>

text \<open>Two hours on a battery of 1 kWh with grid points empty, half and full. In the first, exporting
  costs 100 a kWh and nothing flows; in the second the sun gives 600 W and only 100 W may leave, so
  the battery must have room: the full state is infeasible.\<close>

definition exampleSlot :: "real \<Rightarrow> real \<Rightarrow> real \<Rightarrow> int \<Rightarrow> Slot" where
  "exampleSlot price pv export startMs = \<lparr>sExecutionStartMs = 0, sStartMs = startMs, sLenMin = 60,
     sPriceOre = price, sSpotOre = price, sPVW = pv, sLoadW = 0, sMaxImportW = 0, sMaxExportW = export\<rparr>"

definition exampleSlots :: "Slot list" where
  "exampleSlots = [exampleSlot (- 100) 0 0 3600000, exampleSlot 0 (- 600) 100 7200000]"

definition exampleParams :: Params where
  "exampleParams = \<lparr>pPVCurtailment = noCurtailment, pMode = MpcModeArbitrage, pSoCLevels = 3, pCapacityWh = 1000, pSoCMin = 0,
     pSoCMax = 1, pInitialSoC = 1 / 2, pInitialSoCUnclamped = 0, pPVChargeBonusOreKwh = 0,
     pActionLevels = 3, pMaxChargeW = 500, pMaxDischargeW = 500, pChargeEfficiency = 1,
     pDischargeEfficiency = 1, pTerminalSoCPrice = 0, pExportOrePerKWh = 0, pExportBonusOreKwh = 0,
     pExportFeeOreKwh = 0, pExportFloorOreKwh = None, pMinArbitrageSpreadOreKwh = 0,
     pLoadpoint = None, pLoadpoints = [], pStorages = [],
     pPVUncertaintyW = 0, pPVRelativeUncertainty = 0, pPVForecastSafetyK = 0, pDemandCharged = False,
     pImportMeanW = 0, pImportHours = []\<rparr>"

lemma example_backward:
  "backward (dpGrids exampleParams exampleSlots) (\<lambda>_. None) 0 exampleSlots
     = Inr ([[Fin 0], [Fin 50], [PInf]], [[[1], [0], [1]], [[2], [2], [1]]])"
  by code_simp

theorem dp_table_is_optimal_witness:
  "policyValue (dpGrids exampleParams exampleSlots)
     (storedPolicy (dpGrids exampleParams exampleSlots) [[[1], [0], [1]], [[2], [2], [1]]] 0) 0
     exampleSlots ! 1 ! 0 = Fin 50"
proof -
  have "(1::nat) < gS (dpGrids exampleParams exampleSlots)" "0 < gEL (dpGrids exampleParams exampleSlots)"
    by code_simp+
  from dp_table_is_optimal [OF example_backward this] show ?thesis by simp
qed


end
