(* ===== verification/Mpc_Forward.thy ===== *)
theory Mpc_Forward
  imports Mpc_Optimal
begin

text \<open>
  From tables to a plan (\<open>mpc.go\<close>, \<open>baselines.go\<close>): the forward simulation from the real state of
  charge, the explanation and curtailment hint of each slot, the whole of \<open>OptimizeContext\<close> with its
  refusals, and the baselines a plan is compared with. A plan is shown to replay: energy, power
  balance and cost follow from its own battery and car powers, within the operating band.
\<close>

section \<open>Staying in the band\<close>

definition gridIndex :: "real \<Rightarrow> real \<Rightarrow> real \<Rightarrow> nat \<Rightarrow> nat" where
  "gridIndex v lo step n =
     (if n \<le> 1 \<or> step \<le> 0 then 0
      else let i = goRound ((v - lo) / step)
           in if i < 0 then 0 else if i \<ge> int n then n - 1 else nat i)"

definition operatingBoundWorsens :: "real \<Rightarrow> real \<Rightarrow> real \<Rightarrow> real \<Rightarrow> bool" where
  "operatingBoundWorsens v w lo hi =
     (max 0 (lo - w) > max 0 (lo - v) + 1 / 10 ^ 9 \<or> max 0 (w - hi) > max 0 (v - hi) + 1 / 10 ^ 9)"

definition clipBatteryPowerToBand ::
  "real \<Rightarrow> real \<Rightarrow> real \<Rightarrow> real \<Rightarrow> real \<Rightarrow> real \<Rightarrow> real \<Rightarrow> real \<Rightarrow> real" where
  "clipBatteryPowerToBand soc powerW dtH capacityWh etaC etaD lo hi =
     (if capacityWh \<le> 0 \<or> dtH \<le> 0 then 0
      else let delta = BatteryEnergyDeltaWh powerW dtH etaC etaD / capacityWh
           in if \<not> operatingBoundWorsens soc (soc + delta) lo hi then powerW
              else if powerW > 0 then
                (let headroom = hi - soc
                 in if headroom \<le> 0 \<or> etaC \<le> 0 then 0 else headroom * capacityWh / (dtH * etaC))
              else
                (let headroom = soc - lo
                 in if headroom \<le> 0 \<or> etaD \<le> 0 then 0 else - headroom * capacityWh * etaD / dtH))"

section \<open>Why, in words\<close>

definition emDash :: string where "emDash = [CHR 0xE2, CHR 0x80, CHR 0x94]"
definition middleDot :: string where "middleDot = [CHR 0xC2, CHR 0xB7]"

definition reasonFor :: "Slot \<Rightarrow> real \<Rightarrow> real \<Rightarrow> real \<Rightarrow> string" where
  "reasonFor s batteryW gridW meanPrice =
     (let baseline = sLoadW s + sPVW s;
          gridExports = gridW < - 100; gridImports = gridW > 100;
          priceAbove = sPriceOre s > meanPrice * (11 / 10);
          priceBelow = sPriceOre s < meanPrice * (9 / 10)
      in if batteryW > 100 \<and> baseline < - 100 \<and> \<not> gridImports then ''absorb PV surplus''
         else if batteryW > 100 \<and> gridImports \<and> priceBelow then ''charge from cheap grid''
         else if batteryW > 100 \<and> gridImports then ''charge '' @ emDash @ '' import''
         else if batteryW > 100 then ''charge''
         else if batteryW < - 100 \<and> gridExports \<and> priceAbove then ''discharge '' @ emDash @ '' export at peak''
         else if batteryW < - 100 \<and> gridExports then ''discharge '' @ emDash @ '' export''
         else if batteryW < - 100 \<and> priceAbove then ''discharge '' @ emDash @ '' price above horizon mean''
         else if batteryW < - 100 \<and> baseline > 100 then ''discharge '' @ emDash @ '' cover local load''
         else if batteryW < - 100 then ''discharge''
         else if gridImports then ''idle '' @ emDash @ '' import to cover load''
         else if gridExports then ''idle '' @ emDash @ '' export PV surplus''
         else ''idle'')"

definition actionSlot :: "Action \<Rightarrow> Slot" where
  "actionSlot a = \<lparr>sExecutionStartMs = 0, sStartMs = aSlotStartMs a, sLenMin = aSlotLenMin a,
     sPriceOre = aPriceOre a, sSpotOre = aSpotOre a, sPVW = aPVW a, sLoadW = aLoadW a,
     sMaxImportW = 0, sMaxExportW = 0\<rparr>"

definition consumedLocallyW :: "Action \<Rightarrow> real" where
  "consumedLocallyW a =
     max 0 (aLoadW a + (if aBatteryW a > 0 then aBatteryW a else 0)
                     + (if aLoadpointW a > 0 then aLoadpointW a else 0))"

definition curtailReason :: "string \<Rightarrow> string" where
  "curtailReason r =
     (if r \<noteq> [] \<and> last r \<noteq> CHR '')'' then r @ '' '' @ middleDot @ '' curtail PV''
      else ''curtail PV (negative export) '' @ middleDot @ '' '' @ r)"

definition curtailAction :: "Params \<Rightarrow> Action \<Rightarrow> Action" where
  "curtailAction p a =
     (if aGridW a \<ge> 0 then a
      else if SlotExportPriceOre (actionSlot a) p > 0 then a
      else if - aPVW a > consumedLocallyW a
      then a\<lparr>aPVLimitW := consumedLocallyW a, aReason := curtailReason (aReason a)\<rparr>
      else a)"

definition annotateCurtailment :: "Plan \<Rightarrow> Params \<Rightarrow> Plan" where
  "annotateCurtailment plan p = plan\<lparr>plActions := map (curtailAction p) (plActions plan)\<rparr>"

section \<open>Forward simulation\<close>

text \<open>The car gives way to the hour's import: the largest step that fits, or off.\<close>

definition carGivesWay :: "dpGrid \<Rightarrow> nat \<Rightarrow> Slot \<Rightarrow> real \<Rightarrow> real \<Rightarrow> bool" where
  "carGivesWay g t slot actW evW =
     (case gCaps g of
        None \<Rightarrow> False
      | Some (caps, carCaps) \<Rightarrow>
          evW > 0 \<and> Fin (GridFlowW (sLoadW slot) (sPVW slot) actW evW) > carCaps ! t)"

definition carStepUnder :: "dpGrid \<Rightarrow> nat \<Rightarrow> Slot \<Rightarrow> real \<Rightarrow> real" where
  "carStepUnder g t slot actW =
     (case gCaps g of
        None \<Rightarrow> 0
      | Some (caps, carCaps) \<Rightarrow>
          (case find (\<lambda>k. Fin (GridFlowW (sLoadW slot) (sPVW slot) actW (gEvSteps g ! k)) \<le> carCaps ! t)
                  (rev [1..<length (gEvSteps g)]) of
             None \<Rightarrow> 0
           | Some k \<Rightarrow> gEvSteps g ! k))"

definition simBattery :: "dpGrid \<Rightarrow> Slot \<Rightarrow> real \<Rightarrow> nat \<Rightarrow> real" where
  "simBattery g slot soc pol =
     (let p = gP g;
          actW = clipBatteryPowerToBand soc (gActions g ! (pol div gEA g)) (DurationHours slot)
                   (pCapacityWh p) (pChargeEfficiency p) (pDischargeEfficiency p) (pSoCMin p) (pSoCMax p)
      in if operatingBoundWorsens soc (battSocAfter g slot soc actW) (pSoCMin p) (pSoCMax p)
         then 0 else actW)"

definition simCarOffer :: "dpGrid \<Rightarrow> Slot \<Rightarrow> real \<Rightarrow> nat \<Rightarrow> real" where
  "simCarOffer g slot evSoc pol =
     (let evW = evActionW g (pol mod gEA g)
      in case gLp g of
           None \<Rightarrow> evW
         | Some lp \<Rightarrow> if evSocAfter g slot evSoc evW > lSoCMax lp + 1 / 10 ^ 9 then 0 else evW)"

definition simCar :: "dpGrid \<Rightarrow> nat \<Rightarrow> Slot \<Rightarrow> real \<Rightarrow> real \<Rightarrow> nat \<Rightarrow> real" where
  "simCar g t slot actW evSoc pol =
     (let evW = simCarOffer g slot evSoc pol
      in if carGivesWay g t slot actW evW then carStepUnder g t slot actW else evW)"

definition simAction :: "dpGrid \<Rightarrow> nat \<Rightarrow> Slot \<Rightarrow> real \<Rightarrow> real \<Rightarrow> nat \<Rightarrow> Action" where
  "simAction g t slot soc evSoc pol =
     (let actW = simBattery g slot soc pol;
          evW = simCar g t slot actW evSoc pol;
          gridW = GridFlowW (sLoadW slot) (sPVW slot) actW evW
      in \<lparr>aExecutionStartMs = sExecutionStartMs slot, aSlotStartMs = sStartMs slot,
          aSlotLenMin = sLenMin slot, aPriceOre = sPriceOre slot, aSpotOre = sSpotOre slot,
          aPVW = sPVW slot, aLoadW = sLoadW slot, aBatteryW = actW, aGridW = gridW,
          aSoC = battSocAfter g slot soc actW,
          aCostOre = SlotGridCostOre slot (gridW * DurationHours slot / 1000) (gP g),
          aReason = reasonFor slot actW gridW (gMeanPrice g), aPVLimitW = 0, aPVCurtailActive = False,
          aLoadpointW = evW, aLoadpointSoC = evSocAfter g slot evSoc evW,
          aLoadpointPowerW = [], aLoadpointMaxPowerW = [], aLoadpointSoCByID = [],
          aStoragePowerW = [], aStorageEnergyWh = []\<rparr>)"

definition battStateIdx :: "dpGrid \<Rightarrow> real \<Rightarrow> nat" where
  "battStateIdx g soc = gridIndex soc (pSoCMin (gP g)) (gSocStep g) (gS g)"

definition evStateIdx :: "dpGrid \<Rightarrow> real \<Rightarrow> nat" where
  "evStateIdx g evSoc =
     (case gLp g of None \<Rightarrow> 0 | Some lp \<Rightarrow> gridIndex evSoc (lSoCMin lp) (gEvSocStep g) (gEL g))"

fun simulate :: "dpGrid \<Rightarrow> nat \<Rightarrow> Slot list \<Rightarrow> policy list \<Rightarrow> real \<Rightarrow> real \<Rightarrow> Action list" where
  "simulate g t (slot # slots) (pol # pols) soc evSoc =
     (let a = simAction g t slot soc evSoc (pol ! battStateIdx g soc ! evStateIdx g evSoc)
      in a # simulate g (Suc t) slots pols (aSoC a) (aLoadpointSoC a))"
| "simulate g t _ _ soc evSoc = []"

section \<open>Optimize\<close>

definition requiresStorageMaps :: "Params \<Rightarrow> bool" where
  "requiresStorageMaps p =
     (length (pStorages p) > 1
      \<or> list_ex (\<lambda>b. saChargeEfficiency b \<noteq> pChargeEfficiency p
                    \<or> saDischargeEfficiency b \<noteq> pDischargeEfficiency p) (pStorages p))"

definition coreDPModelError :: "Params \<Rightarrow> string option" where
  "coreDPModelError p =
     (if pCapacityWh p = 0
      then Some ''Core DP requires a battery; Energyplan plans this site without storage''
      else if length (pStorages p) > 1 \<or> length (activeLoadpoints p) > 1
      then Some ''Core DP cannot retain all storages and EVs; keeping the previous validated plan''
      else if requiresStorageMaps p
      then Some ''Core DP cannot replay the physical storage efficiencies''
      else None)"

definition workingBytes :: "nat \<Rightarrow> Params \<Rightarrow> real" where
  "workingBytes n p =
     (let evLevels = (case pLoadpoint p of
             None \<Rightarrow> 1 | Some lp \<Rightarrow> if lpActive (Some lp) then max 2 (lLevels lp) else 1)
      in (real n + 1) * real (socLevels p) * (16 * real_of_int evLevels + 48)
         + (real (actionLevels p) + 1) * 8)"

text \<open>A context is asked before the work, before each slot, and at the end.\<close>

record planContext =
  ctxStart :: "string option"
  ctxSlot :: "nat \<Rightarrow> string option"
  ctxEnd :: "string option"

definition background :: planContext where
  "background = \<lparr>ctxStart = None, ctxSlot = (\<lambda>_. None), ctxEnd = None\<rparr>"

definition startEvSoc :: "dpGrid \<Rightarrow> real" where
  "startEvSoc g = (case gLp g of None \<Rightarrow> 0 | Some lp \<Rightarrow> lInitialSoC lp)"

definition solvedPlan :: "int \<Rightarrow> Params \<Rightarrow> Slot list \<Rightarrow> policy list \<Rightarrow> Plan" where
  "solvedPlan now p slots pols =
     (let g = dpGrids p slots; acts = simulate g 0 slots pols (pInitialSoC p) (startEvSoc g)
      in annotateCurtailment
           (emptyPlan\<lparr>plGeneratedAtMs := now, plMode := pMode p, plHorizonSlots := length slots,
              plCapacityWh := pCapacityWh p, plInitialSoC := pInitialSoC p,
              plTotalCostOre := sum_list (map aCostOre acts), plActions := acts\<rparr>) p)"

definition optimizeSane :: "planContext \<Rightarrow> int \<Rightarrow> Slot list \<Rightarrow> Params \<Rightarrow> Plan \<times> string option" where
  "optimizeSane ctx now slots p =
     (if slots = [] \<or> pCapacityWh p \<le> 0
      then (emptyPlan\<lparr>plGeneratedAtMs := now, plMode := pMode p\<rparr>, None)
      else let p = withDefaults p
           in if workingBytes (length slots) p > 64 * 1024 * 1024
              then (emptyPlan, Some ''Core DP exceeds its 64 MiB working memory budget'')
              else case backward (dpGrids p slots) (ctxSlot ctx) 0 slots of
                     Inl e \<Rightarrow> (emptyPlan, Some e)
                   | Inr (V, pols) \<Rightarrow> (solvedPlan now p slots pols, ctxEnd ctx))"

definition OptimizeContext :: "planContext \<Rightarrow> int \<Rightarrow> f64 slotOf list \<Rightarrow> Params \<Rightarrow> Plan \<times> string option" where
  "OptimizeContext ctx now slots p =
     (case ctxStart ctx of
        Some e \<Rightarrow> (emptyPlan, Some e)
      | None \<Rightarrow>
          (case coreDPModelError p of
             Some e \<Rightarrow> (emptyPlan, Some e)
           | None \<Rightarrow>
               (case validatePartialSlots slots of
                  Some e \<Rightarrow> (emptyPlan, Some e)
                | None \<Rightarrow> optimizeSane ctx now (sanitizeOptimizeSlots slots) p)))"

definition Optimize :: "int \<Rightarrow> f64 slotOf list \<Rightarrow> Params \<Rightarrow> Plan" where
  "Optimize now slots p = fst (OptimizeContext background now slots p)"

section \<open>Baselines\<close>

record Baselines =
  bNoBatteryOre :: real
  bSelfConsumptionOre :: real
  bFlatAvgOre :: real
  bAvgPriceOre :: real
  bNetKWh :: real

definition houseKWh :: "Slot \<Rightarrow> real" where
  "houseKWh s = (sLoadW s + sPVW s) * DurationHours s / 1000"

definition finiteSlots :: "Slot list \<Rightarrow> f64 slotOf list" where
  "finiteSlots = map (\<lambda>s. \<lparr>sExecutionStartMs = sExecutionStartMs s, sStartMs = sStartMs s,
     sLenMin = sLenMin s, sPriceOre = Fin (sPriceOre s), sSpotOre = Fin (sSpotOre s),
     sPVW = Fin (sPVW s), sLoadW = Fin (sLoadW s), sMaxImportW = Fin (sMaxImportW s),
     sMaxExportW = Fin (sMaxExportW s)\<rparr>)"

definition ComputeBaselines :: "int \<Rightarrow> Slot list \<Rightarrow> Params \<Rightarrow> Baselines" where
  "ComputeBaselines now slots p =
     (if slots = [] then \<lparr>bNoBatteryOre = 0, bSelfConsumptionOre = 0, bFlatAvgOre = 0,
                          bAvgPriceOre = 0, bNetKWh = 0\<rparr>
      else let importKWh = sum_list (map (\<lambda>s. if houseKWh s > 0 then houseKWh s else 0) slots);
               exportKWh = sum_list (map (\<lambda>s. if houseKWh s > 0 then 0 else - houseKWh s) slots);
               importPriceWtMin = sum_list (map (\<lambda>s. sPriceOre s * (DurationHours s * 60)) slots);
               exportPriceWtMin = sum_list (map (\<lambda>s. SlotExportPriceOre s p * (DurationHours s * 60)) slots);
               lenMinSum = sum_list (map (\<lambda>s. DurationHours s * 60) slots);
               avgImportOre = (if lenMinSum > 0 then importPriceWtMin / lenMinSum else 0);
               avgExportOre = (if lenMinSum > 0 then exportPriceWtMin / lenMinSum else 0);
               scPlan = Optimize now (finiteSlots slots)
                          (p\<lparr>pMode := MpcModeSelfConsumption, pLoadpoint := None\<rparr>)
           in \<lparr>bNoBatteryOre = sum_list (map (\<lambda>s. SlotGridCostOre s (houseKWh s) p) slots),
               bSelfConsumptionOre = plTotalCostOre scPlan,
               bFlatAvgOre = importKWh * avgImportOre - exportKWh * avgExportOre,
               bAvgPriceOre = avgImportOre, bNetKWh = importKWh - exportKWh\<rparr>)"

section \<open>Clipping\<close>

lemma gridIndex_bound: "0 < n \<Longrightarrow> gridIndex v lo step n < n"
  by (auto simp: gridIndex_def Let_def)

lemma worsens_up:
  assumes "operatingBoundWorsens v w lo hi" "v \<le> w"
  shows "w > hi" "w > v"
  using assms by (auto simp: operatingBoundWorsens_def max_def split: if_splits)

lemma worsens_down:
  assumes "operatingBoundWorsens v w lo hi" "w \<le> v"
  shows "w < lo" "w < v"
  using assms by (auto simp: operatingBoundWorsens_def max_def split: if_splits)

lemma not_worsens_refl [simp]: "\<not> operatingBoundWorsens v v lo hi"
  by (simp add: operatingBoundWorsens_def)

text \<open>A clipped power has the sign of the action and at most its size.\<close>

lemma clip_between:
  fixes soc w lo hi :: real
  assumes "0 < capacityWh" "0 < dtH" "0 < etaC" "0 < etaD"
  defines "c \<equiv> clipBatteryPowerToBand soc w dtH capacityWh etaC etaD lo hi"
  shows "min 0 w \<le> c \<and> c \<le> max 0 w"
proof -
  define delta where "delta = BatteryEnergyDeltaWh w dtH etaC etaD / capacityWh"
  show ?thesis
  proof (cases "operatingBoundWorsens soc (soc + delta) lo hi")
    case False
    then show ?thesis using assms by (simp add: clipBatteryPowerToBand_def Let_def delta_def)
  next
    case bad: True
    show ?thesis
    proof (cases "w > 0")
      case True
      then have d: "delta = w * dtH * etaC / capacityWh" by (simp add: delta_def BatteryEnergyDeltaWh_def)
      then have "0 \<le> delta" using True assms by simp
      with worsens_up(1) [OF bad] have "hi - soc < delta" by simp
      then have "(hi - soc) * capacityWh / (dtH * etaC) \<le> w"
        using assms d by (simp add: field_simps)
      then show ?thesis
        using True bad assms by (auto simp: clipBatteryPowerToBand_def Let_def delta_def [symmetric])
    next
      case False
      have d: "delta = w * dtH / etaD / capacityWh"
        using False by (cases "w = 0") (simp_all add: delta_def BatteryEnergyDeltaWh_def)
      have "w * dtH / etaD \<le> 0" using False assms by (simp add: mult_nonpos_nonneg divide_nonpos_pos)
      then have "delta \<le> 0" unfolding d using assms(1) by (rule divide_nonpos_pos)
      with worsens_down(1) [OF bad] have "delta < lo - soc" by simp
      then have "w \<le> - (soc - lo) * capacityWh * etaD / dtH"
        using assms d by (simp add: field_simps)
      moreover have "(lo - soc) * capacityWh * etaD / dtH \<le> 0" if "\<not> soc \<le> lo"
        using that assms by (simp add: mult_nonpos_nonneg divide_nonpos_pos)
      ultimately show ?thesis
        using False bad assms by (auto simp: clipBatteryPowerToBand_def Let_def delta_def [symmetric])
    qed
  qed
qed

text \<open>What a slot of the simulation asks of its parameters: a battery, positive efficiencies.\<close>

definition battSane :: "dpGrid \<Rightarrow> bool" where
  "battSane g \<longleftrightarrow> 0 < pCapacityWh (gP g) \<and> 0 < pChargeEfficiency (gP g) \<and> 0 < pDischargeEfficiency (gP g)"

lemma battSoc_zero [simp]: "battSocAfter g slot soc 0 = soc"
  by (simp add: battSocAfter_def)

lemma simBattery_between:
  fixes pol :: nat
  assumes "battSane g" "0 < DurationHours slot"
  defines "w \<equiv> gActions g ! (pol div gEA g)"
  shows "min 0 w \<le> simBattery g slot soc pol \<and> simBattery g slot soc pol \<le> max 0 w"
  using clip_between [of "pCapacityWh (gP g)" "DurationHours slot" "pChargeEfficiency (gP g)"
      "pDischargeEfficiency (gP g)" w soc "pSoCMin (gP g)" "pSoCMax (gP g)"] assms
  by (auto simp: simBattery_def Let_def battSane_def)

lemma simBattery_band:
  "\<not> operatingBoundWorsens soc (battSocAfter g slot soc (simBattery g slot soc pol))
      (pSoCMin (gP g)) (pSoCMax (gP g))"
  by (simp add: simBattery_def Let_def)

section \<open>The car in the simulation\<close>

definition carSane :: "dpGrid \<Rightarrow> bool" where
  "carSane g \<longleftrightarrow> (case gLp g of None \<Rightarrow> True
     | Some lp \<Rightarrow> 0 < lCapacityWh lp \<and> 0 < gEvEff g \<and> sorted (gEvSteps g) \<and> gEvSteps g ! 0 = 0
         \<and> gEvSteps g \<noteq> [])"

lemma find_SomeD: "find P xs = Some x \<Longrightarrow> x \<in> set xs \<and> P x"
  by (induction xs) (auto split: if_splits)

lemma carStepUnder_cases:
  "carStepUnder g t slot actW = 0 \<or>
   (\<exists>k caps carCaps. 0 < k \<and> k < length (gEvSteps g) \<and> gCaps g = Some (caps, carCaps)
      \<and> carStepUnder g t slot actW = gEvSteps g ! k
      \<and> Fin (GridFlowW (sLoadW slot) (sPVW slot) actW (gEvSteps g ! k)) \<le> carCaps ! t)"
  by (auto simp: carStepUnder_def split: option.splits dest!: find_SomeD)

lemma Fin_le_trans: "a \<le> b \<Longrightarrow> Fin b \<le> c \<Longrightarrow> Fin a \<le> c"
  by (cases c) (auto simp: less_eq_f64_def)

lemma f64_not_both: "c < Fin a \<Longrightarrow> \<not> Fin a \<le> c"
  by (cases c) (auto simp: less_f64_def less_eq_f64_def)

lemma evActionW_step:
  assumes "gridSane g" "gLp g = Some lp"
  shows "evActionW g (pol mod gEA g) \<in> set (gEvSteps g)"
  using assms by (simp add: evActionW_def gEA_def gridSane_def)

lemma simCar_step:
  assumes "gridSane g" "carSane g" "gLp g = Some lp"
  shows "simCar g t slot actW evSoc pol \<in> set (gEvSteps g)"
proof -
  have "0 \<in> set (gEvSteps g)"
    using assms(2,3) by (auto simp: carSane_def in_set_conv_nth intro!: exI [of _ 0])
  moreover have "carStepUnder g t slot actW \<in> set (gEvSteps g)"
    using carStepUnder_cases [of g t slot actW] \<open>0 \<in> set (gEvSteps g)\<close> by auto
  ultimately show ?thesis
    using evActionW_step [OF assms(1,3)] assms(3) by (simp add: simCar_def simCarOffer_def Let_def)
qed

lemma simCar_none: "gLp g = None \<Longrightarrow> simCar g t slot actW evSoc pol = 0"
  by (simp add: simCar_def simCarOffer_def Let_def evActionW_def carGivesWay_def split: option.splits)

lemma simCar_cap:
  assumes "gCaps g = Some (caps, carCaps)" "0 < simCar g t slot actW evSoc pol" "carCaps ! t \<noteq> NaN"
  shows "Fin (GridFlowW (sLoadW slot) (sPVW slot) actW (simCar g t slot actW evSoc pol)) \<le> carCaps ! t"
proof (cases "carGivesWay g t slot actW (simCarOffer g slot evSoc pol)")
  case True
  then show ?thesis
    using assms carStepUnder_cases [of g t slot actW] by (auto simp: simCar_def Let_def)
next
  case False
  then show ?thesis
    using assms
    by (cases "carCaps ! t")
      (auto simp: simCar_def Let_def carGivesWay_def less_f64_def less_eq_f64_def)
qed

text \<open>A car that gives way takes a smaller step than the one that did not fit.\<close>

lemma carStepUnder_less:
  assumes "carGivesWay g t slot actW evW" "0 \<le> evW"
  shows "carStepUnder g t slot actW \<le> evW"
proof -
  obtain caps carCaps where c: "gCaps g = Some (caps, carCaps)"
    and big: "carCaps ! t < Fin (GridFlowW (sLoadW slot) (sPVW slot) actW evW)"
    using assms(1) by (auto simp: carGivesWay_def split: option.splits)
  from carStepUnder_cases [of g t slot actW] show ?thesis
  proof (elim disjE exE conjE)
    fix k caps' carCaps'
    assume k: "gCaps g = Some (caps', carCaps')" "carStepUnder g t slot actW = gEvSteps g ! k"
      "Fin (GridFlowW (sLoadW slot) (sPVW slot) actW (gEvSteps g ! k)) \<le> carCaps' ! t"
    show ?thesis
    proof (rule ccontr)
      assume "\<not> ?thesis"
      then have "GridFlowW (sLoadW slot) (sPVW slot) actW evW
          \<le> GridFlowW (sLoadW slot) (sPVW slot) actW (gEvSteps g ! k)"
        using k(2) by (simp add: GridFlowW_def)
      then have "Fin (GridFlowW (sLoadW slot) (sPVW slot) actW evW) \<le> carCaps ! t"
        using Fin_le_trans k c by auto
      with f64_not_both [OF big] show False by simp
    qed
  qed (use assms(2) in simp)
qed

lemma evSteps_nonneg: "carSane g \<Longrightarrow> gLp g = Some lp \<Longrightarrow> s \<in> set (gEvSteps g) \<Longrightarrow> 0 \<le> s"
  using sorted_nth_mono [of "gEvSteps g" 0] by (auto simp: carSane_def in_set_conv_nth)

lemma evSocAfter_mono:
  assumes "carSane g" "gLp g = Some lp" "0 < DurationHours slot" "a \<le> b"
  shows "evSocAfter g slot evSoc a \<le> evSocAfter g slot evSoc b"
  using assms by (simp add: evSocAfter_def carSane_def divide_right_mono)

lemma simCar_soc:
  assumes "gridSane g" "carSane g" "gLp g = Some lp" "0 < DurationHours slot"
    and "evSoc \<le> lSoCMax lp + 1 / 10 ^ 9"
  shows "evSocAfter g slot evSoc (simCar g t slot actW evSoc pol) \<le> lSoCMax lp + 1 / 10 ^ 9"
proof -
  let ?o = "simCarOffer g slot evSoc pol"
  have offer: "evSocAfter g slot evSoc ?o \<le> lSoCMax lp + 1 / 10 ^ 9"
    using assms(3,5) by (auto simp: simCarOffer_def Let_def evSocAfter_def)
  have "0 \<le> ?o"
    using evSteps_nonneg [OF assms(2,3) evActionW_step [OF assms(1,3)]] assms(3)
    by (simp add: simCarOffer_def Let_def)
  then have "simCar g t slot actW evSoc pol \<le> ?o"
    using carStepUnder_less by (simp add: simCar_def Let_def)
  from evSocAfter_mono [OF assms(2,3,4) this] offer show ?thesis by (rule order_trans)
qed

section \<open>A plan that replays\<close>

text \<open>The contract of a plan, stated over its own actions: slot by slot, the state of charge follows
  from the battery's power, the car's from the car's, the grid flow from the power balance, the cost
  from the flow; powers are within bounds; and the state of charge never leaves the operating band
  further than it was, up to the tolerance of one slot.\<close>

fun replays :: "dpGrid \<Rightarrow> nat \<Rightarrow> real \<Rightarrow> real \<Rightarrow> Slot list \<Rightarrow> Action list \<Rightarrow> bool" where
  "replays g t soc evSoc [] [] = True"
| "replays g t soc evSoc (s # ss) (a # as) =
     (aSlotStartMs a = sStartMs s \<and> aSlotLenMin a = sLenMin s \<and> aExecutionStartMs a = sExecutionStartMs s
      \<and> aLoadW a = sLoadW s \<and> aPVW a = sPVW s
      \<and> aSoC a = battSocAfter g s soc (aBatteryW a)
      \<and> aLoadpointSoC a = evSocAfter g s evSoc (aLoadpointW a)
      \<and> aGridW a = sLoadW s + sPVW s + aBatteryW a + aLoadpointW a
      \<and> aCostOre a = SlotGridCostOre s (aGridW a * DurationHours s / 1000) (gP g)
      \<and> - pMaxDischargeW (gP g) \<le> aBatteryW a \<and> aBatteryW a \<le> pMaxChargeW (gP g)
      \<and> \<not> operatingBoundWorsens soc (aSoC a) (pSoCMin (gP g)) (pSoCMax (gP g))
      \<and> (case gLp g of None \<Rightarrow> aLoadpointW a = 0 | Some lp \<Rightarrow> aLoadpointW a \<in> set (gEvSteps g))
      \<and> (case gCaps g of None \<Rightarrow> True
         | Some (caps, carCaps) \<Rightarrow> aLoadpointW a > 0 \<longrightarrow> Fin (aGridW a) \<le> carCaps ! t)
      \<and> replays g (Suc t) (aSoC a) (aLoadpointSoC a) ss as)"
| "replays g t soc evSoc _ _ = False"

text \<open>What the tables leave for each slot: at every state an action of the grid, either idle or one
  the slot admits there.\<close>

definition policyFor :: "dpGrid \<Rightarrow> nat \<Rightarrow> Slot \<Rightarrow> policy \<Rightarrow> bool" where
  "policyFor g t slot pol \<longleftrightarrow> (\<forall>si < gS g. \<forall>ei < gEL g. \<exists>ax \<in> set (gridActions g).
     pol ! si ! ei = fst ax * gEA g + snd ax
     \<and> (ax = (gIdle g, 0)
        \<or> admits g t slot (socAt g si) (evSocAt g ei) (gActions g ! fst ax) (evActionW g (snd ax))))"

fun policiesFor :: "dpGrid \<Rightarrow> nat \<Rightarrow> Slot list \<Rightarrow> policy list \<Rightarrow> bool" where
  "policiesFor g t [] [] = True"
| "policiesFor g t (s # ss) (pol # pols) = (policyFor g t s pol \<and> policiesFor g (Suc t) ss pols)"
| "policiesFor g t _ _ = False"

lemma idle_in_grid: "gridSane g \<Longrightarrow> (gIdle g, 0) \<in> set (gridActions g)"
  by (simp add: gridSane_def gridActions_def)

lemma slotTable_policyFor:
  assumes "gridSane g" "properTable g V"
  shows "policyFor g t slot (map (map snd) (slotTable g t slot V))"
  unfolding policyFor_def
proof (intro allI impI)
  fix si ei assume i: "si < gS g" "ei < gEL g"
  show "\<exists>ax \<in> set (gridActions g). map (map snd) (slotTable g t slot V) ! si ! ei = fst ax * gEA g + snd ax
     \<and> (ax = (gIdle g, 0)
        \<or> admits g t slot (socAt g si) (evSocAt g ei) (gActions g ! fst ax) (evActionW g (snd ax)))"
  proof (cases "fst (bestAction g t slot V si ei)")
    case (Fin m)
    from bestAction_cases(3) [OF assms this] show ?thesis
      by (auto simp: slotTable_entry(2) [OF i] candidate_def Let_def split: if_splits intro!: bexI)
  next
    case PInf
    from bestAction_cases(4) [OF assms this] idle_in_grid [OF assms(1)] show ?thesis
      by (intro bexI [of _ "(gIdle g, 0)"]) (simp_all add: slotTable_entry(2) [OF i])
  qed (use bestAction_cases(1) [OF assms, where t = t and slot = slot and si = si and ei = ei] in auto)
qed

lemma backward_policiesFor:
  "gridSane g \<Longrightarrow> backward g ctxErr t slots = Inr (V, pols) \<Longrightarrow> policiesFor g t slots pols"
proof (induction slots arbitrary: t V pols)
  case (Cons slot slots)
  obtain V' pols' where B: "backward g ctxErr (Suc t) slots = Inr (V', pols')"
    "V = map (map fst) (slotTable g t slot V')" "pols = map (map snd) (slotTable g t slot V') # pols'"
    using backward_Cons [OF Cons.prems(2)] by blast
  then show ?case
    using Cons.IH [OF Cons.prems(1) B(1)] slotTable_policyFor [OF Cons.prems(1) backward_proper [OF Cons.prems(1) B(1)]]
    by simp
qed simp

lemma battStateIdx_bound: "gridSane g \<Longrightarrow> battStateIdx g soc < gS g"
  by (simp add: battStateIdx_def gridSane_def gridIndex_bound)

lemma evStateIdx_bound: "gridSane g \<Longrightarrow> evStateIdx g evSoc < gEL g"
  by (simp add: evStateIdx_def gridSane_def gridIndex_bound split: option.split)

text \<open>The action the simulation reads for a slot.\<close>

lemma lookup_action:
  assumes "gridSane g" "policyFor g t slot pol"
  obtains ax si ei where "ax \<in> set (gridActions g)"
    "(pol ! battStateIdx g soc ! evStateIdx g evSoc) div gEA g = fst ax"
    "(pol ! battStateIdx g soc ! evStateIdx g evSoc) mod gEA g = snd ax"
    "ax = (gIdle g, 0)
      \<or> admits g t slot (socAt g si) (evSocAt g ei) (gActions g ! fst ax) (evActionW g (snd ax))"
proof -
  obtain ax where ax: "ax \<in> set (gridActions g)"
    "pol ! battStateIdx g soc ! evStateIdx g evSoc = fst ax * gEA g + snd ax"
    "ax = (gIdle g, 0) \<or> admits g t slot (socAt g (battStateIdx g soc)) (evSocAt g (evStateIdx g evSoc))
       (gActions g ! fst ax) (evActionW g (snd ax))"
    using assms(2) battStateIdx_bound [OF assms(1)] evStateIdx_bound [OF assms(1)]
    unfolding policyFor_def by blast
  from decode_action [OF ax(1)] ax show ?thesis by (intro that [of ax]) (auto simp: prod_eq_iff)
qed

definition gridsOk :: "dpGrid \<Rightarrow> bool" where
  "gridsOk g \<longleftrightarrow> gridSane g \<and> battSane g \<and> carSane g
     \<and> (\<forall>w \<in> set (gActions g). - pMaxDischargeW (gP g) \<le> w \<and> w \<le> pMaxChargeW (gP g))
     \<and> 0 \<le> pMaxChargeW (gP g) \<and> 0 \<le> pMaxDischargeW (gP g) \<and> gActions g ! gIdle g = 0
     \<and> (case gCaps g of None \<Rightarrow> True
        | Some (caps, carCaps) \<Rightarrow> length carCaps = gN g \<and> proper carCaps)"

lemma simBattery_bounds:
  assumes "gridsOk g" "0 < DurationHours slot" "policyFor g t slot pol"
  shows "- pMaxDischargeW (gP g) \<le> simBattery g slot soc (pol ! battStateIdx g soc ! evStateIdx g evSoc)
    \<and> simBattery g slot soc (pol ! battStateIdx g soc ! evStateIdx g evSoc) \<le> pMaxChargeW (gP g)"
proof -
  have gs: "gridSane g" "battSane g" using assms(1) by (auto simp: gridsOk_def)
  obtain ax si ei where ax: "ax \<in> set (gridActions g)"
    "(pol ! battStateIdx g soc ! evStateIdx g evSoc) div gEA g = fst ax"
    using lookup_action [OF gs(1) assms(3)] by metis
  then have "gActions g ! fst ax \<in> set (gActions g)" by (auto simp: gridActions_def)
  then have "- pMaxDischargeW (gP g) \<le> gActions g ! fst ax" "gActions g ! fst ax \<le> pMaxChargeW (gP g)"
    "0 \<le> pMaxChargeW (gP g)" "0 \<le> pMaxDischargeW (gP g)"
    using assms(1) by (auto simp: gridsOk_def)
  with simBattery_between [OF gs(2) assms(2), of "pol ! battStateIdx g soc ! evStateIdx g evSoc" soc] ax(2)
  show ?thesis by (auto simp: min_def max_def split: if_splits)
qed

lemma simulate_replays:
  assumes "gridsOk g" "policiesFor g t slots pols" "list_all (\<lambda>s. 0 < DurationHours s) slots"
    and "t + length slots = gN g"
  shows "replays g t soc evSoc slots (simulate g t slots pols soc evSoc)"
  using assms
proof (induction slots arbitrary: t pols soc evSoc)
  case Nil
  then show ?case by (cases pols) auto
next
  case (Cons s ss)
  then obtain pol pols' where p: "pols = pol # pols'" "policyFor g t s pol" "policiesFor g (Suc t) ss pols'"
    by (cases pols) auto
  let ?k = "pol ! battStateIdx g soc ! evStateIdx g evSoc"
  let ?a = "simAction g t s soc evSoc ?k"
  have b: "- pMaxDischargeW (gP g) \<le> simBattery g s soc ?k \<and> simBattery g s soc ?k \<le> pMaxChargeW (gP g)"
    using simBattery_bounds [OF Cons.prems(1) _ p(2)] Cons.prems(3) by simp
  have car: "case gLp g of None \<Rightarrow> simCar g t s (simBattery g s soc ?k) evSoc ?k = 0
     | Some lp \<Rightarrow> simCar g t s (simBattery g s soc ?k) evSoc ?k \<in> set (gEvSteps g)"
    using simCar_none simCar_step Cons.prems(1) by (auto simp: gridsOk_def split: option.split)
  have cap: "case gCaps g of None \<Rightarrow> True
     | Some (caps, carCaps) \<Rightarrow> simCar g t s (simBattery g s soc ?k) evSoc ?k > 0 \<longrightarrow>
         Fin (GridFlowW (sLoadW s) (sPVW s) (simBattery g s soc ?k)
            (simCar g t s (simBattery g s soc ?k) evSoc ?k)) \<le> carCaps ! t"
    using simCar_cap Cons.prems(1,4) by (auto simp: gridsOk_def proper_nth split: option.split)
  have "replays g (Suc t) (aSoC ?a) (aLoadpointSoC ?a) ss (simulate g (Suc t) ss pols' (aSoC ?a) (aLoadpointSoC ?a))"
    using Cons.IH [OF Cons.prems(1) p(3)] Cons.prems(3,4) by simp
  then show ?case
    using b car cap simBattery_band [of soc g s ?k]
    by (simp add: p(1) simAction_def Let_def GridFlowW_def cong: option.case_cong prod.case_cong)
qed

text \<open>A curtailment hint changes nothing a replay reads.\<close>

lemma curtailAction_simps [simp]:
  "aSlotStartMs (curtailAction p a) = aSlotStartMs a" "aSlotLenMin (curtailAction p a) = aSlotLenMin a"
  "aExecutionStartMs (curtailAction p a) = aExecutionStartMs a" "aSoC (curtailAction p a) = aSoC a"
  "aLoadpointSoC (curtailAction p a) = aLoadpointSoC a" "aLoadpointW (curtailAction p a) = aLoadpointW a"
  "aGridW (curtailAction p a) = aGridW a" "aBatteryW (curtailAction p a) = aBatteryW a"
  "aCostOre (curtailAction p a) = aCostOre a" "aLoadW (curtailAction p a) = aLoadW a"
  "aPVW (curtailAction p a) = aPVW a"
  by (simp_all add: curtailAction_def)

lemma replays_curtail [simp]:
  "replays g t soc evSoc ss (map (curtailAction p) as) = replays g t soc evSoc ss as"
  by (induction g t soc evSoc ss as rule: replays.induct) (simp_all cong: option.case_cong prod.case_cong)

lemma replays_length: "replays g t soc evSoc ss as \<Longrightarrow> length as = length ss"
  by (induction g t soc evSoc ss as rule: replays.induct) auto

section \<open>The band over a whole plan\<close>

definition outside :: "Params \<Rightarrow> real \<Rightarrow> real \<Rightarrow> bool" where
  "outside p e soc \<longleftrightarrow> soc < pSoCMin p - e \<or> soc > pSoCMax p + e"

lemma not_worsens_outside:
  assumes "\<not> operatingBoundWorsens v w (pSoCMin p) (pSoCMax p)" "\<not> outside p e v" "0 \<le> e"
  shows "\<not> outside p (e + 1 / 10 ^ 9) w"
  using assms by (auto simp: operatingBoundWorsens_def outside_def max_def split: if_splits)

lemma replays_band:
  assumes "replays g t soc evSoc ss as" "\<not> outside (gP g) e soc" "0 \<le> e"
  shows "list_all (\<lambda>a. \<not> outside (gP g) (e + real (length as) / 10 ^ 9) (aSoC a)) as"
  using assms
proof (induction g t soc evSoc ss as arbitrary: e rule: replays.induct)
  case (2 g t soc evSoc s ss a as)
  have w: "\<not> operatingBoundWorsens soc (aSoC a) (pSoCMin (gP g)) (pSoCMax (gP g))"
    and r: "replays g (Suc t) (aSoC a) (aLoadpointSoC a) ss as"
    using "2.prems"(1) unfolding replays.simps by blast+
  note one = not_worsens_outside [OF w "2.prems"(2,3)]
  have "list_all (\<lambda>b. \<not> outside (gP g) (e + 1 / 10 ^ 9 + real (length as) / 10 ^ 9) (aSoC b)) as"
    using "2.IH" [OF r one] "2.prems"(3) by simp
  moreover have "e + 1 / 10 ^ 9 + real (length as) / 10 ^ 9 = e + real (length (a # as)) / 10 ^ 9"
    by (simp add: field_simps)
  moreover have "\<not> outside (gP g) (e + real (length (a # as)) / 10 ^ 9) (aSoC a)"
    using one by (auto simp: outside_def field_simps)
  ultimately show ?case unfolding list.pred_inject by metis
qed auto

section \<open>The mode's contract\<close>

lemma modeAllows_idle: "modeAllows m b b 0"
  by (simp add: modeAllows_def Let_def)

text \<open>A smaller action in the same direction is allowed when the larger one is.\<close>

lemma modeAllows_shrink:
  assumes "modeAllows m b (b + w) w" "min 0 w \<le> a" "a \<le> max 0 w"
  shows "modeAllows m b (b + a) a"
  using assms by (auto simp: modeAllows_def Let_def min_def max_def split: if_splits)

lemma simAction_mode:
  fixes soc evSoc :: real
  assumes "gridsOk g" "gLp g = None" "0 < DurationHours slot" "policyFor g t slot pol"
  defines "a \<equiv> simAction g t slot soc evSoc (pol ! battStateIdx g soc ! evStateIdx g evSoc)"
  shows "modeAllows (pMode (gP g)) (aLoadW a + aPVW a) (aGridW a) (aBatteryW a)"
proof -
  let ?k = "pol ! battStateIdx g soc ! evStateIdx g evSoc" and ?b = "sLoadW slot + sPVW slot"
  have gs: "gridSane g" "battSane g" "gActions g ! gIdle g = 0" using assms(1) by (auto simp: gridsOk_def)
  obtain ax si ei where ax: "?k div gEA g = fst ax" "ax = (gIdle g, 0)
      \<or> admits g t slot (socAt g si) (evSocAt g ei) (gActions g ! fst ax) (evActionW g (snd ax))"
    using lookup_action [OF gs(1) assms(4)] by metis
  let ?w = "gActions g ! fst ax"
  have w: "modeAllows (pMode (gP g)) ?b (?b + ?w) ?w"
  proof (cases "ax = (gIdle g, 0)")
    case True
    then show ?thesis using gs(3) by (simp add: modeAllows_idle)
  next
    case False
    then show ?thesis
      using ax(2) assms(2) by (simp add: admits_def Let_def GridFlowW_def evActionW_def)
  qed
  have "modeAllows (pMode (gP g)) ?b (?b + simBattery g slot soc ?k) (simBattery g slot soc ?k)"
    using modeAllows_shrink [OF w] simBattery_between [OF gs(2) assms(3), of ?k soc] ax(1) by simp
  then show ?thesis
    by (simp add: a_def simAction_def Let_def GridFlowW_def simCar_none [OF assms(2)])
qed

lemma simulate_mode:
  assumes "gridsOk g" "gLp g = None" "policiesFor g t slots pols" "list_all (\<lambda>s. 0 < DurationHours s) slots"
  shows "list_all (\<lambda>a. modeAllows (pMode (gP g)) (aLoadW a + aPVW a) (aGridW a) (aBatteryW a))
     (simulate g t slots pols soc evSoc)"
  using assms
proof (induction slots arbitrary: t pols soc evSoc)
  case (Cons s ss)
  then obtain pol pols' where p: "pols = pol # pols'" "policyFor g t s pol" "policiesFor g (Suc t) ss pols'"
    by (cases pols) auto
  have "modeAllows (pMode (gP g)) (aLoadW a + aPVW a) (aGridW a) (aBatteryW a)"
    if "a = simAction g t s soc evSoc (pol ! battStateIdx g soc ! evStateIdx g evSoc)" for a
    using simAction_mode [OF Cons.prems(1,2) _ p(2)] Cons.prems(4) that by simp
  then show ?case using Cons.IH [OF Cons.prems(1,2) p(3)] Cons.prems(4) by (simp add: p(1) Let_def)
qed (cases pols; simp)

section \<open>The grids of a solve\<close>

lemma dpGrids_simps [simp]: "gP (dpGrids p slots) = p" "gN (dpGrids p slots) = length slots"
  "gLp (dpGrids p slots) = (if lpActive (pLoadpoint p) then map_option repairBounds (pLoadpoint p) else None)"
  by (simp_all add: dpGrids_def Let_def)

lemma dpGrids_ok:
  assumes "0 < pCapacityWh p" "0 < pChargeEfficiency p" "0 < pDischargeEfficiency p"
    "0 \<le> pMaxChargeW p" "0 \<le> pMaxDischargeW p"
  shows "gridsOk (dpGrids p slots)"
proof -
  have a: "2 \<le> actionLevels p" by (auto simp: actionLevels_def)
  have "carSane (dpGrids p slots)"
    by (auto simp: carSane_def dpGrids_def Let_def lpActive_def repairBounds_def normalizedSteps_sorted
        normalizedSteps_first split: option.splits)
  moreover have "battSane (dpGrids p slots)" using assms by (simp add: battSane_def dpGrids_def Let_def)
  moreover have "case gCaps (dpGrids p slots) of None \<Rightarrow> True
     | Some (caps, carCaps) \<Rightarrow> length carCaps = gN (dpGrids p slots) \<and> proper carCaps"
    using caps_shape [of slots p] by (auto simp: dpGrids_def Let_def split: option.split)
  moreover have "gActions (dpGrids p slots) ! gIdle (dpGrids p slots) = 0"
    using idleActionIdx_zero [OF actionGrid_zero] by (simp add: dpGrids_def Let_def)
  moreover have "\<forall>w\<in>set (gActions (dpGrids p slots)).
      - pMaxDischargeW (gP (dpGrids p slots)) \<le> w \<and> w \<le> pMaxChargeW (gP (dpGrids p slots))"
    using actionGrid_range [OF _ a assms(4,5)] by (simp add: dpGrids_def Let_def)
  ultimately show ?thesis using dpGrids_sane [of p slots] assms(4,5) unfolding gridsOk_def by simp
qed

lemma withDefaults_simps [simp]:
  "pCapacityWh (withDefaults p) = pCapacityWh p" "pSoCMin (withDefaults p) = pSoCMin p"
  "pSoCMax (withDefaults p) = pSoCMax p" "pInitialSoC (withDefaults p) = pInitialSoC p"
  "pMaxChargeW (withDefaults p) = pMaxChargeW p" "pMaxDischargeW (withDefaults p) = pMaxDischargeW p"
  "pLoadpoint (withDefaults p) = pLoadpoint p" "0 < pChargeEfficiency (withDefaults p)"
  "0 < pDischargeEfficiency (withDefaults p)"
  by (simp_all add: withDefaults_def)

text \<open>What a returned plan is, with the solve behind it.\<close>

lemma OptimizeContext_solved:
  assumes "OptimizeContext ctx now slots p = (plan, None)" "plActions plan \<noteq> []"
  defines "S \<equiv> sanitizeOptimizeSlots slots" and "q \<equiv> withDefaults p"
  obtains V pols where "backward (dpGrids q S) (ctxSlot ctx) 0 S = Inr (V, pols)"
    "plan = solvedPlan now q S pols" "0 < pCapacityWh p"
  using assms
  by (auto simp: OptimizeContext_def optimizeSane_def Let_def emptyPlan_def S_def q_def
      split: option.splits sum.splits if_splits)

lemma solvedPlan_simps:
  "plActions (solvedPlan now p slots pols) = map (curtailAction p)
     (simulate (dpGrids p slots) 0 slots pols (pInitialSoC p) (startEvSoc (dpGrids p slots)))"
  "plTotalCostOre (solvedPlan now p slots pols) = sum_list (map aCostOre (plActions (solvedPlan now p slots pols)))"
  "plHorizonSlots (solvedPlan now p slots pols) = length slots"
  "plMode (solvedPlan now p slots pols) = pMode p"
  by (simp_all add: solvedPlan_def Let_def annotateCurtailment_def comp_def)

lemma Optimize_replays:
  assumes "OptimizeContext ctx now slots p = (plan, None)" "plActions plan \<noteq> []"
    and "0 \<le> pMaxChargeW p" "0 \<le> pMaxDischargeW p"
    and "list_all (\<lambda>s. 0 < DurationHours s) (sanitizeOptimizeSlots slots)"
  shows "replays (dpGrids (withDefaults p) (sanitizeOptimizeSlots slots)) 0 (pInitialSoC p)
     (startEvSoc (dpGrids (withDefaults p) (sanitizeOptimizeSlots slots)))
     (sanitizeOptimizeSlots slots) (plActions plan)"
proof -
  let ?S = "sanitizeOptimizeSlots slots" and ?q = "withDefaults p"
  obtain V pols where s: "backward (dpGrids ?q ?S) (ctxSlot ctx) 0 ?S = Inr (V, pols)"
    "plan = solvedPlan now ?q ?S pols" "0 < pCapacityWh p"
    using OptimizeContext_solved [OF assms(1,2)] by blast
  have ok: "gridsOk (dpGrids ?q ?S)" using assms(3,4) s(3) by (intro dpGrids_ok) simp_all
  show ?thesis
    using simulate_replays [OF ok backward_policiesFor [OF dpGrids_sane s(1)] assms(5)]
    by (simp add: s(2) solvedPlan_simps)
qed

text \<open>What else the actions of a plan carry: no map of assets, and a curtailment hint within the sun.\<close>

definition plainAction :: "Action \<Rightarrow> bool" where
  "plainAction a \<longleftrightarrow> aLoadpointPowerW a = [] \<and> aLoadpointMaxPowerW a = [] \<and> aLoadpointSoCByID a = []
     \<and> aStoragePowerW a = [] \<and> aStorageEnergyWh a = [] \<and> \<not> aPVCurtailActive a
     \<and> 0 \<le> aPVLimitW a \<and> (aPVLimitW a = 0 \<or> aPVLimitW a < - aPVW a)"

lemma simulate_plain: "list_all plainAction (simulate g t slots pols soc evSoc)"
  by (induction g t slots pols soc evSoc rule: simulate.induct)
    (simp_all add: Let_def plainAction_def simAction_def)

lemma curtail_plain: "plainAction a \<Longrightarrow> plainAction (curtailAction p a)"
  by (auto simp: plainAction_def curtailAction_def consumedLocallyW_def)

lemma solvedPlan_plain: "list_all plainAction (plActions (solvedPlan now p slots pols))"
  using simulate_plain by (auto simp: solvedPlan_simps list_all_iff intro: curtail_plain)

section \<open>Properties of a plan\<close>

text \<open>C3: Whatever Core's planner returns, once it returns a plan with actions, replays from the site's
  real state of charge: for every slot of the horizon there is one action with that slot's times; its
  state of charge is the previous one plus what its battery power stores or draws at the battery's
  efficiencies, its grid flow is house plus sun plus battery plus car, its cost is that flow at the
  slot's price, its battery power is within the battery's limits, the car charges at one of its
  steps and never beyond the hour's import cap; the plan's cost is the sum over its slots; and a
  battery that starts in the operating band ends every slot in it, up to a billionth per slot.\<close>

theorem optimized_plan_replays:
  assumes "OptimizeContext ctx now slots p = (plan, None)" "plActions plan \<noteq> []"
    and "0 \<le> pMaxChargeW p" "0 \<le> pMaxDischargeW p"
    and "pSoCMin p \<le> pInitialSoC p" "pInitialSoC p \<le> pSoCMax p"
    and "list_all (\<lambda>s. 0 < DurationHours s) (sanitizeOptimizeSlots slots)"
  shows "replays (dpGrids (withDefaults p) (sanitizeOptimizeSlots slots)) 0 (pInitialSoC p)
       (startEvSoc (dpGrids (withDefaults p) (sanitizeOptimizeSlots slots)))
       (sanitizeOptimizeSlots slots) (plActions plan)
    \<and> plTotalCostOre plan = sum_list (map aCostOre (plActions plan))
    \<and> plHorizonSlots plan = length (plActions plan)
    \<and> list_all (\<lambda>a. pSoCMin p - real (length (plActions plan)) / 10 ^ 9 \<le> aSoC a
         \<and> aSoC a \<le> pSoCMax p + real (length (plActions plan)) / 10 ^ 9) (plActions plan)"
proof -
  let ?S = "sanitizeOptimizeSlots slots" and ?q = "withDefaults p"
  note r = Optimize_replays [OF assms(1-4,7)]
  obtain V pols where s: "plan = solvedPlan now ?q ?S pols"
    using OptimizeContext_solved [OF assms(1,2)] by blast
  have "\<not> outside (gP (dpGrids ?q ?S)) 0 (pInitialSoC p)" using assms(5,6) by (simp add: outside_def)
  from replays_band [OF r this] have "list_all (\<lambda>a. \<not> outside ?q (real (length (plActions plan)) / 10 ^ 9) (aSoC a)) (plActions plan)"
    by simp
  then have "list_all (\<lambda>a. pSoCMin p - real (length (plActions plan)) / 10 ^ 9 \<le> aSoC a
         \<and> aSoC a \<le> pSoCMax p + real (length (plActions plan)) / 10 ^ 9) (plActions plan)"
    by (rule list.pred_mono_strong) (auto simp: outside_def)
  moreover have "plTotalCostOre plan = sum_list (map aCostOre (plActions plan))"
    "plHorizonSlots plan = length (plActions plan)"
    using replays_length [OF r] by (simp_all add: s solvedPlan_simps)
  ultimately show ?thesis using r by blast
qed

text \<open>Without a car, every action of a plan Core returns keeps the grid contract of the mode it
  was planned for, although the simulation leaves the grid of states and clips the battery to its
  real charge: in the modes where the battery may not export, the flow never falls below what house
  and sun alone would give, or zero, by more than the tolerance; in self-consumption the battery
  moves the flow toward zero and never past it by more than 50 W.\<close>

theorem optimized_plan_keeps_mode:
  assumes "OptimizeContext ctx now slots p = (plan, None)" "\<not> lpActive (pLoadpoint p)"
    and "0 \<le> pMaxChargeW p" "0 \<le> pMaxDischargeW p"
    and "list_all (\<lambda>s. 0 < DurationHours s) (sanitizeOptimizeSlots slots)"
  shows "list_all (\<lambda>a. modeAllows (plMode plan) (aLoadW a + aPVW a) (aGridW a) (aBatteryW a)) (plActions plan)"
proof (cases "plActions plan = []")
  case False
  let ?S = "sanitizeOptimizeSlots slots" and ?q = "withDefaults p"
  obtain V pols where s: "backward (dpGrids ?q ?S) (ctxSlot ctx) 0 ?S = Inr (V, pols)"
    "plan = solvedPlan now ?q ?S pols" "0 < pCapacityWh p"
    using OptimizeContext_solved [OF assms(1) False] by blast
  have ok: "gridsOk (dpGrids ?q ?S)" using assms(3,4) s(3) by (intro dpGrids_ok) simp_all
  have "gLp (dpGrids ?q ?S) = None" using assms(2) by simp
  from simulate_mode [OF ok this backward_policiesFor [OF dpGrids_sane s(1)] assms(5)]
  show ?thesis by (simp add: s(2) solvedPlan_simps list_all_iff)
qed simp

text \<open>The planner never hands out a plan together with a refusal: when \<open>OptimizeContext\<close> reports an
  error and the context has not expired at the very end, the plan is the empty one. It refuses a
  site without a battery, with several batteries or cars, or whose battery has other efficiencies
  than the aggregate; a first slot whose execution starts outside it; a grid above 64 MiB; and a
  context that expires before any slot of the backward pass.\<close>

theorem optimize_refuses_with_empty_plan:
  assumes "OptimizeContext ctx now slots p = (plan, Some e)"
  shows "plan = emptyPlan \<or> ctxEnd ctx = Some e"
  using assms
  by (auto simp: OptimizeContext_def optimizeSane_def Let_def split: option.splits sum.splits if_splits prod.splits)

section \<open>The example planned\<close>

definition exampleInput :: "f64 slotOf list" where
  "exampleInput = finiteSlots exampleSlots"

lemma example_sanitized: "sanitizeOptimizeSlots exampleInput = exampleSlots"
  by code_simp

lemma example_plan:
  "OptimizeContext background 0 exampleInput exampleParams
     = (solvedPlan 0 (withDefaults exampleParams) exampleSlots [[[1], [0], [1]], [[2], [2], [1]]], None)"
proof -
  have d: "withDefaults exampleParams = exampleParams" by code_simp
  have "validatePartialSlots exampleInput = None" "coreDPModelError exampleParams = None"
    "\<not> workingBytes (length exampleSlots) exampleParams > 64 * 1024 * 1024"
    "exampleSlots \<noteq> []" "\<not> pCapacityWh exampleParams \<le> 0"
    by code_simp+
  then show ?thesis
    by (simp add: OptimizeContext_def optimizeSane_def example_sanitized d example_backward background_def)
qed

lemma example_actions:
  "map (\<lambda>a. (aBatteryW a, aGridW a, aSoC a, aCostOre a))
     (plActions (solvedPlan 0 (withDefaults exampleParams) exampleSlots [[[1], [0], [1]], [[2], [2], [1]]]))
   = [(- 500, - 500, 0, 50), (500, - 100, 1 / 2, 0)]"
  by code_simp

theorem optimized_plan_replays_witness:
  "plTotalCostOre (fst (OptimizeContext background 0 exampleInput exampleParams)) = 50"
proof -
  let ?pl = "solvedPlan 0 (withDefaults exampleParams) exampleSlots [[[1], [0], [1]], [[2], [2], [1]]]"
  have len: "length (plActions ?pl) = 2"
    using arg_cong [OF example_actions, of length] by simp
  have "plActions ?pl \<noteq> []" using len by auto
  moreover have "list_all (\<lambda>s. 0 < DurationHours s) (sanitizeOptimizeSlots exampleInput)"
    unfolding example_sanitized by code_simp
  moreover have "0 \<le> pMaxChargeW exampleParams" "0 \<le> pMaxDischargeW exampleParams"
    "pSoCMin exampleParams \<le> pInitialSoC exampleParams" "pInitialSoC exampleParams \<le> pSoCMax exampleParams"
    by code_simp+
  ultimately have "plTotalCostOre ?pl = sum_list (map aCostOre (plActions ?pl))"
    using optimized_plan_replays [OF example_plan] by blast
  also have "map aCostOre (plActions ?pl) = map (\<lambda>x. snd (snd (snd x)))
      (map (\<lambda>a. (aBatteryW a, aGridW a, aSoC a, aCostOre a)) (plActions ?pl))" by simp
  also have "\<dots> = [50, 0]" by (simp only: example_actions) simp
  finally show ?thesis by (simp add: example_plan)
qed

theorem optimized_plan_keeps_mode_witness:
  "list_all (\<lambda>a. modeAllows (plMode (fst (OptimizeContext background 0 exampleInput exampleParams)))
      (aLoadW a + aPVW a) (aGridW a) (aBatteryW a))
    (plActions (fst (OptimizeContext background 0 exampleInput exampleParams)))"
proof -
  have "list_all (\<lambda>s. 0 < DurationHours s) (sanitizeOptimizeSlots exampleInput)"
    unfolding example_sanitized by code_simp
  moreover have "\<not> lpActive (pLoadpoint exampleParams)" "0 \<le> pMaxChargeW exampleParams"
    "0 \<le> pMaxDischargeW exampleParams" by code_simp+
  ultimately show ?thesis
    using optimized_plan_keeps_mode [OF example_plan] by (simp add: example_plan)
qed

theorem optimize_refuses_with_empty_plan_witness:
  "fst (OptimizeContext background 0 exampleInput (exampleParams\<lparr>pCapacityWh := 0\<rparr>)) = emptyPlan"
proof -
  have "OptimizeContext background 0 exampleInput (exampleParams\<lparr>pCapacityWh := 0\<rparr>)
      = (emptyPlan, Some ''Core DP requires a battery; Energyplan plans this site without storage'')"
    by (simp add: OptimizeContext_def background_def coreDPModelError_def)
  from optimize_refuses_with_empty_plan [OF this] this show ?thesis by (simp add: background_def)
qed

end
