(* ===== verification/Mpc_Validate.thy ===== *)
theory Mpc_Validate
  imports Mpc_Forward
begin

text \<open>
  The gate every plan passes before it is published (\<open>external_optimizer.go\<close>, \<open>fleet_contract.go\<close>,
  \<open>ev_reserve.go\<close>, \<open>import_hours.go\<close>): \<open>ValidatePlan\<close> replays a candidate against the site's sign
  convention and constraints, each storage and each car by its identity, and rejects it on the first
  rule it breaks. A worker's numbers come from JSON, which carries no NaN and no infinity, so an
  action's numbers are finite here and the code's tests for special values have nothing to do.
\<close>

section \<open>Checks in sequence\<close>

fun bindE :: "'e + 'a \<Rightarrow> ('a \<Rightarrow> 'e + 'b) \<Rightarrow> 'e + 'b" where
  "bindE (Inl e) f = Inl e"
| "bindE (Inr x) f = f x"

definition ensure :: "bool \<Rightarrow> 'e \<Rightarrow> 'e + unit" where
  "ensure b e = (if b then Inr () else Inl e)"

fun foldE :: "('a \<Rightarrow> 's \<Rightarrow> 'e + 's) \<Rightarrow> 'a list \<Rightarrow> 's \<Rightarrow> 'e + 's" where
  "foldE f [] s = Inr s"
| "foldE f (x # xs) s = bindE (f x s) (foldE f xs)"

lemma bindE_Inr [simp]: "bindE m f = Inr y \<longleftrightarrow> (\<exists>x. m = Inr x \<and> f x = Inr y)"
  by (cases m) auto

lemma ensure_Inr [simp]: "ensure b e = Inr u \<longleftrightarrow> b"
  by (simp add: ensure_def)

text \<open>A missing key of a Go map reads as zero.\<close>

definition numAt :: "(string, real) gomap \<Rightarrow> string \<Rightarrow> real" where
  "numAt m k = (case mget m k of None \<Rightarrow> 0 | Some v \<Rightarrow> v)"

definition hasKey :: "(string, 'v) gomap \<Rightarrow> string \<Rightarrow> bool" where
  "hasKey m k = (mget m k \<noteq> None)"

section \<open>Pulses\<close>

definition solverGridLimitToleranceW :: real where "solverGridLimitToleranceW = 1 / 10"
definition solverZeroPowerToleranceW :: real where "solverZeroPowerToleranceW = 1 / 10 ^ 5"

definition pulseCuts :: "Action \<Rightarrow> real list" where
  "pulseCuts a =
     sort ([0, 1] @ concat (map (\<lambda>(i, peak).
        let average = numAt (aLoadpointPowerW a) i
        in if peak > 0 \<and> average > 0 \<and> average < peak then [average / peak] else [])
        (aLoadpointMaxPowerW a)))"

definition pulseTotal :: "Action \<Rightarrow> real" where
  "pulseTotal a = sum_list (map (\<lambda>(i, peak). numAt (aLoadpointPowerW a) i) (aLoadpointMaxPowerW a))"

definition pulseFlow :: "Action \<Rightarrow> real \<Rightarrow> real" where
  "pulseFlow a midpoint =
     aGridW a - pulseTotal a
     + sum_list (map (\<lambda>(i, peak). if peak > 0 \<and> numAt (aLoadpointPowerW a) i / peak > midpoint
                                  then peak else 0) (aLoadpointMaxPowerW a))"

definition pulseGridW :: "Action \<Rightarrow> (real \<times> real) list" where
  "pulseGridW a =
     (if aLoadpointMaxPowerW a = [] then [(1, aGridW a)]
      else map (\<lambda>i. (pulseCuts a ! i - pulseCuts a ! (i - 1),
                     pulseFlow a ((pulseCuts a ! (i - 1) + pulseCuts a ! i) / 2)))
             [1..<length (pulseCuts a)])"

definition reserveSlotCost :: "Slot \<Rightarrow> Params \<Rightarrow> Action \<Rightarrow> real" where
  "reserveSlotCost slot p a =
     (if aLoadpointMaxPowerW a = [] then SlotGridCostOre slot (aGridW a * DurationHours slot / 1000) p
      else sum_list (map (\<lambda>(share, gridW). share * SlotGridCostOre slot (gridW * DurationHours slot / 1000) p)
             (pulseGridW a)))"

text \<open>The draws a pulse check sums: least and most simultaneous, and that of surplus-only cars.\<close>

definition pulseOf :: "bool \<Rightarrow> Slot \<Rightarrow> Action \<Rightarrow> real \<Rightarrow> nat \<times> LoadpointSpec
    \<Rightarrow> real \<times> real \<times> real \<Rightarrow> string + real \<times> real \<times> real" where
  "pulseOf vehicleRules slot a pvW ilp acc =
     (case (ilp, acc) of ((i, lp), (minEV, maxEV, solarPeak)) \<Rightarrow>
        bindE (ensure (hasKey (aLoadpointMaxPowerW a) (lID lp) \<and> hasKey (aLoadpointPowerW a) (lID lp)
                 \<and> 0 \<le> numAt (aLoadpointPowerW a) (lID lp) \<and> 0 \<le> numAt (aLoadpointMaxPowerW a) (lID lp))
               ''invalid EV pulse identity or power'')
          (\<lambda>_.
            let average = (if numAt (aLoadpointPowerW a) (lID lp) \<le> 1 / 10 ^ 7 then 0
                           else numAt (aLoadpointPowerW a) (lID lp));
                peak = (if numAt (aLoadpointMaxPowerW a) (lID lp) \<le> 1 / 10 ^ 7 then 0
                        else numAt (aLoadpointMaxPowerW a) (lID lp))
            in bindE (ensure (\<not> (peak < average \<or> (average = 0 \<and> peak \<noteq> 0)))
                        ''invalid EV pulse identity or power'')
                 (\<lambda>_. bindE (ensure (\<not> (i = 0 \<and> \<bar>aLoadpointW a - average\<bar> > 1 / 10 ^ 6))
                          ''EV pulse average disagrees with loadpoint allocation'')
                   (\<lambda>_. bindE (ensure (\<not> (vehicleRules \<and> peak > 0 \<and> blocksBatteryToEV lp
                              \<and> BatteryDischargeFeedsEV (aBatteryW a) peak (sLoadW slot) pvW))
                            ''battery discharge feeds EV pulse'')
                     (\<lambda>_. Inr (minEV + (if average = peak then peak else 0), maxEV + peak,
                               solarPeak + (if lSurplusOnly lp then peak else 0)))))))"

definition pulseEndpoint :: "bool \<Rightarrow> Slot \<Rightarrow> Params \<Rightarrow> Action \<Rightarrow> real \<Rightarrow> real \<Rightarrow> string + unit" where
  "pulseEndpoint vehicleRules slot p a pvW evPower =
     (let baseline = sLoadW slot + pvW + evPower; grid = baseline + aBatteryW a
      in bindE (ensure (\<not> ((sMaxImportW slot > 0 \<and> grid > sMaxImportW slot + solverGridLimitToleranceW)
                  \<or> (sMaxExportW slot > 0 \<and> grid < - sMaxExportW slot - solverGridLimitToleranceW)))
                ''EV pulse violates instantaneous grid limit'')
           (\<lambda>_. bindE (ensure (modeAllows (pMode p) baseline grid (aBatteryW a)) ''EV pulse violates mode'')
             (\<lambda>_. ensure (\<not> (vehicleRules \<and> evPower > 0 \<and> aBatteryW a < 0 \<and> grid < - 50))
                    ''EV pulse charges during battery export'')))"

definition validateEVPulse :: "Slot \<Rightarrow> Params \<Rightarrow> Action \<Rightarrow> real \<Rightarrow> bool \<Rightarrow> string + unit" where
  "validateEVPulse slot p a pvW vehicleRules =
     (if aLoadpointMaxPowerW a = [] then Inr ()
      else bindE (ensure (length (activeLoadpoints p) = length (aLoadpointMaxPowerW a))
                    ''EV pulse must retain every loadpoint'')
        (\<lambda>_. bindE (foldE (pulseOf vehicleRules slot a pvW)
                      (zip [0..<length (activeLoadpoints p)] (activeLoadpoints p)) (0, 0, 0))
          (\<lambda>(minEV, maxEV, solarPeak).
             bindE (ensure (\<not> SurplusOnlyExceedsHousePV solarPeak (sLoadW slot) pvW)
                      ''EV pulses exceed PV surplus'')
               (\<lambda>_. bindE (pulseEndpoint vehicleRules slot p a pvW minEV)
                 (\<lambda>_. pulseEndpoint vehicleRules slot p a pvW maxEV)))))"

section \<open>The hours' import\<close>

definition actionChargesCar :: "Action \<Rightarrow> bool" where
  "actionChargesCar a =
     (aLoadpointW a > solverZeroPowerToleranceW
      \<or> list_ex (\<lambda>(i, w). w > solverZeroPowerToleranceW) (aLoadpointPowerW a))"

definition actionImportWh :: "ImportHour \<Rightarrow> Slot \<times> Action \<Rightarrow> real" where
  "actionImportWh h sa =
     (let ov = importHourOverlapH (fst sa) h
      in if ov \<le> 0 then 0
         else sum_list (map (\<lambda>(share, gridW). share * max 0 gridW * ov) (pulseGridW (snd sa))))"

definition hourCharged :: "ImportHour \<Rightarrow> (Slot \<times> Action) list \<Rightarrow> bool" where
  "hourCharged h sas = list_ex (\<lambda>(s, a). importHourOverlapH s h > 0 \<and> actionChargesCar a) sas"

definition hourOverrun :: "Slot list \<Rightarrow> Params \<Rightarrow> Action list \<Rightarrow> ImportHour \<Rightarrow> bool" where
  "hourOverrun slots p actions h =
     (let sas = zip slots actions;
          spanH = importHourPlannedH slots h;
          importWh = sum_list (map (actionImportWh h) sas);
          houseWh = (if hourCharged h sas then 0 else houseImportWh slots h);
          leftWh = importLeftWh h (pImportMeanW p)
      in importWh > max (max leftWh houseWh) 0 + solverGridLimitToleranceW * spanH)"

definition validateImportHours :: "Slot list \<Rightarrow> Params \<Rightarrow> Action list \<Rightarrow> string option" where
  "validateImportHours slots p actions =
     (if list_ex (hourOverrun slots p actions) (pImportHours p)
      then Some ''clock hour imports over what it has left'' else None)"

section \<open>Assets\<close>

definition validateAssetMaps :: "Params \<Rightarrow> Action \<Rightarrow> string + unit" where
  "validateAssetMaps p a =
     (let charging = list_ex (\<lambda>(i, w). w > 2) (aStoragePowerW a);
          discharging = list_ex (\<lambda>(i, w). w < - 2) (aStoragePowerW a);
          loads = activeLoadpoints p
      in bindE (ensure (\<not> (charging \<and> discharging))
                  ''opposing physical storage directions cannot be dispatched'')
           (\<lambda>_. bindE (ensure (\<not> (pCapacityWh p = 0
                    \<and> (pStorages p \<noteq> [] \<or> aStoragePowerW a \<noteq> [] \<or> aStorageEnergyWh a \<noteq> []
                       \<or> aBatteryW a \<noteq> 0 \<or> aSoC a \<noteq> 0 \<or> pInitialSoC p \<noteq> 0)))
                  ''site without storage contains battery power or energy'')
             (\<lambda>_. bindE (ensure (\<not> ((requiresStorageMaps p \<or> (pStorages p \<noteq> [] \<and> aStoragePowerW a \<noteq> []))
                      \<and> (length (aStoragePowerW a) \<noteq> length (pStorages p)
                         \<or> length (aStorageEnergyWh a) \<noteq> length (pStorages p))))
                    ''plan must retain every physical storage'')
               (\<lambda>_. if length loads > 1 \<or> aLoadpointPowerW a \<noteq> [] then
                      bindE (ensure (length (aLoadpointPowerW a) = length loads
                                \<and> length (aLoadpointSoCByID a) = length loads)
                              ''plan must retain every EV'')
                        (\<lambda>_. ensure (list_all (\<lambda>e. hasKey (aLoadpointPowerW a) (lID e)
                                      \<and> hasKey (aLoadpointSoCByID a) (lID e)) loads)
                               ''plan omits EV'')
                    else Inr ()))))"

section \<open>Replay\<close>

text \<open>What the replay carries from slot to slot. A storage's entry is its energy and how far it was
  below and above its operating band at its best so far.\<close>

record replayState =
  rsSoc :: real
  rsLower :: real
  rsUpper :: real
  rsStorage :: "(string, real \<times> real \<times> real) gomap"
  rsEvSoC :: "(string, real) gomap"
  rsShortfall :: "(string, real) gomap"
  rsCost :: real

definition storageAt :: "(string, real \<times> real \<times> real) gomap \<Rightarrow> string \<Rightarrow> real \<times> real \<times> real" where
  "storageAt m k = (case mget m k of None \<Rightarrow> (0, 0, 0) | Some v \<Rightarrow> v)"

definition replayStart :: "Params \<Rightarrow> replayState" where
  "replayStart p =
     \<lparr>rsSoc = pInitialSoC p, rsLower = max 0 (pSoCMin p - pInitialSoC p),
      rsUpper = max 0 (pInitialSoC p - pSoCMax p),
      rsStorage = fold (\<lambda>s. mset_at (saID s) (saInitialEnergyWh s,
          max 0 (saMinEnergyWh s - saInitialEnergyWh s), max 0 (saInitialEnergyWh s - saMaxEnergyWh s)))
          (pStorages p) [],
      rsEvSoC = fold (\<lambda>lp. mset_at (lID lp) (lInitialSoC lp)) (activeLoadpoints p) [],
      rsShortfall = [], rsCost = 0\<rparr>"

definition replayStorage :: "real \<Rightarrow> Action \<Rightarrow> StorageAssetSpec
    \<Rightarrow> (string, real \<times> real \<times> real) gomap \<times> real \<times> real
    \<Rightarrow> string + (string, real \<times> real \<times> real) gomap \<times> real \<times> real" where
  "replayStorage dtH a s acc =
     (case acc of (m, totalPowerW, totalEnergyWh) \<Rightarrow>
        bindE (ensure (hasKey (aStoragePowerW a) (saID s) \<and> hasKey (aStorageEnergyWh a) (saID s))
                 ''storage output missing'')
          (\<lambda>_.
            let powerW = numAt (aStoragePowerW a) (saID s);
                (energy, lower, upper) = storageAt m (saID s);
                energyWh = energy + BatteryEnergyDeltaWh powerW dtH (saChargeEfficiency s) (saDischargeEfficiency s);
                tol = max 1 (saCapacityWh s * (2 / 10000));
                lowerRecovery = max 0 (saMinEnergyWh s - energyWh);
                upperRecovery = max 0 (energyWh - saMaxEnergyWh s)
            in bindE (ensure (\<not> (powerW > saMaxChargeW s + 2 \<or> powerW < - saMaxDischargeW s - 2))
                        ''storage power exceeds bounds'')
                 (\<lambda>_. bindE (ensure (\<not> (energyWh < - tol \<or> energyWh > saCapacityWh s + tol
                              \<or> \<bar>numAt (aStorageEnergyWh a) (saID s) - energyWh\<bar> > tol))
                            ''storage energy inconsistent with replay'')
                   (\<lambda>_. bindE (ensure (\<not> (lowerRecovery > lower + tol \<or> upperRecovery > upper + tol))
                              ''storage worsens operating-bound recovery'')
                     (\<lambda>_. Inr (mset_at (saID s) (energyWh, min lower lowerRecovery, min upper upperRecovery) m,
                               totalPowerW + powerW, totalEnergyWh + energyWh))))))"

definition replayBattery :: "Params \<Rightarrow> real \<Rightarrow> Action \<Rightarrow> replayState \<Rightarrow> string + replayState" where
  "replayBattery p dtH a rs =
     (if pStorages p \<noteq> [] \<and> aStoragePowerW a \<noteq> [] then
        bindE (foldE (replayStorage dtH a) (pStorages p) (rsStorage rs, 0, 0))
          (\<lambda>(m, totalPowerW, totalEnergyWh).
             bindE (ensure (\<bar>aBatteryW a - totalPowerW\<bar> \<le> 2) ''aggregate battery_w'')
               (\<lambda>_. Inr (rs\<lparr>rsStorage := m, rsSoc := totalEnergyWh / pCapacityWh p\<rparr>)))
      else if pCapacityWh p = 0 then Inr (rs\<lparr>rsSoc := 0\<rparr>)
      else bindE (ensure (pCapacityWh p > 0) ''capacity_wh must be positive to replay aggregate energy'')
             (\<lambda>_. Inr (rs\<lparr>rsSoc := rsSoc rs + BatteryEnergyDeltaWh (aBatteryW a) dtH (pChargeEfficiency p)
                                            (pDischargeEfficiency p) / pCapacityWh p\<rparr>)))"

definition replayBand :: "Params \<Rightarrow> Action \<Rightarrow> replayState \<Rightarrow> string + replayState" where
  "replayBand p a rs =
     (let lowerRecovery = max 0 (pSoCMin p - rsSoc rs); upperRecovery = max 0 (rsSoc rs - pSoCMax p)
      in bindE (ensure (\<not> (lowerRecovery > rsLower rs + 2 / 10000 \<or> upperRecovery > rsUpper rs + 2 / 10000
                     \<or> \<bar>aSoC a - rsSoc rs\<bar> > 2 / 10000)) ''SoC inconsistent with replay'')
           (\<lambda>_. Inr (rs\<lparr>rsLower := min (rsLower rs) lowerRecovery, rsUpper := min (rsUpper rs) upperRecovery\<rparr>)))"

definition carPowerW :: "Action \<Rightarrow> nat \<times> LoadpointSpec \<Rightarrow> real" where
  "carPowerW a ilp =
     (if aLoadpointPowerW a = [] \<and> fst ilp = 0 then aLoadpointW a
      else numAt (aLoadpointPowerW a) (lID (snd ilp)))"

definition carSoC :: "Action \<Rightarrow> nat \<times> LoadpointSpec \<Rightarrow> real" where
  "carSoC a ilp =
     (if aLoadpointPowerW a = [] \<and> fst ilp = 0 then aLoadpointSoC a
      else numAt (aLoadpointSoCByID a) (lID (snd ilp)))"

definition departureMissWh :: "LoadpointSpec \<Rightarrow> real" where
  "departureMissWh lp =
     (if lInitialCharging lp \<or> lMinChargeSeconds lp \<le> 0 then 1
      else let efficiency = (if lChargeEfficiency lp \<le> 0 then 9 / 10 else lChargeEfficiency lp)
           in case find (\<lambda>step. step > 0) (normalizedSteps lp) of
                None \<Rightarrow> 1
              | Some step \<Rightarrow> max 1 (step * lMinChargeSeconds lp / 3600 * efficiency / 2))"

definition replayCar :: "nat \<Rightarrow> real \<Rightarrow> Action \<Rightarrow> nat \<times> LoadpointSpec
    \<Rightarrow> replayState \<times> real \<Rightarrow> string + replayState \<times> real" where
  "replayCar i dtH a ilp acc =
     (case (ilp, acc) of ((k, lp), (rs, totalLoadpointW)) \<Rightarrow>
        let powerW = carPowerW a ilp;
            stepW = (case mget (aLoadpointMaxPowerW a) (lID lp) of None \<Rightarrow> powerW | Some peak \<Rightarrow> peak);
            eff = (if lChargeEfficiency lp \<le> 0 then 9 / 10 else lChargeEfficiency lp);
            evSoC = numAt (rsEvSoC rs) (lID lp) + powerW * dtH * eff / lCapacityWh lp;
            maxSoC = (if lSoCMax lp \<le> lSoCMin lp then 1 else lSoCMax lp);
            missing = max 0 (lTargetSoC lp - evSoC) * lCapacityWh lp
        in bindE (ensure (\<not> (hasKey (aLoadpointMaxPowerW a) (lID lp)
                     \<and> (powerW < 0 \<or> powerW > stepW + 1 / 10 ^ 6))) ''invalid EV on-power'')
             (\<lambda>_. bindE (ensure (list_ex (\<lambda>step. \<bar>step - stepW\<bar> \<le> 2) (normalizedSteps lp))
                      ''loadpoint power is not an allowed step'')
               (\<lambda>_. bindE (ensure (\<not> (evSoC < - (2 / 10000) \<or> evSoC > maxSoC + 2 / 10000))
                        ''loadpoint energy exceeds capacity'')
                 (\<lambda>_. bindE (ensure (\<bar>carSoC a ilp - evSoC\<bar> \<le> 2 / 10000)
                          ''loadpoint SoC inconsistent with replay'')
                   (\<lambda>_. Inr (rs\<lparr>rsEvSoC := mset_at (lID lp) evSoC (rsEvSoC rs),
                                 rsShortfall := (if lTargetSoC lp > 0 \<and> int i = lTargetSlotIdx lp
                                                    \<and> missing > departureMissWh lp
                                                 then mset_at (lID lp) missing (rsShortfall rs)
                                                 else rsShortfall rs)\<rparr>,
                             totalLoadpointW + powerW))))))"

text \<open>The sun the plan counts with in a slot: the forecast, or the cap it applied.\<close>

definition planPVW :: "Slot \<Rightarrow> Action \<Rightarrow> real \<Rightarrow> string + real" where
  "planPVW slot a totalLoadpointW =
     (if aPVCurtailActive a then
        (let pv = EffectivePVW (sPVW slot) (aPVLimitW a) True
         in bindE (ensure (\<bar>aGridW a - GridFlowW (sLoadW slot) pv (aBatteryW a) totalLoadpointW\<bar> \<le> 2)
                     ''grid balance'') (\<lambda>_. Inr pv))
      else if \<bar>aGridW a - GridFlowW (sLoadW slot) (sPVW slot) (aBatteryW a) totalLoadpointW\<bar> > 2 then
        (let pv = (if aPVLimitW a > 0 then EffectivePVW (sPVW slot) (aPVLimitW a) True else sPVW slot)
         in bindE (ensure (\<bar>aGridW a - GridFlowW (sLoadW slot) pv (aBatteryW a) totalLoadpointW\<bar> \<le> 2)
                     ''grid balance'') (\<lambda>_. Inr pv))
      else Inr (sPVW slot))"

definition carRules :: "bool \<Rightarrow> Slot \<Rightarrow> Action \<Rightarrow> real \<Rightarrow> nat \<times> LoadpointSpec \<Rightarrow> real \<Rightarrow> string + real" where
  "carRules vehicleRules slot a pvW ilp totalSurplusOnlyW =
     (let lp = snd ilp; powerW = carPowerW a ilp
      in bindE (ensure (\<not> (lSurplusOnly lp \<and> SurplusOnlyExceedsHousePV powerW (sLoadW slot) pvW))
                  ''surplus-only loadpoint exceeds PV leftover after house load'')
           (\<lambda>_. bindE (ensure (\<not> (vehicleRules \<and> powerW > solverZeroPowerToleranceW
                        \<and> aBatteryW a < - solverZeroPowerToleranceW \<and> aGridW a < - 50))
                    ''loadpoint charges during battery-driven export'')
             (\<lambda>_. bindE (ensure (\<not> (vehicleRules \<and> blocksBatteryToEV lp
                          \<and> BatteryDischargeFeedsEV (aBatteryW a) powerW (sLoadW slot) pvW))
                      ''battery discharge feeds loadpoint'')
               (\<lambda>_. Inr (if lSurplusOnly lp then totalSurplusOnlyW + powerW else totalSurplusOnlyW)))))"

definition indexedCars :: "Params \<Rightarrow> (nat \<times> LoadpointSpec) list" where
  "indexedCars p = zip [0..<length (activeLoadpoints p)] (activeLoadpoints p)"

definition checkFlows :: "bool \<Rightarrow> Params \<Rightarrow> Slot \<Rightarrow> Action \<Rightarrow> real \<Rightarrow> string + unit" where
  "checkFlows vehicleRules p slot a totalLoadpointW =
     bindE (ensure (\<not> (aPVCurtailActive a \<and> aPVLimitW a = 0)) ''active zero PV cap cannot be dispatched'')
       (\<lambda>_. bindE (ensure (\<not> (aPVLimitW a < 0
                  \<or> (\<not> aPVCurtailActive a \<and> aPVLimitW a > 0 \<and> aPVLimitW a > - sPVW slot + 2)))
                ''pv_limit_w exceeds forecast generation'')
         (\<lambda>_. bindE (planPVW slot a totalLoadpointW)
           (\<lambda>pvW. bindE (foldE (carRules vehicleRules slot a pvW) (indexedCars p) 0)
             (\<lambda>totalSurplusOnlyW.
                bindE (ensure (\<not> SurplusOnlyExceedsHousePV totalSurplusOnlyW (sLoadW slot) pvW)
                         ''surplus-only EVs exceed shared leftover PV'')
                  (\<lambda>_. bindE (ensure (modeAllows (pMode p) (GridFlowW (sLoadW slot) pvW 0 totalLoadpointW)
                               (aGridW a) (aBatteryW a)) ''violates mode'')
                    (\<lambda>_. bindE (ensure (\<not> ((sMaxImportW slot > 0
                                      \<and> aGridW a > sMaxImportW slot + solverGridLimitToleranceW)
                                   \<or> (sMaxExportW slot > 0
                                      \<and> aGridW a < - sMaxExportW slot - solverGridLimitToleranceW)))
                               ''grid_w violates grid limits'')
                      (\<lambda>_. validateEVPulse slot p a pvW vehicleRules)))))))"

definition replaySlot :: "bool \<Rightarrow> Params \<Rightarrow> nat \<times> Slot \<times> Action \<Rightarrow> replayState \<Rightarrow> string + replayState" where
  "replaySlot vehicleRules p isa rs =
     (case isa of (i, slot, a) \<Rightarrow>
        let dtH = DurationHours slot
        in bindE (validateAssetMaps p a)
             (\<lambda>_. bindE (ensure (aSlotStartMs a = sStartMs slot \<and> aSlotLenMin a = sLenMin slot
                         \<and> aExecutionStartMs a = sExecutionStartMs slot) ''timestamp/length mismatch'')
               (\<lambda>_. bindE (ensure (\<not> (aBatteryW a > pMaxChargeW p + 2 \<or> aBatteryW a < - pMaxDischargeW p - 2))
                        ''battery_w exceeds bounds'')
                 (\<lambda>_. bindE (replayBattery p dtH a rs)
                   (\<lambda>rs. bindE (replayBand p a rs)
                     (\<lambda>rs. bindE (foldE (replayCar i dtH a) (indexedCars p) (rs, 0))
                       (\<lambda>(rs, totalLoadpointW).
                          bindE (checkFlows vehicleRules p slot a totalLoadpointW)
                            (\<lambda>_. bindE (ensure (\<bar>aCostOre a - reserveSlotCost slot p a\<bar> \<le> 5 / 100) ''slot cost'')
                              (\<lambda>_. Inr (rs\<lparr>rsCost := rsCost rs + reserveSlotCost slot p a\<rparr>))))))))))"

text \<open>A plan is refused for a rule it breaks, or for a clock hour alone: such an overrun keeps the plan.\<close>

datatype planError = PlanError string | ImportHourOverrun Plan string

definition indexedSlots :: "Slot list \<Rightarrow> Plan \<Rightarrow> (nat \<times> Slot \<times> Action) list" where
  "indexedSlots slots plan = zip [0..<length slots] (zip slots (plActions plan))"

definition validatePlan :: "Slot list \<Rightarrow> Params \<Rightarrow> Plan \<Rightarrow> bool \<Rightarrow> planError + Plan" where
  "validatePlan slots p plan vehicleRules =
     (case validatePartialSlots slots of
        Some e \<Rightarrow> Inl (PlanError e)
      | None \<Rightarrow>
          if length (plActions plan) \<noteq> length slots then Inl (PlanError ''action count'')
          else if slots = [] then Inl (PlanError ''empty plan'')
          else case foldE (replaySlot vehicleRules p) (indexedSlots slots plan) (replayStart p) of
                 Inl e \<Rightarrow> Inl (PlanError e)
               | Inr rs \<Rightarrow>
                   let plan = plan\<lparr>plLoadpointShortfallWh := rsShortfall rs\<rparr>
                   in if \<bar>plTotalCostOre plan - rsCost rs\<bar> > 1 / 10 then Inl (PlanError ''total cost'')
                      else case validateImportHours slots p (plActions plan) of
                             Some e \<Rightarrow> Inl (ImportHourOverrun plan e)
                           | None \<Rightarrow> Inr plan)"

definition ValidatePlan :: "Slot list \<Rightarrow> Params \<Rightarrow> Plan \<Rightarrow> planError + Plan" where
  "ValidatePlan slots p plan = validatePlan slots p plan True"

section \<open>What an accepted plan guarantees\<close>

text \<open>The state of charge that follows from the battery powers of a plan alone.\<close>

fun socPath :: "Params \<Rightarrow> real \<Rightarrow> Slot list \<Rightarrow> Action list \<Rightarrow> real list" where
  "socPath p soc (s # ss) (a # as) =
     (let soc' = soc + BatteryEnergyDeltaWh (aBatteryW a) (DurationHours s) (pChargeEfficiency p)
                         (pDischargeEfficiency p) / pCapacityWh p
      in soc' # socPath p soc' ss as)"
| "socPath p soc _ _ = []"

lemma foldE_invariant:
  assumes "foldE f xs s = Inr s'" "\<And>x s s'. x \<in> set xs \<Longrightarrow> f x s = Inr s' \<Longrightarrow> Q s' = Q s"
  shows "Q s' = Q s"
  using assms
proof (induction xs arbitrary: s)
  case (Cons x xs)
  then obtain y where y: "f x s = Inr y" "foldE f xs y = Inr s'" by auto
  with Cons show ?case by (metis list.set_intros)
qed simp

lemma replayCar_keeps:
  assumes "replayCar i dtH a ilp acc = Inr acc'"
  shows "(rsSoc (fst acc'), rsLower (fst acc'), rsUpper (fst acc'), rsCost (fst acc'))
     = (rsSoc (fst acc), rsLower (fst acc), rsUpper (fst acc), rsCost (fst acc))"
proof -
  obtain k lp rs w where "ilp = (k, lp)" "acc = (rs, w)" by (cases ilp; cases acc) auto
  with assms show ?thesis by (auto simp: replayCar_def Let_def)
qed

lemma cars_keep:
  assumes "foldE (replayCar i dtH a) cars (rs, 0) = Inr (rs', w)"
  shows "rsSoc rs' = rsSoc rs" "rsLower rs' = rsLower rs" "rsUpper rs' = rsUpper rs" "rsCost rs' = rsCost rs"
  using foldE_invariant [OF assms, where Q = "\<lambda>acc. (rsSoc (fst acc), rsLower (fst acc), rsUpper (fst acc), rsCost (fst acc))"]
    replayCar_keeps by auto

text \<open>What one accepted slot says, on a site whose battery is replayed as one.\<close>

definition slotGuarantee :: "Params \<Rightarrow> Slot \<Rightarrow> Action \<Rightarrow> real \<Rightarrow> bool" where
  "slotGuarantee p s a soc \<longleftrightarrow>
     pSoCMin p - 2 / 10000 \<le> soc \<and> soc \<le> pSoCMax p + 2 / 10000 \<and> \<bar>aSoC a - soc\<bar> \<le> 2 / 10000
     \<and> - pMaxDischargeW p - 2 \<le> aBatteryW a \<and> aBatteryW a \<le> pMaxChargeW p + 2
     \<and> (0 < sMaxImportW s \<longrightarrow> aGridW a \<le> sMaxImportW s + 1 / 10)
     \<and> (0 < sMaxExportW s \<longrightarrow> - aGridW a \<le> sMaxExportW s + 1 / 10)
     \<and> \<bar>aCostOre a - reserveSlotCost s p a\<bar> \<le> 5 / 100"

fun guarantees :: "Params \<Rightarrow> real \<Rightarrow> Slot list \<Rightarrow> Action list \<Rightarrow> bool" where
  "guarantees p soc [] [] = True"
| "guarantees p soc (s # ss) (a # as) =
     (let soc' = soc + BatteryEnergyDeltaWh (aBatteryW a) (DurationHours s) (pChargeEfficiency p)
                         (pDischargeEfficiency p) / pCapacityWh p
      in slotGuarantee p s a soc' \<and> guarantees p soc' ss as)"
| "guarantees p soc _ _ = False"

lemma replaySlot_parts:
  assumes "replaySlot vr p (i, slot, a) rs = Inr rs'"
  obtains r1 r2 r3 w where "replayBattery p (DurationHours slot) a rs = Inr r1" "replayBand p a r1 = Inr r2"
    "foldE (replayCar i (DurationHours slot) a) (indexedCars p) (r2, 0) = Inr (r3, w)"
    "checkFlows vr p slot a w = Inr ()"
    "\<not> (aBatteryW a > pMaxChargeW p + 2 \<or> aBatteryW a < - pMaxDischargeW p - 2)"
    "\<bar>aCostOre a - reserveSlotCost slot p a\<bar> \<le> 5 / 100"
    "rs' = r3\<lparr>rsCost := rsCost r3 + reserveSlotCost slot p a\<rparr>"
  using assms by (auto simp: replaySlot_def Let_def split: prod.splits)

lemma checkFlows_limits:
  assumes "checkFlows vr p slot a w = Inr ()"
  shows "0 < sMaxImportW slot \<Longrightarrow> aGridW a \<le> sMaxImportW slot + 1 / 10"
    "0 < sMaxExportW slot \<Longrightarrow> - aGridW a \<le> sMaxExportW slot + 1 / 10"
  using assms by (auto simp: checkFlows_def solverGridLimitToleranceW_def)

lemma replaySlot_guarantee:
  assumes "replaySlot vr p (i, slot, a) rs = Inr rs'" "pStorages p = []" "pCapacityWh p \<noteq> 0"
    and "rsLower rs = 0" "rsUpper rs = 0"
  defines "soc' \<equiv> rsSoc rs + BatteryEnergyDeltaWh (aBatteryW a) (DurationHours slot) (pChargeEfficiency p)
                         (pDischargeEfficiency p) / pCapacityWh p"
  shows "slotGuarantee p slot a soc' \<and> rsSoc rs' = soc' \<and> rsLower rs' = 0 \<and> rsUpper rs' = 0
    \<and> rsCost rs' = rsCost rs + reserveSlotCost slot p a"
proof -
  obtain r1 r2 r3 w where r: "replayBattery p (DurationHours slot) a rs = Inr r1" "replayBand p a r1 = Inr r2"
    "foldE (replayCar i (DurationHours slot) a) (indexedCars p) (r2, 0) = Inr (r3, w)"
    "checkFlows vr p slot a w = Inr ()"
    "\<not> (aBatteryW a > pMaxChargeW p + 2 \<or> aBatteryW a < - pMaxDischargeW p - 2)"
    "\<bar>aCostOre a - reserveSlotCost slot p a\<bar> \<le> 5 / 100"
    "rs' = r3\<lparr>rsCost := rsCost r3 + reserveSlotCost slot p a\<rparr>"
    using replaySlot_parts [OF assms(1)] by blast
  have r1: "r1 = rs\<lparr>rsSoc := soc'\<rparr>"
    using r(1) assms(2,3) by (auto simp: replayBattery_def soc'_def)
  have r2: "r2 = r1\<lparr>rsLower := min 0 (max 0 (pSoCMin p - soc')), rsUpper := min 0 (max 0 (soc' - pSoCMax p))\<rparr>"
    and b: "max 0 (pSoCMin p - soc') \<le> 2 / 10000" "max 0 (soc' - pSoCMax p) \<le> 2 / 10000" "\<bar>aSoC a - soc'\<bar> \<le> 2 / 10000"
    using r(2) assms(4,5) by (auto simp: replayBand_def Let_def r1)
  have "pSoCMin p - 2 / 10000 \<le> soc'" "soc' \<le> pSoCMax p + 2 / 10000" using b(1,2) by linarith+
  then have "slotGuarantee p slot a soc'"
    using b(3) r(5,6) checkFlows_limits [OF r(4)] by (auto simp: slotGuarantee_def)
  then show ?thesis using cars_keep [OF r(3)] by (simp add: r(7) r2 r1 min_def)
qed

lemma replay_guarantees:
  assumes "foldE (replaySlot vr p) (zip [i..<i + length slots] (zip slots acts)) rs = Inr rs'"
    and "length acts = length slots" "pStorages p = []" "pCapacityWh p \<noteq> 0" "rsLower rs = 0" "rsUpper rs = 0"
  shows "guarantees p (rsSoc rs) slots acts
    \<and> rsCost rs' = rsCost rs + sum_list (map2 (\<lambda>s a. reserveSlotCost s p a) slots acts)"
  using assms(2,1,3-)
proof (induction acts slots arbitrary: i rs rule: list_induct2)
  case (Cons a as s ss)
  have "[i..<i + length (s # ss)] = i # [Suc i..<Suc i + length ss]"
    by (subst upt_conv_Cons) auto
  with Cons.prems(1) obtain r where r: "replaySlot vr p (i, s, a) rs = Inr r"
    "foldE (replaySlot vr p) (zip [Suc i..<Suc i + length ss] (zip ss as)) r = Inr rs'"
    by auto
  note g = replaySlot_guarantee [OF r(1) Cons.prems(2-5)]
  have "guarantees p (rsSoc r) ss as
      \<and> rsCost rs' = rsCost r + sum_list (map2 (\<lambda>s a. reserveSlotCost s p a) ss as)"
    using Cons.IH [OF r(2) Cons.prems(2,3)] g by blast
  with g show ?case by (simp add: Let_def)
qed simp

lemma validatePlan_parts:
  assumes "validatePlan slots p plan vr = Inr plan'"
  obtains rs where "length (plActions plan) = length slots" "slots \<noteq> []"
    "foldE (replaySlot vr p) (indexedSlots slots plan) (replayStart p) = Inr rs"
    "\<bar>plTotalCostOre plan - rsCost rs\<bar> \<le> 1 / 10" "validateImportHours slots p (plActions plan) = None"
    "plan' = plan\<lparr>plLoadpointShortfallWh := rsShortfall rs\<rparr>"
  using assms
  by (auto simp: validatePlan_def Let_def split: option.splits sum.splits if_splits)

lemma guarantees_path: "guarantees p soc ss as \<Longrightarrow> list_all (\<lambda>x. pSoCMin p - 2 / 10000 \<le> x \<and> x \<le> pSoCMax p + 2 / 10000) (socPath p soc ss as)"
  by (induction p soc ss as rule: guarantees.induct) (auto simp: Let_def slotGuarantee_def)

text \<open>C5: A plan the gate accepts is physical, whoever made it, on a site replayed as one battery that
  starts inside its operating band. The state of charge that follows from the plan's battery powers
  alone, not from what the plan reports, stays within two hundredths of a percent of the band at every
  slot of the whole horizon, without drifting from slot to slot, and the reported one agrees with it as
  closely; battery powers and grid flows keep their limits; the plan's total cost is the sum of what its
  flows cost at the slots' prices; and no clock hour imports beyond what it has left, or beyond the
  house's own import when no car charges in it.\<close>

theorem accepted_plan_is_physical:
  assumes "ValidatePlan slots p plan = Inr plan'" "pStorages p = []" "pCapacityWh p \<noteq> 0"
    and "pSoCMin p \<le> pInitialSoC p" "pInitialSoC p \<le> pSoCMax p"
  shows "guarantees p (pInitialSoC p) slots (plActions plan)
    \<and> list_all (\<lambda>x. pSoCMin p - 2 / 10000 \<le> x \<and> x \<le> pSoCMax p + 2 / 10000)
         (socPath p (pInitialSoC p) slots (plActions plan))
    \<and> \<bar>plTotalCostOre plan - sum_list (map2 (\<lambda>s a. reserveSlotCost s p a) slots (plActions plan))\<bar> \<le> 1 / 10
    \<and> list_all (\<lambda>h. \<not> hourOverrun slots p (plActions plan) h) (pImportHours p)"
proof -
  obtain rs where r: "length (plActions plan) = length slots"
    "foldE (replaySlot True p) (indexedSlots slots plan) (replayStart p) = Inr rs"
    "\<bar>plTotalCostOre plan - rsCost rs\<bar> \<le> 1 / 10" "validateImportHours slots p (plActions plan) = None"
    using validatePlan_parts assms(1) unfolding ValidatePlan_def by metis
  have s: "rsSoc (replayStart p) = pInitialSoC p" "rsLower (replayStart p) = 0" "rsUpper (replayStart p) = 0"
    "rsCost (replayStart p) = 0" using assms(4,5) by (simp_all add: replayStart_def)
  have "guarantees p (rsSoc (replayStart p)) slots (plActions plan)
    \<and> rsCost rs = rsCost (replayStart p) + sum_list (map2 (\<lambda>s a. reserveSlotCost s p a) slots (plActions plan))"
    using replay_guarantees [where i = 0 and slots = slots, OF _ r(1) assms(2,3) s(2,3)] r(2)
    by (simp add: indexedSlots_def)
  then have g: "guarantees p (pInitialSoC p) slots (plActions plan)"
    "rsCost rs = sum_list (map2 (\<lambda>s a. reserveSlotCost s p a) slots (plActions plan))" using s by simp_all
  have "list_all (\<lambda>h. \<not> hourOverrun slots p (plActions plan) h) (pImportHours p)"
    using r(4) by (simp add: validateImportHours_def list_all_iff list_ex_iff split: if_splits)
  with g guarantees_path [OF g(1)] r(3) show ?thesis by simp
qed

section \<open>Core's own plans pass\<close>

lemma sanitize_finite:
  assumes "list_all (\<lambda>s. 0 < sLenMin s \<and> 0 \<le> sLoadW s) S"
  shows "sanitizeOptimizeSlots (finiteSlots S) = S"
  using assms
proof (induction S)
  case (Cons s S)
  have "\<not> Fin (sLoadW s) < 0" using Cons.prems by (simp add: zero_f64_def)
  with Cons show ?case
    by (simp add: sanitizeOptimizeSlots_def finiteSlots_def saneSlot_def)
qed (simp add: sanitizeOptimizeSlots_def finiteSlots_def)

definition bandOk :: "Params \<Rightarrow> real \<Rightarrow> bool" where
  "bandOk p soc \<longleftrightarrow> pSoCMin p - 2 / 10000 \<le> soc \<and> soc \<le> pSoCMax p + 2 / 10000"

text \<open>A site the dynamic programme plans without a car, as its own battery.\<close>

definition loneBattery :: "Params \<Rightarrow> bool" where
  "loneBattery p \<longleftrightarrow> pStorages p = [] \<and> activeLoadpoints p = [] \<and> 0 < pCapacityWh p"

lemma accept_slot:
  assumes "loneBattery p" "plainAction a"
    and t: "aSlotStartMs a = sStartMs s" "aSlotLenMin a = sLenMin s" "aExecutionStartMs a = sExecutionStartMs s"
    and b: "- pMaxDischargeW p \<le> aBatteryW a" "aBatteryW a \<le> pMaxChargeW p"
    and soc: "aSoC a = rsSoc rs + BatteryEnergyDeltaWh (aBatteryW a) (DurationHours s) (pChargeEfficiency p)
                 (pDischargeEfficiency p) / pCapacityWh p" "bandOk p (aSoC a)"
    and r: "rsLower rs = 0" "rsUpper rs = 0"
    and g: "aGridW a = sLoadW s + sPVW s + aBatteryW a" "aPVW a = sPVW s"
    and m: "modeAllows (pMode p) (sLoadW s + sPVW s) (aGridW a) (aBatteryW a)"
    and l: "allowsImport s (aGridW a)" "allowsExport s (aGridW a)"
    and c: "aCostOre a = SlotGridCostOre s (aGridW a * DurationHours s / 1000) p"
  shows "replaySlot vr p (i, s, a) rs = Inr (rs\<lparr>rsSoc := aSoC a, rsCost := rsCost rs + aCostOre a\<rparr>)"
proof -
  have p: "aLoadpointPowerW a = []" "aLoadpointMaxPowerW a = []" "aStoragePowerW a = []" "aStorageEnergyWh a = []"
    "\<not> aPVCurtailActive a" "0 \<le> aPVLimitW a" "aPVLimitW a = 0 \<or> aPVLimitW a < - aPVW a"
    using assms(2) by (simp_all add: plainAction_def)
  have lone: "pStorages p = []" "activeLoadpoints p = []" "pCapacityWh p \<noteq> 0" "0 < pCapacityWh p"
    using assms(1) by (auto simp: loneBattery_def)
  have 1: "validateAssetMaps p a = Inr ()"
    using lone p by (simp add: validateAssetMaps_def Let_def requiresStorageMaps_def ensure_def)
  have 2: "replayBattery p (DurationHours s) a rs = Inr (rs\<lparr>rsSoc := aSoC a\<rparr>)"
    using lone soc(1) by (simp add: replayBattery_def ensure_def)
  have "max 0 (pSoCMin p - aSoC a) \<le> 2 / 10000" "max 0 (aSoC a - pSoCMax p) \<le> 2 / 10000"
    using soc(2) unfolding bandOk_def by linarith+
  then have 3: "replayBand p a (rs\<lparr>rsSoc := aSoC a\<rparr>) = Inr (rs\<lparr>rsSoc := aSoC a\<rparr>)"
    using r by (simp add: replayBand_def Let_def ensure_def)
  have 4: "reserveSlotCost s p a = aCostOre a" using p(2) c by (simp add: reserveSlotCost_def)
  have lim: "\<not> ((sMaxImportW s > 0 \<and> aGridW a > sMaxImportW s + solverGridLimitToleranceW)
      \<or> (sMaxExportW s > 0 \<and> aGridW a < - sMaxExportW s - solverGridLimitToleranceW))"
    using l by (auto simp: allowsImport_def allowsExport_def solverGridLimitToleranceW_def split: if_splits)
  have pv: "planPVW s a 0 = Inr (sPVW s)" using g(1) p(5) by (simp add: planPVW_def GridFlowW_def)
  have hint: "aPVLimitW a = 0 \<or> \<not> 2 - sPVW s < aPVLimitW a" using p(7) g(2) by auto
  have 5: "checkFlows vr p s a 0 = Inr ()"
    using p lim m g lone(2) hint
    by (simp add: checkFlows_def pv indexedCars_def ensure_def validateEVPulse_def GridFlowW_def
        SurplusOnlyExceedsHousePV_def PVLeftoverAfterHouseW_def SitePowerEpsW_def Let_def)
  show ?thesis
    using 1 2 3 4 5 t b lone(2) by (simp add: replaySlot_def Let_def ensure_def indexedCars_def)
qed

lemma accept_slots:
  assumes "replays g t soc evSoc slots acts" "gLp g = None" "loneBattery (gP g)" "list_all plainAction acts"
    and "list_all (\<lambda>a. bandOk (gP g) (aSoC a)) acts"
    and "list_all (\<lambda>a. modeAllows (pMode (gP g)) (aLoadW a + aPVW a) (aGridW a) (aBatteryW a)) acts"
    and "list_all2 (\<lambda>s a. allowsImport s (aGridW a) \<and> allowsExport s (aGridW a)) slots acts"
    and "rsSoc rs = soc" "rsLower rs = 0" "rsUpper rs = 0"
  shows "\<exists>soc'. foldE (replaySlot vr (gP g)) (zip [i..<i + length slots] (zip slots acts)) rs
     = Inr (rs\<lparr>rsSoc := soc', rsCost := rsCost rs + sum_list (map aCostOre acts)\<rparr>)"
  using assms
proof (induction g t soc evSoc slots acts arbitrary: i rs rule: replays.induct)
  case (1 g t soc evSoc)
  show ?case by (intro exI [of _ "rsSoc rs"]) simp
next
  case (2 g t soc evSoc s ss a as)
  note r = "2.prems"(1) [unfolded replays.simps]
  have lp: "aLoadpointW a = 0" using r "2.prems"(2) by simp
  have step: "replaySlot vr (gP g) (i, s, a) rs = Inr (rs\<lparr>rsSoc := aSoC a, rsCost := rsCost rs + aCostOre a\<rparr>)"
    using r "2.prems" lp by (intro accept_slot) (auto simp: battSocAfter_def)
  let ?rs = "rs\<lparr>rsSoc := aSoC a, rsCost := rsCost rs + aCostOre a\<rparr>"
  have "\<exists>soc'. foldE (replaySlot vr (gP g)) (zip [Suc i..<Suc i + length ss] (zip ss as)) ?rs
     = Inr (?rs\<lparr>rsSoc := soc', rsCost := rsCost ?rs + sum_list (map aCostOre as)\<rparr>)"
    using r "2.prems" by (intro "2.IH") auto
  moreover have "[i..<i + length (s # ss)] = i # [Suc i..<Suc i + length ss]"
    by (subst upt_conv_Cons) auto
  ultimately show ?case using step by (simp add: add.assoc)
qed auto


text \<open>The example's plan through the gate.\<close>

definition examplePlan :: Plan where
  "examplePlan = solvedPlan 0 exampleParams exampleSlots [[[1], [0], [1]], [[2], [2], [1]]]"

lemma example_optimized: "OptimizeContext background 0 (finiteSlots exampleSlots) exampleParams = (examplePlan, None)"
proof -
  have "withDefaults exampleParams = exampleParams" by code_simp
  then show ?thesis using example_plan by (simp add: exampleInput_def examplePlan_def)
qed

lemma example_params:
  "plActions examplePlan \<noteq> []" "loneBattery exampleParams" "pLoadpoint exampleParams = None"
  "pImportHours exampleParams = []" "pMode exampleParams \<noteq> []" "0 < pChargeEfficiency exampleParams"
  "0 < pDischargeEfficiency exampleParams" "0 \<le> pMaxChargeW exampleParams" "0 \<le> pMaxDischargeW exampleParams"
  "pSoCMin exampleParams \<le> pInitialSoC exampleParams" "pInitialSoC exampleParams \<le> pSoCMax exampleParams"
  "pStorages exampleParams = []" "pCapacityWh exampleParams \<noteq> 0"
  "validatePartialSlots exampleSlots = None"
  by code_simp+

lemma example_length: "length exampleSlots \<le> 200000"
  by (simp add: exampleSlots_def)

lemma example_slots:
  "list_all (\<lambda>s. 0 < sLenMin s \<and> 0 \<le> sLoadW s \<and> 0 < DurationHours s) exampleSlots"
  "list_all2 (\<lambda>s a. allowsImport s (aGridW a) \<and> allowsExport s (aGridW a)) exampleSlots (plActions examplePlan)"
  by code_simp+

lemma example_accepted: "ValidatePlan exampleSlots exampleParams examplePlan = Inr examplePlan"
  by code_simp


theorem accepted_plan_is_physical_witness:
  "guarantees exampleParams (1 / 2) exampleSlots (plActions examplePlan)"
proof -
  have "pInitialSoC exampleParams = 1 / 2" by code_simp
  with accepted_plan_is_physical [OF example_accepted example_params(12,13,10,11)] show ?thesis by simp
qed

end
