(* ===== verification/Mpc_Params.thy ===== *)
theory Mpc_Params
  imports Mpc_Validate
begin

text \<open>
  What a planning request has to satisfy (\<open>params_validation.go\<close>, \<open>core_recovery.go\<close>): slots, the
  aggregate battery and the fleet behind it, the cars; the clamp of a battery that drifted out of its
  operating band; and the longest prefix of slots that is valid, found by bisection. The planner's numbers are reals here, so the
  tests for special values of the parameters have nothing to do; those of the slots do. An error names
  the broken rule, without the index and the numbers the code prints into it.
\<close>

section \<open>Slots\<close>

definition slotError :: "f64 slotOf \<Rightarrow> string option" where
  "slotError s =
     (if \<not> (isFinite (sPriceOre s) \<and> isFinite (sSpotOre s) \<and> isFinite (sPVW s) \<and> isFinite (sLoadW s)
            \<and> isFinite (sMaxImportW s) \<and> isFinite (sMaxExportW s)) then Some ''must be finite''
      else if sPVW s > 0 then Some ''pv_w must be non-positive in the site sign convention''
      else if sLoadW s < 0 then Some ''load_w must be non-negative in the site sign convention''
      else if sMaxImportW s < 0 \<or> sMaxExportW s < 0 then Some ''grid limits must be non-negative''
      else None)"

fun firstSlotError :: "f64 slotOf list \<Rightarrow> string option" where
  "firstSlotError [] = None"
| "firstSlotError (s # ss) = (case slotError s of Some e \<Rightarrow> Some e | None \<Rightarrow> firstSlotError ss)"

definition validatePlanningSlots :: "f64 slotOf list \<Rightarrow> string option" where
  "validatePlanningSlots slots = (if slots = [] then Some ''slots must be non-empty'' else firstSlotError slots)"

text \<open>The bisection both searches for a prefix use: the last length that passed.\<close>

function bisect :: "(nat \<Rightarrow> bool) \<Rightarrow> nat \<Rightarrow> nat \<Rightarrow> nat \<Rightarrow> nat" where
  "bisect ok low high count =
     (if low \<le> high then
        let mid = low + (high - low) div 2
        in if ok mid then bisect ok (mid + 1) high mid
           else if mid = 0 then count
           else bisect ok low (mid - 1) count
      else count)"
  by pat_completeness auto
termination
  by (relation "measure (\<lambda>(ok, low, high, count). Suc high - low)") auto

declare bisect.simps [simp del]

definition planningInputPrefix :: "f64 slotOf list \<Rightarrow> f64 slotOf list \<times> string option" where
  "planningInputPrefix slots =
     (case validateSlotChronology slots of
        Some e \<Rightarrow> ([], Some e)
      | None \<Rightarrow>
          (case validatePlanningSlots slots of
             None \<Rightarrow> (slots, None)
           | Some e \<Rightarrow>
               (take (bisect (\<lambda>n. validatePlanningSlots (take n slots) = None) 1 (length slots - 1) 0) slots,
                Some e)))"

section \<open>Parameters\<close>

record BatteryFleetMember =
  fmDriver :: string
  fmCapacityWh :: real
  fmMaxChargeW :: real
  fmMaxDischargeW :: real

definition planningParamsRequireRecovery :: "Params \<Rightarrow> bool" where
  "planningParamsRequireRecovery p =
     (if pCapacityWh p = 0 \<and> pStorages p = [] then False
      else if pInitialSoC p < pSoCMin p \<or> pInitialSoC p > pSoCMax p then True
      else list_ex (\<lambda>s. saInitialEnergyWh s < saMinEnergyWh s \<or> saInitialEnergyWh s > saMaxEnergyWh s) (pStorages p))"

definition clampStorage :: "StorageAssetSpec \<Rightarrow> StorageAssetSpec" where
  "clampStorage s = s\<lparr>saInitialEnergyWh := min (max (saInitialEnergyWh s) (saMinEnergyWh s)) (saMaxEnergyWh s)\<rparr>"

definition clampParamsIntoOperatingBand :: "Params \<Rightarrow> Params \<times> bool \<times> bool" where
  "clampParamsIntoOperatingBand p =
     (if pInitialSoC p < 0 \<or> pInitialSoC p > 1 then (p, False, False)
      else if pSoCMin p > pSoCMax p \<or> pCapacityWh p \<le> 0 then (p, False, False)
      else if list_ex (\<lambda>s. saInitialEnergyWh s < 0 \<or> saInitialEnergyWh s > saCapacityWh s
                 \<or> saMinEnergyWh s > saMaxEnergyWh s) (pStorages p) then (p, False, False)
      else let unclamped = pInitialSoC p;
               fleet = map clampStorage (pStorages p);
               soc = (if pStorages p \<noteq> [] then sum_list (map saInitialEnergyWh fleet) / pCapacityWh p
                      else pInitialSoC p);
               soc = min (max soc (pSoCMin p)) (pSoCMax p);
               p = p\<lparr>pStorages := fleet, pInitialSoC := soc\<rparr>
           in if soc = unclamped then (p, False, True)
              else (p\<lparr>pInitialSoCUnclamped := unclamped\<rparr>, True, True))"

definition requirePositive :: "real \<Rightarrow> string \<Rightarrow> string + unit" where
  "requirePositive v field = ensure (\<not> v \<le> 0) (field @ '' must be finite and greater than zero'')"

definition requireNonNegative :: "real \<Rightarrow> string \<Rightarrow> string + unit" where
  "requireNonNegative v field = ensure (\<not> v < 0) (field @ '' must be finite and non-negative'')"

definition requireEfficiency :: "real \<Rightarrow> bool \<Rightarrow> string \<Rightarrow> string + unit" where
  "requireEfficiency v allowDefaultZero field =
     ensure (\<not> (v < 0 \<or> v > 1 \<or> (\<not> allowDefaultZero \<and> v = 0)))
       (field @ (if allowDefaultZero then '' must be zero or within (0, 1]'' else '' must be within (0, 1]''))"

definition thenE :: "'e + unit \<Rightarrow> 'e + unit \<Rightarrow> 'e + unit" where
  "thenE a b = bindE a (\<lambda>_. b)"

definition planningModes :: "MpcMode list" where
  "planningModes = [MpcModeSelfConsumption, MpcModeCheapCharge, MpcModePassiveArbitrage, MpcModeArbitrage]"

definition validateServiceGridLimits :: "real \<Rightarrow> real \<Rightarrow> string + unit" where
  "validateServiceGridLimits fuseMaxW maxExportW =
     thenE (requireNonNegative fuseMaxW ''fuse_max_w'') (requireNonNegative maxExportW ''max_export_w'')"

definition fleetMemberError :: "BatteryFleetMember \<Rightarrow> string list \<Rightarrow> string + string list" where
  "fleetMemberError b drivers =
     bindE (fold (\<lambda>c acc. thenE acc c)
       [ensure (fmDriver b \<noteq> []) ''battery_fleet driver must be non-empty'',
        ensure (fmDriver b \<notin> set drivers) ''battery_fleet driver is duplicated'',
        requirePositive (fmCapacityWh b) ''battery_fleet capacity_wh'',
        requireNonNegative (fmMaxChargeW b) ''battery_fleet max_charge_w'',
        requireNonNegative (fmMaxDischargeW b) ''battery_fleet max_discharge_w'']
       (Inr ()))
     (\<lambda>_. Inr (fmDriver b # drivers))"

definition validateBatteryFleetMembers :: "BatteryFleetMember list \<Rightarrow> string + string list" where
  "validateBatteryFleetMembers fleet = foldE fleetMemberError fleet []"

text \<open>Asset identities seen so far are threaded through the checks of the fleet and the cars.\<close>

definition storageError :: "StorageAssetSpec \<Rightarrow> string list \<Rightarrow> string + string list" where
  "storageError s ids =
     bindE (fold (\<lambda>c acc. thenE acc c)
       [ensure (saID s \<noteq> []) ''storage id must be non-empty'',
        ensure (saID s \<notin> set ids) ''storage id is duplicated'',
        requirePositive (saCapacityWh s) ''storage capacity_wh'',
        ensure (\<not> (saMinEnergyWh s < 0 \<or> saMinEnergyWh s > saMaxEnergyWh s \<or> saMaxEnergyWh s > saCapacityWh s))
          ''storage energy bounds must satisfy 0 <= min <= max <= capacity'',
        ensure (\<not> (saInitialEnergyWh s < 0 \<or> saInitialEnergyWh s > saCapacityWh s))
          ''storage initial_energy_wh must be within 0..capacity'',
        requireNonNegative (saMaxChargeW s) ''storage max_charge_w'',
        requireNonNegative (saMaxDischargeW s) ''storage max_discharge_w'',
        requireEfficiency (saChargeEfficiency s) False ''storage charge_efficiency'',
        requireEfficiency (saDischargeEfficiency s) False ''storage discharge_efficiency'']
       (Inr ()))
     (\<lambda>_. Inr (saID s # ids))"

definition fleetSum :: "(StorageAssetSpec \<Rightarrow> real) \<Rightarrow> Params \<Rightarrow> real" where
  "fleetSum f p = sum_list (map f (pStorages p))"

definition fleetMatches :: "Params \<Rightarrow> bool" where
  "fleetMatches p =
     (let tol = max 1 (pCapacityWh p * (2 / 10000))
      in \<bar>fleetSum saCapacityWh p - pCapacityWh p\<bar> \<le> 1
       \<and> \<bar>fleetSum saInitialEnergyWh p - pCapacityWh p * pInitialSoC p\<bar> \<le> tol
       \<and> \<bar>fleetSum saMinEnergyWh p - pCapacityWh p * pSoCMin p\<bar> \<le> tol
       \<and> \<bar>fleetSum saMaxEnergyWh p - pCapacityWh p * pSoCMax p\<bar> \<le> tol
       \<and> \<bar>fleetSum saMaxChargeW p - pMaxChargeW p\<bar> \<le> 2
       \<and> \<bar>fleetSum saMaxDischargeW p - pMaxDischargeW p\<bar> \<le> 2)"

definition validateStorageSpecs :: "Params \<Rightarrow> string + string list" where
  "validateStorageSpecs p =
     bindE (foldE storageError (pStorages p) [])
       (\<lambda>ids. if pStorages p = [] then Inr ids
              else bindE (ensure (fleetMatches p) ''storage aggregate does not match fallback'') (\<lambda>_. Inr ids))"

definition planningLoadpointSpecs :: "Params \<Rightarrow> LoadpointSpec list" where
  "planningLoadpointSpecs p =
     (if pLoadpoints p \<noteq> [] then pLoadpoints p
      else case pLoadpoint p of None \<Rightarrow> [] | Some lp \<Rightarrow> [lp])"

definition planningLoadpointBounds :: "LoadpointSpec \<Rightarrow> real \<times> real" where
  "planningLoadpointBounds lp =
     (lSoCMin lp, if lSoCMin lp = 0 \<and> lSoCMax lp = 0 then 1 else lSoCMax lp)"

definition planningLoadpointEfficiency :: "LoadpointSpec \<Rightarrow> real" where
  "planningLoadpointEfficiency lp = (if lChargeEfficiency lp = 0 then 9 / 10 else lChargeEfficiency lp)"

definition planningValuesEqual :: "real \<Rightarrow> real \<Rightarrow> bool" where
  "planningValuesEqual a b = (\<bar>a - b\<bar> \<le> max (1 / 10 ^ 6) (max \<bar>a\<bar> \<bar>b\<bar> * (1 / 10 ^ 9)))"

definition planningLoadpointsEquivalent :: "LoadpointSpec option \<Rightarrow> LoadpointSpec \<Rightarrow> bool" where
  "planningLoadpointsEquivalent fallback b =
     (case fallback of
        None \<Rightarrow> False
      | Some a \<Rightarrow>
          lPluggedIn a = lPluggedIn b \<and> lID a = lID b \<and> lLevels a = lLevels b
          \<and> lTargetSlotIdx a = lTargetSlotIdx b \<and> lSurplusOnly a = lSurplusOnly b
          \<and> lNoBatteryToEV a = lNoBatteryToEV b
          \<and> planningValuesEqual (lCapacityWh a) (lCapacityWh b)
          \<and> planningValuesEqual (fst (planningLoadpointBounds a)) (fst (planningLoadpointBounds b))
          \<and> planningValuesEqual (snd (planningLoadpointBounds a)) (snd (planningLoadpointBounds b))
          \<and> planningValuesEqual (lInitialSoC a) (lInitialSoC b)
          \<and> planningValuesEqual (lTargetSoC a) (lTargetSoC b)
          \<and> planningValuesEqual (lMaxChargeW a) (lMaxChargeW b)
          \<and> planningValuesEqual (planningLoadpointEfficiency a) (planningLoadpointEfficiency b)
          \<and> list_all2 planningValuesEqual (normalizedSteps a) (normalizedSteps b))"

definition loadpointError :: "LoadpointSpec \<Rightarrow> string list \<Rightarrow> string + string list" where
  "loadpointError lp ids =
     (if \<not> lPluggedIn lp then Inr ids
      else let (minSoC, maxSoC) = planningLoadpointBounds lp
           in bindE (fold (\<lambda>c acc. thenE acc c)
             [ensure (lID lp \<noteq> []) ''loadpoint id must be non-empty'',
              ensure (lID lp \<notin> set ids) ''loadpoint id is duplicated'',
              requirePositive (lCapacityWh lp) ''loadpoint capacity_wh'',
              ensure (\<not> lLevels lp < 2) ''loadpoint levels must be at least 2'',
              ensure (\<not> (minSoC < 0 \<or> minSoC \<ge> maxSoC \<or> maxSoC > 1))
                ''loadpoint SoC bounds must satisfy 0 <= min < max <= 1'',
              ensure (\<not> (lInitialSoC lp < minSoC \<or> lInitialSoC lp > maxSoC))
                ''loadpoint initial_soc must be within the loadpoint SoC bounds'',
              ensure (\<not> (lTargetSoC lp < 0 \<or> lTargetSoC lp > 1
                   \<or> (lTargetSoC lp \<noteq> 0 \<and> (lTargetSoC lp < minSoC \<or> lTargetSoC lp > maxSoC))))
                ''loadpoint target_soc must be zero or within the loadpoint SoC bounds'',
              ensure (\<not> (lTargetSoC lp > 0 \<and> lTargetSlotIdx lp < 0))
                ''loadpoint target_slot_idx must be non-negative when target_soc is set'',
              requireNonNegative (lMaxChargeW lp) ''loadpoint max_charge_w'',
              ensure (\<not> (lMinChargeW lp < 0 \<or> lMinChargeW lp > lMaxChargeW lp))
                ''loadpoint min_charge_w must be within charging bounds'',
              requireEfficiency (lChargeEfficiency lp) True ''loadpoint charge_efficiency'',
              ensure (\<not> (lMinChargeSeconds lp < 0 \<or> lMinChargeSeconds lp > 86400)) ''min_charge_seconds'',
              ensure (\<not> (lStartCostOre lp < 0 \<or> lStartCostOre lp > 10 ^ 6)) ''start_cost_ore'',
              ensure (\<not> (lInitialChargeSeconds lp < 0 \<or> lInitialChargeSeconds lp > 31536000))
                ''initial_charge_seconds'',
              ensure (list_all (\<lambda>w. \<not> w < 0 \<and> \<not> (lMaxChargeW lp > 0 \<and> w > lMaxChargeW lp)) (lAllowedStepsW lp))
                ''loadpoint allowed_steps_w'']
             (Inr ()))
           (\<lambda>_. Inr (lID lp # ids)))"

definition validateLoadpointSpecs :: "LoadpointSpec list \<Rightarrow> string list \<Rightarrow> string + string list" where
  "validateLoadpointSpecs lps ids = foldE loadpointError lps ids"

definition aggregateChecks :: "Params \<Rightarrow> (string + unit) list" where
  "aggregateChecks p =
     [requireNonNegative (pcMinW (pPVCurtailment p)) ''pv_curtailment_min_w'',
      ensure (\<not> (pcMinW (pPVCurtailment p) > 0 \<and> \<not> curtailmentValid (pPVCurtailment p)))
        ''pv_curtailment requires identified drivers'',
      ensure (pMode p \<in> set planningModes) ''unsupported mode'',
      ensure (\<not> pSoCLevels p < 3) ''soc_levels must be at least 3'',
      ensure (\<not> pActionLevels p < 3) ''action_levels must be at least 3'',
      requireNonNegative (pCapacityWh p) ''capacity_wh'',
      ensure (\<not> (pCapacityWh p = 0 \<and> (pStorages p \<noteq> [] \<or> pMaxChargeW p \<noteq> 0 \<or> pMaxDischargeW p \<noteq> 0
           \<or> pInitialSoC p \<noteq> 0)))
        ''zero capacity_wh requires no physical storage, battery power or initial energy'',
      ensure (\<not> (pSoCMin p < 0 \<or> pSoCMin p \<ge> pSoCMax p \<or> pSoCMax p > 1))
        ''soc bounds must satisfy 0 <= min < max <= 1'',
      ensure (\<not> (pInitialSoC p < 0 \<or> pInitialSoC p > 1)) ''initial_soc must be within 0..1'',
      requireNonNegative (pMaxChargeW p) ''max_charge_w'',
      requireNonNegative (pMaxDischargeW p) ''max_discharge_w'',
      requireEfficiency (pChargeEfficiency p) False ''charge_efficiency'',
      requireEfficiency (pDischargeEfficiency p) False ''discharge_efficiency'',
      requireNonNegative (pPVChargeBonusOreKwh p) ''pv_charge_bonus_ore_kwh'',
      requireNonNegative (pMinArbitrageSpreadOreKwh p) ''min_arbitrage_spread_ore_kwh'',
      requireNonNegative (pPVUncertaintyW p) ''pv_uncertainty_w'',
      requireNonNegative (pPVRelativeUncertainty p) ''pv_relative_uncertainty'',
      requireNonNegative (pPVForecastSafetyK p) ''pv_forecast_safety_k'']"

definition activeLoadpointSpecs :: "LoadpointSpec list \<Rightarrow> LoadpointSpec list" where
  "activeLoadpointSpecs lps = filter (\<lambda>lp. lpActive (Some lp)) lps"

definition validatePlanningParams :: "Params \<Rightarrow> string + unit" where
  "validatePlanningParams p =
     bindE (fold (\<lambda>c acc. thenE acc c) (aggregateChecks p) (Inr ()))
       (\<lambda>_. bindE (validateStorageSpecs p)
         (\<lambda>storageIDs. bindE (validateLoadpointSpecs (planningLoadpointSpecs p) storageIDs)
           (\<lambda>_. bindE (case pLoadpoint p of
                         None \<Rightarrow> Inr []
                       | Some lp \<Rightarrow> if pLoadpoints p \<noteq> [] \<and> lpActive (Some lp)
                                    then validateLoadpointSpecs [lp] storageIDs else Inr [])
             (\<lambda>_. case activeLoadpointSpecs (pLoadpoints p) of
                    [] \<Rightarrow> Inr ()
                  | first # _ \<Rightarrow> ensure (planningLoadpointsEquivalent (pLoadpoint p) first)
                                   ''loadpoint fallback must match first active loadpoint''))))"

section \<open>The longest valid prefix\<close>

text \<open>A test on lengths that a shorter prefix passes whenever a longer one does.\<close>

locale prefix_test =
  fixes ok :: "nat \<Rightarrow> bool"
  assumes shorter: "1 \<le> m \<Longrightarrow> m \<le> n \<Longrightarrow> ok n \<Longrightarrow> ok m"
begin

lemma bisect_greatest:
  assumes "1 \<le> low" "count = low - 1" "low \<le> high + 1" "high \<le> N"
    and "\<forall>n. 1 \<le> n \<and> n < low \<longrightarrow> ok n" "\<forall>n. high < n \<and> n \<le> N \<longrightarrow> \<not> ok n"
  shows "bisect ok low high count \<le> N
    \<and> (\<forall>n. 1 \<le> n \<and> n \<le> bisect ok low high count \<longrightarrow> ok n)
    \<and> (\<forall>n. bisect ok low high count < n \<and> n \<le> N \<longrightarrow> \<not> ok n)"
  using assms
proof (induction "Suc high - low" arbitrary: low high count rule: less_induct)
  case less
  show ?case
  proof (cases "low \<le> high")
    case False
    then have "bisect ok low high count = count" by (simp add: bisect.simps)
    moreover have "high = low - 1" using False less.prems by simp
    ultimately show ?thesis using less.prems by auto
  next
    case True
    define mid where "mid = low + (high - low) div 2"
    have mid: "low \<le> mid" "mid \<le> high" "1 \<le> mid" using True less.prems(1) by (auto simp: mid_def)
    show ?thesis
    proof (cases "ok mid")
      case okm: True
      have eq: "bisect ok low high count = bisect ok (mid + 1) high mid"
        using True okm by (subst bisect.simps) (simp add: Let_def mid_def)
      have "ok n" if "1 \<le> n" "n < mid + 1" for n using that okm by (auto intro: shorter [of n mid])
      then show ?thesis unfolding eq
        using less.prems mid by (intro less.hyps) auto
    next
      case bad: False
      have eq: "bisect ok low high count = bisect ok low (mid - 1) count"
        using True bad mid by (subst bisect.simps) (simp add: Let_def mid_def)
      have "\<not> ok n" if "mid - 1 < n" for n
      proof -
        have "mid \<le> n" using that mid(3) by linarith
        with mid(3) bad show ?thesis using shorter [of mid n] by blast
      qed
      then show ?thesis unfolding eq
        using less.prems mid by (intro less.hyps) auto
    qed
  qed
qed

end

lemma firstSlotError_None: "firstSlotError ss = None \<longleftrightarrow> list_all (\<lambda>s. slotError s = None) ss"
  by (induction ss) (auto split: option.splits)

lemma validatePlanningSlots_None:
  "validatePlanningSlots ss = None \<longleftrightarrow> ss \<noteq> [] \<and> list_all (\<lambda>s. slotError s = None) ss"
  by (simp add: validatePlanningSlots_def firstSlotError_None)

interpretation slot_prefix: prefix_test "\<lambda>n. validatePlanningSlots (take n slots) = None" for slots
proof unfold_locales
  fix m n :: nat
  assume m: "1 \<le> m" "m \<le> n" "validatePlanningSlots (take n slots) = None"
  then have "slots \<noteq> []" "\<forall>s \<in> set (take n slots). slotError s = None"
    by (auto simp: validatePlanningSlots_None list_all_iff)
  moreover have "set (take m slots) \<subseteq> set (take n slots)" using m(2) by (rule set_take_subset_set_take)
  ultimately show "validatePlanningSlots (take m slots) = None"
    using m(1) by (auto simp: validatePlanningSlots_None list_all_iff)
qed

lemma takeWhile_by_length:
  assumes "r \<le> length xs" "\<forall>x \<in> set (take r xs). P x" "r < length xs \<longrightarrow> \<not> P (xs ! r)"
  shows "takeWhile P xs = take r xs"
  using assms
proof (induction xs arbitrary: r)
  case (Cons x xs)
  show ?case
  proof (cases r)
    case (Suc k)
    with Cons.prems have "takeWhile P xs = take k xs" by (intro Cons.IH) auto
    with Suc Cons.prems(2) show ?thesis by simp
  qed (use Cons.prems in simp)
qed simp

lemma input_prefix_takeWhile:
  assumes "validateSlotChronology slots = None"
  shows "fst (planningInputPrefix slots) = takeWhile (\<lambda>s. slotError s = None) slots"
proof (cases "validatePlanningSlots slots")
  case None
  then have "takeWhile (\<lambda>s. slotError s = None) slots = slots"
    by (simp add: validatePlanningSlots_None list_all_iff takeWhile_eq_all_conv)
  moreover have "planningInputPrefix slots = (slots, None)" using assms None by (simp add: planningInputPrefix_def)
  ultimately show ?thesis by (metis fst_conv)
next
  case (Some e)
  let ?ok = "\<lambda>n. validatePlanningSlots (take n slots) = None"
  have ne: "slots \<noteq> []" using assms by (auto simp: validateSlotChronology_def)
  define r where "r = bisect ?ok 1 (length slots - 1) 0"
  have beyond: "\<forall>n. length slots - 1 < n \<and> n \<le> length slots \<longrightarrow> \<not> ?ok n"
  proof (intro allI impI)
    fix n assume "length slots - 1 < n \<and> n \<le> length slots"
    then have "n = length slots" by linarith
    with Some show "\<not> ?ok n" by simp
  qed
  have "r \<le> length slots \<and> (\<forall>n. 1 \<le> n \<and> n \<le> r \<longrightarrow> ?ok n) \<and> (\<forall>n. r < n \<and> n \<le> length slots \<longrightarrow> \<not> ?ok n)"
    unfolding r_def by (rule slot_prefix.bisect_greatest [OF _ _ _ _ _ beyond]) auto
  then have r: "r \<le> length slots" "\<And>n. 1 \<le> n \<Longrightarrow> n \<le> r \<Longrightarrow> ?ok n" "\<And>n. r < n \<Longrightarrow> n \<le> length slots \<Longrightarrow> \<not> ?ok n"
    by blast+
  have "\<forall>s \<in> set (take r slots). slotError s = None"
    using r(2) [of r] by (cases "r = 0") (auto simp: validatePlanningSlots_None list_all_iff)
  moreover have "slotError (slots ! r) \<noteq> None" if "r < length slots"
  proof
    assume "slotError (slots ! r) = None"
    then have "?ok (Suc r)"
      using calculation ne that by (auto simp: validatePlanningSlots_None list_all_iff take_Suc_conv_app_nth)
    with r(3) [of "Suc r"] that show False by simp
  qed
  ultimately have "takeWhile (\<lambda>s. slotError s = None) slots = take r slots"
    using r(1) by (intro takeWhile_by_length) auto
  then show ?thesis using assms Some by (simp add: planningInputPrefix_def r_def)
qed

text \<open>When later inputs of a planning request are bad, Core keeps exactly the slots before the first
  bad one: for a timeline in order, the bisection over prefixes returns the same slots as a walk that
  stops at the first slot with a number that is not finite, a sign the site's convention forbids or a
  negative limit. No valid slot is dropped and no invalid one is planned.\<close>

theorem input_prefix_stops_at_first_bad_slot:
  assumes "validateSlotChronology slots = None"
  shows "fst (planningInputPrefix slots) = takeWhile (\<lambda>s. slotError s = None) slots"
  using assms by (rule input_prefix_takeWhile)

section \<open>The clamp\<close>

lemma clampStorage_band:
  assumes "saMinEnergyWh s \<le> saMaxEnergyWh s"
  shows "saMinEnergyWh s \<le> saInitialEnergyWh (clampStorage s)" "saInitialEnergyWh (clampStorage s) \<le> saMaxEnergyWh s"
    "saMinEnergyWh (clampStorage s) = saMinEnergyWh s" "saMaxEnergyWh (clampStorage s) = saMaxEnergyWh s"
  using assms by (auto simp: clampStorage_def)

text \<open>C19: A battery that drifted out of its operating band is pulled back so that planning needs no
  recovery: whenever the clamp accepts a state, the aggregate and every battery of the fleet start
  inside their bands afterwards. A clamp that reports a move has recorded the real reading, and on a
  site without a fleet list a clamp that reports none has changed nothing. A reading that cannot be
  physical is refused and left as it is.\<close>

lemma clampParams_cases:
  fixes p :: Params
  defines "fleet \<equiv> map clampStorage (pStorages p)"
  defines "soc \<equiv> min (max (if pStorages p \<noteq> [] then sum_list (map saInitialEnergyWh fleet) / pCapacityWh p
                      else pInitialSoC p) (pSoCMin p)) (pSoCMax p)"
  assumes "clampParamsIntoOperatingBand p = (q, moved, ok)"
  obtains (refused) "\<not> ok" "\<not> moved" "q = p"
  | (kept) "ok" "\<not> moved" "q = p\<lparr>pStorages := fleet, pInitialSoC := soc\<rparr>" "soc = pInitialSoC p"
      "pSoCMin p \<le> pSoCMax p" "\<forall>s \<in> set (pStorages p). saMinEnergyWh s \<le> saMaxEnergyWh s"
  | (pulled) "ok" "moved" "q = p\<lparr>pStorages := fleet, pInitialSoC := soc, pInitialSoCUnclamped := pInitialSoC p\<rparr>"
      "soc \<noteq> pInitialSoC p" "pSoCMin p \<le> pSoCMax p" "\<forall>s \<in> set (pStorages p). saMinEnergyWh s \<le> saMaxEnergyWh s"
proof (cases "pInitialSoC p < 0 \<or> pInitialSoC p > 1 \<or> pSoCMin p > pSoCMax p \<or> pCapacityWh p \<le> 0
    \<or> list_ex (\<lambda>s. saInitialEnergyWh s < 0 \<or> saInitialEnergyWh s > saCapacityWh s
                 \<or> saMinEnergyWh s > saMaxEnergyWh s) (pStorages p)")
  case True
  then have "clampParamsIntoOperatingBand p = (p, False, False)"
    unfolding clampParamsIntoOperatingBand_def by presburger
  with assms(3) show ?thesis by (intro refused) simp_all
next
  case False
  then have bands: "pSoCMin p \<le> pSoCMax p" "\<forall>s \<in> set (pStorages p). saMinEnergyWh s \<le> saMaxEnergyWh s"
    by (auto simp: list_ex_iff not_less)
  have "clampParamsIntoOperatingBand p =
      (if soc = pInitialSoC p then (p\<lparr>pStorages := fleet, pInitialSoC := soc\<rparr>, False, True)
       else (p\<lparr>pStorages := fleet, pInitialSoC := soc, pInitialSoCUnclamped := pInitialSoC p\<rparr>, True, True))"
    using False unfolding clampParamsIntoOperatingBand_def Let_def soc_def fleet_def by simp
  with assms(3) have q: "(q, moved, ok) =
      (if soc = pInitialSoC p then (p\<lparr>pStorages := fleet, pInitialSoC := soc\<rparr>, False, True)
       else (p\<lparr>pStorages := fleet, pInitialSoC := soc, pInitialSoCUnclamped := pInitialSoC p\<rparr>, True, True))"
    by (rule trans [OF sym])
  show ?thesis
  proof (cases "soc = pInitialSoC p")
    case True
    with q bands show ?thesis by (intro kept) auto
  next
    case False
    with q bands show ?thesis by (intro pulled) auto
  qed
qed

lemma clamped_fleet_needs_no_recovery:
  assumes "\<forall>s \<in> set (pStorages p). saMinEnergyWh s \<le> saMaxEnergyWh s"
    and "pStorages q = map clampStorage (pStorages p)" "pSoCMin q \<le> pInitialSoC q" "pInitialSoC q \<le> pSoCMax q"
  shows "\<not> planningParamsRequireRecovery q"
  using assms clampStorage_band
  by (auto simp: planningParamsRequireRecovery_def list_ex_iff not_less)


section \<open>Validated parameters\<close>

lemma thenE_Inr: "thenE a b = Inr () \<longleftrightarrow> a = Inr () \<and> b = Inr ()"
  by (cases a) (auto simp: thenE_def)

lemma fold_thenE: "fold (\<lambda>c acc. thenE acc c) cs acc = Inr () \<longleftrightarrow> acc = Inr () \<and> (\<forall>c \<in> set cs. c = Inr ())"
  by (induction cs arbitrary: acc) (auto simp: thenE_Inr)

lemma validated_params:
  assumes "validatePlanningParams p = Inr ()"
  shows "pMode p \<in> set planningModes" "0 < pChargeEfficiency p" "0 < pDischargeEfficiency p"
    "0 \<le> pMaxChargeW p" "0 \<le> pMaxDischargeW p" "pSoCMin p < pSoCMax p" "0 \<le> pCapacityWh p"
    "0 \<le> pSoCMin p" "pSoCMax p \<le> 1"
proof -
  have "fold (\<lambda>c acc. thenE acc c) (aggregateChecks p) (Inr ()) = Inr ()"
    using assms unfolding validatePlanningParams_def by (cases "fold (\<lambda>c acc. thenE acc c) (aggregateChecks p) (Inr ())") auto
  then have all: "\<forall>c \<in> set (aggregateChecks p). c = Inr ()" unfolding fold_thenE by (rule conjunct2)
  note checks = all [unfolded aggregateChecks_def list.set ball_simps requireNonNegative_def requireEfficiency_def
    ensure_def]
  show "pMode p \<in> set planningModes" "0 < pChargeEfficiency p" "0 < pDischargeEfficiency p"
    "0 \<le> pMaxChargeW p" "0 \<le> pMaxDischargeW p" "pSoCMin p < pSoCMax p" "0 \<le> pCapacityWh p"
    "0 \<le> pSoCMin p" "pSoCMax p \<le> 1"
    using checks by (auto split: if_splits)
qed

section \<open>Examples\<close>

theorem input_prefix_stops_at_first_bad_slot_witness:
  "fst (planningInputPrefix [exampleInput ! 0, (exampleInput ! 1)\<lparr>sLoadW := NaN\<rparr>]) = [exampleInput ! 0]"
proof -
  have "validateSlotChronology [exampleInput ! 0, (exampleInput ! 1)\<lparr>sLoadW := NaN\<rparr>] = None" by code_simp
  note input_prefix_stops_at_first_bad_slot [OF this]
  moreover have "slotError (exampleInput ! 0) = None" "slotError ((exampleInput ! 1)\<lparr>sLoadW := NaN\<rparr>) \<noteq> None"
    by code_simp+
  ultimately show ?thesis by simp
qed


text \<open>The report of a move compares the aggregate only: two packs pulled by the same energy in opposite
  directions are both moved and no move is reported.\<close>

definition opposedPacks :: Params where
  "opposedPacks = exampleParams\<lparr>pCapacityWh := 2000, pInitialSoC := 1 / 2, pStorages :=
     map (\<lambda>(i, e). \<lparr>saID = i, saCapacityWh = 1000, saInitialEnergyWh = e, saMinEnergyWh = 100, saMaxEnergyWh = 900,
            saMaxChargeW = 250, saMaxDischargeW = 250, saChargeEfficiency = 1, saDischargeEfficiency = 1\<rparr>)
         [(''a'', 50), (''b'', 950)]\<rparr>"

lemma clamp_moves_without_report:
  "fst (snd (clampParamsIntoOperatingBand opposedPacks)) = False
   \<and> map saInitialEnergyWh (pStorages (fst (clampParamsIntoOperatingBand opposedPacks))) = [100, 900]
   \<and> map saInitialEnergyWh (pStorages opposedPacks) = [50, 950]"
  by (simp add: clampParamsIntoOperatingBand_def opposedPacks_def exampleParams_def clampStorage_def Let_def)

end
