(* ===== verification/Mpc_Recovery.thy ===== *)
theory Mpc_Recovery
  imports Mpc_Params
begin

text \<open>
  What Core plans when price optimisation has no answer (\<open>core_recovery.go\<close>, \<open>ev_reserve.go\<close>,
  \<open>reserve_price.go\<close>): a reserve plan that keeps the house inside the site's limits with the battery
  energy later slots need, charges a departing car with what is left, and moves that charging to cheaper
  slots where it can; and the recovery around it, which shortens the horizon to a prefix that passes the
  gate.

  The deadline of a request is a value at each point the code asks it. \<open>SolveMs\<close>, the measured
  time of a solve, is left out of the solver's label, and the local time a warning prints is a
  parameter.
\<close>

section \<open>Battery bands\<close>

record reserveEnergyBand =
  rbMin :: real
  rbMax :: real

definition orEta :: "real \<Rightarrow> real" where
  "orEta eta = (if eta \<le> 0 then 95 / 100 else eta)"

definition reservePowerForEnergy :: "real \<Rightarrow> real \<Rightarrow> real \<Rightarrow> real \<Rightarrow> real" where
  "reservePowerForEnergy deltaWh dtH chargeEff dischargeEff =
     (if deltaWh < 0 then deltaWh * dischargeEff / dtH else deltaWh / (chargeEff * dtH))"

definition narrowForMode :: "MpcMode \<Rightarrow> real \<Rightarrow> real \<times> real \<Rightarrow> real \<times> real" where
  "narrowForMode mode baseline r =
     (if mode = MpcModeSelfConsumption
      then (max (fst r) (- max 0 baseline), min (snd r) (max 0 (- baseline)))
      else if mode = MpcModeCheapCharge \<or> mode = MpcModePassiveArbitrage
      then (max (fst r) (- max 0 baseline), snd r)
      else r)"

definition reserveBatteryPowerRange :: "Slot \<Rightarrow> Params \<Rightarrow> real \<Rightarrow> real \<times> real" where
  "reserveBatteryPowerRange slot p peak =
     (let house = sLoadW slot + sPVW slot;
          low = (if sMaxExportW slot > 0 then max (- pMaxDischargeW p) (- sMaxExportW slot - house)
                 else - pMaxDischargeW p);
          high = (if sMaxImportW slot > 0 then min (pMaxChargeW p) (sMaxImportW slot - house - peak)
                  else pMaxChargeW p)
      in fold (narrowForMode (pMode p)) [house, house + peak] (low, high))"

definition reserveDelta :: "Params \<Rightarrow> Slot \<Rightarrow> real \<Rightarrow> real" where
  "reserveDelta p slot w =
     BatteryEnergyDeltaWh w (DurationHours slot) (orEta (pChargeEfficiency p)) (orEta (pDischargeEfficiency p))"

definition reserveInitialWh :: "Params \<Rightarrow> real" where
  "reserveInitialWh p = pInitialSoC p * pCapacityWh p"

definition reserveFloorWh :: "Params \<Rightarrow> real" where
  "reserveFloorWh p = min (reserveInitialWh p) (pSoCMin p * pCapacityWh p)"

definition reserveCeilingWh :: "Params \<Rightarrow> real" where
  "reserveCeilingWh p = max (reserveInitialWh p) (pSoCMax p * pCapacityWh p)"

definition bandBefore :: "Params \<Rightarrow> Slot \<Rightarrow> reserveEnergyBand \<Rightarrow> string + reserveEnergyBand" where
  "bandBefore p slot next =
     (case reserveBatteryPowerRange slot p 0 of (low, high) \<Rightarrow>
        bindE (ensure (\<not> low > high) ''forecast exceeds the site and battery power limits'')
          (\<lambda>_. let b = \<lparr>rbMin = max (reserveFloorWh p) (rbMin next - reserveDelta p slot high),
                        rbMax = min (reserveCeilingWh p) (rbMax next - reserveDelta p slot low)\<rparr>
               in bindE (ensure (\<not> rbMin b > rbMax b + 1 / 10 ^ 6)
                           ''battery capacity cannot keep the forecast within the site power limits'')
                    (\<lambda>_. Inr b)))"

text \<open>The bands from the last one backwards: the head is the band in front of the first slot.\<close>

fun bandsBack :: "Params \<Rightarrow> Slot list \<Rightarrow> string + reserveEnergyBand list" where
  "bandsBack p [] = Inr [\<lparr>rbMin = reserveFloorWh p, rbMax = reserveCeilingWh p\<rparr>]"
| "bandsBack p (slot # slots) =
     bindE (bandsBack p slots) (\<lambda>bands. bindE (bandBefore p slot (hd bands)) (\<lambda>b. Inr (b # bands)))"

definition reserveBatteryBands :: "Slot list \<Rightarrow> Params \<Rightarrow> string + reserveEnergyBand list" where
  "reserveBatteryBands slots p =
     (case validateSlotChronology slots of
        Some e \<Rightarrow> Inl e
      | None \<Rightarrow>
          bindE (bandsBack p slots) (\<lambda>bands.
            bindE (ensure (\<not> (reserveInitialWh p < rbMin (hd bands) - 1 / 10 ^ 6
                            \<or> reserveInitialWh p > rbMax (hd bands) + 1 / 10 ^ 6))
                     ''battery charge level cannot cover the forecast within the site power limits'')
              (\<lambda>_. Inr bands)))"

section \<open>The reserve plan\<close>

definition reserveCarEff :: "LoadpointSpec option \<Rightarrow> real" where
  "reserveCarEff car = (case car of None \<Rightarrow> 9 / 10
     | Some lp \<Rightarrow> if lChargeEfficiency lp > 0 then lChargeEfficiency lp else 9 / 10)"

definition reserveTargetWh :: "LoadpointSpec option \<Rightarrow> real" where
  "reserveTargetWh car = (case car of None \<Rightarrow> 0
     | Some lp \<Rightarrow> min (lTargetSoC lp) (if lSoCMax lp \<le> lSoCMin lp then 1 else lSoCMax lp) * lCapacityWh lp)"

text \<open>The battery powers one slot leaves: what is stored and the room above it, then the band the next
  slot needs.\<close>

definition reserveLimits :: "Params \<Rightarrow> Slot \<Rightarrow> real \<Rightarrow> reserveEnergyBand \<Rightarrow> real \<times> real" where
  "reserveLimits p slot energy next =
     (let dtH = DurationHours slot;
          chargeEff = orEta (pChargeEfficiency p);
          dischargeEff = orEta (pDischargeEfficiency p);
          minBatteryW = - min (pMaxDischargeW p) (max 0 (energy - pSoCMin p * pCapacityWh p) * dischargeEff / dtH);
          maxBatteryW = min (pMaxChargeW p) (max 0 (pSoCMax p * pCapacityWh p - energy) / chargeEff / dtH)
      in (max minBatteryW (reservePowerForEnergy (rbMin next - energy) dtH chargeEff dischargeEff),
          min maxBatteryW (reservePowerForEnergy (rbMax next - energy) dtH chargeEff dischargeEff)))"

definition chooseBattery :: "Params \<Rightarrow> LoadpointSpec option \<Rightarrow> Slot \<Rightarrow> real \<times> real \<Rightarrow> real \<Rightarrow> f64 \<Rightarrow> real option" where
  "chooseBattery p car slot limits peak most =
     (let house = sLoadW slot + sPVW slot;
          (low, high) = reserveBatteryPowerRange slot p peak;
          low = max low (fst limits);
          high = min high (snd limits);
          low = (case car of Some lp \<Rightarrow> if peak > 0 \<and> blocksBatteryToEV lp then max low (- max 0 house) else low
                           | None \<Rightarrow> low)
      in if low > high + 1 / 10 ^ 7 then None
         else let b = min (max 0 low) high;
                  b = (if Fin b > most then max low (fval most) else b)
              in if \<not> modeAllows (pMode p) house (house + b) b
                    \<or> \<not> modeAllows (pMode p) (house + peak) (house + peak + b) b
                 then None else Some b)"

text \<open>The first step, from the highest down, that the site has room for: the pulse's power, the battery
  beside it and the average it is on for.\<close>

fun pickStep :: "Params \<Rightarrow> LoadpointSpec \<Rightarrow> Slot \<Rightarrow> real \<times> real \<Rightarrow> f64 \<Rightarrow> real \<Rightarrow> real list
    \<Rightarrow> (real \<times> real \<times> real) option" where
  "pickStep p lp slot limits capW need [] = None"
| "pickStep p lp slot limits capW need (step # steps) =
     (if lSurplusOnly lp \<and> SurplusOnlyExceedsHousePV step (sLoadW slot) (sPVW slot)
      then pickStep p lp slot limits capW need steps
      else case chooseBattery p (Some lp) slot limits step PInf of
             None \<Rightarrow> pickStep p lp slot limits capW need steps
           | Some b \<Rightarrow>
               (let house = sLoadW slot + sPVW slot;
                    want = min step (need / (reserveCarEff (Some lp) * DurationHours slot));
                    b = (if evAverageRoomW capW (house + b) step < want
                         then case chooseBattery p (Some lp) slot limits step
                                (f64_max (Fin (- max 0 house)) (capW - Fin house - Fin want)) of
                                Some covered \<Rightarrow> covered
                              | None \<Rightarrow> b
                         else b);
                    avg = min want (evAverageRoomW capW (house + b) step)
                in if capW \<noteq> PInf \<and> (avg \<le> 1 / 10 ^ 6 \<or> b < - solverZeroPowerToleranceW \<and> house + b + avg < - 50)
                   then pickStep p lp slot limits capW need steps
                   else Some (step, b, avg)))"

definition reservePulse :: "Params \<Rightarrow> LoadpointSpec option \<Rightarrow> nat \<Rightarrow> Slot \<Rightarrow> real \<times> real \<Rightarrow> f64 \<Rightarrow> real
    \<Rightarrow> (real \<times> real \<times> real) option" where
  "reservePulse p car i slot limits capW evEnergy =
     (case chooseBattery p car slot limits 0 PInf of
        None \<Rightarrow> None
      | Some b \<Rightarrow>
          (let need = max 0 (reserveTargetWh car - evEnergy)
           in case car of
                None \<Rightarrow> Some (0, b, 0)
              | Some lp \<Rightarrow>
                  if need > 1 / 10 ^ 6 \<and> int i \<le> lTargetSlotIdx lp
                  then case pickStep p lp slot limits capW need (rev (tl (normalizedSteps lp))) of
                         Some pulse \<Rightarrow> Some pulse
                       | None \<Rightarrow> Some (0, b, 0)
                  else Some (0, b, 0)))"

definition slotAction :: "Slot \<Rightarrow> real \<Rightarrow> real \<Rightarrow> string \<Rightarrow> Action" where
  "slotAction slot batteryW gridW reason =
     \<lparr>aExecutionStartMs = sExecutionStartMs slot, aSlotStartMs = sStartMs slot, aSlotLenMin = sLenMin slot,
      aPriceOre = sPriceOre slot, aSpotOre = sSpotOre slot, aPVW = sPVW slot, aLoadW = sLoadW slot,
      aBatteryW = batteryW, aGridW = gridW, aSoC = 0, aCostOre = 0, aReason = reason, aPVLimitW = 0,
      aPVCurtailActive = False, aLoadpointW = 0, aLoadpointSoC = 0, aLoadpointPowerW = [],
      aLoadpointMaxPowerW = [], aLoadpointSoCByID = [], aStoragePowerW = [], aStorageEnergyWh = []\<rparr>"

definition reserveAction :: "Params \<Rightarrow> LoadpointSpec option \<Rightarrow> Slot \<Rightarrow> real \<times> real \<times> real \<Rightarrow> real \<Rightarrow> real \<Rightarrow> Action" where
  "reserveAction p car slot pulse energy evEnergy =
     (case pulse of (peak, battery, average) \<Rightarrow>
        let base = (slotAction slot battery (sLoadW slot + sPVW slot + battery + average) ''Site power reserve'')
                     \<lparr>aSoC := energy / pCapacityWh p\<rparr>;
            a = (case car of
                   None \<Rightarrow> base
                 | Some lp \<Rightarrow> base\<lparr>aLoadpointW := average, aLoadpointSoC := evEnergy / lCapacityWh lp,
                     aLoadpointPowerW := [(lID lp, average)],
                     aLoadpointSoCByID := [(lID lp, evEnergy / lCapacityWh lp)],
                     aLoadpointMaxPowerW := [(lID lp, peak)],
                     aReason := ''EV deadline reserve''\<rparr>)
        in a\<lparr>aCostOre := reserveSlotCost slot p a\<rparr>)"

fun reserveLoop :: "(nat \<Rightarrow> string option) \<Rightarrow> Params \<Rightarrow> LoadpointSpec option \<Rightarrow> nat
    \<Rightarrow> (Slot \<times> reserveEnergyBand \<times> f64) list \<Rightarrow> real \<Rightarrow> real \<Rightarrow> string + Action list \<times> real" where
  "reserveLoop expired p car i [] energy evEnergy = Inr ([], evEnergy)"
| "reserveLoop expired p car i ((slot, next, capW) # rest) energy evEnergy =
     (case expired i of
        Some e \<Rightarrow> Inl e
      | None \<Rightarrow>
          (case reservePulse p car i slot (reserveLimits p slot energy next) capW evEnergy of
             None \<Rightarrow> Inl ''battery cannot keep the forecast within the site power limits''
           | Some (peak, battery, average) \<Rightarrow>
               let evEnergy = evEnergy + average * reserveCarEff car * DurationHours slot;
                   energy = energy + reserveDelta p slot battery
               in bindE (reserveLoop expired p car (Suc i) rest energy evEnergy)
                    (\<lambda>(as, ev). Inr (reserveAction p car slot (peak, battery, average) energy evEnergy # as, ev))))"

definition reserveCaps :: "Slot list \<Rightarrow> Params \<Rightarrow> f64 list" where
  "reserveCaps slots p =
     (case importHourCapsW slots p of None \<Rightarrow> replicate (length slots) PInf | Some (_, caps) \<Rightarrow> caps)"

section \<open>Cheaper slots for the car\<close>

record offer =
  ofIndex :: nat
  ofPeakW :: real
  ofUnitCost :: real

record reserveContext =
  rxSlot :: "nat \<Rightarrow> string option"
  rxOffer :: "nat \<Rightarrow> string option"
  rxPay :: "nat \<Rightarrow> string option"

definition probeAction :: "LoadpointSpec \<Rightarrow> Slot \<Rightarrow> real \<Rightarrow> real \<Rightarrow> Action" where
  "probeAction lp slot batteryW peak =
     (slotAction slot batteryW (sLoadW slot + sPVW slot + batteryW + peak / 2) [])
       \<lparr>aExecutionStartMs := 0, aSlotStartMs := 0, aSlotLenMin := 0, aPriceOre := 0, aSpotOre := 0, aPVW := 0, aLoadW := 0,
        aLoadpointW := peak / 2, aLoadpointPowerW := [(lID lp, peak / 2)], aLoadpointMaxPowerW := [(lID lp, peak)]\<rparr>"

definition offerOf :: "Params \<Rightarrow> LoadpointSpec \<Rightarrow> real \<Rightarrow> nat \<Rightarrow> Slot \<Rightarrow> real \<Rightarrow> offer list" where
  "offerOf p lp eff i slot batteryW =
     (case find (\<lambda>peak. validateEVPulse slot p (probeAction lp slot batteryW peak) (sPVW slot) True = Inr ())
             (rev (tl (normalizedSteps lp))) of
        None \<Rightarrow> []
      | Some peak \<Rightarrow>
          (let dtH = DurationHours slot;
               baseGrid = sLoadW slot + sPVW slot + batteryW;
               offCost = SlotGridCostOre slot (baseGrid * dtH / 1000) p;
               onCost = SlotGridCostOre slot ((baseGrid + peak) * dtH / 1000) p
           in [\<lparr>ofIndex = i, ofPeakW = peak, ofUnitCost = (onCost - offCost) / (peak * dtH * eff)\<rparr>]))"

fun collectOffers :: "(nat \<Rightarrow> string option) \<Rightarrow> Params \<Rightarrow> LoadpointSpec \<Rightarrow> real \<Rightarrow> nat \<Rightarrow> (Slot \<times> Action) list
    \<Rightarrow> string + offer list" where
  "collectOffers expired p lp eff i [] = Inr []"
| "collectOffers expired p lp eff i ((slot, a) # rest) =
     (case expired i of
        Some e \<Rightarrow> Inl e
      | None \<Rightarrow>
          if int i > lTargetSlotIdx lp then Inr []
          else bindE (collectOffers expired p lp eff (Suc i) rest)
                 (\<lambda>os. Inr (offerOf p lp eff i slot (aBatteryW a) @ os)))"

definition idleCar :: "LoadpointSpec \<Rightarrow> Action \<Rightarrow> Action" where
  "idleCar lp a = a\<lparr>aLoadpointW := 0, aLoadpointPowerW := [(lID lp, 0)], aLoadpointMaxPowerW := [(lID lp, 0)],
     aLoadpointSoCByID := [(lID lp, lInitialSoC lp)]\<rparr>"

definition payAverage :: "Slot list \<Rightarrow> Params \<Rightarrow> Action list \<Rightarrow> real \<Rightarrow> real \<Rightarrow> offer \<Rightarrow> real" where
  "payAverage slots p acts eff remaining oo =
     (let slot = slots ! ofIndex oo;
          average = min (ofPeakW oo) (remaining / (eff * DurationHours slot))
      in case importHourCapsW slots p of
           None \<Rightarrow> average
         | Some (_, caps) \<Rightarrow>
             min average (evAverageRoomW (caps ! ofIndex oo)
               (sLoadW slot + sPVW slot + aBatteryW (acts ! ofIndex oo)) (ofPeakW oo)))"

definition payOne :: "LoadpointSpec \<Rightarrow> offer \<Rightarrow> real \<Rightarrow> Action \<Rightarrow> Action" where
  "payOne lp oo average a = a\<lparr>aLoadpointW := average, aLoadpointPowerW := [(lID lp, average)],
     aLoadpointMaxPowerW := [(lID lp, ofPeakW oo)]\<rparr>"

fun payOffers :: "(nat \<Rightarrow> string option) \<Rightarrow> Slot list \<Rightarrow> Params \<Rightarrow> LoadpointSpec \<Rightarrow> real \<Rightarrow> nat \<Rightarrow> offer list
    \<Rightarrow> Action list \<Rightarrow> real \<Rightarrow> string + Action list \<times> real" where
  "payOffers expired slots p lp eff k [] acts remaining = Inr (acts, remaining)"
| "payOffers expired slots p lp eff k (oo # os) acts remaining =
     (case expired k of
        Some e \<Rightarrow> Inl e
      | None \<Rightarrow>
          if remaining \<le> 1 / 10 ^ 6 then Inr (acts, remaining)
          else let average = payAverage slots p acts eff remaining oo
               in if importHourCapsW slots p \<noteq> None \<and> average \<le> 1 / 10 ^ 6
                  then payOffers expired slots p lp eff (Suc k) os acts remaining
                  else payOffers expired slots p lp eff (Suc k) os
                         (acts[ofIndex oo := payOne lp oo average (acts ! ofIndex oo)])
                         (remaining - average * eff * DurationHours (slots ! ofIndex oo)))"

fun reprice :: "Params \<Rightarrow> LoadpointSpec \<Rightarrow> real \<Rightarrow> (Slot \<times> Action) list \<Rightarrow> real \<Rightarrow> Action list \<times> real" where
  "reprice p lp eff [] evEnergy = ([], evEnergy)"
| "reprice p lp eff ((slot, a) # rest) evEnergy =
     (let evEnergy = evEnergy + aLoadpointW a * DurationHours slot * eff;
          soc = evEnergy / lCapacityWh lp;
          a = a\<lparr>aLoadpointSoC := soc, aLoadpointSoCByID := [(lID lp, soc)],
                aGridW := sLoadW slot + sPVW slot + aBatteryW a + aLoadpointW a\<rparr>;
          a = a\<lparr>aCostOre := reserveSlotCost slot p a\<rparr>;
          (as, ev) = reprice p lp eff rest evEnergy
      in (a # as, ev))"

definition chargedWh :: "Slot list \<Rightarrow> real \<Rightarrow> Action list \<Rightarrow> real" where
  "chargedWh slots eff acts = sum_list (map2 (\<lambda>slot a. aLoadpointW a * DurationHours slot * eff) slots acts)"

definition acceptPriced :: "Slot list \<Rightarrow> Params \<Rightarrow> LoadpointSpec \<Rightarrow> real \<Rightarrow> Plan \<Rightarrow> real \<Rightarrow> Action list \<Rightarrow> Plan" where
  "acceptPriced slots p lp eff reserve energyWh acts =
     (let (acts, evEnergy) = reprice p lp eff (zip slots acts) (lInitialSoC lp * lCapacityWh lp);
          priced = reserve\<lparr>plActions := acts, plTotalCostOre := sum_list (map aCostOre acts)\<rparr>
      in if \<bar>evEnergy - lInitialSoC lp * lCapacityWh lp - energyWh\<bar> > 1 / 10 ^ 6
            \<or> plTotalCostOre priced \<ge> plTotalCostOre reserve - 1 / 10 ^ 6
         then reserve
         else case ValidatePlan slots p priced of
                Inl _ \<Rightarrow> reserve
              | Inr priced \<Rightarrow>
                  priced\<lparr>plSolver := map_option (\<lambda>info. info\<lparr>siPolicyVersion := ''core-reserve-prices-v1''\<rparr>)
                                      (plSolver reserve)\<rparr>)"

definition priceReserveCharging :: "reserveContext \<Rightarrow> Slot list \<Rightarrow> Params \<Rightarrow> Plan \<Rightarrow> string + Plan" where
  "priceReserveCharging ctx slots p reserve =
     (case activeLoadpoints p of
        [lp] \<Rightarrow>
          if pDemandCharged p then Inr reserve
          else let eff = (if lChargeEfficiency lp \<le> 0 then 9 / 10 else lChargeEfficiency lp);
                   energyWh = chargedWh slots eff (plActions reserve)
               in if energyWh \<le> 1 / 10 ^ 6 then Inr reserve
                  else bindE (collectOffers (rxOffer ctx) p lp eff 0 (zip slots (plActions reserve)))
                    (\<lambda>offers. bindE (payOffers (rxPay ctx) slots p lp eff 0 (sort_key ofUnitCost offers)
                                       (map (idleCar lp) (plActions reserve)) energyWh)
                      (\<lambda>(acts, remaining).
                         if remaining > 1 / 10 ^ 6 then Inr reserve
                         else Inr (acceptPriced slots p lp eff reserve energyWh acts)))
      | _ \<Rightarrow> Inr reserve)"

definition reserveSolver :: "LoadpointSpec option \<Rightarrow> SolverInfo" where
  "reserveSolver car = \<lparr>siEngine = ''core'', siBackend = (if car = None then ''site_reserve'' else ''ev_reserve''),
     siStatus = ''feasible'', siFormulation = [], siSoCLevels = 0, siActionLevels = 0, siPolicyVersion = [],
     siFallback = False, siFallbackReason = []\<rparr>"

definition coreReservePlan :: "reserveContext \<Rightarrow> int \<Rightarrow> Slot list \<Rightarrow> Params \<Rightarrow> string + Plan" where
  "coreReservePlan ctx now slots p =
     (case coreDPModelError p of
        Some e \<Rightarrow> Inl e
      | None \<Rightarrow>
          bindE (reserveBatteryBands slots p) (\<lambda>bands.
            let car = (case activeLoadpoints p of [lp] \<Rightarrow> Some lp | _ \<Rightarrow> None);
                ev0 = (case car of None \<Rightarrow> 0 | Some lp \<Rightarrow> lInitialSoC lp * lCapacityWh lp)
            in bindE (reserveLoop (rxSlot ctx) p car 0 (zip slots (zip (tl bands) (reserveCaps slots p)))
                        (reserveInitialWh p) ev0)
                 (\<lambda>(acts, evEnergy).
                    priceReserveCharging ctx slots p
                      \<lparr>plGeneratedAtMs = now, plMode = pMode p, plHorizonSlots = length slots,
                       plCapacityWh = pCapacityWh p, plInitialSoC = pInitialSoC p,
                       plTotalCostOre = sum_list (map aCostOre acts), plActions = acts,
                       plSolver = Some (reserveSolver car),
                       plLoadpointShortfallWh =
                         (case car of
                            Some lp \<Rightarrow> if lTargetSoC lp > 0 \<and> 0 \<le> lTargetSlotIdx lp \<and> lTargetSlotIdx lp < int (length slots)
                                       then [(lID lp, max 0 (reserveTargetWh car - evEnergy))] else []
                          | None \<Rightarrow> [])\<rparr>)))"

section \<open>Recovery\<close>

definition coreSolverInfo :: "Params \<Rightarrow> SolverInfo" where
  "coreSolverInfo p = \<lparr>siEngine = ''core'', siBackend = ''dp'', siStatus = ''optimal'',
     siFormulation = ''discrete-dp'', siSoCLevels = pSoCLevels p, siActionLevels = pActionLevels p,
     siPolicyVersion = [], siFallback = False, siFallbackReason = []\<rparr>"

definition setCoreReserveSolver :: "Params \<Rightarrow> Plan \<Rightarrow> Plan" where
  "setCoreReserveSolver p plan =
     (case plSolver plan of None \<Rightarrow> plan\<lparr>plSolver := Some (coreSolverInfo p)\<rparr> | Some _ \<Rightarrow> plan)"

definition shortenedWarning :: "(int \<Rightarrow> string) \<Rightarrow> Plan \<Rightarrow> 'n slotOf list \<Rightarrow> string \<Rightarrow> string" where
  "shortenedWarning showTime plan slots reason =
     (let end' = (case checkedSlotEndMs (sStartMs (last slots)) (sLenMin (last slots)) of Inl _ \<Rightarrow> 0 | Inr e \<Rightarrow> e);
          reason = (case plSolver plan of
                      Some info \<Rightarrow> if siFallback info \<and> siFallbackReason info \<noteq> []
                                   then siFallbackReason info @ ''; '' @ reason else reason
                    | None \<Rightarrow> reason)
      in ''Plan ends at '' @ showTime end' @ ''. '' @ reason @ '' FTW will replan.'')"

definition markShortenedPlan :: "(int \<Rightarrow> string) \<Rightarrow> Plan \<Rightarrow> 'n slotOf list \<Rightarrow> string \<Rightarrow> Plan" where
  "markShortenedPlan showTime plan slots reason =
     plan\<lparr>plSolver := map_option (\<lambda>info. if siFallback info
            then info\<lparr>siFallbackReason := shortenedWarning showTime plan slots reason\<rparr> else info) (plSolver plan)\<rparr>"

definition markFallback :: "string option \<Rightarrow> Plan \<Rightarrow> Plan" where
  "markFallback reason plan =
     plan\<lparr>plSolver := map_option (\<lambda>info. let info = info\<lparr>siStatus := ''fallback'', siFallback := True\<rparr>
            in case reason of None \<Rightarrow> info | Some r \<Rightarrow> info\<lparr>siFallbackReason := r\<rparr>) (plSolver plan)\<rparr>"

text \<open>The deadline: at the start, inside the dynamic programme and the reserve of each length, and between
  them.\<close>

record recoveryContext =
  rcStart :: "string option"
  rcDp :: planContext
  rcBuild :: "nat \<Rightarrow> string option"
  rcReserve :: "nat \<Rightarrow> reserveContext"
  rcAfter :: "nat \<Rightarrow> string option"

fun planErrorText :: "planError \<Rightarrow> string" where
  "planErrorText (PlanError e) = e"
| "planErrorText (ImportHourOverrun plan e) = e"

definition gated :: "Slot list \<Rightarrow> Params \<Rightarrow> string + Plan \<Rightarrow> string + Plan" where
  "gated slots p r = bindE r (\<lambda>plan. case ValidatePlan slots p plan of
     Inl e \<Rightarrow> Inl (planErrorText e) | Inr plan \<Rightarrow> Inr plan)"

definition buildReserve :: "recoveryContext \<Rightarrow> int \<Rightarrow> Slot list \<Rightarrow> Params \<Rightarrow> nat \<Rightarrow> string + Plan" where
  "buildReserve ctx now slots p n =
     (case rcBuild ctx n of
        Some e \<Rightarrow> Inl e
      | None \<Rightarrow> gated (take n slots) p (coreReservePlan (rcReserve ctx n) now (take n slots) p))"

function searchPrefix :: "(nat \<Rightarrow> string + Plan) \<Rightarrow> (nat \<Rightarrow> string option) \<Rightarrow> nat \<Rightarrow> nat \<Rightarrow> (Plan \<times> nat) option
    \<Rightarrow> string + (Plan \<times> nat) option" where
  "searchPrefix build expired low high best =
     (if low \<le> high then
        let mid = low + (high - low) div 2
        in case expired mid of
             Some e \<Rightarrow> Inl e
           | None \<Rightarrow>
               (case build mid of
                  Inr plan \<Rightarrow> searchPrefix build expired (mid + 1) high (Some (plan, mid))
                | Inl _ \<Rightarrow> if mid = 0 then Inr best else searchPrefix build expired low (mid - 1) best)
      else Inr best)"
  by pat_completeness auto
termination
  by (relation "measure (\<lambda>(build, expired, low, high, best). Suc high - low)") auto

declare searchPrefix.simps [simp del]

definition markInputs :: "(int \<Rightarrow> string) \<Rightarrow> Slot list \<Rightarrow> string option \<Rightarrow> Plan \<Rightarrow> Plan" where
  "markInputs showTime slots inputErr plan =
     (case inputErr of
        None \<Rightarrow> plan
      | Some e \<Rightarrow> markShortenedPlan showTime plan slots (''Later planning inputs are invalid: '' @ e @ ''.''))"

definition priceOptimum :: "recoveryContext \<Rightarrow> int \<Rightarrow> f64 slotOf list \<Rightarrow> Params \<Rightarrow> string + Plan" where
  "priceOptimum ctx now input p =
     gated (map saneSlot input) p
       (case OptimizeContext (rcDp ctx) now input p of (plan, None) \<Rightarrow> Inr plan | (_, Some e) \<Rightarrow> Inl e)"

definition reserveRecovery :: "(int \<Rightarrow> string) \<Rightarrow> recoveryContext \<Rightarrow> int \<Rightarrow> Slot list \<Rightarrow> Params \<Rightarrow> string option
    \<Rightarrow> string option \<Rightarrow> string + Plan \<times> Slot list" where
  "reserveRecovery showTime ctx now slots p inputErr dpErr =
     (case buildReserve ctx now slots p (length slots) of
        Inr plan \<Rightarrow>
          Inr (markInputs showTime slots inputErr
                 (case dpErr of
                    None \<Rightarrow> plan
                  | Some e \<Rightarrow> markFallback (Some (''Core price optimisation unavailable; using a reserve plan: '' @ e)) plan),
               slots)
      | Inl fullErr \<Rightarrow>
          (case rcAfter ctx (length slots) of
             Some e \<Rightarrow> Inl e
           | None \<Rightarrow>
               bindE (searchPrefix (buildReserve ctx now slots p) (rcAfter ctx) 1 (length slots - 1) None)
                 (\<lambda>best. case best of
                    None \<Rightarrow> Inl fullErr
                  | Some (plan, count) \<Rightarrow>
                      Inr (markShortenedPlan showTime (markFallback None plan) (take count slots)
                             ''A later forecast exceeds the site's power limits.'',
                           take count slots))))"

definition corePlanWithRecovery :: "(int \<Rightarrow> string) \<Rightarrow> recoveryContext \<Rightarrow> int \<Rightarrow> f64 slotOf list \<Rightarrow> Params
    \<Rightarrow> string + Plan \<times> Slot list" where
  "corePlanWithRecovery showTime ctx now slots p =
     (case rcStart ctx of
        Some e \<Rightarrow> Inl e
      | None \<Rightarrow>
          (case planningInputPrefix slots of (input, inputErr) \<Rightarrow>
             if input = [] then Inl (case inputErr of Some e \<Rightarrow> e | None \<Rightarrow> [])
             else bindE (validatePlanningParams p) (\<lambda>_.
               case coreDPModelError p of
                 Some e \<Rightarrow> Inl e
               | None \<Rightarrow>
                   (let sane = map saneSlot input;
                        loads = activeLoadpoints p
                    in if loads = [] \<or> lTargetSoC (hd loads) \<le> 0 then
                         (case priceOptimum ctx now input p of
                            Inr plan \<Rightarrow> Inr (markInputs showTime sane inputErr (plan\<lparr>plSolver := Some (coreSolverInfo p)\<rparr>), sane)
                          | Inl dpErr \<Rightarrow> reserveRecovery showTime ctx now sane p inputErr (Some dpErr))
                       else reserveRecovery showTime ctx now sane p inputErr None))))"

section \<open>Only accepted plans are returned\<close>

text \<open>The gate reads a plan's actions and total, writes its shortfall, and leaves the label alone.\<close>

lemma ValidatePlan_keeps:
  assumes "ValidatePlan slots p q = Inr q'"
  shows "plActions q' = plActions q \<and> plTotalCostOre q' = plTotalCostOre q"
proof -
  obtain sf where "q' = q\<lparr>plLoadpointShortfallWh := sf\<rparr>"
    using assms unfolding ValidatePlan_def by (rule validatePlan_parts)
  then show ?thesis by simp
qed

lemma ValidatePlan_again:
  assumes "ValidatePlan slots p q = Inr q'"
    and "plActions r = plActions q'" "plTotalCostOre r = plTotalCostOre q'"
    and "plLoadpointShortfallWh r = plLoadpointShortfallWh q'"
  shows "ValidatePlan slots p r = Inr r"
proof -
  have chron: "validatePartialSlots slots = None"
    using assms(1) by (auto simp: ValidatePlan_def validatePlan_def split: option.splits)
  obtain rs where rs: "length (plActions q) = length slots" "slots \<noteq> []"
    "foldE (replaySlot True p) (indexedSlots slots q) (replayStart p) = Inr rs"
    "\<bar>plTotalCostOre q - rsCost rs\<bar> \<le> 1 / 10" "validateImportHours slots p (plActions q) = None"
    "q' = q\<lparr>plLoadpointShortfallWh := rsShortfall rs\<rparr>"
    using validatePlan_parts [of slots p q True q'] assms(1) unfolding ValidatePlan_def by metis
  have "plActions r = plActions q" "plTotalCostOre r = plTotalCostOre q"
    "plLoadpointShortfallWh r = rsShortfall rs" using assms(2-4) rs(6) by simp_all
  moreover from this(3) have "r\<lparr>plLoadpointShortfallWh := rsShortfall rs\<rparr> = r" by simp
  ultimately show ?thesis using chron rs(1-5) by (simp add: ValidatePlan_def validatePlan_def indexedSlots_def)
qed

lemma relabel_accepted:
  assumes "ValidatePlan slots p plan = Inr plan"
  shows "ValidatePlan slots p (plan\<lparr>plSolver := info\<rparr>) = Inr (plan\<lparr>plSolver := info\<rparr>)"
  by (rule ValidatePlan_again [OF assms]) simp_all

lemma gated_accepted:
  assumes "gated slots p r = Inr plan"
  shows "ValidatePlan slots p plan = Inr plan"
proof -
  obtain q where "(case ValidatePlan slots p q of Inl e \<Rightarrow> Inl (planErrorText e) | Inr plan \<Rightarrow> Inr plan) = Inr plan"
    using assms by (auto simp: gated_def)
  then have "ValidatePlan slots p q = Inr plan" by (cases "ValidatePlan slots p q") simp_all
  then show ?thesis by (rule ValidatePlan_again) simp_all
qed

lemma buildReserve_accepted:
  "buildReserve ctx now slots p n = Inr plan \<Longrightarrow> ValidatePlan (take n slots) p plan = Inr plan"
  by (auto simp: buildReserve_def split: option.splits intro: gated_accepted)

lemma markShortened_accepted:
  "ValidatePlan slots p plan = Inr plan
   \<Longrightarrow> ValidatePlan slots p (markShortenedPlan showTime plan ss reason) = Inr (markShortenedPlan showTime plan ss reason)"
  unfolding markShortenedPlan_def by (rule relabel_accepted)

lemma markFallback_accepted:
  "ValidatePlan slots p plan = Inr plan \<Longrightarrow> ValidatePlan slots p (markFallback r plan) = Inr (markFallback r plan)"
  unfolding markFallback_def by (rule relabel_accepted)

lemma markInputs_accepted:
  "ValidatePlan slots p plan = Inr plan
   \<Longrightarrow> ValidatePlan slots p (markInputs showTime ss e plan) = Inr (markInputs showTime ss e plan)"
  by (cases e) (simp_all add: markInputs_def markShortened_accepted)

lemmas marks_accepted = markShortened_accepted markFallback_accepted markInputs_accepted relabel_accepted

lemma searchPrefix_step:
  assumes "low \<le> high"
  defines "mid \<equiv> low + (high - low) div 2"
  shows "searchPrefix build expired low high best =
    (case expired mid of
       Some e \<Rightarrow> Inl e
     | None \<Rightarrow> (case build mid of
                 Inr plan \<Rightarrow> searchPrefix build expired (mid + 1) high (Some (plan, mid))
               | Inl _ \<Rightarrow> if mid = 0 then Inr best else searchPrefix build expired low (mid - 1) best))"
  by (subst searchPrefix.simps) (simp only: assms Let_def if_True)

lemma searchPrefix_built:
  assumes "searchPrefix build expired low high best = Inr (Some (plan, n))" "1 \<le> low"
    and "\<And>q m. best = Some (q, m) \<Longrightarrow> build m = Inr q \<and> 1 \<le> m \<and> m \<le> N" "high \<le> N"
  shows "build n = Inr plan \<and> 1 \<le> n \<and> n \<le> N"
  using assms
proof (induction "Suc high - low" arbitrary: low high best rule: less_induct)
  case less
  show ?case
  proof (cases "low \<le> high")
    case False
    then show ?thesis using less.prems by (simp add: searchPrefix.simps)
  next
    case True
    define mid where "mid = low + (high - low) div 2"
    have mid: "low \<le> mid" "mid \<le> high" "1 \<le> mid" using True less.prems(2) by (auto simp: mid_def)
    note step = searchPrefix_step [OF True, of build expired best, folded mid_def]
    have ex: "expired mid = None" using less.prems(1) unfolding step by (cases "expired mid") simp_all
    show ?thesis
    proof (cases "build mid")
      case (Inr q)
      have "searchPrefix build expired (mid + 1) high (Some (q, mid)) = Inr (Some (plan, n))"
        using less.prems(1) ex Inr unfolding step by simp
      then show ?thesis using less.hyps [of high "mid + 1" "Some (q, mid)"] mid Inr less.prems(4) by auto
    next
      case (Inl e)
      have "searchPrefix build expired low (mid - 1) best = Inr (Some (plan, n))"
        using less.prems(1) ex Inl mid(3) unfolding step by simp
      then show ?thesis using less.hyps [of "mid - 1" low best] mid less.prems(2-4) by auto
    qed
  qed
qed

lemma reserveRecovery_accepted:
  assumes "reserveRecovery showTime ctx now slots p inputErr dpErr = Inr (plan, S)" "slots \<noteq> []"
  obtains n where "1 \<le> n" "n \<le> length slots" "S = take n slots" "ValidatePlan S p plan = Inr plan"
proof (cases "buildReserve ctx now slots p (length slots)")
  case (Inr full)
  then have "ValidatePlan slots p full = Inr full" using buildReserve_accepted [OF Inr] by simp
  then have "ValidatePlan slots p plan = Inr plan" "S = slots"
    using assms(1) Inr by (auto simp: reserveRecovery_def marks_accepted split: option.splits)
  then show ?thesis using assms(2) by (intro that [of "length slots"]) (auto simp: Suc_le_eq)
next
  case (Inl e)
  then obtain q n where q: "searchPrefix (buildReserve ctx now slots p) (rcAfter ctx) 1 (length slots - 1) None = Inr (Some (q, n))"
    "plan = markShortenedPlan showTime (markFallback None q) (take n slots) ''A later forecast exceeds the site's power limits.''"
    "S = take n slots"
    using assms(1) by (auto simp: reserveRecovery_def split: option.splits)
  have n: "buildReserve ctx now slots p n = Inr q \<and> 1 \<le> n \<and> n \<le> length slots - 1"
    by (rule searchPrefix_built [OF q(1)]) auto
  then have "ValidatePlan S p plan = Inr plan"
    unfolding q(2,3) by (intro marks_accepted buildReserve_accepted) auto
  with n q(3) show ?thesis by (intro that [of n]) auto
qed

lemma recovery_accepted:
  assumes "corePlanWithRecovery showTime ctx now slots p = Inr (plan, S)"
  shows "S \<noteq> [] \<and> S = map saneSlot (take (length S) slots)
    \<and> list_all (\<lambda>s. slotError s = None) (take (length S) slots) \<and> ValidatePlan S p plan = Inr plan"
proof -
  obtain input inputErr where pre: "planningInputPrefix slots = (input, inputErr)" by fastforce
  have ne: "input \<noteq> []" and chron: "validateSlotChronology slots = None"
    using assms pre by (auto simp: corePlanWithRecovery_def planningInputPrefix_def split: option.splits if_splits)
  have input: "input = takeWhile (\<lambda>s. slotError s = None) slots"
    using input_prefix_takeWhile [OF chron] pre by simp
  have "\<exists>n. 1 \<le> n \<and> n \<le> length input \<and> S = take n (map saneSlot input) \<and> ValidatePlan S p plan = Inr plan"
  proof (cases "S = map saneSlot input \<and> ValidatePlan S p plan = Inr plan")
    case True
    with ne show ?thesis by (intro exI [of _ "length input"]) (auto simp: Suc_le_eq)
  next
    case False
    then obtain dpErr where "reserveRecovery showTime ctx now (map saneSlot input) p inputErr dpErr = Inr (plan, S)"
      using assms pre ne unfolding corePlanWithRecovery_def priceOptimum_def
      by (auto simp: Let_def marks_accepted gated_accepted split: option.splits sum.splits if_splits)
    then show ?thesis using ne by (auto elim!: reserveRecovery_accepted)
  qed
  then obtain n where n: "1 \<le> n" "n \<le> length input" "S = take n (map saneSlot input)" "ValidatePlan S p plan = Inr plan"
    by blast
  have len: "length S = n" using n(2,3) by simp
  obtain rest where rest: "slots = input @ rest" using input takeWhile_dropWhile_id by metis
  have tk: "take n slots = take n input" using n(2) rest by simp
  have "list_all (\<lambda>s. slotError s = None) (take n input)"
    unfolding input by (auto simp: list_all_iff dest!: in_set_takeD set_takeWhileD)
  then show ?thesis using n ne len by (simp add: tk take_map)
qed

text \<open>C7: Whatever happens to a planning request, Core hands over only plans its own gate accepts: when
  recovery returns a plan, the plan covers a nonempty run of slots from the start of the request, all of
  them with valid inputs, and the gate accepts it as it is returned, labels, fallback marks and shortened
  horizon included. Invalid later inputs, a failed or late price optimisation and a forecast beyond the
  site's limits shorten the plan or replace it by a reserve, but no path skips the replay.\<close>

theorem recovery_returns_accepted_plans:
  assumes "corePlanWithRecovery showTime ctx now slots p = Inr (plan, S)"
  shows "S \<noteq> [] \<and> S = map saneSlot (take (length S) slots)
    \<and> list_all (\<lambda>s. slotError s = None) (take (length S) slots) \<and> ValidatePlan S p plan = Inr plan"
  using assms by (rule recovery_accepted)

section \<open>A priced reserve\<close>

lemma chargedWh_powers:
  "chargedWh slots eff acts = sum_list (map2 (\<lambda>slot w. w * DurationHours slot * eff) slots (map aLoadpointW acts))"
  by (simp add: chargedWh_def zip_map2 case_prod_unfold o_def)

lemma reprice_facts:
  assumes "reprice p lp eff (zip slots acts) ev = (acts', ev')" "length acts = length slots"
  shows "map aBatteryW acts' = map aBatteryW acts" "map aLoadpointW acts' = map aLoadpointW acts"
    "length acts' = length acts" "ev' = ev + chargedWh slots eff acts"
proof -
  have "map aBatteryW acts' = map aBatteryW acts \<and> map aLoadpointW acts' = map aLoadpointW acts
      \<and> length acts' = length acts \<and> ev' = ev + chargedWh slots eff acts"
    using assms(2,1)
  proof (induction acts slots arbitrary: ev acts' ev' rule: list_induct2)
    case (Cons a as s ss)
    obtain as' w where r: "reprice p lp eff (zip ss as) (ev + aLoadpointW a * DurationHours s * eff) = (as', w)"
      by fastforce
    show ?case using Cons.prems Cons.IH [OF r] r by (auto simp: Let_def chargedWh_def)
  qed (simp add: chargedWh_def)
  then show "map aBatteryW acts' = map aBatteryW acts" "map aLoadpointW acts' = map aLoadpointW acts"
    "length acts' = length acts" "ev' = ev + chargedWh slots eff acts" by simp_all
qed

lemma payOffers_battery:
  assumes "payOffers expired slots p lp eff k os acts remaining = Inr (acts', remaining')"
  shows "map aBatteryW acts' = map aBatteryW acts"
  using assms
proof (induction expired slots p lp eff k os acts remaining rule: payOffers.induct)
  case (2 expired slots p lp eff k oo os acts remaining)
  have one: "map aBatteryW (acts[ofIndex oo := payOne lp oo w (acts ! ofIndex oo)]) = map aBatteryW acts" for w
  proof (cases "ofIndex oo < length acts")
    case True
    then show ?thesis by (intro nth_equalityI) (auto simp: nth_list_update payOne_def)
  qed (simp add: list_update_beyond)
  show ?case using 2 by (auto simp: Let_def one split: option.splits if_splits)
qed simp

text \<open>Moving the car's charging to cheaper slots never gives up anything of the reserve. The result is
  the reserve itself, or a plan that costs less, has the same battery power in every slot, charges the
  car with the same energy to a millionth of a watt-hour, and passes the gate on its own.\<close>

theorem priced_reserve_only_improves:
  assumes "priceReserveCharging ctx slots p reserve = Inr plan" "activeLoadpoints p = [lp]"
    and "length (plActions reserve) = length slots"
  defines "eff \<equiv> if lChargeEfficiency lp \<le> 0 then 9 / 10 else lChargeEfficiency lp"
  shows "plan = reserve
    \<or> plTotalCostOre plan < plTotalCostOre reserve \<and> map aBatteryW (plActions plan) = map aBatteryW (plActions reserve)
      \<and> \<bar>chargedWh slots eff (plActions plan) - chargedWh slots eff (plActions reserve)\<bar> \<le> 1 / 10 ^ 6
      \<and> ValidatePlan slots p plan = Inr plan"
proof (cases "plan = reserve")
  case False
  define energyWh where "energyWh = chargedWh slots eff (plActions reserve)"
  obtain os acts remaining where pay:
    "payOffers (rxPay ctx) slots p lp eff 0 os (map (idleCar lp) (plActions reserve)) energyWh = Inr (acts, remaining)"
    and plan: "plan = acceptPriced slots p lp eff reserve energyWh acts"
    using assms(1,2) False unfolding priceReserveCharging_def
    by (auto simp: Let_def eff_def [symmetric] energyWh_def [symmetric] split: if_splits)
  have bat: "map aBatteryW acts = map aBatteryW (plActions reserve)"
    using payOffers_battery [OF pay] by (simp add: idleCar_def o_def)
  then have len: "length acts = length slots" using assms(3) by (metis length_map)
  obtain acts' ev where rp: "reprice p lp eff (zip slots acts) (lInitialSoC lp * lCapacityWh lp) = (acts', ev)"
    by fastforce
  note facts = reprice_facts [OF rp len]
  let ?priced = "reserve\<lparr>plActions := acts', plTotalCostOre := sum_list (map aCostOre acts')\<rparr>"
  obtain v where v: "\<bar>ev - lInitialSoC lp * lCapacityWh lp - energyWh\<bar> \<le> 1 / 10 ^ 6"
    "plTotalCostOre ?priced < plTotalCostOre reserve" "ValidatePlan slots p ?priced = Inr v"
    "plan = v\<lparr>plSolver := plSolver plan\<rparr>"
    using plan False unfolding acceptPriced_def rp
    by (auto simp: Let_def not_less not_le split: if_splits sum.splits)
  have v_eq: "plActions v = acts'" "plTotalCostOre v = plTotalCostOre ?priced"
    using ValidatePlan_keeps [OF v(3)] by simp_all
  have same: "plActions plan = plActions v" "plTotalCostOre plan = plTotalCostOre v"
    "plLoadpointShortfallWh plan = plLoadpointShortfallWh v" 
    using arg_cong [OF v(4), of plActions] arg_cong [OF v(4), of plTotalCostOre]
      arg_cong [OF v(4), of plLoadpointShortfallWh] by simp_all
  have "chargedWh slots eff acts' = chargedWh slots eff acts" unfolding chargedWh_powers facts(2) ..
  then have "\<bar>chargedWh slots eff (plActions plan) - energyWh\<bar> \<le> 1 / 10 ^ 6"
    using v(1) facts(4) same(1) v_eq(1) by simp
  moreover have "ValidatePlan slots p plan = Inr plan"
    by (rule ValidatePlan_again [OF v(3)]) (use same in simp_all)
  ultimately show ?thesis
    using v(2) same v_eq facts(1) bat by (simp add: energyWh_def)
qed simp

section \<open>Examples\<close>

definition noExpiry :: recoveryContext where
  "noExpiry = \<lparr>rcStart = None, rcDp = background, rcBuild = (\<lambda>_. None),
     rcReserve = (\<lambda>_. \<lparr>rxSlot = (\<lambda>_. None), rxOffer = (\<lambda>_. None), rxPay = (\<lambda>_. None)\<rparr>), rcAfter = (\<lambda>_. None)\<rparr>"

lemma example_recovered:
  "corePlanWithRecovery (\<lambda>_. []) noExpiry 0 exampleInput exampleParams
     = Inr (examplePlan\<lparr>plSolver := Some (coreSolverInfo exampleParams)\<rparr>, exampleSlots)"
proof -
  have "planningInputPrefix exampleInput = (exampleInput, None)" "map saneSlot exampleInput = exampleSlots"
    "exampleInput \<noteq> []" "validatePlanningParams exampleParams = Inr ()" "coreDPModelError exampleParams = None"
    "activeLoadpoints exampleParams = []"
    by code_simp+
  moreover from this have "priceOptimum noExpiry 0 exampleInput exampleParams = Inr examplePlan"
    using example_accepted example_optimized
    by (simp add: priceOptimum_def gated_def noExpiry_def exampleInput_def)
  ultimately show ?thesis by (simp add: corePlanWithRecovery_def noExpiry_def markInputs_def)
qed

theorem recovery_returns_accepted_plans_witness:
  "ValidatePlan exampleSlots exampleParams (examplePlan\<lparr>plSolver := Some (coreSolverInfo exampleParams)\<rparr>)
     = Inr (examplePlan\<lparr>plSolver := Some (coreSolverInfo exampleParams)\<rparr>)"
  using recovery_returns_accepted_plans [OF example_recovered] by blast

text \<open>A car that needs one hour at a kilowatt, first planned in the dear hour.\<close>

definition exampleCar :: LoadpointSpec where
  "exampleCar = \<lparr>lID = ''car'', lCapacityWh = 10000, lLevels = 2, lSoCMin = 0, lSoCMax = 1, lInitialSoC = 0,
     lPluggedIn = True, lTargetSoC = 1 / 10, lTargetSlotIdx = 1, lMinChargeW = 0, lMaxChargeW = 1000,
     lAllowedStepsW = [], lChargeEfficiency = 1, lSurplusOnly = False, lNoBatteryToEV = False,
     lMinChargeSeconds = 0, lStartCostOre = 0, lInitialCharging = False, lInitialChargeSeconds = 0\<rparr>"

definition carParams :: Params where
  "carParams = exampleParams\<lparr>pLoadpoint := Some exampleCar\<rparr>"

definition carSlots :: "Slot list" where
  "carSlots = [exampleSlot 100 0 0 3600000, exampleSlot 10 0 0 7200000]"

definition carReserve :: Plan where
  "carReserve = emptyPlan\<lparr>plActions :=
     [reserveAction carParams (Some exampleCar) (carSlots ! 0) (1000, 0, 1000) 500 1000,
      reserveAction carParams (Some exampleCar) (carSlots ! 1) (0, 0, 0) 500 1000], plTotalCostOre := 100\<rparr>"

definition carPriced :: Plan where
  "carPriced = emptyPlan\<lparr>plActions :=
     [reserveAction carParams (Some exampleCar) (carSlots ! 0) (0, 0, 0) 500 0,
      reserveAction carParams (Some exampleCar) (carSlots ! 1) (1000, 0, 1000) 500 1000], plTotalCostOre := 10\<rparr>"

theorem priced_reserve_only_improves_witness:
  "plTotalCostOre carPriced < plTotalCostOre carReserve \<and> ValidatePlan carSlots carParams carPriced = Inr carPriced"
proof -
  have "priceReserveCharging (rcReserve noExpiry 0) carSlots carParams carReserve = Inr carPriced"
    "activeLoadpoints carParams = [exampleCar]" "length (plActions carReserve) = length carSlots"
    by code_simp+
  note priced_reserve_only_improves [OF this]
  moreover have "plTotalCostOre carPriced \<noteq> plTotalCostOre carReserve" by code_simp
  ultimately show ?thesis by auto
qed

end
