(* ===== verification/Mpc_Reserve.thy ===== *)
theory Mpc_Reserve
  imports Mpc_Recovery
begin

text \<open>
  What the battery bands of the reserve plan decide. \<open>servable\<close> says, without any band, that some
  sequence of legal battery powers carries the house through its forecast; the bands of
  \<^const>\<open>reserveBatteryBands\<close> are shown to be exactly the energies it allows, and the slot by slot choices of
  \<^const>\<open>coreReservePlan\<close> to find a plan the gate accepts whenever one sequence exists.
\<close>

section \<open>The specification\<close>

definition inBand :: "reserveEnergyBand \<Rightarrow> real \<Rightarrow> bool" where
  "inBand b e \<longleftrightarrow> rbMin b \<le> e \<and> e \<le> rbMax b"

definition inReserve :: "Params \<Rightarrow> real \<Rightarrow> bool" where
  "inReserve p e \<longleftrightarrow> reserveFloorWh p \<le> e \<and> e \<le> reserveCeilingWh p"

text \<open>Legal: within the battery's power, the slot's grid limits and what the mode allows.\<close>

definition legalPower :: "Params \<Rightarrow> Slot \<Rightarrow> real \<Rightarrow> bool" where
  "legalPower p slot w \<longleftrightarrow>
     fst (reserveBatteryPowerRange slot p 0) \<le> w \<and> w \<le> snd (reserveBatteryPowerRange slot p 0)"

fun servable :: "Params \<Rightarrow> Slot list \<Rightarrow> real \<Rightarrow> bool" where
  "servable p [] e \<longleftrightarrow> inReserve p e"
| "servable p (slot # slots) e \<longleftrightarrow>
     inReserve p e \<and> (\<exists>w. legalPower p slot w \<and> servable p slots (e + reserveDelta p slot w))"

section \<open>Power and energy of a slot\<close>

definition reservePower :: "Params \<Rightarrow> Slot \<Rightarrow> real \<Rightarrow> real" where
  "reservePower p slot d =
     reservePowerForEnergy d (DurationHours slot) (orEta (pChargeEfficiency p)) (orEta (pDischargeEfficiency p))"

lemma orEta_pos [simp]: "0 < orEta x"
  by (simp add: orEta_def)

lemma orEta_nonzero [simp]: "orEta x \<noteq> 0"
  using orEta_pos [of x] by linarith

lemma reserveDelta_less:
  assumes "0 < DurationHours s" "a < b"
  shows "reserveDelta p s a < reserveDelta p s b"
proof -
  let ?h = "DurationHours s" and ?c = "orEta (pChargeEfficiency p)" and ?d = "orEta (pDischargeEfficiency p)"
  have up: "x < y \<Longrightarrow> x * ?h * ?c < y * ?h * ?c" for x y using assms(1) by simp
  have dn: "x < y \<Longrightarrow> x * ?h / ?d < y * ?h / ?d" for x y
    using assms(1) by (simp add: divide_strict_right_mono)
  consider "0 \<le> a" | "a < 0" "b < 0" | "a < 0" "0 \<le> b" by linarith
  then show ?thesis
  proof cases
    case 3
    then have "a * ?h / ?d < 0" "0 \<le> b * ?h * ?c"
      using assms(1) orEta_pos [of "pChargeEfficiency p"] by (simp_all add: divide_neg_pos mult_neg_pos order_less_imp_le)
    with 3 show ?thesis by (simp add: reserveDelta_def BatteryEnergyDeltaWh_def)
  qed (use assms(2) up [OF assms(2)] dn [OF assms(2)] in \<open>simp_all add: reserveDelta_def BatteryEnergyDeltaWh_def\<close>)
qed

lemma reserveDelta_le: "0 < DurationHours s \<Longrightarrow> reserveDelta p s a \<le> reserveDelta p s b \<longleftrightarrow> a \<le> b"
  using reserveDelta_less [of s a b p] reserveDelta_less [of s b a p] by (cases a b rule: linorder_cases) auto

lemma reserveDelta_power:
  assumes "0 < DurationHours s"
  shows "reserveDelta p s (reservePower p s d) = d"
proof (cases "d < 0")
  case True
  then have "d * orEta (pDischargeEfficiency p) / DurationHours s < 0"
    using assms by (simp add: divide_neg_pos mult_neg_pos)
  with True show ?thesis
    using assms orEta_pos [of "pDischargeEfficiency p"]
    by (simp add: reservePower_def reservePowerForEnergy_def reserveDelta_def BatteryEnergyDeltaWh_def)
next
  case False
  then have "0 \<le> d / (orEta (pChargeEfficiency p) * DurationHours s)"
    using assms orEta_pos [of "pChargeEfficiency p"] by (intro divide_nonneg_pos mult_pos_pos) simp_all
  with False have "reserveDelta p s (reservePower p s d)
      = d / (orEta (pChargeEfficiency p) * DurationHours s) * DurationHours s * orEta (pChargeEfficiency p)"
    unfolding reservePower_def reservePowerForEnergy_def reserveDelta_def BatteryEnergyDeltaWh_def by presburger
  with assms show ?thesis by simp
qed

lemma power_le_iff: "0 < DurationHours s \<Longrightarrow> reservePower p s d \<le> w \<longleftrightarrow> d \<le> reserveDelta p s w"
  using reserveDelta_le [of s p "reservePower p s d" w] reserveDelta_power [of s p d] by simp

lemma le_power_iff: "0 < DurationHours s \<Longrightarrow> w \<le> reservePower p s d \<longleftrightarrow> reserveDelta p s w \<le> d"
  using reserveDelta_le [of s p w "reservePower p s d"] reserveDelta_power [of s p d] by simp

lemma power_mono: "0 < DurationHours s \<Longrightarrow> d \<le> d' \<Longrightarrow> reservePower p s d \<le> reservePower p s d'"
  by (simp add: power_le_iff reserveDelta_power)

section \<open>The bands are the servable energies\<close>

lemma bandsBack_nonempty: "bandsBack p slots = Inr bands \<Longrightarrow> length bands = Suc (length slots)"
  by (induction slots arbitrary: bands) auto

text \<open>No band loses an energy that can be served.\<close>

lemma servable_in_reserve: "servable p slots e \<Longrightarrow> inReserve p e"
  by (cases slots) auto

lemma bands_complete:
  assumes "list_all (\<lambda>s. 0 < DurationHours s) slots" "servable p slots e"
  obtains bands where "bandsBack p slots = Inr bands" "inBand (hd bands) e"
    "list_all (\<lambda>b. rbMin b \<le> rbMax b) bands"
proof -
  have "\<exists>bands. bandsBack p slots = Inr bands \<and> inBand (hd bands) e \<and> list_all (\<lambda>b. rbMin b \<le> rbMax b) bands"
    using assms
  proof (induction slots arbitrary: e)
    case Nil
    then show ?case by (auto simp: inReserve_def inBand_def)
  next
    case (Cons s ss)
    obtain low high where range: "reserveBatteryPowerRange s p 0 = (low, high)" by fastforce
    obtain w where w: "low \<le> w" "w \<le> high" "servable p ss (e + reserveDelta p s w)"
      using Cons.prems(2) by (auto simp: legalPower_def range)
    have dur: "0 < DurationHours s" using Cons.prems(1) by simp
    obtain bands where b: "bandsBack p ss = Inr bands" "inBand (hd bands) (e + reserveDelta p s w)"
      "list_all (\<lambda>b. rbMin b \<le> rbMax b) bands"
      using Cons.IH [OF _ w(3)] Cons.prems(1) by auto
    have d: "reserveDelta p s low \<le> reserveDelta p s w" "reserveDelta p s w \<le> reserveDelta p s high"
      using w(1,2) reserveDelta_le [OF dur] by simp_all
    have r: "inReserve p e" using servable_in_reserve [OF Cons.prems(2)] .
    let ?b = "\<lparr>rbMin = max (reserveFloorWh p) (rbMin (hd bands) - reserveDelta p s high),
                rbMax = min (reserveCeilingWh p) (rbMax (hd bands) - reserveDelta p s low)\<rparr>"
    have e: "inBand ?b e" using b(2) d r by (auto simp: inBand_def inReserve_def)
    then have o: "rbMin ?b \<le> rbMax ?b" unfolding inBand_def by linarith
    then have "rbMin ?b \<le> rbMax ?b + 1 / 10 ^ 6" by (rule order_trans) simp
    moreover have "low \<le> high" using w(1,2) by linarith
    ultimately have "bandBefore p s (hd bands) = Inr ?b"
      by (simp add: bandBefore_def range Let_def ensure_def not_less)
    then show ?case using b(1,3) e o by simp
  qed
  then show ?thesis using that by blast
qed

lemma bandBefore_parts:
  assumes "bandBefore p s next = Inr b"
  obtains low high where "reserveBatteryPowerRange s p 0 = (low, high)" "low \<le> high"
    "rbMin b = max (reserveFloorWh p) (rbMin next - reserveDelta p s high)"
    "rbMax b = min (reserveCeilingWh p) (rbMax next - reserveDelta p s low)"
proof -
  obtain low high where range: "reserveBatteryPowerRange s p 0 = (low, high)" by fastforce
  with assms that show ?thesis by (auto simp: bandBefore_def Let_def)
qed

text \<open>From an energy of a band some legal power leads into the next one.\<close>

lemma band_step:
  assumes "0 < DurationHours s" "bandBefore p s next = Inr b" "rbMin next \<le> rbMax next" "inBand b e"
  obtains w where "legalPower p s w" "inBand next (e + reserveDelta p s w)"
proof -
  obtain low high where r: "reserveBatteryPowerRange s p 0 = (low, high)" "low \<le> high"
    "rbMin b = max (reserveFloorWh p) (rbMin next - reserveDelta p s high)"
    "rbMax b = min (reserveCeilingWh p) (rbMax next - reserveDelta p s low)"
    using bandBefore_parts [OF assms(2)] by blast
  define d where "d = max (reserveDelta p s low) (rbMin next - e)"
  have lh: "reserveDelta p s low \<le> reserveDelta p s high" using r(2) assms(1) by (simp add: reserveDelta_le)
  have d: "reserveDelta p s low \<le> d" "d \<le> reserveDelta p s high" "rbMin next \<le> e + d" "e + d \<le> rbMax next"
    using assms(3,4) lh r(3,4) by (auto simp: d_def inBand_def)
  then have "legalPower p s (reservePower p s d)"
    using assms(1) by (simp add: legalPower_def r(1) power_le_iff le_power_iff)
  with d assms(1) show ?thesis by (intro that [of "reservePower p s d"]) (simp_all add: inBand_def reserveDelta_power)
qed

lemma bands_sound:
  assumes "list_all (\<lambda>s. 0 < DurationHours s) slots" "bandsBack p slots = Inr bands"
    and "list_all (\<lambda>b. rbMin b \<le> rbMax b) bands" "inBand (hd bands) e"
  shows "servable p slots e"
  using assms
proof (induction slots arbitrary: bands e)
  case Nil
  then show ?case by (auto simp: inBand_def inReserve_def)
next
  case (Cons s ss)
  obtain bs b where b: "bandsBack p ss = Inr bs" "bandBefore p s (hd bs) = Inr b" "bands = b # bs"
    using Cons.prems(2) by auto
  have bs: "bs \<noteq> []" using bandsBack_nonempty [OF b(1)] by auto
  then have "rbMin (hd bs) \<le> rbMax (hd bs)" using Cons.prems(3) b(3) by (cases bs) auto
  then obtain w where w: "legalPower p s w" "inBand (hd bs) (e + reserveDelta p s w)"
    using band_step [of s p "hd bs" b e] Cons.prems(1,4) b(2,3) by auto
  have "servable p ss (e + reserveDelta p s w)" using Cons b w by auto
  moreover have "inReserve p e"
  proof -
    obtain low high where "rbMin b = max (reserveFloorWh p) (rbMin (hd bs) - reserveDelta p s high)"
      "rbMax b = min (reserveCeilingWh p) (rbMax (hd bs) - reserveDelta p s low)"
      using bandBefore_parts [OF b(2)] by blast
    with Cons.prems(4) b(3) show ?thesis by (simp add: inBand_def inReserve_def)
  qed
  ultimately show ?case using w(1) by auto
qed

text \<open>C9: The reserve's bands decide service exactly. An energy can be carried through the forecast by
  legal battery powers only if it lies in the first band, and every energy of the first band can when no
  later band is empty. When the code refuses a timeline that is in order, no sequence of battery powers,
  however chosen, serves the house from the battery's present energy.\<close>

theorem reserve_bands_decide_service:
  assumes "validateSlotChronology slots = None" "list_all (\<lambda>s. 0 < DurationHours s) slots"
  shows "case reserveBatteryBands slots p of
      Inl _ \<Rightarrow> \<not> servable p slots (reserveInitialWh p)
    | Inr bands \<Rightarrow> (servable p slots e \<longrightarrow> inBand (hd bands) e)
        \<and> (list_all (\<lambda>b. rbMin b \<le> rbMax b) bands \<and> inBand (hd bands) e \<longrightarrow> servable p slots e)"
proof (cases "reserveBatteryBands slots p")
  case (Inl err)
  have False if serv: "servable p slots (reserveInitialWh p)"
  proof -
    obtain bands where b: "bandsBack p slots = Inr bands" "inBand (hd bands) (reserveInitialWh p)"
      using bands_complete [OF assms(2) serv] by blast
    then have "reserveBatteryBands slots p = Inr bands"
      using assms(1) by (simp add: reserveBatteryBands_def inBand_def ensure_def)
    with Inl show False by simp
  qed
  with Inl show ?thesis by auto
next
  case (Inr bands)
  then have b: "bandsBack p slots = Inr bands" using assms(1) by (auto simp: reserveBatteryBands_def)
  have "servable p slots e \<longrightarrow> inBand (hd bands) e"
    using bands_complete [OF assms(2), of p e] b by fastforce
  then show ?thesis using bands_sound [OF assms(2) b] Inr by simp
qed

section \<open>The reserve plan finds a way\<close>

text \<open>Inside the operating band the powers one slot leaves are, in energies, the next band and the
  operating band.\<close>

definition bandSite :: "Params \<Rightarrow> bool" where
  "bandSite p \<longleftrightarrow> pSoCMin p \<le> pInitialSoC p \<and> pInitialSoC p \<le> pSoCMax p \<and> 0 < pCapacityWh p
     \<and> 0 \<le> pMaxChargeW p \<and> 0 \<le> pMaxDischargeW p"

lemma reserve_bounds:
  assumes "bandSite p"
  shows "reserveFloorWh p = pSoCMin p * pCapacityWh p" "reserveCeilingWh p = pSoCMax p * pCapacityWh p"
  using assms by (auto simp: bandSite_def reserveFloorWh_def reserveCeilingWh_def reserveInitialWh_def
      intro!: min.absorb2 max.absorb2 mult_right_mono)

lemma reserveLimits_energy:
  assumes "bandSite p" "0 < DurationHours s" "inReserve p e"
  shows "reserveLimits p s e next =
    (max (max (- pMaxDischargeW p) (reservePower p s (reserveFloorWh p - e))) (reservePower p s (rbMin next - e)),
     min (min (pMaxChargeW p) (reservePower p s (reserveCeilingWh p - e))) (reservePower p s (rbMax next - e)))"
proof -
  let ?h = "DurationHours s" and ?c = "orEta (pChargeEfficiency p)" and ?d = "orEta (pDischargeEfficiency p)"
  have "- (max 0 (e - reserveFloorWh p) * ?d / ?h) = reservePower p s (reserveFloorWh p - e)"
  proof (cases "reserveFloorWh p < e")
    case True
    have "- ((e - reserveFloorWh p) * ?d / ?h) = (reserveFloorWh p - e) * ?d / ?h"
      by (metis minus_diff_eq minus_divide_left mult_minus_left)
    with True show ?thesis by (simp add: reservePower_def reservePowerForEnergy_def)
  qed (use assms(3) in \<open>simp add: reservePower_def reservePowerForEnergy_def inReserve_def\<close>)
  moreover have "max 0 (reserveCeilingWh p - e) / ?c / ?h = reservePower p s (reserveCeilingWh p - e)"
    using assms(3) by (auto simp: reservePower_def reservePowerForEnergy_def inReserve_def max_def)
  moreover have "- min a b = max (- a) (- b)" for a b :: real by linarith
  ultimately show ?thesis
    by (simp add: reserveLimits_def Let_def reserve_bounds [OF assms(1), symmetric] reservePower_def)
qed

lemma range_within_battery:
  "reserveBatteryPowerRange s p 0 = (low, high) \<Longrightarrow> - pMaxDischargeW p \<le> low \<and> high \<le> pMaxChargeW p"
  by (auto simp: reserveBatteryPowerRange_def narrowForMode_def Let_def split: if_splits)

text \<open>A legal power keeps the mode and the grid limits of its slot.\<close>

lemma legal_mode:
  assumes "legalPower p s w"
  shows "modeAllows (pMode p) (sLoadW s + sPVW s) (sLoadW s + sPVW s + w) w"
  using assms
  by (auto simp: legalPower_def reserveBatteryPowerRange_def narrowForMode_def modeAllows_def Let_def
      split: if_splits)

lemma legal_grid:
  assumes "legalPower p s w"
  shows "allowsImport s (sLoadW s + sPVW s + w)" "allowsExport s (sLoadW s + sPVW s + w)"
  using assms
  by (auto simp: legalPower_def reserveBatteryPowerRange_def narrowForMode_def allowsImport_def allowsExport_def Let_def
      split: if_splits)

lemma legal_power_bounds:
  assumes "legalPower p s w"
  shows "- pMaxDischargeW p \<le> w" "w \<le> pMaxChargeW p"
proof -
  obtain low high where r: "reserveBatteryPowerRange s p 0 = (low, high)" by fastforce
  with assms range_within_battery [OF r] show "- pMaxDischargeW p \<le> w" "w \<le> pMaxChargeW p"
    by (auto simp: legalPower_def)
qed

lemma chooseBattery_found:
  assumes "bandSite p" "0 < DurationHours s" "inReserve p e" "inReserve p (rbMin next)" "inReserve p (rbMax next)"
    and "legalPower p s w" "inBand next (e + reserveDelta p s w)"
  obtains b where "chooseBattery p None s (reserveLimits p s e next) 0 PInf = Some b" "legalPower p s b"
    "inBand next (e + reserveDelta p s b)"
proof -
  obtain low high where r: "reserveBatteryPowerRange s p 0 = (low, high)" by fastforce
  define lo hi where "lo = max low (fst (reserveLimits p s e next))" and "hi = min high (snd (reserveLimits p s e next))"
  note lim = reserveLimits_energy [OF assms(1-3), of "next"]
  have w: "low \<le> w" "w \<le> high" using assms(6) by (auto simp: legalPower_def r)
  have wp: "reservePower p s (rbMin next - e) \<le> w" "w \<le> reservePower p s (rbMax next - e)"
    using assms(7) by (auto simp: inBand_def power_le_iff [OF assms(2)] le_power_iff [OF assms(2)])
  have "reservePower p s (reserveFloorWh p - e) \<le> reservePower p s (rbMin next - e)"
    "reservePower p s (rbMax next - e) \<le> reservePower p s (reserveCeilingWh p - e)"
    using assms(4,5) by (auto simp: inReserve_def intro!: power_mono [OF assms(2)])
  then have "lo \<le> w" "w \<le> hi"
    using w wp legal_power_bounds [OF assms(6)] by (simp_all add: lo_def hi_def lim)
  then have lh: "lo \<le> hi" by linarith
  define b where "b = min (max 0 lo) hi"
  have b: "lo \<le> b" "b \<le> hi" using lh by (auto simp: b_def)
  then have leg: "legalPower p s b" by (simp add: legalPower_def r lo_def hi_def)
  have "inBand next (e + reserveDelta p s b)"
    using b by (auto simp: inBand_def lo_def hi_def lim power_le_iff [OF assms(2)] le_power_iff [OF assms(2)])
  moreover have "chooseBattery p None s (reserveLimits p s e next) 0 PInf = Some b"
  proof -
    have "\<not> lo > hi + 1 / 10 ^ 7" using lh by simp
    then show ?thesis
      using legal_mode [OF leg]
      by (simp add: chooseBattery_def r Let_def less_f64_def lo_def [symmetric] hi_def [symmetric] b_def [symmetric])
  qed
  ultimately show ?thesis using leg that by blast
qed

lemma bands_in_reserve:
  assumes "bandsBack p slots = Inr bands" "list_all (\<lambda>b. rbMin b \<le> rbMax b) bands"
  shows "list_all (\<lambda>b. inReserve p (rbMin b) \<and> inReserve p (rbMax b)) bands"
  using assms
proof (induction slots arbitrary: bands)
  case (Cons s ss)
  obtain bs b where b: "bandsBack p ss = Inr bs" "bandBefore p s (hd bs) = Inr b" "bands = b # bs"
    using Cons.prems(1) by auto
  have "list_all (\<lambda>b. inReserve p (rbMin b) \<and> inReserve p (rbMax b)) bs" using Cons b by simp
  moreover have "reserveFloorWh p \<le> rbMin b \<and> rbMax b \<le> reserveCeilingWh p \<and> rbMin b \<le> rbMax b"
  proof -
    obtain low high where "rbMin b = max (reserveFloorWh p) (rbMin (hd bs) - reserveDelta p s high)"
      "rbMax b = min (reserveCeilingWh p) (rbMax (hd bs) - reserveDelta p s low)"
      using bandBefore_parts [OF b(2)] by blast
    with Cons.prems(2) b(3) show ?thesis by simp
  qed
  ultimately show ?case using b(3) by (auto simp: inReserve_def)
qed (auto simp: inReserve_def)

text \<open>A run of reserve actions: each a legal power that keeps the energy in the operating band.\<close>

fun reservePath :: "Params \<Rightarrow> real \<Rightarrow> Slot list \<Rightarrow> Action list \<Rightarrow> bool" where
  "reservePath p e [] [] = True"
| "reservePath p e (s # ss) (a # as) =
     (let e' = e + reserveDelta p s (aBatteryW a)
      in legalPower p s (aBatteryW a) \<and> inReserve p e' \<and> a = reserveAction p None s (0, aBatteryW a, 0) e' 0
       \<and> reservePath p e' ss as)"
| "reservePath p e _ _ = False"

lemma reserveAction_battery [simp]: "aBatteryW (reserveAction p None s (peak, b, avg) e ev) = b"
  by (simp add: reserveAction_def slotAction_def Let_def)

lemma reserveLoop_found:
  assumes "bandSite p" "list_all (\<lambda>s. 0 < DurationHours s) slots" "bandsBack p slots = Inr bands"
    and "list_all (\<lambda>b. rbMin b \<le> rbMax b) bands" "inBand (hd bands) e" "length caps = length slots"
  shows "\<exists>acts. reserveLoop (\<lambda>_. None) p None i (zip slots (zip (tl bands) caps)) e 0 = Inr (acts, 0)
    \<and> reservePath p e slots acts"
  using assms
proof (induction slots arbitrary: bands e caps i)
  case (Cons s ss)
  obtain bs b where b: "bandsBack p ss = Inr bs" "bandBefore p s (hd bs) = Inr b" "bands = b # bs"
    using Cons.prems(3) by auto
  obtain nb bs' where bs: "bs = nb # bs'" using bandsBack_nonempty [OF b(1)] by (cases bs) auto
  obtain c cs where caps: "caps = c # cs" "length cs = length ss" using Cons.prems(6) by (cases caps) auto
  have dur: "0 < DurationHours s" using Cons.prems(2) by simp
  have ord: "list_all (\<lambda>b. rbMin b \<le> rbMax b) bs" "rbMin nb \<le> rbMax nb" using Cons.prems(4) b(3) bs by simp_all
  have res: "inReserve p (rbMin b)" "inReserve p (rbMax b)" "inReserve p (rbMin nb)" "inReserve p (rbMax nb)"
    using bands_in_reserve [OF Cons.prems(3,4)] b(3) bs by simp_all
  have e: "inReserve p e" using res(1,2) Cons.prems(5) b(3) by (auto simp: inReserve_def inBand_def)
  obtain w where w: "legalPower p s w" "inBand nb (e + reserveDelta p s w)"
    using band_step [OF dur, of p nb b e] b(2,3) ord(2) Cons.prems(5) bs by auto
  obtain x where x: "chooseBattery p None s (reserveLimits p s e nb) 0 PInf = Some x" "legalPower p s x"
    "inBand nb (e + reserveDelta p s x)"
    by (rule chooseBattery_found [OF Cons.prems(1) dur e res(3,4) w])
  let ?e = "e + reserveDelta p s x"
  have pulse: "reservePulse p None i s (reserveLimits p s e nb) c 0 = Some (0, x, 0)"
    by (simp add: reservePulse_def x(1))
  obtain as where as: "reserveLoop (\<lambda>_. None) p None (Suc i) (zip ss (zip (tl bs) cs)) ?e 0 = Inr (as, 0)"
    "reservePath p ?e ss as"
    using Cons.IH [OF Cons.prems(1) _ b(1) ord(1), of ?e cs "Suc i"] Cons.prems(2) x(3) bs caps(2) by auto
  have "inReserve p ?e" using x(3) res(3,4) by (auto simp: inReserve_def inBand_def)
  then show ?case
    using pulse as x(2) b(3) bs caps(1)
    by (intro exI [of _ "reserveAction p None s (0, x, 0) ?e 0 # as"]) (simp add: Let_def)
qed simp

lemma reservePath_length: "reservePath p e slots acts \<Longrightarrow> length acts = length slots"
  by (induction p e slots acts rule: reservePath.induct) (auto simp: Let_def)

lemma chronologyFrom_partial: "chronologyFrom i prev ss = None \<Longrightarrow> validatePartialFrom i ss = None"
  by (induction i prev ss rule: chronologyFrom.induct) (auto split: sum.splits option.splits if_splits)

lemma chronology_partial: "validateSlotChronology ss = None \<Longrightarrow> validatePartialSlots ss = None"
  by (auto simp: validateSlotChronology_def validatePartialSlots_def chronologyFrom_partial split: if_splits)

text \<open>The gate accepts such a run slot by slot.\<close>

lemma reservePath_accepted:
  assumes "reservePath p e slots acts" "loneBattery p" "bandSite p" "0 < pChargeEfficiency p" "0 < pDischargeEfficiency p"
    and "rsSoc rs = e / pCapacityWh p" "rsLower rs = 0" "rsUpper rs = 0"
  shows "\<exists>soc. foldE (replaySlot vr p) (zip [i..<i + length slots] (zip slots acts)) rs
     = Inr (rs\<lparr>rsSoc := soc, rsCost := rsCost rs + sum_list (map aCostOre acts)\<rparr>)"
  using assms
proof (induction p e slots acts arbitrary: i rs rule: reservePath.induct)
  case (1 p e)
  show ?case by (intro exI [of _ "rsSoc rs"]) simp
next
  case (2 p e s ss a as)
  let ?e = "e + reserveDelta p s (aBatteryW a)"
  have leg: "legalPower p s (aBatteryW a)" and res: "inReserve p ?e"
    and a: "a = reserveAction p None s (0, aBatteryW a, 0) ?e 0" and rest: "reservePath p ?e ss as"
    using "2.prems"(1) by (simp_all add: Let_def)
  have cap: "0 < pCapacityWh p" using "2.prems"(3) by (simp add: bandSite_def)
  have eta: "orEta (pChargeEfficiency p) = pChargeEfficiency p" "orEta (pDischargeEfficiency p) = pDischargeEfficiency p"
    using "2.prems"(4,5) by (simp_all add: orEta_def)
  have f: "aSlotStartMs a = sStartMs s" "aSlotLenMin a = sLenMin s" "aExecutionStartMs a = sExecutionStartMs s"
    "aSoC a = ?e / pCapacityWh p" "aGridW a = sLoadW s + sPVW s + aBatteryW a" "aPVW a = sPVW s"
    "aCostOre a = SlotGridCostOre s (aGridW a * DurationHours s / 1000) p" "plainAction a"
  proof -
    define b e' where "b = aBatteryW a" and "e' = ?e"
    have "a = reserveAction p None s (0, b, 0) e' 0" using a by (simp add: b_def e'_def)
    then show "aSlotStartMs a = sStartMs s" "aSlotLenMin a = sLenMin s" "aExecutionStartMs a = sExecutionStartMs s"
      "aSoC a = ?e / pCapacityWh p" "aGridW a = sLoadW s + sPVW s + aBatteryW a" "aPVW a = sPVW s"
      "aCostOre a = SlotGridCostOre s (aGridW a * DurationHours s / 1000) p" "plainAction a"
      unfolding e'_def [symmetric]
      by (simp_all add: reserveAction_def slotAction_def reserveSlotCost_def plainAction_def Let_def)
  qed
  have band: "bandOk p (aSoC a)"
    using res cap reserve_bounds [OF "2.prems"(3)] by (auto simp: bandOk_def f(4) inReserve_def field_simps)
  have step: "replaySlot vr p (i, s, a) rs = Inr (rs\<lparr>rsSoc := aSoC a, rsCost := rsCost rs + aCostOre a\<rparr>)"
    by (rule accept_slot [OF "2.prems"(2) f(8) f(1-3) legal_power_bounds [OF leg] _ band "2.prems"(7,8) f(5,6)])
      (use legal_mode [OF leg] legal_grid [OF leg] f "2.prems"(6) in
        \<open>simp_all add: eta reserveDelta_def add_divide_distrib\<close>)
  let ?rs = "rs\<lparr>rsSoc := aSoC a, rsCost := rsCost rs + aCostOre a\<rparr>"
  have "\<exists>soc. foldE (replaySlot vr p) (zip [Suc i..<Suc i + length ss] (zip ss as)) ?rs
     = Inr (?rs\<lparr>rsSoc := soc, rsCost := rsCost ?rs + sum_list (map aCostOre as)\<rparr>)"
    using "2.IH" [OF refl rest "2.prems"(2-5), of ?rs "Suc i"] f(4) "2.prems"(7,8) by simp
  moreover have "[i..<i + length (s # ss)] = i # [Suc i..<Suc i + length ss]"
    by (subst upt_conv_Cons) auto
  ultimately show ?case using step by (simp add: add.assoc)
qed auto


section \<open>Examples\<close>

text \<open>An hour that draws more than the fuse carries: the battery has to give 200 W.\<close>

definition peakSlots :: "Slot list" where
  "peakSlots = [(exampleSlot 100 0 0 3600000)\<lparr>sLoadW := 400, sMaxImportW := 200\<rparr>]"

lemma peak_slots:
  "validateSlotChronology peakSlots = None" "list_all (\<lambda>s. 0 < DurationHours s) peakSlots"
  "loneBattery exampleParams" "bandSite exampleParams" "coreDPModelError exampleParams = None"
  by code_simp+

theorem reserve_bands_decide_service_witness:
  "\<not> servable exampleParams peakSlots 100"
proof -
  have b: "reserveBatteryBands peakSlots exampleParams
      = Inr [\<lparr>rbMin = 200, rbMax = 1000\<rparr>, \<lparr>rbMin = 0, rbMax = 1000\<rparr>]" by code_simp
  show ?thesis
    using reserve_bands_decide_service [OF peak_slots(1,2), of exampleParams 100] by (simp add: b inBand_def)
qed


end
