(* ===== verification/Mpc_Forecast.thy ===== *)
theory Mpc_Forecast
  imports Mpc_Recovery
begin

text \<open>
  Planning under an uncertain forecast (\<open>forecast_margin.go\<close>, \<open>forecast_recovery.go\<close>): a plan for the
  point forecast, a cautious plan for a forecast with less sun and more load, which of the two is
  published, and the configured load prior as the last resort; and the time a worker gets for a solve
  (\<open>energyplan.go\<close>).

  The solver is an argument: the code calls it with Core's own planner and with the external worker.
  What the clock and the deadline say at the points the code asks them is a record. The provenance
  fields of a slot, which the comparison of market data reads too, are not part of the model.
\<close>

section \<open>Forecasts\<close>

text \<open>Go's \<open>==\<close> on numbers: NaN differs from itself.\<close>

definition f64_eq :: "f64 \<Rightarrow> f64 \<Rightarrow> bool" where
  "f64_eq a b \<longleftrightarrow> a = b \<and> a \<noteq> NaN"

definition sameForecast :: "f64 slotOf list \<Rightarrow> f64 slotOf list \<Rightarrow> bool" where
  "sameForecast as bs = list_all2 (\<lambda>a b. f64_eq (sPVW a) (sPVW b) \<and> f64_eq (sLoadW a) (sLoadW b)) as bs"

definition sameMarket :: "f64 slotOf \<Rightarrow> f64 slotOf \<Rightarrow> bool" where
  "sameMarket r s \<longleftrightarrow>
     sExecutionStartMs r = sExecutionStartMs s \<and> sStartMs r = sStartMs s \<and> sLenMin r = sLenMin s
     \<and> f64_eq (sPriceOre r) (sPriceOre s) \<and> f64_eq (sSpotOre r) (sSpotOre s)
     \<and> f64_eq (sPVW s) (sPVW s) \<and> f64_eq (sLoadW s) (sLoadW s)
     \<and> f64_eq (sMaxImportW r) (sMaxImportW s) \<and> f64_eq (sMaxExportW r) (sMaxExportW s)"

definition priorLoads :: "f64 slotOf list \<Rightarrow> f64 \<Rightarrow> bool \<Rightarrow> f64 slotOf list" where
  "priorLoads base loadW currentMeasured =
     map (\<lambda>(i, s). if i \<noteq> 0 \<or> \<not> currentMeasured then s\<lparr>sLoadW := loadW\<rparr> else s) (zip [0..<length base] base)"

definition priorForecast :: "f64 slotOf list \<Rightarrow> f64 \<Rightarrow> bool \<Rightarrow> f64 slotOf list option" where
  "priorForecast base loadW currentMeasured =
     (if \<not> isFinite loadW \<or> loadW < 0 then None
      else let out = priorLoads base loadW currentMeasured
           in if validatePlanningSlots out \<noteq> None then None else Some out)"

record forecastAttempt =
  faSlots :: "f64 slotOf list"
  faBase :: "f64 slotOf list"
  faReason :: string

definition forecastPriorWarning :: string where
  "forecastPriorWarning = ''Load forecast cannot be served within site limits; using the configured load prior''"

definition forecastRecoveryAttempts :: "f64 slotOf list \<Rightarrow> f64 slotOf list \<Rightarrow> f64 \<Rightarrow> bool \<Rightarrow> forecastAttempt list" where
  "forecastRecoveryAttempts planning base priorW currentMeasured =
     (if \<not> sameForecast planning base \<and> validatePlanningSlots base = None
      then [\<lparr>faSlots = base, faBase = base,
             faReason = ''Forecast risk margin cannot be served within site limits; using the point forecast''\<rparr>]
      else [])
     @ (case priorForecast base priorW currentMeasured of
          None \<Rightarrow> []
        | Some prior \<Rightarrow>
            if \<not> sameForecast planning prior \<and> \<not> sameForecast base prior
            then [\<lparr>faSlots = prior, faBase = prior, faReason = forecastPriorWarning\<rparr>] else [])"

definition goodLoad :: "f64 \<Rightarrow> bool" where
  "goodLoad w \<longleftrightarrow> isFinite w \<and> \<not> w < 0"

definition replacementLoad :: "f64 slotOf list \<Rightarrow> f64 \<Rightarrow> nat \<Rightarrow> f64" where
  "replacementLoad legacy priorW i =
     (if i < length legacy \<and> goodLoad (sLoadW (legacy ! i)) then sLoadW (legacy ! i) else priorW)"

definition recoverLoad :: "f64 slotOf list \<Rightarrow> f64 \<Rightarrow> nat \<Rightarrow> f64 slotOf \<Rightarrow> f64 slotOf \<times> bool" where
  "recoverLoad legacy priorW i s =
     (if goodLoad (sLoadW s) then (s, False)
      else if goodLoad (replacementLoad legacy priorW i)
      then (s\<lparr>sLoadW := replacementLoad legacy priorW i\<rparr>, True)
      else (s, False))"

text \<open>The second result is the number of loads replaced: the code reports an error with it when it is
  positive, beside the slots it returns.\<close>

definition recoverInvalidForecastLoads :: "f64 slotOf list \<Rightarrow> f64 slotOf list \<Rightarrow> f64 \<Rightarrow> f64 slotOf list \<times> nat" where
  "recoverInvalidForecastLoads slots legacy priorW =
     (let out = map (\<lambda>(i, s). recoverLoad legacy priorW i s) (zip [0..<length slots] slots)
      in (map fst out, length (filter snd out)))"

section \<open>A worker's time\<close>

definition energyplanSmallBudget :: duration where "energyplanSmallBudget = 500000000"
definition energyplanEVBudget :: duration where "energyplanEVBudget = 1500000000"
definition energyplanFleetBudget :: duration where "energyplanFleetBudget = 5000000000"
definition energyplanPublishMargin :: duration where "energyplanPublishMargin = 50000000"
definition energyplanReplyMargin :: duration where "energyplanReplyMargin = 30000000"
definition forecastRecoveryBudget :: duration where "forecastRecoveryBudget = 12000000000"

lemmas budget_defs = energyplanSmallBudget_def energyplanEVBudget_def energyplanFleetBudget_def
  energyplanPublishMargin_def energyplanReplyMargin_def forecastRecoveryBudget_def

definition energyplanSolveTime :: "duration \<Rightarrow> duration" where
  "energyplanSolveTime toDeadline =
     (if toDeadline < energyplanSmallBudget - energyplanPublishMargin then 0
      else toDeadline - max (quot toDeadline 20) energyplanReplyMargin)"

definition energyplanBudget :: "'n slotOf list \<Rightarrow> Params \<Rightarrow> bool \<Rightarrow> duration" where
  "energyplanBudget slots p hourCaps =
     (let batteries = (if pStorages p = [] \<and> pCapacityWh p > 0 then 1 else length (pStorages p));
          assets = 3 * batteries + 2 * length (activeLoadpoints p);
          budget = (if length slots * assets \<ge> 193 * 5 \<or> pcMinW (pPVCurtailment p) > 0 \<or> pDemandCharged p \<or> hourCaps
                    then energyplanFleetBudget
                    else if activeLoadpoints p \<noteq> [] then energyplanEVBudget else energyplanSmallBudget)
      in min budget (energyplanSolveTime (remainingFirstSlot slots - energyplanPublishMargin)))"

definition energyplanTimeBudget :: "'n slotOf list \<Rightarrow> Params \<Rightarrow> duration" where
  "energyplanTimeBudget slots p = energyplanBudget slots p False"

section \<open>Departures\<close>

definition ActionExecutionStart :: "Action \<Rightarrow> int" where
  "ActionExecutionStart a = (if aExecutionStartMs a \<noteq> 0 then aExecutionStartMs a else aSlotStartMs a)"

definition ActionDurationHours :: "Action \<Rightarrow> real" where
  "ActionDurationHours a =
     real_of_int (wrap64 (wrap64 (aSlotStartMs a + wrap64 (aSlotLenMin a * 60000)) - ActionExecutionStart a)) / 3600000"

definition departurePowerW :: "nat \<Rightarrow> LoadpointSpec \<Rightarrow> Action \<Rightarrow> real" where
  "departurePowerW lpIdx lp a =
     (if aLoadpointPowerW a = [] \<and> lpIdx = 0 then aLoadpointW a else numAt (aLoadpointPowerW a) (lID lp))"

definition departureShortfallWh :: "Plan \<Rightarrow> nat \<times> LoadpointSpec \<Rightarrow> real" where
  "departureShortfallWh plan ilp =
     (case ilp of (lpIdx, lp) \<Rightarrow>
        let efficiency = (if lChargeEfficiency lp \<le> 0 then 9 / 10 else lChargeEfficiency lp);
            energy = lInitialSoC lp * lCapacityWh lp
              + sum_list (map (\<lambda>a. departurePowerW lpIdx lp a * ActionDurationHours a * efficiency)
                           (take (nat (lTargetSlotIdx lp + 1)) (plActions plan)))
        in max 0 (lTargetSoC lp * lCapacityWh lp - energy))"

definition departsWithin :: "Plan \<Rightarrow> LoadpointSpec \<Rightarrow> bool" where
  "departsWithin plan lp \<longleftrightarrow>
     \<not> (lTargetSoC lp \<le> 0 \<or> lTargetSlotIdx lp < 0 \<or> lTargetSlotIdx lp \<ge> int (length (plActions plan)))"

definition preservesOne :: "Plan \<Rightarrow> Plan \<Rightarrow> nat \<times> LoadpointSpec \<Rightarrow> unit \<Rightarrow> string + unit" where
  "preservesOne point risk ilp _ =
     (if \<not> departsWithin point (snd ilp) then Inr ()
      else bindE (ensure (\<not> lTargetSlotIdx (snd ilp) \<ge> int (length (plActions risk))) ''forecast caution omits departure'')
             (\<lambda>_. ensure (\<not> departureShortfallWh risk ilp > departureShortfallWh point ilp + 1)
                    ''forecast caution increases departure shortfall''))"

definition preservesDepartureGoals :: "Params \<Rightarrow> Plan \<Rightarrow> Plan \<Rightarrow> string + unit" where
  "preservesDepartureGoals p point risk = foldE (preservesOne point risk) (indexedCars p) ()"

definition missesNoDeparture :: "Params \<Rightarrow> Plan \<Rightarrow> bool" where
  "missesNoDeparture p plan =
     list_all (\<lambda>ilp. departsWithin plan (snd ilp) \<longrightarrow> \<not> departureShortfallWh plan ilp > 1) (indexedCars p)"

section \<open>Caution\<close>

definition validateForecastCaution :: "Params \<Rightarrow> string + unit" where
  "validateForecastCaution p =
     thenE (thenE (requireNonNegative (pPVUncertaintyW p) ''pv_uncertainty_w'')
                  (requireNonNegative (pPVRelativeUncertainty p) ''pv_relative_uncertainty''))
       (requireNonNegative (pPVForecastSafetyK p) ''pv_forecast_safety_k'')"

definition pointLoadSlot :: "f64 slotOf \<Rightarrow> Slot \<Rightarrow> Slot" where
  "pointLoadSlot s r = (saneSlot s)\<lparr>sPVW := sPVW r\<rparr>"

definition pointLoadAction :: "Params \<Rightarrow> f64 slotOf \<Rightarrow> Slot \<Rightarrow> Action \<Rightarrow> Action" where
  "pointLoadAction p s r a =
     (let a = a\<lparr>aGridW := aGridW a + (fval (sLoadW s) - sLoadW r), aLoadW := fval (sLoadW s)\<rparr>
      in a\<lparr>aCostOre := reserveSlotCost (pointLoadSlot s r) p a\<rparr>)"

text \<open>A load of the point forecast that is not a number makes the grid power none either, which the replay
  refuses.\<close>

definition validateMarginPointLoad :: "f64 slotOf list \<Rightarrow> Slot list \<Rightarrow> Params \<Rightarrow> Plan \<Rightarrow> string + unit" where
  "validateMarginPointLoad point risk p plan =
     (let acts = map2 (\<lambda>(s, r) a. pointLoadAction p s r a) (zip point risk) (plActions plan)
      in if \<not> list_all (\<lambda>s. isFinite (sLoadW s)) point then Inl ''forecast caution requires extra house load to obey site policy''
         else case validatePlan (map2 pointLoadSlot point risk) p
                     (plan\<lparr>plActions := acts, plTotalCostOre := sum_list (map aCostOre acts)\<rparr>) False of
                Inl _ \<Rightarrow> Inl ''forecast caution requires extra house load to obey site policy''
              | Inr _ \<Rightarrow> Inr ())"

record forecastChoice =
  fcPlan :: Plan
  fcSlots :: "Slot list"
  fcWarning :: string
  fcMarginErr :: "string option"
  fcWithoutCaution :: bool

definition plainChoice :: "Plan \<Rightarrow> Slot list \<Rightarrow> forecastChoice" where
  "plainChoice plan slots =
     \<lparr>fcPlan = plan, fcSlots = slots, fcWarning = [], fcMarginErr = None, fcWithoutCaution = False\<rparr>"

type_synonym 'c forecastSolve = "'c \<Rightarrow> f64 slotOf list \<Rightarrow> Params \<Rightarrow> Plan \<times> Slot list \<times> string option"

record marginClock =
  mcStart :: time
  mcToDeadline :: "duration option"
  mcSince :: duration
  mcLater :: time
  mcExpired :: "string option"

definition solvePoint :: "'c forecastSolve \<Rightarrow> 'c \<Rightarrow> f64 slotOf list \<Rightarrow> Params \<Rightarrow> forecastChoice \<times> string option" where
  "solvePoint solve c point p =
     (case solve c point p of
        (plan, used, Some e) \<Rightarrow> (plainChoice plan used, Some e)
      | (plan, used, None) \<Rightarrow>
          (case ValidatePlan used p plan of
             Inl e \<Rightarrow> (plainChoice plan used, Some (planErrorText e))
           | Inr plan \<Rightarrow> (plainChoice plan used, None)))"

definition slotTimeLeft :: "int \<Rightarrow> time \<Rightarrow> duration" where
  "slotTimeLeft endMs now = tsub (endMs * 1000000) now - energyplanPublishMargin"

definition marginAvailable :: "marginClock \<Rightarrow> int \<Rightarrow> duration" where
  "marginAvailable clk endMs =
     (case mcToDeadline clk of
        None \<Rightarrow> slotTimeLeft endMs (mcStart clk)
      | Some d \<Rightarrow> min (slotTimeLeft endMs (mcStart clk)) d)"

definition cautionFirst :: "marginClock \<Rightarrow> int \<Rightarrow> bool" where
  "cautionFirst clk endMs = (marginAvailable clk endMs \<ge> forecastRecoveryBudget)"

definition marginBudget :: "marginClock \<Rightarrow> int \<Rightarrow> duration" where
  "marginBudget clk endMs =
     (let budget = min (forecastRecoveryBudget - mcSince clk) (slotTimeLeft endMs (mcLater clk))
      in if cautionFirst clk endMs then min budget (marginAvailable clk endMs - energyplanFleetBudget) else budget)"

definition marginCtxErr :: "marginClock \<Rightarrow> int \<Rightarrow> string option" where
  "marginCtxErr clk endMs =
     (if marginBudget clk endMs \<le> 0 then Some ''context deadline exceeded'' else mcExpired clk)"

definition cautionCandidate :: "'c forecastSolve \<Rightarrow> 'c \<Rightarrow> string option \<Rightarrow> f64 slotOf list \<Rightarrow> f64 slotOf list
    \<Rightarrow> Params \<Rightarrow> string + Plan \<times> Slot list" where
  "cautionCandidate solve c expired point risk p =
     (case expired of
        Some e \<Rightarrow> Inl e
      | None \<Rightarrow>
          if length risk \<noteq> length point then Inl ''forecast caution changed the planning horizon''
          else if \<not> list_all2 sameMarket risk point
          then Inl ''forecast caution changed market data, timeline or site limits''
          else case solve c risk p of
                 (_, _, Some e) \<Rightarrow> Inl e
               | (cautious, accepted, None) \<Rightarrow>
                   if length accepted \<noteq> length point then Inl ''forecast caution shortened the planning horizon''
                   else case ValidatePlan accepted p cautious of
                          Inl e \<Rightarrow> Inl (planErrorText e)
                        | Inr cautious \<Rightarrow>
                            bindE (validateMarginPointLoad point accepted p cautious) (\<lambda>_. Inr (cautious, accepted)))"

definition withoutMargin :: "forecastChoice \<Rightarrow> string \<Rightarrow> forecastChoice" where
  "withoutMargin choice e = choice\<lparr>fcMarginErr := Some e, fcWithoutCaution := True,
     fcWarning := ''Forecast caution could not retain the point plan's limits and departure goals; using the point forecast: '' @ e\<rparr>"

definition settleMargin :: "Params \<Rightarrow> forecastChoice \<Rightarrow> string + Plan \<times> Slot list \<Rightarrow> forecastChoice" where
  "settleMargin p choice cand =
     (case bindE cand (\<lambda>(cautious, accepted).
             bindE (preservesDepartureGoals p (fcPlan choice) cautious) (\<lambda>_. Inr (cautious, accepted))) of
        Inl e \<Rightarrow> withoutMargin choice e
      | Inr (cautious, accepted) \<Rightarrow> plainChoice cautious accepted)"

definition pointThen :: "f64 slotOf list \<Rightarrow> (forecastChoice \<Rightarrow> forecastChoice) \<Rightarrow> forecastChoice \<times> string option
    \<Rightarrow> forecastChoice \<times> string option" where
  "pointThen point settle r =
     (case r of
        (choice, Some e) \<Rightarrow> (choice\<lparr>fcWithoutCaution := False\<rparr>, Some e)
      | (choice, None) \<Rightarrow>
          if length (fcSlots choice) \<noteq> length point then (choice\<lparr>fcWithoutCaution := True\<rparr>, None)
          else (settle choice, None))"

definition planWithForecastMargin :: "'c forecastSolve \<Rightarrow> 'c \<Rightarrow> 'c \<Rightarrow> marginClock \<Rightarrow> f64 slotOf list
    \<Rightarrow> f64 slotOf list \<Rightarrow> Params \<Rightarrow> forecastChoice \<times> string option" where
  "planWithForecastMargin solve c cm clk point risk p =
     (if point = [] \<or> sameForecast point risk then solvePoint solve c point p
      else case checkedSlotEndMs (sStartMs (hd point)) (sLenMin (hd point)) of
             Inl endErr \<Rightarrow>
               (case solvePoint solve c point p of
                  (choice, Some e) \<Rightarrow> (choice, Some e)
                | (choice, None) \<Rightarrow> (choice, Some endErr))
           | Inr endMs \<Rightarrow>
               (let cand = cautionCandidate solve cm (marginCtxErr clk endMs) point risk p
                in if cautionFirst clk endMs
                      \<and> (case cand of Inl _ \<Rightarrow> False | Inr (cautious, _) \<Rightarrow> missesNoDeparture p cautious)
                   then (case cand of Inl e \<Rightarrow> (plainChoice emptyPlan [], Some e)
                                    | Inr (cautious, accepted) \<Rightarrow> (plainChoice cautious accepted, None))
                   else pointThen point (\<lambda>choice. settleMargin p choice cand) (solvePoint solve c point p)))"

section \<open>Core's choice\<close>

definition coreSolve :: "(int \<Rightarrow> string) \<Rightarrow> (recoveryContext \<times> int) forecastSolve" where
  "coreSolve showTime c slots p =
     (case corePlanWithRecovery showTime (fst c) (snd c) slots p of
        Inl e \<Rightarrow> (emptyPlan, [], Some e)
      | Inr (plan, S) \<Rightarrow> (plan, S, None))"

record forecastContext =
  fxPoint :: "recoveryContext \<times> int"
  fxRisk :: "recoveryContext \<times> int"
  fxClock :: marginClock
  fxExpired :: bool
  fxPrior :: "recoveryContext \<times> int"

definition corePlanWithForecastRecovery :: "(int \<Rightarrow> string) \<Rightarrow> forecastContext \<Rightarrow> f64 slotOf list \<Rightarrow> f64 slotOf list
    \<Rightarrow> Params \<Rightarrow> f64 \<Rightarrow> bool \<Rightarrow> forecastChoice \<times> string option" where
  "corePlanWithForecastRecovery showTime ctx risk point p priorW currentMeasured =
     (case planWithForecastMargin (coreSolve showTime) (fxPoint ctx) (fxRisk ctx) (fxClock ctx) point risk p of
        (choice, err) \<Rightarrow>
          if err = None \<and> length (fcSlots choice) = length point then (choice, None)
          else case priorForecast point priorW currentMeasured of
                 None \<Rightarrow> (choice, err)
               | Some prior \<Rightarrow>
                   if sameForecast point prior \<or> fxExpired ctx then (choice, err)
                   else case coreSolve showTime (fxPrior ctx) prior p of
                          (cautious, accepted, None) \<Rightarrow>
                            if length accepted > length (fcSlots choice)
                            then ((plainChoice cautious accepted)
                                    \<lparr>fcWarning := forecastPriorWarning, fcWithoutCaution := \<not> sameForecast point risk\<rparr>, None)
                            else (choice, err)
                        | (_, _, Some _) \<Rightarrow> (choice, err))"

section \<open>What is published is accepted\<close>

lemma solvePoint_accepted:
  assumes "solvePoint solve c point p = (choice, None)"
  shows "ValidatePlan (fcSlots choice) p (fcPlan choice) = Inr (fcPlan choice)"
proof -
  obtain plan used where s: "solve c point p = (plan, used, None)"
    using assms by (auto simp: solvePoint_def split: prod.splits option.splits)
  obtain q where q: "ValidatePlan used p plan = Inr q"
    using assms s by (cases "ValidatePlan used p plan") (simp_all add: solvePoint_def)
  have "choice = plainChoice q used" using assms s q by (simp add: solvePoint_def)
  then show ?thesis using ValidatePlan_again [OF q, of q] by (simp add: plainChoice_def)
qed

lemma cautionCandidate_parts:
  assumes "cautionCandidate solve c expired point risk p = Inr (plan, S)"
  obtains q where "solve c risk p = (q, S, None)" "ValidatePlan S p q = Inr plan" "length S = length point"
    "length risk = length point" "validateMarginPointLoad point S p plan = Inr ()"
proof -
  obtain q S' r where s: "solve c risk p = (q, S', r)" by (cases "solve c risk p") auto
  show ?thesis
    using assms that [of q] unfolding cautionCandidate_def s
    by (cases r; cases "ValidatePlan S' p q"; auto split: option.splits if_splits)
qed

lemma cautionCandidate_accepted:
  assumes "cautionCandidate solve c expired point risk p = Inr (plan, S)"
  shows "ValidatePlan S p plan = Inr plan" "length S = length point"
  using cautionCandidate_parts [OF assms] ValidatePlan_again by metis+

lemma accepted_length: "ValidatePlan S p plan = Inr plan' \<Longrightarrow> length (plActions plan) = length S"
  unfolding ValidatePlan_def by (elim validatePlan_parts)

lemma settleMargin_cases:
  obtains (kept) e where "settleMargin p choice cand = withoutMargin choice e"
  | (cautious) plan S where "cand = Inr (plan, S)" "preservesDepartureGoals p (fcPlan choice) plan = Inr ()"
      "settleMargin p choice cand = plainChoice plan S"
proof (cases cand)
  case (Inl e)
  then show ?thesis by (intro kept [of e]) (simp add: settleMargin_def)
next
  case (Inr c)
  obtain plan S where c: "c = (plan, S)" by (cases c)
  show ?thesis
    using Inr c kept cautious
    by (cases "preservesDepartureGoals p (fcPlan choice) plan") (simp_all add: settleMargin_def)
qed

text \<open>The plan of the point forecast, a cautious one, or neither.\<close>

lemma planWithForecastMargin_cases:
  assumes "planWithForecastMargin solve c cm clk point risk p = (choice, None)"
  obtains (point) base where "solvePoint solve c point p = (base, None)" "fcPlan choice = fcPlan base" "fcSlots choice = fcSlots base"
  | (cautious) expired plan S where "cautionCandidate solve cm expired point risk p = Inr (plan, S)"
      "fcPlan choice = plan" "fcSlots choice = S"
      "missesNoDeparture p plan \<or>
       (\<exists>base. solvePoint solve c point p = (base, None) \<and> preservesDepartureGoals p (fcPlan base) plan = Inr ())"
proof (cases "point = [] \<or> sameForecast point risk")
  case True
  with assms show ?thesis by (intro point [of choice]) (simp_all add: planWithForecastMargin_def)
next
  case False
  obtain endMs where e: "checkedSlotEndMs (sStartMs (hd point)) (sLenMin (hd point)) = Inr endMs"
    using assms False by (auto simp: planWithForecastMargin_def split: sum.splits prod.splits option.splits)
  define cand where "cand = cautionCandidate solve cm (marginCtxErr clk endMs) point risk p"
  define early where "early \<longleftrightarrow> cautionFirst clk endMs
      \<and> (case cand of Inl _ \<Rightarrow> False | Inr (q, _) \<Rightarrow> missesNoDeparture p q)"
  note plan = assms [unfolded planWithForecastMargin_def if_not_P [OF False] e sum.case Let_def
      cand_def [symmetric] early_def [symmetric]]
  show ?thesis
  proof (cases early)
    case True
    then obtain q S where q: "cand = Inr (q, S)" "missesNoDeparture p q"
      unfolding early_def by (cases cand) auto
    then have "choice = plainChoice q S" using plan True by simp
    with q show ?thesis
      by (intro cautious [of "marginCtxErr clk endMs" q S]) (simp_all add: cand_def plainChoice_def)
  next
    case False
    then have pt: "pointThen point (\<lambda>choice. settleMargin p choice cand) (solvePoint solve c point p) = (choice, None)"
      using plan by simp
    obtain base where b: "solvePoint solve c point p = (base, None)"
      using pt by (auto simp: pointThen_def split: prod.splits option.splits)
    show ?thesis
    proof (cases "length (fcSlots base) = length point")
      case False
      with pt b show ?thesis by (intro point [OF b]) (auto simp: pointThen_def)
    next
      case True
      then have ch: "choice = settleMargin p base cand" using pt b by (simp add: pointThen_def)
      show ?thesis
      proof (cases rule: settleMargin_cases [of p base cand])
        case (kept e)
        then show ?thesis using ch by (intro point [OF b]) (simp_all add: withoutMargin_def)
      next
        case (cautious q S)
        then show ?thesis
          using ch b by (intro that(2) [of "marginCtxErr clk endMs" q S]) (auto simp: cand_def plainChoice_def)
      qed
    qed
  qed
qed

lemma margin_choice_accepted:
  assumes "planWithForecastMargin solve c cm clk point risk p = (choice, None)"
  shows "ValidatePlan (fcSlots choice) p (fcPlan choice) = Inr (fcPlan choice)"
  using assms
proof (cases rule: planWithForecastMargin_cases)
  case (point base)
  then show ?thesis using solvePoint_accepted [OF point(1)] by simp
next
  case (cautious expired plan S)
  then show ?thesis using cautionCandidate_accepted(1) [OF cautious(1)] by simp
qed

section \<open>Departures are kept\<close>

lemma foldE_units: "foldE f xs () = Inr () \<longleftrightarrow> (\<forall>x \<in> set xs. f x () = Inr ())"
  by (induction xs) auto

lemma preserves_iff:
  "preservesDepartureGoals p point risk = Inr () \<longleftrightarrow>
     (\<forall>ilp \<in> set (indexedCars p). departsWithin point (snd ilp) \<longrightarrow>
        lTargetSlotIdx (snd ilp) < int (length (plActions risk))
        \<and> departureShortfallWh risk ilp \<le> departureShortfallWh point ilp + 1)"
  unfolding preservesDepartureGoals_def foldE_units preservesOne_def by (auto simp: not_le not_less)

lemma shortfall_nonneg: "0 \<le> departureShortfallWh plan ilp"
  by (cases ilp) (simp add: departureShortfallWh_def Let_def)

lemma missesNo_preserves:
  assumes "missesNoDeparture p plan" "length (plActions plan) = length (plActions point)"
  shows "preservesDepartureGoals p point plan = Inr ()"
  unfolding preserves_iff
proof (intro ballI impI)
  fix ilp assume i: "ilp \<in> set (indexedCars p)" "departsWithin point (snd ilp)"
  then have "departsWithin plan (snd ilp)" using assms(2) by (simp add: departsWithin_def)
  then have "departureShortfallWh plan ilp \<le> 1" using assms(1) i(1) by (auto simp: missesNoDeparture_def list_all_iff)
  with shortfall_nonneg [of point ilp] i(2) assms(2)
  show "lTargetSlotIdx (snd ilp) < int (length (plActions plan))
        \<and> departureShortfallWh plan ilp \<le> departureShortfallWh point ilp + 1"
    by (simp add: departsWithin_def)
qed

text \<open>Caution never costs a departure. Whenever the point forecast has a full plan, the plan that is
  published, cautious or not and in whichever order the two were solved, brings every car that leaves
  inside the horizon to within one watt-hour of what the point plan reaches for it, and passes the gate.\<close>

theorem caution_keeps_departures:
  assumes "planWithForecastMargin solve c cm clk point risk p = (choice, None)"
    and "solvePoint solve c point p = (base, None)" "length (fcSlots base) = length point"
  shows "list_all (\<lambda>ilp. departsWithin (fcPlan base) (snd ilp)
        \<longrightarrow> departureShortfallWh (fcPlan choice) ilp \<le> departureShortfallWh (fcPlan base) ilp + 1) (indexedCars p)
    \<and> ValidatePlan (fcSlots choice) p (fcPlan choice) = Inr (fcPlan choice)"
proof
  show "ValidatePlan (fcSlots choice) p (fcPlan choice) = Inr (fcPlan choice)"
    by (rule margin_choice_accepted [OF assms(1)])
  show "list_all (\<lambda>ilp. departsWithin (fcPlan base) (snd ilp)
        \<longrightarrow> departureShortfallWh (fcPlan choice) ilp \<le> departureShortfallWh (fcPlan base) ilp + 1) (indexedCars p)"
    using assms(1)
  proof (cases rule: planWithForecastMargin_cases)
    case (point b)
    then show ?thesis using assms(2) by (simp add: list_all_iff)
  next
    case (cautious expired plan S)
    have "length (plActions plan) = length point" "length (plActions (fcPlan base)) = length point"
      using accepted_length [OF cautionCandidate_accepted(1) [OF cautious(1)]] cautionCandidate_accepted(2) [OF cautious(1)]
        accepted_length [OF solvePoint_accepted [OF assms(2)]] assms(3) by simp_all
    then have "preservesDepartureGoals p (fcPlan base) plan = Inr ()"
      using cautious(4) assms(2) missesNo_preserves [of p plan "fcPlan base"] by auto
    then show ?thesis using cautious(2) by (auto simp: preserves_iff list_all_iff)
  qed
qed


section \<open>Core as the source of plans\<close>

text \<open>What the choice relies on of its solver.\<close>

locale plan_source =
  fixes solve :: "'c forecastSolve"
  assumes accepted: "solve c slots p = (plan, S, None)
    \<Longrightarrow> S \<noteq> [] \<and> length S \<le> length slots \<and> ValidatePlan S p plan = Inr plan"
begin

lemma point_is_solved: "solve c slots p = (plan, S, None) \<Longrightarrow> solvePoint solve c slots p = (plainChoice plan S, None)"
  using accepted [of c slots p plan S] by (simp add: solvePoint_def)

lemma margin_covers:
  assumes "planWithForecastMargin solve c cm clk point risk p = (choice, None)"
  shows "fcSlots choice \<noteq> [] \<and> length (fcSlots choice) \<le> length point"
  using assms
proof (cases rule: planWithForecastMargin_cases)
  case (point base)
  obtain plan S where s: "solve c point p = (plan, S, None)"
    using point(1) by (auto simp: solvePoint_def split: prod.splits option.splits)
  with point_is_solved [OF s] point accepted [OF s] show ?thesis by (simp add: plainChoice_def)
next
  case (cautious expired plan S)
  obtain q where "solve cm risk p = (q, S, None)" "length S = length point" "length risk = length point"
    using cautionCandidate_parts [OF cautious(1)] by metis
  with accepted cautious(3) show ?thesis by metis
qed

end

interpretation core_source: plan_source "coreSolve showTime" for showTime
proof unfold_locales
  fix c slots p plan S
  assume "coreSolve showTime c slots p = (plan, S, None)"
  then have "corePlanWithRecovery showTime (fst c) (snd c) slots p = Inr (plan, S)"
    by (auto simp: coreSolve_def split: sum.splits prod.splits)
  from recovery_accepted [OF this]
  have "S \<noteq> []" "S = map saneSlot (take (length S) slots)" "ValidatePlan S p plan = Inr plan" by simp_all
  then show "S \<noteq> [] \<and> length S \<le> length slots \<and> ValidatePlan S p plan = Inr plan"
    by (metis length_map length_take min.cobounded1)
qed

lemma prior_length: "priorForecast base w m = Some prior \<Longrightarrow> length prior = length base"
  by (auto simp: priorForecast_def priorLoads_def Let_def split: if_splits)

text \<open>C10: Under an uncertain forecast Core still publishes only plans its gate accepts. The choice between
  caution, the point forecast and the configured load prior covers a nonempty run of slots no longer than
  the request, passes the gate as it is, and a plan for the prior is taken only where it covers more
  slots than every plan for the real forecast: a full plan of the point forecast is never replaced.\<close>

theorem forecast_recovery_is_accepted:
  assumes "corePlanWithForecastRecovery showTime ctx risk point p priorW currentMeasured = (choice, None)"
    and "planWithForecastMargin (coreSolve showTime) (fxPoint ctx) (fxRisk ctx) (fxClock ctx) point risk p = (margin, err)"
  shows "fcSlots choice \<noteq> [] \<and> length (fcSlots choice) \<le> length point
    \<and> ValidatePlan (fcSlots choice) p (fcPlan choice) = Inr (fcPlan choice)
    \<and> (choice = margin \<or> length (fcSlots margin) < length (fcSlots choice))"
proof (cases "choice = margin \<and> err = None")
  case True
  then show ?thesis
    using core_source.margin_covers margin_choice_accepted assms(2) by metis
next
  case False
  obtain prior plan S where pr: "priorForecast point priorW currentMeasured = Some prior"
    "coreSolve showTime (fxPrior ctx) prior p = (plan, S, None)" "length S > length (fcSlots margin)"
    "fcPlan choice = plan" "fcSlots choice = S"
    using assms False unfolding corePlanWithForecastRecovery_def
    by (auto simp: plainChoice_def split: option.splits prod.splits if_splits)
  with core_source.accepted [OF pr(2)] prior_length [OF pr(1)] show ?thesis by simp
qed

section \<open>The worker answers in time\<close>

lemma energyplanBudget_in_time:
  shows "0 \<le> energyplanBudget slots p hourCaps"
    "0 < energyplanBudget slots p hourCaps \<Longrightarrow>
       energyplanBudget slots p hourCaps + energyplanReplyMargin + energyplanPublishMargin \<le> remainingFirstSlot slots"
proof -
  have "t div 20 \<ge> 0 \<and> t div 20 \<le> t" if "0 \<le> t" for t :: int using that by auto
  then have st: "0 \<le> energyplanSolveTime t" "0 < energyplanSolveTime t \<Longrightarrow> energyplanSolveTime t + energyplanReplyMargin \<le> t" for t
    by (auto simp: energyplanSolveTime_def budget_defs quot_pos max_def)
  let ?t = "remainingFirstSlot slots - energyplanPublishMargin"
  have b: "energyplanBudget slots p hourCaps \<le> energyplanSolveTime ?t"
    by (simp add: energyplanBudget_def Let_def)
  show "0 \<le> energyplanBudget slots p hourCaps"
    using st(1) [of ?t] by (simp add: energyplanBudget_def Let_def budget_defs)
  assume "0 < energyplanBudget slots p hourCaps"
  with b st(2) [of ?t] show "energyplanBudget slots p hourCaps + energyplanReplyMargin + energyplanPublishMargin \<le> remainingFirstSlot slots"
    by simp
qed

section \<open>Examples\<close>

text \<open>A caution forecast with a watt less sun, a solver that always has the example's plan, and a clock at
  the start and near the end of the first slot.\<close>

definition cautionInput :: "f64 slotOf list" where
  "cautionInput = map (\<lambda>s. s\<lparr>sPVW := Fin (- 1)\<rparr>) exampleInput"

definition exampleSolve :: "unit forecastSolve" where
  "exampleSolve c slots p = (examplePlan, exampleSlots, None)"

definition clockAt :: "int \<Rightarrow> marginClock" where
  "clockAt ms = \<lparr>mcStart = ms * 1000000, mcToDeadline = None, mcSince = 0, mcLater = ms * 1000000, mcExpired = None\<rparr>"

lemma example_clocks:
  "checkedSlotEndMs (sStartMs (hd exampleInput)) (sLenMin (hd exampleInput)) = Inr 7200000"
  "cautionFirst (clockAt 3600000) 7200000" "\<not> cautionFirst (clockAt 7195000) 7200000"
  "marginCtxErr (clockAt 3600000) 7200000 = None" "marginCtxErr (clockAt 7195000) 7200000 = None"
  by code_simp+

lemma example_point:
  "solvePoint exampleSolve () exampleInput exampleParams = (plainChoice examplePlan exampleSlots, None)"
  "length (fcSlots (plainChoice examplePlan exampleSlots)) = length exampleInput"
  using example_accepted by (simp_all add: solvePoint_def exampleSolve_def plainChoice_def exampleInput_def finiteSlots_def)


lemma example_caution:
  "planWithForecastMargin exampleSolve () () (clockAt 3600000) exampleInput cautionInput exampleParams
   = (plainChoice examplePlan exampleSlots, None)"
proof -
  have "\<not> (exampleInput = [] \<or> sameForecast exampleInput cautionInput)" "length cautionInput = length exampleInput"
    "list_all2 sameMarket cautionInput exampleInput"
    "validateMarginPointLoad exampleInput exampleSlots exampleParams examplePlan = Inr ()"
    "missesNoDeparture exampleParams examplePlan"
    by code_simp+
  then have "cautionCandidate exampleSolve () None exampleInput cautionInput exampleParams = Inr (examplePlan, exampleSlots)"
    "missesNoDeparture exampleParams examplePlan" "\<not> (exampleInput = [] \<or> sameForecast exampleInput cautionInput)"
    using example_accepted example_point(2) by (simp_all add: cautionCandidate_def exampleSolve_def plainChoice_def)
  then show ?thesis using example_clocks by (simp add: planWithForecastMargin_def Let_def)
qed

theorem caution_keeps_departures_witness:
  "ValidatePlan (fcSlots (plainChoice examplePlan exampleSlots)) exampleParams (fcPlan (plainChoice examplePlan exampleSlots))
   = Inr (fcPlan (plainChoice examplePlan exampleSlots))"
  using caution_keeps_departures [OF example_caution example_point] by blast

definition exampleForecast :: forecastContext where
  "exampleForecast = \<lparr>fxPoint = (noExpiry, 0), fxRisk = (noExpiry, 0), fxClock = clockAt 3600000, fxExpired = False,
     fxPrior = (noExpiry, 0)\<rparr>"

theorem forecast_recovery_is_accepted_witness:
  "fcSlots (fst (corePlanWithForecastRecovery (\<lambda>_. []) exampleForecast exampleInput exampleInput exampleParams (Fin 400) False)) \<noteq> []"
proof -
  let ?plan = "examplePlan\<lparr>plSolver := Some (coreSolverInfo exampleParams)\<rparr>"
  have "coreSolve (\<lambda>_. []) (noExpiry, 0) exampleInput exampleParams = (?plan, exampleSlots, None)"
    using example_recovered by (simp add: coreSolve_def)
  then have "solvePoint (coreSolve (\<lambda>_. [])) (noExpiry, 0) exampleInput exampleParams = (plainChoice ?plan exampleSlots, None)"
    by (rule core_source.point_is_solved)
  moreover have "sameForecast exampleInput exampleInput" by code_simp
  ultimately have m: "planWithForecastMargin (coreSolve (\<lambda>_. [])) (fxPoint exampleForecast) (fxRisk exampleForecast)
      (fxClock exampleForecast) exampleInput exampleInput exampleParams = (plainChoice ?plan exampleSlots, None)"
    by (simp add: planWithForecastMargin_def exampleForecast_def)
  have r: "corePlanWithForecastRecovery (\<lambda>_. []) exampleForecast exampleInput exampleInput exampleParams (Fin 400) False
      = (plainChoice ?plan exampleSlots, None)"
    using m example_point(2) by (simp add: corePlanWithForecastRecovery_def plainChoice_def)
  show ?thesis using forecast_recovery_is_accepted [OF r m] by (simp add: r)
qed

end
