(* ===== verification/Loadpoint_Levels.thy ===== *)
theory Loadpoint_Levels
  imports Units
begin

text \<open>
  The power levels of a charger (\<open>loadpoint/snap.go\<close>, \<open>planning_steps.go\<close>, \<open>deadline_need.go\<close>,
  \<open>one_phase_car.go\<close>): the level a wish is snapped to, the levels a plan may use on the site's phases
  and for a one-phase car, the limits the car itself sets, and what a saved goal still needs.

  Settings and levels are finite numbers here, so the code's tests for special values have nothing to do.
  Of a loadpoint's state the record holds what these functions and the deadline reserve read.
\<close>

section \<open>Snapping\<close>

definition clampWant :: "real \<Rightarrow> real \<Rightarrow> real \<Rightarrow> real" where
  "clampWant want minW maxW =
     (let want = (if want < minW then minW else want)
      in if maxW > 0 \<and> want > maxW then maxW else want)"

definition feasibleStep :: "real \<Rightarrow> real \<Rightarrow> real \<Rightarrow> bool" where
  "feasibleStep minW maxW step \<longleftrightarrow> \<not> (step < minW \<or> (maxW > 0 \<and> step > maxW))"

fun nearestStep :: "real \<Rightarrow> real \<Rightarrow> real \<Rightarrow> real list \<Rightarrow> real option \<Rightarrow> real option" where
  "nearestStep want minW maxW [] best = best"
| "nearestStep want minW maxW (step # steps) best =
     nearestStep want minW maxW steps
       (if feasibleStep minW maxW step
           \<and> (case best of None \<Rightarrow> True | Some b \<Rightarrow> \<bar>want - step\<bar> < \<bar>want - b\<bar>)
        then Some step else best)"

definition SnapChargeW :: "real \<Rightarrow> real \<Rightarrow> real \<Rightarrow> real list \<Rightarrow> real" where
  "SnapChargeW want minW maxW steps =
     (if want \<le> 0 then 0
      else if maxW > 0 \<and> maxW < minW then 0
      else if steps = [] then clampWant want minW maxW
      else case nearestStep (clampWant want minW maxW) minW maxW steps None of None \<Rightarrow> 0 | Some s \<Rightarrow> s)"

definition floorChargeW :: "real \<Rightarrow> real \<Rightarrow> real \<Rightarrow> real list \<Rightarrow> real" where
  "floorChargeW want minW maxW steps =
     (if want \<le> 0 then 0
      else let want = (if maxW > 0 \<and> want > maxW then maxW else want)
           in if want < minW then 0
              else if steps = [] then want
              else fold (\<lambda>step best. if step \<ge> minW \<and> step \<le> want \<and> step > best then step else best) steps 0)"

definition PhaseFor :: "string \<Rightarrow> real \<Rightarrow> real \<Rightarrow> nat" where
  "PhaseFor mode wantW splitW =
     (if mode = ''1p'' then 1
      else if mode = ''auto'' then (if splitW > 0 \<and> wantW < splitW then 1 else 3)
      else 3)"

definition FilterStepsByPhase :: "real list \<Rightarrow> nat \<Rightarrow> real \<Rightarrow> real list" where
  "FilterStepsByPhase steps phases splitW =
     (if steps = [] then []
      else let splitW = (if splitW \<le> 0 then 3680 else splitW)
           in 0 # filter (\<lambda>s. \<not> s \<le> 0 \<and> (phases = 1 \<and> s \<le> splitW \<or> phases = 3 \<and> s > splitW)) steps)"

definition EnergyBudgetToPowerW :: "real \<Rightarrow> real \<Rightarrow> real" where
  "EnergyBudgetToPowerW remainingWh remainingS =
     (if remainingWh \<le> 0 then 0 else if remainingS \<le> 0 then 0 else remainingWh * 3600 / remainingS)"

section \<open>Levels of the site\<close>

record SiteFuse =
  sfMaxAmps :: real
  sfVoltage :: real
  sfPhaseCnt :: int

definition PerPhaseMaxW :: "SiteFuse \<Rightarrow> real" where
  "PerPhaseMaxW f = sfMaxAmps f * (if sfVoltage f \<le> 0 then 230 else sfVoltage f)"

definition fusePhases :: "SiteFuse \<Rightarrow> int" where
  "fusePhases f = (if sfPhaseCnt f \<le> 0 then 3 else sfPhaseCnt f)"

record chargerConfig =
  ccMinChargeW :: real
  ccMaxChargeW :: real
  ccAllowedStepsW :: "real list"
  ccPhaseMode :: string

definition siteVoltage :: "SiteFuse \<Rightarrow> real" where
  "siteVoltage f = (if sfVoltage f \<le> 0 then 230 else sfVoltage f)"

definition threePhaseCapable :: "chargerConfig \<Rightarrow> SiteFuse \<Rightarrow> bool" where
  "threePhaseCapable cfg site =
     (if fusePhases site \<noteq> 3 \<or> ccPhaseMode cfg = ''1p'' then False
      else let minimum = 18 * siteVoltage site
           in if ccMaxChargeW cfg > 0 \<and> ccMaxChargeW cfg < minimum then False
              else if ccAllowedStepsW cfg = [] then True
              else list_ex (\<lambda>w. w \<ge> minimum) (ccAllowedStepsW cfg))"

definition ampStep :: "chargerConfig \<Rightarrow> SiteFuse \<Rightarrow> real" where
  "ampStep cfg site = siteVoltage site * (if threePhaseCapable cfg site then 3 else 1)"

definition wholeAmps :: "chargerConfig \<Rightarrow> SiteFuse \<Rightarrow> int list" where
  "wholeAmps cfg site =
     (let minimum = max 6 \<lceil>ccMinChargeW cfg / ampStep cfg site\<rceil>;
          maximum = \<lfloor>ccMaxChargeW cfg / ampStep cfg site\<rfloor>;
          maximum = (if sfMaxAmps site > 0 then min maximum \<lfloor>sfMaxAmps site\<rfloor> else maximum)
      in if maximum > 1000 then [] else [minimum..maximum])"

definition PlanningSteps :: "chargerConfig \<Rightarrow> SiteFuse \<Rightarrow> real list" where
  "PlanningSteps cfg site =
     (if ccAllowedStepsW cfg \<noteq> [] then
        (if \<not> threePhaseCapable cfg site then ccAllowedStepsW cfg
         else 0 # filter (\<lambda>w. w \<ge> 6 * ampStep cfg site \<and> (ccMaxChargeW cfg \<le> 0 \<or> w \<le> ccMaxChargeW cfg))
                    (ccAllowedStepsW cfg))
      else 0 # map (\<lambda>a. real_of_int a * ampStep cfg site) (wholeAmps cfg site))"

definition chargerPhaseMaxA :: "chargerConfig \<Rightarrow> SiteFuse \<Rightarrow> int" where
  "chargerPhaseMaxA cfg site =
     (let maxA = (if ccMaxChargeW cfg > 0 then \<lfloor>ccMaxChargeW cfg / (3 * siteVoltage site) + 1 / 10 ^ 9\<rfloor> else 32)
      in if sfMaxAmps site > 0 then min maxA \<lfloor>sfMaxAmps site\<rfloor> else maxA)"

definition OnePhaseCarSteps :: "chargerConfig \<Rightarrow> SiteFuse \<Rightarrow> real list" where
  "OnePhaseCarSteps cfg site =
     0 # map (\<lambda>a. real_of_int a * siteVoltage site) [6..chargerPhaseMaxA cfg site]"

definition OnePhaseCarMaxW :: "chargerConfig \<Rightarrow> SiteFuse \<Rightarrow> real" where
  "OnePhaseCarMaxW cfg site = last (OnePhaseCarSteps cfg site)"

section \<open>Levels of a session\<close>

record lpSession =
  seID :: string
  sePluggedIn :: bool
  seChargingDeclined :: bool
  seGoalComplete :: bool
  seTargetTime :: time
  seCurrentSoC :: real
  seTargetSoC :: real
  seVehicleCapacityWh :: real
  seMinChargeW :: real
  seMaxChargeW :: real
  seAllowedStepsW :: "real list"
  seFinishAtVehicleLimit :: bool
  seCarChargeLimit :: real
  seCarMaxW :: real
  seCarPhases :: int
  seManualActive :: bool
  seManualChargeW :: real
  seSurplusOnly :: bool
  seCommandedKnown :: bool
  seCommandedW :: real

definition lowestStep :: "real list \<Rightarrow> real" where
  "lowestStep steps = fold (\<lambda>w lowest. if w > 0 \<and> (lowest = 0 \<or> w < lowest) then w else lowest) steps 0"

definition LimitPower :: "lpSession \<Rightarrow> real list \<Rightarrow> real \<times> real \<times> real list" where
  "LimitPower st steps =
     (let lowest = lowestStep steps;
          maxW = seMaxChargeW st;
          minW = max (seMinChargeW st) lowest
      in if seCarMaxW st \<le> 0 \<or> (maxW > 0 \<and> seCarMaxW st \<ge> maxW) then
           (if maxW > 0 \<and> minW > maxW then maxW else minW, maxW, steps)
         else let out = filter (\<lambda>w. w \<le> seCarMaxW st) steps;
                  kept = list_ex (\<lambda>w. w > 0) out;
                  (out, maxW) = (if \<not> kept \<and> lowest > 0 then (out @ [lowest], lowest) else (out, seCarMaxW st));
                  maxW = (if lowest = 0 \<and> minW > maxW then minW else maxW)
              in (if minW > maxW then maxW else minW, maxW, out))"

definition onePhaseLevels :: "chargerConfig \<Rightarrow> SiteFuse \<Rightarrow> real list" where
  "onePhaseLevels cfg site =
     map (\<lambda>w. w / 3) (filter (\<lambda>w. w > 0 \<and> w / 3 \<le> OnePhaseCarMaxW cfg site + 1 / 10 ^ 9) (PlanningSteps cfg site))"

definition PlanningLimits :: "lpSession \<Rightarrow> chargerConfig \<Rightarrow> SiteFuse \<Rightarrow> real \<times> real \<times> real list" where
  "PlanningLimits st cfg site =
     (if seCarPhases st = 1 \<and> threePhaseCapable cfg site \<and> onePhaseLevels cfg site \<noteq> []
      then let levels = onePhaseLevels cfg site
           in LimitPower (st\<lparr>seMinChargeW := fold min levels (hd levels), seMaxChargeW := fold max levels 0\<rparr>) (0 # levels)
      else LimitPower st (PlanningSteps cfg site))"

definition PlanningTarget :: "lpSession \<Rightarrow> real \<Rightarrow> real" where
  "PlanningTarget st vehicleLimit =
     (let target = (if seFinishAtVehicleLimit st then 1 else seTargetSoC st)
      in if vehicleLimit > 0 \<and> vehicleLimit \<le> 1 \<and> vehicleLimit < target then vehicleLimit else target)"

definition DefaultChargeEfficiency :: real where "DefaultChargeEfficiency = 9 / 10"

definition DeadlineNeed :: "lpSession \<Rightarrow> real \<times> real \<times> real list \<Rightarrow> (real \<times> real) option" where
  "DeadlineNeed st limits =
     (case limits of (minW, maxW, steps) \<Rightarrow>
        if \<not> sePluggedIn st \<or> seChargingDeclined st \<or> seGoalComplete st \<or> isZero (seTargetTime st)
           \<or> seCurrentSoC st < 0 \<or> seCurrentSoC st > 1 \<or> seTargetSoC st < 0 \<or> seTargetSoC st > 1
           \<or> seVehicleCapacityWh st \<le> 0 \<or> \<not> minW > 0 \<or> seMaxChargeW st < seMinChargeW st then None
        else let energyWh = (PlanningTarget st (seCarChargeLimit st) - seCurrentSoC st) * seVehicleCapacityWh st
                              / DefaultChargeEfficiency
             in if energyWh \<le> 0 then None
                else if list_ex (\<lambda>step. step < 0 \<or> step > seMaxChargeW st) (seAllowedStepsW st) then None
                else let powerW = (if seAllowedStepsW st = [] then maxW
                                   else fold (\<lambda>step w. if step \<ge> minW then max w step else w) steps 0)
                     in if powerW \<ge> minW then Some (energyWh, powerW) else None)"

section \<open>The snapped level\<close>

lemma nearestStep_facts:
  assumes "nearestStep want minW maxW steps best = r"
    and "\<And>b. best = Some b \<Longrightarrow> feasibleStep minW maxW b"
  shows "(\<forall>s. r = Some s \<longrightarrow> feasibleStep minW maxW s \<and> (s \<in> set steps \<or> best = Some s))
    \<and> (\<forall>s \<in> set steps \<union> set_option best. feasibleStep minW maxW s \<longrightarrow> (\<exists>b. r = Some b \<and> \<bar>want - b\<bar> \<le> \<bar>want - s\<bar>))"
  using assms
proof (induction want minW maxW steps best arbitrary: r rule: nearestStep.induct)
  case (1 want minW maxW best)
  then show ?case by auto
next
  case (2 want minW maxW step steps best)
  define take where "take \<longleftrightarrow> feasibleStep minW maxW step
      \<and> (case best of None \<Rightarrow> True | Some b \<Rightarrow> \<bar>want - step\<bar> < \<bar>want - b\<bar>)"
  have IH: "(\<forall>s. r = Some s \<longrightarrow> feasibleStep minW maxW s \<and> (s \<in> set steps \<or> (if take then Some step else best) = Some s))
    \<and> (\<forall>s \<in> set steps \<union> set_option (if take then Some step else best). feasibleStep minW maxW s \<longrightarrow>
         (\<exists>b. r = Some b \<and> \<bar>want - b\<bar> \<le> \<bar>want - s\<bar>))"
    using "2.prems" by (intro "2.IH" [folded take_def]) (auto simp: take_def split: if_splits)
  show ?case
  proof (intro conjI allI ballI impI)
    fix s assume "r = Some s"
    with IH show "feasibleStep minW maxW s" "s \<in> set (step # steps) \<or> best = Some s" by (auto split: if_splits)
  next
    fix s assume s: "s \<in> set (step # steps) \<union> set_option best" "feasibleStep minW maxW s"
    show "\<exists>b. r = Some b \<and> \<bar>want - b\<bar> \<le> \<bar>want - s\<bar>"
    proof (cases take)
      case True
      then obtain b where b: "r = Some b" "\<bar>want - b\<bar> \<le> \<bar>want - step\<bar>" using IH by (auto simp: take_def)
      have "\<bar>want - step\<bar> \<le> \<bar>want - s\<bar>" if "best = Some s"
        using True that by (auto simp: take_def)
      with s b IH show ?thesis by (force split: if_splits)
    next
      case False
      show ?thesis
      proof (cases "s = step")
        case True
        with False s(2) obtain b where "best = Some b" "\<bar>want - b\<bar> \<le> \<bar>want - s\<bar>"
          by (cases best) (auto simp: take_def)
        moreover from this "2.prems"(2) have "feasibleStep minW maxW b" by simp
        ultimately show ?thesis using IH False by fastforce
      qed (use s IH False in auto)
    qed
  qed
qed

text \<open>A snapped level is one the charger has and the nearest one. On a charger with a step table and
  a range that is not empty, a wish above zero becomes a step within the range such that no other step
  within it is closer to the wish as the range clamps it; only where the range holds no step, and for
  a wish of zero or less, is the answer off.\<close>

theorem snap_is_nearest_level:
  assumes "steps \<noteq> []" "0 < want" "maxW \<le> 0 \<or> minW \<le> maxW"
  shows "(list_ex (feasibleStep minW maxW) steps \<longrightarrow>
       SnapChargeW want minW maxW steps \<in> set steps \<and> feasibleStep minW maxW (SnapChargeW want minW maxW steps)
       \<and> list_all (\<lambda>s. feasibleStep minW maxW s \<longrightarrow>
            \<bar>clampWant want minW maxW - SnapChargeW want minW maxW steps\<bar> \<le> \<bar>clampWant want minW maxW - s\<bar>) steps)
    \<and> (\<not> list_ex (feasibleStep minW maxW) steps \<longrightarrow> SnapChargeW want minW maxW steps = 0)"
proof -
  define r where "r = nearestStep (clampWant want minW maxW) minW maxW steps None"
  have snap: "SnapChargeW want minW maxW steps = (case r of None \<Rightarrow> 0 | Some s \<Rightarrow> s)"
    using assms by (auto simp: SnapChargeW_def r_def)
  have facts: "\<And>s. r = Some s \<Longrightarrow> feasibleStep minW maxW s \<and> s \<in> set steps"
    "\<And>s. s \<in> set steps \<Longrightarrow> feasibleStep minW maxW s \<Longrightarrow>
       \<exists>b. r = Some b \<and> \<bar>clampWant want minW maxW - b\<bar> \<le> \<bar>clampWant want minW maxW - s\<bar>"
    using nearestStep_facts [of "clampWant want minW maxW" minW maxW steps None r] by (auto simp: r_def)
  show ?thesis
  proof (intro conjI impI)
    assume "list_ex (feasibleStep minW maxW) steps"
    then obtain b where r: "r = Some b" using facts(2) by (auto simp: list_ex_iff)
    then show "SnapChargeW want minW maxW steps \<in> set steps" "feasibleStep minW maxW (SnapChargeW want minW maxW steps)"
      using facts(1) snap by simp_all
    show "list_all (\<lambda>s. feasibleStep minW maxW s \<longrightarrow>
            \<bar>clampWant want minW maxW - SnapChargeW want minW maxW steps\<bar> \<le> \<bar>clampWant want minW maxW - s\<bar>) steps"
      using facts(2) r snap by (auto simp: list_all_iff)
  next
    assume "\<not> list_ex (feasibleStep minW maxW) steps"
    then have "r = None" using facts(1) by (cases r) (auto simp: list_ex_iff)
    then show "SnapChargeW want minW maxW steps = 0" using snap by simp
  qed
qed

lemma floor_fold_facts:
  fixes steps :: "real list" and minW want :: real
  defines "pick \<equiv> \<lambda>step best. if step \<ge> minW \<and> step \<le> want \<and> step > best then step else best"
  shows "(fold pick steps b = b \<or> fold pick steps b \<in> set steps \<and> minW \<le> fold pick steps b \<and> fold pick steps b \<le> want)
    \<and> b \<le> fold pick steps b \<and> (\<forall>s \<in> set steps. minW \<le> s \<and> s \<le> want \<longrightarrow> s \<le> fold pick steps b)"
proof (induction steps arbitrary: b)
  case (Cons s ss)
  have "b \<le> pick s b" "minW \<le> s \<and> s \<le> want \<longrightarrow> s \<le> pick s b"
    "pick s b = b \<or> pick s b = s \<and> minW \<le> s \<and> s \<le> want" by (auto simp: pick_def)
  with Cons.IH [of "pick s b"] show ?case by auto
qed simp

lemma floorChargeW_ceiling:
  assumes "floorChargeW want minW maxW steps = r" "0 < r"
  shows "minW \<le> r" "r \<le> want" "0 < maxW \<Longrightarrow> r \<le> maxW" "steps = [] \<or> r \<in> set steps"
    "\<And>s. s \<in> set steps \<Longrightarrow> minW \<le> s \<Longrightarrow> s \<le> want \<Longrightarrow> maxW \<le> 0 \<or> s \<le> maxW \<Longrightarrow> s \<le> r"
proof -
  define w where "w = (if maxW > 0 \<and> want > maxW then maxW else want)"
  have w: "w \<le> want" "0 < maxW \<Longrightarrow> w \<le> maxW" "s \<le> want \<Longrightarrow> maxW \<le> 0 \<or> s \<le> maxW \<Longrightarrow> s \<le> w" for s
    by (auto simp: w_def)
  have "0 < want" "minW \<le> w" using assms by (auto simp: floorChargeW_def Let_def w_def split: if_splits)
  then have eq: "r = (if steps = [] then w
      else fold (\<lambda>step best. if step \<ge> minW \<and> step \<le> w \<and> step > best then step else best) steps 0)"
    using assms(1) by (auto simp: floorChargeW_def Let_def w_def)
  note f = floor_fold_facts [where steps = steps and b = 0 and minW = minW and want = w]
  have "minW \<le> r \<and> r \<le> w \<and> (steps = [] \<or> r \<in> set steps) \<and> (\<forall>s \<in> set steps. minW \<le> s \<and> s \<le> w \<longrightarrow> s \<le> r)"
    using eq f assms(2) \<open>minW \<le> w\<close> by (cases "steps = []") auto
  with w show "minW \<le> r" "r \<le> want" "0 < maxW \<Longrightarrow> r \<le> maxW" "steps = [] \<or> r \<in> set steps"
    "\<And>s. s \<in> set steps \<Longrightarrow> minW \<le> s \<Longrightarrow> s \<le> want \<Longrightarrow> maxW \<le> 0 \<or> s \<le> maxW \<Longrightarrow> s \<le> r"
    by (auto intro: order_trans)
qed

section \<open>The session's limits\<close>

lemma lowest_fold:
  fixes l :: real
  defines "pick \<equiv> \<lambda>w lowest. if w > 0 \<and> (lowest = 0 \<or> w < lowest) then w else (lowest :: real)"
  assumes "0 \<le> l"
  shows "0 \<le> fold pick steps l \<and> (fold pick steps l = l \<or> fold pick steps l \<in> set steps \<and> 0 < fold pick steps l)
    \<and> (0 < l \<longrightarrow> 0 < fold pick steps l \<and> fold pick steps l \<le> l)
    \<and> (\<forall>s \<in> set steps. 0 < s \<longrightarrow> 0 < fold pick steps l \<and> fold pick steps l \<le> s)"
  using assms(2)
proof (induction steps arbitrary: l)
  case (Cons s ss)
  have p: "0 \<le> pick s l" "pick s l = l \<or> pick s l = s \<and> 0 < s" "0 < l \<Longrightarrow> 0 < pick s l \<and> pick s l \<le> l"
    "0 < s \<Longrightarrow> 0 < pick s l \<and> pick s l \<le> s" using Cons.prems by (auto simp: pick_def)
  note IH = Cons.IH [OF p(1)]
  have a: "fold pick ss (pick s l) = l \<or> fold pick ss (pick s l) \<in> set (s # ss) \<and> 0 < fold pick ss (pick s l)"
    using IH p(2) by (metis list.set_intros)
  have b: "0 < l \<longrightarrow> 0 < fold pick ss (pick s l) \<and> fold pick ss (pick s l) \<le> l" using IH p(3) by force
  have c: "0 < s \<longrightarrow> 0 < fold pick ss (pick s l) \<and> fold pick ss (pick s l) \<le> s" using IH p(4) by force
  from a b c IH show ?case by simp
qed simp

lemma lowestStep_facts:
  assumes "list_ex (\<lambda>w. w > 0) steps"
  shows "0 < lowestStep steps" "lowestStep steps \<in> set steps" "\<And>s. s \<in> set steps \<Longrightarrow> 0 < s \<Longrightarrow> lowestStep steps \<le> s"
  using assms lowest_fold [of 0 steps] by (auto simp: lowestStep_def list_ex_iff)

text \<open>The limits a plan gets for a session always leave it a level. On a charger whose positive steps
  lie within its own range, the range for the session is not empty, at least one step lies inside it,
  every step kept is one of the charger's and no higher than the range, and the range goes above the
  car's own maximum only by keeping the charger's lowest step.\<close>

theorem limits_leave_a_level:
  assumes "LimitPower st steps = (minW, maxW, out)" "list_ex (\<lambda>w. w > 0) steps"
    and "list_all (\<lambda>w. w > 0 \<longrightarrow> seMinChargeW st \<le> w \<and> w \<le> seMaxChargeW st) steps"
  shows "0 < minW \<and> minW \<le> maxW \<and> maxW \<le> seMaxChargeW st \<and> set out \<subseteq> set steps
    \<and> list_ex (\<lambda>w. minW \<le> w \<and> w \<le> maxW) out \<and> list_all (\<lambda>w. w \<le> maxW) out
    \<and> (seCarMaxW st > 0 \<longrightarrow> maxW \<le> max (seCarMaxW st) (lowestStep steps))"
proof -
  let ?l = "lowestStep steps"
  note l = lowestStep_facts [OF assms(2)]
  have r: "seMinChargeW st \<le> ?l" "?l \<le> seMaxChargeW st" using assms(3) l(1,2) by (auto simp: list_all_iff)
  have top: "w \<le> seMaxChargeW st" if "w \<in> set steps" for w
    using assms(3) that l(1) r(2) by (cases "0 < w") (auto simp: list_all_iff)
  have m: "max (seMinChargeW st) ?l = ?l" using r(1) by simp
  consider (noCar) "seCarMaxW st \<le> 0 \<or> seMaxChargeW st \<le> seCarMaxW st"
    | (kept) "0 < seCarMaxW st" "seCarMaxW st < seMaxChargeW st" "?l \<le> seCarMaxW st"
    | (lost) "0 < seCarMaxW st" "seCarMaxW st < seMaxChargeW st" "seCarMaxW st < ?l" by linarith
  then show ?thesis
  proof cases
    case noCar
    then have "minW = ?l" "maxW = seMaxChargeW st" "out = steps"
      using assms(1) l(1) r by (auto simp: LimitPower_def Let_def m)
    with l r top noCar show ?thesis by (auto simp: list_ex_iff list_all_iff)
  next
    case kept
    have k: "list_ex (\<lambda>w. w > 0) (filter (\<lambda>w. w \<le> seCarMaxW st) steps)"
      using l(1,2) kept(3) by (auto simp: list_ex_iff)
    have "minW = ?l" "maxW = seCarMaxW st" "out = filter (\<lambda>w. w \<le> seCarMaxW st) steps"
      using assms(1) kept l(1) k by (auto simp: LimitPower_def Let_def m)
    with l kept show ?thesis by (auto simp: list_ex_iff list_all_iff)
  next
    case lost
    have k: "\<not> list_ex (\<lambda>w. w > 0) (filter (\<lambda>w. w \<le> seCarMaxW st) steps)"
      using l(3) lost(3) by (force simp: list_ex_iff)
    have "minW = ?l" "maxW = ?l" "out = filter (\<lambda>w. w \<le> seCarMaxW st) steps @ [?l]"
      using assms(1) lost l(1) k by (auto simp: LimitPower_def Let_def m)
    with l r lost show ?thesis by (auto simp: list_ex_iff list_all_iff)
  qed
qed

lemma LimitPower_subset:
  assumes "LimitPower st steps = (minW, maxW, out)"
  shows "set out \<subseteq> set steps"
proof (cases "list_ex (\<lambda>w. w > 0) steps")
  case True
  then show ?thesis using assms lowestStep_facts(2) [OF True] by (auto simp: LimitPower_def Let_def split: if_splits)
next
  case False
  then have "lowestStep steps \<le> 0" using lowest_fold [of 0 steps] by (auto simp: lowestStep_def list_ex_iff)
  then show ?thesis using assms by (auto simp: LimitPower_def Let_def split: if_splits)
qed

text \<open>Each level of a one-phase car is a third of an order the charger may give.\<close>

lemma one_phase_levels_are_thirds:
  assumes "PlanningLimits st cfg site = (minW, maxW, out)" "seCarPhases st = 1" "threePhaseCapable cfg site"
    and "onePhaseLevels cfg site \<noteq> []" "w \<in> set out" "w \<noteq> 0"
  shows "3 * w \<in> set (PlanningSteps cfg site) \<and> w \<le> OnePhaseCarMaxW cfg site + 1 / 10 ^ 9"
proof -
  have "set out \<subseteq> set (0 # onePhaseLevels cfg site)"
    using assms(1-4) by (intro LimitPower_subset) (auto simp: PlanningLimits_def Let_def)
  then have "w \<in> set (onePhaseLevels cfg site)" using assms(5,6) by auto
  then show ?thesis by (auto simp: onePhaseLevels_def)
qed

lemma DeadlineNeed_positive:
  assumes "DeadlineNeed st (minW, maxW, steps) = Some (need, peak)"
  shows "0 < need" "0 < minW" "minW \<le> peak"
  using assms by (auto simp: DeadlineNeed_def Let_def split: if_splits)

section \<open>Examples\<close>

definition goalCar :: lpSession where
  "goalCar = \<lparr>seID = ''car'', sePluggedIn = True, seChargingDeclined = False, seGoalComplete = False,
     seTargetTime = 36000000000000, seCurrentSoC = 1 / 2, seTargetSoC = 8 / 10, seVehicleCapacityWh = 60000,
     seMinChargeW = 1380, seMaxChargeW = 11040, seAllowedStepsW = [0, 1380, 4140, 11040],
     seFinishAtVehicleLimit = False, seCarChargeLimit = 0, seCarMaxW = 3680, seCarPhases = 0, seManualActive = False,
     seManualChargeW = 0, seSurplusOnly = False, seCommandedKnown = False, seCommandedW = 0\<rparr>"

theorem snap_is_nearest_level_witness:
  "SnapChargeW 4000 1380 11040 [0, 1380, 4140, 11040] = 4140
   \<and> \<bar>clampWant 4000 1380 11040 - 4140\<bar> \<le> \<bar>clampWant 4000 1380 11040 - (1380 :: real)\<bar>"
proof -
  have s: "SnapChargeW 4000 1380 11040 [0, 1380, 4140, 11040] = 4140" by code_simp
  have "list_ex (feasibleStep 1380 11040) [0, 1380, 4140, 11040]" "feasibleStep 1380 11040 1380" by code_simp+
  with snap_is_nearest_level [of "[0, 1380, 4140, 11040]" 4000 11040 1380] show ?thesis by (simp add: s)
qed

theorem limits_leave_a_level_witness:
  "LimitPower goalCar [0, 1380, 4140, 11040] = (1380, 3680, [0, 1380])
   \<and> list_ex (\<lambda>w. 1380 \<le> w \<and> w \<le> 3680) [0, 1380 :: real]"
proof -
  have l: "LimitPower goalCar [0, 1380, 4140, 11040] = (1380, 3680, [0, 1380])" by code_simp
  have "list_ex (\<lambda>w. w > 0) [0, 1380, 4140, 11040 :: real]"
    "list_all (\<lambda>w. w > 0 \<longrightarrow> seMinChargeW goalCar \<le> w \<and> w \<le> seMaxChargeW goalCar) [0, 1380, 4140, 11040]" by code_simp+
  from limits_leave_a_level [OF l this] l show ?thesis by simp
qed

end
