(* ===== verification/Loadpoint_Phases.thy ===== *)
theory Loadpoint_Phases
  imports Loadpoint_Levels
begin

text \<open>
  Which phases a car draws on (\<open>loadpoint/one_phase_car.go\<close>): when Core's three-phase order rises, the
  site meter's phases and the charger's own power are watched until they agree on one phase or on
  three. Meter readings and the charger's draw may be no number; orders are.
\<close>

section \<open>The verdict of one reading\<close>

definition onePhaseStepA :: real where "onePhaseStepA = 2"
definition onePhaseHold :: duration where "onePhaseHold = 30 * second"
definition onePhaseSettle :: duration where "onePhaseSettle = minute"
definition onePhaseUnknownSettle :: duration where "onePhaseUnknownSettle = 3 * minute"

definition movedA :: "f64 list \<Rightarrow> f64 list \<Rightarrow> f64 list" where
  "movedA amps baseline = map2 (\<lambda>a b. a - b) amps baseline"

definition biggestMove :: "f64 list \<Rightarrow> nat \<times> f64" where
  "biggestMove moved = fold (\<lambda>(i, m) (k, big). if m > big then (i, m) else (k, big)) (zip [0..<length moved] moved) (0, NInf)"

definition otherMoves :: "nat \<Rightarrow> f64 list \<Rightarrow> f64 list" where
  "otherMoves k moved = map snd (filter (\<lambda>(i, m). i \<noteq> k) (zip [0..<length moved] moved))"

definition phaseVerdict :: "f64 list \<Rightarrow> f64 list \<Rightarrow> real \<Rightarrow> f64 \<Rightarrow> int" where
  "phaseVerdict amps baseline riseA drawA =
     (let moved = movedA amps baseline; (k, big) = biggestMove moved
      in if \<not> isFinite big \<or> big < Fin (max onePhaseStepA (riseA / 2)) \<or> big > Fin (riseA + onePhaseStepA) then 0
         else let quiet = length (filter (\<lambda>m. f64_abs m \<le> Fin (max 1 (fval big / 4))) (otherMoves k moved));
                  rose = length (filter (\<lambda>m. m \<ge> Fin (fval big / 2)) (otherMoves k moved));
                  total' = fold (\<lambda>m t. t + m) moved 0
              in if \<not> isFinite drawA then 0
                 else if rose = 2 \<and> drawA \<ge> Fin (6 / 10) * total' \<and> drawA \<le> Fin (15 / 10) * total' then - 1
                 else if quiet = 2 \<and> drawA \<ge> Fin (6 / 10 * fval big) \<and> drawA \<le> Fin (15 / 10 * fval big)
                 then int k + 1
                 else 0)"

section \<open>The watch\<close>

record phaseTest =
  ptAt :: time
  ptUntil :: time
  ptBaseline :: "f64 list"
  ptBaseDrawA :: f64
  ptFromA :: real
  ptVerdict :: int
  ptSince :: time

record carPhases =
  cpOrderA :: real
  cpRising :: bool
  cpBefore :: "f64 list"
  cpBeforeDrawA :: f64
  cpLast :: "f64 list"
  cpLastDrawA :: f64
  cpSeen :: bool
  cpTest :: "phaseTest option"
  cpPhase :: int
  cpThree :: bool

definition noCarPhases :: carPhases where
  "noCarPhases = \<lparr>cpOrderA = 0, cpRising = False, cpBefore = replicate 3 0, cpBeforeDrawA = 0,
     cpLast = replicate 3 0, cpLastDrawA = 0, cpSeen = False, cpTest = None, cpPhase = 0, cpThree = False\<rparr>"

text \<open>What one tick brings: the plugged session's order, the meter, the charger's draw.\<close>

record phaseReading =
  prPluggedIn :: bool
  prCommandedKnown :: bool
  prCommandedPhases :: int
  prCommandedW :: f64
  prAmps :: "f64 list"
  prMeterAt :: time
  prDrawA :: f64
  prVoltage :: real
  prSettle :: duration
  prNow :: time

definition prOrderA :: "phaseReading \<Rightarrow> real" where
  "prOrderA r = max 0 (fval (prCommandedW r)) / (3 * prVoltage r)"

definition noteReading :: "phaseReading \<Rightarrow> carPhases \<Rightarrow> carPhases" where
  "noteReading r s = s\<lparr>cpLast := prAmps r, cpLastDrawA := prDrawA r, cpSeen := True\<rparr>"

definition dropTest :: "phaseReading \<Rightarrow> carPhases \<Rightarrow> carPhases" where
  "dropTest r s =
     (case cpTest s of
        Some t \<Rightarrow> if prOrderA r - ptFromA t < onePhaseStepA \<or> prNow r > ptUntil t then s\<lparr>cpTest := None\<rparr> else s
      | None \<Rightarrow> s)"

text \<open>The base of the next rise: a cut lowers it, an order that was out before the first reading is it, and the
  first raise keeps the reading taken before.\<close>

definition noteOrder :: "phaseReading \<Rightarrow> carPhases \<Rightarrow> carPhases \<Rightarrow> carPhases" where
  "noteOrder r old s =
     (if prOrderA r \<le> cpOrderA s then s\<lparr>cpOrderA := prOrderA r, cpRising := False\<rparr>
      else if \<not> cpSeen old then s\<lparr>cpOrderA := prOrderA r\<rparr>
      else if \<not> cpRising s then s\<lparr>cpRising := True, cpBefore := cpLast old, cpBeforeDrawA := cpLastDrawA old\<rparr>
      else s)"

definition startTest :: "phaseReading \<Rightarrow> carPhases \<Rightarrow> carPhases" where
  "startTest r s =
     s\<lparr>cpTest := Some \<lparr>ptAt = prNow r, ptUntil = prNow r + (prSettle r + onePhaseHold), ptBaseline = cpBefore s,
         ptBaseDrawA = cpBeforeDrawA s, ptFromA = cpOrderA s, ptVerdict = 0, ptSince = zeroTime\<rparr>,
       cpOrderA := prOrderA r, cpRising := False\<rparr>"

definition judgeTest :: "phaseReading \<Rightarrow> phaseTest \<Rightarrow> carPhases \<Rightarrow> carPhases" where
  "judgeTest r t s =
     (let s = s\<lparr>cpOrderA := max (cpOrderA s) (prOrderA r)\<rparr>
      in if prMeterAt r < ptAt t then s
         else let v = phaseVerdict (prAmps r) (ptBaseline t) (prOrderA r - ptFromA t) (prDrawA r - ptBaseDrawA t);
                  t = (if v \<noteq> ptVerdict t then t\<lparr>ptVerdict := v, ptSince := prNow r\<rparr> else t)
              in if ptVerdict t = 0 \<or> tsub (prNow r) (ptSince t) < onePhaseHold then s\<lparr>cpTest := Some t\<rparr>
                 else s\<lparr>cpPhase := max (ptVerdict t) 0, cpThree := ptVerdict t < 0, cpTest := None\<rparr>)"

definition observePhases :: "phaseReading \<Rightarrow> carPhases \<Rightarrow> carPhases" where
  "observePhases r old =
     (if \<not> prPluggedIn r then old
      else let s = noteReading r old
           in if \<not> prCommandedKnown r \<or> prCommandedPhases r \<noteq> 3 \<or> \<not> isFinite (prCommandedW r)
              then s\<lparr>cpTest := None, cpRising := False\<rparr>
              else let s = dropTest r s
                   in case cpTest s of
                        Some t \<Rightarrow> judgeTest r t s
                      | None \<Rightarrow>
                          (let s = noteOrder r old s
                           in if \<not> cpRising s \<or> prOrderA r - cpOrderA s < onePhaseStepA then s
                              else let s = startTest r s
                                   in case cpTest s of None \<Rightarrow> s | Some t \<Rightarrow> judgeTest r t s))"

fun watch :: "phaseReading list \<Rightarrow> carPhases \<Rightarrow> carPhases" where
  "watch [] s = s"
| "watch (r # rs) s = watch rs (observePhases r s)"

section \<open>A house load cannot mark a car\<close>

text \<open>A draw that stays within a band narrower than 1.2 A, or is no number.\<close>

definition steadyDraw :: "real \<Rightarrow> f64 \<Rightarrow> bool" where
  "steadyDraw lo d \<longleftrightarrow> (case d of Fin x \<Rightarrow> lo \<le> x \<and> x < lo + 12 / 10 | _ \<Rightarrow> True)"

lemma steady_difference:
  assumes "steadyDraw lo a" "steadyDraw lo b" "a - b = Fin d"
  shows "d < 12 / 10"
  using assms by (cases a; cases b) (auto simp: steadyDraw_def minus_f64_def)

lemma f64_sum_finite:
  assumes "a + b = Fin x"
  obtains y z where "a = Fin y" "b = Fin z" "x = y + z"
  using assms by (cases a; cases b) (auto simp: plus_f64_def)

text \<open>Three finite moves: the biggest bounds the others.\<close>

lemma three_rose:
  assumes "biggestMove [Fin x, Fin y, Fin z] = (k, Fin big)"
    and "length (filter (\<lambda>m. m \<ge> Fin (big / 2)) (otherMoves k [Fin x, Fin y, Fin z])) = 2"
  shows "2 * big \<le> x + y + z"
  using assms
  by (auto simp: biggestMove_def otherMoves_def upt_rec numeral_3_eq_3 less_f64_def split: if_splits)

lemma verdict_needs_draw:
  assumes "phaseVerdict amps baseline riseA drawA \<noteq> 0" "length amps = 3" "length baseline = 3"
  obtains d where "drawA = Fin d" "12 / 10 \<le> d"
proof -
  define moved where "moved = movedA amps baseline"
  obtain k b where kb: "biggestMove moved = (k, b)" by fastforce
  have ne: "isFinite b" "\<not> b < Fin (max onePhaseStepA (riseA / 2))" "isFinite drawA"
    using assms(1) unfolding phaseVerdict_def Let_def moved_def [symmetric] kb prod.case by (auto split: if_splits)
  then obtain big d where f: "b = Fin big" "drawA = Fin d" by (auto simp: isFinite_iff)
  have big: "2 \<le> big" using ne(2) f(1) by (simp add: onePhaseStepA_def)
  define t where "t = fold (\<lambda>m t. t + m) moved 0"
  have "6 / 10 * big \<le> d
      \<or> length (filter (\<lambda>m. m \<ge> Fin (big / 2)) (otherMoves k moved)) = 2 \<and> Fin d \<ge> Fin (6 / 10) * t \<and> Fin d \<le> Fin (15 / 10) * t"
    using assms(1) f unfolding phaseVerdict_def Let_def moved_def [symmetric] kb prod.case t_def [symmetric]
    by (auto split: if_splits)
  then have "12 / 10 \<le> d"
  proof
    assume r: "length (filter (\<lambda>m. m \<ge> Fin (big / 2)) (otherMoves k moved)) = 2 \<and> Fin d \<ge> Fin (6 / 10) * t \<and> Fin d \<le> Fin (15 / 10) * t"
    then obtain x where t: "t = Fin x" by (cases t) (auto simp: times_f64_def less_eq_f64_def f64_inf_def)
    obtain m0 m1 m2 where m: "moved = [m0, m1, m2]"
      using assms(2,3) by (auto simp: moved_def movedA_def numeral_3_eq_3 length_Suc_conv)
    have "((0 + m0) + m1) + m2 = Fin x" using t by (simp add: t_def m)
    then obtain y0 y1 y2 where y: "m0 = Fin y0" "m1 = Fin y1" "m2 = Fin y2" "x = y0 + y1 + y2"
      by (elim f64_sum_finite) (auto simp: zero_f64_def elim!: f64_sum_finite)
    have "2 * big \<le> x" using three_rose [of y0 y1 y2 k big] kb f(1) r by (simp add: m y)
    moreover have "6 / 10 * x \<le> d" using r t by simp
    ultimately show ?thesis using big by linarith
  qed (use big in linarith)
  with f(2) show ?thesis by (rule that)
qed

lemma steady_verdict:
  assumes "steadyDraw lo a" "steadyDraw lo b" "length amps = 3" "length baseline = 3"
  shows "phaseVerdict amps baseline riseA (a - b) = 0"
proof (rule ccontr)
  assume "phaseVerdict amps baseline riseA (a - b) \<noteq> 0"
  then obtain d where "a - b = Fin d" "12 / 10 \<le> d" by (rule verdict_needs_draw [OF _ assms(3,4)])
  with steady_difference [OF assms(1,2)] show False by force
qed

text \<open>What a steady session knows: the draws it compares are steady and no test has a verdict.\<close>

definition steadySession :: "real \<Rightarrow> carPhases \<Rightarrow> bool" where
  "steadySession lo s \<longleftrightarrow>
     (cpSeen s \<longrightarrow> steadyDraw lo (cpLastDrawA s) \<and> length (cpLast s) = 3)
     \<and> (cpRising s \<longrightarrow> steadyDraw lo (cpBeforeDrawA s) \<and> length (cpBefore s) = 3)
     \<and> (case cpTest s of None \<Rightarrow> True
        | Some t \<Rightarrow> ptVerdict t = 0 \<and> steadyDraw lo (ptBaseDrawA t) \<and> length (ptBaseline t) = 3)"

definition steadyReading :: "real \<Rightarrow> phaseReading \<Rightarrow> bool" where
  "steadyReading lo r \<longleftrightarrow> steadyDraw lo (prDrawA r) \<and> length (prAmps r) = 3"

abbreviation marks :: "carPhases \<Rightarrow> int \<times> bool" where
  "marks s \<equiv> (cpPhase s, cpThree s)"

lemma noteReading_steady:
  "steadySession lo s \<Longrightarrow> steadyReading lo r \<Longrightarrow> steadySession lo (noteReading r s)"
  by (simp add: steadySession_def steadyReading_def noteReading_def)

lemma dropTest_steady: "steadySession lo s \<Longrightarrow> steadySession lo (dropTest r s)"
  by (auto simp: steadySession_def dropTest_def split: option.splits)

lemma noteOrder_steady:
  "steadySession lo s \<Longrightarrow> steadySession lo old \<Longrightarrow> steadySession lo (noteOrder r old s)"
  by (auto simp: steadySession_def noteOrder_def split: option.splits)

lemma startTest_steady:
  "steadySession lo s \<Longrightarrow> cpRising s \<Longrightarrow> steadySession lo (startTest r s)"
  by (auto simp: steadySession_def startTest_def)

lemma judgeTest_steady:
  assumes "steadySession lo s" "steadyReading lo r" "cpTest s = Some t"
  shows "steadySession lo (judgeTest r t s) \<and> marks (judgeTest r t s) = marks s"
proof -
  have t: "ptVerdict t = 0" "steadyDraw lo (ptBaseDrawA t)" "length (ptBaseline t) = 3"
    using assms(1,3) by (simp_all add: steadySession_def)
  then have "phaseVerdict (prAmps r) (ptBaseline t) (prOrderA r - ptFromA t) (prDrawA r - ptBaseDrawA t) = 0"
    using assms(2) by (intro steady_verdict [of lo]) (simp_all add: steadyReading_def)
  then have j: "judgeTest r t s = s\<lparr>cpOrderA := max (cpOrderA s) (prOrderA r)\<rparr>
      \<or> judgeTest r t s = s\<lparr>cpOrderA := max (cpOrderA s) (prOrderA r), cpTest := Some t\<rparr>"
    using t(1) by (simp add: judgeTest_def Let_def)
  then show ?thesis using assms(1) t by (auto simp: steadySession_def)
qed

lemma marks_simps [simp]:
  "marks (noteReading r s) = marks s" "marks (dropTest r s) = marks s" "marks (noteOrder r old s) = marks s"
  "marks (startTest r s) = marks s"
  by (auto simp: noteReading_def dropTest_def noteOrder_def startTest_def split: option.splits)

lemma observe_steady:
  assumes "steadySession lo s" "steadyReading lo r"
  shows "steadySession lo (observePhases r s) \<and> marks (observePhases r s) = marks s"
proof -
  define n where "n = noteReading r s"
  define d where "d = dropTest r n"
  have n: "steadySession lo n" "marks n = marks s" using noteReading_steady [OF assms] by (simp_all add: n_def)
  have d: "steadySession lo d" "marks d = marks s" using dropTest_steady [OF n(1)] n(2) by (simp_all add: d_def)
  define q where "q = noteOrder r s d"
  have q: "steadySession lo q" "marks q = marks s"
    using noteOrder_steady [OF d(1) assms(1)] d(2) by (simp_all add: q_def)
  consider "\<not> prPluggedIn r"
    | "prPluggedIn r" "\<not> prCommandedKnown r \<or> prCommandedPhases r \<noteq> 3 \<or> \<not> isFinite (prCommandedW r)"
    | t where "prPluggedIn r" "\<not> (\<not> prCommandedKnown r \<or> prCommandedPhases r \<noteq> 3 \<or> \<not> isFinite (prCommandedW r))" "cpTest d = Some t"
    | "prPluggedIn r" "\<not> (\<not> prCommandedKnown r \<or> prCommandedPhases r \<noteq> 3 \<or> \<not> isFinite (prCommandedW r))" "cpTest d = None"
    by (cases "cpTest d") auto
  then show ?thesis
  proof cases
    case 1
    then show ?thesis using assms(1) by (simp add: observePhases_def)
  next
    case 2
    then have "observePhases r s = n\<lparr>cpTest := None, cpRising := False\<rparr>"
      by (auto simp: observePhases_def Let_def n_def)
    with n show ?thesis by (simp add: steadySession_def)
  next
    case 3
    then have "observePhases r s = judgeTest r t d"
      by (simp add: observePhases_def Let_def n_def [symmetric] d_def [symmetric])
    with judgeTest_steady [OF d(1) assms(2) 3(3)] d(2) show ?thesis by simp
  next
    case 4
    then have o: "observePhases r s = (if \<not> cpRising q \<or> prOrderA r - cpOrderA q < onePhaseStepA then q
        else case cpTest (startTest r q) of None \<Rightarrow> startTest r q | Some t \<Rightarrow> judgeTest r t (startTest r q))"
      by (simp add: observePhases_def Let_def n_def [symmetric] d_def [symmetric] q_def [symmetric])
    show ?thesis
    proof (cases "\<not> cpRising q \<or> prOrderA r - cpOrderA q < onePhaseStepA")
      case True
      then show ?thesis using o q by auto
    next
      case False
      obtain t where t: "cpTest (startTest r q) = Some t" by (simp add: startTest_def)
      have "steadySession lo (startTest r q)" using False q(1) by (intro startTest_steady) auto
      from judgeTest_steady [OF this assms(2) t] show ?thesis
        using o False t q(2) by (auto simp del: marks_simps(4)) (auto simp: startTest_def)
    qed
  qed
qed


section \<open>A one-phase car is found\<close>

text \<open>A reading inside the test's time whose order keeps the rise and whose meter gives the verdict.\<close>

definition agrees :: "phaseTest \<Rightarrow> real \<Rightarrow> int \<Rightarrow> phaseReading \<Rightarrow> bool" where
  "agrees t orderA v r \<longleftrightarrow>
     prPluggedIn r \<and> prCommandedKnown r \<and> prCommandedPhases r = 3 \<and> isFinite (prCommandedW r) \<and> prOrderA r = orderA
     \<and> prNow r \<le> ptUntil t \<and> ptAt t \<le> prMeterAt r
     \<and> phaseVerdict (prAmps r) (ptBaseline t) (orderA - ptFromA t) (prDrawA r - ptBaseDrawA t) = v"

definition foundPhase :: "int \<Rightarrow> real \<Rightarrow> carPhases \<Rightarrow> bool" where
  "foundPhase v orderA s \<longleftrightarrow> cpTest s = None \<and> marks s = (max v 0, v < 0) \<and> orderA \<le> cpOrderA s"

lemma found_stays:
  assumes "foundPhase v orderA s" "agrees t orderA v r"
  shows "foundPhase v orderA (observePhases r s)"
  using assms
  by (simp add: foundPhase_def agrees_def observePhases_def noteReading_def dropTest_def noteOrder_def Let_def)

lemma hold_iff: "tsub a b < onePhaseHold \<longleftrightarrow> a - b < onePhaseHold"
  by (intro tsub_lt_iff) (simp_all add: onePhaseHold_def second_def maxDuration_def minDuration_def)

lemma test_step:
  assumes "cpTest s = Some (t\<lparr>ptVerdict := w, ptSince := since\<rparr>)" "agrees t orderA v r" "v \<noteq> 0"
    and "onePhaseStepA \<le> orderA - ptFromA t"
  defines "since' \<equiv> if w = v then since else prNow r"
  shows "if prNow r - since' < onePhaseHold
    then cpTest (observePhases r s) = Some (t\<lparr>ptVerdict := v, ptSince := since'\<rparr>)
    else foundPhase v orderA (observePhases r s)"
  using assms
  by (auto simp: agrees_def foundPhase_def observePhases_def noteReading_def dropTest_def judgeTest_def Let_def hold_iff)

lemma watch_found: "foundPhase v orderA s \<Longrightarrow> list_all (agrees t orderA v) rs \<Longrightarrow> foundPhase v orderA (watch rs s)"
  by (induction rs arbitrary: s) (auto intro: found_stays)

lemma watch_test:
  assumes "cpTest s = Some (t\<lparr>ptVerdict := v, ptSince := since\<rparr>)" "list_all (agrees t orderA v) rs" "v \<noteq> 0"
    and "onePhaseStepA \<le> orderA - ptFromA t" "list_ex (\<lambda>r. onePhaseHold \<le> prNow r - since) rs"
  shows "foundPhase v orderA (watch rs s)"
  using assms
proof (induction rs arbitrary: s)
  case (Cons r rs)
  have a: "agrees t orderA v r" "list_all (agrees t orderA v) rs" using Cons.prems(2) by simp_all
  note step = test_step [OF Cons.prems(1) a(1) Cons.prems(3,4)]
  show ?case
  proof (cases "prNow r - since < onePhaseHold")
    case True
    then have "cpTest (observePhases r s) = Some (t\<lparr>ptVerdict := v, ptSince := since\<rparr>)" using step by simp
    moreover have "list_ex (\<lambda>r. onePhaseHold \<le> prNow r - since) rs" using Cons.prems(5) True by auto
    ultimately show ?thesis using Cons.IH a(2) Cons.prems(3,4) by simp
  next
    case False
    then have "foundPhase v orderA (observePhases r s)" using step by simp
    then show ?thesis using watch_found [OF _ a(2)] by simp
  qed
qed simp

text \<open>A one-phase car is found. Once an order has risen by two amperes or more and is held, meter readings
  that show one phase, or all three, following it settle the session's mark as soon as they have agreed
  for thirty seconds before the test ends, and the readings after that leave it.\<close>

theorem agreeing_readings_settle_phases:
  assumes "cpTest s = Some t" "list_all (agrees t orderA v) (r # rs)" "v \<noteq> 0" "ptVerdict t = 0"
    and "onePhaseStepA \<le> orderA - ptFromA t" "list_ex (\<lambda>r'. onePhaseHold \<le> prNow r' - prNow r) rs"
  shows "cpPhase (watch (r # rs) s) = max v 0 \<and> cpThree (watch (r # rs) s) = (v < 0) \<and> cpTest (watch (r # rs) s) = None"
proof -
  have "cpTest s = Some (t\<lparr>ptVerdict := 0, ptSince := ptSince t\<rparr>)" using assms(1,4) by simp
  from test_step [OF this, of orderA v r] assms
  have "cpTest (observePhases r s) = Some (t\<lparr>ptVerdict := v, ptSince := prNow r\<rparr>)"
    by (simp add: onePhaseHold_def second_def)
  from watch_test [OF this, of orderA rs] assms have "foundPhase v orderA (watch rs (observePhases r s))" by simp
  then show ?thesis by (simp add: foundPhase_def)
qed

section \<open>Examples\<close>

text \<open>An order at ten amperes a phase, with the meter at the given currents.\<close>

definition readingAt :: "int \<Rightarrow> real list \<Rightarrow> real \<Rightarrow> phaseReading" where
  "readingAt secs amps draw = \<lparr>prPluggedIn = True, prCommandedKnown = True, prCommandedPhases = 3,
     prCommandedW = Fin 6900, prAmps = map Fin amps, prMeterAt = secs * second, prDrawA = Fin draw, prVoltage = 230,
     prSettle = minute, prNow = secs * second\<rparr>"


text \<open>A car that follows a rise from six to ten amperes on the first phase alone.\<close>

definition risenTest :: phaseTest where
  "risenTest = \<lparr>ptAt = 0, ptUntil = 90 * second, ptBaseline = map Fin [7, 1, 1], ptBaseDrawA = Fin 6, ptFromA = 6,
     ptVerdict = 0, ptSince = zeroTime\<rparr>"

theorem agreeing_readings_settle_phases_witness:
  "cpPhase (watch [readingAt 20 [11, 1, 1] 10, readingAt 50 [11, 1, 1] 10] (noCarPhases\<lparr>cpTest := Some risenTest\<rparr>)) = 1"
proof -
  have "list_all (agrees risenTest 10 1) [readingAt 20 [11, 1, 1] 10, readingAt 50 [11, 1, 1] 10]"
    "list_ex (\<lambda>r'. onePhaseHold \<le> prNow r' - prNow (readingAt 20 [11, 1, 1] 10)) [readingAt 50 [11, 1, 1] 10]"
    "ptVerdict risenTest = 0" "onePhaseStepA \<le> 10 - ptFromA risenTest" by code_simp+
  with agreeing_readings_settle_phases [of "noCarPhases\<lparr>cpTest := Some risenTest\<rparr>" risenTest 10 1
      "readingAt 20 [11, 1, 1] 10" "[readingAt 50 [11, 1, 1] 10]"]
  show ?thesis by (simp del: watch.simps)
qed

end
