(* ===== verification/Loadpoint_Fuse.thy ===== *)
theory Loadpoint_Fuse
  imports Loadpoint_Levels Telemetry_Store "HOL-Library.Multiset"
begin

text \<open>
  How the chargers share the fuse (\<open>loadpoint/controller_fuse_budget.go\<close>, \<open>manual_limits.go\<close>, \<open>controller_fuse_demand.go\<close>
  and the last part of a charger's tick in \<open>controller.go\<close>): the split of the limit on the cars in the order of their
  claims, in watts and on the busiest phase, the limits of the installation on one order, and the passes every order goes
  through before it is sent.

  The split starts from the requests of the tick: what each charger asks for comes from its plan or its hold. An order is
  the map the code builds, a missing key is \<open>None\<close>. Settings, levels and orders are finite numbers here, so the code's
  tests for special values have nothing to do; the limit and the room on the phases keep their tests.
\<close>

section \<open>Limits of the installation\<close>

record fuseCharger = chargerConfig +
  fcID :: string
  fcPhaseSplitW :: real
  fcSurplusOnly :: bool

record ManualHoldPower =
  mhPowerW :: real
  mhPhaseMode :: string
  mhPhaseSplitW :: real
  mhVoltage :: real
  mhMaxAmpsPerPhase :: real

record chargeOrder =
  coPowerW :: "real option"
  coMaxAmps :: "real option"
  coVoltage :: "real option"
  coPhaseMode :: "string option"
  coPhaseSplitW :: "real option"
  coSitePhases :: "int option"

text \<open>\<open>v, _ := cmd[key].(float64)\<close>.\<close>

definition field :: "real option \<Rightarrow> real" where "field f = (case f of Some v \<Rightarrow> v | None \<Rightarrow> 0)"

definition coMode :: "chargeOrder \<Rightarrow> string" where
  "coMode cmd = (case coPhaseMode cmd of Some m \<Rightarrow> m | None \<Rightarrow> [])"

definition defaultPhaseSplitW :: real where "defaultPhaseSplitW = 3680"

definition phaseMinChargeW :: "'a chargerConfig_scheme \<Rightarrow> string \<Rightarrow> SiteFuse \<Rightarrow> real" where
  "phaseMinChargeW cfg mode site =
     (if fusePhases site \<noteq> 3 then ccMinChargeW cfg
      else if mode = ''1p'' \<or> mode = ''auto'' then max (ccMinChargeW cfg / 3) (6 * siteVoltage site)
      else if mode = ''3p'' then max (ccMinChargeW cfg) (18 * siteVoltage site)
      else ccMinChargeW cfg)"

definition manualMinChargeW :: "fuseCharger \<Rightarrow> ManualHoldPower \<Rightarrow> SiteFuse \<Rightarrow> real" where
  "manualMinChargeW cfg hold site =
     (let mode = (if mhPhaseMode hold = [] then ccPhaseMode cfg else mhPhaseMode hold)
      in if mode = ''1p'' \<or> mode = ''auto'' then phaseMinChargeW cfg mode site else ccMinChargeW cfg)"

definition applyInstallationLimits :: "SiteFuse \<Rightarrow> chargeOrder \<Rightarrow> chargeOrder" where
  "applyInstallationLimits site cmd =
     (let cmd = (if sfVoltage site > 0 then cmd\<lparr>coVoltage := Some (sfVoltage site)\<rparr> else cmd);
          cmd = (if sfPhaseCnt site > 0 then cmd\<lparr>coSitePhases := Some (fusePhases site)\<rparr> else cmd);
          cmd = (if fusePhases site = 1 then cmd\<lparr>coPhaseMode := Some ''1p''\<rparr> else cmd)
      in if sfMaxAmps site > 0 \<and> (field (coMaxAmps cmd) \<le> 0 \<or> field (coMaxAmps cmd) > sfMaxAmps site)
         then cmd\<lparr>coMaxAmps := Some (sfMaxAmps site)\<rparr> else cmd)"

definition chargerPhaseAmps :: "fuseCharger \<Rightarrow> real \<Rightarrow> real" where
  "chargerPhaseAmps cfg voltage =
     (let voltage = (if voltage \<le> 0 then 230 else voltage);
          split = (if fcPhaseSplitW cfg \<le> 0 then defaultPhaseSplitW else fcPhaseSplitW cfg);
          maxW = (if ccMaxChargeW cfg < 0 then 0 else ccMaxChargeW cfg)
      in max (maxW / (3 * voltage)) (split / voltage))"

definition applyChargerPhaseLimit :: "fuseCharger \<Rightarrow> SiteFuse \<Rightarrow> chargeOrder \<Rightarrow> chargeOrder" where
  "applyChargerPhaseLimit cfg site cmd =
     (if coMode cmd \<noteq> ''1p'' \<or> ccPhaseMode cfg = ''1p'' \<or> fusePhases site \<noteq> 3 then cmd
      else let a = chargerPhaseAmps cfg (sfVoltage site)
           in if a < 6 then cmd
              else if field (coMaxAmps cmd) \<le> 0 \<or> field (coMaxAmps cmd) > a then cmd\<lparr>coMaxAmps := Some a\<rparr>
              else cmd)"

text \<open>Where the ceiling takes an order to land: a switch to three phases needs 6 A on each.\<close>

definition ceilingPhases :: "real \<Rightarrow> real \<Rightarrow> string \<Rightarrow> real \<Rightarrow> real \<Rightarrow> nat" where
  "ceilingPhases v a mode split w =
     (let split = (if split \<le> 0 then v * a else split); split = (if split < 18 * v then 18 * v else split)
      in PhaseFor mode w split)"

definition applyCurrentCeiling :: "chargeOrder \<Rightarrow> bool \<times> chargeOrder" where
  "applyCurrentCeiling cmd =
     (let w = field (coPowerW cmd)
      in case coMaxAmps cmd of
           None \<Rightarrow> (False, cmd)
         | Some a \<Rightarrow>
             if w \<le> 0 then (False, cmd)
             else if a < 6 then (True, cmd\<lparr>coPowerW := Some 0\<rparr>)
             else let v = field (coVoltage cmd)
                  in if v \<le> 0 then (False, cmd)
                     else let limW = v * real (ceilingPhases v a (coMode cmd) (field (coPhaseSplitW cmd)) w) * of_int \<lfloor>a\<rfloor>
                          in if w > limW then (True, cmd\<lparr>coPowerW := Some limW\<rparr>) else (False, cmd))"

text \<open>\<open>for applyCurrentCeiling(cmd) {}\<close>: each turn that changes the order takes it under the next lower of the two ceilings.\<close>

definition ceilingRank :: "chargeOrder \<Rightarrow> nat" where
  "ceilingRank cmd =
     (let w = field (coPowerW cmd); a = field (coMaxAmps cmd); v = field (coVoltage cmd)
      in if w \<le> 0 then 0 else if a < 6 then 1
         else if w \<le> v * of_int \<lfloor>a\<rfloor> then 0 else if w \<le> v * 3 * of_int \<lfloor>a\<rfloor> then 1 else 2)"

lemma field_simps_order [simp]: "field (Some v) = v" "field None = 0"
  by (simp_all add: field_def)

lemma PhaseFor_cases: "PhaseFor mode w split = 1 \<or> PhaseFor mode w split = 3"
  by (simp add: PhaseFor_def)

lemma ceilingPhases_cases: "ceilingPhases v a mode split w = 1 \<or> ceilingPhases v a mode split w = 3"
  unfolding ceilingPhases_def Let_def by (rule PhaseFor_cases)

lemma ceiling_step:
  assumes "applyCurrentCeiling cmd = (True, cmd')"
  shows "ceilingRank cmd' < ceilingRank cmd"
proof -
  obtain a where a: "coMaxAmps cmd = Some a" using assms by (auto simp: applyCurrentCeiling_def Let_def split: option.splits)
  let ?w = "field (coPowerW cmd)" and ?v = "field (coVoltage cmd)"
  have w: "0 < ?w" using assms by (auto simp: applyCurrentCeiling_def Let_def a split: if_splits)
  show ?thesis
  proof (cases "a < 6")
    case True
    then show ?thesis using assms w by (simp add: applyCurrentCeiling_def ceilingRank_def Let_def a) auto
  next
    case False
    let ?p = "ceilingPhases ?v a (coMode cmd) (field (coPhaseSplitW cmd)) ?w"
    have v: "0 < ?v" and over: "?v * real ?p * of_int \<lfloor>a\<rfloor> < ?w" and cmd': "cmd' = cmd\<lparr>coPowerW := Some (?v * real ?p * of_int \<lfloor>a\<rfloor>)\<rparr>"
      using assms w False by (auto simp: applyCurrentCeiling_def Let_def a split: if_splits)
    have "(6 :: real) \<le> of_int \<lfloor>a\<rfloor>" using False by (simp add: le_floor_iff)
    then have pos: "0 < ?v * of_int \<lfloor>a\<rfloor>" "0 < of_int \<lfloor>a\<rfloor> * ?v" using v by simp_all
    from ceilingPhases_cases [of ?v a "coMode cmd" "field (coPhaseSplitW cmd)" ?w] show ?thesis
      using over pos w False by (auto simp: ceilingRank_def cmd' a Let_def mult.assoc)
  qed
qed

function currentCeilings :: "chargeOrder \<Rightarrow> chargeOrder" where
  "currentCeilings cmd = (case applyCurrentCeiling cmd of (changed, cmd') \<Rightarrow> if changed then currentCeilings cmd' else cmd')"
  by auto
termination
  by (relation "measure ceilingRank") (auto dest: ceiling_step [OF sym])

declare currentCeilings.simps [simp del]

definition manualAmps :: "ManualHoldPower \<Rightarrow> SiteFuse \<Rightarrow> real" where
  "manualAmps hold site =
     (let amps = mhMaxAmpsPerPhase hold
      in if sfMaxAmps site > 0 \<and> (amps \<le> 0 \<or> amps > sfMaxAmps site) then sfMaxAmps site else amps)"

definition manualMode :: "fuseCharger \<Rightarrow> ManualHoldPower \<Rightarrow> SiteFuse \<Rightarrow> string" where
  "manualMode cfg hold site =
     (let mode = (if mhPhaseMode hold = [] then ccPhaseMode cfg else mhPhaseMode hold)
      in if fusePhases site = 1 then ''1p'' else if mode = [] \<and> fcSurplusOnly cfg then ''auto'' else mode)"

definition clampManualPower :: "fuseCharger \<Rightarrow> ManualHoldPower \<Rightarrow> SiteFuse \<Rightarrow> real" where
  "clampManualPower cfg hold site =
     (let minimum = manualMinChargeW cfg hold site;
          w = floorChargeW (mhPowerW hold) minimum (ccMaxChargeW cfg) (ccAllowedStepsW cfg);
          amps = manualAmps hold site
      in if amps \<le> 0 then w
         else let voltage = (if sfVoltage site \<le> 0 then mhVoltage hold else sfVoltage site);
                  split = (if mhPhaseSplitW hold \<le> 0 then fcPhaseSplitW cfg else mhPhaseSplitW hold);
                  cmd = \<lparr>coPowerW = Some w, coMaxAmps = Some amps, coVoltage = Some voltage,
                         coPhaseMode = Some (manualMode cfg hold site), coPhaseSplitW = Some split, coSitePhases = None\<rparr>
              in floorChargeW (field (coPowerW (currentCeilings cmd))) minimum (ccMaxChargeW cfg) (ccAllowedStepsW cfg))"

section \<open>Phases of an order\<close>

record lastOrder =
  loKnown :: bool
  loW :: real
  loPhases :: int

definition noOrder :: lastOrder where "noOrder = \<lparr>loKnown = False, loW = 0, loPhases = 0\<rparr>"

text \<open>What the manager knows of the last orders, by loadpoint.\<close>

type_synonym orders = "(string, lastOrder) gomap"

definition lastOf :: "orders \<Rightarrow> string \<Rightarrow> lastOrder" where
  "lastOf m lp = (case mget m lp of Some st \<Rightarrow> st | None \<Rightarrow> noOrder)"

definition commandPhases :: "SiteFuse \<Rightarrow> string \<Rightarrow> real \<Rightarrow> real \<Rightarrow> nat" where
  "commandPhases site mode w split =
     (if fusePhases site = 1 then 1 else PhaseFor mode w (if split \<le> 0 then defaultPhaseSplitW else split))"

definition commandSplitW :: "ManualHoldPower option \<Rightarrow> fuseCharger \<Rightarrow> real" where
  "commandSplitW hold cfg =
     (case hold of Some h \<Rightarrow> if mhPhaseSplitW h > 0 then mhPhaseSplitW h else fcPhaseSplitW cfg | None \<Rightarrow> fcPhaseSplitW cfg)"

definition creditA :: "SiteFuse \<Rightarrow> orders \<Rightarrow> string \<Rightarrow> nat \<Rightarrow> real" where
  "creditA site m lp phases =
     (let st = lastOf m lp
      in if \<not> loKnown st \<or> loW st \<le> 0 \<or> sfVoltage site \<le> 0 \<or> (loPhases st \<noteq> 3 \<and> loPhases st \<noteq> int phases) then 0
         else loW st / (sfVoltage site * of_int (min (loPhases st) (fusePhases site))))"

definition phaseRiseA :: "SiteFuse \<Rightarrow> orders \<Rightarrow> string \<Rightarrow> string \<Rightarrow> real \<Rightarrow> real \<Rightarrow> real" where
  "phaseRiseA site m lp mode w split =
     (if w \<le> 0 \<or> sfVoltage site \<le> 0 then 0
      else let phases = commandPhases site mode w split
           in w / (sfVoltage site * real phases) - creditA site m lp phases)"

definition phaseRoomCapW :: "SiteFuse \<Rightarrow> orders \<Rightarrow> string \<Rightarrow> string \<Rightarrow> real \<Rightarrow> real \<Rightarrow> real \<Rightarrow> real" where
  "phaseRoomCapW site m lp mode wantW split roomA =
     (if sfVoltage site \<le> 0 then wantW
      else let roomA = max 0 roomA; phases = commandPhases site mode wantW split;
               capW = (creditA site m lp phases + roomA) * sfVoltage site * real phases;
               capW = (if phases = 3 \<and> commandPhases site mode capW split = 1
                       then min capW ((creditA site m lp 1 + roomA) * sfVoltage site) else capW);
               st = lastOf m lp
           in if mget m lp \<noteq> None \<and> loKnown st \<and> loPhases st > 0 \<and> loW st > capW
                 \<and> int (commandPhases site mode (min wantW (loW st)) split) = loPhases st
              then loW st else capW)"

section \<open>The split\<close>

record fuseRoom =
  rmW :: real
  rmPhaseA :: real
  rmPhaseKnown :: bool

record fuseRequest =
  frCfg :: fuseCharger
  frDeadline :: time
  frWantW :: real
  frGoal :: bool

abbreviation frID :: "fuseRequest \<Rightarrow> string" where "frID r \<equiv> fcID (frCfg r)"

definition fuseConfig :: "SiteFuse \<Rightarrow> fuseCharger \<Rightarrow> string \<Rightarrow> fuseCharger" where
  "fuseConfig site cfg phaseMode = cfg\<lparr>ccMinChargeW := phaseMinChargeW cfg phaseMode site\<rparr>"

definition FuseConfigs :: "SiteFuse \<Rightarrow> (string, string) gomap \<Rightarrow> fuseCharger list \<Rightarrow> fuseCharger list" where
  "FuseConfigs site choices configs =
     map (\<lambda>cfg. case mget choices (fcID cfg) of
            None \<Rightarrow> cfg
          | Some mode \<Rightarrow> if mode \<noteq> [] then (fuseConfig site cfg mode)\<lparr>ccPhaseMode := mode\<rparr> else cfg) configs"

definition fusePhase :: "string \<Rightarrow> string" where "fusePhase mode = (if mode = [] then ''3p'' else mode)"

definition requestBefore :: "fuseRequest \<Rightarrow> fuseRequest \<Rightarrow> bool" where
  "requestBefore a b =
     (if frGoal a \<noteq> frGoal b then frGoal a
      else if isZero (frDeadline a) \<noteq> isZero (frDeadline b) then \<not> isZero (frDeadline a)
      else if frDeadline a \<noteq> frDeadline b then frDeadline a < frDeadline b
      else frID a \<noteq> frID b \<and> lex_le (char_key (frID a)) (char_key (frID b)))"

text \<open>\<open>sort.SliceStable\<close>.\<close>

fun insertRequest :: "fuseRequest \<Rightarrow> fuseRequest list \<Rightarrow> fuseRequest list" where
  "insertRequest r [] = [r]"
| "insertRequest r (x # xs) = (if requestBefore x r then x # insertRequest r xs else r # x # xs)"

definition sortRequests :: "fuseRequest list \<Rightarrow> fuseRequest list" where
  "sortRequests rs = foldr insertRequest rs []"

text \<open>One turn of the loop over the requests: the power left, the room left on the busiest phase, what each got.\<close>

definition shareOne ::
  "SiteFuse \<Rightarrow> orders \<Rightarrow> (string \<Rightarrow> string) \<Rightarrow> (string \<Rightarrow> real) \<Rightarrow> bool \<Rightarrow> real \<Rightarrow> real \<Rightarrow> fuseRequest \<Rightarrow> real \<times> real" where
  "shareOne site m modeOf splitOf perPhase remaining roomA r =
     (let want = min (frWantW r) remaining; mode = modeOf (frID r); split = splitOf (frID r);
          want = (if perPhase then min want (phaseRoomCapW site m (frID r) mode want split roomA) else want);
          capW = floorChargeW want (ccMinChargeW (frCfg r)) (ccMaxChargeW (frCfg r)) (ccAllowedStepsW (frCfg r))
      in (capW, if perPhase then max 0 (phaseRiseA site m (frID r) mode capW split) else 0))"

fun shareAll ::
  "SiteFuse \<Rightarrow> orders \<Rightarrow> (string \<Rightarrow> string) \<Rightarrow> (string \<Rightarrow> real) \<Rightarrow> bool \<Rightarrow> real \<Rightarrow> real \<Rightarrow> fuseRequest list
     \<Rightarrow> (string \<times> fuseRoom) list \<times> real \<times> real" where
  "shareAll site m modeOf splitOf perPhase remaining roomA [] = ([], remaining, roomA)"
| "shareAll site m modeOf splitOf perPhase remaining roomA (r # rs) =
     (let (capW, riseA) = shareOne site m modeOf splitOf perPhase remaining roomA r;
          (rooms, rest) = shareAll site m modeOf splitOf perPhase (remaining - capW) (roomA - riseA) rs
      in ((frID r, \<lparr>rmW = capW, rmPhaseA = riseA, rmPhaseKnown = perPhase\<rparr>) # rooms, rest))"

text \<open>What no charger took goes to the first one with a share.\<close>

fun giveRest :: "real \<Rightarrow> real \<Rightarrow> (string \<times> fuseRoom) list \<Rightarrow> (string \<times> fuseRoom) list" where
  "giveRest remaining roomA [] = []"
| "giveRest remaining roomA ((lp, room) # rooms) =
     (if rmW room \<le> 0 then (lp, room) # giveRest remaining roomA rooms
      else (lp, room\<lparr>rmW := rmW room + max 0 remaining, rmPhaseA := rmPhaseA room + max 0 roomA\<rparr>) # rooms)"

record tickFuse =
  tfCaps :: "(string, real) gomap"
  tfRooms :: "(string, fuseRoom) gomap"

text \<open>The limit to split; \<open>None\<close> when there is none.\<close>

definition evLimit :: "(f64 \<times> bool) option \<Rightarrow> real option" where
  "evLimit fuseEVMax =
     (case fuseEVMax of
        None \<Rightarrow> None
      | Some (limW, ok) \<Rightarrow>
          if \<not> ok \<or> limW < Fin 0 then None else Some (if isFinite limW then fval limW else 0))"

text \<open>The budget of a tick from its requests. Loadpoints have distinct names, so the maps are lists in the order of the claims.\<close>

definition splitFuseBudget ::
  "SiteFuse \<Rightarrow> orders \<Rightarrow> (string \<Rightarrow> string) \<Rightarrow> (string \<Rightarrow> real) \<Rightarrow> (f64 \<times> bool) option \<Rightarrow> (f64 \<times> bool) option
     \<Rightarrow> fuseRequest list \<Rightarrow> tickFuse option" where
  "splitFuseBudget site m modeOf splitOf fuseEVMax fusePhaseRoomA requests =
     (case evLimit fuseEVMax of
        None \<Rightarrow> None
      | Some limW \<Rightarrow>
          let (roomA, perPhase) =
                (case fusePhaseRoomA of Some (a, known) \<Rightarrow> (a, known \<and> isFinite a) | None \<Rightarrow> (Fin 0, False));
              (rooms, remaining, roomA) =
                shareAll site m modeOf splitOf perPhase limW (fval roomA) (sortRequests requests)
          in Some \<lparr>tfCaps = map (\<lambda>(lp, room). (lp, rmW room)) rooms, tfRooms = giveRest remaining roomA rooms\<rparr>)"

definition fuseCapFor :: "tickFuse option \<Rightarrow> bool \<Rightarrow> (f64 \<times> bool) option \<Rightarrow> string \<Rightarrow> f64 \<times> bool" where
  "fuseCapFor tf tickDirectiveActive fuseEVMax lp =
     (case tf of
        Some t \<Rightarrow> (Fin (case mget (tfCaps t) lp of Some w \<Rightarrow> w | None \<Rightarrow> 0), True)
      | None \<Rightarrow> if tickDirectiveActive then (Fin 0, False)
                else case fuseEVMax of Some r \<Rightarrow> r | None \<Rightarrow> (Fin 0, False))"

section \<open>The passes of an order\<close>

definition applyFuseClamp ::
  "SiteFuse \<Rightarrow> tickFuse option \<Rightarrow> bool \<Rightarrow> (f64 \<times> bool) option \<Rightarrow> fuseCharger \<Rightarrow> real \<Rightarrow> string \<Rightarrow> real" where
  "applyFuseClamp site tf active fuseEVMax cfg wantW phaseMode =
     (let cfg = fuseConfig site cfg phaseMode
      in case fuseEVMax of
           None \<Rightarrow> wantW
         | Some _ \<Rightarrow>
             case fuseCapFor tf active fuseEVMax (fcID cfg) of (limW, ok) \<Rightarrow>
               if \<not> ok \<or> limW < Fin 0 then wantW
               else let capW = (if isFinite limW then fval limW else 0)
                    in if wantW \<le> capW then wantW
                       else let snapped = floorChargeW capW (ccMinChargeW cfg) (ccMaxChargeW cfg) (ccAllowedStepsW cfg)
                            in if snapped > 0 \<and> snapped \<ge> ccMinChargeW cfg then snapped else 0)"

record lpFuseDemand =
  cdDriver :: string
  cdPowerW :: real
  cdPhaseMode :: string

fun mergeDemand :: "string \<Rightarrow> real \<Rightarrow> string \<Rightarrow> lpFuseDemand list \<Rightarrow> lpFuseDemand list" where
  "mergeDemand driver powerW phaseMode [] = [\<lparr>cdDriver = driver, cdPowerW = powerW, cdPhaseMode = phaseMode\<rparr>]"
| "mergeDemand driver powerW phaseMode (d # ds) =
     (if cdDriver d = driver
      then d\<lparr>cdPowerW := max (cdPowerW d) powerW, cdPhaseMode := (if cdPhaseMode d \<noteq> phaseMode then ''auto'' else cdPhaseMode d)\<rparr> # ds
      else d # mergeDemand driver powerW phaseMode ds)"

definition recordFuseDemand :: "string \<Rightarrow> real \<Rightarrow> string \<Rightarrow> lpFuseDemand list \<Rightarrow> lpFuseDemand list" where
  "recordFuseDemand driver powerW phaseMode ds =
     (if driver = [] \<or> powerW \<le> 0 then ds
      else mergeDemand driver powerW
             (if phaseMode = [] then ''3p'' else if phaseMode \<noteq> ''1p'' \<and> phaseMode \<noteq> ''3p'' then ''auto'' else phaseMode) ds)"

text \<open>From the built order to the one that is sent, with the demand it leaves for the fuse. \<open>fallback\<close> says that the directive
  of the tick reserves for this loadpoint, \<open>choiceMode\<close> is the phase mode the budget was split with. The texts that
  explain a limit are left out.\<close>

definition finishOrder ::
  "SiteFuse \<Rightarrow> tickFuse option \<Rightarrow> bool \<Rightarrow> (f64 \<times> bool) option \<Rightarrow> bool \<Rightarrow> string \<Rightarrow> fuseCharger \<Rightarrow> string \<Rightarrow> chargeOrder
     \<Rightarrow> lpFuseDemand list \<Rightarrow> chargeOrder \<times> lpFuseDemand list" where
  "finishOrder site tf active fuseEVMax fallback driver cfg choiceMode cmd ds =
     (let cmd = applyInstallationLimits site cmd;
          cmd = applyChargerPhaseLimit cfg site cmd;
          cmd = snd (applyCurrentCeiling cmd);
          (cmd, ds) =
            (case coPowerW cmd of
               None \<Rightarrow> (cmd, ds)
             | Some wantW \<Rightarrow>
                 let ds = recordFuseDemand driver wantW (coMode cmd) ds;
                     wantW = (if fallback then (case fuseCapFor tf active fuseEVMax (fcID cfg) of (limW, known) \<Rightarrow>
                                if \<not> known \<or> \<not> isFinite limW \<or> limW < Fin 0 then 0 else wantW) else wantW)
                 in (cmd\<lparr>coPowerW := Some (applyFuseClamp site tf active fuseEVMax cfg wantW (coMode cmd))\<rparr>, ds));
          cmd = (case coPowerW cmd of
                   Some w \<Rightarrow> if w > 0 \<and> tf \<noteq> None \<and> fusePhase (coMode cmd) \<noteq> fusePhase choiceMode
                             then cmd\<lparr>coPowerW := Some 0\<rparr> else cmd
                 | None \<Rightarrow> cmd)
      in (snd (applyCurrentCeiling cmd), ds))"

definition capAmpsPerPhase :: "SiteFuse \<Rightarrow> orders \<Rightarrow> tickFuse option \<Rightarrow> fuseCharger \<Rightarrow> chargeOrder \<Rightarrow> real option" where
  "capAmpsPerPhase site m tf cfg cmd =
     (let w = field (coPowerW cmd); v = field (coVoltage cmd)
      in case Option.bind tf (\<lambda>t. mget (tfRooms t) (fcID cfg)) of
           None \<Rightarrow> None
         | Some room \<Rightarrow>
             if w \<le> 0 \<or> v \<le> 0 then None
             else let phases = commandPhases site (coMode cmd) w (field (coPhaseSplitW cmd));
                      capA = rmW room / (v * real phases);
                      capA = (if rmPhaseKnown room then min capA (creditA site m (fcID cfg) phases + rmPhaseA room) else capA);
                      capA = (if ccMaxChargeW cfg > 0 then min capA (ccMaxChargeW cfg / (v * real phases)) else capA);
                      capA = of_int \<lfloor>max 0 capA * 100 + 1/1000000\<rfloor> / 100
                  in Some (case coMaxAmps cmd of Some limA \<Rightarrow> if limA > 0 then min capA limA else capA | None \<Rightarrow> capA))"

section \<open>Shares\<close>

lemma floorChargeW_bounds:
  shows "0 \<le> floorChargeW want minW maxW steps" "floorChargeW want minW maxW steps \<le> max 0 want"
proof -
  show nonneg: "0 \<le> floorChargeW want minW maxW steps"
    using floor_fold_facts [where steps = steps and b = 0] by (auto simp: floorChargeW_def Let_def)
  show "floorChargeW want minW maxW steps \<le> max 0 want"
    using floorChargeW_ceiling(2) [of want minW maxW steps, OF refl] nonneg
    by (cases "floorChargeW want minW maxW steps = 0") (auto simp: max_def)
qed

lemma shareOne_bounds:
  assumes "shareOne site m modeOf splitOf perPhase remaining roomA r = (capW, riseA)" "0 \<le> remaining"
  shows "0 \<le> capW" "capW \<le> remaining" "capW \<le> max 0 (frWantW r)" "0 \<le> riseA"
proof -
  define w where "w = (let want = min (frWantW r) remaining
    in if perPhase then min want (phaseRoomCapW site m (frID r) (modeOf (frID r)) want (splitOf (frID r)) roomA) else want)"
  have c: "capW = floorChargeW w (ccMinChargeW (frCfg r)) (ccMaxChargeW (frCfg r)) (ccAllowedStepsW (frCfg r))" and rise: "0 \<le> riseA"
    using assms(1) by (auto simp: shareOne_def Let_def w_def)
  have "w \<le> min (frWantW r) remaining" by (auto simp: w_def Let_def min_def)
  then show "0 \<le> capW" "capW \<le> remaining" "capW \<le> max 0 (frWantW r)" "0 \<le> riseA"
    using floorChargeW_bounds [of w "ccMinChargeW (frCfg r)" "ccMaxChargeW (frCfg r)" "ccAllowedStepsW (frCfg r)"] assms(2) c rise
    by auto
qed

definition roomsW :: "(string \<times> fuseRoom) list \<Rightarrow> real" where "roomsW rooms = (\<Sum>r\<leftarrow>rooms. rmW (snd r))"
definition roomsA :: "(string \<times> fuseRoom) list \<Rightarrow> real" where "roomsA rooms = (\<Sum>r\<leftarrow>rooms. rmPhaseA (snd r))"

lemma rooms_simps [simp]:
  "roomsW [] = 0" "roomsA [] = 0" "roomsW (r # rs) = rmW (snd r) + roomsW rs" "roomsA (r # rs) = rmPhaseA (snd r) + roomsA rs"
  by (simp_all add: roomsW_def roomsA_def)

lemma shareAll_facts:
  assumes "shareAll site m modeOf splitOf perPhase remaining roomA rs = (rooms, remaining', roomA')" "0 \<le> remaining"
  shows "map fst rooms = map frID rs \<and> (\<forall>r \<in> set rooms. 0 \<le> rmW (snd r) \<and> 0 \<le> rmPhaseA (snd r))
    \<and> 0 \<le> remaining' \<and> roomsW rooms + remaining' = remaining \<and> roomsA rooms + roomA' = roomA"
  using assms
proof (induction rs arbitrary: remaining roomA rooms)
  case (Cons r rs)
  obtain capW riseA where o: "shareOne site m modeOf splitOf perPhase remaining roomA r = (capW, riseA)" by force
  obtain rest where t: "shareAll site m modeOf splitOf perPhase (remaining - capW) (roomA - riseA) rs = (rest, remaining', roomA')"
    and rooms: "rooms = (frID r, \<lparr>rmW = capW, rmPhaseA = riseA, rmPhaseKnown = perPhase\<rparr>) # rest"
    using Cons.prems(1) by (auto simp: o split: prod.splits)
  have "0 \<le> remaining - capW" using shareOne_bounds(2) [OF o Cons.prems(2)] by simp
  from Cons.IH [OF t this] shareOne_bounds(1,4) [OF o Cons.prems(2)] show ?case by (auto simp: rooms)
qed auto

lemma giveRest_facts:
  assumes "\<forall>r \<in> set rooms. 0 \<le> rmW (snd r) \<and> 0 \<le> rmPhaseA (snd r)" "0 \<le> remaining"
  shows "map fst (giveRest remaining roomA rooms) = map fst rooms \<and> roomsW (giveRest remaining roomA rooms) \<le> roomsW rooms + remaining
    \<and> roomsA (giveRest remaining roomA rooms) \<le> roomsA rooms + max 0 roomA"
  using assms by (induction rooms) (auto simp: max_def)

lemma insertRequest_mset: "mset (insertRequest r rs) = add_mset r (mset rs)"
  by (induction rs) auto

lemma sortRequests_mset: "mset (sortRequests rs) = mset rs"
  unfolding sortRequests_def by (induction rs) (auto simp: insertRequest_mset)

lemma sortRequests_ids: "distinct (map frID rs) \<Longrightarrow> distinct (map frID (sortRequests rs))"
  using mset_eq_imp_distinct_iff [of "map frID (sortRequests rs)" "map frID rs"] sortRequests_mset [of rs] by simp

section \<open>The busiest phase\<close>

lemma commandPhases_cases: "commandPhases site mode w split = 1 \<or> commandPhases site mode w split = 3"
  by (simp add: commandPhases_def PhaseFor_def)

lemma commandPhases_mono: "w \<le> w' \<Longrightarrow> commandPhases site mode w' split = 1 \<Longrightarrow> commandPhases site mode w split = 1"
  by (auto simp: commandPhases_def PhaseFor_def split: if_splits)

lemma rise_same_phases:
  assumes "commandPhases site mode w split = commandPhases site mode w' split" "0 < w" "w \<le> w'"
  shows "phaseRiseA site m lp mode w split \<le> phaseRiseA site m lp mode w' split"
  using assms commandPhases_cases [of site mode w' split]
  by (auto simp: phaseRiseA_def Let_def divide_right_mono)

text \<open>A wish within the room cap rises no phase beyond the room.\<close>

lemma capped_wish_fits_room:
  assumes "0 < w" "w = min want (phaseRoomCapW site m lp mode want split roomA)"
  shows "phaseRiseA site m lp mode w split \<le> max 0 roomA"
proof (cases "sfVoltage site \<le> 0")
  case True
  then show ?thesis by (simp add: phaseRiseA_def)
next
  case False
  then have V: "0 < sfVoltage site" by simp
  let ?r = "max 0 roomA" and ?ph = "\<lambda>w. commandPhases site mode w split"
  define p where "p = ?ph want"
  have p: "p = 1 \<or> p = 3" unfolding p_def by (rule commandPhases_cases)
  have pw: "?ph w = 1" if "p = 1" using commandPhases_mono [of w want] assms(2) that by (simp add: p_def)
  have rise: "phaseRiseA site m lp mode w split = w / (sfVoltage site * real (?ph w)) - creditA site m lp (?ph w)"
    using V assms(1) by (simp add: phaseRiseA_def Let_def)
  define c3 where "c3 = (creditA site m lp p + ?r) * sfVoltage site * real p"
  define capW where "capW = (if p = 3 \<and> ?ph c3 = 1 then min c3 ((creditA site m lp 1 + ?r) * sfVoltage site) else c3)"
  have D: "0 < sfVoltage site * real (?ph w)" using V commandPhases_cases [of site mode w split] by auto
  have fit: ?thesis if "w \<le> (creditA site m lp (?ph w) + ?r) * sfVoltage site * real (?ph w)"
  proof -
    have "w / (sfVoltage site * real (?ph w)) \<le> creditA site m lp (?ph w) + ?r"
      using that by (simp only: pos_divide_le_eq [OF D] mult.assoc)
    then show ?thesis by (simp add: rise)
  qed
  show ?thesis
  proof (cases "phaseRoomCapW site m lp mode want split roomA = capW")
    case True
    then have le: "w \<le> capW" "w \<le> want" using assms(2) by auto
    show ?thesis
    proof (cases "?ph w = p")
      case True
      have "capW \<le> c3" by (simp add: capW_def)
      with le show ?thesis by (intro fit) (simp add: True c3_def)
    next
      case False
      then have w1: "?ph w = 1" "p = 3" using p pw commandPhases_cases [of site mode w split] by auto
      have "w \<noteq> want" using False by (auto simp: p_def)
      then have eq: "w = capW" using assms(2) True by (auto simp: min_def split: if_splits)
      have "?ph c3 = 1"
      proof (rule ccontr)
        assume "?ph c3 \<noteq> 1"
        then have "capW = c3" by (simp add: capW_def)
        then show False using eq w1 \<open>?ph c3 \<noteq> 1\<close> by simp
      qed
      then have "w \<le> (creditA site m lp 1 + ?r) * sfVoltage site" using eq w1 by (simp add: capW_def)
      then show ?thesis by (intro fit) (simp add: w1)
    qed
  next
    case False
    let ?st = "lastOf m lp"
    have room: "phaseRoomCapW site m lp mode want split roomA =
        (if mget m lp \<noteq> None \<and> loKnown ?st \<and> loPhases ?st > 0 \<and> loW ?st > capW
            \<and> int (?ph (min want (loW ?st))) = loPhases ?st then loW ?st else capW)"
      unfolding phaseRoomCapW_def Let_def capW_def c3_def p_def using V by (simp only: not_le [symmetric] if_False)
    have kept: "phaseRoomCapW site m lp mode want split roomA = loW ?st" "loKnown ?st" "loPhases ?st > 0"
      "int (?ph (min want (loW ?st))) = loPhases ?st"
      using False unfolding room by presburger+
    then have w: "w = min want (loW ?st)" "loPhases ?st = int (?ph w)" using assms(2) by simp_all
    have q: "0 < min (loPhases ?st) (fusePhases site)" "min (loPhases ?st) (fusePhases site) \<le> int (?ph w)"
      using kept(3) w(2) by (auto simp: fusePhases_def)
    have "creditA site m lp (?ph w) = loW ?st / (sfVoltage site * of_int (min (loPhases ?st) (fusePhases site)))"
      using kept(2) w assms(1) V by (simp add: creditA_def Let_def)
    also have "\<dots> \<ge> loW ?st / (sfVoltage site * real (?ph w))"
    proof (rule divide_left_mono)
      have "of_int (min (loPhases ?st) (fusePhases site)) \<le> real (?ph w)"
        using q(2) by (metis of_int_le_iff of_int_of_nat_eq)
      then show "sfVoltage site * of_int (min (loPhases ?st) (fusePhases site)) \<le> sfVoltage site * real (?ph w)"
        using V by (simp add: mult_left_mono)
      show "0 \<le> loW ?st" using w(1) assms(1) by simp
      show "0 < sfVoltage site * real (?ph w) * (sfVoltage site * of_int (min (loPhases ?st) (fusePhases site)))"
        using V q w(2) by (intro mult_pos_pos) (auto simp: of_nat_0_less_iff)
    qed
    finally have "w / (sfVoltage site * real (?ph w)) \<le> creditA site m lp (?ph w)"
      using divide_right_mono [of w "loW ?st" "sfVoltage site * real (?ph w)"] w(1) V by simp
    then show ?thesis by (simp add: rise)
  qed
qed

text \<open>When snapping to a step cannot move an order from three phases to one: the mode names the phases, or the site has
  one, or the split itself can be ordered.\<close>

definition stepsKeepPhases :: "SiteFuse \<Rightarrow> string \<Rightarrow> real \<Rightarrow> fuseCharger \<Rightarrow> bool" where
  "stepsKeepPhases site mode split cfg =
     (let split = (if split \<le> 0 then defaultPhaseSplitW else split)
      in mode \<noteq> ''auto'' \<or> fusePhases site = 1
         \<or> ((ccMaxChargeW cfg \<le> 0 \<or> split \<le> ccMaxChargeW cfg)
            \<and> (ccAllowedStepsW cfg = [] \<or> split \<in> set (ccAllowedStepsW cfg) \<and> ccMinChargeW cfg \<le> split)))"

lemma snap_keeps_phases:
  assumes "stepsKeepPhases site mode split cfg"
    and "r = floorChargeW want (ccMinChargeW cfg) (ccMaxChargeW cfg) (ccAllowedStepsW cfg)" "0 < r"
  shows "commandPhases site mode r split = commandPhases site mode want split"
proof (cases "mode \<noteq> ''auto'' \<or> fusePhases site = 1")
  case True
  then show ?thesis by (auto simp: commandPhases_def PhaseFor_def)
next
  case False
  define sp where "sp = (if split \<le> 0 then defaultPhaseSplitW else split)"
  have k: "ccMaxChargeW cfg \<le> 0 \<or> sp \<le> ccMaxChargeW cfg"
    "ccAllowedStepsW cfg = [] \<or> sp \<in> set (ccAllowedStepsW cfg) \<and> ccMinChargeW cfg \<le> sp"
    using assms(1) False by (auto simp: stepsKeepPhases_def sp_def Let_def)
  note c = floorChargeW_ceiling [OF assms(2) [symmetric] assms(3)]
  have "sp \<le> r" if "sp \<le> want"
  proof (cases "ccAllowedStepsW cfg = []")
    case True
    then show ?thesis using that k(1) assms(2,3) by (auto simp: floorChargeW_def Let_def split: if_splits)
  next
    case False
    then show ?thesis using c(5) [of sp] k that by simp
  qed
  then have "r < sp \<longleftrightarrow> want < sp" using c(2) by linarith
  then show ?thesis using False by (simp add: commandPhases_def PhaseFor_def sp_def)
qed

lemma shareOne_rise:
  assumes "shareOne site m modeOf splitOf True remaining roomA r = (capW, riseA)"
    and "stepsKeepPhases site (modeOf (frID r)) (splitOf (frID r)) (frCfg r)"
  shows "riseA \<le> max 0 roomA"
proof -
  let ?mode = "modeOf (frID r)" and ?split = "splitOf (frID r)" and ?want = "min (frWantW r) remaining"
  define w where "w = min ?want (phaseRoomCapW site m (frID r) ?mode ?want ?split roomA)"
  have c: "capW = floorChargeW w (ccMinChargeW (frCfg r)) (ccMaxChargeW (frCfg r)) (ccAllowedStepsW (frCfg r))"
    and rise: "riseA = max 0 (phaseRiseA site m (frID r) ?mode capW ?split)"
    using assms(1) by (auto simp: shareOne_def Let_def w_def)
  have "phaseRiseA site m (frID r) ?mode capW ?split \<le> max 0 roomA"
  proof (cases "0 < capW")
    case True
    have le: "capW \<le> w" using floorChargeW_ceiling(2) [OF c [symmetric] True] .
    have "phaseRiseA site m (frID r) ?mode capW ?split \<le> phaseRiseA site m (frID r) ?mode w ?split"
      by (rule rise_same_phases) (use snap_keeps_phases [OF assms(2) c True] True le in simp_all)
    also have "\<dots> \<le> max 0 roomA" by (rule capped_wish_fits_room) (use True le in simp, rule w_def)
    finally show ?thesis .
  qed (simp add: phaseRiseA_def)
  then show ?thesis by (simp add: rise)
qed

lemma shareAll_phase:
  assumes "shareAll site m modeOf splitOf True remaining roomA rs = (rooms, remaining', roomA')"
    and "\<forall>r \<in> set rs. stepsKeepPhases site (modeOf (frID r)) (splitOf (frID r)) (frCfg r)" "0 \<le> remaining"
  shows "roomsA rooms + max 0 roomA' \<le> max 0 roomA"
  using assms
proof (induction rs arbitrary: remaining roomA rooms)
  case (Cons r rs)
  obtain capW riseA where o: "shareOne site m modeOf splitOf True remaining roomA r = (capW, riseA)" by force
  obtain rest where t: "shareAll site m modeOf splitOf True (remaining - capW) (roomA - riseA) rs = (rest, remaining', roomA')"
    and rooms: "rooms = (frID r, \<lparr>rmW = capW, rmPhaseA = riseA, rmPhaseKnown = True\<rparr>) # rest"
    using Cons.prems(1) by (auto simp: o split: prod.splits)
  note b = shareOne_bounds [OF o Cons.prems(3)]
  have "riseA \<le> max 0 roomA" using shareOne_rise [OF o] Cons.prems(2) by simp
  moreover have "roomsA rest + max 0 roomA' \<le> max 0 (roomA - riseA)"
    using Cons.IH [OF t] Cons.prems(2) b(2) by simp
  ultimately show ?case using b(4) by (simp add: rooms max_def split: if_splits)
qed simp

section \<open>Orders\<close>

lemma ceiling_keeps:
  "coMaxAmps (snd (applyCurrentCeiling cmd)) = coMaxAmps cmd" "coVoltage (snd (applyCurrentCeiling cmd)) = coVoltage cmd"
  "coPhaseMode (snd (applyCurrentCeiling cmd)) = coPhaseMode cmd" "coPhaseSplitW (snd (applyCurrentCeiling cmd)) = coPhaseSplitW cmd"
  "coMode (snd (applyCurrentCeiling cmd)) = coMode cmd"
  by (auto simp: applyCurrentCeiling_def Let_def coMode_def split: option.splits)

lemma ceiling_lowers: "field (coPowerW (snd (applyCurrentCeiling cmd))) \<le> field (coPowerW cmd)"
  by (auto simp: applyCurrentCeiling_def Let_def split: option.splits)

text \<open>One pass brings an order under the ceiling of three phases, and under its own once it is there.\<close>

lemma ceiling_once:
  assumes "coMaxAmps cmd = Some a" "0 < field (coVoltage cmd)" "0 < field (coPowerW (snd (applyCurrentCeiling cmd)))"
  shows "6 \<le> a" "field (coPowerW (snd (applyCurrentCeiling cmd))) \<le> field (coVoltage cmd) * 3 * of_int \<lfloor>a\<rfloor>"
proof -
  let ?w = "field (coPowerW cmd)" and ?v = "field (coVoltage cmd)"
  let ?p = "ceilingPhases ?v a (coMode cmd) (field (coPhaseSplitW cmd)) ?w"
  have w: "0 < ?w" using assms(3) ceiling_lowers [of cmd] by linarith
  show a6: "6 \<le> a" using assms(1,3) w by (auto simp: applyCurrentCeiling_def Let_def split: if_splits)
  then have "0 \<le> ?v * of_int \<lfloor>a\<rfloor>" using assms(2) by simp
  moreover have "field (coPowerW (snd (applyCurrentCeiling cmd))) \<le> ?v * real ?p * of_int \<lfloor>a\<rfloor>"
    using assms w a6 by (auto simp: applyCurrentCeiling_def Let_def)
  ultimately show "field (coPowerW (snd (applyCurrentCeiling cmd))) \<le> ?v * 3 * of_int \<lfloor>a\<rfloor>"
    using ceilingPhases_cases [of ?v a "coMode cmd" "field (coPhaseSplitW cmd)" ?w] by auto
qed

lemma ceilingPhases_mono: "w \<le> w' \<Longrightarrow> ceilingPhases v a mode split w' = 1 \<Longrightarrow> ceilingPhases v a mode split w = 1"
  by (auto simp: ceilingPhases_def PhaseFor_def Let_def split: if_splits)

text \<open>A second pass on an order that is under the ceiling of three phases settles it, whatever phases it lands on.\<close>

lemma ceiling_twice:
  assumes "coMaxAmps cmd = Some a" "0 < field (coVoltage cmd)" "0 < field (coPowerW (snd (applyCurrentCeiling cmd)))"
    and "field (coPowerW cmd) \<le> field (coVoltage cmd) * 3 * of_int \<lfloor>a\<rfloor>"
  shows "let w = field (coPowerW (snd (applyCurrentCeiling cmd)))
    in w \<le> field (coVoltage cmd) * real (ceilingPhases (field (coVoltage cmd)) a (coMode cmd) (field (coPhaseSplitW cmd)) w) * of_int \<lfloor>a\<rfloor>"
proof -
  let ?w = "field (coPowerW cmd)" and ?v = "field (coVoltage cmd)"
  let ?ph = "ceilingPhases ?v a (coMode cmd) (field (coPhaseSplitW cmd))"
  have w: "0 < ?w" using assms(3) ceiling_lowers [of cmd] by linarith
  have a6: "6 \<le> a" by (rule ceiling_once(1) [OF assms(1-3)])
  have r: "field (coPowerW (snd (applyCurrentCeiling cmd))) = min ?w (?v * real (?ph ?w) * of_int \<lfloor>a\<rfloor>)"
    using assms(1,2) w a6 by (auto simp: applyCurrentCeiling_def Let_def)
  show ?thesis
  proof (cases "?ph ?w = 3")
    case True
    then have "field (coPowerW (snd (applyCurrentCeiling cmd))) = ?w" using assms(4) by (simp add: r)
    then show ?thesis using True assms(4) by (simp add: Let_def)
  next
    case False
    then have one: "?ph ?w = 1" using ceilingPhases_cases [of ?v a "coMode cmd" "field (coPhaseSplitW cmd)" ?w] by simp
    have "?ph (min ?w (?v * real (?ph ?w) * of_int \<lfloor>a\<rfloor>)) = 1" by (rule ceilingPhases_mono [OF min.cobounded1 one])
    then show ?thesis unfolding r Let_def using one by simp
  qed
qed

lemma fuse_clamp_cases:
  "applyFuseClamp site tf active evMax cfg w mode \<in> {w, 0}
   \<or> (\<exists>c lo hi st. \<not> w \<le> c \<and> applyFuseClamp site tf active evMax cfg w mode = floorChargeW c lo hi st)"
  unfolding applyFuseClamp_def Let_def
  by (cases evMax; cases "fuseCapFor tf active evMax (fcID (fuseConfig site cfg mode))") (simp split: if_split; blast)+

lemma fuse_clamp_lowers: "applyFuseClamp site tf active evMax cfg w mode \<le> max 0 w"
proof -
  have "floorChargeW c lo hi st \<le> max 0 w" if "\<not> w \<le> c" for c lo hi st
    using floorChargeW_bounds(2) [of c lo hi st] that by linarith
  with fuse_clamp_cases [of site tf active evMax cfg w mode] show ?thesis by auto
qed

definition capOf :: "tickFuse \<Rightarrow> string \<Rightarrow> real" where
  "capOf t lp = (case mget (tfCaps t) lp of Some w \<Rightarrow> w | None \<Rightarrow> 0)"

lemma fuse_clamp_capped:
  assumes "0 \<le> capOf t (fcID cfg)"
  shows "applyFuseClamp site (Some t) active (Some ev) cfg w mode \<le> capOf t (fcID cfg)"
proof -
  have i: "fcID (fuseConfig site cfg mode) = fcID cfg" by (simp add: fuseConfig_def)
  have c: "fuseCapFor (Some t) active (Some ev) (fcID cfg) = (Fin (capOf t (fcID cfg)), True)"
    by (simp add: fuseCapFor_def capOf_def)
  have f: "floorChargeW (capOf t (fcID cfg)) lo hi st \<le> capOf t (fcID cfg)" for lo hi st
    using floorChargeW_bounds(2) [of "capOf t (fcID cfg)" lo hi st] assms by simp
  show ?thesis using assms f by (simp add: applyFuseClamp_def i c Let_def f64_simps less_f64_def)
qed

text \<open>The middle of the passes: the clamp to the share and the check of the phases.\<close>

lemma finishOrder_shape:
  assumes "fst (finishOrder site tf active evMax fallback driver cfg choiceMode cmd ds) = out"
  obtains c mid where "c = snd (applyCurrentCeiling (applyChargerPhaseLimit cfg site (applyInstallationLimits site cmd)))"
    and "out = snd (applyCurrentCeiling mid)" and "coMaxAmps mid = coMaxAmps c" "coVoltage mid = coVoltage c"
    "coPhaseMode mid = coPhaseMode c" "coPhaseSplitW mid = coPhaseSplitW c"
    and "field (coPowerW mid) \<le> max 0 (field (coPowerW c))"
    and "\<forall>t ev. tf = Some t \<and> evMax = Some ev \<and> 0 \<le> capOf t (fcID cfg) \<longrightarrow> field (coPowerW mid) \<le> capOf t (fcID cfg)"
proof -
  define c where "c = snd (applyCurrentCeiling (applyChargerPhaseLimit cfg site (applyInstallationLimits site cmd)))"
  show thesis
  proof (cases "coPowerW c")
    case None
    have "out = snd (applyCurrentCeiling c)" using assms by (simp add: finishOrder_def Let_def c_def [symmetric] None)
    then show thesis by (rule that [OF c_def]) (simp_all add: None)
  next
    case (Some w0)
    define w1 where "w1 = (if fallback then (case fuseCapFor tf active evMax (fcID cfg) of (limW, known) \<Rightarrow>
        if \<not> known \<or> \<not> isFinite limW \<or> limW < Fin 0 then 0 else w0) else w0)"
    define w2 where "w2 = applyFuseClamp site tf active evMax cfg w1 (coMode c)"
    define w3 where "w3 = (if w2 > 0 \<and> tf \<noteq> None \<and> fusePhase (coMode c) \<noteq> fusePhase choiceMode then 0 else w2)"
    have "w1 \<le> max 0 w0" by (auto simp: w1_def split: prod.splits)
    with fuse_clamp_lowers [of site tf active evMax cfg w1 "coMode c"] have "w2 \<le> max 0 w0" by (simp add: w2_def)
    then have low: "w3 \<le> max 0 w0" by (simp add: w3_def)
    have cap: "w3 \<le> capOf t (fcID cfg)" if "tf = Some t" "evMax = Some ev" "0 \<le> capOf t (fcID cfg)" for t ev
      using fuse_clamp_capped [OF that(3), of site active ev w1 "coMode c"] that by (simp add: w3_def w2_def)
    have "coMode (c\<lparr>coPowerW := Some w2\<rparr>) = coMode c" by (simp add: coMode_def)
    then have "out = snd (applyCurrentCeiling (c\<lparr>coPowerW := Some w3\<rparr>))"
      using assms
      by (auto simp: finishOrder_def Let_def c_def [symmetric] Some w1_def [symmetric] w2_def [symmetric] w3_def split: if_splits)
    then show thesis by (rule that [OF c_def]) (use low cap Some in auto)
  qed
qed

section \<open>Properties\<close>

lemma installation_amps:
  assumes "coMaxAmps (applyChargerPhaseLimit cfg site (applyInstallationLimits site cmd)) = Some a" "0 < sfMaxAmps site" "6 \<le> a"
  shows "a \<le> sfMaxAmps site"
  using assms by (auto simp: applyChargerPhaseLimit_def applyInstallationLimits_def Let_def split: if_splits)


definition site16 :: SiteFuse where "site16 = \<lparr>sfMaxAmps = 16, sfVoltage = 230, sfPhaseCnt = 3\<rparr>"

definition stepCar :: "string \<Rightarrow> real list \<Rightarrow> fuseCharger" where
  "stepCar lp steps = \<lparr>ccMinChargeW = 1380, ccMaxChargeW = 13110, ccAllowedStepsW = steps, ccPhaseMode = ''auto'', fcID = lp,
     fcPhaseSplitW = 0, fcSurplusOnly = False\<rparr>"

definition stepRequest :: "string \<Rightarrow> real list \<Rightarrow> fuseRequest" where
  "stepRequest lp steps = \<lparr>frCfg = stepCar lp steps, frDeadline = zeroTime, frWantW = 11000, frGoal = True\<rparr>"

definition autoOrder :: chargeOrder where
  "autoOrder = \<lparr>coPowerW = Some 13110, coMaxAmps = None, coVoltage = None, coPhaseMode = Some ''auto'', coPhaseSplitW = None,
     coSitePhases = None\<rparr>"

lemmas fuse_demo = site16_def stepCar_def stepRequest_def autoOrder_def fusePhases_def
lemmas split_demo = fuse_demo splitFuseBudget_def evLimit_def sortRequests_def shareOne_def Let_def less_f64_def floorChargeW_def
  phaseRoomCapW_def phaseRiseA_def commandPhases_def PhaseFor_def creditA_def lastOf_def noOrder_def defaultPhaseSplitW_def


lemma split_budget:
  assumes "splitFuseBudget site m modeOf splitOf (Some (Fin limW, True)) roomOf requests = Some t"
    and "distinct (map frID requests)"
  obtains rooms remaining roomA where "0 \<le> limW"
    and "shareAll site m modeOf splitOf (case roomOf of Some (a, known) \<Rightarrow> known \<and> isFinite a | None \<Rightarrow> False) limW
          (case roomOf of Some (a, known) \<Rightarrow> fval a | None \<Rightarrow> 0) (sortRequests requests) = (rooms, remaining, roomA)"
    and "tfCaps t = map (\<lambda>(lp, room). (lp, rmW room)) rooms" "tfRooms t = giveRest remaining roomA rooms"
    and "distinct (map fst rooms)"
proof -
  have pos: "0 \<le> limW" using assms(1) by (auto simp: splitFuseBudget_def evLimit_def less_f64_def split: if_splits)
  obtain rooms remaining roomA where sh:
    "shareAll site m modeOf splitOf (case roomOf of Some (a, known) \<Rightarrow> known \<and> isFinite a | None \<Rightarrow> False) limW
          (case roomOf of Some (a, known) \<Rightarrow> fval a | None \<Rightarrow> 0) (sortRequests requests) = (rooms, remaining, roomA)"
    by (metis prod.collapse)
  have "tfCaps t = map (\<lambda>(lp, room). (lp, rmW room)) rooms \<and> tfRooms t = giveRest remaining roomA rooms"
    using assms(1) pos sh by (auto simp: splitFuseBudget_def evLimit_def less_f64_def Let_def split: option.splits prod.splits)
  moreover have "distinct (map fst rooms)" using shareAll_facts [OF sh pos] sortRequests_ids [OF assms(2)] by simp
  ultimately show thesis using that pos sh by blast
qed

lemma sum_by_distinct:
  assumes "distinct (map fst rooms)" "\<forall>r \<in> set rooms. 0 \<le> rmW (snd r)" "distinct ids"
  shows "(\<Sum>lp\<leftarrow>ids. case map_of rooms lp of Some r \<Rightarrow> rmW r | None \<Rightarrow> 0) \<le> roomsW rooms"
proof -
  let ?f = "\<lambda>lp. case map_of rooms lp of Some r \<Rightarrow> rmW r | None \<Rightarrow> 0"
  have nn: "0 \<le> ?f lp" for lp using assms(2) by (auto split: option.splits dest!: map_of_SomeD)
  have "(\<Sum>lp\<leftarrow>ids. ?f lp) = (\<Sum>lp \<in> set ids. ?f lp)" using assms(3) by (simp add: sum_list_distinct_conv_sum_set)
  also have "\<dots> = (\<Sum>lp \<in> set ids \<inter> set (map fst rooms). ?f lp)"
    by (rule sum.mono_neutral_right) (auto simp: map_of_eq_None_iff split: option.splits, metis domI domIff map_of_eq_None_iff)
  also have "\<dots> \<le> (\<Sum>lp \<in> set (map fst rooms). ?f lp)" by (rule sum_mono2) (use nn in auto)
  also have "\<dots> = (\<Sum>lp\<leftarrow>map fst rooms. ?f lp)" using assms(1) by (simp only: sum_list_distinct_conv_sum_set)
  also have "\<dots> = roomsW rooms"
    unfolding roomsW_def map_map by (rule arg_cong [where f = sum_list], rule map_cong) (use assms(1) in auto)
  finally show ?thesis .
qed

text \<open>C13: the chargers together never order more than the limit on the cars. The budget is split once per tick, and
  whatever each order asks for, the orders of all chargers that go through the passes sum to at most the limit, and so
  do the rooms told to their drivers.\<close>

theorem chargers_share_fuse:
  assumes "splitFuseBudget site m modeOf splitOf (Some (Fin limW, True)) roomOf requests = Some t"
    and "distinct (map frID requests)" "distinct (map fcID chargers)"
  shows "(\<Sum>cfg\<leftarrow>chargers. max 0 (field (coPowerW (fst (finishOrder site (Some t) active (Some ev) (fallback cfg) (driver cfg) cfg
            (choice cfg) (cmd cfg) ds))))) \<le> limW
    \<and> roomsW (tfRooms t) \<le> limW"
proof -
  obtain rooms remaining roomA where pos: "0 \<le> limW"
    and sh: "shareAll site m modeOf splitOf (case roomOf of Some (a, known) \<Rightarrow> known \<and> isFinite a | None \<Rightarrow> False) limW
          (case roomOf of Some (a, known) \<Rightarrow> fval a | None \<Rightarrow> 0) (sortRequests requests) = (rooms, remaining, roomA)"
    and t: "tfCaps t = map (\<lambda>(lp, room). (lp, rmW room)) rooms" "tfRooms t = giveRest remaining roomA rooms"
    and dist: "distinct (map fst rooms)"
    by (rule split_budget [OF assms(1,2)])
  note all = shareAll_facts [OF sh pos]
  have cap: "capOf t lp = (case map_of rooms lp of Some r \<Rightarrow> rmW r | None \<Rightarrow> 0)" for lp
    by (simp add: capOf_def t(1) mget_map_vals [where f = "\<lambda>_. rmW", simplified] split: option.splits)
  have capnn: "0 \<le> capOf t lp" for lp using all by (auto simp: cap split: option.splits dest!: map_of_SomeD)
  have one: "max 0 (field (coPowerW (fst (finishOrder site (Some t) active (Some ev) (fallback cfg) (driver cfg) cfg
      (choice cfg) (cmd cfg) ds)))) \<le> capOf t (fcID cfg)" for cfg
  proof -
    obtain c mid where out: "fst (finishOrder site (Some t) active (Some ev) (fallback cfg) (driver cfg) cfg (choice cfg) (cmd cfg) ds)
        = snd (applyCurrentCeiling mid)"
      and "\<forall>t' ev'. Some t = Some t' \<and> Some ev = Some ev' \<and> 0 \<le> capOf t' (fcID cfg) \<longrightarrow> field (coPowerW mid) \<le> capOf t' (fcID cfg)"
      by (rule finishOrder_shape [OF refl])
    then have "field (coPowerW mid) \<le> capOf t (fcID cfg)" using capnn by simp
    with ceiling_lowers [of mid] capnn [of "fcID cfg"] show ?thesis by (simp add: out)
  qed
  have "(\<Sum>cfg\<leftarrow>chargers. max 0 (field (coPowerW (fst (finishOrder site (Some t) active (Some ev) (fallback cfg) (driver cfg) cfg
            (choice cfg) (cmd cfg) ds))))) \<le> (\<Sum>cfg\<leftarrow>chargers. capOf t (fcID cfg))"
    by (rule sum_list_mono) (rule one)
  also have "\<dots> = (\<Sum>lp\<leftarrow>map fcID chargers. case map_of rooms lp of Some r \<Rightarrow> rmW r | None \<Rightarrow> 0)"
    by (simp add: cap comp_def)
  also have "\<dots> \<le> roomsW rooms" by (rule sum_by_distinct [OF dist _ assms(3)]) (use all in blast)
  also have "\<dots> \<le> limW" using all by linarith
  finally show ?thesis using giveRest_facts [of rooms remaining roomA] all by (simp add: t(2))
qed

text \<open>C15: the room on the busiest phase is shared too: as long as no charger's step table lets the snapping move an order
  from three phases to one, the currents that the shares add to the busiest phase, and the rooms told to the
  drivers, sum to at most the room measured, none when there is none.\<close>

theorem chargers_share_phase_room:
  assumes "splitFuseBudget site m modeOf splitOf (Some (Fin limW, True)) (Some (Fin roomA, True)) requests = Some t"
    and "distinct (map frID requests)"
    and "\<forall>r \<in> set requests. stepsKeepPhases site (modeOf (frID r)) (splitOf (frID r)) (frCfg r)"
  shows "roomsA (tfRooms t) \<le> max 0 roomA"
proof -
  obtain rooms remaining rest where pos: "0 \<le> limW"
    and sh: "shareAll site m modeOf splitOf True limW roomA (sortRequests requests) = (rooms, remaining, rest)"
    and t: "tfRooms t = giveRest remaining rest rooms"
    by (rule split_budget [OF assms(1,2)]) simp
  have "set (sortRequests requests) = set requests" using sortRequests_mset [of requests] by (metis set_mset_mset)
  then have "roomsA rooms + max 0 rest \<le> max 0 roomA" using shareAll_phase [OF sh _ pos] assms(3) by simp
  with giveRest_facts [of rooms remaining rest] shareAll_facts [OF sh pos] show ?thesis by (simp add: t)
qed

theorem chargers_share_fuse_witness:
  "\<exists>t. splitFuseBudget site16 [] (\<lambda>_. ''auto'') (\<lambda>_. 0) (Some (Fin 15000, True)) None [stepRequest ''b'' [], stepRequest ''a'' []] = Some t
     \<and> tfCaps t = [(''a'', 11000), (''b'', 4000)] \<and> roomsW (tfRooms t) \<le> 15000"
proof -
  let ?rs = "[stepRequest ''b'' [], stepRequest ''a'' []]"
  obtain t where t: "splitFuseBudget site16 [] (\<lambda>_. ''auto'') (\<lambda>_. 0) (Some (Fin 15000, True)) None ?rs = Some t"
    and c: "tfCaps t = [(''a'', 11000), (''b'', 4000)]"
    by (simp add: split_demo requestBefore_def char_key_def)
  have "distinct (map frID ?rs)" by (simp add: fuse_demo)
  from chargers_share_fuse [OF t this, of "[]"] t c show ?thesis by auto
qed

theorem chargers_share_phase_room_witness:
  "\<exists>t. splitFuseBudget site16 [] (\<lambda>_. ''auto'') (\<lambda>_. 0) (Some (Fin 15000, True)) (Some (Fin (11/2), True))
          [stepRequest ''a'' [0, 1380, 2760, 3680, 4140, 13110]] = Some t
     \<and> tfCaps t = [(''a'', 3680)] \<and> roomsA (tfRooms t) \<le> 11/2"
proof -
  let ?r = "stepRequest ''a'' [0, 1380, 2760, 3680, 4140, 13110]"
  obtain t where t: "splitFuseBudget site16 [] (\<lambda>_. ''auto'') (\<lambda>_. 0) (Some (Fin 15000, True)) (Some (Fin (11/2), True)) [?r] = Some t"
    and c: "tfCaps t = [(''a'', 3680)]"
    by (simp add: split_demo)
  have k: "\<forall>r \<in> set [?r]. stepsKeepPhases site16 ''auto'' 0 (frCfg r)"
    by (simp add: stepsKeepPhases_def fuse_demo defaultPhaseSplitW_def)
  from chargers_share_phase_room [OF t _ k] t c show ?thesis by auto
qed

text \<open>without that the room is not kept. A charger on automatic phases with the steps 1380, 2760, 4140 and
  13110 W is told it may use 5.5 A on the busiest phase: three phases of it are 3795 W, above the split, and the
  next step down is 2760 W, which lands on one phase as 12 A.\<close>

theorem snapped_step_leaves_phase_room:
  "\<exists>t. splitFuseBudget site16 [] (\<lambda>_. ''auto'') (\<lambda>_. 0) (Some (Fin 15000, True)) (Some (Fin (11/2), True))
          [stepRequest ''a'' [0, 1380, 2760, 4140, 13110]] = Some t
     \<and> tfCaps t = [(''a'', 2760)] \<and> commandPhases site16 ''auto'' 2760 0 = 1 \<and> roomsA (tfRooms t) = 12"
  by (simp add: split_demo)

end
