(* ===== verification/Loadpoint_Boost.thy ===== *)
theory Loadpoint_Boost
  imports Control_Settings
begin

text \<open>
  Leases that let the home battery feed a car (\<open>loadpoint/battery_boost.go\<close>) and the check Core makes of each lease on
  every tick (the closure \<open>main.go\<close> hands to \<open>SetBatteryBoostSafety\<close>).

  The record holds the fields of \<open>Controller\<close> these methods use. Each method runs as one step: the lock is released
  between its sections, but another method in between can only remove the lease or put a checked one in its place. The
  controller and its manager are there: a nil controller answers inactive. The manager's answer for a loadpoint is
  the part of its snapshot read here. Calls of the saver and of the stop hook are logged in the order made.
\<close>

section \<open>Leases\<close>

record BatteryBoostLease =
  blStartedAt :: time
  blExpiresAt :: time
  blMinBatterySoC :: f64
  blEVTargetSoC :: f64
  blDepartureAt :: time

definition zeroLease :: BatteryBoostLease where
  "zeroLease = \<lparr>blStartedAt = zeroTime, blExpiresAt = zeroTime, blMinBatterySoC = Fin 0, blEVTargetSoC = Fin 0,
     blDepartureAt = zeroTime\<rparr>"

record leaseDoc =
  ldStartedAt :: "time jfield"
  ldExpiresAt :: "time jfield"
  ldMinBatterySoC :: "f64 jfield"
  ldEVTargetSoC :: "f64 jfield"
  ldDepartureAt :: "time jfield"
  ldMinBatterySoCPct :: "f64 jfield"
  ldEVTargetSoCPct :: "f64 jfield"

text \<open>A share that a row may still carry in percent, under its old key.\<close>

definition leaseFraction :: "f64 jfield \<Rightarrow> f64 jfield \<Rightarrow> f64" where
  "leaseFraction v pct =
     (let x = jval (Fin 0) v; x = (if x = Fin 0 then (case jptr pct of None \<Rightarrow> x | Some p \<Rightarrow> p) else x)
      in ClampFraction (FractionFromLegacyPercent x))"

definition UnmarshalLease :: "leaseDoc \<Rightarrow> BatteryBoostLease option" where
  "UnmarshalLease d =
     (if jbad (ldStartedAt d) \<or> jbad (ldExpiresAt d) \<or> jbad (ldMinBatterySoC d) \<or> jbad (ldEVTargetSoC d)
         \<or> jbad (ldDepartureAt d) \<or> jbad (ldMinBatterySoCPct d) \<or> jbad (ldEVTargetSoCPct d) then None
      else Some \<lparr>blStartedAt = jval zeroTime (ldStartedAt d), blExpiresAt = jval zeroTime (ldExpiresAt d),
             blMinBatterySoC = leaseFraction (ldMinBatterySoC d) (ldMinBatterySoCPct d),
             blEVTargetSoC = leaseFraction (ldEVTargetSoC d) (ldEVTargetSoCPct d),
             blDepartureAt = jval zeroTime (ldDepartureAt d)\<rparr>)"

definition MaxBatteryBoostDuration :: duration where [time_simps]: "MaxBatteryBoostDuration = 4 * hour"
definition MinBatteryBoostDuration :: duration where [time_simps]: "MinBatteryBoostDuration = minute"

datatype BoostStopReason = BoostRunning | StoppedCancelled | StoppedExpired | StoppedVehicleUnplugged
  | StoppedEVTargetReached | StoppedDepartureReached | StoppedSurplusOnly | StoppedSiteSafety | StoppedLoadpointDriver
  | StoppedBatteryUnavailable | StoppedBatteryReserve | StoppedBatteryHold | StoppedCoreMode | StoppedFuseSafety
  | StoppedImportLimit | StoppedRestartInvalid

datatype boostError = TimesRequired | StartsInFuture | AlreadyExpired | TooShort | TooLong | RemainingTooLong
  | BadReserve | BadTarget | DeparturePast | DepartureAfterExpiry | LoadpointNotFound | NotPluggedIn | SurplusOnlySet
  | NoSafetyEvaluator | Blocked BoostStopReason

definition ValidateBatteryBoostLease :: "BatteryBoostLease \<Rightarrow> time \<Rightarrow> boostError option" where
  "ValidateBatteryBoostLease l now =
     (if isZero (blStartedAt l) \<or> isZero (blExpiresAt l) then Some TimesRequired
      else if blStartedAt l > now + minute then Some StartsInFuture
      else if \<not> blExpiresAt l > now then Some AlreadyExpired
      else if tsub (blExpiresAt l) (blStartedAt l) < MinBatteryBoostDuration then Some TooShort
      else if tsub (blExpiresAt l) (blStartedAt l) > MaxBatteryBoostDuration then Some TooLong
      else if tsub (blExpiresAt l) now > MaxBatteryBoostDuration then Some RemainingTooLong
      else if blMinBatterySoC l < Fin (5/100) \<or> blMinBatterySoC l > Fin 1 then Some BadReserve
      else if blEVTargetSoC l < Fin 0 \<or> blEVTargetSoC l > Fin 1 then Some BadTarget
      else if \<not> isZero (blDepartureAt l) \<and> \<not> blDepartureAt l > now then Some DeparturePast
      else if \<not> isZero (blDepartureAt l) \<and> blDepartureAt l > blExpiresAt l then Some DepartureAfterExpiry
      else None)"

section \<open>Status\<close>

record BatteryBoostStatus =
  bsState :: string
  bsActive :: bool
  bsStartedAtMs :: int
  bsExpiresAtMs :: int
  bsMinBatterySoC :: f64
  bsEVTargetSoC :: f64
  bsDepartureAtMs :: int
  bsStopReason :: BoostStopReason
  bsStoppedAtMs :: int

definition zeroStatus :: BatteryBoostStatus where
  "zeroStatus = \<lparr>bsState = [], bsActive = False, bsStartedAtMs = 0, bsExpiresAtMs = 0, bsMinBatterySoC = Fin 0,
     bsEVTargetSoC = Fin 0, bsDepartureAtMs = 0, bsStopReason = BoostRunning, bsStoppedAtMs = 0\<rparr>"

definition inactiveStatus :: BatteryBoostStatus where
  "inactiveStatus = zeroStatus\<lparr>bsState := ''inactive''\<rparr>"

definition batteryBoostStatusFromLease :: "BatteryBoostLease \<Rightarrow> BatteryBoostStatus" where
  "batteryBoostStatusFromLease l =
     \<lparr>bsState = ''active'', bsActive = True, bsStartedAtMs = unixMilli (blStartedAt l),
      bsExpiresAtMs = unixMilli (blExpiresAt l), bsMinBatterySoC = blMinBatterySoC l, bsEVTargetSoC = blEVTargetSoC l,
      bsDepartureAtMs = (if isZero (blDepartureAt l) then 0 else unixMilli (blDepartureAt l)),
      bsStopReason = BoostRunning, bsStoppedAtMs = 0\<rparr>"

definition stoppedStatus :: "BatteryBoostStatus \<Rightarrow> BoostStopReason \<Rightarrow> time \<Rightarrow> BatteryBoostStatus" where
  "stoppedStatus status reason now =
     status\<lparr>bsState := ''stopped'', bsActive := False, bsStopReason := reason, bsStoppedAtMs := unixMilli now\<rparr>"

section \<open>The controller\<close>

record boostLp =
  lpID :: string
  lpPluggedIn :: bool
  lpSurplusOnly :: bool
  lpCurrentSoC :: f64
  lpCurrentPowerW :: f64

record boostController =
  lpStates :: "(string, boostLp) gomap"
  batteryBoost :: "(string, BatteryBoostLease) gomap"
  batteryBoostStatus :: "(string, BatteryBoostStatus) gomap"
  batteryBoostSafety :: "(string \<Rightarrow> BatteryBoostLease \<Rightarrow> BoostStopReason) option"
  batteryBoostSaver :: bool
  batteryBoostStopped :: bool
  saverCalls :: "(string \<times> BatteryBoostLease \<times> bool) list"
  stoppedCalls :: "(string \<times> BoostStopReason) list"

definition newBoost :: boostController where
  "newBoost = \<lparr>lpStates = [], batteryBoost = [], batteryBoostStatus = [], batteryBoostSafety = None,
     batteryBoostSaver = False, batteryBoostStopped = False, saverCalls = [], stoppedCalls = []\<rparr>"

definition SetBatteryBoostSafety ::
  "(string \<Rightarrow> BatteryBoostLease \<Rightarrow> BoostStopReason) option \<Rightarrow> boostController \<Rightarrow> boostController" where
  "SetBatteryBoostSafety f c = c\<lparr>batteryBoostSafety := f\<rparr>"

definition SetBatteryBoostSaver :: "bool \<Rightarrow> boostController \<Rightarrow> boostController" where
  "SetBatteryBoostSaver wired c = c\<lparr>batteryBoostSaver := wired\<rparr>"

definition SetBatteryBoostStopped :: "bool \<Rightarrow> boostController \<Rightarrow> boostController" where
  "SetBatteryBoostStopped wired c = c\<lparr>batteryBoostStopped := wired\<rparr>"

definition callSaver :: "string \<Rightarrow> BatteryBoostLease \<Rightarrow> bool \<Rightarrow> boostController \<Rightarrow> boostController" where
  "callSaver lp lease clears c =
     (if batteryBoostSaver c then c\<lparr>saverCalls := saverCalls c @ [(lp, lease, clears)]\<rparr> else c)"

definition callStopped :: "string \<Rightarrow> BoostStopReason \<Rightarrow> boostController \<Rightarrow> boostController" where
  "callStopped lp reason c =
     (if batteryBoostStopped c then c\<lparr>stoppedCalls := stoppedCalls c @ [(lp, reason)]\<rparr> else c)"

definition installLease :: "string \<Rightarrow> BatteryBoostLease \<Rightarrow> boostController \<Rightarrow> boostController" where
  "installLease lp lease c =
     c\<lparr>batteryBoost := mset_at lp lease (batteryBoost c),
       batteryBoostStatus := mset_at lp (batteryBoostStatusFromLease lease) (batteryBoostStatus c)\<rparr>"

definition batteryBoostLivePreflight ::
  "string \<Rightarrow> BatteryBoostLease \<Rightarrow> bool \<Rightarrow> boostController \<Rightarrow> (BoostStopReason \<times> boostError) option" where
  "batteryBoostLivePreflight lp lease requireSafety c =
     (case mget (lpStates c) lp of
        None \<Rightarrow> Some (StoppedRestartInvalid, LoadpointNotFound)
      | Some st \<Rightarrow>
          if \<not> lpPluggedIn st then Some (StoppedVehicleUnplugged, NotPluggedIn)
          else if lpSurplusOnly st then Some (StoppedSurplusOnly, SurplusOnlySet)
          else case batteryBoostSafety c of
                 None \<Rightarrow> if requireSafety then Some (StoppedRestartInvalid, NoSafetyEvaluator) else None
               | Some safety \<Rightarrow>
                   let reason = safety lp lease
                   in if reason \<noteq> BoostRunning then Some (reason, Blocked reason) else None)"

definition EnableBatteryBoost ::
  "string \<Rightarrow> BatteryBoostLease \<Rightarrow> time \<Rightarrow> boostController \<Rightarrow> (boostError + BatteryBoostStatus) \<times> boostController" where
  "EnableBatteryBoost lp lease now c =
     (case ValidateBatteryBoostLease lease now of
        Some e \<Rightarrow> (Inl e, c)
      | None \<Rightarrow>
          case batteryBoostLivePreflight lp lease False c of
            Some (_, e) \<Rightarrow> (Inl e, c)
          | None \<Rightarrow> (Inr (batteryBoostStatusFromLease lease), callSaver lp lease False (installLease lp lease c)))"

definition recordRejectedBatteryBoostRestore ::
  "string \<Rightarrow> BatteryBoostLease \<Rightarrow> BoostStopReason \<Rightarrow> time \<Rightarrow> boostController \<Rightarrow> boostController" where
  "recordRejectedBatteryBoostRestore lp lease reason now c =
     (let reason = (if reason = BoostRunning then StoppedRestartInvalid else reason);
          status = batteryBoostStatusFromLease lease;
          status = (if isZero (blStartedAt lease) then status\<lparr>bsStartedAtMs := 0\<rparr> else status);
          status = (if isZero (blExpiresAt lease) then status\<lparr>bsExpiresAtMs := 0\<rparr> else status)
      in c\<lparr>batteryBoost := mdel lp (batteryBoost c),
           batteryBoostStatus := mset_at lp (stoppedStatus status reason now) (batteryBoostStatus c)\<rparr>)"

definition RestoreBatteryBoost ::
  "string \<Rightarrow> BatteryBoostLease \<Rightarrow> time \<Rightarrow> boostController \<Rightarrow> bool \<times> boostController" where
  "RestoreBatteryBoost lp lease now c =
     (case ValidateBatteryBoostLease lease now of
        Some _ \<Rightarrow> (False, recordRejectedBatteryBoostRestore lp lease StoppedRestartInvalid now c)
      | None \<Rightarrow>
          case batteryBoostLivePreflight lp lease True c of
            Some (reason, _) \<Rightarrow> (False, recordRejectedBatteryBoostRestore lp lease reason now c)
          | None \<Rightarrow> (True, installLease lp lease c))"

definition stopBatteryBoost ::
  "string \<Rightarrow> BoostStopReason \<Rightarrow> time \<Rightarrow> boostController \<Rightarrow> BatteryBoostStatus \<times> boostController" where
  "stopBatteryBoost lp reason now c =
     (let found = mget (batteryBoost c) lp; existed = (found \<noteq> None);
          lease = (case found of Some l \<Rightarrow> l | None \<Rightarrow> zeroLease);
          status = (case mget (batteryBoostStatus c) lp of Some st \<Rightarrow> st | None \<Rightarrow> zeroStatus);
          c = c\<lparr>batteryBoost := mdel lp (batteryBoost c)\<rparr>;
          stops = (existed \<or> bsState status = ''active'');
          status = (if stops then stoppedStatus (batteryBoostStatusFromLease lease) reason now else status);
          c = (if stops then c\<lparr>batteryBoostStatus := mset_at lp status (batteryBoostStatus c)\<rparr> else c);
          c = (if existed then callStopped lp reason (callSaver lp zeroLease True c) else c)
      in (if \<not> existed \<and> bsState status = [] then inactiveStatus else status, c))"

definition CancelBatteryBoost :: "string \<Rightarrow> time \<Rightarrow> boostController \<Rightarrow> BatteryBoostStatus \<times> boostController" where
  "CancelBatteryBoost lp now c = stopBatteryBoost lp StoppedCancelled now c"

definition BatteryBoost ::
  "string \<Rightarrow> time \<Rightarrow> boostController \<Rightarrow> (BatteryBoostLease \<times> BatteryBoostStatus) \<times> boostController" where
  "BatteryBoost lp now c =
     (case mget (batteryBoost c) lp of
        Some lease \<Rightarrow>
          if \<not> now < blExpiresAt lease
          then (case stopBatteryBoost lp StoppedExpired now c of (status, c) \<Rightarrow> ((zeroLease, status), c))
          else ((lease, batteryBoostStatusFromLease lease), c)
      | None \<Rightarrow>
          let status = (case mget (batteryBoostStatus c) lp of Some st \<Rightarrow> st | None \<Rightarrow> zeroStatus)
          in ((zeroLease, if bsState status = [] then status\<lparr>bsState := ''inactive''\<rparr> else status), c))"

definition boostStopCause ::
  "string \<Rightarrow> BatteryBoostLease \<Rightarrow> time \<Rightarrow> bool \<Rightarrow> bool \<Rightarrow> boostController \<Rightarrow> BoostStopReason" where
  "boostStopCause lp lease now plugged dispatchAllowed c =
     (if \<not> plugged then StoppedVehicleUnplugged
      else if \<not> dispatchAllowed then StoppedSiteSafety
      else let ofLoadpoint =
             (case mget (lpStates c) lp of
                None \<Rightarrow> BoostRunning
              | Some st \<Rightarrow>
                  if lpSurplusOnly st then StoppedSurplusOnly
                  else if blEVTargetSoC lease > Fin 0 \<and> lpCurrentSoC st \<ge> blEVTargetSoC lease then StoppedEVTargetReached
                  else BoostRunning)
           in if ofLoadpoint \<noteq> BoostRunning then ofLoadpoint
              else if \<not> isZero (blDepartureAt lease) \<and> \<not> now < blDepartureAt lease then StoppedDepartureReached
              else case batteryBoostSafety c of None \<Rightarrow> BoostRunning | Some safety \<Rightarrow> safety lp lease)"

definition evaluateBatteryBoost ::
  "string \<Rightarrow> time \<Rightarrow> bool \<Rightarrow> bool \<Rightarrow> boostController \<Rightarrow> boostController" where
  "evaluateBatteryBoost lp now plugged dispatchAllowed c =
     (case BatteryBoost lp now c of ((lease, status), c) \<Rightarrow>
        if \<not> bsActive status then c
        else let cause = boostStopCause lp lease now plugged dispatchAllowed c
             in if cause \<noteq> BoostRunning then snd (stopBatteryBoost lp cause now c) else c)"

fun boostTotals ::
  "boostLp list \<Rightarrow> time \<Rightarrow> f64 \<Rightarrow> f64 \<Rightarrow> boostController \<Rightarrow> (f64 \<times> f64) \<times> boostController" where
  "boostTotals [] now powerW reserveSoC c = ((powerW, reserveSoC), c)"
| "boostTotals (st # sts) now powerW reserveSoC c =
     (case BatteryBoost (lpID st) now c of ((lease, status), c) \<Rightarrow>
        if \<not> bsActive status \<or> \<not> lpPluggedIn st \<or> lpSurplusOnly st then boostTotals sts now powerW reserveSoC c
        else boostTotals sts now
               (if lpCurrentPowerW st > Fin 0 then powerW + lpCurrentPowerW st else powerW)
               (if blMinBatterySoC lease > reserveSoC then blMinBatterySoC lease else reserveSoC) c)"

definition ActiveBatteryBoostTotals ::
  "boostLp list \<Rightarrow> time \<Rightarrow> boostController \<Rightarrow> (f64 \<times> f64) \<times> boostController" where
  "ActiveBatteryBoostTotals states now c = boostTotals states now (Fin 0) (Fin 0) c"

text \<open>\<open>activeBatteryBoostTotals\<close> of \<open>main.go\<close>: without a controller there is no boost.\<close>

definition activeBoostTotalsOf ::
  "boostController option \<Rightarrow> boostLp list \<Rightarrow> time \<Rightarrow> (f64 \<times> f64) \<times> boostController option" where
  "activeBoostTotalsOf controller states now =
     (case controller of
        None \<Rightarrow> ((Fin 0, Fin 0), None)
      | Some c \<Rightarrow> (case ActiveBatteryBoostTotals states now c of (totals, c) \<Rightarrow> (totals, Some c)))"

section \<open>The check of the site\<close>

fun boostBatteries ::
  "Store \<Rightarrow> time \<Rightarrow> duration \<Rightarrow> (string, f64) gomap \<Rightarrow> BatteryBoostLease \<Rightarrow> string list \<Rightarrow> nat \<Rightarrow> BoostStopReason" where
  "boostBatteries tel now watchdog staticFloor lease [] usable =
     (if usable = 0 then StoppedBatteryUnavailable else BoostRunning)"
| "boostBatteries tel now watchdog staticFloor lease (name # names) usable =
     (case DriverHealthOf name tel of
        None \<Rightarrow> boostBatteries tel now watchdog staticFloor lease names usable
      | Some h \<Rightarrow>
          case (Get name DerBattery tel, Option.bind (Get name DerBattery tel) SoC) of
            (Some r, Some soc) \<Rightarrow>
              if \<not> IsOnline h \<or> IsStale name DerBattery watchdog now tel then StoppedBatteryUnavailable
              else let lo = blMinBatterySoC lease; static = (case mget staticFloor name of Some f \<Rightarrow> f | None \<Rightarrow> Fin 0);
                       lo = (if static > lo then static else lo)
                   in if soc \<le> lo then StoppedBatteryReserve
                      else boostBatteries tel now watchdog staticFloor lease names (Suc usable)
          | _ \<Rightarrow> StoppedBatteryUnavailable)"

text \<open>\<open>h := tel.DriverHealth(name); h == nil || !h.IsOnline()\<close>, negated.\<close>

definition driverUp :: "string \<Rightarrow> Store \<Rightarrow> bool" where
  "driverUp name tel = (case DriverHealthOf name tel of None \<Rightarrow> False | Some h \<Rightarrow> IsOnline h)"

text \<open>\<open>lpDriver\<close> is the driver name of a loadpoint the manager knows; \<open>batteryNames\<close> are the keys of the capacities.
  Asking for the hold drops one that ran out, so the state comes back with the reason.\<close>

definition coreBoostSafety ::
  "Store \<Rightarrow> time \<Rightarrow> int \<Rightarrow> (string, f64) gomap \<Rightarrow> (string, string) gomap \<Rightarrow> string list
     \<Rightarrow> State \<Rightarrow> string \<Rightarrow> BatteryBoostLease \<Rightarrow> BoostStopReason \<times> State" where
  "coreBoostSafety tel now watchdogS staticFloor lpDriver batteryNames ctrl lp lease =
     (case GetBatteryManualHold now ctrl of ((_, batteryHeld), ctrl') \<Rightarrow>
        let watchdog = watchdogS * second; watchdog = (if watchdog \<le> 0 then 60 * second else watchdog)
        in ((if Mode ctrl = ModeIdle \<or> Mode ctrl = ModeCharge then StoppedCoreMode
             else if batteryHeld then StoppedBatteryHold
             else if FuseSaturated ctrl \<and> FuseSaturatedByImport ctrl then StoppedImportLimit
             else if FuseSaturated ctrl then StoppedFuseSafety
             else if SiteMeterDriver ctrl = [] \<or> IsStale (SiteMeterDriver ctrl) DerMeter watchdog now tel then StoppedSiteSafety
             else if \<not> driverUp (SiteMeterDriver ctrl) tel then StoppedSiteSafety
             else case mget lpDriver lp of
                    None \<Rightarrow> StoppedLoadpointDriver
                  | Some name \<Rightarrow>
                      if \<not> driverUp name tel \<or> IsStale name DerEV watchdog now tel then StoppedLoadpointDriver
                      else boostBatteries tel now watchdog staticFloor lease batteryNames 0), ctrl'))"

section \<open>What each operation leaves\<close>

lemmas boost_call_defs = callSaver_def callStopped_def

lemma callSaver_fields [simp]:
  "batteryBoost (callSaver lp l b c) = batteryBoost c" "batteryBoostStatus (callSaver lp l b c) = batteryBoostStatus c"
  "lpStates (callSaver lp l b c) = lpStates c" "batteryBoostSafety (callSaver lp l b c) = batteryBoostSafety c"
  by (simp_all add: callSaver_def)

lemma callStopped_fields [simp]:
  "batteryBoost (callStopped lp r c) = batteryBoost c" "batteryBoostStatus (callStopped lp r c) = batteryBoostStatus c"
  "lpStates (callStopped lp r c) = lpStates c" "batteryBoostSafety (callStopped lp r c) = batteryBoostSafety c"
  by (simp_all add: callStopped_def)

lemma installLease_fields [simp]:
  "batteryBoost (installLease lp l c) = mset_at lp l (batteryBoost c)"
  "batteryBoostStatus (installLease lp l c) = mset_at lp (batteryBoostStatusFromLease l) (batteryBoostStatus c)"
  by (simp_all add: installLease_def)

lemma status_active [simp]:
  "bsActive (batteryBoostStatusFromLease l)" "bsState (batteryBoostStatusFromLease l) = ''active''"
  "\<not> bsActive (stoppedStatus st r now)" "bsState (stoppedStatus st r now) = ''stopped''"
  "\<not> bsActive zeroStatus" "\<not> bsActive inactiveStatus" "bsState zeroStatus = []"
  by (simp_all add: batteryBoostStatusFromLease_def stoppedStatus_def zeroStatus_def inactiveStatus_def)

lemma stop_lease [simp]:
  "mget (batteryBoost (snd (stopBatteryBoost lp r now c))) k = (if k = lp then None else mget (batteryBoost c) k)"
  by (simp add: stopBatteryBoost_def Let_def)

lemma stop_status:
  "mget (batteryBoostStatus (snd (stopBatteryBoost lp r now c))) k =
     (if k = lp \<and> (mget (batteryBoost c) lp \<noteq> None
           \<or> (\<exists>st. mget (batteryBoostStatus c) lp = Some st \<and> bsState st = ''active''))
      then Some (stoppedStatus (batteryBoostStatusFromLease
             (case mget (batteryBoost c) lp of Some l \<Rightarrow> l | None \<Rightarrow> zeroLease)) r now)
      else mget (batteryBoostStatus c) k)"
  by (auto simp: stopBatteryBoost_def Let_def split: option.splits)

lemma stop_others [simp]:
  "lpStates (snd (stopBatteryBoost lp r now c)) = lpStates c"
  "batteryBoostSafety (snd (stopBatteryBoost lp r now c)) = batteryBoostSafety c"
  by (simp_all add: stopBatteryBoost_def Let_def)

lemma stop_existing:
  "mget (batteryBoost c) lp = Some l \<Longrightarrow>
     fst (stopBatteryBoost lp r now c) = stoppedStatus (batteryBoostStatusFromLease l) r now"
  by (simp add: stopBatteryBoost_def Let_def)

lemma BatteryBoost_live:
  "mget (batteryBoost c) lp = Some l \<Longrightarrow> now < blExpiresAt l \<Longrightarrow>
     BatteryBoost lp now c = ((l, batteryBoostStatusFromLease l), c)"
  by (simp add: BatteryBoost_def)

lemma BatteryBoost_expired:
  "mget (batteryBoost c) lp = Some l \<Longrightarrow> \<not> now < blExpiresAt l \<Longrightarrow>
     BatteryBoost lp now c =
       ((zeroLease, stoppedStatus (batteryBoostStatusFromLease l) StoppedExpired now), snd (stopBatteryBoost lp StoppedExpired now c))"
  using stop_existing [of c lp l StoppedExpired now]
  by (simp add: BatteryBoost_def case_prod_beta)

lemma BatteryBoost_none: "mget (batteryBoost c) lp = None \<Longrightarrow> snd (BatteryBoost lp now c) = c"
  by (simp add: BatteryBoost_def Let_def)

lemma BatteryBoost_lease:
  "mget (batteryBoost (snd (BatteryBoost lp now c))) k =
     (case mget (batteryBoost c) k of
        None \<Rightarrow> None
      | Some l \<Rightarrow> if k = lp \<and> \<not> now < blExpiresAt l then None else Some l)"
  by (cases "mget (batteryBoost c) lp")
     (auto simp: BatteryBoost_none BatteryBoost_def Let_def case_prod_beta split: option.splits)

lemma evaluate_lease:
  "mget (batteryBoost (evaluateBatteryBoost lp now plugged allowed c)) k =
     (case mget (batteryBoost c) k of
        None \<Rightarrow> None
      | Some l \<Rightarrow> if k = lp \<and> (\<not> now < blExpiresAt l \<or> boostStopCause lp l now plugged allowed c \<noteq> BoostRunning)
                  then None else Some l)"
proof (cases "mget (batteryBoost c) lp")
  case None
  then show ?thesis
    using BatteryBoost_none [OF None, of now]
    by (auto simp: evaluateBatteryBoost_def case_prod_beta Let_def split: option.splits)
next
  case (Some l)
  show ?thesis
  proof (cases "now < blExpiresAt l")
    case True
    then show ?thesis
      by (auto simp: evaluateBatteryBoost_def BatteryBoost_live [OF Some True] Some Let_def split: option.splits)
  next
    case False
    then show ?thesis
      by (auto simp: evaluateBatteryBoost_def BatteryBoost_expired [OF Some False] Some split: option.splits)
  qed
qed

lemma stop_cause_running_iff:
  "boostStopCause lp l now plugged allowed c = BoostRunning \<longleftrightarrow>
     plugged \<and> allowed
     \<and> (\<forall>st. mget (lpStates c) lp = Some st \<longrightarrow> \<not> lpSurplusOnly st
             \<and> \<not> (blEVTargetSoC l > Fin 0 \<and> lpCurrentSoC st \<ge> blEVTargetSoC l))
     \<and> (isZero (blDepartureAt l) \<or> now < blDepartureAt l)
     \<and> (\<forall>f. batteryBoostSafety c = Some f \<longrightarrow> f lp l = BoostRunning)"
  by (auto simp: boostStopCause_def Let_def split: option.splits if_splits)

lemma totals_lease:
  "mget (batteryBoost (snd (boostTotals sts now p r c))) k =
     (case mget (batteryBoost c) k of
        None \<Rightarrow> None
      | Some l \<Rightarrow> if k \<in> lpID ` set sts \<and> \<not> now < blExpiresAt l then None else Some l)"
proof (induction sts arbitrary: p r c)
  case (Cons st sts)
  obtain l st' c' where b: "BatteryBoost (lpID st) now c = ((l, st'), c')" by (metis prod.collapse)
  have "mget (batteryBoost c') k =
      (case mget (batteryBoost c) k of None \<Rightarrow> None | Some l \<Rightarrow> if k = lpID st \<and> \<not> now < blExpiresAt l then None else Some l)"
    using BatteryBoost_lease [of "lpID st" now c k] by (simp add: b)
  with Cons.IH [where c = c'] show ?case by (auto simp: b split: option.splits)
qed (simp split: option.splits)

section \<open>Runs\<close>

text \<open>The operations on a controller in the order they take its lock; between them the clock moves on and loadpoints
  and the wiring change.\<close>

datatype boostOp = BoEnable string BatteryBoostLease | BoRestore string BatteryBoostLease | BoCancel string
  | BoRead string | BoEvaluate string bool bool | BoTotals "boostLp list" | BoLoadpoints "(string, boostLp) gomap"
  | BoSafety "(string \<Rightarrow> BatteryBoostLease \<Rightarrow> BoostStopReason) option" | BoSaver bool | BoHook bool | BoClock nat

fun boostStep :: "time \<times> boostController \<Rightarrow> boostOp \<Rightarrow> time \<times> boostController" where
  "boostStep (now, c) (BoEnable lp l) = (now, snd (EnableBatteryBoost lp l now c))"
| "boostStep (now, c) (BoRestore lp l) = (now, snd (RestoreBatteryBoost lp l now c))"
| "boostStep (now, c) (BoCancel lp) = (now, snd (CancelBatteryBoost lp now c))"
| "boostStep (now, c) (BoRead lp) = (now, snd (BatteryBoost lp now c))"
| "boostStep (now, c) (BoEvaluate lp plugged allowed) = (now, evaluateBatteryBoost lp now plugged allowed c)"
| "boostStep (now, c) (BoTotals sts) = (now, snd (ActiveBatteryBoostTotals sts now c))"
| "boostStep (now, c) (BoLoadpoints m) = (now, c\<lparr>lpStates := m\<rparr>)"
| "boostStep (now, c) (BoSafety f) = (now, SetBatteryBoostSafety f c)"
| "boostStep (now, c) (BoSaver b) = (now, SetBatteryBoostSaver b c)"
| "boostStep (now, c) (BoHook b) = (now, SetBatteryBoostStopped b c)"
| "boostStep (now, c) (BoClock d) = (now + int d, c)"

fun grants :: "string \<Rightarrow> boostOp \<Rightarrow> bool" where
  "grants lp (BoEnable k _) = (k = lp)"
| "grants lp (BoRestore k _) = (k = lp)"
| "grants lp _ = False"

text \<open>What is shown is what is held: the status of a loadpoint is active exactly while it has a lease.\<close>

definition shownStatus :: "BatteryBoostLease option \<Rightarrow> BatteryBoostStatus option \<Rightarrow> bool" where
  "shownStatus l st =
     (case l of
        Some l \<Rightarrow> st = Some (batteryBoostStatusFromLease l)
      | None \<Rightarrow> (case st of None \<Rightarrow> True | Some st \<Rightarrow> \<not> bsActive st \<and> bsState st = ''stopped''))"

definition status_ok :: "boostController \<Rightarrow> bool" where
  "status_ok c = (\<forall>lp. shownStatus (mget (batteryBoost c) lp) (mget (batteryBoostStatus c) lp))"

lemma status_ok_stop: "status_ok c \<Longrightarrow> status_ok (snd (stopBatteryBoost lp r now c))"
  unfolding status_ok_def
proof
  fix k
  assume "\<forall>lp. shownStatus (mget (batteryBoost c) lp) (mget (batteryBoostStatus c) lp)"
  then have "shownStatus (mget (batteryBoost c) k) (mget (batteryBoostStatus c) k)" by blast
  then show "shownStatus (mget (batteryBoost (snd (stopBatteryBoost lp r now c))) k)
      (mget (batteryBoostStatus (snd (stopBatteryBoost lp r now c))) k)"
    by (cases "k = lp"; cases "mget (batteryBoost c) k"; cases "mget (batteryBoostStatus c) k")
       (auto simp: shownStatus_def stop_status)
qed

lemma status_ok_install: "status_ok c \<Longrightarrow> status_ok (installLease lp l c)"
  by (auto simp: status_ok_def shownStatus_def)

lemma status_ok_rejected: "status_ok c \<Longrightarrow> status_ok (recordRejectedBatteryBoostRestore lp l r now c)"
  by (auto simp: status_ok_def shownStatus_def recordRejectedBatteryBoostRestore_def Let_def split: option.splits)

lemma status_ok_saver: "status_ok (callSaver lp l b c) = status_ok c"
  by (simp add: status_ok_def)

lemma status_ok_enable: "status_ok c \<Longrightarrow> status_ok (snd (EnableBatteryBoost lp l now c))"
  by (auto simp: EnableBatteryBoost_def status_ok_saver intro: status_ok_install split: option.splits)

lemma status_ok_restore: "status_ok c \<Longrightarrow> status_ok (snd (RestoreBatteryBoost lp l now c))"
  by (auto simp: RestoreBatteryBoost_def intro: status_ok_install status_ok_rejected split: option.splits)

lemma status_ok_read: "status_ok c \<Longrightarrow> status_ok (snd (BatteryBoost lp now c))"
  using status_ok_stop [of c lp StoppedExpired now]
  by (auto simp: BatteryBoost_def Let_def case_prod_beta split: option.splits)

lemma status_ok_evaluate: "status_ok c \<Longrightarrow> status_ok (evaluateBatteryBoost lp now plugged allowed c)"
  using status_ok_read [of c lp now] by (auto simp: evaluateBatteryBoost_def Let_def case_prod_beta intro: status_ok_stop)

lemma status_ok_totals: "status_ok c \<Longrightarrow> status_ok (snd (boostTotals sts now p r c))"
proof (induction sts arbitrary: p r c)
  case (Cons st sts)
  then show ?case using status_ok_read [OF Cons.prems, of "lpID st" now] by (auto simp: case_prod_beta)
qed simp

lemma status_ok_wiring [simp]:
  "status_ok (c\<lparr>lpStates := m\<rparr>) = status_ok c" "status_ok (c\<lparr>batteryBoostSafety := f\<rparr>) = status_ok c"
  "status_ok (c\<lparr>batteryBoostSaver := b\<rparr>) = status_ok c" "status_ok (c\<lparr>batteryBoostStopped := b\<rparr>) = status_ok c"
  by (simp_all add: status_ok_def)

lemma status_ok_step: "status_ok (snd s) \<Longrightarrow> status_ok (snd (boostStep s e))"
  by (cases s; cases e)
     (auto intro: status_ok_enable status_ok_restore status_ok_stop status_ok_read status_ok_evaluate status_ok_totals
       simp: CancelBatteryBoost_def ActiveBatteryBoostTotals_def
         SetBatteryBoostSafety_def SetBatteryBoostSaver_def SetBatteryBoostStopped_def)

lemma read_active:
  assumes "status_ok c" "fst (BatteryBoost lp now c) = (l, st)" "bsActive st"
  shows "mget (batteryBoost c) lp = Some l" "now < blExpiresAt l" "st = batteryBoostStatusFromLease l"
proof -
  have sh: "shownStatus (mget (batteryBoost c) lp) (mget (batteryBoostStatus c) lp)" using assms(1) by (simp add: status_ok_def)
  have "\<exists>m. mget (batteryBoost c) lp = Some m \<and> now < blExpiresAt m"
  proof (cases "mget (batteryBoost c) lp")
    case None
    then show ?thesis using assms(2,3) sh by (auto simp: BatteryBoost_def shownStatus_def Let_def split: option.splits if_splits)
  next
    case (Some m)
    then show ?thesis using assms(2,3) BatteryBoost_expired [OF Some, of now] by (cases "now < blExpiresAt m") auto
  qed
  then obtain m where m: "mget (batteryBoost c) lp = Some m" "now < blExpiresAt m" by blast
  then show "mget (batteryBoost c) lp = Some l" "now < blExpiresAt l" "st = batteryBoostStatusFromLease l"
    using assms(2) BatteryBoost_live [OF m] by auto
qed

text \<open>A lease that was checked at some instant up to \<open>now\<close>.\<close>

definition checkedLease :: "time \<Rightarrow> BatteryBoostLease \<Rightarrow> bool" where
  "checkedLease now l = (\<exists>t\<le>now. ValidateBatteryBoostLease l t = None)"

definition boost_ok :: "time \<times> boostController \<Rightarrow> bool" where
  "boost_ok s = (status_ok (snd s) \<and> (\<forall>lp l. mget (batteryBoost (snd s)) lp = Some l \<longrightarrow> checkedLease (fst s) l))"

lemma checkedLease_later: "checkedLease t l \<Longrightarrow> t \<le> t' \<Longrightarrow> checkedLease t' l"
  by (auto simp: checkedLease_def intro: order_trans)

lemma enable_lease:
  "mget (batteryBoost (snd (EnableBatteryBoost lp l now c))) k = Some m \<Longrightarrow>
     mget (batteryBoost c) k = Some m \<or> k = lp \<and> m = l \<and> ValidateBatteryBoostLease l now = None"
  by (auto simp: EnableBatteryBoost_def split: option.splits if_splits)

lemma rejected_lease [simp]:
  "mget (batteryBoost (recordRejectedBatteryBoostRestore lp l r now c)) k = (if k = lp then None else mget (batteryBoost c) k)"
  by (simp add: recordRejectedBatteryBoostRestore_def Let_def)

lemma restore_lease:
  "mget (batteryBoost (snd (RestoreBatteryBoost lp l now c))) k = Some m \<Longrightarrow>
     k \<noteq> lp \<and> mget (batteryBoost c) k = Some m \<or> k = lp \<and> m = l \<and> ValidateBatteryBoostLease l now = None
       \<and> batteryBoostLivePreflight lp l True c = None"
  by (auto simp: RestoreBatteryBoost_def split: option.splits if_splits)

text \<open>A step leaves a lease as it was, drops it, or installs a checked one by a grant.\<close>

lemma step_lease:
  assumes "mget (batteryBoost (snd (boostStep (now, c) e))) k = Some l"
  shows "mget (batteryBoost c) k = Some l \<or> grants k e \<and> ValidateBatteryBoostLease l now = None"
  using assms
  by (cases e)
     (auto dest!: enable_lease restore_lease
       simp: CancelBatteryBoost_def BatteryBoost_lease evaluate_lease ActiveBatteryBoostTotals_def totals_lease
         SetBatteryBoostSafety_def SetBatteryBoostSaver_def SetBatteryBoostStopped_def
       split: option.splits if_splits)

lemma step_clock: "fst s \<le> fst (boostStep s e)"
  by (cases s; cases e) auto

interpretation boost: invariant_machine boostStep boost_ok
proof
  fix s e
  assume ok: "boost_ok s"
  obtain now c where s: "s = (now, c)" by (cases s)
  show "boost_ok (boostStep s e)"
    unfolding boost_ok_def
  proof (intro conjI allI impI)
    show "status_ok (snd (boostStep s e))" using ok by (simp add: boost_ok_def status_ok_step)
  next
    fix lp l
    assume "mget (batteryBoost (snd (boostStep s e))) lp = Some l"
    from step_lease [OF this [unfolded s]] ok have "checkedLease now l"
      by (auto simp: boost_ok_def s checkedLease_def)
    then show "checkedLease (fst (boostStep s e)) l"
      by (rule checkedLease_later) (use step_clock [of s e] s in simp)
  qed
qed

lemma boost_ok_new [simp]: "boost_ok (now, newBoost)"
  by (simp add: boost_ok_def status_ok_def shownStatus_def newBoost_def)

lemma checked_bounds:
  assumes "checkedLease now l"
  shows "blExpiresAt l \<le> now + MaxBatteryBoostDuration"
    "blExpiresAt l \<le> blStartedAt l + MaxBatteryBoostDuration"
    "\<not> blMinBatterySoC l < Fin (5/100)"
proof -
  obtain t where t: "t \<le> now" "ValidateBatteryBoostLease l t = None" using assms by (auto simp: checkedLease_def)
  from t(2) show "blExpiresAt l \<le> blStartedAt l + MaxBatteryBoostDuration" "\<not> blMinBatterySoC l < Fin (5/100)"
    by (auto simp: ValidateBatteryBoostLease_def tsub_def maxDuration_def minDuration_def time_simps split: if_splits)
  from t show "blExpiresAt l \<le> now + MaxBatteryBoostDuration"
    by (auto simp: ValidateBatteryBoostLease_def tsub_def maxDuration_def minDuration_def time_simps split: if_splits)
qed

lemma run_lease_kept:
  assumes "mget (batteryBoost (snd (foldl boostStep s es))) lp = Some l" "\<forall>e \<in> set es. \<not> grants lp e"
  shows "mget (batteryBoost (snd s)) lp = Some l"
  using assms
proof (induction es arbitrary: s)
  case (Cons e es)
  then have "mget (batteryBoost (snd (boostStep s e))) lp = Some l" by simp
  then show ?case using step_lease [of "fst s" "snd s" e lp l] Cons.prems(2) by simp
qed simp

section \<open>Properties\<close>


definition hourLease :: BatteryBoostLease where
  "hourLease = \<lparr>blStartedAt = 0, blExpiresAt = 3600000000000, blMinBatterySoC = Fin (1/5), blEVTargetSoC = Fin 0,
     blDepartureAt = zeroTime\<rparr>"

definition hourBoost :: "boostOp list" where
  "hourBoost = [BoLoadpoints [(''car'', \<lparr>lpID = ''car'', lpPluggedIn = True, lpSurplusOnly = False,
     lpCurrentSoC = Fin (1/2), lpCurrentPowerW = Fin 0\<rparr>)], BoEnable ''car'' hourLease]"

lemma hourLease_valid: "ValidateBatteryBoostLease hourLease 0 = None"
  by (simp add: ValidateBatteryBoostLease_def hourLease_def isZero_def zeroTime_def tsub_def maxDuration_def minDuration_def
      time_simps f64_simps)

lemma hourBoost_run:
  "fst (foldl boostStep (0, newBoost) hourBoost) = 0"
  "mget (batteryBoost (snd (foldl boostStep (0, newBoost) hourBoost))) ''car'' = Some hourLease"
  by (simp_all add: hourBoost_def EnableBatteryBoost_def hourLease_valid batteryBoostLivePreflight_def newBoost_def)


text \<open>a tick keeps a lease exactly while it has not run out, the car is plugged in, the site may dispatch, the
  loadpoint does not charge on surplus only and has not reached the lease's target, the car has not left, and the
  check of the site has nothing against it; the other loadpoints' leases stay.\<close>

theorem evaluate_keeps_boost_iff:
  "mget (batteryBoost (evaluateBatteryBoost lp now plugged allowed c)) k =
     (if k = lp then
        (case mget (batteryBoost c) lp of
           None \<Rightarrow> None
         | Some l \<Rightarrow>
             if now < blExpiresAt l \<and> plugged \<and> allowed
               \<and> (case mget (lpStates c) lp of
                    None \<Rightarrow> True
                  | Some st \<Rightarrow> \<not> lpSurplusOnly st \<and> \<not> (blEVTargetSoC l > Fin 0 \<and> lpCurrentSoC st \<ge> blEVTargetSoC l))
               \<and> (isZero (blDepartureAt l) \<or> now < blDepartureAt l)
               \<and> (case batteryBoostSafety c of None \<Rightarrow> True | Some f \<Rightarrow> f lp l = BoostRunning)
             then Some l else None)
      else mget (batteryBoost c) k)"
proof (cases "mget (batteryBoost c) k")
  case (Some l)
  then show ?thesis by (cases "k = lp") (auto simp: evaluate_lease stop_cause_running_iff split: option.splits)
qed (auto simp: evaluate_lease)

lemma boostBatteries_running:
  assumes "boostBatteries tel now wd floors l names n = BoostRunning" "name \<in> set names" "DriverHealthOf name tel = Some h"
    and "blMinBatterySoC l = Fin m" "(case mget floors name of Some f \<Rightarrow> f | None \<Rightarrow> Fin 0) = Fin f"
  shows "IsOnline h \<and> \<not> IsStale name DerBattery wd now tel
    \<and> (\<exists>r soc. Get name DerBattery tel = Some r \<and> SoC r = Some soc \<and> \<not> soc \<le> Fin (max m f))"
  using assms(1,2)
proof (induction names arbitrary: n)
  case (Cons x names)
  show ?case
  proof (cases "x = name")
    case True
    then show ?thesis
      using Cons.prems(1) assms(3-5)
      by (cases "Get name DerBattery tel"; cases "Option.bind (Get name DerBattery tel) SoC")
         (auto simp: Let_def less_f64_def max_def split: if_splits)
  next
    case False
    then obtain n' where "boostBatteries tel now wd floors l names n' = BoostRunning"
      using Cons.prems(1) by (auto simp: Let_def split: option.splits if_splits)
    from Cons.IH [OF this] Cons.prems(2) False show ?thesis by simp
  qed
qed simp

lemma boostBatteries_some:
  "boostBatteries tel now wd floors l names n = BoostRunning \<Longrightarrow>
     0 < n \<or> (\<exists>name \<in> set names. DriverHealthOf name tel \<noteq> None)"
  by (induction names arbitrary: n) (fastforce simp: Let_def split: option.splits if_splits)+

lemma core_running:
  assumes "fst (coreBoostSafety tel now wdS floors drv names ctrl lp l) = BoostRunning"
  shows "Mode ctrl \<noteq> ModeIdle" "Mode ctrl \<noteq> ModeCharge" "\<not> FuseSaturated ctrl"
    "\<not> snd (fst (GetBatteryManualHold now ctrl))"
    "\<not> IsStale (SiteMeterDriver ctrl) DerMeter (if wdS \<le> 0 then 60 * second else wdS * second) now tel"
    "boostBatteries tel now (if wdS \<le> 0 then 60 * second else wdS * second) floors l names 0 = BoostRunning"
  using assms
  by (auto simp: coreBoostSafety_def Let_def case_prod_beta second_def mult_le_0_iff split: option.splits if_splits)

text \<open>C17: with Core's check of the site in place, a lease that a tick keeps leaves some battery to serve it, and
  every battery that has reported is online, fresh and above both the lease's reserve and its own floor; the mode
  dispatches, nobody holds the battery, the fuse is not saturated and the site meter is fresh.\<close>

theorem kept_boost_is_served_above_reserve:
  assumes "batteryBoostSafety c = Some (\<lambda>lp l. fst (coreBoostSafety tel now wdS floors drv names ctrl lp l))"
    and "mget (batteryBoost (evaluateBatteryBoost lp now plugged allowed c)) lp = Some l"
    and "blMinBatterySoC l = Fin m"
    and "\<forall>name \<in> set names. (case mget floors name of Some f \<Rightarrow> f | None \<Rightarrow> Fin 0) = Fin (f name)"
  shows "Mode ctrl \<notin> {ModeIdle, ModeCharge} \<and> \<not> FuseSaturated ctrl \<and> \<not> snd (fst (GetBatteryManualHold now ctrl))
    \<and> (let wd = (if wdS \<le> 0 then 60 * second else wdS * second)
       in \<not> IsStale (SiteMeterDriver ctrl) DerMeter wd now tel
        \<and> (\<exists>name \<in> set names. DriverHealthOf name tel \<noteq> None)
        \<and> (\<forall>name \<in> set names. \<forall>h. DriverHealthOf name tel = Some h \<longrightarrow>
             IsOnline h \<and> \<not> IsStale name DerBattery wd now tel
             \<and> (\<exists>r soc. Get name DerBattery tel = Some r \<and> SoC r = Some soc \<and> \<not> soc \<le> Fin (max m (f name)))))"
proof -
  have "boostStopCause lp l now plugged allowed c = BoostRunning"
    using assms(2) by (auto simp: evaluate_lease split: option.splits if_splits)
  then have "fst (coreBoostSafety tel now wdS floors drv names ctrl lp l) = BoostRunning"
    by (simp add: stop_cause_running_iff assms(1))
  note core = core_running [OF this]
  have b: "IsOnline h \<and> \<not> IsStale name DerBattery (if wdS \<le> 0 then 60 * second else wdS * second) now tel
      \<and> (\<exists>r soc. Get name DerBattery tel = Some r \<and> SoC r = Some soc \<and> \<not> soc \<le> Fin (max m (f name)))"
    if "name \<in> set names" "DriverHealthOf name tel = Some h" for name h
    using boostBatteries_running [OF core(6) that assms(3)] assms(4) that(1) by blast
  show ?thesis
    using core(1-5) boostBatteries_some [OF core(6)] b by (auto simp: Let_def)
qed

definition boostReading :: "string \<Rightarrow> DerType \<Rightarrow> f64 option \<Rightarrow> string \<times> DerReading" where
  "boostReading name t soc = (key name t, \<lparr>rDriver = name, rDerType = t, RawW = Fin 0, SmoothedW = Fin 0, SoC = soc,
     SoCUpdatedAt = 0, Data = Empty, UpdatedAt = 0\<rparr>)"

definition boostSite :: Store where
  "boostSite = (NewStore 0)\<lparr>
     readings := [boostReading ''m'' DerMeter None, boostReading ''ev'' DerEV None, boostReading ''b'' DerBattery (Some (Fin (1/2)))],
     health := map (\<lambda>n. (n, RecordSuccess 0 (newHealth n 0))) [''m'', ''ev'', ''b'']\<rparr>"

definition boostedCar :: boostController where
  "boostedCar = (snd (foldl boostStep (0, newBoost) hourBoost))\<lparr>batteryBoostSafety :=
     Some (\<lambda>lp l. fst (coreBoostSafety boostSite 0 60 [(''b'', Fin (1/10))] [(''car'', ''ev'')] [''b'']
       (NewState 0 50 ''m'' (\<lambda>_. 0) 0) lp l))\<rparr>"

theorem kept_boost_is_served_above_reserve_witness:
  "\<exists>soc. (\<exists>r. Get ''b'' DerBattery boostSite = Some r \<and> SoC r = Some soc) \<and> \<not> soc \<le> Fin (1/5)"
proof -
  have safe: "fst (coreBoostSafety boostSite 0 60 [(''b'', Fin (1/10))] [(''car'', ''ev'')] [''b'']
      (NewState 0 50 ''m'' (\<lambda>_. 0) 0) ''car'' hourLease) = BoostRunning"
    by (simp add: coreBoostSafety_def NewState_def GetBatteryManualHold_def noBatteryHold_def isZero_def mode_defs boostSite_def
        IsStale_def Get_def boostReading_def driverUp_def DriverHealthOf_def RecordSuccess_def newHealth_def IsOnline_def
        key_def hourLease_def time_simps f64_simps Let_def)
  have lps: "lpStates boostedCar = [(''car'', \<lparr>lpID = ''car'', lpPluggedIn = True, lpSurplusOnly = False,
     lpCurrentSoC = Fin (1/2), lpCurrentPowerW = Fin 0\<rparr>)]"
    by (simp add: boostedCar_def hourBoost_def EnableBatteryBoost_def hourLease_valid batteryBoostLivePreflight_def
        newBoost_def installLease_def)
  have held: "mget (batteryBoost boostedCar) ''car'' = Some hourLease" using hourBoost_run(2) by (simp add: boostedCar_def)
  have hl: "blEVTargetSoC hourLease = Fin 0" "blDepartureAt hourLease = zeroTime" by (simp_all add: hourLease_def)
  have "boostStopCause ''car'' hourLease 0 True True boostedCar = BoostRunning"
    by (simp add: stop_cause_running_iff lps hl isZero_def f64_simps) (simp add: boostedCar_def safe)
  then have kept: "mget (batteryBoost (evaluateBatteryBoost ''car'' 0 True True boostedCar)) ''car'' = Some hourLease"
    by (simp add: evaluate_lease held) (simp add: hourLease_def)
  have wired: "batteryBoostSafety boostedCar = Some (\<lambda>lp l. fst (coreBoostSafety boostSite 0 60 [(''b'', Fin (1/10))]
      [(''car'', ''ev'')] [''b''] (NewState 0 50 ''m'' (\<lambda>_. 0) 0) lp l))" by (simp add: boostedCar_def)
  have m: "blMinBatterySoC hourLease = Fin (1/5)" by (simp add: hourLease_def)
  have f: "\<forall>name \<in> set [''b'']. (case mget [(''b'', Fin (1/10))] name of Some f \<Rightarrow> f | None \<Rightarrow> Fin 0) = Fin (1/10)" by simp
  have h: "DriverHealthOf ''b'' boostSite = Some (RecordSuccess 0 (newHealth ''b'' 0))" by (simp add: DriverHealthOf_def boostSite_def)
  from kept_boost_is_served_above_reserve [OF wired kept m f] h show ?thesis by (auto simp: Let_def)
qed

end
