(* ===== verification/Mpc_Deadline.thy ===== *)
theory Mpc_Deadline
  imports Mpc_Validate Loadpoint_Levels
begin

text \<open>
  The deadline reserve (\<open>mpc/deadline_directive.go\<close>): energy a saved goal gets without a plan, or
  beside one that has no budget for it, and the time a goal may still wait. The states of the chargers
  and the limits of a session are arguments; of a slot's directive the record holds the charger's part,
  the only one the reserve touches.
\<close>

record mpcDirective =
  mdSlotStart :: time
  mdSlotEnd :: time
  mdEnergyWh :: "(string, real) gomap"
  mdMaxPowerW :: "(string, real) gomap"
  mdFallback :: "(string, bool) gomap"
  mdEVOnly :: bool

type_synonym sessionLimits = "lpSession \<Rightarrow> real \<times> real \<times> real list"

definition deadlineReserveMargin :: duration where "deadlineReserveMargin = hour"

record goalHours =
  ghDue :: time
  ghHours :: real

definition goalOf :: "sessionLimits \<Rightarrow> lpSession \<Rightarrow> goalHours list" where
  "goalOf limits st =
     (if seID st = [] \<or> seManualActive st \<or> seSurplusOnly st then []
      else case DeadlineNeed st (limits st) of
             None \<Rightarrow> []
           | Some (need, peak) \<Rightarrow> [\<lparr>ghDue = seTargetTime st, ghHours = need / peak\<rparr>])"

definition hoursDueBy :: "goalHours list \<Rightarrow> time \<Rightarrow> real" where
  "hoursDueBy goals t = sum_list (map ghHours (filter (\<lambda>g. \<not> ghDue g > t) goals))"

text \<open>A conversion of a number to a duration drops its fraction.\<close>

definition hoursDuration :: "real \<Rightarrow> duration" where
  "hoursDuration h = (let ns = h * 3600000000000 in if ns < 0 then - \<lfloor>- ns\<rfloor> else \<lfloor>ns\<rfloor>)"

definition reserveMargin :: "lpSession \<Rightarrow> duration" where
  "reserveMargin st =
     (if seCommandedKnown st \<and> seCommandedW st > 0 then 2 * deadlineReserveMargin else deadlineReserveMargin)"

definition latestStart :: "goalHours list \<Rightarrow> lpSession \<Rightarrow> time" where
  "latestStart goals st = seTargetTime st - hoursDuration (hoursDueBy goals (seTargetTime st)) - reserveMargin st"

definition directiveHours :: "time \<Rightarrow> mpcDirective \<Rightarrow> real" where
  "directiveHours now d = hours (tsub (mdSlotEnd d) now)"

definition manualPeakW :: "lpSession \<Rightarrow> real" where
  "manualPeakW st =
     (if seManualChargeW st > 0 \<and> seMaxChargeW st > 0 then min (seManualChargeW st) (seMaxChargeW st) else 0)"

definition goalPeakW :: "sessionLimits \<Rightarrow> lpSession \<Rightarrow> real \<Rightarrow> real \<Rightarrow> real \<Rightarrow> real" where
  "goalPeakW limits st need peak h =
     (case limits st of (minW, maxW, steps) \<Rightarrow>
        SnapChargeW (need / h) minW peak (if seAllowedStepsW st = [] then [] else steps))"

definition reserveOffer :: "sessionLimits \<Rightarrow> goalHours list \<Rightarrow> time \<Rightarrow> mpcDirective \<Rightarrow> lpSession \<Rightarrow> (real \<times> real) option" where
  "reserveOffer limits goals now d st =
     (if hasKey (mdEnergyWh d) (seID st) \<and> \<not> seManualActive st then None
      else if seManualActive st \<and> sePluggedIn st then
        (if seID st = [] then None else Some (manualPeakW st * directiveHours now d, manualPeakW st))
      else case DeadlineNeed st (limits st) of
             None \<Rightarrow> None
           | Some (need, peak) \<Rightarrow>
               if seID st = [] \<or> (seSurplusOnly st \<and> \<not> seManualActive st) then None
               else if seManualActive st then Some (need, peak)
               else if now < latestStart goals st then None
               else Some (need, goalPeakW limits st need peak (directiveHours now d)))"

definition reserveFor :: "sessionLimits \<Rightarrow> goalHours list \<Rightarrow> time \<Rightarrow> lpSession \<Rightarrow> mpcDirective \<Rightarrow> mpcDirective" where
  "reserveFor limits goals now st d =
     (case reserveOffer limits goals now d st of
        None \<Rightarrow> d
      | Some (need, peak) \<Rightarrow>
          d\<lparr>mdEnergyWh := mset_at (seID st) (min need (peak * directiveHours now d)) (mdEnergyWh d),
            mdMaxPowerW := mset_at (seID st) peak (mdMaxPowerW d),
            mdFallback := mset_at (seID st) True (mdFallback d)\<rparr>)"

definition evOnlyDirective :: "time \<Rightarrow> mpcDirective" where
  "evOnlyDirective now = \<lparr>mdSlotStart = now, mdSlotEnd = now + minute, mdEnergyWh = [], mdMaxPowerW = [], mdFallback = [],
     mdEVOnly = True\<rparr>"

definition withDeadlineReserve :: "lpSession list option \<Rightarrow> sessionLimits \<Rightarrow> time \<Rightarrow> mpcDirective \<Rightarrow> bool
    \<Rightarrow> mpcDirective \<times> bool" where
  "withDeadlineReserve sessions limits now d accepted =
     (case sessions of
        None \<Rightarrow> (d, accepted)
      | Some states \<Rightarrow>
          (let goals = concat (map (goalOf limits) states);
               d = fold (reserveFor limits goals now) states (if accepted then d else evOnlyDirective now)
           in (d, accepted \<or> mdFallback d \<noteq> [])))"

section \<open>What the reserve leaves alone\<close>

definition sameSlot :: "mpcDirective \<Rightarrow> mpcDirective \<Rightarrow> bool" where
  "sameSlot d d' \<longleftrightarrow> mdSlotStart d' = mdSlotStart d \<and> mdSlotEnd d' = mdSlotEnd d \<and> mdEVOnly d' = mdEVOnly d"

lemma reserveFor_other:
  assumes "seID st \<noteq> i"
  shows "mget (mdEnergyWh (reserveFor limits goals now st d)) i = mget (mdEnergyWh d) i"
    "mget (mdMaxPowerW (reserveFor limits goals now st d)) i = mget (mdMaxPowerW d) i"
    "mget (mdFallback (reserveFor limits goals now st d)) i = mget (mdFallback d) i"
  using assms by (auto simp: reserveFor_def split: option.splits)

lemma reserveFor_slot: "sameSlot d (reserveFor limits goals now st d)"
  by (auto simp: reserveFor_def sameSlot_def split: option.splits)

lemma fold_reserve_other:
  assumes "i \<notin> seID ` set sts"
  shows "mget (mdEnergyWh (fold (reserveFor limits goals now) sts d)) i = mget (mdEnergyWh d) i"
    "mget (mdMaxPowerW (fold (reserveFor limits goals now) sts d)) i = mget (mdMaxPowerW d) i"
    "mget (mdFallback (fold (reserveFor limits goals now) sts d)) i = mget (mdFallback d) i"
  using assms by (induction sts arbitrary: d) (auto simp: reserveFor_other)

lemma fold_reserve_slot: "sameSlot d (fold (reserveFor limits goals now) sts d)"
proof (induction sts arbitrary: d)
  case (Cons st sts)
  then show ?case using reserveFor_slot [of d limits goals now st] by (auto simp: sameSlot_def)
qed (simp add: sameSlot_def)

text \<open>With distinct identities one charger's entry is decided by its own offer alone.\<close>

lemma fold_reserve_own:
  assumes "distinct (map seID sts)" "st \<in> set sts"
  shows "\<exists>e. sameSlot d e \<and> mget (mdEnergyWh e) (seID st) = mget (mdEnergyWh d) (seID st)
      \<and> mget (mdFallback e) (seID st) = mget (mdFallback d) (seID st)
      \<and> (let r = reserveFor limits goals now st e; f = fold (reserveFor limits goals now) sts d
         in mget (mdEnergyWh f) (seID st) = mget (mdEnergyWh r) (seID st)
          \<and> mget (mdMaxPowerW f) (seID st) = mget (mdMaxPowerW r) (seID st)
          \<and> mget (mdFallback f) (seID st) = mget (mdFallback r) (seID st))"
proof -
  obtain before after where sts: "sts = before @ st # after" using assms(2) by (auto dest: split_list)
  have out: "seID st \<notin> seID ` set before" "seID st \<notin> seID ` set after" using assms(1) sts by auto
  let ?e = "fold (reserveFor limits goals now) before d"
  show ?thesis
    using fold_reserve_other [OF out(1), of limits goals now d] fold_reserve_slot [of d limits goals now before]
      fold_reserve_other [OF out(2), of limits goals now "reserveFor limits goals now st ?e"]
    by (intro exI [of _ ?e]) (simp add: sts Let_def)
qed

section \<open>Waiting is safe\<close>

lemma need_positive: "DeadlineNeed st l = Some (need, peak) \<Longrightarrow> 0 < need / peak"
  using DeadlineNeed_positive [of st "fst l" "fst (snd l)" "snd (snd l)" need peak] by simp

lemma goal_hours_nonneg: "g \<in> set (concat (map (goalOf limits) sts)) \<Longrightarrow> 0 \<le> ghHours g"
  by (auto simp: goalOf_def less_imp_le [OF need_positive] split: option.splits if_splits)

lemma own_hours_counted:
  assumes "g \<in> set goals" "\<And>g. g \<in> set goals \<Longrightarrow> 0 \<le> ghHours g" "ghDue g \<le> t"
  shows "ghHours g \<le> hoursDueBy goals t"
  unfolding hoursDueBy_def
  by (rule member_le_sum_list) (use assms in \<open>auto simp: not_less\<close>)

lemma hoursDuration_bound:
  assumes "0 \<le> h"
  shows "h < hours (hoursDuration h + 1)"
proof -
  have "h * 3600000000000 < real_of_int (\<lfloor>h * 3600000000000\<rfloor> + 1)" by linarith
  then show ?thesis using assms by (simp add: hours_def hoursDuration_def Let_def field_simps)
qed

lemma waiting_time:
  assumes "now < latestStart goals st" "0 \<le> hoursDueBy goals (seTargetTime st)"
  shows "hoursDueBy goals (seTargetTime st) + 1 < hours (seTargetTime st - now)"
proof -
  let ?h = "hoursDueBy goals (seTargetTime st)"
  have "hour \<le> reserveMargin st" by (simp add: reserveMargin_def deadlineReserveMargin_def time_simps)
  then have "hoursDuration ?h + 1 + hour \<le> seTargetTime st - now" using assms(1) by (simp add: latestStart_def)
  from hours_mono [OF this] have "hours (hoursDuration ?h + 1) + hours hour \<le> hours (seTargetTime st - now)"
    by (simp add: hours_add)
  moreover have "hours hour = 1" by (simp add: hours_def time_simps)
  ultimately show ?thesis using hoursDuration_bound [OF assms(2)] by linarith
qed

text \<open>C12: A goal without a plan is never left waiting too long. When the reserve gives a charger with a saved
  goal nothing, more time is left to its deadline than all goals due by then need one after another at
  full power, its own included, and one price slot on top; so starting later is still in time. When it
  gives something, the energy is at most what the goal needs and what the power it names delivers in
  the slot.\<close>

theorem waiting_goal_has_time:
  assumes "withDeadlineReserve (Some states) limits now d accepted = (d', ok)"
    and "distinct (map seID states)" "st \<in> set states" "seID st \<noteq> []" "\<not> seManualActive st" "\<not> seSurplusOnly st"
    and "DeadlineNeed st (limits st) = Some (need, peak)"
    and "accepted \<longrightarrow> \<not> hasKey (mdEnergyWh d) (seID st) \<and> \<not> hasKey (mdFallback d) (seID st)"
  defines "goals \<equiv> concat (map (goalOf limits) states)"
  shows "(\<not> hasKey (mdFallback d') (seID st) \<longrightarrow>
       need / peak \<le> hoursDueBy goals (seTargetTime st)
       \<and> hoursDueBy goals (seTargetTime st) + 1 < hours (seTargetTime st - now))
    \<and> (hasKey (mdFallback d') (seID st) \<longrightarrow>
       ok \<and> numAt (mdEnergyWh d') (seID st) \<le> need
       \<and> numAt (mdEnergyWh d') (seID st) \<le> numAt (mdMaxPowerW d') (seID st) * directiveHours now d')"
proof -
  define start where "start = (if accepted then d else evOnlyDirective now)"
  have d': "d' = fold (reserveFor limits goals now) states start" "ok \<longleftrightarrow> accepted \<or> mdFallback d' \<noteq> []"
    using assms(1) by (auto simp: withDeadlineReserve_def Let_def goals_def start_def)
  have free: "mget (mdEnergyWh start) (seID st) = None" "mget (mdFallback start) (seID st) = None"
    using assms(8) by (auto simp: start_def evOnlyDirective_def hasKey_def split: if_splits)
  obtain e where e: "sameSlot start e" "mget (mdEnergyWh e) (seID st) = None" "mget (mdFallback e) (seID st) = None"
    and r: "mget (mdEnergyWh d') (seID st) = mget (mdEnergyWh (reserveFor limits goals now st e)) (seID st)"
    "mget (mdMaxPowerW d') (seID st) = mget (mdMaxPowerW (reserveFor limits goals now st e)) (seID st)"
    "mget (mdFallback d') (seID st) = mget (mdFallback (reserveFor limits goals now st e)) (seID st)"
    using fold_reserve_own [OF assms(2,3), of start limits goals now] free d'(1) by (auto simp: Let_def)
  have slot: "directiveHours now d' = directiveHours now e"
    using e(1) fold_reserve_slot [of start limits goals now states] d'(1) by (simp add: directiveHours_def sameSlot_def)
  have g: "\<lparr>ghDue = seTargetTime st, ghHours = need / peak\<rparr> \<in> set goals"
    using assms(3-7) by (auto simp: goals_def goalOf_def intro!: bexI [of _ st])
  have own: "need / peak \<le> hoursDueBy goals (seTargetTime st)"
    using own_hours_counted [OF g goal_hours_nonneg] by (simp add: goals_def)
  have offer: "reserveOffer limits goals now e st =
      (if now < latestStart goals st then None
       else Some (need, goalPeakW limits st need peak (directiveHours now e)))"
    using assms(4-7) e(2) by (simp add: reserveOffer_def hasKey_def)
  show ?thesis
  proof (cases "now < latestStart goals st")
    case True
    have "0 < need / peak" using need_positive [OF assms(7)] .
    with own waiting_time [OF True] True offer r(3) e(3) show ?thesis
      by (auto simp: reserveFor_def hasKey_def)
  next
    case False
    then show ?thesis
      using offer r d'(2) slot by (auto simp: reserveFor_def hasKey_def numAt_def)
  qed
qed

section \<open>An example\<close>

definition plainLimits :: sessionLimits where
  "plainLimits st = LimitPower st (seAllowedStepsW st)"

theorem waiting_goal_has_time_witness:
  "hoursDueBy (goalOf plainLimits goalCar) (seTargetTime goalCar) + 1 < hours (seTargetTime goalCar - (- 72000000000000))"
proof -
  let ?r = "withDeadlineReserve (Some [goalCar]) plainLimits (- 72000000000000) (evOnlyDirective 0) False"
  have h: "seID goalCar \<noteq> []" "\<not> seManualActive goalCar" "\<not> seSurplusOnly goalCar" by (simp_all add: goalCar_def)
  have n: "DeadlineNeed goalCar (plainLimits goalCar) = Some (20000, 1380)" by code_simp
  have f: "\<not> hasKey (mdFallback (fst ?r)) (seID goalCar)" by code_simp
  have r: "?r = (fst ?r, snd ?r)" by simp
  from waiting_goal_has_time [OF r, of goalCar 20000 1380] h n f show ?thesis by simp
qed

end
