(* ===== verification/Spec2Isabelle.thy ===== *)
theory Spec2Isabelle
  imports Units Kalman Driver_Health Telemetry_Types Control_Observations Command_Evidence
    Telemetry_Store PI_Controller Modes Control_State Control_Settings Import_Hour Fuse_Heat
    Meter_Freeze Dispatch_Passes Battery_Full Dispatch_Split Command_Log Phase_Relief Fuse_Guard
    Slot_Directive Plan_Intent Slot_Accounting Ev_Offers Ev_Battery Safety_Pipeline Fuse_Saver Surplus
    Storage_Plan Slew Compute_Dispatch Ev_Meter_Limit Pv_Curtail
    Site_Gate Actuation Loadpoint_Surplus Control_Loop
    Mpc_Types Mpc_Import_Hours Mpc_Dp Mpc_Optimal Mpc_Forward Mpc_Validate Mpc_Params Mpc_Recovery Mpc_Reserve Mpc_Forecast
    Loadpoint_Levels Loadpoint_Phases Loadpoint_Fuse Loadpoint_Boost Mpc_Deadline
begin

text \<open>
  \<^bold>\<open>FTW, the home energy controller: telemetry and battery control.\<close>

  FTW reads a site's meter, inverters, batteries and chargers, and tells the batteries, the inverters and
  the cars what to do so that the site keeps under its fuse and follows a plan. Two packages under
  \<open>src/go/internal\<close> carry that logic: \<open>telemetry\<close>, the store every reading enters, and \<open>control\<close>, the
  tick that turns the store and its own state into commands. This development models both.

  \<^bold>\<open>How the parts interact.\<close> A driver's reading is validated, filtered and stored (\<open>Update\<close>); the store
  also keeps each driver's health, what each battery was told and seen to do, and the windows around a
  step. On every tick \<open>ComputeDispatch\<close> reads the store, the settings and the running plan's
  directive, decides a fleet power, shares it with the cars under the fuse, splits it over the
  batteries, limits the slew, and sends it through the safety pipeline. What was sent is logged in the
  state, and the next tick's fuse checks read that log.

  \<^bold>\<open>Theories.\<close> Each theory names the Go file and the functions it models.

  \<^item> \<open>Prelude\<close>: floats as finite reals, infinities and NaN (\<open>f64\<close>), times and durations in nanoseconds with
    the saturating difference of Go, Go maps as association lists, and the lemmas shared by all.
  \<^item> \<open>Units\<close> (\<open>units\<close>), \<open>Kalman\<close>, \<open>Driver_Health\<close>, \<open>Telemetry_Types\<close>, \<open>Control_Observations\<close>,
    \<open>Command_Evidence\<close>, \<open>Telemetry_Store\<close> (\<open>telemetry\<close>): the store as one record, one function per method;
    a method holds the lock throughout, so it is one step. Shown: everything stored keeps the site's
    sign convention and finite values; what is stored is what \<open>Get\<close> returns; the watchdog marks exactly the
    silent drivers; a bound on a battery's command never drops until the battery was seen to follow.
  \<^item> \<open>PI_Controller\<close>, \<open>Modes\<close>, \<open>Control_State\<close>, \<open>Control_Settings\<close>: the controller, the modes, the state
    record of \<open>dispatch.go\<close> with the fields in the order of the code, and its setters.
  \<^item> \<open>Import_Hour\<close>, \<open>Fuse_Heat\<close>, \<open>Meter_Freeze\<close>: the counted import of the clock hour, the fuse heat of each
    phase, and the detector of a frozen meter. Shown: a gap in the readings never makes room in the hour;
    a sustained overload is cut on its second reading; a meter that repeats itself while the site moves is
    found, and a quiet site never is.
  \<^item> \<open>Dispatch_Passes\<close>, \<open>Battery_Full\<close>, \<open>Dispatch_Split\<close>, \<open>Command_Log\<close>, \<open>Phase_Relief\<close>, \<open>Fuse_Guard\<close>: the passes
    over the battery targets. A pass that only moves targets toward zero is an instance of one locale, and
    the lemmas about such passes are proved once in it. Shown: the split hands out the fleet power; the
    guard's targets keep the predicted site inside its ceilings; relief is exact as far as the batteries
    have room; the bounded command log answers as the full history would.
  \<^item> \<open>Slot_Directive\<close>, \<open>Plan_Intent\<close>, \<open>Slot_Accounting\<close>, \<open>Storage_Plan\<close>: the plan of a slot, its intent in a tick, the
    delivered energy, and each battery's share.
  \<^item> \<open>Ev_Offers\<close>, \<open>Ev_Battery\<close>, \<open>Surplus\<close>: offers to chargers and what the meter shows of them, battery charge
    beside a car, the surplus a car reserves.
  \<^item> \<open>Ev_Meter_Limit\<close>: the limit on the cars stepped from the meter. Shown: a raise fits the room of the fuse and of
    the hour, a cut lands the reading inside the fuse, an idle charger waits for two low readings.
  \<^item> \<open>Safety_Pipeline\<close>, \<open>Fuse_Saver\<close>, \<open>Slew\<close>, \<open>Compute_Dispatch\<close>: the stages of every command in their order, the
    way out of a tick that sends nothing new, and the tick itself. Shown: every command a tick sends is inside
    the battery's limits, never discharges a battery of unknown charge and never charges a paused one; the
    tick returns; battery and car together stay under the import ceiling; a slot never catches up; the log
    records what was sent.

  \<^item> \<open>Pv_Curtail\<close>: the limits of the inverters and the solar hint. Shown: every command is a cap above one watt or the
    release of a capped driver; the export guard keeps the ceiling as far as the inverters can; a capped inverter is
    remembered until it is released, but for a share of one watt or less, which loses it.
  \<^item> \<open>Site_Gate\<close>, \<open>Actuation\<close>, \<open>Loadpoint_Surplus\<close>, \<open>Control_Loop\<close> (\<open>cmd/ftw\<close>, \<open>loadpoint/surplus_reserve.go\<close>): the gate on the
    site meter, the tracker of drivers that refuse commands, the surplus asked for by chargers, and the tick of
    \<open>main.go\<close> with runs of ticks, budgets and settings as a step relation. Shown: in every run every battery
    command is safe; a stale or frozen meter stops the site and sends every driver to its default once; a driver is
    excluded exactly after three refusals of one action in a row and comes back by a trial.

  \<^item> \<open>Mpc_Types\<close>, \<open>Mpc_Import_Hours\<close>, \<open>Mpc_Dp\<close>, \<open>Mpc_Optimal\<close>, \<open>Mpc_Forward\<close> (\<open>mpc\<close>, \<open>gridcost\<close>,
    \<open>loadpoint/site_power.go\<close>): Core's own planner, a dynamic programme over states of charge of the battery and the
    car. Shown: the value table is the exact optimum over the grid and the stored policy attains it, against a
    reference that evaluates any policy; a returned plan replays from the real state of charge and keeps the band; without
    a car it keeps the grid contract of its mode; the hourly import caps keep every clock hour; and an action
    that ends beside an infeasible state is lost to a NaN.

  \<^bold>\<open>Conventions.\<close> Powers are reals in watts with the site's sign (import and charge positive); arithmetic is exact,
  so rounding of floats is not modelled, while the finite checks of the code are (\<open>f64\<close>). The clock is a field of
  the state and stands still during a tick. Callbacks (the plan, the directive of a slot, the check of a hold's
  device) are functions in the state, as in the code. A panic is \<open>None\<close>. Log output and fields that only
  limit its rate are left out.

  \<^bold>\<open>Bounds and termination.\<close> All loops are structural, over the list they range over, except the share loop of
  \<open>Storage_Plan\<close>, which ends because each pass pins a battery (its measure counts the open ones). The fuse saver
  searches all subsets of up to twelve candidates and a frontier of at most 512 states beyond; with up to twelve
  batteries the tick always returns, and with more the frontier can be empty, which the code indexes.

  \<^bold>\<open>Not modelled.\<close> Of the planner (\<open>mpc\<close>) the service around it and the external
  optimiser, a separate process; the charger controller (\<open>loadpoint\<close>) but for the demand and the surplus it hands over; \<open>config\<close>, \<open>api\<close>,
  the rest of \<open>cmd/ftw\<close> and \<open>state\<close>, which wire, parse and store; the drivers, wire protocols, links, forecasts, backups and
  updates, which are I/O or third-party code.
\<close>

end
